(* ===== verification/Prelude.thy ===== *)
theory Prelude
  imports Main "HOL-Library.Char_ord" "HOL-Library.List_Lexorder"
begin

text \<open>
  What the components share.

  \<^item> JavaScript values: strings are \<open>string\<close>, one \<open>char\<close> per UTF-16 code unit, so every
    statement is about texts in the Latin-1 range; numbers that reach a validation are \<open>js_number\<close>,
    which keeps the values \<open>Number.isSafeInteger\<close> refuses (NaN, infinities, fractions) as a
    constructor of their own; \<open>js_trim\<close> is \<open>String.prototype.trim\<close>; \<open>int_str\<close> is the decimal
    rendering of an integer; \<open>json\<close> with \<open>json_quote\<close> and \<open>canonical\<close> is the canonical text
    that payload hashes are taken of.
  \<^item> Exceptions: a computation that may throw has the type \<open>'e + 'a\<close>, the thrown error on the
    left; \<open>ebind\<close> sequences two of them and stops at the first error.
  \<^item> SQLite tables: a table is the list of its rows in insertion (rowid) order; \<open>update_where\<close>,
    \<open>sum_where\<close>, \<open>order_by\<close>, \<open>order_desc\<close> and \<open>find\<close> are the statements the stores use.
  \<^item> Protocols: the locales \<open>protocol_invariant\<close> and \<open>protocol_order_under\<close> lift facts about one
    action of a protocol to any finite sequence of actions. Every store interprets them.
\<close>

named_theorems err_simps \<open>rewrite rules that open error-propagating computations\<close>
named_theorems table_simps \<open>rewrite rules for table statements\<close>

section \<open>Errors as values\<close>

definition ebind :: "'e + 'a \<Rightarrow> ('a \<Rightarrow> 'e + 'b) \<Rightarrow> 'e + 'b" where
  "ebind m f = (case m of Inl e \<Rightarrow> Inl e | Inr x \<Rightarrow> f x)"

lemma ebind_Inl [simp]: "ebind (Inl e) f = Inl e"
  by (simp add: ebind_def)

lemma ebind_Inr [simp]: "ebind (Inr x) f = f x"
  by (simp add: ebind_def)

lemma ebind_eq_Inr [err_simps]: "ebind m f = Inr y \<longleftrightarrow> (\<exists>x. m = Inr x \<and> f x = Inr y)"
  by (cases m) auto

lemma ebind_eq_Inl [err_simps]:
  "ebind m f = Inl e \<longleftrightarrow> m = Inl e \<or> (\<exists>x. m = Inr x \<and> f x = Inl e)"
  by (cases m) auto

text \<open>\<open>guard_err c e\<close> throws \<open>e\<close> when \<open>c\<close> holds: the early exits of the source.\<close>

definition guard_err :: "bool \<Rightarrow> 'e \<Rightarrow> 'e + unit" where
  "guard_err c e = (if c then Inl e else Inr ())"

lemma guard_err_Inr [err_simps]: "guard_err c e = Inr u \<longleftrightarrow> \<not> c"
  by (simp add: guard_err_def)

lemma guard_err_Inl [err_simps]: "guard_err c e = Inl e' \<longleftrightarrow> c \<and> e' = e"
  by (auto simp: guard_err_def)

section \<open>JavaScript strings and numbers\<close>

text \<open>The code units \<open>trim\<close> strips: tab, line feed, vertical tab, form feed, carriage return,
  space and no-break space.\<close>

definition js_space :: "char \<Rightarrow> bool" where
  "js_space c \<longleftrightarrow> of_char c \<in> {9, 10, 11, 12, 13, 32, 160 :: nat}"

definition js_trim :: "string \<Rightarrow> string" where
  "js_trim s = rev (dropWhile js_space (rev (dropWhile js_space s)))"

lemma length_js_trim: "length (js_trim s) \<le> length s"
proof -
  have "length (js_trim s) \<le> length (dropWhile js_space s)"
    unfolding js_trim_def by (simp) (metis length_dropWhile_le length_rev)
  also have "\<dots> \<le> length s" by (rule length_dropWhile_le)
  finally show ?thesis .
qed

lemma dropWhile_idem: "dropWhile P (dropWhile P xs) = dropWhile P xs"
  by (induction xs) auto

lemma hd_dropWhile_ends:
  assumes "dropWhile P (rev ys) \<noteq> []" and "dropWhile P ys = ys"
  shows "dropWhile P (rev (dropWhile P (rev ys))) = rev (dropWhile P (rev ys))"
proof -
  obtain zs where zs: "ys = rev (dropWhile P (rev ys)) @ zs"
    by (metis rev_append rev_rev_ident takeWhile_dropWhile_id)
  let ?r = "rev (dropWhile P (rev ys))"
  from assms(1) obtain a as where a: "?r = a # as" by (cases ?r) auto
  with zs have "ys = a # as @ zs" by simp
  with assms(2) have "\<not> P a"
    by (metis dropWhile.simps(2) impossible_Cons length_dropWhile_le)
  with a show ?thesis by simp
qed

lemma js_trim_idem: "js_trim (js_trim s) = js_trim s"
proof (cases "dropWhile js_space (rev (dropWhile js_space s)) = []")
  case True
  then have "dropWhile js_space s = []"
    by (metis dropWhile_eq_Nil_conv dropWhile_idem set_rev)
  then show ?thesis by (simp only: js_trim_def rev.simps dropWhile.simps)
next
  case False
  from hd_dropWhile_ends [OF False dropWhile_idem] show ?thesis
    by (simp add: js_trim_def dropWhile_idem)
qed

datatype js_number = Jint int | Jother

definition max_safe_integer :: int where
  "max_safe_integer = 9007199254740991"

fun safe_integer :: "js_number \<Rightarrow> bool" where
  "safe_integer (Jint i) \<longleftrightarrow> \<bar>i\<bar> \<le> max_safe_integer"
| "safe_integer Jother \<longleftrightarrow> False"

subsection \<open>Decimal rendering\<close>

definition digit_char :: "nat \<Rightarrow> char" where
  "digit_char d = char_of (48 + d)"

fun nat_str :: "nat \<Rightarrow> string" where
  "nat_str n = (if n < 10 then [digit_char n] else nat_str (n div 10) @ [digit_char (n mod 10)])"

declare nat_str.simps [simp del]

definition int_str :: "int \<Rightarrow> string" where
  "int_str i = (if i < 0 then CHR ''-'' # nat_str (nat (- i)) else nat_str (nat i))"

text \<open>Reading the digits back, for the injectivity of the rendering.\<close>

definition digits_value :: "string \<Rightarrow> nat" where
  "digits_value s = foldl (\<lambda>n c. 10 * n + (of_char c - 48)) 0 s"

lemma of_char_digit: "d < 10 \<Longrightarrow> (of_char (digit_char d) :: nat) = 48 + d"
  by (simp add: digit_char_def of_char_of)

lemma digits_value_nat_str: "digits_value (nat_str n) = n"
proof (induction n rule: nat_str.induct)
  case (1 n)
  show ?case
  proof (cases "n < 10")
    case True
    then show ?thesis
      by (simp add: nat_str.simps [of n] digits_value_def of_char_digit)
  next
    case False
    with 1 have "digits_value (nat_str (n div 10)) = n div 10" by simp
    with False show ?thesis
      by (simp add: nat_str.simps [of n] digits_value_def of_char_digit)
  qed
qed

lemma nat_str_inject [simp]: "nat_str m = nat_str n \<longleftrightarrow> m = n"
  by (metis digits_value_nat_str)

lemma hd_nat_str: "nat_str n \<noteq> [] \<and> hd (nat_str n) \<noteq> CHR ''-''"
proof (induction n rule: nat_str.induct)
  case (1 n)
  have digit: "digit_char d \<noteq> CHR ''-''" if "d < 10" for d
  proof
    assume "digit_char d = CHR ''-''"
    then have "(of_char (digit_char d) :: nat) = of_char CHR ''-''" by simp
    with that show False by (simp add: of_char_digit)
  qed
  show ?case
  proof (cases "n < 10")
    case True
    with digit show ?thesis by (simp add: nat_str.simps [of n])
  next
    case False
    with 1 show ?thesis by (simp add: nat_str.simps [of n])
  qed
qed

lemma int_str_inject: "int_str i = int_str j \<longleftrightarrow> i = j"
proof -
  have neg: "CHR ''-'' # s \<noteq> nat_str n" for s n
    using hd_nat_str [of n] by (metis list.sel(1))
  show ?thesis
    using neg neg [symmetric] by (auto simp: int_str_def)
qed

section \<open>JSON values and the canonical text of a payload\<close>

datatype json =
  JNull | JUndefined | JBool bool | JNum int | JStr string
| JArr "json list" | JObj "(string \<times> json) list"

definition hex_char :: "nat \<Rightarrow> char" where
  "hex_char d = (if d < 10 then char_of (48 + d) else char_of (87 + d))"

text \<open>\<open>JSON.stringify\<close> of a string.\<close>

definition json_escape :: "char \<Rightarrow> string" where
  "json_escape c =
     (let n = of_char c :: nat in
      if n = 34 then [CHR 0x5C, CHR 0x22]
      else if n = 92 then [CHR 0x5C, CHR 0x5C]
      else if n = 8 then CHR 0x5C # ''b''
      else if n = 9 then CHR 0x5C # ''t''
      else if n = 10 then CHR 0x5C # ''n''
      else if n = 12 then CHR 0x5C # ''f''
      else if n = 13 then CHR 0x5C # ''r''
      else if n < 32 then CHR 0x5C # ''u00'' @ [hex_char (n div 16), hex_char (n mod 16)]
      else [c])"

definition json_quote :: "string \<Rightarrow> string" where
  "json_quote s = [CHR 0x22] @ concat (map json_escape s) @ [CHR 0x22]"

fun join_with :: "string \<Rightarrow> string list \<Rightarrow> string" where
  "join_with sep [] = []"
| "join_with sep [x] = x"
| "join_with sep (x # y # xs) = x @ sep @ join_with sep (y # xs)"

text \<open>
  \<open>localeCompare\<close> on the keys that occur, which are ASCII identifiers no two of which differ in
  case only: a comparison of the letters without their case.
\<close>

definition to_lower :: "char \<Rightarrow> char" where
  "to_lower c = (let n = of_char c :: nat in if 65 \<le> n \<and> n \<le> 90 then char_of (n + 32) else c)"

definition locale_key :: "string \<Rightarrow> string" where
  "locale_key s = map to_lower s"

definition sort_entries :: "(string \<times> 'a) list \<Rightarrow> (string \<times> 'a) list" where
  "sort_entries kvs = sort_key (\<lambda>kv. locale_key (fst kv)) kvs"

lemma set_sort_entries [simp]: "set (sort_entries kvs) = set kvs"
  by (simp add: sort_entries_def)

function canonical :: "json \<Rightarrow> string" where
  "canonical JNull = ''null''"
| "canonical JUndefined = ''undefined''"
| "canonical (JBool b) = (if b then ''true'' else ''false'')"
| "canonical (JNum i) = int_str i"
| "canonical (JStr s) = json_quote s"
| "canonical (JArr vs) = ''['' @ join_with '','' (map canonical vs) @ '']''"
| "canonical (JObj kvs) =
     ''{'' @ join_with '',''
       (map (\<lambda>kv. json_quote (fst kv) @ '':'' @ canonical (snd kv)) (sort_entries kvs)) @ ''}''"
  by pat_completeness auto
termination
proof (relation "measure size", goal_cases)
  case 1
  show ?case by simp
next
  case (2 vs v)
  then have "size v \<le> size_list size vs" by (simp add: size_list_estimation')
  then show ?case by simp
next
  case (3 kvs kv)
  then have "kv \<in> set kvs" by simp
  then have "size (snd kv) \<le> size_list (size_prod (\<lambda>_. 0) size) kvs"
    by (intro size_list_estimation' [where x = kv]) (cases kv; simp)+
  then show ?case by simp
qed

text \<open>The text of an optional string: \<open>null\<close> where it is absent.\<close>

definition json_opt :: "string option \<Rightarrow> json" where
  "json_opt v = (case v of None \<Rightarrow> JNull | Some s \<Rightarrow> JStr s)"

section \<open>Tables\<close>

definition update_where :: "('r \<Rightarrow> bool) \<Rightarrow> ('r \<Rightarrow> 'r) \<Rightarrow> 'r list \<Rightarrow> 'r list" where
  "update_where p f rows = map (\<lambda>r. if p r then f r else r) rows"

definition sum_where :: "('r \<Rightarrow> bool) \<Rightarrow> ('r \<Rightarrow> int) \<Rightarrow> 'r list \<Rightarrow> int" where
  "sum_where p f rows = sum_list (map f (filter p rows))"

definition order_by :: "('r \<Rightarrow> 'k::linorder) \<Rightarrow> 'r list \<Rightarrow> 'r list" where
  "order_by k rows = sort_key k rows"

text \<open>\<open>ORDER BY ... DESC\<close> as a backward walk of an index: the newest row first, also of equal keys.\<close>

definition order_desc :: "('r \<Rightarrow> 'k::linorder) \<Rightarrow> 'r list \<Rightarrow> 'r list" where
  "order_desc k rows = rev (order_by k rows)"

definition first_row :: "'r list \<Rightarrow> 'r option" where
  "first_row rows = (case rows of [] \<Rightarrow> None | r # _ \<Rightarrow> Some r)"

text \<open>
  The sort key of \<open>ORDER BY\<close> an integer column and then text columns; \<open>BINARY\<close> collation
  compares texts by their bytes. The instance is the lexicographic order.
\<close>

datatype sql_order = Sql_Order int "string list"

instantiation sql_order :: linorder
begin

fun less_eq_sql_order :: "sql_order \<Rightarrow> sql_order \<Rightarrow> bool" where
  "less_eq_sql_order (Sql_Order i xs) (Sql_Order j ys) \<longleftrightarrow> i < j \<or> i = j \<and> xs \<le> ys"

fun less_sql_order :: "sql_order \<Rightarrow> sql_order \<Rightarrow> bool" where
  "less_sql_order (Sql_Order i xs) (Sql_Order j ys) \<longleftrightarrow> i < j \<or> i = j \<and> xs < ys"

instance
proof
  fix a b c :: sql_order
  show "a < b \<longleftrightarrow> a \<le> b \<and> \<not> b \<le> a" by (cases a; cases b) auto
  show "a \<le> a" by (cases a) simp
  show "a \<le> b \<Longrightarrow> b \<le> c \<Longrightarrow> a \<le> c" by (cases a; cases b; cases c) auto
  show "a \<le> b \<Longrightarrow> b \<le> a \<Longrightarrow> a = b" by (cases a; cases b) auto
  show "a \<le> b \<or> b \<le> a" by (cases a; cases b) auto
qed

end

text \<open>The number of rows a statement changed.\<close>

definition count_where :: "('r \<Rightarrow> bool) \<Rightarrow> 'r list \<Rightarrow> nat" where
  "count_where p rows = length (filter p rows)"

lemma set_order_by [simp, table_simps]: "set (order_by k rows) = set rows"
  by (simp add: order_by_def)

lemma first_row_Some: "first_row rows = Some r \<Longrightarrow> r \<in> set rows"
  by (auto simp: first_row_def split: list.splits)

lemma first_row_None [simp]: "first_row rows = None \<longleftrightarrow> rows = []"
  by (auto simp: first_row_def split: list.splits)

lemma first_row_order_by:
  assumes "first_row (order_by k rows) = Some r" and "r' \<in> set rows"
  shows "k r \<le> k r'"
proof -
  from assms(1) obtain rs where rs: "sort_key k rows = r # rs"
    by (auto simp: first_row_def order_by_def split: list.splits)
  have "sorted (map k (sort_key k rows))" by simp
  with rs have "\<forall>y \<in> set rs. k r \<le> k y" by simp
  moreover from assms(2) rs have "r' \<in> set (r # rs)"
    by (metis set_sort)
  ultimately show ?thesis by auto
qed

lemma first_row_order_desc:
  assumes "first_row (order_desc k rows) = Some r" and "r' \<in> set rows"
  shows "k r' \<le> k r"
proof -
  from assms(1) obtain rs where rs: "rev (sort_key k rows) = r # rs"
    by (auto simp: first_row_def order_desc_def order_by_def split: list.splits)
  then have split: "sort_key k rows = rev rs @ [r]" by (metis rev.simps(2) rev_rev_ident)
  have "sorted (map k (sort_key k rows))" by simp
  then have "\<forall>y \<in> set rs. k y \<le> k r" by (simp add: split sorted_append)
  moreover from assms(2) have "r' \<in> set (rev rs @ [r])" by (metis split set_sort)
  ultimately show ?thesis by auto
qed

lemma set_order_desc [simp, table_simps]: "set (order_desc k rows) = set rows"
  by (simp add: order_desc_def)

lemma order_desc_sorted: "sorted (map k rows) \<Longrightarrow> order_desc k rows = rev rows"
  by (simp add: order_desc_def order_by_def sort_key_id_if_sorted)

lemma length_update_where [simp, table_simps]: "length (update_where p f rows) = length rows"
  by (simp add: update_where_def)

lemma map_update_where:
  "(\<And>r. r \<in> set rows \<Longrightarrow> p r \<Longrightarrow> g (f r) = g r) \<Longrightarrow> map g (update_where p f rows) = map g rows"
  by (simp add: update_where_def)

lemma in_update_where:
  "r \<in> set (update_where p f rows) \<longleftrightarrow> (\<exists>q \<in> set rows. r = (if p q then f q else q))"
  by (auto simp: update_where_def)

lemma find_Some_iff_in:
  "find p rows = Some r \<Longrightarrow> r \<in> set rows \<and> p r"
  by (auto simp: find_Some_iff in_set_conv_nth)

lemma find_None_all: "find p rows = None \<longleftrightarrow> (\<forall>r \<in> set rows. \<not> p r)"
  by (auto simp: find_None_iff)

text \<open>Lookup under a unique key: a row is what looking its key up finds.\<close>

lemma find_unique:
  assumes "distinct (map k rows)" and "r \<in> set rows" and "\<And>q. p q \<longleftrightarrow> k q = k r"
  shows "find p rows = Some r"
proof (cases "find p rows")
  case None
  with assms(2,3) show ?thesis by (auto simp: find_None_iff)
next
  case (Some q)
  then have "q \<in> set rows" and "k q = k r"
    using assms(3) by (auto dest: find_Some_iff_in)
  with assms(1,2) have "q = r" by (auto simp: distinct_map dest: inj_onD)
  with Some show ?thesis by simp
qed

lemma find_update_where:
  assumes "\<And>r. q r \<Longrightarrow> q (f r)" and "\<And>r. \<not> q r \<Longrightarrow> \<not> q (f r)"
  shows "find q (update_where p f rows) = map_option (\<lambda>r. if p r then f r else r) (find q rows)"
  by (induction rows) (use assms in \<open>auto simp: update_where_def\<close>)

lemma find_append: "find p (xs @ ys) = (case find p xs of None \<Rightarrow> find p ys | Some x \<Rightarrow> Some x)"
  by (induction xs) auto

subsection \<open>Sums over a table\<close>

lemma sum_where_Nil [simp]: "sum_where p f [] = 0"
  by (simp add: sum_where_def)

lemma sum_where_Cons:
  "sum_where p f (r # rows) = (if p r then f r else 0) + sum_where p f rows"
  by (simp add: sum_where_def)

lemma sum_where_append [table_simps]:
  "sum_where p f (xs @ ys) = sum_where p f xs + sum_where p f ys"
  by (simp add: sum_where_def)

lemma sum_where_alt: "sum_where p f rows = sum_list (map (\<lambda>r. if p r then f r else 0) rows)"
  by (induction rows) (auto simp: sum_where_Cons)

lemma sum_where_map_mono:
  assumes "\<And>r. r \<in> set rows \<Longrightarrow>
      (if p (g r) then f (g r) else 0) \<le> (if p r then f r else (0::int))"
  shows "sum_where p f (map g rows) \<le> sum_where p f rows"
  using assms by (induction rows) (force simp: sum_where_Cons)+

lemma sum_where_map_same:
  assumes "\<And>r. r \<in> set rows \<Longrightarrow>
      (if p (g r) then f (g r) else 0) = (if p r then f r else (0::int))"
  shows "sum_where p f (map g rows) = sum_where p f rows"
  using assms by (induction rows) (force simp: sum_where_Cons)+

lemma sum_order_by [table_simps]: "sum_list (map f (order_by k rows)) = (sum_list (map f rows) :: int)"
proof -
  have "sum_list (map f (insort_key k x xs)) = f x + (sum_list (map f xs) :: int)" for x xs
    by (induction xs) auto
  then show ?thesis unfolding order_by_def by (induction rows) auto
qed

lemma sum_list_neg: "sum_list (map (\<lambda>x. - f x) xs) = - (sum_list (map f xs) :: int)"
  by (induction xs) auto

text \<open>The sums of the groups of a table add up to the sum of the table.\<close>

lemma sum_groups:
  "sum_list (map (\<lambda>g. sum_where (\<lambda>r. key r = g) f rows) (remdups (map key rows))) = (sum_list (map f rows) :: int)"
proof -
  have "(\<Sum>g\<in>K. sum_where (\<lambda>r. key r = g) f rs) = sum_list (map f rs)"
    if "finite K" "key ` set rs \<subseteq> K" for K rs
    using that by (induction rs) (auto simp: sum_where_Cons sum.distrib)
  from this [of "key ` set rows" rows]
  show ?thesis by (simp add: sum_list_distinct_conv_sum_set)
qed

lemma sum_where_nonneg:
  "(\<And>r. r \<in> set rows \<Longrightarrow> p r \<Longrightarrow> 0 \<le> f r) \<Longrightarrow> 0 \<le> sum_where p f rows"
  by (induction rows) (auto simp: sum_where_Cons)

text \<open>Rewriting the one row with a given key changes the sum by that row's difference.\<close>

lemma sum_where_update_one:
  assumes "distinct (map k rows)" and "r \<in> set rows"
  shows "sum_where p f (update_where (\<lambda>q. k q = k r) g rows) =
    sum_where p f rows - (if p r then f r else 0) + (if p (g r) then f (g r) else 0)"
  using assms
proof (induction rows)
  case Nil
  then show ?case by simp
next
  case (Cons q rows)
  show ?case
  proof (cases "q = r")
    case True
    with Cons.prems have "k r \<notin> k ` set rows" by simp
    then have "update_where (\<lambda>q. k q = k r) g rows = rows"
      unfolding update_where_def by (intro map_idI) (metis image_eqI)
    with True show ?thesis
      by (simp add: update_where_def sum_where_Cons)
  next
    case False
    with Cons.prems have r: "r \<in> set rows" and "distinct (map k rows)" and "k q \<noteq> k r"
      by auto
    with Cons.IH show ?thesis
      by (simp add: update_where_def sum_where_Cons)
  qed
qed

section \<open>Protocols\<close>

text \<open>
  A protocol is a relation \<open>act\<close> on states; its runs are \<open>act\<^sup>*\<^sup>*\<close>. What one action keeps, every
  run keeps.
\<close>

locale protocol_invariant =
  fixes act :: "'s \<Rightarrow> 's \<Rightarrow> bool" and inv :: "'s \<Rightarrow> bool"
  assumes act_keeps: "act s t \<Longrightarrow> inv s \<Longrightarrow> inv t"
begin

lemma run_keeps:
  assumes "act\<^sup>*\<^sup>* s t" and "inv s"
  shows "inv t"
  using assms by (induction rule: rtranclp_induct) (auto intro: act_keeps)

end

text \<open>A protocol whose actions, from states with the invariant, only move the state up in an order.\<close>

locale protocol_order_under = protocol_invariant act inv
  for act :: "'s \<Rightarrow> 's \<Rightarrow> bool" and inv :: "'s \<Rightarrow> bool" +
  fixes before :: "'s \<Rightarrow> 's \<Rightarrow> bool"
  assumes before_refl: "before s s"
    and before_trans: "before s t \<Longrightarrow> before t u \<Longrightarrow> before s u"
    and act_moves_up: "inv s \<Longrightarrow> act s t \<Longrightarrow> before s t"
begin

lemma run_moves_up:
  assumes "act\<^sup>*\<^sup>* s t" and "inv s"
  shows "before s t"
  using assms
proof (induction rule: rtranclp_induct)
  case base
  show ?case by (rule before_refl)
next
  case (step t u)
  then have "inv t" by (blast intro: run_keeps)
  with step show ?case by (blast intro: before_trans act_moves_up)
qed

end

text \<open>
  A machine with operations: \<open>step\<close> runs one operation of the interface, \<open>act\<close> is the protocol
  its steps follow. A run of operations is a run of the protocol.
\<close>

locale operations =
  fixes step :: "'op \<Rightarrow> 's \<Rightarrow> 's" and act :: "'s \<Rightarrow> 's \<Rightarrow> bool"
  assumes step_follows: "act\<^sup>*\<^sup>* s (step x s)"
begin

lemma fold_follows: "act\<^sup>*\<^sup>* s (fold step xs s)"
proof (induction xs arbitrary: s)
  case Nil
  show ?case by simp
next
  case (Cons x xs)
  show ?case
    using step_follows [of s x] Cons.IH [of "step x s"] by (simp add: rtranclp_trans)
qed

end

end
