(* ===== verification/Ledger_State.thy ===== *)
theory Ledger_State
  imports Prelude
begin

text \<open>
  The state of \<open>PhylaxAllowanceLedger\<close> (packages/server/src/phylaxAllowanceLedger.ts): its three
  SQLite tables and the trigger-maintained totals, the validations of its inputs, and the private
  queries the public operations are built from.

  \<^item> A row of a table is a record; a nullable column is an \<open>option\<close>.
  \<^item> \<open>Plain_Error\<close> is \<open>Error\<close>, \<open>Conflict_Error\<close> is \<open>PhylaxLedgerConflictError\<close>, and
    \<open>Constraint_Error\<close> is what SQLite raises when an insert breaks a primary key or unique index.
  \<^item> \<open>'a tx\<close> is the body of a transaction: an error (rolled back) or a value and the new tables.
  \<^item> \<open>sha\<close>, an argument of the operations that hash a payload, is the hexadecimal SHA-256 of
    \<open>node:crypto\<close>; nothing is assumed of it here.
  \<^item> \<open>t\<close> in an operation is its clock: \<open>t i\<close> is what the \<open>i\<close>-th place of the method that reads
    \<open>this.now()\<close> gets.
\<close>

section \<open>Rows and tables\<close>

datatype entry_kind = Grant | Adjustment | Expiry | Usage | Suspend | Resume

fun kind_text :: "entry_kind \<Rightarrow> string" where
  "kind_text Grant = ''grant''"
| "kind_text Adjustment = ''adjustment''"
| "kind_text Expiry = ''expiry''"
| "kind_text Usage = ''usage''"
| "kind_text Suspend = ''suspend''"
| "kind_text Resume = ''resume''"

type_synonym cost_basis = string

record period_row =
  p_tenant :: string
  p_period :: string
  p_starts :: int
  p_ends :: int
  p_created :: int

record entry_row =
  e_sequence :: int
  e_tenant :: string
  e_period :: "string option"
  e_kind :: entry_kind
  e_amount :: int
  e_source :: string
  e_key :: string
  e_hash :: string
  e_tariff :: string
  e_reason :: string
  e_event :: "string option"
  e_operation :: "string option"
  e_provider :: "string option"
  e_model :: "string option"
  e_basis :: "cost_basis option"
  e_occurred :: int
  e_created :: int

datatype work_state = Captured | Ready | Paused | Processing | Done | Cancelled

datatype pause_reason = Insufficient_Allowance | Tenant_Suspended | Period_Inactive

record work_row =
  w_id :: string
  w_tenant :: string
  w_period :: string
  w_key :: string
  w_hash :: string
  w_event :: string
  w_operation :: string
  w_custody :: string
  w_estimated :: int
  w_reserved :: int
  w_state :: work_state
  w_pause :: "pause_reason option"
  w_lease_owner :: "string option"
  w_lease_token :: "string option"
  w_lease_until :: "int option"
  w_done_owner :: "string option"
  w_done_token :: "string option"
  w_usage_seq :: "int option"
  w_receipt :: "string option"
  w_cancel_at :: "int option"
  w_created :: int
  w_updated :: int

record totals_row =
  t_balance :: int
  t_allocated :: int
  t_used :: int

record ledger =
  periods :: "period_row list"
  entries :: "entry_row list"
  next_seq :: int
  totals :: "string \<Rightarrow> string \<Rightarrow> totals_row option"
  works :: "work_row list"

definition empty_ledger :: ledger where
  "empty_ledger = \<lparr>periods = [], entries = [], next_seq = 1, totals = (\<lambda>_ _. None), works = []\<rparr>"

section \<open>What callers see of a row\<close>

record allowance_entry =
  ae_sequence :: int
  ae_tenant :: string
  ae_period :: "string option"
  ae_kind :: entry_kind
  ae_amount :: int
  ae_source :: string
  ae_key :: string
  ae_tariff :: string
  ae_reason :: string
  ae_event :: "string option"
  ae_operation :: "string option"
  ae_provider :: "string option"
  ae_model :: "string option"
  ae_basis :: "cost_basis option"
  ae_occurred :: int
  ae_created :: int

definition entry_of :: "entry_row \<Rightarrow> allowance_entry" where
  "entry_of row =
     \<lparr>ae_sequence = e_sequence row, ae_tenant = e_tenant row, ae_period = e_period row,
      ae_kind = e_kind row, ae_amount = e_amount row, ae_source = e_source row,
      ae_key = e_key row, ae_tariff = e_tariff row, ae_reason = e_reason row,
      ae_event = e_event row, ae_operation = e_operation row, ae_provider = e_provider row,
      ae_model = e_model row, ae_basis = e_basis row, ae_occurred = e_occurred row,
      ae_created = e_created row\<rparr>"

record ledger_mutation =
  lm_entry :: allowance_entry
  lm_replayed :: bool

record paid_work =
  pw_id :: string
  pw_tenant :: string
  pw_period :: string
  pw_key :: string
  pw_event :: string
  pw_operation :: string
  pw_custody :: string
  pw_estimated :: int
  pw_reserved :: int
  pw_state :: work_state
  pw_pause :: "pause_reason option"
  pw_lease_owner :: "string option"
  pw_lease_token :: "string option"
  pw_lease_until :: "int option"
  pw_usage_seq :: "int option"
  pw_receipt :: "string option"
  pw_created :: int
  pw_updated :: int

definition paid_work_of :: "work_row \<Rightarrow> paid_work" where
  "paid_work_of row =
     \<lparr>pw_id = w_id row, pw_tenant = w_tenant row, pw_period = w_period row, pw_key = w_key row,
      pw_event = w_event row, pw_operation = w_operation row, pw_custody = w_custody row,
      pw_estimated = w_estimated row, pw_reserved = w_reserved row, pw_state = w_state row,
      pw_pause = w_pause row, pw_lease_owner = w_lease_owner row,
      pw_lease_token = w_lease_token row, pw_lease_until = w_lease_until row,
      pw_usage_seq = w_usage_seq row, pw_receipt = w_receipt row,
      pw_created = w_created row, pw_updated = w_updated row\<rparr>"

section \<open>Errors and transactions\<close>

datatype ledger_error = Plain_Error string | Conflict_Error string | Constraint_Error

type_synonym 'a res = "ledger_error + 'a"
type_synonym 'a tx = "ledger \<Rightarrow> ledger_error + ('a \<times> ledger)"
type_synonym clock = "nat \<Rightarrow> int"

definition transaction :: "'a tx \<Rightarrow> ledger \<Rightarrow> 'a res \<times> ledger" where
  "transaction run db = (case run db of Inl e \<Rightarrow> (Inl e, db) | Inr (v, db') \<Rightarrow> (Inr v, db'))"

text \<open>\<open>after v f db\<close>: inputs are normalised before the transaction starts.\<close>

definition after :: "'a res \<Rightarrow> ('a \<Rightarrow> ledger \<Rightarrow> 'b res \<times> ledger) \<Rightarrow> ledger \<Rightarrow> 'b res \<times> ledger" where
  "after v f db = (case v of Inl e \<Rightarrow> (Inl e, db) | Inr x \<Rightarrow> f x db)"

text \<open>A committed attempt whose error is thrown after the commit.\<close>

definition throw_attempt :: "'a res res \<times> ledger \<Rightarrow> 'a res \<times> ledger" where
  "throw_attempt r = (case r of (Inl e, db) \<Rightarrow> (Inl e, db) | (Inr v, db) \<Rightarrow> (v, db))"

section \<open>Validation\<close>

definition required :: "string \<Rightarrow> string \<Rightarrow> nat \<Rightarrow> string res" where
  "required value field mx =
     (let normalized = js_trim value in
      if normalized = [] then Inl (Plain_Error (field @ '' is required''))
      else if length normalized > mx
        then Inl (Plain_Error (field @ '' must be at most '' @ nat_str mx @ '' characters''))
      else Inr normalized)"

definition units :: "js_number \<Rightarrow> string \<Rightarrow> bool \<Rightarrow> bool \<Rightarrow> int res" where
  "units value field positive nonneg =
     (case value of
        Jother \<Rightarrow> Inl (Plain_Error (field @ '' must be a safe integer''))
      | Jint i \<Rightarrow>
          if \<not> safe_integer value then Inl (Plain_Error (field @ '' must be a safe integer''))
          else if positive \<and> i \<le> 0 then Inl (Plain_Error (field @ '' must be positive''))
          else if nonneg \<and> i < 0 then Inl (Plain_Error (field @ '' must not be negative''))
          else Inr i)"

definition timestamp :: "js_number \<Rightarrow> string \<Rightarrow> int res" where
  "timestamp value field =
     (case value of
        Jother \<Rightarrow> Inl (Plain_Error (field @ '' must be a non-negative integer timestamp''))
      | Jint i \<Rightarrow>
          if \<not> safe_integer value \<or> i < 0
            then Inl (Plain_Error (field @ '' must be a non-negative integer timestamp''))
          else Inr i)"

definition trim_or_null :: "string option \<Rightarrow> string option" where
  "trim_or_null v = (case v of None \<Rightarrow> None | Some s \<Rightarrow> if js_trim s = [] then None else Some (js_trim s))"

definition payload_hash :: "(string \<Rightarrow> string) \<Rightarrow> (string \<times> json) list \<Rightarrow> string" where
  "payload_hash sha payload = sha (canonical (JObj payload))"

definition or_clock :: "js_number option \<Rightarrow> int \<Rightarrow> js_number" where
  "or_clock v now = (case v of Some n \<Rightarrow> n | None \<Rightarrow> Jint now)"

section \<open>Queries\<close>

definition period_totals :: "ledger \<Rightarrow> string \<Rightarrow> string \<Rightarrow> totals_row" where
  "period_totals db tenant period =
     (case totals db tenant period of
        None \<Rightarrow> \<lparr>t_balance = 0, t_allocated = 0, t_used = 0\<rparr>
      | Some row \<Rightarrow> row)"

definition period_of :: "ledger \<Rightarrow> string \<Rightarrow> string \<Rightarrow> period_row option" where
  "period_of db tenant period =
     find (\<lambda>p. p_tenant p = tenant \<and> p_period p = period) (periods db)"

definition entry_by_idempotency :: "ledger \<Rightarrow> string \<Rightarrow> string \<Rightarrow> entry_row option" where
  "entry_by_idempotency db tenant key =
     find (\<lambda>e. e_tenant e = tenant \<and> e_key e = key) (entries db)"

definition usage_by_provider_event ::
  "ledger \<Rightarrow> string \<Rightarrow> string \<Rightarrow> string \<Rightarrow> entry_row option" where
  "usage_by_provider_event db tenant event operation =
     find (\<lambda>e. e_tenant e = tenant \<and> e_kind e = Usage \<and> e_event e = Some event
               \<and> e_operation e = Some operation) (entries db)"

definition work_of :: "ledger \<Rightarrow> string \<Rightarrow> work_row option" where
  "work_of db i = find (\<lambda>w. w_id w = i) (works db)"

definition work_by_idempotency :: "ledger \<Rightarrow> string \<Rightarrow> string \<Rightarrow> work_row option" where
  "work_by_idempotency db tenant key =
     find (\<lambda>w. w_tenant w = tenant \<and> w_key w = key) (works db)"

definition work_by_provider_event ::
  "ledger \<Rightarrow> string \<Rightarrow> string \<Rightarrow> string \<Rightarrow> work_row option" where
  "work_by_provider_event db tenant event operation =
     find (\<lambda>w. w_tenant w = tenant \<and> w_event w = event \<and> w_operation w = operation) (works db)"

text \<open>\<open>sequence\<close> is the rowid of an entry, so \<open>ORDER BY sequence DESC\<close> is the table backwards.\<close>

definition is_suspended :: "ledger \<Rightarrow> string \<Rightarrow> bool" where
  "is_suspended db tenant =
     (case rev (filter (\<lambda>e. e_tenant e = tenant \<and> e_kind e \<in> {Suspend, Resume}) (entries db)) of
        [] \<Rightarrow> False
      | latest # _ \<Rightarrow> e_kind latest = Suspend)"

definition period_balance :: "ledger \<Rightarrow> string \<Rightarrow> string \<Rightarrow> int" where
  "period_balance db tenant period = t_balance (period_totals db tenant period)"

definition reserved_in_period :: "ledger \<Rightarrow> string \<Rightarrow> string \<Rightarrow> int" where
  "reserved_in_period db tenant period =
     sum_where (\<lambda>w. w_tenant w = tenant \<and> w_period w = period \<and> w_state w \<in> {Ready, Processing})
       w_reserved (works db)"

definition available_in_period :: "ledger \<Rightarrow> string \<Rightarrow> string \<Rightarrow> int" where
  "available_in_period db tenant period =
     max 0 (period_balance db tenant period - reserved_in_period db tenant period)"

definition max_sequence :: "(entry_row \<Rightarrow> bool) \<Rightarrow> ledger \<Rightarrow> int" where
  "max_sequence p db = foldr max (map e_sequence (filter p (entries db))) 0"

definition revision :: "string \<Rightarrow> ledger \<Rightarrow> string res" where
  "revision tenant_input db =
     ebind (required tenant_input ''tenantId'' 512) (\<lambda>tenant.
       Inr (int_str (max_sequence (\<lambda>e. e_tenant e = tenant) db)))"

section \<open>Inserting an entry\<close>

text \<open>
  The trigger \<open>phylax_allowance_totals_insert\<close>: an entry of a period is added to the period's
  totals row, which is created on its first entry.
\<close>

definition entry_totals :: "entry_row \<Rightarrow> totals_row" where
  "entry_totals e =
     \<lparr>t_balance = e_amount e,
      t_allocated = (if e_kind e \<in> {Grant, Adjustment, Expiry} then e_amount e else 0),
      t_used = (if e_kind e = Usage then - e_amount e else 0)\<rparr>"

definition add_totals :: "totals_row \<Rightarrow> totals_row \<Rightarrow> totals_row" where
  "add_totals a b =
     \<lparr>t_balance = t_balance a + t_balance b, t_allocated = t_allocated a + t_allocated b,
      t_used = t_used a + t_used b\<rparr>"

definition bump_totals ::
  "entry_row \<Rightarrow> (string \<Rightarrow> string \<Rightarrow> totals_row option) \<Rightarrow> string \<Rightarrow> string \<Rightarrow> totals_row option" where
  "bump_totals e tot =
     (case e_period e of
        None \<Rightarrow> tot
      | Some period \<Rightarrow>
          tot(e_tenant e := (tot (e_tenant e))(period :=
            Some (case tot (e_tenant e) period of
                    None \<Rightarrow> entry_totals e
                  | Some row \<Rightarrow> add_totals row (entry_totals e)))))"

text \<open>
  \<open>UNIQUE (tenant_id, idempotency_key)\<close> and the partial unique index
  \<open>phylax_allowance_usage_event\<close>.
\<close>

definition entry_clash :: "ledger \<Rightarrow> entry_row \<Rightarrow> bool" where
  "entry_clash db e \<longleftrightarrow>
     entry_by_idempotency db (e_tenant e) (e_key e) \<noteq> None \<or>
     (e_kind e = Usage \<and>
      (case (e_event e, e_operation e) of
         (Some event, Some operation) \<Rightarrow>
           usage_by_provider_event db (e_tenant e) event operation \<noteq> None
       | _ \<Rightarrow> False))"

definition insert_entry :: "entry_row \<Rightarrow> entry_row tx" where
  "insert_entry draft db =
     (if entry_clash db draft then Inl Constraint_Error
      else let row = draft\<lparr>e_sequence := next_seq db\<rparr> in
        Inr (row, db\<lparr>entries := entries db @ [row], next_seq := next_seq db + 1,
                     totals := bump_totals row (totals db)\<rparr>))"

definition replay_or_conflict :: "entry_row \<Rightarrow> string \<Rightarrow> ledger_mutation res" where
  "replay_or_conflict existing expected =
     (if e_hash existing \<noteq> expected
        then Inl (Conflict_Error ''idempotency identity was reused with different ledger input'')
      else Inr \<lparr>lm_entry = entry_of existing, lm_replayed = True\<rparr>)"

section \<open>Periods\<close>

definition ensure_period :: "string \<Rightarrow> string \<Rightarrow> int \<Rightarrow> int \<Rightarrow> int \<Rightarrow> period_row tx" where
  "ensure_period tenant_in period_in starts_in ends_in created db =
     ebind (required tenant_in ''tenantId'' 512) (\<lambda>tenant.
     ebind (required period_in ''periodId'' 512) (\<lambda>period.
     ebind (timestamp (Jint starts_in) ''startsAt'') (\<lambda>starts.
     ebind (timestamp (Jint ends_in) ''endsAt'') (\<lambda>ends.
     ebind (guard_err (ends \<le> starts) (Plain_Error ''endsAt must be after startsAt'')) (\<lambda>_.
       let fresh = \<lparr>p_tenant = tenant, p_period = period, p_starts = starts, p_ends = ends,
                    p_created = created\<rparr>;
           db' = (if period_of db tenant period = None
                  then db\<lparr>periods := periods db @ [fresh]\<rparr> else db);
           existing = (case period_of db' tenant period of Some p \<Rightarrow> p | None \<Rightarrow> fresh)
       in if p_starts existing \<noteq> starts \<or> p_ends existing \<noteq> ends
            then Inl (Conflict_Error ''period identity was reused with different boundaries'')
          else Inr (existing, db'))))))"

definition assert_period_open :: "period_row \<Rightarrow> int \<Rightarrow> unit res" where
  "assert_period_open p at = guard_err (p_ends p \<le> at) (Plain_Error ''allowance period is closed'')"

section \<open>Opening an existing file\<close>

text \<open>
  The constructor creates what is missing. On a file from before the totals table existed it
  rebuilds the totals from the entries, and it fills the receipt column of completed work from
  the usage entry the work points at.
\<close>

definition backfill_totals :: "entry_row list \<Rightarrow> string \<Rightarrow> string \<Rightarrow> totals_row option" where
  "backfill_totals es tenant period =
     (let grp = (\<lambda>e. e_tenant e = tenant \<and> e_period e = Some period) in
      if filter grp es = [] then None
      else Some
        \<lparr>t_balance = sum_where grp e_amount es,
         t_allocated = sum_where grp
           (\<lambda>e. if e_kind e \<in> {Grant, Adjustment, Expiry} then e_amount e else 0) es,
         t_used = - sum_where grp (\<lambda>e. if e_kind e = Usage then e_amount e else 0) es\<rparr>)"

definition backfill_receipt :: "entry_row list \<Rightarrow> work_row \<Rightarrow> work_row" where
  "backfill_receipt es w =
     w\<lparr>w_receipt :=
         (case w_usage_seq w of
            None \<Rightarrow> None
          | Some s \<Rightarrow> (case find (\<lambda>e. e_sequence e = s) es of None \<Rightarrow> None | Some e \<Rightarrow> e_event e))\<rparr>"

definition open_ledger :: "bool \<Rightarrow> ledger \<Rightarrow> ledger" where
  "open_ledger had_totals db =
     (let db1 = (if had_totals then db else db\<lparr>totals := backfill_totals (entries db)\<rparr>) in
      db1\<lparr>works := update_where
            (\<lambda>w. w_state w = Done \<and> w_receipt w = None \<and> w_usage_seq w \<noteq> None)
            (backfill_receipt (entries db1)) (works db1)\<rparr>)"

section \<open>Facts about the tables\<close>

lemmas ledger_queries =
  period_totals_def period_of_def entry_by_idempotency_def usage_by_provider_event_def
  work_of_def work_by_idempotency_def work_by_provider_event_def

lemma insert_entry_Inr [err_simps]:
  "insert_entry draft db = Inr (row, db') \<longleftrightarrow>
     \<not> entry_clash db draft \<and> row = draft\<lparr>e_sequence := next_seq db\<rparr> \<and>
     db' = db\<lparr>entries := entries db @ [row], next_seq := next_seq db + 1,
              totals := bump_totals row (totals db)\<rparr>"
  by (auto simp: insert_entry_def Let_def)

lemma replay_Inr [err_simps]:
  "replay_or_conflict e h = Inr m \<longleftrightarrow> e_hash e = h \<and> m = \<lparr>lm_entry = entry_of e, lm_replayed = True\<rparr>"
  by (auto simp: replay_or_conflict_def)

lemma required_Inr:
  "required v f mx = Inr n \<Longrightarrow> n = js_trim v \<and> n \<noteq> [] \<and> length n \<le> mx"
  by (auto simp: required_def Let_def split: if_splits)

lemma required_iff:
  "required v f mx = Inr n \<longleftrightarrow> n = js_trim v \<and> n \<noteq> [] \<and> length n \<le> mx"
  by (auto simp: required_def Let_def)

lemma units_Inr:
  "units v f pos nn = Inr i \<Longrightarrow> v = Jint i \<and> \<bar>i\<bar> \<le> max_safe_integer \<and> (pos \<longrightarrow> 0 < i) \<and> (nn \<longrightarrow> 0 \<le> i)"
  by (auto simp: units_def split: js_number.splits if_splits)

lemma timestamp_Inr: "timestamp v f = Inr i \<Longrightarrow> v = Jint i \<and> 0 \<le> i \<and> i \<le> max_safe_integer"
  by (auto simp: timestamp_def split: js_number.splits if_splits)

lemma transaction_cases:
  obtains (thrown) e where "run db = Inl e" and "transaction run db = (Inl e, db)"
  | (committed) v db' where "run db = Inr (v, db')" and "transaction run db = (Inr v, db')"
  by (cases "run db") (auto simp: transaction_def)

lemma snd_transaction:
  "snd (transaction run db) = (case run db of Inl _ \<Rightarrow> db | Inr (_, db') \<Rightarrow> db')"
  by (auto simp: transaction_def split: sum.splits)

lemma snd_throw_attempt [simp]: "snd (throw_attempt r) = snd r"
  by (auto simp: throw_attempt_def split: prod.splits sum.splits)

lemma snd_after: "snd (after v f db) = (case v of Inl _ \<Rightarrow> db | Inr x \<Rightarrow> snd (f x db))"
  by (auto simp: after_def split: sum.splits)

end
