(* ===== verification/Ledger_Entries.thy ===== *)
theory Ledger_Entries
  imports Ledger_State
begin

text \<open>
  The operations of \<open>PhylaxAllowanceLedger\<close> that post entries (\<open>grantAllowance\<close>,
  \<open>adjustAllowance\<close>, \<open>recordUsage\<close>, \<open>suspendTenant\<close> and \<open>resumeTenant\<close>,
  \<open>reconcileExpiredPeriods\<close>) and the projections read from them.
\<close>

section \<open>Grants\<close>

record grant_input =
  gi_tenant :: string
  gi_period :: string
  gi_starts :: js_number
  gi_ends :: js_number
  gi_amount :: js_number
  gi_source :: string
  gi_key :: string
  gi_tariff :: string
  gi_reason :: string
  gi_occurred :: "js_number option"

record grant_norm =
  gn_tenant :: string
  gn_period :: string
  gn_starts :: int
  gn_ends :: int
  gn_amount :: int
  gn_source :: string
  gn_key :: string
  gn_tariff :: string
  gn_reason :: string
  gn_occurred :: int

definition normalize_grant :: "clock \<Rightarrow> grant_input \<Rightarrow> grant_norm res" where
  "normalize_grant t i =
     ebind (required (gi_tenant i) ''tenantId'' 512) (\<lambda>tenant.
     ebind (required (gi_period i) ''periodId'' 512) (\<lambda>period.
     ebind (timestamp (gi_starts i) ''startsAt'') (\<lambda>starts.
     ebind (timestamp (gi_ends i) ''endsAt'') (\<lambda>ends.
     ebind (units (gi_amount i) ''amountUnits'' True False) (\<lambda>amount.
     ebind (required (gi_source i) ''source'' 512) (\<lambda>source.
     ebind (required (gi_key i) ''idempotencyKey'' 512) (\<lambda>key.
     ebind (required (gi_tariff i) ''tariffVersion'' 512) (\<lambda>tariff.
     ebind (required (gi_reason i) ''auditReason'' 2000) (\<lambda>reason.
     ebind (timestamp (or_clock (gi_occurred i) (t 0)) ''occurredAt'') (\<lambda>occurred.
       Inr \<lparr>gn_tenant = tenant, gn_period = period, gn_starts = starts, gn_ends = ends,
            gn_amount = amount, gn_source = source, gn_key = key, gn_tariff = tariff,
            gn_reason = reason, gn_occurred = occurred\<rparr>))))))))))"

definition grant_hash :: "(string \<Rightarrow> string) \<Rightarrow> grant_norm \<Rightarrow> string" where
  "grant_hash sha n = payload_hash sha
     [(''tenantId'', JStr (gn_tenant n)), (''periodId'', JStr (gn_period n)),
      (''startsAt'', JNum (gn_starts n)), (''endsAt'', JNum (gn_ends n)),
      (''amountUnits'', JNum (gn_amount n)), (''source'', JStr (gn_source n)),
      (''idempotencyKey'', JUndefined), (''tariffVersion'', JStr (gn_tariff n)),
      (''auditReason'', JStr (gn_reason n)), (''occurredAt'', JUndefined)]"

definition grant_draft :: "string \<Rightarrow> int \<Rightarrow> grant_norm \<Rightarrow> entry_row" where
  "grant_draft hash created n =
     \<lparr>e_sequence = 0, e_tenant = gn_tenant n, e_period = Some (gn_period n), e_kind = Grant,
      e_amount = gn_amount n, e_source = gn_source n, e_key = gn_key n, e_hash = hash,
      e_tariff = gn_tariff n, e_reason = gn_reason n, e_event = None, e_operation = None,
      e_provider = None, e_model = None, e_basis = None, e_occurred = gn_occurred n,
      e_created = created\<rparr>"

definition grant_tx :: "(string \<Rightarrow> string) \<Rightarrow> clock \<Rightarrow> grant_norm \<Rightarrow> ledger_mutation tx" where
  "grant_tx sha t n db =
     (let hash = grant_hash sha n in
      case entry_by_idempotency db (gn_tenant n) (gn_key n) of
        Some existing \<Rightarrow> ebind (replay_or_conflict existing hash) (\<lambda>m. Inr (m, db))
      | None \<Rightarrow>
          let created = t 1 in
          ebind (ensure_period (gn_tenant n) (gn_period n) (gn_starts n) (gn_ends n) created db)
            (\<lambda>(period, db1).
          ebind (assert_period_open period created) (\<lambda>_.
          ebind (insert_entry (grant_draft hash created n) db1) (\<lambda>(row, db2).
            Inr (\<lparr>lm_entry = entry_of row, lm_replayed = False\<rparr>, db2)))))"

definition grant_allowance ::
  "(string \<Rightarrow> string) \<Rightarrow> clock \<Rightarrow> grant_input \<Rightarrow> ledger \<Rightarrow> ledger_mutation res \<times> ledger" where
  "grant_allowance sha t i = after (normalize_grant t i) (\<lambda>n. transaction (grant_tx sha t n))"

section \<open>Adjustments\<close>

record adjust_input =
  ai_tenant :: string
  ai_period :: string
  ai_amount :: js_number
  ai_source :: string
  ai_key :: string
  ai_tariff :: string
  ai_reason :: string
  ai_occurred :: "js_number option"

record adjust_norm =
  an_tenant :: string
  an_period :: string
  an_amount :: int
  an_source :: string
  an_key :: string
  an_tariff :: string
  an_reason :: string
  an_occurred :: int

definition normalize_adjust :: "clock \<Rightarrow> adjust_input \<Rightarrow> adjust_norm res" where
  "normalize_adjust t i =
     ebind (required (ai_tenant i) ''tenantId'' 512) (\<lambda>tenant.
     ebind (required (ai_period i) ''periodId'' 512) (\<lambda>period.
     ebind (units (ai_amount i) ''amountUnits'' False False) (\<lambda>amount.
     ebind (required (ai_source i) ''source'' 512) (\<lambda>source.
     ebind (required (ai_key i) ''idempotencyKey'' 512) (\<lambda>key.
     ebind (required (ai_tariff i) ''tariffVersion'' 512) (\<lambda>tariff.
     ebind (required (ai_reason i) ''auditReason'' 2000) (\<lambda>reason.
     ebind (timestamp (or_clock (ai_occurred i) (t 0)) ''occurredAt'') (\<lambda>occurred.
     ebind (guard_err (amount = 0) (Plain_Error ''amountUnits must not be zero'')) (\<lambda>_.
       Inr \<lparr>an_tenant = tenant, an_period = period, an_amount = amount, an_source = source,
            an_key = key, an_tariff = tariff, an_reason = reason, an_occurred = occurred\<rparr>)))))))))"

definition adjust_hash :: "(string \<Rightarrow> string) \<Rightarrow> adjust_norm \<Rightarrow> string" where
  "adjust_hash sha n = payload_hash sha
     [(''tenantId'', JStr (an_tenant n)), (''periodId'', JStr (an_period n)),
      (''amountUnits'', JNum (an_amount n)), (''source'', JStr (an_source n)),
      (''idempotencyKey'', JUndefined), (''tariffVersion'', JStr (an_tariff n)),
      (''auditReason'', JStr (an_reason n)), (''occurredAt'', JUndefined)]"

definition adjust_draft :: "string \<Rightarrow> int \<Rightarrow> adjust_norm \<Rightarrow> entry_row" where
  "adjust_draft hash created n =
     \<lparr>e_sequence = 0, e_tenant = an_tenant n, e_period = Some (an_period n), e_kind = Adjustment,
      e_amount = an_amount n, e_source = an_source n, e_key = an_key n, e_hash = hash,
      e_tariff = an_tariff n, e_reason = an_reason n, e_event = None, e_operation = None,
      e_provider = None, e_model = None, e_basis = None, e_occurred = an_occurred n,
      e_created = created\<rparr>"

definition adjust_tx :: "(string \<Rightarrow> string) \<Rightarrow> clock \<Rightarrow> adjust_norm \<Rightarrow> ledger_mutation tx" where
  "adjust_tx sha t n db =
     (let hash = adjust_hash sha n in
      case entry_by_idempotency db (an_tenant n) (an_key n) of
        Some existing \<Rightarrow> ebind (replay_or_conflict existing hash) (\<lambda>m. Inr (m, db))
      | None \<Rightarrow>
         (case period_of db (an_tenant n) (an_period n) of
            None \<Rightarrow> Inl (Plain_Error ''allowance period does not exist'')
          | Some period \<Rightarrow>
              ebind (assert_period_open period (t 1)) (\<lambda>_.
              ebind (guard_err
                  (an_amount n < 0 \<and>
                   - an_amount n > available_in_period db (an_tenant n) (an_period n))
                  (Plain_Error ''negative adjustment may reclaim only unused allowance'')) (\<lambda>_.
              ebind (insert_entry (adjust_draft hash (t 2) n) db) (\<lambda>(row, db1).
                Inr (\<lparr>lm_entry = entry_of row, lm_replayed = False\<rparr>, db1))))))"

definition adjust_allowance ::
  "(string \<Rightarrow> string) \<Rightarrow> clock \<Rightarrow> adjust_input \<Rightarrow> ledger \<Rightarrow> ledger_mutation res \<times> ledger" where
  "adjust_allowance sha t i = after (normalize_adjust t i) (\<lambda>n. transaction (adjust_tx sha t n))"

section \<open>Closing ended periods\<close>

text \<open>
  The ended periods that can still change: the join of the totals with a positive balance, and the
  join of open work, both by the primary key of the periods; \<open>UNION\<close> keeps one copy of a period.
\<close>

definition expired_periods :: "int \<Rightarrow> ledger \<Rightarrow> period_row list" where
  "expired_periods now db =
     order_by (\<lambda>p. Sql_Order (p_ends p) [p_tenant p, p_period p])
       (filter (\<lambda>p.
          p_ends p \<le> now \<and>
          ((case totals db (p_tenant p) (p_period p) of
              None \<Rightarrow> False | Some row \<Rightarrow> t_balance row > 0) \<or>
           find (\<lambda>w. w_tenant w = p_tenant p \<and> w_period w = p_period p \<and>
                      w_state w \<in> {Captured, Ready}) (works db) \<noteq> None))
         (periods db))"

definition pause_row :: "pause_reason \<Rightarrow> int \<Rightarrow> work_row \<Rightarrow> work_row" where
  "pause_row reason now w =
     w\<lparr>w_state := Paused, w_pause := Some reason, w_reserved := 0, w_lease_owner := None,
       w_lease_token := None, w_lease_until := None, w_updated := now\<rparr>"

definition pause_open_work :: "int \<Rightarrow> period_row \<Rightarrow> ledger \<Rightarrow> ledger" where
  "pause_open_work now p db =
     db\<lparr>works := update_where
          (\<lambda>w. w_tenant w = p_tenant p \<and> w_period w = p_period p \<and> w_state w \<in> {Captured, Ready})
          (pause_row Period_Inactive now) (works db)\<rparr>"

definition processing_units :: "ledger \<Rightarrow> period_row \<Rightarrow> int" where
  "processing_units db p =
     sum_where (\<lambda>w. w_tenant w = p_tenant p \<and> w_period w = p_period p \<and> w_state w = Processing)
       w_reserved (works db)"

definition expiry_draft :: "(string \<Rightarrow> string) \<Rightarrow> int \<Rightarrow> period_row \<Rightarrow> string \<Rightarrow> int \<Rightarrow> entry_row" where
  "expiry_draft sha now p key reclaimable =
     \<lparr>e_sequence = 0, e_tenant = p_tenant p, e_period = Some (p_period p), e_kind = Expiry,
      e_amount = - reclaimable, e_source = ''phylax'', e_key = key,
      e_hash = payload_hash sha
        [(''tenantId'', JStr (p_tenant p)), (''periodId'', JStr (p_period p)),
         (''amountUnits'', JNum (- reclaimable)), (''kind'', JStr ''expiry'')],
      e_tariff = ''expiry-v1'',
      e_reason = ''allowance period ended; unused allocation expired'', e_event = None,
      e_operation = None, e_provider = None, e_model = None, e_basis = None,
      e_occurred = p_ends p, e_created = now\<rparr>"

definition expiry_key :: "ledger \<Rightarrow> period_row \<Rightarrow> string" where
  "expiry_key db p =
     ''system:expiry:'' @ p_period p @ '':through:'' @
     int_str (max_sequence (\<lambda>e. e_tenant e = p_tenant p \<and> e_period e = Some (p_period p)) db)"

definition reclaimable_units :: "ledger \<Rightarrow> period_row \<Rightarrow> int" where
  "reclaimable_units db p =
     max 0 (period_balance db (p_tenant p) (p_period p) - processing_units db p)"

definition expire_period :: "(string \<Rightarrow> string) \<Rightarrow> int \<Rightarrow> period_row \<Rightarrow> nat tx" where
  "expire_period sha now p db =
     (let db1 = pause_open_work now p db;
          reclaimable = reclaimable_units db1 p
      in if reclaimable = 0 then Inr (0, db1)
         else let key = expiry_key db1 p in
           if entry_by_idempotency db1 (p_tenant p) key \<noteq> None then Inr (0, db1)
           else ebind (insert_entry (expiry_draft sha now p key reclaimable) db1)
                  (\<lambda>(_, db2). Inr (1, db2)))"

fun expire_periods :: "(string \<Rightarrow> string) \<Rightarrow> int \<Rightarrow> period_row list \<Rightarrow> nat \<Rightarrow> nat tx" where
  "expire_periods sha now [] inserted db = Inr (inserted, db)"
| "expire_periods sha now (p # ps) inserted db =
     ebind (expire_period sha now p db) (\<lambda>(n, db1). expire_periods sha now ps (inserted + n) db1)"

definition reconcile_periods_tx :: "(string \<Rightarrow> string) \<Rightarrow> int \<Rightarrow> nat tx" where
  "reconcile_periods_tx sha now db = expire_periods sha now (expired_periods now db) 0 db"

definition reconcile_expired_periods ::
  "(string \<Rightarrow> string) \<Rightarrow> js_number \<Rightarrow> ledger \<Rightarrow> nat res \<times> ledger" where
  "reconcile_expired_periods sha at =
     after (timestamp at ''at'') (\<lambda>now. transaction (reconcile_periods_tx sha now))"

section \<open>Usage\<close>

record usage_input =
  ui_tenant :: string
  ui_period :: string
  ui_amount :: js_number
  ui_event :: string
  ui_operation :: string
  ui_provider :: string
  ui_model :: "string option"
  ui_basis :: cost_basis
  ui_key :: string
  ui_tariff :: string
  ui_reason :: string
  ui_occurred :: "js_number option"

record usage_norm =
  un_tenant :: string
  un_period :: string
  un_amount :: int
  un_event :: string
  un_operation :: string
  un_provider :: string
  un_model :: "string option"
  un_basis :: cost_basis
  un_key :: string
  un_tariff :: string
  un_reason :: string
  un_occurred :: int

definition usage_hash :: "(string \<Rightarrow> string) \<Rightarrow> usage_norm \<Rightarrow> string" where
  "usage_hash sha n = payload_hash sha
     [(''tenantId'', JStr (un_tenant n)), (''periodId'', JStr (un_period n)),
      (''amountUnits'', JNum (- un_amount n)), (''providerEventId'', JStr (un_event n)),
      (''operation'', JStr (un_operation n)), (''provider'', JStr (un_provider n)),
      (''model'', json_opt (un_model n)), (''costBasis'', JStr (un_basis n)),
      (''idempotencyKey'', JUndefined), (''tariffVersion'', JStr (un_tariff n)),
      (''auditReason'', JStr (un_reason n)), (''occurredAt'', JUndefined)]"

definition usage_draft :: "string \<Rightarrow> int \<Rightarrow> usage_norm \<Rightarrow> entry_row" where
  "usage_draft hash accepted n =
     \<lparr>e_sequence = 0, e_tenant = un_tenant n, e_period = Some (un_period n), e_kind = Usage,
      e_amount = - un_amount n, e_source = un_provider n, e_key = un_key n, e_hash = hash,
      e_tariff = un_tariff n, e_reason = un_reason n, e_event = Some (un_event n),
      e_operation = Some (un_operation n), e_provider = Some (un_provider n),
      e_model = un_model n, e_basis = Some (un_basis n), e_occurred = un_occurred n,
      e_created = accepted\<rparr>"

text \<open>
  \<open>attemptUsageInTransaction\<close>. An inner \<open>Inl\<close> is an attempt that fails but whose transaction
  commits, so that the expiries posted on the way stay; an outer \<open>Inl\<close> rolls back.
\<close>

definition outside :: "period_row \<Rightarrow> int \<Rightarrow> bool" where
  "outside p at \<longleftrightarrow> at < p_starts p \<or> p_ends p \<le> at"

definition attempt_usage ::
  "(string \<Rightarrow> string) \<Rightarrow> usage_norm \<Rightarrow> string \<Rightarrow> int \<Rightarrow> int \<Rightarrow> ledger_mutation res tx" where
  "attempt_usage sha n hash accepted owned db0 =
     ebind (reconcile_periods_tx sha accepted db0) (\<lambda>(_, db).
     case entry_by_idempotency db (un_tenant n) (un_key n) of
       Some existing \<Rightarrow> ebind (replay_or_conflict existing hash) (\<lambda>m. Inr (Inr m, db))
     | None \<Rightarrow>
     (case usage_by_provider_event db (un_tenant n) (un_event n) (un_operation n) of
       Some existing \<Rightarrow> ebind (replay_or_conflict existing hash) (\<lambda>m. Inr (Inr m, db))
     | None \<Rightarrow>
     (case period_of db (un_tenant n) (un_period n) of
       None \<Rightarrow> Inl (Plain_Error ''allowance period does not exist'')
     | Some period \<Rightarrow>
         if outside period (un_occurred n) \<or> (outside period accepted \<and> owned = 0)
         then Inr (Inl (Plain_Error ''usage requires an active allowance period''), db)
         else
           ebind (units (Jint owned) ''ownedReservationUnits'' False True) (\<lambda>own.
           if un_amount n > available_in_period db (un_tenant n) (un_period n) + own
           then Inr (Inl (Plain_Error ''usage exceeds currently unreserved allowance''), db)
           else ebind (insert_entry (usage_draft hash accepted n) db) (\<lambda>(row, db1).
             Inr (Inr \<lparr>lm_entry = entry_of row, lm_replayed = False\<rparr>, db1))))))"

definition valid_basis :: "cost_basis \<Rightarrow> bool" where
  "valid_basis b \<longleftrightarrow> b \<in> {''actual'', ''estimated'', ''service_included'', ''unavailable''}"

definition normalize_usage :: "clock \<Rightarrow> usage_input \<Rightarrow> (int \<times> usage_norm) res" where
  "normalize_usage t i =
     ebind (timestamp (Jint (t 0)) ''acceptedAt'') (\<lambda>accepted.
     ebind (required (ui_tenant i) ''tenantId'' 512) (\<lambda>tenant.
     ebind (required (ui_period i) ''periodId'' 512) (\<lambda>period.
     ebind (units (ui_amount i) ''amountUnits'' False True) (\<lambda>amount.
     ebind (required (ui_event i) ''providerEventId'' 512) (\<lambda>event.
     ebind (required (ui_operation i) ''operation'' 512) (\<lambda>operation.
     ebind (required (ui_provider i) ''provider'' 512) (\<lambda>provider.
     ebind (required (ui_key i) ''idempotencyKey'' 512) (\<lambda>key.
     ebind (required (ui_tariff i) ''tariffVersion'' 512) (\<lambda>tariff.
     ebind (required (ui_reason i) ''auditReason'' 2000) (\<lambda>reason.
     ebind (timestamp (or_clock (ui_occurred i) accepted) ''occurredAt'') (\<lambda>occurred.
     ebind (guard_err (\<not> valid_basis (ui_basis i)) (Plain_Error ''costBasis is invalid'')) (\<lambda>_.
       Inr (accepted,
            \<lparr>un_tenant = tenant, un_period = period, un_amount = amount, un_event = event,
             un_operation = operation, un_provider = provider,
             un_model = trim_or_null (ui_model i), un_basis = ui_basis i, un_key = key,
             un_tariff = tariff, un_reason = reason, un_occurred = occurred\<rparr>)))))))))))))"

definition record_usage ::
  "(string \<Rightarrow> string) \<Rightarrow> clock \<Rightarrow> usage_input \<Rightarrow> ledger \<Rightarrow> ledger_mutation res \<times> ledger" where
  "record_usage sha t i =
     after (normalize_usage t i) (\<lambda>(accepted, n) db.
       throw_attempt (transaction (attempt_usage sha n (usage_hash sha n) accepted 0) db))"

section \<open>Suspending and resuming a tenant\<close>

record control_input =
  ci_tenant :: string
  ci_source :: string
  ci_key :: string
  ci_reason :: string
  ci_occurred :: "js_number option"

record control_norm =
  cn_tenant :: string
  cn_source :: string
  cn_key :: string
  cn_reason :: string
  cn_occurred :: int

definition normalize_control :: "clock \<Rightarrow> control_input \<Rightarrow> control_norm res" where
  "normalize_control t i =
     ebind (required (ci_tenant i) ''tenantId'' 512) (\<lambda>tenant.
     ebind (required (ci_source i) ''source'' 512) (\<lambda>source.
     ebind (required (ci_key i) ''idempotencyKey'' 512) (\<lambda>key.
     ebind (required (ci_reason i) ''auditReason'' 2000) (\<lambda>reason.
     ebind (timestamp (or_clock (ci_occurred i) (t 0)) ''occurredAt'') (\<lambda>occurred.
       Inr \<lparr>cn_tenant = tenant, cn_source = source, cn_key = key, cn_reason = reason,
            cn_occurred = occurred\<rparr>)))))"

definition control_hash :: "(string \<Rightarrow> string) \<Rightarrow> entry_kind \<Rightarrow> control_norm \<Rightarrow> string" where
  "control_hash sha kind n = payload_hash sha
     [(''tenantId'', JStr (cn_tenant n)), (''source'', JStr (cn_source n)),
      (''idempotencyKey'', JUndefined), (''auditReason'', JStr (cn_reason n)),
      (''occurredAt'', JUndefined), (''kind'', JStr (kind_text kind))]"

definition control_draft :: "entry_kind \<Rightarrow> string \<Rightarrow> int \<Rightarrow> control_norm \<Rightarrow> entry_row" where
  "control_draft kind hash created n =
     \<lparr>e_sequence = 0, e_tenant = cn_tenant n, e_period = None, e_kind = kind, e_amount = 0,
      e_source = cn_source n, e_key = cn_key n, e_hash = hash, e_tariff = ''control-v1'',
      e_reason = cn_reason n, e_event = None, e_operation = None, e_provider = None,
      e_model = None, e_basis = None, e_occurred = cn_occurred n, e_created = created\<rparr>"

definition pause_tenant :: "int \<Rightarrow> string \<Rightarrow> ledger \<Rightarrow> ledger" where
  "pause_tenant now tenant db =
     db\<lparr>works := update_where (\<lambda>w. w_tenant w = tenant \<and> w_state w \<in> {Captured, Ready})
          (pause_row Tenant_Suspended now) (works db)\<rparr>"

definition control_tx ::
  "(string \<Rightarrow> string) \<Rightarrow> clock \<Rightarrow> entry_kind \<Rightarrow> control_norm \<Rightarrow> ledger_mutation tx" where
  "control_tx sha t kind n db =
     (let hash = control_hash sha kind n in
      case entry_by_idempotency db (cn_tenant n) (cn_key n) of
        Some existing \<Rightarrow> ebind (replay_or_conflict existing hash) (\<lambda>m. Inr (m, db))
      | None \<Rightarrow>
          ebind (insert_entry (control_draft kind hash (t 1) n) db) (\<lambda>(row, db1).
            Inr (\<lparr>lm_entry = entry_of row, lm_replayed = False\<rparr>,
                 if kind = Suspend then pause_tenant (t 2) (cn_tenant n) db1 else db1)))"

definition control ::
  "(string \<Rightarrow> string) \<Rightarrow> clock \<Rightarrow> entry_kind \<Rightarrow> control_input \<Rightarrow> ledger \<Rightarrow> ledger_mutation res \<times> ledger"
  where
  "control sha t kind i = after (normalize_control t i) (\<lambda>n. transaction (control_tx sha t kind n))"

definition suspend_tenant ::
  "(string \<Rightarrow> string) \<Rightarrow> clock \<Rightarrow> control_input \<Rightarrow> ledger \<Rightarrow> ledger_mutation res \<times> ledger" where
  "suspend_tenant sha t i = control sha t Suspend i"

definition resume_tenant ::
  "(string \<Rightarrow> string) \<Rightarrow> clock \<Rightarrow> control_input \<Rightarrow> ledger \<Rightarrow> ledger_mutation res \<times> ledger" where
  "resume_tenant sha t i = control sha t Resume i"

section \<open>Projections\<close>

datatype metering_state = Metering_Active | Metering_Paused | Metering_Suspended | Metering_Unavailable

record metering_projection =
  mp_tenant :: string
  mp_period :: "string option"
  mp_state :: metering_state
  mp_allocated :: int
  mp_used :: int
  mp_reserved :: int
  mp_remaining :: int
  mp_basis_points :: int
  mp_resets :: "int option"

text \<open>
  \<open>Math.round(used / allocated * 10_000)\<close>, with the quotient taken exactly: rounding is to the
  nearest integer, halves upwards.
\<close>

definition basis_points :: "int \<Rightarrow> int \<Rightarrow> int" where
  "basis_points used allocated =
     (if allocated \<le> 0 then (if used > 0 then 10000 else 0)
      else min 10000 (max 0 ((2 * used * 10000 + allocated) div (2 * allocated))))"

definition current_period :: "ledger \<Rightarrow> string \<Rightarrow> int \<Rightarrow> period_row option" where
  "current_period db tenant now =
     first_row (order_by (\<lambda>p. Sql_Order (p_ends p) [p_period p])
       (filter (\<lambda>p. p_tenant p = tenant \<and> p_starts p \<le> now \<and> now < p_ends p) (periods db)))"

definition customer_projection :: "string \<Rightarrow> js_number \<Rightarrow> ledger \<Rightarrow> metering_projection res" where
  "customer_projection tenant_input at db =
     ebind (required tenant_input ''tenantId'' 512) (\<lambda>tenant.
     ebind (timestamp at ''at'') (\<lambda>now.
       case current_period db tenant now of
         None \<Rightarrow> Inr
           \<lparr>mp_tenant = tenant, mp_period = None,
            mp_state = (if is_suspended db tenant then Metering_Suspended else Metering_Unavailable),
            mp_allocated = 0, mp_used = 0, mp_reserved = 0, mp_remaining = 0,
            mp_basis_points = 0, mp_resets = None\<rparr>
       | Some period \<Rightarrow>
           let tot = period_totals db tenant (p_period period);
               reserved = reserved_in_period db tenant (p_period period);
               remaining = max 0 (t_allocated tot - t_used tot - reserved)
           in Inr
             \<lparr>mp_tenant = tenant, mp_period = Some (p_period period),
              mp_state = (if is_suspended db tenant then Metering_Suspended
                          else if remaining \<le> 0 then Metering_Paused else Metering_Active),
              mp_allocated = t_allocated tot, mp_used = t_used tot, mp_reserved = reserved,
              mp_remaining = remaining,
              mp_basis_points = basis_points (t_used tot) (t_allocated tot),
              mp_resets = Some (p_ends period)\<rparr>))"

text \<open>
  \<open>tenantIds\<close> walks each table's tenants in ascending order, taking the least tenant above the
  last one at each step, and unites the three walks.
\<close>

definition next_tenant :: "string list \<Rightarrow> string option \<Rightarrow> string option" where
  "next_tenant ts prev =
     first_row (order_by (\<lambda>t. t) (filter (\<lambda>t. case prev of None \<Rightarrow> True | Some l \<Rightarrow> l < t) ts))"

fun tenant_walk :: "nat \<Rightarrow> string list \<Rightarrow> string option \<Rightarrow> string list" where
  "tenant_walk 0 ts prev = []"
| "tenant_walk (Suc n) ts prev =
     (case next_tenant ts prev of None \<Rightarrow> [] | Some t \<Rightarrow> t # tenant_walk n ts (Some t))"

definition tenant_ids :: "ledger \<Rightarrow> string list" where
  "tenant_ids db =
     (let walk = (\<lambda>ts. tenant_walk (Suc (length ts)) ts None) in
      sort (remdups (walk (map p_tenant (periods db)) @ walk (map e_tenant (entries db))
                     @ walk (map w_tenant (works db)))))"

record usage_bucket =
  bu_operation :: "string option"
  bu_provider :: "string option"
  bu_model :: string
  bu_tariff :: string
  bu_basis :: "cost_basis option"
  bu_events :: nat
  bu_units :: int

text \<open>
  The groups of usage entries. A \<open>GROUP BY\<close> term that names a column is that column, so that entries
  without a model and entries of a model called \<open>unknown\<close> are two groups. Groups that are equal under
  the \<open>ORDER BY\<close> come in an order of the database's choice; the model keeps one such order.
\<close>

definition usage_group ::
  "entry_row \<Rightarrow> string option \<times> string option \<times> string option \<times> string \<times> cost_basis option" where
  "usage_group e = (e_operation e, e_provider e, e_model e, e_tariff e, e_basis e)"

definition bucket_of ::
  "entry_row list \<Rightarrow> string option \<times> string option \<times> string option \<times> string \<times> cost_basis option
    \<Rightarrow> usage_bucket" where
  "bucket_of rows g =
     (case g of (operation, provider, model, tariff, basis) \<Rightarrow>
        \<lparr>bu_operation = operation, bu_provider = provider,
         bu_model = (case model of None \<Rightarrow> ''unknown'' | Some m \<Rightarrow> m),
         bu_tariff = tariff, bu_basis = basis,
         bu_events = count_where (\<lambda>e. usage_group e = g) rows,
         bu_units = - sum_where (\<lambda>e. usage_group e = g) e_amount rows\<rparr>)"

definition bucket_order :: "usage_bucket \<Rightarrow> sql_order" where
  "bucket_order b = Sql_Order (- bu_units b)
     [case bu_operation b of None \<Rightarrow> [] | Some x \<Rightarrow> x, case bu_provider b of None \<Rightarrow> [] | Some x \<Rightarrow> x, bu_model b]"

definition usage_buckets :: "entry_row list \<Rightarrow> usage_bucket list" where
  "usage_buckets rows =
     (let usage = filter (\<lambda>e. e_kind e = Usage) rows
      in order_by bucket_order (map (bucket_of usage) (remdups (map usage_group usage))))"

record operator_projection =
  op_tenant :: string
  op_period :: "string option"
  op_granted :: int
  op_adjusted :: int
  op_expired :: int
  op_used :: int
  op_by_usage :: "usage_bucket list"
  op_entries :: "allowance_entry list"

definition operator_ledger_projection ::
  "string \<Rightarrow> string option \<Rightarrow> ledger \<Rightarrow> operator_projection res" where
  "operator_ledger_projection tenant_input period_input db =
     ebind (required tenant_input ''tenantId'' 512) (\<lambda>tenant.
     ebind (case period_input of
              None \<Rightarrow> Inr None
            | Some p \<Rightarrow> if p = [] then Inr None
                        else ebind (required p ''periodId'' 512) (\<lambda>q. Inr (Some q))) (\<lambda>period.
       let rows = filter (\<lambda>e. e_tenant e = tenant \<and>
                    (case period of None \<Rightarrow> True | Some p \<Rightarrow> e_period e = Some p)) (entries db);
           total = (\<lambda>kind. sum_where (\<lambda>e. e_kind e = kind) e_amount rows)
       in Inr \<lparr>op_tenant = tenant, op_period = period, op_granted = total Grant,
               op_adjusted = total Adjustment, op_expired = max 0 (- total Expiry),
               op_used = max 0 (- total Usage), op_by_usage = usage_buckets rows,
               op_entries = map entry_of rows\<rparr>))"

end
