(* ===== verification/Ledger_Work.thy ===== *)
theory Ledger_Work
  imports Ledger_Entries
begin

text \<open>
  The paid-work queue of \<open>PhylaxAllowanceLedger\<close>: admission, evaluation against the allowance,
  leases, release, cancellation and the two ways to complete. One definition per method; the
  \<open>_tx\<close> definitions are the bodies of the transactions.
\<close>

section \<open>Evaluating a work item\<close>

definition settled_state :: "work_state \<Rightarrow> bool" where
  "settled_state s \<longleftrightarrow> s \<in> {Ready, Processing, Done, Cancelled}"

definition evaluation :: "ledger \<Rightarrow> work_row \<Rightarrow> int \<Rightarrow> pause_reason option" where
  "evaluation db current now =
     (if is_suspended db (w_tenant current) then Some Tenant_Suspended
      else case period_of db (w_tenant current) (w_period current) of
        None \<Rightarrow> Some Period_Inactive
      | Some period \<Rightarrow>
          if p_starts period > now \<or> p_ends period \<le> now then Some Period_Inactive
          else if available_in_period db (w_tenant current) (w_period current) < w_estimated current
            then Some Insufficient_Allowance
          else None)"

definition evaluated_row :: "pause_reason option \<Rightarrow> int \<Rightarrow> work_row \<Rightarrow> work_row" where
  "evaluated_row pause now w =
     w\<lparr>w_state := (if pause = None then Ready else Paused), w_pause := pause,
       w_reserved := (if pause = None then w_estimated w else 0), w_lease_owner := None,
       w_lease_token := None, w_lease_until := None, w_updated := now\<rparr>"

definition set_work :: "string \<Rightarrow> (work_row \<Rightarrow> work_row) \<Rightarrow> ledger \<Rightarrow> ledger" where
  "set_work i f db = db\<lparr>works := update_where (\<lambda>w. w_id w = i) f (works db)\<rparr>"

definition evaluate_work :: "string \<Rightarrow> int \<Rightarrow> work_row tx" where
  "evaluate_work i now db =
     (case work_of db i of
        None \<Rightarrow> Inl (Plain_Error ''paid work does not exist'')
      | Some current \<Rightarrow>
          if settled_state (w_state current) then Inr (current, db)
          else let pause = evaluation db current now
               in Inr (evaluated_row pause now current, set_work i (evaluated_row pause now) db))"

section \<open>Admission\<close>

record admit_input =
  di_tenant :: string
  di_period :: string
  di_key :: string
  di_event :: string
  di_operation :: string
  di_custody :: string
  di_estimated :: js_number
  di_captured :: "js_number option"

record admit_norm =
  dn_tenant :: string
  dn_period :: string
  dn_key :: string
  dn_event :: string
  dn_operation :: string
  dn_custody :: string
  dn_estimated :: int
  dn_captured :: int

datatype admission_state = Admitted_Ready | Admitted_Paused | Admitted_Replayed

record admission =
  ad_state :: admission_state
  ad_work :: paid_work

definition normalize_admit :: "clock \<Rightarrow> admit_input \<Rightarrow> admit_norm res" where
  "normalize_admit t i =
     ebind (required (di_tenant i) ''tenantId'' 512) (\<lambda>tenant.
     ebind (required (di_period i) ''periodId'' 512) (\<lambda>period.
     ebind (required (di_key i) ''idempotencyKey'' 512) (\<lambda>key.
     ebind (required (di_event i) ''providerEventId'' 512) (\<lambda>event.
     ebind (required (di_operation i) ''operation'' 512) (\<lambda>operation.
     ebind (required (di_custody i) ''custodyRef'' 4096) (\<lambda>custody.
     ebind (units (di_estimated i) ''estimatedUnits'' False True) (\<lambda>estimated.
     ebind (timestamp (or_clock (di_captured i) (t 0)) ''capturedAt'') (\<lambda>captured.
       Inr \<lparr>dn_tenant = tenant, dn_period = period, dn_key = key, dn_event = event,
            dn_operation = operation, dn_custody = custody, dn_estimated = estimated,
            dn_captured = captured\<rparr>))))))))"

definition admit_hash :: "(string \<Rightarrow> string) \<Rightarrow> admit_norm \<Rightarrow> string" where
  "admit_hash sha n = payload_hash sha
     [(''tenantId'', JStr (dn_tenant n)), (''periodId'', JStr (dn_period n)),
      (''idempotencyKey'', JUndefined), (''providerEventId'', JStr (dn_event n)),
      (''operation'', JStr (dn_operation n)), (''custodyRef'', JStr (dn_custody n)),
      (''estimatedUnits'', JNum (dn_estimated n)), (''capturedAt'', JUndefined)]"

definition new_work :: "string \<Rightarrow> string \<Rightarrow> int \<Rightarrow> admit_norm \<Rightarrow> work_row" where
  "new_work uid hash now n =
     \<lparr>w_id = uid, w_tenant = dn_tenant n, w_period = dn_period n, w_key = dn_key n,
      w_hash = hash, w_event = dn_event n, w_operation = dn_operation n,
      w_custody = dn_custody n, w_estimated = dn_estimated n, w_reserved = 0,
      w_state = Captured, w_pause = None, w_lease_owner = None, w_lease_token = None,
      w_lease_until = None, w_done_owner = None, w_done_token = None, w_usage_seq = None,
      w_receipt = None, w_cancel_at = None, w_created = dn_captured n, w_updated = now\<rparr>"

definition insert_work :: "work_row \<Rightarrow> unit tx" where
  "insert_work w db =
     (if work_of db (w_id w) \<noteq> None
         \<or> work_by_idempotency db (w_tenant w) (w_key w) \<noteq> None
         \<or> work_by_provider_event db (w_tenant w) (w_event w) (w_operation w) \<noteq> None
      then Inl Constraint_Error
      else Inr ((), db\<lparr>works := works db @ [w]\<rparr>))"

definition existing_work :: "ledger \<Rightarrow> admit_norm \<Rightarrow> work_row option" where
  "existing_work db n =
     (case work_by_idempotency db (dn_tenant n) (dn_key n) of
        Some w \<Rightarrow> Some w
      | None \<Rightarrow> work_by_provider_event db (dn_tenant n) (dn_event n) (dn_operation n))"

definition admit_tx ::
  "(string \<Rightarrow> string) \<Rightarrow> clock \<Rightarrow> string \<Rightarrow> admit_norm \<Rightarrow> admission tx" where
  "admit_tx sha t uid n db0 =
     (let hash = admit_hash sha n in
      ebind (reconcile_periods_tx sha (t 1) db0) (\<lambda>(_, db).
      case existing_work db n of
        Some existing \<Rightarrow>
          ebind (guard_err (w_hash existing \<noteq> hash)
            (Conflict_Error ''paid-work identity was reused with different input'')) (\<lambda>_.
          if w_state existing \<in> {Paused, Captured}
          then ebind (evaluate_work (w_id existing) (t 2) db) (\<lambda>(w, db1).
                 Inr (\<lparr>ad_state = Admitted_Replayed, ad_work = paid_work_of w\<rparr>, db1))
          else Inr (\<lparr>ad_state = Admitted_Replayed, ad_work = paid_work_of existing\<rparr>, db))
      | None \<Rightarrow>
          ebind (insert_work (new_work uid hash (t 3) n) db) (\<lambda>(_, db1).
          ebind (evaluate_work uid (t 3) db1) (\<lambda>(w, db2).
            Inr (\<lparr>ad_state = (if w_state w = Ready then Admitted_Ready else Admitted_Paused),
                  ad_work = paid_work_of w\<rparr>, db2)))))"

definition admit_paid_work ::
  "(string \<Rightarrow> string) \<Rightarrow> clock \<Rightarrow> string \<Rightarrow> admit_input \<Rightarrow> ledger \<Rightarrow> admission res \<times> ledger" where
  "admit_paid_work sha t uid i =
     after (normalize_admit t i) (\<lambda>n. transaction (admit_tx sha t uid n))"

definition paid_work_receipt ::
  "string \<Rightarrow> string \<Rightarrow> string \<Rightarrow> ledger \<Rightarrow> string option res" where
  "paid_work_receipt tenant_in event_in operation_in db =
     ebind (required tenant_in ''tenantId'' 512) (\<lambda>tenant.
     ebind (required event_in ''providerEventId'' 512) (\<lambda>event.
     ebind (required operation_in ''operation'' 512) (\<lambda>operation.
       Inr (case work_by_provider_event db tenant event operation of
              None \<Rightarrow> None
            | Some w \<Rightarrow> if w_state w = Done then trim_or_null (w_receipt w) else None))))"

section \<open>Resuming paused work\<close>

fun evaluate_all :: "int \<Rightarrow> string list \<Rightarrow> nat \<Rightarrow> nat tx" where
  "evaluate_all now [] ready db = Inr (ready, db)"
| "evaluate_all now (i # ids) ready db =
     ebind (evaluate_work i now db) (\<lambda>(w, db1).
       evaluate_all now ids (if w_state w = Ready then Suc ready else ready) db1)"

definition queue_order :: "work_row \<Rightarrow> sql_order" where
  "queue_order w = Sql_Order (w_created w) [w_id w]"

definition resume_candidates :: "ledger \<Rightarrow> string \<Rightarrow> string list" where
  "resume_candidates db tenant =
     map w_id (order_by queue_order
       (filter (\<lambda>w. w_tenant w = tenant \<and> w_state w \<in> {Captured, Paused}) (works db)))"

definition resume_tx :: "(string \<Rightarrow> string) \<Rightarrow> string \<Rightarrow> int \<Rightarrow> nat tx" where
  "resume_tx sha tenant now db0 =
     ebind (reconcile_periods_tx sha now db0) (\<lambda>(_, db).
       evaluate_all now (resume_candidates db tenant) 0 db)"

definition resume_paused ::
  "(string \<Rightarrow> string) \<Rightarrow> string \<Rightarrow> js_number \<Rightarrow> ledger \<Rightarrow> nat res \<times> ledger" where
  "resume_paused sha tenant_input at =
     after (ebind (required tenant_input ''tenantId'' 512) (\<lambda>tenant.
            ebind (timestamp at ''at'') (\<lambda>now. Inr (tenant, now))))
       (\<lambda>(tenant, now). transaction (resume_tx sha tenant now))"

section \<open>Expired leases\<close>

definition lease_expired :: "int \<Rightarrow> work_row \<Rightarrow> bool" where
  "lease_expired now w \<longleftrightarrow>
     w_state w = Processing \<and> (case w_lease_until w of None \<Rightarrow> False | Some u \<Rightarrow> u \<le> now)"

definition freed_row :: "work_state \<Rightarrow> int \<Rightarrow> work_row \<Rightarrow> work_row" where
  "freed_row s now w =
     w\<lparr>w_state := s, w_pause := None, w_reserved := 0, w_lease_owner := None,
       w_lease_token := None, w_lease_until := None, w_updated := now\<rparr>"

definition set_expired :: "string \<Rightarrow> work_state \<Rightarrow> int \<Rightarrow> ledger \<Rightarrow> nat \<times> ledger" where
  "set_expired i s now db =
     (let hit = (\<lambda>w. w_id w = i \<and> lease_expired now w) in
      (count_where hit (works db),
       db\<lparr>works := update_where hit (freed_row s now) (works db)\<rparr>))"

fun reclaim_leases :: "int \<Rightarrow> work_row list \<Rightarrow> nat \<Rightarrow> nat tx" where
  "reclaim_leases now [] changed db = Inr (changed, db)"
| "reclaim_leases now (row # rows) changed db =
     (if w_cancel_at row \<noteq> None
      then let (n, db1) = set_expired (w_id row) Cancelled now db
           in reclaim_leases now rows (changed + n) db1
      else let (n, db1) = set_expired (w_id row) Captured now db
           in if n = 1
              then ebind (evaluate_work (w_id row) now db1) (\<lambda>(_, db2).
                     reclaim_leases now rows (changed + 1) db2)
              else reclaim_leases now rows changed db1)"

definition reconcile_work_tx :: "int \<Rightarrow> string option \<Rightarrow> nat tx" where
  "reconcile_work_tx now tenant db =
     reclaim_leases now
       (order_by queue_order
         (filter (\<lambda>w. lease_expired now w \<and>
                      (case tenant of None \<Rightarrow> True | Some s \<Rightarrow> w_tenant w = s)) (works db)))
       0 db"

definition reconcile_expired_paid_work :: "js_number \<Rightarrow> ledger \<Rightarrow> nat res \<times> ledger" where
  "reconcile_expired_paid_work at =
     after (timestamp at ''at'') (\<lambda>now. transaction (reconcile_work_tx now None))"

section \<open>Claims\<close>

definition claimed_row :: "string \<Rightarrow> string \<Rightarrow> int \<Rightarrow> int \<Rightarrow> work_row \<Rightarrow> work_row" where
  "claimed_row worker token until now w =
     w\<lparr>w_state := Processing, w_lease_owner := Some worker, w_lease_token := Some token,
       w_lease_until := Some until, w_updated := now\<rparr>"

definition claim_where ::
  "(work_row \<Rightarrow> bool) \<Rightarrow> string \<Rightarrow> string \<Rightarrow> string \<Rightarrow> int \<Rightarrow> int \<Rightarrow> paid_work option tx" where
  "claim_where hit i worker token until now db =
     (let n = count_where hit (works db);
          db1 = db\<lparr>works := update_where hit (claimed_row worker token until now) (works db)\<rparr>
      in Inr (if n = 1 then map_option paid_work_of (work_of db1 i) else None, db1))"

definition next_ready :: "ledger \<Rightarrow> string \<Rightarrow> work_row option" where
  "next_ready db tenant =
     first_row (order_by queue_order
       (filter (\<lambda>w. w_tenant w = tenant \<and> w_state w = Ready) (works db)))"

definition claim_next_tx ::
  "(string \<Rightarrow> string) \<Rightarrow> string \<Rightarrow> string \<Rightarrow> string \<Rightarrow> int \<Rightarrow> int \<Rightarrow> paid_work option tx" where
  "claim_next_tx sha uid tenant worker lease now db0 =
     ebind (reconcile_work_tx now (Some tenant) db0) (\<lambda>(_, db1).
     ebind (reconcile_periods_tx sha now db1) (\<lambda>(_, db).
     case next_ready db tenant of
       None \<Rightarrow> Inr (None, db)
     | Some candidate \<Rightarrow>
         claim_where (\<lambda>w. w_id w = w_id candidate \<and> w_state w = Ready) (w_id candidate)
           worker uid (now + lease) now db))"

definition claim_next_paid_work ::
  "(string \<Rightarrow> string) \<Rightarrow> string \<Rightarrow> string \<Rightarrow> string \<Rightarrow> js_number \<Rightarrow> js_number \<Rightarrow> ledger
    \<Rightarrow> paid_work option res \<times> ledger" where
  "claim_next_paid_work sha uid tenant_input worker_input lease_ms at =
     after (ebind (required tenant_input ''tenantId'' 512) (\<lambda>tenant.
            ebind (required worker_input ''workerId'' 512) (\<lambda>worker.
            ebind (timestamp at ''at'') (\<lambda>now.
            ebind (units lease_ms ''leaseMs'' True False) (\<lambda>lease.
              Inr (tenant, worker, now, lease))))))
       (\<lambda>(tenant, worker, now, lease).
          transaction (claim_next_tx sha uid tenant worker lease now))"

definition claim_tx ::
  "(string \<Rightarrow> string) \<Rightarrow> string \<Rightarrow> string \<Rightarrow> string \<Rightarrow> string \<Rightarrow> int \<Rightarrow> int \<Rightarrow> paid_work option tx" where
  "claim_tx sha uid work_id tenant worker lease now db0 =
     (case work_of db0 work_id of
        None \<Rightarrow> Inr (None, db0)
      | Some current \<Rightarrow>
          if w_tenant current \<noteq> tenant then Inr (None, db0)
          else
            ebind (if lease_expired now current
                   then ebind (reconcile_work_tx now (Some tenant) db0) (\<lambda>(_, db1). Inr db1)
                   else Inr db0) (\<lambda>db1.
            ebind (reconcile_periods_tx sha now db1) (\<lambda>(_, db).
            case work_of db work_id of
              None \<Rightarrow> Inr (None, db)
            | Some ready \<Rightarrow>
                if w_tenant ready \<noteq> tenant \<or> w_state ready \<noteq> Ready then Inr (None, db)
                else claim_where
                       (\<lambda>w. w_id w = work_id \<and> w_tenant w = tenant \<and> w_state w = Ready)
                       work_id worker uid (now + lease) now db)))"

definition claim_paid_work ::
  "(string \<Rightarrow> string) \<Rightarrow> string \<Rightarrow> string \<Rightarrow> string \<Rightarrow> string \<Rightarrow> js_number \<Rightarrow> js_number \<Rightarrow> ledger
    \<Rightarrow> paid_work option res \<times> ledger" where
  "claim_paid_work sha uid work_input tenant_input worker_input lease_ms at =
     after (ebind (required work_input ''workId'' 512) (\<lambda>work_id.
            ebind (required tenant_input ''tenantId'' 512) (\<lambda>tenant.
            ebind (required worker_input ''workerId'' 512) (\<lambda>worker.
            ebind (timestamp at ''at'') (\<lambda>now.
            ebind (units lease_ms ''leaseMs'' True False) (\<lambda>lease.
              Inr (work_id, tenant, worker, now, lease)))))))
       (\<lambda>(work_id, tenant, worker, now, lease).
          transaction (claim_tx sha uid work_id tenant worker lease now))"

record lease_input =
  li_work :: string
  li_tenant :: string
  li_owner :: string
  li_token :: string

definition normalize_lease :: "lease_input \<Rightarrow> lease_input res" where
  "normalize_lease i =
     ebind (required (li_work i) ''workId'' 512) (\<lambda>work_id.
     ebind (required (li_tenant i) ''tenantId'' 512) (\<lambda>tenant.
     ebind (required (li_owner i) ''leaseOwner'' 512) (\<lambda>owner.
     ebind (required (li_token i) ''leaseToken'' 512) (\<lambda>token.
       Inr \<lparr>li_work = work_id, li_tenant = tenant, li_owner = owner, li_token = token\<rparr>))))"

definition holds_lease :: "string \<Rightarrow> string \<Rightarrow> work_row \<Rightarrow> bool" where
  "holds_lease owner token w \<longleftrightarrow> w_lease_owner w = Some owner \<and> w_lease_token w = Some token"

definition lease_live :: "int \<Rightarrow> work_row \<Rightarrow> bool" where
  "lease_live now w \<longleftrightarrow> (case w_lease_until w of None \<Rightarrow> False | Some u \<Rightarrow> now < u)"

definition the_work :: "ledger \<Rightarrow> string \<Rightarrow> work_row res" where
  "the_work db i =
     (case work_of db i of
        Some w \<Rightarrow> Inr w | None \<Rightarrow> Inl (Plain_Error ''Cannot read properties of null''))"

definition renew_tx :: "clock \<Rightarrow> lease_input \<Rightarrow> int \<Rightarrow> paid_work tx" where
  "renew_tx t n lease db =
     (let now = t 0;
          hit = (\<lambda>w. w_id w = li_work n \<and> w_tenant w = li_tenant n \<and> w_state w = Processing
                     \<and> holds_lease (li_owner n) (li_token n) w \<and> lease_live now w);
          changes = count_where hit (works db);
          db1 = db\<lparr>works := update_where hit
                  (\<lambda>w. w\<lparr>w_lease_until := Some (now + lease), w_updated := now\<rparr>) (works db)\<rparr>
      in ebind (guard_err (changes \<noteq> 1)
           (Conflict_Error ''paid work lease cannot be renewed by this claim'')) (\<lambda>_.
         ebind (the_work db1 (li_work n)) (\<lambda>w. Inr (paid_work_of w, db1))))"

definition renew_paid_work_lease ::
  "clock \<Rightarrow> lease_input \<Rightarrow> js_number \<Rightarrow> ledger \<Rightarrow> paid_work res \<times> ledger" where
  "renew_paid_work_lease t i lease_ms =
     after (ebind (normalize_lease i) (\<lambda>n.
            ebind (units lease_ms ''leaseMs'' True False) (\<lambda>lease. Inr (n, lease))))
       (\<lambda>(n, lease). transaction (renew_tx t n lease))"

section \<open>Release and cancellation\<close>

definition not_for_tenant :: ledger_error where
  "not_for_tenant = Plain_Error ''paid work does not exist for tenant''"

definition work_for_tenant :: "ledger \<Rightarrow> string \<Rightarrow> string \<Rightarrow> work_row res" where
  "work_for_tenant db i tenant =
     (case work_of db i of
        None \<Rightarrow> Inl not_for_tenant
      | Some w \<Rightarrow> if w_tenant w = tenant then Inr w else Inl not_for_tenant)"

definition release_tx :: "clock \<Rightarrow> lease_input \<Rightarrow> paid_work tx" where
  "release_tx t n db =
     ebind (work_for_tenant db (li_work n) (li_tenant n)) (\<lambda>current.
     if w_state current \<noteq> Processing then Inr (paid_work_of current, db)
     else
       ebind (guard_err (\<not> holds_lease (li_owner n) (li_token n) current)
         (Conflict_Error ''paid work release lease does not match the active claim'')) (\<lambda>_.
       let now = t 0;
           hit = (\<lambda>w. w_id w = li_work n \<and> w_tenant w = li_tenant n \<and> w_state w = Processing
                      \<and> holds_lease (li_owner n) (li_token n) w)
       in if w_cancel_at current \<noteq> None
          then let db1 = db\<lparr>works := update_where hit (freed_row Cancelled now) (works db)\<rparr>
               in ebind (the_work db1 (li_work n)) (\<lambda>w. Inr (paid_work_of w, db1))
          else let db1 = db\<lparr>works := update_where hit (freed_row Captured now) (works db)\<rparr>
               in ebind (evaluate_work (li_work n) now db1) (\<lambda>(w, db2).
                    Inr (paid_work_of w, db2))))"

definition release_paid_work_for_retry ::
  "clock \<Rightarrow> lease_input \<Rightarrow> ledger \<Rightarrow> paid_work res \<times> ledger" where
  "release_paid_work_for_retry t i =
     after (normalize_lease i) (\<lambda>n. transaction (release_tx t n))"

text \<open>\<open>!value\<close> of an optional string, and the comparison of a column with \<open>value?.trim()\<close>.\<close>

definition absent :: "string option \<Rightarrow> bool" where
  "absent v \<longleftrightarrow> v = None \<or> v = Some []"

definition equals_trimmed :: "string option \<Rightarrow> string option \<Rightarrow> bool" where
  "equals_trimmed col v = (case (col, v) of (Some c, Some s) \<Rightarrow> c = js_trim s | _ \<Rightarrow> False)"

definition cancelled_row :: "int \<Rightarrow> work_row \<Rightarrow> work_row" where
  "cancelled_row now w = (freed_row Cancelled now w)\<lparr>w_cancel_at := None\<rparr>"

definition cancel_tx ::
  "clock \<Rightarrow> string \<Rightarrow> string \<Rightarrow> string option \<Rightarrow> string option \<Rightarrow> paid_work tx" where
  "cancel_tx t work_id tenant owner token db =
     ebind (work_for_tenant db work_id tenant) (\<lambda>current.
     if w_state current \<in> {Done, Cancelled} then Inr (paid_work_of current, db)
     else if w_state current = Processing \<and> absent owner \<and> absent token
     then
       let db1 = db\<lparr>works := update_where
             (\<lambda>w. w_id w = work_id \<and> w_tenant w = tenant \<and> w_state w = Processing)
             (\<lambda>w. w\<lparr>w_cancel_at := Some (t 0), w_updated := t 1\<rparr>) (works db)\<rparr>
       in ebind (the_work db1 work_id) (\<lambda>w. Inr (paid_work_of w, db1))
     else
       ebind (guard_err (w_state current = Processing \<and>
             (\<not> equals_trimmed (w_lease_owner current) owner
              \<or> \<not> equals_trimmed (w_lease_token current) token))
         (Conflict_Error
           ''actively leased paid work cannot be cancelled without its exact claim'')) (\<lambda>_.
       let db1 = db\<lparr>works := update_where
             (\<lambda>w. w_id w = work_id \<and> w_tenant w = tenant
                  \<and> w_state w \<in> {Captured, Ready, Paused, Processing})
             (cancelled_row (t 2)) (works db)\<rparr>
       in ebind (the_work db1 work_id) (\<lambda>w. Inr (paid_work_of w, db1))))"

definition cancel_paid_work ::
  "clock \<Rightarrow> string \<Rightarrow> string \<Rightarrow> string option \<Rightarrow> string option \<Rightarrow> ledger \<Rightarrow> paid_work res \<times> ledger"
  where
  "cancel_paid_work t work_in tenant_in owner token =
     after (ebind (required work_in ''workId'' 512) (\<lambda>work_id.
            ebind (required tenant_in ''tenantId'' 512) (\<lambda>tenant. Inr (work_id, tenant))))
       (\<lambda>(work_id, tenant). transaction (cancel_tx t work_id tenant owner token))"

section \<open>Completion under a lease\<close>

record complete_input =
  mi_work :: string
  mi_tenant :: string
  mi_owner :: string
  mi_token :: string
  mi_amount :: js_number
  mi_event :: string
  mi_usage_event :: "string option"
  mi_provider :: string
  mi_model :: "string option"
  mi_basis :: cost_basis
  mi_key :: string
  mi_tariff :: string
  mi_reason :: string
  mi_occurred :: "js_number option"

record completion =
  co_work :: paid_work
  co_usage :: ledger_mutation

definition normalize_complete :: "complete_input \<Rightarrow> string \<Rightarrow> work_row \<Rightarrow> usage_norm res" where
  "normalize_complete i tenant current =
     ebind (units (mi_amount i) ''amountUnits'' False True) (\<lambda>amount.
     ebind (required (mi_provider i) ''provider'' 512) (\<lambda>provider.
     ebind (required (mi_key i) ''idempotencyKey'' 512) (\<lambda>key.
     ebind (required (mi_tariff i) ''tariffVersion'' 512) (\<lambda>tariff.
     ebind (required (mi_reason i) ''auditReason'' 2000) (\<lambda>reason.
     ebind (timestamp (or_clock (mi_occurred i) (w_created current)) ''occurredAt'') (\<lambda>occurred.
       Inr \<lparr>un_tenant = tenant, un_period = w_period current, un_amount = amount,
            un_event = (case trim_or_null (mi_usage_event i) of
                          None \<Rightarrow> w_event current | Some e \<Rightarrow> e),
            un_operation = w_operation current, un_provider = provider,
            un_model = trim_or_null (mi_model i), un_basis = mi_basis i, un_key = key,
            un_tariff = tariff, un_reason = reason, un_occurred = occurred\<rparr>))))))"

definition done_row :: "string \<Rightarrow> string \<Rightarrow> int \<Rightarrow> string \<Rightarrow> int \<Rightarrow> work_row \<Rightarrow> work_row" where
  "done_row owner token seq receipt now w =
     (freed_row Done now w)\<lparr>w_cancel_at := None, w_done_owner := Some owner,
       w_done_token := Some token, w_usage_seq := Some seq, w_receipt := Some receipt\<rparr>"

definition different_usage :: ledger_error where
  "different_usage = Conflict_Error ''paid work already completed with a different usage entry''"

text \<open>The branch for work that is already done: the completion may only be replayed.\<close>

definition replay_done ::
  "(string \<Rightarrow> string) \<Rightarrow> work_row \<Rightarrow> usage_norm \<Rightarrow> string \<Rightarrow> string \<Rightarrow> int \<Rightarrow> completion res tx" where
  "replay_done sha current n owner token now db =
     ebind (guard_err (w_receipt current \<noteq> None \<and> w_receipt current \<noteq> Some (un_event n))
       (Conflict_Error ''paid work already completed with a different provider receipt'')) (\<lambda>_.
     ebind (guard_err (w_done_owner current \<noteq> Some owner \<or> w_done_token current \<noteq> Some token)
       (Conflict_Error ''paid work completion lease does not match the completed claim'')) (\<lambda>_.
     ebind (attempt_usage sha n (usage_hash sha n) now 0 db) (\<lambda>(attempt, db1).
     case attempt of
       Inl e \<Rightarrow> Inr (Inl e, db1)
     | Inr usage \<Rightarrow>
         if w_usage_seq current \<noteq> Some (ae_sequence (lm_entry usage)) then Inl different_usage
         else Inr (Inr \<lparr>co_work = paid_work_of current, co_usage = usage\<rparr>, db1))))"

definition settle_claim ::
  "(string \<Rightarrow> string) \<Rightarrow> work_row \<Rightarrow> usage_norm \<Rightarrow> string \<Rightarrow> string \<Rightarrow> int \<Rightarrow> completion res tx" where
  "settle_claim sha current n owner token now db =
     ebind (guard_err (w_state current \<noteq> Processing)
       (Plain_Error ''paid work is not actively leased for completion'')) (\<lambda>_.
     ebind (guard_err (\<not> holds_lease owner token current)
       (Conflict_Error ''paid work completion lease does not match the active claim'')) (\<lambda>_.
     ebind (guard_err (\<not> lease_live now current)
       (Plain_Error ''paid work lease expired before completion'')) (\<lambda>_.
     ebind (attempt_usage sha n (usage_hash sha n) now (w_reserved current) db) (\<lambda>(attempt, db1).
     case attempt of
       Inl e \<Rightarrow> Inr (Inl e, db1)
     | Inr usage \<Rightarrow>
         let seq = ae_sequence (lm_entry usage) in
         if w_usage_seq current \<noteq> None \<and> w_usage_seq current \<noteq> Some seq then Inl different_usage
         else
           let hit = (\<lambda>w. w_id w = w_id current \<and> w_state w = Processing
                          \<and> holds_lease owner token w \<and> lease_live now w);
               db2 = db1\<lparr>works :=
                 update_where hit (done_row owner token seq (un_event n) now) (works db1)\<rparr>
           in ebind (the_work db2 (w_id current)) (\<lambda>completed.
              if w_state completed \<noteq> Done \<or> w_usage_seq completed \<noteq> Some seq
              then Inl (Plain_Error ''paid work lease changed before completion'')
              else Inr (Inr \<lparr>co_work = paid_work_of completed, co_usage = usage\<rparr>, db2))))))"

definition complete_tx ::
  "(string \<Rightarrow> string) \<Rightarrow> clock \<Rightarrow> complete_input \<Rightarrow> string \<Rightarrow> string \<Rightarrow> completion res tx" where
  "complete_tx sha t i work_id tenant db =
     ebind (work_for_tenant db work_id tenant) (\<lambda>current.
     ebind (required (mi_event i) ''providerEventId'' 512) (\<lambda>event.
     ebind (guard_err (w_event current \<noteq> event)
       (Conflict_Error ''paid work provider event does not match usage event'')) (\<lambda>_.
     ebind (required (mi_owner i) ''leaseOwner'' 512) (\<lambda>owner.
     ebind (required (mi_token i) ''leaseToken'' 512) (\<lambda>token.
     ebind (timestamp (Jint (t 0)) ''completedAt'') (\<lambda>now.
     ebind (normalize_complete i tenant current) (\<lambda>n.
       if w_state current = Done then replay_done sha current n owner token now db
       else settle_claim sha current n owner token now db)))))))"

definition complete_paid_work ::
  "(string \<Rightarrow> string) \<Rightarrow> clock \<Rightarrow> complete_input \<Rightarrow> ledger \<Rightarrow> completion res \<times> ledger" where
  "complete_paid_work sha t i =
     after (ebind (required (mi_work i) ''workId'' 512) (\<lambda>work_id.
            ebind (required (mi_tenant i) ''tenantId'' 512) (\<lambda>tenant. Inr (work_id, tenant))))
       (\<lambda>(work_id, tenant) db. throw_attempt (transaction (complete_tx sha t i work_id tenant) db))"

section \<open>Completion from a durable receipt\<close>

record receipt_input =
  ri_work :: string
  ri_tenant :: string
  ri_admission_event :: string
  ri_receipt :: string
  ri_amount :: js_number
  ri_provider :: string
  ri_model :: "string option"
  ri_basis :: cost_basis
  ri_tariff :: string
  ri_reason :: string

definition normalize_receipt ::
  "receipt_input \<Rightarrow> string \<Rightarrow> string \<Rightarrow> work_row \<Rightarrow> usage_norm res" where
  "normalize_receipt i tenant receipt current =
     ebind (units (ri_amount i) ''amountUnits'' False True) (\<lambda>amount.
     ebind (required (ri_provider i) ''provider'' 512) (\<lambda>provider.
     ebind (required (ri_tariff i) ''tariffVersion'' 512) (\<lambda>tariff.
     ebind (required (ri_reason i) ''auditReason'' 2000) (\<lambda>reason.
       Inr \<lparr>un_tenant = tenant, un_period = w_period current, un_amount = amount,
            un_event = receipt, un_operation = w_operation current, un_provider = provider,
            un_model = trim_or_null (ri_model i), un_basis = ri_basis i,
            un_key = ''usage:'' @ receipt @ '':'' @ w_operation current,
            un_tariff = tariff, un_reason = reason, un_occurred = w_created current\<rparr>))))"

definition receipt_row :: "string \<Rightarrow> int \<Rightarrow> int \<Rightarrow> work_row \<Rightarrow> work_row" where
  "receipt_row receipt seq now w =
     (freed_row Done now w)\<lparr>w_cancel_at := None,
       w_done_owner := (case w_done_owner w of Some a \<Rightarrow> Some a | None \<Rightarrow> Some ''durable-receipt''),
       w_done_token := (case w_done_token w of Some a \<Rightarrow> Some a
                                             | None \<Rightarrow> Some (''receipt:'' @ receipt)),
       w_usage_seq := Some seq, w_receipt := Some receipt\<rparr>"

definition settle_receipt ::
  "work_row \<Rightarrow> string \<Rightarrow> string \<Rightarrow> int \<Rightarrow> ledger_mutation res \<Rightarrow> completion res tx" where
  "settle_receipt current tenant receipt now attempt db1 =
     (case attempt of
        Inl e \<Rightarrow> Inr (Inl e, db1)
      | Inr usage \<Rightarrow>
          let seq = ae_sequence (lm_entry usage) in
          if w_state current = Done
          then if w_usage_seq current \<noteq> Some seq then Inl different_usage
               else Inr (Inr \<lparr>co_work = paid_work_of current, co_usage = usage\<rparr>, db1)
          else
            let db2 = db1\<lparr>works := update_where
                  (\<lambda>w. w_id w = w_id current \<and> w_tenant w = tenant \<and> w_state w \<noteq> Done)
                  (receipt_row receipt seq now) (works db1)\<rparr>
            in ebind (the_work db2 (w_id current)) (\<lambda>completed.
               if w_state completed \<noteq> Done \<or> w_usage_seq completed \<noteq> Some seq
                  \<or> w_receipt completed \<noteq> Some receipt
               then Inl (Plain_Error ''paid work durable-receipt completion did not commit'')
               else Inr (Inr \<lparr>co_work = paid_work_of completed, co_usage = usage\<rparr>, db2)))"

definition receipt_tx ::
  "(string \<Rightarrow> string) \<Rightarrow> receipt_input \<Rightarrow> string \<Rightarrow> string \<Rightarrow> string \<Rightarrow> string \<Rightarrow> int \<Rightarrow> completion res tx"
  where
  "receipt_tx sha i work_id tenant event receipt now db =
     ebind (work_for_tenant db work_id tenant) (\<lambda>current.
     ebind (guard_err (w_event current \<noteq> event)
       (Conflict_Error ''paid work provider event does not match durable receipt intent'')) (\<lambda>_.
     ebind (guard_err (w_receipt current \<noteq> None \<and> w_receipt current \<noteq> Some receipt)
       (Conflict_Error ''paid work already carries a different provider receipt'')) (\<lambda>_.
     ebind (normalize_receipt i tenant receipt current) (\<lambda>n.
     ebind (attempt_usage sha n (usage_hash sha n) now
              (max (w_reserved current) (un_amount n)) db) (\<lambda>(attempt, db1).
       settle_receipt current tenant receipt now attempt db1)))))"

definition complete_from_receipt ::
  "(string \<Rightarrow> string) \<Rightarrow> clock \<Rightarrow> receipt_input \<Rightarrow> ledger \<Rightarrow> completion res \<times> ledger" where
  "complete_from_receipt sha t i =
     after (ebind (required (ri_work i) ''workId'' 512) (\<lambda>work_id.
            ebind (required (ri_tenant i) ''tenantId'' 512) (\<lambda>tenant.
            ebind (required (ri_admission_event i) ''admissionProviderEventId'' 512) (\<lambda>event.
            ebind (required (ri_receipt i) ''providerReceiptId'' 512) (\<lambda>receipt.
            ebind (timestamp (Jint (t 0)) ''acceptedAt'') (\<lambda>now.
              Inr (work_id, tenant, event, receipt, now)))))))
       (\<lambda>(work_id, tenant, event, receipt, now) db.
          throw_attempt (transaction (receipt_tx sha i work_id tenant event receipt now) db))"

section \<open>The pending queue\<close>

definition pending_work :: "string \<Rightarrow> ledger \<Rightarrow> paid_work list res" where
  "pending_work tenant_input db =
     ebind (required tenant_input ''tenantId'' 512) (\<lambda>tenant.
       Inr (map paid_work_of (order_by queue_order
         (filter (\<lambda>w. w_tenant w = tenant \<and> w_state w \<notin> {Done, Cancelled}) (works db)))))"

end
