(* ===== verification/Ledger_Protocol.thy ===== *)
theory Ledger_Protocol
  imports Ledger_Work
begin

text \<open>
  The abstract protocol of the allowance ledger, its invariant, and the orders its actions respect.

  \<open>ledger_act od\<close> is a step relation with six actions: a period is opened, an entry is posted within
  the available allowance, a captured work row is added, allowance is reserved for a row, rows
  move along the work states without raising what they hold, and a row is settled against a usage
  entry. \<open>od\<close> says whether an entry may overdraw its period, which only the durable receipt's may. That the operations of the code follow the protocol is in Ledger_Refinement.
\<close>

section \<open>Rows of the protocol\<close>

definition held :: "work_row \<Rightarrow> int" where
  "held w = (if w_state w \<in> {Ready, Processing} then w_reserved w else 0)"

definition unleased :: "work_row \<Rightarrow> bool" where
  "unleased w \<longleftrightarrow> w_lease_owner w = None \<and> w_lease_token w = None \<and> w_lease_until w = None"

definition leased :: "work_row \<Rightarrow> bool" where
  "leased w \<longleftrightarrow> w_lease_owner w \<noteq> None \<and> w_lease_token w \<noteq> None \<and> w_lease_until w \<noteq> None"

text \<open>A reservation is the estimate while work is ready or leased, and nothing otherwise.\<close>

definition row_ok :: "work_row \<Rightarrow> bool" where
  "row_ok w \<longleftrightarrow>
     0 \<le> w_estimated w \<and>
     w_reserved w = (if w_state w \<in> {Ready, Processing} then w_estimated w else 0) \<and>
     (if w_state w = Processing then leased w else unleased w) \<and>
     (w_state w = Paused \<longleftrightarrow> w_pause w \<noteq> None) \<and>
     (w_state w = Done \<longleftrightarrow> w_usage_seq w \<noteq> None) \<and>
     (w_state w = Done \<longrightarrow> w_receipt w \<noteq> None \<and> w_done_owner w \<noteq> None \<and> w_done_token w \<noteq> None)"

definition same_work :: "work_row \<Rightarrow> work_row \<Rightarrow> bool" where
  "same_work w v \<longleftrightarrow>
     w_id v = w_id w \<and> w_tenant v = w_tenant w \<and> w_period v = w_period w \<and> w_key v = w_key w \<and>
     w_hash v = w_hash w \<and> w_event v = w_event w \<and> w_operation v = w_operation w \<and>
     w_custody v = w_custody w \<and> w_estimated v = w_estimated w \<and> w_created v = w_created w"

text \<open>The edges of the work states that no settlement and no reservation takes.\<close>

fun work_edge :: "work_state \<Rightarrow> work_state \<Rightarrow> bool" where
  "work_edge Captured s \<longleftrightarrow> s \<in> {Paused, Cancelled}"
| "work_edge Ready s \<longleftrightarrow> s \<in> {Paused, Processing, Cancelled}"
| "work_edge Paused s \<longleftrightarrow> s \<in> {Paused, Cancelled}"
| "work_edge Processing s \<longleftrightarrow> s \<in> {Processing, Captured, Cancelled}"
| "work_edge Done s \<longleftrightarrow> False"
| "work_edge Cancelled s \<longleftrightarrow> False"

definition row_move :: "work_row \<Rightarrow> work_row \<Rightarrow> bool" where
  "row_move w v \<longleftrightarrow>
     w = v \<or>
     (same_work w v \<and> work_edge (w_state w) (w_state v) \<and> w_usage_seq v = w_usage_seq w \<and>
      w_receipt v = w_receipt w \<and>
      (row_ok w \<longrightarrow> row_ok v \<and> held v \<le> held w))"

definition row_done :: "int \<Rightarrow> work_row \<Rightarrow> work_row \<Rightarrow> bool" where
  "row_done seq w v \<longleftrightarrow>
     same_work w v \<and> w_state v = Done \<and> w_usage_seq v = Some seq \<and> held v = 0 \<and>
     (row_ok w \<longrightarrow> row_ok v)"

definition fresh_row :: "work_row \<Rightarrow> bool" where
  "fresh_row w \<longleftrightarrow> w_state w = Captured \<and> row_ok w"

definition entry_ok :: "entry_row \<Rightarrow> bool" where
  "entry_ok e \<longleftrightarrow>
     (e_kind e \<in> {Suspend, Resume} \<longleftrightarrow> e_period e = None) \<and>
     (e_period e = None \<longrightarrow> e_amount e = 0) \<and>
     (e_kind e = Grant \<longrightarrow> 0 < e_amount e) \<and>
     (e_kind e = Expiry \<longrightarrow> e_amount e < 0) \<and>
     (e_kind e = Usage \<longrightarrow> e_amount e \<le> 0 \<and> e_event e \<noteq> None \<and> e_operation e \<noteq> None)"

definition period_known :: "ledger \<Rightarrow> entry_row \<Rightarrow> bool" where
  "period_known s e \<longleftrightarrow>
     (case e_period e of None \<Rightarrow> True | Some p \<Rightarrow> period_of s (e_tenant e) p \<noteq> None)"

definition within_allowance :: "ledger \<Rightarrow> entry_row \<Rightarrow> bool" where
  "within_allowance s e \<longleftrightarrow>
     (case e_period e of None \<Rightarrow> True
      | Some p \<Rightarrow> 0 \<le> e_amount e \<or> - e_amount e \<le> available_in_period s (e_tenant e) p)"

text \<open>Charging a settlement: a new usage entry of the work's period, or one already posted.\<close>

definition charged :: "bool \<Rightarrow> ledger \<Rightarrow> work_row \<Rightarrow> entry_row \<Rightarrow> ledger \<Rightarrow> bool" where
  "charged od s w e s1 \<longleftrightarrow>
     e_tenant e = w_tenant w \<and>
     ((s1 = s \<and> e \<in> set (entries s)) \<or>
      (\<exists>draft. insert_entry draft s = Inr (e, s1) \<and> entry_ok draft \<and> e_kind draft = Usage \<and>
               e_period draft = Some (w_period w) \<and> period_known s draft \<and>
               (od \<or> - e_amount draft \<le> available_in_period s (w_tenant w) (w_period w) + w_reserved w)))"

section \<open>Actions\<close>

inductive ledger_act :: "bool \<Rightarrow> ledger \<Rightarrow> ledger \<Rightarrow> bool" for od :: bool where
  act_period: "period_of s (p_tenant p) (p_period p) = None \<Longrightarrow> p_starts p < p_ends p \<Longrightarrow>
    ledger_act od s (s\<lparr>periods := periods s @ [p]\<rparr>)"
| act_entry: "insert_entry draft s = Inr (row, t) \<Longrightarrow> entry_ok draft \<Longrightarrow> period_known s draft \<Longrightarrow>
    od \<or> within_allowance s draft \<Longrightarrow> ledger_act od s t"
| act_admit: "insert_work w s = Inr ((), t) \<Longrightarrow> fresh_row w \<Longrightarrow> ledger_act od s t"
| act_reserve: "work_of s i = Some w \<Longrightarrow> w_state w \<in> {Captured, Paused} \<Longrightarrow>
    evaluation s w now = None \<Longrightarrow> ledger_act od s (set_work i (evaluated_row None now) s)"
| act_rows: "(\<And>w. w \<in> set (works s) \<Longrightarrow> work_of s (w_id w) = Some w \<Longrightarrow> row_move w (f w)) \<Longrightarrow>
    ledger_act od s (s\<lparr>works := map f (works s)\<rparr>)"
| act_settle: "work_of s i = Some w \<Longrightarrow> w_state w \<noteq> Done \<Longrightarrow> od \<or> w_state w = Processing \<Longrightarrow>
    charged od s w e s1 \<Longrightarrow> hit w \<Longrightarrow>
    (\<And>q. hit q \<Longrightarrow> w_id q = i \<and> w_state q \<noteq> Done) \<Longrightarrow>
    (\<And>q. hit q \<Longrightarrow> row_done (e_sequence e) q (g q)) \<Longrightarrow>
    ledger_act od s (s1\<lparr>works := update_where hit g (works s1)\<rparr>)"

inductive_cases ledger_actE: "ledger_act od s t"

section \<open>The invariant\<close>

definition totals_exact :: "ledger \<Rightarrow> bool" where
  "totals_exact s \<longleftrightarrow> totals s = backfill_totals (entries s)"

definition entry_id :: "entry_row \<Rightarrow> string \<times> string" where
  "entry_id e = (e_tenant e, e_key e)"

definition usage_id :: "entry_row \<Rightarrow> string \<times> string option \<times> string option" where
  "usage_id e = (e_tenant e, e_event e, e_operation e)"

definition entries_ok :: "ledger \<Rightarrow> bool" where
  "entries_ok s \<longleftrightarrow>
     map e_sequence (entries s) = [1..next_seq s - 1] \<and> 1 \<le> next_seq s \<and>
     distinct (map entry_id (entries s)) \<and>
     distinct (map usage_id (filter (\<lambda>e. e_kind e = Usage) (entries s))) \<and>
     (\<forall>e \<in> set (entries s). entry_ok e \<and> period_known s e)"

definition period_id :: "period_row \<Rightarrow> string \<times> string" where
  "period_id p = (p_tenant p, p_period p)"

definition periods_ok :: "ledger \<Rightarrow> bool" where
  "periods_ok s \<longleftrightarrow> distinct (map period_id (periods s)) \<and> (\<forall>p \<in> set (periods s). p_starts p < p_ends p)"

definition work_key :: "work_row \<Rightarrow> string \<times> string" where
  "work_key w = (w_tenant w, w_key w)"

definition work_event :: "work_row \<Rightarrow> string \<times> string \<times> string" where
  "work_event w = (w_tenant w, w_event w, w_operation w)"

definition done_linked :: "ledger \<Rightarrow> work_row \<Rightarrow> bool" where
  "done_linked s w \<longleftrightarrow>
     (case w_usage_seq w of None \<Rightarrow> True
      | Some q \<Rightarrow> \<exists>e \<in> set (entries s). e_sequence e = q \<and> e_tenant e = w_tenant w)"

definition works_ok :: "ledger \<Rightarrow> bool" where
  "works_ok s \<longleftrightarrow>
     distinct (map w_id (works s)) \<and> distinct (map work_key (works s)) \<and>
     distinct (map work_event (works s)) \<and>
     (\<forall>w \<in> set (works s). row_ok w \<and> done_linked s w)"

definition ledger_inv :: "ledger \<Rightarrow> bool" where
  "ledger_inv s \<longleftrightarrow> totals_exact s \<and> entries_ok s \<and> periods_ok s \<and> works_ok s"

text \<open>How far a period's reservations exceed its balance.\<close>

definition deficit :: "ledger \<Rightarrow> string \<Rightarrow> string \<Rightarrow> int" where
  "deficit s tenant period = max 0 (reserved_in_period s tenant period - period_balance s tenant period)"

text \<open>History only grows: entries and periods are appended, work rows keep their identity, and a
  completed row stays as it is.\<close>

definition row_later :: "work_row \<Rightarrow> work_row \<Rightarrow> bool" where
  "row_later w v \<longleftrightarrow> same_work w v \<and> (w_state w = Done \<longrightarrow> v = w)"

definition history :: "ledger \<Rightarrow> ledger \<Rightarrow> bool" where
  "history s t \<longleftrightarrow>
     (\<exists>es. entries t = entries s @ es) \<and> (\<exists>ps. periods t = periods s @ ps) \<and>
     (\<exists>rows news. works t = rows @ news \<and> list_all2 row_later (works s) rows)"

section \<open>Totals are the sums of the entries\<close>

lemma sum_where_none: "filter p rows = [] \<Longrightarrow> sum_where p f rows = 0"
  by (simp add: sum_where_def)

lemma bump_backfill: "bump_totals e (backfill_totals es) = backfill_totals (es @ [e])"
proof (intro ext)
  fix tenant period
  show "bump_totals e (backfill_totals es) tenant period = backfill_totals (es @ [e]) tenant period"
    by (cases "e_period e")
      (auto simp: bump_totals_def backfill_totals_def Let_def entry_totals_def add_totals_def
        sum_where_append sum_where_Cons sum_where_none)
qed

lemma balance_exact:
  assumes "totals_exact s"
  shows "period_balance s tenant period =
    sum_where (\<lambda>e. e_tenant e = tenant \<and> e_period e = Some period) e_amount (entries s)"
  using assms
  by (auto simp: totals_exact_def period_balance_def period_totals_def backfill_totals_def Let_def
      sum_where_def)

lemma insert_entry_totals:
  "insert_entry draft s = Inr (row, t) \<Longrightarrow> totals_exact s \<Longrightarrow> totals_exact t"
  by (auto simp: err_simps totals_exact_def bump_backfill)

lemma insert_entry_tables:
  assumes "insert_entry draft s = Inr (row, t)"
  shows "periods t = periods s" and "works t = works s" and "entries t = entries s @ [row]"
    and "row = draft\<lparr>e_sequence := next_seq s\<rparr>" and "next_seq t = next_seq s + 1"
  using assms by (auto simp: err_simps)

lemma totals_exact_works [simp]: "totals_exact (s\<lparr>works := ws\<rparr>) = totals_exact s"
  by (simp add: totals_exact_def)

lemma insert_work_Inr:
  "insert_work w s = Inr (u, t) \<longleftrightarrow>
     work_of s (w_id w) = None \<and> work_by_idempotency s (w_tenant w) (w_key w) = None \<and>
     work_by_provider_event s (w_tenant w) (w_event w) (w_operation w) = None \<and>
     t = s\<lparr>works := works s @ [w]\<rparr>"
  by (auto simp: insert_work_def)

lemma charged_totals: "charged od s w e s1 \<Longrightarrow> totals_exact s \<Longrightarrow> totals_exact s1"
  by (auto simp: charged_def intro: insert_entry_totals)

lemma act_totals:
  assumes "ledger_act od s t" and "totals_exact s"
  shows "totals_exact t"
  using assms
proof (cases rule: ledger_act.cases)
  case (act_entry draft row)
  with assms(2) show ?thesis by (blast intro: insert_entry_totals)
next
  case act_settle
  with assms(2) show ?thesis by (auto dest: charged_totals)
qed (auto simp: totals_exact_def insert_work_Inr set_work_def)

section \<open>Posting keeps the entry table well-formed\<close>

lemma entry_clash_fresh:
  assumes "\<not> entry_clash s d" and "entry_ok d"
  shows "entry_id d \<notin> entry_id ` set (entries s)"
    and "e_kind d = Usage \<Longrightarrow> usage_id d \<notin> usage_id ` {e \<in> set (entries s). e_kind e = Usage}"
proof -
  show "entry_id d \<notin> entry_id ` set (entries s)"
    using assms(1)
    by (force simp: entry_clash_def entry_by_idempotency_def find_None_all entry_id_def)
next
  assume "e_kind d = Usage"
  with assms show "usage_id d \<notin> usage_id ` {e \<in> set (entries s). e_kind e = Usage}"
    by (force simp: entry_clash_def usage_by_provider_event_def find_None_all usage_id_def
        entry_ok_def split: option.splits)
qed

lemma period_known_mono:
  "period_known s e \<Longrightarrow> periods t = periods s @ ps \<Longrightarrow> period_known t e"
  by (auto simp: period_known_def period_of_def find_append split: option.splits)

lemma entry_ok_sequence [simp]: "entry_ok (e\<lparr>e_sequence := q\<rparr>) = entry_ok e"
  by (simp add: entry_ok_def)

lemma entry_id_sequence [simp]: "entry_id (e\<lparr>e_sequence := q\<rparr>) = entry_id e"
  by (simp add: entry_id_def)

lemma usage_id_sequence [simp]: "usage_id (e\<lparr>e_sequence := q\<rparr>) = usage_id e"
  by (simp add: usage_id_def)

lemma period_known_sequence [simp]: "period_known s (e\<lparr>e_sequence := q\<rparr>) = period_known s e"
  by (auto simp: period_known_def split: option.splits)

lemma period_known_cong: "periods t = periods s \<Longrightarrow> period_known t e = period_known s e"
  by (auto simp: period_known_def period_of_def split: option.splits)

lemma entries_ok_works [simp]: "entries_ok (s\<lparr>works := ws\<rparr>) = entries_ok s"
  by (simp add: entries_ok_def period_known_cong [of "s\<lparr>works := ws\<rparr>" s])

lemma upto_snoc: "1 \<le> n \<Longrightarrow> [1..n - 1] @ [n] = [1..n]"
  using upto_rec2 [of 1 n] by simp

lemma insert_entry_entries_ok:
  assumes "insert_entry d s = Inr (row, t)" and "entry_ok d" and "period_known s d"
    and "entries_ok s"
  shows "entries_ok t"
proof -
  from assms(1) have clash: "\<not> entry_clash s d" by (simp add: err_simps)
  note fresh = entry_clash_fresh [OF clash assms(2)]
  note tables = insert_entry_tables [OF assms(1)]
  from tables(1) have same: "period_known t e = period_known s e" for e
    by (rule period_known_cong)
  from assms(4) have e: "map e_sequence (entries s) = [1..next_seq s - 1]" "1 \<le> next_seq s"
    "distinct (map entry_id (entries s))"
    "distinct (map usage_id (filter (\<lambda>e. e_kind e = Usage) (entries s)))"
    "\<forall>e \<in> set (entries s). entry_ok e \<and> period_known s e"
    by (auto simp: entries_ok_def)
  from e(2) tables have "map e_sequence (entries t) = [1..next_seq t - 1] \<and> 1 \<le> next_seq t"
    by (simp add: e(1) upto_snoc)
  moreover from fresh(1) e(3) tables have "distinct (map entry_id (entries t))" by simp
  moreover from fresh(2) e(4) tables
  have "distinct (map usage_id (filter (\<lambda>e. e_kind e = Usage) (entries t)))"
    by auto
  moreover from assms(2,3) e(5) tables same
  have "\<forall>e \<in> set (entries t). entry_ok e \<and> period_known t e" by auto
  ultimately show ?thesis by (simp add: entries_ok_def)
qed

lemma entries_ok_cong:
  "entries t = entries s \<Longrightarrow> next_seq t = next_seq s \<Longrightarrow> periods t = periods s @ ps \<Longrightarrow>
    entries_ok s \<Longrightarrow> entries_ok t"
  by (auto simp: entries_ok_def intro: period_known_mono)

lemma charged_entries_ok: "charged od s w e s1 \<Longrightarrow> entries_ok s \<Longrightarrow> entries_ok s1"
  by (auto simp: charged_def intro: insert_entry_entries_ok)

lemma act_entries_ok:
  assumes "ledger_act od s t" and "entries_ok s"
  shows "entries_ok t"
  using assms
proof (cases rule: ledger_act.cases)
  case (act_entry draft row)
  with assms(2) show ?thesis by (blast intro: insert_entry_entries_ok)
next
  case (act_settle i w e s1 hit g)
  from charged_entries_ok [OF act_settle(5) assms(2)] act_settle(1) show ?thesis
    by simp
qed (auto simp: insert_work_Inr set_work_def intro!: entries_ok_cong [OF _ _ _ assms(2)])

section \<open>Periods and work rows stay well-formed\<close>

lemma period_fresh:
  "period_of s (p_tenant p) (p_period p) = None \<Longrightarrow> period_id p \<notin> period_id ` set (periods s)"
  by (force simp: period_of_def find_None_all period_id_def)

lemma charged_tables:
  assumes "charged od s w e s1"
  shows "periods s1 = periods s" and "works s1 = works s"
    and "e \<in> set (entries s1)" and "e_tenant e = w_tenant w"
    and "\<exists>es. entries s1 = entries s @ es"
  using assms by (auto simp: charged_def err_simps)

lemma act_periods_ok:
  assumes "ledger_act od s t" and "periods_ok s"
  shows "periods_ok t"
  using assms
proof (cases rule: ledger_act.cases)
  case (act_period p)
  with assms(2) period_fresh [OF act_period(2)] show ?thesis
    by (auto simp: periods_ok_def)
next
  case act_settle
  with assms(2) show ?thesis by (auto simp: periods_ok_def dest: charged_tables(1))
qed (auto simp: periods_ok_def insert_work_Inr set_work_def insert_entry_tables(1))

lemma same_work_refl [simp]: "same_work w w"
  by (simp add: same_work_def)

lemma same_work_trans: "same_work w v \<Longrightarrow> same_work v u \<Longrightarrow> same_work w u"
  by (simp add: same_work_def)

lemma same_work_keys:
  "same_work w v \<Longrightarrow> w_id v = w_id w \<and> work_key v = work_key w \<and> work_event v = work_event w"
  by (simp add: same_work_def work_key_def work_event_def)

lemma works_ok_map:
  assumes "works_ok s" and "\<And>w. w \<in> set (works s) \<Longrightarrow> same_work w (f w)"
    and "\<And>w. w \<in> set (works s) \<Longrightarrow> row_ok w \<Longrightarrow> done_linked s w \<Longrightarrow> row_ok (f w) \<and> done_linked t (f w)"
    and "works t = map f (works s)"
  shows "works_ok t"
proof -
  have maps: "map w_id (works t) = map w_id (works s)" "map work_key (works t) = map work_key (works s)"
    "map work_event (works t) = map work_event (works s)"
    using assms(2) same_work_keys by (auto simp: assms(4))
  from assms(1) have "distinct (map w_id (works t)) \<and> distinct (map work_key (works t)) \<and>
      distinct (map work_event (works t))"
    unfolding works_ok_def maps by simp
  moreover from assms have "\<forall>v \<in> set (works t). row_ok v \<and> done_linked t v"
    by (auto simp: works_ok_def)
  ultimately show ?thesis by (simp add: works_ok_def)
qed

lemma works_ok_row: "works_ok s \<Longrightarrow> w \<in> set (works s) \<Longrightarrow> row_ok w"
  by (simp add: works_ok_def)

lemma done_linked_iff:
  "done_linked s w \<longleftrightarrow> (\<forall>q. w_usage_seq w = Some q \<longrightarrow>
     (\<exists>e \<in> set (entries s). e_sequence e = q \<and> e_tenant e = w_tenant w))"
  by (simp add: done_linked_def split: option.splits)

lemma done_linked_mono:
  "done_linked s w \<Longrightarrow> set (entries s) \<subseteq> set (entries t) \<Longrightarrow> w_usage_seq v = w_usage_seq w \<Longrightarrow>
    w_tenant v = w_tenant w \<Longrightarrow> done_linked t v"
  unfolding done_linked_iff by auto

lemma work_of_Some: "work_of s i = Some w \<Longrightarrow> w \<in> set (works s) \<and> w_id w = i"
  unfolding work_of_def by (auto dest: find_Some_iff_in)

lemma work_of_unique:
  "distinct (map w_id (works s)) \<Longrightarrow> w \<in> set (works s) \<Longrightarrow> work_of s (w_id w) = Some w"
  unfolding work_of_def by (rule find_unique [where k = w_id]) auto

lemma works_ok_id:
  "works_ok s \<Longrightarrow> work_of s i = Some w \<Longrightarrow> q \<in> set (works s) \<Longrightarrow> w_id q = i \<Longrightarrow> q = w"
  by (metis option.inject work_of_unique works_ok_def)

lemma works_ok_unique: "works_ok s \<Longrightarrow> w \<in> set (works s) \<Longrightarrow> work_of s (w_id w) = Some w"
  by (simp add: works_ok_def work_of_unique)

lemma row_move_refl [simp]: "row_move w w"
  by (simp add: row_move_def)

lemma row_move_same: "row_move w v \<Longrightarrow> same_work w v"
  by (auto simp: row_move_def)

lemma row_move_ok: "row_move w v \<Longrightarrow> row_ok w \<Longrightarrow> row_ok v \<and> held v \<le> held w"
  by (auto simp: row_move_def)

lemma row_move_linked: "row_move w v \<Longrightarrow> done_linked s w \<Longrightarrow> done_linked s v"
  by (auto simp: row_move_def done_linked_iff same_work_def)

lemma reserve_same: "same_work w (evaluated_row pause now w)"
  by (simp add: same_work_def evaluated_row_def)

lemma reserve_ok:
  "row_ok w \<Longrightarrow> w_state w \<in> {Captured, Paused} \<Longrightarrow> row_ok (evaluated_row pause now w)"
  by (cases pause) (auto simp: row_ok_def evaluated_row_def unleased_def)

lemma act_works_ok:
  assumes "ledger_act od s t" and "works_ok s"
  shows "works_ok t"
  using assms
proof (cases rule: ledger_act.cases)
  case (act_entry draft row)
  note tab = insert_entry_tables [OF act_entry(1)]
  have "works_ok s" by (rule assms(2))
  then show ?thesis
    by (rule works_ok_map [where f = "\<lambda>w. w"]) (auto simp: tab intro: done_linked_mono)
next
  case (act_admit w)
  from act_admit(1) have t: "t = s\<lparr>works := works s @ [w]\<rparr>" by (simp add: insert_work_Inr)
  from act_admit(1) have "w_id w \<notin> w_id ` set (works s)" "work_key w \<notin> work_key ` set (works s)"
    "work_event w \<notin> work_event ` set (works s)"
    by (force simp: insert_work_Inr work_of_def work_by_idempotency_def
        work_by_provider_event_def find_None_all work_key_def work_event_def)+
  moreover from act_admit(2) have "row_ok w" "w_usage_seq w = None"
    by (auto simp: fresh_row_def row_ok_def)
  moreover have "done_linked t q" if "done_linked s q" for q
    using that by (rule done_linked_mono) (simp_all add: t)
  ultimately show ?thesis using assms(2) t
    by (auto simp: works_ok_def done_linked_iff)
next
  case (act_reserve i w now)
  let ?f = "\<lambda>q. if w_id q = i then evaluated_row None now q else q"
  have only: "q = w" if "q \<in> set (works s)" "w_id q = i" for q
    using works_ok_id [OF assms(2) act_reserve(2) that] .
  have "works_ok s" by (rule assms(2))
  then show ?thesis
  proof (rule works_ok_map [where f = ?f])
    fix q assume q: "q \<in> set (works s)" "row_ok q" "done_linked s q"
    have "row_ok (?f q)" using only [OF q(1)] act_reserve(3) q(2) by (auto intro: reserve_ok)
    moreover have "done_linked t (?f q)"
      using q(3) by (auto elim!: done_linked_mono simp: evaluated_row_def act_reserve(1) set_work_def)
    ultimately show "row_ok (?f q) \<and> done_linked t (?f q)" by simp
  qed (auto simp: act_reserve(1) set_work_def update_where_def intro: reserve_same)
next
  case (act_rows f)
  have move: "row_move w (f w)" if "w \<in> set (works s)" for w
    using act_rows(2) works_ok_unique [OF assms(2)] that by blast
  have "works_ok s" by (rule assms(2))
  then show ?thesis
  proof (rule works_ok_map [where f = f])
    fix q assume q: "q \<in> set (works s)" "row_ok q" "done_linked s q"
    from move [OF q(1)] q show "row_ok (f q) \<and> done_linked t (f q)"
      by (auto dest: row_move_ok row_move_linked intro: done_linked_mono simp: act_rows(1))
  qed (auto simp: act_rows(1) intro: row_move_same move)
next
  case (act_settle i w e s1 hit g)
  note tab = charged_tables [OF act_settle(5)]
  let ?f = "\<lambda>q. if hit q then g q else q"
  have "works_ok s" by (rule assms(2))
  then show ?thesis
  proof (rule works_ok_map [where f = ?f])
    fix q assume q: "q \<in> set (works s)" "row_ok q" "done_linked s q"
    show "row_ok (?f q) \<and> done_linked t (?f q)"
    proof (cases "hit q")
      case True
      with act_settle(7) works_ok_id [OF assms(2) act_settle(2) q(1)] have "q = w" by blast
      with True tab act_settle(8) [OF True] q(2) show ?thesis
        by (auto simp: row_done_def done_linked_iff act_settle(1) same_work_def)
    next
      case False
      with q tab(5) show ?thesis
        by (auto simp: act_settle(1) intro: done_linked_mono)
    qed
  next
    fix q
    show "same_work q (?f q)" using act_settle(8) by (auto simp: row_done_def)
  qed (simp add: act_settle(1) tab(2) update_where_def)
qed (auto simp: works_ok_def done_linked_iff)

theorem act_inv:
  assumes "ledger_act od s t" and "ledger_inv s"
  shows "ledger_inv t"
  using assms by (auto simp: ledger_inv_def intro: act_totals act_entries_ok act_periods_ok act_works_ok)

section \<open>History only grows\<close>

lemma row_later_refl [simp]: "row_later w w"
  by (simp add: row_later_def)

lemma row_later_trans: "row_later w v \<Longrightarrow> row_later v u \<Longrightarrow> row_later w u"
  unfolding row_later_def by (blast intro: same_work_trans)

lemma row_move_later: "row_move w v \<Longrightarrow> row_later w v"
  by (auto simp: row_move_def row_later_def)

lemma row_done_later: "row_done q w v \<Longrightarrow> w_state w \<noteq> Done \<Longrightarrow> row_later w v"
  by (auto simp: row_done_def row_later_def)

lemma history_refl: "history s s"
proof -
  have "list_all2 row_later (works s) (works s)" by (simp add: list_all2_same)
  then show ?thesis unfolding history_def by (metis append_Nil2)
qed

lemma history_trans:
  assumes "history s t" and "history t u"
  shows "history s u"
proof -
  from assms(1) obtain rows news where
    t: "works t = rows @ news" "list_all2 row_later (works s) rows"
    by (auto simp: history_def)
  from assms(2) obtain rows2 news2 where
    u: "works u = rows2 @ news2" "list_all2 row_later (works t) rows2"
    by (auto simp: history_def)
  from t(1) u(2) obtain r1 r2 where r: "rows2 = r1 @ r2" "list_all2 row_later rows r1"
    by (auto simp: list_all2_append1)
  from list_all2_trans [OF row_later_trans t(2) r(2)] u(1) r(1)
  have "\<exists>rows news. works u = rows @ news \<and> list_all2 row_later (works s) rows" by auto
  moreover from assms have "\<exists>es. entries u = entries s @ es" "\<exists>ps. periods u = periods s @ ps"
    unfolding history_def by (metis append.assoc)+
  ultimately show ?thesis unfolding history_def by simp
qed

lemma history_map:
  assumes "\<And>w. w \<in> set (works s) \<Longrightarrow> row_later w (f w)"
    and "entries t = entries s @ es" and "periods t = periods s @ ps"
    and "works t = map f (works s) @ ws"
  shows "history s t"
proof -
  from assms(1) have "list_all2 row_later (works s) (map f (works s))"
    by (auto simp: list_all2_conv_all_nth)
  with assms(2-4) show ?thesis by (auto simp: history_def)
qed

lemma act_history:
  assumes inv: "ledger_inv s" and act: "ledger_act od s t"
  shows "history s t"
  using act
proof (cases rule: ledger_act.cases)
  case (act_entry draft row)
  note tab = insert_entry_tables [OF act_entry(1)]
  show ?thesis by (rule history_map [where f = "\<lambda>w. w"]) (auto simp: tab)
next
  case (act_reserve i w now)
  let ?f = "\<lambda>q. if w_id q = i then evaluated_row None now q else q"
  from inv have ok: "works_ok s" by (simp add: ledger_inv_def)
  show ?thesis
  proof (rule history_map [where f = ?f])
    fix q assume "q \<in> set (works s)"
    with works_ok_id [OF ok act_reserve(2)] act_reserve(3) show "row_later q (?f q)"
      by (auto simp: row_later_def reserve_same)
  qed (auto simp: act_reserve(1) set_work_def update_where_def)
next
  case (act_rows f)
  show ?thesis
    by (rule history_map [where f = f])
      (use inv works_ok_unique in \<open>auto simp: act_rows(1) ledger_inv_def intro!: row_move_later act_rows(2)\<close>)
next
  case (act_settle i w e s1 hit g)
  note tab = charged_tables [OF act_settle(5)]
  from tab(5) obtain es where es: "entries s1 = entries s @ es" by auto
  let ?f = "\<lambda>q. if hit q then g q else q"
  show ?thesis
  proof (rule history_map [where f = ?f])
    fix q
    show "row_later q (?f q)"
      using act_settle(7,8) [of q] by (auto intro: row_done_later)
  qed (auto simp: act_settle(1) tab es update_where_def)
qed (auto simp: insert_work_Inr intro!: history_map [where f = "\<lambda>w. w"])

section \<open>Deficits never grow without an overdraft\<close>

definition deficits_fall :: "ledger \<Rightarrow> ledger \<Rightarrow> bool" where
  "deficits_fall s t \<longleftrightarrow> (\<forall>tenant period. deficit t tenant period \<le> deficit s tenant period)"

lemma reserved_held:
  "reserved_in_period s tenant period =
     sum_where (\<lambda>w. w_tenant w = tenant \<and> w_period w = period) held (works s)"
  unfolding reserved_in_period_def sum_where_alt held_def
  by (rule arg_cong [where f = sum_list]) auto

lemma reserved_cong: "works t = works s \<Longrightarrow> reserved_in_period t = reserved_in_period s"
  by (intro ext) (simp add: reserved_in_period_def)

lemma balance_cong: "totals t = totals s \<Longrightarrow> period_balance t = period_balance s"
  by (intro ext) (simp add: period_balance_def period_totals_def)

lemma balance_works [simp]: "period_balance (s\<lparr>works := ws\<rparr>) = period_balance s"
  by (rule balance_cong) simp

lemma balance_periods [simp]: "period_balance (s\<lparr>periods := ps\<rparr>) = period_balance s"
  by (rule balance_cong) simp

lemma balance_insert:
  assumes "insert_entry draft s = Inr (row, t)"
  shows "period_balance t tenant period = period_balance s tenant period +
    (if e_tenant draft = tenant \<and> e_period draft = Some period then e_amount draft else 0)"
  using assms
  by (auto simp: err_simps period_balance_def period_totals_def bump_totals_def entry_totals_def
      add_totals_def split: option.splits)

lemma reserved_map_le:
  assumes "\<And>w. w \<in> set (works s) \<Longrightarrow> same_work w (f w) \<and> held (f w) \<le> held w"
    and "works t = map f (works s)"
  shows "reserved_in_period t tenant period \<le> reserved_in_period s tenant period"
  unfolding reserved_held assms(2)
  by (rule sum_where_map_mono) (use assms(1) in \<open>auto simp: same_work_def\<close>)

lemma deficit_le:
  assumes "reserved_in_period t tenant period - period_balance t tenant period \<le>
      max 0 (reserved_in_period s tenant period - period_balance s tenant period)"
  shows "deficit t tenant period \<le> deficit s tenant period"
  using assms by (simp add: deficit_def)

lemma reserved_update_one:
  assumes "works_ok s" and "work_of s i = Some w" and "same_work w (g w)"
  shows "sum_where (\<lambda>w. w_tenant w = tenant \<and> w_period w = period) held
      (update_where (\<lambda>q. w_id q = i) g (works s)) =
    reserved_in_period s tenant period +
    (if w_tenant w = tenant \<and> w_period w = period then held (g w) - held w else 0)"
proof -
  from assms(1,2) have "distinct (map w_id (works s))" "w \<in> set (works s)" "w_id w = i"
    by (auto simp: works_ok_def dest: work_of_Some)
  from sum_where_update_one [OF this(1,2), of _ held g] this(3) assms(3) show ?thesis
    by (simp add: reserved_held same_work_def)
qed

lemma update_where_unique:
  assumes "works_ok s" and "work_of s i = Some w" and "hit w"
    and "\<And>q. hit q \<Longrightarrow> w_id q = i"
  shows "update_where hit g (works s) = update_where (\<lambda>q. w_id q = i) g (works s)"
  unfolding update_where_def
  by (rule map_cong [OF refl]) (use assms works_ok_id [OF assms(1,2)] in auto)

lemma act_deficits:
  assumes inv: "ledger_inv s" and act: "ledger_act False s t"
  shows "deficits_fall s t"
  unfolding deficits_fall_def
proof (intro allI deficit_le)
  fix T P
  from inv have ok: "works_ok s" by (simp add: ledger_inv_def)
  let ?R = "reserved_in_period s T P" and ?B = "period_balance s T P"
  show "reserved_in_period t T P - period_balance t T P \<le> max 0 (?R - ?B)"
    using act
  proof (cases rule: ledger_act.cases)
    case (act_entry draft row)
    from insert_entry_tables(2) [OF act_entry(1)] balance_insert [OF act_entry(1)] act_entry(4)
    show ?thesis
      by (auto simp: reserved_cong [of t s] within_allowance_def available_in_period_def
          split: option.splits)
  next
    case (act_admit w)
    then show ?thesis
      by (auto simp: insert_work_Inr reserved_held sum_where_append sum_where_Cons fresh_row_def
          held_def)
  next
    case (act_reserve i w now)
    have w: "w \<in> set (works s)" using work_of_Some [OF act_reserve(2)] ..
    from works_ok_row [OF ok w] act_reserve(3)
    have rw: "0 \<le> w_estimated w" "held w = 0" "held (evaluated_row None now w) = w_estimated w"
      by (auto simp: row_ok_def held_def evaluated_row_def)
    from act_reserve(4) have "w_estimated w \<le> available_in_period s (w_tenant w) (w_period w)"
      by (auto simp: evaluation_def split: if_splits option.splits)
    with rw reserved_update_one [of s i w "evaluated_row None now" T P, OF ok act_reserve(2) reserve_same]
    show ?thesis
      by (auto simp: act_reserve(1) set_work_def reserved_held [of "s\<lparr>works := _\<rparr>"] available_in_period_def)
  next
    case (act_rows f)
    have "reserved_in_period t T P \<le> ?R"
      by (rule reserved_map_le [where f = f])
        (use works_ok_row [OF ok] works_ok_unique [OF ok] act_rows in
          \<open>auto dest: row_move_same row_move_ok\<close>)
    then show ?thesis by (simp add: act_rows(1))
  next
    case (act_settle i w e s1 hit g)
    from act_settle(4) have "w_state w = Processing" by simp
    with works_ok_row [OF ok conjunct1 [OF work_of_Some [OF act_settle(2)]]]
    have h: "held w = w_reserved w" "0 \<le> w_reserved w" by (auto simp: held_def row_ok_def)
    have g: "held (g w) = 0" "same_work w (g w)" "hit w"
      using act_settle(6) act_settle(8) [OF act_settle(6)] by (auto simp: row_done_def)
    note tab = charged_tables [OF act_settle(5)]
    have "works t = update_where (\<lambda>q. w_id q = i) g (works s)"
      using update_where_unique [of s i w hit g, OF ok act_settle(2) g(3)] act_settle(7)
      by (simp add: act_settle(1) tab(2))
    then have R: "reserved_in_period t T P =
        ?R - (if w_tenant w = T \<and> w_period w = P then w_reserved w else 0)"
      using reserved_update_one [of s i w g T P, OF ok act_settle(2) g(2)] g h by (simp add: reserved_held)
    have B: "?B \<le> period_balance s1 T P \<or>
        (w_tenant w = T \<and> w_period w = P \<and>
         ?B \<le> period_balance s1 T P + max 0 (?B - ?R) + w_reserved w)"
      using act_settle(5) unfolding charged_def
      by (cases "w_tenant w = T \<and> w_period w = P")
        (auto simp: balance_insert available_in_period_def err_simps)
    from R B h(2) show ?thesis
      by (auto simp: act_settle(1) split: if_splits)
  qed (simp add: reserved_held)
qed

section \<open>The protocol under the locales\<close>

lemma charged_overdraft: "charged False s w e s1 \<Longrightarrow> charged od s w e s1"
  unfolding charged_def by auto

lemma act_overdraft:
  assumes "ledger_act False s t"
  shows "ledger_act od s t"
  using assms
  by (cases rule: ledger_act.cases) (auto intro: ledger_act.intros charged_overdraft)

lemma run_overdraft: "(ledger_act False)\<^sup>*\<^sup>* s t \<Longrightarrow> (ledger_act od)\<^sup>*\<^sup>* s t"
  by (induction rule: rtranclp_induct) (auto intro: rtranclp.rtrancl_into_rtrancl act_overdraft)

interpretation ledger_safety: protocol_invariant "ledger_act od" ledger_inv for od
  by unfold_locales (rule act_inv)

interpretation ledger_history: protocol_order_under "ledger_act od" ledger_inv history for od
  by unfold_locales (blast intro: history_refl history_trans act_history)+

interpretation ledger_deficits: protocol_order_under "ledger_act False" ledger_inv deficits_fall
  by unfold_locales (meson act_deficits deficits_fall_def order_refl order_trans)+

lemma empty_inv: "ledger_inv empty_ledger"
  by (auto simp: ledger_inv_def totals_exact_def entries_ok_def periods_ok_def works_ok_def
      empty_ledger_def backfill_totals_def Let_def intro!: ext)

end
