(* ===== verification/Ledger_Refinement.thy ===== *)
theory Ledger_Refinement
  imports Ledger_Protocol
begin

text \<open>
  Every operation of the ledger is a run of the protocol of Ledger_Protocol. The transactions come
  first, in the order of the source; \<open>ledger_step\<close> then runs one public operation, and the
  interpretation of \<open>operations\<close> gives the runs of any sequence of them.
\<close>

section \<open>Runs\<close>

abbreviation ledger_run :: "bool \<Rightarrow> ledger \<Rightarrow> ledger \<Rightarrow> bool" where
  "ledger_run od \<equiv> (ledger_act od)\<^sup>*\<^sup>*"

lemma run_one [intro]: "ledger_act od s t \<Longrightarrow> ledger_run od s t"
  by (rule r_into_rtranclp)

lemma run_then: "ledger_run od s t \<Longrightarrow> ledger_run od t u \<Longrightarrow> ledger_run od s u"
  by (rule rtranclp_trans)

lemma run_transaction:
  assumes "\<And>v t. run s = Inr (v, t) \<Longrightarrow> ledger_run od s t"
  shows "ledger_run od s (snd (transaction run s))"
  using assms by (auto simp: snd_transaction split: sum.splits)

lemma run_after:
  assumes "\<And>x. v = Inr x \<Longrightarrow> ledger_run od s (snd (f x s))"
  shows "ledger_run od s (snd (after v f s))"
  using assms by (auto simp: snd_after split: sum.splits)

lemma run_update:
  assumes "\<And>w. work_of s (w_id w) = Some w \<Longrightarrow> hit w \<Longrightarrow> row_move w (f w)"
  shows "ledger_run od s (s\<lparr>works := update_where hit f (works s)\<rparr>)"
  unfolding update_where_def using assms by (auto intro!: run_one act_rows)

section \<open>Row updates of the operations\<close>

lemma row_moveI:
  assumes "same_work w v" and "work_edge (w_state w) (w_state v)"
    and "w_usage_seq v = w_usage_seq w" and "w_receipt v = w_receipt w"
    and "row_ok w \<Longrightarrow> row_ok v" and "row_ok w \<Longrightarrow> held v \<le> held w"
  shows "row_move w v"
  using assms by (simp add: row_move_def)

lemmas row_defs = same_work_def row_ok_def held_def unleased_def leased_def

lemma move_pause_row:
  assumes "w_state w \<in> {Captured, Ready}"
  shows "row_move w (pause_row reason now w)"
  by (rule row_moveI) (use assms in \<open>auto simp: row_defs pause_row_def\<close>)

lemma move_evaluated_row:
  assumes "w_state w \<in> {Captured, Paused}"
  shows "row_move w (evaluated_row (Some reason) now w)"
  by (rule row_moveI) (use assms in \<open>auto simp: row_defs evaluated_row_def\<close>)

lemma move_freed_row:
  assumes "w_state w = Processing" and "s \<in> {Captured, Cancelled}"
  shows "row_move w (freed_row s now w)"
  by (rule row_moveI) (use assms in \<open>auto simp: row_defs freed_row_def\<close>)

lemma move_claimed_row:
  assumes "w_state w = Ready"
  shows "row_move w (claimed_row worker token until now w)"
  by (rule row_moveI) (use assms in \<open>auto simp: row_defs claimed_row_def\<close>)

lemma move_renewed_row:
  assumes "w_state w = Processing"
  shows "row_move w (w\<lparr>w_lease_until := Some u, w_updated := now\<rparr>)"
  by (rule row_moveI) (use assms in \<open>auto simp: row_defs\<close>)

lemma move_cancel_request:
  assumes "w_state w = Processing"
  shows "row_move w (w\<lparr>w_cancel_at := c, w_updated := now\<rparr>)"
  by (rule row_moveI) (use assms in \<open>auto simp: row_defs\<close>)

lemma move_cancelled_row:
  assumes "w_state w \<in> {Captured, Ready, Paused, Processing}"
  shows "row_move w (cancelled_row now w)"
  by (rule row_moveI) (use assms in \<open>auto simp: row_defs cancelled_row_def freed_row_def\<close>)

lemmas row_moves =
  move_pause_row move_evaluated_row move_freed_row move_claimed_row move_renewed_row
  move_cancel_request move_cancelled_row

lemma done_row_done: "row_done seq w (done_row owner token seq receipt now w)"
  by (simp add: row_done_def row_defs done_row_def freed_row_def)

lemma receipt_row_done: "row_done seq w (receipt_row receipt seq now w)"
  by (simp add: row_done_def row_defs receipt_row_def freed_row_def split: option.split)

lemma settled_not: "\<not> settled_state s \<longleftrightarrow> s \<in> {Captured, Paused}"
  by (cases s) (auto simp: settled_state_def)

lemma evaluate_follows:
  assumes "evaluate_work i now s = Inr (w, t)"
  shows "ledger_run od s t"
proof (cases "t = s")
  case False
  from assms False obtain c where c: "work_of s i = Some c" "w_state c \<in> {Captured, Paused}"
    and t: "t = set_work i (evaluated_row (evaluation s c now) now) s"
    by (auto simp: evaluate_work_def Let_def settled_not simp del: insert_iff
        split: option.splits if_splits)
  show ?thesis
  proof (cases "evaluation s c now")
    case None
    with c t show ?thesis by (auto intro: act_reserve)
  next
    case (Some r)
    with c t show ?thesis
      by (auto simp: set_work_def simp del: insert_iff intro!: run_update move_evaluated_row)
  qed
qed simp

section \<open>Closing ended periods\<close>

lemma pause_open_tables [simp]:
  "periods (pause_open_work now p s) = periods s" "entries (pause_open_work now p s) = entries s"
  "totals (pause_open_work now p s) = totals s" "next_seq (pause_open_work now p s) = next_seq s"
  by (simp_all add: pause_open_work_def)

lemma period_of_cong: "periods t = periods s \<Longrightarrow> period_of t = period_of s"
  by (intro ext) (simp add: period_of_def)

lemma pause_open_follows: "ledger_run od s (pause_open_work now p s)"
  unfolding pause_open_work_def
  by (rule run_update) (auto simp del: insert_iff intro: move_pause_row)

lemma pause_row_state: "w_state (pause_row reason now w) = Paused"
  by (simp add: pause_row_def)

lemma pause_row_fixed: "w = pause_row reason now w \<Longrightarrow> w_state w = Paused"
  by (metis pause_row_state)

lemma reserved_after_pause:
  "reserved_in_period (pause_open_work now p s) (p_tenant p) (p_period p) =
     processing_units (pause_open_work now p s) p"
proof -
  have "filter (\<lambda>w. w_tenant w = p_tenant p \<and> w_period w = p_period p \<and> w_state w \<in> {Ready, Processing})
          (works (pause_open_work now p s)) =
        filter (\<lambda>w. w_tenant w = p_tenant p \<and> w_period w = p_period p \<and> w_state w = Processing)
          (works (pause_open_work now p s))"
    by (rule filter_cong [OF refl])
      (auto simp: pause_open_work_def in_update_where pause_row_state dest: pause_row_fixed
        split: if_splits)
  then show ?thesis by (simp add: reserved_in_period_def processing_units_def sum_where_def)
qed

lemma insert_follows:
  "insert_entry d s = Inr (row, t) \<Longrightarrow> entry_ok d \<Longrightarrow> period_known s d \<Longrightarrow>
    od \<or> within_allowance s d \<Longrightarrow> ledger_run od s t"
  by (blast intro: act_entry)

lemma expire_period_follows:
  assumes run: "expire_period sha now p s = Inr (n, t)"
    and known: "period_of s (p_tenant p) (p_period p) \<noteq> None"
  shows "ledger_run od s t \<and> periods t = periods s"
proof -
  let ?s1 = "pause_open_work now p s"
  let ?d = "expiry_draft sha now p (expiry_key ?s1 p) (reclaimable_units ?s1 p)"
  from run consider "t = ?s1" | row where "insert_entry ?d ?s1 = Inr (row, t)" "reclaimable_units ?s1 p \<noteq> 0"
    by (auto simp: expire_period_def Let_def err_simps split: if_splits)
  then show ?thesis
  proof cases
    case 1
    then show ?thesis by (simp add: pause_open_follows)
  next
    case 2
    from 2(2) have pos: "0 < reclaimable_units ?s1 p" by (simp add: reclaimable_units_def)
    from pos have "entry_ok ?d" by (simp add: entry_ok_def expiry_draft_def)
    moreover from known have "period_known ?s1 ?d"
      by (simp add: period_known_def expiry_draft_def period_of_cong [of ?s1 s])
    moreover have "within_allowance ?s1 ?d"
      by (simp add: within_allowance_def expiry_draft_def available_in_period_def
          reserved_after_pause reclaimable_units_def)
    ultimately have "ledger_run od ?s1 t" using 2(1) by (blast intro: insert_follows)
    with pause_open_follows have "ledger_run od s t" by (rule run_then)
    with insert_entry_tables(1) [OF 2(1)] show ?thesis by simp
  qed
qed

lemma expire_periods_follows:
  assumes "expire_periods sha now ps k s = Inr (n, t)"
    and "\<forall>p \<in> set ps. period_of s (p_tenant p) (p_period p) \<noteq> None"
  shows "ledger_run od s t \<and> periods t = periods s"
  using assms
proof (induction ps arbitrary: k s)
  case (Cons p ps)
  from Cons.prems(1) obtain m s1 where
    one: "expire_period sha now p s = Inr (m, s1)" and rest: "expire_periods sha now ps (k + m) s1 = Inr (n, t)"
    by (auto simp: err_simps)
  from expire_period_follows [OF one] Cons.prems(2)
  have s1: "ledger_run od s s1" "periods s1 = periods s" by auto
  with Cons.IH [OF rest] Cons.prems(2) show ?case
    by (auto simp: period_of_cong [of s1 s] intro: run_then)
qed simp

lemma period_in_table:
  "p \<in> set (periods s) \<Longrightarrow> period_of s (p_tenant p) (p_period p) \<noteq> None"
  by (auto simp: period_of_def find_None_iff)

lemma reconcile_periods_follows:
  assumes "reconcile_periods_tx sha now s = Inr (n, t)"
  shows "ledger_run od s t"
  using expire_periods_follows [of sha now "expired_periods now s" 0 s n t od] assms
  by (auto simp: reconcile_periods_tx_def expired_periods_def period_in_table)

section \<open>Posting entries\<close>

lemma ensure_period_follows:
  assumes "ensure_period T P st en cr s = Inr (p, t)"
  shows "ledger_run od s t" and "period_of t (js_trim T) (js_trim P) = Some p"
    and "entries t = entries s" and "totals t = totals s"
    and "p_starts p = st" and "p_ends p = en"
proof -
  let ?fresh = "\<lparr>p_tenant = js_trim T, p_period = js_trim P, p_starts = st, p_ends = en, p_created = cr\<rparr>"
  from assms have lt: "st < en" and
    t: "t = (if period_of s (js_trim T) (js_trim P) = None then s\<lparr>periods := periods s @ [?fresh]\<rparr> else s)"
    and p: "p = (case period_of t (js_trim T) (js_trim P) of Some p \<Rightarrow> p | None \<Rightarrow> ?fresh)"
    and bounds: "p_starts p = st" "p_ends p = en"
    by (auto simp: ensure_period_def Let_def err_simps dest!: required_Inr timestamp_Inr split: if_splits)
  show "ledger_run od s t"
    using act_period [of s ?fresh od] lt by (auto simp: t)
  show "period_of t (js_trim T) (js_trim P) = Some p"
    unfolding p by (auto simp: t period_of_def find_append split: option.splits)
  show "entries t = entries s" "totals t = totals s" by (simp_all add: t)
  show "p_starts p = st" "p_ends p = en" by fact+
qed

lemma grant_norm_facts:
  assumes "normalize_grant t i = Inr n"
  shows "0 < gn_amount n" and "js_trim (gn_tenant n) = gn_tenant n"
    and "js_trim (gn_period n) = gn_period n"
  using assms by (auto simp: normalize_grant_def err_simps js_trim_idem dest!: required_Inr units_Inr)

lemma grant_follows:
  assumes "grant_tx sha c n s = Inr (m, t)" and "0 < gn_amount n"
    and "js_trim (gn_tenant n) = gn_tenant n" and "js_trim (gn_period n) = gn_period n"
  shows "ledger_run od s t"
proof (cases "entry_by_idempotency s (gn_tenant n) (gn_key n)")
  case None
  with assms(1) obtain p s1 row where
    p: "ensure_period (gn_tenant n) (gn_period n) (gn_starts n) (gn_ends n) (c 1) s = Inr (p, s1)"
    and row: "insert_entry (grant_draft (grant_hash sha n) (c 1) n) s1 = Inr (row, t)"
    by (auto simp: grant_tx_def Let_def ebind_eq_Inr)
  have "ledger_run od s1 t"
    using row
    by (rule insert_follows)
      (use assms(2-4) ensure_period_follows(2) [OF p] in
        \<open>auto simp: entry_ok_def grant_draft_def period_known_def within_allowance_def\<close>)
  with ensure_period_follows(1) [OF p] show ?thesis by (rule run_then)
qed (use assms(1) in \<open>auto simp: grant_tx_def Let_def err_simps\<close>)

lemma adjust_norm_facts: "normalize_adjust t i = Inr n \<Longrightarrow> an_amount n \<noteq> 0"
  by (auto simp: normalize_adjust_def err_simps)

lemma adjust_follows:
  assumes "adjust_tx sha c n s = Inr (m, t)"
  shows "ledger_run od s t"
proof (cases "entry_by_idempotency s (an_tenant n) (an_key n)")
  case None
  with assms obtain p row where
    p: "period_of s (an_tenant n) (an_period n) = Some p"
    and amount: "an_amount n < 0 \<longrightarrow> - an_amount n \<le> available_in_period s (an_tenant n) (an_period n)"
    and row: "insert_entry (adjust_draft (adjust_hash sha n) (c 2) n) s = Inr (row, t)"
    by (auto simp: adjust_tx_def Let_def ebind_eq_Inr guard_err_Inr not_less split: option.splits)
  show ?thesis
    using row
    by (rule insert_follows)
      (use p amount in \<open>auto simp: entry_ok_def adjust_draft_def period_known_def within_allowance_def\<close>)
qed (use assms in \<open>auto simp: adjust_tx_def Let_def err_simps\<close>)

lemma control_follows:
  assumes "control_tx sha c kind n s = Inr (m, t)" and "kind \<in> {Suspend, Resume}"
  shows "ledger_run od s t"
proof (cases "entry_by_idempotency s (cn_tenant n) (cn_key n)")
  case None
  with assms(1) obtain row s1 where
    row: "insert_entry (control_draft kind (control_hash sha kind n) (c 1) n) s = Inr (row, s1)"
    and t: "t = (if kind = Suspend then pause_tenant (c 2) (cn_tenant n) s1 else s1)"
    by (auto simp: control_tx_def Let_def ebind_eq_Inr)
  have "ledger_run od s s1"
    using row
    by (rule insert_follows)
      (use assms(2) in \<open>auto simp: entry_ok_def control_draft_def period_known_def within_allowance_def\<close>)
  moreover have "ledger_run od s1 t"
    unfolding t pause_tenant_def
    by (auto simp del: insert_iff intro!: run_update move_pause_row)
  ultimately show ?thesis by (rule run_then)
qed (use assms in \<open>auto simp: control_tx_def Let_def err_simps\<close>)

section \<open>Usage\<close>

lemma find_row:
  "find (\<lambda>e. e_tenant e = T \<and> P e) es = Some e \<Longrightarrow> e \<in> set es \<and> e_tenant e = T"
  by (auto dest: find_Some_iff_in)

text \<open>The three ways an attempt commits: a refusal, a replay, a new entry.\<close>

lemma attempt_usage_cases:
  assumes "attempt_usage sha n h acc owned s = Inr (a, t)"
  obtains (refused) err k where "reconcile_periods_tx sha acc s = Inr (k, t)" and "a = Inl err"
  | (replayed) e k where "reconcile_periods_tx sha acc s = Inr (k, t)" and "e \<in> set (entries t)"
      and "e_tenant e = un_tenant n" and "e_hash e = h"
      and "a = Inr \<lparr>lm_entry = entry_of e, lm_replayed = True\<rparr>"
  | (posted) row k s1 where "reconcile_periods_tx sha acc s = Inr (k, s1)"
      and "insert_entry (usage_draft h acc n) s1 = Inr (row, t)"
      and "a = Inr \<lparr>lm_entry = entry_of row, lm_replayed = False\<rparr>"
      and "period_of s1 (un_tenant n) (un_period n) \<noteq> None"
      and "un_amount n \<le> available_in_period s1 (un_tenant n) (un_period n) + owned"
proof -
  from assms obtain k s1 where rec: "reconcile_periods_tx sha acc s = Inr (k, s1)"
    by (auto simp: attempt_usage_def ebind_eq_Inr)
  note run = assms [unfolded attempt_usage_def rec ebind_Inr prod.case]
  show thesis
  proof (cases "entry_by_idempotency s1 (un_tenant n) (un_key n)")
    case (Some e)
    with run rec show ?thesis
      by (intro replayed [of k e])
        (auto simp: err_simps entry_by_idempotency_def dest: find_row)
  next
    case fresh: None
    show ?thesis
    proof (cases "usage_by_provider_event s1 (un_tenant n) (un_event n) (un_operation n)")
      case (Some e)
      with run rec fresh show ?thesis
        by (intro replayed [of k e]) (auto simp: err_simps usage_by_provider_event_def dest: find_row)
    next
      case None
      with run fresh rec refused posted show ?thesis
        by (auto simp: ebind_eq_Inr not_less dest: units_Inr split: option.splits if_splits)
    qed
  qed
qed

lemma usage_draft_ok: "0 \<le> un_amount n \<Longrightarrow> entry_ok (usage_draft h acc n)"
  by (simp add: entry_ok_def usage_draft_def)

lemma usage_norm_facts: "normalize_usage c i = Inr (acc, n) \<Longrightarrow> 0 \<le> un_amount n"
  by (auto simp: normalize_usage_def err_simps dest: units_Inr)

lemma attempt_follows:
  assumes "attempt_usage sha n h acc 0 s = Inr (a, t)" and "0 \<le> un_amount n"
  shows "ledger_run od s t"
  using assms(1)
proof (cases rule: attempt_usage_cases)
  case (posted row k s1)
  from posted(2) have "ledger_run od s1 t"
    by (rule insert_follows)
      (use posted(4,5) assms(2) in \<open>auto simp: entry_ok_def period_known_def within_allowance_def
        usage_draft_def\<close>)
  with reconcile_periods_follows [OF posted(1)] show ?thesis by (rule run_then)
qed (auto intro: reconcile_periods_follows)

text \<open>Closing periods leaves a row as it is, or pauses it when it was waiting.\<close>

definition maybe_paused :: "work_row \<Rightarrow> work_row \<Rightarrow> bool" where
  "maybe_paused w v \<longleftrightarrow>
     v = w \<or> (w_state w \<in> {Captured, Ready} \<and> (\<exists>now. v = pause_row Period_Inactive now w))"

lemma maybe_paused_same: "maybe_paused w v \<Longrightarrow> same_work w v"
  by (auto simp: maybe_paused_def same_work_def pause_row_def)

lemma maybe_paused_fixed:
  "maybe_paused w v \<Longrightarrow> w_state w \<in> {Paused, Processing, Done, Cancelled} \<Longrightarrow> v = w"
  by (auto simp: maybe_paused_def)

lemma maybe_paused_done: "maybe_paused w v \<Longrightarrow> w_state v = Done \<longleftrightarrow> w_state w = Done"
  by (auto simp: maybe_paused_def pause_row_def)

lemma maybe_paused_trans: "maybe_paused w v \<Longrightarrow> maybe_paused v u \<Longrightarrow> maybe_paused w u"
  by (auto simp: maybe_paused_def pause_row_def)

lemma find_map_id:
  assumes "\<And>w. w_id (f w) = w_id w"
  shows "find (\<lambda>w. w_id w = i) (map f ws) = map_option f (find (\<lambda>w. w_id w = i) ws)"
  using assms by (induction ws) auto

lemma work_of_map:
  "works t = map f (works s) \<Longrightarrow> (\<And>w. w_id (f w) = w_id w) \<Longrightarrow> work_of t i = map_option f (work_of s i)"
  unfolding work_of_def by (simp add: find_map_id)

lemma work_of_update:
  "works t = update_where hit f (works s) \<Longrightarrow> (\<And>w. w_id (f w) = w_id w) \<Longrightarrow>
    work_of t i = map_option (\<lambda>w. if hit w then f w else w) (work_of s i)"
  unfolding update_where_def by (rule work_of_map) auto

lemma pause_row_id [simp]: "w_id (pause_row r now w) = w_id w"
  by (simp add: pause_row_def)

lemma expire_period_works:
  assumes "expire_period sha now p s = Inr (n, t)" and "work_of s i = Some w"
  shows "\<exists>v. work_of t i = Some v \<and> maybe_paused w v"
proof -
  have "work_of (pause_open_work now p s) i =
      map_option (\<lambda>w. if w_tenant w = p_tenant p \<and> w_period w = p_period p \<and> w_state w \<in> {Captured, Ready}
        then pause_row Period_Inactive now w else w) (work_of s i)"
    by (rule work_of_update) (simp_all add: pause_open_work_def)
  with assms(2) have "\<exists>v. work_of (pause_open_work now p s) i = Some v \<and> maybe_paused w v"
    by (auto simp: maybe_paused_def)
  moreover have "works t = works (pause_open_work now p s)"
    using assms(1) by (auto simp: expire_period_def Let_def err_simps split: if_splits)
  ultimately show ?thesis by (simp add: work_of_def)
qed

lemma expire_periods_works:
  assumes "expire_periods sha now ps k s = Inr (n, t)" and "work_of s i = Some w"
  shows "\<exists>v. work_of t i = Some v \<and> maybe_paused w v"
  using assms
proof (induction ps arbitrary: k s w)
  case Nil
  then show ?case by (auto simp: maybe_paused_def)
next
  case (Cons p ps)
  then obtain m s1 where one: "expire_period sha now p s = Inr (m, s1)"
    and rest: "expire_periods sha now ps (k + m) s1 = Inr (n, t)"
    by (auto simp: err_simps)
  from expire_period_works [OF one Cons.prems(2)] Cons.IH [OF rest] show ?case
    by (blast intro: maybe_paused_trans)
qed

lemma reconcile_works:
  "reconcile_periods_tx sha now s = Inr (n, t) \<Longrightarrow> work_of s i = Some w \<Longrightarrow>
    \<exists>v. work_of t i = Some v \<and> maybe_paused w v"
  unfolding reconcile_periods_tx_def by (rule expire_periods_works)

text \<open>What a successful attempt of a settlement has done: closed periods, then charged the row.\<close>

lemma attempt_charges:
  assumes "attempt_usage sha n h acc owned s = Inr (Inr usage, t)"
    and "work_of s i = Some w" and "0 \<le> un_amount n"
    and "un_tenant n = w_tenant w" and "un_period n = w_period w" and "od \<or> owned = w_reserved w"
    and "od \<or> w_state w = Processing"
  obtains s1 v e where "ledger_run od s s1" and "work_of s1 i = Some v" and "maybe_paused w v"
    and "charged od s1 v e t" and "e_sequence e = ae_sequence (lm_entry usage)"
    and "e_tenant e = w_tenant w" and "works t = works s1"
  using assms(1)
proof (cases rule: attempt_usage_cases)
  case (replayed e k)
  from reconcile_works [OF replayed(1) assms(2)] obtain v where
    v: "work_of t i = Some v" "maybe_paused w v" by auto
  from maybe_paused_same [OF v(2)] have "w_tenant v = w_tenant w" by (simp add: same_work_def)
  with replayed(2,3) assms(4) have "charged od t v e t" by (simp add: charged_def)
  with reconcile_periods_follows [OF replayed(1)] v show ?thesis
    by (rule that) (use replayed assms(4) in \<open>simp_all add: entry_of_def\<close>)
next
  case (posted row k s1)
  from reconcile_works [OF posted(1) assms(2)] obtain v where
    v: "work_of s1 i = Some v" "maybe_paused w v" by auto
  from maybe_paused_same [OF v(2)] assms(4,5)
  have vw: "w_tenant v = un_tenant n" "w_period v = un_period n" by (simp_all add: same_work_def)
  have own: "od \<or> owned = w_reserved v"
    using maybe_paused_fixed [OF v(2)] assms(6,7) by auto
  have e: "e_tenant row = w_tenant v"
    using insert_entry_tables(4) [OF posted(2)] by (simp add: vw usage_draft_def)
  moreover have "\<exists>draft. insert_entry draft s1 = Inr (row, t) \<and> entry_ok draft \<and>
      e_kind draft = Usage \<and> e_period draft = Some (w_period v) \<and> period_known s1 draft \<and>
      (od \<or> - e_amount draft \<le> available_in_period s1 (w_tenant v) (w_period v) + w_reserved v)"
    by (rule exI [of _ "usage_draft h acc n"])
      (use posted(2,4,5) vw own assms(3) in
        \<open>auto simp: entry_ok_def usage_draft_def period_known_def\<close>)
  ultimately have "charged od s1 v row t" by (simp add: charged_def)
  with reconcile_periods_follows [OF posted(1)] v show ?thesis
    by (rule that)
      (use posted(3) insert_entry_tables [OF posted(2)] assms(4) in
        \<open>simp_all add: entry_of_def usage_draft_def\<close>)
next
  case refused
  then show ?thesis by simp
qed

section \<open>Settlements\<close>

lemma work_for_tenant_Inr:
  "work_for_tenant s i tenant = Inr w \<longleftrightarrow> work_of s i = Some w \<and> w_tenant w = tenant"
  by (auto simp: work_for_tenant_def split: option.splits)

lemma settle_claim_follows:
  assumes run: "settle_claim sha w n owner token now s = Inr (a, t)"
    and row: "work_of s i = Some w" and n: "0 \<le> un_amount n" "un_tenant n = w_tenant w" "un_period n = w_period w"
  shows "ledger_run od s t"
proof -
  from run obtain a1 t1 where processing: "w_state w = Processing" "holds_lease owner token w" "lease_live now w"
    and attempt: "attempt_usage sha n (usage_hash sha n) now (w_reserved w) s = Inr (a1, t1)"
    by (auto simp: settle_claim_def ebind_eq_Inr guard_err_Inr)
  show ?thesis
  proof (cases a1)
    case (Inl e)
    with run attempt processing have "t = t1" by (auto simp: settle_claim_def err_simps)
    with attempt Inl show ?thesis
      by (auto elim!: attempt_usage_cases intro: reconcile_periods_follows)
  next
    case (Inr usage)
    let ?seq = "ae_sequence (lm_entry usage)"
    let ?hit = "\<lambda>q. w_id q = w_id w \<and> w_state q = Processing \<and> holds_lease owner token q \<and> lease_live now q"
    let ?g = "done_row owner token ?seq (un_event n) now"
    have id: "w_id w = i" using work_of_Some [OF row] ..
    from run attempt processing Inr
    have t: "t = t1\<lparr>works := update_where ?hit ?g (works t1)\<rparr>"
      by (auto simp: settle_claim_def Let_def err_simps split: if_splits)
    obtain s1 v e where s1: "ledger_run od s s1" "work_of s1 i = Some v" "maybe_paused w v"
      and c: "charged od s1 v e t1" "e_sequence e = ?seq"
      using attempt_charges [OF attempt [unfolded Inr] row n, of od] processing(1) by blast
    have v: "v = w" using maybe_paused_fixed [OF s1(3)] processing(1) by simp
    have "ledger_act od s1 t"
      unfolding t
      by (rule act_settle [OF s1(2) _ _ c(1)]) (use v processing id c(2) done_row_done in auto)
    with s1(1) show ?thesis by (rule rtranclp.rtrancl_into_rtrancl)
  qed
qed

lemma replay_done_follows:
  assumes run: "replay_done sha w n owner token now s = Inr (a, t)" and n: "0 \<le> un_amount n"
  shows "ledger_run od s t"
proof -
  from run obtain a1 t1 where attempt: "attempt_usage sha n (usage_hash sha n) now 0 s = Inr (a1, t1)"
    and r: "(case a1 of Inl e \<Rightarrow> Inr (Inl e, t1)
      | Inr usage \<Rightarrow>
         if w_usage_seq w \<noteq> Some (ae_sequence (lm_entry usage)) then Inl different_usage
         else Inr (Inr \<lparr>co_work = paid_work_of w, co_usage = usage\<rparr>, t1)) = Inr (a, t)"
    by (auto simp: replay_done_def ebind_eq_Inr guard_err_Inr)
  from r have "t = t1" by (cases a1) (auto split: if_splits)
  with attempt n show ?thesis by (auto intro: attempt_follows)
qed

lemma normalize_complete_facts:
  "normalize_complete i tenant w = Inr n \<Longrightarrow>
    0 \<le> un_amount n \<and> un_tenant n = tenant \<and> un_period n = w_period w \<and> un_operation n = w_operation w"
  by (auto simp: normalize_complete_def err_simps dest: units_Inr)

lemma complete_follows:
  assumes run: "complete_tx sha c i work_id tenant s = Inr (a, t)"
  shows "ledger_run od s t"
proof -
  from run obtain w n owner token now where
    w: "work_of s work_id = Some w" "w_tenant w = tenant" and n: "normalize_complete i tenant w = Inr n"
    and r: "(if w_state w = Done then replay_done sha w n owner token now s
             else settle_claim sha w n owner token now s) = Inr (a, t)"
    by (auto simp: complete_tx_def ebind_eq_Inr guard_err_Inr work_for_tenant_Inr)
  from normalize_complete_facts [OF n] w r show ?thesis
    by (auto split: if_splits intro: replay_done_follows settle_claim_follows)
qed

lemma normalize_receipt_facts:
  "normalize_receipt i tenant receipt w = Inr n \<Longrightarrow>
    0 \<le> un_amount n \<and> un_tenant n = tenant \<and> un_period n = w_period w \<and> un_event n = receipt"
  by (auto simp: normalize_receipt_def err_simps dest: units_Inr)

lemma receipt_follows:
  assumes run: "receipt_tx sha i work_id tenant event receipt now s = Inr (a, t)"
  shows "ledger_run True s t"
proof -
  from run obtain w n a1 t1 where row: "work_of s work_id = Some w" "w_tenant w = tenant"
    and n: "normalize_receipt i tenant receipt w = Inr n"
    and attempt: "attempt_usage sha n (usage_hash sha n) now (max (w_reserved w) (un_amount n)) s = Inr (a1, t1)"
    and r: "settle_receipt w tenant receipt now a1 t1 = Inr (a, t)"
    by (auto simp: receipt_tx_def ebind_eq_Inr guard_err_Inr work_for_tenant_Inr)
  have id: "w_id w = work_id" using work_of_Some [OF row(1)] ..
  note facts = normalize_receipt_facts [OF n]
  show ?thesis
  proof (cases a1)
    case (Inl e)
    with r have "t = t1" by (simp add: settle_receipt_def)
    with attempt Inl show ?thesis
      by (auto elim!: attempt_usage_cases intro: reconcile_periods_follows)
  next
    case (Inr usage)
    let ?seq = "ae_sequence (lm_entry usage)"
    let ?hit = "\<lambda>q. w_id q = w_id w \<and> w_tenant q = tenant \<and> w_state q \<noteq> Done"
    have pre: "0 \<le> un_amount n" "un_tenant n = w_tenant w" "un_period n = w_period w"
      using facts row(2) by auto
    obtain s1 v e where s1: "ledger_run True s s1" "work_of s1 work_id = Some v" "maybe_paused w v"
      and c: "charged True s1 v e t1" "e_sequence e = ?seq"
      by (rule attempt_charges [OF attempt [unfolded Inr] row(1) pre, where od = True]) auto
    show ?thesis
    proof (cases "w_state w = Done")
      case True
      with r Inr have t: "t = t1" by (auto simp: settle_receipt_def Let_def split: if_splits)
      from attempt [unfolded Inr] show ?thesis
      proof (cases rule: attempt_usage_cases)
        case (posted q k s2)
        have "ledger_run True s2 t1"
          using posted(2)
          by (rule insert_follows)
            (use posted facts in \<open>auto simp: entry_ok_def period_known_def within_allowance_def usage_draft_def\<close>)
        with reconcile_periods_follows [OF posted(1)] t show ?thesis by (auto intro: run_then)
      qed (use t in \<open>auto intro: reconcile_periods_follows\<close>)
    next
      case False
      with r Inr have t: "t = t1\<lparr>works := update_where ?hit (receipt_row receipt ?seq now) (works t1)\<rparr>"
        by (auto simp: settle_receipt_def Let_def err_simps split: if_splits)
      have v: "w_id v = work_id" "w_tenant v = tenant" "w_state v \<noteq> Done"
        using maybe_paused_same [OF s1(3)] maybe_paused_done [OF s1(3)] row(2) id False
        by (simp_all add: same_work_def)
      have "ledger_act True s1 t"
        unfolding t
        by (rule act_settle [OF s1(2) v(3) _ c(1)]) (use v id c(2) receipt_row_done in auto)
      with s1(1) show ?thesis by (rule rtranclp.rtrancl_into_rtrancl)
    qed
  qed
qed

section \<open>The queue\<close>

lemma evaluate_all_follows:
  "evaluate_all now is k s = Inr (n, t) \<Longrightarrow> ledger_run od s t"
proof (induction "is" arbitrary: k s)
  case (Cons i "is")
  from Cons.prems obtain w s1 where one: "evaluate_work i now s = Inr (w, s1)"
    and rest: "evaluate_all now is (if w_state w = Ready then Suc k else k) s1 = Inr (n, t)"
    by (auto simp: ebind_eq_Inr)
  from evaluate_follows [OF one] Cons.IH [OF rest] show ?case by (rule run_then)
qed simp

lemma set_expired_follows:
  "s' \<in> {Captured, Cancelled} \<Longrightarrow> set_expired i s' now s = (n, t) \<Longrightarrow> ledger_run od s t"
  by (auto simp: set_expired_def Let_def lease_expired_def simp del: insert_iff
      intro!: run_update move_freed_row)

lemma reclaim_follows: "reclaim_leases now rows k s = Inr (n, t) \<Longrightarrow> ledger_run od s t"
proof (induction rows arbitrary: k s)
  case (Cons row rows)
  obtain m s1 where c: "set_expired (w_id row) (if w_cancel_at row \<noteq> None then Cancelled else Captured) now s = (m, s1)"
    by fastforce
  then have s1: "ledger_run od s s1" by (rule set_expired_follows [rotated]) auto
  have "ledger_run od s1 t"
  proof (cases "w_cancel_at row = None \<and> m = 1")
    case True
    with Cons.prems c obtain w s2 where "evaluate_work (w_id row) now s1 = Inr (w, s2)"
      and "reclaim_leases now rows (k + 1) s2 = Inr (n, t)"
      by (auto simp: ebind_eq_Inr)
    with Cons.IH show ?thesis by (blast intro: run_then evaluate_follows)
  next
    case False
    with Cons.prems c Cons.IH show ?thesis by (auto split: if_splits)
  qed
  with s1 show ?case by (rule run_then)
qed simp

lemma reconcile_work_follows: "reconcile_work_tx now T s = Inr (n, t) \<Longrightarrow> ledger_run od s t"
  unfolding reconcile_work_tx_def by (rule reclaim_follows)

lemma resume_follows:
  assumes "resume_tx sha T now s = Inr (n, t)"
  shows "ledger_run od s t"
proof -
  from assms obtain k s1 where "reconcile_periods_tx sha now s = Inr (k, s1)"
    and "evaluate_all now (resume_candidates s1 T) 0 s1 = Inr (n, t)"
    by (auto simp: resume_tx_def ebind_eq_Inr)
  then show ?thesis by (blast intro: run_then reconcile_periods_follows evaluate_all_follows)
qed

lemma normalize_admit_facts: "normalize_admit c i = Inr n \<Longrightarrow> 0 \<le> dn_estimated n"
  by (auto simp: normalize_admit_def err_simps dest: units_Inr)

lemma new_work_fresh: "0 \<le> dn_estimated n \<Longrightarrow> fresh_row (new_work uid hash now n)"
  by (simp add: fresh_row_def row_ok_def new_work_def unleased_def)

lemma admit_follows:
  assumes run: "admit_tx sha c uid n s = Inr (a, t)" and n: "0 \<le> dn_estimated n"
  shows "ledger_run od s t"
proof -
  from run obtain k s1 where rec: "reconcile_periods_tx sha (c 1) s = Inr (k, s1)"
    by (auto simp: admit_tx_def Let_def ebind_eq_Inr)
  note r = run [unfolded admit_tx_def Let_def rec ebind_Inr prod.case]
  have "ledger_run od s1 t"
  proof (cases "existing_work s1 n")
    case (Some w)
    with r show ?thesis
      by (auto simp: ebind_eq_Inr guard_err_Inr intro: evaluate_follows split: if_splits)
  next
    case None
    with r obtain w s2 where ins: "insert_work (new_work uid (admit_hash sha n) (c 3) n) s1 = Inr ((), s2)"
      and "evaluate_work uid (c 3) s2 = Inr (w, t)"
      by (auto simp: ebind_eq_Inr)
    moreover have "ledger_act od s1 s2" using ins new_work_fresh [OF n] by (rule act_admit)
    ultimately show ?thesis by (blast intro: run_then evaluate_follows)
  qed
  with reconcile_periods_follows [OF rec] show ?thesis by (rule run_then)
qed

section \<open>Leases\<close>

lemma claim_where_follows:
  assumes "claim_where hit i worker token until now s = Inr (v, t)"
    and "\<And>w. hit w \<Longrightarrow> w_state w = Ready"
  shows "ledger_run od s t"
  using assms by (auto simp: claim_where_def Let_def intro!: run_update move_claimed_row)

lemma claim_next_follows:
  assumes "claim_next_tx sha uid T worker lease now s = Inr (v, t)"
  shows "ledger_run od s t"
proof -
  from assms obtain k1 s1 k2 s2 where s1: "reconcile_work_tx now (Some T) s = Inr (k1, s1)"
    and s2: "reconcile_periods_tx sha now s1 = Inr (k2, s2)"
    by (auto simp: claim_next_tx_def ebind_eq_Inr)
  note r = assms [unfolded claim_next_tx_def s1 s2 ebind_Inr prod.case]
  have "ledger_run od s2 t"
    using r by (auto split: option.splits elim: claim_where_follows)
  with s1 s2 show ?thesis
    by (blast intro: run_then reconcile_work_follows reconcile_periods_follows)
qed

lemma claim_tx_cases:
  assumes "claim_tx sha uid i T worker lease now s = Inr (v, t)"
  obtains (skipped) "t = s" and "v = None"
  | (tried) w s1 k s2 where "work_of s i = Some w" and "w_tenant w = T"
      and "(if lease_expired now w then ebind (reconcile_work_tx now (Some T) s) (\<lambda>(_, db1). Inr db1)
            else Inr s) = Inr s1"
      and "reconcile_periods_tx sha now s1 = Inr (k, s2)"
      and "(case work_of s2 i of
              None \<Rightarrow> Inr (None, s2)
            | Some ready \<Rightarrow>
                if w_tenant ready \<noteq> T \<or> w_state ready \<noteq> Ready then Inr (None, s2)
                else claim_where (\<lambda>q. w_id q = i \<and> w_tenant q = T \<and> w_state q = Ready) i
                       worker uid (now + lease) now s2) = Inr (v, t)"
proof (cases "\<exists>w. work_of s i = Some w \<and> w_tenant w = T")
  case True
  then obtain w where w: "work_of s i = Some w" "w_tenant w = T" by auto
  with assms obtain s1 k s2 where
    s1: "(if lease_expired now w then ebind (reconcile_work_tx now (Some T) s) (\<lambda>(_, db1). Inr db1)
          else Inr s) = Inr s1"
    and s2: "reconcile_periods_tx sha now s1 = Inr (k, s2)"
    by (auto simp: claim_tx_def ebind_eq_Inr)
  from assms w(2) tried [OF w s1 s2] show thesis
    by (simp add: claim_tx_def w(1) s1 s2)
next
  case False
  with assms skipped show thesis by (auto simp: claim_tx_def split: option.splits)
qed

lemma claim_follows:
  assumes "claim_tx sha uid i T worker lease now s = Inr (v, t)"
  shows "ledger_run od s t"
  using assms
proof (cases rule: claim_tx_cases)
  case (tried w s1 k s2)
  have "ledger_run od s s1"
    using tried(3) by (auto simp: ebind_eq_Inr split: if_splits intro: reconcile_work_follows)
  moreover have "ledger_run od s2 t"
    using tried(5) by (auto split: option.splits if_splits elim: claim_where_follows)
  ultimately show ?thesis using tried(4) by (blast intro: run_then reconcile_periods_follows)
qed simp

lemma renew_follows:
  assumes "renew_tx c n lease s = Inr (v, t)"
  shows "ledger_run od s t"
  using assms
  by (auto simp: renew_tx_def Let_def ebind_eq_Inr intro!: run_update move_renewed_row)

lemma release_follows:
  assumes "release_tx c n s = Inr (v, t)"
  shows "ledger_run od s t"
proof -
  from assms obtain w where w: "work_for_tenant s (li_work n) (li_tenant n) = Inr w"
    by (auto simp: release_tx_def ebind_eq_Inr)
  let ?hit = "\<lambda>w. w_id w = li_work n \<and> w_tenant w = li_tenant n \<and> w_state w = Processing
      \<and> holds_lease (li_owner n) (li_token n) w"
  have freed: "ledger_run od s (s\<lparr>works := update_where ?hit (freed_row st (c 0)) (works s)\<rparr>)"
    if "st \<in> {Captured, Cancelled}" for st
    using that by (auto simp del: insert_iff intro!: run_update move_freed_row)
  from assms w consider "t = s"
    | "t = s\<lparr>works := update_where ?hit (freed_row Cancelled (c 0)) (works s)\<rparr>"
    | q where "evaluate_work (li_work n) (c 0)
        (s\<lparr>works := update_where ?hit (freed_row Captured (c 0)) (works s)\<rparr>) = Inr (q, t)"
    by (auto simp: release_tx_def Let_def ebind_eq_Inr split: if_splits)
  then show ?thesis
    by cases (use freed [of Captured] freed [of Cancelled] in \<open>auto intro: run_then evaluate_follows\<close>)
qed

lemma cancel_follows:
  assumes "cancel_tx c i T owner token s = Inr (v, t)"
  shows "ledger_run od s t"
proof -
  from assms consider "t = s"
    | "t = s\<lparr>works := update_where (\<lambda>w. w_id w = i \<and> w_tenant w = T \<and> w_state w = Processing)
             (\<lambda>w. w\<lparr>w_cancel_at := Some (c 0), w_updated := c 1\<rparr>) (works s)\<rparr>"
    | "t = s\<lparr>works := update_where (\<lambda>w. w_id w = i \<and> w_tenant w = T
                  \<and> w_state w \<in> {Captured, Ready, Paused, Processing}) (cancelled_row (c 2)) (works s)\<rparr>"
    by (auto simp: cancel_tx_def Let_def ebind_eq_Inr simp del: insert_iff split: if_splits)
  then show ?thesis
    by cases (auto simp del: insert_iff intro!: run_update move_cancel_request move_cancelled_row)
qed

section \<open>The public interface\<close>

datatype ledger_op =
  Do_Grant clock grant_input
| Do_Adjust clock adjust_input
| Do_Usage clock usage_input
| Do_Suspend clock control_input
| Do_Resume clock control_input
| Do_Reconcile_Periods js_number
| Do_Admit clock string admit_input
| Do_Resume_Paused string js_number
| Do_Reconcile_Work js_number
| Do_Claim_Next string string string js_number js_number
| Do_Claim string string string string js_number js_number
| Do_Renew clock lease_input js_number
| Do_Release clock lease_input
| Do_Cancel clock string string "string option" "string option"
| Do_Complete clock complete_input
| Do_Receipt clock receipt_input

fun ledger_step :: "(string \<Rightarrow> string) \<Rightarrow> ledger_op \<Rightarrow> ledger \<Rightarrow> ledger" where
  "ledger_step sha (Do_Grant c i) s = snd (grant_allowance sha c i s)"
| "ledger_step sha (Do_Adjust c i) s = snd (adjust_allowance sha c i s)"
| "ledger_step sha (Do_Usage c i) s = snd (record_usage sha c i s)"
| "ledger_step sha (Do_Suspend c i) s = snd (suspend_tenant sha c i s)"
| "ledger_step sha (Do_Resume c i) s = snd (resume_tenant sha c i s)"
| "ledger_step sha (Do_Reconcile_Periods at) s = snd (reconcile_expired_periods sha at s)"
| "ledger_step sha (Do_Admit c uid i) s = snd (admit_paid_work sha c uid i s)"
| "ledger_step sha (Do_Resume_Paused tenant at) s = snd (resume_paused sha tenant at s)"
| "ledger_step sha (Do_Reconcile_Work at) s = snd (reconcile_expired_paid_work at s)"
| "ledger_step sha (Do_Claim_Next uid tenant worker lease at) s =
     snd (claim_next_paid_work sha uid tenant worker lease at s)"
| "ledger_step sha (Do_Claim uid i tenant worker lease at) s =
     snd (claim_paid_work sha uid i tenant worker lease at s)"
| "ledger_step sha (Do_Renew c i lease) s = snd (renew_paid_work_lease c i lease s)"
| "ledger_step sha (Do_Release c i) s = snd (release_paid_work_for_retry c i s)"
| "ledger_step sha (Do_Cancel c i tenant owner token) s = snd (cancel_paid_work c i tenant owner token s)"
| "ledger_step sha (Do_Complete c i) s = snd (complete_paid_work sha c i s)"
| "ledger_step sha (Do_Receipt c i) s = snd (complete_from_receipt sha c i s)"

fun is_receipt :: "ledger_op \<Rightarrow> bool" where
  "is_receipt (Do_Receipt c i) \<longleftrightarrow> True"
| "is_receipt _ \<longleftrightarrow> False"

lemma run_after_tx:
  assumes "\<And>x v t. n = Inr x \<Longrightarrow> f x s = Inr (v, t) \<Longrightarrow> ledger_run od s t"
  shows "ledger_run od s (snd (after n (\<lambda>x. transaction (f x)) s))"
  using assms by (blast intro: run_after run_transaction)

lemma run_after_attempt:
  assumes "\<And>x v t. n = Inr x \<Longrightarrow> f x s = Inr (v, t) \<Longrightarrow> ledger_run od s t"
  shows "ledger_run od s (snd (after n (\<lambda>x db. throw_attempt (transaction (f x) db)) s))"
proof (rule run_after)
  fix x assume "n = Inr x"
  with assms show "ledger_run od s (snd (throw_attempt (transaction (f x) s)))"
    unfolding snd_throw_attempt by (blast intro: run_transaction)
qed

lemma step_follows_within:
  "\<not> is_receipt x \<Longrightarrow> ledger_run od s (ledger_step sha x s)"
proof (cases x)
  case (Do_Grant c i)
  then show ?thesis
    by (auto simp: grant_allowance_def intro!: run_after_tx dest: grant_norm_facts intro: grant_follows)
next
  case (Do_Adjust c i)
  then show ?thesis
    by (auto simp: adjust_allowance_def intro!: run_after_tx intro: adjust_follows)
next
  case (Do_Usage c i)
  have "ledger_run od s (snd (after (normalize_usage c i) (\<lambda>x db.
      throw_attempt (transaction (case x of (accepted, n) \<Rightarrow>
        attempt_usage sha n (usage_hash sha n) accepted 0) db)) s))"
    by (rule run_after_attempt) (auto intro: attempt_follows dest: usage_norm_facts)
  then show ?thesis
    by (simp add: Do_Usage record_usage_def case_prod_unfold)
next
  case (Do_Suspend c i)
  then show ?thesis
    by (auto simp: suspend_tenant_def control_def intro!: run_after_tx intro: control_follows)
next
  case (Do_Resume c i)
  then show ?thesis
    by (auto simp: resume_tenant_def control_def intro!: run_after_tx intro: control_follows)
next
  case (Do_Reconcile_Periods at)
  then show ?thesis
    by (auto simp: reconcile_expired_periods_def intro!: run_after_tx intro: reconcile_periods_follows)
next
  case (Do_Admit c uid i)
  then show ?thesis
    by (auto simp: admit_paid_work_def intro!: run_after_tx dest: normalize_admit_facts intro: admit_follows)
next
  case (Do_Resume_Paused tenant at)
  then show ?thesis
    by (auto simp: resume_paused_def case_prod_unfold intro!: run_after_tx intro: resume_follows)
next
  case (Do_Reconcile_Work at)
  then show ?thesis
    by (auto simp: reconcile_expired_paid_work_def intro!: run_after_tx intro: reconcile_work_follows)
next
  case (Do_Claim_Next uid tenant worker lease at)
  then show ?thesis
    by (auto simp: claim_next_paid_work_def case_prod_unfold intro!: run_after_tx intro: claim_next_follows)
next
  case (Do_Claim uid i tenant worker lease at)
  then show ?thesis
    by (auto simp: claim_paid_work_def case_prod_unfold intro!: run_after_tx intro: claim_follows)
next
  case (Do_Renew c i lease)
  then show ?thesis
    by (auto simp: renew_paid_work_lease_def case_prod_unfold intro!: run_after_tx intro: renew_follows)
next
  case (Do_Release c i)
  then show ?thesis
    by (auto simp: release_paid_work_for_retry_def intro!: run_after_tx intro: release_follows)
next
  case (Do_Cancel c i tenant owner token)
  then show ?thesis
    by (auto simp: cancel_paid_work_def case_prod_unfold intro!: run_after_tx intro: cancel_follows)
next
  case (Do_Complete c i)
  then show ?thesis
    by (auto simp: complete_paid_work_def case_prod_unfold intro!: run_after_attempt intro: complete_follows)
qed simp_all

lemma receipt_step_follows: "ledger_run True s (snd (complete_from_receipt sha c i s))"
  by (auto simp: complete_from_receipt_def case_prod_unfold intro!: run_after_attempt
      intro: receipt_follows)

lemma step_follows: "ledger_run True s (ledger_step sha x s)"
  by (cases "is_receipt x") (auto elim!: is_receipt.elims simp: receipt_step_follows step_follows_within)

interpretation ledger_ops: operations "ledger_step sha" "ledger_act True" for sha
  by unfold_locales (rule step_follows)

lemma fold_within:
  "list_all (\<lambda>x. \<not> is_receipt x) xs \<Longrightarrow> ledger_run False s (fold (ledger_step sha) xs s)"
proof (induction xs arbitrary: s)
  case (Cons x xs)
  then have "ledger_run False s (ledger_step sha x s)"
    and "ledger_run False (ledger_step sha x s) (fold (ledger_step sha) xs (ledger_step sha x s))"
    by (simp_all add: step_follows_within)
  then show ?case by (simp add: run_then)
qed simp

end
