(* ===== verification/Ledger_Props.thy ===== *)
theory Ledger_Props
  imports Ledger_Refinement
begin

text \<open>
  The properties of the allowance ledger: what holds after any sequence of its operations, and what
  single operations do.
\<close>

section \<open>States the ledger reaches\<close>

definition ledger_after :: "(string \<Rightarrow> string) \<Rightarrow> ledger_op list \<Rightarrow> ledger" where
  "ledger_after sha xs = fold (ledger_step sha) xs empty_ledger"

lemma after_inv: "ledger_inv (ledger_after sha xs)"
  unfolding ledger_after_def
  by (rule ledger_safety.run_keeps [OF ledger_ops.fold_follows empty_inv])

lemma fold_inv: "ledger_inv s \<Longrightarrow> ledger_inv (fold (ledger_step sha) xs s)"
  by (rule ledger_safety.run_keeps [OF ledger_ops.fold_follows])

lemma fold_history: "ledger_inv s \<Longrightarrow> history s (fold (ledger_step sha) xs s)"
  by (rule ledger_history.run_moves_up [OF ledger_ops.fold_follows])

text \<open>C1. Totals are exact: after any operations, in any order and with any inputs and clocks,
  the trigger-maintained totals of every period are the sums over its entries, which is what the
  one-time backfill of an old file computes.\<close>

theorem ledger_totals_exact:
  "totals (ledger_after sha xs) = backfill_totals (entries (ledger_after sha xs))"
  using after_inv [of sha xs] by (simp add: ledger_inv_def totals_exact_def)

lemma empty_deficit: "deficit empty_ledger T P = 0"
  by (simp add: deficit_def reserved_in_period_def period_balance_def period_totals_def empty_ledger_def)

lemma reserved_nonneg: "ledger_inv s \<Longrightarrow> 0 \<le> reserved_in_period s T P"
  unfolding reserved_in_period_def
  by (rule sum_where_nonneg) (auto simp: ledger_inv_def works_ok_def row_ok_def)

text \<open>C2. Solvency: as long as no durable receipt is settled, the units reserved by ready and
  processing work of a period never exceed the balance of its entries, so the balance is never
  negative either.\<close>

theorem ledger_solvent:
  assumes "list_all (\<lambda>x. \<not> is_receipt x) xs"
  shows "0 \<le> reserved_in_period (ledger_after sha xs) T P \<and>
    reserved_in_period (ledger_after sha xs) T P \<le> period_balance (ledger_after sha xs) T P"
proof
  show "0 \<le> reserved_in_period (ledger_after sha xs) T P"
    by (rule reserved_nonneg [OF after_inv])
  have "deficits_fall empty_ledger (ledger_after sha xs)"
    unfolding ledger_after_def
    by (rule ledger_deficits.run_moves_up [OF fold_within [OF assms] empty_inv])
  then show "reserved_in_period (ledger_after sha xs) T P \<le> period_balance (ledger_after sha xs) T P"
    by (simp add: deficits_fall_def empty_deficit) (simp add: deficit_def)
qed

text \<open>
  One operation other than the durable receipt never raises any period's deficit, the
  units by which its reservations exceed its balance, even in a period a receipt has overdrawn.\<close>

theorem ledger_deficit_never_grows:
  assumes "ledger_inv s" and "\<not> is_receipt x"
  shows "deficit (ledger_step sha x s) T P \<le> deficit s T P"
  using ledger_deficits.run_moves_up [OF step_follows_within [OF assms(2)] assms(1)]
  by (simp add: deficits_fall_def)

lemma after_append: "ledger_after sha (xs @ ys) = fold (ledger_step sha) ys (ledger_after sha xs)"
  by (simp add: ledger_after_def)

lemma after_history: "history (ledger_after sha xs) (ledger_after sha (xs @ ys))"
  unfolding after_append by (rule fold_history [OF after_inv])

lemma after_works_ok: "works_ok (ledger_after sha xs)"
  using after_inv [of sha xs] by (simp add: ledger_inv_def)

lemma history_done:
  assumes "history s t" and "w \<in> set (works s)" and "w_state w = Done"
  shows "w \<in> set (works t)"
proof -
  from assms(1) obtain rows news where t: "works t = rows @ news" "list_all2 row_later (works s) rows"
    by (auto simp: history_def)
  from assms(2) obtain k where "k < length (works s)" "works s ! k = w" by (auto simp: in_set_conv_nth)
  with t(2) assms(3) have "k < length rows" "rows ! k = w"
    by (auto simp: list_all2_conv_all_nth row_later_def)
  with t(1) show ?thesis by (auto simp: in_set_conv_nth)
qed

text \<open>
  The ledger is append-only: whatever follows, the entries and the periods present at a
  point stay as they are and in place, every work row keeps its identity, its estimate and its
  place, and a completed row is never written again.\<close>

theorem ledger_append_only: "history (ledger_after sha xs) (ledger_after sha (xs @ ys))"
  by (rule after_history)

text \<open>C3. Entries are numbered 1, 2, 3 and so on without gaps; no idempotency key of a tenant and
  no provider event and operation of its usage is ever posted twice; and every entry is of a
  known period and has the sign of its kind.\<close>

theorem ledger_entries_well_formed:
  "map e_sequence (entries (ledger_after sha xs)) = [1..next_seq (ledger_after sha xs) - 1] \<and>
   distinct (map entry_id (entries (ledger_after sha xs))) \<and>
   distinct (map usage_id (filter (\<lambda>e. e_kind e = Usage) (entries (ledger_after sha xs)))) \<and>
   (\<forall>e \<in> set (entries (ledger_after sha xs)). entry_ok e \<and> period_known (ledger_after sha xs) e)"
  using after_inv [of sha xs] by (simp add: ledger_inv_def entries_ok_def)

text \<open>
  Work rows are well-formed in every reachable state: a row holds its estimate exactly
  while it is ready or processing, has a complete lease exactly while it is processing, has a pause
  reason exactly while it is paused, and once done points at a posted entry of its tenant; ids,
  idempotency keys and provider intents are unique.\<close>

theorem ledger_work_well_formed: "works_ok (ledger_after sha xs)"
  by (rule after_works_ok)

text \<open>
  Completion is final: a done row, with its receipt and the number of its usage entry, is
  found unchanged after any further operations, and the entry it points at is still posted.\<close>

theorem ledger_done_is_final:
  assumes "work_of (ledger_after sha xs) i = Some w" and "w_state w = Done"
  shows "work_of (ledger_after sha (xs @ ys)) i = Some w \<and>
    (\<exists>e \<in> set (entries (ledger_after sha (xs @ ys))). w_usage_seq w = Some (e_sequence e) \<and> e_tenant e = w_tenant w)"
proof -
  let ?s = "ledger_after sha xs" and ?t = "ledger_after sha (xs @ ys)"
  from assms(1) have w: "w \<in> set (works ?s)" "w_id w = i" by (auto dest: work_of_Some)
  have "history ?s ?t" by (rule after_history)
  then have t: "w \<in> set (works ?t)" using w(1) assms(2) by (rule history_done)
  have ok: "works_ok ?t" by (rule after_works_ok)
  from works_ok_unique [OF ok t] w(2) have "work_of ?t i = Some w" by simp
  moreover from ok t assms(2) have "row_ok w" "done_linked ?t w" by (auto simp: works_ok_def)
  ultimately show ?thesis
    using assms(2) by (auto simp: row_ok_def done_linked_iff)
qed

section \<open>Opening a file again\<close>

lemma open_ledger_inv:
  assumes "ledger_inv s"
  shows "open_ledger True s = s" and "open_ledger False (s\<lparr>totals := lost\<rparr>) = s"
proof -
  have rows: "update_where (\<lambda>w. w_state w = Done \<and> w_receipt w = None \<and> w_usage_seq w \<noteq> None) f (works s) = works s" for f
    unfolding update_where_def
    by (rule map_idI) (use assms in \<open>auto simp: ledger_inv_def works_ok_def row_ok_def\<close>)
  then show "open_ledger True s = s" by (simp add: open_ledger_def)
  from assms have "totals s = backfill_totals (entries s)" by (simp add: ledger_inv_def totals_exact_def)
  then have "s\<lparr>totals := backfill_totals (entries s)\<rparr> = s" by simp
  with rows show "open_ledger False (s\<lparr>totals := lost\<rparr>) = s" by (simp add: open_ledger_def)
qed

text \<open>
  Opening a ledger file changes nothing a run of operations has written, and if the totals
  table is missing, as in files from before it existed, the one-time backfill restores exactly the
  totals the triggers would have kept.\<close>

theorem ledger_reopen:
  "open_ledger True (ledger_after sha xs) = ledger_after sha xs \<and>
   open_ledger False ((ledger_after sha xs)\<lparr>totals := lost\<rparr>) = ledger_after sha xs"
  using open_ledger_inv [OF after_inv] by blast

section \<open>Projections\<close>

lemma sum_where_cong:
  "(\<And>r. r \<in> set rows \<Longrightarrow> p r \<Longrightarrow> f r = g r) \<Longrightarrow> sum_where p f rows = sum_where p g rows"
  by (induction rows) (auto simp: sum_where_Cons)

lemma sum_where_add:
  "sum_where p f rows + sum_where p g rows = sum_where p (\<lambda>r. f r + g r) rows"
  by (induction rows) (auto simp: sum_where_Cons)

lemma sum_where_uminus: "sum_where p (\<lambda>r. - f r) rows = - sum_where p f rows"
  by (induction rows) (auto simp: sum_where_Cons)

lemma sum_where_filter: "sum_where p f (filter q rows) = sum_where (\<lambda>r. q r \<and> p r) f rows"
  by (simp add: sum_where_def conj_commute)

lemma sum_where_if: "sum_where (\<lambda>r. p r \<and> q r) f rows = sum_where p (\<lambda>r. if q r then f r else 0) rows"
  by (induction rows) (auto simp: sum_where_Cons)

lemma totals_split:
  assumes "ledger_inv s"
  shows "t_balance (period_totals s T P) = t_allocated (period_totals s T P) - t_used (period_totals s T P)"
proof -
  let ?g = "\<lambda>e. e_tenant e = T \<and> e_period e = Some P"
  have "sum_where ?g e_amount (entries s) =
      sum_where ?g (\<lambda>e. (if e_kind e \<in> {Grant, Adjustment, Expiry} then e_amount e else 0) +
        (if e_kind e = Usage then e_amount e else 0)) (entries s)"
    by (rule sum_where_cong)
      (use assms in \<open>auto simp: ledger_inv_def entries_ok_def entry_ok_def intro: entry_kind.exhaust\<close>)
  with assms show ?thesis
    by (auto simp: period_totals_def ledger_inv_def totals_exact_def backfill_totals_def Let_def
        sum_where_add [symmetric])
qed

lemma basis_points_bounds: "0 \<le> basis_points u a \<and> basis_points u a \<le> 10000"
  by (simp add: basis_points_def)

text \<open>
  What the customer sees is what admission uses: in every reachable ledger the remaining
  units of the customer projection are the units available to new work in the current period,
  which covers the requested moment, and the usage is between 0 and 10,000 basis points.\<close>

theorem customer_remaining_is_available:
  assumes "customer_projection tenant at (ledger_after sha xs) = Inr m" and "mp_period m = Some P"
  shows "mp_remaining m = available_in_period (ledger_after sha xs) (mp_tenant m) P \<and>
    0 \<le> mp_basis_points m \<and> mp_basis_points m \<le> 10000 \<and>
    (\<exists>p now. at = Jint now \<and> period_of (ledger_after sha xs) (mp_tenant m) P = Some p \<and>
       p_starts p \<le> now \<and> now < p_ends p \<and> mp_resets m = Some (p_ends p))"
proof -
  let ?s = "ledger_after sha xs"
  from assms obtain p now where now: "timestamp at ''at'' = Inr now"
    and p: "current_period ?s (mp_tenant m) now = Some p" "p_period p = P"
    and m: "mp_remaining m = max 0 (t_allocated (period_totals ?s (mp_tenant m) P) -
        t_used (period_totals ?s (mp_tenant m) P) - reserved_in_period ?s (mp_tenant m) P)"
      "mp_basis_points m = basis_points (t_used (period_totals ?s (mp_tenant m) P))
        (t_allocated (period_totals ?s (mp_tenant m) P))" "mp_resets m = Some (p_ends p)"
    by (auto simp: customer_projection_def ebind_eq_Inr Let_def split: option.splits)
  from p have mem: "p \<in> set (periods ?s)" "p_tenant p = mp_tenant m" "p_starts p \<le> now" "now < p_ends p"
    by (auto simp: current_period_def dest!: first_row_Some)
  have "distinct (map period_id (periods ?s))"
    using after_inv [of sha xs] by (simp add: ledger_inv_def periods_ok_def)
  then have "period_of ?s (mp_tenant m) P = Some p"
    unfolding period_of_def using mem p(2)
    by (intro find_unique [where k = period_id]) (auto simp: period_id_def)
  with m mem totals_split [OF after_inv, of sha xs] basis_points_bounds timestamp_Inr [OF now]
  show ?thesis by (auto simp: available_in_period_def period_balance_def)
qed

lemma usage_buckets_sum:
  "sum_list (map bu_units (usage_buckets rows)) = - sum_where (\<lambda>e. e_kind e = Usage) e_amount rows"
proof -
  have "bu_units (bucket_of us g) = - sum_where (\<lambda>e. usage_group e = g) e_amount us" for us g
    by (simp add: bucket_of_def split: prod.splits)
  then show ?thesis
    using sum_groups [of usage_group e_amount "filter (\<lambda>e. e_kind e = Usage) rows"]
    by (simp add: usage_buckets_def Let_def sum_order_by comp_def sum_list_neg sum_where_def)
qed

text \<open>
  The operator's projection of a period accounts for every unit: what was granted and
  adjusted, less what expired and what was used, is the balance of the period, and the breakdown of
  usage by operation, provider, model, tariff and cost basis adds up to what was used.\<close>

theorem operator_projection_balances:
  assumes "operator_ledger_projection tenant (Some per) (ledger_after sha xs) = Inr r" and "per \<noteq> []"
  shows "op_granted r + op_adjusted r - op_expired r - op_used r =
    period_balance (ledger_after sha xs) (op_tenant r) (js_trim per) \<and>
    sum_list (map bu_units (op_by_usage r)) = op_used r"
proof -
  let ?s = "ledger_after sha xs"
  let ?g = "\<lambda>e. e_tenant e = op_tenant r \<and> e_period e = Some (js_trim per)"
  let ?t = "\<lambda>k. sum_where (\<lambda>e. e_kind e = k) e_amount (filter ?g (entries ?s))"
  from assms have r: "op_granted r = ?t Grant" "op_adjusted r = ?t Adjustment"
    "op_expired r = max 0 (- ?t Expiry)" "op_used r = max 0 (- ?t Usage)"
    "op_by_usage r = usage_buckets (filter ?g (entries ?s))"
    by (auto simp: operator_ledger_projection_def ebind_eq_Inr Let_def dest!: required_Inr)
  have inv: "ledger_inv ?s" by (rule after_inv)
  have neg: "?t k \<le> 0" if "k \<in> {Expiry, Usage}" for k
  proof -
    have "0 \<le> sum_where (\<lambda>e. e_kind e = k) (\<lambda>e. - e_amount e) (filter ?g (entries ?s))"
      using that inv by (intro sum_where_nonneg) (auto simp: ledger_inv_def entries_ok_def entry_ok_def)
    then show ?thesis by (simp add: sum_where_uminus)
  qed
  have "sum_where ?g e_amount (entries ?s) = ?t Grant + ?t Adjustment + ?t Expiry + ?t Usage"
    unfolding sum_where_filter sum_where_if sum_where_add
    by (rule sum_where_cong)
      (use inv in \<open>auto simp: ledger_inv_def entries_ok_def entry_ok_def intro: entry_kind.exhaust\<close>)
  moreover have "totals_exact ?s" using inv by (simp add: ledger_inv_def)
  ultimately show ?thesis
    using neg [of Expiry] neg [of Usage] by (simp add: r balance_exact usage_buckets_sum)
qed

lemma next_tenant_Some:
  assumes "next_tenant ts prev = Some t"
  shows "t \<in> set ts" and "\<And>u. u \<in> set ts \<Longrightarrow> (case prev of None \<Rightarrow> True | Some l \<Rightarrow> l < u) \<Longrightarrow> t \<le> u"
    and "case prev of None \<Rightarrow> True | Some l \<Rightarrow> l < t"
proof -
  let ?f = "filter (\<lambda>t. case prev of None \<Rightarrow> True | Some l \<Rightarrow> l < t) ts"
  have first: "first_row (order_by (\<lambda>t. t) ?f) = Some t" using assms by (simp add: next_tenant_def)
  from first_row_Some [OF first]
  show "t \<in> set ts" "case prev of None \<Rightarrow> True | Some l \<Rightarrow> l < t" by auto
  show "t \<le> u" if "u \<in> set ts" "case prev of None \<Rightarrow> True | Some l \<Rightarrow> l < u" for u
    using first_row_order_by [OF first, of u] that by auto
qed

definition above :: "string option \<Rightarrow> string list \<Rightarrow> string set" where
  "above prev ts = {t \<in> set ts. case prev of None \<Rightarrow> True | Some l \<Rightarrow> l < t}"

lemma tenant_walk_set:
  assumes "card (above prev ts) < n"
  shows "set (tenant_walk n ts prev) = above prev ts"
  using assms
proof (induction n arbitrary: prev)
  case (Suc n)
  show ?case
  proof (cases "next_tenant ts prev")
    case None
    then have "order_by (\<lambda>t. t) (filter (\<lambda>t. case prev of None \<Rightarrow> True | Some l \<Rightarrow> l < t) ts) = []"
      by (simp add: next_tenant_def)
    then have "set (filter (\<lambda>t. case prev of None \<Rightarrow> True | Some l \<Rightarrow> l < t) ts) = {}"
      by (metis set_order_by set_empty)
    with None show ?thesis by (simp add: above_def)
  next
    case (Some t)
    note t = next_tenant_Some [OF Some]
    have eq: "above prev ts = insert t (above (Some t) ts)"
      using t by (auto simp: above_def split: option.splits dest: order_le_imp_less_or_eq)
    have "finite (above (Some t) ts)" "t \<notin> above (Some t) ts" by (auto simp: above_def)
    with Suc.prems eq have "card (above (Some t) ts) < n" by simp
    from Suc.IH [OF this] Some eq show ?thesis by simp
  qed
qed simp

text \<open>
  The operator's inventory lists exactly the tenants of the periods, the entries and the
  work rows, each once and in ascending order.\<close>

theorem tenant_ids_inventory:
  "sorted (tenant_ids db) \<and> distinct (tenant_ids db) \<and>
   set (tenant_ids db) = p_tenant ` set (periods db) \<union> e_tenant ` set (entries db) \<union> w_tenant ` set (works db)"
proof -
  have "set (tenant_walk (Suc (length ts)) ts None) = set ts" for ts
    using tenant_walk_set [of None ts "Suc (length ts)"]
    by (simp add: above_def card_length le_imp_less_Suc)
  from this [of "map p_tenant (periods db)"] this [of "map e_tenant (entries db)"]
    this [of "map w_tenant (works db)"]
  show ?thesis by (simp add: tenant_ids_def Let_def Un_assoc del: tenant_walk.simps)
qed

section \<open>Idempotent grants\<close>

lemma idempotency_prefix:
  "entry_by_idempotency s T k = Some e \<Longrightarrow> entries t = entries s @ es \<Longrightarrow>
    entry_by_idempotency t T k = Some e"
  by (simp add: entry_by_idempotency_def find_append)

lemma idempotency_inserted:
  assumes "insert_entry d s = Inr (row, t)"
  shows "entry_by_idempotency t (e_tenant d) (e_key d) = Some row"
proof -
  from assms have "entry_by_idempotency s (e_tenant d) (e_key d) = None"
    by (auto simp: err_simps entry_clash_def)
  with insert_entry_tables [OF assms] show ?thesis
    by (simp add: entry_by_idempotency_def find_append)
qed

lemma history_idempotency:
  "history s t \<Longrightarrow> entry_by_idempotency s T k = Some e \<Longrightarrow> entry_by_idempotency t T k = Some e"
  by (auto simp: history_def intro: idempotency_prefix)

lemma grant_posts:
  assumes "grant_tx sha c n s = Inr (m, t)"
  shows "\<exists>e. entry_by_idempotency t (gn_tenant n) (gn_key n) = Some e \<and> e_hash e = grant_hash sha n \<and>
    lm_entry m = entry_of e"
proof (cases "entry_by_idempotency s (gn_tenant n) (gn_key n)")
  case None
  with assms obtain p s1 row where m: "lm_entry m = entry_of row"
    and row: "insert_entry (grant_draft (grant_hash sha n) (c 1) n) s1 = Inr (row, t)"
    by (auto simp: grant_tx_def Let_def ebind_eq_Inr)
  from idempotency_inserted [OF row] insert_entry_tables(4) [OF row] m show ?thesis
    by (simp add: grant_draft_def)
qed (use assms in \<open>auto simp: grant_tx_def Let_def err_simps\<close>)

lemma grant_tx_replays:
  assumes "entry_by_idempotency s (gn_tenant n) (gn_key n) = Some e" and "e_hash e = grant_hash sha n"
  shows "grant_tx sha c n s = Inr (\<lparr>lm_entry = entry_of e, lm_replayed = True\<rparr>, s)"
  using assms by (simp add: grant_tx_def Let_def replay_or_conflict_def)

lemma normalize_grant_again:
  assumes "normalize_grant c i = Inr n" and "timestamp (or_clock (gi_occurred i) (d 0)) ''occurredAt'' = Inr at"
  shows "normalize_grant d i = Inr (n\<lparr>gn_occurred := at\<rparr>)"
  using assms by (auto simp: normalize_grant_def ebind_eq_Inr)

lemma grant_hash_occurred [simp]: "grant_hash sha (n\<lparr>gn_occurred := at\<rparr>) = grant_hash sha n"
  by (simp add: grant_hash_def)

text \<open>
  Grants are idempotent over time: once a grant has succeeded, repeating it later, after
  any other operations and at any valid clock, changes nothing and returns the entry of the first
  time, marked as replayed.\<close>

theorem grant_replay:
  assumes "ledger_inv s" and "grant_allowance sha c i s = (Inr m, t)"
    and "timestamp (or_clock (gi_occurred i) (d 0)) ''occurredAt'' = Inr at"
  shows "grant_allowance sha d i (fold (ledger_step sha) xs t) =
    (Inr \<lparr>lm_entry = lm_entry m, lm_replayed = True\<rparr>, fold (ledger_step sha) xs t)"
proof -
  from assms(2) obtain n where n: "normalize_grant c i = Inr n" and tx: "grant_tx sha c n s = Inr (m, t)"
    by (auto simp: grant_allowance_def after_def transaction_def split: sum.splits)
  from grant_posts [OF tx] obtain e where
    e: "entry_by_idempotency t (gn_tenant n) (gn_key n) = Some e" "e_hash e = grant_hash sha n"
      "lm_entry m = entry_of e" by auto
  have "ledger_run True s t"
    using tx grant_norm_facts [OF n] by (rule grant_follows)
  then have "ledger_inv t" using assms(1) by (rule ledger_safety.run_keeps)
  from history_idempotency [OF fold_history [OF this] e(1)] e(2,3)
  show ?thesis
    by (simp add: grant_allowance_def normalize_grant_again [where d = d, OF n assms(3)] after_def transaction_def
        grant_tx_replays)
qed

text \<open>
  A grant that is not a replay adds exactly its units to the balance of its period, and
  leaves every other period, every work row and every earlier entry as they were.\<close>

theorem grant_effect:
  assumes "grant_allowance sha c i s = (Inr m, t)" and "\<not> lm_replayed m"
  shows "ae_kind (lm_entry m) = Grant \<and> gi_amount i = Jint (ae_amount (lm_entry m)) \<and>
    period_balance t T P = period_balance s T P +
      (if T = js_trim (gi_tenant i) \<and> P = js_trim (gi_period i) then ae_amount (lm_entry m) else 0) \<and>
    works t = works s \<and> (\<exists>e. entries t = entries s @ [e] \<and> lm_entry m = entry_of e)"
proof -
  from assms(1) obtain n where n: "normalize_grant c i = Inr n" and tx: "grant_tx sha c n s = Inr (m, t)"
    by (auto simp: grant_allowance_def after_def transaction_def split: sum.splits)
  have "entry_by_idempotency s (gn_tenant n) (gn_key n) = None"
    using tx assms(2) by (auto simp: grant_tx_def Let_def err_simps split: option.splits)
  with tx obtain p s1 row where m: "lm_entry m = entry_of row"
    and p: "ensure_period (gn_tenant n) (gn_period n) (gn_starts n) (gn_ends n) (c 1) s = Inr (p, s1)"
    and row: "insert_entry (grant_draft (grant_hash sha n) (c 1) n) s1 = Inr (row, t)"
    by (auto simp: grant_tx_def Let_def ebind_eq_Inr)
  from n have n': "gn_tenant n = js_trim (gi_tenant i)" "gn_period n = js_trim (gi_period i)"
    "gi_amount i = Jint (gn_amount n)"
    by (auto simp: normalize_grant_def ebind_eq_Inr dest!: required_Inr units_Inr)
  note same = ensure_period_follows(3,4) [OF p]
  have "works s1 = works s"
    using p by (auto simp: ensure_period_def Let_def err_simps split: if_splits)
  with balance_insert [OF row, of T P] insert_entry_tables [OF row] balance_cong [OF same(2)] same(1) m n'
  show ?thesis by (auto simp: grant_draft_def entry_of_def)
qed

section \<open>Closing periods\<close>

lemma expire_period_total: "\<exists>n t. expire_period sha now p s = Inr (n, t)"
proof -
  let ?s1 = "pause_open_work now p s"
  let ?d = "expiry_draft sha now p (expiry_key ?s1 p) (reclaimable_units ?s1 p)"
  have "\<not> entry_clash ?s1 ?d" if "entry_by_idempotency ?s1 (p_tenant p) (expiry_key ?s1 p) = None"
    using that by (simp add: entry_clash_def expiry_draft_def)
  then show ?thesis by (auto simp: expire_period_def Let_def insert_entry_def)
qed

lemma expire_periods_total: "\<exists>n t. expire_periods sha now ps k s = Inr (n, t)"
proof (induction ps arbitrary: k s)
  case (Cons p ps)
  obtain m s1 where "expire_period sha now p s = Inr (m, s1)" using expire_period_total by blast
  with Cons.IH [of "k + m" s1] show ?case by simp
qed simp

lemma reconcile_total: "\<exists>n t. reconcile_periods_tx sha now s = Inr (n, t)"
  unfolding reconcile_periods_tx_def by (rule expire_periods_total)

lemma expire_period_entries:
  assumes "expire_period sha now p s = Inr (n, t)"
  shows "\<exists>es. entries t = entries s @ es \<and>
    (\<forall>e \<in> set es. e_kind e = Expiry \<and> e_tenant e = p_tenant p \<and> e_period e = Some (p_period p))"
  using assms
  by (auto simp: expire_period_def Let_def err_simps expiry_draft_def split: if_splits)

lemma expire_periods_entries:
  assumes "expire_periods sha now ps k s = Inr (n, t)"
  shows "\<exists>es. entries t = entries s @ es \<and> (\<forall>e \<in> set es. e_kind e = Expiry)"
  using assms
proof (induction ps arbitrary: k s)
  case (Cons p ps)
  then obtain m s1 where one: "expire_period sha now p s = Inr (m, s1)"
    and rest: "expire_periods sha now ps (k + m) s1 = Inr (n, t)"
    by (auto simp: ebind_eq_Inr)
  from expire_period_entries [OF one] Cons.IH [OF rest] show ?case
    by (metis (no_types, lifting) Un_iff append.assoc set_append)
qed simp

lemma reconcile_entries:
  "reconcile_periods_tx sha now s = Inr (n, t) \<Longrightarrow>
    \<exists>es. entries t = entries s @ es \<and> (\<forall>e \<in> set es. e_kind e = Expiry)"
  unfolding reconcile_periods_tx_def by (rule expire_periods_entries)

text \<open>A period not in the list keeps its balance and what it has reserved.\<close>

lemma reserved_update_other:
  assumes "\<And>w. hit w \<Longrightarrow> \<not> (w_tenant w = T \<and> w_period w = P)"
    and "\<And>w. w_tenant (f w) = w_tenant w \<and> w_period (f w) = w_period w"
    and "works t = update_where hit f (works s)"
  shows "reserved_in_period t T P = reserved_in_period s T P"
  unfolding reserved_held assms(3) update_where_def
  by (rule sum_where_map_same) (use assms(1,2) in auto)

lemma expire_period_other:
  assumes "expire_period sha now p s = Inr (n, t)" and "\<not> (p_tenant p = T \<and> p_period p = P)"
  shows "period_balance t T P = period_balance s T P \<and> reserved_in_period t T P = reserved_in_period s T P"
proof -
  let ?s1 = "pause_open_work now p s"
  have R: "reserved_in_period ?s1 T P = reserved_in_period s T P"
    by (rule reserved_update_other [where f = "pause_row Period_Inactive now"
          and hit = "\<lambda>w. w_tenant w = p_tenant p \<and> w_period w = p_period p \<and> w_state w \<in> {Captured, Ready}"])
      (use assms(2) in \<open>auto simp: pause_open_work_def pause_row_def\<close>)
  have B: "period_balance ?s1 = period_balance s" by (rule balance_cong) simp
  from assms(1) consider "t = ?s1"
    | row where "insert_entry (expiry_draft sha now p (expiry_key ?s1 p) (reclaimable_units ?s1 p)) ?s1 = Inr (row, t)"
    by (auto simp: expire_period_def Let_def err_simps split: if_splits)
  then show ?thesis
  proof cases
    case 1
    with R B show ?thesis by simp
  next
    case 2
    from balance_insert [OF 2, of T P] reserved_cong [OF insert_entry_tables(2) [OF 2]] R B assms(2)
    show ?thesis by (auto simp: expiry_draft_def)
  qed
qed

lemma expire_periods_other:
  assumes "expire_periods sha now ps k s = Inr (n, t)"
    and "\<forall>p \<in> set ps. \<not> (p_tenant p = T \<and> p_period p = P)"
  shows "period_balance t T P = period_balance s T P \<and> reserved_in_period t T P = reserved_in_period s T P"
  using assms
proof (induction ps arbitrary: k s)
  case (Cons p ps)
  then obtain m s1 where one: "expire_period sha now p s = Inr (m, s1)"
    and rest: "expire_periods sha now ps (k + m) s1 = Inr (n, t)"
    by (auto simp: ebind_eq_Inr)
  from expire_period_other [OF one, of T P] Cons.IH [OF rest] Cons.prems(2) show ?case by simp
qed simp

lemma period_of_in:
  "periods_ok s \<Longrightarrow> p \<in> set (periods s) \<Longrightarrow> period_of s (p_tenant p) (p_period p) = Some p"
  unfolding period_of_def periods_ok_def
  by (rule find_unique [where k = period_id]) (auto simp: period_id_def)

lemma reconcile_active:
  assumes "periods_ok s" and "reconcile_periods_tx sha now s = Inr (n, t)"
    and "period_of s T P = Some q" and "now < p_ends q"
  shows "period_balance t T P = period_balance s T P \<and> reserved_in_period t T P = reserved_in_period s T P"
proof (rule expire_periods_other)
  show "expire_periods sha now (expired_periods now s) 0 s = Inr (n, t)"
    using assms(2) by (simp add: reconcile_periods_tx_def)
  show "\<forall>p \<in> set (expired_periods now s). \<not> (p_tenant p = T \<and> p_period p = P)"
    using assms(3,4) period_of_in [OF assms(1)] by (auto simp: expired_periods_def)
qed

lemma reconcile_periods_same: "reconcile_periods_tx sha now s = Inr (n, t) \<Longrightarrow> periods t = periods s"
  using expire_periods_follows [of sha now "expired_periods now s" 0 s n t]
  by (auto simp: reconcile_periods_tx_def expired_periods_def period_in_table)

section \<open>Usage\<close>

lemma record_usage_Inr:
  assumes "record_usage sha c i s = (Inr m, t)"
  obtains acc n where "normalize_usage c i = Inr (acc, n)"
    and "attempt_usage sha n (usage_hash sha n) acc 0 s = Inr (Inr m, t)"
  using assms
  by (auto simp: record_usage_def after_def transaction_def throw_attempt_def split: sum.splits prod.splits)

lemma attempt_posted:
  assumes "attempt_usage sha n h acc 0 s = Inr (Inr m, t)" and "\<not> lm_replayed m"
  obtains p k s1 row where "reconcile_periods_tx sha acc s = Inr (k, s1)"
    and "insert_entry (usage_draft h acc n) s1 = Inr (row, t)" and "lm_entry m = entry_of row"
    and "period_of s1 (un_tenant n) (un_period n) = Some p" and "\<not> outside p acc"
    and "un_amount n \<le> available_in_period s1 (un_tenant n) (un_period n)"
proof -
  from assms(1) obtain k s1 where rec: "reconcile_periods_tx sha acc s = Inr (k, s1)"
    by (auto simp: attempt_usage_def ebind_eq_Inr)
  from assms that show thesis
    unfolding attempt_usage_def rec ebind_Inr prod.case
    by (auto simp: err_simps rec not_less dest!: units_Inr split: option.splits if_splits)
qed

text \<open>
  Usage is charged exactly, and only within an active allowance: when a usage call succeeds
  and is not a replay, its period covers the moment it was accepted, the units were available before
  the call, and the period's balance and availability are lower by exactly those units.\<close>

theorem usage_effect:
  assumes "ledger_inv s" and "record_usage sha c i s = (Inr m, t)" and "\<not> lm_replayed m"
  shows "\<exists>u p. ui_amount i = Jint u \<and> 0 \<le> u \<and> ae_amount (lm_entry m) = - u \<and>
    period_of s (js_trim (ui_tenant i)) (js_trim (ui_period i)) = Some p \<and>
    p_starts p \<le> c 0 \<and> c 0 < p_ends p \<and>
    u \<le> available_in_period s (js_trim (ui_tenant i)) (js_trim (ui_period i)) \<and>
    period_balance t (js_trim (ui_tenant i)) (js_trim (ui_period i)) =
      period_balance s (js_trim (ui_tenant i)) (js_trim (ui_period i)) - u \<and>
    available_in_period t (js_trim (ui_tenant i)) (js_trim (ui_period i)) =
      available_in_period s (js_trim (ui_tenant i)) (js_trim (ui_period i)) - u"
proof -
  let ?T = "js_trim (ui_tenant i)" and ?P = "js_trim (ui_period i)"
  from assms(2) obtain acc n where n: "normalize_usage c i = Inr (acc, n)"
    and att: "attempt_usage sha n (usage_hash sha n) acc 0 s = Inr (Inr m, t)"
    by (rule record_usage_Inr)
  from n have n': "un_tenant n = ?T" "un_period n = ?P" "ui_amount i = Jint (un_amount n)" "0 \<le> un_amount n"
      "acc = c 0"
    by (auto simp: normalize_usage_def ebind_eq_Inr dest!: required_Inr units_Inr timestamp_Inr)
  from att assms(3) obtain p k s1 row where rec: "reconcile_periods_tx sha acc s = Inr (k, s1)"
    and row: "insert_entry (usage_draft (usage_hash sha n) acc n) s1 = Inr (row, t)" "lm_entry m = entry_of row"
    and p: "period_of s1 ?T ?P = Some p" "\<not> outside p acc"
    and fits: "un_amount n \<le> available_in_period s1 ?T ?P"
    unfolding n'(1,2) [symmetric] by (rule attempt_posted)
  have ps: "period_of s ?T ?P = Some p"
    using p(1) by (simp add: period_of_cong [OF reconcile_periods_same [OF rec]])
  from assms(1) have "periods_ok s" by (simp add: ledger_inv_def)
  from reconcile_active [OF this rec ps] p(2)
  have same: "period_balance s1 ?T ?P = period_balance s ?T ?P" "reserved_in_period s1 ?T ?P = reserved_in_period s ?T ?P"
    by (auto simp: outside_def)
  have B: "period_balance t ?T ?P = period_balance s ?T ?P - un_amount n"
    using balance_insert [OF row(1), of ?T ?P] same n' by (simp add: usage_draft_def)
  have R: "reserved_in_period t ?T ?P = reserved_in_period s ?T ?P"
    using reserved_cong [OF insert_entry_tables(2) [OF row(1)]] same by simp
  have fits': "un_amount n \<le> available_in_period s ?T ?P"
    using fits same by (simp add: available_in_period_def)
  have "ae_amount (lm_entry m) = - un_amount n"
    using row(2) insert_entry_tables(4) [OF row(1)] by (simp add: entry_of_def usage_draft_def)
  moreover have "available_in_period t ?T ?P = available_in_period s ?T ?P - un_amount n"
    using fits' n'(4) B R by (auto simp: available_in_period_def)
  ultimately show ?thesis
    using n' ps p(2) fits' B by (intro exI [of _ "un_amount n"] exI [of _ p]) (auto simp: outside_def)
qed

text \<open>
  A usage call that fails charges nothing: the only entries it can leave behind are
  expiries of ended periods, and the only work rows it can touch are waiting ones it pauses.\<close>

theorem usage_failure_charges_nothing:
  assumes "record_usage sha c i s = (Inl e, t)"
  shows "(\<exists>es. entries t = entries s @ es \<and> (\<forall>x \<in> set es. e_kind x = Expiry)) \<and>
    (\<forall>j w. work_of s j = Some w \<longrightarrow> (\<exists>v. work_of t j = Some v \<and> maybe_paused w v))"
proof -
  from assms consider "t = s"
    | acc n err where "attempt_usage sha n (usage_hash sha n) acc 0 s = Inr (Inl err, t)"
    by (auto simp: record_usage_def after_def transaction_def throw_attempt_def split: sum.splits prod.splits)
  then show ?thesis
  proof cases
    case 1
    then show ?thesis by (auto simp: maybe_paused_def)
  next
    case 2
    then obtain k where "reconcile_periods_tx sha acc s = Inr (k, t)"
      by (auto elim!: attempt_usage_cases)
    then show ?thesis using reconcile_entries reconcile_works by blast
  qed
qed

section \<open>Expiry\<close>

definition no_open_work :: "ledger \<Rightarrow> period_row \<Rightarrow> bool" where
  "no_open_work s p \<longleftrightarrow> (\<forall>w \<in> set (works s).
     w_tenant w = p_tenant p \<and> w_period w = p_period p \<longrightarrow> w_state w \<notin> {Captured, Ready})"

definition closed_period :: "ledger \<Rightarrow> period_row \<Rightarrow> bool" where
  "closed_period s p \<longleftrightarrow> no_open_work s p \<and>
     (available_in_period s (p_tenant p) (p_period p) = 0 \<or>
      entry_by_idempotency s (p_tenant p) (expiry_key s p) \<noteq> None)"

lemma pause_closes: "no_open_work (pause_open_work now p s) p"
  by (auto simp: no_open_work_def pause_open_work_def update_where_def pause_row_def split: if_split_asm)

lemma pause_keeps_closed: "no_open_work s q \<Longrightarrow> no_open_work (pause_open_work now p s) q"
  by (auto simp: no_open_work_def pause_open_work_def update_where_def pause_row_def split: if_split_asm)

lemma no_open_cong: "works t = works s \<Longrightarrow> no_open_work t q = no_open_work s q"
  by (simp add: no_open_work_def)

lemma expire_period_closes:
  assumes "expire_period sha now p s = Inr (n, t)"
  shows "closed_period t p"
proof -
  let ?s1 = "pause_open_work now p s"
  let ?d = "expiry_draft sha now p (expiry_key ?s1 p) (reclaimable_units ?s1 p)"
  have avail: "available_in_period ?s1 (p_tenant p) (p_period p) = reclaimable_units ?s1 p"
    by (simp add: available_in_period_def reserved_after_pause reclaimable_units_def)
  from assms consider "t = ?s1" "reclaimable_units ?s1 p = 0"
    | "t = ?s1" "entry_by_idempotency ?s1 (p_tenant p) (expiry_key ?s1 p) \<noteq> None"
    | row where "insert_entry ?d ?s1 = Inr (row, t)"
    by (auto simp: expire_period_def Let_def err_simps split: if_splits)
  then show ?thesis
  proof cases
    case 1
    with avail show ?thesis by (simp add: closed_period_def pause_closes)
  next
    case 2
    then show ?thesis by (simp add: closed_period_def pause_closes)
  next
    case 3
    have "available_in_period t (p_tenant p) (p_period p) = 0"
      using balance_insert [OF 3, of "p_tenant p" "p_period p"]
        reserved_cong [OF insert_entry_tables(2) [OF 3]]
      by (simp add: available_in_period_def reserved_after_pause reclaimable_units_def expiry_draft_def)
    then show ?thesis
      by (simp add: closed_period_def no_open_cong [OF insert_entry_tables(2) [OF 3]] pause_closes)
  qed
qed

lemma expire_period_keeps_closed:
  assumes run: "expire_period sha now p s = Inr (n, t)" and q: "closed_period s q"
  shows "closed_period t q"
proof (cases "p_tenant p = p_tenant q \<and> p_period p = p_period q")
  case True
  with expire_period_closes [OF run] show ?thesis
    by (simp add: closed_period_def no_open_work_def expiry_key_def)
next
  case False
  note other = expire_period_other [OF run False]
  from expire_period_entries [OF run] obtain es where es: "entries t = entries s @ es"
    "\<forall>e \<in> set es. e_tenant e = p_tenant p \<and> e_period e = Some (p_period p)" by auto
  have "filter (\<lambda>e. e_tenant e = p_tenant q \<and> e_period e = Some (p_period q)) es = []"
    using es(2) False by (auto simp: filter_empty_conv)
  then have key: "expiry_key t q = expiry_key s q"
    by (simp add: expiry_key_def max_sequence_def es(1))
  have "works t = works (pause_open_work now p s)"
    using run by (auto simp: expire_period_def Let_def err_simps split: if_splits)
  then have "no_open_work t q"
    using q pause_keeps_closed by (simp add: closed_period_def no_open_cong [of t "pause_open_work now p s"])
  with other q key idempotency_prefix [OF _ es(1)] show ?thesis
    by (auto simp: closed_period_def available_in_period_def)
qed

lemma expire_periods_close:
  assumes "expire_periods sha now ps k s = Inr (n, t)" and "closed_period s q \<or> q \<in> set ps"
  shows "closed_period t q"
  using assms
proof (induction ps arbitrary: k s)
  case (Cons p ps)
  then obtain m s1 where one: "expire_period sha now p s = Inr (m, s1)"
    and rest: "expire_periods sha now ps (k + m) s1 = Inr (n, t)"
    by (auto simp: ebind_eq_Inr)
  have "closed_period s1 q \<or> q \<in> set ps"
    using Cons.prems(2) expire_period_closes [OF one] expire_period_keeps_closed [OF one] by auto
  with Cons.IH [OF rest] show ?case by blast
qed simp

text \<open>
  Ended periods are closed: reconciling at a moment always succeeds, and afterwards no
  period that has ended by then has captured or ready work, and none has units available, unless a
  caller had taken the idempotency key reserved for that expiry.\<close>

theorem reconcile_closes_ended_periods:
  assumes "ledger_inv s" and "0 \<le> now" and "now \<le> max_safe_integer"
  shows "\<exists>n t. reconcile_expired_periods sha (Jint now) s = (Inr n, t) \<and>
    (\<forall>p \<in> set (periods s). p_ends p \<le> now \<longrightarrow> no_open_work t p \<and>
       (available_in_period t (p_tenant p) (p_period p) = 0 \<or>
        entry_by_idempotency t (p_tenant p) (expiry_key t p) \<noteq> None))"
proof -
  obtain n t where rec: "reconcile_periods_tx sha now s = Inr (n, t)" using reconcile_total by blast
  have "closed_period t p" if p: "p \<in> set (periods s)" "p_ends p \<le> now" for p
  proof (rule expire_periods_close)
    show "expire_periods sha now (expired_periods now s) 0 s = Inr (n, t)"
      using rec by (simp add: reconcile_periods_tx_def)
    show "closed_period s p \<or> p \<in> set (expired_periods now s)"
    proof (cases "p \<in> set (expired_periods now s)")
      case False
      with p have "no_open_work s p" and "period_balance s (p_tenant p) (p_period p) \<le> 0"
        by (auto simp: expired_periods_def no_open_work_def find_None_all period_balance_def
            period_totals_def not_less split: option.splits)
      with reserved_nonneg [OF assms(1), of "p_tenant p" "p_period p"] show ?thesis
        by (simp add: closed_period_def available_in_period_def)
    qed simp
  qed
  moreover have "reconcile_expired_periods sha (Jint now) s = (Inr n, t)"
    using assms(2,3) rec
    by (simp add: reconcile_expired_periods_def after_def timestamp_def transaction_def)
  ultimately show ?thesis by (auto simp: closed_period_def)
qed

section \<open>Admission\<close>

lemma evaluate_fresh:
  assumes "insert_work w s = Inr ((), s1)" and "w_state w = Captured" and "evaluate_work (w_id w) now s1 = Inr (v, t)"
  shows "v = evaluated_row (evaluation s w now) now w \<and> t = s\<lparr>works := works s @ [v]\<rparr>"
proof -
  from assms(1) have s1: "s1 = s\<lparr>works := works s @ [w]\<rparr>" and none: "work_of s (w_id w) = None"
    by (auto simp: insert_work_Inr)
  then have w: "work_of s1 (w_id w) = Some w" by (simp add: work_of_def find_append)
  have "available_in_period s1 T P = available_in_period s T P" for T P
    by (simp add: s1 available_in_period_def reserved_in_period_def sum_where_append sum_where_Cons assms(2))
  moreover have "is_suspended s1 T = is_suspended s T" "period_of s1 T P = period_of s T P" for T P
    by (simp_all add: is_suspended_def period_of_def s1)
  ultimately have ev: "evaluation s1 w now = evaluation s w now"
    by (simp add: evaluation_def)
  have same: "update_where (\<lambda>q. w_id q = w_id w) f (works s) = works s" for f
    unfolding update_where_def
    by (rule map_idI) (use none in \<open>auto simp: work_of_def find_None_all\<close>)
  have "update_where (\<lambda>q. w_id q = w_id w) f (works s1) = works s @ [f w]" for f
    using same [of f] by (simp add: s1 update_where_def)
  with assms(2,3) w ev show ?thesis
    by (auto simp: evaluate_work_def settled_state_def Let_def set_work_def s1)
qed

lemma ready_iff:
  "evaluation s w now = None \<longleftrightarrow>
     \<not> is_suspended s (w_tenant w) \<and>
     (\<exists>p. period_of s (w_tenant w) (w_period w) = Some p \<and> p_starts p \<le> now \<and> now < p_ends p) \<and>
     w_estimated w \<le> available_in_period s (w_tenant w) (w_period w)"
  by (auto simp: evaluation_def not_less not_le split: option.splits)

text \<open>
  Admission decides exactly: new work becomes ready if and only if, after ended periods are
  closed, its tenant is not suspended, its period covers the moment and its estimate is available;
  then it reserves exactly its estimate, and otherwise it is kept, paused, and reserves nothing.\<close>

theorem admission_decision:
  assumes "admit_paid_work sha c uid i s = (Inr a, t)" and "ad_state a \<noteq> Admitted_Replayed"
  defines "T \<equiv> js_trim (di_tenant i)" and "P \<equiv> js_trim (di_period i)"
  shows "\<exists>k s1 est. reconcile_periods_tx sha (c 1) s = Inr (k, s1) \<and> di_estimated i = Jint est \<and>
    (ad_state a = Admitted_Ready \<longleftrightarrow>
       \<not> is_suspended s1 T \<and>
       (\<exists>p. period_of s1 T P = Some p \<and> p_starts p \<le> c 3 \<and> c 3 < p_ends p) \<and>
       est \<le> available_in_period s1 T P) \<and>
    pw_state (ad_work a) = (if ad_state a = Admitted_Ready then Ready else Paused) \<and>
    pw_reserved (ad_work a) = (if ad_state a = Admitted_Ready then est else 0) \<and>
    available_in_period t T P = available_in_period s1 T P - pw_reserved (ad_work a) \<and>
    entries t = entries s1 \<and>
    (\<exists>w. works t = works s1 @ [w] \<and> w_id w = uid \<and> ad_work a = paid_work_of w)"
proof -
  from assms(1) obtain n where n: "normalize_admit c i = Inr n" and tx: "admit_tx sha c uid n s = Inr (a, t)"
    by (auto simp: admit_paid_work_def after_def transaction_def split: sum.splits)
  from tx obtain k s1 where rec: "reconcile_periods_tx sha (c 1) s = Inr (k, s1)"
    by (auto simp: admit_tx_def Let_def ebind_eq_Inr)
  let ?w = "new_work uid (admit_hash sha n) (c 3) n"
  note r = tx [unfolded admit_tx_def Let_def rec ebind_Inr prod.case]
  from r assms(2) have "existing_work s1 n = None"
    by (auto simp: ebind_eq_Inr split: option.splits if_splits)
  with r obtain v s2 where ins: "insert_work ?w s1 = Inr ((), s2)"
    and ev: "evaluate_work uid (c 3) s2 = Inr (v, t)"
    and a: "a = \<lparr>ad_state = (if w_state v = Ready then Admitted_Ready else Admitted_Paused), ad_work = paid_work_of v\<rparr>"
    by (auto simp: ebind_eq_Inr)
  have w: "w_tenant ?w = T" "w_period ?w = P" "di_estimated i = Jint (w_estimated ?w)" "w_id ?w = uid"
    "w_state ?w = Captured" "0 \<le> w_estimated ?w"
    using n by (auto simp: T_def P_def new_work_def normalize_admit_def ebind_eq_Inr
        dest!: required_Inr units_Inr)
  from evaluate_fresh [OF ins w(5)] ev w(4)
  have v: "v = evaluated_row (evaluation s1 ?w (c 3)) (c 3) ?w" and t: "t = s1\<lparr>works := works s1 @ [v]\<rparr>"
    by auto
  have ready: "w_state v = Ready \<longleftrightarrow> evaluation s1 ?w (c 3) = None" by (simp add: v evaluated_row_def)
  have vr: "w_reserved v = (if w_state v = Ready then w_estimated ?w else 0)" "w_tenant v = T" "w_period v = P"
    "w_state v \<in> {Ready, Paused}" "w_id v = uid"
    using w by (auto simp: v evaluated_row_def)
  have "reserved_in_period t T P = reserved_in_period s1 T P + w_reserved v"
    using vr by (auto simp: t reserved_in_period_def sum_where_append sum_where_Cons)
  moreover have "w_state v = Ready \<Longrightarrow> w_estimated ?w \<le> available_in_period s1 T P"
    using ready ready_iff [of s1 ?w] w by simp
  ultimately have "available_in_period t T P = available_in_period s1 T P - w_reserved v"
    using vr w(6) by (auto simp: available_in_period_def t)
  with rec w vr ready ready_iff [of s1 ?w "c 3"] a t show ?thesis
    by (intro exI [of _ k] exI [of _ s1] exI [of _ "w_estimated ?w"])
      (auto simp: paid_work_of_def)
qed

end
