(* ===== verification/Ledger_Leases.thy ===== *)
theory Ledger_Leases
  imports Ledger_Props
begin

text \<open>
  Claims, leases, cancellation and completion of paid work: who may work on a row, for how long,
  and what completing it does.
\<close>

section \<open>A live lease is left alone\<close>

lemma evaluate_keeps:
  assumes "evaluate_work j now s = Inr (q, t)" and "work_of s i = Some w" and "settled_state (w_state w)"
  shows "work_of t i = Some w"
proof (cases "j = i")
  case True
  with assms show ?thesis by (auto simp: evaluate_work_def)
next
  case False
  from assms(1) consider "t = s" | f where "works t = update_where (\<lambda>q. w_id q = j) f (works s)"
      and "\<And>q. w_id (f q) = w_id q"
    by (auto simp: evaluate_work_def Let_def set_work_def evaluated_row_def split: option.splits if_splits)
  then show ?thesis
    by cases (use assms(2) False in \<open>auto simp: work_of_update dest: work_of_Some\<close>)
qed

lemma set_expired_keeps:
  assumes "set_expired j st now s = (n, t)" and "work_of s i = Some w" and "\<not> lease_expired now w"
  shows "work_of t i = Some w"
proof -
  have "works t = update_where (\<lambda>w. w_id w = j \<and> lease_expired now w) (freed_row st now) (works s)"
    using assms(1) by (auto simp: set_expired_def Let_def)
  from work_of_update [OF this, of i] assms(2,3) show ?thesis
    by (simp add: freed_row_def)
qed

lemma reclaim_keeps:
  assumes "reclaim_leases now rows k s = Inr (n, t)" and "work_of s i = Some w"
    and "w_state w = Processing" and "lease_live now w"
  shows "work_of t i = Some w"
  using assms
proof (induction rows arbitrary: k s)
  case (Cons row rows)
  have live: "\<not> lease_expired now w"
    using Cons.prems(4) by (auto simp: lease_expired_def lease_live_def split: option.splits)
  obtain m s1 where c: "set_expired (w_id row) (if w_cancel_at row \<noteq> None then Cancelled else Captured) now s = (m, s1)"
    by fastforce
  from set_expired_keeps [OF c Cons.prems(2) live] have s1: "work_of s1 i = Some w" .
  show ?case
  proof (cases "w_cancel_at row = None \<and> m = 1")
    case True
    with Cons.prems(1) c obtain q s2 where e: "evaluate_work (w_id row) now s1 = Inr (q, s2)"
      and rest: "reclaim_leases now rows (k + 1) s2 = Inr (n, t)"
      by (auto simp: ebind_eq_Inr)
    have "work_of s2 i = Some w"
      by (rule evaluate_keeps [OF e s1]) (simp add: Cons.prems(3) settled_state_def)
    with Cons.IH [OF rest] Cons.prems(3,4) show ?thesis by blast
  next
    case False
    with Cons.prems c s1 Cons.IH show ?thesis by (auto split: if_splits)
  qed
qed simp

lemma reconcile_keeps_processing:
  "reconcile_periods_tx sha now s = Inr (n, t) \<Longrightarrow> work_of s i = Some w \<Longrightarrow> w_state w = Processing \<Longrightarrow>
    work_of t i = Some w"
  using reconcile_works maybe_paused_fixed by fastforce

lemma claim_where_keeps:
  assumes "claim_where hit j worker token until now s = Inr (v, t)" and "work_of s i = Some w" and "\<not> hit w"
  shows "work_of t i = Some w"
proof -
  have "works t = update_where hit (claimed_row worker token until now) (works s)"
    using assms(1) by (auto simp: claim_where_def Let_def)
  from work_of_update [OF this, of i] assms(2,3) show ?thesis by (simp add: claimed_row_def)
qed

lemma claim_next_tx_keeps:
  assumes "claim_next_tx sha uid T worker lease now s = Inr (v, t)"
    and w: "work_of s i = Some w" "w_state w = Processing" "lease_live now w"
  shows "work_of t i = Some w"
proof -
  from assms(1) obtain k1 s1 k2 s2 where s1: "reconcile_work_tx now (Some T) s = Inr (k1, s1)"
    and s2: "reconcile_periods_tx sha now s1 = Inr (k2, s2)"
    by (auto simp: claim_next_tx_def ebind_eq_Inr)
  have "work_of s2 i = Some w"
    using reconcile_keeps_processing [OF s2 reclaim_keeps [OF s1 [unfolded reconcile_work_tx_def] w] w(2)] .
  with assms(1) [unfolded claim_next_tx_def s1 s2 ebind_Inr prod.case] w(2) show ?thesis
    by (auto split: option.splits intro: claim_where_keeps)
qed

lemma claim_tx_keeps:
  assumes "claim_tx sha uid j T worker lease now s = Inr (v, t)"
    and w: "work_of s i = Some w" "w_state w = Processing" "lease_live now w"
  shows "work_of t i = Some w"
proof -
  from assms(1) show ?thesis
  proof (cases rule: claim_tx_cases)
    case skipped
    with w show ?thesis by simp
  next
    case (tried q s1 k s2)
    have "work_of s1 i = Some w"
      using tried(3) w by (auto simp: ebind_eq_Inr reconcile_work_tx_def intro: reclaim_keeps split: if_splits)
    then have "work_of s2 i = Some w" using reconcile_keeps_processing [OF tried(4)] w(2) by blast
    with tried(5) w(2) show ?thesis
      by (auto split: option.splits if_splits intro: claim_where_keeps)
  qed
qed

text \<open>Calls by anyone but the holder of the lease of \<open>w\<close>: claims while it lives, and the other calls on
  leased work, which carry the owner and the token of a lease, with another one.\<close>

definition claims_early :: "js_number \<Rightarrow> work_row \<Rightarrow> bool" where
  "claims_early at w \<longleftrightarrow> (case at of Jint now \<Rightarrow> lease_live now w | Jother \<Rightarrow> True)"

fun of_another :: "work_row \<Rightarrow> ledger_op \<Rightarrow> bool" where
  "of_another w (Do_Claim_Next uid tenant worker lease at) \<longleftrightarrow> claims_early at w"
| "of_another w (Do_Claim uid i tenant worker lease at) \<longleftrightarrow> claims_early at w"
| "of_another w (Do_Renew c i lease) \<longleftrightarrow> \<not> holds_lease (js_trim (li_owner i)) (js_trim (li_token i)) w"
| "of_another w (Do_Release c i) \<longleftrightarrow> \<not> holds_lease (js_trim (li_owner i)) (js_trim (li_token i)) w"
| "of_another w (Do_Complete c i) \<longleftrightarrow> \<not> holds_lease (js_trim (mi_owner i)) (js_trim (mi_token i)) w"
| "of_another w (Do_Cancel c i tenant owner token) \<longleftrightarrow> \<not> (absent owner \<and> absent token) \<and>
     \<not> (equals_trimmed (w_lease_owner w) owner \<and> equals_trimmed (w_lease_token w) token)"
| "of_another w _ \<longleftrightarrow> False"

lemma normalize_lease_Inr:
  "normalize_lease i = Inr n \<Longrightarrow> li_owner n = js_trim (li_owner i) \<and> li_token n = js_trim (li_token i)"
  by (auto simp: normalize_lease_def ebind_eq_Inr dest!: required_Inr)

lemma other_row_kept:
  assumes "works t = update_where p f (works s)" and "\<And>q. w_id (f q) = w_id q"
    and "work_of s i = Some w" and "\<not> p w"
  shows "work_of t i = Some w"
  using work_of_update [of t p f s i] assms by simp

lemma renew_keeps:
  assumes "renew_tx c n lease s = Inr (v, t)" and "work_of s i = Some w" and "\<not> holds_lease (li_owner n) (li_token n) w"
  shows "work_of t i = Some w"
proof -
  from assms(1) have "works t = update_where
      (\<lambda>w. w_id w = li_work n \<and> w_tenant w = li_tenant n \<and> w_state w = Processing
        \<and> holds_lease (li_owner n) (li_token n) w \<and> lease_live (c 0) w)
      (\<lambda>w. w\<lparr>w_lease_until := Some (c 0 + lease), w_updated := c 0\<rparr>) (works s)"
    by (auto simp: renew_tx_def Let_def ebind_eq_Inr)
  from other_row_kept [OF this _ assms(2)] assms(3) show ?thesis by simp
qed

lemma release_keeps:
  assumes "release_tx c n s = Inr (v, t)" and "work_of s i = Some w" and "w_state w = Processing"
    and "\<not> holds_lease (li_owner n) (li_token n) w"
  shows "work_of t i = Some w"
proof -
  let ?hit = "\<lambda>q. w_id q = li_work n \<and> w_tenant q = li_tenant n \<and> w_state q = Processing
      \<and> holds_lease (li_owner n) (li_token n) q"
  have kept: "work_of (s\<lparr>works := update_where ?hit (freed_row st (c 0)) (works s)\<rparr>) i = Some w" for st
    by (rule other_row_kept [OF _ _ assms(2), of _ ?hit "freed_row st (c 0)"])
      (use assms(4) in \<open>simp_all add: freed_row_def\<close>)
  from assms(1) consider "t = s"
    | "t = s\<lparr>works := update_where ?hit (freed_row Cancelled (c 0)) (works s)\<rparr>"
    | q where "evaluate_work (li_work n) (c 0) (s\<lparr>works := update_where ?hit (freed_row Captured (c 0)) (works s)\<rparr>) = Inr (q, t)"
    by (auto simp: release_tx_def Let_def ebind_eq_Inr split: if_splits)
  then show ?thesis
  proof cases
    case 3
    from evaluate_keeps [OF this kept] assms(3) show ?thesis by (simp add: settled_state_def)
  qed (use assms(2) kept in simp_all)
qed

lemma cancel_keeps:
  assumes "cancel_tx c j T owner token s = Inr (v, t)" and "work_of s i = Some w" and "w_state w = Processing"
    and "\<not> (absent owner \<and> absent token)"
    and "\<not> (equals_trimmed (w_lease_owner w) owner \<and> equals_trimmed (w_lease_token w) token)"
  shows "work_of t i = Some w"
proof -
  obtain q where q: "work_of s j = Some q" and qT: "w_tenant q = T"
    using assms(1) by (auto simp: cancel_tx_def work_for_tenant_def ebind_eq_Inr split: option.splits if_splits)
  show ?thesis
  proof (cases "t = s")
    case False
    with assms(1,4) q qT have t: "works t = update_where
        (\<lambda>w. w_id w = j \<and> w_tenant w = T \<and> w_state w \<in> {Captured, Ready, Paused, Processing}) (cancelled_row (c 2)) (works s)"
      and g: "\<not> (w_state q = Processing \<and>
        (\<not> equals_trimmed (w_lease_owner q) owner \<or> \<not> equals_trimmed (w_lease_token q) token))"
      by (auto simp: cancel_tx_def work_for_tenant_def Let_def ebind_eq_Inr guard_err_Inr split: if_splits)
    have "i \<noteq> j" using g q assms(2,3,5) by auto
    then have "w_id w \<noteq> j" using work_of_Some [OF assms(2)] by simp
    then show ?thesis by (intro other_row_kept [OF t _ assms(2)]) (simp_all add: cancelled_row_def freed_row_def)
  qed (use assms(2) in simp)
qed

lemma attempt_keeps:
  assumes "attempt_usage sha n h now owned s = Inr (a, t)" and "work_of s i = Some w" and "w_state w = Processing"
  shows "work_of t i = Some w"
proof -
  from assms(1) obtain k s1 where s1: "reconcile_periods_tx sha now s = Inr (k, s1)" "works t = works s1"
    by (cases rule: attempt_usage_cases) (auto dest: insert_entry_tables(2))
  from reconcile_keeps_processing [OF s1(1) assms(2,3)] s1(2) show ?thesis by (simp add: work_of_def)
qed

lemma complete_keeps:
  assumes "complete_tx sha c m j T s = Inr (v, t)" and "work_of s i = Some w" and "w_state w = Processing"
    and "\<not> holds_lease (js_trim (mi_owner m)) (js_trim (mi_token m)) w"
  shows "work_of t i = Some w"
proof -
  let ?o = "js_trim (mi_owner m)" and ?k = "js_trim (mi_token m)"
  from assms(1) obtain q n where q: "work_of s j = Some q"
    and r: "(if w_state q = Done then replay_done sha q n ?o ?k (c 0) s else settle_claim sha q n ?o ?k (c 0) s) = Inr (v, t)"
    by (auto simp: complete_tx_def ebind_eq_Inr guard_err_Inr work_for_tenant_Inr dest!: required_Inr timestamp_Inr)
  show ?thesis
  proof (cases "w_state q = Done")
    case True
    with r obtain a t1 where att: "attempt_usage sha n (usage_hash sha n) (c 0) 0 s = Inr (a, t1)"
      by (auto simp: replay_done_def ebind_eq_Inr)
    moreover have "t = t1"
      using True r by (cases a) (auto simp: replay_done_def att ebind_eq_Inr split: if_split_asm)
    ultimately have "attempt_usage sha n (usage_hash sha n) (c 0) 0 s = Inr (a, t)" by simp
    from attempt_keeps [OF this assms(2,3)] show ?thesis .
  next
    case False
    with r obtain a t1 where att: "attempt_usage sha n (usage_hash sha n) (c 0) (w_reserved q) s = Inr (a, t1)"
      by (auto simp: settle_claim_def ebind_eq_Inr)
    have t: "t = t1 \<or> (\<exists>f. (\<forall>q. w_id (f q) = w_id q) \<and> works t = update_where
        (\<lambda>w. w_id w = w_id q \<and> w_state w = Processing \<and> holds_lease ?o ?k w \<and> lease_live (c 0) w) f (works t1))"
    proof (cases a)
      case (Inl e)
      with False r show ?thesis by (simp add: settle_claim_def att ebind_eq_Inr)
    next
      case (Inr u)
      have "works t = update_where
        (\<lambda>w. w_id w = w_id q \<and> w_state w = Processing \<and> holds_lease ?o ?k w \<and> lease_live (c 0) w)
        (done_row ?o ?k (ae_sequence (lm_entry u)) (un_event n) (c 0)) (works t1)"
        using False r by (auto simp: settle_claim_def att Inr ebind_eq_Inr Let_def split: if_split_asm)
      then show ?thesis by (intro disjI2 exI conjI) (simp_all add: done_row_def freed_row_def)
    qed
    from attempt_keeps [OF att assms(2,3)] have "work_of t1 i = Some w" .
    with t assms(4) show ?thesis by (auto intro: other_row_kept)
  qed
qed

text \<open>C4. A lease is exclusive while it lives: claims of any worker and tenant before the lease runs out, and renewals, releases,
  completions and cancellations with other credentials than those of the lease, in any number and order, leave the
  processing row as it is.\<close>

theorem live_lease_is_exclusive:
  assumes "work_of s i = Some w" and "w_state w = Processing" and "list_all (of_another w) ops"
  shows "work_of (fold (ledger_step sha) ops s) i = Some w"
proof -
  have step: "work_of (ledger_step sha x s) i = Some w" if s: "work_of s i = Some w" and x: "of_another w x" for x s
  proof (cases x)
    case (Do_Claim_Next uid tenant worker lease at)
    with s x assms(2) show ?thesis
      by (auto simp: claims_early_def claim_next_paid_work_def snd_after snd_transaction ebind_eq_Inr
          split: sum.splits js_number.splits dest!: timestamp_Inr intro: claim_next_tx_keeps)
  next
    case (Do_Claim uid j tenant worker lease at)
    with s x assms(2) show ?thesis
      by (auto simp: claims_early_def claim_paid_work_def snd_after snd_transaction ebind_eq_Inr
          split: sum.splits js_number.splits dest!: timestamp_Inr intro: claim_tx_keeps)
  next
    case (Do_Renew c l lease)
    with s x show ?thesis
      by (auto simp: renew_paid_work_lease_def snd_after snd_transaction ebind_eq_Inr split: sum.splits
          dest!: normalize_lease_Inr intro: renew_keeps)
  next
    case (Do_Release c l)
    with s x assms(2) show ?thesis
      by (auto simp: release_paid_work_for_retry_def snd_after snd_transaction split: sum.splits
          dest!: normalize_lease_Inr intro: release_keeps)
  next
    case (Do_Cancel c j tenant owner token)
    with s x assms(2) show ?thesis
      by (auto simp: cancel_paid_work_def snd_after snd_transaction split: sum.splits intro: cancel_keeps)
  next
    case (Do_Complete c m)
    with s x assms(2) show ?thesis
      by (auto simp: complete_paid_work_def snd_after snd_transaction split: sum.splits intro: complete_keeps)
  qed (use x in simp_all)
  from assms(1,3) show ?thesis by (induction ops arbitrary: s) (simp_all add: step)
qed

section \<open>Claims in order\<close>

lemma count_one:
  assumes "distinct (map w_id ws)" and "w \<in> set ws" and "hit w" and "\<And>q. hit q \<Longrightarrow> w_id q = w_id w"
  shows "count_where hit ws = 1"
proof -
  have "filter hit ws = filter (\<lambda>q. w_id q = w_id w) ws"
    by (rule filter_cong [OF refl])
      (metis assms distinct_map inj_onD)
  moreover from assms(1,2) have "length (filter (\<lambda>q. w_id q = w_id w) ws) = 1"
  proof (induction ws)
    case (Cons q ws)
    show ?case
    proof (cases "q = w")
      case True
      with Cons.prems have "filter (\<lambda>q. w_id q = w_id w) ws = []"
        by (auto simp: filter_empty_conv) (metis image_eqI)
      with True show ?thesis by simp
    next
      case False
      with Cons show ?thesis by (auto simp: image_iff)
    qed
  qed simp
  ultimately show ?thesis by (simp add: count_where_def)
qed

lemma claim_where_one:
  assumes "works_ok s" and w: "work_of s i = Some w" "hit w" and "\<And>q. hit q \<Longrightarrow> w_id q = i"
    and "claim_where hit i worker token until now s = Inr (v, t)"
  shows "v = Some (paid_work_of (claimed_row worker token until now w))"
    and "work_of t i = Some (claimed_row worker token until now w)"
    and "works t = update_where (\<lambda>q. w_id q = i) (claimed_row worker token until now) (works s)"
proof -
  let ?f = "claimed_row worker token until now"
  have id: "w_id w = i" "w \<in> set (works s)" using work_of_Some [OF w(1)] by auto
  have t: "works t = update_where hit ?f (works s)" and v: "v = (if count_where hit (works s) = 1
      then map_option paid_work_of (work_of t i) else None)"
    using assms(5) by (auto simp: claim_where_def Let_def)
  show wt: "work_of t i = Some (?f w)"
    using work_of_update [OF t, of i] w by (simp add: claimed_row_def)
  have "count_where hit (works s) = 1"
    by (rule count_one [where w = w]) (use assms id in \<open>auto simp: works_ok_def\<close>)
  with v wt show "v = Some (paid_work_of (?f w))" by simp
  show "works t = update_where (\<lambda>q. w_id q = i) ?f (works s)"
    unfolding t by (rule update_where_unique [of s i w hit]) (use assms in auto)
qed

lemma next_ready_Some:
  assumes "next_ready s T = Some w"
  shows "w \<in> set (works s)" and "w_tenant w = T" and "w_state w = Ready"
    and "\<And>r. r \<in> set (works s) \<Longrightarrow> w_tenant r = T \<Longrightarrow> w_state r = Ready \<Longrightarrow> queue_order w \<le> queue_order r"
proof -
  let ?f = "filter (\<lambda>w. w_tenant w = T \<and> w_state w = Ready) (works s)"
  have first: "first_row (order_by queue_order ?f) = Some w" using assms by (simp add: next_ready_def)
  from first_row_Some [OF first] show "w \<in> set (works s)" "w_tenant w = T" "w_state w = Ready" by auto
  show "queue_order w \<le> queue_order r" if "r \<in> set (works s)" "w_tenant r = T" "w_state r = Ready" for r
    using first_row_order_by [OF first, of r] that by auto
qed

lemma next_ready_None:
  assumes "next_ready s T = None" and "r \<in> set (works s)" and "w_tenant r = T"
  shows "w_state r \<noteq> Ready"
proof -
  have "set (order_by queue_order (filter (\<lambda>w. w_tenant w = T \<and> w_state w = Ready) (works s))) = {}"
    using assms(1) by (simp add: next_ready_def del: set_order_by)
  with assms(2,3) show ?thesis by auto
qed

text \<open>
  Claiming is work-conserving and in order: the next claim gives the worker a fresh lease on
  the earliest captured ready row of the tenant, with its reservation in place, and comes back empty
  only if the tenant has no ready row.\<close>

theorem claim_next_in_order:
  assumes "ledger_inv s" and "claim_next_paid_work sha uid tenant worker lease at s = (Inr v, t)"
  defines "T \<equiv> js_trim tenant"
  shows "case v of
      None \<Rightarrow> \<forall>r \<in> set (works t). w_tenant r = T \<longrightarrow> w_state r \<noteq> Ready
    | Some p \<Rightarrow> \<exists>w n l. p = paid_work_of w \<and> work_of t (w_id w) = Some w \<and> w_tenant w = T \<and>
        w_state w = Processing \<and> holds_lease (js_trim worker) uid w \<and>
        at = Jint n \<and> lease = Jint l \<and> 0 < l \<and> w_lease_until w = Some (n + l) \<and>
        w_reserved w = w_estimated w \<and>
        (\<forall>r \<in> set (works t). w_tenant r = T \<and> w_state r = Ready \<longrightarrow> queue_order w \<le> queue_order r)"
proof -
  from assms(2) obtain n l where nl: "at = Jint n" "lease = Jint l" "0 < l"
    and tx: "claim_next_tx sha uid T (js_trim worker) l n s = Inr (v, t)"
    by (auto simp: claim_next_paid_work_def after_def transaction_def ebind_eq_Inr T_def
        split: sum.splits dest!: timestamp_Inr units_Inr required_Inr)
  from tx obtain k1 s1 k2 s2 where s1: "reconcile_work_tx n (Some T) s = Inr (k1, s1)"
    and s2: "reconcile_periods_tx sha n s1 = Inr (k2, s2)"
    by (auto simp: claim_next_tx_def ebind_eq_Inr)
  note r = tx [unfolded claim_next_tx_def s1 s2 ebind_Inr prod.case]
  have "ledger_run True s s2"
    using s1 s2 by (blast intro: run_then reconcile_work_follows reconcile_periods_follows)
  then have ok: "works_ok s2"
    using ledger_safety.run_keeps [OF _ assms(1)] by (auto simp: ledger_inv_def)
  show ?thesis
  proof (cases "next_ready s2 T")
    case None
    with r have "v = None" "t = s2" by auto
    with next_ready_None [OF None] show ?thesis by simp
  next
    case (Some c)
    note c = next_ready_Some [OF Some]
    let ?c = "claimed_row (js_trim worker) uid (n + l) n c"
    from r Some have "claim_where (\<lambda>w. w_id w = w_id c \<and> w_state w = Ready) (w_id c)
        (js_trim worker) uid (n + l) n s2 = Inr (v, t)" by simp
    note one = claim_where_one [OF ok works_ok_unique [OF ok c(1)] _ _ this]
    have v: "v = Some (paid_work_of ?c)" and t: "work_of t (w_id c) = Some ?c"
      and ws: "works t = update_where (\<lambda>q. w_id q = w_id c) (claimed_row (js_trim worker) uid (n + l) n) (works s2)"
      using one c(3) by auto
    have "queue_order ?c \<le> queue_order q" if q: "q \<in> set (works t)" "w_tenant q = T" "w_state q = Ready" for q
    proof -
      from q(1) obtain q0 where "q0 \<in> set (works s2)"
        "q = (if w_id q0 = w_id c then claimed_row (js_trim worker) uid (n + l) n q0 else q0)"
        unfolding ws by (auto simp: in_update_where)
      with q(2,3) c(4) [of q0] show ?thesis
        by (auto simp: claimed_row_def queue_order_def split: if_splits)
    qed
    moreover have "w_reserved c = w_estimated c" using works_ok_row [OF ok c(1)] c(3) by (simp add: row_ok_def)
    ultimately show ?thesis
      using v t nl c(2) by (auto simp: claimed_row_def holds_lease_def intro!: exI [of _ ?c])
  qed
qed

section \<open>Completion\<close>

lemma complete_Inr:
  assumes "complete_paid_work sha c i s = (Inr m, t)"
  shows "complete_tx sha c i (js_trim (mi_work i)) (js_trim (mi_tenant i)) s = Inr (Inr m, t)"
  using assms
  by (auto simp: complete_paid_work_def after_def transaction_def throw_attempt_def ebind_eq_Inr
      split: sum.splits prod.splits dest!: required_Inr)

lemma replay_done_Inr:
  assumes "replay_done sha w n owner token now s = Inr (Inr m, t)"
  shows "w_done_owner w = Some owner" and "w_done_token w = Some token"
    and "attempt_usage sha n (usage_hash sha n) now 0 s = Inr (Inr (co_usage m), t)"
    and "w_usage_seq w = Some (ae_sequence (lm_entry (co_usage m)))" and "co_work m = paid_work_of w"
proof -
  from assms obtain a t1 where att: "attempt_usage sha n (usage_hash sha n) now 0 s = Inr (a, t1)"
    and w: "w_done_owner w = Some owner" "w_done_token w = Some token"
    and r: "(case a of Inl e \<Rightarrow> Inr (Inl e, t1)
      | Inr usage \<Rightarrow>
         if w_usage_seq w \<noteq> Some (ae_sequence (lm_entry usage)) then Inl different_usage
         else Inr (Inr \<lparr>co_work = paid_work_of w, co_usage = usage\<rparr>, t1)) = Inr (Inr m, t)"
    by (auto simp: replay_done_def ebind_eq_Inr guard_err_Inr)
  from r obtain u where "a = Inr u" by (cases a) auto
  with r att w show "w_done_owner w = Some owner" "w_done_token w = Some token"
    "attempt_usage sha n (usage_hash sha n) now 0 s = Inr (Inr (co_usage m), t)"
    "w_usage_seq w = Some (ae_sequence (lm_entry (co_usage m)))" "co_work m = paid_work_of w"
    by (auto split: if_splits)
qed

lemma settle_claim_Inr:
  assumes "settle_claim sha w n owner token now s = Inr (Inr m, t)" and row: "work_of s i = Some w"
  obtains t1 where "w_state w = Processing" and "holds_lease owner token w" and "lease_live now w"
    and "attempt_usage sha n (usage_hash sha n) now (w_reserved w) s = Inr (Inr (co_usage m), t1)"
    and "entries t = entries t1"
    and "work_of t i = Some (done_row owner token (ae_sequence (lm_entry (co_usage m))) (un_event n) now w)"
    and "co_work m = paid_work_of (done_row owner token (ae_sequence (lm_entry (co_usage m))) (un_event n) now w)"
proof -
  from assms(1) obtain a1 t1 where w: "w_state w = Processing" "holds_lease owner token w" "lease_live now w"
    and att: "attempt_usage sha n (usage_hash sha n) now (w_reserved w) s = Inr (a1, t1)"
    by (auto simp: settle_claim_def ebind_eq_Inr guard_err_Inr)
  have id: "w_id w = i" using work_of_Some [OF row] ..
  note r = assms(1) [unfolded settle_claim_def att ebind_Inr prod.case]
  from r obtain u where a1: "a1 = Inr u" by (cases a1) (auto simp: err_simps)
  let ?seq = "ae_sequence (lm_entry u)"
  let ?g = "done_row owner token ?seq (un_event n) now"
  let ?hit = "\<lambda>q. w_id q = w_id w \<and> w_state q = Processing \<and> holds_lease owner token q \<and> lease_live now q"
  from r a1 obtain completed where t: "t = t1\<lparr>works := update_where ?hit ?g (works t1)\<rparr>"
    and m: "m = \<lparr>co_work = paid_work_of completed, co_usage = u\<rparr>" and c: "work_of t i = Some completed"
    by (auto simp: Let_def err_simps the_work_def id split: if_splits option.splits)
  have "\<exists>k s1. reconcile_periods_tx sha now s = Inr (k, s1) \<and> works t1 = works s1"
    using att [unfolded a1] by (auto elim!: attempt_usage_cases dest: insert_entry_tables(2))
  then obtain k s1 where s1: "reconcile_periods_tx sha now s = Inr (k, s1)" "works t1 = works s1" by auto
  have "work_of t1 i = Some w"
    using reconcile_keeps_processing [OF s1(1) row w(1)] s1(2) by (simp add: work_of_def)
  moreover have "works t = update_where ?hit ?g (works t1)" by (simp add: t)
  ultimately have "work_of t i = Some (?g w)"
    using work_of_update [of t ?hit ?g t1 i] w id by (simp add: done_row_def freed_row_def)
  with c m that [of t1] w att a1 t show thesis by auto
qed

text \<open>
  Only the claim can complete: a completion succeeds only for a row of the caller's tenant and
  provider event, and only with the exact owner and token of its live lease or, once done, of the claim
  that completed it; afterwards the row is done, holds nothing, and carries the number of the usage
  entry that was returned.\<close>

theorem completion_needs_exact_claim:
  assumes "complete_paid_work sha c i s = (Inr m, t)"
  shows "\<exists>w v. work_of s (js_trim (mi_work i)) = Some w \<and> w_tenant w = js_trim (mi_tenant i) \<and>
    w_event w = js_trim (mi_event i) \<and>
    (w_state w = Done \<and> v = w \<or>
     w_state w = Processing \<and> holds_lease (js_trim (mi_owner i)) (js_trim (mi_token i)) w \<and>
       lease_live (c 0) w \<and> work_of t (js_trim (mi_work i)) = Some v \<and> w_reserved v = 0) \<and>
    w_state v = Done \<and> w_done_owner v = Some (js_trim (mi_owner i)) \<and>
    w_done_token v = Some (js_trim (mi_token i)) \<and> co_work m = paid_work_of v \<and>
    w_usage_seq v = Some (ae_sequence (lm_entry (co_usage m)))"
proof -
  let ?i = "js_trim (mi_work i)" and ?o = "js_trim (mi_owner i)" and ?k = "js_trim (mi_token i)"
  from complete_Inr [OF assms] obtain w n where
    w: "work_of s ?i = Some w" "w_tenant w = js_trim (mi_tenant i)" "w_event w = js_trim (mi_event i)"
    and r: "(if w_state w = Done then replay_done sha w n ?o ?k (c 0) s
             else settle_claim sha w n ?o ?k (c 0) s) = Inr (Inr m, t)"
    by (auto simp: complete_tx_def ebind_eq_Inr guard_err_Inr work_for_tenant_Inr
        dest!: required_Inr timestamp_Inr)
  show ?thesis
  proof (cases "w_state w = Done")
    case True
    with r have "replay_done sha w n ?o ?k (c 0) s = Inr (Inr m, t)" by simp
    note facts = replay_done_Inr [OF this]
    show ?thesis by (rule exI [of _ w], rule exI [of _ w]) (use w True facts in simp)
  next
    case False
    let ?v = "done_row ?o ?k (ae_sequence (lm_entry (co_usage m))) (un_event n) (c 0) w"
    from False r have "settle_claim sha w n ?o ?k (c 0) s = Inr (Inr m, t)" by simp
    then obtain "w_state w = Processing" "holds_lease ?o ?k w" "lease_live (c 0) w"
      "work_of t ?i = Some ?v" "co_work m = paid_work_of ?v"
      using w(1) by (rule settle_claim_Inr)
    with w show ?thesis
      by (intro exI [of _ w] exI [of _ ?v]) (simp add: done_row_def freed_row_def)
  qed
qed

section \<open>Replayed completions\<close>

lemma attempt_finds:
  assumes "entry_by_idempotency s (un_tenant n) (un_key n) = Some e" and "e_hash e = h"
  shows "\<exists>t. attempt_usage sha n h now owned s = Inr (Inr \<lparr>lm_entry = entry_of e, lm_replayed = True\<rparr>, t)"
proof -
  obtain k s1 where rec: "reconcile_periods_tx sha now s = Inr (k, s1)" using reconcile_total by blast
  from reconcile_entries [OF rec] obtain es where "entries s1 = entries s @ es" by auto
  from idempotency_prefix [OF assms(1) this] assms(2) show ?thesis
    by (simp add: attempt_usage_def rec replay_or_conflict_def)
qed

lemma attempt_posts:
  assumes "attempt_usage sha n h now owned s = Inr (Inr m, t)" and "\<not> lm_replayed m"
  shows "\<exists>e. entry_by_idempotency t (un_tenant n) (un_key n) = Some e \<and> e_hash e = h \<and> lm_entry m = entry_of e"
  using assms(1)
proof (cases rule: attempt_usage_cases)
  case (posted row k s1)
  from idempotency_inserted [OF posted(2)] insert_entry_tables(4) [OF posted(2)] posted(3)
  show ?thesis by (simp add: usage_draft_def)
qed (use assms(2) in auto)

lemma normalize_complete_same:
  assumes "same_work w v"
  shows "normalize_complete i T v = normalize_complete i T w"
proof -
  from assms have eqs: "w_period v = w_period w" "w_event v = w_event w"
    "w_operation v = w_operation w" "w_created v = w_created w"
    by (simp_all add: same_work_def)
  show ?thesis unfolding normalize_complete_def eqs ..
qed

lemma complete_tx_replays:
  assumes v: "work_of s (js_trim (mi_work i)) = Some v" "w_state v = Done" "w_tenant v = js_trim (mi_tenant i)"
    and "w_event v = ev" "required (mi_event i) ''providerEventId'' 512 = Inr ev"
    and "required (mi_owner i) ''leaseOwner'' 512 = Inr owner" "required (mi_token i) ''leaseToken'' 512 = Inr token"
    and "timestamp (Jint (d 0)) ''completedAt'' = Inr now"
    and n: "normalize_complete i (js_trim (mi_tenant i)) v = Inr n"
    and "w_done_owner v = Some owner" "w_done_token v = Some token" "w_receipt v \<in> {None, Some (un_event n)}"
    and e: "entry_by_idempotency s (un_tenant n) (un_key n) = Some e" "e_hash e = usage_hash sha n"
    and "w_usage_seq v = Some (e_sequence e)"
  shows "\<exists>t. complete_tx sha d i (js_trim (mi_work i)) (js_trim (mi_tenant i)) s =
    Inr (Inr \<lparr>co_work = paid_work_of v, co_usage = \<lparr>lm_entry = entry_of e, lm_replayed = True\<rparr>\<rparr>, t)"
proof -
  from attempt_finds [OF e] obtain t where
    "attempt_usage sha n (usage_hash sha n) now 0 s = Inr (Inr \<lparr>lm_entry = entry_of e, lm_replayed = True\<rparr>, t)"
    by blast
  with assms show ?thesis
    by (auto simp: complete_tx_def work_for_tenant_def guard_err_def replay_done_def entry_of_def)
qed

text \<open>
  Completion is idempotent over time: repeating a completion that charged its usage, with the
  same input, after any other operations and at any valid clock, returns the same work and the same
  usage entry, marked as replayed.\<close>

theorem completion_replay:
  assumes "ledger_inv s" and "complete_paid_work sha c i s = (Inr m, t)" and "\<not> lm_replayed (co_usage m)"
    and "0 \<le> d 0" and "d 0 \<le> max_safe_integer"
  shows "fst (complete_paid_work sha d i (fold (ledger_step sha) xs t)) =
    Inr \<lparr>co_work = co_work m, co_usage = \<lparr>lm_entry = lm_entry (co_usage m), lm_replayed = True\<rparr>\<rparr>"
proof -
  let ?i = "js_trim (mi_work i)" and ?T = "js_trim (mi_tenant i)" and ?u = "fold (ledger_step sha) xs t"
  let ?seq = "ae_sequence (lm_entry (co_usage m))"
  have tx: "complete_tx sha c i ?i ?T s = Inr (Inr m, t)" by (rule complete_Inr [OF assms(2)])
  then obtain w n ev owner token now where w: "work_of s ?i = Some w" "w_tenant w = ?T" "w_event w = ev"
    and req: "required (mi_event i) ''providerEventId'' 512 = Inr ev"
      "required (mi_owner i) ''leaseOwner'' 512 = Inr owner" "required (mi_token i) ''leaseToken'' 512 = Inr token"
    and n: "normalize_complete i ?T w = Inr n"
    and r: "(if w_state w = Done then replay_done sha w n owner token now s
             else settle_claim sha w n owner token now s) = Inr (Inr m, t)"
    by (auto simp: complete_tx_def ebind_eq_Inr guard_err_Inr work_for_tenant_Inr)
  have inv: "ledger_inv t"
    by (rule ledger_safety.run_keeps [OF complete_follows [OF tx] assms(1)])
  have "\<exists>v. work_of t ?i = Some v \<and> same_work w v \<and> w_state v = Done \<and> w_done_owner v = Some owner \<and>
      w_done_token v = Some token \<and> w_receipt v \<in> {None, Some (un_event n)} \<and> w_usage_seq v = Some ?seq \<and>
      co_work m = paid_work_of v \<and>
      (\<exists>e. entry_by_idempotency t (un_tenant n) (un_key n) = Some e \<and> e_hash e = usage_hash sha n \<and>
        lm_entry (co_usage m) = entry_of e)"
  proof (cases "w_state w = Done")
    case True
    with r have rd: "replay_done sha w n owner token now s = Inr (Inr m, t)" by simp
    note facts = replay_done_Inr [OF rd]
    have "w \<in> set (works t)"
      using history_done [OF ledger_history.run_moves_up [OF complete_follows [OF tx] assms(1)]]
        work_of_Some [OF w(1)] True by blast
    with inv work_of_Some [OF w(1)] have "work_of t ?i = Some w"
      by (metis ledger_inv_def works_ok_unique)
    moreover have "w_receipt w \<in> {None, Some (un_event n)}"
      using rd by (auto simp: replay_done_def ebind_eq_Inr guard_err_Inr)
    ultimately show ?thesis
      using True facts attempt_posts [OF facts(3) assms(3)] by auto
  next
    case False
    with r have "settle_claim sha w n owner token now s = Inr (Inr m, t)" by simp
    then obtain t1 where att: "attempt_usage sha n (usage_hash sha n) now (w_reserved w) s = Inr (Inr (co_usage m), t1)"
      and es: "entries t = entries t1"
      and v: "work_of t ?i = Some (done_row owner token ?seq (un_event n) now w)"
        "co_work m = paid_work_of (done_row owner token ?seq (un_event n) now w)"
      using w(1) by (rule settle_claim_Inr)
    from attempt_posts [OF att assms(3)] es v show ?thesis
      by (intro exI [of _ "done_row owner token ?seq (un_event n) now w"])
        (simp add: done_row_def freed_row_def same_work_def entry_by_idempotency_def)
  qed
  then obtain v e where v: "work_of t ?i = Some v" "same_work w v" "w_state v = Done" "w_done_owner v = Some owner"
      "w_done_token v = Some token" "w_receipt v \<in> {None, Some (un_event n)}" "w_usage_seq v = Some ?seq"
      "co_work m = paid_work_of v"
    and e: "entry_by_idempotency t (un_tenant n) (un_key n) = Some e" "e_hash e = usage_hash sha n"
      "lm_entry (co_usage m) = entry_of e" by blast
  have hist: "history t ?u" by (rule fold_history [OF inv])
  have "v \<in> set (works ?u)" using history_done [OF hist] work_of_Some [OF v(1)] v(3) by blast
  with fold_inv [OF inv] work_of_Some [OF v(1)] have vu: "work_of ?u ?i = Some v"
    by (metis ledger_inv_def works_ok_unique)
  have seq: "w_usage_seq v = Some (e_sequence e)" using v(7) e(3) by (simp add: entry_of_def)
  have vw: "w_tenant v = ?T" "w_event v = ev" using v(2) w by (simp_all add: same_work_def)
  have now: "timestamp (Jint (d 0)) ''completedAt'' = Inr (d 0)"
    using assms(4,5) by (simp add: timestamp_def)
  have nv: "normalize_complete i ?T v = Inr n" using n by (simp add: normalize_complete_same [OF v(2)])
  from complete_tx_replays [where d = d, OF vu v(3) vw req now nv v(4-6) history_idempotency [OF hist e(1)] e(2) seq]
  obtain t' where rep: "complete_tx sha d i ?i ?T ?u =
      Inr (Inr \<lparr>co_work = paid_work_of v, co_usage = \<lparr>lm_entry = entry_of e, lm_replayed = True\<rparr>\<rparr>, t')"
    by blast
  have in1: "ebind (required (mi_work i) ''workId'' 512) (\<lambda>work_id.
      ebind (required (mi_tenant i) ''tenantId'' 512) (\<lambda>tenant. Inr (work_id, tenant))) = Inr (?i, ?T)"
    using assms(2)
    by (auto simp: complete_paid_work_def after_def ebind_eq_Inr required_iff split: sum.splits)
  show ?thesis
    by (simp add: complete_paid_work_def in1 after_def rep transaction_def throw_attempt_def e(3) v(8))
qed

section \<open>Durable receipts\<close>

lemma receipt_tx_Inr:
  assumes "receipt_tx sha i work_id T event receipt now s = Inr (Inr m, t)"
  obtains w v where "work_of s work_id = Some w" and "w_tenant w = T" and "w_event w = event"
    and "w_receipt w = None \<or> w_receipt w = Some receipt" and "co_work m = paid_work_of v" and "w_state v = Done"
    and "w_usage_seq v = Some (ae_sequence (lm_entry (co_usage m)))"
    and "if w_state w = Done then v = w else work_of t work_id = Some v \<and> w_receipt v = Some receipt"
proof -
  from assms obtain w n a1 t1 where row: "work_of s work_id = Some w" "w_tenant w = T" "w_event w = event"
      "w_receipt w = None \<or> w_receipt w = Some receipt"
    and r: "settle_receipt w T receipt now a1 t1 = Inr (Inr m, t)"
    by (auto simp: receipt_tx_def ebind_eq_Inr guard_err_Inr work_for_tenant_Inr)
  have id: "w_id w = work_id" using work_of_Some [OF row(1)] ..
  from r obtain u where a1: "a1 = Inr u" by (cases a1) (auto simp: settle_receipt_def)
  show thesis
  proof (cases "w_state w = Done")
    case True
    with r a1 have "m = \<lparr>co_work = paid_work_of w, co_usage = u\<rparr>" "w_usage_seq w = Some (ae_sequence (lm_entry u))"
      by (auto simp: settle_receipt_def Let_def split: if_splits)
    with that [OF row, of w] True show thesis by simp
  next
    case False
    with r a1 obtain v where "work_of t work_id = Some v" "w_state v = Done" "w_receipt v = Some receipt"
      "w_usage_seq v = Some (ae_sequence (lm_entry u))" "m = \<lparr>co_work = paid_work_of v, co_usage = u\<rparr>"
      by (auto simp: settle_receipt_def Let_def err_simps the_work_def id split: if_splits option.splits)
    with that [OF row, of v] False show thesis by simp
  qed
qed

text \<open>
  A durable receipt settles only its own work: it succeeds only for a row of the tenant with
  the admitted provider event that carries no other receipt, whatever became of its lease, and then
  the row is done with exactly that receipt and points at the usage entry that was returned.\<close>

theorem durable_receipt_settles:
  assumes "complete_from_receipt sha c i s = (Inr m, t)"
  shows "\<exists>w v. work_of s (js_trim (ri_work i)) = Some w \<and> w_tenant w = js_trim (ri_tenant i) \<and>
    w_event w = js_trim (ri_admission_event i) \<and> (w_receipt w = None \<or> w_receipt w = Some (js_trim (ri_receipt i))) \<and>
    co_work m = paid_work_of v \<and> w_state v = Done \<and>
    w_usage_seq v = Some (ae_sequence (lm_entry (co_usage m))) \<and>
    (if w_state w = Done then v = w
     else work_of t (js_trim (ri_work i)) = Some v \<and> w_receipt v = Some (js_trim (ri_receipt i)))"
proof -
  from assms obtain now where "receipt_tx sha i (js_trim (ri_work i)) (js_trim (ri_tenant i))
      (js_trim (ri_admission_event i)) (js_trim (ri_receipt i)) now s = Inr (Inr m, t)"
    by (auto simp: complete_from_receipt_def after_def transaction_def throw_attempt_def ebind_eq_Inr
        split: sum.splits prod.splits dest!: required_Inr)
  then show ?thesis by (rule receipt_tx_Inr) blast
qed

section \<open>Cancellation\<close>

lemma cancel_processing:
  assumes w: "work_of s i = Some w" "w_tenant w = T" "w_state w = Processing"
  shows "\<exists>t. cancel_tx c i T None None s = Inr (paid_work_of (w\<lparr>w_cancel_at := Some (c 0), w_updated := c 1\<rparr>), t) \<and>
    work_of t i = Some (w\<lparr>w_cancel_at := Some (c 0), w_updated := c 1\<rparr>)"
proof -
  let ?f = "\<lambda>w. w\<lparr>w_cancel_at := Some (c 0), w_updated := c 1\<rparr>"
  let ?hit = "\<lambda>w. w_id w = i \<and> w_tenant w = T \<and> w_state w = Processing"
  let ?t = "s\<lparr>works := update_where ?hit ?f (works s)\<rparr>"
  have "work_of ?t i = Some (?f w)"
    using work_of_update [of ?t ?hit ?f s i] w work_of_Some [OF w(1)] by simp
  with w show ?thesis
    by (simp add: cancel_tx_def work_for_tenant_def absent_def the_work_def)
qed

lemma release_flagged:
  assumes w: "work_of s (li_work n) = Some w" "w_tenant w = li_tenant n" "w_state w = Processing"
    and "holds_lease (li_owner n) (li_token n) w" and "w_cancel_at w \<noteq> None"
  shows "\<exists>t. release_tx c n s = Inr (paid_work_of (freed_row Cancelled (c 0) w), t) \<and>
    work_of t (li_work n) = Some (freed_row Cancelled (c 0) w)"
proof -
  let ?hit = "\<lambda>w. w_id w = li_work n \<and> w_tenant w = li_tenant n \<and> w_state w = Processing
                      \<and> holds_lease (li_owner n) (li_token n) w"
  let ?f = "freed_row Cancelled (c 0)"
  let ?t = "s\<lparr>works := update_where ?hit ?f (works s)\<rparr>"
  have "work_of ?t (li_work n) = Some (?f w)"
    using work_of_update [of ?t ?hit ?f s "li_work n"] assms work_of_Some [OF w(1)]
    by (simp add: freed_row_def)
  with assms show ?thesis
    by (simp add: release_tx_def work_for_tenant_def the_work_def guard_err_def)
qed

text \<open>
  Cancelling work that a provider call is running under does not take the lease away: without
  the claim's credentials the row is only flagged, and when the holder of the lease then gives up the
  attempt, the row is cancelled and its reservation freed instead of being queued again.\<close>

theorem cancelled_while_leased:
  assumes "work_of s i = Some w" and "w_tenant w = T" and "w_state w = Processing"
    and "holds_lease owner token w"
    and "required i ''workId'' 512 = Inr i" and "required T ''tenantId'' 512 = Inr T"
    and "required owner ''leaseOwner'' 512 = Inr owner" and "required token ''leaseToken'' 512 = Inr token"
  shows "\<exists>v t u. cancel_paid_work c i T None None s = (Inr (paid_work_of v), t) \<and> work_of t i = Some v \<and>
    w_state v = Processing \<and> holds_lease owner token v \<and> w_lease_until v = w_lease_until w \<and>
    release_paid_work_for_retry d
      \<lparr>li_work = i, li_tenant = T, li_owner = owner, li_token = token\<rparr> t =
      (Inr (paid_work_of (freed_row Cancelled (d 0) v)), u) \<and>
    work_of u i = Some (freed_row Cancelled (d 0) v) \<and> w_reserved (freed_row Cancelled (d 0) v) = 0"
proof -
  let ?n = "\<lparr>li_work = i, li_tenant = T, li_owner = owner, li_token = token\<rparr>"
  let ?v = "w\<lparr>w_cancel_at := Some (c 0), w_updated := c 1\<rparr>"
  from cancel_processing [OF assms(1-3), of c] obtain t where
    t: "cancel_tx c i T None None s = Inr (paid_work_of ?v, t)" "work_of t i = Some ?v" by blast
  have "\<exists>u. release_tx d ?n t = Inr (paid_work_of (freed_row Cancelled (d 0) ?v), u) \<and>
      work_of u (li_work ?n) = Some (freed_row Cancelled (d 0) ?v)"
    by (rule release_flagged) (use t assms(2-4) in \<open>simp_all add: holds_lease_def\<close>)
  then obtain u where u: "release_tx d ?n t = Inr (paid_work_of (freed_row Cancelled (d 0) ?v), u)"
    "work_of u i = Some (freed_row Cancelled (d 0) ?v)" by auto
  have norm: "normalize_lease ?n = Inr ?n" by (simp add: normalize_lease_def assms(5-8))
  have "cancel_paid_work c i T None None s = (Inr (paid_work_of ?v), t)"
    by (simp add: cancel_paid_work_def assms(5,6) after_def transaction_def t(1))
  moreover have "release_paid_work_for_retry d ?n t = (Inr (paid_work_of (freed_row Cancelled (d 0) ?v)), u)"
    by (simp add: release_paid_work_for_retry_def norm after_def transaction_def u(1))
  ultimately show ?thesis
    using t(2) u(2) assms(3,4) by (intro exI [of _ ?v]) (auto simp: holds_lease_def freed_row_def)
qed

end
