(* ===== verification/Ledger_Examples.thy ===== *)
theory Ledger_Examples
  imports Ledger_Leases
begin

text \<open>
  A small ledger, run step by step: a grant of 100 units for the period from 0 to 1000, work of 30
  units admitted, claimed, completed for 25. Each property of the ledger that has hypotheses is
  applied to it.
\<close>

definition demo_sha :: "string \<Rightarrow> string" where
  "demo_sha s = ''h''"

definition demo_clock :: "int \<Rightarrow> clock" where
  "demo_clock n i = n"

definition demo_grant :: grant_input where
  "demo_grant = \<lparr>gi_tenant = ''t'', gi_period = ''p'', gi_starts = Jint 0, gi_ends = Jint 1000,
     gi_amount = Jint 100, gi_source = ''s'', gi_key = ''g'', gi_tariff = ''v'', gi_reason = ''r'',
     gi_occurred = None\<rparr>"

definition demo_admit :: admit_input where
  "demo_admit = \<lparr>di_tenant = ''t'', di_period = ''p'', di_key = ''k'', di_event = ''e'',
     di_operation = ''o'', di_custody = ''c'', di_estimated = Jint 30, di_captured = None\<rparr>"

definition demo_complete :: complete_input where
  "demo_complete = \<lparr>mi_work = ''w'', mi_tenant = ''t'', mi_owner = ''a'', mi_token = ''u'',
     mi_amount = Jint 25, mi_event = ''e'', mi_usage_event = None, mi_provider = ''x'', mi_model = None,
     mi_basis = ''actual'', mi_key = ''c'', mi_tariff = ''v'', mi_reason = ''r'', mi_occurred = None\<rparr>"

definition demo_usage :: usage_input where
  "demo_usage = \<lparr>ui_tenant = ''t'', ui_period = ''p'', ui_amount = Jint 10, ui_event = ''z'',
     ui_operation = ''o'', ui_provider = ''x'', ui_model = None, ui_basis = ''actual'', ui_key = ''m'',
     ui_tariff = ''v'', ui_reason = ''r'', ui_occurred = None\<rparr>"

definition demo_receipt :: receipt_input where
  "demo_receipt = \<lparr>ri_work = ''w'', ri_tenant = ''t'', ri_admission_event = ''e'', ri_receipt = ''q'',
     ri_amount = Jint 40, ri_provider = ''x'', ri_model = None, ri_basis = ''actual'', ri_tariff = ''v'',
     ri_reason = ''r''\<rparr>"

section \<open>The states of the run\<close>

definition demo_entry :: entry_row where
  "demo_entry = \<lparr>e_sequence = 1, e_tenant = ''t'', e_period = Some ''p'', e_kind = Grant, e_amount = 100,
     e_source = ''s'', e_key = ''g'', e_hash = ''h'', e_tariff = ''v'', e_reason = ''r'', e_event = None,
     e_operation = None, e_provider = None, e_model = None, e_basis = None, e_occurred = 5, e_created = 5\<rparr>"

definition demo_charge :: entry_row where
  "demo_charge = \<lparr>e_sequence = 2, e_tenant = ''t'', e_period = Some ''p'', e_kind = Usage, e_amount = - 25,
     e_source = ''x'', e_key = ''c'', e_hash = ''h'', e_tariff = ''v'', e_reason = ''r'', e_event = Some ''e'',
     e_operation = Some ''o'', e_provider = Some ''x'', e_model = None, e_basis = Some ''actual'',
     e_occurred = 10, e_created = 30\<rparr>"

definition demo_ready :: work_row where
  "demo_ready = \<lparr>w_id = ''w'', w_tenant = ''t'', w_period = ''p'', w_key = ''k'', w_hash = ''h'',
     w_event = ''e'', w_operation = ''o'', w_custody = ''c'', w_estimated = 30, w_reserved = 30,
     w_state = Ready, w_pause = None, w_lease_owner = None, w_lease_token = None, w_lease_until = None,
     w_done_owner = None, w_done_token = None, w_usage_seq = None, w_receipt = None, w_cancel_at = None,
     w_created = 10, w_updated = 10\<rparr>"

definition demo_leased :: work_row where
  "demo_leased = demo_ready\<lparr>w_state := Processing, w_lease_owner := Some ''a'', w_lease_token := Some ''u'',
     w_lease_until := Some 120, w_updated := 20\<rparr>"

definition demo_done :: work_row where
  "demo_done = demo_ready\<lparr>w_reserved := 0, w_state := Done, w_done_owner := Some ''a'',
     w_done_token := Some ''u'', w_usage_seq := Some 2, w_receipt := Some ''e'', w_updated := 30\<rparr>"

definition demo_state :: "entry_row list \<Rightarrow> int \<Rightarrow> int \<Rightarrow> work_row list \<Rightarrow> ledger" where
  "demo_state es n used ws =
     \<lparr>periods = [\<lparr>p_tenant = ''t'', p_period = ''p'', p_starts = 0, p_ends = 1000, p_created = 5\<rparr>],
      entries = es, next_seq = n,
      totals = (\<lambda>_ _. None)(''t'' :=
        [''p'' \<mapsto> \<lparr>t_balance = 100 - used, t_allocated = 100, t_used = used\<rparr>]),
      works = ws\<rparr>"

definition demo_granted :: ledger where "demo_granted = demo_state [demo_entry] 2 0 []"
definition demo_admitted :: ledger where "demo_admitted = demo_state [demo_entry] 2 0 [demo_ready]"
definition demo_claimed :: ledger where "demo_claimed = demo_state [demo_entry] 2 0 [demo_leased]"
definition demo_completed :: ledger where
  "demo_completed = demo_state [demo_entry, demo_charge] 3 25 [demo_done]"

lemma demo_hash [simp]: "payload_hash demo_sha p = ''h''"
  by (simp add: payload_hash_def demo_sha_def)

lemmas demo_inputs =
  demo_grant_def demo_admit_def demo_complete_def demo_usage_def demo_receipt_def demo_clock_def
  required_def js_trim_def js_space_def timestamp_def units_def max_safe_integer_def or_clock_def
  trim_or_null_def valid_basis_def guard_err_def

lemmas demo_states =
  demo_granted_def demo_admitted_def demo_claimed_def demo_completed_def demo_state_def
  demo_entry_def demo_charge_def demo_ready_def demo_leased_def demo_done_def empty_ledger_def

lemmas demo_queries =
  after_def transaction_def throw_attempt_def ledger_queries insert_entry_def entry_clash_def Let_def
  update_where_def count_where_def first_row_def order_by_def sum_where_def bump_totals_def
  entry_totals_def add_totals_def reconcile_periods_tx_def expired_periods_def is_suspended_def
  available_in_period_def period_balance_def reserved_in_period_def

lemma demo_grant_run:
  "grant_allowance demo_sha (demo_clock 5) demo_grant empty_ledger =
     (Inr \<lparr>lm_entry = entry_of demo_entry, lm_replayed = False\<rparr>, demo_granted)"
  by (simp add: demo_inputs demo_queries demo_states grant_allowance_def normalize_grant_def grant_tx_def
      grant_hash_def ensure_period_def assert_period_open_def grant_draft_def)

lemmas demo_evaluation =
  evaluate_work_def settled_state_def evaluation_def evaluated_row_def set_work_def

lemma demo_admit_run:
  "admit_paid_work demo_sha (demo_clock 10) ''w'' demo_admit demo_granted =
     (Inr \<lparr>ad_state = Admitted_Ready, ad_work = paid_work_of demo_ready\<rparr>, demo_admitted)"
  by (simp add: demo_inputs demo_queries demo_states demo_evaluation admit_paid_work_def
      normalize_admit_def admit_tx_def admit_hash_def existing_work_def insert_work_def new_work_def)

lemma demo_claim_run:
  "claim_next_paid_work demo_sha ''u'' ''t'' ''a'' (Jint 100) (Jint 20) demo_admitted =
     (Inr (Some (paid_work_of demo_leased)), demo_claimed)"
  by (simp add: demo_inputs demo_queries demo_states claim_next_paid_work_def claim_next_tx_def
      reconcile_work_tx_def lease_expired_def next_ready_def claim_where_def claimed_row_def)

lemmas demo_attempt =
  attempt_usage_def usage_hash_def usage_draft_def outside_def work_for_tenant_def the_work_def
  freed_row_def

lemma demo_complete_run:
  "complete_paid_work demo_sha (demo_clock 30) demo_complete demo_claimed =
     (Inr \<lparr>co_work = paid_work_of demo_done,
           co_usage = \<lparr>lm_entry = entry_of demo_charge, lm_replayed = False\<rparr>\<rparr>, demo_completed)"
  by (simp add: demo_inputs demo_queries demo_states demo_attempt complete_paid_work_def complete_tx_def
      normalize_complete_def settle_claim_def holds_lease_def lease_live_def done_row_def entry_of_def)

definition demo_ops :: "ledger_op list" where
  "demo_ops =
     [Do_Grant (demo_clock 5) demo_grant, Do_Admit (demo_clock 10) ''w'' demo_admit,
      Do_Claim_Next ''u'' ''t'' ''a'' (Jint 100) (Jint 20), Do_Complete (demo_clock 30) demo_complete]"

lemma demo_reached:
  "ledger_after demo_sha [] = empty_ledger"
  "ledger_after demo_sha (take 1 demo_ops) = demo_granted"
  "ledger_after demo_sha (take 2 demo_ops) = demo_admitted"
  "ledger_after demo_sha (take 3 demo_ops) = demo_claimed"
  "ledger_after demo_sha demo_ops = demo_completed"
  by (simp_all add: ledger_after_def demo_ops_def demo_grant_run demo_admit_run demo_claim_run
      demo_complete_run)

lemma demo_inv:
  "ledger_inv demo_granted" "ledger_inv demo_admitted" "ledger_inv demo_claimed" "ledger_inv demo_completed"
  using after_inv [of demo_sha "take 1 demo_ops"] after_inv [of demo_sha "take 2 demo_ops"]
    after_inv [of demo_sha "take 3 demo_ops"] after_inv [of demo_sha demo_ops]
  by (simp_all only: demo_reached)

section \<open>The properties at these states\<close>

lemma ledger_solvent_witness:
  "list_all (\<lambda>x. \<not> is_receipt x) demo_ops \<and>
   0 \<le> reserved_in_period (ledger_after demo_sha demo_ops) ''t'' ''p'' \<and>
   reserved_in_period (ledger_after demo_sha demo_ops) ''t'' ''p'' \<le>
     period_balance (ledger_after demo_sha demo_ops) ''t'' ''p''"
proof
  show ops: "list_all (\<lambda>x. \<not> is_receipt x) demo_ops" by (simp add: demo_ops_def)
  show "0 \<le> reserved_in_period (ledger_after demo_sha demo_ops) ''t'' ''p'' \<and>
   reserved_in_period (ledger_after demo_sha demo_ops) ''t'' ''p'' \<le>
     period_balance (ledger_after demo_sha demo_ops) ''t'' ''p''"
    by (rule ledger_solvent [OF ops])
qed

lemma ledger_deficit_never_grows_witness:
  "deficit (ledger_step demo_sha (Do_Reconcile_Periods (Jint 1000)) demo_claimed) ''t'' ''p'' \<le>
   deficit demo_claimed ''t'' ''p''"
  by (rule ledger_deficit_never_grows [OF demo_inv(3)]) simp

lemma ledger_entries_well_formed_witness:
  "list_all (\<lambda>e. entry_ok e \<and> period_known demo_completed e) (entries demo_completed)"
  using ledger_entries_well_formed [of demo_sha demo_ops] unfolding demo_reached list_all_iff
  by (rule conjunct2 [OF conjunct2 [OF conjunct2]])

lemma ledger_done_is_final_witness:
  "work_of (ledger_after demo_sha (demo_ops @ [Do_Receipt (demo_clock 40) demo_receipt])) ''w'' = Some demo_done \<and>
    (\<exists>e \<in> set (entries (ledger_after demo_sha (demo_ops @ [Do_Receipt (demo_clock 40) demo_receipt]))).
      w_usage_seq demo_done = Some (e_sequence e) \<and> e_tenant e = w_tenant demo_done)"
  by (rule ledger_done_is_final) (simp_all add: demo_reached demo_states work_of_def)

lemma customer_remaining_is_available_witness:
  "\<exists>m. customer_projection ''t'' (Jint 50) (ledger_after demo_sha (take 3 demo_ops)) = Inr m \<and>
     mp_period m = Some ''p'' \<and> mp_remaining m = 70 \<and>
     mp_remaining m = available_in_period (ledger_after demo_sha (take 3 demo_ops)) (mp_tenant m) ''p''"
proof -
  have run: "customer_projection ''t'' (Jint 50) (ledger_after demo_sha (take 3 demo_ops)) = Inr
    \<lparr>mp_tenant = ''t'', mp_period = Some ''p'', mp_state = Metering_Active, mp_allocated = 100, mp_used = 0,
     mp_reserved = 30, mp_remaining = 70, mp_basis_points = 0, mp_resets = Some 1000\<rparr>"
    by (simp add: demo_reached customer_projection_def current_period_def basis_points_def demo_inputs
        demo_queries demo_states)
  then show ?thesis using customer_remaining_is_available [OF run, of "''p''"] by simp
qed

lemma operator_projection_balances_witness:
  "\<exists>r. operator_ledger_projection ''t'' (Some ''p'') (ledger_after demo_sha demo_ops) = Inr r \<and>
    op_granted r = 100 \<and> op_used r = 25 \<and>
    op_granted r + op_adjusted r - op_expired r - op_used r =
      period_balance (ledger_after demo_sha demo_ops) (op_tenant r) (js_trim ''p'')"
proof -
  have run: "operator_ledger_projection ''t'' (Some ''p'') (ledger_after demo_sha demo_ops) = Inr
    \<lparr>op_tenant = ''t'', op_period = Some ''p'', op_granted = 100, op_adjusted = 0, op_expired = 0,
     op_used = 25,
     op_by_usage = [\<lparr>bu_operation = Some ''o'', bu_provider = Some ''x'', bu_model = ''unknown'', bu_tariff = ''v'',
       bu_basis = Some ''actual'', bu_events = 1, bu_units = 25\<rparr>],
     op_entries = map entry_of [demo_entry, demo_charge]\<rparr>"
    by (simp add: demo_reached operator_ledger_projection_def usage_buckets_def usage_group_def bucket_of_def
        demo_inputs demo_queries demo_states)
  then show ?thesis using operator_projection_balances [OF run] by simp
qed

lemma grant_replay_witness:
  "grant_allowance demo_sha (demo_clock 7) demo_grant
     (fold (ledger_step demo_sha) [Do_Admit (demo_clock 10) ''w'' demo_admit] demo_granted) =
    (Inr \<lparr>lm_entry = entry_of demo_entry, lm_replayed = True\<rparr>, demo_admitted)"
proof -
  have "timestamp (or_clock (gi_occurred demo_grant) (demo_clock 7 0)) ''occurredAt'' = Inr 7"
    by (simp add: demo_inputs)
  from grant_replay [where d = "demo_clock 7", OF empty_inv demo_grant_run this, of "[Do_Admit (demo_clock 10) ''w'' demo_admit]"]
  show ?thesis by (simp add: demo_admit_run)
qed

lemma grant_effect_witness:
  "period_balance demo_granted ''t'' ''p'' = period_balance empty_ledger ''t'' ''p'' + 100"
  using grant_effect [OF demo_grant_run, of "''t''" "''p''"]
  by (simp add: demo_inputs entry_of_def demo_entry_def)

lemma usage_effect_witness:
  "\<exists>m t. record_usage demo_sha (demo_clock 40) demo_usage demo_admitted = (Inr m, t) \<and> \<not> lm_replayed m \<and>
     available_in_period t ''t'' ''p'' = available_in_period demo_admitted ''t'' ''p'' - 10"
proof -
  obtain m t where run: "record_usage demo_sha (demo_clock 40) demo_usage demo_admitted = (Inr m, t)"
    and fresh: "\<not> lm_replayed m"
    by (simp add: demo_inputs demo_queries demo_states demo_attempt record_usage_def normalize_usage_def)
  from usage_effect [OF demo_inv(2) run fresh] run fresh show ?thesis
    by (auto simp: demo_usage_def js_trim_def js_space_def)
qed

lemma usage_failure_charges_nothing_witness:
  "\<exists>e t. record_usage demo_sha (demo_clock 40) (demo_usage\<lparr>ui_amount := Jint 71\<rparr>) demo_admitted = (Inl e, t) \<and>
    (\<exists>es. entries t = entries demo_admitted @ es \<and> (\<forall>x \<in> set es. e_kind x = Expiry))"
proof -
  obtain e t where run:
    "record_usage demo_sha (demo_clock 40) (demo_usage\<lparr>ui_amount := Jint 71\<rparr>) demo_admitted = (Inl e, t)"
    by (simp add: demo_inputs demo_queries demo_states demo_attempt record_usage_def normalize_usage_def)
  from usage_failure_charges_nothing [OF run] run show ?thesis by blast
qed

lemma reconcile_closes_ended_periods_witness:
  "\<exists>n t. reconcile_expired_periods demo_sha (Jint 1000) demo_admitted = (Inr n, t) \<and>
    (\<forall>p \<in> set (periods demo_admitted). no_open_work t p)"
  using reconcile_closes_ended_periods [OF demo_inv(2), of 1000 demo_sha]
  by (auto simp: max_safe_integer_def demo_admitted_def demo_state_def)

lemma admission_decision_witness:
  "pw_reserved (paid_work_of demo_ready) = 30 \<and>
   available_in_period demo_admitted ''t'' ''p'' = available_in_period demo_granted ''t'' ''p'' - 30"
  using admission_decision [OF demo_admit_run]
  by (auto simp: demo_inputs demo_queries demo_states paid_work_of_def)

lemma live_lease_is_exclusive_witness:
  "work_of (fold (ledger_step demo_sha)
     [Do_Claim_Next ''v'' ''t'' ''b'' (Jint 100) (Jint 50), Do_Claim ''v'' ''w'' ''t'' ''b'' (Jint 100) (Jint 50),
      Do_Renew (demo_clock 60) \<lparr>li_work = ''w'', li_tenant = ''t'', li_owner = ''b'', li_token = ''u''\<rparr> (Jint 100),
      Do_Release (demo_clock 70) \<lparr>li_work = ''w'', li_tenant = ''t'', li_owner = ''a'', li_token = ''v''\<rparr>,
      Do_Complete (demo_clock 80) (demo_complete\<lparr>mi_token := ''v''\<rparr>),
      Do_Cancel (demo_clock 90) ''w'' ''t'' (Some ''b'') None] demo_claimed) ''w'' = Some demo_leased"
proof (rule live_lease_is_exclusive)
  show "work_of demo_claimed ''w'' = Some demo_leased" "w_state demo_leased = Processing"
    by (simp_all add: demo_states work_of_def)
qed (simp add: demo_states demo_inputs claims_early_def lease_live_def holds_lease_def absent_def equals_trimmed_def
    js_trim_def js_space_def)

lemma claim_next_in_order_witness:
  "\<exists>w. work_of demo_claimed (w_id w) = Some w \<and> w_state w = Processing \<and> w_lease_until w = Some 120"
  using claim_next_in_order [OF demo_inv(2) demo_claim_run] by auto

lemma completion_needs_exact_claim_witness:
  "\<exists>w. work_of demo_claimed ''w'' = Some w \<and> holds_lease ''a'' ''u'' w \<and> lease_live 30 w"
  using completion_needs_exact_claim [OF demo_complete_run]
  by (auto simp: demo_inputs demo_states work_of_def)

lemma completion_replay_witness:
  "fst (complete_paid_work demo_sha (demo_clock 60) demo_complete
     (fold (ledger_step demo_sha) [Do_Reconcile_Work (Jint 50)] demo_completed)) =
    Inr \<lparr>co_work = paid_work_of demo_done,
         co_usage = \<lparr>lm_entry = entry_of demo_charge, lm_replayed = True\<rparr>\<rparr>"
  using completion_replay [OF demo_inv(3) demo_complete_run, of "demo_clock 60" "[Do_Reconcile_Work (Jint 50)]"]
  by (simp add: demo_clock_def max_safe_integer_def)

lemma durable_receipt_settles_witness:
  "\<exists>m t v. complete_from_receipt demo_sha (demo_clock 200) demo_receipt demo_claimed = (Inr m, t) \<and>
     work_of t ''w'' = Some v \<and> w_state v = Done \<and> w_receipt v = Some ''q''"
proof -
  obtain m t where run: "complete_from_receipt demo_sha (demo_clock 200) demo_receipt demo_claimed = (Inr m, t)"
    by (simp add: demo_inputs demo_queries demo_states demo_attempt complete_from_receipt_def receipt_tx_def
        normalize_receipt_def settle_receipt_def receipt_row_def entry_of_def)
  from durable_receipt_settles [OF run] run show ?thesis
    by (auto simp: demo_inputs demo_states work_of_def)
qed

lemma cancelled_while_leased_witness:
  "\<exists>v t u. cancel_paid_work (demo_clock 40) ''w'' ''t'' None None demo_claimed = (Inr (paid_work_of v), t) \<and>
     release_paid_work_for_retry (demo_clock 50)
       \<lparr>li_work = ''w'', li_tenant = ''t'', li_owner = ''a'', li_token = ''u''\<rparr> t =
       (Inr (paid_work_of (freed_row Cancelled 50 v)), u)"
  using cancelled_while_leased [of demo_claimed "''w''" demo_leased "''t''" "''a''" "''u''" "demo_clock 40" "demo_clock 50"]
  by (auto simp: demo_inputs demo_states work_of_def holds_lease_def)

end
