(* ===== verification/OAuth_Store.thy ===== *)
theory OAuth_Store
  imports Prelude
begin

text \<open>
  The store interface of the authorization server (packages/mcp-chassis/src/oauth.ts) and its two
  implementations: \<open>MemoryOAuthStore\<close>, on JavaScript maps, and \<open>SqliteOAuthStore\<close>
  (packages/mcp-chassis/src/oauthSqliteStore.ts), on tables.

  \<^item> \<open>store_ops\<close> is the interface: a record of operations on a state. An operation that can throw
    returns a sum; \<open>Date.now()\<close> is an argument.
  \<^item> \<open>oauth_view\<close> is what a client of the interface can tell about a store, and \<open>spec_store\<close> the
    interface on views. The locale \<open>oauth_store\<close> says that a store behaves on its view as
    \<open>spec_store\<close> does, for keys that are new; both implementations interpret it.
  \<^item> The JSON texts of a tenant and of a list of strings in the tables are modelled by the values
    themselves.
\<close>

section \<open>Data\<close>

record tenant_context =
  tc_id :: string
  tc_name :: "string option"
  tc_plan :: "string option"
  tc_quota :: "js_number option option"

record oauth_client =
  oc_id :: string
  oc_name :: string
  oc_redirects :: "string list"
  oc_created :: int

record auth_code =
  ac_code :: string
  ac_client :: string
  ac_redirect :: string
  ac_challenge :: string
  ac_resource :: string
  ac_scope :: string
  ac_tenant :: tenant_context
  ac_expires :: int

record server_token =
  st_access :: string
  st_refresh :: string
  st_client :: string
  st_client_name :: string
  st_resource :: string
  st_scope :: string
  st_tenant :: tenant_context
  st_expires :: int
  st_created :: int

record access_grant =
  ag_tenant :: tenant_context
  ag_client :: string
  ag_client_name :: string
  ag_scope :: string
  ag_expires :: int

record provider_state =
  ps_state :: string
  ps_provider :: string
  ps_tenant :: string
  ps_redirect :: string
  ps_expires :: int

definition grant_of :: "server_token \<Rightarrow> access_grant" where
  "grant_of t = \<lparr>ag_tenant = st_tenant t, ag_client = st_client t, ag_client_name = st_client_name t,
                 ag_scope = st_scope t, ag_expires = st_expires t\<rparr>"

datatype store_error = Unique_Violation

record 's store_ops =
  so_create_client :: "oauth_client \<Rightarrow> 's \<Rightarrow> store_error + 's"
  so_get_client :: "string \<Rightarrow> 's \<Rightarrow> oauth_client option"
  so_create_code :: "auth_code \<Rightarrow> 's \<Rightarrow> store_error + 's"
  so_consume_code :: "int \<Rightarrow> string \<Rightarrow> 's \<Rightarrow> auth_code option \<times> 's"
  so_create_token :: "server_token \<Rightarrow> 's \<Rightarrow> store_error + 's"
  so_resolve :: "int \<Rightarrow> string \<Rightarrow> 's \<Rightarrow> access_grant option"
  so_by_refresh :: "string \<Rightarrow> 's \<Rightarrow> server_token option"
  so_rotate :: "string \<Rightarrow> string \<Rightarrow> int \<Rightarrow> 's \<Rightarrow> store_error + 's"
  so_create_state :: "provider_state \<Rightarrow> 's \<Rightarrow> store_error + 's"
  so_consume_state :: "int \<Rightarrow> string \<Rightarrow> 's \<Rightarrow> provider_state option \<times> 's"

section \<open>The store in memory\<close>

record memory_oauth =
  mo_clients :: "string \<Rightarrow> oauth_client option"
  mo_codes :: "string \<Rightarrow> auth_code option"
  mo_by_access :: "string \<Rightarrow> server_token option"
  mo_by_refresh :: "string \<Rightarrow> string option"
  mo_states :: "string \<Rightarrow> provider_state option"

definition empty_memory_oauth :: memory_oauth where
  "empty_memory_oauth = \<lparr>mo_clients = (\<lambda>_. None), mo_codes = (\<lambda>_. None), mo_by_access = (\<lambda>_. None),
     mo_by_refresh = (\<lambda>_. None), mo_states = (\<lambda>_. None)\<rparr>"

definition mem_create_client :: "oauth_client \<Rightarrow> memory_oauth \<Rightarrow> store_error + memory_oauth" where
  "mem_create_client c s = Inr (s\<lparr>mo_clients := (mo_clients s)(oc_id c \<mapsto> c)\<rparr>)"

definition mem_get_client :: "string \<Rightarrow> memory_oauth \<Rightarrow> oauth_client option" where
  "mem_get_client i s = mo_clients s i"

definition mem_create_code :: "auth_code \<Rightarrow> memory_oauth \<Rightarrow> store_error + memory_oauth" where
  "mem_create_code c s = Inr (s\<lparr>mo_codes := (mo_codes s)(ac_code c \<mapsto> c)\<rparr>)"

definition mem_consume_code :: "int \<Rightarrow> string \<Rightarrow> memory_oauth \<Rightarrow> auth_code option \<times> memory_oauth" where
  "mem_consume_code now code s =
     (let found = mo_codes s code;
          s' = s\<lparr>mo_codes := (mo_codes s)(code := None)\<rparr>
      in case found of
           None \<Rightarrow> (None, s')
         | Some c \<Rightarrow> if ac_expires c < now then (None, s') else (Some c, s'))"

definition mem_create_token :: "server_token \<Rightarrow> memory_oauth \<Rightarrow> store_error + memory_oauth" where
  "mem_create_token t s =
     Inr (s\<lparr>mo_by_access := (mo_by_access s)(st_access t \<mapsto> t),
            mo_by_refresh := (mo_by_refresh s)(st_refresh t \<mapsto> st_access t)\<rparr>)"

definition mem_resolve :: "int \<Rightarrow> string \<Rightarrow> memory_oauth \<Rightarrow> access_grant option" where
  "mem_resolve now access s =
     (case mo_by_access s access of
        None \<Rightarrow> None
      | Some t \<Rightarrow> if st_expires t < now then None else Some (grant_of t))"

text \<open>\<open>truthy\<close>: a string that is present and not empty, as \<open>x ? a : b\<close> tests it.\<close>

definition truthy :: "string option \<Rightarrow> string option" where
  "truthy v = (if v = Some [] then None else v)"

definition mem_by_refresh :: "string \<Rightarrow> memory_oauth \<Rightarrow> server_token option" where
  "mem_by_refresh refresh s =
     (case truthy (mo_by_refresh s refresh) of None \<Rightarrow> None | Some access \<Rightarrow> mo_by_access s access)"

definition mem_rotate :: "string \<Rightarrow> string \<Rightarrow> int \<Rightarrow> memory_oauth \<Rightarrow> store_error + memory_oauth" where
  "mem_rotate refresh fresh expires s =
     (case truthy (mo_by_refresh s refresh) of
        None \<Rightarrow> Inr s
      | Some old \<Rightarrow>
         (case mo_by_access s old of
            None \<Rightarrow> Inr s
          | Some existing \<Rightarrow>
              Inr (s\<lparr>mo_by_access := (mo_by_access s)(old := None,
                       fresh := Some (existing\<lparr>st_access := fresh, st_expires := expires\<rparr>)),
                     mo_by_refresh := (mo_by_refresh s)(refresh \<mapsto> fresh)\<rparr>)))"

definition mem_create_state :: "provider_state \<Rightarrow> memory_oauth \<Rightarrow> store_error + memory_oauth" where
  "mem_create_state p s = Inr (s\<lparr>mo_states := (mo_states s)(ps_state p \<mapsto> p)\<rparr>)"

definition mem_consume_state :: "int \<Rightarrow> string \<Rightarrow> memory_oauth \<Rightarrow> provider_state option \<times> memory_oauth" where
  "mem_consume_state now st s =
     (let found = mo_states s st;
          s' = s\<lparr>mo_states := (mo_states s)(st := None)\<rparr>
      in case found of
           None \<Rightarrow> (None, s')
         | Some p \<Rightarrow> if ps_expires p < now then (None, s') else (Some p, s'))"

definition memory_store :: "memory_oauth store_ops" where
  "memory_store = \<lparr>so_create_client = mem_create_client, so_get_client = mem_get_client,
     so_create_code = mem_create_code, so_consume_code = mem_consume_code,
     so_create_token = mem_create_token, so_resolve = mem_resolve, so_by_refresh = mem_by_refresh,
     so_rotate = mem_rotate, so_create_state = mem_create_state,
     so_consume_state = mem_consume_state\<rparr>"

section \<open>The store in SQLite\<close>

record sqlite_oauth =
  sq_clients :: "oauth_client list"
  sq_codes :: "auth_code list"
  sq_tokens :: "server_token list"
  sq_states :: "provider_state list"

definition empty_sqlite_oauth :: sqlite_oauth where
  "empty_sqlite_oauth = \<lparr>sq_clients = [], sq_codes = [], sq_tokens = [], sq_states = []\<rparr>"

text \<open>\<open>INSERT ... ON CONFLICT(client_id) DO UPDATE\<close>: the creation time of the first row stays.\<close>

definition sql_create_client :: "oauth_client \<Rightarrow> sqlite_oauth \<Rightarrow> store_error + sqlite_oauth" where
  "sql_create_client c s =
     (if find (\<lambda>r. oc_id r = oc_id c) (sq_clients s) = None
      then Inr (s\<lparr>sq_clients := sq_clients s @ [c]\<rparr>)
      else Inr (s\<lparr>sq_clients := update_where (\<lambda>r. oc_id r = oc_id c)
             (\<lambda>r. r\<lparr>oc_name := oc_name c, oc_redirects := oc_redirects c\<rparr>) (sq_clients s)\<rparr>))"

definition sql_get_client :: "string \<Rightarrow> sqlite_oauth \<Rightarrow> oauth_client option" where
  "sql_get_client i s = find (\<lambda>r. oc_id r = i) (sq_clients s)"

definition sql_create_code :: "auth_code \<Rightarrow> sqlite_oauth \<Rightarrow> store_error + sqlite_oauth" where
  "sql_create_code c s =
     (if find (\<lambda>r. ac_code r = ac_code c) (sq_codes s) \<noteq> None then Inl Unique_Violation
      else Inr (s\<lparr>sq_codes := sq_codes s @ [c]\<rparr>))"

definition sql_consume_code :: "int \<Rightarrow> string \<Rightarrow> sqlite_oauth \<Rightarrow> auth_code option \<times> sqlite_oauth" where
  "sql_consume_code now code s =
     (let found = find (\<lambda>r. ac_code r = code) (sq_codes s);
          s' = s\<lparr>sq_codes := filter (\<lambda>r. ac_code r \<noteq> code) (sq_codes s)\<rparr>
      in case found of
           None \<Rightarrow> (None, s')
         | Some c \<Rightarrow> if ac_expires c < now then (None, s') else (Some c, s'))"

definition sql_create_token :: "server_token \<Rightarrow> sqlite_oauth \<Rightarrow> store_error + sqlite_oauth" where
  "sql_create_token t s =
     (if find (\<lambda>r. st_access r = st_access t \<or> st_refresh r = st_refresh t) (sq_tokens s) \<noteq> None
      then Inl Unique_Violation
      else Inr (s\<lparr>sq_tokens := sq_tokens s @ [t]\<rparr>))"

definition sql_resolve :: "int \<Rightarrow> string \<Rightarrow> sqlite_oauth \<Rightarrow> access_grant option" where
  "sql_resolve now access s =
     (case find (\<lambda>r. st_access r = access) (sq_tokens s) of
        None \<Rightarrow> None
      | Some t \<Rightarrow> if st_expires t < now then None else Some (grant_of t))"

definition sql_by_refresh :: "string \<Rightarrow> sqlite_oauth \<Rightarrow> server_token option" where
  "sql_by_refresh refresh s = find (\<lambda>r. st_refresh r = refresh) (sq_tokens s)"

text \<open>The \<open>UPDATE\<close> fails when another row already has the new access token.\<close>

definition sql_rotate :: "string \<Rightarrow> string \<Rightarrow> int \<Rightarrow> sqlite_oauth \<Rightarrow> store_error + sqlite_oauth" where
  "sql_rotate refresh fresh expires s =
     (if find (\<lambda>r. st_refresh r = refresh) (sq_tokens s) \<noteq> None \<and>
         find (\<lambda>r. st_access r = fresh \<and> st_refresh r \<noteq> refresh) (sq_tokens s) \<noteq> None
      then Inl Unique_Violation
      else Inr (s\<lparr>sq_tokens := update_where (\<lambda>r. st_refresh r = refresh)
             (\<lambda>r. r\<lparr>st_access := fresh, st_expires := expires\<rparr>) (sq_tokens s)\<rparr>))"

definition sql_create_state :: "provider_state \<Rightarrow> sqlite_oauth \<Rightarrow> store_error + sqlite_oauth" where
  "sql_create_state p s =
     (if find (\<lambda>r. ps_state r = ps_state p) (sq_states s) \<noteq> None then Inl Unique_Violation
      else Inr (s\<lparr>sq_states := sq_states s @ [p]\<rparr>))"

definition sql_consume_state :: "int \<Rightarrow> string \<Rightarrow> sqlite_oauth \<Rightarrow> provider_state option \<times> sqlite_oauth" where
  "sql_consume_state now st s =
     (let found = find (\<lambda>r. ps_state r = st) (sq_states s);
          s' = s\<lparr>sq_states := filter (\<lambda>r. ps_state r \<noteq> st) (sq_states s)\<rparr>
      in case found of
           None \<Rightarrow> (None, s')
         | Some p \<Rightarrow> if ps_expires p < now then (None, s') else (Some p, s'))"

definition sqlite_store :: "sqlite_oauth store_ops" where
  "sqlite_store = \<lparr>so_create_client = sql_create_client, so_get_client = sql_get_client,
     so_create_code = sql_create_code, so_consume_code = sql_consume_code,
     so_create_token = sql_create_token, so_resolve = sql_resolve, so_by_refresh = sql_by_refresh,
     so_rotate = sql_rotate, so_create_state = sql_create_state,
     so_consume_state = sql_consume_state\<rparr>"

section \<open>The abstract store\<close>

record oauth_view =
  ov_clients :: "string \<Rightarrow> oauth_client option"
  ov_codes :: "string \<Rightarrow> auth_code option"
  ov_access :: "string \<Rightarrow> server_token option"
  ov_refresh :: "string \<Rightarrow> server_token option"
  ov_states :: "string \<Rightarrow> provider_state option"

definition still_valid :: "int \<Rightarrow> ('a \<Rightarrow> int) \<Rightarrow> 'a option \<Rightarrow> 'a option" where
  "still_valid now expires v = (case v of None \<Rightarrow> None | Some x \<Rightarrow> if expires x < now then None else Some x)"

definition spec_rotate :: "string \<Rightarrow> string \<Rightarrow> int \<Rightarrow> oauth_view \<Rightarrow> oauth_view" where
  "spec_rotate refresh fresh expires v =
     (case ov_refresh v refresh of
        None \<Rightarrow> v
      | Some t \<Rightarrow>
          let t' = t\<lparr>st_access := fresh, st_expires := expires\<rparr> in
          v\<lparr>ov_access := (ov_access v)(st_access t := None, fresh := Some t'),
            ov_refresh := (ov_refresh v)(refresh \<mapsto> t')\<rparr>)"

definition spec_store :: "oauth_view store_ops" where
  "spec_store =
     \<lparr>so_create_client = (\<lambda>c v. Inr (v\<lparr>ov_clients := (ov_clients v)(oc_id c \<mapsto> c)\<rparr>)),
      so_get_client = (\<lambda>i v. ov_clients v i),
      so_create_code = (\<lambda>c v. Inr (v\<lparr>ov_codes := (ov_codes v)(ac_code c \<mapsto> c)\<rparr>)),
      so_consume_code = (\<lambda>now c v. (still_valid now ac_expires (ov_codes v c),
                                    v\<lparr>ov_codes := (ov_codes v)(c := None)\<rparr>)),
      so_create_token = (\<lambda>t v. Inr (v\<lparr>ov_access := (ov_access v)(st_access t \<mapsto> t),
                                       ov_refresh := (ov_refresh v)(st_refresh t \<mapsto> t)\<rparr>)),
      so_resolve = (\<lambda>now a v. map_option grant_of (still_valid now st_expires (ov_access v a))),
      so_by_refresh = (\<lambda>r v. ov_refresh v r),
      so_rotate = (\<lambda>r a e v. Inr (spec_rotate r a e v)),
      so_create_state = (\<lambda>p v. Inr (v\<lparr>ov_states := (ov_states v)(ps_state p \<mapsto> p)\<rparr>)),
      so_consume_state = (\<lambda>now p v. (still_valid now ps_expires (ov_states v p),
                                     v\<lparr>ov_states := (ov_states v)(p := None)\<rparr>))\<rparr>"

text \<open>A view is consistent when its two token tables are two indexes of the same tokens.\<close>

definition view_ok :: "oauth_view \<Rightarrow> bool" where
  "view_ok v \<longleftrightarrow>
     (\<forall>r t. ov_refresh v r = Some t \<longrightarrow> st_refresh t = r \<and> st_access t \<noteq> [] \<and> ov_access v (st_access t) = Some t) \<and>
     (\<forall>a t. ov_access v a = Some t \<longrightarrow> st_access t = a \<and> ov_refresh v (st_refresh t) = Some t)"

definition new_token :: "server_token \<Rightarrow> oauth_view \<Rightarrow> bool" where
  "new_token t v \<longleftrightarrow> st_access t \<noteq> [] \<and> ov_access v (st_access t) = None \<and> ov_refresh v (st_refresh t) = None"

section \<open>The interface\<close>

definition stores :: "('s \<Rightarrow> bool) \<Rightarrow> ('s \<Rightarrow> oauth_view) \<Rightarrow> store_error + 's \<Rightarrow> store_error + oauth_view \<Rightarrow> bool" where
  "stores ok view r q \<longleftrightarrow> (\<exists>s'. r = Inr s' \<and> ok s' \<and> q = Inr (view s'))"

definition yields :: "('s \<Rightarrow> bool) \<Rightarrow> ('s \<Rightarrow> oauth_view) \<Rightarrow> 'a option \<times> 's \<Rightarrow> 'a option \<times> oauth_view \<Rightarrow> bool" where
  "yields ok view r q \<longleftrightarrow> ok (snd r) \<and> q = (fst r, view (snd r))"

locale oauth_store =
  fixes ops :: "'s store_ops" and ok :: "'s \<Rightarrow> bool" and view :: "'s \<Rightarrow> oauth_view"
  assumes consistent: "ok s \<Longrightarrow> view_ok (view s)"
    and create_client: "ok s \<Longrightarrow> ov_clients (view s) (oc_id c) = None \<Longrightarrow>
      stores ok view (so_create_client ops c s) (so_create_client spec_store c (view s))"
    and get_client: "ok s \<Longrightarrow> so_get_client ops i s = ov_clients (view s) i"
    and create_code: "ok s \<Longrightarrow> ov_codes (view s) (ac_code k) = None \<Longrightarrow>
      stores ok view (so_create_code ops k s) (so_create_code spec_store k (view s))"
    and consume_code: "ok s \<Longrightarrow>
      yields ok view (so_consume_code ops now code s) (so_consume_code spec_store now code (view s))"
    and create_token: "ok s \<Longrightarrow> new_token t (view s) \<Longrightarrow>
      stores ok view (so_create_token ops t s) (so_create_token spec_store t (view s))"
    and resolve: "ok s \<Longrightarrow> so_resolve ops now a s = so_resolve spec_store now a (view s)"
    and by_refresh: "ok s \<Longrightarrow> so_by_refresh ops r s = ov_refresh (view s) r"
    and rotate: "ok s \<Longrightarrow> a \<noteq> [] \<Longrightarrow> ov_access (view s) a = None \<Longrightarrow>
      stores ok view (so_rotate ops r a e s) (so_rotate spec_store r a e (view s))"
    and create_state: "ok s \<Longrightarrow> ov_states (view s) (ps_state p) = None \<Longrightarrow>
      stores ok view (so_create_state ops p s) (so_create_state spec_store p (view s))"
    and consume_state: "ok s \<Longrightarrow>
      yields ok view (so_consume_state ops now st s) (so_consume_state spec_store now st (view s))"

section \<open>The implementations keep the contract\<close>

definition memory_view :: "memory_oauth \<Rightarrow> oauth_view" where
  "memory_view s = \<lparr>ov_clients = mo_clients s, ov_codes = mo_codes s, ov_access = mo_by_access s,
     ov_refresh = (\<lambda>r. mem_by_refresh r s), ov_states = mo_states s\<rparr>"

definition memory_inv :: "memory_oauth \<Rightarrow> bool" where
  "memory_inv s \<longleftrightarrow>
     (\<forall>r a. mo_by_refresh s r = Some a \<longrightarrow>
        a \<noteq> [] \<and> (\<exists>t. mo_by_access s a = Some t \<and> st_refresh t = r)) \<and>
     (\<forall>a t. mo_by_access s a = Some t \<longrightarrow> st_access t = a \<and> mo_by_refresh s (st_refresh t) = Some a)"

lemma memory_by_refreshD:
  "memory_inv s \<Longrightarrow> mo_by_refresh s r = Some a \<Longrightarrow>
    a \<noteq> [] \<and> (\<exists>t. mo_by_access s a = Some t \<and> st_refresh t = r \<and> st_access t = a)"
  unfolding memory_inv_def by metis

lemma memory_by_accessD:
  "memory_inv s \<Longrightarrow> mo_by_access s a = Some t \<Longrightarrow> st_access t = a \<and> mo_by_refresh s (st_refresh t) = Some a"
  unfolding memory_inv_def by metis

lemma truthy_None [simp]: "truthy None = None"
  by (simp add: truthy_def)

lemma memory_truthy: "memory_inv s \<Longrightarrow> truthy (mo_by_refresh s r) = mo_by_refresh s r"
  by (auto simp: truthy_def dest: memory_by_refreshD)

lemma memory_refresh_Some:
  assumes "memory_inv s"
  shows "mem_by_refresh r s = Some t \<longleftrightarrow> mo_by_access s (st_access t) = Some t \<and> st_refresh t = r"
proof
  assume "mem_by_refresh r s = Some t"
  then obtain a where "mo_by_refresh s r = Some a" "mo_by_access s a = Some t"
    by (auto simp: mem_by_refresh_def memory_truthy [OF assms] split: option.splits)
  then show "mo_by_access s (st_access t) = Some t \<and> st_refresh t = r"
    using memory_by_refreshD [OF assms] by fastforce
next
  assume t: "mo_by_access s (st_access t) = Some t \<and> st_refresh t = r"
  then have "mo_by_refresh s r = Some (st_access t)"
    using memory_by_accessD [OF assms, of "st_access t" t] by simp
  with t memory_truthy [OF assms, of r] show "mem_by_refresh r s = Some t"
    by (simp add: mem_by_refresh_def)
qed

lemma memory_refresh_None:
  "memory_inv s \<Longrightarrow> mem_by_refresh r s = None \<longleftrightarrow> mo_by_refresh s r = None"
  by (auto simp: mem_by_refresh_def memory_truthy dest: memory_by_refreshD split: option.splits)

lemma option_eqI: "(\<And>t. x = Some t \<longleftrightarrow> y = Some t) \<Longrightarrow> x = y"
  by (cases x; cases y) auto

lemmas memory_ops =
  memory_store_def spec_store_def memory_view_def stores_def yields_def still_valid_def Let_def
  mem_create_client_def mem_get_client_def mem_create_code_def mem_consume_code_def
  mem_create_token_def mem_resolve_def mem_create_state_def mem_consume_state_def

lemma memory_same_tokens:
  assumes "mo_by_access t = mo_by_access s" and "mo_by_refresh t = mo_by_refresh s"
  shows "memory_inv t = memory_inv s" and "mem_by_refresh r t = mem_by_refresh r s"
  using assms by (simp_all add: memory_inv_def mem_by_refresh_def cong: option.case_cong)

lemma memory_create_token:
  assumes inv: "memory_inv s" and new: "new_token t (memory_view s)"
  shows "stores memory_inv memory_view (so_create_token memory_store t s)
    (so_create_token spec_store t (memory_view s))"
proof -
  let ?s = "s\<lparr>mo_by_access := (mo_by_access s)(st_access t \<mapsto> t),
              mo_by_refresh := (mo_by_refresh s)(st_refresh t \<mapsto> st_access t)\<rparr>"
  from new have n: "st_access t \<noteq> []" "mo_by_access s (st_access t) = None" "mo_by_refresh s (st_refresh t) = None"
    using memory_refresh_None [OF inv] by (auto simp: new_token_def memory_view_def)
  have i: "memory_inv ?s"
    unfolding memory_inv_def
    using inv n by (auto simp: memory_inv_def) (metis option.distinct(1) option.inject)+
  have "mem_by_refresh r ?s = (if r = st_refresh t then Some t else mem_by_refresh r s)" for r
  proof (rule option_eqI)
    fix u
    show "mem_by_refresh r ?s = Some u \<longleftrightarrow> (if r = st_refresh t then Some t else mem_by_refresh r s) = Some u"
      unfolding memory_refresh_Some [OF i]
      using n memory_by_accessD [OF inv, of "st_access u" u]
      by (cases "u = t") (auto simp: memory_refresh_Some [OF inv])
  qed
  with i show ?thesis by (auto simp: memory_ops)
qed

lemma select_convs_refresh: "st_refresh (t\<lparr>st_access := a, st_expires := e\<rparr>) = st_refresh t"
  by simp

lemma memory_rotate:
  assumes inv: "memory_inv s" and a: "a \<noteq> []" "mo_by_access s a = None"
  shows "stores memory_inv memory_view (so_rotate memory_store r a e s) (so_rotate spec_store r a e (memory_view s))"
proof (cases "mo_by_refresh s r")
  case None
  then have "mem_by_refresh r s = None" using memory_refresh_None [OF inv] by simp
  with None inv show ?thesis by (simp add: memory_ops mem_rotate_def spec_rotate_def)
next
  case (Some old)
  with inv obtain t where t: "mo_by_access s old = Some t" "st_refresh t = r" "st_access t = old"
    by (auto simp: memory_inv_def)
  let ?t = "t\<lparr>st_access := a, st_expires := e\<rparr>"
  let ?s = "s\<lparr>mo_by_access := (mo_by_access s)(old := None, a := Some ?t),
              mo_by_refresh := (mo_by_refresh s)(r \<mapsto> a)\<rparr>"
  have old: "a \<noteq> old" using a(2) t(1) by auto
  have i: "memory_inv ?s"
    unfolding memory_inv_def
  proof (intro conjI allI impI)
    fix q b assume q: "mo_by_refresh ?s q = Some b"
    show "b \<noteq> []" using q a(1) memory_by_refreshD [OF inv, of q b] by (auto split: if_splits)
    show "\<exists>u. mo_by_access ?s b = Some u \<and> st_refresh u = q"
    proof (cases "q = r")
      case True
      with q t(2) show ?thesis by simp
    next
      case False
      with q memory_by_refreshD [OF inv, of q b] obtain u where
        u: "mo_by_access s b = Some u" "st_refresh u = q" by auto
      have "b \<noteq> a" "b \<noteq> old" using u a(2) t False by auto
      with u show ?thesis by simp
    qed
  next
    fix b u assume b: "mo_by_access ?s b = Some u"
    then have "b = a \<and> u = ?t \<or> b \<noteq> a \<and> b \<noteq> old \<and> mo_by_access s b = Some u"
      by (auto split: if_splits)
    with memory_by_accessD [OF inv, of b u] t(2) Some
    show "st_access u = b" "mo_by_refresh ?s (st_refresh u) = Some b" by auto
  qed
  have "mem_by_refresh q ?s = (if q = r then Some ?t else mem_by_refresh q s)" for q
  proof (rule option_eqI)
    fix u
    show "mem_by_refresh q ?s = Some u \<longleftrightarrow> (if q = r then Some ?t else mem_by_refresh q s) = Some u"
    proof (cases "st_access u = a")
      case True
      have "?t = u \<Longrightarrow> st_refresh u = r" using t(2) by (metis select_convs_refresh)
      with True a(2) show ?thesis
        unfolding memory_refresh_Some [OF i] by (auto simp: memory_refresh_Some [OF inv])
    next
      case other: False
      show ?thesis
      proof (cases "st_access u = old")
        case True
        with other t show ?thesis
          unfolding memory_refresh_Some [OF i] by (auto simp: memory_refresh_Some [OF inv])
      next
        case False
        have "mo_by_access s (st_access u) = Some u \<Longrightarrow> st_refresh u \<noteq> r"
          using memory_by_accessD [OF inv, of "st_access u" u] Some False by auto
        with other False show ?thesis
          unfolding memory_refresh_Some [OF i] by (auto simp: memory_refresh_Some [OF inv])
      qed
    qed
  qed
  moreover have "mem_rotate r a e s = Inr ?s" "mem_by_refresh r s = Some t"
    using Some t memory_truthy [OF inv, of r] by (auto simp: mem_rotate_def memory_refresh_Some [OF inv])
  ultimately show ?thesis
    using i t by (auto simp: memory_ops spec_rotate_def)
qed

lemma memory_consistent:
  assumes "memory_inv s"
  shows "view_ok (memory_view s)"
  unfolding view_ok_def
proof (intro conjI allI impI)
  fix r t assume "ov_refresh (memory_view s) r = Some t"
  then have t: "mo_by_access s (st_access t) = Some t" "st_refresh t = r"
    by (simp_all add: memory_view_def memory_refresh_Some [OF assms])
  with memory_by_accessD [OF assms t(1)] memory_by_refreshD [OF assms, of r "st_access t"]
  show "st_refresh t = r" "st_access t \<noteq> []" "ov_access (memory_view s) (st_access t) = Some t"
    by (simp_all add: memory_view_def)
next
  fix a t assume t: "ov_access (memory_view s) a = Some t"
  with memory_by_accessD [OF assms, of a t]
  show "st_access t = a" "ov_refresh (memory_view s) (st_refresh t) = Some t"
    by (simp_all add: memory_view_def memory_refresh_Some [OF assms])
qed

lemma memory_inv_other [simp]:
  "memory_inv (s\<lparr>mo_clients := x\<rparr>) = memory_inv s" "mem_by_refresh r (s\<lparr>mo_clients := x\<rparr>) = mem_by_refresh r s"
  "memory_inv (s\<lparr>mo_codes := y\<rparr>) = memory_inv s" "mem_by_refresh r (s\<lparr>mo_codes := y\<rparr>) = mem_by_refresh r s"
  "memory_inv (s\<lparr>mo_states := z\<rparr>) = memory_inv s" "mem_by_refresh r (s\<lparr>mo_states := z\<rparr>) = mem_by_refresh r s"
  by (rule memory_same_tokens; simp)+

interpretation memory: oauth_store memory_store memory_inv memory_view
proof unfold_locales
  fix s r a e
  show "memory_inv s \<Longrightarrow> a \<noteq> [] \<Longrightarrow> ov_access (memory_view s) a = None \<Longrightarrow>
      stores memory_inv memory_view (so_rotate memory_store r a e s) (so_rotate spec_store r a e (memory_view s))"
    by (rule memory_rotate) (simp_all add: memory_view_def)
next
  fix s now a
  show "so_resolve memory_store now a s = so_resolve spec_store now a (memory_view s)"
    by (simp add: memory_ops split: option.splits)
next
  fix s now code
  show "memory_inv s \<Longrightarrow> yields memory_inv memory_view (so_consume_code memory_store now code s)
      (so_consume_code spec_store now code (memory_view s))"
    by (cases "mo_codes s code") (simp_all add: memory_ops)
next
  fix s now st
  show "memory_inv s \<Longrightarrow> yields memory_inv memory_view (so_consume_state memory_store now st s)
      (so_consume_state spec_store now st (memory_view s))"
    by (cases "mo_states s st") (simp_all add: memory_ops)
qed (simp_all add: memory_consistent memory_create_token, simp_all add: memory_ops)

text \<open>Rows under a unique key.\<close>

lemma find_key:
  assumes "distinct (map k rows)"
  shows "find (\<lambda>r. k r = x) rows = Some t \<longleftrightarrow> t \<in> set rows \<and> k t = x"
proof
  assume "t \<in> set rows \<and> k t = x"
  then show "find (\<lambda>r. k r = x) rows = Some t" by (intro find_unique [OF assms]) auto
qed (auto dest: find_Some_iff_in)

lemma find_filter_key:
  "find (\<lambda>r. k r = x) (filter (\<lambda>r. k r \<noteq> c) rows) = (if x = c then None else find (\<lambda>r. k r = x) rows)"
  by (induction rows) auto

lemma find_snoc_key:
  "find (\<lambda>r. k r = k t) rows = None \<Longrightarrow>
    (\<lambda>x. find (\<lambda>r. k r = x) (rows @ [t])) = (\<lambda>x. find (\<lambda>r. k r = x) rows)(k t \<mapsto> t)"
  by (rule ext) (auto simp: find_append split: option.splits)

lemma distinct_snoc_key:
  "distinct (map k rows) \<Longrightarrow> find (\<lambda>r. k r = k t) rows = None \<Longrightarrow> distinct (map k (rows @ [t]))"
  by (auto simp: find_None_all)

definition sqlite_view :: "sqlite_oauth \<Rightarrow> oauth_view" where
  "sqlite_view s =
     \<lparr>ov_clients = (\<lambda>i. find (\<lambda>r. oc_id r = i) (sq_clients s)),
      ov_codes = (\<lambda>c. find (\<lambda>r. ac_code r = c) (sq_codes s)),
      ov_access = (\<lambda>a. find (\<lambda>r. st_access r = a) (sq_tokens s)),
      ov_refresh = (\<lambda>a. find (\<lambda>r. st_refresh r = a) (sq_tokens s)),
      ov_states = (\<lambda>p. find (\<lambda>r. ps_state r = p) (sq_states s))\<rparr>"

definition sqlite_inv :: "sqlite_oauth \<Rightarrow> bool" where
  "sqlite_inv s \<longleftrightarrow> distinct (map oc_id (sq_clients s)) \<and> distinct (map ac_code (sq_codes s)) \<and>
     distinct (map st_access (sq_tokens s)) \<and> distinct (map st_refresh (sq_tokens s)) \<and>
     (\<forall>t \<in> set (sq_tokens s). st_access t \<noteq> []) \<and> distinct (map ps_state (sq_states s))"

lemmas sqlite_ops =
  sqlite_store_def spec_store_def sqlite_view_def stores_def yields_def still_valid_def Let_def
  sql_create_client_def sql_get_client_def sql_create_code_def sql_consume_code_def
  sql_create_token_def sql_resolve_def sql_by_refresh_def sql_create_state_def sql_consume_state_def

lemma sqlite_consistent: "sqlite_inv s \<Longrightarrow> view_ok (sqlite_view s)"
  by (auto simp: view_ok_def sqlite_inv_def sqlite_view_def find_key)

lemma sqlite_create_token:
  assumes "sqlite_inv s" and "new_token t (sqlite_view s)"
  shows "stores sqlite_inv sqlite_view (so_create_token sqlite_store t s) (so_create_token spec_store t (sqlite_view s))"
proof -
  from assms(2) have n: "st_access t \<noteq> []" "find (\<lambda>r. st_access r = st_access t) (sq_tokens s) = None"
    "find (\<lambda>r. st_refresh r = st_refresh t) (sq_tokens s) = None"
    by (simp_all add: new_token_def sqlite_view_def)
  then have "find (\<lambda>r. st_access r = st_access t \<or> st_refresh r = st_refresh t) (sq_tokens s) = None"
    by (auto simp: find_None_all)
  with assms(1) n distinct_snoc_key [of st_access "sq_tokens s" t] distinct_snoc_key [of st_refresh "sq_tokens s" t]
  show ?thesis
    by (simp add: sqlite_ops find_snoc_key sqlite_inv_def)
qed

definition rotated :: "string \<Rightarrow> string \<Rightarrow> int \<Rightarrow> server_token list \<Rightarrow> server_token list" where
  "rotated r a e rows = update_where (\<lambda>t. st_refresh t = r) (\<lambda>t. t\<lparr>st_access := a, st_expires := e\<rparr>) rows"

lemma rotated_refresh [simp]: "map st_refresh (rotated r a e rows) = map st_refresh rows"
  unfolding rotated_def by (rule map_update_where) simp

lemma in_rotated:
  "u \<in> set (rotated r a e rows) \<longleftrightarrow>
     (u \<in> set rows \<and> st_refresh u \<noteq> r) \<or>
     (\<exists>t \<in> set rows. st_refresh t = r \<and> u = t\<lparr>st_access := a, st_expires := e\<rparr>)"
  unfolding rotated_def by (auto simp: in_update_where)

lemma rotated_access:
  assumes "distinct (map st_access rows)" and "distinct (map st_refresh rows)" and "a \<notin> st_access ` set rows"
  shows "distinct (map st_access (rotated r a e rows))"
proof -
  have "distinct (map st_refresh (rotated r a e rows))" using assms(2) by simp
  then have d: "distinct (rotated r a e rows)" by (metis distinct_map)
  have "inj_on st_access (set (rotated r a e rows))"
  proof (rule inj_onI)
    fix u v assume u: "u \<in> set (rotated r a e rows)" and v: "v \<in> set (rotated r a e rows)"
      and eq: "st_access u = st_access v"
    have new: "st_access w = a \<longleftrightarrow> st_refresh w = r" if "w \<in> set (rotated r a e rows)" for w
      using that assms(3) by (auto simp: in_rotated)
    show "u = v"
    proof (cases "st_refresh u = r")
      case True
      with new u v eq have "st_refresh v = r" by metis
      with True u v show ?thesis
        using \<open>distinct (map st_refresh (rotated r a e rows))\<close> by (metis distinct_map inj_onD)
    next
      case False
      with new u v eq have "st_refresh v \<noteq> r" by metis
      with False u v have "u \<in> set rows" "v \<in> set rows" by (auto simp: in_rotated)
      with eq assms(1) show ?thesis by (metis distinct_map inj_onD)
    qed
  qed
  with d show ?thesis by (simp add: distinct_map)
qed

lemma sqlite_rotate:
  assumes inv: "sqlite_inv s" and a: "a \<noteq> []" "find (\<lambda>r. st_access r = a) (sq_tokens s) = None"
  shows "stores sqlite_inv sqlite_view (so_rotate sqlite_store r a e s) (so_rotate spec_store r a e (sqlite_view s))"
proof -
  let ?rows = "sq_tokens s"
  let ?t = "s\<lparr>sq_tokens := rotated r a e ?rows\<rparr>"
  from inv have d: "distinct (map st_access ?rows)" "distinct (map st_refresh ?rows)"
    by (simp_all add: sqlite_inv_def)
  have "find (\<lambda>q. st_access q = a \<and> st_refresh q \<noteq> r) ?rows = None"
    using a(2) by (auto simp: find_None_all)
  then have run: "so_rotate sqlite_store r a e s = Inr ?t"
    by (simp add: sqlite_store_def sql_rotate_def rotated_def)
  have da: "distinct (map st_access (rotated r a e ?rows))"
    using d a(2) by (intro rotated_access) (auto simp: find_None_all)
  have i: "sqlite_inv ?t"
    using inv da a(1) by (auto simp: sqlite_inv_def in_rotated)
  have "spec_rotate r a e (sqlite_view s) = sqlite_view ?t"
  proof (cases "find (\<lambda>q. st_refresh q = r) ?rows")
    case None
    then have "rotated r a e ?rows = ?rows"
      unfolding rotated_def update_where_def by (intro map_idI) (auto simp: find_None_all)
    with None show ?thesis by (simp add: spec_rotate_def sqlite_view_def)
  next
    case (Some t)
    then have t: "t \<in> set ?rows" "st_refresh t = r" by (auto simp: find_key [OF d(2)])
    let ?u = "t\<lparr>st_access := a, st_expires := e\<rparr>"
    have only: "q = t" if "q \<in> set ?rows" "st_refresh q = r" for q
      using that t d(2) by (metis distinct_map inj_onD)
    have mem: "u \<in> set (rotated r a e ?rows) \<longleftrightarrow> (u \<in> set ?rows \<and> st_refresh u \<noteq> r) \<or> u = ?u" for u
      unfolding in_rotated using only t by blast
    have acc: "find (\<lambda>q. st_access q = x) (rotated r a e ?rows) =
        ((\<lambda>x. find (\<lambda>q. st_access q = x) ?rows)(st_access t := None, a := Some ?u)) x" for x
    proof (rule option_eqI)
      fix u
      have same: "st_access u = st_access t \<Longrightarrow> u \<in> set ?rows \<Longrightarrow> st_refresh u = r"
        using t d(1) by (metis distinct_map inj_onD)
      have new: "u \<in> set ?rows \<Longrightarrow> st_access u \<noteq> a" using a(2) by (auto simp: find_None_all)
      show "(find (\<lambda>q. st_access q = x) (rotated r a e ?rows) = Some u) =
          (((\<lambda>x. find (\<lambda>q. st_access q = x) ?rows)(st_access t := None, a := Some ?u)) x = Some u)"
      proof (cases "x = a")
        case True
        have "st_access ?u = a" by simp
        with True new show ?thesis unfolding find_key [OF da] mem by auto
      next
        case xa: False
        show ?thesis
        proof (cases "x = st_access t")
          case True
          with xa same show ?thesis unfolding find_key [OF da] mem by auto
        next
          case False
          have "u \<in> set ?rows \<Longrightarrow> st_access u = x \<Longrightarrow> st_refresh u \<noteq> r"
            using only [of u] False by blast
          with xa False show ?thesis unfolding find_key [OF da] mem by (auto simp: find_key [OF d(1)])
        qed
      qed
    qed
    have ref: "find (\<lambda>q. st_refresh q = x) (rotated r a e ?rows) =
        ((\<lambda>x. find (\<lambda>q. st_refresh q = x) ?rows)(r := Some ?u)) x" for x
    proof (rule option_eqI)
      fix u
      have dr: "distinct (map st_refresh (rotated r a e ?rows))" using d(2) by simp
      show "(find (\<lambda>q. st_refresh q = x) (rotated r a e ?rows) = Some u) =
          (((\<lambda>x. find (\<lambda>q. st_refresh q = x) ?rows)(r := Some ?u)) x = Some u)"
        unfolding find_key [OF dr] mem using t by (auto simp: find_key [OF d(2)])
    qed
    from Some acc ref show ?thesis
      by (simp add: spec_rotate_def sqlite_view_def Let_def fun_eq_iff)
  qed
  with run i show ?thesis by (simp add: stores_def spec_store_def)
qed

interpretation sqlite: oauth_store sqlite_store sqlite_inv sqlite_view
proof unfold_locales
  fix s r a e
  show "sqlite_inv s \<Longrightarrow> a \<noteq> [] \<Longrightarrow> ov_access (sqlite_view s) a = None \<Longrightarrow>
      stores sqlite_inv sqlite_view (so_rotate sqlite_store r a e s) (so_rotate spec_store r a e (sqlite_view s))"
    by (rule sqlite_rotate) (simp_all add: sqlite_view_def)
next
  fix s now code
  show "sqlite_inv s \<Longrightarrow> yields sqlite_inv sqlite_view (so_consume_code sqlite_store now code s)
      (so_consume_code spec_store now code (sqlite_view s))"
    by (cases "find (\<lambda>r. ac_code r = code) (sq_codes s)")
      (auto simp: sqlite_ops sqlite_inv_def find_filter_key distinct_map_filter fun_eq_iff)
next
  fix s now st
  show "sqlite_inv s \<Longrightarrow> yields sqlite_inv sqlite_view (so_consume_state sqlite_store now st s)
      (so_consume_state spec_store now st (sqlite_view s))"
    by (cases "find (\<lambda>r. ps_state r = st) (sq_states s)")
      (auto simp: sqlite_ops sqlite_inv_def find_filter_key distinct_map_filter fun_eq_iff)
next
  fix s now a
  show "so_resolve sqlite_store now a s = so_resolve spec_store now a (sqlite_view s)"
    by (simp add: sqlite_ops split: option.splits)
next
  fix s c
  show "sqlite_inv s \<Longrightarrow> ov_clients (sqlite_view s) (oc_id c) = None \<Longrightarrow>
      stores sqlite_inv sqlite_view (so_create_client sqlite_store c s) (so_create_client spec_store c (sqlite_view s))"
    using distinct_snoc_key [of oc_id "sq_clients s" c]
    by (simp add: sqlite_ops sqlite_inv_def find_snoc_key)
next
  fix s k
  show "sqlite_inv s \<Longrightarrow> ov_codes (sqlite_view s) (ac_code k) = None \<Longrightarrow>
      stores sqlite_inv sqlite_view (so_create_code sqlite_store k s) (so_create_code spec_store k (sqlite_view s))"
    using distinct_snoc_key [of ac_code "sq_codes s" k]
    by (simp add: sqlite_ops sqlite_inv_def find_snoc_key)
next
  fix s p
  show "sqlite_inv s \<Longrightarrow> ov_states (sqlite_view s) (ps_state p) = None \<Longrightarrow>
      stores sqlite_inv sqlite_view (so_create_state sqlite_store p s) (so_create_state spec_store p (sqlite_view s))"
    using distinct_snoc_key [of ps_state "sq_states s" p]
    by (simp add: sqlite_ops sqlite_inv_def find_snoc_key)
qed (simp_all add: sqlite_consistent sqlite_create_token, simp_all add: sqlite_ops)

end
