(* ===== verification/OAuth_Server.thy ===== *)
theory OAuth_Server
  imports OAuth_Store
begin

text \<open>
  The OAuth 2.1 authorization server of the MCP chassis (packages/mcp-chassis/src/oauth.ts): the
  request handlers, generic in the store.

  \<^item> \<open>oauth_env\<close> holds what the handlers take from elsewhere: the base64url SHA-256 of a text, the
    WHATWG URL parser, the hash of a tenant token and the tenant token store.
  \<^item> \<open>t i\<close> is what the \<open>i\<close>-th reading of the clock in a request gives, \<open>rnd i\<close> its \<open>i\<close>-th random
    token.
  \<^item> HTML pages and redirect URLs are kept as their arguments.
  \<^item> An exception of the store ends the request with \<open>Server_Error\<close>.
\<close>

section \<open>Requests and responses\<close>

record url_parts =
  u_username :: string
  u_password :: string
  u_hash :: string
  u_protocol :: string
  u_host :: string

record tenant_record =
  tr_tenant :: tenant_context
  tr_profile :: "string option"
  tr_status :: "string option"
  tr_expires :: "js_number option"

record oauth_env =
  env_sha :: "string \<Rightarrow> string"
  env_url :: "string \<Rightarrow> url_parts option"
  env_hash :: "string \<Rightarrow> string"
  env_tenant :: "string \<Rightarrow> tenant_record option"

type_synonym params = "string \<Rightarrow> string option"

record authorize_params =
  ap_client :: string
  ap_redirect :: string
  ap_state :: string
  ap_challenge :: string
  ap_method :: string
  ap_resource :: string
  ap_scope :: string

record browser_identity =
  bi_subject :: string
  bi_label :: string
  bi_tenant :: tenant_context

datatype resolved = Signed_In browser_identity | Foreign | Nobody

record browser_consent =
  bc_subject :: string
  bc_tenant :: string
  bc_request :: string
  bc_expires :: int

datatype oauth_response =
  Json_Error int string string
| Registered string string "string list"
| Token_Response string string string
| Error_Page string int
| Consent_Page string authorize_params "string option" "(browser_identity \<times> string) option" int
| Redirect_To string "(string \<times> string) list"
| Sign_In string
| Foreign_Response
| Provider_Connected string string
| Granted access_grant
| Refused
| Server_Error

record vault_entry =
  ve_provider :: string
  ve_tenant :: string
  ve_tokens :: string
  ve_stored :: int

record 's server =
  sv_store :: 's
  sv_pending :: "(string \<times> browser_consent) list"
  sv_vault :: "string \<Rightarrow> string \<Rightarrow> vault_entry option"

definition access_ttl :: int where "access_ttl = 60 * 60 * 1000"
definition code_ttl :: int where "code_ttl = 10 * 60 * 1000"
definition state_ttl :: int where "state_ttl = 10 * 60 * 1000"

definition or_empty :: "string option \<Rightarrow> string" where
  "or_empty v = (case v of None \<Rightarrow> [] | Some s \<Rightarrow> s)"

text \<open>\<open>with_store r s ok\<close>: go on with the new store, or end in an uncaught exception.\<close>

definition with_store ::
  "store_error + 's \<Rightarrow> 's server \<Rightarrow> ('s server \<Rightarrow> oauth_response \<times> 's server) \<Rightarrow> oauth_response \<times> 's server" where
  "with_store r s k = (case r of Inl _ \<Rightarrow> (Server_Error, s) | Inr st \<Rightarrow> k (s\<lparr>sv_store := st\<rparr>))"

section \<open>Validation\<close>

definition valid_redirect :: "oauth_env \<Rightarrow> json \<Rightarrow> bool" where
  "valid_redirect env v =
     (case v of
        JStr s \<Rightarrow>
          (case env_url env s of
             None \<Rightarrow> False
           | Some u \<Rightarrow> u_username u = [] \<and> u_password u = [] \<and> u_hash u = [] \<and>
               (u_protocol u = ''https:'' \<or>
                (u_protocol u = ''http:'' \<and> u_host u \<in> {''localhost'', ''127.0.0.1'', ''[::1]''})))
      | _ \<Rightarrow> False)"

definition read_params :: "params \<Rightarrow> authorize_params" where
  "read_params f =
     \<lparr>ap_client = or_empty (f ''client_id''), ap_redirect = or_empty (f ''redirect_uri''),
      ap_state = or_empty (f ''state''), ap_challenge = or_empty (f ''code_challenge''),
      ap_method = or_empty (f ''code_challenge_method''), ap_resource = or_empty (f ''resource''),
      ap_scope = (case f ''scope'' of None \<Rightarrow> ''mcp'' | Some s \<Rightarrow> s)\<rparr>"

definition validate_authorize :: "oauth_env \<Rightarrow> 's store_ops \<Rightarrow> 's \<Rightarrow> authorize_params \<Rightarrow> string option" where
  "validate_authorize env ops st p =
     (if ap_client p = [] \<or> ap_redirect p = [] \<or> ap_challenge p = []
        then Some ''missing required parameters''
      else if ap_method p \<noteq> ''S256'' then Some ''code_challenge_method must be S256''
      else case so_get_client ops (ap_client p) st of
        None \<Rightarrow> Some ''unknown client_id''
      | Some client \<Rightarrow>
          if ap_redirect p \<notin> set (oc_redirects client)
            then Some ''redirect_uri not registered for this client''
          else if \<not> valid_redirect env (JStr (ap_redirect p)) then Some ''invalid redirect_uri''
          else None)"

definition pkce_matches :: "oauth_env \<Rightarrow> string \<Rightarrow> string \<Rightarrow> bool" where
  "pkce_matches env verifier challenge \<longleftrightarrow>
     length (env_sha env verifier) = length challenge \<and> env_sha env verifier = challenge"

definition tenant_record_active :: "int \<Rightarrow> tenant_record \<Rightarrow> bool" where
  "tenant_record_active now r \<longleftrightarrow>
     (case tr_status r of None \<Rightarrow> True | Some s \<Rightarrow> s = ''active'') \<and>
     (case tr_expires r of None \<Rightarrow> True | Some Jother \<Rightarrow> False | Some (Jint e) \<Rightarrow> now < e)"

definition canonical_resource :: "string \<Rightarrow> string" where
  "canonical_resource base = base @ ''/mcp''"

text \<open>The identity of a pending request: \<open>publicBaseUrl(c)\<close> and the JSON text of the parameters.\<close>

definition json_field :: "string \<Rightarrow> string \<Rightarrow> string" where
  "json_field k v = json_quote k @ '':'' @ json_quote v"

definition request_text :: "string \<Rightarrow> authorize_params \<Rightarrow> string" where
  "request_text base p = base @ '':'' @ ''{'' @ join_with '',''
     [json_field ''clientId'' (ap_client p), json_field ''redirectUri'' (ap_redirect p),
      json_field ''state'' (ap_state p), json_field ''codeChallenge'' (ap_challenge p),
      json_field ''codeChallengeMethod'' (ap_method p), json_field ''resource'' (ap_resource p),
      json_field ''scope'' (ap_scope p)] @ ''}''"

definition redirect_with :: "string \<Rightarrow> (string \<times> string) list \<Rightarrow> oauth_response" where
  "redirect_with uri kvs = Redirect_To uri (filter (\<lambda>kv. snd kv \<noteq> []) kvs)"

section \<open>Metadata\<close>

definition protected_resource_metadata :: "string \<Rightarrow> json" where
  "protected_resource_metadata base = JObj
     [(''resource'', JStr (canonical_resource base)), (''authorization_servers'', JArr [JStr base]),
      (''scopes_supported'', JArr [JStr ''mcp'']), (''bearer_methods_supported'', JArr [JStr ''header''])]"

definition auth_server_metadata :: "string \<Rightarrow> json" where
  "auth_server_metadata base = JObj
     [(''issuer'', JStr base), (''authorization_endpoint'', JStr (base @ ''/oauth/authorize'')),
      (''token_endpoint'', JStr (base @ ''/oauth/token'')),
      (''registration_endpoint'', JStr (base @ ''/oauth/register'')),
      (''response_types_supported'', JArr [JStr ''code'']),
      (''grant_types_supported'', JArr [JStr ''authorization_code'', JStr ''refresh_token'']),
      (''code_challenge_methods_supported'', JArr [JStr ''S256'']),
      (''token_endpoint_auth_methods_supported'', JArr [JStr ''none'']),
      (''scopes_supported'', JArr [JStr ''mcp'']),
      (''authorization_response_iss_parameter_supported'', JBool True)]"

section \<open>Registration\<close>

record register_body =
  rb_redirects :: "json list option"
  rb_name :: "string option"

fun json_string :: "json \<Rightarrow> string" where
  "json_string (JStr s) = s"
| "json_string _ = []"

definition handle_register ::
  "oauth_env \<Rightarrow> 's store_ops \<Rightarrow> (nat \<Rightarrow> int) \<Rightarrow> (nat \<Rightarrow> string) \<Rightarrow> register_body option \<Rightarrow> 's server
    \<Rightarrow> oauth_response \<times> 's server" where
  "handle_register env ops t rnd body s =
     (case body of
        None \<Rightarrow> (Json_Error 400 ''invalid_client_metadata'' ''redirect_uris is required'', s)
      | Some b \<Rightarrow>
         (case rb_redirects b of
            None \<Rightarrow> (Json_Error 400 ''invalid_client_metadata'' ''redirect_uris is required'', s)
          | Some [] \<Rightarrow> (Json_Error 400 ''invalid_client_metadata'' ''redirect_uris is required'', s)
          | Some uris \<Rightarrow>
              if \<not> list_all (valid_redirect env) uris
              then (Json_Error 400 ''invalid_redirect_uri''
                ''Use an HTTPS callback or an HTTP loopback callback without credentials or a fragment.'', s)
              else
                let client_id = ''zc_'' @ rnd 0;
                    name = take 200 (or_empty (rb_name b));
                    client_name = (if name = [] then ''MCP client'' else name);
                    redirects = map json_string uris
                in with_store
                     (so_create_client ops \<lparr>oc_id = client_id, oc_name = client_name,
                        oc_redirects = redirects, oc_created = t 0\<rparr> (sv_store s)) s
                     (\<lambda>s'. (Registered client_id client_name redirects, s'))))"

section \<open>Consent\<close>

text \<open>\<open>Map.set\<close>: a key already there keeps its place in the order of the entries.\<close>

definition map_set :: "string \<Rightarrow> 'v \<Rightarrow> (string \<times> 'v) list \<Rightarrow> (string \<times> 'v) list" where
  "map_set k v m =
     (if k \<in> fst ` set m then map (\<lambda>kv. if fst kv = k then (k, v) else kv) m else m @ [(k, v)])"

definition max_pending :: nat where "max_pending = 1000"

definition remember ::
  "int \<Rightarrow> string \<Rightarrow> browser_consent \<Rightarrow> (string \<times> browser_consent) list \<Rightarrow> (string \<times> browser_consent) list"
  where
  "remember now nonce consent pending =
     (let alive = filter (\<lambda>kv. \<not> bc_expires (snd kv) \<le> now) pending;
          room = (if length alive \<ge> max_pending then drop 1 alive else alive)
      in map_set nonce consent room)"

definition client_name_of :: "'s store_ops \<Rightarrow> 's \<Rightarrow> authorize_params \<Rightarrow> string" where
  "client_name_of ops st p =
     (case so_get_client ops (ap_client p) st of None \<Rightarrow> [] | Some c \<Rightarrow> oc_name c)"

definition handle_authorize_get ::
  "oauth_env \<Rightarrow> 's store_ops \<Rightarrow> (nat \<Rightarrow> int) \<Rightarrow> (nat \<Rightarrow> string) \<Rightarrow> string \<Rightarrow> resolved option \<Rightarrow> string
    \<Rightarrow> params \<Rightarrow> 's server \<Rightarrow> oauth_response \<times> 's server" where
  "handle_authorize_get env ops t rnd base browser sign_in f s =
     (let p = read_params f in
      case validate_authorize env ops (sv_store s) p of
        Some err \<Rightarrow> (Error_Page err 400, s)
      | None \<Rightarrow>
         (case browser of
            None \<Rightarrow> (Consent_Page (client_name_of ops (sv_store s) p) p None None 200, s)
          | Some Foreign \<Rightarrow> (Foreign_Response, s)
          | Some Nobody \<Rightarrow> (Sign_In sign_in, s)
          | Some (Signed_In identity) \<Rightarrow>
              let nonce = rnd 0;
                  consent = \<lparr>bc_subject = bi_subject identity, bc_tenant = tc_id (bi_tenant identity),
                             bc_request = request_text base p, bc_expires = t 1 + code_ttl\<rparr>
              in (Consent_Page (client_name_of ops (sv_store s) p) p None (Some (identity, nonce)) 200,
                  s\<lparr>sv_pending := remember (t 0) nonce consent (sv_pending s)\<rparr>)))"

definition consent_valid ::
  "int \<Rightarrow> string \<Rightarrow> browser_identity \<Rightarrow> string option \<Rightarrow> authorize_params \<Rightarrow> browser_consent option \<Rightarrow> bool" where
  "consent_valid now base identity origin p consent \<longleftrightarrow>
     (case consent of
        None \<Rightarrow> False
      | Some c \<Rightarrow> now < bc_expires c \<and> bc_subject c = bi_subject identity \<and>
          bc_tenant c = tc_id (bi_tenant identity) \<and> bc_request c = request_text base p \<and>
          (case origin of None \<Rightarrow> True | Some w \<Rightarrow> w = [] \<or> w = base))"

text \<open>The tenant a decision is made for: the signed-in tenant with its pending consent, which is used
  up, or without browser sign-in the owner of the tenant token in the form.\<close>

definition decision_tenant ::
  "oauth_env \<Rightarrow> (nat \<Rightarrow> int) \<Rightarrow> string \<Rightarrow> resolved option \<Rightarrow> string option \<Rightarrow> params \<Rightarrow> authorize_params
    \<Rightarrow> string \<Rightarrow> 's server \<Rightarrow> (oauth_response + tenant_context) \<times> 's server" where
  "decision_tenant env t base browser origin f p client_name s =
     (case browser of
        Some Foreign \<Rightarrow> (Inl Foreign_Response, s)
      | Some Nobody \<Rightarrow>
          (Inl (Error_Page
             ''Your sign-in expired. Reopen the connection from your agent to sign in again.'' 401), s)
      | Some (Signed_In identity) \<Rightarrow>
          let nonce = or_empty (f ''consent'') in
          if \<not> consent_valid (t 0) base identity origin p (map_of (sv_pending s) nonce)
          then (Inl (Error_Page
             ''This authorization form is invalid or expired. Reopen the connection from your agent.'' 403), s)
          else (Inr (bi_tenant identity),
                s\<lparr>sv_pending := filter (\<lambda>kv. fst kv \<noteq> nonce) (sv_pending s)\<rparr>)
      | None \<Rightarrow>
          let token = js_trim (or_empty (f ''token''));
              mismatch = Consent_Page client_name p (Some ''That tenant token did not match.'') None 401
          in case (if token = [] then None else env_tenant env (env_hash env token)) of
               None \<Rightarrow> (Inl mismatch, s)
             | Some r \<Rightarrow>
                 if js_trim (or_empty (tr_profile r)) \<noteq> [] \<or> \<not> tenant_record_active (t 0) r
                 then (Inl mismatch, s) else (Inr (tr_tenant r), s))"

definition handle_decision ::
  "oauth_env \<Rightarrow> 's store_ops \<Rightarrow> (nat \<Rightarrow> int) \<Rightarrow> (nat \<Rightarrow> string) \<Rightarrow> string \<Rightarrow> resolved option \<Rightarrow> string option
    \<Rightarrow> params option \<Rightarrow> 's server \<Rightarrow> oauth_response \<times> 's server" where
  "handle_decision env ops t rnd base browser origin form s =
     (case form of
        None \<Rightarrow> (Error_Page ''Invalid authorization form. Reopen the connection from your agent.'' 400, s)
      | Some f \<Rightarrow>
         let p = read_params f in
         case validate_authorize env ops (sv_store s) p of
           Some err \<Rightarrow> (Error_Page err 400, s)
         | None \<Rightarrow>
            (case decision_tenant env t base browser origin f p (client_name_of ops (sv_store s) p) s of
               (Inl r, s1) \<Rightarrow> (r, s1)
             | (Inr tenant, s1) \<Rightarrow>
                 if or_empty (f ''decision'') \<noteq> ''approve''
                 then (redirect_with (ap_redirect p)
                        [(''error'', ''access_denied''), (''state'', ap_state p), (''iss'', base)], s1)
                 else
                   with_store
                     (so_create_code ops
                       \<lparr>ac_code = rnd 0, ac_client = ap_client p, ac_redirect = ap_redirect p,
                        ac_challenge = ap_challenge p,
                        ac_resource = (if ap_resource p = [] then canonical_resource base else ap_resource p),
                        ac_scope = ap_scope p, ac_tenant = tenant, ac_expires = t 1 + code_ttl\<rparr>
                       (sv_store s1)) s1
                     (\<lambda>s2. (redirect_with (ap_redirect p)
                        [(''code'', rnd 0), (''state'', ap_state p), (''iss'', base)], s2))))"

section \<open>Tokens\<close>

definition exchange_code ::
  "oauth_env \<Rightarrow> 's store_ops \<Rightarrow> (nat \<Rightarrow> int) \<Rightarrow> (nat \<Rightarrow> string) \<Rightarrow> params \<Rightarrow> 's server
    \<Rightarrow> oauth_response \<times> 's server" where
  "exchange_code env ops t rnd f s =
     (let verifier = or_empty (f ''code_verifier'');
          (found, st1) = so_consume_code ops (t 0) (or_empty (f ''code'')) (sv_store s);
          s1 = s\<lparr>sv_store := st1\<rparr>
      in case found of
           None \<Rightarrow> (Json_Error 400 ''invalid_grant'' ''code invalid or expired'', s1)
         | Some c \<Rightarrow>
             if ac_redirect c \<noteq> or_empty (f ''redirect_uri'')
               then (Json_Error 400 ''invalid_grant'' ''redirect_uri mismatch'', s1)
             else if verifier = [] \<or> \<not> pkce_matches env verifier (ac_challenge c)
               then (Json_Error 400 ''invalid_grant'' ''PKCE verification failed'', s1)
             else
               with_store
                 (so_create_token ops
                   \<lparr>st_access = rnd 0, st_refresh = rnd 1, st_client = ac_client c,
                    st_client_name = (case so_get_client ops (ac_client c) st1 of
                                        None \<Rightarrow> ''MCP client'' | Some cl \<Rightarrow> oc_name cl),
                    st_resource = ac_resource c, st_scope = ac_scope c, st_tenant = ac_tenant c,
                    st_expires = t 1 + access_ttl, st_created = t 2\<rparr> st1) s1
                 (\<lambda>s2. (Token_Response (rnd 0) (rnd 1) (ac_scope c), s2)))"

definition refresh_token ::
  "'s store_ops \<Rightarrow> (nat \<Rightarrow> int) \<Rightarrow> (nat \<Rightarrow> string) \<Rightarrow> params \<Rightarrow> 's server \<Rightarrow> oauth_response \<times> 's server" where
  "refresh_token ops t rnd f s =
     (let refresh = or_empty (f ''refresh_token'') in
      case so_by_refresh ops refresh (sv_store s) of
        None \<Rightarrow> (Json_Error 400 ''invalid_grant'' ''unknown refresh_token'', s)
      | Some existing \<Rightarrow>
          with_store (so_rotate ops refresh (rnd 0) (t 0 + access_ttl) (sv_store s)) s
            (\<lambda>s1. (Token_Response (rnd 0) refresh (st_scope existing), s1)))"

definition handle_token ::
  "oauth_env \<Rightarrow> 's store_ops \<Rightarrow> (nat \<Rightarrow> int) \<Rightarrow> (nat \<Rightarrow> string) \<Rightarrow> params option \<Rightarrow> 's server
    \<Rightarrow> oauth_response \<times> 's server" where
  "handle_token env ops t rnd form s =
     (case form of
        None \<Rightarrow> (Json_Error 400 ''invalid_request'' [], s)
      | Some f \<Rightarrow>
          let grant_type = or_empty (f ''grant_type'') in
          if grant_type = ''authorization_code'' then exchange_code env ops t rnd f s
          else if grant_type = ''refresh_token'' then refresh_token ops t rnd f s
          else (Json_Error 400 ''unsupported_grant_type'' [], s))"

text \<open>What the chassis does with a bearer token.\<close>

definition use_token :: "'s store_ops \<Rightarrow> (nat \<Rightarrow> int) \<Rightarrow> string \<Rightarrow> 's server \<Rightarrow> oauth_response \<times> 's server" where
  "use_token ops t bearer s =
     ((case so_resolve ops (t 0) bearer (sv_store s) of None \<Rightarrow> Refused | Some g \<Rightarrow> Granted g), s)"

section \<open>Connecting a provider\<close>

record oauth_provider =
  op_id :: string
  op_url :: "string \<Rightarrow> string"
  op_client :: string
  op_scopes :: "string list option"
  op_params :: "(string \<times> string) list option"
  op_vault :: "string option"

text \<open>\<open>callback_url base provider tenant\<close> is the URL that \<open>providerCallbackUrl\<close> builds with the platform's
  URL class; a redirect lists the query parameters set on its URL, in order.\<close>

definition authorization_query :: "oauth_provider \<Rightarrow> string \<Rightarrow> string \<Rightarrow> (string \<times> string) list" where
  "authorization_query p callback st =
     [(''response_type'', ''code''), (''client_id'', op_client p), (''redirect_uri'', callback), (''state'', st)]
     @ (case op_scopes p of None \<Rightarrow> [] | Some [] \<Rightarrow> [] | Some scopes \<Rightarrow> [(''scope'', join_with '' '' scopes)])
     @ (case op_params p of None \<Rightarrow> [] | Some kvs \<Rightarrow> kvs)"

definition handle_provider_start ::
  "'s store_ops \<Rightarrow> (nat \<Rightarrow> int) \<Rightarrow> (nat \<Rightarrow> string) \<Rightarrow> (string \<Rightarrow> string \<Rightarrow> string \<Rightarrow> string) \<Rightarrow> string
    \<Rightarrow> oauth_provider \<Rightarrow> tenant_context option \<Rightarrow> 's server \<Rightarrow> oauth_response \<times> 's server" where
  "handle_provider_start ops t rnd callback_url base p tenant s =
     (case tenant of
        None \<Rightarrow> (Json_Error 401 ''tenant required'' [], s)
      | Some tn \<Rightarrow>
          let callback = callback_url base (op_id p) (tc_id tn) in
          with_store
            (so_create_state ops \<lparr>ps_state = rnd 0, ps_provider = op_id p, ps_tenant = tc_id tn,
               ps_redirect = callback, ps_expires = t 0 + state_ttl\<rparr> (sv_store s)) s
            (\<lambda>s1. (Redirect_To (op_url p base) (authorization_query p callback (rnd 0)), s1)))"

definition vault_key :: "oauth_provider \<Rightarrow> string" where
  "vault_key p = (case op_vault p of None \<Rightarrow> ''oauth:'' @ op_id p | Some k \<Rightarrow> k)"

text \<open>\<open>exchange code redirect tenant\<close> is the provider's token endpoint; \<open>None\<close> is a rejection, which
  ends the request.\<close>

definition handle_provider_callback ::
  "'s store_ops \<Rightarrow> (nat \<Rightarrow> int) \<Rightarrow> (string \<Rightarrow> string \<Rightarrow> string \<Rightarrow> string option) \<Rightarrow> oauth_provider
    \<Rightarrow> params \<Rightarrow> 's server \<Rightarrow> oauth_response \<times> 's server" where
  "handle_provider_callback ops t exchange p f s =
     (if or_empty (f ''error'') \<noteq> []
      then (Json_Error 400 ''oauth_provider_error'' (or_empty (f ''error'')), s)
      else
        let code = or_empty (f ''code''); st = or_empty (f ''state'');
            (found, store1) = (if st = [] then (None, sv_store s) else so_consume_state ops (t 0) st (sv_store s));
            s1 = s\<lparr>sv_store := store1\<rparr>
        in case found of
             None \<Rightarrow> (Json_Error 400 ''invalid_oauth_state'' [], s1)
           | Some entry \<Rightarrow>
               if code = [] \<or> ps_provider entry \<noteq> op_id p
                 then (Json_Error 400 ''invalid_oauth_state'' [], s1)
               else if or_empty (f ''tenant_id'') \<noteq> ps_tenant entry
                 then (Json_Error 400 ''tenant_state_mismatch'' [], s1)
               else (case exchange code (ps_redirect entry) (ps_tenant entry) of
                       None \<Rightarrow> (Server_Error, s1)
                     | Some tokens \<Rightarrow>
                         (Provider_Connected (op_id p) (ps_tenant entry),
                          s1\<lparr>sv_vault := (sv_vault s1)(ps_tenant entry :=
                            (sv_vault s1 (ps_tenant entry))(vault_key p \<mapsto>
                              \<lparr>ve_provider = op_id p, ve_tenant = ps_tenant entry, ve_tokens = tokens,
                               ve_stored = t 1\<rparr>))\<rparr>)))"

section \<open>Provider ids\<close>

definition id_start :: "char \<Rightarrow> bool" where
  "id_start c = (let n = of_char c :: nat in
     (65 \<le> n \<and> n \<le> 90) \<or> (97 \<le> n \<and> n \<le> 122) \<or> (48 \<le> n \<and> n \<le> 57))"

definition provider_id_ok :: "string \<Rightarrow> bool" where
  "provider_id_ok s \<longleftrightarrow>
     (case s of [] \<Rightarrow> False
      | c # cs \<Rightarrow> id_start c \<and> length cs \<le> 63 \<and>
          list_all (\<lambda>d. id_start d \<or> d \<in> {CHR ''_'', CHR ''.'', CHR ''-''}) cs)"

fun resolve_providers :: "string list \<Rightarrow> string list \<Rightarrow> string list option" where
  "resolve_providers [] seen = Some seen"
| "resolve_providers (p # ps) seen =
     (let i = js_trim p in
      if \<not> provider_id_ok i \<or> i \<in> set seen then None else resolve_providers ps (seen @ [i]))"

section \<open>Serving requests\<close>

datatype oauth_request =
  Req_Register "register_body option"
| Req_Authorize string "resolved option" string params
| Req_Decision string "resolved option" "string option" "params option"
| Req_Token "params option"
| Req_Use string
| Req_Start "string \<Rightarrow> string \<Rightarrow> string \<Rightarrow> string" string oauth_provider "tenant_context option"
| Req_Callback "string \<Rightarrow> string \<Rightarrow> string \<Rightarrow> string option" oauth_provider params

type_synonym timed_request = "(nat \<Rightarrow> int) \<times> (nat \<Rightarrow> string) \<times> oauth_request"

fun serve :: "oauth_env \<Rightarrow> 's store_ops \<Rightarrow> timed_request \<Rightarrow> 's server \<Rightarrow> oauth_response \<times> 's server" where
  "serve env ops (t, rnd, Req_Register body) s = handle_register env ops t rnd body s"
| "serve env ops (t, rnd, Req_Authorize base browser sign_in f) s =
     handle_authorize_get env ops t rnd base browser sign_in f s"
| "serve env ops (t, rnd, Req_Decision base browser origin form) s =
     handle_decision env ops t rnd base browser origin form s"
| "serve env ops (t, rnd, Req_Token form) s = handle_token env ops t rnd form s"
| "serve env ops (t, rnd, Req_Use bearer) s = use_token ops t bearer s"
| "serve env ops (t, rnd, Req_Start callback_url base p tenant) s =
     handle_provider_start ops t rnd callback_url base p tenant s"
| "serve env ops (t, rnd, Req_Callback exchange p f) s = handle_provider_callback ops t exchange p f s"

fun serve_all :: "oauth_env \<Rightarrow> 's store_ops \<Rightarrow> timed_request list \<Rightarrow> 's server \<Rightarrow> oauth_response list" where
  "serve_all env ops [] s = []"
| "serve_all env ops (q # qs) s =
     (let (r, s') = serve env ops q s in r # serve_all env ops qs s')"

text \<open>The random tokens of a request are new to the store and not empty.\<close>

definition fresh_tokens :: "(nat \<Rightarrow> string) \<Rightarrow> oauth_view \<Rightarrow> bool" where
  "fresh_tokens rnd v \<longleftrightarrow>
     (\<forall>r \<in> {rnd 0, rnd 1}. r \<noteq> [] \<and> ov_clients v (''zc_'' @ r) = None \<and> ov_codes v r = None \<and>
        ov_access v r = None \<and> ov_refresh v r = None \<and> ov_states v r = None)"

fun fresh_run :: "oauth_env \<Rightarrow> timed_request list \<Rightarrow> oauth_view server \<Rightarrow> bool" where
  "fresh_run env [] v \<longleftrightarrow> True"
| "fresh_run env (q # qs) v \<longleftrightarrow>
     fresh_tokens (fst (snd q)) (sv_store v) \<and> fresh_run env qs (snd (serve env spec_store q v))"

section \<open>A server on a store is a server on its view\<close>

definition view_server :: "('s \<Rightarrow> oauth_view) \<Rightarrow> 's server \<Rightarrow> oauth_view server" where
  "view_server view s = \<lparr>sv_store = view (sv_store s), sv_pending = sv_pending s, sv_vault = sv_vault s\<rparr>"

definition same_step ::
  "('s \<Rightarrow> bool) \<Rightarrow> ('s \<Rightarrow> oauth_view) \<Rightarrow> oauth_response \<times> 's server \<Rightarrow> oauth_response \<times> oauth_view server \<Rightarrow> bool"
  where
  "same_step ok view x y \<longleftrightarrow> fst x = fst y \<and> ok (sv_store (snd x)) \<and> snd y = view_server view (snd x)"

lemma view_server_simps [simp]:
  "sv_store (view_server view s) = view (sv_store s)" "sv_pending (view_server view s) = sv_pending s"
  "sv_vault (view_server view s) = sv_vault s"
  "view_server view (s\<lparr>sv_store := st\<rparr>) = (view_server view s)\<lparr>sv_store := view st\<rparr>"
  "view_server view (s\<lparr>sv_pending := p\<rparr>) = (view_server view s)\<lparr>sv_pending := p\<rparr>"
  "view_server view (s\<lparr>sv_vault := w\<rparr>) = (view_server view s)\<lparr>sv_vault := w\<rparr>"
  by (simp_all add: view_server_def)

lemma same_step_refl: "ok (sv_store s) \<Longrightarrow> same_step ok view (r, s) (r, view_server view s)"
  by (simp add: same_step_def)

lemma same_step_new:
  "ok st \<Longrightarrow> same_step ok view (r, s\<lparr>sv_store := st\<rparr>) (r, (view_server view s)\<lparr>sv_store := view st\<rparr>)"
  by (simp add: same_step_def)

lemma with_store_same:
  assumes "stores ok view r q"
    and "\<And>st. ok st \<Longrightarrow> same_step ok view (k (s\<lparr>sv_store := st\<rparr>)) (k' ((view_server view s)\<lparr>sv_store := view st\<rparr>))"
  shows "same_step ok view (with_store r s k) (with_store q (view_server view s) k')"
  using assms by (auto simp: stores_def with_store_def)

context oauth_store
begin

lemma validate_same: "ok st \<Longrightarrow> validate_authorize env ops st p = validate_authorize env spec_store (view st) p"
  by (simp add: validate_authorize_def get_client) (simp add: spec_store_def)

lemma client_name_same: "ok st \<Longrightarrow> client_name_of ops st p = client_name_of spec_store (view st) p"
  by (simp add: client_name_of_def get_client) (simp add: spec_store_def)

lemma register_same:
  assumes "ok (sv_store s)" and "fresh_tokens rnd (view (sv_store s))"
  shows "same_step ok view (handle_register env ops t rnd body s)
    (handle_register env spec_store t rnd body (view_server view s))"
  using assms
  by (auto simp: handle_register_def Let_def fresh_tokens_def same_step_refl
      intro!: with_store_same create_client same_step_new split: option.splits list.splits)

lemma authorize_same:
  assumes "ok (sv_store s)"
  shows "same_step ok view (handle_authorize_get env ops t rnd base browser sign_in f s)
    (handle_authorize_get env spec_store t rnd base browser sign_in f (view_server view s))"
  using assms
  by (auto simp: handle_authorize_get_def Let_def validate_same client_name_same same_step_def
      split: option.splits resolved.splits)

lemma decision_tenant_same:
  "decision_tenant env t base browser origin f p n (view_server view s) =
     apsnd (view_server view) (decision_tenant env t base browser origin f p n s) \<and>
   sv_store (snd (decision_tenant env t base browser origin f p n s)) = sv_store s"
  by (simp add: decision_tenant_def Let_def split: option.splits resolved.splits)

lemma decision_same:
  assumes ok: "ok (sv_store s)" and fresh: "fresh_tokens rnd (view (sv_store s))"
  shows "same_step ok view (handle_decision env ops t rnd base browser origin form s)
    (handle_decision env spec_store t rnd base browser origin form (view_server view s))"
proof (cases "\<exists>f. form = Some f \<and> validate_authorize env ops (sv_store s) (read_params f) = None")
  case True
  then obtain f where f: "form = Some f" "validate_authorize env ops (sv_store s) (read_params f) = None" by auto
  let ?p = "read_params f"
  obtain r s1 where d: "decision_tenant env t base browser origin f ?p (client_name_of ops (sv_store s) ?p) s = (r, s1)"
    by fastforce
  from decision_tenant_same [of env t base browser origin f ?p "client_name_of ops (sv_store s) ?p" s] d
  have dv: "decision_tenant env t base browser origin f ?p (client_name_of ops (sv_store s) ?p) (view_server view s) =
      (r, view_server view s1)" and st: "sv_store s1 = sv_store s"
    by simp_all
  from f ok d dv st fresh show ?thesis
    by (cases r)
      (auto simp: handle_decision_def Let_def validate_same client_name_same fresh_tokens_def same_step_refl
        intro!: with_store_same create_code same_step_new)
next
  case False
  with ok show ?thesis
    by (auto simp: handle_decision_def Let_def validate_same same_step_refl split: option.splits)
qed

lemma exchange_same:
  assumes ok: "ok (sv_store s)" and fresh: "fresh_tokens rnd (view (sv_store s))"
  shows "same_step ok view (exchange_code env ops t rnd f s) (exchange_code env spec_store t rnd f (view_server view s))"
proof -
  let ?code = "or_empty (f ''code'')"
  obtain found st1 where c: "so_consume_code ops (t 0) ?code (sv_store s) = (found, st1)" by fastforce
  from consume_code [OF ok, of "t 0" ?code] c
  have st1: "ok st1" and cv: "so_consume_code spec_store (t 0) ?code (view (sv_store s)) = (found, view st1)"
    by (simp_all add: yields_def)
  have "view st1 = (view (sv_store s))\<lparr>ov_codes := (ov_codes (view (sv_store s)))(?code := None)\<rparr>"
    using cv by (simp add: spec_store_def)
  with fresh have new: "ov_access (view st1) (rnd 0) = None" "ov_refresh (view st1) (rnd 1) = None" "rnd 0 \<noteq> []"
    by (simp_all add: fresh_tokens_def)
  have gc: "so_get_client ops i st1 = so_get_client spec_store i (view st1)" for i
    using get_client [OF st1] by (simp add: spec_store_def)
  let ?s1 = "s\<lparr>sv_store := st1\<rparr>"
  have grant: "same_step ok view
      (with_store (so_create_token ops tok st1) ?s1 (\<lambda>s2. (r, s2)))
      (with_store (so_create_token spec_store tok (view st1)) (view_server view ?s1) (\<lambda>s2. (r, s2)))"
    if "st_access tok = rnd 0" "st_refresh tok = rnd 1" for tok r
    by (rule with_store_same [OF create_token]) (use that st1 new in \<open>auto simp: new_token_def intro: same_step_new\<close>)
  show ?thesis
    using c cv st1 grant
    by (auto simp: exchange_code_def Let_def gc same_step_new split: option.splits)
qed

lemma refresh_same:
  assumes ok: "ok (sv_store s)" and fresh: "fresh_tokens rnd (view (sv_store s))"
  shows "same_step ok view (refresh_token ops t rnd f s) (refresh_token spec_store t rnd f (view_server view s))"
proof -
  have "so_by_refresh ops r (sv_store s) = so_by_refresh spec_store r (view (sv_store s))" for r
    using by_refresh [OF ok] by (simp add: spec_store_def)
  with ok fresh show ?thesis
    by (auto simp: refresh_token_def Let_def fresh_tokens_def same_step_refl split: option.splits
        intro!: with_store_same rotate same_step_new)
qed

lemma token_same:
  assumes "ok (sv_store s)" and "fresh_tokens rnd (view (sv_store s))"
  shows "same_step ok view (handle_token env ops t rnd form s) (handle_token env spec_store t rnd form (view_server view s))"
  using assms exchange_same refresh_same
  by (auto simp: handle_token_def Let_def same_step_refl split: option.splits)

lemma start_same:
  assumes "ok (sv_store s)" and "fresh_tokens rnd (view (sv_store s))"
  shows "same_step ok view (handle_provider_start ops t rnd cb base p tenant s)
    (handle_provider_start spec_store t rnd cb base p tenant (view_server view s))"
  using assms
  by (auto simp: handle_provider_start_def Let_def fresh_tokens_def same_step_refl split: option.splits
      intro!: with_store_same create_state same_step_new)

lemma callback_same:
  assumes ok: "ok (sv_store s)"
  shows "same_step ok view (handle_provider_callback ops t ex p f s)
    (handle_provider_callback spec_store t ex p f (view_server view s))"
proof -
  let ?st = "or_empty (f ''state'')"
  obtain found st1 where c: "so_consume_state ops (t 0) ?st (sv_store s) = (found, st1)" by fastforce
  from consume_state [OF ok, of "t 0" ?st] c
  have "ok st1" "so_consume_state spec_store (t 0) ?st (view (sv_store s)) = (found, view st1)"
    by (simp_all add: yields_def)
  with c ok show ?thesis
    by (auto simp: handle_provider_callback_def Let_def same_step_def split: option.splits)
qed

lemma use_same:
  assumes "ok (sv_store s)"
  shows "same_step ok view (use_token ops t bearer s) (use_token spec_store t bearer (view_server view s))"
  using assms by (simp add: use_token_def same_step_def resolve)

lemma serve_same:
  assumes "ok (sv_store s)" and "fresh_tokens (fst (snd q)) (view (sv_store s))"
  shows "same_step ok view (serve env ops q s) (serve env spec_store q (view_server view s))"
proof -
  obtain t rnd r where q: "q = (t, rnd, r)" by (cases q)
  with assms have "fresh_tokens rnd (view (sv_store s))" by simp
  with assms(1) show ?thesis
    unfolding q
    by (cases r)
      (auto intro: register_same authorize_same decision_same token_same start_same callback_same use_same)
qed

lemma serve_all_same:
  assumes "ok (sv_store s)" and "fresh_run env qs (view_server view s)"
  shows "serve_all env ops qs s = serve_all env spec_store qs (view_server view s)"
  using assms
proof (induction qs arbitrary: s)
  case (Cons q qs)
  then have fresh: "fresh_tokens (fst (snd q)) (view (sv_store s))" by simp
  obtain r s1 where q: "serve env ops q s = (r, s1)" by fastforce
  from serve_same [OF Cons.prems(1) fresh, of env] q
  have "serve env spec_store q (view_server view s) = (r, view_server view s1)" and "ok (sv_store s1)"
    by (auto simp: same_step_def prod_eq_iff)
  with Cons q show ?case by simp
qed simp

end

section \<open>The two stores serve alike\<close>

definition start_server :: "'s \<Rightarrow> 's server" where
  "start_server st = \<lparr>sv_store = st, sv_pending = [], sv_vault = (\<lambda>_ _. None)\<rparr>"

lemma empty_stores:
  "memory_inv empty_memory_oauth" "sqlite_inv empty_sqlite_oauth"
  "memory_view empty_memory_oauth = sqlite_view empty_sqlite_oauth"
  by (simp_all add: memory_inv_def empty_memory_oauth_def sqlite_inv_def empty_sqlite_oauth_def
      memory_view_def sqlite_view_def mem_by_refresh_def fun_eq_iff)

text \<open>C5. The store in memory and the store in SQLite are interchangeable: from empty stores, any
  sequence of requests whose random tokens are new gets the same responses from both.\<close>

theorem oauth_stores_agree:
  assumes "fresh_run env qs (view_server sqlite_view (start_server empty_sqlite_oauth))"
  shows "serve_all env memory_store qs (start_server empty_memory_oauth) =
    serve_all env sqlite_store qs (start_server empty_sqlite_oauth)"
proof -
  have v: "view_server memory_view (start_server empty_memory_oauth) =
      view_server sqlite_view (start_server empty_sqlite_oauth)"
    by (simp add: view_server_def start_server_def empty_stores)
  have "serve_all env memory_store qs (start_server empty_memory_oauth) =
      serve_all env spec_store qs (view_server memory_view (start_server empty_memory_oauth))"
    by (rule memory.serve_all_same)
      (simp add: start_server_def empty_stores, simp only: v assms)
  also have "\<dots> = serve_all env sqlite_store qs (start_server empty_sqlite_oauth)"
    unfolding v
    by (rule sqlite.serve_all_same [symmetric])
      (simp add: start_server_def empty_stores, rule assms)
  finally show ?thesis .
qed

section \<open>Authorization codes\<close>

definition code_of :: "params \<Rightarrow> string" where
  "code_of f = or_empty (f ''code'')"

text \<open>What the abstract server does with a code.\<close>

lemma spec_exchange_code_gone:
  "ov_codes (sv_store (snd (exchange_code env spec_store t rnd f v))) (code_of f) = None"
  by (simp add: exchange_code_def spec_store_def code_of_def with_store_def Let_def split: option.splits)

lemma spec_exchange_unknown:
  "ov_codes (sv_store v) (code_of g) = None \<Longrightarrow>
    fst (exchange_code env spec_store t rnd g v) = Json_Error 400 ''invalid_grant'' ''code invalid or expired''"
  by (simp add: exchange_code_def spec_store_def code_of_def still_valid_def Let_def)

lemma spec_exchange_grants:
  assumes "exchange_code env spec_store t rnd f v = (Token_Response a r sc, v1)"
  shows "\<exists>c. ov_codes (sv_store v) (code_of f) = Some c \<and> t 0 \<le> ac_expires c \<and>
    ac_redirect c = or_empty (f ''redirect_uri'') \<and>
    env_sha env (or_empty (f ''code_verifier'')) = ac_challenge c \<and> sc = ac_scope c \<and> a = rnd 0 \<and> r = rnd 1 \<and>
    (\<exists>tok. ov_access (sv_store v1) a = Some tok \<and> ov_refresh (sv_store v1) r = Some tok \<and>
      st_tenant tok = ac_tenant c \<and> st_client tok = ac_client c \<and> st_scope tok = ac_scope c \<and>
      st_expires tok = t 1 + access_ttl)"
  using assms
  by (auto simp: exchange_code_def spec_store_def code_of_def still_valid_def Let_def with_store_def
      pkce_matches_def not_less split: option.splits if_splits)

lemma handle_token_code:
  "f ''grant_type'' = Some ''authorization_code'' \<Longrightarrow> handle_token env ops t rnd (Some f) s = exchange_code env ops t rnd f s"
  by (simp add: handle_token_def or_empty_def)

context oauth_store
begin

lemma code_once:
  assumes ok: "ok (sv_store s)" and fresh: "fresh_tokens rnd (view (sv_store s))"
    and fresh2: "fresh_tokens rnd2 (view (sv_store (snd (exchange_code env ops t rnd f s))))"
    and "code_of g = code_of f"
  shows "fst (exchange_code env ops t2 rnd2 g (snd (exchange_code env ops t rnd f s))) =
    Json_Error 400 ''invalid_grant'' ''code invalid or expired''"
proof -
  obtain r s1 where one: "exchange_code env ops t rnd f s = (r, s1)" by fastforce
  from exchange_same [OF ok fresh, of env t f] one
  have v1: "snd (exchange_code env spec_store t rnd f (view_server view s)) = view_server view s1"
    and ok1: "ok (sv_store s1)"
    by (auto simp: same_step_def)
  have "ov_codes (view (sv_store s1)) (code_of g) = None"
    using spec_exchange_code_gone [of env t rnd f "view_server view s"] assms(4) v1 by simp
  with exchange_same [OF ok1, of rnd2 env t2 g] fresh2 one spec_exchange_unknown [of "view_server view s1" g env t2 rnd2]
  show ?thesis by (simp add: same_step_def)
qed

lemma code_grant:
  assumes ok: "ok (sv_store s)" and fresh: "fresh_tokens rnd (view (sv_store s))"
    and run: "exchange_code env ops t rnd f s = (Token_Response a r sc, s1)"
  shows "\<exists>c. fst (so_consume_code ops (t 0) (code_of f) (sv_store s)) = Some c \<and>
    ac_redirect c = or_empty (f ''redirect_uri'') \<and>
    env_sha env (or_empty (f ''code_verifier'')) = ac_challenge c \<and> sc = ac_scope c \<and>
    (\<forall>now. fst (use_token ops now a s1) =
      (if t 1 + access_ttl < now 0 then Refused
       else Granted \<lparr>ag_tenant = ac_tenant c, ag_client = ac_client c,
              ag_client_name = (case so_by_refresh ops r (sv_store s1) of None \<Rightarrow> [] | Some k \<Rightarrow> st_client_name k),
              ag_scope = sc, ag_expires = t 1 + access_ttl\<rparr>))"
proof -
  from exchange_same [OF ok fresh, of env t f] run
  have v: "exchange_code env spec_store t rnd f (view_server view s) = (Token_Response a r sc, view_server view s1)"
    and ok1: "ok (sv_store s1)"
    by (auto simp: same_step_def prod_eq_iff)
  from spec_exchange_grants [OF v] obtain c tok where
    c: "ov_codes (view (sv_store s)) (code_of f) = Some c" "t 0 \<le> ac_expires c"
      "ac_redirect c = or_empty (f ''redirect_uri'')" "env_sha env (or_empty (f ''code_verifier'')) = ac_challenge c"
      "sc = ac_scope c"
    and tok: "ov_access (view (sv_store s1)) a = Some tok" "ov_refresh (view (sv_store s1)) r = Some tok"
      "st_tenant tok = ac_tenant c" "st_client tok = ac_client c" "st_scope tok = ac_scope c"
      "st_expires tok = t 1 + access_ttl" by auto
  have "fst (so_consume_code ops (t 0) (code_of f) (sv_store s)) = Some c"
    using consume_code [OF ok, of "t 0" "code_of f"] c(1,2) by (auto simp: yields_def spec_store_def still_valid_def)
  moreover have "fst (use_token ops now a s1) =
      (if t 1 + access_ttl < now 0 then Refused
       else Granted \<lparr>ag_tenant = ac_tenant c, ag_client = ac_client c,
              ag_client_name = (case so_by_refresh ops r (sv_store s1) of None \<Rightarrow> [] | Some k \<Rightarrow> st_client_name k),
              ag_scope = sc, ag_expires = t 1 + access_ttl\<rparr>)" for now
    using tok c(5) by (simp add: use_token_def resolve [OF ok1] by_refresh [OF ok1] spec_store_def still_valid_def grant_of_def)
  ultimately show ?thesis using c(3-5) by blast
qed

end

text \<open>C6. An authorization code works once: whatever came of the first exchange, a second one with the
  same code is refused, by either store.\<close>

theorem code_works_once:
  assumes "sqlite_inv (sv_store s)" and "memory_inv (sv_store m)"
    and "fresh_tokens rnd (sqlite_view (sv_store s))" and "fresh_tokens rnd (memory_view (sv_store m))"
    and "fresh_tokens rnd2 (sqlite_view (sv_store (snd (handle_token env sqlite_store t rnd (Some f) s))))"
    and "fresh_tokens rnd2 (memory_view (sv_store (snd (handle_token env memory_store t rnd (Some f) m))))"
    and "f ''grant_type'' = Some ''authorization_code''" and "g ''grant_type'' = Some ''authorization_code''"
    and "code_of g = code_of f"
  shows "fst (handle_token env sqlite_store t2 rnd2 (Some g) (snd (handle_token env sqlite_store t rnd (Some f) s))) =
      Json_Error 400 ''invalid_grant'' ''code invalid or expired'' \<and>
    fst (handle_token env memory_store t2 rnd2 (Some g) (snd (handle_token env memory_store t rnd (Some f) m))) =
      Json_Error 400 ''invalid_grant'' ''code invalid or expired''"
  using assms unfolding handle_token_code [of f, OF assms(7)] handle_token_code [of g, OF assms(8)]
  by (auto intro: sqlite.code_once memory.code_once)

section \<open>Refresh tokens\<close>

lemma spec_refresh_rotates:
  assumes "view_ok (sv_store v)" and "ov_refresh (sv_store v) (or_empty (f ''refresh_token'')) = Some old"
    and "ov_access (sv_store v) (rnd 0) = None"
  shows "fst (refresh_token spec_store t rnd f v) =
      Token_Response (rnd 0) (or_empty (f ''refresh_token'')) (st_scope old)"
    and "ov_access (sv_store (snd (refresh_token spec_store t rnd f v))) (st_access old) = None"
    and "ov_access (sv_store (snd (refresh_token spec_store t rnd f v))) (rnd 0) =
      Some (old\<lparr>st_access := rnd 0, st_expires := t 0 + access_ttl\<rparr>)"
proof -
  from assms(1,2) have "ov_access (sv_store v) (st_access old) = Some old" by (auto simp: view_ok_def)
  with assms(3) have "st_access old \<noteq> rnd 0" by auto
  with assms(2) show "fst (refresh_token spec_store t rnd f v) =
      Token_Response (rnd 0) (or_empty (f ''refresh_token'')) (st_scope old)"
    "ov_access (sv_store (snd (refresh_token spec_store t rnd f v))) (st_access old) = None"
    "ov_access (sv_store (snd (refresh_token spec_store t rnd f v))) (rnd 0) =
      Some (old\<lparr>st_access := rnd 0, st_expires := t 0 + access_ttl\<rparr>)"
    by (simp_all add: refresh_token_def spec_store_def with_store_def spec_rotate_def Let_def)
qed

context oauth_store
begin

lemma refresh_rotates:
  assumes ok: "ok (sv_store s)" and fresh: "fresh_tokens rnd (view (sv_store s))"
    and old: "so_by_refresh ops (or_empty (f ''refresh_token'')) (sv_store s) = Some old"
    and run: "refresh_token ops t rnd f s = (r, s1)"
  shows "r = Token_Response (rnd 0) (or_empty (f ''refresh_token'')) (st_scope old)"
    and "fst (use_token ops now (st_access old) s1) = Refused"
    and "fst (use_token ops now (rnd 0) s1) =
      (if t 0 + access_ttl < now 0 then Refused else Granted ((grant_of old)\<lparr>ag_expires := t 0 + access_ttl\<rparr>))"
proof -
  from old have v: "ov_refresh (view (sv_store s)) (or_empty (f ''refresh_token'')) = Some old"
    by (simp add: by_refresh [OF ok])
  from fresh have "ov_access (view (sv_store s)) (rnd 0) = None" by (simp add: fresh_tokens_def)
  with spec_refresh_rotates [of "view_server view s" f old rnd t] consistent [OF ok] v
  have spec: "fst (refresh_token spec_store t rnd f (view_server view s)) =
      Token_Response (rnd 0) (or_empty (f ''refresh_token'')) (st_scope old)"
    "ov_access (sv_store (snd (refresh_token spec_store t rnd f (view_server view s)))) (st_access old) = None"
    "ov_access (sv_store (snd (refresh_token spec_store t rnd f (view_server view s)))) (rnd 0) =
      Some (old\<lparr>st_access := rnd 0, st_expires := t 0 + access_ttl\<rparr>)"
    by simp_all
  from refresh_same [OF ok fresh, of t f] run
  have same: "fst (refresh_token spec_store t rnd f (view_server view s)) = r"
    "snd (refresh_token spec_store t rnd f (view_server view s)) = view_server view s1" and ok1: "ok (sv_store s1)"
    by (auto simp: same_step_def)
  from spec(1) same(1) show "r = Token_Response (rnd 0) (or_empty (f ''refresh_token'')) (st_scope old)" by simp
  from spec(2,3) same(2)
  show "fst (use_token ops now (st_access old) s1) = Refused"
    and "fst (use_token ops now (rnd 0) s1) =
      (if t 0 + access_ttl < now 0 then Refused else Granted ((grant_of old)\<lparr>ag_expires := t 0 + access_ttl\<rparr>))"
    by (simp_all add: use_token_def resolve [OF ok1] spec_store_def still_valid_def grant_of_def)
qed

end

text \<open>
  Refreshing rotates the access token: the old one stops working at once, the new one stands for
  the same tenant, client and scope, and the refresh token stays; this holds for the store in memory
  too, whose two indexes must agree for it.\<close>

theorem refresh_rotates_access:
  assumes "memory_inv (sv_store s)" and "fresh_tokens rnd (memory_view (sv_store s))"
    and "f ''grant_type'' = Some ''refresh_token''"
    and "mem_by_refresh (or_empty (f ''refresh_token'')) (sv_store s) = Some old"
    and "handle_token env memory_store t rnd (Some f) s = (r, s1)"
  shows "r = Token_Response (rnd 0) (or_empty (f ''refresh_token'')) (st_scope old) \<and>
    fst (use_token memory_store now (st_access old) s1) = Refused \<and>
    (now 0 \<le> t 0 + access_ttl \<longrightarrow>
      fst (use_token memory_store now (rnd 0) s1) = Granted ((grant_of old)\<lparr>ag_expires := t 0 + access_ttl\<rparr>))"
proof -
  have "refresh_token memory_store t rnd f s = (r, s1)"
    using assms(3,5) by (simp add: handle_token_def or_empty_def)
  moreover have "so_by_refresh memory_store (or_empty (f ''refresh_token'')) (sv_store s) = Some old"
    using assms(4) by (simp add: memory_store_def)
  ultimately show ?thesis
    using memory.refresh_rotates [OF assms(1,2)] by simp
qed

lemma refresh_needs_token:
  assumes "refresh_token ops t rnd f s = (Token_Response a r sc, s1)"
  shows "\<exists>old. so_by_refresh ops (or_empty (f ''refresh_token'')) (sv_store s) = Some old \<and> a = rnd 0 \<and>
    r = or_empty (f ''refresh_token'') \<and> sc = st_scope old"
  using assms by (auto simp: refresh_token_def Let_def with_store_def split: option.splits sum.splits)

text \<open>C7. A token is only issued for a consent. When the token endpoint over the SQLite store returns a token, then either the request was a code
  exchange that found the code unexpired, for the redirect URI it was issued for, with a verifier that hashes to its
  challenge, and the access token stands for the tenant, client and scope of that consent; or it was a refresh with
  a refresh token of the store, and the access token stands for the tenant, client and scope of that, in place of the old
  access token. Each time for one hour.\<close>

theorem token_needs_consent:
  assumes "sqlite_inv (sv_store s)" and "fresh_tokens rnd (sqlite_view (sv_store s))"
    and "handle_token env sqlite_store t rnd (Some f) s = (Token_Response a r sc, s1)"
  shows "(f ''grant_type'' = Some ''authorization_code'' \<and>
      (\<exists>c. fst (so_consume_code sqlite_store (t 0) (code_of f) (sv_store s)) = Some c \<and>
        ac_redirect c = or_empty (f ''redirect_uri'') \<and>
        env_sha env (or_empty (f ''code_verifier'')) = ac_challenge c \<and> sc = ac_scope c \<and>
        (\<forall>now. fst (use_token sqlite_store now a s1) =
          (if t 1 + access_ttl < now 0 then Refused
           else Granted \<lparr>ag_tenant = ac_tenant c, ag_client = ac_client c,
                  ag_client_name = (case so_by_refresh sqlite_store r (sv_store s1) of
                                      None \<Rightarrow> [] | Some k \<Rightarrow> st_client_name k),
                  ag_scope = sc, ag_expires = t 1 + access_ttl\<rparr>)))) \<or>
    (f ''grant_type'' = Some ''refresh_token'' \<and>
      (\<exists>old. so_by_refresh sqlite_store (or_empty (f ''refresh_token'')) (sv_store s) = Some old \<and>
        r = or_empty (f ''refresh_token'') \<and> sc = st_scope old \<and>
        (\<forall>now. fst (use_token sqlite_store now (st_access old) s1) = Refused \<and>
          fst (use_token sqlite_store now a s1) =
            (if t 0 + access_ttl < now 0 then Refused
             else Granted ((grant_of old)\<lparr>ag_expires := t 0 + access_ttl\<rparr>)))))"
proof -
  from assms(3) consider (code) "f ''grant_type'' = Some ''authorization_code''"
    | (refresh) "f ''grant_type'' = Some ''refresh_token''" "refresh_token sqlite_store t rnd f s = (Token_Response a r sc, s1)"
    by (cases "f ''grant_type''") (auto simp: handle_token_def or_empty_def Let_def split: if_splits)
  then show ?thesis
  proof cases
    case code
    with assms(3) have "exchange_code env sqlite_store t rnd f s = (Token_Response a r sc, s1)"
      by (simp only: handle_token_code)
    from sqlite.code_grant [OF assms(1,2) this] code show ?thesis by blast
  next
    case refresh
    from refresh_needs_token [OF refresh(2)] obtain old where
      old: "so_by_refresh sqlite_store (or_empty (f ''refresh_token'')) (sv_store s) = Some old"
      and a: "a = rnd 0" "r = or_empty (f ''refresh_token'')" "sc = st_scope old" by blast
    note sqlite.refresh_rotates(2,3) [OF assms(1,2) old refresh(2)]
    with refresh(1) old a show ?thesis by blast
  qed
qed

section \<open>Consent\<close>

lemma redirect_code:
  "redirect_with uri kvs = Redirect_To u l \<Longrightarrow> (k, v) \<in> set l \<Longrightarrow> (k, v) \<in> set kvs \<and> u = uri"
  by (auto simp: redirect_with_def)

text \<open>C8. A code is only issued on consent: when a decision with browser sign-in redirects with a code,
  the client and its redirect URI are registered, the user approved, and the form carried the nonce of
  a consent page shown to the same user and tenant for the same request, which had not expired and is
  now used up.\<close>

theorem code_needs_browser_consent:
  assumes "handle_decision env ops t rnd base (Some b) origin (Some f) s = (Redirect_To uri kvs, s1)"
    and "(''code'', k) \<in> set kvs"
  shows "\<exists>identity client consent. b = Signed_In identity \<and>
    so_get_client ops (ap_client (read_params f)) (sv_store s) = Some client \<and>
    uri = ap_redirect (read_params f) \<and> uri \<in> set (oc_redirects client) \<and> valid_redirect env (JStr uri) \<and>
    or_empty (f ''decision'') = ''approve'' \<and>
    map_of (sv_pending s) (or_empty (f ''consent'')) = Some consent \<and> t 0 < bc_expires consent \<and>
    bc_subject consent = bi_subject identity \<and> bc_tenant consent = tc_id (bi_tenant identity) \<and>
    bc_request consent = request_text base (read_params f) \<and>
    map_of (sv_pending s1) (or_empty (f ''consent'')) = None"
proof -
  let ?p = "read_params f"
  from assms(1) have v: "validate_authorize env ops (sv_store s) ?p = None"
    by (auto simp: handle_decision_def Let_def split: option.splits)
  then obtain client where c: "so_get_client ops (ap_client ?p) (sv_store s) = Some client"
    "ap_redirect ?p \<in> set (oc_redirects client)" "valid_redirect env (JStr (ap_redirect ?p))"
    by (auto simp: validate_authorize_def split: option.splits if_splits)
  obtain r s2 where d: "decision_tenant env t base (Some b) origin f ?p (client_name_of ops (sv_store s) ?p) s = (r, s2)"
    by fastforce
  obtain tenant where r: "r = Inr tenant"
    using assms(1) d v
    by (cases r) (auto simp: handle_decision_def decision_tenant_def Let_def split: resolved.splits if_splits)
  from d r obtain identity where i: "b = Signed_In identity"
    and cv: "consent_valid (t 0) base identity origin ?p (map_of (sv_pending s) (or_empty (f ''consent'')))"
    and s2: "s2 = s\<lparr>sv_pending := filter (\<lambda>kv. fst kv \<noteq> or_empty (f ''consent'')) (sv_pending s)\<rparr>"
    by (auto simp: decision_tenant_def Let_def split: resolved.splits if_splits)
  have gone: "map_of (sv_pending s2) (or_empty (f ''consent'')) = None"
    by (auto simp: s2 map_of_eq_None_iff)
  from assms(1) d v r have res: "(if or_empty (f ''decision'') \<noteq> ''approve''
       then (redirect_with (ap_redirect ?p) [(''error'', ''access_denied''), (''state'', ap_state ?p), (''iss'', base)], s2)
       else with_store
             (so_create_code ops
               \<lparr>ac_code = rnd 0, ac_client = ap_client ?p, ac_redirect = ap_redirect ?p,
                ac_challenge = ap_challenge ?p,
                ac_resource = (if ap_resource ?p = [] then canonical_resource base else ap_resource ?p),
                ac_scope = ap_scope ?p, ac_tenant = tenant, ac_expires = t 1 + code_ttl\<rparr> (sv_store s2)) s2
             (\<lambda>s2. (redirect_with (ap_redirect ?p) [(''code'', rnd 0), (''state'', ap_state ?p), (''iss'', base)], s2)))
      = (Redirect_To uri kvs, s1)"
    by (simp add: handle_decision_def Let_def)
  have approve: "or_empty (f ''decision'') = ''approve''"
  proof (rule ccontr)
    assume "\<not> ?thesis"
    with res have "redirect_with (ap_redirect ?p)
        [(''error'', ''access_denied''), (''state'', ap_state ?p), (''iss'', base)] = Redirect_To uri kvs"
      by simp
    from redirect_code [OF this assms(2)] show False by simp
  qed
  with res have "uri = ap_redirect ?p" "sv_pending s1 = sv_pending s2"
    by (auto simp: with_store_def redirect_with_def split: sum.splits)
  with c i cv gone approve show ?thesis
    by (auto simp: consent_valid_def split: option.splits)
qed

lemma length_map_set: "length (map_set k v m) \<le> Suc (length m)"
  by (simp add: map_set_def)

text \<open>
  Transient consent state is bounded: showing a consent page never leaves more than 1,000
  pending consents when there were at most as many.\<close>

theorem pending_consents_bounded:
  assumes "length (sv_pending s) \<le> 1000"
  shows "length (sv_pending (snd (handle_authorize_get env ops t rnd base browser sign_in f s))) \<le> 1000"
proof -
  have "length (remember now nonce c pending) \<le> 1000" if "length pending \<le> 1000" for now nonce c pending
  proof -
    let ?alive = "filter (\<lambda>kv. \<not> bc_expires (snd kv) \<le> now) pending"
    have "length ?alive \<le> 1000" using that by (meson length_filter_le order_trans)
    then show ?thesis
      using length_map_set [of nonce c ?alive] length_map_set [of nonce c "drop 1 ?alive"]
      by (cases "length ?alive = 1000") (auto simp: remember_def max_pending_def Let_def)
  qed
  with assms show ?thesis
    by (auto simp: handle_authorize_get_def Let_def split: option.splits resolved.splits)
qed

section \<open>Connecting a provider\<close>

lemma spec_callback_connects:
  assumes "handle_provider_callback spec_store t ex p f v = (Provider_Connected i tenant, v1)"
  shows "\<exists>entry tokens. ov_states (sv_store v) (or_empty (f ''state'')) = Some entry \<and> t 0 \<le> ps_expires entry \<and>
    i = op_id p \<and> ps_provider entry = op_id p \<and> tenant = ps_tenant entry \<and>
    or_empty (f ''tenant_id'') = tenant \<and>
    ex (or_empty (f ''code'')) (ps_redirect entry) tenant = Some tokens \<and>
    ov_states (sv_store v1) (or_empty (f ''state'')) = None \<and>
    sv_vault v1 = (sv_vault v)(tenant := (sv_vault v tenant)(vault_key p \<mapsto>
      \<lparr>ve_provider = op_id p, ve_tenant = tenant, ve_tokens = tokens, ve_stored = t 1\<rparr>))"
  using assms
  by (auto simp: handle_provider_callback_def Let_def spec_store_def still_valid_def not_less
      split: option.splits if_splits prod.splits)

text \<open>
  Provider tokens go to the tenant that asked for them: a callback that connects a provider to
  the store in SQLite found its state unexpired, for that provider and for the tenant named in the URL;
  the state is used up, so that the same callback is refused from then on, and only that tenant's
  vault is written, under the provider's key.\<close>

theorem provider_connects_its_tenant:
  assumes "sqlite_inv (sv_store s)"
    and "handle_provider_callback sqlite_store t ex p f s = (Provider_Connected i tenant, s1)"
  shows "\<exists>entry tokens. fst (so_consume_state sqlite_store (t 0) (or_empty (f ''state'')) (sv_store s)) = Some entry \<and>
    i = op_id p \<and> ps_provider entry = op_id p \<and> ps_tenant entry = tenant \<and>
    or_empty (f ''tenant_id'') = tenant \<and> t 0 \<le> ps_expires entry \<and>
    sv_vault s1 = (sv_vault s)(tenant := (sv_vault s tenant)(vault_key p \<mapsto>
      \<lparr>ve_provider = op_id p, ve_tenant = tenant, ve_tokens = tokens, ve_stored = t 1\<rparr>)) \<and>
    fst (handle_provider_callback sqlite_store t2 ex2 p2 f s1) =
      (if or_empty (f ''error'') \<noteq> [] then Json_Error 400 ''oauth_provider_error'' (or_empty (f ''error''))
       else Json_Error 400 ''invalid_oauth_state'' [])"
proof -
  let ?st = "or_empty (f ''state'')"
  from sqlite.callback_same [OF assms(1), of t ex p f] assms(2)
  have v: "handle_provider_callback spec_store t ex p f (view_server sqlite_view s) =
      (Provider_Connected i tenant, view_server sqlite_view s1)" and ok1: "sqlite_inv (sv_store s1)"
    by (auto simp: same_step_def prod_eq_iff)
  from spec_callback_connects [OF v] obtain entry tokens where
    e: "ov_states (sqlite_view (sv_store s)) ?st = Some entry" "t 0 \<le> ps_expires entry" "i = op_id p"
      "ps_provider entry = op_id p" "tenant = ps_tenant entry" "or_empty (f ''tenant_id'') = tenant"
      "ov_states (sqlite_view (sv_store s1)) ?st = None"
      "sv_vault s1 = (sv_vault s)(tenant := (sv_vault s tenant)(vault_key p \<mapsto>
        \<lparr>ve_provider = op_id p, ve_tenant = tenant, ve_tokens = tokens, ve_stored = t 1\<rparr>))"
    by auto
  have "fst (so_consume_state sqlite_store (t 0) ?st (sv_store s)) = Some entry"
    using sqlite.consume_state [OF assms(1), of "t 0" ?st] e(1,2) by (auto simp: yields_def spec_store_def still_valid_def)
  moreover have "fst (handle_provider_callback sqlite_store t2 ex2 p2 f s1) =
      (if or_empty (f ''error'') \<noteq> [] then Json_Error 400 ''oauth_provider_error'' (or_empty (f ''error''))
       else Json_Error 400 ''invalid_oauth_state'' [])"
    using sqlite.callback_same [OF ok1, of t2 ex2 p2 f] e(7)
    by (auto simp: same_step_def handle_provider_callback_def spec_store_def still_valid_def Let_def)
  ultimately show ?thesis using e by blast
qed

end
