(* ===== verification/OAuth_Examples.thy ===== *)
theory OAuth_Examples
  imports OAuth_Server
begin

text \<open>
  A small OAuth server, run step by step: a client registers, a user approves, the code is exchanged
  and the token refreshed. Each property of the OAuth server that has hypotheses is applied to it.
\<close>

definition demo_tenant :: tenant_context where
  "demo_tenant = \<lparr>tc_id = ''t'', tc_name = None, tc_plan = None, tc_quota = None\<rparr>"

definition demo_env :: oauth_env where
  "demo_env = \<lparr>env_sha = (\<lambda>s. s),
     env_url = (\<lambda>_. Some \<lparr>u_username = [], u_password = [], u_hash = [], u_protocol = ''https:'', u_host = ''h''\<rparr>),
     env_hash = (\<lambda>s. s), env_tenant = (\<lambda>h. if h = ''k'' then Some
       \<lparr>tr_tenant = demo_tenant, tr_profile = None, tr_status = None, tr_expires = None\<rparr> else None)\<rparr>"

definition demo_at :: "int \<Rightarrow> nat \<Rightarrow> int" where
  "demo_at n i = n"

definition demo_random :: "string \<Rightarrow> nat \<Rightarrow> string" where
  "demo_random r i = (if i = 0 then r @ ''0'' else r @ ''1'')"

definition demo_form :: "(string \<times> string) list \<Rightarrow> params" where
  "demo_form kvs = map_of kvs"

definition demo_asked :: "(string \<times> string) list" where
  "demo_asked = [(''client_id'', ''zc_a0''), (''redirect_uri'', ''u''), (''code_challenge'', ''v''),
     (''code_challenge_method'', ''S256'')]"

definition demo_exchange :: params where
  "demo_exchange = demo_form [(''grant_type'', ''authorization_code''), (''code'', ''b0''),
     (''redirect_uri'', ''u''), (''code_verifier'', ''v'')]"

definition demo_refresh :: params where
  "demo_refresh = demo_form [(''grant_type'', ''refresh_token''), (''refresh_token'', ''c1'')]"

definition demo_requests :: "timed_request list" where
  "demo_requests =
     [(demo_at 1, demo_random ''a'', Req_Register (Some \<lparr>rb_redirects = Some [JStr ''u''], rb_name = None\<rparr>)),
      (demo_at 2, demo_random ''b'',
        Req_Decision ''B'' None None (Some (demo_form ([(''token'', ''k''), (''decision'', ''approve'')] @ demo_asked)))),
      (demo_at 3, demo_random ''c'', Req_Token (Some demo_exchange)),
      (demo_at 4, demo_random ''d'', Req_Token (Some demo_refresh)),
      (demo_at 5, demo_random ''e'', Req_Use ''d0'')]"

definition demo_client :: oauth_client where
  "demo_client = \<lparr>oc_id = ''zc_a0'', oc_name = ''MCP client'', oc_redirects = [''u''], oc_created = 1\<rparr>"

definition demo_code :: auth_code where
  "demo_code = \<lparr>ac_code = ''b0'', ac_client = ''zc_a0'', ac_redirect = ''u'', ac_challenge = ''v'',
     ac_resource = ''B/mcp'', ac_scope = ''mcp'', ac_tenant = demo_tenant, ac_expires = 600002\<rparr>"

definition demo_token :: server_token where
  "demo_token = \<lparr>st_access = ''c0'', st_refresh = ''c1'', st_client = ''zc_a0'', st_client_name = ''MCP client'',
     st_resource = ''B/mcp'', st_scope = ''mcp'', st_tenant = demo_tenant, st_expires = 3600003, st_created = 3\<rparr>"

definition demo_sqlite :: "auth_code list \<Rightarrow> server_token list \<Rightarrow> sqlite_oauth server" where
  "demo_sqlite cs ts = start_server \<lparr>sq_clients = [demo_client], sq_codes = cs, sq_tokens = ts, sq_states = []\<rparr>"

definition demo_memory :: "auth_code list \<Rightarrow> server_token list \<Rightarrow> memory_oauth server" where
  "demo_memory cs ts = start_server
     \<lparr>mo_clients = [''zc_a0'' \<mapsto> demo_client], mo_codes = map_of (map (\<lambda>c. (ac_code c, c)) cs),
      mo_by_access = map_of (map (\<lambda>t. (st_access t, t)) ts),
      mo_by_refresh = map_of (map (\<lambda>t. (st_refresh t, st_access t)) ts), mo_states = (\<lambda>_. None)\<rparr>"

lemmas demo_oauth_data =
  demo_tenant_def demo_env_def demo_at_def demo_random_def demo_form_def demo_asked_def demo_exchange_def
  demo_refresh_def demo_client_def demo_code_def demo_token_def demo_sqlite_def demo_memory_def start_server_def

lemmas demo_oauth_ops =
  handle_register_def handle_decision_def decision_tenant_def handle_token_def exchange_code_def
  refresh_token_def use_token_def validate_authorize_def valid_redirect_def read_params_def or_empty_def
  with_store_def redirect_with_def canonical_resource_def pkce_matches_def tenant_record_active_def
  client_name_of_def access_ttl_def code_ttl_def Let_def grant_of_def js_trim_def js_space_def

lemmas demo_sqlite_ops =
  sqlite_store_def sql_create_client_def sql_get_client_def sql_create_code_def sql_consume_code_def
  sql_create_token_def sql_resolve_def sql_by_refresh_def sql_rotate_def update_where_def

lemmas demo_memory_ops =
  memory_store_def mem_create_client_def mem_get_client_def mem_create_code_def mem_consume_code_def
  mem_create_token_def mem_resolve_def mem_by_refresh_def mem_rotate_def truthy_def

lemmas demo_views =
  fresh_tokens_def sqlite_view_def memory_view_def view_server_def sqlite_inv_def memory_inv_def

section \<open>Both stores\<close>

lemma demo_fresh:
  "fresh_run demo_env demo_requests (view_server sqlite_view (start_server empty_sqlite_oauth))"
  by (simp add: demo_requests_def demo_oauth_data demo_oauth_ops demo_views spec_store_def still_valid_def
      spec_rotate_def empty_sqlite_oauth_def mem_by_refresh_def)

lemma demo_served:
  "serve_all demo_env sqlite_store demo_requests (start_server empty_sqlite_oauth) =
     [Registered ''zc_a0'' ''MCP client'' [''u''],
      Redirect_To ''u'' [(''code'', ''b0''), (''iss'', ''B'')],
      Token_Response ''c0'' ''c1'' ''mcp'', Token_Response ''d0'' ''c1'' ''mcp'',
      Granted \<lparr>ag_tenant = demo_tenant, ag_client = ''zc_a0'', ag_client_name = ''MCP client'',
        ag_scope = ''mcp'', ag_expires = 3600004\<rparr>]"
  by (simp add: demo_requests_def demo_oauth_data demo_oauth_ops demo_sqlite_ops empty_sqlite_oauth_def)

lemma oauth_stores_agree_witness:
  "serve_all demo_env memory_store demo_requests (start_server empty_memory_oauth) =
     [Registered ''zc_a0'' ''MCP client'' [''u''],
      Redirect_To ''u'' [(''code'', ''b0''), (''iss'', ''B'')],
      Token_Response ''c0'' ''c1'' ''mcp'', Token_Response ''d0'' ''c1'' ''mcp'',
      Granted \<lparr>ag_tenant = demo_tenant, ag_client = ''zc_a0'', ag_client_name = ''MCP client'',
        ag_scope = ''mcp'', ag_expires = 3600004\<rparr>]"
  using oauth_stores_agree [OF demo_fresh] demo_served by simp

section \<open>Codes and tokens\<close>

lemma demo_exchange_sqlite:
  "handle_token demo_env sqlite_store (demo_at 3) (demo_random ''c'') (Some demo_exchange) (demo_sqlite [demo_code] []) =
     (Token_Response ''c0'' ''c1'' ''mcp'', demo_sqlite [] [demo_token])"
  by (simp add: demo_oauth_data demo_oauth_ops demo_sqlite_ops)

lemma demo_exchange_memory:
  "handle_token demo_env memory_store (demo_at 3) (demo_random ''c'') (Some demo_exchange) (demo_memory [demo_code] []) =
     (Token_Response ''c0'' ''c1'' ''mcp'', demo_memory [] [demo_token])"
  by (simp add: demo_oauth_data demo_oauth_ops demo_memory_ops)

lemma demo_server_invs:
  "sqlite_inv (sv_store (demo_sqlite [demo_code] []))" "memory_inv (sv_store (demo_memory [demo_code] []))"
  "memory_inv (sv_store (demo_memory [] [demo_token]))"
  by (simp_all add: demo_views demo_oauth_data)

lemma demo_server_fresh:
  "fresh_tokens (demo_random ''c'') (sqlite_view (sv_store (demo_sqlite [demo_code] [])))"
  "fresh_tokens (demo_random ''c'') (memory_view (sv_store (demo_memory [demo_code] [])))"
  "fresh_tokens (demo_random ''d'') (sqlite_view (sv_store (demo_sqlite [] [demo_token])))"
  "fresh_tokens (demo_random ''d'') (memory_view (sv_store (demo_memory [] [demo_token])))"
  by (simp_all add: demo_views demo_oauth_data demo_memory_ops)

lemma demo_grant_types:
  "demo_exchange ''grant_type'' = Some ''authorization_code''" "demo_refresh ''grant_type'' = Some ''refresh_token''"
  by (simp_all add: demo_oauth_data)

lemma code_works_once_witness:
  "fst (handle_token demo_env sqlite_store (demo_at 4) (demo_random ''d'') (Some demo_exchange) (demo_sqlite [] [demo_token])) =
     Json_Error 400 ''invalid_grant'' ''code invalid or expired''"
  using code_works_once [of "demo_sqlite [demo_code] []" "demo_memory [demo_code] []" "demo_random ''c''"
      "demo_random ''d''" demo_env "demo_at 3" demo_exchange demo_exchange "demo_at 4"]
  by (simp add: demo_server_invs demo_server_fresh demo_exchange_sqlite demo_exchange_memory demo_grant_types)

lemma token_needs_consent_witness:
  "\<exists>c. fst (so_consume_code sqlite_store 3 ''b0'' (sv_store (demo_sqlite [demo_code] []))) = Some c \<and>
     ac_challenge c = ''v'' \<and> ac_redirect c = ''u''"
proof -
  have "demo_at 3 0 = 3" "code_of demo_exchange = ''b0''" "or_empty (demo_exchange ''redirect_uri'') = ''u''"
    "env_sha demo_env (or_empty (demo_exchange ''code_verifier'')) = ''v''"
    by (simp_all add: demo_oauth_data code_of_def or_empty_def)
  with token_needs_consent [OF demo_server_invs(1) demo_server_fresh(1) demo_exchange_sqlite] demo_grant_types(1)
  show ?thesis by auto
qed

lemma refresh_rotates_access_witness:
  "fst (use_token memory_store (demo_at 5) ''c0''
     (snd (handle_token demo_env memory_store (demo_at 4) (demo_random ''d'') (Some demo_refresh)
       (demo_memory [] [demo_token])))) = Refused"
proof -
  let ?s = "demo_memory [] [demo_token]"
  have old: "mem_by_refresh (or_empty (demo_refresh ''refresh_token'')) (sv_store ?s) = Some demo_token"
    by (simp add: demo_oauth_data or_empty_def demo_memory_ops)
  have "st_access demo_token = ''c0''" by (simp add: demo_token_def)
  with refresh_rotates_access [OF demo_server_invs(3) demo_server_fresh(4) demo_grant_types(2) old
      surjective_pairing [of "handle_token demo_env memory_store (demo_at 4) (demo_random ''d'') (Some demo_refresh) ?s"],
      of "demo_at 5"]
  show ?thesis by simp
qed

section \<open>Browser consent\<close>

definition demo_user :: browser_identity where
  "demo_user = \<lparr>bi_subject = ''s'', bi_label = ''l'', bi_tenant = demo_tenant\<rparr>"

definition demo_approval :: params where
  "demo_approval = demo_form ([(''consent'', ''n0''), (''decision'', ''approve'')] @ demo_asked)"

definition demo_shown :: "sqlite_oauth server" where
  "demo_shown = snd (handle_authorize_get demo_env sqlite_store (demo_at 1) (demo_random ''n'') ''B''
     (Some (Signed_In demo_user)) [] (demo_form demo_asked) (demo_sqlite [] []))"

lemmas demo_consent =
  demo_user_def demo_approval_def demo_shown_def handle_authorize_get_def remember_def max_pending_def
  map_set_def consent_valid_def request_text_def

lemma demo_decided:
  "\<exists>s1. handle_decision demo_env sqlite_store (demo_at 2) (demo_random ''b'') ''B'' (Some (Signed_In demo_user)) None
     (Some demo_approval) demo_shown = (Redirect_To ''u'' [(''code'', ''b0''), (''iss'', ''B'')], s1)"
  by (simp add: demo_consent demo_oauth_data demo_oauth_ops demo_sqlite_ops)

lemma code_needs_browser_consent_witness:
  "\<exists>consent. map_of (sv_pending demo_shown) ''n0'' = Some consent \<and> bc_subject consent = ''s''"
proof -
  from demo_decided obtain s1 where
    d: "handle_decision demo_env sqlite_store (demo_at 2) (demo_random ''b'') ''B'' (Some (Signed_In demo_user)) None
     (Some demo_approval) demo_shown = (Redirect_To ''u'' [(''code'', ''b0''), (''iss'', ''B'')], s1)" ..
  have "or_empty (demo_approval ''consent'') = ''n0''" "bi_subject demo_user = ''s''"
    by (simp_all add: demo_consent demo_oauth_data or_empty_def)
  with code_needs_browser_consent [OF d, of "''b0''"] show ?thesis by auto
qed

lemma pending_consents_bounded_witness:
  "length (sv_pending demo_shown) \<le> 1000"
  unfolding demo_shown_def
  by (rule pending_consents_bounded) (simp add: demo_sqlite_def start_server_def)

section \<open>A provider\<close>

definition demo_provider :: oauth_provider where
  "demo_provider = \<lparr>op_id = ''p'', op_url = (\<lambda>_. ''a''), op_client = ''i'', op_scopes = None, op_params = None,
     op_vault = None\<rparr>"

definition demo_started :: "sqlite_oauth server" where
  "demo_started = snd (handle_provider_start sqlite_store (demo_at 1) (demo_random ''s'') (\<lambda>_ _ _. ''u'') ''B''
     demo_provider (Some demo_tenant) (demo_sqlite [] []))"

definition demo_called :: params where
  "demo_called = demo_form [(''state'', ''s0''), (''code'', ''c''), (''tenant_id'', ''t'')]"

lemmas demo_provider_ops =
  demo_provider_def demo_started_def demo_called_def handle_provider_start_def handle_provider_callback_def
  sql_create_state_def sql_consume_state_def vault_key_def state_ttl_def

lemma demo_started_inv: "sqlite_inv (sv_store demo_started)"
  by (simp add: demo_provider_ops demo_oauth_data demo_oauth_ops demo_sqlite_ops sqlite_inv_def)

lemma demo_connected:
  "\<exists>s1. handle_provider_callback sqlite_store (demo_at 2) (\<lambda>_ _ _. Some ''k'') demo_provider demo_called demo_started =
     (Provider_Connected ''p'' ''t'', s1)"
  by (simp add: demo_provider_ops demo_oauth_data demo_oauth_ops demo_sqlite_ops)

lemma provider_connects_its_tenant_witness:
  "\<exists>entry. fst (so_consume_state sqlite_store 2 ''s0'' (sv_store demo_started)) = Some entry \<and> ps_tenant entry = ''t''"
proof -
  from demo_connected obtain s1 where
    d: "handle_provider_callback sqlite_store (demo_at 2) (\<lambda>_ _ _. Some ''k'') demo_provider demo_called demo_started =
     (Provider_Connected ''p'' ''t'', s1)" ..
  have "demo_at 2 0 = 2" "or_empty (demo_called ''state'') = ''s0''"
    by (simp_all add: demo_at_def demo_called_def demo_form_def or_empty_def)
  with provider_connects_its_tenant [OF demo_started_inv d, of "demo_at 3" "\<lambda>_ _ _. None" demo_provider]
  show ?thesis by auto
qed

end
