(* ===== verification/Tenant_Store.thy ===== *)
theory Tenant_Store
  imports OAuth_Store
begin

text \<open>
  The tenants of a unit and their credentials: the SQLite store
  (packages/mcp-chassis/src/sqliteTenantStore.ts) and the request authentication of the chassis that reads it
  (packages/mcp-chassis/src/index.ts).

  \<^item> The three tables are lists of rows. A full credential of a tenant is the hash in its row or one of its
    primary aliases; a scoped credential is an alias with a profile, which limits the tools.
  \<^item> SHA-256 is a parameter \<open>sha\<close>; random tokens are arguments. A time given as a date, a text or a number is
    the value of \<open>new Date(value).getTime()\<close>.
  \<^item> A transaction that throws is rolled back: an operation answers the error, or its result with the new tables.
\<close>

section \<open>Data\<close>

datatype tenant_status = T_Active | T_Suspended | T_Deleted

record tenant_row =
  tn_id :: string
  tn_name :: "string option"
  tn_plan :: "string option"
  tn_quota :: "js_number option"
  tn_hash :: string
  tn_status :: tenant_status
  tn_expires :: "int option"
  tn_created :: int
  tn_updated :: int

record primary_alias =
  pa_hash :: string
  pa_tenant :: string
  pa_created :: int

record scoped_alias =
  sa_hash :: string
  sa_tenant :: string
  sa_profile :: string
  sa_created :: int

record tenant_db =
  td_tenants :: "tenant_row list"
  td_primary :: "primary_alias list"
  td_scoped :: "scoped_alias list"

definition empty_tenants :: tenant_db where
  "empty_tenants = \<lparr>td_tenants = [], td_primary = [], td_scoped = []\<rparr>"

record token_record =
  tk_hash :: string
  tk_tenant :: tenant_context
  tk_profile :: "string option"
  tk_status :: "tenant_status option"
  tk_expires :: "js_number option"

datatype tenant_error = Tenant_Error string | Tenant_Constraint

definition row_to_record :: "tenant_row \<Rightarrow> string \<Rightarrow> string option \<Rightarrow> token_record" where
  "row_to_record r h profile =
     \<lparr>tk_hash = h,
      tk_tenant = \<lparr>tc_id = tn_id r, tc_name = tn_name r, tc_plan = tn_plan r, tc_quota = map_option Some (tn_quota r)\<rparr>,
      tk_profile = profile, tk_status = Some (tn_status r), tk_expires = map_option Jint (tn_expires r)\<rparr>"

section \<open>Normalizing\<close>

definition hex_digit :: "char \<Rightarrow> bool" where
  "hex_digit c = (let n = of_char c :: nat in 48 \<le> n \<and> n \<le> 57 \<or> 97 \<le> n \<and> n \<le> 102)"

definition token_hash_ok :: "string \<Rightarrow> bool" where
  "token_hash_ok h \<longleftrightarrow> length h = 64 \<and> list_all hex_digit h"

definition normalize_hash :: "string \<Rightarrow> tenant_error + string" where
  "normalize_hash h =
     (let n = map to_lower (js_trim h) in
      if token_hash_ok n then Inr n else Inl (Tenant_Error ''token hash must be a SHA-256 hex digest''))"

definition trimmed_text :: "string option \<Rightarrow> string option" where
  "trimmed_text v = (case v of None \<Rightarrow> None | Some t \<Rightarrow> if js_trim t = [] then None else Some (js_trim t))"

definition normalize_context :: "tenant_context \<Rightarrow> tenant_error + tenant_context" where
  "normalize_context t =
     (let i = js_trim (tc_id t) in
      if i = [] then Inl (Tenant_Error ''tenant id must be non-empty'')
      else Inr \<lparr>tc_id = i, tc_name = trimmed_text (tc_name t), tc_plan = trimmed_text (tc_plan t), tc_quota = tc_quota t\<rparr>)"

definition normalize_expires :: "js_number option \<Rightarrow> tenant_error + int option" where
  "normalize_expires v =
     (case v of None \<Rightarrow> Inr None
      | Some (Jint t) \<Rightarrow> Inr (Some t)
      | Some Jother \<Rightarrow> Inl (Tenant_Error ''expiresAt must be a valid date or timestamp''))"

definition normalize_profile :: "string \<Rightarrow> tenant_error + string" where
  "normalize_profile p =
     (let n = js_trim p in
      if n = [] then Inl (Tenant_Error ''credential profile must be non-empty'')
      else if 100 < length n then Inl (Tenant_Error ''credential profile must be at most 100 characters'')
      else Inr n)"

definition normalize_token :: "string \<Rightarrow> tenant_error + string" where
  "normalize_token t =
     (let n = js_trim t in
      if length n < 32 \<or> 4096 < length n
      then Inl (Tenant_Error ''reconciled credential token must be between 32 and 4096 characters'')
      else Inr n)"

section \<open>Reading\<close>

definition tenant_by_id :: "string \<Rightarrow> tenant_db \<Rightarrow> tenant_row option" where
  "tenant_by_id i db = find (\<lambda>r. tn_id r = i) (td_tenants db)"

definition find_tenant :: "string \<Rightarrow> tenant_db \<Rightarrow> token_record option" where
  "find_tenant i db =
     (if js_trim i = [] then None
      else map_option (\<lambda>r. row_to_record r (tn_hash r) None) (tenant_by_id (js_trim i) db))"

text \<open>The three statements of the lookup, in their order; an alias is joined to its tenant.\<close>

definition credential :: "string \<Rightarrow> tenant_db \<Rightarrow> token_record option" where
  "credential h db =
     (case find (\<lambda>r. tn_hash r = h) (td_tenants db) of
        Some r \<Rightarrow> Some (row_to_record r h None)
      | None \<Rightarrow>
          case Option.bind (find (\<lambda>a. pa_hash a = h) (td_primary db)) (\<lambda>a. tenant_by_id (pa_tenant a) db) of
            Some r \<Rightarrow> Some (row_to_record r h None)
          | None \<Rightarrow>
              Option.bind (find (\<lambda>a. sa_hash a = h) (td_scoped db))
                (\<lambda>a. map_option (\<lambda>r. row_to_record r h (Some (sa_profile a))) (tenant_by_id (sa_tenant a) db)))"

definition resolve_token_hash :: "string \<Rightarrow> tenant_db \<Rightarrow> tenant_error + token_record option" where
  "resolve_token_hash h db = ebind (normalize_hash h) (\<lambda>n. Inr (credential n db))"

definition tenant_snapshot :: "tenant_db \<Rightarrow> token_record list" where
  "tenant_snapshot db = map (\<lambda>r. row_to_record r (tn_hash r) None) (order_by tn_id (td_tenants db))"

section \<open>Writing\<close>

definition bound_elsewhere :: "string \<Rightarrow> token_record option \<Rightarrow> bool" where
  "bound_elsewhere i b \<longleftrightarrow> (case b of None \<Rightarrow> False | Some r \<Rightarrow> tc_id (tk_tenant r) \<noteq> i \<or> tk_profile r \<noteq> None)"

definition bound_error :: tenant_error where
  "bound_error = Tenant_Error ''token hash is already bound to another credential''"

definition insert_or_ignore :: "primary_alias \<Rightarrow> primary_alias list \<Rightarrow> primary_alias list" where
  "insert_or_ignore a as = (if list_ex (\<lambda>b. pa_hash b = pa_hash a) as then as else as @ [a])"

definition primary_after :: "string \<Rightarrow> string \<Rightarrow> bool \<Rightarrow> int \<Rightarrow> tenant_db \<Rightarrow> primary_alias list" where
  "primary_after i h preserve now db =
     (let prior = map_option tn_hash (tenant_by_id i db) in
      if prior = Some h then td_primary db
      else
        let as = (case prior of
                    Some p \<Rightarrow> if preserve then insert_or_ignore \<lparr>pa_hash = p, pa_tenant = i, pa_created = now\<rparr> (td_primary db)
                              else filter (\<lambda>a. pa_tenant a \<noteq> i) (td_primary db)
                  | None \<Rightarrow> if preserve then td_primary db else filter (\<lambda>a. pa_tenant a \<noteq> i) (td_primary db))
        in filter (\<lambda>a. \<not> (pa_tenant a = i \<and> pa_hash a = h)) as)"

definition upsert_tenant :: "tenant_row \<Rightarrow> tenant_row list \<Rightarrow> tenant_row list" where
  "upsert_tenant r rows =
     (if list_ex (\<lambda>q. tn_id q = tn_id r) rows
      then update_where (\<lambda>q. tn_id q = tn_id r) (\<lambda>q. r\<lparr>tn_created := tn_created q\<rparr>) rows
      else rows @ [r])"

definition write_record :: "token_record \<Rightarrow> bool \<Rightarrow> int \<Rightarrow> tenant_db \<Rightarrow> tenant_error + (token_record \<times> tenant_db)" where
  "write_record rec preserve now db =
     ebind (normalize_context (tk_tenant rec)) (\<lambda>t.
     ebind (normalize_hash (tk_hash rec)) (\<lambda>h.
     ebind (normalize_expires (tk_expires rec)) (\<lambda>e.
       let status = (case tk_status rec of None \<Rightarrow> T_Active | Some st \<Rightarrow> st) in
       if bound_elsewhere (tc_id t) (credential h db) then Inl bound_error
       else if list_ex (\<lambda>q. tn_id q \<noteq> tc_id t \<and> tn_hash q = h) (td_tenants db) then Inl Tenant_Constraint
       else
         Inr (\<lparr>tk_hash = h, tk_tenant = t, tk_profile = None, tk_status = Some status, tk_expires = map_option Jint e\<rparr>,
              db\<lparr>td_primary := primary_after (tc_id t) h preserve now db,
                 td_tenants := upsert_tenant
                   \<lparr>tn_id = tc_id t, tn_name = tc_name t, tn_plan = tc_plan t, tn_quota = Option.bind (tc_quota t) id,
                    tn_hash = h, tn_status = status, tn_expires = e, tn_created = now, tn_updated = now\<rparr> (td_tenants db)\<rparr>))))"

section \<open>Provisioning\<close>

record provision_input =
  pi_id :: "string option"
  pi_name :: "string option"
  pi_plan :: "string option"
  pi_quota :: "js_number option option"
  pi_tenant_id :: "string option"
  pi_tenant_name :: "string option"
  pi_tenant_plan :: "string option"
  pi_tenant_quota :: "js_number option option"
  pi_token :: "string option"
  pi_status :: "tenant_status option"
  pi_expires :: "js_number option"

definition first_some :: "'a option \<Rightarrow> 'a option \<Rightarrow> 'a option" where
  "first_some v w = (if v = None then w else v)"

definition provisioned_context :: "provision_input \<Rightarrow> nat \<Rightarrow> tenant_error + tenant_context" where
  "provisioned_context inp ordinal = normalize_context
     \<lparr>tc_id = (case first_some (pi_id inp) (pi_tenant_id inp) of None \<Rightarrow> ''tenant-'' @ nat_str ordinal | Some i \<Rightarrow> i),
      tc_name = first_some (pi_name inp) (pi_tenant_name inp),
      tc_plan = first_some (pi_plan inp) (pi_tenant_plan inp),
      tc_quota = (case pi_quota inp of Some (Some q) \<Rightarrow> Some (Some q) | _ \<Rightarrow> pi_tenant_quota inp)\<rparr>"

definition or_generated :: "string option \<Rightarrow> string \<Rightarrow> string" where
  "or_generated v gen = (case v of None \<Rightarrow> gen | Some t \<Rightarrow> if js_trim t = [] then gen else js_trim t)"

type_synonym 'a tenant_result = "tenant_error + ('a \<times> tenant_db)"

definition provision_tenant ::
  "(string \<Rightarrow> string) \<Rightarrow> provision_input \<Rightarrow> string \<Rightarrow> int \<Rightarrow> tenant_db \<Rightarrow> (string \<times> token_record) tenant_result" where
  "provision_tenant sha inp gen now db =
     ebind (provisioned_context inp (length (td_tenants db) + 1)) (\<lambda>t.
       let token = or_generated (pi_token inp) gen in
       ebind (write_record \<lparr>tk_hash = sha token, tk_tenant = t, tk_profile = None,
           tk_status = Some (case pi_status inp of None \<Rightarrow> T_Active | Some st \<Rightarrow> st), tk_expires = pi_expires inp\<rparr> True now db)
         (\<lambda>(rec, db'). Inr ((token, rec), db')))"

definition import_token_hash ::
  "string \<Rightarrow> tenant_context \<Rightarrow> tenant_status option \<Rightarrow> js_number option \<Rightarrow> int \<Rightarrow> tenant_db \<Rightarrow> token_record tenant_result" where
  "import_token_hash h t status expires now db =
     ebind (normalize_hash h) (\<lambda>n. ebind (normalize_context t) (\<lambda>t'.
       write_record \<lparr>tk_hash = n, tk_tenant = t', tk_profile = None,
         tk_status = Some (case status of None \<Rightarrow> T_Active | Some st \<Rightarrow> st), tk_expires = expires\<rparr> True now db))"

definition rotate_token ::
  "(string \<Rightarrow> string) \<Rightarrow> string \<Rightarrow> string \<Rightarrow> int \<Rightarrow> tenant_db \<Rightarrow> (string \<times> token_record) option tenant_result" where
  "rotate_token sha i gen now db =
     (case find_tenant i db of
        None \<Rightarrow> Inr (None, db)
      | Some r \<Rightarrow>
          ebind (write_record \<lparr>tk_hash = sha gen, tk_tenant = tk_tenant r, tk_profile = None, tk_status = Some T_Active,
              tk_expires = tk_expires r\<rparr> False now db)
            (\<lambda>(rec, db'). Inr (Some (gen, rec), db')))"

definition upsert_scoped :: "scoped_alias \<Rightarrow> scoped_alias list \<Rightarrow> scoped_alias list" where
  "upsert_scoped a as =
     (if list_ex (\<lambda>b. sa_tenant b = sa_tenant a \<and> sa_profile b = sa_profile a) as
      then update_where (\<lambda>b. sa_tenant b = sa_tenant a \<and> sa_profile b = sa_profile a) (\<lambda>_. a) as
      else as @ [a])"

definition provision_scoped ::
  "(string \<Rightarrow> string) \<Rightarrow> string \<Rightarrow> string \<Rightarrow> string \<Rightarrow> int \<Rightarrow> tenant_db \<Rightarrow> (string \<times> token_record) option tenant_result" where
  "provision_scoped sha i profile gen now db =
     (case find_tenant i db of
        None \<Rightarrow> Inr (None, db)
      | Some r \<Rightarrow>
          ebind (normalize_profile profile) (\<lambda>p.
            let t = tc_id (tk_tenant r); h = sha gen in
            if list_ex (\<lambda>b. sa_hash b = h \<and> \<not> (sa_tenant b = t \<and> sa_profile b = p)) (td_scoped db) then Inl Tenant_Constraint
            else Inr (Some (gen, r\<lparr>tk_hash := h, tk_profile := Some p\<rparr>),
                      db\<lparr>td_scoped := upsert_scoped \<lparr>sa_hash = h, sa_tenant = t, sa_profile = p, sa_created = now\<rparr> (td_scoped db)\<rparr>)))"

datatype ensure_outcome = Ensure_Created | Ensure_Replayed | Ensure_Conflict

definition ensure_token ::
  "(string \<Rightarrow> string) \<Rightarrow> string \<Rightarrow> string \<Rightarrow> string \<Rightarrow> int \<Rightarrow> tenant_db \<Rightarrow> (token_record \<times> ensure_outcome) option tenant_result" where
  "ensure_token sha i profile token now db =
     (case find_tenant i db of
        None \<Rightarrow> Inr (None, db)
      | Some r \<Rightarrow>
          ebind (normalize_profile profile) (\<lambda>p. ebind (normalize_token token) (\<lambda>tok.
          ebind (normalize_hash (sha tok)) (\<lambda>h.
            let t = tc_id (tk_tenant r) in
            case find (\<lambda>b. sa_tenant b = t \<and> sa_profile b = p) (td_scoped db) of
              Some b \<Rightarrow> Inr (Some (r\<lparr>tk_hash := sa_hash b, tk_profile := Some p\<rparr>,
                                   if sa_hash b = h then Ensure_Replayed else Ensure_Conflict), db)
            | None \<Rightarrow>
                if credential h db \<noteq> None then Inr (Some (r, Ensure_Conflict), db)
                else Inr (Some (r\<lparr>tk_hash := h, tk_profile := Some p\<rparr>, Ensure_Created),
                     db\<lparr>td_scoped := td_scoped db @ [\<lparr>sa_hash = h, sa_tenant = t, sa_profile = p, sa_created = now\<rparr>]\<rparr>)))))"

definition set_tenant_status ::
  "string \<Rightarrow> tenant_status \<Rightarrow> int \<Rightarrow> tenant_db \<Rightarrow> token_record option tenant_result" where
  "set_tenant_status i status now db =
     (case find_tenant i db of
        None \<Rightarrow> Inr (None, db)
      | Some r \<Rightarrow> ebind (write_record (r\<lparr>tk_status := Some status\<rparr>) True now db) (\<lambda>(rec, db'). Inr (Some rec, db')))"

definition preserve_token_hash :: "string \<Rightarrow> string \<Rightarrow> int \<Rightarrow> tenant_db \<Rightarrow> token_record option tenant_result" where
  "preserve_token_hash i h now db =
     (case find_tenant i db of
        None \<Rightarrow> Inr (None, db)
      | Some r \<Rightarrow>
          ebind (normalize_hash h) (\<lambda>n.
            if bound_elsewhere (tc_id (tk_tenant r)) (credential n db) then Inl bound_error
            else if credential n db \<noteq> None then Inr (credential n db, db)
            else Inr (Some (r\<lparr>tk_hash := n, tk_profile := None\<rparr>),
                 db\<lparr>td_primary := td_primary db @ [\<lparr>pa_hash = n, pa_tenant = tc_id (tk_tenant r), pa_created = now\<rparr>]\<rparr>)))"

section \<open>Authentication of a request\<close>

definition bearer_token :: "string option \<Rightarrow> string option" where
  "bearer_token header =
     (case header of
        None \<Rightarrow> None
      | Some v \<Rightarrow> if take 7 v = ''Bearer '' \<and> js_trim (drop 7 v) \<noteq> [] then Some (js_trim (drop 7 v)) else None)"

definition path_token :: "string option \<Rightarrow> string option" where
  "path_token v = trimmed_text v"

definition record_active :: "int \<Rightarrow> token_record \<Rightarrow> bool" where
  "record_active now r \<longleftrightarrow> (tk_status r = None \<or> tk_status r = Some T_Active) \<and>
     (case tk_expires r of None \<Rightarrow> True | Some Jother \<Rightarrow> False | Some (Jint e) \<Rightarrow> now < e)"

definition oauth_grant ::
  "(string \<Rightarrow> access_grant option) option \<Rightarrow> int \<Rightarrow> string option \<Rightarrow> (tenant_context \<times> string option) option" where
  "oauth_grant oauth now bearer =
     (case (oauth, bearer) of
        (Some look, Some t) \<Rightarrow>
          (case look t of
             Some g \<Rightarrow> if now < ag_expires g then Some (ag_tenant g, None) else None
           | None \<Rightarrow> None)
      | _ \<Rightarrow> None)"

text \<open>
  The credential a request presents: a store credential that is active, or else an unexpired access token of the
  authorization server, which \<open>oauth\<close> looks up.
\<close>

definition authenticate_tenant ::
  "(string \<Rightarrow> string) \<Rightarrow> (string \<Rightarrow> access_grant option) option \<Rightarrow> int \<Rightarrow> string option \<Rightarrow> string option \<Rightarrow> tenant_db \<Rightarrow>
     tenant_error + (tenant_context \<times> string option) option" where
  "authenticate_tenant sha oauth now header path db =
     (let bearer = bearer_token header; p = path_token path in
      if bearer \<noteq> None \<and> p \<noteq> None \<and> bearer \<noteq> p then Inr None
      else
        ebind (case first_some bearer p of None \<Rightarrow> Inr None | Some t \<Rightarrow> resolve_token_hash (sha t) db) (\<lambda>rec.
          case rec of
            Some r \<Rightarrow>
              if record_active now r then Inr (Some (tk_tenant r, trimmed_text (tk_profile r)))
              else Inr (oauth_grant oauth now bearer)
          | None \<Rightarrow> Inr (oauth_grant oauth now bearer)))"

text \<open>Routes for the full surface refuse a credential with a profile.\<close>

definition unprofiled_tenant :: "(tenant_context \<times> string option) option \<Rightarrow> tenant_context option" where
  "unprofiled_tenant v = (case v of Some (t, None) \<Rightarrow> Some t | _ \<Rightarrow> None)"

text \<open>The tools a credential may use: all without a profile, else those listed for the profile, if any.\<close>

definition tool_allowlist :: "string option \<Rightarrow> (string \<Rightarrow> string list option) \<Rightarrow> string list option" where
  "tool_allowlist profile profiles =
     (case profile of None \<Rightarrow> None | Some p \<Rightarrow> Some (case profiles p of None \<Rightarrow> [] | Some names \<Rightarrow> names))"

definition restrict_tools :: "string list option \<Rightarrow> string list \<Rightarrow> string list" where
  "restrict_tools allowed tools = (case allowed of None \<Rightarrow> tools | Some names \<Rightarrow> filter (\<lambda>n. n \<in> set names) tools)"

text \<open>The tools an MCP request gets; a full credential may be limited by the tenant's own list.\<close>

definition tools_for ::
  "string option \<Rightarrow> string list option \<Rightarrow> (string \<Rightarrow> string list option) \<Rightarrow> string list \<Rightarrow> string list" where
  "tools_for profile tenant_list profiles tools =
     restrict_tools (if profile \<noteq> None then tool_allowlist profile profiles else tenant_list) tools"

end
