(* ===== verification/Tenant_Props.thy ===== *)
theory Tenant_Props
  imports Tenant_Store
begin

text \<open>
  The tenant store as a map from token hashes to what they stand for: a tenant, and a profile where the
  credential is scoped. Every operation of the tables is an update of that map; from this follow that a
  credential keeps its meaning, what a rotation revokes and what a suspension stops.
\<close>

section \<open>The credential map\<close>

type_synonym meaning = "string \<times> string option"

definition meaning_of :: "tenant_db \<Rightarrow> string \<Rightarrow> meaning option" where
  "meaning_of db h = map_option (\<lambda>r. (tc_id (tk_tenant r), tk_profile r)) (credential h db)"

definition tenants_wf :: "tenant_db \<Rightarrow> bool" where
  "tenants_wf db \<longleftrightarrow>
     distinct (map tn_id (td_tenants db)) \<and> distinct (map tn_hash (td_tenants db)) \<and>
     list_all (\<lambda>r. token_hash_ok (tn_hash r)) (td_tenants db) \<and>
     list_all (\<lambda>a. trimmed_text (Some (sa_profile a)) = Some (sa_profile a)) (td_scoped db) \<and>
     distinct (map pa_hash (td_primary db)) \<and> distinct (map sa_hash (td_scoped db)) \<and>
     distinct (map (\<lambda>a. (sa_tenant a, sa_profile a)) (td_scoped db)) \<and>
     list_all (\<lambda>a. pa_tenant a \<in> tn_id ` set (td_tenants db) \<and> pa_hash a \<notin> tn_hash ` set (td_tenants db)) (td_primary db) \<and>
     list_all (\<lambda>a. sa_tenant a \<in> tn_id ` set (td_tenants db) \<and> sa_hash a \<notin> tn_hash ` set (td_tenants db) \<and>
       sa_hash a \<notin> pa_hash ` set (td_primary db)) (td_scoped db)"

lemma tenants_wfD:
  assumes "tenants_wf db"
  shows "distinct (map tn_id (td_tenants db))" and "distinct (map tn_hash (td_tenants db))"
    and "distinct (map pa_hash (td_primary db))" and "distinct (map sa_hash (td_scoped db))"
    and "distinct (map (\<lambda>a. (sa_tenant a, sa_profile a)) (td_scoped db))"
    and "a \<in> set (td_primary db) \<Longrightarrow> pa_tenant a \<in> tn_id ` set (td_tenants db)"
    and "a \<in> set (td_primary db) \<Longrightarrow> r \<in> set (td_tenants db) \<Longrightarrow> pa_hash a \<noteq> tn_hash r"
    and "b \<in> set (td_scoped db) \<Longrightarrow> sa_tenant b \<in> tn_id ` set (td_tenants db)"
    and "b \<in> set (td_scoped db) \<Longrightarrow> r \<in> set (td_tenants db) \<Longrightarrow> sa_hash b \<noteq> tn_hash r"
    and "b \<in> set (td_scoped db) \<Longrightarrow> a \<in> set (td_primary db) \<Longrightarrow> sa_hash b \<noteq> pa_hash a"
    and "r \<in> set (td_tenants db) \<Longrightarrow> token_hash_ok (tn_hash r)"
    and "b \<in> set (td_scoped db) \<Longrightarrow> trimmed_text (Some (sa_profile b)) = Some (sa_profile b)"
  using assms by (auto simp: tenants_wf_def list_all_iff)

lemma tenant_by_id_in: "r \<in> set (td_tenants db) \<Longrightarrow> tenants_wf db \<Longrightarrow> tenant_by_id (tn_id r) db = Some r"
  unfolding tenant_by_id_def by (rule find_unique [OF tenants_wfD(1) _ refl])

lemma row_record_meaning [simp]: "tc_id (tk_tenant (row_to_record r h p)) = tn_id r" "tk_profile (row_to_record r h p) = p"
  by (simp_all add: row_to_record_def)

text \<open>The map by the three tables.\<close>

lemma meaning_row: "tenants_wf db \<Longrightarrow> r \<in> set (td_tenants db) \<Longrightarrow> meaning_of db (tn_hash r) = Some (tn_id r, None)"
  by (simp add: meaning_of_def credential_def find_unique [where k = tn_hash] tenants_wfD)

lemma meaning_primary:
  assumes "tenants_wf db" and "a \<in> set (td_primary db)"
  shows "meaning_of db (pa_hash a) = Some (pa_tenant a, None)"
proof -
  have "find (\<lambda>r. tn_hash r = pa_hash a) (td_tenants db) = None"
    by (simp add: find_None_all tenants_wfD(7) [OF assms, THEN not_sym])
  moreover have "find (\<lambda>b. pa_hash b = pa_hash a) (td_primary db) = Some a"
    by (rule find_unique [OF tenants_wfD(3) [OF assms(1)] assms(2) refl])
  moreover from tenants_wfD(6) [OF assms] obtain r where r: "r \<in> set (td_tenants db)" "pa_tenant a = tn_id r"
    by (rule imageE)
  moreover from tenant_by_id_in [OF r(1) assms(1)] have "tenant_by_id (pa_tenant a) db = Some r" by (simp only: r(2))
  ultimately show ?thesis
    by (simp add: meaning_of_def credential_def)
qed

lemma meaning_scoped:
  assumes "tenants_wf db" and "a \<in> set (td_scoped db)"
  shows "meaning_of db (sa_hash a) = Some (sa_tenant a, Some (sa_profile a))"
proof -
  have "find (\<lambda>r. tn_hash r = sa_hash a) (td_tenants db) = None"
    by (simp add: find_None_all tenants_wfD(9) [OF assms, THEN not_sym])
  moreover have "find (\<lambda>b. pa_hash b = sa_hash a) (td_primary db) = None"
    by (simp add: find_None_all tenants_wfD(10) [OF assms, THEN not_sym])
  moreover have "find (\<lambda>b. sa_hash b = sa_hash a) (td_scoped db) = Some a"
    by (rule find_unique [OF tenants_wfD(4) [OF assms(1)] assms(2) refl])
  moreover from tenants_wfD(8) [OF assms] obtain r where r: "r \<in> set (td_tenants db)" "sa_tenant a = tn_id r"
    by (rule imageE)
  moreover from tenant_by_id_in [OF r(1) assms(1)] have "tenant_by_id (sa_tenant a) db = Some r" by (simp only: r(2))
  ultimately show ?thesis
    by (simp add: meaning_of_def credential_def)
qed

lemma meaning_cases:
  assumes "meaning_of db h = Some m"
  obtains r where "r \<in> set (td_tenants db)" "h = tn_hash r"
  | a where "a \<in> set (td_primary db)" "h = pa_hash a"
  | a where "a \<in> set (td_scoped db)" "h = sa_hash a"
  using assms by (auto simp: meaning_of_def credential_def bind_eq_Some_conv dest!: find_Some_iff_in split: option.splits)

lemma meaning_iff:
  assumes "tenants_wf db"
  shows "meaning_of db h = Some m \<longleftrightarrow>
    (\<exists>r \<in> set (td_tenants db). h = tn_hash r \<and> m = (tn_id r, None)) \<or>
    (\<exists>a \<in> set (td_primary db). h = pa_hash a \<and> m = (pa_tenant a, None)) \<or>
    (\<exists>a \<in> set (td_scoped db). h = sa_hash a \<and> m = (sa_tenant a, Some (sa_profile a)))" (is "_ \<longleftrightarrow> ?tables")
proof
  assume m: "meaning_of db h = Some m"
  then show "?tables"
    by (cases rule: meaning_cases)
      (use m in \<open>auto simp: meaning_row [OF assms] meaning_primary [OF assms] meaning_scoped [OF assms]\<close>)
qed (auto simp: meaning_row [OF assms] meaning_primary [OF assms] meaning_scoped [OF assms])

lemma credential_None: "credential h db = None \<longleftrightarrow> meaning_of db h = None"
  by (simp add: meaning_of_def)

lemma bound_elsewhere_meaning:
  "bound_elsewhere i (credential h db) \<longleftrightarrow> (\<exists>m. meaning_of db h = Some m \<and> m \<noteq> (i, None))"
  by (cases "credential h db") (auto simp: bound_elsewhere_def meaning_of_def)

section \<open>Writing a record\<close>

lemma option_ext: "(\<And>x. v = Some x \<longleftrightarrow> w = Some x) \<Longrightarrow> v = w"
  by (cases v; cases w) auto

lemma ids_of_upsert:
  "tn_id ` set (upsert_tenant r rows) = insert (tn_id r) (tn_id ` set rows)"
proof (cases "list_ex (\<lambda>q. tn_id q = tn_id r) rows")
  case True
  then have "map tn_id (upsert_tenant r rows) = map tn_id rows"
    by (simp add: upsert_tenant_def map_update_where)
  then have "set (map tn_id (upsert_tenant r rows)) = set (map tn_id rows)" by (rule arg_cong)
  moreover from True have "tn_id r \<in> tn_id ` set rows"
    by (auto simp: list_ex_iff intro: rev_image_eqI)
  ultimately show ?thesis by (simp add: insert_absorb)
qed (auto simp: upsert_tenant_def)

lemma distinct_replace:
  "distinct (map k xs) \<Longrightarrow> distinct (map f xs) \<Longrightarrow> (\<And>x. x \<in> set xs \<Longrightarrow> k x \<noteq> i \<Longrightarrow> f x \<noteq> h) \<Longrightarrow>
    distinct (map (\<lambda>x. if k x = i then h else f x) xs)"
  by (auto simp: distinct_map inj_on_def)

lemma upsert_distinct:
  assumes "distinct (map tn_id rows)" and "distinct (map tn_hash rows)"
    and "\<And>q. q \<in> set rows \<Longrightarrow> tn_id q \<noteq> tn_id r \<Longrightarrow> tn_hash q \<noteq> tn_hash r"
  shows "distinct (map tn_id (upsert_tenant r rows)) \<and> distinct (map tn_hash (upsert_tenant r rows))"
proof (cases "list_ex (\<lambda>q. tn_id q = tn_id r) rows")
  case True
  have "map tn_hash (upsert_tenant r rows) = map (\<lambda>q. if tn_id q = tn_id r then tn_hash r else tn_hash q) rows"
    using True by (simp add: upsert_tenant_def update_where_def)
  with distinct_replace [OF assms] True assms(1) show ?thesis
    by (simp add: upsert_tenant_def map_update_where)
next
  case False
  with assms show ?thesis by (fastforce simp: upsert_tenant_def list_ex_iff)
qed

lemma upsert_member:
  "q \<in> set (upsert_tenant r rows) \<Longrightarrow> tn_id q = tn_id r \<and> tn_hash q = tn_hash r \<or> q \<in> set rows \<and> tn_id q \<noteq> tn_id r"
  by (auto simp: upsert_tenant_def in_update_where list_ex_iff dest: arg_cong [where f = tn_hash] arg_cong [where f = tn_id]
      split: if_splits)

lemma upsert_has: "\<exists>q \<in> set (upsert_tenant r rows). tn_id q = tn_id r \<and> tn_hash q = tn_hash r"
proof (cases "list_ex (\<lambda>q. tn_id q = tn_id r) rows")
  case True
  then obtain q where "q \<in> set rows" "tn_id q = tn_id r" by (auto simp: list_ex_iff)
  then have "r\<lparr>tn_created := tn_created q\<rparr> \<in> set (upsert_tenant r rows)"
    using True by (auto simp: upsert_tenant_def in_update_where intro!: bexI [of _ q])
  then show ?thesis by (rule bexI [rotated]) simp
qed (simp add: upsert_tenant_def)

lemma upsert_keeps: "q \<in> set rows \<Longrightarrow> tn_id q \<noteq> tn_id r \<Longrightarrow> q \<in> set (upsert_tenant r rows)"
  by (force simp: upsert_tenant_def in_update_where)

text \<open>The primary aliases after a write.\<close>

lemma primary_after_member:
  assumes "a \<in> set (primary_after i h preserve now db)"
  shows "a \<in> set (td_primary db) \<or>
    preserve \<and> pa_tenant a = i \<and> (\<exists>r. tenant_by_id i db = Some r \<and> pa_hash a = tn_hash r \<and> tn_hash r \<noteq> h)"
  using assms by (auto simp: primary_after_def insert_or_ignore_def Let_def split: option.splits if_splits)

lemma primary_after_not:
  "a \<in> set (primary_after i h preserve now db) \<Longrightarrow> (\<exists>r. tenant_by_id i db = Some r \<and> tn_hash r = h) \<or> \<not> (pa_tenant a = i \<and> pa_hash a = h)"
  by (auto simp: primary_after_def Let_def split: if_splits)

lemma primary_after_distinct:
  "distinct (map pa_hash (td_primary db)) \<Longrightarrow> distinct (map pa_hash (primary_after i h preserve now db))"
  by (auto simp: primary_after_def insert_or_ignore_def Let_def list_ex_iff intro!: distinct_map_filter split: option.splits)

lemma write_record_inv:
  assumes "write_record rec preserve now db = Inr (r, db')"
  obtains t h e row where "normalize_context (tk_tenant rec) = Inr t" and "normalize_hash (tk_hash rec) = Inr h"
    and "\<not> bound_elsewhere (tc_id t) (credential h db)"
    and "db' = db\<lparr>td_primary := primary_after (tc_id t) h preserve now db, td_tenants := upsert_tenant row (td_tenants db)\<rparr>"
    and "tn_id row = tc_id t" and "tn_hash row = h"
    and "tn_status row = (case tk_status rec of None \<Rightarrow> T_Active | Some st \<Rightarrow> st)"
    and "r = \<lparr>tk_hash = h, tk_tenant = t, tk_profile = None, tk_status = Some (tn_status row), tk_expires = map_option Jint e\<rparr>"
proof -
  from assms obtain t h e where *: "normalize_context (tk_tenant rec) = Inr t" "normalize_hash (tk_hash rec) = Inr h"
    "normalize_expires (tk_expires rec) = Inr e"
    by (auto simp: write_record_def err_simps)
  let ?row = "\<lparr>tn_id = tc_id t, tn_name = tc_name t, tn_plan = tc_plan t, tn_quota = Option.bind (tc_quota t) id,
    tn_hash = h, tn_status = (case tk_status rec of None \<Rightarrow> T_Active | Some st \<Rightarrow> st), tn_expires = e, tn_created = now,
    tn_updated = now\<rparr>"
  show thesis
    by (rule that [of t h ?row e]) (use assms * in \<open>auto simp: write_record_def Let_def split: if_splits\<close>)
qed

definition revoke :: "meaning \<Rightarrow> (string \<Rightarrow> meaning option) \<Rightarrow> string \<Rightarrow> meaning option" where
  "revoke m f h = (if f h = Some m then None else f h)"

lemma revoke_iff: "revoke v f h = Some m \<longleftrightarrow> f h = Some m \<and> m \<noteq> v"
  by (auto simp: revoke_def)

text \<open>A write of the hash \<open>h\<close> for the tenant \<open>i\<close> that was not refused.\<close>

definition tenant_write :: "tenant_db \<Rightarrow> string \<Rightarrow> string \<Rightarrow> bool \<Rightarrow> int \<Rightarrow> tenant_row \<Rightarrow> tenant_db \<Rightarrow> bool" where
  "tenant_write db i h preserve now row db' \<longleftrightarrow>
     tenants_wf db \<and> token_hash_ok h \<and> \<not> bound_elsewhere i (credential h db) \<and> tn_id row = i \<and> tn_hash row = h \<and>
     db' = db\<lparr>td_primary := primary_after i h preserve now db, td_tenants := upsert_tenant row (td_tenants db)\<rparr>"

lemma tenant_writeD:
  assumes "tenant_write db i h preserve now row db'"
  shows "tenants_wf db" and "meaning_of db h = Some m \<Longrightarrow> m = (i, None)" and "tn_id row = i" and "tn_hash row = h"
    and "td_tenants db' = upsert_tenant row (td_tenants db)" and "td_primary db' = primary_after i h preserve now db"
    and "td_scoped db' = td_scoped db" and "token_hash_ok h"
  using assms by (auto simp: tenant_write_def bound_elsewhere_meaning)

lemma prior_row: "tenant_by_id i db = Some r \<Longrightarrow> r \<in> set (td_tenants db) \<and> tn_id r = i"
  unfolding tenant_by_id_def by (drule find_Some_iff_in) simp

lemma write_hash_other:
  assumes "tenant_write db i h preserve now row db'" and "q \<in> set (td_tenants db)" and "tn_id q \<noteq> i"
  shows "tn_hash q \<noteq> h"
  using meaning_row [OF tenant_writeD(1) [OF assms(1)] assms(2)] tenant_writeD(2) [OF assms(1), of "(tn_id q, None)"] assms(3)
  by auto

lemma write_scoped_hash:
  assumes "tenant_write db i h preserve now row db'" and "b \<in> set (td_scoped db)"
  shows "sa_hash b \<noteq> h"
  using meaning_scoped [OF tenant_writeD(1) [OF assms(1)] assms(2)]
    tenant_writeD(2) [OF assms(1), of "(sa_tenant b, Some (sa_profile b))"] by auto

lemma write_primary_hash:
  assumes w: "tenant_write db i h preserve now row db'" and a: "a \<in> set (primary_after i h preserve now db)"
  shows "pa_hash a \<noteq> h"
proof
  assume h: "pa_hash a = h"
  from primary_after_member [OF a] h have old: "a \<in> set (td_primary db)" by auto
  from meaning_primary [OF tenant_writeD(1) [OF w] old] h have "pa_tenant a = i"
    using tenant_writeD(2) [OF w, of "(pa_tenant a, None)"] by simp
  with primary_after_not [OF a] h obtain r where "tenant_by_id i db = Some r" "tn_hash r = h" by auto
  with prior_row [of i db r] tenants_wfD(7) [OF tenant_writeD(1) [OF w] old, of r] h show False by simp
qed

text \<open>A prior row's hash that is kept as an alias clashes with no other hash.\<close>

lemma write_primary_clash:
  assumes w: "tenant_write db i h preserve now row db'" and a: "a \<in> set (primary_after i h preserve now db)"
  shows "q \<in> set (td_tenants db) \<Longrightarrow> tn_id q \<noteq> i \<Longrightarrow> pa_hash a \<noteq> tn_hash q"
    and "b \<in> set (td_scoped db) \<Longrightarrow> sa_hash b \<noteq> pa_hash a"
proof -
  note wf = tenant_writeD(1) [OF w]
  consider "a \<in> set (td_primary db)" | r where "r \<in> set (td_tenants db)" "tn_id r = i" "pa_hash a = tn_hash r"
    using primary_after_member [OF a] prior_row by blast
  note cases = this
  show "pa_hash a \<noteq> tn_hash q" if "q \<in> set (td_tenants db)" "tn_id q \<noteq> i"
    using cases
  proof cases
    case 1
    then show ?thesis using tenants_wfD(7) [OF wf] that(1) by blast
  next
    case (2 r)
    with meaning_row [OF wf, of r] meaning_row [OF wf that(1)] that(2) show ?thesis by auto
  qed
  show "sa_hash b \<noteq> pa_hash a" if "b \<in> set (td_scoped db)"
    using cases
  proof cases
    case 1
    then show ?thesis using tenants_wfD(10) [OF wf that] by blast
  next
    case (2 r)
    with tenants_wfD(9) [OF wf that, of r] show ?thesis by simp
  qed
qed

lemma write_keeps_wf:
  assumes w: "tenant_write db i h preserve now row db'"
  shows "tenants_wf db'"
proof -
  note wf = tenant_writeD(1) [OF w] and tables = tenant_writeD(5-7) [OF w] and row = tenant_writeD(3,4) [OF w]
  have "distinct (map tn_id (td_tenants db')) \<and> distinct (map tn_hash (td_tenants db'))"
    unfolding tables
    by (rule upsert_distinct) (use wf write_hash_other [OF w] in \<open>auto simp: tenants_wf_def row\<close>)
  moreover have "distinct (map pa_hash (td_primary db'))"
    unfolding tables by (rule primary_after_distinct [OF tenants_wfD(3) [OF wf]])
  moreover have ids: "tn_id ` set (td_tenants db') = insert i (tn_id ` set (td_tenants db))"
    by (simp add: tables ids_of_upsert row)
  moreover have "pa_tenant a \<in> insert i (tn_id ` set (td_tenants db))" if "a \<in> set (td_primary db')" for a
    using primary_after_member [of a i h preserve now db] that tenants_wfD(6) [OF wf, of a] by (auto simp: tables)
  moreover have "pa_hash a \<noteq> tn_hash q" if "a \<in> set (td_primary db')" and "q \<in> set (td_tenants db')" for a q
    using that upsert_member [of q row "td_tenants db"] write_primary_hash [OF w, of a] write_primary_clash(1) [OF w, of a q]
    by (auto simp: tables row)
  moreover have "sa_hash b \<noteq> tn_hash q" if "b \<in> set (td_scoped db')" and "q \<in> set (td_tenants db')" for b q
    using that upsert_member [of q row "td_tenants db"] write_scoped_hash [OF w, of b] tenants_wfD(9) [OF wf, of b q]
    by (auto simp: tables row)
  moreover have "sa_hash b \<noteq> pa_hash a" if "b \<in> set (td_scoped db')" and "a \<in> set (td_primary db')" for a b
    using that write_primary_clash(2) [OF w] by (simp add: tables)
  moreover have "token_hash_ok (tn_hash q)" if "q \<in> set (td_tenants db')" for q
    using that upsert_member [of q row "td_tenants db"] tenants_wfD(11) [OF wf, of q] tenant_writeD(8) [OF w] by (auto simp: tables row)
  ultimately show ?thesis
    using tenants_wfD(4,5,8,12) [OF wf] unfolding tenants_wf_def ids by (auto simp: list_all_iff tables(3) image_iff)
qed

text \<open>The map by its three kinds of entries.\<close>

definition row_for :: "tenant_db \<Rightarrow> string \<Rightarrow> string \<Rightarrow> bool" where
  "row_for db h t \<longleftrightarrow> (\<exists>r \<in> set (td_tenants db). tn_hash r = h \<and> tn_id r = t)"

definition primary_for :: "primary_alias list \<Rightarrow> string \<Rightarrow> string \<Rightarrow> bool" where
  "primary_for as h t \<longleftrightarrow> (\<exists>a \<in> set as. pa_hash a = h \<and> pa_tenant a = t)"

definition scoped_for :: "scoped_alias list \<Rightarrow> string \<Rightarrow> string \<Rightarrow> string \<Rightarrow> bool" where
  "scoped_for as h t p \<longleftrightarrow> (\<exists>a \<in> set as. sa_hash a = h \<and> sa_tenant a = t \<and> sa_profile a = p)"

lemma meaning_entries:
  assumes "tenants_wf db"
  shows "meaning_of db h = Some (t, None) \<longleftrightarrow> row_for db h t \<or> primary_for (td_primary db) h t"
    and "meaning_of db h = Some (t, Some p) \<longleftrightarrow> scoped_for (td_scoped db) h t p"
  by (auto simp: meaning_iff [OF assms] row_for_def primary_for_def scoped_for_def)

lemma meaning_ext:
  assumes "\<And>t. v = Some (t, None) \<longleftrightarrow> w = Some (t, None)" and "\<And>t p. v = Some (t, Some p) \<longleftrightarrow> w = Some (t, Some p)"
  shows "v = (w :: meaning option)"
proof (rule option_ext)
  fix m :: meaning
  show "v = Some m \<longleftrightarrow> w = Some m" using assms by (cases m; cases "snd m") auto
qed

lemma row_for_written:
  assumes w: "tenant_write db i h preserve now row db'" and "x \<noteq> h"
  shows "row_for db' x t \<longleftrightarrow> row_for db x t \<and> t \<noteq> i"
  using assms(2) upsert_member [of _ row "td_tenants db"] upsert_keeps [of _ "td_tenants db" row]
  by (auto simp: row_for_def tenant_writeD(3-5) [OF w])

lemma prior_is_row: "tenants_wf db \<Longrightarrow> row_for db x i \<longleftrightarrow> (\<exists>r. tenant_by_id i db = Some r \<and> tn_hash r = x)"
  by (auto simp: row_for_def tenant_by_id_in dest: prior_row)

lemma primary_preserved:
  assumes "tenants_wf db" and "x \<noteq> h"
  shows "primary_for (primary_after i h True now db) x t \<longleftrightarrow>
    primary_for (td_primary db) x t \<or> (t = i \<and> row_for db x i)"
proof -
  have free: "\<not> list_ex (\<lambda>b. pa_hash b = tn_hash r) (td_primary db)" if "tenant_by_id i db = Some r" for r
    using that prior_row [of i db r] tenants_wfD(7) [OF assms(1)] by (auto simp: list_ex_iff)
  show ?thesis
    using assms(2) free
    by (cases "tenant_by_id i db")
      (auto simp: primary_for_def primary_after_def insert_or_ignore_def Let_def prior_is_row [OF assms(1)])
qed

lemma primary_revoked:
  assumes "\<And>r. tenant_by_id i db = Some r \<Longrightarrow> tn_hash r \<noteq> h" and "x \<noteq> h"
  shows "primary_for (primary_after i h False now db) x t \<longleftrightarrow> primary_for (td_primary db) x t \<and> t \<noteq> i"
  using assms by (cases "tenant_by_id i db") (auto simp: primary_for_def primary_after_def Let_def)

lemma write_meaning_h:
  assumes w: "tenant_write db i h preserve now row db'"
  shows "meaning_of db' h = Some (i, None)"
proof -
  have "row_for db' h i"
    using upsert_has [of row "td_tenants db"] by (auto simp: row_for_def tenant_writeD(3-5) [OF w])
  with meaning_entries(1) [OF write_keeps_wf [OF w]] show ?thesis by blast
qed

lemma write_meaning:
  assumes w: "tenant_write db i h preserve now row db'" and fresh: "preserve \<or> meaning_of db h = None"
  shows "meaning_of db' = (if preserve then meaning_of db else revoke (i, None) (meaning_of db))(h \<mapsto> (i, None))"
proof
  fix x
  note wf = tenant_writeD(1) [OF w]
  note after = meaning_entries [OF write_keeps_wf [OF w]] and before = meaning_entries [OF wf]
  show "meaning_of db' x = ((if preserve then meaning_of db else revoke (i, None) (meaning_of db))(h \<mapsto> (i, None))) x"
  proof (cases "x = h")
    case True
    then show ?thesis by (simp add: write_meaning_h [OF w])
  next
    case False
    have scoped: "td_scoped db' = td_scoped db" and primary: "td_primary db' = primary_after i h preserve now db"
      by (simp_all add: tenant_writeD [OF w])
    show ?thesis
    proof (cases preserve)
      case True
      with False show ?thesis
        by (intro meaning_ext) (auto simp: after before scoped primary row_for_written [OF w False] primary_preserved [OF wf False])
    next
      case nopres: False
      with fresh meaning_row [OF wf] prior_row have "tenant_by_id i db = Some r \<Longrightarrow> tn_hash r \<noteq> h" for r by fastforce
      from primary_revoked [OF this False] have revoked:
        "primary_for (primary_after i h False now db) x t \<longleftrightarrow> primary_for (td_primary db) x t \<and> t \<noteq> i" for t .
      from nopres False show ?thesis
        by (intro meaning_ext)
          (auto simp: after before scoped primary row_for_written [OF w False] revoked revoke_iff)
    qed
  qed
qed

section \<open>The operations on the map\<close>

lemma hex_digit_plain: "hex_digit c \<Longrightarrow> \<not> js_space c \<and> to_lower c = c"
  by (auto simp: hex_digit_def js_space_def to_lower_def Let_def)

lemma js_trim_plain: "list_all (\<lambda>c. \<not> js_space c) s \<Longrightarrow> js_trim s = s"
proof -
  assume "list_all (\<lambda>c. \<not> js_space c) s"
  moreover have "dropWhile js_space xs = xs" if "list_all (\<lambda>c. \<not> js_space c) xs" for xs
    using that by (cases xs) auto
  ultimately show ?thesis by (simp add: js_trim_def)
qed

lemma normalize_hash_ok: "token_hash_ok h \<Longrightarrow> normalize_hash h = Inr h"
proof -
  assume ok: "token_hash_ok h"
  then have plain: "\<forall>c \<in> set h. \<not> js_space c \<and> to_lower c = c"
    using hex_digit_plain by (auto simp: token_hash_ok_def list_all_iff)
  then have "js_trim h = h" and "map to_lower h = h"
    by (auto simp: js_trim_plain list_all_iff intro: map_idI)
  with ok show ?thesis by (simp add: normalize_hash_def Let_def)
qed

lemma normalize_hash_Inr: "normalize_hash h = Inr n \<Longrightarrow> token_hash_ok n"
  by (auto simp: normalize_hash_def Let_def split: if_splits)

lemma write_record_effect:
  assumes "write_record rec preserve now db = Inr (r, db')" and "tenants_wf db"
    and "\<And>h. normalize_hash (tk_hash rec) = Inr h \<Longrightarrow> preserve \<or> meaning_of db h = None"
  shows "tenants_wf db' \<and> normalize_hash (tk_hash rec) = Inr (tk_hash r) \<and> normalize_context (tk_tenant rec) = Inr (tk_tenant r) \<and>
    (meaning_of db (tk_hash r) = None \<or> meaning_of db (tk_hash r) = Some (tc_id (tk_tenant r), None)) \<and>
    meaning_of db' =
      (if preserve then meaning_of db else revoke (tc_id (tk_tenant r), None) (meaning_of db))(tk_hash r \<mapsto> (tc_id (tk_tenant r), None))"
proof (rule write_record_inv [OF assms(1)])
  fix t h e row
  assume *: "normalize_context (tk_tenant rec) = Inr t" "normalize_hash (tk_hash rec) = Inr h"
    "\<not> bound_elsewhere (tc_id t) (credential h db)"
    "db' = db\<lparr>td_primary := primary_after (tc_id t) h preserve now db, td_tenants := upsert_tenant row (td_tenants db)\<rparr>"
    "tn_id row = tc_id t" "tn_hash row = h"
    "r = \<lparr>tk_hash = h, tk_tenant = t, tk_profile = None, tk_status = Some (tn_status row), tk_expires = map_option Jint e\<rparr>"
  then have w: "tenant_write db (tc_id t) h preserve now row db'"
    using assms(2) by (simp add: tenant_write_def normalize_hash_Inr)
  have "meaning_of db h = None \<or> meaning_of db h = Some (tc_id t, None)"
    using tenant_writeD(2) [OF w] by (cases "meaning_of db h") auto
  with * write_keeps_wf [OF w] write_meaning [OF w assms(3)] show ?thesis by simp
qed

lemma find_tenant_Some:
  assumes "find_tenant i db = Some r" and "tenants_wf db"
  shows "tc_id (tk_tenant r) = js_trim i \<and> js_trim i \<noteq> [] \<and> tk_profile r = None \<and> token_hash_ok (tk_hash r) \<and>
    meaning_of db (tk_hash r) = Some (js_trim i, None) \<and> (\<exists>q \<in> set (td_tenants db). tn_id q = js_trim i)"
proof -
  from assms(1) obtain q where q: "tenant_by_id (js_trim i) db = Some q" and r: "r = row_to_record q (tn_hash q) None"
    and "js_trim i \<noteq> []" by (auto simp: find_tenant_def split: if_splits)
  moreover from prior_row [OF q] have "q \<in> set (td_tenants db)" "tn_id q = js_trim i" by auto
  ultimately show ?thesis
    using meaning_row [OF assms(2), of q] tenants_wfD(11) [OF assms(2), of q] by (auto simp: row_to_record_def)
qed

lemma normalize_context_id: "normalize_context t = Inr t' \<Longrightarrow> tc_id t' = js_trim (tc_id t)"
  by (auto simp: normalize_context_def Let_def split: if_splits)

text \<open>New aliases.\<close>

lemma scoped_upserted:
  "scoped_for (upsert_scoped a as) x t p \<longleftrightarrow>
     x = sa_hash a \<and> t = sa_tenant a \<and> p = sa_profile a \<or> scoped_for as x t p \<and> \<not> (t = sa_tenant a \<and> p = sa_profile a)"
proof (cases "list_ex (\<lambda>b. sa_tenant b = sa_tenant a \<and> sa_profile b = sa_profile a) as")
  case True
  then have "set (upsert_scoped a as) = insert a {b \<in> set as. \<not> (sa_tenant b = sa_tenant a \<and> sa_profile b = sa_profile a)}"
    by (auto simp: upsert_scoped_def in_update_where list_ex_iff split: if_splits)
  then show ?thesis by (auto simp: scoped_for_def)
next
  case False
  then have "set (upsert_scoped a as) = insert a (set as)"
    and "\<And>b. b \<in> set as \<Longrightarrow> sa_tenant b = sa_tenant a \<Longrightarrow> sa_profile b \<noteq> sa_profile a"
    by (auto simp: upsert_scoped_def list_ex_iff)
  then show ?thesis by (auto simp: scoped_for_def)
qed

lemma upsert_scoped_member: "b \<in> set (upsert_scoped a as) \<Longrightarrow> b = a \<or> b \<in> set as"
  by (auto simp: upsert_scoped_def in_update_where split: if_splits)

lemma upsert_scoped_distinct:
  assumes "distinct (map sa_hash as)" and "distinct (map (\<lambda>a. (sa_tenant a, sa_profile a)) as)" and "sa_hash a \<notin> sa_hash ` set as"
  shows "distinct (map sa_hash (upsert_scoped a as)) \<and> distinct (map (\<lambda>a. (sa_tenant a, sa_profile a)) (upsert_scoped a as))"
proof (cases "list_ex (\<lambda>b. sa_tenant b = sa_tenant a \<and> sa_profile b = sa_profile a) as")
  case True
  have "map sa_hash (upsert_scoped a as) =
      map (\<lambda>b. if (sa_tenant b, sa_profile b) = (sa_tenant a, sa_profile a) then sa_hash a else sa_hash b) as"
    and "map (\<lambda>a. (sa_tenant a, sa_profile a)) (upsert_scoped a as) = map (\<lambda>a. (sa_tenant a, sa_profile a)) as"
    using True by (auto simp: upsert_scoped_def update_where_def)
  moreover from assms(3) have "x \<in> set as \<Longrightarrow> sa_hash x \<noteq> sa_hash a" for x by (metis imageI)
  ultimately show ?thesis
    using distinct_replace [OF assms(2,1), of "(sa_tenant a, sa_profile a)" "sa_hash a"] assms(2) by simp
next
  case False
  with assms show ?thesis by (auto simp: upsert_scoped_def list_ex_iff)
qed

lemma scoped_effect:
  assumes "tenants_wf db" and "meaning_of db (sa_hash a) = None" and "sa_tenant a \<in> tn_id ` set (td_tenants db)"
    and "trimmed_text (Some (sa_profile a)) = Some (sa_profile a)"
    and "db' = db\<lparr>td_scoped := upsert_scoped a (td_scoped db)\<rparr>"
  shows "tenants_wf db'"
    and "meaning_of db' = (revoke (sa_tenant a, Some (sa_profile a)) (meaning_of db))(sa_hash a \<mapsto> (sa_tenant a, Some (sa_profile a)))"
proof -
  from assms(2) meaning_row [OF assms(1)] meaning_primary [OF assms(1)] meaning_scoped [OF assms(1)]
  have free: "r \<in> set (td_tenants db) \<Longrightarrow> sa_hash a \<noteq> tn_hash r" "b \<in> set (td_primary db) \<Longrightarrow> sa_hash a \<noteq> pa_hash b"
    "c \<in> set (td_scoped db) \<Longrightarrow> sa_hash a \<noteq> sa_hash c" for r b c by fastforce+
  then have "sa_hash a \<notin> sa_hash ` set (td_scoped db)" by blast
  from upsert_scoped_distinct [OF tenants_wfD(4,5) [OF assms(1)] this]
  have "distinct (map sa_hash (td_scoped db'))" "distinct (map (\<lambda>a. (sa_tenant a, sa_profile a)) (td_scoped db'))"
    by (auto simp: assms(5))
  moreover have "trimmed_text (Some (sa_profile b)) = Some (sa_profile b) \<and> sa_tenant b \<in> tn_id ` set (td_tenants db) \<and>
      sa_hash b \<notin> tn_hash ` set (td_tenants db) \<and> sa_hash b \<notin> pa_hash ` set (td_primary db)" if "b \<in> set (td_scoped db')" for b
  proof -
    from that upsert_scoped_member [of b a "td_scoped db"] consider "b = a" | "b \<in> set (td_scoped db)" by (auto simp: assms(5))
    then show ?thesis
    proof cases
      case 1
      with assms(3,4) free show ?thesis by auto
    next
      case 2
      with assms(1) show ?thesis by (simp add: tenants_wf_def list_all_iff)
    qed
  qed
  ultimately show wf: "tenants_wf db'"
    using tenants_wfD(1,2,3,6,7,11) [OF assms(1)] unfolding tenants_wf_def by (auto simp: assms(5) list_all_iff)
  have tables: "row_for db' = row_for db" "td_primary db' = td_primary db" "td_scoped db' = upsert_scoped a (td_scoped db)"
    by (simp_all add: assms(5) row_for_def fun_eq_iff)
  from free have entries: "\<not> row_for db (sa_hash a) t" "\<not> primary_for (td_primary db) (sa_hash a) t" for t
    unfolding row_for_def primary_for_def by metis+
  show "meaning_of db' = (revoke (sa_tenant a, Some (sa_profile a)) (meaning_of db))(sa_hash a \<mapsto> (sa_tenant a, Some (sa_profile a)))"
  proof
    fix x
    show "meaning_of db' x = ((revoke (sa_tenant a, Some (sa_profile a)) (meaning_of db))(sa_hash a \<mapsto> (sa_tenant a, Some (sa_profile a)))) x"
    proof (cases "x = sa_hash a")
      case True
      have "scoped_for (upsert_scoped a (td_scoped db)) x (sa_tenant a) (sa_profile a)" by (simp add: scoped_upserted True)
      with meaning_entries(2) [OF wf] have "meaning_of db' x = Some (sa_tenant a, Some (sa_profile a))" by (simp add: assms(5))
      with True show ?thesis by simp
    next
      case False
      then show ?thesis
        by (intro meaning_ext)
          (auto simp: meaning_entries [OF wf] meaning_entries [OF assms(1)] revoke_iff tables scoped_upserted)
    qed
  qed
qed

lemma preserve_effect:
  assumes "tenants_wf db" and "meaning_of db (pa_hash a) = None" and "pa_tenant a \<in> tn_id ` set (td_tenants db)"
    and "db' = db\<lparr>td_primary := td_primary db @ [a]\<rparr>"
  shows "tenants_wf db' \<and> meaning_of db' = (meaning_of db)(pa_hash a \<mapsto> (pa_tenant a, None))"
proof -
  from assms(2) meaning_row [OF assms(1)] meaning_primary [OF assms(1)] meaning_scoped [OF assms(1)]
  have free: "r \<in> set (td_tenants db) \<Longrightarrow> tn_hash r \<noteq> pa_hash a" "b \<in> set (td_primary db) \<Longrightarrow> pa_hash b \<noteq> pa_hash a"
    "c \<in> set (td_scoped db) \<Longrightarrow> sa_hash c \<noteq> pa_hash a" for r b c by fastforce+
  have "pa_hash a \<notin> tn_hash ` set (td_tenants db)" "pa_hash a \<notin> pa_hash ` set (td_primary db)"
    "\<forall>c \<in> set (td_scoped db). sa_hash c \<noteq> pa_hash a"
    using free by (auto simp: image_iff dest: sym)
  with assms(1,3) have wf: "tenants_wf db'" by (simp add: assms(4) tenants_wf_def list_all_iff)
  have tables: "row_for db' = row_for db" "td_scoped db' = td_scoped db"
    "primary_for (td_primary db') x t \<longleftrightarrow> primary_for (td_primary db) x t \<or> x = pa_hash a \<and> t = pa_tenant a" for x t
    by (auto simp: assms(4) row_for_def primary_for_def fun_eq_iff)
  have "meaning_of db' x = ((meaning_of db)(pa_hash a \<mapsto> (pa_tenant a, None))) x" for x
  proof (cases "x = pa_hash a")
    case True
    with meaning_entries(1) [OF wf] tables show ?thesis by simp
  next
    case False
    then show ?thesis
      by (intro meaning_ext) (auto simp: meaning_entries [OF wf] meaning_entries [OF assms(1)] tables)
  qed
  with wf show ?thesis by blast
qed

section \<open>Steps\<close>

datatype tenant_op =
  Provision provision_input string
| Import string tenant_context "tenant_status option" "js_number option"
| Rotate string string
| Scope string string string
| Ensure string string string
| Set_Status string tenant_status
| Preserve string string

definition result_db :: "tenant_db \<Rightarrow> 'a tenant_result \<Rightarrow> tenant_db" where
  "result_db db v = (case v of Inl _ \<Rightarrow> db | Inr (_, db') \<Rightarrow> db')"

fun tenant_step :: "(string \<Rightarrow> string) \<Rightarrow> int \<Rightarrow> tenant_op \<Rightarrow> tenant_db \<Rightarrow> tenant_db" where
  "tenant_step sha now (Provision inp gen) db = result_db db (provision_tenant sha inp gen now db)"
| "tenant_step sha now (Import h t st ex) db = result_db db (import_token_hash h t st ex now db)"
| "tenant_step sha now (Rotate i gen) db = result_db db (rotate_token sha i gen now db)"
| "tenant_step sha now (Scope i p gen) db = result_db db (provision_scoped sha i p gen now db)"
| "tenant_step sha now (Ensure i p tok) db = result_db db (ensure_token sha i p tok now db)"
| "tenant_step sha now (Set_Status i st) db = result_db db (set_tenant_status i st now db)"
| "tenant_step sha now (Preserve i h) db = result_db db (preserve_token_hash i h now db)"

text \<open>The random token of a rotation or a scoped credential is none that is in use, and hashes are hex digests.\<close>

definition sha_ok :: "(string \<Rightarrow> string) \<Rightarrow> bool" where
  "sha_ok sha \<longleftrightarrow> (\<forall>t. token_hash_ok (sha t))"

fun new_token_of :: "tenant_op \<Rightarrow> string option" where
  "new_token_of (Rotate _ gen) = Some gen"
| "new_token_of (Scope _ _ gen) = Some gen"
| "new_token_of _ = None"

definition draws_fresh :: "(string \<Rightarrow> string) \<Rightarrow> tenant_op \<Rightarrow> tenant_db \<Rightarrow> bool" where
  "draws_fresh sha op db \<longleftrightarrow> (case new_token_of op of None \<Rightarrow> True | Some gen \<Rightarrow> credential (sha gen) db = None)"

text \<open>What may happen to the map.\<close>

inductive map_act :: "(string \<Rightarrow> meaning option) \<Rightarrow> (string \<Rightarrow> meaning option) \<Rightarrow> bool" where
  unchanged: "map_act f f"
| granted: "f h = None \<or> f h = Some (t, None) \<Longrightarrow> map_act f (f(h \<mapsto> (t, None)))"
| rotated: "f h = None \<Longrightarrow> map_act f ((revoke (t, None) f)(h \<mapsto> (t, None)))"
| scoped: "f h = None \<Longrightarrow> map_act f ((revoke (t, Some p) f)(h \<mapsto> (t, Some p)))"

definition store_act :: "(string \<Rightarrow> string) \<Rightarrow> tenant_db \<Rightarrow> tenant_db \<Rightarrow> bool" where
  "store_act sha db db' \<longleftrightarrow> (\<exists>now op. draws_fresh sha op db \<and> db' = tenant_step sha now op db)"

lemma write_acts:
  assumes "write_record rec preserve now db = Inr (r, db')" and "tenants_wf db"
    and "\<And>h. normalize_hash (tk_hash rec) = Inr h \<Longrightarrow> preserve \<or> meaning_of db h = None"
  shows "tenants_wf db' \<and> map_act (meaning_of db) (meaning_of db')"
  using write_record_effect [OF assms] assms(3)
  by (cases preserve) (auto intro: map_act.granted map_act.rotated)

lemma normalize_profile_trimmed: "normalize_profile v = Inr p \<Longrightarrow> trimmed_text (Some p) = Some p"
  by (auto simp: normalize_profile_def trimmed_text_def Let_def js_trim_idem split: if_splits)

lemma result_db_same: "(\<And>x db'. v = Inr (x, db') \<Longrightarrow> P db') \<Longrightarrow> P db \<Longrightarrow> P (result_db db v)"
  by (auto simp: result_db_def split: sum.splits)

definition good_step :: "tenant_db \<Rightarrow> tenant_db \<Rightarrow> bool" where
  "good_step db db' \<longleftrightarrow> tenants_wf db' \<and> map_act (meaning_of db) (meaning_of db')"

lemma good_stay: "tenants_wf db \<Longrightarrow> good_step db db"
  by (simp add: good_step_def map_act.unchanged)

lemma good_write: "write_record rec preserve now db = Inr (r, db') \<Longrightarrow> tenants_wf db \<Longrightarrow>
    (\<And>h. normalize_hash (tk_hash rec) = Inr h \<Longrightarrow> preserve \<or> meaning_of db h = None) \<Longrightarrow> good_step db db'"
  unfolding good_step_def by (rule write_acts)

lemma good_scope:
  assumes "tenants_wf db" and "meaning_of db h = None" and "t \<in> tn_id ` set (td_tenants db)" and "trimmed_text (Some p) = Some p"
    and "db' = db\<lparr>td_scoped := upsert_scoped \<lparr>sa_hash = h, sa_tenant = t, sa_profile = p, sa_created = now\<rparr> (td_scoped db)\<rparr>"
  shows "good_step db db'"
  using scoped_effect [of db "\<lparr>sa_hash = h, sa_tenant = t, sa_profile = p, sa_created = now\<rparr>" db'] assms
  by (simp add: good_step_def map_act.scoped)

lemma ensure_is_scope:
  "find (\<lambda>b. sa_tenant b = t \<and> sa_profile b = p) as = None \<Longrightarrow>
    as @ [\<lparr>sa_hash = h, sa_tenant = t, sa_profile = p, sa_created = now\<rparr>] =
      upsert_scoped \<lparr>sa_hash = h, sa_tenant = t, sa_profile = p, sa_created = now\<rparr> as"
  by (auto simp: upsert_scoped_def list_ex_iff find_None_iff)

lemma provision_good: "tenants_wf db \<Longrightarrow> provision_tenant sha inp gen now db = Inr (v, db') \<Longrightarrow> good_step db db'"
  by (auto simp: provision_tenant_def err_simps Let_def intro: good_write)

lemma import_good: "tenants_wf db \<Longrightarrow> import_token_hash h t st ex now db = Inr (v, db') \<Longrightarrow> good_step db db'"
  by (auto simp: import_token_hash_def err_simps intro: good_write)

lemma status_good: "tenants_wf db \<Longrightarrow> set_tenant_status i st now db = Inr (v, db') \<Longrightarrow> good_step db db'"
  by (auto simp: set_tenant_status_def err_simps intro: good_write good_stay split: option.splits)

lemma rotate_good:
  "tenants_wf db \<Longrightarrow> sha_ok sha \<Longrightarrow> credential (sha gen) db = None \<Longrightarrow> rotate_token sha i gen now db = Inr (v, db') \<Longrightarrow> good_step db db'"
  by (auto simp: rotate_token_def err_simps sha_ok_def normalize_hash_ok credential_None intro: good_stay split: option.splits
      elim!: good_write)

lemma find_tenant_id: "find_tenant i db = Some r \<Longrightarrow> tc_id (tk_tenant r) \<in> tn_id ` set (td_tenants db)"
  by (force simp: find_tenant_def dest!: prior_row split: if_splits)

lemma scope_good:
  assumes "tenants_wf db" and "credential (sha gen) db = None" and "provision_scoped sha i p gen now db = Inr (v, db')"
  shows "good_step db db'"
proof (cases "find_tenant i db")
  case None
  with assms show ?thesis by (auto simp: provision_scoped_def intro: good_stay)
next
  case (Some r)
  with assms(3) obtain q where q: "normalize_profile p = Inr q"
    and db': "db' = db\<lparr>td_scoped := upsert_scoped
      \<lparr>sa_hash = sha gen, sa_tenant = tc_id (tk_tenant r), sa_profile = q, sa_created = now\<rparr> (td_scoped db)\<rparr>"
    by (auto simp: provision_scoped_def err_simps Let_def split: if_splits)
  from assms(2) show ?thesis
    by (intro good_scope [OF assms(1) _ find_tenant_id [OF Some] normalize_profile_trimmed [OF q] db'])
      (simp add: credential_None)
qed

lemma ensure_inv:
  assumes "ensure_token sha i p tok now db = Inr (v, db')"
  shows "db' = db \<or> (\<exists>r q h. find_tenant i db = Some r \<and> normalize_profile p = Inr q \<and> credential h db = None \<and>
    find (\<lambda>b. sa_tenant b = tc_id (tk_tenant r) \<and> sa_profile b = q) (td_scoped db) = None \<and>
    db' = db\<lparr>td_scoped := td_scoped db @ [\<lparr>sa_hash = h, sa_tenant = tc_id (tk_tenant r), sa_profile = q, sa_created = now\<rparr>]\<rparr>)"
proof (cases "find_tenant i db")
  case None
  with assms show ?thesis by (simp add: ensure_token_def)
next
  case (Some r)
  with assms obtain q tk h where q: "normalize_profile p = Inr q"
    and body: "(case find (\<lambda>b. sa_tenant b = tc_id (tk_tenant r) \<and> sa_profile b = q) (td_scoped db) of
        Some b \<Rightarrow> Inr (Some (r\<lparr>tk_hash := sa_hash b, tk_profile := Some q\<rparr>,
                             if sa_hash b = h then Ensure_Replayed else Ensure_Conflict), db)
      | None \<Rightarrow>
          if credential h db \<noteq> None then Inr (Some (r, Ensure_Conflict), db)
          else Inr (Some (r\<lparr>tk_hash := h, tk_profile := Some q\<rparr>, Ensure_Created),
               db\<lparr>td_scoped := td_scoped db @ [\<lparr>sa_hash = h, sa_tenant = tc_id (tk_tenant r), sa_profile = q, sa_created = now\<rparr>]\<rparr>)) =
      (Inr (v, db') :: (token_record \<times> ensure_outcome) option tenant_result)"
    unfolding ensure_token_def by (simp only: option.case err_simps Let_def) blast
  show ?thesis
  proof (cases "find (\<lambda>b. sa_tenant b = tc_id (tk_tenant r) \<and> sa_profile b = q) (td_scoped db)")
    case None
    with body Some q show ?thesis by (cases "credential h db") auto
  next
    case (Some b)
    with body show ?thesis by simp
  qed
qed

lemma ensure_good:
  assumes "tenants_wf db" and "ensure_token sha i p tok now db = Inr (v, db')"
  shows "good_step db db'"
  using ensure_inv [OF assms(2)]
proof
  assume "db' = db"
  with good_stay [OF assms(1)] show ?thesis by simp
next
  assume "\<exists>r q h. find_tenant i db = Some r \<and> normalize_profile p = Inr q \<and> credential h db = None \<and>
    find (\<lambda>b. sa_tenant b = tc_id (tk_tenant r) \<and> sa_profile b = q) (td_scoped db) = None \<and>
    db' = db\<lparr>td_scoped := td_scoped db @ [\<lparr>sa_hash = h, sa_tenant = tc_id (tk_tenant r), sa_profile = q, sa_created = now\<rparr>]\<rparr>"
  then obtain r q h where "find_tenant i db = Some r" "normalize_profile p = Inr q" "meaning_of db h = None"
    and none: "find (\<lambda>b. sa_tenant b = tc_id (tk_tenant r) \<and> sa_profile b = q) (td_scoped db) = None"
    and "db' = db\<lparr>td_scoped := td_scoped db @ [\<lparr>sa_hash = h, sa_tenant = tc_id (tk_tenant r), sa_profile = q, sa_created = now\<rparr>]\<rparr>"
    by (auto simp: credential_None)
  with good_scope [OF assms(1), of h _ q db' now] show ?thesis
    by (simp add: ensure_is_scope [OF none] find_tenant_id normalize_profile_trimmed)
qed

lemma preserve_good:
  assumes "tenants_wf db" and "preserve_token_hash i h now db = Inr (v, db')"
  shows "good_step db db'"
proof (cases "db' = db")
  case True
  with good_stay [OF assms(1)] show ?thesis by simp
next
  case False
  with assms(2) obtain r n where r: "find_tenant i db = Some r" and n: "meaning_of db n = None"
    and db': "db' = db\<lparr>td_primary := td_primary db @ [\<lparr>pa_hash = n, pa_tenant = tc_id (tk_tenant r), pa_created = now\<rparr>]\<rparr>"
    by (auto simp: preserve_token_hash_def err_simps simp flip: credential_None split: option.splits if_splits)
  from preserve_effect [OF assms(1) _ _ db'] n find_tenant_id [OF r] show ?thesis
    by (auto simp: good_step_def intro: map_act.granted)
qed

lemma step_good:
  assumes "sha_ok sha" and "tenants_wf db" and "draws_fresh sha op db"
  shows "good_step db (tenant_step sha now op db)"
  using assms by (cases op)
    (auto simp: draws_fresh_def intro: result_db_same good_stay provision_good import_good rotate_good scope_good ensure_good
      status_good preserve_good)

interpretation store_wf: protocol_invariant "\<lambda>db db'. store_act sha db db' \<and> sha_ok sha" tenants_wf for sha
  by unfold_locales (auto simp: store_act_def good_step_def dest: step_good)

text \<open>
  C9. The tables implement a map from token hashes to a tenant and, for a scoped credential, its profile: every
  operation keeps the tables well formed, refused or not, and changes the map in one of four ways, a new full
  credential, a new scoped one in the place of the old one of its profile, a rotation, or not at all.
\<close>

theorem tenant_store_refines_map:
  assumes "sha_ok sha" and "tenants_wf db" and "draws_fresh sha op db"
  shows "tenants_wf (tenant_step sha now op db) \<and> map_act (meaning_of db) (meaning_of (tenant_step sha now op db))"
  using step_good [OF assms] by (simp add: good_step_def)

section \<open>Runs\<close>

type_synonym tenant_moves = "(int \<times> tenant_op) list"

fun tenant_run :: "(string \<Rightarrow> string) \<Rightarrow> tenant_moves \<Rightarrow> tenant_db \<Rightarrow> tenant_db" where
  "tenant_run sha [] db = db"
| "tenant_run sha ((now, op) # ms) db = tenant_run sha ms (tenant_step sha now op db)"

fun draws_fresh_run :: "(string \<Rightarrow> string) \<Rightarrow> tenant_moves \<Rightarrow> tenant_db \<Rightarrow> bool" where
  "draws_fresh_run sha [] db \<longleftrightarrow> True"
| "draws_fresh_run sha ((now, op) # ms) db \<longleftrightarrow> draws_fresh sha op db \<and> draws_fresh_run sha ms (tenant_step sha now op db)"

text \<open>The hash stays in the tables all along the run.\<close>

fun stays_bound :: "(string \<Rightarrow> string) \<Rightarrow> string \<Rightarrow> tenant_moves \<Rightarrow> tenant_db \<Rightarrow> bool" where
  "stays_bound sha h [] db \<longleftrightarrow> credential h db \<noteq> None"
| "stays_bound sha h ((now, op) # ms) db \<longleftrightarrow>
     credential h db \<noteq> None \<and> stays_bound sha h ms (tenant_step sha now op db)"

lemma stays_bound_now: "stays_bound sha h ms db \<Longrightarrow> credential h db \<noteq> None"
  by (cases ms) auto

lemma run_wf: "sha_ok sha \<Longrightarrow> draws_fresh_run sha ms db \<Longrightarrow> tenants_wf db \<Longrightarrow> tenants_wf (tenant_run sha ms db)"
proof (induction ms arbitrary: db)
  case (Cons m ms)
  obtain now op where "m = (now, op)" by (cases m)
  with Cons step_good [OF Cons.prems(1,3), of op now] show ?case by (simp add: good_step_def)
qed simp

lemma map_act_keeps: "map_act f f' \<Longrightarrow> f h = Some m \<Longrightarrow> f' h = None \<or> f' h = Some m"
  by (induction rule: map_act.induct) (auto simp: revoke_def)

text \<open>
  A credential keeps its meaning: as long as a token hash is in the tables, whatever operations run and fail,
  it stands for the tenant it was issued for and for the same profile; no operation hands it to another tenant
  or turns a scoped credential into a full one.
\<close>

theorem credential_keeps_its_meaning:
  assumes "sha_ok sha" and "tenants_wf db" and "draws_fresh_run sha ms db" and "stays_bound sha h ms db"
    and "meaning_of db h = Some m"
  shows "meaning_of (tenant_run sha ms db) h = Some m"
  using assms(2-5)
proof (induction ms arbitrary: db)
  case (Cons mv ms)
  obtain now op where mv: "mv = (now, op)" by (cases mv)
  let ?db = "tenant_step sha now op db"
  from step_good [OF assms(1) Cons.prems(1), of op now] Cons.prems(2) mv have good: "good_step db ?db" by simp
  from Cons.prems(3) mv have "meaning_of ?db h \<noteq> None"
    using stays_bound_now [of sha h ms ?db] by (simp add: meaning_of_def)
  with good map_act_keeps [of "meaning_of db" "meaning_of ?db" h m] Cons.prems(4) have "meaning_of ?db h = Some m"
    by (auto simp: good_step_def)
  with Cons good mv show ?case by (simp add: good_step_def)
qed simp

section \<open>Rotation and suspension\<close>

text \<open>
  A rotation revokes exactly the full credentials of its tenant: its earlier token and every preserved one stop
  resolving, the new token stands for the tenant, and the scoped credentials and all other tenants' credentials are
  untouched. The tenant is active afterwards, also if it was suspended.
\<close>

theorem rotation_revokes:
  assumes "sha_ok sha" and "tenants_wf db" and "credential (sha gen) db = None"
    and "rotate_token sha i gen now db = Inr (Some (token, r), db')"
  shows "token = gen \<and> tk_status r = Some T_Active \<and> tc_id (tk_tenant r) = js_trim i \<and>
    meaning_of db' h =
      (if h = sha gen then Some (js_trim i, None)
       else if meaning_of db h = Some (js_trim i, None) then None else meaning_of db h)"
proof -
  from assms(4) obtain q where q: "find_tenant i db = Some q" and token: "token = gen"
    and w: "write_record \<lparr>tk_hash = sha gen, tk_tenant = tk_tenant q, tk_profile = None, tk_status = Some T_Active,
      tk_expires = tk_expires q\<rparr> False now db = Inr (r, db')"
    by (auto simp: rotate_token_def err_simps split: option.splits)
  have h: "normalize_hash (sha gen) = Inr (sha gen)" using assms(1) by (simp add: sha_ok_def normalize_hash_ok)
  with write_record_effect [OF w assms(2)] assms(3)
  have effect: "sha gen = tk_hash r" "normalize_context (tk_tenant q) = Inr (tk_tenant r)"
    "meaning_of db' = (revoke (tc_id (tk_tenant r), None) (meaning_of db))(tk_hash r \<mapsto> (tc_id (tk_tenant r), None))"
    by (auto simp: credential_None)
  from normalize_context_id [OF effect(2)] find_tenant_Some [OF q assms(2)] have i: "tc_id (tk_tenant r) = js_trim i"
    by (simp add: js_trim_idem)
  have "tk_status r = Some T_Active"
    by (rule write_record_inv [OF w]) simp
  with token i effect(3) show ?thesis by (simp add: effect(1) revoke_def)
qed

lemma credential_status:
  assumes "credential h db = Some r"
  shows "\<exists>q \<in> set (td_tenants db). tn_id q = tc_id (tk_tenant r) \<and> tk_status r = Some (tn_status q)"
  using assms by (auto simp: credential_def row_to_record_def bind_eq_Some_conv dest!: find_Some_iff_in prior_row split: option.splits)

lemma upsert_status: "q \<in> set (upsert_tenant r rows) \<Longrightarrow> tn_id q = tn_id r \<Longrightarrow> tn_status q = tn_status r"
  by (auto simp: upsert_tenant_def in_update_where list_ex_iff dest: arg_cong [where f = tn_status] split: if_splits)

lemma set_status_inv:
  assumes "tenants_wf db" and "set_tenant_status i st now db = Inr (Some r, db')"
  obtains q row where "find_tenant i db = Some q" and "meaning_of db' = meaning_of db"
    and "td_tenants db' = upsert_tenant row (td_tenants db)" and "tn_id row = js_trim i" and "tn_status row = st"
proof -
  from assms(2) obtain q where q: "find_tenant i db = Some q"
    and w: "write_record (q\<lparr>tk_status := Some st\<rparr>) True now db = Inr (r, db')"
    by (auto simp: set_tenant_status_def err_simps split: option.splits)
  from find_tenant_Some [OF q assms(1)] have qi: "tc_id (tk_tenant q) = js_trim i" "token_hash_ok (tk_hash q)"
    "meaning_of db (tk_hash q) = Some (js_trim i, None)" by auto
  from write_record_effect [OF w assms(1)] qi
  have effect: "tk_hash q = tk_hash r" "normalize_context (tk_tenant q) = Inr (tk_tenant r)"
    "meaning_of db' = (meaning_of db)(tk_hash r \<mapsto> (tc_id (tk_tenant r), None))"
    by (auto simp: normalize_hash_ok)
  from normalize_context_id [OF effect(2)] qi have i: "tc_id (tk_tenant r) = js_trim i" by (simp add: js_trim_idem)
  with effect qi have same: "meaning_of db' = meaning_of db" by (auto simp: fun_eq_iff)
  show thesis
    by (rule write_record_inv [OF w]) (rule that [OF q same], use effect(2) i in auto)
qed

text \<open>
  C10. A suspension or deletion stops every token of the tenant at once: its token, the preserved ones and the scoped
  ones still resolve to the tenant, but no request that presents one, in the header or in the path, is authenticated,
  where no access token of the authorization server stands in. No other tenant's credential changes its meaning.
\<close>

theorem suspension_stops_tokens:
  assumes "sha_ok sha" and "tenants_wf db" and "set_tenant_status i st now db = Inr (Some r, db')" and "st \<noteq> T_Active"
    and "first_some (bearer_token header) (path_token path) = Some token"
    and "meaning_of db (sha token) = Some (js_trim i, p)" and "\<And>look. oauth = Some look \<Longrightarrow> look token = None"
  shows "meaning_of db' = meaning_of db \<and> authenticate_tenant sha oauth t header path db' = Inr None"
proof -
  obtain q row where q: "find_tenant i db = Some q" and same: "meaning_of db' = meaning_of db"
    and rows: "td_tenants db' = upsert_tenant row (td_tenants db)" "tn_id row = js_trim i" "tn_status row = st"
    by (rule set_status_inv [OF assms(2,3)])
  then have "meaning_of db' (sha token) = Some (js_trim i, p)" by (simp add: assms(6))
  then obtain c where c: "credential (sha token) db' = Some c" and ci: "tc_id (tk_tenant c) = js_trim i"
    by (auto simp: meaning_of_def)
  have stopped: "\<not> record_active t c"
  proof -
    from credential_status [OF c] ci rows upsert_status [of _ row "td_tenants db"] have "tk_status c = Some st" by auto
    with assms(4) show ?thesis by (simp add: record_active_def)
  qed
  have "bearer_token header \<in> {None, Some token}" using assms(5) by (cases "bearer_token header") (simp_all add: first_some_def)
  then have "oauth_grant oauth t (bearer_token header) = None"
    using assms(7) by (auto simp: oauth_grant_def split: option.splits)
  with stopped c assms(1,5) same show ?thesis
    by (simp add: authenticate_tenant_def resolve_token_hash_def sha_ok_def normalize_hash_ok Let_def)
qed

text \<open>
  An access token of the authorization server is not stopped: authentication does not look at the status of its
  tenant.
\<close>

lemma suspended_tenant_keeps_oauth_access:
  assumes "sha_ok sha" and "tenants_wf db" and "set_tenant_status i T_Suspended now db = Inr (Some r, db')"
    and "bearer_token header = Some token" and "path_token path = None" and "credential (sha token) db = None"
    and "look token = Some g" and "t < ag_expires g" and "tc_id (ag_tenant g) = js_trim i"
  shows "authenticate_tenant sha (Some look) t header path db' = Inr (Some (ag_tenant g, None))"
proof (rule set_status_inv [OF assms(2,3)])
  assume "meaning_of db' = meaning_of db"
  with assms(6) have "credential (sha token) db' = None" by (simp add: credential_None)
  with assms(1,4,5,7,8) show ?thesis
    by (simp add: authenticate_tenant_def first_some_def resolve_token_hash_def sha_ok_def normalize_hash_ok oauth_grant_def Let_def)
qed

section \<open>Scoped credentials\<close>

text \<open>
  A scoped token stays scoped: whatever operations run after it was issued, a request that presents it is
  refused or acts for its tenant with its profile, gets no tool that is not listed for the profile, none when the
  profile has no list, and is no full credential for the routes that need one.
\<close>

theorem scoped_token_stays_scoped:
  assumes "sha_ok sha" and "tenants_wf db" and "draws_fresh_run sha ms db" and "stays_bound sha (sha token) ms db"
    and "meaning_of db (sha token) = Some (i, Some p)"
    and "bearer_token header = Some token" and "\<And>look. oauth = Some look \<Longrightarrow> look token = None"
    and "authenticate_tenant sha oauth now header path (tenant_run sha ms db) = Inr (Some (ctx, v))"
  shows "tc_id ctx = i \<and> v = Some p \<and> unprofiled_tenant (Some (ctx, v)) = None \<and>
    set (tools_for v tenant_list profiles tools) \<subseteq> set (case profiles p of None \<Rightarrow> [] | Some names \<Rightarrow> names)"
proof -
  let ?db = "tenant_run sha ms db"
  have wf: "tenants_wf ?db" by (rule run_wf [OF assms(1,3,2)])
  have meaning: "meaning_of ?db (sha token) = Some (i, Some p)"
    by (rule credential_keeps_its_meaning [OF assms(1-5)])
  from wf meaning obtain a where "a \<in> set (td_scoped ?db)" "sa_profile a = p"
    by (auto simp: meaning_entries scoped_for_def)
  with tenants_wfD(12) [OF wf] have p: "trimmed_text (Some p) = Some p" by blast
  from meaning obtain c where c: "credential (sha token) ?db = Some c" "tc_id (tk_tenant c) = i" "tk_profile c = Some p"
    by (auto simp: meaning_of_def)
  have "oauth_grant oauth now (Some token) = None"
    using assms(7) by (auto simp: oauth_grant_def split: option.splits)
  with assms(1,6,8) c p have "ctx = tk_tenant c \<and> v = Some p"
    by (auto simp: authenticate_tenant_def first_some_def resolve_token_hash_def sha_ok_def normalize_hash_ok Let_def
        split: if_splits)
  with c show ?thesis
    by (auto simp: unprofiled_tenant_def tools_for_def tool_allowlist_def restrict_tools_def split: option.splits)
qed

end
