(* ===== verification/Tenant_Examples.thy ===== *)
theory Tenant_Examples
  imports Tenant_Props
begin

text \<open>The properties of the tenant store at concrete inputs.\<close>

definition demo_sha :: "string \<Rightarrow> string" where
  "demo_sha t = replicate 64 (if t = ''tok-a'' then CHR ''a'' else if t = ''tok-b'' then CHR ''b''
     else if t = ''tok-c'' then CHR ''c'' else CHR ''e'')"

lemma demo_sha_ok: "sha_ok demo_sha"
proof -
  have "token_hash_ok (replicate 64 c)" if "hex_digit c" for c
    using that by (simp add: token_hash_ok_def list_all_iff)
  moreover have "hex_digit CHR ''a''" "hex_digit CHR ''b''" "hex_digit CHR ''c''" "hex_digit CHR ''e''" by code_simp+
  ultimately show ?thesis by (simp add: sha_ok_def demo_sha_def)
qed

definition demo_input :: "string \<Rightarrow> string \<Rightarrow> provision_input" where
  "demo_input i token =
     \<lparr>pi_id = Some i, pi_name = None, pi_plan = None, pi_quota = None, pi_tenant_id = None, pi_tenant_name = None,
      pi_tenant_plan = None, pi_tenant_quota = None, pi_token = Some token, pi_status = None, pi_expires = None\<rparr>"

definition demo_tenants :: tenant_db where
  "demo_tenants =
     \<lparr>td_tenants = [\<lparr>tn_id = ''acme'', tn_name = None, tn_plan = None, tn_quota = None, tn_hash = demo_sha ''tok-a'',
        tn_status = T_Active, tn_expires = None, tn_created = 0, tn_updated = 0\<rparr>],
      td_primary = [],
      td_scoped = [\<lparr>sa_hash = demo_sha ''tok-b'', sa_tenant = ''acme'', sa_profile = ''reader'', sa_created = 1\<rparr>]\<rparr>"

lemma demo_tenants_run:
  "tenant_run demo_sha [(0, Provision (demo_input ''acme'' ''tok-a'') ''tok-x''), (1, Scope ''acme'' ''reader'' ''tok-b'')] empty_tenants =
    demo_tenants"
  by code_simp

lemma demo_tenants_wf: "tenants_wf demo_tenants"
  by code_simp

definition demo_later :: tenant_moves where
  "demo_later = [(2, Rotate ''acme'' ''tok-c''), (3, Provision (demo_input ''evil'' ''tok-b'') ''tok-x'')]"

lemma demo_later_fresh: "draws_fresh_run demo_sha demo_later demo_tenants"
  and demo_later_bound: "stays_bound demo_sha (demo_sha ''tok-b'') demo_later demo_tenants"
  and demo_meaning: "meaning_of demo_tenants (demo_sha ''tok-b'') = Some (''acme'', Some ''reader'')"
  by code_simp+

theorem tenant_store_refines_map_witness:
  "tenants_wf (tenant_step demo_sha 2 (Rotate ''acme'' ''tok-c'') demo_tenants) \<and>
   map_act (meaning_of demo_tenants) (meaning_of (tenant_step demo_sha 2 (Rotate ''acme'' ''tok-c'') demo_tenants))"
  by (rule tenant_store_refines_map [OF demo_sha_ok demo_tenants_wf]) code_simp

theorem credential_keeps_its_meaning_witness:
  "meaning_of (tenant_run demo_sha demo_later demo_tenants) (demo_sha ''tok-b'') = Some (''acme'', Some ''reader'')"
  by (rule credential_keeps_its_meaning [OF demo_sha_ok demo_tenants_wf demo_later_fresh demo_later_bound demo_meaning])

theorem rotation_revokes_witness:
  "meaning_of (tenant_step demo_sha 2 (Rotate ''acme'' ''tok-c'') demo_tenants) (demo_sha ''tok-a'') = None"
proof -
  obtain token r db' where result: "rotate_token demo_sha ''acme'' ''tok-c'' 2 demo_tenants = Inr (Some (token, r), db')"
  proof (cases "rotate_token demo_sha ''acme'' ''tok-c'' 2 demo_tenants")
    case (Inr v)
    moreover have "(case rotate_token demo_sha ''acme'' ''tok-c'' 2 demo_tenants of Inr (Some _, _) \<Rightarrow> True | _ \<Rightarrow> False)"
      by code_simp
    ultimately show thesis using that by (cases v; cases "fst v") auto
  next
    case (Inl e)
    moreover have "(case rotate_token demo_sha ''acme'' ''tok-c'' 2 demo_tenants of Inr _ \<Rightarrow> True | _ \<Rightarrow> False)"
      by code_simp
    ultimately show thesis by simp
  qed
  have facts: "credential (demo_sha ''tok-c'') demo_tenants = None" "demo_sha ''tok-a'' \<noteq> demo_sha ''tok-c''"
    "meaning_of demo_tenants (demo_sha ''tok-a'') = Some (js_trim ''acme'', None)" by code_simp+
  from rotation_revokes [OF demo_sha_ok demo_tenants_wf facts(1) result, of "demo_sha ''tok-a''"] facts(2,3) result
  show ?thesis by (simp add: result_db_def)
qed

theorem suspension_stops_tokens_witness:
  "authenticate_tenant demo_sha None 3 (Some ''Bearer tok-b'') None
     (tenant_step demo_sha 2 (Set_Status ''acme'' T_Suspended) demo_tenants) = Inr None \<and>
   authenticate_tenant demo_sha None 3 None (Some ''tok-b'')
     (tenant_step demo_sha 2 (Set_Status ''acme'' T_Suspended) demo_tenants) = Inr None"
proof -
  obtain r db' where result: "set_tenant_status ''acme'' T_Suspended 2 demo_tenants = Inr (Some r, db')"
  proof (cases "set_tenant_status ''acme'' T_Suspended 2 demo_tenants")
    case (Inr v)
    moreover have "(case set_tenant_status ''acme'' T_Suspended 2 demo_tenants of Inr (Some _, _) \<Rightarrow> True | _ \<Rightarrow> False)"
      by code_simp
    ultimately show thesis using that by (cases v; cases "fst v") auto
  next
    case (Inl e)
    moreover have "(case set_tenant_status ''acme'' T_Suspended 2 demo_tenants of Inr _ \<Rightarrow> True | _ \<Rightarrow> False)"
      by code_simp
    ultimately show thesis by simp
  qed
  have active: "T_Suspended \<noteq> T_Active" by simp
  have header: "first_some (bearer_token (Some ''Bearer tok-b'')) (path_token None) = Some ''tok-b''"
    and path: "first_some (bearer_token None) (path_token (Some ''tok-b'')) = Some ''tok-b''"
    and known: "meaning_of demo_tenants (demo_sha ''tok-b'') = Some (js_trim ''acme'', Some ''reader'')" by code_simp+
  from suspension_stops_tokens [OF demo_sha_ok demo_tenants_wf result active header known, of None 3]
    suspension_stops_tokens [OF demo_sha_ok demo_tenants_wf result active path known, of None 3] result
  show ?thesis by (simp add: result_db_def)
qed

theorem scoped_token_stays_scoped_witness:
  "\<exists>ctx. authenticate_tenant demo_sha None 4 (Some ''Bearer tok-b'') None (tenant_run demo_sha demo_later demo_tenants) =
      Inr (Some (ctx, Some ''reader'')) \<and> tc_id ctx = ''acme'' \<and> unprofiled_tenant (Some (ctx, Some ''reader'')) = None \<and>
    set (tools_for (Some ''reader'') None (\<lambda>p. if p = ''reader'' then Some [''read''] else None) [''read'', ''write'']) \<subseteq> {''read''}"
proof -
  obtain ctx v where auth: "authenticate_tenant demo_sha None 4 (Some ''Bearer tok-b'') None
      (tenant_run demo_sha demo_later demo_tenants) = Inr (Some (ctx, v))"
  proof (cases "authenticate_tenant demo_sha None 4 (Some ''Bearer tok-b'') None (tenant_run demo_sha demo_later demo_tenants)")
    case (Inr w)
    moreover have "(case authenticate_tenant demo_sha None 4 (Some ''Bearer tok-b'') None
        (tenant_run demo_sha demo_later demo_tenants) of Inr (Some _) \<Rightarrow> True | _ \<Rightarrow> False)" by code_simp
    ultimately show thesis using that by (cases w) auto
  next
    case (Inl e)
    moreover have "(case authenticate_tenant demo_sha None 4 (Some ''Bearer tok-b'') None
        (tenant_run demo_sha demo_later demo_tenants) of Inr _ \<Rightarrow> True | _ \<Rightarrow> False)" by code_simp
    ultimately show thesis by simp
  qed
  have bearer: "bearer_token (Some ''Bearer tok-b'') = Some ''tok-b''" by code_simp
  from scoped_token_stays_scoped [OF demo_sha_ok demo_tenants_wf demo_later_fresh demo_later_bound demo_meaning bearer _ auth,
      of None "\<lambda>p. if p = ''reader'' then Some [''read''] else None" "[''read'', ''write'']"] auth
  show ?thesis by auto
qed

end
