(* ===== verification/Exec_Queue.thy ===== *)
theory Exec_Queue
  imports Prelude
begin

text \<open>
  The execution queue (packages/server/src/executionQueue.ts): the lifecycle of an execution ticket
  and the scheduling of tickets under a concurrency cap.

  The handlers of the queue are asynchronous. Between two awaits a handler runs alone; at an await the
  other handlers can run. The model keeps this: a handler that waits is a task, a stack of frames, each
  naming the place in the code where a function waits and the values it still needs. \<open>resume\<close> runs the
  top frame up to the next await, and the step relation of \<open>Exec_System\<close> picks any task.

  \<^item> The tickets of the \<open>Map\<close> are a list in insertion order. Each ticket is one shared object that is
    never replaced, so a handler that holds a ticket across an await reads its present fields.
  \<^item> The seams (\<open>onChange\<close>, \<open>report\<close>, \<open>launch\<close>, \<open>ship\<close>) are calls to the environment, answered by a
    reply: a value, or the message of an error. A seam that is not given answers at once.
  \<^item> An exception ends the task, unless a frame on its stack catches it: \<open>launch\<close> and \<open>ship\<close> failures
    are caught where they are awaited, and no other await is inside a \<open>try\<close>.
  \<^item> A call in tail position needs no frame.
\<close>

section \<open>Tickets\<close>

datatype exec_state = X_Queued | X_Running | X_Review | X_Approved | X_Done | X_Blocked | X_Failed

datatype exec_effort = Low_Effort | Medium_Effort | High_Effort | Max_Effort

record deliverable =
  dl_repo :: "string option"
  dl_issue :: "int option"
  dl_pr_url :: "string option"
  dl_branch :: "string option"
  dl_head_sha :: "string option"
  dl_merged :: "bool option"
  dl_paths :: "string list option"
  dl_handoff :: "string option"

record ticket =
  x_id :: string
  x_target :: string
  x_context :: string
  x_effort :: "exec_effort option"
  x_state :: exec_state
  x_evidence :: "string option"
  x_note :: "string option"
  x_final :: "string option"
  x_outward :: "bool option"
  x_notify :: "bool option"
  x_deliverable :: "deliverable option"
  x_started :: "int option"
  x_phase :: "string option"
  x_progress :: "string option"
  x_events :: "string list option"
  x_transcript :: "string option"
  x_updated :: int

record exec_event =
  v_id :: string
  v_state :: exec_state
  v_evidence :: "string option"
  v_note :: "string option"
  v_deliverable :: "deliverable option"

text \<open>The table of legal transitions.\<close>

fun transitions :: "exec_state \<Rightarrow> exec_state list" where
  "transitions X_Queued = [X_Running]"
| "transitions X_Running = [X_Review, X_Done, X_Blocked, X_Failed]"
| "transitions X_Review = [X_Approved, X_Failed]"
| "transitions X_Approved = [X_Done, X_Failed]"
| "transitions X_Blocked = [X_Queued, X_Failed]"
| "transitions X_Done = []"
| "transitions X_Failed = []"

definition restart_note :: string where
  "restart_note = ''interrupted by a server restart''"

definition restart_interrupted :: "ticket \<Rightarrow> bool" where
  "restart_interrupted t \<longleftrightarrow> x_state t = X_Blocked \<and> x_note t = Some restart_note"

datatype exec_error =
  Illegal_Transition string exec_state exec_state
| Unknown_Execution string
| Seam_Error string

type_synonym tickets = "ticket list"

definition ticket_of :: "string \<Rightarrow> tickets \<Rightarrow> ticket option" where
  "ticket_of i q = find (\<lambda>t. x_id t = i) q"

text \<open>Writing the fields of the ticket object.\<close>

definition put_ticket :: "ticket \<Rightarrow> tickets \<Rightarrow> tickets" where
  "put_ticket t q = map (\<lambda>u. if x_id u = x_id t then t else u) q"

text \<open>\<open>Map.set\<close>.\<close>

definition set_ticket :: "ticket \<Rightarrow> tickets \<Rightarrow> tickets" where
  "set_ticket t q = (if ticket_of (x_id t) q = None then q @ [t] else put_ticket t q)"

text \<open>The constructor: the cap must be a positive integer.\<close>

definition new_queue :: "js_number \<Rightarrow> ticket list \<Rightarrow> string + (nat \<times> tickets)" where
  "new_queue concurrency initial =
     (case concurrency of
        Jother \<Rightarrow> Inl ''concurrency must be a positive integer''
      | Jint n \<Rightarrow> if n < 1 then Inl ''concurrency must be a positive integer''
                  else Inr (nat n, fold set_ticket initial []))"

definition running_count :: "tickets \<Rightarrow> nat" where
  "running_count q = count_where (\<lambda>t. x_state t = X_Running) q"

section \<open>Seams and waiting tasks\<close>

datatype seam_call =
  Call_Persist ticket
| Call_Report exec_event
| Call_Launch ticket
| Call_Ship ticket

datatype reply = Replied string | Rejected string

datatype frame =
  F_Enqueued
| F_Started string
| F_Reported string
| F_Launched string
| F_Loop
| F_Outcome_Saved string exec_state
| F_Edge_Reported
| F_Blocked_Saved string string
| F_Approve_Saved string
| F_Shipped string
| F_Approve_Done string string
| F_Unblocked
| F_Fail_Saved string "string option"
| F_Last

text \<open>
  How a run of a handler up to its next await ends: it waits for a seam, it returns to the frames
  below, or it throws. \<open>F_Last\<close> is an await with nothing after it.
\<close>

datatype outcome = Waits seam_call "frame list" | Returns "frame list" | Throws exec_error

type_synonym run = "outcome \<times> tickets"

section \<open>The steps of the handlers\<close>

text \<open>\<open>change t to now f ks q\<close>: \<open>transition\<close> of the ticket with the fields \<open>t\<close> up to its await, to
  go on at \<open>f\<close>.\<close>

definition stamped :: "int \<Rightarrow> exec_state \<Rightarrow> ticket \<Rightarrow> ticket" where
  "stamped now to t =
     (let u = t\<lparr>x_state := to, x_updated := now\<rparr>
      in if to = X_Running \<and> (x_started t = None \<or> x_started t = Some 0) then u\<lparr>x_started := Some now\<rparr> else u)"

definition change :: "ticket \<Rightarrow> exec_state \<Rightarrow> int \<Rightarrow> frame \<Rightarrow> frame list \<Rightarrow> tickets \<Rightarrow> run" where
  "change t to now f ks q =
     (if to \<notin> set (transitions (x_state t)) then (Throws (Illegal_Transition (x_id t) (x_state t) to), put_ticket t q)
      else (Waits (Call_Persist (stamped now to t)) (f # ks), put_ticket (stamped now to t) q))"

definition next_queued :: "nat \<Rightarrow> tickets \<Rightarrow> ticket option" where
  "next_queued cap q =
     (if running_count q < cap then first_row (order_by x_updated (filter (\<lambda>t. x_state t = X_Queued) q)) else None)"

text \<open>The head of the loop of \<open>pump\<close>.\<close>

definition pump :: "nat \<Rightarrow> int \<Rightarrow> frame list \<Rightarrow> tickets \<Rightarrow> run" where
  "pump cap now ks q =
     (case next_queued cap q of
        None \<Rightarrow> (Returns ks, q)
      | Some t \<Rightarrow> change t X_Running now (F_Started (x_id t)) ks q)"

definition fail :: "string \<Rightarrow> string option \<Rightarrow> int \<Rightarrow> frame list \<Rightarrow> tickets \<Rightarrow> run" where
  "fail i note now ks q =
     (case ticket_of i q of
        None \<Rightarrow> (Throws (Unknown_Execution i), q)
      | Some t \<Rightarrow>
          if x_state t = X_Done \<or> x_state t = X_Failed then (Returns ks, q)
          else change (case note of None \<Rightarrow> t | Some n \<Rightarrow> t\<lparr>x_note := Some n\<rparr>) X_Failed now
                 (F_Fail_Saved i note) ks q)"

definition report_of :: "string \<Rightarrow> exec_state \<Rightarrow> exec_event" where
  "report_of i st = \<lparr>v_id = i, v_state = st, v_evidence = None, v_note = None, v_deliverable = None\<rparr>"

text \<open>The answer of a seam, for an await outside any \<open>try\<close>.\<close>

definition ok_or_throw :: "reply \<Rightarrow> tickets \<Rightarrow> run \<Rightarrow> run" where
  "ok_or_throw r q k = (case r of Rejected e \<Rightarrow> (Throws (Seam_Error e), q) | Replied _ \<Rightarrow> k)"

text \<open>The ticket object a frame holds; it is always in the map.\<close>

definition with_ticket :: "string \<Rightarrow> tickets \<Rightarrow> (ticket \<Rightarrow> run) \<Rightarrow> run" where
  "with_ticket i q k = (case ticket_of i q of None \<Rightarrow> (Throws (Unknown_Execution i), q) | Some t \<Rightarrow> k t)"

definition newline :: char where "newline = CHR 0x0A"

definition guided :: "string option \<Rightarrow> ticket \<Rightarrow> ticket" where
  "guided guidance t =
     (case guidance of
        None \<Rightarrow> t
      | Some g \<Rightarrow> if g = [] then t
                  else t\<lparr>x_context := x_context t @ [newline, newline] @ ''[unblock guidance] '' @ g\<rparr>)"

fun resume :: "nat \<Rightarrow> int \<Rightarrow> reply \<Rightarrow> frame \<Rightarrow> frame list \<Rightarrow> tickets \<Rightarrow> run" where
  "resume cap now r F_Enqueued ks q = ok_or_throw r q (pump cap now ks q)"
| "resume cap now r (F_Started i) ks q =
     ok_or_throw r q (Waits (Call_Report (report_of i X_Running)) (F_Reported i # ks), q)"
| "resume cap now r (F_Reported i) ks q =
     ok_or_throw r q (with_ticket i q (\<lambda>t. (Waits (Call_Launch t) (F_Launched i # ks), q)))"
| "resume cap now (Replied _) (F_Launched i) ks q = pump cap now ks q"
| "resume cap now (Rejected e) (F_Launched i) ks q = fail i (Some (''launch failed: '' @ e)) now (F_Loop # ks) q"
| "resume cap now r F_Loop ks q = ok_or_throw r q (pump cap now ks q)"
| "resume cap now r (F_Outcome_Saved i to) ks q =
     ok_or_throw r q (with_ticket i q (\<lambda>t.
       (Waits (Call_Report \<lparr>v_id = i, v_state = to, v_evidence = x_evidence t, v_note = x_note t,
                            v_deliverable = x_deliverable t\<rparr>) (F_Edge_Reported # ks), q)))"
| "resume cap now r F_Edge_Reported ks q = ok_or_throw r q (pump cap now ks q)"
| "resume cap now r (F_Blocked_Saved i note) ks q =
     ok_or_throw r q (Waits (Call_Report ((report_of i X_Blocked)\<lparr>v_note := Some note\<rparr>)) (F_Edge_Reported # ks), q)"
| "resume cap now r (F_Approve_Saved i) ks q =
     ok_or_throw r q (with_ticket i q (\<lambda>t. (Waits (Call_Ship t) (F_Shipped i # ks), q)))"
| "resume cap now (Rejected e) (F_Shipped i) ks q = fail i (Some (''ship failed: '' @ e)) now (F_Last # ks) q"
| "resume cap now (Replied url) (F_Shipped i) ks q =
     with_ticket i q (\<lambda>t. change (t\<lparr>x_evidence := Some url\<rparr>) X_Done now (F_Approve_Done i url) ks q)"
| "resume cap now r (F_Approve_Done i url) ks q =
     ok_or_throw r q (Waits (Call_Report ((report_of i X_Done)\<lparr>v_evidence := Some url\<rparr>)) (F_Last # ks), q)"
| "resume cap now r F_Unblocked ks q = ok_or_throw r q (pump cap now ks q)"
| "resume cap now r (F_Fail_Saved i note) ks q =
     ok_or_throw r q (Waits (Call_Report ((report_of i X_Failed)\<lparr>v_note := note\<rparr>)) (F_Edge_Reported # ks), q)"
| "resume cap now r F_Last ks q = ok_or_throw r q (Returns ks, q)"

section \<open>The operations\<close>

datatype exec_request =
  Enqueue string string string "exec_effort option" "bool option"
| Report_Outcome string bool "string option" "string option" "deliverable option"
| Record_Progress string "string option" "string option" "string list option" "string option"
| Record_Transcript string string
| Report_Blocked string string
| Approve string "string option"
| Unblock string "string option"
| Resume_Queue
| Fail string "string option"

definition enqueue :: "string \<Rightarrow> string \<Rightarrow> string \<Rightarrow> exec_effort option \<Rightarrow> bool option \<Rightarrow> int \<Rightarrow> tickets \<Rightarrow> run" where
  "enqueue i target context effort notify now q =
     (if ticket_of i q \<noteq> None then (Returns [], q)
      else
        let t = \<lparr>x_id = i, x_target = target, x_context = context, x_effort = effort, x_state = X_Queued,
                 x_evidence = None, x_note = None, x_final = None, x_outward = None,
                 x_notify = (if notify = Some False then Some False else None), x_deliverable = None,
                 x_started = None, x_phase = None, x_progress = None, x_events = None, x_transcript = None,
                 x_updated = now\<rparr>
        in (Waits (Call_Persist t) [F_Enqueued], q @ [t]))"

definition or_else :: "'a option \<Rightarrow> 'a option \<Rightarrow> 'a option" where
  "or_else v w = (case v of None \<Rightarrow> w | Some _ \<Rightarrow> v)"

definition report_outcome ::
  "string \<Rightarrow> bool \<Rightarrow> string option \<Rightarrow> string option \<Rightarrow> deliverable option \<Rightarrow> int \<Rightarrow> tickets \<Rightarrow> run" where
  "report_outcome i outward evidence note manifest now q =
     with_ticket i q (\<lambda>t0.
       let t = (if restart_interrupted t0 then t0\<lparr>x_state := X_Running, x_note := None\<rparr> else t0) in
       if x_state t \<noteq> X_Running then (Returns [], q)
       else
         let to = (if outward then X_Review else X_Done) in
         change (t\<lparr>x_outward := Some outward, x_evidence := or_else evidence (x_evidence t),
                   x_note := or_else note (x_note t), x_deliverable := or_else manifest (x_deliverable t)\<rparr>)
           to now (F_Outcome_Saved i to) [] q)"

definition record_progress ::
  "string \<Rightarrow> string option \<Rightarrow> string option \<Rightarrow> string list option \<Rightarrow> string option \<Rightarrow> int \<Rightarrow> tickets \<Rightarrow> run"
  where
  "record_progress i phase note events url now q =
     (case ticket_of i q of
        None \<Rightarrow> (Returns [], q)
      | Some t \<Rightarrow>
          if x_state t \<noteq> X_Running then (Returns [], q)
          else
            let u = t\<lparr>x_phase := or_else phase (x_phase t), x_progress := or_else note (x_progress t),
                      x_events := or_else events (x_events t), x_transcript := or_else url (x_transcript t),
                      x_updated := now\<rparr>
            in (Waits (Call_Persist u) [F_Last], put_ticket u q))"

definition record_transcript_url :: "string \<Rightarrow> string \<Rightarrow> int \<Rightarrow> tickets \<Rightarrow> run" where
  "record_transcript_url i url now q =
     (case ticket_of i q of
        None \<Rightarrow> (Returns [], q)
      | Some t \<Rightarrow>
          let u = t\<lparr>x_transcript := Some url, x_updated := now\<rparr>
          in (Waits (Call_Persist u) [F_Last], put_ticket u q))"

definition report_blocked :: "string \<Rightarrow> string \<Rightarrow> int \<Rightarrow> tickets \<Rightarrow> run" where
  "report_blocked i note now q =
     with_ticket i q (\<lambda>t.
       if x_state t \<noteq> X_Running then (Returns [], q)
       else change (t\<lparr>x_note := Some note\<rparr>) X_Blocked now (F_Blocked_Saved i note) [] q)"

definition approve :: "string \<Rightarrow> string option \<Rightarrow> int \<Rightarrow> tickets \<Rightarrow> run" where
  "approve i content now q =
     with_ticket i q (\<lambda>t.
       if x_state t = X_Done \<or> x_state t = X_Approved then (Returns [], q)
       else if x_state t \<noteq> X_Review then (Throws (Illegal_Transition i (x_state t) X_Approved), q)
       else change (t\<lparr>x_final := or_else content (x_final t)\<rparr>) X_Approved now (F_Approve_Saved i) [] q)"

definition unblock :: "string \<Rightarrow> string option \<Rightarrow> int \<Rightarrow> tickets \<Rightarrow> run" where
  "unblock i guidance now q =
     with_ticket i q (\<lambda>t.
       if x_state t \<noteq> X_Blocked then (Returns [], q)
       else change (guided guidance t) X_Queued now F_Unblocked [] q)"

fun start :: "nat \<Rightarrow> int \<Rightarrow> exec_request \<Rightarrow> tickets \<Rightarrow> run" where
  "start cap now (Enqueue i target context effort notify) q = enqueue i target context effort notify now q"
| "start cap now (Report_Outcome i outward evidence note manifest) q =
     report_outcome i outward evidence note manifest now q"
| "start cap now (Record_Progress i phase note events url) q = record_progress i phase note events url now q"
| "start cap now (Record_Transcript i url) q = record_transcript_url i url now q"
| "start cap now (Report_Blocked i note) q = report_blocked i note now q"
| "start cap now (Approve i content) q = approve i content now q"
| "start cap now (Unblock i guidance) q = unblock i guidance now q"
| "start cap now Resume_Queue q = pump cap now [] q"
| "start cap now (Fail i note) q = fail i note now [] q"

text \<open>The reads.\<close>

definition snapshot :: "tickets \<Rightarrow> ticket list" where
  "snapshot q = order_by (\<lambda>t. - x_updated t) q"

section \<open>Failing a ticket\<close>

text \<open>
  A ticket is failed from every state but two: from running, review, approved and blocked it goes
  to failed with the note, and the failure is reported; done and failed tickets are left alone. A
  queued ticket cannot be failed: the call throws, after it has written the note.\<close>

theorem fail_outcome:
  assumes "ticket_of i q = Some t"
  shows "fail i nt now ks q =
    (let u = (case nt of None \<Rightarrow> t | Some n \<Rightarrow> t\<lparr>x_note := Some n\<rparr>);
         v = u\<lparr>x_state := X_Failed, x_updated := now\<rparr>
     in if x_state t \<in> {X_Done, X_Failed} then (Returns ks, q)
        else if x_state t = X_Queued then (Throws (Illegal_Transition (x_id t) X_Queued X_Failed), put_ticket u q)
        else (Waits (Call_Persist v) (F_Fail_Saved i nt # ks), put_ticket v q)) \<and>
    resume cap now' (Replied r) (F_Fail_Saved i nt) ks q' =
      (Waits (Call_Report ((report_of i X_Failed)\<lparr>v_note := nt\<rparr>)) (F_Edge_Reported # ks), q')"
  using assms
  by (cases "x_state t"; cases nt) (simp_all add: fail_def change_def stamped_def Let_def ok_or_throw_def)

end
