(* ===== verification/Exec_System.thy ===== *)
theory Exec_System
  imports Exec_Queue
begin

text \<open>
  The execution queue as a whole: tickets, waiting tasks, a log of what was asked, called and
  answered, and the exceptions that ended tasks. A move is a new request or the answer to what one of
  the waiting tasks waits for; requests and answers come in any order.
\<close>

section \<open>The system\<close>

datatype happening = Asked exec_request | Called seam_call | Answered "seam_call option" reply

record exec_system =
  sy_tickets :: tickets
  sy_tasks :: "(seam_call option \<times> frame list) list"
  sy_log :: "happening list"
  sy_errors :: "exec_error list"

definition boot :: "tickets \<Rightarrow> exec_system" where
  "boot q = \<lparr>sy_tickets = q, sy_tasks = [], sy_log = [], sy_errors = []\<rparr>"

fun settle :: "run \<Rightarrow> exec_system \<Rightarrow> exec_system" where
  "settle (Waits c ks, q) s = s\<lparr>sy_tickets := q, sy_tasks := sy_tasks s @ [(Some c, ks)],
     sy_log := sy_log s @ [Called c]\<rparr>"
| "settle (Returns [], q) s = s\<lparr>sy_tickets := q\<rparr>"
| "settle (Returns (f # ks), q) s = s\<lparr>sy_tickets := q, sy_tasks := sy_tasks s @ [(None, f # ks)]\<rparr>"
| "settle (Throws e, q) s = s\<lparr>sy_tickets := q, sy_errors := sy_errors s @ [e]\<rparr>"

definition ask :: "nat \<Rightarrow> int \<Rightarrow> exec_request \<Rightarrow> exec_system \<Rightarrow> exec_system" where
  "ask cap now rq s = settle (start cap now rq (sy_tickets s)) (s\<lparr>sy_log := sy_log s @ [Asked rq]\<rparr>)"

definition answer :: "nat \<Rightarrow> int \<Rightarrow> seam_call option \<Rightarrow> frame \<Rightarrow> frame list \<Rightarrow> reply \<Rightarrow> exec_system \<Rightarrow> exec_system"
  where
  "answer cap now w f ks r s =
     settle (resume cap now r f ks (sy_tickets s)) (s\<lparr>sy_log := sy_log s @ [Answered w r]\<rparr>)"

definition without :: "nat \<Rightarrow> 'a list \<Rightarrow> 'a list" where
  "without n xs = take n xs @ drop (Suc n) xs"

text \<open>An inner call that has returned is answered with a value.\<close>

definition fits :: "seam_call option \<Rightarrow> reply \<Rightarrow> bool" where
  "fits w r \<longleftrightarrow> w \<noteq> None \<or> (case r of Replied _ \<Rightarrow> True | Rejected _ \<Rightarrow> False)"

datatype exec_move = Ask int exec_request | Answer int nat reply

fun do_move :: "nat \<Rightarrow> exec_move \<Rightarrow> exec_system \<Rightarrow> exec_system" where
  "do_move cap (Ask now rq) s = ask cap now rq s"
| "do_move cap (Answer now n r) s =
     (if n < length (sy_tasks s) then
        (case sy_tasks s ! n of
           (w, []) \<Rightarrow> s
         | (w, f # ks) \<Rightarrow>
             if fits w r then answer cap now w f ks r (s\<lparr>sy_tasks := without n (sy_tasks s)\<rparr>) else s)
      else s)"

inductive exec_step :: "nat \<Rightarrow> exec_system \<Rightarrow> exec_system \<Rightarrow> bool" for cap :: nat where
  asks: "exec_step cap s (ask cap now rq s)"
| answers: "sy_tasks s = xs @ (w, f # ks) # ys \<Longrightarrow> fits w r \<Longrightarrow>
    exec_step cap s (answer cap now w f ks r (s\<lparr>sy_tasks := xs @ ys\<rparr>))"

inductive_cases exec_stepE: "exec_step cap s t"

lemma do_move_follows: "(exec_step cap)\<^sup>*\<^sup>* s (do_move cap m s)"
proof (cases m)
  case (Ask now rq)
  then show ?thesis by (auto intro: exec_step.asks)
next
  case (Answer now n r)
  show ?thesis
  proof (cases "n < length (sy_tasks s) \<and> snd (sy_tasks s ! n) \<noteq> [] \<and> fits (fst (sy_tasks s ! n)) r")
    case True
    then obtain w f ks where t: "sy_tasks s ! n = (w, f # ks)" "fits w r" "n < length (sy_tasks s)"
      by (cases "sy_tasks s ! n") (auto simp: neq_Nil_conv)
    then have "sy_tasks s = take n (sy_tasks s) @ (w, f # ks) # drop (Suc n) (sy_tasks s)"
      by (metis id_take_nth_drop)
    with t Answer show ?thesis
      by (auto simp: without_def intro!: r_into_rtranclp exec_step.answers)
  next
    case False
    with Answer show ?thesis by (auto split: list.splits prod.splits)
  qed
qed

interpretation exec_ops: operations "do_move cap" "exec_step cap" for cap
  by unfold_locales (rule do_move_follows)

section \<open>Tickets under one action\<close>

lemma ticket_of_id: "ticket_of i q = Some t \<Longrightarrow> x_id t = i \<and> t \<in> set q"
  by (auto simp: ticket_of_def dest: find_Some_iff_in)

lemma ticket_of_put:
  "ticket_of i (put_ticket t q) = (if i = x_id t \<and> ticket_of i q \<noteq> None then Some t else ticket_of i q)"
  by (induction q) (auto simp: ticket_of_def put_ticket_def)

lemma ticket_of_snoc:
  "ticket_of i (q @ [t]) = (case ticket_of i q of None \<Rightarrow> if x_id t = i then Some t else None | Some u \<Rightarrow> Some u)"
  by (auto simp: ticket_of_def find_append split: option.splits)

lemma put_ids [simp]: "map x_id (put_ticket t q) = map x_id q"
  by (simp add: put_ticket_def)

lemma ticket_of_member:
  "distinct (map x_id q) \<Longrightarrow> t \<in> set q \<Longrightarrow> ticket_of (x_id t) q = Some t"
  unfolding ticket_of_def by (rule find_unique) auto

lemma in_put:
  "u \<in> set (put_ticket t q) \<Longrightarrow> u = t \<or> (u \<in> set q \<and> x_id u \<noteq> x_id t)"
  by (auto simp: put_ticket_def)

text \<open>Counting the tickets of a state when one ticket changes.\<close>

lemma count_put:
  assumes "distinct (map x_id q)" and "ticket_of (x_id t') q = Some t"
  shows "count_where p (put_ticket t' q) + (if p t then 1 else 0) = count_where p q + (if p t' then 1 else 0)"
  using assms
proof (induction q)
  case Nil
  then show ?case by (simp add: ticket_of_def)
next
  case (Cons u q)
  show ?case
  proof (cases "x_id u = x_id t'")
    case True
    with Cons.prems have "u = t" and "x_id t' \<notin> x_id ` set q" by (auto simp: ticket_of_def)
    moreover from this have "put_ticket t' q = q"
      unfolding put_ticket_def by (intro map_idI) (metis image_eqI)
    ultimately show ?thesis using True by (simp add: put_ticket_def count_where_def)
  next
    case False
    with Cons show ?thesis by (simp add: put_ticket_def count_where_def ticket_of_def)
  qed
qed

text \<open>The changes an action can make to one ticket: a legal edge, or the settling of a run that a restart
  interrupted. \<open>rq\<close> is the request that is starting, if one is; \<open>sh\<close> the ticket that was
  shipped and the URL the shipper answered, if the action is that answer.\<close>

definition state_edge :: "ticket \<Rightarrow> ticket \<Rightarrow> bool" where
  "state_edge t t' \<longleftrightarrow> x_state t' = x_state t \<or> x_state t' \<in> set (transitions (x_state t)) \<or>
     restart_interrupted t \<and> x_state t' \<in> {X_Review, X_Done}"

definition ticket_edge ::
  "nat \<Rightarrow> tickets \<Rightarrow> exec_request option \<Rightarrow> (string \<times> string) option \<Rightarrow> ticket \<Rightarrow> ticket \<Rightarrow> bool" where
  "ticket_edge cap q rq sh t t' \<longleftrightarrow>
     x_id t' = x_id t \<and> x_target t' = x_target t \<and> state_edge t t' \<and>
     (x_state t' = X_Running \<longrightarrow> x_state t = X_Running \<or> running_count q < cap) \<and>
     (x_state t' = X_Approved \<longrightarrow> x_state t = X_Approved \<or> (\<exists>c. rq = Some (Approve (x_id t) c))) \<and>
     (x_state t' = X_Done \<longrightarrow>
        x_state t = X_Done \<and> x_evidence t' = x_evidence t \<and> x_outward t' = x_outward t
        \<or> x_outward t' = Some False \<or> (\<exists>url. sh = Some (x_id t, url) \<and> x_evidence t' = Some url \<and> x_outward t' = x_outward t)) \<and>
     (x_state t = X_Approved \<longrightarrow> x_outward t' = x_outward t) \<and>
     (x_state t' = X_Approved \<longrightarrow> x_outward t' = x_outward t) \<and>
     (\<forall>n. x_started t = Some n \<and> n \<noteq> 0 \<longrightarrow> x_started t' = Some n)"

inductive queue_act ::
  "nat \<Rightarrow> exec_request option \<Rightarrow> (string \<times> string) option \<Rightarrow> tickets \<Rightarrow> tickets \<Rightarrow> bool"
  for cap :: nat and rq :: "exec_request option" and sh :: "(string \<times> string) option" where
  same: "queue_act cap rq sh q q"
| new: "ticket_of (x_id t) q = None \<Longrightarrow> x_state t = X_Queued \<Longrightarrow> queue_act cap rq sh q (q @ [t])"
| moved: "ticket_of (x_id t) q = Some t \<Longrightarrow> ticket_edge cap q rq sh t t' \<Longrightarrow>
    queue_act cap rq sh q (put_ticket t' q)"

lemma transitions_fixed: "X_Approved \<in> set (transitions st) \<Longrightarrow> st = X_Review"
  "X_Running \<in> set (transitions st) \<Longrightarrow> st = X_Queued"
  "X_Queued \<in> set (transitions st) \<Longrightarrow> st = X_Blocked"
  "X_Done \<in> set (transitions st) \<Longrightarrow> st = X_Running \<or> st = X_Approved"
  by (cases st; simp)+

lemma stamped_fields [simp]:
  "x_id (stamped now to t) = x_id t" "x_target (stamped now to t) = x_target t"
  "x_state (stamped now to t) = to" "x_outward (stamped now to t) = x_outward t"
  "x_evidence (stamped now to t) = x_evidence t" "x_note (stamped now to t) = x_note t"
  by (simp_all add: stamped_def Let_def)

lemma stamped_started: "x_started t = Some n \<Longrightarrow> n \<noteq> 0 \<Longrightarrow> x_started (stamped now to t) = Some n"
  by (simp add: stamped_def Let_def)

text \<open>What \<open>change\<close> does to the queue: \<open>u\<close> is the ticket found, \<open>t\<close> the ticket with fields already
  written.\<close>

lemma change_act:
  assumes "ticket_of (x_id u) q = Some u" and "change t to now f ks q = (out, q')"
    and "x_state t = x_state u \<Longrightarrow> ticket_edge cap q rq sh u t"
    and "to \<in> set (transitions (x_state t)) \<Longrightarrow> ticket_edge cap q rq sh u (stamped now to t)"
    and "to \<notin> set (transitions (x_state t)) \<Longrightarrow> x_state t = x_state u"
  shows "queue_act cap rq sh q q'"
  using assms by (auto simp: change_def intro: queue_act.moved split: if_splits)


lemma pump_act:
  assumes "distinct (map x_id q)" and "pump cap now ks q = (out, q')"
  shows "queue_act cap rq sh q q'"
proof (cases "next_queued cap q")
  case None
  with assms(2) show ?thesis by (auto simp: pump_def intro: queue_act.same)
next
  case (Some t)
  then have t: "running_count q < cap" "t \<in> set q" "x_state t = X_Queued"
    by (auto simp: next_queued_def dest!: first_row_Some split: if_splits)
  with assms(1) have "ticket_of (x_id t) q = Some t" by (simp add: ticket_of_member)
  moreover have "ticket_edge cap q rq sh t (stamped now X_Running t)"
    using t by (auto simp: ticket_edge_def state_edge_def stamped_started)
  ultimately show ?thesis
    using assms(2) t Some by (auto simp: pump_def change_def intro: queue_act.moved)
qed

lemma fail_act:
  assumes "fail i note now ks q = (out, q')"
  shows "queue_act cap rq sh q q'"
proof (cases "ticket_of i q")
  case None
  with assms show ?thesis by (auto simp: fail_def intro: queue_act.same)
next
  case (Some t)
  then have t: "ticket_of (x_id t) q = Some t" by (auto dest: ticket_of_id)
  let ?t = "case note of None \<Rightarrow> t | Some n \<Rightarrow> t\<lparr>x_note := Some n\<rparr>"
  show ?thesis
  proof (cases "x_state t = X_Done \<or> x_state t = X_Failed")
    case True
    with assms Some show ?thesis by (auto simp: fail_def intro: queue_act.same)
  next
    case False
    with assms Some have run: "change ?t X_Failed now (F_Fail_Saved i note) ks q = (out, q')"
      by (simp add: fail_def)
    have edge: "ticket_edge cap q rq sh t ?t"
      using False by (auto simp: ticket_edge_def state_edge_def split: option.splits)
    have "ticket_edge cap q rq sh t (stamped now X_Failed ?t)" if "X_Failed \<in> set (transitions (x_state ?t))"
      using that False by (auto simp: ticket_edge_def state_edge_def stamped_started split: option.splits)
    from change_act [OF t run edge this] show ?thesis by (auto split: option.splits)
  qed
qed


lemmas edge_simps = ticket_edge_def state_edge_def stamped_started or_else_def

lemma with_ticket_act:
  assumes "with_ticket i q k = (out, q')"
    and "\<And>t. ticket_of (x_id t) q = Some t \<Longrightarrow> x_id t = i \<Longrightarrow> k t = (out, q') \<Longrightarrow> queue_act cap rq sh q q'"
  shows "queue_act cap rq sh q q'"
  using assms by (auto simp: with_ticket_def dest: ticket_of_id intro: queue_act.same split: option.splits)

lemma ok_or_throw_act:
  assumes "ok_or_throw r q k = (out, q')" and "k = (out, q') \<Longrightarrow> queue_act cap rq sh q q'"
  shows "queue_act cap rq sh q q'"
  using assms by (auto simp: ok_or_throw_def intro: queue_act.same split: reply.splits)

lemma report_outcome_act:
  assumes "report_outcome i outward evidence note manifest now q = (out, q')"
  shows "queue_act cap rq sh q q'"
  using assms unfolding report_outcome_def
proof (rule with_ticket_act)
  fix t0
  let ?t = "if restart_interrupted t0 then t0\<lparr>x_state := X_Running, x_note := None\<rparr> else t0"
  let ?to = "if outward then X_Review else X_Done"
  let ?u = "?t\<lparr>x_outward := Some outward, x_evidence := or_else evidence (x_evidence ?t),
      x_note := or_else note (x_note ?t), x_deliverable := or_else manifest (x_deliverable ?t)\<rparr>"
  assume t: "ticket_of (x_id t0) q = Some t0" "x_id t0 = i"
    and run: "(let t = ?t in if x_state t \<noteq> X_Running then (Returns [], q)
      else let to = ?to in change (t\<lparr>x_outward := Some outward, x_evidence := or_else evidence (x_evidence t),
        x_note := or_else note (x_note t), x_deliverable := or_else manifest (x_deliverable t)\<rparr>)
        to now (F_Outcome_Saved i to) [] q) = (out, q')"
  show "queue_act cap rq sh q q'"
  proof (cases "x_state ?t = X_Running")
    case True
    with run have "change ?u ?to now (F_Outcome_Saved i ?to) [] q = (out, q')" by (simp add: Let_def)
    moreover have "?to \<in> set (transitions (x_state ?u))" using True by simp
    ultimately have q': "q' = put_ticket (stamped now ?to ?u) q" by (simp add: change_def)
    have "ticket_edge cap q rq sh t0 (stamped now ?to ?u)"
      using True by (auto simp: edge_simps restart_interrupted_def split: if_splits)
    with t(1) show ?thesis unfolding q' by (rule queue_act.moved)
  next
    case False
    with run show ?thesis by (auto simp: Let_def intro: queue_act.same)
  qed
qed

lemma approve_act:
  assumes "approve i content now q = (out, q')"
  shows "queue_act cap (Some (Approve i content)) sh q q'"
  using assms unfolding approve_def
proof (rule with_ticket_act)
  fix t assume t: "ticket_of (x_id t) q = Some t" "x_id t = i"
    and run: "(if x_state t = X_Done \<or> x_state t = X_Approved then (Returns [], q)
      else if x_state t \<noteq> X_Review then (Throws (Illegal_Transition i (x_state t) X_Approved), q)
      else change (t\<lparr>x_final := or_else content (x_final t)\<rparr>) X_Approved now (F_Approve_Saved i) [] q) = (out, q')"
  show "queue_act cap (Some (Approve i content)) sh q q'"
  proof (cases "x_state t = X_Review")
    case True
    with run have "q' = put_ticket (stamped now X_Approved (t\<lparr>x_final := or_else content (x_final t)\<rparr>)) q"
      by (simp add: change_def)
    moreover have "ticket_edge cap q (Some (Approve i content)) sh t
        (stamped now X_Approved (t\<lparr>x_final := or_else content (x_final t)\<rparr>))"
      using True t(2) by (auto simp: edge_simps)
    ultimately show ?thesis using t(1) by (simp add: queue_act.moved)
  next
    case False
    with run show ?thesis by (auto intro: queue_act.same split: if_splits)
  qed
qed

lemma report_blocked_act:
  assumes "report_blocked i note now q = (out, q')"
  shows "queue_act cap rq sh q q'"
  using assms unfolding report_blocked_def
  by (rule with_ticket_act)
    (auto simp: change_def edge_simps intro: queue_act.same intro!: queue_act.moved split: if_splits)

lemma guided_fields [simp]:
  "x_id (guided g t) = x_id t" "x_target (guided g t) = x_target t" "x_state (guided g t) = x_state t"
  "x_started (guided g t) = x_started t" "x_outward (guided g t) = x_outward t"
  by (simp_all add: guided_def split: option.splits)

lemma unblock_act:
  assumes "unblock i guidance now q = (out, q')"
  shows "queue_act cap rq sh q q'"
  using assms unfolding unblock_def
  by (rule with_ticket_act)
    (auto simp: change_def edge_simps intro: queue_act.same intro!: queue_act.moved split: if_splits)

lemma enqueue_act:
  assumes "enqueue i target context effort notify now q = (out, q')"
  shows "queue_act cap rq sh q q'"
  using assms by (auto simp: enqueue_def Let_def intro: queue_act.same intro!: queue_act.new split: if_splits)

lemma record_act:
  assumes "record_progress i phase note events url now q = (out, q') \<or> record_transcript_url i url' now q = (out, q')"
  shows "queue_act cap rq sh q q'"
proof (cases "ticket_of i q")
  case None
  with assms show ?thesis
    by (auto simp: record_progress_def record_transcript_url_def intro: queue_act.same)
next
  case (Some t)
  then have "ticket_of (x_id t) q = Some t" by (auto dest: ticket_of_id)
  from queue_act.moved [OF this] assms Some show ?thesis
    by (auto simp: record_progress_def record_transcript_url_def Let_def edge_simps intro: queue_act.same
        split: if_splits)
qed

lemma start_act:
  assumes "distinct (map x_id q)" and "start cap now rq q = (out, q')"
  shows "queue_act cap (Some rq) None q q'"
  using assms(2)
  by (cases rq)
    (auto intro: enqueue_act report_outcome_act record_act report_blocked_act approve_act unblock_act fail_act
      pump_act [OF assms(1)])

text \<open>The ticket whose shipping an answer completes.\<close>

fun shipped :: "frame \<Rightarrow> reply \<Rightarrow> (string \<times> string) option" where
  "shipped (F_Shipped i) (Replied url) = Some (i, url)"
| "shipped _ _ = None"

lemma ship_act:
  assumes "resume cap now (Replied url) (F_Shipped i) ks q = (out, q')"
  shows "queue_act cap rq (Some (i, url)) q q'"
proof -
  from assms have "with_ticket i q (\<lambda>t. change (t\<lparr>x_evidence := Some url\<rparr>) X_Done now (F_Approve_Done i url) ks q)
      = (out, q')" by simp
  then show ?thesis
  proof (rule with_ticket_act)
    fix t assume t: "ticket_of (x_id t) q = Some t" "x_id t = i"
      and run: "change (t\<lparr>x_evidence := Some url\<rparr>) X_Done now (F_Approve_Done i url) ks q = (out, q')"
    have "ticket_edge cap q rq (Some (i, url)) t (t\<lparr>x_evidence := Some url\<rparr>)"
      using t(2) by (auto simp: edge_simps)
    moreover have "ticket_edge cap q rq (Some (i, url)) t (stamped now X_Done (t\<lparr>x_evidence := Some url\<rparr>))"
      if "X_Done \<in> set (transitions (x_state (t\<lparr>x_evidence := Some url\<rparr>)))"
      using t(2) that by (auto simp: edge_simps)
    ultimately show "queue_act cap rq (Some (i, url)) q q'"
      using change_act [OF t(1) run, of cap rq "Some (i, url)"] by simp
  qed
qed

lemma resume_act:
  assumes d: "distinct (map x_id q)" and "resume cap now r f ks q = (out, q')"
  shows "queue_act cap None (shipped f r) q q'"
proof (cases f)
  case (F_Launched i)
  with assms show ?thesis by (cases r) (auto intro: pump_act fail_act)
next
  case (F_Shipped i)
  with assms show ?thesis by (cases r) (auto simp del: resume.simps(12) intro: ship_act fail_act)
qed (use assms(2) in \<open>auto elim!: ok_or_throw_act with_ticket_act intro: queue_act.same pump_act [OF d]\<close>)

end
