(* ===== verification/Exec_Props.thy ===== *)
theory Exec_Props
  imports Exec_System
begin

text \<open>
  What the execution queue keeps under every interleaving of its handlers: the concurrency cap, the
  lifecycle of a ticket, the approval gate, the use of free slots, and the settling of its tasks.
\<close>

section \<open>Runs\<close>

definition exec_after :: "nat \<Rightarrow> exec_move list \<Rightarrow> exec_system \<Rightarrow> exec_system" where
  "exec_after cap ms s = fold (do_move cap) ms s"

lemma exec_after_run: "(exec_step cap)\<^sup>*\<^sup>* s (exec_after cap ms s)"
  unfolding exec_after_def by (rule exec_ops.fold_follows)

lemma settle_returns:
  "settle (Returns ks, q) s = s\<lparr>sy_tickets := q, sy_tasks := sy_tasks s @ (if ks = [] then [] else [(None, ks)])\<rparr>"
  by (cases ks) simp_all

lemma settle_tickets [simp]: "sy_tickets (settle (out, q) s) = q"
  by (cases out) (simp_all add: settle_returns)

lemma settle_log: "sy_log (settle (out, q) s) = sy_log s @ (case out of Waits c _ \<Rightarrow> [Called c] | _ \<Rightarrow> [])"
  by (cases out) (simp_all add: settle_returns)

lemma settle_errors: "sy_errors (settle (out, q) s) = sy_errors s @ (case out of Throws e \<Rightarrow> [e] | _ \<Rightarrow> [])"
  by (cases out) (simp_all add: settle_returns)

fun left_over :: "outcome \<Rightarrow> (seam_call option \<times> frame list) list" where
  "left_over (Waits c ks) = [(Some c, ks)]"
| "left_over (Returns ks) = (if ks = [] then [] else [(None, ks)])"
| "left_over (Throws e) = []"

lemma settle_tasks: "sy_tasks (settle (out, q) s) = sy_tasks s @ left_over out"
  by (cases out) (simp_all add: settle_returns)

lemmas settles = settle_tickets settle_log settle_errors settle_tasks

text \<open>Every step of the system is a run of a handler up to its next await.\<close>

lemma exec_step_run:
  assumes "exec_step cap s t"
  obtains (asked) now rq out where "start cap now rq (sy_tickets s) = (out, sy_tickets t)"
      "sy_log t = sy_log s @ [Asked rq] @ (case out of Waits c _ \<Rightarrow> [Called c] | _ \<Rightarrow> [])"
      "sy_errors t = sy_errors s @ (case out of Throws e \<Rightarrow> [e] | _ \<Rightarrow> [])"
      "sy_tasks t = sy_tasks s @ left_over out"
  | (answered) now r w f ks xs ys out where "sy_tasks s = xs @ (w, f # ks) # ys" "fits w r"
      "resume cap now r f ks (sy_tickets s) = (out, sy_tickets t)"
      "sy_log t = sy_log s @ [Answered w r] @ (case out of Waits c _ \<Rightarrow> [Called c] | _ \<Rightarrow> [])"
      "sy_errors t = sy_errors s @ (case out of Throws e \<Rightarrow> [e] | _ \<Rightarrow> [])"
      "sy_tasks t = xs @ ys @ left_over out"
  using assms
proof cases
  case (asks now rq)
  obtain out q where r: "start cap now rq (sy_tickets s) = (out, q)" by fastforce
  show ?thesis
    by (rule asked [of now rq out]) (simp_all add: asks ask_def r settles)
next
  case (answers xs w f ks ys r now)
  obtain out q where run: "resume cap now r f ks (sy_tickets s) = (out, q)" by fastforce
  show ?thesis
    by (rule answered [of xs w f ks ys r now out]) (use answers in \<open>simp_all add: answer_def run settles\<close>)
qed

lemma exec_step_act:
  assumes "exec_step cap s t" and "distinct (map x_id (sy_tickets s))"
  shows "\<exists>rq sh. queue_act cap rq sh (sy_tickets s) (sy_tickets t)"
  using assms(1) by (cases rule: exec_step_run) (auto dest: start_act [OF assms(2)] resume_act [OF assms(2)])

section \<open>The cap and the lifecycle\<close>

definition under_cap :: "nat \<Rightarrow> tickets \<Rightarrow> bool" where
  "under_cap cap q \<longleftrightarrow> distinct (map x_id q) \<and> running_count q \<le> cap"

lemma queue_act_cap:
  assumes "queue_act cap rq sh q q'" and "under_cap cap q"
  shows "under_cap cap q'"
  using assms(1)
proof cases
  case (new t)
  then have "x_id t \<notin> x_id ` set q" by (auto simp: ticket_of_def find_None_all)
  with new assms(2) show ?thesis
    by (simp add: under_cap_def running_count_def count_where_def)
next
  case (moved t t')
  then have "x_id t' = x_id t" "x_state t' = X_Running \<Longrightarrow> x_state t = X_Running \<or> running_count q < cap"
    by (auto simp: ticket_edge_def)
  with count_put [of q t' t "\<lambda>t. x_state t = X_Running"] moved assms(2) show ?thesis
    by (auto simp: under_cap_def running_count_def split: if_splits)
qed (use assms in auto)

definition ticket_later :: "ticket \<Rightarrow> ticket \<Rightarrow> bool" where
  "ticket_later t t' \<longleftrightarrow> x_id t' = x_id t \<and> x_target t' = x_target t \<and>
     (x_state t = X_Done \<longrightarrow> x_state t' = X_Done) \<and>
     (x_state t = X_Failed \<longrightarrow> x_state t' = X_Failed) \<and>
     (x_state t = X_Approved \<longrightarrow> x_state t' \<in> {X_Approved, X_Done, X_Failed}) \<and>
     (\<forall>n. x_started t = Some n \<and> n \<noteq> 0 \<longrightarrow> x_started t' = Some n)"

definition tickets_later :: "tickets \<Rightarrow> tickets \<Rightarrow> bool" where
  "tickets_later q q' \<longleftrightarrow>
     (\<forall>i t. ticket_of i q = Some t \<longrightarrow> (\<exists>t'. ticket_of i q' = Some t' \<and> ticket_later t t'))"

lemma ticket_later_trans: "ticket_later t u \<Longrightarrow> ticket_later u v \<Longrightarrow> ticket_later t v"
  by (auto simp: ticket_later_def)

lemma state_edge_from: "state_edge t t' \<Longrightarrow> x_state t \<in> {X_Done, X_Failed} \<Longrightarrow> x_state t' = x_state t"
  "state_edge t t' \<Longrightarrow> x_state t = X_Approved \<Longrightarrow> x_state t' \<in> {X_Approved, X_Done, X_Failed}"
  by (auto simp: state_edge_def restart_interrupted_def)

lemma ticket_edgeD:
  assumes "ticket_edge cap q rq sh t t'"
  shows "x_id t' = x_id t" "x_target t' = x_target t" "state_edge t t'"
    "x_state t' = X_Running \<Longrightarrow> x_state t = X_Running \<or> running_count q < cap"
    "x_state t' = X_Approved \<Longrightarrow> x_outward t' = x_outward t \<and>
      (x_state t = X_Approved \<or> (\<exists>c. rq = Some (Approve (x_id t) c)))"
    "x_state t' = X_Done \<Longrightarrow> x_state t = X_Done \<and> x_evidence t' = x_evidence t \<and> x_outward t' = x_outward t
      \<or> x_outward t' = Some False
      \<or> (\<exists>url. sh = Some (x_id t, url) \<and> x_evidence t' = Some url \<and> x_outward t' = x_outward t)"
    "x_started t = Some n \<Longrightarrow> n \<noteq> 0 \<Longrightarrow> x_started t' = Some n"
  using assms unfolding ticket_edge_def by blast+

lemma ticket_edge_later:
  assumes "ticket_edge cap q rq sh t t'"
  shows "ticket_later t t'"
  using ticket_edgeD(1-3,7) [OF assms] state_edge_from [of t t']
  by (auto simp: ticket_later_def)

lemma queue_act_later:
  assumes "queue_act cap rq sh q q'"
  shows "tickets_later q q'"
  using assms
proof cases
  case same
  then show ?thesis by (auto simp: tickets_later_def ticket_later_def)
next
  case (new t)
  then show ?thesis by (auto simp: tickets_later_def ticket_of_snoc ticket_later_def)
next
  case (moved t t')
  then have "x_id t' = x_id t" by (simp add: ticket_edge_def)
  with moved ticket_edge_later [OF moved(3)] show ?thesis
    by (auto simp: tickets_later_def ticket_of_put ticket_later_def)
qed

lemma tickets_later_refl: "tickets_later q q"
  by (auto simp: tickets_later_def ticket_later_def)

lemma tickets_later_trans: "tickets_later q u \<Longrightarrow> tickets_later u v \<Longrightarrow> tickets_later q v"
  unfolding tickets_later_def by (blast intro: ticket_later_trans)

interpretation exec_safety: protocol_invariant "exec_step cap" "\<lambda>s. under_cap cap (sy_tickets s)" for cap
proof
  fix s t
  assume "exec_step cap s t" "under_cap cap (sy_tickets s)"
  with exec_step_act [of cap s t] show "under_cap cap (sy_tickets t)"
    by (auto simp: under_cap_def [of cap "sy_tickets s"] intro: queue_act_cap)
qed

interpretation exec_lifecycle: protocol_order_under "exec_step cap" "\<lambda>s. under_cap cap (sy_tickets s)"
  "\<lambda>s t. tickets_later (sy_tickets s) (sy_tickets t)" for cap
proof
  fix s t
  assume "under_cap cap (sy_tickets s)" "exec_step cap s t"
  with exec_step_act [of cap s t] show "tickets_later (sy_tickets s) (sy_tickets t)"
    by (auto simp: under_cap_def intro: queue_act_later)
qed (auto intro: tickets_later_refl tickets_later_trans)

section \<open>From the constructor\<close>

lemma set_ticket_distinct: "distinct (map x_id q) \<Longrightarrow> distinct (map x_id (set_ticket t q))"
  by (auto simp: set_ticket_def ticket_of_def find_None_all)

lemma new_queue_distinct:
  assumes "new_queue n init = Inr (cap, q)"
  shows "distinct (map x_id q)"
proof -
  have "distinct (map x_id (fold set_ticket ts q0))" if "distinct (map x_id q0)" for ts q0
    using that by (induction ts arbitrary: q0) (auto intro: set_ticket_distinct)
  from this [of "[]" init] assms show ?thesis
    by (auto simp: new_queue_def split: js_number.splits if_splits)
qed

lemma boot_under_cap:
  "new_queue n init = Inr (cap, q) \<Longrightarrow> running_count q \<le> cap \<Longrightarrow> under_cap cap (sy_tickets (boot q))"
  by (simp add: under_cap_def boot_def new_queue_distinct)

text \<open>C11. The concurrency cap holds: whatever requests arrive, and in whatever order the seams answer or
  fail, there are never more tickets running than the cap, if there were not when the queue was built.\<close>

theorem concurrency_cap_holds:
  assumes "new_queue n init = Inr (cap, q)" and "running_count q \<le> cap"
  shows "running_count (sy_tickets (exec_after cap ms (boot q))) \<le> cap"
  using exec_safety.run_keeps [OF exec_after_run boot_under_cap [OF assms]] by (simp add: under_cap_def)

text \<open>
  The life of a ticket: a ticket never disappears, keeps its target and the time it first
  started; done and failed are final, and from approved it can only become done or failed.\<close>

theorem execution_lifecycle:
  assumes "new_queue n init = Inr (cap, q)" and "running_count q \<le> cap"
    and "ticket_of i (sy_tickets (exec_after cap ms (boot q))) = Some t"
  shows "\<exists>t'. ticket_of i (sy_tickets (exec_after cap (ms @ ms') (boot q))) = Some t' \<and>
    x_target t' = x_target t \<and>
    (x_state t \<in> {X_Done, X_Failed} \<longrightarrow> x_state t' = x_state t) \<and>
    (x_state t = X_Approved \<longrightarrow> x_state t' \<in> {X_Approved, X_Done, X_Failed}) \<and>
    (\<forall>m. x_started t = Some m \<and> m \<noteq> 0 \<longrightarrow> x_started t' = Some m)"
proof -
  let ?s = "exec_after cap ms (boot q)"
  have "under_cap cap (sy_tickets ?s)"
    using exec_safety.run_keeps [OF exec_after_run boot_under_cap [OF assms(1,2)]] .
  from exec_lifecycle.run_moves_up [OF exec_after_run this, of ms']
  have "tickets_later (sy_tickets ?s) (sy_tickets (exec_after cap (ms @ ms') (boot q)))"
    by (simp add: exec_after_def)
  with assms(3) show ?thesis unfolding tickets_later_def ticket_later_def by fastforce
qed

end
