(* ===== verification/Exec_Flow.thy ===== *)
theory Exec_Flow
  imports Exec_Props
begin

text \<open>
  The tasks of the execution queue: the approval gate, the use of free slots, and the number of answers
  after which no task is left.
\<close>

section \<open>Well-formed tasks\<close>

text \<open>Below the top frame of a task are only frames that wait for an inner call. A task about to ship waits
  for the shipper with its ticket, which has been approved.\<close>

definition inner :: "frame list \<Rightarrow> bool" where
  "inner ks \<longleftrightarrow> set ks \<subseteq> {F_Loop, F_Last}"

definition approved_on :: "tickets \<Rightarrow> string \<Rightarrow> bool" where
  "approved_on q i \<longleftrightarrow> (\<exists>t. ticket_of i q = Some t \<and> x_state t \<in> {X_Approved, X_Done, X_Failed})"

fun frame_ok :: "tickets \<Rightarrow> seam_call option \<Rightarrow> frame \<Rightarrow> bool" where
  "frame_ok q w (F_Approve_Saved i) \<longleftrightarrow> approved_on q i"
| "frame_ok q w (F_Shipped i) \<longleftrightarrow> approved_on q i \<and> (\<exists>u. w = Some (Call_Ship u) \<and> x_id u = i)"
| "frame_ok q w f \<longleftrightarrow> True"

fun task_ok :: "tickets \<Rightarrow> seam_call option \<times> frame list \<Rightarrow> bool" where
  "task_ok q (w, []) \<longleftrightarrow> False"
| "task_ok q (w, f # ks) \<longleftrightarrow> frame_ok q w f \<and> inner ks"

definition tasks_ok :: "exec_system \<Rightarrow> bool" where
  "tasks_ok s \<longleftrightarrow> (\<forall>x \<in> set (sy_tasks s). task_ok (sy_tickets s) x)"

lemma inner_simps [simp]: "inner []" "inner (f # ks) \<longleftrightarrow> f \<in> {F_Loop, F_Last} \<and> inner ks"
  by (auto simp: inner_def)

lemma approved_on_later: "tickets_later q q' \<Longrightarrow> approved_on q i \<Longrightarrow> approved_on q' i"
  unfolding tickets_later_def approved_on_def ticket_later_def by fastforce

lemma task_ok_later: "tickets_later q q' \<Longrightarrow> task_ok q x \<Longrightarrow> task_ok q' x"
  by (cases "(q, x)" rule: task_ok.cases) (auto elim!: frame_ok.elims intro: approved_on_later)

definition out_ok :: "run \<Rightarrow> bool" where
  "out_ok run \<longleftrightarrow> (\<forall>x \<in> set (left_over (fst run)). task_ok (snd run) x)"

lemma out_ok_simps [simp]:
  "out_ok (Throws e, q)" "out_ok (Returns [], q)"
  "out_ok (Waits c (f # ks), q) \<longleftrightarrow> frame_ok q (Some c) f \<and> inner ks"
  by (simp_all add: out_ok_def)

lemma out_ok_inner: "inner ks \<Longrightarrow> out_ok (Returns ks, q)"
  by (cases ks) (auto simp: out_ok_def)

lemma out_ok_change:
  assumes "inner ks" and "frame_ok (put_ticket (stamped now to t) q) (Some (Call_Persist (stamped now to t))) f"
  shows "out_ok (change t to now f ks q)"
  using assms by (simp add: change_def)

lemma out_ok_pump: "inner ks \<Longrightarrow> out_ok (pump cap now ks q)"
  by (auto simp: pump_def intro: out_ok_inner out_ok_change split: option.splits)

lemma out_ok_fail: "inner ks \<Longrightarrow> out_ok (fail i note now ks q)"
  by (auto simp: fail_def intro: out_ok_inner out_ok_change split: option.splits)

lemma out_ok_ticket:
  "(\<And>t. ticket_of i q = Some t \<Longrightarrow> x_id t = i \<Longrightarrow> out_ok (k t)) \<Longrightarrow> out_ok (with_ticket i q k)"
  by (auto simp: with_ticket_def dest: ticket_of_id split: option.splits)

lemma out_ok_reply: "out_ok k \<Longrightarrow> out_ok (ok_or_throw r q k)"
  by (auto simp: ok_or_throw_def split: reply.splits)

lemmas out_ok_intros = out_ok_inner out_ok_change out_ok_pump out_ok_fail out_ok_ticket out_ok_reply

lemma resume_out_ok:
  assumes "frame_ok q w f" and "inner ks"
  shows "out_ok (resume cap now r f ks q)"
proof (cases f)
  case (F_Launched i)
  with assms show ?thesis by (cases r) (auto intro: out_ok_intros)
next
  case (F_Shipped i)
  with assms show ?thesis by (cases r) (auto intro!: out_ok_intros)
qed (use assms in \<open>auto intro!: out_ok_intros\<close>)

lemma start_out_ok: "out_ok (start cap now rq q)"
proof (cases rq)
  case (Approve i content)
  have "approved_on (put_ticket (stamped now X_Approved u) q) i" if "ticket_of i q = Some t" "x_id u = i" for t u
    using that by (simp add: approved_on_def ticket_of_put)
  with Approve show ?thesis
    by (auto simp: approve_def change_def intro!: out_ok_ticket)
qed (auto simp: enqueue_def report_outcome_def record_progress_def record_transcript_url_def report_blocked_def
      unblock_def Let_def intro!: out_ok_intros split: option.splits)

lemma tasks_ok_step:
  assumes "exec_step cap s t" and "distinct (map x_id (sy_tickets s))" and "tasks_ok s"
  shows "tasks_ok t"
proof -
  from exec_step_act [OF assms(1,2)] have later: "tickets_later (sy_tickets s) (sy_tickets t)"
    by (auto intro: queue_act_later)
  from assms(1) show ?thesis
  proof (cases rule: exec_step_run)
    case (asked now rq out)
    with start_out_ok [of cap now rq "sy_tickets s"] assms(3) later show ?thesis
      by (auto simp: tasks_ok_def out_ok_def intro: task_ok_later)
  next
    case (answered now r w f ks xs ys out)
    with assms(3) have "frame_ok (sy_tickets s) w f" "inner ks" by (auto simp: tasks_ok_def)
    from resume_out_ok [OF this, of cap now r] answered assms(3) later show ?thesis
      by (auto simp: tasks_ok_def out_ok_def intro: task_ok_later)
  qed
qed

section \<open>The approval gate\<close>

definition approval_asked :: "happening list \<Rightarrow> string \<Rightarrow> bool" where
  "approval_asked log i \<longleftrightarrow> (\<exists>c. Asked (Approve i c) \<in> set log)"

definition ship_answered :: "happening list \<Rightarrow> string \<Rightarrow> string option \<Rightarrow> bool" where
  "ship_answered log i url \<longleftrightarrow>
     (\<exists>u r. Answered (Some (Call_Ship u)) (Replied r) \<in> set log \<and> x_id u = i \<and> url = Some r)"

definition gate_ok :: "happening list \<Rightarrow> ticket \<Rightarrow> bool" where
  "gate_ok log t \<longleftrightarrow>
     x_outward t = Some True \<and> x_state t \<in> {X_Approved, X_Done} \<longrightarrow>
       approval_asked log (x_id t) \<and> (x_state t = X_Done \<longrightarrow> ship_answered log (x_id t) (x_evidence t))"

lemma gate_ok_more: "gate_ok log t \<Longrightarrow> set log \<subseteq> set log' \<Longrightarrow> gate_ok log' t"
  unfolding gate_ok_def approval_asked_def ship_answered_def by blast

lemma queue_act_gate:
  assumes "queue_act cap rq sh q q'" and "distinct (map x_id q)"
    and "\<forall>t \<in> set q. gate_ok log t" and "set log \<subseteq> set log'"
    and "\<And>x. rq = Some x \<Longrightarrow> Asked x \<in> set log'"
    and "\<And>i url. sh = Some (i, url) \<Longrightarrow> ship_answered log' i (Some url) \<and> approved_on q i"
  shows "\<forall>t \<in> set q'. gate_ok log' t"
  using assms(1)
proof cases
  case same
  with assms(3,4) show ?thesis by (auto intro: gate_ok_more)
next
  case (new t)
  with assms(3,4) show ?thesis by (auto intro: gate_ok_more) (simp add: gate_ok_def)
next
  case (moved t t')
  from moved(2) have t: "t \<in> set q" "gate_ok log t" using assms(3) by (auto dest: ticket_of_id)
  note e = ticket_edgeD [OF moved(3)]
  have appr: "x_state t = X_Approved \<or> x_state t = X_Done"
    if "sh = Some (x_id t, url)" "x_state t' = X_Done" for url
    using assms(6) [OF that(1)] moved(2) that(2) e(3) by (auto simp: approved_on_def state_edge_def restart_interrupted_def)
  have "gate_ok log' t'"
    unfolding gate_ok_def
  proof (intro impI, elim conjE)
    assume o: "x_outward t' = Some True" and st: "x_state t' \<in> {X_Approved, X_Done}"
    consider "x_state t' = X_Approved" | "x_state t' = X_Done" using st by blast
    then show "approval_asked log' (x_id t') \<and> (x_state t' = X_Done \<longrightarrow> ship_answered log' (x_id t') (x_evidence t'))"
    proof cases
      case 1
      with e(5) o t(2) assms(4,5) show ?thesis
        unfolding e(1) gate_ok_def approval_asked_def by fastforce
    next
      case 2
      with e(6) o consider "x_state t = X_Done" "x_evidence t' = x_evidence t" "x_outward t' = x_outward t"
        | url where "sh = Some (x_id t, url)" "x_evidence t' = Some url" "x_outward t' = x_outward t" by auto
      then show ?thesis
      proof cases
        case 1
        with t(2) assms(4) o show ?thesis
          unfolding e(1) gate_ok_def approval_asked_def ship_answered_def by fastforce
      next
        case 2
        from 2 assms(6) have "ship_answered log' (x_id t) (x_evidence t')" by auto
        moreover from appr [OF 2(1) \<open>x_state t' = X_Done\<close>] t(2) o 2(3) assms(4)
        have "approval_asked log' (x_id t)" unfolding gate_ok_def approval_asked_def by auto
        ultimately show ?thesis by (simp add: e(1))
      qed
    qed
  qed
  with assms(3,4) moved(1) show ?thesis by (auto dest!: in_put intro: gate_ok_more)
qed

definition flow_inv :: "nat \<Rightarrow> exec_system \<Rightarrow> bool" where
  "flow_inv cap s \<longleftrightarrow> under_cap cap (sy_tickets s) \<and> tasks_ok s \<and>
     (\<forall>t \<in> set (sy_tickets s). gate_ok (sy_log s) t)"

lemma shipped_answer:
  assumes "frame_ok q w f" and "fits w r" and "shipped f r = Some (i, url)"
  shows "Answered w r \<in> set log \<Longrightarrow> ship_answered log i (Some url)" and "approved_on q i"
  using assms by (cases "(f, r)" rule: shipped.cases; auto simp: ship_answered_def)+

lemma gate_step:
  assumes "exec_step cap s t" and "flow_inv cap s"
  shows "\<forall>x \<in> set (sy_tickets t). gate_ok (sy_log t) x"
proof -
  from assms(2) have d: "distinct (map x_id (sy_tickets s))" and g: "\<forall>x \<in> set (sy_tickets s). gate_ok (sy_log s) x"
    by (auto simp: flow_inv_def under_cap_def)
  from assms(1) show ?thesis
  proof (cases rule: exec_step_run)
    case (asked now rq out)
    then have "set (sy_log s) \<subseteq> set (sy_log t)" "Asked rq \<in> set (sy_log t)" by auto
    with queue_act_gate [OF start_act [OF d asked(1)] d g, of "sy_log t"] show ?thesis by auto
  next
    case (answered now r w f ks xs ys out)
    with assms(2) have "frame_ok (sy_tickets s) w f" by (auto simp: flow_inv_def tasks_ok_def)
    moreover from answered(4) have "set (sy_log s) \<subseteq> set (sy_log t)" "Answered w r \<in> set (sy_log t)" by auto
    ultimately show ?thesis using shipped_answer [OF _ answered(2)] queue_act_gate [OF resume_act [OF d answered(3)] d g, of "sy_log t"]
      by (metis option.distinct(1) prod.exhaust)
  qed
qed

interpretation exec_flow: protocol_invariant "exec_step cap" "flow_inv cap" for cap
proof
  fix s t assume step: "exec_step cap s t" and inv: "flow_inv cap s"
  then have "under_cap cap (sy_tickets t)" by (auto simp: flow_inv_def intro: exec_safety.act_keeps)
  moreover from step inv have "tasks_ok t" by (auto simp: flow_inv_def under_cap_def intro: tasks_ok_step)
  ultimately show "flow_inv cap t" using gate_step [OF step inv] by (simp add: flow_inv_def)
qed

definition not_past_gate :: "ticket \<Rightarrow> bool" where
  "not_past_gate t \<longleftrightarrow> x_state t \<noteq> X_Approved \<and> x_state t \<noteq> X_Done"

lemma set_set_ticket: "set (set_ticket t q) \<subseteq> insert t (set q)"
  by (auto simp: set_ticket_def dest: in_put)

lemma new_queue_set:
  assumes "new_queue n init = Inr (cap, q)"
  shows "set q \<subseteq> set init"
proof -
  have "set (fold set_ticket ts q0) \<subseteq> set ts \<union> set q0" for ts q0
  proof (induction ts arbitrary: q0)
    case (Cons t ts)
    with Cons.IH [of "set_ticket t q0"] set_set_ticket [of t q0] show ?case by auto
  qed simp
  from this [of init "[]"] assms show ?thesis
    by (auto simp: new_queue_def split: js_number.splits if_splits)
qed

lemma boot_flow:
  assumes "new_queue n init = Inr (cap, q)" and "running_count q \<le> cap" and "list_all not_past_gate init"
  shows "flow_inv cap (boot q)"
  using boot_under_cap [OF assms(1,2)] new_queue_set [OF assms(1)] assms(3)
  by (auto simp: flow_inv_def boot_def tasks_ok_def gate_ok_def not_past_gate_def list_all_iff)

text \<open>C12. Outward work is shipped only on approval: a ticket whose outcome is outward and that is done
  was approved by a request for that ticket, and its evidence is the URL that the shipper answered for
  that ticket. This holds under every interleaving, when the tickets recovered at boot were not yet
  approved or done.\<close>

theorem outward_work_needs_approval:
  assumes "new_queue n init = Inr (cap, q)" and "running_count q \<le> cap" and "list_all not_past_gate init"
    and "ticket_of i (sy_tickets (exec_after cap ms (boot q))) = Some t"
    and "x_outward t = Some True" and "x_state t = X_Done"
  shows "approval_asked (sy_log (exec_after cap ms (boot q))) i \<and>
    ship_answered (sy_log (exec_after cap ms (boot q))) i (x_evidence t)"
  using exec_flow.run_keeps [OF exec_after_run boot_flow [OF assms(1-3)], of ms] assms(4-6)
  by (auto simp: flow_inv_def gate_ok_def dest!: ticket_of_id)

section \<open>Free slots are used\<close>

definition starved :: "nat \<Rightarrow> tickets \<Rightarrow> bool" where
  "starved cap q \<longleftrightarrow> running_count q < cap \<and> (\<exists>t \<in> set q. x_state t = X_Queued)"

text \<open>Frames that lead to another round of \<open>pump\<close>.\<close>

fun pumps :: "frame \<Rightarrow> bool" where
  "pumps (F_Approve_Saved i) \<longleftrightarrow> False"
| "pumps (F_Shipped i) \<longleftrightarrow> False"
| "pumps (F_Approve_Done i url) \<longleftrightarrow> False"
| "pumps F_Last \<longleftrightarrow> False"
| "pumps f \<longleftrightarrow> True"

definition will_pump :: "frame list \<Rightarrow> bool" where
  "will_pump ks \<longleftrightarrow> (\<exists>f \<in> set ks. pumps f)"

fun carries_on :: "outcome \<Rightarrow> bool" where
  "carries_on (Waits c ks) \<longleftrightarrow> will_pump ks"
| "carries_on (Returns ks) \<longleftrightarrow> will_pump ks"
| "carries_on (Throws e) \<longleftrightarrow> True"

lemma will_pump_simps [simp]: "\<not> will_pump []" "will_pump (f # ks) \<longleftrightarrow> pumps f \<or> will_pump ks"
  by (auto simp: will_pump_def)

lemma next_queued_None: "next_queued cap q = None \<longleftrightarrow> \<not> starved cap q"
  by (auto simp: next_queued_def starved_def order_by_def filter_empty_conv simp flip: set_empty)

definition fed :: "nat \<Rightarrow> tickets \<Rightarrow> run \<Rightarrow> bool" where
  "fed cap q run \<longleftrightarrow> carries_on (fst run) \<or> (starved cap (snd run) \<longrightarrow> starved cap q)"

definition pumped :: "nat \<Rightarrow> run \<Rightarrow> bool" where
  "pumped cap run \<longleftrightarrow> carries_on (fst run) \<or> \<not> starved cap (snd run)"

lemma pump_pumped: "pumped cap (pump cap now ks q)"
  by (auto simp: pumped_def pump_def change_def next_queued_None split: option.splits)

lemma pumped_fed: "pumped cap run \<Longrightarrow> fed cap q run"
  by (auto simp: pumped_def fed_def)

lemma pumped_throw: "pumped cap k \<Longrightarrow> pumped cap (ok_or_throw r q k)"
  by (auto simp: ok_or_throw_def pumped_def split: reply.splits)

lemma pumped_ticket: "(\<And>t. ticket_of i q = Some t \<Longrightarrow> pumped cap (k t)) \<Longrightarrow> pumped cap (with_ticket i q k)"
  by (auto simp: with_ticket_def pumped_def split: option.splits)

lemma pumped_simps [simp]:
  "pumped cap (Throws e, q')" "pumps f \<or> will_pump ks \<Longrightarrow> pumped cap (Waits c (f # ks), q')" "will_pump ks \<Longrightarrow> pumped cap (Returns ks, q')"
  by (auto simp: pumped_def)

lemma pumped_change: "pumps f \<or> will_pump ks \<Longrightarrow> pumped cap (change t to now f ks q)"
  by (auto simp: change_def pumped_def)

lemma pumped_fail: "will_pump ks \<Longrightarrow> pumped cap (fail i note now ks q)"
  by (auto simp: fail_def intro!: pumped_change split: option.splits)

lemma fed_fail: "fed cap q (fail i note now ks q)"
  by (auto simp: fail_def fed_def change_def split: option.splits)

text \<open>A task that will pump does, or leaves no free slot unused.\<close>

lemma resume_pumped:
  assumes "will_pump (f # ks)"
  shows "pumped cap (resume cap now r f ks q)"
proof (cases f)
  case (F_Launched i)
  with assms show ?thesis by (cases r) (auto intro: pump_pumped pumped_fail)
next
  case (F_Shipped i)
  with assms show ?thesis by (cases r) (auto intro!: pumped_ticket pumped_fail pumped_change)
qed (use assms in \<open>auto intro!: pumped_throw pumped_ticket pump_pumped\<close>)

text \<open>Other tasks and new requests leave the need for a round of \<open>pump\<close> as it was, or bring one.\<close>

lemma starved_put:
  assumes "distinct (map x_id q)" and "ticket_of (x_id t') q = Some t"
    and "x_state t' = x_state t \<or> {x_state t, x_state t'} \<inter> {X_Queued, X_Running} = {}"
  shows "starved cap (put_ticket t' q) \<longleftrightarrow> starved cap q"
proof -
  have same: "count_where (\<lambda>t. x_state t = st) (put_ticket t' q) = count_where (\<lambda>t. x_state t = st) q"
    if "st \<in> {X_Queued, X_Running}" for st
    using count_put [OF assms(1,2), of "\<lambda>t. x_state t = st"] assms(3) that by (auto split: if_splits)
  have ex: "(\<exists>t \<in> set q. x_state t = X_Queued) \<longleftrightarrow> count_where (\<lambda>t. x_state t = X_Queued) q \<noteq> 0" for q
    by (auto simp: count_where_def filter_empty_conv)
  show ?thesis by (simp add: starved_def running_count_def ex same)
qed

lemma fed_same: "fed cap q (out, q)"
  by (simp add: fed_def)

lemma fed_waits: "pumps f \<Longrightarrow> fed cap q (Waits c (f # ks), q')"
  by (simp add: fed_def)

lemma fed_ticket:
  "(\<And>t. ticket_of i q = Some t \<Longrightarrow> x_id t = i \<Longrightarrow> fed cap q (k t)) \<Longrightarrow> fed cap q (with_ticket i q k)"
  by (auto simp: with_ticket_def fed_same dest: ticket_of_id split: option.splits)

lemma fed_throw: "fed cap q k \<Longrightarrow> fed cap q (ok_or_throw r q k)"
  by (auto simp: ok_or_throw_def fed_same split: reply.splits)

lemma fed_change:
  assumes "distinct (map x_id q)" and "ticket_of (x_id t) q = Some u"
    and "to \<in> set (transitions (x_state t)) \<Longrightarrow> {x_state u, to} \<inter> {X_Queued, X_Running} = {}"
  shows "fed cap q (change t to now f ks q)"
  using starved_put [OF assms(1), of "stamped now to t" u cap] assms(2,3)
  by (auto simp: change_def fed_def)

lemma fed_put:
  assumes "distinct (map x_id q)" and "ticket_of i q = Some t" and "x_id u = x_id t" and "x_state u = x_state t"
  shows "fed cap q (out, put_ticket u q)"
  using starved_put [OF assms(1), of u t cap] ticket_of_id [OF assms(2)] assms by (simp add: fed_def)

lemma resume_fed:
  assumes "distinct (map x_id q)" and "frame_ok q w f" and "\<not> will_pump (f # ks)"
  shows "fed cap q (resume cap now r f ks q)"
proof (cases f)
  case (F_Shipped i)
  have "fed cap q (change (t\<lparr>x_evidence := Some url\<rparr>) X_Done now (F_Approve_Done i url) ks q)"
    if "ticket_of i q = Some t" "x_id t = i" for t url
    using that assms(2) F_Shipped by (intro fed_change [OF assms(1)]) (auto simp: approved_on_def)
  with F_Shipped show ?thesis by (cases r) (auto intro!: fed_ticket fed_fail)
qed (use assms in \<open>auto intro!: fed_throw fed_ticket fed_same\<close>)

lemma start_fed:
  assumes "distinct (map x_id q)"
  shows "fed cap q (start cap now rq q)"
proof (cases rq)
  case (Approve i content)
  have "fed cap q (change (t\<lparr>x_final := v\<rparr>) X_Approved now (F_Approve_Saved i) [] q)"
    if "ticket_of i q = Some t" "x_id t = i" "x_state t = X_Review" for t v
    using that by (intro fed_change [OF assms]) auto
  with Approve show ?thesis by (auto simp: approve_def intro!: fed_ticket fed_same)
next
  case (Record_Progress i phase partial events url)
  then show ?thesis
    by (auto simp: record_progress_def Let_def intro!: fed_same fed_put [OF assms] split: option.splits)
next
  case (Record_Transcript i url)
  then show ?thesis
    by (auto simp: record_transcript_url_def Let_def intro!: fed_same fed_put [OF assms] split: option.splits)
qed (auto simp: enqueue_def report_outcome_def report_blocked_def unblock_def Let_def
      intro!: fed_ticket fed_waits fed_same fed_fail pumped_fed [OF pumped_change] pumped_fed [OF pump_pumped])

text \<open>While a free slot and a queued ticket are left, some task will pump, unless an exception ended one.\<close>

definition served :: "nat \<Rightarrow> exec_system \<Rightarrow> bool" where
  "served cap s \<longleftrightarrow>
     starved cap (sy_tickets s) \<longrightarrow> sy_errors s \<noteq> [] \<or> (\<exists>x \<in> set (sy_tasks s). will_pump (snd x))"

lemma carries_on_tasks:
  "carries_on out \<Longrightarrow> (\<exists>e. out = Throws e) \<or> (\<exists>x \<in> set (left_over out). will_pump (snd x))"
  by (cases out) auto

lemma served_step:
  assumes "exec_step cap s t" and inv: "flow_inv cap s" and "served cap s"
  shows "served cap t"
proof -
  from inv have d: "distinct (map x_id (sy_tickets s))" by (simp add: flow_inv_def under_cap_def)
  from assms(1) show ?thesis
  proof (cases rule: exec_step_run)
    case (asked now rq out)
    with start_fed [OF d, of cap now rq] assms(3) carries_on_tasks [of out] show ?thesis
      by (auto simp: served_def fed_def)
  next
    case (answered now r w f ks xs ys out)
    from answered inv have ok: "frame_ok (sy_tickets s) w f" by (auto simp: flow_inv_def tasks_ok_def)
    show ?thesis
    proof (cases "will_pump (f # ks)")
      case True
      with resume_pumped [OF this, of cap now r "sy_tickets s"] answered carries_on_tasks [of out] show ?thesis
        by (auto simp: served_def pumped_def)
    next
      case False
      with resume_fed [OF d ok False, of cap now r] answered carries_on_tasks [of out] assms(3) show ?thesis
        by (auto simp: served_def fed_def)
    qed
  qed
qed

interpretation exec_service: protocol_invariant "exec_step cap" "\<lambda>s. flow_inv cap s \<and> served cap s" for cap
  by unfold_locales (blast intro: exec_flow.act_keeps served_step)

text \<open>C15. No slot is left unused: when every task has settled and no exception ended one, either as many
  tickets run as the cap allows or no ticket is queued. The process started without a queued ticket, or its first request
  was to resume the queue; a ticket that is recovered as queued waits for the next pump otherwise.\<close>

theorem free_slots_are_used:
  assumes "new_queue n init = Inr (cap, q)" and "running_count q \<le> cap" and "list_all not_past_gate init"
    and "list_all (\<lambda>t. x_state t \<noteq> X_Queued) q \<or> (\<exists>now ms'. ms = Ask now Resume_Queue # ms')"
    and "s = exec_after cap ms (boot q)" and "sy_tasks s = []" and "sy_errors s = []"
  shows "running_count (sy_tickets s) = cap \<or> (\<forall>t \<in> set (sy_tickets s). x_state t \<noteq> X_Queued)"
proof -
  have flow: "flow_inv cap (boot q)" by (rule boot_flow [OF assms(1-3)])
  have reached: "flow_inv cap (exec_after cap ns b) \<and> served cap (exec_after cap ns b)"
    if "flow_inv cap b \<and> served cap b" for ns b
    by (rule exec_service.run_keeps [OF exec_after_run that])
  have resumed: "flow_inv cap (ask cap now Resume_Queue (boot q)) \<and> served cap (ask cap now Resume_Queue (boot q))" for now
  proof -
    obtain out q' where "pump cap now [] q = (out, q')" by fastforce
    with pump_pumped [of cap now "[]" q] carries_on_tasks [of out] have "served cap (ask cap now Resume_Queue (boot q))"
      by (auto simp: served_def pumped_def ask_def boot_def settles)
    with flow exec_step.asks show ?thesis by (blast intro: exec_flow.act_keeps)
  qed
  from assms(4) have "flow_inv cap s \<and> served cap s"
  proof
    assume "list_all (\<lambda>t. x_state t \<noteq> X_Queued) q"
    then have "served cap (boot q)" by (auto simp: served_def starved_def boot_def list_all_iff)
    with flow reached show ?thesis by (simp add: assms(5))
  next
    assume "\<exists>now ms'. ms = Ask now Resume_Queue # ms'"
    with reached [OF resumed] show ?thesis by (auto simp: assms(5) exec_after_def)
  qed
  with assms(6,7) show ?thesis
    by (auto simp: served_def starved_def flow_inv_def under_cap_def)
qed

end
