(* ===== verification/Exec_Settle.thy ===== *)
theory Exec_Settle
  imports Exec_Flow
begin

text \<open>
  The tasks of the execution queue come to an end: without new requests, every answer uses up part of a
  measure of the system. A queued ticket weighs as much as the longest way from starting it to
  the next round of \<open>pump\<close>.
\<close>

fun weight :: "frame \<Rightarrow> nat" where
  "weight F_Enqueued = 1"
| "weight (F_Started i) = 6"
| "weight (F_Reported i) = 5"
| "weight (F_Launched i) = 4"
| "weight F_Loop = 1"
| "weight (F_Outcome_Saved i st) = 2"
| "weight F_Edge_Reported = 1"
| "weight (F_Blocked_Saved i n) = 2"
| "weight (F_Approve_Saved i) = 5"
| "weight (F_Shipped i) = 4"
| "weight (F_Approve_Done i url) = 2"
| "weight F_Unblocked = 1"
| "weight (F_Fail_Saved i n) = 2"
| "weight F_Last = 1"

definition stack_weight :: "frame list \<Rightarrow> nat" where
  "stack_weight ks = sum_list (map weight ks)"

definition queued_count :: "tickets \<Rightarrow> nat" where
  "queued_count q = count_where (\<lambda>t. x_state t = X_Queued) q"

definition remaining :: "exec_system \<Rightarrow> nat" where
  "remaining s = 6 * queued_count (sy_tickets s) + sum_list (map (\<lambda>x. stack_weight (snd x)) (sy_tasks s))"

definition out_weight :: "run \<Rightarrow> nat" where
  "out_weight run = 6 * queued_count (snd run) + sum_list (map (\<lambda>x. stack_weight (snd x)) (left_over (fst run)))"

lemma stack_weight_simps [simp]: "stack_weight [] = 0" "stack_weight (f # ks) = weight f + stack_weight ks"
  by (simp_all add: stack_weight_def)

lemma out_weight_simps [simp]:
  "out_weight (Throws e, q) = 6 * queued_count q" "out_weight (Returns ks, q) = 6 * queued_count q + stack_weight ks"
  "out_weight (Waits c ks, q) = 6 * queued_count q + stack_weight ks"
  by (auto simp: out_weight_def)

lemma queued_put:
  assumes "distinct (map x_id q)" and "ticket_of (x_id t') q = Some t"
  shows "queued_count (put_ticket t' q) + (if x_state t = X_Queued then 1 else 0) =
    queued_count q + (if x_state t' = X_Queued then 1 else 0)"
  unfolding queued_count_def by (rule count_put [OF assms])

lemma change_weight:
  assumes "distinct (map x_id q)" and "ticket_of (x_id t) q = Some u" and "x_state t = x_state u"
    and "to \<noteq> X_Queued"
  shows "out_weight (change t to now f ks q) \<le> 6 * queued_count q + weight f + stack_weight ks"
    and "x_state u = X_Queued \<Longrightarrow> to = X_Running \<Longrightarrow> weight f \<le> 6 \<Longrightarrow>
      out_weight (change t to now f ks q) \<le> 6 * queued_count q + stack_weight ks"
  using queued_put [OF assms(1), of t u] queued_put [OF assms(1), of "stamped now to t" u] assms
  by (auto simp: change_def split: if_splits)

lemma pump_weight:
  assumes "distinct (map x_id q)"
  shows "out_weight (pump cap now ks q) \<le> 6 * queued_count q + stack_weight ks"
proof (cases "next_queued cap q")
  case None
  then show ?thesis by (simp add: pump_def)
next
  case (Some t)
  then have "t \<in> set q" "x_state t = X_Queued"
    by (auto simp: next_queued_def dest!: first_row_Some split: if_splits)
  with change_weight(2) [OF assms, of t t X_Running "F_Started (x_id t)" now ks] Some assms show ?thesis
    by (simp add: pump_def ticket_of_member)
qed

lemma fail_weight:
  assumes "distinct (map x_id q)"
  shows "out_weight (fail i nt now ks q) \<le> 6 * queued_count q + 2 + stack_weight ks"
proof (cases "ticket_of i q")
  case None
  then show ?thesis by (simp add: fail_def)
next
  case (Some t)
  let ?t = "case nt of None \<Rightarrow> t | Some n \<Rightarrow> t\<lparr>x_note := Some n\<rparr>"
  have "x_id ?t = i" "x_state ?t = x_state t" using ticket_of_id [OF Some] by (auto split: option.splits)
  with change_weight(1) [OF assms, of ?t t X_Failed now "F_Fail_Saved i nt" ks] Some show ?thesis
    by (simp add: fail_def)
qed

text \<open>The two ways out of an await.\<close>

lemma throw_weight: "6 * queued_count q < n \<Longrightarrow> out_weight k < n \<Longrightarrow> out_weight (ok_or_throw r q k) < n"
  by (auto simp: ok_or_throw_def split: reply.splits)

lemma ticket_weight:
  "6 * queued_count q < n \<Longrightarrow> (\<And>t. ticket_of i q = Some t \<Longrightarrow> x_id t = i \<Longrightarrow> out_weight (k t) < n) \<Longrightarrow>
    out_weight (with_ticket i q k) < n"
  by (auto simp: with_ticket_def dest: ticket_of_id split: option.splits)

lemma resume_weight:
  assumes d: "distinct (map x_id q)"
  shows "out_weight (resume cap now r f ks q) < 6 * queued_count q + stack_weight (f # ks)"
proof (cases f)
  case (F_Launched i)
  with pump_weight [OF d, of cap now ks] fail_weight [OF d, of i _ now "F_Loop # ks"] show ?thesis
    by (cases r) (auto simp: less_Suc_eq_le numeral_eq_Suc intro: le_less_trans)
next
  case (F_Shipped i)
  show ?thesis
  proof (cases r)
    case (Rejected e)
    with F_Shipped fail_weight [OF d, of i "Some (''ship failed: '' @ e)" now "F_Last # ks"] show ?thesis by simp
  next
    case (Replied url)
    have "out_weight (change (t\<lparr>x_evidence := Some url\<rparr>) X_Done now (F_Approve_Done i url) ks q)
        \<le> 6 * queued_count q + 2 + stack_weight ks" if "ticket_of i q = Some t" "x_id t = i" for t
      using change_weight(1) [OF d, of "t\<lparr>x_evidence := Some url\<rparr>" t X_Done now "F_Approve_Done i url" ks] that by simp
    with Replied F_Shipped show ?thesis by (force intro!: ticket_weight)
  qed
qed (use pump_weight [OF d, of cap now ks] in \<open>auto intro!: throw_weight ticket_weight\<close>)

lemma answer_remaining:
  assumes "distinct (map x_id (sy_tickets s))" and "sy_tasks s = xs @ (w, f # ks) # ys"
  shows "remaining (answer cap now w f ks r (s\<lparr>sy_tasks := xs @ ys\<rparr>)) < remaining s"
proof -
  obtain out q where run: "resume cap now r f ks (sy_tickets s) = (out, q)" by fastforce
  from resume_weight [OF assms(1), of cap now r f ks] run assms(2) show ?thesis
    by (simp add: answer_def remaining_def out_weight_def settles)
qed

section \<open>Runs of answers\<close>

text \<open>\<open>answers cap ms s\<close>: the moves are answers to tasks that are waiting when their turn comes.\<close>

fun answerable :: "exec_move \<Rightarrow> exec_system \<Rightarrow> bool" where
  "answerable (Ask now rq) s \<longleftrightarrow> False"
| "answerable (Answer now n r) s \<longleftrightarrow> n < length (sy_tasks s) \<and> fits (fst (sy_tasks s ! n)) r"

fun answers_only :: "nat \<Rightarrow> exec_move list \<Rightarrow> exec_system \<Rightarrow> bool" where
  "answers_only cap [] s \<longleftrightarrow> True"
| "answers_only cap (m # ms) s \<longleftrightarrow> answerable m s \<and> answers_only cap ms (do_move cap m s)"

lemma task_ok_stack: "task_ok q x \<Longrightarrow> \<exists>w f ks. x = (w, f # ks)"
  by (cases "(q, x)" rule: task_ok.cases) auto

lemma do_move_inv: "flow_inv cap s \<Longrightarrow> flow_inv cap (do_move cap m s)"
  by (rule exec_flow.run_keeps [OF do_move_follows])

lemma do_move_remaining:
  assumes "flow_inv cap s" and "answerable m s"
  shows "remaining (do_move cap m s) < remaining s"
proof -
  from assms(2) obtain now n r where m: "m = Answer now n r" "n < length (sy_tasks s)"
    and fits: "fits (fst (sy_tasks s ! n)) r" by (cases m) auto
  with assms(1) have "task_ok (sy_tickets s) (sy_tasks s ! n)"
    by (auto simp: flow_inv_def tasks_ok_def)
  then obtain w f ks where t: "sy_tasks s ! n = (w, f # ks)" using task_ok_stack by blast
  then have "sy_tasks s = take n (sy_tasks s) @ (w, f # ks) # drop (Suc n) (sy_tasks s)"
    using m(2) by (metis id_take_nth_drop)
  moreover have "distinct (map x_id (sy_tickets s))" using assms(1) by (simp add: flow_inv_def under_cap_def)
  ultimately show ?thesis
    using answer_remaining [of s "take n (sy_tasks s)" w f ks "drop (Suc n) (sy_tasks s)" cap now r] m t fits
    by (simp add: without_def)
qed

lemma answers_bounded:
  assumes "flow_inv cap s" and "answers_only cap ms s"
  shows "length ms \<le> remaining s"
  using assms
proof (induction ms arbitrary: s)
  case (Cons m ms)
  then have "length ms \<le> remaining (do_move cap m s)" by (auto intro: do_move_inv)
  with do_move_remaining [of cap s m] Cons.prems show ?case by simp
qed simp

text \<open>C14. The queue settles: from any state it can reach, at most \<open>remaining\<close> answers can follow before a
  new request, whatever the answers are; and as long as a task is left, it can be answered. So once
  the requests stop, every task comes to its end.\<close>

theorem execution_queue_settles:
  assumes "new_queue n init = Inr (cap, q)" and "running_count q \<le> cap" and "list_all not_past_gate init"
    and "s = exec_after cap ms (boot q)"
  shows "(answers_only cap ms' s \<longrightarrow> length ms' \<le> remaining s) \<and>
    (sy_tasks s \<noteq> [] \<longrightarrow> answerable (Answer now 0 (Replied v)) s)"
proof -
  have "flow_inv cap s"
    using exec_flow.run_keeps [OF exec_after_run boot_flow [OF assms(1-3)]] assms(4) by simp
  with answers_bounded [of cap s ms'] show ?thesis by (auto simp: fits_def)
qed

end
