(* ===== verification/Exec_Store.thy ===== *)
theory Exec_Store
  imports Exec_Settle
begin

text \<open>
  The durable store of execution tickets (packages/server/src/executionStore.ts), how the queue is
  built from it at boot (executionLane.ts), and what a restart does to the tickets.

  \<^item> The rows of \<open>execution_tickets\<close> are a list in insertion order. Rows with the same \<open>updated_at\<close> come
    in that order.
  \<^item> The JSON texts of a deliverable and of recent events are modelled by the values themselves.
\<close>

section \<open>Rows\<close>

record exec_row =
  r_id :: string
  r_target :: string
  r_context :: string
  r_effort :: "exec_effort option"
  r_state :: exec_state
  r_evidence :: "string option"
  r_note :: "string option"
  r_final :: "string option"
  r_outward :: "int option"
  r_deliverable :: "deliverable option"
  r_started :: "int option"
  r_phase :: "string option"
  r_progress :: "string option"
  r_events :: "string list option"
  r_transcript :: "string option"
  r_updated :: int

text \<open>A column is only read when it is not empty.\<close>

definition filled :: "string option \<Rightarrow> string option" where
  "filled v = (if v = Some [] then None else v)"

definition row_to_ticket :: "exec_row \<Rightarrow> ticket" where
  "row_to_ticket r =
     \<lparr>x_id = r_id r, x_target = r_target r, x_context = r_context r, x_effort = r_effort r,
      x_state = r_state r, x_evidence = filled (r_evidence r), x_note = filled (r_note r),
      x_final = filled (r_final r), x_outward = map_option (\<lambda>n. n = 1) (r_outward r), x_notify = None,
      x_deliverable = r_deliverable r, x_started = r_started r, x_phase = filled (r_phase r),
      x_progress = filled (r_progress r), x_events = r_events r, x_transcript = filled (r_transcript r),
      x_updated = r_updated r\<rparr>"

definition ticket_to_row :: "ticket \<Rightarrow> exec_row" where
  "ticket_to_row t =
     \<lparr>r_id = x_id t, r_target = x_target t, r_context = x_context t, r_effort = x_effort t,
      r_state = x_state t, r_evidence = x_evidence t, r_note = x_note t, r_final = x_final t,
      r_outward = map_option (\<lambda>b. if b then 1 else 0) (x_outward t), r_deliverable = x_deliverable t,
      r_started = x_started t, r_phase = x_phase t, r_progress = x_progress t, r_events = x_events t,
      r_transcript = x_transcript t, r_updated = x_updated t\<rparr>"

definition active_state :: "exec_state \<Rightarrow> bool" where
  "active_state st \<longleftrightarrow> st \<in> {X_Queued, X_Running, X_Review, X_Approved, X_Blocked}"

section \<open>Operations\<close>

text \<open>The constructor marks the runs that the restart interrupted.\<close>

definition interrupted :: "int \<Rightarrow> exec_row \<Rightarrow> exec_row" where
  "interrupted now r = r\<lparr>r_state := X_Blocked,
     r_note := (case r_note r of None \<Rightarrow> Some restart_note | Some n \<Rightarrow> Some n), r_updated := now\<rparr>"

definition open_store :: "int \<Rightarrow> exec_row list \<Rightarrow> exec_row list" where
  "open_store now rows = update_where (\<lambda>r. r_state r = X_Running) (interrupted now) rows"

definition store_upsert :: "ticket \<Rightarrow> exec_row list \<Rightarrow> exec_row list" where
  "store_upsert t rows =
     (if find (\<lambda>r. r_id r = x_id t) rows = None then rows @ [ticket_to_row t]
      else update_where (\<lambda>r. r_id r = x_id t) (\<lambda>_. ticket_to_row t) rows)"

definition store_get :: "string \<Rightarrow> exec_row list \<Rightarrow> ticket option" where
  "store_get i rows = map_option row_to_ticket (find (\<lambda>r. r_id r = i) rows)"

definition store_active :: "exec_row list \<Rightarrow> ticket list" where
  "store_active rows = map row_to_ticket (order_by r_updated (filter (\<lambda>r. active_state (r_state r)) rows))"

definition store_recent :: "int \<Rightarrow> exec_row list \<Rightarrow> ticket list" where
  "store_recent limit rows =
     (let sorted = order_desc r_updated rows
      in map row_to_ticket (if limit < 0 then sorted else take (nat limit) sorted))"

text \<open>The queue built at boot; a cap that is not a positive integer is replaced by 3.\<close>

definition default_concurrency :: int where "default_concurrency = 3"

definition build_queue :: "js_number \<Rightarrow> exec_row list \<Rightarrow> string + (nat \<times> tickets)" where
  "build_queue configured rows =
     new_queue (case configured of Jint n \<Rightarrow> if 0 < n then Jint n else Jint default_concurrency
                                 | Jother \<Rightarrow> Jint default_concurrency) (store_active rows)"

text \<open>\<open>onChange\<close> of the queue writes the ticket to the store.\<close>

fun stored :: "happening \<Rightarrow> exec_row list \<Rightarrow> exec_row list" where
  "stored (Called (Call_Persist t)) rows = store_upsert t rows"
| "stored _ rows = rows"

text \<open>The rows that the writes of the queue leave, when every write succeeds.\<close>

definition rows_after :: "happening list \<Rightarrow> exec_row list \<Rightarrow> exec_row list" where
  "rows_after log rows = fold stored log rows"

section \<open>Reading back what was written\<close>

definition as_stored :: "ticket \<Rightarrow> ticket" where
  "as_stored t = t\<lparr>x_evidence := filled (x_evidence t), x_note := filled (x_note t), x_final := filled (x_final t),
     x_notify := None, x_phase := filled (x_phase t), x_progress := filled (x_progress t),
     x_transcript := filled (x_transcript t)\<rparr>"

lemma row_to_ticket_to_row: "row_to_ticket (ticket_to_row t) = as_stored t"
  by (simp add: row_to_ticket_def ticket_to_row_def as_stored_def option.map_comp comp_def option.map_ident)

lemma find_upsert:
  "find (\<lambda>r. r_id r = i) (store_upsert t rows) =
     (if i = x_id t then Some (ticket_to_row t) else find (\<lambda>r. r_id r = i) rows)"
proof -
  have "find (\<lambda>r. r_id r = i) (update_where (\<lambda>r. r_id r = x_id t) (\<lambda>_. ticket_to_row t) rows) =
      (if i = x_id t \<and> find (\<lambda>r. r_id r = i) rows \<noteq> None then Some (ticket_to_row t)
       else find (\<lambda>r. r_id r = i) rows)"
    by (induction rows) (auto simp: update_where_def ticket_to_row_def)
  then show ?thesis by (auto simp: store_upsert_def find_append ticket_to_row_def split: option.splits)
qed

lemma store_get_upsert:
  "store_get i (store_upsert t rows) = (if i = x_id t then Some (as_stored t) else store_get i rows)"
  by (simp add: store_get_def find_upsert row_to_ticket_to_row)

text \<open>C19. What the queue writes, the store reads back: after a write, the ticket of that id is the one
  written, without its empty texts and without the choice not to notify, and the other tickets are
  unchanged.\<close>

theorem store_reads_back:
  "store_get i (store_upsert t rows) = (if i = x_id t then Some (as_stored t) else store_get i rows)"
  by (rule store_get_upsert)

section \<open>The store follows the queue\<close>

definition state_at :: "tickets \<Rightarrow> string \<Rightarrow> exec_state option" where
  "state_at q i = map_option x_state (ticket_of i q)"

fun written :: "outcome \<Rightarrow> ticket option" where
  "written (Waits (Call_Persist t) ks) = Some t"
| "written _ = None"

definition persists :: "tickets \<Rightarrow> run \<Rightarrow> bool" where
  "persists q run \<longleftrightarrow>
     (\<forall>i. state_at (snd run) i =
        (case written (fst run) of None \<Rightarrow> state_at q i
         | Some t \<Rightarrow> if i = x_id t then Some (x_state t) else state_at q i))"

lemma persists_same: "written out = None \<Longrightarrow> persists q (out, q)"
  by (simp add: persists_def)

lemma state_at_put:
  "ticket_of (x_id t) q \<noteq> None \<Longrightarrow> state_at (put_ticket t q) i = (if i = x_id t then Some (x_state t) else state_at q i)"
  by (auto simp: state_at_def ticket_of_put)

lemma persists_put:
  "ticket_of i q = Some u \<Longrightarrow> x_id t = x_id u \<Longrightarrow> persists q (Waits (Call_Persist t) ks, put_ticket t q)"
  by (frule ticket_of_id) (simp add: persists_def state_at_put)

lemma persists_change:
  assumes "ticket_of i q = Some u" and "x_id t = x_id u"
    and "to \<notin> set (transitions (x_state t)) \<Longrightarrow> x_state t = x_state u"
  shows "persists q (change t to now f ks q)"
  using assms ticket_of_id [OF assms(1)]
  by (auto simp: change_def persists_def state_at_put) (auto simp: state_at_def)

lemma persists_pump:
  assumes "distinct (map x_id q)"
  shows "persists q (pump cap now ks q)"
proof (cases "next_queued cap q")
  case None
  then show ?thesis by (simp add: pump_def persists_same)
next
  case (Some t)
  then have "t \<in> set q" by (auto simp: next_queued_def dest!: first_row_Some split: if_splits)
  from persists_change [OF ticket_of_member [OF assms this]] Some show ?thesis by (simp add: pump_def)
qed

lemma persists_fail: "persists q (fail i nt now ks q)"
  by (auto simp: fail_def intro!: persists_same persists_change split: option.splits)

lemma persists_ticket:
  "(\<And>t. ticket_of i q = Some t \<Longrightarrow> x_id t = i \<Longrightarrow> persists q (k t)) \<Longrightarrow> persists q (with_ticket i q k)"
  by (auto simp: with_ticket_def intro: persists_same dest: ticket_of_id split: option.splits)

lemma persists_reply: "persists q k \<Longrightarrow> persists q (ok_or_throw r q k)"
  by (auto simp: ok_or_throw_def intro: persists_same split: reply.splits)

lemma resume_persists:
  assumes "distinct (map x_id q)"
  shows "persists q (resume cap now r f ks q)"
proof (cases f)
  case (F_Launched i)
  then show ?thesis by (cases r) (auto intro: persists_pump [OF assms] persists_fail)
next
  case (F_Shipped i)
  then show ?thesis by (cases r) (auto intro!: persists_ticket persists_change persists_fail)
qed (auto intro!: persists_reply persists_ticket persists_same persists_pump [OF assms])

lemma start_persists:
  assumes "distinct (map x_id q)"
  shows "persists q (start cap now rq q)"
proof (cases rq)
  case (Enqueue i tgt ctx effort nt)
  then show ?thesis
    by (auto simp: enqueue_def Let_def persists_def state_at_def ticket_of_snoc split: option.splits)
qed (auto simp: report_outcome_def record_progress_def record_transcript_url_def report_blocked_def
      approve_def unblock_def Let_def split: option.splits dest: ticket_of_id
      intro!: persists_same persists_ticket persists_change persists_put persists_fail persists_pump [OF assms])

definition in_store :: "exec_row list \<Rightarrow> exec_system \<Rightarrow> bool" where
  "in_store rows s \<longleftrightarrow>
     (\<forall>i st. state_at (sy_tickets s) i = Some st \<longrightarrow>
        map_option x_state (store_get i (rows_after (sy_log s) rows)) = Some st)"

lemma rows_after_Nil [simp]: "rows_after [] rows = rows"
  by (simp add: rows_after_def)

lemma rows_after_append: "rows_after (log @ log') rows = rows_after log' (rows_after log rows)"
  by (simp add: rows_after_def)

lemma rows_after_call:
  "rows_after (case out of Waits c _ \<Rightarrow> [Called c] | _ \<Rightarrow> []) rows =
     (case written out of None \<Rightarrow> rows | Some t \<Rightarrow> store_upsert t rows)"
  by (cases out rule: written.cases) (auto simp: rows_after_def)

lemma in_store_step:
  assumes "persists (sy_tickets s) (out, sy_tickets t)" and "in_store rows s"
    and "sy_log t = sy_log s @ [h] @ (case out of Waits c _ \<Rightarrow> [Called c] | _ \<Rightarrow> [])" and "stored h = id"
  shows "in_store rows t"
proof -
  have h: "rows_after (h # log) rows' = rows_after log rows'" for log rows'
    using assms(4) by (simp add: rows_after_def)
  have "rows_after (sy_log t) rows =
      (case written out of None \<Rightarrow> rows_after (sy_log s) rows | Some u \<Rightarrow> store_upsert u (rows_after (sy_log s) rows))"
    unfolding assms(3) rows_after_append by (simp add: h rows_after_call cong: option.case_cong)
  with assms(1,2) show ?thesis
    by (auto simp: in_store_def persists_def store_get_upsert as_stored_def split: option.splits if_splits)
qed

section \<open>From one run of the program to the next\<close>

lemma fold_set_ticket:
  assumes "distinct (map x_id (q @ ts))"
  shows "fold set_ticket ts q = q @ ts"
  using assms
proof (induction ts arbitrary: q)
  case (Cons t ts)
  then have "x_id t \<notin> x_id ` set q" by auto
  then have "ticket_of (x_id t) q = None" unfolding ticket_of_def find_None_all by (metis image_eqI)
  with Cons show ?case by (simp add: set_ticket_def)
qed simp

lemma order_by_ids:
  "distinct (map f rows) \<Longrightarrow> distinct (map f (order_by k rows))"
  by (simp add: order_by_def distinct_map)

lemma build_queue_boot:
  assumes "distinct (map r_id rows)"
  shows "\<exists>cap. build_queue c rows = Inr (cap, store_active rows) \<and> 1 \<le> cap"
proof -
  have ids: "map x_id (map row_to_ticket rs) = map r_id rs" for rs by (simp add: row_to_ticket_def)
  have "distinct (map r_id (filter p rows))" for p using assms by (simp add: distinct_map inj_on_def)
  then have "distinct (map x_id (store_active rows))"
    unfolding store_active_def ids by (rule order_by_ids)
  from fold_set_ticket [of "[]", simplified, OF this] show ?thesis
    by (auto simp: build_queue_def new_queue_def default_concurrency_def split: js_number.splits)
qed

lemma open_store_ids [simp]: "map r_id (open_store now rows) = map r_id rows"
  unfolding open_store_def by (rule map_update_where) (simp add: interrupted_def)

lemma open_store_not_running: "r \<in> set (open_store now rows) \<Longrightarrow> r_state r \<noteq> X_Running"
  unfolding open_store_def in_update_where by (elim bexE) (simp add: interrupted_def split: if_splits)

lemma restart_not_running:
  assumes "t \<in> set (store_active (open_store now rows))"
  shows "x_state t \<noteq> X_Running"
  using assms open_store_not_running [of _ now rows] by (auto simp: store_active_def row_to_ticket_def)

lemma restart_running_count: "running_count (store_active (open_store now rows)) = 0"
  using restart_not_running by (auto simp: running_count_def count_where_def filter_empty_conv)

lemma store_active_get:
  assumes "distinct (map r_id rows)" and "t \<in> set (store_active rows)"
  shows "store_get (x_id t) rows = Some t"
proof -
  from assms(2) obtain r where r: "r \<in> set rows" "t = row_to_ticket r" by (auto simp: store_active_def)
  then have "find (\<lambda>q. r_id q = x_id t) rows = Some r"
    by (intro find_unique [where k = r_id, OF assms(1)]) (simp_all add: row_to_ticket_def)
  with r show ?thesis by (simp add: store_get_def)
qed

lemma boot_in_store:
  assumes "distinct (map r_id rows)"
  shows "in_store rows (boot (store_active rows))"
  using store_active_get [OF assms]
  by (auto simp: in_store_def boot_def state_at_def dest!: ticket_of_id)

lemma in_store_act:
  assumes "exec_step cap s t" and "distinct (map x_id (sy_tickets s))" and "in_store rows s"
  shows "in_store rows t"
  using assms(1)
proof (cases rule: exec_step_run)
  case (asked now rq out)
  with start_persists [OF assms(2), of cap now rq] show ?thesis
    by (intro in_store_step [OF _ assms(3)]) auto
next
  case (answered now r w f ks xs ys out)
  with resume_persists [OF assms(2), of cap now r f ks] show ?thesis
    by (intro in_store_step [OF _ assms(3)]) auto
qed

interpretation exec_durable: protocol_invariant "exec_step cap"
  "\<lambda>s. under_cap cap (sy_tickets s) \<and> in_store rows s" for cap rows
proof
  fix s t
  assume "exec_step cap s t" "under_cap cap (sy_tickets s) \<and> in_store rows s"
  then show "under_cap cap (sy_tickets t) \<and> in_store rows t"
    using exec_safety.act_keeps [of cap s t] in_store_act [of cap s t rows] by (simp add: under_cap_def)
qed

text \<open>C13. The queue and its store: a restart always builds a queue, of the tickets that are not finished,
  with none of them running; from then on the cap holds, and the state of every ticket of the queue is
  the state its row in the store has, as long as the writes to the store succeed, under every
  interleaving and however the other seams fail.\<close>

theorem store_follows_queue:
  assumes "distinct (map r_id rows)"
  shows "\<exists>cap q. build_queue c (open_store now rows) = Inr (cap, q) \<and> 1 \<le> cap \<and>
    q = store_active (open_store now rows) \<and> running_count q = 0 \<and>
    running_count (sy_tickets (exec_after cap ms (boot q))) \<le> cap \<and>
    (ticket_of i (sy_tickets (exec_after cap ms (boot q))) = Some t \<longrightarrow>
      map_option x_state (store_get i (rows_after (sy_log (exec_after cap ms (boot q))) (open_store now rows)))
        = Some (x_state t))"
proof -
  let ?rows = "open_store now rows" and ?q = "store_active (open_store now rows)"
  have d: "distinct (map r_id ?rows)" using assms by simp
  from build_queue_boot [OF d, of c] obtain cap where b: "build_queue c ?rows = Inr (cap, ?q)" "1 \<le> cap" by auto
  then have "under_cap cap (sy_tickets (boot ?q))"
    by (auto simp: build_queue_def restart_running_count intro: boot_under_cap)
  with boot_in_store [OF d] have "under_cap cap (sy_tickets (boot ?q)) \<and> in_store ?rows (boot ?q)" by simp
  from exec_durable.run_keeps [OF exec_after_run this, of ms] b restart_running_count [of now rows]
  show ?thesis by (auto simp: under_cap_def in_store_def state_at_def)
qed

text \<open>
  The outcome of a run that a restart interrupted: when the row had no note, the outcome is taken,
  and the ticket goes to review or is done; but when the row still had the note of an earlier
  blocker, the outcome is dropped and the ticket stays blocked.\<close>

theorem outcome_after_restart:
  assumes "distinct (map r_id rows)" and "r \<in> set rows" and "r_state r = X_Running" and "r_id r = i"
  shows "(r_note r = None \<longrightarrow>
      state_at (snd (report_outcome i outward evidence nt manifest t (store_active (open_store now rows)))) i =
        Some (if outward then X_Review else X_Done)) \<and>
    (r_note r \<noteq> None \<and> r_note r \<noteq> Some restart_note \<longrightarrow>
      report_outcome i outward evidence nt manifest t (store_active (open_store now rows)) =
        (Returns [], store_active (open_store now rows)) \<and>
      state_at (store_active (open_store now rows)) i = Some X_Blocked)"
proof -
  let ?q = "store_active (open_store now rows)" and ?t = "row_to_ticket (interrupted now r)"
  have "interrupted now r \<in> set (open_store now rows)"
    using assms(2,3) unfolding open_store_def in_update_where by (intro bexI [of _ r]) auto
  then have "?t \<in> set ?q"
    by (auto simp: store_active_def active_state_def interrupted_def)
  moreover have "distinct (map x_id ?q)"
    using build_queue_boot [of "open_store now rows" c] assms(1)
    by (auto simp: build_queue_def intro: new_queue_distinct)
  moreover have "x_id ?t = i" using assms(4) by (simp add: row_to_ticket_def interrupted_def)
  ultimately have t: "ticket_of i ?q = Some ?t" using ticket_of_member by blast
  have "restart_note \<noteq> []" by (simp add: restart_note_def)
  with t assms(4) show ?thesis
    by (auto simp: report_outcome_def with_ticket_def Let_def restart_interrupted_def row_to_ticket_def
        interrupted_def filled_def change_def state_at_def ticket_of_put split: option.splits)
qed

end
