(* ===== verification/Exec_Examples.thy ===== *)
theory Exec_Examples
  imports Exec_Store
begin

text \<open>
  A queue with one slot and two tickets, run move by move: the first ticket runs, its outward outcome is
  approved and shipped, and the second takes the slot. Each property of the execution queue that has
  hypotheses is applied to it.
\<close>

definition demo_ok :: "int \<Rightarrow> exec_move" where
  "demo_ok now = Answer now 0 (Replied ''u'')"

definition demo_moves :: "exec_move list" where
  "demo_moves =
     [Ask 1 (Enqueue ''a'' ''o/r#1'' ''c'' None None), demo_ok 2, demo_ok 3, demo_ok 4, demo_ok 5,
      Ask 6 (Enqueue ''b'' ''o/r#2'' ''c'' None None), demo_ok 7,
      Ask 8 (Report_Outcome ''a'' True None None None), demo_ok 9, demo_ok 10, demo_ok 11, demo_ok 12, demo_ok 13,
      Ask 14 (Approve ''a'' None), demo_ok 15, demo_ok 16, demo_ok 17, demo_ok 18]"

definition demo_exec :: exec_system where
  "demo_exec = exec_after 1 (Ask 0 Resume_Queue # demo_moves) (boot [])"

definition demo_ticket :: "string \<Rightarrow> string \<Rightarrow> exec_state \<Rightarrow> int \<Rightarrow> int \<Rightarrow> ticket" where
  "demo_ticket i target st started updated =
     \<lparr>x_id = i, x_target = target, x_context = ''c'', x_effort = None, x_state = st, x_evidence = None,
      x_note = None, x_final = None, x_outward = None, x_notify = None, x_deliverable = None,
      x_started = Some started, x_phase = None, x_progress = None, x_events = None, x_transcript = None,
      x_updated = updated\<rparr>"

lemmas demo_exec_ops =
  exec_after_def boot_def demo_ok_def ask_def answer_def without_def fits_def pump_def next_queued_def
  change_def stamped_def running_count_def count_where_def first_row_def order_by_def ticket_of_def
  put_ticket_def enqueue_def report_outcome_def approve_def with_ticket_def ok_or_throw_def or_else_def
  restart_interrupted_def report_of_def Let_def

lemma demo_new: "new_queue (Jint 1) [] = Inr (1, [])"
  by (simp add: new_queue_def)

lemma demo_exec_run:
  "sy_tickets demo_exec =
     [(demo_ticket ''a'' ''o/r#1'' X_Done 2 16)\<lparr>x_outward := Some True, x_evidence := Some ''u''\<rparr>,
      demo_ticket ''b'' ''o/r#2'' X_Running 10 10]"
  "sy_tasks demo_exec = []" "sy_errors demo_exec = []"
  by (simp_all add: demo_exec_def demo_moves_def demo_exec_ops demo_ticket_def)

lemma concurrency_cap_holds_witness: "running_count (sy_tickets demo_exec) \<le> 1"
  unfolding demo_exec_def
  by (rule concurrency_cap_holds [OF demo_new]) (simp add: running_count_def count_where_def)

lemma demo_exec_a:
  "ticket_of ''a'' (sy_tickets demo_exec) =
     Some ((demo_ticket ''a'' ''o/r#1'' X_Done 2 16)\<lparr>x_outward := Some True, x_evidence := Some ''u''\<rparr>)"
  by (simp add: demo_exec_run ticket_of_def demo_ticket_def)

lemma execution_lifecycle_witness:
  "\<exists>t. ticket_of ''a'' (sy_tickets (exec_after 1 ((Ask 0 Resume_Queue # demo_moves) @
     [Ask 20 (Fail ''a'' None), Ask 21 (Report_Outcome ''a'' False None None None)]) (boot []))) = Some t \<and>
     x_state t = X_Done \<and> x_started t = Some 2"
  using execution_lifecycle [OF demo_new _ demo_exec_a [unfolded demo_exec_def],
      of "[Ask 20 (Fail ''a'' None), Ask 21 (Report_Outcome ''a'' False None None None)]"]
  by (auto simp: running_count_def count_where_def demo_ticket_def)

lemma outward_work_needs_approval_witness:
  "approval_asked (sy_log demo_exec) ''a'' \<and> ship_answered (sy_log demo_exec) ''a'' (Some ''u'')"
  using outward_work_needs_approval [OF demo_new _ _ demo_exec_a [unfolded demo_exec_def]]
  by (simp add: running_count_def count_where_def demo_ticket_def demo_exec_def)

lemma free_slots_are_used_witness:
  "running_count (sy_tickets demo_exec) = 1 \<or> (\<forall>t \<in> set (sy_tickets demo_exec). x_state t \<noteq> X_Queued)"
  by (rule free_slots_are_used [OF demo_new, where ms = "Ask 0 Resume_Queue # demo_moves" and s = demo_exec])
    (simp_all add: demo_exec_run running_count_def count_where_def, simp add: demo_exec_def)

lemma execution_queue_settles_witness:
  "answerable (Answer 2 0 (Replied ''v'')) (exec_after 1 [Ask 1 (Enqueue ''a'' ''o/r#1'' ''c'' None None)] (boot []))"
proof -
  have "sy_tasks (exec_after 1 [Ask 1 (Enqueue ''a'' ''o/r#1'' ''c'' None None)] (boot [])) \<noteq> []"
    by (simp add: demo_exec_ops)
  with execution_queue_settles [OF demo_new, of "exec_after 1 [Ask 1 (Enqueue ''a'' ''o/r#1'' ''c'' None None)] (boot [])"
      "[Ask 1 (Enqueue ''a'' ''o/r#1'' ''c'' None None)]" "[]" 2 "''v''"]
  show ?thesis by (simp add: running_count_def count_where_def)
qed

section \<open>A restart\<close>

definition demo_row :: "string option \<Rightarrow> exec_row" where
  "demo_row n = (ticket_to_row (demo_ticket ''a'' ''o/r#1'' X_Running 2 3))\<lparr>r_note := n\<rparr>"

lemma store_follows_queue_witness:
  "\<exists>cap q. build_queue (Jint 2) (open_store 9 [demo_row None]) = Inr (cap, q) \<and> 1 \<le> cap \<and> running_count q = 0"
  using store_follows_queue [of "[demo_row None]" "Jint 2" 9 "[]" "''a''" "demo_ticket ''a'' [] X_Done 0 0"]
  by auto

lemma outcome_after_restart_witness:
  "state_at (snd (report_outcome ''a'' True None None None 10 (store_active (open_store 9 [demo_row None])))) ''a'' =
     Some X_Review \<and>
   state_at (store_active (open_store 9 [demo_row (Some ''n'')])) ''a'' = Some X_Blocked"
  using outcome_after_restart [of "[demo_row None]" "demo_row None" "''a''" True None None None 10 9]
    outcome_after_restart [of "[demo_row (Some ''n'')]" "demo_row (Some ''n'')" "''a''" True None None None 10 9]
  by (simp_all add: demo_row_def ticket_to_row_def demo_ticket_def restart_note_def)

lemma fail_outcome_witness:
  "fail ''a'' None 9 [] [demo_ticket ''a'' [] X_Queued 0 3] =
     (Throws (Illegal_Transition ''a'' X_Queued X_Failed), [demo_ticket ''a'' [] X_Queued 0 3])"
  using fail_outcome [of "''a''" "[demo_ticket ''a'' [] X_Queued 0 3]" "demo_ticket ''a'' [] X_Queued 0 3" None 9 "[]"]
  by (simp add: ticket_of_def demo_ticket_def put_ticket_def)

end
