(* ===== verification/Task_Jobs.thy ===== *)
theory Task_Jobs
  imports Prelude
begin

text \<open>
  The durable queue of agentic jobs (packages/server/src/taskJobStore.ts). Several store instances, of
  one or more tenants and processes, work on one database.

  \<^item> The rows of \<open>task_jobs\<close> are a list in insertion order; rows created at the same time come in that
    order.
  \<^item> The JSON texts of the input and the result of a job are modelled by their values.
  \<^item> An instance is its tenant and its random owner id; random ids and claim tokens are arguments.
\<close>

section \<open>Data\<close>

datatype job_kind = Kind_Chat | Kind_Task | Kind_Work | Kind_Store | Kind_Media | Kind_Enrich | Kind_Sweep

datatype job_status = Job_Queued | Job_Running | Job_Done | Job_Error | Job_Interrupted

record job_row =
  j_id :: string
  j_tenant :: "string option"
  j_key :: "string option"
  j_kind :: job_kind
  j_input :: json
  j_status :: job_status
  j_result :: "json option"
  j_error :: "string option"
  j_attempts :: int
  j_owner :: "string option"
  j_token :: "string option"
  j_lease :: "int option"
  j_created :: int
  j_updated :: int

record task_job =
  tj_id :: string
  tj_kind :: job_kind
  tj_key :: "string option"
  tj_token :: "string option"
  tj_input :: json
  tj_status :: job_status
  tj_result :: "json option"
  tj_error :: "string option"
  tj_attempts :: int
  tj_created :: int
  tj_updated :: int

definition row_to_job :: "job_row \<Rightarrow> task_job" where
  "row_to_job r =
     \<lparr>tj_id = j_id r, tj_kind = j_kind r, tj_key = j_key r, tj_token = j_token r, tj_input = j_input r,
      tj_status = j_status r, tj_result = j_result r, tj_error = j_error r, tj_attempts = j_attempts r,
      tj_created = j_created r, tj_updated = j_updated r\<rparr>"

record job_store =
  js_tenant :: string
  js_owner :: string

record job_claim =
  cl_id :: string
  cl_token :: "string option"

record job_patch =
  jp_status :: "job_status option"
  jp_result :: "json option option"
  jp_error :: "string option option"

datatype job_failure = Job_Failure string | Job_Constraint

type_synonym jobs = "job_row list"

definition max_capture_attempts :: int where "max_capture_attempts = 3"
definition max_filing_attempts :: int where "max_filing_attempts = 1"
definition job_lease_ms :: int where "job_lease_ms = 4 * 60000"

definition capture_kind :: "job_kind \<Rightarrow> bool" where
  "capture_kind k \<longleftrightarrow> k \<in> {Kind_Store, Kind_Media, Kind_Enrich}"

section \<open>Conditions of the statements\<close>

definition of_tenant :: "job_store \<Rightarrow> job_row \<Rightarrow> bool" where
  "of_tenant s r \<longleftrightarrow> j_tenant r = Some (js_tenant s)"

text \<open>\<open>col = ?\<close> never holds for \<open>NULL\<close>, on either side.\<close>

definition sql_eq :: "'a option \<Rightarrow> 'a option \<Rightarrow> bool" where
  "sql_eq v w \<longleftrightarrow> v \<noteq> None \<and> v = w"

definition lease_after :: "int \<Rightarrow> job_row \<Rightarrow> bool" where
  "lease_after now r \<longleftrightarrow> (case j_lease r of None \<Rightarrow> False | Some l \<Rightarrow> now < l)"

definition lease_lapsed :: "int \<Rightarrow> job_row \<Rightarrow> bool" where
  "lease_lapsed now r \<longleftrightarrow> (case j_lease r of None \<Rightarrow> True | Some l \<Rightarrow> l \<le> now)"

text \<open>The row a claim holds.\<close>

definition claim_holds :: "job_store \<Rightarrow> job_claim \<Rightarrow> int \<Rightarrow> job_row \<Rightarrow> bool" where
  "claim_holds s c now r \<longleftrightarrow> of_tenant s r \<and> j_id r = cl_id c \<and> j_status r = Job_Running \<and>
     j_owner r = Some (js_owner s) \<and> sql_eq (j_token r) (cl_token c) \<and> lease_after now r"

definition unclaimed :: "int \<Rightarrow> job_row \<Rightarrow> job_row" where
  "unclaimed now r = r\<lparr>j_owner := None, j_token := None, j_lease := None, j_updated := now\<rparr>"

text \<open>\<open>LIKE\<close> compares ASCII letters without case, and an underscore matches any character.\<close>

fun like_prefix :: "string \<Rightarrow> string \<Rightarrow> bool" where
  "like_prefix [] s \<longleftrightarrow> True"
| "like_prefix (p # ps) [] \<longleftrightarrow> False"
| "like_prefix (p # ps) (c # cs) \<longleftrightarrow> (p = CHR ''_'' \<or> to_lower p = to_lower c) \<and> like_prefix ps cs"

fun like_inside :: "string \<Rightarrow> string \<Rightarrow> bool" where
  "like_inside p [] \<longleftrightarrow> like_prefix p []"
| "like_inside p (c # cs) \<longleftrightarrow> like_prefix p (c # cs) \<or> like_inside p cs"

fun starts_with :: "string \<Rightarrow> string \<Rightarrow> bool" where
  "starts_with [] s \<longleftrightarrow> True"
| "starts_with (p # ps) [] \<longleftrightarrow> False"
| "starts_with (p # ps) (c # cs) \<longleftrightarrow> p = c \<and> starts_with ps cs"

fun text_includes :: "string \<Rightarrow> string \<Rightarrow> bool" where
  "text_includes p [] \<longleftrightarrow> starts_with p []"
| "text_includes p (c # cs) \<longleftrightarrow> starts_with p (c # cs) \<or> text_includes p cs"

definition recovery_mark :: string where "recovery_mark = ''filing_recovery_pending''"

definition awaiting_vault_recovery :: "task_job \<Rightarrow> bool" where
  "awaiting_vault_recovery j \<longleftrightarrow> tj_status j = Job_Error \<and> capture_kind (tj_kind j) \<and>
     (case tj_error j of None \<Rightarrow> False | Some e \<Rightarrow> text_includes recovery_mark e)"

section \<open>Opening\<close>

definition requeued_capture :: "int \<Rightarrow> job_row \<Rightarrow> job_row" where
  "requeued_capture now r = (unclaimed now r)\<lparr>j_status := Job_Queued, j_attempts := j_attempts r + 1\<rparr>"

definition interrupted_job :: "int \<Rightarrow> job_row \<Rightarrow> job_row" where
  "interrupted_job now r = (unclaimed now r)\<lparr>j_status := Job_Interrupted,
     j_error := Some (if capture_kind (j_kind r)
       then ''interrupted by a server restart (gave up after '' @ int_str (j_attempts r) @ '' retries)''
       else ''interrupted by a server restart'')\<rparr>"

definition recover_expired_running :: "job_store \<Rightarrow> int \<Rightarrow> jobs \<Rightarrow> jobs" where
  "recover_expired_running s now rows =
     update_where (\<lambda>r. of_tenant s r \<and> j_status r = Job_Running \<and> lease_lapsed now r) (interrupted_job now)
       (update_where (\<lambda>r. of_tenant s r \<and> j_status r = Job_Running \<and> capture_kind (j_kind r) \<and>
            j_attempts r < max_capture_attempts \<and> lease_lapsed now r)
          (requeued_capture now) rows)"

text \<open>The unique index: no two rows of a tenant have the same key.\<close>

definition tenant_key :: "job_row \<Rightarrow> (string \<times> string) option" where
  "tenant_key r = (case (j_tenant r, j_key r) of (Some t, Some k) \<Rightarrow> Some (t, k) | _ \<Rightarrow> None)"

definition keys_unique :: "jobs \<Rightarrow> bool" where
  "keys_unique rows \<longleftrightarrow> distinct (List.map_filter tenant_key rows)"

definition adopt_rows :: "string \<Rightarrow> jobs \<Rightarrow> jobs" where
  "adopt_rows t rows = update_where (\<lambda>r. j_tenant r = None \<or> j_tenant r = Some []) (\<lambda>r. r\<lparr>j_tenant := Some t\<rparr>) rows"

definition open_jobs :: "string \<Rightarrow> string \<Rightarrow> int \<Rightarrow> jobs \<Rightarrow> job_failure + (job_store \<times> jobs)" where
  "open_jobs tenant owner now rows =
     (let t = js_trim tenant in
      if t = [] then Inl (Job_Failure ''TaskJobStore tenantId must not be empty'')
      else if \<not> keys_unique (adopt_rows t rows) then Inl Job_Constraint
      else let s = \<lparr>js_tenant = t, js_owner = owner\<rparr> in
        Inr (s, recover_expired_running s now (adopt_rows t rows)))"

section \<open>Enqueueing\<close>

definition job_by_id :: "job_store \<Rightarrow> string \<Rightarrow> jobs \<Rightarrow> job_row option" where
  "job_by_id s i rows = find (\<lambda>r. of_tenant s r \<and> j_id r = i) rows"

definition job_by_key :: "job_store \<Rightarrow> string \<Rightarrow> jobs \<Rightarrow> job_row option" where
  "job_by_key s k rows = find (\<lambda>r. of_tenant s r \<and> j_key r = Some k) rows"

definition new_job :: "job_store \<Rightarrow> string \<Rightarrow> job_kind \<Rightarrow> json \<Rightarrow> string option \<Rightarrow> int \<Rightarrow> job_row" where
  "new_job s i kind input key now =
     \<lparr>j_id = i, j_tenant = Some (js_tenant s), j_key = key, j_kind = kind, j_input = input,
      j_status = Job_Queued, j_result = None, j_error = None, j_attempts = 0, j_owner = None, j_token = None,
      j_lease = None, j_created = now, j_updated = now\<rparr>"

definition keyed_kind :: "job_kind \<Rightarrow> bool" where
  "keyed_kind k \<longleftrightarrow> k \<in> {Kind_Chat, Kind_Store, Kind_Media, Kind_Enrich, Kind_Sweep}"

definition enqueue_job ::
  "job_store \<Rightarrow> string \<Rightarrow> job_kind \<Rightarrow> json \<Rightarrow> string option \<Rightarrow> int \<Rightarrow> jobs \<Rightarrow> (job_failure + task_job) \<times> jobs"
  where
  "enqueue_job s i kind input key now rows =
     (let k = map_option js_trim key in
      if k = Some [] then (Inl (Job_Failure ''idempotencyKey must not be empty''), rows)
      else if (case k of None \<Rightarrow> False | Some t \<Rightarrow> 512 < length t)
        then (Inl (Job_Failure ''idempotencyKey must be at most 512 characters''), rows)
      else if k \<noteq> None \<and> \<not> keyed_kind kind
        then (Inl (Job_Failure
          ''idempotencyKey is only supported for durable channel/capture jobs and the weekly tree sweep''), rows)
      else
        let row = new_job s i kind input k now; taken = list_ex (\<lambda>r. j_id r = i) rows in
        case k of
          Some t \<Rightarrow>
            let rows' = (if taken \<or> job_by_key s t rows \<noteq> None then rows else rows @ [row]) in
            (case job_by_key s t rows' of
               None \<Rightarrow> (Inl (Job_Failure ''Failed to resolve idempotent capture job''), rows')
             | Some r \<Rightarrow> (Inr (row_to_job r), rows'))
        | None \<Rightarrow>
            if taken then (Inl Job_Constraint, rows)
            else (case job_by_id s i (rows @ [row]) of
                    None \<Rightarrow> (Inl Job_Constraint, rows @ [row])
                  | Some r \<Rightarrow> (Inr (row_to_job r), rows @ [row])))"

section \<open>Claims\<close>

definition queued_for :: "job_store \<Rightarrow> job_row \<Rightarrow> bool" where
  "queued_for s r \<longleftrightarrow> of_tenant s r \<and> j_status r = Job_Queued"

definition next_queued_job :: "job_store \<Rightarrow> jobs \<Rightarrow> task_job option" where
  "next_queued_job s rows = map_option row_to_job (first_row (order_by j_created (filter (queued_for s) rows)))"

definition claimed_job :: "job_store \<Rightarrow> string \<Rightarrow> int \<Rightarrow> job_row \<Rightarrow> job_row" where
  "claimed_job s token now r = r\<lparr>j_status := Job_Running, j_owner := Some (js_owner s), j_token := Some token,
     j_lease := Some (now + job_lease_ms), j_updated := now\<rparr>"

definition claim_next_queued ::
  "job_store \<Rightarrow> string \<Rightarrow> int \<Rightarrow> job_kind list option \<Rightarrow> jobs \<Rightarrow> task_job option \<times> jobs" where
  "claim_next_queued s token now kinds rows =
     (if kinds = Some [] then (None, rows)
      else
        case first_row (order_by j_created
               (filter (\<lambda>r. queued_for s r \<and> (case kinds of None \<Rightarrow> True | Some ks \<Rightarrow> j_kind r \<in> set ks)) rows)) of
          None \<Rightarrow> (None, rows)
        | Some r \<Rightarrow> (Some (row_to_job (claimed_job s token now r)),
                     update_where (\<lambda>q. queued_for s q \<and> j_id q = j_id r) (claimed_job s token now) rows))"

text \<open>An \<open>UPDATE\<close> and whether it changed one row.\<close>

definition update_one :: "(job_row \<Rightarrow> bool) \<Rightarrow> (job_row \<Rightarrow> job_row) \<Rightarrow> jobs \<Rightarrow> bool \<times> jobs" where
  "update_one p f rows = (count_where p rows = 1, update_where p f rows)"

definition renew_claim :: "job_store \<Rightarrow> job_claim \<Rightarrow> int \<Rightarrow> jobs \<Rightarrow> bool \<times> jobs" where
  "renew_claim s c now rows =
     update_one (claim_holds s c now) (\<lambda>r. r\<lparr>j_lease := Some (now + job_lease_ms), j_updated := now\<rparr>) rows"

definition assert_claim :: "job_store \<Rightarrow> job_claim \<Rightarrow> int \<Rightarrow> jobs \<Rightarrow> job_failure + unit" where
  "assert_claim s c now rows =
     (if find (claim_holds s c now) rows = None then Inl (Job_Failure ''task_job_claim_lost'') else Inr ())"

definition requeue_filing ::
  "job_store \<Rightarrow> job_claim \<Rightarrow> json option \<Rightarrow> string option \<Rightarrow> int \<Rightarrow> jobs \<Rightarrow> bool \<times> jobs" where
  "requeue_filing s c result err now rows =
     update_one (\<lambda>r. claim_holds s c now r \<and> j_kind r = Kind_Enrich \<and> j_attempts r < max_filing_attempts)
       (\<lambda>r. (unclaimed now r)\<lparr>j_status := Job_Queued,
          j_result := (case result of None \<Rightarrow> j_result r | Some v \<Rightarrow> Some v), j_error := err,
          j_attempts := j_attempts r + 1\<rparr>) rows"

fun json_field_of :: "string \<Rightarrow> json \<Rightarrow> json option" where
  "json_field_of k (JObj kvs) = map_of (rev kvs) k"
| "json_field_of k _ = None"

definition resume_pending :: "job_store \<Rightarrow> job_claim \<Rightarrow> json \<Rightarrow> int \<Rightarrow> jobs \<Rightarrow> bool \<times> jobs" where
  "resume_pending s c result now rows =
     (if json_field_of ''filing'' result = Some (JStr ''pending'') then requeue_filing s c (Some result) None now rows else (False, rows))"

definition resume_publication_failure :: "job_store \<Rightarrow> job_claim \<Rightarrow> string \<Rightarrow> int \<Rightarrow> jobs \<Rightarrow> bool \<times> jobs" where
  "resume_publication_failure s c err now rows = requeue_filing s c None (Some err) now rows"

section \<open>Recovery\<close>

definition fresh_budget :: "int \<Rightarrow> job_row \<Rightarrow> job_row" where
  "fresh_budget now r = (unclaimed now r)\<lparr>j_status := Job_Queued, j_attempts := 0, j_error := None\<rparr>"

definition requeue_for_recovery :: "job_store \<Rightarrow> string \<Rightarrow> int \<Rightarrow> jobs \<Rightarrow> bool \<times> jobs" where
  "requeue_for_recovery s i now rows =
     update_one (\<lambda>r. of_tenant s r \<and> j_id r = i \<and> j_status r \<notin> {Job_Queued, Job_Running}) (fresh_budget now) rows"

definition recovery_blocked :: "job_store \<Rightarrow> job_row \<Rightarrow> bool" where
  "recovery_blocked s r \<longleftrightarrow> of_tenant s r \<and> j_status r = Job_Error \<and> capture_kind (j_kind r) \<and>
     (case j_error r of None \<Rightarrow> False | Some e \<Rightarrow> like_inside recovery_mark e)"

definition requeue_filing_recovery_blocked :: "job_store \<Rightarrow> int \<Rightarrow> jobs \<Rightarrow> nat \<times> jobs" where
  "requeue_filing_recovery_blocked s now rows =
     (count_where (recovery_blocked s) rows, update_where (recovery_blocked s) (fresh_budget now) rows)"

section \<open>Reading\<close>

definition newest_jobs :: "(job_row \<Rightarrow> bool) \<Rightarrow> jobs \<Rightarrow> job_row list" where
  "newest_jobs p rows = order_desc j_created (filter p rows)"

definition limited :: "int \<Rightarrow> 'a list \<Rightarrow> 'a list" where
  "limited n xs = (if n < 0 then xs else take (nat n) xs)"

definition enrichment_jobs_for :: "job_store \<Rightarrow> string \<Rightarrow> jobs \<Rightarrow> task_job list" where
  "enrichment_jobs_for s ref rows =
     map row_to_job (newest_jobs (\<lambda>r. of_tenant s r \<and> j_kind r = Kind_Enrich \<and>
       json_field_of ''evidenceRef'' (j_input r) = Some (JStr ref)) rows)"

definition next_running_lease_expiry :: "job_store \<Rightarrow> jobs \<Rightarrow> int option" where
  "next_running_lease_expiry s rows =
     (case List.map_filter (\<lambda>r. if of_tenant s r \<and> j_status r = Job_Running then j_lease r else None) rows of
        [] \<Rightarrow> None
      | l # ls \<Rightarrow> Some (fold min ls l))"

definition get_job :: "job_store \<Rightarrow> string \<Rightarrow> jobs \<Rightarrow> task_job option" where
  "get_job s i rows = map_option row_to_job (job_by_id s i rows)"

definition get_by_key :: "job_store \<Rightarrow> string \<Rightarrow> jobs \<Rightarrow> task_job option" where
  "get_by_key s k rows = map_option row_to_job (job_by_key s k rows)"

definition latest_of_kind :: "job_store \<Rightarrow> job_kind \<Rightarrow> jobs \<Rightarrow> task_job option" where
  "latest_of_kind s k rows =
     map_option row_to_job (first_row (newest_jobs (\<lambda>r. of_tenant s r \<and> j_kind r = k) rows))"

definition active_filing_refs :: "job_store \<Rightarrow> jobs \<Rightarrow> string list" where
  "active_filing_refs s rows =
     List.map_filter
       (\<lambda>r. if of_tenant s r \<and> j_status r \<in> {Job_Queued, Job_Running} \<and> j_kind r = Kind_Enrich
            then (case json_field_of ''evidenceRef'' (j_input r) of Some (JStr ref) \<Rightarrow> Some ref | _ \<Rightarrow> None)
            else None) rows"

definition recent_jobs :: "job_store \<Rightarrow> int \<Rightarrow> jobs \<Rightarrow> task_job list" where
  "recent_jobs s n rows = map row_to_job (limited n (newest_jobs (of_tenant s) rows))"

definition recent_captures :: "job_store \<Rightarrow> int \<Rightarrow> jobs \<Rightarrow> task_job list" where
  "recent_captures s n rows =
     map row_to_job (limited n (newest_jobs (\<lambda>r. of_tenant s r \<and> j_kind r \<in> {Kind_Store, Kind_Media} \<and>
       json_field_of ''source'' (j_input r) \<noteq> Some (JStr ''selftest'')) rows))"

section \<open>Results\<close>

definition patched :: "job_patch \<Rightarrow> bool \<Rightarrow> int \<Rightarrow> job_row \<Rightarrow> job_row" where
  "patched p claimed now r =
     (let q = r\<lparr>j_status := (case jp_status p of None \<Rightarrow> j_status r | Some st \<Rightarrow> st),
                j_result := (case jp_result p of None \<Rightarrow> j_result r | Some v \<Rightarrow> v),
                j_error := (case jp_error p of None \<Rightarrow> j_error r | Some e \<Rightarrow> e), j_updated := now\<rparr>
      in if claimed \<and> jp_status p \<noteq> None \<and> jp_status p \<noteq> Some Job_Running then unclaimed now q else q)"

definition empty_patch :: "job_patch \<Rightarrow> bool" where
  "empty_patch p \<longleftrightarrow> jp_status p = None \<and> jp_result p = None \<and> jp_error p = None"

text \<open>\<open>claim\<close> is absent for an unconditional update.\<close>

definition apply_patch :: "job_store \<Rightarrow> string \<Rightarrow> job_claim option \<Rightarrow> job_patch \<Rightarrow> int \<Rightarrow> jobs \<Rightarrow> bool \<times> jobs" where
  "apply_patch s i claim p now rows =
     (if empty_patch p then (False, rows)
      else case claim of
        None \<Rightarrow> update_one (\<lambda>r. of_tenant s r \<and> j_id r = i) (patched p False now) rows
      | Some c \<Rightarrow> update_one (claim_holds s c now) (patched p True now) rows)"

definition update_job :: "job_store \<Rightarrow> string \<Rightarrow> job_patch \<Rightarrow> int \<Rightarrow> jobs \<Rightarrow> bool \<times> jobs" where
  "update_job s i p now rows = apply_patch s i None p now rows"

definition update_claimed :: "job_store \<Rightarrow> job_claim \<Rightarrow> job_patch \<Rightarrow> int \<Rightarrow> jobs \<Rightarrow> bool \<times> jobs" where
  "update_claimed s c p now rows = apply_patch s (cl_id c) (Some c) p now rows"

section \<open>Steps of one instance\<close>

datatype job_op =
  Op_Open string string
| Op_Recover
| Op_Enqueue string job_kind json "string option"
| Op_Claim string "job_kind list option"
| Op_Renew job_claim
| Op_Resume_Pending job_claim json
| Op_Resume_Publication job_claim string
| Op_Requeue string
| Op_Requeue_Blocked
| Op_Update string job_patch
| Op_Update_Claimed job_claim job_patch

text \<open>\<open>job_step s now op rows\<close>: what an operation of the instance \<open>s\<close> at the time \<open>now\<close> leaves.\<close>

fun job_step :: "job_store \<Rightarrow> int \<Rightarrow> job_op \<Rightarrow> jobs \<Rightarrow> jobs" where
  "job_step s now (Op_Open tenant owner) rows = (case open_jobs tenant owner now rows of Inl _ \<Rightarrow> rows | Inr (_, q) \<Rightarrow> q)"
| "job_step s now Op_Recover rows = recover_expired_running s now rows"
| "job_step s now (Op_Enqueue i kind input key) rows = snd (enqueue_job s i kind input key now rows)"
| "job_step s now (Op_Claim token kinds) rows = snd (claim_next_queued s token now kinds rows)"
| "job_step s now (Op_Renew c) rows = snd (renew_claim s c now rows)"
| "job_step s now (Op_Resume_Pending c result) rows = snd (resume_pending s c result now rows)"
| "job_step s now (Op_Resume_Publication c err) rows = snd (resume_publication_failure s c err now rows)"
| "job_step s now (Op_Requeue i) rows = snd (requeue_for_recovery s i now rows)"
| "job_step s now Op_Requeue_Blocked rows = snd (requeue_filing_recovery_blocked s now rows)"
| "job_step s now (Op_Update i p) rows = snd (update_job s i p now rows)"
| "job_step s now (Op_Update_Claimed c p) rows = snd (update_claimed s c p now rows)"

end
