(* ===== verification/Task_Jobs_Props.thy ===== *)
theory Task_Jobs_Props
  imports Task_Jobs
begin

text \<open>
  What the job queue keeps when several instances work on it: live claims are fenced, tenants are apart,
  retries are bounded, a keyed job is enqueued once, and no capture is lost.
\<close>

section \<open>Runs of several instances\<close>

type_synonym job_move = "job_store \<times> int \<times> job_op"

definition run_jobs :: "job_move list \<Rightarrow> jobs \<Rightarrow> jobs" where
  "run_jobs ms rows = fold (\<lambda>(s, now, op). job_step s now op) ms rows"

definition job_act :: "jobs \<Rightarrow> jobs \<Rightarrow> bool" where
  "job_act rows rows' \<longleftrightarrow> (\<exists>s now op. rows' = job_step s now op rows)"

interpretation job_ops: operations "\<lambda>(s, now, op). job_step s now op" job_act
proof
  fix m rows
  show "job_act\<^sup>*\<^sup>* rows ((\<lambda>(s, now, op). job_step s now op) m rows)"
    by (cases m) (force simp: job_act_def intro: r_into_rtranclp)
qed

lemma run_jobs_acts: "job_act\<^sup>*\<^sup>* rows (run_jobs ms rows)"
  unfolding run_jobs_def by (rule job_ops.fold_follows)

text \<open>A step rewritten rows in place and appends new ones.\<close>

inductive rewritten :: "(job_row \<Rightarrow> job_row \<Rightarrow> bool) \<Rightarrow> (job_row \<Rightarrow> bool) \<Rightarrow> jobs \<Rightarrow> jobs \<Rightarrow> bool"
  for edge :: "job_row \<Rightarrow> job_row \<Rightarrow> bool" and fresh :: "job_row \<Rightarrow> bool" where
  none: "rewritten edge fresh rows rows"
| update: "(\<And>r. r \<in> set rows \<Longrightarrow> p r \<Longrightarrow> edge r (f r)) \<Longrightarrow> rewritten edge fresh rows (update_where p f rows)"
| insert: "fresh r \<Longrightarrow> j_id r \<notin> j_id ` set rows \<Longrightarrow> rewritten edge fresh rows (rows @ [r])"
| twice: "rewritten edge fresh rows rows1 \<Longrightarrow> rewritten edge fresh rows1 rows2 \<Longrightarrow> rewritten edge fresh rows rows2"

text \<open>What every edge keeps, every rewriting keeps; rows without an edge stay.\<close>

lemma rewritten_all:
  assumes "rewritten edge fresh rows rows'" and "\<forall>r \<in> set rows. P r"
    and "\<And>r r'. edge r r' \<Longrightarrow> P r \<Longrightarrow> P r'" and "\<And>r. fresh r \<Longrightarrow> P r"
  shows "\<forall>r \<in> set rows'. P r"
  using assms(1,2) by (induction rule: rewritten.induct) (use assms(3,4) in \<open>force simp: in_update_where\<close>)+

lemma rewritten_stays:
  assumes "rewritten edge fresh rows rows'" and "r \<in> set rows" and "\<And>r'. \<not> edge r r'"
  shows "r \<in> set rows'"
  using assms(1,2) by (induction rule: rewritten.induct) (use assms(3) in \<open>force simp: in_update_where\<close>)+

lemma rewritten_filter:
  assumes "rewritten edge fresh rows rows'"
    and "\<And>r r'. edge r r' \<Longrightarrow> \<not> P r \<and> \<not> P r'" and "\<And>r. fresh r \<Longrightarrow> \<not> P r"
  shows "filter P rows' = filter P rows"
  using assms(1)
proof (induction rule: rewritten.induct)
  case (update rows p f)
  then show ?case by (induction rows) (use assms(2) in \<open>auto simp: update_where_def\<close>)
qed (use assms(3) in auto)

lemma update_one_snd [simp]: "snd (update_one p f rows) = update_where p f rows"
  by (simp add: update_one_def)

lemmas job_steps =
  claim_next_queued_def renew_claim_def resume_pending_def resume_publication_failure_def requeue_filing_def
  requeue_for_recovery_def requeue_filing_recovery_blocked_def update_job_def update_claimed_def apply_patch_def

lemma enqueue_rewritten:
  assumes "enqueue_job s i kind input key now rows = (res, rows')"
    and "\<And>k. fresh (new_job s i kind input k now)"
  shows "rewritten edge fresh rows rows'"
  using assms
  by (auto simp: enqueue_job_def Let_def list_ex_iff new_job_def intro!: rewritten.none rewritten.insert split: option.splits if_splits)

text \<open>What a step may do to a row: the rules of the statements, by their conditions.\<close>

inductive job_edge :: "job_store \<Rightarrow> int \<Rightarrow> job_op \<Rightarrow> job_row \<Rightarrow> job_row \<Rightarrow> bool"
  for s :: job_store and now :: int and op :: job_op where
  adopted: "op = Op_Open tenant owner \<Longrightarrow> js_trim tenant \<noteq> [] \<Longrightarrow> j_tenant r = None \<or> j_tenant r = Some [] \<Longrightarrow>
    job_edge s now op r (r\<lparr>j_tenant := Some (js_trim tenant)\<rparr>)"
| resumed: "op = Op_Recover \<and> of_tenant s r \<or> (\<exists>owner tenant. op = Op_Open tenant owner \<and> j_tenant r = Some (js_trim tenant)) \<Longrightarrow>
    j_status r = Job_Running \<Longrightarrow> lease_lapsed now r \<Longrightarrow> capture_kind (j_kind r) \<Longrightarrow> j_attempts r < max_capture_attempts \<Longrightarrow>
    job_edge s now op r (requeued_capture now r)"
| stopped: "op = Op_Recover \<and> of_tenant s r \<or> (\<exists>owner tenant. op = Op_Open tenant owner \<and> j_tenant r = Some (js_trim tenant)) \<Longrightarrow>
    j_status r = Job_Running \<Longrightarrow> lease_lapsed now r \<Longrightarrow>
    job_edge s now op r (interrupted_job now r)"
| claimed: "op = Op_Claim token kinds \<Longrightarrow> queued_for s r \<Longrightarrow> job_edge s now op r (claimed_job s token now r)"
| renewed: "op = Op_Renew c \<Longrightarrow> claim_holds s c now r \<Longrightarrow>
    job_edge s now op r (r\<lparr>j_lease := Some (now + job_lease_ms), j_updated := now\<rparr>)"
| refiled: "op = Op_Resume_Pending c v \<or> op = Op_Resume_Publication c e \<Longrightarrow> claim_holds s c now r \<Longrightarrow>
    j_kind r = Kind_Enrich \<Longrightarrow> j_attempts r < max_filing_attempts \<Longrightarrow>
    job_edge s now op r ((unclaimed now r)\<lparr>j_status := Job_Queued, j_result := res, j_error := err,
      j_attempts := j_attempts r + 1\<rparr>)"
| reset: "op = Op_Requeue i \<and> j_status r \<notin> {Job_Queued, Job_Running} \<or> op = Op_Requeue_Blocked \<and> j_status r = Job_Error \<Longrightarrow>
    of_tenant s r \<Longrightarrow> job_edge s now op r (fresh_budget now r)"
| updated: "op = Op_Update (j_id r) p \<Longrightarrow> of_tenant s r \<Longrightarrow> job_edge s now op r (patched p False now r)"
| finished: "op = Op_Update_Claimed c p \<Longrightarrow> claim_holds s c now r \<Longrightarrow> job_edge s now op r (patched p True now r)"

lemma claim_holds_tenant: "claim_holds s c now r \<Longrightarrow> of_tenant s r"
  by (simp add: claim_holds_def)

definition fresh_job :: "job_store \<Rightarrow> job_row \<Rightarrow> bool" where
  "fresh_job s r \<longleftrightarrow> of_tenant s r \<and> j_status r = Job_Queued \<and> j_attempts r = 0"

lemma recover_rewritten:
  assumes "op = Op_Recover \<and> s' = s \<or> (\<exists>owner tenant. op = Op_Open tenant owner \<and> js_tenant s' = js_trim tenant)"
  shows "rewritten (job_edge s now op) fresh rows (recover_expired_running s' now rows)"
  unfolding recover_expired_running_def
  by (rule rewritten.twice; rule rewritten.update) (use assms in \<open>auto simp: of_tenant_def intro!: job_edge.resumed job_edge.stopped\<close>)

lemma adopt_rewritten:
  "op = Op_Open tenant owner \<Longrightarrow> js_trim tenant \<noteq> [] \<Longrightarrow>
    rewritten (job_edge s now op) fresh rows (adopt_rows (js_trim tenant) rows)"
  unfolding adopt_rows_def by (intro rewritten.update job_edge.adopted)

lemma job_step_rewritten: "rewritten (job_edge s now op) (fresh_job s) rows (job_step s now op rows)"
proof (cases op)
  case (Op_Open tenant owner)
  let ?s = "\<lparr>js_tenant = js_trim tenant, js_owner = owner\<rparr>"
  from rewritten.twice [OF adopt_rewritten recover_rewritten [of op ?s s]] Op_Open show ?thesis
    by (auto simp: open_jobs_def Let_def intro: rewritten.none)
next
  case Op_Recover
  then show ?thesis using recover_rewritten [of op s s] by simp
next
  case (Op_Enqueue i kind input key)
  obtain res rows' where "enqueue_job s i kind input key now rows = (res, rows')" by fastforce
  from enqueue_rewritten [OF this, of "fresh_job s"] this Op_Enqueue show ?thesis
    by (simp add: fresh_job_def new_job_def of_tenant_def)
next
  case (Op_Claim token kinds)
  then show ?thesis
    by (auto simp: claim_next_queued_def intro!: rewritten.none rewritten.update job_edge.claimed split: option.splits)
next
  case (Op_Update i p)
  then show ?thesis
    by (auto simp: update_job_def apply_patch_def intro!: rewritten.none rewritten.update job_edge.updated)
qed (auto simp: job_steps recovery_blocked_def
      intro!: rewritten.none rewritten.update job_edge.renewed job_edge.refiled job_edge.reset job_edge.finished)

section \<open>Bounded retries\<close>

definition attempts_ok :: "job_row \<Rightarrow> bool" where
  "attempts_ok r \<longleftrightarrow> 0 \<le> j_attempts r \<and> j_attempts r \<le> (if capture_kind (j_kind r) then max_capture_attempts else 0)"

lemma attempts_edge: "job_edge s now op r r' \<Longrightarrow> attempts_ok r \<Longrightarrow> attempts_ok r'"
  by (induction rule: job_edge.induct)
    (auto simp: attempts_ok_def requeued_capture_def interrupted_job_def unclaimed_def claimed_job_def
      fresh_budget_def patched_def capture_kind_def max_filing_attempts_def max_capture_attempts_def Let_def)

interpretation job_attempts: protocol_invariant job_act "list_all attempts_ok"
proof
  fix rows rows'
  assume "job_act rows rows'" and "list_all attempts_ok rows"
  then obtain s now op where "rows' = job_step s now op rows" and "\<forall>r \<in> set rows. attempts_ok r"
    by (auto simp: job_act_def list_all_iff)
  with rewritten_all [OF job_step_rewritten, of rows attempts_ok s now op] attempts_edge
  show "list_all attempts_ok rows'"
    by (fastforce simp: list_all_iff fresh_job_def attempts_ok_def max_capture_attempts_def)
qed

text \<open>
  Retries are bounded: under any steps of any instances the attempts of a capture job stay between 0 and 3,
  and a job of another kind is never retried.
\<close>

theorem job_retries_bounded:
  assumes "list_all attempts_ok rows"
  shows "list_all attempts_ok (run_jobs ms rows)"
  by (rule job_attempts.run_keeps [OF run_jobs_acts assms])

text \<open>
  Recovery leaves no claim behind whose lease ran out: a capture job with retries left is queued again,
  every other such job is interrupted with its note, and no other row is touched.
\<close>

theorem recovery_of_lapsed_claims:
  "recover_expired_running s now rows =
     map (\<lambda>r. if of_tenant s r \<and> j_status r = Job_Running \<and> lease_lapsed now r
              then (if capture_kind (j_kind r) \<and> j_attempts r < 3 then requeued_capture now r
                    else interrupted_job now r)
              else r) rows"
  by (auto simp: recover_expired_running_def update_where_def requeued_capture_def unclaimed_def max_capture_attempts_def)

section \<open>Claims\<close>

text \<open>
  Moves before the time \<open>l\<close> that do not speak for the claim \<open>c\<close> of \<open>s\<close>. The unfenced \<open>update\<close> of the claimed row by an
  instance of the tenant is left out: it writes to the row whoever holds the claim. The workers never call it.
\<close>

fun claim_of_op :: "job_op \<Rightarrow> job_claim option" where
  "claim_of_op (Op_Renew c) = Some c"
| "claim_of_op (Op_Resume_Pending c _) = Some c"
| "claim_of_op (Op_Resume_Publication c _) = Some c"
| "claim_of_op (Op_Update_Claimed c _) = Some c"
| "claim_of_op _ = None"

fun blind_update :: "job_op \<Rightarrow> string option" where
  "blind_update (Op_Update i _) = Some i"
| "blind_update _ = None"

fun outside_claim :: "job_store \<Rightarrow> job_claim \<Rightarrow> int \<Rightarrow> job_move \<Rightarrow> bool" where
  "outside_claim s c l (s', now, op) \<longleftrightarrow> now < l \<and> (s' \<noteq> s \<or> claim_of_op op \<noteq> Some c) \<and>
     (js_tenant s' \<noteq> js_tenant s \<or> blind_update op \<noteq> Some (cl_id c))"

lemma claim_is_unique: "claim_holds s c t r \<Longrightarrow> claim_holds s' c' t' r \<Longrightarrow> s' = s \<and> c' = c"
  by (auto simp: claim_holds_def of_tenant_def sql_eq_def)

lemma edge_needs_claim: "job_edge s now op r r' \<Longrightarrow> claim_of_op op = Some c \<Longrightarrow> claim_holds s c now r"
  by (cases rule: job_edge.cases) auto

lemma edge_without_claim:
  assumes "job_edge s' now op r r'" and "claim_of_op op = None" and "js_tenant s \<noteq> []"
    and "of_tenant s r" and "j_status r = Job_Running" and "j_lease r = Some l" and "now < l"
  shows "js_tenant s' = js_tenant s \<and> blind_update op = Some (j_id r)"
  using assms by (cases rule: job_edge.cases) (auto simp: of_tenant_def lease_lapsed_def queued_for_def)

lemma no_edge_outside_claim:
  assumes "claim_holds s c t r" and "j_lease r = Some l" and "js_tenant s \<noteq> []"
    and "outside_claim s c l (s', now, op)"
  shows "\<not> job_edge s' now op r r'"
proof
  assume edge: "job_edge s' now op r r'"
  show False
  proof (cases "claim_of_op op")
    case None
    from edge_without_claim [OF edge None assms(3)] assms show False by (auto simp: claim_holds_def)
  next
    case (Some d)
    from claim_is_unique [OF assms(1) edge_needs_claim [OF edge Some]] assms(4) Some show False by simp
  qed
qed

lemma run_jobs_Cons: "run_jobs ((s, now, op) # ms) rows = run_jobs ms (job_step s now op rows)"
  by (simp add: run_jobs_def)

lemma run_jobs_Nil [simp]: "run_jobs [] rows = rows"
  by (simp add: run_jobs_def)

text \<open>
  C16. A live claim is fenced: until its lease runs out, no step of another instance and no step with another
  claim changes the claimed row in anything, recovery, a second claim, renewals, refilings, requeues and finishes
  included, and the holder's fence passes. Excepted is the unfenced \<open>update\<close> of the row itself by an instance of the tenant,
  which changes any row.
\<close>

theorem live_claim_is_fenced:
  assumes "r \<in> set rows" and "claim_holds s c now r" and "j_lease r = Some l" and "js_tenant s \<noteq> []"
    and "list_all (outside_claim s c l) ms" and "now' < l"
  shows "r \<in> set (run_jobs ms rows) \<and> assert_claim s c now' (run_jobs ms rows) = Inr ()"
proof -
  from assms(1,5) have r: "r \<in> set (run_jobs ms rows)"
  proof (induction ms arbitrary: rows)
    case (Cons m ms)
    obtain s' t op where m: "m = (s', t, op)" by (cases m)
    with Cons.prems have "outside_claim s c l (s', t, op)" by simp
    from rewritten_stays [OF job_step_rewritten Cons.prems(1) no_edge_outside_claim [OF assms(2-4) this]]
    show ?case using Cons by (simp add: m run_jobs_Cons)
  qed simp
  from assms(2,3,6) have "claim_holds s c now' r"
    by (simp add: claim_holds_def lease_after_def)
  with r show ?thesis by (auto simp: assert_claim_def find_None_iff)
qed

text \<open>
  Moves after the time \<open>t\<close>, of instances with a tenant, that do not hand out the token of \<open>c\<close> again; an unfenced \<open>update\<close>
  must not make a row running, which would bring back the claim that the row still carries.
\<close>

fun no_new_token :: "job_claim \<Rightarrow> int \<Rightarrow> job_move \<Rightarrow> bool" where
  "no_new_token c t (s', now, op) \<longleftrightarrow> t \<le> now \<and> js_tenant s' \<noteq> [] \<and>
     (case op of
        Op_Claim token _ \<Rightarrow> cl_token c \<noteq> Some token
      | Op_Update _ p \<Rightarrow> jp_status p \<noteq> Some Job_Running
      | _ \<Rightarrow> True)"

definition legacy_unclaimed :: "job_row \<Rightarrow> bool" where
  "legacy_unclaimed r \<longleftrightarrow> j_tenant r \<notin> {None, Some []} \<or> j_token r = None"

definition lost_for :: "job_store \<Rightarrow> job_claim \<Rightarrow> int \<Rightarrow> job_row \<Rightarrow> bool" where
  "lost_for s c t r \<longleftrightarrow> legacy_unclaimed r \<and> \<not> claim_holds s c t r"

lemma claim_holds_earlier: "claim_holds s c now r \<Longrightarrow> t \<le> now \<Longrightarrow> claim_holds s c t r"
  by (auto simp: claim_holds_def lease_after_def split: option.splits)

lemma renewed_same_claim:
  assumes "claim_holds s' d now r" and "claim_holds s c t (r\<lparr>j_lease := x, j_updated := y\<rparr>)" and "t \<le> now"
  shows "claim_holds s c t r"
proof -
  from assms(1,2) have "s' = s \<and> d = c"
    by (auto simp: claim_holds_def of_tenant_def sql_eq_def)
  with assms(1,3) show ?thesis by (auto intro: claim_holds_earlier)
qed

lemma patched_claim: "claim_holds s c t (patched p b now r) \<Longrightarrow> jp_status p \<noteq> Some Job_Running \<or> j_status r = Job_Running \<Longrightarrow>
  claim_holds s c t r"
  by (auto simp: claim_holds_def patched_def unclaimed_def of_tenant_def lease_after_def sql_eq_def Let_def
      split: if_splits option.splits)

lemma lost_edge:
  assumes "job_edge s' now op r r'" and "no_new_token c t (s', now, op)" and "lost_for s c t r"
  shows "lost_for s c t r'"
proof -
  from assms have "legacy_unclaimed r'"
    by (cases rule: job_edge.cases)
      (auto simp: lost_for_def legacy_unclaimed_def requeued_capture_def interrupted_job_def unclaimed_def claimed_job_def
        fresh_budget_def patched_def of_tenant_def queued_for_def Let_def)
  moreover from assms have "\<not> claim_holds s c t r'"
  proof (cases rule: job_edge.cases)
    case (renewed d)
    with assms renewed_same_claim [of s' d now r s c t] show ?thesis by (auto simp: lost_for_def)
  next
    case (updated p)
    with assms patched_claim [of s c t p False now r] show ?thesis by (auto simp: lost_for_def)
  next
    case (finished d p)
    then have "j_status r = Job_Running" by (simp add: claim_holds_def)
    with finished assms patched_claim [of s c t p True now r] show ?thesis by (auto simp: lost_for_def)
  qed (auto simp: lost_for_def legacy_unclaimed_def claim_holds_def sql_eq_def requeued_capture_def interrupted_job_def
      unclaimed_def claimed_job_def fresh_budget_def)
  ultimately show ?thesis by (simp add: lost_for_def)
qed

lemma lost_run:
  "list_all (no_new_token c t) ms \<Longrightarrow> \<forall>r \<in> set rows. lost_for s c t r \<Longrightarrow> \<forall>r \<in> set (run_jobs ms rows). lost_for s c t r"
proof (induction ms arbitrary: rows)
  case (Cons m ms)
  obtain s' now op where m: "m = (s', now, op)" by (cases m)
  with Cons.prems have move: "no_new_token c t (s', now, op)" by simp
  have "\<forall>r \<in> set (job_step s' now op rows). lost_for s c t r"
  proof (rule rewritten_all [OF job_step_rewritten Cons.prems(2)])
    show "lost_for s c t r'" if "job_edge s' now op r r'" "lost_for s c t r" for r r'
      by (rule lost_edge [OF that(1) move that(2)])
    show "lost_for s c t r" if "fresh_job s' r" for r
      using that move by (auto simp: fresh_job_def lost_for_def legacy_unclaimed_def of_tenant_def claim_holds_def)
  qed
  with Cons show ?case by (simp add: m run_jobs_Cons)
qed simp

lemma update_none: "(\<And>r. r \<in> set rows \<Longrightarrow> \<not> p r) \<Longrightarrow> update_one p f rows = (False, rows)"
  by (auto simp: update_one_def update_where_def count_where_def filter_False intro: map_idI)

text \<open>
  C17. A lost claim never writes again: once the fence refuses a claim, the fence keeps refusing it, and renewing, finishing
  and refiling with it answer false and change nothing. This holds whatever instances with a tenant do later, as long as the
  clocks do not run back, the token of the claim is not drawn again and no unfenced \<open>update\<close> makes a row running; rows without
  a tenant carry no token.
\<close>

theorem lost_claim_never_writes:
  assumes "assert_claim s c t rows = Inl e" and "list_all legacy_unclaimed rows"
    and "list_all (no_new_token c t) ms" and "t \<le> now" and "rows' = run_jobs ms rows"
  shows "assert_claim s c now rows' = Inl (Job_Failure ''task_job_claim_lost'') \<and>
    renew_claim s c now rows' = (False, rows') \<and> update_claimed s c p now rows' = (False, rows') \<and>
    resume_pending s c v now rows' = (False, rows') \<and> resume_publication_failure s c err now rows' = (False, rows')"
proof -
  from assms(1,2) have "\<forall>r \<in> set rows. lost_for s c t r"
    by (auto simp: assert_claim_def find_None_iff list_all_iff lost_for_def split: if_splits)
  from lost_run [OF assms(3) this] assms(4,5) have "\<not> claim_holds s c now r" if "r \<in> set rows'" for r
    using that by (auto simp: lost_for_def dest: claim_holds_earlier)
  then show ?thesis
    by (simp add: assert_claim_def find_None_iff renew_claim_def update_claimed_def apply_patch_def resume_pending_def
        resume_publication_failure_def requeue_filing_def update_none)
qed

text \<open>Ids are distinct.\<close>

lemma rewritten_ids:
  assumes "rewritten edge fresh rows rows'" and "distinct (map j_id rows)"
    and "\<And>r r'. edge r r' \<Longrightarrow> j_id r' = j_id r"
  shows "distinct (map j_id rows')"
  using assms(1,2) by (induction rule: rewritten.induct) (use assms(3) in \<open>simp_all add: map_update_where\<close>)

lemma edge_id: "job_edge s now op r r' \<Longrightarrow> j_id r' = j_id r"
  by (cases rule: job_edge.cases)
    (auto simp: requeued_capture_def interrupted_job_def unclaimed_def claimed_job_def fresh_budget_def patched_def Let_def)

interpretation job_ids: protocol_invariant job_act "\<lambda>rows. distinct (map j_id rows)"
  by unfold_locales (auto simp: job_act_def intro: rewritten_ids [OF job_step_rewritten _ edge_id])

lemma run_ids_distinct: "distinct (map j_id (run_jobs ms []))"
  by (rule job_ids.run_keeps [OF run_jobs_acts]) simp

definition allowed_kind :: "job_kind list option \<Rightarrow> job_row \<Rightarrow> bool" where
  "allowed_kind kinds r \<longleftrightarrow> (case kinds of None \<Rightarrow> True | Some ks \<Rightarrow> j_kind r \<in> set ks)"

text \<open>
  A claim takes the oldest queued job of the tenant among the requested kinds: it becomes running with the
  new token, no other row changes, and the claim passes the fence until the lease runs out.
\<close>

theorem claim_takes_oldest:
  assumes "rows = run_jobs ms []" and "claim_next_queued s token now kinds rows = (Some j, rows')"
    and "now' < now + job_lease_ms"
  shows "\<exists>r \<in> set rows. queued_for s r \<and> allowed_kind kinds r \<and> j = row_to_job (claimed_job s token now r) \<and>
      list_all (\<lambda>q. queued_for s q \<and> allowed_kind kinds q \<longrightarrow> j_created r \<le> j_created q) rows \<and>
      rows' = map (\<lambda>q. if q = r then claimed_job s token now r else q) rows \<and>
      assert_claim s \<lparr>cl_id = tj_id j, cl_token = tj_token j\<rparr> now' rows' = Inr ()"
proof -
  let ?found = "first_row (order_by j_created (filter (\<lambda>r. queued_for s r \<and> allowed_kind kinds r) rows))"
  from assms(2) obtain r where found: "?found = Some r" and j: "j = row_to_job (claimed_job s token now r)"
    and rows': "rows' = update_where (\<lambda>q. queued_for s q \<and> j_id q = j_id r) (claimed_job s token now) rows"
    by (auto simp: claim_next_queued_def allowed_kind_def split: if_splits option.splits)
  from first_row_Some [OF found] have r: "r \<in> set rows" "queued_for s r" "allowed_kind kinds r" by auto
  from first_row_order_by [OF found] have oldest:
    "list_all (\<lambda>q. queued_for s q \<and> allowed_kind kinds q \<longrightarrow> j_created r \<le> j_created q) rows"
    by (simp add: list_all_iff)
  from run_ids_distinct assms(1) have "j_id q = j_id r \<longleftrightarrow> q = r" if "q \<in> set rows" for q
    using that r(1) by (auto simp: distinct_map dest: inj_onD)
  with r(2) have one: "rows' = map (\<lambda>q. if q = r then claimed_job s token now r else q) rows"
    by (auto simp: rows' update_where_def)
  with r(1) have "claimed_job s token now r \<in> set rows'" by (force simp: image_iff)
  moreover from r(2) assms(3) have
    "claim_holds s \<lparr>cl_id = tj_id j, cl_token = tj_token j\<rparr> now' (claimed_job s token now r)"
    by (simp add: claim_holds_def queued_for_def of_tenant_def claimed_job_def j row_to_job_def sql_eq_def lease_after_def)
  ultimately have "assert_claim s \<lparr>cl_id = tj_id j, cl_token = tj_token j\<rparr> now' rows' = Inr ()"
    by (auto simp: assert_claim_def find_None_iff)
  with r j oldest one show ?thesis by blast
qed

section \<open>Tenants\<close>

fun acting_tenant :: "job_move \<Rightarrow> string" where
  "acting_tenant (_, _, Op_Open tenant _) = js_trim tenant"
| "acting_tenant (s, _, _) = js_tenant s"

lemma edge_of_other_tenant:
  assumes "job_edge s now op r r'" and "acting_tenant (s, now, op) \<noteq> t" and "t \<noteq> []"
  shows "j_tenant r \<noteq> Some t \<and> j_tenant r' \<noteq> Some t"
  using assms by (cases rule: job_edge.cases)
    (auto simp: of_tenant_def claim_holds_def queued_for_def requeued_capture_def interrupted_job_def unclaimed_def
      claimed_job_def fresh_budget_def patched_def Let_def)

lemma step_of_other_tenant:
  assumes "acting_tenant (s, now, op) \<noteq> t" and "t \<noteq> []"
  shows "filter (\<lambda>r. j_tenant r = Some t) (job_step s now op rows) = filter (\<lambda>r. j_tenant r = Some t) rows"
proof (cases "\<exists>tenant owner. op = Op_Open tenant owner")
  case True
  then have "rewritten (job_edge s now op) (\<lambda>_. False) rows (job_step s now op rows)"
    by (auto simp: open_jobs_def Let_def intro!: rewritten.none rewritten.twice [OF adopt_rewritten recover_rewritten])
  then show ?thesis
    by (rule rewritten_filter) (use edge_of_other_tenant [OF _ assms] in auto)
next
  case False
  then have "acting_tenant (s, now, op) = js_tenant s" by (cases op) auto
  with assms(1) have "js_tenant s \<noteq> t" by simp
  then show ?thesis
    by (intro rewritten_filter [OF job_step_rewritten])
      (use edge_of_other_tenant [OF _ assms] in \<open>auto simp: fresh_job_def of_tenant_def\<close>)
qed

text \<open>
  Tenants are apart: whatever the instances of other tenants do, openings, recoveries and sweeps included,
  the rows of a tenant stay as they are.
\<close>

theorem jobs_of_tenants_are_apart:
  assumes "list_all (\<lambda>m. acting_tenant m \<noteq> t) ms" and "t \<noteq> []"
  shows "filter (\<lambda>r. j_tenant r = Some t) (run_jobs ms rows) = filter (\<lambda>r. j_tenant r = Some t) rows"
  using assms(1)
proof (induction ms arbitrary: rows)
  case (Cons m ms)
  obtain s now op where "m = (s, now, op)" by (cases m)
  with Cons step_of_other_tenant [OF _ assms(2)] show ?case by (simp add: run_jobs_Cons)
qed simp

section \<open>Vault recovery\<close>

lemma starts_with_like: "starts_with p s \<Longrightarrow> like_prefix p s"
  by (induction p s rule: starts_with.induct) auto

lemma text_includes_like: "text_includes p s \<Longrightarrow> like_inside p s"
  by (induction p s rule: text_includes.induct) (auto dest: starts_with_like)

lemma awaiting_is_blocked: "of_tenant s r \<Longrightarrow> awaiting_vault_recovery (row_to_job r) \<Longrightarrow> recovery_blocked s r"
  by (auto simp: awaiting_vault_recovery_def recovery_blocked_def row_to_job_def text_includes_like split: option.splits)

text \<open>
  The sweep after a vault recovery loses no capture: every job of the tenant that waits for the recovery is
  queued again with a fresh retry budget and its input, and afterwards none waits any more.
\<close>

theorem vault_recovery_requeues:
  assumes "r \<in> set rows" and "of_tenant s r" and "awaiting_vault_recovery (row_to_job r)"
    and "requeue_filing_recovery_blocked s now rows = (n, rows')"
  shows "0 < n \<and> fresh_budget now r \<in> set rows' \<and> queued_for s (fresh_budget now r) \<and>
    j_input (fresh_budget now r) = j_input r \<and>
    list_all (\<lambda>q. \<not> (of_tenant s q \<and> awaiting_vault_recovery (row_to_job q))) rows'"
proof -
  from assms(4) have n: "n = length (filter (recovery_blocked s) rows)"
    and rows': "rows' = update_where (recovery_blocked s) (fresh_budget now) rows"
    by (auto simp: requeue_filing_recovery_blocked_def count_where_def)
  from awaiting_is_blocked [OF assms(2,3)] have "recovery_blocked s r" .
  with assms(1) n have "0 < n" and "fresh_budget now r \<in> set rows'"
    by (auto simp: rows' in_update_where filter_empty_conv)
  moreover have "\<not> (of_tenant s q \<and> awaiting_vault_recovery (row_to_job q))" if "q \<in> set rows'" for q
  proof -
    from that obtain x where q: "q = (if recovery_blocked s x then fresh_budget now x else x)"
      by (auto simp: rows' in_update_where)
    show ?thesis
      using awaiting_is_blocked [of s x]
      by (auto simp: q awaiting_vault_recovery_def fresh_budget_def row_to_job_def)
  qed
  ultimately show ?thesis
    using assms(2) by (simp add: list_all_iff queued_for_def of_tenant_def fresh_budget_def unclaimed_def)
qed

text \<open>
  The sweep takes more jobs than those that wait: \<open>LIKE\<close> disregards case and lets an underscore match any
  character.
\<close>

lemma recovery_sweep_is_wider: "\<exists>r. recovery_blocked s r \<and> \<not> awaiting_vault_recovery (row_to_job r)"
proof -
  let ?r = "(new_job s [] Kind_Store JNull None 0)\<lparr>j_status := Job_Error, j_error := Some ''Filing recovery pending''\<rparr>"
  have "like_inside recovery_mark ''Filing recovery pending''" and "\<not> text_includes recovery_mark ''Filing recovery pending''"
    by code_simp+
  then have "recovery_blocked s ?r \<and> \<not> awaiting_vault_recovery (row_to_job ?r)"
    by (simp add: recovery_blocked_def awaiting_vault_recovery_def new_job_def of_tenant_def row_to_job_def capture_kind_def)
  then show ?thesis by blast
qed

section \<open>Idempotent enqueueing\<close>

definition same_job :: "job_row \<Rightarrow> job_row \<Rightarrow> bool" where
  "same_job r r' \<longleftrightarrow> j_id r' = j_id r \<and> j_tenant r' = j_tenant r \<and> j_key r' = j_key r \<and> j_kind r' = j_kind r \<and>
     j_input r' = j_input r"

lemma edge_same_job: "job_edge s now op r r' \<Longrightarrow> j_tenant r' = j_tenant r \<Longrightarrow> same_job r r'"
  by (cases rule: job_edge.cases)
    (auto simp: same_job_def requeued_capture_def interrupted_job_def unclaimed_def claimed_job_def fresh_budget_def
      patched_def Let_def)

lemma edge_tenant: "job_edge s now op r r' \<Longrightarrow> \<not> (\<exists>a b. op = Op_Open a b) \<Longrightarrow> j_tenant r' = j_tenant r"
  by (cases rule: job_edge.cases)
    (auto simp: requeued_capture_def interrupted_job_def unclaimed_def claimed_job_def fresh_budget_def patched_def Let_def)

definition key_is :: "string \<Rightarrow> string \<Rightarrow> job_row \<Rightarrow> bool" where
  "key_is t k r \<longleftrightarrow> j_tenant r = Some t \<and> j_key r = Some k"

lemma job_by_key_alt: "job_by_key s k = find (key_is (js_tenant s) k)"
  by (auto simp: job_by_key_def key_is_def of_tenant_def fun_eq_iff intro: arg_cong2 [where f = find])

lemma rewritten_find:
  assumes "rewritten edge fresh rows rows'" and "find (key_is t k) rows = Some r"
    and "\<And>r r'. edge r r' \<Longrightarrow> same_job r r'"
  shows "\<exists>r'. find (key_is t k) rows' = Some r' \<and> same_job r r'"
  using assms(1,2)
proof (induction arbitrary: r rule: rewritten.induct)
  case (update rows p f)
  then show ?case
  proof (induction rows)
    case (Cons q rows)
    from Cons.prems(1) assms(3) have "p q \<Longrightarrow> same_job q (f q)" by simp
    with Cons show ?case by (auto simp: update_where_def key_is_def same_job_def split: if_splits)
  qed simp
next
  case (twice rows rows1 rows2)
  then obtain r1 where "find (key_is t k) rows1 = Some r1" and "same_job r r1" by blast
  with twice.IH(2) [of r1] show ?case by (auto simp: same_job_def)
qed (auto simp: find_append same_job_def)

lemma in_map_filter: "r \<in> set rows \<Longrightarrow> f r = Some x \<Longrightarrow> x \<in> set (List.map_filter f rows)"
  by (induction rows) (auto simp: List.map_filter_simps split: option.splits)

lemma keys_unique_same:
  "keys_unique rows \<Longrightarrow> q \<in> set rows \<Longrightarrow> r \<in> set rows \<Longrightarrow> tenant_key q = Some x \<Longrightarrow> tenant_key r = Some x \<Longrightarrow> q = r"
  unfolding keys_unique_def
  by (induction rows) (auto simp: List.map_filter_simps dest: in_map_filter split: option.splits)

lemma adopt_find:
  assumes "find (key_is t k) rows = Some r" and "t \<noteq> []" and "keys_unique (adopt_rows u rows)"
  shows "find (key_is t k) (adopt_rows u rows) = Some r"
proof -
  let ?a = "adopt_rows u rows"
  from find_Some_iff_in [OF assms(1)] have r: "r \<in> set rows" "key_is t k r" by auto
  with assms(2) have "r \<in> set ?a" by (force simp: adopt_rows_def in_update_where key_is_def)
  with r(2) obtain q where q: "find (key_is t k) ?a = Some q" by (cases "find (key_is t k) ?a") (auto simp: find_None_iff)
  from find_Some_iff_in [OF q] have "q \<in> set ?a" "key_is t k q" by auto
  with keys_unique_same [OF assms(3) _ \<open>r \<in> set ?a\<close>, of q "(t, k)"] r(2) q show ?thesis
    by (simp add: tenant_key_def key_is_def)
qed

lemma step_find:
  assumes "find (key_is t k) rows = Some r" and "t \<noteq> []"
  shows "\<exists>r'. find (key_is t k) (job_step s now op rows) = Some r' \<and> same_job r r'"
proof (cases "\<exists>tenant owner. op = Op_Open tenant owner")
  case True
  then obtain tenant owner where op: "op = Op_Open tenant owner" by blast
  let ?s = "\<lparr>js_tenant = js_trim tenant, js_owner = owner\<rparr>"
  let ?a = "adopt_rows (js_trim tenant) rows"
  have "\<exists>r'. find (key_is t k) (recover_expired_running ?s now ?a) = Some r' \<and> same_job r r'"
    if "keys_unique ?a"
    by (rule rewritten_find [OF recover_rewritten [of Op_Recover ?s ?s] adopt_find [OF assms that]])
      (auto intro!: edge_same_job edge_tenant)
  with assms(1) show ?thesis by (auto simp: op open_jobs_def Let_def same_job_def)
next
  case False
  then show ?thesis
    by (intro rewritten_find [OF job_step_rewritten assms(1)]) (use edge_same_job edge_tenant in blast)
qed

lemma run_find:
  "find (key_is t k) rows = Some r \<Longrightarrow> t \<noteq> [] \<Longrightarrow>
    \<exists>r'. find (key_is t k) (run_jobs ms rows) = Some r' \<and> same_job r r'"
proof (induction ms arbitrary: rows r)
  case (Cons m ms)
  obtain s now op where m: "m = (s, now, op)" by (cases m)
  from step_find [OF Cons.prems] obtain r1
    where "find (key_is t k) (job_step s now op rows) = Some r1" and "same_job r r1" by blast
  with Cons.IH [of "job_step s now op rows" r1] Cons.prems(2) show ?case
    by (auto simp: m run_jobs_Cons same_job_def)
qed (simp add: same_job_def)

lemma enqueue_keyed:
  assumes "js_trim key \<noteq> []" and "length (js_trim key) \<le> 512" and "keyed_kind kind"
    and "job_by_key s (js_trim key) rows = Some r"
  shows "enqueue_job s i kind input (Some key) now rows = (Inr (row_to_job r), rows)"
  using assms by (simp add: enqueue_job_def Let_def)

lemma enqueue_keyed_inv:
  assumes "enqueue_job s i kind input (Some key) now rows = (Inr j, rows')"
  shows "js_trim key \<noteq> [] \<and> length (js_trim key) \<le> 512 \<and> (\<exists>r. job_by_key s (js_trim key) rows' = Some r \<and> j = row_to_job r)"
  using assms by (auto simp: enqueue_job_def Let_def split: if_splits option.splits)

text \<open>
  A keyed job is enqueued once: whatever happens to the job in between, restarts and adoptions of old rows
  included, enqueueing again with the same key (up to surrounding blanks) answers with the first job, its id,
  kind and input, and adds no row.
\<close>

theorem job_enqueue_once:
  assumes "enqueue_job s i kind input (Some key) now rows = (Inr j, rows1)" and "js_tenant s \<noteq> []"
    and "js_tenant s' = js_tenant s" and "js_trim key' = js_trim key" and "keyed_kind kind'"
    and "rows2 = run_jobs ms rows1"
  shows "\<exists>j'. enqueue_job s' i' kind' input' (Some key') now' rows2 = (Inr j', rows2) \<and>
    tj_id j' = tj_id j \<and> tj_kind j' = tj_kind j \<and> tj_input j' = tj_input j \<and>
    get_by_key s' (js_trim key) rows2 = Some j'"
proof -
  from enqueue_keyed_inv [OF assms(1)] obtain r where
    key: "js_trim key \<noteq> []" "length (js_trim key) \<le> 512"
    and r: "job_by_key s (js_trim key) rows1 = Some r" and j: "j = row_to_job r" by blast
  from run_find [of "js_tenant s" "js_trim key" rows1 r ms] r assms(2,6) obtain r'
    where r': "find (key_is (js_tenant s) (js_trim key)) rows2 = Some r'" and same: "same_job r r'"
    by (auto simp: job_by_key_alt)
  with assms(3) have found: "job_by_key s' (js_trim key) rows2 = Some r'" by (simp add: job_by_key_alt)
  with enqueue_keyed [of key' kind' s' rows2 r' i' input' now'] key assms(4,5) same show ?thesis
    by (auto simp: j get_by_key_def row_to_job_def same_job_def)
qed

end
