(* ===== verification/Task_Jobs_Examples.thy ===== *)
theory Task_Jobs_Examples
  imports Task_Jobs_Props
begin

text \<open>The properties of the job queue at concrete inputs.\<close>

definition worker :: job_store where "worker = \<lparr>js_tenant = ''acme'', js_owner = ''o1''\<rparr>"
definition replacement :: job_store where "replacement = \<lparr>js_tenant = ''acme'', js_owner = ''o2''\<rparr>"
definition stranger :: job_store where "stranger = \<lparr>js_tenant = ''beta'', js_owner = ''o3''\<rparr>"

definition queued_rows :: jobs where
  "queued_rows = run_jobs
     [(worker, 0, Op_Enqueue ''j1'' Kind_Store (JStr ''memo'') (Some ''k1'')),
      (worker, 5, Op_Enqueue ''j2'' Kind_Task (JStr ''do'') None)] []"

definition claimed_rows :: jobs where
  "claimed_rows = job_step worker 10 (Op_Claim ''t1'' None) queued_rows"

definition the_claim :: job_claim where "the_claim = \<lparr>cl_id = ''j1'', cl_token = Some ''t1''\<rparr>"

definition done_patch :: job_patch where
  "done_patch = \<lparr>jp_status = Some Job_Done, jp_result = Some (Some (JStr ''ok'')), jp_error = None\<rparr>"

theorem job_retries_bounded_witness:
  "list_all attempts_ok (run_jobs [(replacement, 300000, Op_Open ''acme '' ''o2'')] claimed_rows)"
  by (rule job_retries_bounded) code_simp

theorem live_claim_is_fenced_witness:
  "hd claimed_rows \<in> set (run_jobs [(replacement, 20, Op_Open ''acme'' ''o2''), (replacement, 30, Op_Claim ''t2'' None),
      (replacement, 40, Op_Update_Claimed the_claim done_patch), (stranger, 50, Op_Requeue ''j1'')] claimed_rows) \<and>
   assert_claim worker the_claim 60 (run_jobs [(replacement, 20, Op_Open ''acme'' ''o2''), (replacement, 30, Op_Claim ''t2'' None),
      (replacement, 40, Op_Update_Claimed the_claim done_patch), (stranger, 50, Op_Requeue ''j1'')] claimed_rows) = Inr ()"
  by (rule live_claim_is_fenced [where now = 20 and l = 240010]) code_simp+

theorem lost_claim_never_writes_witness:
  "renew_claim worker the_claim 300002 (run_jobs [(replacement, 300001, Op_Claim ''t2'' None)] (job_step replacement 300000 Op_Recover claimed_rows)) =
     (False, run_jobs [(replacement, 300001, Op_Claim ''t2'' None)] (job_step replacement 300000 Op_Recover claimed_rows))"
proof -
  have "assert_claim worker the_claim 300000 (job_step replacement 300000 Op_Recover claimed_rows) =
      Inl (Job_Failure ''task_job_claim_lost'')" by code_simp
  moreover have "list_all legacy_unclaimed (job_step replacement 300000 Op_Recover claimed_rows)" by code_simp
  moreover have "list_all (no_new_token the_claim 300000) [(replacement, 300001, Op_Claim ''t2'' None)]" by code_simp
  ultimately show ?thesis
    using lost_claim_never_writes [OF _ _ _ _ refl, of worker the_claim 300000
        "job_step replacement 300000 Op_Recover claimed_rows" _ _ 300002] by simp
qed

theorem claim_takes_oldest_witness:
  "\<exists>r \<in> set queued_rows. queued_for worker r \<and> allowed_kind None r \<and>
     row_to_job (claimed_job worker ''t1'' 10 (hd queued_rows)) = row_to_job (claimed_job worker ''t1'' 10 r) \<and>
     list_all (\<lambda>q. queued_for worker q \<and> allowed_kind None q \<longrightarrow> j_created r \<le> j_created q) queued_rows \<and>
     claimed_rows = map (\<lambda>q. if q = r then claimed_job worker ''t1'' 10 r else q) queued_rows \<and>
     assert_claim worker
       \<lparr>cl_id = tj_id (row_to_job (claimed_job worker ''t1'' 10 (hd queued_rows))),
        cl_token = tj_token (row_to_job (claimed_job worker ''t1'' 10 (hd queued_rows)))\<rparr> 20 claimed_rows = Inr ()"
  by (rule claim_takes_oldest [OF queued_rows_def]) code_simp+

theorem jobs_of_tenants_are_apart_witness:
  "filter (\<lambda>r. j_tenant r = Some ''acme'')
     (run_jobs [(stranger, 300000, Op_Open ''beta'' ''o3''), (stranger, 300001, Op_Requeue_Blocked)] claimed_rows) =
   filter (\<lambda>r. j_tenant r = Some ''acme'') claimed_rows"
  by (rule jobs_of_tenants_are_apart) code_simp+

definition blocked_rows :: jobs where
  "blocked_rows = job_step worker 20
     (Op_Update_Claimed the_claim \<lparr>jp_status = Some Job_Error, jp_result = None, jp_error = Some (Some recovery_mark)\<rparr>) claimed_rows"

theorem vault_recovery_requeues_witness:
  "0 < (1::nat) \<and> fresh_budget 30 (hd blocked_rows) \<in> set (snd (requeue_filing_recovery_blocked worker 30 blocked_rows)) \<and>
     queued_for worker (fresh_budget 30 (hd blocked_rows)) \<and>
     j_input (fresh_budget 30 (hd blocked_rows)) = j_input (hd blocked_rows) \<and>
     list_all (\<lambda>q. \<not> (of_tenant worker q \<and> awaiting_vault_recovery (row_to_job q)))
       (snd (requeue_filing_recovery_blocked worker 30 blocked_rows))"
  by (rule vault_recovery_requeues [where rows = blocked_rows]) code_simp+

definition after_restart :: jobs where
  "after_restart = run_jobs [(worker, 10, Op_Claim ''t1'' None), (replacement, 300000, Op_Open ''acme'' ''o2'')] queued_rows"

theorem job_enqueue_once_witness:
  "\<exists>j'. enqueue_job replacement ''j9'' Kind_Chat (JStr ''again'') (Some '' k1 '') 300001 after_restart = (Inr j', after_restart) \<and>
     tj_id j' = ''j1'' \<and> tj_kind j' = Kind_Store \<and> tj_input j' = JStr ''memo'' \<and>
     get_by_key replacement ''k1'' after_restart = Some j'"
proof -
  have "enqueue_job worker ''j3'' Kind_Store (JStr ''memo'') (Some ''k1'') 6 queued_rows =
      (Inr (row_to_job (hd queued_rows)), queued_rows)" by code_simp
  from job_enqueue_once [OF this, of replacement "'' k1 ''" Kind_Chat after_restart _ "''j9''" "JStr ''again''" 300001]
  have "\<exists>j'. enqueue_job replacement ''j9'' Kind_Chat (JStr ''again'') (Some '' k1 '') 300001 after_restart = (Inr j', after_restart) \<and>
     tj_id j' = tj_id (row_to_job (hd queued_rows)) \<and> tj_kind j' = tj_kind (row_to_job (hd queued_rows)) \<and>
     tj_input j' = tj_input (row_to_job (hd queued_rows)) \<and>
     get_by_key replacement (js_trim ''k1'') after_restart = Some j'"
    by (simp add: after_restart_def worker_def replacement_def js_trim_def js_space_def keyed_kind_def)
  moreover have "row_to_job (hd queued_rows) = row_to_job (new_job worker ''j1'' Kind_Store (JStr ''memo'') (Some ''k1'') 0)"
    and "js_trim ''k1'' = ''k1''" by code_simp+
  ultimately show ?thesis by (simp add: row_to_job_def new_job_def)
qed

end
