(* ===== verification/Notify_Bus.thy ===== *)
theory Notify_Bus
  imports Prelude
begin

text \<open>
  The single authority for proactive messages: the durable journal
  (packages/server/src/notificationStore.ts) and the bus that composes, coalesces, orders and sends
  (packages/server/src/notificationBus.ts).

  \<^item> The journal is the list of its rows; the JSON text of the recipients is modelled by its value.
  \<^item> \<open>notify\<close> is asynchronous: it decides, gives the text to the sender, and journals when the sender
    answers. \<open>notify_begin\<close> is the part before the \<open>await\<close>, \<open>notify_end\<close> the part after it; several
    messages may be with the sender at the same time.
  \<^item> The fixed sentence for a resolved blocker has characters outside the Latin-1 range and is a field of
    the configuration.
\<close>

section \<open>Data\<close>

datatype note_status = Note_Sent | Note_Failed | Note_Suppressed

datatype note_severity = Sev_Info | Sev_Action | Sev_Error

record note_event =
  ne_type :: string
  ne_text :: "string option"
  ne_surface :: "string option"
  ne_target :: "string option"
  ne_exec :: "string option"
  ne_run :: "string option"
  ne_severity :: "note_severity option"
  ne_key :: "string option"

record note_row =
  n_id :: string
  n_type :: string
  n_surface :: string
  n_target :: "string option"
  n_exec :: "string option"
  n_run :: "string option"
  n_severity :: "note_severity option"
  n_key :: "string option"
  n_text :: string
  n_recipients :: "string list"
  n_status :: note_status
  n_suppressed_by :: "string option"
  n_created :: int

type_synonym note_rows = "note_row list"

record bus_config =
  bc_dedupe_window :: int
  bc_ordering_window :: int
  bc_resolved :: string

definition default_dedupe_window :: int where "default_dedupe_window = 10 * 60 * 1000"
definition default_ordering_window :: int where "default_ordering_window = 30 * 60 * 1000"

section \<open>The journal\<close>

text \<open>\<open>record_note\<close> throws, answering \<open>None\<close>, when the id is taken.\<close>

definition record_note :: "note_row \<Rightarrow> note_rows \<Rightarrow> note_rows option" where
  "record_note r rows = (if list_ex (\<lambda>q. n_id q = n_id r) rows then None else Some (rows @ [r]))"

definition latest_note :: "(note_row \<Rightarrow> bool) \<Rightarrow> note_rows \<Rightarrow> note_row option" where
  "latest_note p rows = first_row (order_desc n_created (filter p rows))"

definition latest_by_key :: "string \<Rightarrow> note_rows \<Rightarrow> note_row option" where
  "latest_by_key k rows = latest_note (\<lambda>r. n_key r = Some k) rows"

definition latest_sent_by_key :: "string \<Rightarrow> note_rows \<Rightarrow> note_row option" where
  "latest_sent_by_key k rows = latest_note (\<lambda>r. n_key r = Some k \<and> n_status r = Note_Sent) rows"

definition run_group :: "string option \<Rightarrow> string" where
  "run_group v = (case v of None \<Rightarrow> ''-'' | Some x \<Rightarrow> x)"

definition sent_in_group :: "string \<Rightarrow> string option \<Rightarrow> note_row \<Rightarrow> bool" where
  "sent_in_group t v r \<longleftrightarrow> n_status r = Note_Sent \<and> n_target r = Some t \<and> run_group (n_run r) = run_group v"

definition latest_sent_for_group :: "string \<Rightarrow> string option \<Rightarrow> note_rows \<Rightarrow> note_row option" where
  "latest_sent_for_group t v rows = latest_note (sent_in_group t v) rows"

definition recent_notes :: "int \<Rightarrow> note_rows \<Rightarrow> note_rows" where
  "recent_notes limit rows =
     (let sorted = order_desc n_created rows in if limit < 0 then sorted else take (nat limit) sorted)"

section \<open>Keys and ranks\<close>

text \<open>\<open>a || b\<close> on optional texts: an empty text counts as absent.\<close>

definition present :: "string option \<Rightarrow> bool" where
  "present v \<longleftrightarrow> v \<noteq> None \<and> v \<noteq> Some []"

definition or_text :: "string option \<Rightarrow> string \<Rightarrow> string" where
  "or_text v w = (if present v then the v else w)"

definition dedupe_key :: "note_event \<Rightarrow> string" where
  "dedupe_key e = or_text (ne_key e)
     (or_text (ne_target e) (or_text (ne_exec e) ''-'') @ ''|'' @ or_text (ne_run e) ''-'' @ ''|'' @ ne_type e)"

definition coalescible :: "note_event \<Rightarrow> bool" where
  "coalescible e \<longleftrightarrow> present (ne_key e) \<or> present (ne_target e) \<or> present (ne_exec e) \<or> present (ne_run e)"

definition ends_with :: "string \<Rightarrow> string \<Rightarrow> bool" where
  "ends_with s e \<longleftrightarrow> length e \<le> length s \<and> drop (length s - length e) s = e"

definition state_rank :: "string \<Rightarrow> nat" where
  "state_rank t =
     (if ends_with t ''.terminal'' \<or> ends_with t ''.done'' then 3
      else if ends_with t ''.blocked'' \<or> ends_with t ''.failed'' then 2
      else if ends_with t ''.start'' then 1
      else 0)"

section \<open>Sending\<close>

datatype send_answer = Send_Throws | Send_Result int "string list"

record bus_sending =
  bs_id :: string
  bs_event :: note_event
  bs_surface :: string
  bs_key :: string
  bs_text :: string
  bs_now :: int

record bus =
  b_rows :: note_rows
  b_counter :: int
  b_sending :: "bus_sending list"

definition empty_bus :: bus where
  "empty_bus = \<lparr>b_rows = [], b_counter = 0, b_sending = []\<rparr>"

record note_result =
  nr_id :: string
  nr_status :: note_status
  nr_sent :: int
  nr_recipients :: "string list"

datatype bus_reply = Bus_Waits | Bus_Throws | Bus_Replies note_result

definition next_counter :: "int \<Rightarrow> int" where
  "next_counter c = (c + 1) mod 1000000"

definition next_id :: "int \<Rightarrow> int \<Rightarrow> string" where
  "next_id now c = ''ntf-'' @ int_str now @ ''-'' @ int_str (next_counter c)"

definition note_of ::
  "string \<Rightarrow> note_event \<Rightarrow> string \<Rightarrow> string \<Rightarrow> string \<Rightarrow> string list \<Rightarrow> note_status \<Rightarrow> string option \<Rightarrow> int \<Rightarrow> note_row" where
  "note_of i e surface key text recipients status by now =
     \<lparr>n_id = i, n_type = ne_type e, n_surface = surface, n_target = ne_target e, n_exec = ne_exec e, n_run = ne_run e,
      n_severity = ne_severity e, n_key = Some key, n_text = text, n_recipients = recipients, n_status = status,
      n_suppressed_by = by, n_created = now\<rparr>"

definition journal :: "note_row \<Rightarrow> int \<Rightarrow> bus \<Rightarrow> bus_reply \<times> bus" where
  "journal r n b =
     (case record_note r (b_rows b) of
        None \<Rightarrow> (Bus_Throws, b)
      | Some rows \<Rightarrow> (Bus_Replies \<lparr>nr_id = n_id r, nr_status = n_status r, nr_sent = n, nr_recipients = n_recipients r\<rparr>,
                     b\<lparr>b_rows := rows\<rparr>))"

definition within :: "int \<Rightarrow> int \<Rightarrow> note_row option \<Rightarrow> note_row option" where
  "within now w v = (case v of Some r \<Rightarrow> if now - n_created r \<le> w then Some r else None | None \<Rightarrow> None)"

definition same_fact :: "bus_config \<Rightarrow> int \<Rightarrow> note_event \<Rightarrow> note_rows \<Rightarrow> note_row option" where
  "same_fact cfg now e rows =
     (if coalescible e then within now (bc_dedupe_window cfg) (latest_sent_by_key (dedupe_key e) rows) else None)"

definition prior_state :: "bus_config \<Rightarrow> int \<Rightarrow> note_event \<Rightarrow> note_rows \<Rightarrow> note_row option" where
  "prior_state cfg now e rows =
     (if present (ne_target e) \<and> 0 < state_rank (ne_type e)
      then within now (bc_ordering_window cfg) (latest_sent_for_group (the (ne_target e)) (ne_run e) rows)
      else None)"

definition prior_rank :: "note_row option \<Rightarrow> nat" where
  "prior_rank v = (case v of None \<Rightarrow> 0 | Some r \<Rightarrow> state_rank (n_type r))"

definition notify_begin :: "bus_config \<Rightarrow> int \<Rightarrow> note_event \<Rightarrow> bus \<Rightarrow> bus_reply \<times> bus" where
  "notify_begin cfg now e b0 =
     (let i = next_id now (b_counter b0);
          b = b0\<lparr>b_counter := next_counter (b_counter b0)\<rparr>;
          surface = (if ne_surface e = Some ''telegram'' then ''telegram'' else ''whatsapp'');
          text = js_trim (case ne_text e of None \<Rightarrow> [] | Some t \<Rightarrow> t);
          key = dedupe_key e in
      if text = [] then journal (note_of i e surface key [] [] Note_Suppressed None now) 0 b
      else case same_fact cfg now e (b_rows b) of
        Some prior \<Rightarrow> journal (note_of i e surface key text [] Note_Suppressed (Some (n_id prior)) now) 0 b
      | None \<Rightarrow>
          let prior = prior_state cfg now e (b_rows b); rank = state_rank (ne_type e) in
          if rank < prior_rank prior
          then journal (note_of i e surface key text [] Note_Suppressed (map_option n_id prior) now) 0 b
          else
            let out = (if prior_rank prior = 2 \<and> rank = 3 then bc_resolved cfg @ text else text) in
            (Bus_Waits, b\<lparr>b_sending := b_sending b @
               [\<lparr>bs_id = i, bs_event = e, bs_surface = surface, bs_key = key, bs_text = out, bs_now = now\<rparr>]\<rparr>))"

definition sent_status :: "send_answer \<Rightarrow> note_status" where
  "sent_status a = (case a of Send_Throws \<Rightarrow> Note_Failed | Send_Result n _ \<Rightarrow> if 0 < n then Note_Sent else Note_Failed)"

definition sent_count :: "send_answer \<Rightarrow> int" where
  "sent_count a = (case a of Send_Throws \<Rightarrow> 0 | Send_Result n _ \<Rightarrow> n)"

definition sent_to :: "send_answer \<Rightarrow> string list" where
  "sent_to a = (case a of Send_Throws \<Rightarrow> [] | Send_Result _ rs \<Rightarrow> rs)"

text \<open>The sender's answer to the message in place \<open>k\<close>.\<close>

definition notify_end :: "nat \<Rightarrow> send_answer \<Rightarrow> bus \<Rightarrow> bus_reply \<times> bus" where
  "notify_end k a b =
     (if k < length (b_sending b)
      then let s = b_sending b ! k in
        journal (note_of (bs_id s) (bs_event s) (bs_surface s) (bs_key s) (bs_text s) (sent_to a) (sent_status a) None (bs_now s))
          (sent_count a) (b\<lparr>b_sending := take k (b_sending b) @ drop (Suc k) (b_sending b)\<rparr>)
      else (Bus_Waits, b))"

text \<open>One message awaited to its end.\<close>

definition notify :: "bus_config \<Rightarrow> int \<times> note_event \<times> send_answer \<Rightarrow> bus \<Rightarrow> bus_reply \<times> bus" where
  "notify cfg m b =
     (case m of (now, e, a) \<Rightarrow>
        case notify_begin cfg now e b of
          (Bus_Waits, b') \<Rightarrow> notify_end (length (b_sending b)) a b'
        | (r, b') \<Rightarrow> (r, b'))"

definition notify_all :: "bus_config \<Rightarrow> (int \<times> note_event \<times> send_answer) list \<Rightarrow> bus \<Rightarrow> bus" where
  "notify_all cfg ms b = fold (\<lambda>m b. snd (notify cfg m b)) ms b"

end
