(* ===== verification/Notify_Props.thy ===== *)
theory Notify_Props
  imports Notify_Bus
begin

text \<open>
  What the notification bus promises when messages are awaited one after the other: every message is
  journaled with its outcome, a fact is sent once per window, and the states of a run are sent in order. Two
  lemmas at the end show where messages in parallel and untracked messages escape this.
\<close>

section \<open>One message\<close>

definition note_matches :: "int \<Rightarrow> note_event \<Rightarrow> note_row \<Rightarrow> bool" where
  "note_matches now e r \<longleftrightarrow> n_created r = now \<and> n_type r = ne_type e \<and> n_target r = ne_target e \<and> n_run r = ne_run e \<and>
     n_key r = Some (dedupe_key e)"

definition may_send :: "bus_config \<Rightarrow> int \<Rightarrow> note_event \<Rightarrow> note_rows \<Rightarrow> bool" where
  "may_send cfg now e rows \<longleftrightarrow> js_trim (or_text (ne_text e) []) \<noteq> [] \<and> same_fact cfg now e rows = None \<and>
     prior_rank (prior_state cfg now e rows) \<le> state_rank (ne_type e)"

lemma text_default: "(case v of None \<Rightarrow> [] | Some t \<Rightarrow> t) = or_text v []"
  by (cases v) (auto simp: or_text_def present_def)

definition note_status_of :: "bus_config \<Rightarrow> int \<Rightarrow> note_event \<Rightarrow> send_answer \<Rightarrow> note_rows \<Rightarrow> note_status" where
  "note_status_of cfg now e a rows = (if may_send cfg now e rows then sent_status a else Note_Suppressed)"

text \<open>What is given to the sender, and what is journaled for a message that is not sent.\<close>

definition surface_of :: "note_event \<Rightarrow> string" where
  "surface_of e = (if ne_surface e = Some ''telegram'' then ''telegram'' else ''whatsapp'')"

definition sending_of :: "bus_config \<Rightarrow> int \<Rightarrow> note_event \<Rightarrow> bus \<Rightarrow> bus_sending" where
  "sending_of cfg now e b =
     \<lparr>bs_id = next_id now (b_counter b), bs_event = e, bs_surface = surface_of e, bs_key = dedupe_key e,
      bs_text = (if prior_rank (prior_state cfg now e (b_rows b)) = 2 \<and> state_rank (ne_type e) = 3
                 then bc_resolved cfg @ js_trim (or_text (ne_text e) []) else js_trim (or_text (ne_text e) [])),
      bs_now = now\<rparr>"

definition suppressor :: "bus_config \<Rightarrow> int \<Rightarrow> note_event \<Rightarrow> note_rows \<Rightarrow> string option" where
  "suppressor cfg now e rows =
     (if js_trim (or_text (ne_text e) []) = [] then None
      else map_option n_id (case same_fact cfg now e rows of None \<Rightarrow> prior_state cfg now e rows | Some r \<Rightarrow> Some r))"

definition suppressed_of :: "bus_config \<Rightarrow> int \<Rightarrow> note_event \<Rightarrow> bus \<Rightarrow> note_row" where
  "suppressed_of cfg now e b =
     note_of (next_id now (b_counter b)) e (surface_of e) (dedupe_key e) (js_trim (or_text (ne_text e) [])) []
       Note_Suppressed (suppressor cfg now e (b_rows b)) now"

lemma begin_waits:
  "may_send cfg now e (b_rows b) \<Longrightarrow> notify_begin cfg now e b =
     (Bus_Waits, b\<lparr>b_counter := next_counter (b_counter b), b_sending := b_sending b @ [sending_of cfg now e b]\<rparr>)"
  by (simp add: notify_begin_def may_send_def text_default sending_of_def surface_of_def Let_def)

lemma begin_suppresses:
  "\<not> may_send cfg now e (b_rows b) \<Longrightarrow> notify_begin cfg now e b =
     journal (suppressed_of cfg now e b) 0 (b\<lparr>b_counter := next_counter (b_counter b)\<rparr>)"
  by (auto simp: notify_begin_def may_send_def text_default suppressed_of_def suppressor_def surface_of_def Let_def
      split: option.splits)

definition sent_of :: "bus_config \<Rightarrow> int \<Rightarrow> note_event \<Rightarrow> send_answer \<Rightarrow> bus \<Rightarrow> note_row" where
  "sent_of cfg now e a b =
     note_of (next_id now (b_counter b)) e (surface_of e) (dedupe_key e) (bs_text (sending_of cfg now e b)) (sent_to a)
       (sent_status a) None now"

lemma journal_waits: "journal r n b \<noteq> (Bus_Waits, b')"
  by (simp add: journal_def split: option.splits)

lemma no_sending: "b_sending b = [] \<Longrightarrow> b\<lparr>b_counter := c, b_sending := []\<rparr> = b\<lparr>b_counter := c\<rparr>"
  by (cases b) simp

lemma notify_is_journal:
  assumes "b_sending b = []"
  shows "notify cfg (now, e, a) b =
    (if may_send cfg now e (b_rows b)
     then journal (sent_of cfg now e a b) (sent_count a) (b\<lparr>b_counter := next_counter (b_counter b)\<rparr>)
     else journal (suppressed_of cfg now e b) 0 (b\<lparr>b_counter := next_counter (b_counter b)\<rparr>))"
proof (cases "may_send cfg now e (b_rows b)")
  case True
  with assms show ?thesis
    by (simp add: notify_def begin_waits notify_end_def sent_of_def no_sending) (simp add: sending_of_def)
next
  case False
  then show ?thesis
    by (auto simp: notify_def begin_suppresses journal_waits split: prod.splits bus_reply.splits)
qed

lemma journal_rows:
  "snd (journal r n b) = (if list_ex (\<lambda>q. n_id q = n_id r) (b_rows b) then b else b\<lparr>b_rows := b_rows b @ [r]\<rparr>)"
  by (simp add: journal_def record_note_def)

text \<open>The row an awaited message adds, if its id is free.\<close>

lemma notify_adds:
  assumes "b_sending b = []" and "b' = snd (notify cfg (now, e, a) b)"
  shows "b_sending b' = [] \<and> (b_rows b' = b_rows b \<or> (\<exists>r. b_rows b' = b_rows b @ [r] \<and> note_matches now e r \<and>
    (n_status r = Note_Sent \<longrightarrow> may_send cfg now e (b_rows b))))"
  using assms
  by (auto simp: notify_is_journal journal_rows sent_of_def suppressed_of_def note_of_def note_matches_def)

text \<open>
  Every awaited message is journaled once, with the outcome the caller gets: sent only when the sender
  took it for at least one recipient, failed when it threw or reached nobody, suppressed when it was not given to
  the sender. Nothing is thrown unless the id is taken, and a text without target, run, execution and key is
  always given to the sender.
\<close>

theorem notify_journals:
  assumes "b_sending b = []" and "list_all (\<lambda>q. n_id q \<noteq> next_id now (b_counter b)) (b_rows b)"
  shows "\<exists>r. notify cfg (now, e, a) b =
      (Bus_Replies \<lparr>nr_id = n_id r, nr_status = n_status r, nr_sent = (if n_status r = Note_Suppressed then 0 else sent_count a),
         nr_recipients = n_recipients r\<rparr>,
       b\<lparr>b_counter := next_counter (b_counter b), b_rows := b_rows b @ [r]\<rparr>) \<and>
    note_matches now e r \<and>
    (n_status r = Note_Sent \<longrightarrow> (\<exists>n rs. a = Send_Result n rs \<and> 0 < n \<and> n_recipients r = rs)) \<and>
    (n_status r = Note_Suppressed \<longrightarrow> n_recipients r = [] \<and>
       (js_trim (or_text (ne_text e) []) = [] \<or> coalescible e))"
proof -
  from assms(2) have new: "list_ex (\<lambda>q. n_id q = next_id now (b_counter b)) (b_rows b) = False"
    by (auto simp: list_ex_iff list_all_iff)
  let ?r = "if may_send cfg now e (b_rows b) then sent_of cfg now e a b else suppressed_of cfg now e b"
  have "\<not> coalescible e \<longrightarrow> same_fact cfg now e (b_rows b) = None \<and> prior_state cfg now e (b_rows b) = None"
    by (auto simp: same_fact_def prior_state_def coalescible_def)
  with new show ?thesis
    by (intro exI [where x = ?r])
      (auto simp: notify_is_journal [OF assms(1)] journal_def record_note_def sent_of_def suppressed_of_def note_of_def
        note_matches_def sent_status_def sent_count_def sent_to_def may_send_def prior_rank_def split: send_answer.splits if_splits)
qed

section \<open>Coalescing\<close>

lemma latest_note_Some:
  assumes "latest_note p rows = Some r"
  shows "r \<in> set rows \<and> p r \<and> (\<forall>q \<in> set rows. p q \<longrightarrow> n_created q \<le> n_created r)"
  using first_row_Some [OF assms [unfolded latest_note_def]] first_row_order_desc [OF assms [unfolded latest_note_def]]
  by auto

lemma latest_note_None: "latest_note p rows = None \<longleftrightarrow> (\<forall>r \<in> set rows. \<not> p r)"
  by (auto simp: latest_note_def order_desc_def order_by_def filter_empty_conv) (metis filter_empty_conv length_0_conv length_sort)

text \<open>
  Two sent rows of the same fact are more than a window apart; the key of a text without identity stands for
  no fact.
\<close>

definition anonymous_key :: "string \<Rightarrow> string" where
  "anonymous_key t = ''-|-|'' @ t"

definition apart :: "int \<Rightarrow> note_row \<Rightarrow> note_row \<Rightarrow> bool" where
  "apart w r q \<longleftrightarrow> (n_status r = Note_Sent \<and> n_status q = Note_Sent \<and> n_key r = n_key q \<and>
     n_key q \<noteq> Some (anonymous_key (n_type q)) \<longrightarrow> w < n_created q - n_created r)"

lemma anonymous: "\<not> coalescible e \<Longrightarrow> dedupe_key e = anonymous_key (ne_type e)"
  by (simp add: coalescible_def dedupe_key_def or_text_def anonymous_key_def)

definition bus_act :: "bus_config \<Rightarrow> bus \<Rightarrow> bus \<Rightarrow> bool" where
  "bus_act cfg b b' \<longleftrightarrow> (\<exists>m. b' = snd (notify cfg m b))"

definition facts_apart :: "bus_config \<Rightarrow> bus \<Rightarrow> bool" where
  "facts_apart cfg b \<longleftrightarrow> b_sending b = [] \<and> sorted_wrt (apart (bc_dedupe_window cfg)) (b_rows b)"

lemma sent_is_apart:
  assumes "same_fact cfg now e rows = None" and "note_matches now e r" and "q \<in> set rows"
  shows "apart (bc_dedupe_window cfg) q r"
proof (cases "coalescible e")
  case True
  show ?thesis
  proof (cases "latest_sent_by_key (dedupe_key e) rows")
    case None
    with assms show ?thesis
      by (auto simp: latest_sent_by_key_def latest_note_None apart_def note_matches_def)
  next
    case (Some p)
    with assms(1) True have "bc_dedupe_window cfg < now - n_created p"
      by (auto simp: same_fact_def within_def split: if_splits)
    moreover from latest_note_Some [OF Some [unfolded latest_sent_by_key_def]] assms(3)
    have "n_key q = Some (dedupe_key e) \<and> n_status q = Note_Sent \<longrightarrow> n_created q \<le> n_created p" by blast
    ultimately show ?thesis
      using assms(2) by (auto simp: apart_def note_matches_def)
  qed
next
  case False
  with anonymous [OF False] assms(2) show ?thesis by (simp add: apart_def note_matches_def)
qed

interpretation bus_ops: operations "\<lambda>m b. snd (notify cfg m b)" "bus_act cfg" for cfg
  by unfold_locales (rule r_into_rtranclp, unfold bus_act_def, rule exI, rule refl)

interpretation bus_facts: protocol_invariant "bus_act cfg" "facts_apart cfg" for cfg
proof
  fix b b'
  assume "bus_act cfg b b'" and inv: "facts_apart cfg b"
  then obtain now e a where "b' = snd (notify cfg (now, e, a) b)" by (auto simp: bus_act_def)
  with inv notify_adds [of b b' cfg now e a] show "facts_apart cfg b'"
    by (auto simp: facts_apart_def sorted_wrt_append may_send_def intro: sent_is_apart) (auto simp: apart_def)
qed

lemma notify_all_acts: "(bus_act cfg)\<^sup>*\<^sup>* b (notify_all cfg ms b)"
  unfolding notify_all_def by (rule bus_ops.fold_follows)

text \<open>
  C18. A fact is sent once per window: in the journal of messages awaited one after the other, two sent rows with
  the same key are more than the coalescing window apart, whichever executions of the run they came from. Messages without
  a key of their own, which share the key of their type, are not coalesced.
\<close>

theorem notifications_coalesce:
  assumes "i < j" and "j < length (b_rows (notify_all cfg ms empty_bus))"
    and "r = b_rows (notify_all cfg ms empty_bus) ! i" and "q = b_rows (notify_all cfg ms empty_bus) ! j"
    and "n_status r = Note_Sent" and "n_status q = Note_Sent" and "n_key r = n_key q"
    and "n_key q \<noteq> Some (anonymous_key (n_type q))"
  shows "bc_dedupe_window cfg < n_created q - n_created r"
proof -
  have "facts_apart cfg (notify_all cfg ms empty_bus)"
    by (rule bus_facts.run_keeps [OF notify_all_acts]) (simp add: facts_apart_def empty_bus_def)
  with assms show ?thesis by (auto simp: facts_apart_def apart_def sorted_wrt_iff_nth_less)
qed

section \<open>Order of the states of a run\<close>

definition in_order :: "int \<Rightarrow> note_row \<Rightarrow> note_row \<Rightarrow> bool" where
  "in_order w r q \<longleftrightarrow> (n_status r = Note_Sent \<and> n_status q = Note_Sent \<and> present (n_target q) \<and> n_target r = n_target q \<and>
     run_group (n_run r) = run_group (n_run q) \<and> n_created q - n_created r \<le> w \<longrightarrow>
     state_rank (n_type r) \<le> state_rank (n_type q))"

lemma latest_note_sorted:
  assumes "sorted (map n_created rows)" and "latest_note p rows = Some r"
  shows "\<exists>rs. filter p rows = rs @ [r]"
proof -
  from assms have "first_row (rev (filter p rows)) = Some r"
    by (simp add: latest_note_def order_desc_sorted sorted_filter)
  then obtain rs where "rev (filter p rows) = r # rs" by (auto simp: first_row_def split: list.splits)
  then have "filter p rows = rev rs @ [r]" by (metis rev.simps(2) rev_rev_ident)
  then show ?thesis by blast
qed

lemma sent_is_in_order:
  assumes "sorted (map n_created rows)" and "sorted_wrt (in_order (bc_ordering_window cfg)) rows"
    and "prior_rank (prior_state cfg now e rows) \<le> state_rank (ne_type e)" and "note_matches now e r"
    and "q \<in> set rows" and "\<forall>p \<in> set rows. n_created p \<le> now" and "present (ne_target e) \<longrightarrow> 0 < state_rank (ne_type e)"
  shows "in_order (bc_ordering_window cfg) q r"
  unfolding in_order_def
proof
  assume same: "n_status q = Note_Sent \<and> n_status r = Note_Sent \<and> present (n_target r) \<and> n_target q = n_target r \<and>
     run_group (n_run q) = run_group (n_run r) \<and> n_created r - n_created q \<le> bc_ordering_window cfg"
  then obtain t where t: "ne_target e = Some t" "n_target r = Some t"
    using assms(4) by (auto simp: note_matches_def present_def)
  with same assms(4) have q: "sent_in_group t (ne_run e) q" by (simp add: sent_in_group_def note_matches_def)
  with assms(5) obtain p where p: "latest_note (sent_in_group t (ne_run e)) rows = Some p"
    using latest_note_None [of "sent_in_group t (ne_run e)" rows] by (cases "latest_note (sent_in_group t (ne_run e)) rows") auto
  from latest_note_Some [OF p] q assms(5,6) have newest: "n_created q \<le> n_created p" "n_created p \<le> now"
    and member: "sent_in_group t (ne_run e) p" by auto
  with same assms(4) have "now - n_created p \<le> bc_ordering_window cfg" by (simp add: note_matches_def)
  with p t same assms(4,7) have "prior_state cfg now e rows = Some p"
    by (simp add: prior_state_def latest_sent_for_group_def within_def note_matches_def)
  with assms(3) have after: "state_rank (n_type p) \<le> state_rank (ne_type e)" by (simp add: prior_rank_def)
  from latest_note_sorted [OF assms(1) p] obtain rs where rs: "filter (sent_in_group t (ne_run e)) rows = rs @ [p]" by blast
  from assms(2) have "sorted_wrt (in_order (bc_ordering_window cfg)) (rs @ [p])" by (simp flip: rs add: sorted_wrt_filter)
  moreover from assms(5) q have "q \<in> set (rs @ [p])" by (simp flip: rs)
  ultimately have "q = p \<or> in_order (bc_ordering_window cfg) q p" by (auto simp: sorted_wrt_append)
  with q member newest same assms(4) t after show "state_rank (n_type q) \<le> state_rank (n_type r)"
    by (auto simp: in_order_def sent_in_group_def note_matches_def present_def)
qed

definition ordered_act :: "bus_config \<Rightarrow> bus \<Rightarrow> bus \<Rightarrow> bool" where
  "ordered_act cfg b b' \<longleftrightarrow> (\<exists>now e a. b' = snd (notify cfg (now, e, a) b) \<and> (\<forall>r \<in> set (b_rows b). n_created r \<le> now) \<and>
     (present (ne_target e) \<longrightarrow> 0 < state_rank (ne_type e)))"

definition states_in_order :: "bus_config \<Rightarrow> bus \<Rightarrow> bool" where
  "states_in_order cfg b \<longleftrightarrow> b_sending b = [] \<and> sorted (map n_created (b_rows b)) \<and>
     sorted_wrt (in_order (bc_ordering_window cfg)) (b_rows b)"

interpretation bus_order: protocol_invariant "ordered_act cfg" "states_in_order cfg" for cfg
proof
  fix b b'
  assume "ordered_act cfg b b'" and inv: "states_in_order cfg b"
  then obtain now e a where b': "b' = snd (notify cfg (now, e, a) b)"
    and late: "\<forall>r \<in> set (b_rows b). n_created r \<le> now" "present (ne_target e) \<longrightarrow> 0 < state_rank (ne_type e)"
    by (auto simp: ordered_act_def)
  from inv have idle: "b_sending b = []" by (simp add: states_in_order_def)
  from notify_adds [OF idle b'] consider "b_rows b' = b_rows b" "b_sending b' = []"
    | r where "b_rows b' = b_rows b @ [r]" "b_sending b' = []" "note_matches now e r"
      "n_status r = Note_Sent \<longrightarrow> may_send cfg now e (b_rows b)" by blast
  then show "states_in_order cfg b'"
  proof cases
    case 1
    with inv show ?thesis by (simp add: states_in_order_def)
  next
    case (2 r)
    have "in_order (bc_ordering_window cfg) q r" if "q \<in> set (b_rows b)" for q
    proof (cases "n_status r = Note_Sent")
      case True
      with 2 inv late that show ?thesis
        by (intro sent_is_in_order [where rows = "b_rows b" and now = now and e = e]) (auto simp: states_in_order_def may_send_def)
    qed (simp add: in_order_def)
    with 2 inv late show ?thesis
      by (auto simp: states_in_order_def sorted_wrt_append sorted_append note_matches_def)
  qed
qed

lemma notify_all_ordered:
  "sorted (map fst ms) \<Longrightarrow> b_sending b = [] \<Longrightarrow> \<forall>r \<in> set (b_rows b). \<forall>m \<in> set ms. n_created r \<le> fst m \<Longrightarrow>
    list_all (\<lambda>(now, e, a). present (ne_target e) \<longrightarrow> 0 < state_rank (ne_type e)) ms \<Longrightarrow>
    (ordered_act cfg)\<^sup>*\<^sup>* b (notify_all cfg ms b)"
proof (induction ms arbitrary: b)
  case (Cons m ms)
  obtain now e a where m: "m = (now, e, a)" by (cases m)
  let ?b = "snd (notify cfg (now, e, a) b)"
  from Cons.prems m have "ordered_act cfg b ?b" unfolding ordered_act_def
    by (intro exI [where x = now] exI [where x = e] exI [where x = a]) simp
  moreover from notify_adds [OF Cons.prems(2) refl, of cfg now e a] Cons.prems m
  have "(ordered_act cfg)\<^sup>*\<^sup>* ?b (notify_all cfg ms ?b)"
    by (intro Cons.IH) (fastforce simp: note_matches_def)+
  ultimately show ?case by (simp add: m notify_all_def converse_rtranclp_into_rtranclp)
qed (simp add: notify_all_def)

text \<open>
  The states of a run arrive in order: when messages are awaited one after the other by a clock that does
  not go back, and every message about a target carries a state, then a sent message is never followed, within
  the ordering window, by a sent message of the same target and run with a lower state, such as a blocker after
  the run's end.
\<close>

theorem notifications_in_order:
  assumes "sorted (map fst ms)"
    and "list_all (\<lambda>(now, e, a). present (ne_target e) \<longrightarrow> 0 < state_rank (ne_type e)) ms"
    and "i < j" and "j < length (b_rows (notify_all cfg ms empty_bus))"
    and "r = b_rows (notify_all cfg ms empty_bus) ! i" and "q = b_rows (notify_all cfg ms empty_bus) ! j"
    and "n_status r = Note_Sent" and "n_status q = Note_Sent" and "present (n_target q)" and "n_target r = n_target q"
    and "run_group (n_run r) = run_group (n_run q)" and "n_created q - n_created r \<le> bc_ordering_window cfg"
  shows "state_rank (n_type r) \<le> state_rank (n_type q)"
proof -
  have "states_in_order cfg (notify_all cfg ms empty_bus)"
    by (rule bus_order.run_keeps [OF notify_all_ordered]) (use assms(1,2) in \<open>simp_all add: states_in_order_def empty_bus_def\<close>)
  with assms(3-12) show ?thesis by (auto simp: states_in_order_def in_order_def sorted_wrt_iff_nth_less)
qed

section \<open>Where the promises end\<close>

definition plain_event :: "string \<Rightarrow> string option \<Rightarrow> note_event" where
  "plain_event type target =
     \<lparr>ne_type = type, ne_text = Some ''text'', ne_surface = None, ne_target = target, ne_exec = None, ne_run = None,
      ne_severity = None, ne_key = None\<rparr>"

definition default_config :: bus_config where
  "default_config =
     \<lparr>bc_dedupe_window = default_dedupe_window, bc_ordering_window = default_ordering_window, bc_resolved = ''resolved: ''\<rparr>"

text \<open>
  Two messages of one fact that are with the sender at the same time are both sent: the check reads the journal,
  which a message enters only after it was sent.
\<close>

lemma parallel_messages_are_not_coalesced:
  "let e = plain_event ''execution.terminal'' (Some ''o/r#1'');
       b2 = snd (notify_begin default_config 1 e (snd (notify_begin default_config 0 e empty_bus)));
       b4 = snd (notify_end 0 (Send_Result 1 [''a'']) (snd (notify_end 0 (Send_Result 1 [''a'']) b2)))
   in map n_status (b_rows b4) = [Note_Sent, Note_Sent] \<and> map n_key (b_rows b4) = [Some (dedupe_key e), Some (dedupe_key e)]"
  by code_simp

text \<open>
  A message about the target without a state hides the state before it: a late blocker is sent after the end of
  the run.
\<close>

lemma untracked_message_hides_the_state:
  "map n_status (b_rows (notify_all default_config
     [(0, plain_event ''execution.terminal'' (Some ''o/r#1''), Send_Result 1 [''a'']),
      (1, plain_event ''manual'' (Some ''o/r#1''), Send_Result 1 [''a'']),
      (2, plain_event ''execution.blocked'' (Some ''o/r#1''), Send_Result 1 [''a''])] empty_bus)) =
   [Note_Sent, Note_Sent, Note_Sent]"
  by code_simp

end
