(* ===== verification/Notify_Examples.thy ===== *)
theory Notify_Examples
  imports Notify_Props
begin

text \<open>The properties of the notification bus at concrete inputs.\<close>

definition demo_config :: bus_config where
  "demo_config = \<lparr>bc_dedupe_window = 20, bc_ordering_window = 60, bc_resolved = ''resolved: ''\<rparr>"

lemma demo_window: "bc_ordering_window demo_config = 60"
  by (simp add: demo_config_def)

definition demo_note :: note_event where "demo_note = plain_event ''execution.blocked'' (Some ''o/r#1'')"
definition demo_end :: note_event where "demo_end = plain_event ''execution.terminal'' (Some ''o/r#1'')"

definition demo_notes :: "(int \<times> note_event \<times> send_answer) list" where
  "demo_notes = [(0, demo_note, Send_Result 1 [''a'']), (10, demo_end, Send_Result 1 [''a'']),
     (90, demo_note, Send_Result 2 [''a'', ''b''])]"

theorem notify_journals_witness:
  "\<exists>r. notify demo_config (0, demo_note, Send_Throws) empty_bus =
      (Bus_Replies \<lparr>nr_id = n_id r, nr_status = n_status r, nr_sent = 0, nr_recipients = n_recipients r\<rparr>,
       empty_bus\<lparr>b_counter := 1, b_rows := [r]\<rparr>) \<and> note_matches 0 demo_note r \<and> n_status r \<noteq> Note_Sent"
  using notify_journals [of empty_bus 0 demo_config demo_note Send_Throws]
  by (auto simp: empty_bus_def next_counter_def sent_count_def)

definition demo_note_row :: "string \<Rightarrow> string \<Rightarrow> int \<Rightarrow> string list \<Rightarrow> string \<Rightarrow> note_row" where
  "demo_note_row i type t recipients text =
     \<lparr>n_id = i, n_type = type, n_surface = ''whatsapp'', n_target = Some ''o/r#1'', n_exec = None, n_run = None,
      n_severity = None, n_key = Some (''o/r#1|-|'' @ type), n_text = text, n_recipients = recipients,
      n_status = Note_Sent, n_suppressed_by = None, n_created = t\<rparr>"

definition demo_bus1 :: bus where
  "demo_bus1 = \<lparr>b_rows = [demo_note_row ''ntf-0-1'' ''execution.blocked'' 0 [''a''] ''text''], b_counter = 1, b_sending = []\<rparr>"

definition demo_bus2 :: bus where
  "demo_bus2 = \<lparr>b_rows = b_rows demo_bus1 @ [demo_note_row ''ntf-10-2'' ''execution.terminal'' 10 [''a''] ''resolved: text''],
     b_counter = 2, b_sending = []\<rparr>"

definition demo_bus3 :: bus where
  "demo_bus3 = \<lparr>b_rows = b_rows demo_bus2 @ [demo_note_row ''ntf-90-3'' ''execution.blocked'' 90 [''a'', ''b''] ''text''],
     b_counter = 3, b_sending = []\<rparr>"

lemma demo_step1: "snd (notify demo_config (0, demo_note, Send_Result 1 [''a'']) empty_bus) = demo_bus1"
  by code_simp

lemma demo_step2: "snd (notify demo_config (10, demo_end, Send_Result 1 [''a'']) demo_bus1) = demo_bus2"
  by code_simp

lemma demo_step3: "snd (notify demo_config (90, demo_note, Send_Result 2 [''a'', ''b'']) demo_bus2) = demo_bus3"
  by code_simp

lemma demo_journal_rows:
  "b_rows (notify_all demo_config demo_notes empty_bus) =
     [demo_note_row ''ntf-0-1'' ''execution.blocked'' 0 [''a''] ''text'',
      demo_note_row ''ntf-10-2'' ''execution.terminal'' 10 [''a''] ''resolved: text'',
      demo_note_row ''ntf-90-3'' ''execution.blocked'' 90 [''a'', ''b''] ''text'']"
  by (simp add: notify_all_def demo_notes_def demo_step1 demo_step2 demo_step3)
    (simp add: demo_bus1_def demo_bus2_def demo_bus3_def)

theorem notifications_coalesce_witness:
  "bc_dedupe_window demo_config < n_created (b_rows (notify_all demo_config demo_notes empty_bus) ! 2) -
     n_created (b_rows (notify_all demo_config demo_notes empty_bus) ! 0)"
  by (rule notifications_coalesce [where i = 0 and j = 2, OF _ _ refl refl])
    (simp_all add: demo_journal_rows demo_note_row_def anonymous_key_def)

theorem notifications_in_order_witness:
  "state_rank (n_type (b_rows (notify_all demo_config demo_notes empty_bus) ! 0)) \<le>
   state_rank (n_type (b_rows (notify_all demo_config demo_notes empty_bus) ! 1))"
proof -
  have "sorted (map fst demo_notes)" and
    "list_all (\<lambda>(now, e, a). present (ne_target e) \<longrightarrow> 0 < state_rank (ne_type e)) demo_notes" by code_simp+
  then show ?thesis
    by (rule notifications_in_order [where i = 0 and j = 1 and cfg = demo_config, OF _ _ _ _ refl refl])
      (simp_all add: demo_journal_rows demo_note_row_def present_def demo_window)
qed

end
