(* ===== verification/Durable_Receipt.thy ===== *)
theory Durable_Receipt
  imports Prelude
begin

text \<open>
  The check of a terminal store receipt (packages/server/src/durableReceipt.ts): a job that stored
  something is done only with the proof of a durable revision, of GitHub, of Google Drive, or the bare
  commit of older vaults.

  \<^item> A receipt is a JSON value; a field that is absent reads as \<open>JUndefined\<close>.
  \<^item> The parser of URLs and the parser of dates are those of the platform: \<open>receipt_env\<close> gives the
    protocol and host name of a URL where it parses, and tells which texts are dates.
\<close>

section \<open>Reading values\<close>

definition js_member :: "string \<Rightarrow> json \<Rightarrow> json" where
  "js_member k v =
     (case v of JObj kvs \<Rightarrow> (case map_of (rev kvs) k of None \<Rightarrow> JUndefined | Some w \<Rightarrow> w) | _ \<Rightarrow> JUndefined)"

fun is_object :: "json \<Rightarrow> bool" where
  "is_object (JObj kvs) \<longleftrightarrow> True"
| "is_object _ \<longleftrightarrow> False"

fun text_of :: "json \<Rightarrow> string option" where
  "text_of (JStr s) = Some s"
| "text_of _ = None"

fun texts_of :: "json \<Rightarrow> string list" where
  "texts_of (JArr vs) = List.map_filter text_of vs"
| "texts_of _ = []"

lemma js_member_object [simp]: "js_member k (JObj kvs) = (case map_of (rev kvs) k of None \<Rightarrow> JUndefined | Some w \<Rightarrow> w)"
  by (simp add: js_member_def)

lemma js_member_other: "\<not> is_object v \<Longrightarrow> js_member k v = JUndefined"
  by (cases v) (simp_all add: js_member_def)

section \<open>Parts of a receipt\<close>

record receipt_env =
  re_url :: "string \<Rightarrow> (string \<times> string) option"
  re_date :: "string \<Rightarrow> bool"

definition lower_hex :: "char \<Rightarrow> bool" where
  "lower_hex c \<longleftrightarrow> (let n = of_char (to_lower c) :: nat in 48 \<le> n \<and> n \<le> 57 \<or> 97 \<le> n \<and> n \<le> 102)"

definition git_sha :: "json \<Rightarrow> bool" where
  "git_sha v \<longleftrightarrow> (case v of JStr s \<Rightarrow> length s = 40 \<and> list_all lower_hex s | _ \<Rightarrow> False)"

definition web_url :: "receipt_env \<Rightarrow> json \<Rightarrow> bool" where
  "web_url env v \<longleftrightarrow>
     (case v of
        JStr u \<Rightarrow> u \<noteq> [] \<and> (case re_url env u of None \<Rightarrow> False | Some (p, _) \<Rightarrow> p = ''https:'' \<or> p = ''http:'')
      | _ \<Rightarrow> False)"

definition valid_urls :: "receipt_env \<Rightarrow> json \<Rightarrow> bool" where
  "valid_urls env v \<longleftrightarrow> (case v of JArr us \<Rightarrow> list_all (web_url env) us | _ \<Rightarrow> False)"

fun ends_in :: "string \<Rightarrow> string \<Rightarrow> bool" where
  "ends_in p [] \<longleftrightarrow> p = []"
| "ends_in p (c # cs) \<longleftrightarrow> p = c # cs \<or> ends_in p cs"

definition github_host :: "string \<Rightarrow> bool" where
  "github_host h \<longleftrightarrow>
     (let l = map to_lower h in
      l = ''github.com'' \<or> ends_in ''.github.com'' l \<or>
      l = ''githubusercontent.com'' \<or> ends_in ''.githubusercontent.com'' l)"

text \<open>The host of each URL; where \<open>new URL\<close> would throw, the URLs were checked before.\<close>

definition on_github :: "receipt_env \<Rightarrow> string \<Rightarrow> bool" where
  "on_github env u \<longleftrightarrow> (case re_url env u of None \<Rightarrow> False | Some (_, h) \<Rightarrow> github_host h)"

definition github_urls :: "receipt_env \<Rightarrow> json \<Rightarrow> bool" where
  "github_urls env v \<longleftrightarrow> list_all (on_github env) (texts_of v)"

definition filled_text :: "json \<Rightarrow> bool" where
  "filled_text v \<longleftrightarrow> (case v of JStr s \<Rightarrow> s \<noteq> [] | _ \<Rightarrow> False)"

definition provider_name :: "json \<Rightarrow> bool" where
  "provider_name v \<longleftrightarrow> v = JStr ''github'' \<or> v = JStr ''google_drive''"

definition revision_from :: "receipt_env \<Rightarrow> json \<Rightarrow> json option" where
  "revision_from env v =
     (if \<not> is_object v then None
      else if \<not> provider_name (js_member ''provider'' v) \<or> \<not> filled_text (js_member ''id'' v) \<or>
        (case js_member ''committedAt'' v of JStr d \<Rightarrow> \<not> re_date env d | _ \<Rightarrow> True) \<or>
        \<not> valid_urls env (js_member ''urls'' v)
      then None else Some v)"

section \<open>The check\<close>

definition legacy_error :: "receipt_env \<Rightarrow> json \<Rightarrow> string option" where
  "legacy_error env receipt =
     (let urls = js_member ''urls'' receipt; top_urls = js_member ''githubUrls'' receipt in
      if js_member ''revision'' receipt \<noteq> JUndefined then Some ''revision is malformed''
      else if \<not> git_sha (js_member ''commitSha'' receipt) then Some ''durable revision is missing''
      else if urls \<noteq> JUndefined \<and> (\<not> valid_urls env urls \<or> \<not> github_urls env urls)
        then Some ''legacy provider URLs are malformed''
      else if top_urls \<noteq> JUndefined \<and> (\<not> valid_urls env top_urls \<or> \<not> github_urls env top_urls)
        then Some ''legacy GitHub URLs are malformed''
      else None)"

definition drive_error :: "receipt_env \<Rightarrow> json \<Rightarrow> json \<Rightarrow> string option" where
  "drive_error env receipt revision =
     (let top = js_member ''commitSha'' receipt; nested = js_member ''commitSha'' revision in
      if js_member ''githubUrls'' receipt \<noteq> JUndefined \<or> js_member ''githubUrls'' revision \<noteq> JUndefined
        then Some ''Google Drive receipt contains GitHub compatibility fields''
      else if list_ex (on_github env) (texts_of (js_member ''urls'' revision))
        then Some ''Google Drive receipt contains a GitHub URL''
      else if (top = JUndefined) \<noteq> (nested = JUndefined)
        then Some ''Google Drive Git commit provenance is incomplete''
      else if top \<noteq> JUndefined \<and> (\<not> git_sha top \<or> text_of nested = None \<or> nested \<noteq> top \<or> js_member ''id'' revision = top)
        then Some ''Google Drive Git commit provenance is malformed or inconsistent''
      else None)"

definition github_error :: "receipt_env \<Rightarrow> json \<Rightarrow> json \<Rightarrow> string option" where
  "github_error env receipt revision =
     (let i = js_member ''id'' revision; sha = js_member ''commitSha'' revision; top = js_member ''commitSha'' receipt;
          urls = js_member ''githubUrls'' revision; top_urls = js_member ''githubUrls'' receipt in
      if \<not> git_sha i \<or> text_of sha = None \<or> \<not> git_sha sha \<or> sha \<noteq> i \<or> text_of top = None \<or> top \<noteq> i \<or>
        \<not> valid_urls env urls \<or> \<not> github_urls env (js_member ''urls'' revision) \<or> \<not> github_urls env urls \<or>
        \<not> valid_urls env top_urls \<or> texts_of top_urls \<noteq> texts_of urls
      then Some ''GitHub revision provenance is malformed or inconsistent'' else None)"

definition durable_store_receipt_error :: "receipt_env \<Rightarrow> json \<Rightarrow> string option" where
  "durable_store_receipt_error env receipt =
     (if \<not> is_object receipt then Some ''store result is not an object''
      else case revision_from env (js_member ''revision'' receipt) of
        None \<Rightarrow> legacy_error env receipt
      | Some revision \<Rightarrow>
          let urls = js_member ''urls'' receipt in
          if \<not> valid_urls env urls \<or> texts_of urls \<noteq> texts_of (js_member ''urls'' revision)
            then Some ''top-level URLs do not match the durable revision''
          else if js_member ''provider'' revision = JStr ''google_drive'' then drive_error env receipt revision
          else github_error env receipt revision)"

definition assert_durable_store :: "receipt_env \<Rightarrow> json \<Rightarrow> string + unit" where
  "assert_durable_store env v =
     (case durable_store_receipt_error env v of
        None \<Rightarrow> Inr ()
      | Some e \<Rightarrow> Inl (''invalid durable store receipt: '' @ e))"

definition assert_durable_work :: "receipt_env \<Rightarrow> json \<Rightarrow> string + unit" where
  "assert_durable_work env v =
     (if \<not> is_object v then Inl ''invalid durable work receipt: work result is not an object''
      else if js_member ''committed'' v \<noteq> JBool True then Inr ()
      else case durable_store_receipt_error env v of
        None \<Rightarrow> Inr ()
      | Some e \<Rightarrow> Inl (''invalid durable work receipt: '' @ e))"

section \<open>What an accepted receipt proves\<close>

definition accepted :: "receipt_env \<Rightarrow> json \<Rightarrow> bool" where
  "accepted env v \<longleftrightarrow> durable_store_receipt_error env v = None"

text \<open>All URLs of the receipt.\<close>

definition receipt_urls :: "json \<Rightarrow> string list" where
  "receipt_urls v =
     (let revision = js_member ''revision'' v in
      texts_of (js_member ''urls'' v) @ texts_of (js_member ''githubUrls'' v) @
      texts_of (js_member ''urls'' revision) @ texts_of (js_member ''githubUrls'' revision))"

lemma revision_from_Some:
  "revision_from env v = Some r \<Longrightarrow> r = v \<and> is_object v \<and> provider_name (js_member ''provider'' v) \<and>
     filled_text (js_member ''id'' v) \<and> valid_urls env (js_member ''urls'' v)"
  by (auto simp: revision_from_def split: if_splits)

lemma texts_of_undefined [simp]: "texts_of JUndefined = []"
  by simp

lemma git_sha_iff: "git_sha v \<longleftrightarrow> (\<exists>s. v = JStr s \<and> length s = 40 \<and> list_all lower_hex s)"
  by (cases v) (auto simp: git_sha_def)

text \<open>
  An accepted receipt has one provider: either every URL of it is on GitHub and it names a commit, as its
  only commit and, where it has a revision, as the id of the revision; or it is a Drive revision, no URL of it is on GitHub, and
  a commit, where it has one, is not the id of the revision.
\<close>

definition github_receipt :: "receipt_env \<Rightarrow> json \<Rightarrow> bool" where
  "github_receipt env v \<longleftrightarrow>
     (\<exists>sha. js_member ''commitSha'' v = JStr sha \<and> git_sha (JStr sha) \<and> list_all (on_github env) (receipt_urls v) \<and>
        (js_member ''revision'' v \<noteq> JUndefined \<longrightarrow>
           js_member ''id'' (js_member ''revision'' v) = JStr sha \<and> js_member ''commitSha'' (js_member ''revision'' v) = JStr sha))"

definition drive_receipt :: "receipt_env \<Rightarrow> json \<Rightarrow> bool" where
  "drive_receipt env v \<longleftrightarrow>
     js_member ''provider'' (js_member ''revision'' v) = JStr ''google_drive'' \<and>
     list_all (\<lambda>u. \<not> on_github env u) (receipt_urls v) \<and>
     js_member ''commitSha'' v = js_member ''commitSha'' (js_member ''revision'' v) \<and>
     (js_member ''commitSha'' v = JUndefined \<or>
        git_sha (js_member ''commitSha'' v) \<and> js_member ''commitSha'' v \<noteq> js_member ''id'' (js_member ''revision'' v))"

lemma accepted_legacy:
  assumes "legacy_error env v = None" and "is_object v"
  shows "github_receipt env v"
  using assms
  by (auto simp: legacy_error_def github_receipt_def receipt_urls_def github_urls_def Let_def js_member_other git_sha_iff
      split: if_splits)

lemma accepted_github:
  assumes "github_error env v (js_member ''revision'' v) = None"
    and "texts_of (js_member ''urls'' v) = texts_of (js_member ''urls'' (js_member ''revision'' v))"
  shows "github_receipt env v"
  using assms
  by (auto simp: github_error_def github_receipt_def receipt_urls_def github_urls_def Let_def git_sha_iff
      split: if_splits)

lemma accepted_drive:
  assumes "drive_error env v (js_member ''revision'' v) = None"
    and "js_member ''provider'' (js_member ''revision'' v) = JStr ''google_drive''"
    and "texts_of (js_member ''urls'' v) = texts_of (js_member ''urls'' (js_member ''revision'' v))"
  shows "drive_receipt env v"
  using assms
  by (auto simp: drive_error_def drive_receipt_def receipt_urls_def list_all_iff list_ex_iff Let_def split: if_splits)

text \<open>
  An accepted store receipt proves one provenance: a GitHub receipt has one commit throughout and only
  GitHub URLs, a Drive receipt has no GitHub URL and never passes a commit off as the Drive revision.
\<close>

theorem receipt_has_one_provenance:
  assumes "assert_durable_store env v = Inr ()"
  shows "github_receipt env v \<longleftrightarrow> \<not> drive_receipt env v"
proof -
  from assms have e: "durable_store_receipt_error env v = None"
    by (simp add: assert_durable_store_def split: option.splits)
  then have obj: "is_object v" by (auto simp: durable_store_receipt_error_def split: if_splits)
  have "github_receipt env v \<or> drive_receipt env v"
  proof (cases "revision_from env (js_member ''revision'' v)")
    case None
    with e obj show ?thesis by (simp add: durable_store_receipt_error_def accepted_legacy)
  next
    case (Some r)
    with revision_from_Some [OF this] e obj show ?thesis
      by (auto simp: durable_store_receipt_error_def Let_def accepted_github accepted_drive split: if_splits)
  qed
  moreover have "\<not> drive_receipt env v" if "github_receipt env v"
    using that by (auto simp: github_receipt_def drive_receipt_def js_member_def)
  ultimately show ?thesis by blast
qed

definition demo_receipt_env :: receipt_env where
  "demo_receipt_env =
     \<lparr>re_url = (\<lambda>u. if u = ''https://github.com/a'' then Some (''https:'', ''github.com'') else None), re_date = (\<lambda>_. True)\<rparr>"

definition demo_receipt :: json where
  "demo_receipt = JObj [(''commitSha'', JStr (replicate 40 CHR ''a'')), (''urls'', JArr [JStr ''https://github.com/a''])]"

theorem receipt_has_one_provenance_witness:
  "github_receipt demo_receipt_env demo_receipt \<and> \<not> drive_receipt demo_receipt_env demo_receipt"
proof -
  have "assert_durable_store demo_receipt_env demo_receipt = Inr ()" by code_simp
  from receipt_has_one_provenance [OF this] show ?thesis
    by (simp add: drive_receipt_def demo_receipt_def js_member_def)
qed

end
