(* ===== verification/Media_Ingest.thy ===== *)
theory Media_Ingest
  imports Durable_Receipt Task_Jobs
begin

text \<open>
  The decisions and texts of a media job (packages/server/src/taskJobQueue.ts): what is done with an
  archived artifact, the entry that is captured from it, and the receipt of the job. Archiving,
  transcription and extraction are calls to the host; their answers are the arguments here.

  \<^item> The input of a job is its JSON value; a field of another type than the declared one reads as absent.
  \<^item> A reported duration is a whole number of seconds.
\<close>

section \<open>Fields of the input\<close>

definition text_field :: "string \<Rightarrow> json \<Rightarrow> string option" where
  "text_field k input = text_of (js_member k input)"

text \<open>The field where it is a nonempty text.\<close>

definition filled_field :: "string \<Rightarrow> json \<Rightarrow> string option" where
  "filled_field k input = (case text_field k input of None \<Rightarrow> None | Some s \<Rightarrow> if s = [] then None else Some s)"

definition field_or :: "string \<Rightarrow> string \<Rightarrow> json \<Rightarrow> string" where
  "field_or k d input = (case text_field k input of None \<Rightarrow> d | Some s \<Rightarrow> s)"

text \<open>A spread \<open>...(x ? {k: x} : {})\<close> of a value, by its truth in JavaScript.\<close>

fun js_truthy :: "json \<Rightarrow> bool" where
  "js_truthy JNull \<longleftrightarrow> False"
| "js_truthy JUndefined \<longleftrightarrow> False"
| "js_truthy (JBool b) \<longleftrightarrow> b"
| "js_truthy (JNum n) \<longleftrightarrow> n \<noteq> 0"
| "js_truthy (JStr s) \<longleftrightarrow> s \<noteq> []"
| "js_truthy _ \<longleftrightarrow> True"

definition spread :: "string \<Rightarrow> json \<Rightarrow> (string \<times> json) list" where
  "spread k v = (if js_truthy v then [(k, v)] else [])"

definition spread_opt :: "string \<Rightarrow> string option \<Rightarrow> (string \<times> json) list" where
  "spread_opt k v = (case v of None \<Rightarrow> [] | Some s \<Rightarrow> spread k (JStr s))"

section \<open>References and types\<close>

definition drive_prefixes :: "string list" where
  "drive_prefixes = [''drive://file/'', ''drive:'', ''google-drive:'', ''gdrive:'']"

definition is_drive_reference :: "string option \<Rightarrow> bool" where
  "is_drive_reference ref \<longleftrightarrow>
     (case ref of None \<Rightarrow> False | Some r \<Rightarrow> r \<noteq> [] \<and> list_ex (\<lambda>p. starts_with p r) drive_prefixes)"

definition hosted_rejection :: string where
  "hosted_rejection = ''Hosted Google Drive is archive/export-only and cannot be used as an ingest_memory source.''"

text \<open>\<open>hosted\<close>: the mode of the Drive authority of the settings, absent without settings.\<close>

definition admit_rejection :: "bool option \<Rightarrow> job_kind \<Rightarrow> json \<Rightarrow> string option" where
  "admit_rejection hosted kind input =
     (if kind = Kind_Media \<and> is_drive_reference (text_field ''bytesRef'' input) \<and> hosted = Some True
      then Some hosted_rejection else None)"

definition audio_type :: "string \<Rightarrow> bool" where
  "audio_type m \<longleftrightarrow> starts_with ''audio/'' m \<or> starts_with ''video/'' m"

definition extractable_type :: "string \<Rightarrow> bool" where
  "extractable_type m \<longleftrightarrow> starts_with ''image/'' m \<or> m = ''application/pdf''"

definition text_type :: "string \<Rightarrow> bool" where
  "text_type m \<longleftrightarrow> starts_with ''text/'' m \<or> m \<in> set [''application/json'', ''application/xml'', ''application/x-yaml'']"

definition alnum :: "char \<Rightarrow> bool" where
  "alnum c \<longleftrightarrow> (let n = of_char c :: nat in 48 \<le> n \<and> n \<le> 57 \<or> 65 \<le> n \<and> n \<le> 90 \<or> 97 \<le> n \<and> n \<le> 122)"

text \<open>The pattern drops a last dot with one to eight letters or digits after it.\<close>

definition strip_extension :: "string \<Rightarrow> string" where
  "strip_extension f =
     (let ext = takeWhile alnum (rev f); rest = dropWhile alnum (rev f);
          s = (if 1 \<le> length ext \<and> length ext \<le> 8 \<and> rest \<noteq> [] \<and> hd rest = CHR ''.'' then rev (tl rest) else f)
      in if s = [] then ''artifact'' else s)"

definition source_from_hint :: "string option \<Rightarrow> string" where
  "source_from_hint hint =
     (let h = (case hint of None \<Rightarrow> [] | Some s \<Rightarrow> map to_lower (js_trim s)) in
      if starts_with ''whatsapp'' h then ''whatsapp''
      else if starts_with ''telegram'' h then ''telegram''
      else if starts_with ''drive'' h then ''drive''
      else ''mcp'')"

section \<open>What is done with an artifact\<close>

record archived_media =
  am_uri :: string
  am_url :: "string option"
  am_sha :: string
  am_text :: string
  am_type :: string
  am_name :: string
  am_kind :: string

record extraction =
  ex_body :: string
  ex_provider :: string
  ex_kind :: string
  ex_name :: string
  ex_label :: string
  ex_status :: "string option"

datatype media_plan = Unavailable | Refused string | Transcribe | Extract_Artifact | Extracted extraction

definition two_hours :: int where "two_hours = 2 * 60 * 60"

definition over_two_hours :: "json \<Rightarrow> bool" where
  "over_two_hours input \<longleftrightarrow> (case js_member ''audioDurationSeconds'' input of JNum n \<Rightarrow> two_hours < n | _ \<Rightarrow> False)"

definition duration_text :: "json \<Rightarrow> string" where
  "duration_text input =
     (case js_member ''audioDurationSeconds'' input of JNum n \<Rightarrow> int_str n @ '' seconds'' | _ \<Rightarrow> ''more than 2 hours'')"

definition lines :: "string list \<Rightarrow> string" where
  "lines ls = join_with [CHR 0x0A] ls"

definition skipped_duration :: "json \<Rightarrow> archived_media \<Rightarrow> extraction" where
  "skipped_duration input a =
     \<lparr>ex_body = lines [
        ''This voice note was archived without transcription because it exceeds Zenod's 2-hour transcription limit.'',
        ''Reported audio duration: '' @ duration_text input @ ''.'',
        ''Use the raw audio archive link in this evidence entry for separate processing.''],
      ex_provider = ''not transcribed (2-hour duration limit)'', ex_kind = ''audio'',
      ex_name = strip_extension (am_name a) @ ''.archive-note.txt'', ex_label = ''Voice note'',
      ex_status = Some ''skipped_duration_limit''\<rparr>"

definition skipped_unavailable :: "archived_media \<Rightarrow> extraction" where
  "skipped_unavailable a =
     \<lparr>ex_body = lines [
        ''This voice note was archived without another transcription attempt because the authenticated channel reported transcription unavailable.'',
        ''Use the raw audio archive link in this evidence entry for separate processing.''],
      ex_provider = ''not transcribed (channel unavailable)'', ex_kind = ''audio'',
      ex_name = strip_extension (am_name a) @ ''.archive-note.txt'', ex_label = ''Voice note'',
      ex_status = Some ''skipped_unavailable''\<rparr>"

definition transcript_of :: "string \<Rightarrow> string \<Rightarrow> archived_media \<Rightarrow> extraction" where
  "transcript_of body provider a =
     \<lparr>ex_body = body, ex_provider = provider, ex_kind = ''audio'',
      ex_name = strip_extension (am_name a) @ ''.transcript.txt'', ex_label = ''Voice note'',
      ex_status = Some ''transcribed''\<rparr>"

definition supplied_provider :: "json \<Rightarrow> string" where
  "supplied_provider input =
     (let p = js_trim (field_or ''transcriptionProvider'' [] input)
      in if p = [] then ''authenticated channel transcription'' else p)"

definition extracted_visual :: "string \<Rightarrow> string option \<Rightarrow> string \<Rightarrow> archived_media \<Rightarrow> extraction" where
  "extracted_visual body provider kind a =
     \<lparr>ex_body = body, ex_provider = (case provider of None \<Rightarrow> kind | Some p \<Rightarrow> p),
      ex_kind = (if kind = ''pdf'' then ''pdf'' else ''image''),
      ex_name = strip_extension (am_name a) @ ''.extraction.txt'',
      ex_label = (if kind = ''pdf'' then ''PDF/document'' else ''Screenshot/image''), ex_status = None\<rparr>"

definition plain_text :: "archived_media \<Rightarrow> extraction" where
  "plain_text a =
     \<lparr>ex_body = js_trim (am_text a), ex_provider = ''plain text'', ex_kind = ''text'',
      ex_name = strip_extension (am_name a) @ ''.extraction.txt'', ex_label = ''Document/link'', ex_status = None\<rparr>"

definition can_transcribe :: "json \<Rightarrow> archived_media \<Rightarrow> bool" where
  "can_transcribe input a \<longleftrightarrow> text_field ''mediaType'' input = Some ''audio'' \<or> audio_type (am_type a)"

definition can_read_text :: "json \<Rightarrow> archived_media \<Rightarrow> bool" where
  "can_read_text input a \<longleftrightarrow>
     text_field ''mediaType'' input \<in> {Some ''document'', Some ''link''} \<or> text_type (am_type a)"

text \<open>What happens before the engine is asked for.\<close>

definition early_route :: "json \<Rightarrow> archived_media \<Rightarrow> media_plan option" where
  "early_route input a =
     (if \<not> can_transcribe input a \<and> \<not> extractable_type (am_type a) \<and> \<not> can_read_text input a then Some Unavailable
      else if text_field ''transcriptionDisposition'' input = Some ''skip_duration_limit'' \<and> \<not> over_two_hours input
        then Some (Refused ''skip_duration_limit requires a reported audio duration over 2 hours'')
      else None)"

definition media_route :: "json \<Rightarrow> archived_media \<Rightarrow> media_plan" where
  "media_route input a =
     (let disposition = text_field ''transcriptionDisposition'' input in
      if can_transcribe input a then
        if disposition = Some ''skip_duration_limit'' then Extracted (skipped_duration input a)
        else if disposition = Some ''skip_unavailable'' then Extracted (skipped_unavailable a)
        else if js_trim (field_or ''providedTranscript'' [] input) \<noteq> []
          then Extracted (transcript_of (field_or ''providedTranscript'' [] input) (supplied_provider input) a)
        else Transcribe
      else if extractable_type (am_type a) then Extract_Artifact
      else if js_trim (am_text a) = [] then Refused (''text extraction failed for '' @ am_name a @ '': no text found'')
      else Extracted (plain_text a))"

section \<open>The captured entry\<close>

record capture_handle =
  ch_uri :: string
  ch_url :: "string option"

definition content_type_of :: "json \<Rightarrow> extraction \<Rightarrow> string" where
  "content_type_of input e = field_or ''contentType'' (field_or ''mediaType'' (ex_kind e) input) input"

definition label_of :: "json \<Rightarrow> extraction \<Rightarrow> string" where
  "label_of input e =
     (if ex_kind e = ''audio'' \<and> content_type_of input e \<noteq> ''voice_note'' then ''Audio'' else ex_label e)"

definition how_read :: "extraction \<Rightarrow> string" where
  "how_read e =
     (if ex_status e = Some ''skipped_duration_limit''
        then ''Transcription: skipped because the audio exceeds Zenod's 2-hour transcription limit.''
      else if ex_status e = Some ''skipped_unavailable''
        then ''Transcription: skipped because the authenticated channel reported it unavailable.''
      else (if ex_kind e = ''audio'' then ''Transcribed'' else ''Extracted'') @ '' by '' @ ex_provider e @ ''.'')"

definition optional_line :: "string \<Rightarrow> string option \<Rightarrow> string list" where
  "optional_line prefix v = (case v of None \<Rightarrow> [] | Some s \<Rightarrow> if s = [] then [] else [prefix @ s])"

definition capture_header :: "json \<Rightarrow> archived_media \<Rightarrow> extraction \<Rightarrow> capture_handle \<Rightarrow> string list" where
  "capture_header input a e h =
     [label_of input e @ '' '' @ [CHR 0x22] @ am_name a @ [CHR 0x22] @ '' ingested through Zenod media seam.'',
      ''Raw artifact: '' @ am_uri a] @
     optional_line ''Raw artifact URL: '' (am_url a) @
     [''Raw artifact sha256: '' @ am_sha a, ''Media type: '' @ am_type a,
      ''Source: '' @ field_or ''sourceHint'' (am_kind a) input] @
     optional_line ''Source timestamp: '' (text_field ''senderTimestamp'' input) @
     [how_read e, ''Extraction artifact: '' @ ch_uri h] @
     optional_line ''User context: '' (text_field ''contentHint'' input) @ [[]]"

definition capture_content :: "json \<Rightarrow> archived_media \<Rightarrow> extraction \<Rightarrow> capture_handle \<Rightarrow> string" where
  "capture_content input a e h = lines (capture_header input a e h @ [ex_body e])"

definition semantic_range :: "string \<Rightarrow> extraction \<Rightarrow> int \<times> int" where
  "semantic_range content e = (int (length content) - int (length (ex_body e)), int (length content))"

definition filing_hints :: "json \<Rightarrow> json list" where
  "filing_hints input =
     (case js_member ''mediaHints'' input of JArr hs \<Rightarrow> hs | _ \<Rightarrow> []) @
     (case filled_field ''contentHint'' input of None \<Rightarrow> [] | Some s \<Rightarrow> [JStr (''User context: '' @ take 2000 s)])"

definition range_json :: "int \<times> int \<Rightarrow> json" where
  "range_json r = JObj [(''start'', JNum (fst r)), (''end'', JNum (snd r))]"

definition store_input :: "json \<Rightarrow> archived_media \<Rightarrow> extraction \<Rightarrow> capture_handle \<Rightarrow> string \<Rightarrow> json" where
  "store_input input a e h identity =
     (let content = capture_content input a e h in
      JObj ([(''content'', JStr content), (''semanticRange'', range_json (semantic_range content e)),
             (''source'', JStr (source_from_hint (text_field ''sourceHint'' input))), (''verbatim'', JBool True),
             (''contentType'', JStr (content_type_of input e))] @
            spread_opt ''capturedAt'' (text_field ''senderTimestamp'' input) @
            [(''hints'', JArr (filing_hints input)), (''sourceId'', JStr identity)]))"

text \<open>The background job that files the entry.\<close>

definition enrichment_input :: "json \<Rightarrow> archived_media \<Rightarrow> extraction \<Rightarrow> capture_handle \<Rightarrow> string \<Rightarrow> json \<Rightarrow> json" where
  "enrichment_input input a e h identity stored =
     (let content = capture_content input a e h in
      JObj ([(''content'', JStr content), (''semanticRange'', range_json (semantic_range content e)),
             (''source'', JStr (source_from_hint (text_field ''sourceHint'' input))),
             (''hints'', JArr (filing_hints input)), (''verbatim'', JBool True),
             (''contentType'', JStr (content_type_of input e))] @
            spread_opt ''capturedAt'' (text_field ''senderTimestamp'' input) @
            [(''sourceId'', JStr identity), (''evidenceRef'', js_member ''evidenceRef'' stored)]))"

definition enrichment_key :: "string \<Rightarrow> string" where
  "enrichment_key identity = ''enrich:'' @ identity"

text \<open>The identity of the capture: the key of its job, or the id of a job without a key.\<close>

definition capture_identity :: "task_job \<Rightarrow> string" where
  "capture_identity j = (case tj_key j of None \<Rightarrow> tj_id j | Some k \<Rightarrow> k)"

section \<open>Receipts\<close>

definition receipt_source :: "json \<Rightarrow> json" where
  "receipt_source input = JObj
     (spread ''filename'' (js_member ''filename'' input) @ spread ''sourceHint'' (js_member ''sourceHint'' input) @
      spread ''senderTimestamp'' (js_member ''senderTimestamp'' input) @
      spread ''contentHint'' (js_member ''contentHint'' input) @ spread ''hints'' (js_member ''mediaHints'' input))"

definition empty_digest :: json where
  "empty_digest = JObj [(''evidenceRef'', JNull), (''pagesTouched'', JArr []), (''revision'', JNull), (''urls'', JArr [])]"

definition unavailable_receipt :: "json \<Rightarrow> archived_media option \<Rightarrow> json" where
  "unavailable_receipt input a =
     (let media = text_field ''mediaType'' input in JObj
      [(''status'', JStr ''error''), (''code'', JStr ''media_ingest_processor_unavailable''),
       (''message'', JStr (''Media ingest MCP seam accepted the job, but raw artifact archive, '' @
          ''transcription/OCR/extraction, and digest processors are not wired in this instance yet. '' @
          ''Implement #660-#662 adapters before treating media ingest as green.'')),
       (''mediaType'', JStr (field_or ''mediaType'' ''unknown'' input)), (''source'', receipt_source input),
       (''rawArtifact'', JObj [(''handle'', json_opt (map_option am_uri a)),
          (''archiveUrl'', json_opt (map_option (\<lambda>x. case am_url x of None \<Rightarrow> am_uri x | Some u \<Rightarrow> u) a))]),
       (''extraction'', JObj [(''handle'', JNull),
          (''transcriptHandle'', if media = Some ''audio'' then JNull else JUndefined),
          (''ocrHandle'', if media \<in> {Some ''screenshot'', Some ''image''} then JNull else JUndefined),
          (''provider'', JNull)]),
       (''digest'', empty_digest),
       (''nextAdapterIssues'', JArr [JStr ''https://github.com/zenod-ai/zenod/issues/660'',
          JStr ''https://github.com/zenod-ai/zenod/issues/661'', JStr ''https://github.com/zenod-ai/zenod/issues/662''])])"

text \<open>\<open>archived_message\<close> is the text for an original that was kept while the allowance is used up.\<close>

definition exhausted_receipt :: "json \<Rightarrow> archived_media option \<Rightarrow> string \<Rightarrow> string \<Rightarrow> json" where
  "exhausted_receipt input a message archived_message = JObj
     [(''status'', JStr ''done''), (''code'', JStr ''ai_allowance_exhausted''),
      (''message'', JStr (if a = None then message else archived_message)),
      (''mediaType'', JStr (field_or ''mediaType'' ''unknown'' input)), (''source'', receipt_source input),
      (''rawArtifact'', JObj [(''handle'', json_opt (map_option am_uri a)),
         (''archiveUrl'', json_opt (Option.bind a am_url))]),
      (''extraction'', JObj [(''handle'', JNull), (''provider'', JNull)]),
      (''digest'', empty_digest)]"

definition done_message :: "extraction \<Rightarrow> bool \<Rightarrow> string" where
  "done_message e enriched =
     (if ex_status e = Some ''skipped_duration_limit''
        then ''Audio archived without transcription because it exceeds the 2-hour limit; a Zenod entry pointing to the audio was filed.''
      else if ex_status e = Some ''skipped_unavailable''
        then ''Audio archived without another transcription attempt; a Zenod entry pointing to the audio was filed.''
      else if enriched
        then ''Media artifact and extraction captured in Zenod; semantic filing continues in the background.''
      else ''Media artifact archived, extracted, digested, filed, and durably saved.'')"

definition unless_undefined :: "string \<Rightarrow> json \<Rightarrow> (string \<times> json) list" where
  "unless_undefined k v = (if v = JUndefined then [] else [(k, v)])"

definition js_or :: "json \<Rightarrow> json \<Rightarrow> json" where
  "js_or v d = (if v = JNull \<or> v = JUndefined then d else v)"

definition media_receipt ::
  "json \<Rightarrow> archived_media \<Rightarrow> extraction \<Rightarrow> capture_handle \<Rightarrow> json \<Rightarrow> string option \<Rightarrow> json" where
  "media_receipt input a e h stored enrichment =
     (let s = (\<lambda>k. js_member k stored) in JObj
      [(''status'', JStr ''done''), (''message'', JStr (done_message e (enrichment \<noteq> None))),
       (''mediaType'', JStr (field_or ''mediaType'' (ex_kind e) input)), (''source'', receipt_source input),
       (''rawArtifact'', JObj [(''handle'', JStr (am_uri a)),
          (''archiveUrl'', JStr (case am_url a of None \<Rightarrow> am_uri a | Some u \<Rightarrow> u)), (''sha256'', JStr (am_sha a))]),
       (''extraction'', JObj ([(''handle'', JStr (ch_uri h)),
          (''archiveUrl'', JStr (case ch_url h of None \<Rightarrow> ch_uri h | Some u \<Rightarrow> u)),
          (''transcriptHandle'', if ex_kind e = ''audio'' then JStr (ch_uri h) else JUndefined),
          (''ocrHandle'', if ex_kind e = ''image'' then JStr (ch_uri h) else JUndefined),
          (''provider'', JStr (ex_provider e))] @ spread_opt ''transcriptionStatus'' (ex_status e) @
          unless_undefined ''durationSeconds'' (js_member ''audioDurationSeconds'' input))),
       (''digest'', JObj ([(''evidenceRef'', s ''evidenceRef'')] @ spread ''evidenceUrl'' (s ''evidenceUrl'') @
          [(''pagesTouched'', s ''pagesTouched'')] @ spread ''pageUrls'' (s ''pageUrls'') @
          [(''revision'', js_or (s ''revision'') JNull), (''urls'', js_or (s ''urls'') (JArr []))] @
          unless_undefined ''commitSha'' (s ''commitSha'') @ unless_undefined ''githubUrls'' (s ''githubUrls'') @
          spread ''filing'' (s ''filing'') @ spread_opt ''enrichmentJobId'' enrichment))])"

section \<open>The marked range is the extracted text\<close>

lemma join_with_snoc: "xs \<noteq> [] \<Longrightarrow> join_with sep (xs @ [y]) = join_with sep xs @ sep @ y"
  by (induction sep xs rule: join_with.induct) auto

definition slice :: "int \<times> int \<Rightarrow> string \<Rightarrow> string" where
  "slice r s = take (nat (snd r) - nat (fst r)) (drop (nat (fst r)) s)"

lemma capture_header_filled: "capture_header input a e h \<noteq> []"
  unfolding capture_header_def append_Cons by (rule list.distinct(2))

lemma capture_content_ends:
  "capture_content input a e h = (join_with [CHR 0x0A] (capture_header input a e h) @ [CHR 0x0A]) @ ex_body e"
  by (simp only: capture_content_def lines_def join_with_snoc [OF capture_header_filled] append_assoc)

text \<open>
  The range that is captured with a media entry, and passed on to the job that files it, marks exactly
  the extracted text, whatever the texts before it are.
\<close>

theorem semantic_range_is_the_body:
  "slice (semantic_range (capture_content input a e h) e) (capture_content input a e h) = ex_body e"
proof -
  obtain header where "capture_content input a e h = header @ ex_body e"
    by (rule that [OF capture_content_ends])
  then show ?thesis by (simp add: slice_def semantic_range_def nat_diff_distrib)
qed

end
