(* ===== verification/Job_Lanes.thy ===== *)
theory Job_Lanes
  imports Media_Ingest
begin

text \<open>
  The worker of the job queue (packages/server/src/taskJobQueue.ts) and its self-healing of an interrupted
  filing (packages/server/src/vaultRecovery.ts), over the job store of Task_Jobs.

  \<^item> One instance of \<open>TaskJobQueue\<close> runs two lanes, one for conversations and one for everything else. A lane
    that drains is a task; between two awaits a task runs alone, and at an await every other move can come in
    between. A task is its id, the call to the host it waits for (none where an inner function has settled and
    only its continuation has to run) and an activity: the place in the code and the values it still needs.
  \<^item> \<open>host\<close> is what the surroundings give to one uninterrupted run: the time, the answer of
    \<open>aiAllowanceBlock\<close>, the random claim token of each lane and the id of a job that is enqueued. A run claims at
    most one job per lane and enqueues at most one job.
  \<^item> The activity slots \<open>activeChatDrain\<close>, \<open>activeDurableDrain\<close> and \<open>recovery\<close> hold the id of the task whose
    promise they hold; they are cleared in a later run, when the \<open>finally\<close> of the promise comes.
  \<^item> \<open>clearTimeout\<close> removes a timer, and a timer that is set while another is pending does not remove that one.
  \<^item> What the host throws is an \<open>Error\<close>: its message, and whether it is an exceeded allowance or a publication
    failure that can be retried. Logging and the notification of subscribers have no effect on the queue.
\<close>

section \<open>The host\<close>

datatype lane = Chat_Lane | Durable_Lane

record thrown =
  th_message :: string
  th_allowance :: bool
  th_retryable :: bool

definition plain_error :: "string \<Rightarrow> thrown" where
  "plain_error m = \<lparr>th_message = m, th_allowance = False, th_retryable = False\<rparr>"

text \<open>The optional methods an engine has.\<close>

record engine =
  en_enrich :: bool
  en_capture :: bool
  en_sweep :: bool
  en_inspect :: bool
  en_head :: bool
  en_rebuild :: bool

record filing_state =
  fs_interrupted :: bool
  fs_unpublished_head :: bool
  fs_receipts :: "string list"

datatype host_call =
  Get_Engine
| Run_Chat string string string
| Run_Tasking string string
| Run_Store json
| Run_Enrich json
| Run_Work json
| Run_Sweep "string list"
| Archive_Media json
| Run_Transcription archived_media
| Run_Extraction archived_media
| Archive_Extraction extraction
| Run_Capture bool json
| Notify_Capture json
| Inspect_Filing
| Publish_Head
| Rebuild_Input string
| Sleep_Poll

datatype answer =
  Got_Engine engine
| Got json
| Got_Media archived_media
| Got_Text string "string option" string
| Got_Handle capture_handle
| Got_Filing filing_state
| Got_Input "json option"
| Got_Nothing
| Threw thrown

text \<open>The answers a call can have.\<close>

fun fits :: "host_call \<Rightarrow> answer \<Rightarrow> bool" where
  "fits c (Threw _) \<longleftrightarrow> c \<noteq> Sleep_Poll"
| "fits c (Got_Engine _) \<longleftrightarrow> c = Get_Engine"
| "fits c (Got_Media _) \<longleftrightarrow> (case c of Archive_Media _ \<Rightarrow> True | _ \<Rightarrow> False)"
| "fits c (Got_Text _ _ _) \<longleftrightarrow> (case c of Run_Transcription _ \<Rightarrow> True | Run_Extraction _ \<Rightarrow> True | _ \<Rightarrow> False)"
| "fits c (Got_Handle _) \<longleftrightarrow> (case c of Archive_Extraction _ \<Rightarrow> True | _ \<Rightarrow> False)"
| "fits c (Got_Filing _) \<longleftrightarrow> c = Inspect_Filing"
| "fits c (Got_Input _) \<longleftrightarrow> (case c of Rebuild_Input _ \<Rightarrow> True | _ \<Rightarrow> False)"
| "fits c Got_Nothing \<longleftrightarrow> c \<in> {Sleep_Poll, Publish_Head} \<or> (case c of Notify_Capture _ \<Rightarrow> True | _ \<Rightarrow> False)"
| "fits c (Got _) \<longleftrightarrow>
     (case c of Run_Chat _ _ _ \<Rightarrow> True | Run_Tasking _ _ \<Rightarrow> True | Run_Store _ \<Rightarrow> True | Run_Enrich _ \<Rightarrow> True
        | Run_Work _ \<Rightarrow> True | Run_Sweep _ \<Rightarrow> True | Run_Capture _ _ \<Rightarrow> True | _ \<Rightarrow> False)"

record lane_config =
  lc_store :: job_store
  lc_hosted :: "bool option"
  lc_env :: receipt_env

record host =
  ho_now :: int
  ho_block :: "(string \<times> string) option"
  ho_token :: "lane \<Rightarrow> string"
  ho_id :: string

section \<open>The state\<close>

datatype process_frame =
  P_Engine
| P_Model
| P_Notified
| P_Sweep_Engine
| P_Sweeping
| P_Swept json
| P_Threw thrown
| P_Over string string
| P_Archive
| P_Media_Engine archived_media
| P_Text engine archived_media
| P_Handle engine archived_media extraction
| P_Captured engine archived_media extraction capture_handle
| P_Media_Done json

datatype recovery_frame =
  R_Engine
| R_First engine
| R_Head engine "string list"
| R_Input engine string "string list"
| R_Poll engine int
| R_Slept engine int

datatype activity =
  Processing lane task_job process_frame
| Between lane
| Settled lane
| Recovering recovery_frame
| Recovered

type_synonym lane_task = "nat \<times> host_call option \<times> activity"

datatype happening = Called host_call | Recovery_Started int

record job_queue =
  jq_rows :: jobs
  jq_closed :: bool
  jq_chat :: "nat option"
  jq_durable :: "nat option"
  jq_timer :: "nat option"
  jq_timers :: "(nat \<times> int) list"
  jq_check :: "int option"
  jq_recovery :: "nat option"
  jq_last_recovery :: int
  jq_tasks :: "lane_task list"
  jq_next :: nat
  jq_log :: "happening list"

definition new_job_queue :: "jobs \<Rightarrow> job_queue" where
  "new_job_queue rows =
     \<lparr>jq_rows = rows, jq_closed = False, jq_chat = None, jq_durable = None, jq_timer = None, jq_timers = [],
      jq_check = None, jq_recovery = None, jq_last_recovery = 0, jq_tasks = [], jq_next = 0, jq_log = []\<rparr>"

fun slot :: "lane \<Rightarrow> job_queue \<Rightarrow> nat option" where
  "slot Chat_Lane q = jq_chat q"
| "slot Durable_Lane q = jq_durable q"

fun set_slot :: "lane \<Rightarrow> nat option \<Rightarrow> job_queue \<Rightarrow> job_queue" where
  "set_slot Chat_Lane v q = q\<lparr>jq_chat := v\<rparr>"
| "set_slot Durable_Lane v q = q\<lparr>jq_durable := v\<rparr>"

fun lane_kinds :: "lane \<Rightarrow> job_kind list" where
  "lane_kinds Chat_Lane = [Kind_Chat]"
| "lane_kinds Durable_Lane = [Kind_Task, Kind_Work, Kind_Store, Kind_Media, Kind_Enrich, Kind_Sweep]"

text \<open>How an uninterrupted run of a task ends: it waits for the host, or its continuation is due.\<close>

datatype outcome = Waits host_call activity | Goes activity

fun parked :: "nat \<Rightarrow> outcome \<times> job_queue \<Rightarrow> job_queue" where
  "parked n (Waits c a, q) = q\<lparr>jq_tasks := jq_tasks q @ [(n, Some c, a)], jq_log := jq_log q @ [Called c]\<rparr>"
| "parked n (Goes a, q) = q\<lparr>jq_tasks := jq_tasks q @ [(n, None, a)]\<rparr>"

section \<open>Results of a job\<close>

definition claim_of :: "task_job \<Rightarrow> job_claim" where
  "claim_of j = \<lparr>cl_id = tj_id j, cl_token = tj_token j\<rparr>"

definition done_patch :: "json \<Rightarrow> job_patch" where
  "done_patch v = \<lparr>jp_status = Some Job_Done, jp_result = Some (Some v), jp_error = None\<rparr>"

definition error_patch :: "string \<Rightarrow> job_patch" where
  "error_patch m = \<lparr>jp_status = Some Job_Error, jp_result = None, jp_error = Some (Some m)\<rparr>"

definition written :: "bool \<times> jobs \<Rightarrow> job_queue \<Rightarrow> job_queue" where
  "written x q = q\<lparr>jq_rows := snd x\<rparr>"

definition finish_job :: "lane_config \<Rightarrow> host \<Rightarrow> task_job \<Rightarrow> json \<Rightarrow> job_queue \<Rightarrow> job_queue" where
  "finish_job cfg w j v q = written (update_claimed (lc_store cfg) (claim_of j) (done_patch v) (ho_now w) (jq_rows q)) q"

section \<open>Recovery requests\<close>

definition recovery_cooldown :: int where "recovery_cooldown = 5 * 60000"

definition request_recovery :: "host \<Rightarrow> job_queue \<Rightarrow> job_queue" where
  "request_recovery w q =
     (if jq_closed q \<or> jq_recovery q \<noteq> None \<or> ho_now w - jq_last_recovery q < recovery_cooldown then q
      else parked (jq_next q) (Waits Get_Engine (Recovering R_Engine),
             q\<lparr>jq_recovery := Some (jq_next q), jq_last_recovery := ho_now w, jq_next := jq_next q + 1,
               jq_log := jq_log q @ [Recovery_Started (ho_now w)]\<rparr>))"

section \<open>One job\<close>

text \<open>The \<open>catch\<close> of \<open>process\<close>.\<close>

definition recovery_pending :: string where "recovery_pending = ''filing_recovery_pending''"

definition reply_json :: "string \<Rightarrow> json" where
  "reply_json m = JObj [(''text'', JStr m), (''sources'', JArr [])]"

definition fail_job :: "lane_config \<Rightarrow> host \<Rightarrow> task_job \<Rightarrow> thrown \<Rightarrow> job_queue \<Rightarrow> job_queue" where
  "fail_job cfg w j th q =
     (let s = lc_store cfg; c = claim_of j; now = ho_now w;
          answered = update_claimed s c (done_patch (reply_json (th_message th))) now (jq_rows q)
      in if tj_kind j = Kind_Chat \<and> th_allowance th \<and> fst answered then written answered q
         else
           let q1 = (if tj_kind j = Kind_Chat \<and> th_allowance th then written answered q else q);
               q2 = (if th_message th = recovery_pending then request_recovery w q1 else q1);
               refiled = resume_publication_failure s c (th_message th) now (jq_rows q2)
           in if tj_kind j = Kind_Enrich \<and> th_retryable th \<and> fst refiled then written refiled q2
              else
                let q3 = (if tj_kind j = Kind_Enrich \<and> th_retryable th then written refiled q2 else q2)
                in written (update_claimed s c (error_patch (th_message th)) now (jq_rows q3)) q3)"

definition failed :: "lane_config \<Rightarrow> host \<Rightarrow> lane \<Rightarrow> task_job \<Rightarrow> thrown \<Rightarrow> job_queue \<Rightarrow> outcome \<times> job_queue" where
  "failed cfg w l j th q = (Goes (Between l), fail_job cfg w j th q)"

definition finished :: "lane_config \<Rightarrow> host \<Rightarrow> lane \<Rightarrow> task_job \<Rightarrow> json \<Rightarrow> job_queue \<Rightarrow> outcome \<times> job_queue" where
  "finished cfg w l j v q = (Goes (Between l), finish_job cfg w j v q)"

text \<open>\<open>process\<close> up to its first await.\<close>

definition over_allowance ::
  "lane_config \<Rightarrow> host \<Rightarrow> lane \<Rightarrow> task_job \<Rightarrow> string \<Rightarrow> string \<Rightarrow> job_queue \<Rightarrow> outcome \<times> job_queue" where
  "over_allowance cfg w l j m archived q =
     (if tj_kind j = Kind_Chat then finished cfg w l j (reply_json m) q
      else if tj_kind j = Kind_Media \<and> lc_hosted cfg \<noteq> None then
        if admit_rejection (lc_hosted cfg) (tj_kind j) (tj_input j) = None
        then (Waits (Archive_Media (tj_input j)) (Processing l j (P_Over m archived)), q)
        else finished cfg w l j (exhausted_receipt (tj_input j) None m archived) q
      else (Goes (Processing l j (P_Threw \<lparr>th_message = m, th_allowance = True, th_retryable = False\<rparr>)), q))"

definition process :: "lane_config \<Rightarrow> host \<Rightarrow> lane \<Rightarrow> task_job \<Rightarrow> job_queue \<Rightarrow> outcome \<times> job_queue" where
  "process cfg w l j q =
     (if tj_kind j = Kind_Sweep then (Waits Get_Engine (Processing l j P_Sweep_Engine), q)
      else case ho_block w of
        Some (m, archived) \<Rightarrow> over_allowance cfg w l j m archived q
      | None \<Rightarrow>
          if tj_kind j = Kind_Media then
            (case admit_rejection (lc_hosted cfg) (tj_kind j) (tj_input j) of
               Some m \<Rightarrow> failed cfg w l j (plain_error m) q
             | None \<Rightarrow>
                 if lc_hosted cfg = None then finished cfg w l j (unavailable_receipt (tj_input j) None) q
                 else (Waits (Archive_Media (tj_input j)) (Processing l j P_Archive), q))
          else (Waits Get_Engine (Processing l j P_Engine), q))"

section \<open>Lanes\<close>

definition schedule_lease_recovery :: "lane_config \<Rightarrow> host \<Rightarrow> job_queue \<Rightarrow> job_queue" where
  "schedule_lease_recovery cfg w q =
     (if jq_closed q then q
      else case next_running_lease_expiry (lc_store cfg) (jq_rows q) of
        None \<Rightarrow> q
      | Some e \<Rightarrow>
          let delay = max 1 (e - ho_now w + 1) in
          q\<lparr>jq_timer := Some (jq_next q), jq_timers := jq_timers q @ [(jq_next q, ho_now w + delay)],
            jq_next := jq_next q + 1\<rparr>)"

definition clear_lease_timer :: "job_queue \<Rightarrow> job_queue" where
  "clear_lease_timer q =
     (case jq_timer q of
        None \<Rightarrow> q
      | Some t \<Rightarrow> q\<lparr>jq_timer := None, jq_timers := filter (\<lambda>x. fst x \<noteq> t) (jq_timers q)\<rparr>)"

text \<open>The head of the loop of \<open>drain\<close>.\<close>

definition next_job :: "lane_config \<Rightarrow> host \<Rightarrow> lane \<Rightarrow> job_queue \<Rightarrow> outcome \<times> job_queue" where
  "next_job cfg w l q =
     (case claim_next_queued (lc_store cfg) (ho_token w l) (ho_now w) (Some (lane_kinds l)) (jq_rows q) of
        (None, rows) \<Rightarrow> (Goes (Settled l), schedule_lease_recovery cfg w (q\<lparr>jq_rows := rows\<rparr>))
      | (Some j, rows) \<Rightarrow> process cfg w l j (q\<lparr>jq_rows := rows\<rparr>))"

definition drain :: "lane_config \<Rightarrow> host \<Rightarrow> lane \<Rightarrow> job_queue \<Rightarrow> outcome \<times> job_queue" where
  "drain cfg w l q =
     (let q1 = clear_lease_timer q in
      next_job cfg w l (q1\<lparr>jq_rows := recover_expired_running (lc_store cfg) (ho_now w) (jq_rows q1)\<rparr>))"

definition request_lane :: "lane_config \<Rightarrow> host \<Rightarrow> lane \<Rightarrow> job_queue \<Rightarrow> job_queue" where
  "request_lane cfg w l q =
     (if slot l q \<noteq> None then q
      else set_slot l (Some (jq_next q)) (parked (jq_next q) (drain cfg w l (q\<lparr>jq_next := jq_next q + 1\<rparr>))))"

definition request_drains :: "lane_config \<Rightarrow> host \<Rightarrow> job_queue \<Rightarrow> job_queue" where
  "request_drains cfg w q =
     (if jq_closed q then q else request_lane cfg w Durable_Lane (request_lane cfg w Chat_Lane q))"

definition queue_enqueue ::
  "lane_config \<Rightarrow> host \<Rightarrow> job_kind \<Rightarrow> json \<Rightarrow> string option \<Rightarrow> job_queue \<Rightarrow> (string + task_job) \<times> job_queue" where
  "queue_enqueue cfg w kind input key q =
     (if jq_closed q then (Inl ''TaskJobQueue is closed'', q)
      else case admit_rejection (lc_hosted cfg) kind input of
        Some m \<Rightarrow> (Inl m, q)
      | None \<Rightarrow>
          (case enqueue_job (lc_store cfg) (ho_id w) kind input key (ho_now w) (jq_rows q) of
             (Inl (Job_Failure m), rows) \<Rightarrow> (Inl m, q\<lparr>jq_rows := rows\<rparr>)
           | (Inl Job_Constraint, rows) \<Rightarrow> (Inl ''constraint failed'', q\<lparr>jq_rows := rows\<rparr>)
           | (Inr j, rows) \<Rightarrow> (Inr j, request_drains cfg w (q\<lparr>jq_rows := rows\<rparr>))))"

section \<open>The rest of a job\<close>

definition store_arguments :: "json \<Rightarrow> json" where
  "store_arguments input = JObj
     ([(''content'', JStr (field_or ''content'' [] input)), (''source'', JStr (field_or ''source'' ''mcp'' input))] @
      spread ''hints'' (js_member ''hints'' input) @ unless_undefined ''verbatim'' (js_member ''verbatim'' input) @
      spread ''contentType'' (js_member ''contentType'' input) @ spread ''capturedAt'' (js_member ''capturedAt'' input) @
      spread ''sourceId'' (js_member ''sourceId'' input))"

definition enrich_arguments :: "json \<Rightarrow> json" where
  "enrich_arguments input = JObj
     ([(''evidenceRef'', js_member ''evidenceRef'' input)] @ spread ''semanticRange'' (js_member ''semanticRange'' input) @
      [(''content'', JStr (field_or ''content'' [] input)), (''source'', JStr (field_or ''source'' ''mcp'' input))] @
      spread ''hints'' (js_member ''hints'' input) @ unless_undefined ''verbatim'' (js_member ''verbatim'' input) @
      spread ''contentType'' (js_member ''contentType'' input) @ spread ''capturedAt'' (js_member ''capturedAt'' input) @
      spread ''sourceId'' (js_member ''sourceId'' input))"

definition work_arguments :: "json \<Rightarrow> json" where
  "work_arguments input = JObj
     ((''objective'', JStr (field_or ''objective'' [] input)) # spread ''plan'' (js_member ''plan'' input))"

text \<open>The call of the engine for a job; a capture cannot be enriched without its evidence or without the method.\<close>

definition engine_call :: "task_job \<Rightarrow> engine \<Rightarrow> string + host_call" where
  "engine_call j en =
     (let input = tj_input j in
      case tj_kind j of
        Kind_Chat \<Rightarrow> Inr (Run_Chat (field_or ''text'' [] input) (field_or ''source'' ''mcp'' input)
          (field_or ''conversationKey'' ''mcp'' input))
      | Kind_Task \<Rightarrow> Inr (Run_Tasking (field_or ''text'' [] input) (field_or ''conversationKey'' ''mcp'' input))
      | Kind_Store \<Rightarrow> Inr (Run_Store (store_arguments input))
      | Kind_Enrich \<Rightarrow>
          if \<not> en_enrich en \<or> \<not> js_truthy (js_member ''evidenceRef'' input)
          then Inl ''capture-first enrichment is unavailable''
          else Inr (Run_Enrich (enrich_arguments input))
      | _ \<Rightarrow> Inr (Run_Work (work_arguments input)))"

text \<open>What is done with the result of the engine.\<close>

definition enrich_result :: "lane_config \<Rightarrow> host \<Rightarrow> lane \<Rightarrow> task_job \<Rightarrow> json \<Rightarrow> job_queue \<Rightarrow> outcome \<times> job_queue" where
  "enrich_result cfg w l j v q =
     (let s = lc_store cfg; c = claim_of j;
          pending = resume_pending s c v (ho_now w) (jq_rows q);
          q1 = written pending q;
          filed = update_claimed s c (done_patch v) (ho_now w) (jq_rows q1);
          completed = fst pending \<or> fst filed;
          q2 = (if fst pending then q1 else written filed q1)
      in if completed \<and> js_truthy (js_member ''notifyCaptureCompletion'' (tj_input j)) \<and>
            (case get_job s (tj_id j) (jq_rows q2) of None \<Rightarrow> False | Some k \<Rightarrow> tj_status k = Job_Done)
         then (Waits (Notify_Capture v) (Processing l j P_Notified), q2)
         else (Goes (Between l), q2))"

definition model_result :: "lane_config \<Rightarrow> host \<Rightarrow> lane \<Rightarrow> task_job \<Rightarrow> json \<Rightarrow> job_queue \<Rightarrow> outcome \<times> job_queue" where
  "model_result cfg w l j v q =
     (case tj_kind j of
        Kind_Chat \<Rightarrow> finished cfg w l j v q
      | Kind_Task \<Rightarrow> finished cfg w l j v q
      | Kind_Store \<Rightarrow>
          (case assert_durable_store (lc_env cfg) v of
             Inl m \<Rightarrow> failed cfg w l j (plain_error m) q
           | Inr _ \<Rightarrow> finished cfg w l j v q)
      | Kind_Enrich \<Rightarrow>
          (case assert_durable_store (lc_env cfg) v of
             Inl m \<Rightarrow> failed cfg w l j (plain_error m) q
           | Inr _ \<Rightarrow> enrich_result cfg w l j v q)
      | _ \<Rightarrow>
          (case assert_durable_work (lc_env cfg) v of
             Inl m \<Rightarrow> failed cfg w l j (plain_error m) q
           | Inr _ \<Rightarrow> finished cfg w l j v q))"

text \<open>\<open>runTreeSweep\<close>.\<close>

definition sweep_skipped :: "string \<Rightarrow> json" where
  "sweep_skipped why = JObj [(''kind'', JStr ''tree_sweep''), (''status'', JStr ''skipped''), (''reason'', JStr why),
     (''committed'', JBool False), (''revision'', JNull)]"

definition sweep_result :: "json \<Rightarrow> json" where
  "sweep_result v =
     (let report = js_member ''report'' v in
      if \<not> js_truthy (js_member ''hasTree'' report) then sweep_skipped ''vault has no Tree.md''
      else JObj [(''kind'', JStr ''tree_sweep''), (''status'', JStr ''swept''), (''counts'', js_member ''counts'' report),
        (''committed'', js_member ''committed'' v), (''revision'', js_or (js_member ''id'' (js_member ''revision'' v)) JNull)])"

text \<open>The capture of a media entry has its durable receipt, and its filing is enqueued.\<close>

definition media_captured ::
  "lane_config \<Rightarrow> host \<Rightarrow> lane \<Rightarrow> task_job \<Rightarrow> engine \<Rightarrow> archived_media \<Rightarrow> extraction \<Rightarrow> capture_handle \<Rightarrow> json \<Rightarrow> job_queue
    \<Rightarrow> outcome \<times> job_queue" where
  "media_captured cfg w l j en a e h stored q =
     (let input = tj_input j; identity = capture_identity j in
      case assert_durable_store (lc_env cfg) stored of
        Inl m \<Rightarrow> (Goes (Processing l j (P_Threw (plain_error m))), q)
      | Inr _ \<Rightarrow>
          if en_capture en \<and> en_enrich en then
            (case queue_enqueue cfg w Kind_Enrich (enrichment_input input a e h identity stored)
                (Some (enrichment_key identity)) q of
               (Inl m, q') \<Rightarrow> (Goes (Processing l j (P_Threw (plain_error m))), q')
             | (Inr k, q') \<Rightarrow>
                 (Goes (Processing l j (P_Media_Done (media_receipt input a e h stored (Some (tj_id k))))), q'))
          else (Goes (Processing l j (P_Media_Done (media_receipt input a e h stored None))), q))"

text \<open>
  The continuation of a job. An answer that does not fit its call leaves the task where it is; \<open>answer_task\<close>
  below gives none.
\<close>

definition rethrown :: "lane \<Rightarrow> task_job \<Rightarrow> thrown \<Rightarrow> job_queue \<Rightarrow> outcome \<times> job_queue" where
  "rethrown l j th q = (Goes (Processing l j (P_Threw th)), q)"

definition stays :: "lane \<Rightarrow> task_job \<Rightarrow> process_frame \<Rightarrow> job_queue \<Rightarrow> outcome \<times> job_queue" where
  "stays l j f q = (Goes (Processing l j f), q)"

definition routed :: "lane \<Rightarrow> task_job \<Rightarrow> engine \<Rightarrow> archived_media \<Rightarrow> media_plan \<Rightarrow> job_queue \<Rightarrow> outcome \<times> job_queue" where
  "routed l j en a route q =
     (case route of
        Unavailable \<Rightarrow> (Goes (Processing l j (P_Media_Done (unavailable_receipt (tj_input j) (Some a)))), q)
      | Refused m \<Rightarrow> rethrown l j (plain_error m) q
      | Transcribe \<Rightarrow> (Waits (Run_Transcription a) (Processing l j (P_Text en a)), q)
      | Extract_Artifact \<Rightarrow> (Waits (Run_Extraction a) (Processing l j (P_Text en a)), q)
      | Extracted e \<Rightarrow> (Waits (Archive_Extraction e) (Processing l j (P_Handle en a e)), q))"

definition extraction_of :: "json \<Rightarrow> archived_media \<Rightarrow> string \<Rightarrow> string option \<Rightarrow> string \<Rightarrow> extraction" where
  "extraction_of input a body provider kind =
     (if can_transcribe input a
      then transcript_of body (case provider of None \<Rightarrow> ''audio transcription'' | Some p \<Rightarrow> p) a
      else extracted_visual body provider kind a)"

fun continue_job ::
  "lane_config \<Rightarrow> host \<Rightarrow> lane \<Rightarrow> task_job \<Rightarrow> process_frame \<Rightarrow> answer \<Rightarrow> job_queue \<Rightarrow> outcome \<times> job_queue" where
  "continue_job cfg w l j P_Engine ans q =
     (case ans of
        Threw th \<Rightarrow> failed cfg w l j th q
      | Got_Engine en \<Rightarrow>
          (case engine_call j en of
             Inl m \<Rightarrow> failed cfg w l j (plain_error m) q
           | Inr c \<Rightarrow> (Waits c (Processing l j P_Model), q))
      | _ \<Rightarrow> stays l j P_Engine q)"
| "continue_job cfg w l j P_Model ans q =
     (case ans of Threw th \<Rightarrow> failed cfg w l j th q | Got v \<Rightarrow> model_result cfg w l j v q | _ \<Rightarrow> stays l j P_Model q)"
| "continue_job cfg w l j P_Notified ans q = (Goes (Between l), q)"
| "continue_job cfg w l j P_Sweep_Engine ans q =
     (case ans of
        Threw th \<Rightarrow> (Goes (Processing l j (P_Swept (sweep_skipped (''no vault: '' @ th_message th)))), q)
      | Got_Engine en \<Rightarrow>
          if \<not> en_sweep en then (Goes (Processing l j (P_Swept (sweep_skipped ''engine has no tree sweep''))), q)
          else (Waits (Run_Sweep (active_filing_refs (lc_store cfg) (jq_rows q))) (Processing l j P_Sweeping), q)
      | _ \<Rightarrow> stays l j P_Sweep_Engine q)"
| "continue_job cfg w l j P_Sweeping ans q =
     (case ans of
        Threw th \<Rightarrow> rethrown l j th q
      | Got v \<Rightarrow> (Goes (Processing l j (P_Swept (sweep_result v))), q)
      | _ \<Rightarrow> stays l j P_Sweeping q)"
| "continue_job cfg w l j (P_Swept v) ans q = finished cfg w l j v q"
| "continue_job cfg w l j (P_Threw th) ans q = failed cfg w l j th q"
| "continue_job cfg w l j (P_Over m archived) ans q =
     finished cfg w l j (exhausted_receipt (tj_input j) (case ans of Got_Media a \<Rightarrow> Some a | _ \<Rightarrow> None) m archived) q"
| "continue_job cfg w l j P_Archive ans q =
     (case ans of
        Threw th \<Rightarrow> failed cfg w l j th q
      | Got_Media a \<Rightarrow>
          (case early_route (tj_input j) a of
             Some (Refused m) \<Rightarrow> rethrown l j (plain_error m) q
           | Some _ \<Rightarrow> (Goes (Processing l j (P_Media_Done (unavailable_receipt (tj_input j) (Some a)))), q)
           | None \<Rightarrow> (Waits Get_Engine (Processing l j (P_Media_Engine a)), q))
      | _ \<Rightarrow> stays l j P_Archive q)"
| "continue_job cfg w l j (P_Media_Engine a) ans q =
     (case ans of
        Threw th \<Rightarrow> rethrown l j th q
      | Got_Engine en \<Rightarrow> routed l j en a (media_route (tj_input j) a) q
      | _ \<Rightarrow> stays l j (P_Media_Engine a) q)"
| "continue_job cfg w l j (P_Text en a) ans q =
     (case ans of
        Threw th \<Rightarrow> rethrown l j th q
      | Got_Text body provider kind \<Rightarrow> routed l j en a (Extracted (extraction_of (tj_input j) a body provider kind)) q
      | _ \<Rightarrow> stays l j (P_Text en a) q)"
| "continue_job cfg w l j (P_Handle en a e) ans q =
     (case ans of
        Threw th \<Rightarrow> rethrown l j th q
      | Got_Handle h \<Rightarrow>
          (Waits (Run_Capture (en_capture en) (store_input (tj_input j) a e h (capture_identity j)))
             (Processing l j (P_Captured en a e h)), q)
      | _ \<Rightarrow> stays l j (P_Handle en a e) q)"
| "continue_job cfg w l j (P_Captured en a e h) ans q =
     (case ans of
        Threw th \<Rightarrow> rethrown l j th q
      | Got stored \<Rightarrow> media_captured cfg w l j en a e h stored q
      | _ \<Rightarrow> stays l j (P_Captured en a e h) q)"
| "continue_job cfg w l j (P_Media_Done v) ans q = finished cfg w l j v q"

section \<open>The recovery of an interrupted filing\<close>

definition recovery_timeout :: int where "recovery_timeout = 30 * 60000"

text \<open>\<open>requeueFilingRecoveryBlocked\<close> and the call of \<open>kick\<close>, which may depend on the number of jobs.\<close>

definition retry_blocked :: "lane_config \<Rightarrow> host \<Rightarrow> bool \<Rightarrow> job_queue \<Rightarrow> job_queue" where
  "retry_blocked cfg w always q =
     (let x = requeue_filing_recovery_blocked (lc_store cfg) (ho_now w) (jq_rows q); q1 = q\<lparr>jq_rows := snd x\<rparr>
      in if always \<or> 0 < fst x then request_drains cfg w q1 else q1)"

definition revive_job :: "lane_config \<Rightarrow> host \<Rightarrow> task_job \<Rightarrow> job_queue \<Rightarrow> job_queue" where
  "revive_job cfg w j q =
     (if tj_status j \<in> {Job_Queued, Job_Running} then q
      else written (requeue_for_recovery (lc_store cfg) (tj_id j) (ho_now w) (jq_rows q)) q)"

text \<open>The loop over the receipts that have no published filing, then \<open>kick\<close> and the first poll.\<close>

fun recover_receipts :: "lane_config \<Rightarrow> host \<Rightarrow> engine \<Rightarrow> string list \<Rightarrow> job_queue \<Rightarrow> outcome \<times> job_queue" where
  "recover_receipts cfg w en [] q =
     (Waits Inspect_Filing (Recovering (R_Poll en (ho_now w + recovery_timeout))), request_drains cfg w q)"
| "recover_receipts cfg w en (ref # refs) q =
     (case enrichment_jobs_for (lc_store cfg) ref (jq_rows q) of
        j # _ \<Rightarrow> recover_receipts cfg w en refs (revive_job cfg w j q)
      | [] \<Rightarrow>
          if en_rebuild en then (Waits (Rebuild_Input ref) (Recovering (R_Input en ref refs)), q)
          else (Goes (Recovering (R_Input en ref refs)), q))"

definition recovery_key :: "string \<Rightarrow> string" where
  "recovery_key ref = ''enrich-recovery:'' @ ref"

text \<open>A call that throws ends the recovery.\<close>

fun continue_recovery :: "lane_config \<Rightarrow> host \<Rightarrow> recovery_frame \<Rightarrow> answer \<Rightarrow> job_queue \<Rightarrow> outcome \<times> job_queue" where
  "continue_recovery cfg w R_Engine ans q =
     (case ans of
        Got_Engine en \<Rightarrow>
          if en_inspect en then (Waits Inspect_Filing (Recovering (R_First en)), q) else (Goes Recovered, q)
      | _ \<Rightarrow> (Goes Recovered, q))"
| "continue_recovery cfg w (R_First en) ans q =
     (case ans of
        Got_Filing st \<Rightarrow>
          if \<not> fs_interrupted st then (Goes Recovered, retry_blocked cfg w False q)
          else if fs_receipts st = [] \<and> fs_unpublished_head st \<and> en_head en
            then (Waits Publish_Head (Recovering (R_Head en (fs_receipts st))), q)
          else recover_receipts cfg w en (fs_receipts st) q
      | _ \<Rightarrow> (Goes Recovered, q))"
| "continue_recovery cfg w (R_Head en refs) ans q =
     (case ans of Threw th \<Rightarrow> (Goes Recovered, q) | _ \<Rightarrow> recover_receipts cfg w en refs q)"
| "continue_recovery cfg w (R_Input en ref refs) ans q =
     (case ans of
        Threw th \<Rightarrow> (Goes Recovered, q)
      | Got_Input (Some input) \<Rightarrow>
          (case queue_enqueue cfg w Kind_Enrich input (Some (recovery_key ref)) q of
             (Inl m, q') \<Rightarrow> (Goes Recovered, q')
           | (Inr j, q') \<Rightarrow> recover_receipts cfg w en refs (revive_job cfg w j q'))
      | _ \<Rightarrow> recover_receipts cfg w en refs q)"
| "continue_recovery cfg w (R_Poll en deadline) ans q =
     (case ans of
        Got_Filing st \<Rightarrow>
          if \<not> fs_interrupted st then (Goes Recovered, retry_blocked cfg w True q)
          else if jq_closed q \<or> deadline \<le> ho_now w then (Goes Recovered, retry_blocked cfg w False q)
          else (Waits Sleep_Poll (Recovering (R_Slept en deadline)), q)
      | _ \<Rightarrow> (Goes Recovered, q))"
| "continue_recovery cfg w (R_Slept en deadline) ans q = (Waits Inspect_Filing (Recovering (R_Poll en deadline)), q)"

section \<open>The queue as a whole\<close>

definition take_task :: "nat \<Rightarrow> job_queue \<Rightarrow> lane_task option \<times> job_queue" where
  "take_task n q = (find (\<lambda>t. fst t = n) (jq_tasks q), q\<lparr>jq_tasks := filter (\<lambda>t. fst t \<noteq> n) (jq_tasks q)\<rparr>)"

text \<open>The continuation of a task, with the answer where it waited for one.\<close>

fun continue_task :: "lane_config \<Rightarrow> host \<Rightarrow> nat \<Rightarrow> activity \<Rightarrow> answer \<Rightarrow> job_queue \<Rightarrow> job_queue" where
  "continue_task cfg w n (Processing l j f) ans q = parked n (continue_job cfg w l j f ans q)"
| "continue_task cfg w n (Between l) ans q = parked n (next_job cfg w l q)"
| "continue_task cfg w n (Settled l) ans q = (if slot l q = Some n then set_slot l None q else q)"
| "continue_task cfg w n (Recovering f) ans q = parked n (continue_recovery cfg w f ans q)"
| "continue_task cfg w n Recovered ans q = (if jq_recovery q = Some n then q\<lparr>jq_recovery := None\<rparr> else q)"

definition answer_task :: "lane_config \<Rightarrow> host \<Rightarrow> nat \<Rightarrow> answer \<Rightarrow> job_queue \<Rightarrow> job_queue" where
  "answer_task cfg w n ans q =
     (case take_task n q of
        (None, _) \<Rightarrow> q
      | (Some (_, None, a), q') \<Rightarrow> continue_task cfg w n a Got_Nothing q'
      | (Some (_, Some c, a), q') \<Rightarrow> if fits c ans then continue_task cfg w n a ans q' else q)"

text \<open>The heartbeat of a job runs while \<open>process\<close> does.\<close>

definition heartbeat :: "lane_config \<Rightarrow> host \<Rightarrow> nat \<Rightarrow> job_queue \<Rightarrow> job_queue" where
  "heartbeat cfg w n q =
     (case find (\<lambda>t. fst t = n) (jq_tasks q) of
        Some (_, _, Processing l j f) \<Rightarrow>
          written (renew_claim (lc_store cfg) (claim_of j) (ho_now w) (jq_rows q)) q
      | _ \<Rightarrow> q)"

definition close_queue :: "job_queue \<Rightarrow> job_queue" where
  "close_queue q = clear_lease_timer (q\<lparr>jq_closed := True, jq_check := None\<rparr>)"

definition resume_at_start :: "lane_config \<Rightarrow> host \<Rightarrow> int \<Rightarrow> job_queue \<Rightarrow> job_queue" where
  "resume_at_start cfg w delay q =
     (let q1 = request_drains cfg w q in
      if jq_closed q1 \<or> jq_check q1 \<noteq> None then q1 else q1\<lparr>jq_check := Some (ho_now w + delay)\<rparr>)"

definition timer_due :: "host \<Rightarrow> nat \<Rightarrow> job_queue \<Rightarrow> bool" where
  "timer_due w t q \<longleftrightarrow> list_ex (\<lambda>x. fst x = t \<and> snd x \<le> ho_now w) (jq_timers q)"

definition fire_timer :: "lane_config \<Rightarrow> host \<Rightarrow> nat \<Rightarrow> job_queue \<Rightarrow> job_queue" where
  "fire_timer cfg w t q =
     (if timer_due w t q
      then request_drains cfg w (q\<lparr>jq_timer := None, jq_timers := filter (\<lambda>x. fst x \<noteq> t) (jq_timers q)\<rparr>) else q)"

definition fire_check :: "host \<Rightarrow> job_queue \<Rightarrow> job_queue" where
  "fire_check w q =
     (case jq_check q of
        None \<Rightarrow> q
      | Some t \<Rightarrow> if t \<le> ho_now w then request_recovery w (q\<lparr>jq_check := None\<rparr>) else q)"

datatype queue_move =
  Mv_Enqueue job_kind json "string option"
| Mv_Resume
| Mv_Resume_At_Start int
| Mv_Close
| Mv_Timer nat
| Mv_Check
| Mv_Heartbeat nat
| Mv_Answer nat answer
| Mv_Other job_store job_op

text \<open>\<open>Mv_Other\<close>: another instance works on the same database.\<close>

fun do_queue :: "lane_config \<Rightarrow> host \<times> queue_move \<Rightarrow> job_queue \<Rightarrow> job_queue" where
  "do_queue cfg (w, Mv_Enqueue kind input key) q = snd (queue_enqueue cfg w kind input key q)"
| "do_queue cfg (w, Mv_Resume) q = request_drains cfg w q"
| "do_queue cfg (w, Mv_Resume_At_Start delay) q = resume_at_start cfg w delay q"
| "do_queue cfg (w, Mv_Close) q = close_queue q"
| "do_queue cfg (w, Mv_Timer t) q = fire_timer cfg w t q"
| "do_queue cfg (w, Mv_Check) q = fire_check w q"
| "do_queue cfg (w, Mv_Heartbeat n) q = heartbeat cfg w n q"
| "do_queue cfg (w, Mv_Answer n ans) q = answer_task cfg w n ans q"
| "do_queue cfg (w, Mv_Other s op) q =
     (if js_owner s = js_owner (lc_store cfg) then q else q\<lparr>jq_rows := job_step s (ho_now w) op (jq_rows q)\<rparr>)"

definition run_queue :: "lane_config \<Rightarrow> (host \<times> queue_move) list \<Rightarrow> job_queue \<Rightarrow> job_queue" where
  "run_queue cfg ms q = fold (do_queue cfg) ms q"

end
