(* ===== verification/Job_Lanes_Effects.thy ===== *)
theory Job_Lanes_Effects
  imports Job_Lanes Task_Jobs_Props
begin

text \<open>
  What one uninterrupted run of the worker can do: \<open>effects\<close> collects the writes to the rows, the tasks that are
  started, the slots that are taken, and the entries of the log. Every part of the code of Job_Lanes has these
  effects, and every move leaves the tasks and the slots in order.
\<close>

section \<open>Operations of the store that the worker uses\<close>

definition needs_receipt :: "job_kind \<Rightarrow> bool" where
  "needs_receipt k \<longleftrightarrow> k \<in> {Kind_Store, Kind_Enrich, Kind_Work}"

definition result_ok :: "receipt_env \<Rightarrow> job_kind \<Rightarrow> json \<Rightarrow> bool" where
  "result_ok env k v \<longleftrightarrow>
     (k \<in> {Kind_Store, Kind_Enrich} \<longrightarrow> assert_durable_store env v = Inr ()) \<and>
     (k = Kind_Work \<longrightarrow> assert_durable_work env v = Inr ())"

definition job_known :: "jobs \<Rightarrow> task_job \<Rightarrow> bool" where
  "job_known rows j \<longleftrightarrow> (\<exists>r \<in> set rows. j_id r = tj_id j \<and> j_kind r = tj_kind j)"

fun own_op :: "receipt_env \<Rightarrow> jobs \<Rightarrow> job_op \<Rightarrow> bool" where
  "own_op env rows (Op_Open _ _) \<longleftrightarrow> False"
| "own_op env rows (Op_Update _ _) \<longleftrightarrow> False"
| "own_op env rows (Op_Update_Claimed c p) \<longleftrightarrow>
     (\<exists>m. p = error_patch m) \<or>
     (\<exists>j v. p = done_patch v \<and> c = claim_of j \<and> job_known rows j \<and> result_ok env (tj_kind j) v)"
| "own_op env rows _ \<longleftrightarrow> True"

definition own_act :: "lane_config \<Rightarrow> host \<Rightarrow> jobs \<Rightarrow> jobs \<Rightarrow> bool" where
  "own_act cfg w rows rows' \<longleftrightarrow>
     (\<exists>op. own_op (lc_env cfg) rows op \<and> rows' = job_step (lc_store cfg) (ho_now w) op rows)"

lemma own_step: "own_op (lc_env cfg) rows op \<Longrightarrow> (own_act cfg w)\<^sup>*\<^sup>* rows (job_step (lc_store cfg) (ho_now w) op rows)"
  by (rule r_into_rtranclp) (auto simp: own_act_def)

lemma own_acts_are_job_acts: "(own_act cfg w)\<^sup>*\<^sup>* rows rows' \<Longrightarrow> job_act\<^sup>*\<^sup>* rows rows'"
  by (erule rtranclp_mono [THEN predicate2D, rotated]) (unfold own_act_def job_act_def, blast)

text \<open>Rows keep their ids and kinds, and none is ever deleted.\<close>

lemma edge_kind: "job_edge s now op r r' \<Longrightarrow> j_kind r' = j_kind r"
  by (cases rule: job_edge.cases)
    (auto simp: requeued_capture_def interrupted_job_def unclaimed_def claimed_job_def fresh_budget_def patched_def Let_def)

lemma rewritten_known:
  assumes "rewritten edge fresh rows rows'" and "job_known rows j"
    and "\<And>r r'. edge r r' \<Longrightarrow> j_id r' = j_id r \<and> j_kind r' = j_kind r"
  shows "job_known rows' j"
  using assms(1,2)
proof (induction rule: rewritten.induct)
  case (update rows p f)
  then obtain r where r: "r \<in> set rows" "j_id r = tj_id j" "j_kind r = tj_kind j" by (auto simp: job_known_def)
  show ?case
  proof (cases "p r")
    case True
    with r have "f r \<in> set (update_where p f rows)" by (auto simp: in_update_where)
    with True update.hyps [OF r(1)] assms(3) [of r "f r"] r show ?thesis by (auto simp: job_known_def)
  next
    case False
    with r have "r \<in> set (update_where p f rows)" by (auto simp: in_update_where)
    with r show ?thesis by (auto simp: job_known_def)
  qed
qed (auto simp: job_known_def)

lemma step_known: "job_known rows j \<Longrightarrow> job_known (job_step s now op rows) j"
  by (rule rewritten_known [OF job_step_rewritten]) (auto dest: edge_id edge_kind)

lemma act_known: "job_act\<^sup>*\<^sup>* rows rows' \<Longrightarrow> job_known rows j \<Longrightarrow> job_known rows' j"
  by (induction rule: rtranclp_induct) (auto simp: job_act_def step_known)

section \<open>Activities\<close>

fun lane_of :: "activity \<Rightarrow> lane option" where
  "lane_of (Processing l _ _) = Some l"
| "lane_of (Between l) = Some l"
| "lane_of (Settled l) = Some l"
| "lane_of (Recovering _) = None"
| "lane_of Recovered = None"

fun frame_ok :: "process_frame \<Rightarrow> job_kind \<Rightarrow> bool" where
  "frame_ok P_Engine k \<longleftrightarrow> k \<notin> {Kind_Media, Kind_Sweep}"
| "frame_ok P_Model k \<longleftrightarrow> k \<notin> {Kind_Media, Kind_Sweep}"
| "frame_ok P_Notified k \<longleftrightarrow> k = Kind_Enrich"
| "frame_ok P_Sweep_Engine k \<longleftrightarrow> k = Kind_Sweep"
| "frame_ok P_Sweeping k \<longleftrightarrow> k = Kind_Sweep"
| "frame_ok (P_Swept _) k \<longleftrightarrow> k = Kind_Sweep"
| "frame_ok (P_Threw _) k \<longleftrightarrow> True"
| "frame_ok _ k \<longleftrightarrow> k = Kind_Media"

fun activity_ok :: "jobs \<Rightarrow> activity \<Rightarrow> bool" where
  "activity_ok rows (Processing l j f) \<longleftrightarrow>
     tj_kind j \<in> set (lane_kinds l) \<and> frame_ok f (tj_kind j) \<and> job_known rows j"
| "activity_ok rows _ \<longleftrightarrow> True"

lemma activity_ok_later: "activity_ok rows a \<Longrightarrow> job_act\<^sup>*\<^sup>* rows rows' \<Longrightarrow> activity_ok rows' a"
  by (cases a) (auto intro: act_known)

text \<open>Calls that use a model, and the places a job can be at without one.\<close>

fun model_call :: "host_call \<Rightarrow> bool" where
  "model_call (Run_Chat _ _ _) \<longleftrightarrow> True"
| "model_call (Run_Tasking _ _) \<longleftrightarrow> True"
| "model_call (Run_Store _) \<longleftrightarrow> True"
| "model_call (Run_Enrich _) \<longleftrightarrow> True"
| "model_call (Run_Work _) \<longleftrightarrow> True"
| "model_call (Run_Transcription _) \<longleftrightarrow> True"
| "model_call (Run_Extraction _) \<longleftrightarrow> True"
| "model_call (Run_Capture _ _) \<longleftrightarrow> True"
| "model_call _ \<longleftrightarrow> False"

fun modest_frame :: "process_frame \<Rightarrow> bool" where
  "modest_frame P_Sweep_Engine \<longleftrightarrow> True"
| "modest_frame P_Sweeping \<longleftrightarrow> True"
| "modest_frame (P_Swept _) \<longleftrightarrow> True"
| "modest_frame (P_Threw _) \<longleftrightarrow> True"
| "modest_frame (P_Over _ _) \<longleftrightarrow> True"
| "modest_frame _ \<longleftrightarrow> False"

fun modest :: "activity \<Rightarrow> bool" where
  "modest (Processing l j f) \<longleftrightarrow> modest_frame f"
| "modest _ \<longleftrightarrow> True"

fun activity_of :: "outcome \<Rightarrow> activity" where
  "activity_of (Waits c a) = a"
| "activity_of (Goes a) = a"

fun modest_outcome :: "outcome \<Rightarrow> bool" where
  "modest_outcome (Waits c a) \<longleftrightarrow> modest a \<and> \<not> model_call c"
| "modest_outcome (Goes a) \<longleftrightarrow> modest a"

section \<open>The effects of an uninterrupted run\<close>

fun model_entry :: "happening \<Rightarrow> bool" where
  "model_entry (Called c) \<longleftrightarrow> model_call c"
| "model_entry (Recovery_Started _) \<longleftrightarrow> False"

fun start_of :: "happening \<Rightarrow> int option" where
  "start_of (Recovery_Started t) = Some t"
| "start_of (Called _) = None"

definition starts :: "happening list \<Rightarrow> int list" where
  "starts es = List.map_filter start_of es"

lemma starts_simps [simp]:
  "starts [] = []" "starts (es @ fs) = starts es @ starts fs"
  "starts (Called c # es) = starts es" "starts (Recovery_Started t # es) = t # starts es"
  by (simp_all add: starts_def map_filter_def)

definition new_task :: "host \<Rightarrow> job_queue \<Rightarrow> job_queue \<Rightarrow> lane_task \<Rightarrow> bool" where
  "new_task w q q' t \<longleftrightarrow>
     (case t of (n, c, a) \<Rightarrow> jq_next q \<le> n \<and> n < jq_next q' \<and> activity_ok (jq_rows q') a \<and>
        (case lane_of a of
           Some l \<Rightarrow> slot l q = None \<and> slot l q' = Some n
         | None \<Rightarrow> jq_recovery q = None \<and> jq_recovery q' = Some n) \<and>
        (ho_block w \<noteq> None \<longrightarrow> modest a))"

definition recovery_effect :: "host \<Rightarrow> job_queue \<Rightarrow> job_queue \<Rightarrow> happening list \<Rightarrow> bool" where
  "recovery_effect w q q' es \<longleftrightarrow>
     starts es = [] \<and> jq_recovery q' = jq_recovery q \<and> jq_last_recovery q' = jq_last_recovery q \<or>
     starts es = [ho_now w] \<and> jq_recovery q = None \<and> jq_recovery q' \<noteq> None \<and> jq_last_recovery q' = ho_now w \<and>
       recovery_cooldown \<le> ho_now w - jq_last_recovery q"

definition effects :: "lane_config \<Rightarrow> host \<Rightarrow> job_queue \<Rightarrow> job_queue \<Rightarrow> bool" where
  "effects cfg w q q' \<longleftrightarrow>
     (own_act cfg w)\<^sup>*\<^sup>* (jq_rows q) (jq_rows q') \<and> jq_closed q' = jq_closed q \<and> jq_next q \<le> jq_next q' \<and>
     (\<forall>l. slot l q \<noteq> None \<longrightarrow> slot l q' = slot l q) \<and>
     (\<exists>ts. jq_tasks q' = jq_tasks q @ ts \<and> distinct (map fst ts) \<and> (\<forall>t \<in> set ts. new_task w q q' t)) \<and>
     (\<exists>es. jq_log q' = jq_log q @ es \<and> (ho_block w \<noteq> None \<longrightarrow> \<not> list_ex model_entry es) \<and> recovery_effect w q q' es)"

lemma effectsI:
  assumes "(own_act cfg w)\<^sup>*\<^sup>* (jq_rows q) (jq_rows q')" and "jq_closed q' = jq_closed q" and "jq_next q \<le> jq_next q'"
    and "\<And>l. slot l q' = slot l q" and "jq_tasks q' = jq_tasks q" and "jq_log q' = jq_log q"
    and "jq_recovery q' = jq_recovery q" and "jq_last_recovery q' = jq_last_recovery q"
  shows "effects cfg w q q'"
  using assms by (simp add: effects_def recovery_effect_def)

lemma effects_refl [intro, simp]: "effects cfg w q q"
  by (rule effectsI) auto

lemma effectsD:
  assumes "effects cfg w q q'"
  shows "(own_act cfg w)\<^sup>*\<^sup>* (jq_rows q) (jq_rows q')" and "jq_closed q' = jq_closed q" and "jq_next q \<le> jq_next q'"
    and "slot l q \<noteq> None \<Longrightarrow> slot l q' = slot l q" and "jq_recovery q \<noteq> None \<Longrightarrow> jq_recovery q' = jq_recovery q"
  using assms by (simp_all add: effects_def) (auto simp: recovery_effect_def)

lemma new_task_later:
  assumes "new_task w q q1 t" and "effects cfg w q1 q2"
  shows "new_task w q q2 t"
proof -
  obtain n c a where t: "t = (n, c, a)" by (cases t)
  note 2 = effectsD [OF assms(2)]
  from assms(1) t have "activity_ok (jq_rows q2) a"
    by (auto simp: new_task_def intro: activity_ok_later own_acts_are_job_acts [OF 2(1)])
  with assms(1) t 2(3,5) 2(4) [of "the (lane_of a)"] show ?thesis
    by (cases "lane_of a") (simp_all add: new_task_def)
qed

lemma new_task_earlier:
  assumes "effects cfg w q q1" and "new_task w q1 q2 t"
  shows "new_task w q q2 t"
proof -
  obtain n c a where t: "t = (n, c, a)" by (cases t)
  note 1 = effectsD [OF assms(1)]
  have "slot l q = None" if "slot l q1 = None" for l using 1(4) [of l] that by fastforce
  moreover have "jq_recovery q = None" if "jq_recovery q1 = None" using 1(5) that by fastforce
  ultimately show ?thesis using assms(2) t 1(3)
    by (cases "lane_of a") (auto simp: new_task_def)
qed

lemma effects_trans:
  assumes 1: "effects cfg w q q1" and 2: "effects cfg w q1 q2"
  shows "effects cfg w q q2"
proof -
  from 1 obtain ts es where ts: "jq_tasks q1 = jq_tasks q @ ts" "distinct (map fst ts)" "\<forall>t \<in> set ts. new_task w q q1 t"
    and es: "jq_log q1 = jq_log q @ es" "ho_block w \<noteq> None \<longrightarrow> \<not> list_ex model_entry es" "recovery_effect w q q1 es"
    unfolding effects_def by blast
  from 2 obtain us fs where us: "jq_tasks q2 = jq_tasks q1 @ us" "distinct (map fst us)" "\<forall>t \<in> set us. new_task w q1 q2 t"
    and fs: "jq_log q2 = jq_log q1 @ fs" "ho_block w \<noteq> None \<longrightarrow> \<not> list_ex model_entry fs" "recovery_effect w q1 q2 fs"
    unfolding effects_def by blast
  have "fst t < fst u" if "new_task w q q1 t" "new_task w q1 q2 u" for t u
    using that by (auto simp: new_task_def)
  then have "set (map fst ts) \<inter> set (map fst us) = {}"
    using ts(3) us(3) by fastforce
  moreover from ts(3) have "\<forall>t \<in> set ts. new_task w q q2 t" by (blast intro: new_task_later [OF _ 2])
  moreover from us(3) have "\<forall>t \<in> set us. new_task w q q2 t" by (blast intro: new_task_earlier [OF 1])
  ultimately have tasks: "jq_tasks q2 = jq_tasks q @ (ts @ us)" "distinct (map fst (ts @ us))"
      "\<forall>t \<in> set (ts @ us). new_task w q q2 t"
    using ts(1,2) us(1,2) by auto
  have "recovery_effect w q q2 (es @ fs)"
    using es(3) fs(3) by (auto simp: recovery_effect_def)
  with es(1,2) fs(1,2) have log: "jq_log q2 = jq_log q @ (es @ fs)"
      "ho_block w \<noteq> None \<longrightarrow> \<not> list_ex model_entry (es @ fs)" "recovery_effect w q q2 (es @ fs)"
    by auto
  have "(own_act cfg w)\<^sup>*\<^sup>* (jq_rows q) (jq_rows q2)"
    by (rule rtranclp_trans [OF effectsD(1) [OF 1] effectsD(1) [OF 2]])
  moreover have "jq_closed q2 = jq_closed q" "jq_next q \<le> jq_next q2"
    using effectsD(2,3) [OF 1] effectsD(2,3) [OF 2] by auto
  moreover have "\<forall>l. slot l q \<noteq> None \<longrightarrow> slot l q2 = slot l q"
    using effectsD(4) [OF 1] effectsD(4) [OF 2] by metis
  ultimately show ?thesis using tasks log unfolding effects_def by blast
qed

section \<open>Every part of the code has these effects\<close>

lemma slot_simps [simp]:
  "slot l (q\<lparr>jq_rows := x\<rparr>) = slot l q" "slot l (q\<lparr>jq_next := n\<rparr>) = slot l q" "slot l (q\<lparr>jq_log := es\<rparr>) = slot l q"
  "slot l (q\<lparr>jq_tasks := ts\<rparr>) = slot l q" "slot l (q\<lparr>jq_timer := t\<rparr>) = slot l q"
  "slot l (q\<lparr>jq_timers := ys\<rparr>) = slot l q" "slot l (q\<lparr>jq_recovery := v\<rparr>) = slot l q"
  "slot l (q\<lparr>jq_last_recovery := i\<rparr>) = slot l q" "slot l (q\<lparr>jq_closed := b\<rparr>) = slot l q"
  "slot l (q\<lparr>jq_check := k\<rparr>) = slot l q"
  by (cases l; simp)+

lemma set_slot_simps [simp]:
  "slot k (set_slot l v q) = (if k = l then v else slot k q)" "jq_rows (set_slot l v q) = jq_rows q"
  "jq_tasks (set_slot l v q) = jq_tasks q" "jq_next (set_slot l v q) = jq_next q"
  "jq_log (set_slot l v q) = jq_log q" "jq_recovery (set_slot l v q) = jq_recovery q"
  "jq_last_recovery (set_slot l v q) = jq_last_recovery q" "jq_closed (set_slot l v q) = jq_closed q"
  by (cases l; cases k; simp)+

lemma parked_simps [simp]:
  "jq_rows (parked n (o', q)) = jq_rows q" "jq_next (parked n (o', q)) = jq_next q"
  "jq_recovery (parked n (o', q)) = jq_recovery q" "jq_last_recovery (parked n (o', q)) = jq_last_recovery q"
  "jq_closed (parked n (o', q)) = jq_closed q" "slot l (parked n (o', q)) = slot l q"
  "jq_tasks (parked n (o', q)) = jq_tasks q @ [(n, (case o' of Waits c _ \<Rightarrow> Some c | Goes _ \<Rightarrow> None), activity_of o')]"
  "jq_log (parked n (o', q)) = jq_log q @ (case o' of Waits c _ \<Rightarrow> [Called c] | Goes _ \<Rightarrow> [])"
  by (cases o'; simp)+

lemma written_effects:
  assumes "own_op (lc_env cfg) (jq_rows q) op" and "snd x = job_step (lc_store cfg) (ho_now w) op (jq_rows q)"
  shows "effects cfg w q (written x q)"
  using own_step [OF assms(1), of w] assms(2) by (intro effectsI) (auto simp: written_def)

lemma rows_effects:
  assumes "own_op (lc_env cfg) (jq_rows q) op" and "rows = job_step (lc_store cfg) (ho_now w) op (jq_rows q)"
  shows "effects cfg w q (q\<lparr>jq_rows := rows\<rparr>)"
  using own_step [OF assms(1), of w] assms(2) by (intro effectsI) auto

lemma request_recovery_effects: "effects cfg w q (request_recovery w q)"
proof -
  have "new_task w q (request_recovery w q) (jq_next q, Some Get_Engine, Recovering R_Engine)"
    if "jq_recovery q = None" "\<not> jq_closed q" "recovery_cooldown \<le> ho_now w - jq_last_recovery q"
    using that by (simp add: request_recovery_def new_task_def)
  then show ?thesis
    by (auto simp: effects_def request_recovery_def recovery_effect_def not_le)
qed

lemma update_claimed_step: "snd (update_claimed s c p now rows) = job_step s now (Op_Update_Claimed c p) rows"
  by simp

lemma own_done:
  "job_known rows j \<Longrightarrow> result_ok env (tj_kind j) v \<Longrightarrow> own_op env rows (Op_Update_Claimed (claim_of j) (done_patch v))"
  by (simp only: own_op.simps) blast

lemma finish_effects:
  assumes "job_known (jq_rows q) j" and "result_ok (lc_env cfg) (tj_kind j) v"
  shows "effects cfg w q (finish_job cfg w j v q)"
  unfolding finish_job_def
  by (rule written_effects [OF own_done update_claimed_step]) (rule assms)+

lemma fail_effects:
  assumes "job_known (jq_rows q) j"
  shows "effects cfg w q (fail_job cfg w j th q)"
proof -
  let ?s = "lc_store cfg" and ?c = "claim_of j" and ?now = "ho_now w" and ?m = "th_message th"
  let ?answered = "update_claimed ?s ?c (done_patch (reply_json ?m)) ?now (jq_rows q)"
  define q1 where "q1 = (if tj_kind j = Kind_Chat \<and> th_allowance th then written ?answered q else q)"
  define q2 where "q2 = (if ?m = recovery_pending then request_recovery w q1 else q1)"
  define q3 where "q3 = (if tj_kind j = Kind_Enrich \<and> th_retryable th
    then written (resume_publication_failure ?s ?c ?m ?now (jq_rows q2)) q2 else q2)"
  have a: "effects cfg w q (written ?answered q)" if "tj_kind j = Kind_Chat"
    by (rule written_effects [OF own_done update_claimed_step]) (use assms that in \<open>auto simp: result_ok_def\<close>)
  then have 1: "effects cfg w q q1" by (simp add: q1_def)
  have 2: "effects cfg w q q2"
    by (rule effects_trans [OF 1]) (simp add: q2_def request_recovery_effects)
  have b: "effects cfg w q2 (written (resume_publication_failure ?s ?c ?m ?now (jq_rows q2)) q2)"
    by (rule written_effects [where op = "Op_Resume_Publication ?c ?m"]) auto
  have 3: "effects cfg w q q3"
    by (rule effects_trans [OF 2]) (simp add: q3_def b)
  have 4: "effects cfg w q (written (update_claimed ?s ?c (error_patch ?m) ?now (jq_rows q3)) q3)"
    by (rule effects_trans [OF 3 written_effects [OF _ update_claimed_step]]) auto
  have "fail_job cfg w j th q =
     (if tj_kind j = Kind_Chat \<and> th_allowance th \<and> fst ?answered then written ?answered q
      else if tj_kind j = Kind_Enrich \<and> th_retryable th \<and> fst (resume_publication_failure ?s ?c ?m ?now (jq_rows q2)) then q3
      else written (update_claimed ?s ?c (error_patch ?m) ?now (jq_rows q3)) q3)"
    unfolding fail_job_def Let_def q1_def [symmetric] q2_def [symmetric] q3_def [symmetric]
    by (auto simp: q3_def)
  then show ?thesis using a 3 4 by auto
qed

text \<open>A run of a task of a lane leaves the task in that lane.\<close>

definition lane_run :: "lane_config \<Rightarrow> host \<Rightarrow> lane \<Rightarrow> job_queue \<Rightarrow> outcome \<times> job_queue \<Rightarrow> bool" where
  "lane_run cfg w l q x \<longleftrightarrow> effects cfg w q (snd x) \<and> lane_of (activity_of (fst x)) = Some l \<and>
     activity_ok (jq_rows (snd x)) (activity_of (fst x))"

lemma lane_runI:
  "effects cfg w q q' \<Longrightarrow> lane_of (activity_of o') = Some l \<Longrightarrow> activity_ok (jq_rows q') (activity_of o') \<Longrightarrow>
     lane_run cfg w l q (o', q')"
  by (simp add: lane_run_def)

lemma lane_run_trans: "effects cfg w q q1 \<Longrightarrow> lane_run cfg w l q1 x \<Longrightarrow> lane_run cfg w l q x"
  by (auto simp: lane_run_def intro: effects_trans)

lemma failed_run: "job_known (jq_rows q) j \<Longrightarrow> lane_run cfg w l q (failed cfg w l j th q)"
  unfolding failed_def by (rule lane_runI [OF fail_effects]) auto

lemma finished_run:
  "job_known (jq_rows q) j \<Longrightarrow> result_ok (lc_env cfg) (tj_kind j) v \<Longrightarrow> lane_run cfg w l q (finished cfg w l j v q)"
  unfolding finished_def by (rule lane_runI [OF finish_effects]) auto

lemma stay_run: "lane_of a = Some l \<Longrightarrow> activity_ok (jq_rows q) a \<Longrightarrow> lane_run cfg w l q (Goes a, q)"
  by (rule lane_runI) auto

lemma wait_run: "lane_of a = Some l \<Longrightarrow> activity_ok (jq_rows q) a \<Longrightarrow> lane_run cfg w l q (Waits c a, q)"
  by (rule lane_runI) auto

lemma over_allowance_run:
  assumes "tj_kind j \<in> set (lane_kinds l)" and "job_known (jq_rows q) j"
  shows "lane_run cfg w l q (over_allowance cfg w l j m archived q)"
  using assms unfolding over_allowance_def
  by (auto intro!: finished_run wait_run stay_run simp: result_ok_def)

lemma process_run:
  assumes "tj_kind j \<in> set (lane_kinds l)" and "job_known (jq_rows q) j"
  shows "lane_run cfg w l q (process cfg w l j q)"
  using assms unfolding process_def
  by (auto intro!: finished_run failed_run wait_run over_allowance_run simp: result_ok_def split: option.splits)

lemma process_modest:
  "ho_block w \<noteq> None \<Longrightarrow> modest_outcome (fst (process cfg w l j q))"
  by (auto simp: process_def over_allowance_def finished_def split: option.splits)

lemma claim_known:
  assumes "claim_next_queued s token now (Some ks) rows = (Some j, rows')"
  shows "tj_kind j \<in> set ks \<and> job_known rows' j"
proof -
  from assms obtain r where
    found: "first_row (order_by j_created (filter (\<lambda>r. queued_for s r \<and> j_kind r \<in> set ks) rows)) = Some r"
    and j: "j = row_to_job (claimed_job s token now r)"
    and rows': "rows' = update_where (\<lambda>q. queued_for s q \<and> j_id q = j_id r) (claimed_job s token now) rows"
    by (auto simp: claim_next_queued_def split: if_splits option.splits)
  from first_row_Some [OF found] have r: "r \<in> set rows" "queued_for s r" "j_kind r \<in> set ks" by auto
  then have "claimed_job s token now r \<in> set rows'" by (auto simp: rows' in_update_where)
  moreover have "j_id (claimed_job s token now r) = tj_id j" "j_kind (claimed_job s token now r) = tj_kind j"
    by (simp_all add: j row_to_job_def claimed_job_def)
  ultimately have "job_known rows' j" unfolding job_known_def by blast
  with r(3) show ?thesis by (simp add: j row_to_job_def claimed_job_def)
qed

lemma schedule_effects: "effects cfg w q (schedule_lease_recovery cfg w q)"
  by (rule effectsI) (auto simp: schedule_lease_recovery_def Let_def split: option.splits)

lemma clear_timer_effects: "effects cfg w q (clear_lease_timer q)"
  by (rule effectsI) (auto simp: clear_lease_timer_def split: option.splits)

lemma claim_effects:
  assumes "claim_next_queued (lc_store cfg) (ho_token w l) (ho_now w) (Some (lane_kinds l)) (jq_rows q) = (v, rows)"
  shows "effects cfg w q (q\<lparr>jq_rows := rows\<rparr>)"
  by (rule rows_effects [where op = "Op_Claim (ho_token w l) (Some (lane_kinds l))"]) (use assms in auto)

lemma next_job_run: "lane_run cfg w l q (next_job cfg w l q)"
proof (cases "claim_next_queued (lc_store cfg) (ho_token w l) (ho_now w) (Some (lane_kinds l)) (jq_rows q)")
  case (Pair v rows)
  note claimed = claim_effects [OF Pair]
  show ?thesis
  proof (cases v)
    case None
    have "lane_run cfg w l q (Goes (Settled l), schedule_lease_recovery cfg w (q\<lparr>jq_rows := rows\<rparr>))"
      by (rule lane_runI [OF effects_trans [OF claimed schedule_effects]]) auto
    with Pair None show ?thesis by (simp add: next_job_def)
  next
    case (Some j)
    from claim_known [OF Pair [unfolded Some]]
    have "lane_run cfg w l (q\<lparr>jq_rows := rows\<rparr>) (process cfg w l j (q\<lparr>jq_rows := rows\<rparr>))"
      by (intro process_run) auto
    with lane_run_trans [OF claimed this] Pair Some show ?thesis by (simp add: next_job_def)
  qed
qed

lemma next_job_modest: "ho_block w \<noteq> None \<Longrightarrow> modest_outcome (fst (next_job cfg w l q))"
  by (auto simp: next_job_def process_modest split: prod.splits option.splits)

lemma drain_run: "lane_run cfg w l q (drain cfg w l q)"
proof -
  let ?q1 = "clear_lease_timer q"
  have "effects cfg w ?q1 (?q1\<lparr>jq_rows := recover_expired_running (lc_store cfg) (ho_now w) (jq_rows ?q1)\<rparr>)"
    by (rule rows_effects [where op = Op_Recover]) auto
  from effects_trans [OF clear_timer_effects this] show ?thesis
    unfolding drain_def Let_def by (rule lane_run_trans [OF _ next_job_run])
qed

text \<open>Before its first await a drain leaves the slots of the lanes alone.\<close>

lemma slot_written [simp]: "slot k (written x q) = slot k q"
  by (simp add: written_def)

lemma slot_recovery [simp]: "slot k (request_recovery w q) = slot k q"
  by (simp add: request_recovery_def)

lemma slot_fail [simp]: "slot k (fail_job cfg w j th q) = slot k q"
  by (simp add: fail_job_def Let_def)

lemma slot_finish [simp]: "slot k (finish_job cfg w j v q) = slot k q"
  by (simp add: finish_job_def)

lemma slot_process [simp]: "slot k (snd (process cfg w l j q)) = slot k q"
  by (simp add: process_def over_allowance_def failed_def finished_def split: option.splits prod.splits)

lemma slot_schedule [simp]: "slot k (schedule_lease_recovery cfg w q) = slot k q"
  by (simp add: schedule_lease_recovery_def Let_def split: option.splits)

lemma slot_next_job [simp]: "slot k (snd (next_job cfg w l q)) = slot k q"
  by (simp add: next_job_def split: prod.splits option.splits)

lemma slot_clear [simp]: "slot k (clear_lease_timer q) = slot k q"
  by (simp add: clear_lease_timer_def split: option.splits)

lemma slot_drain [simp]: "slot k (snd (drain cfg w l q)) = slot k q"
  by (simp add: drain_def Let_def)

lemma request_lane_effects: "effects cfg w q (request_lane cfg w l q)"
proof (cases "slot l q")
  case None
  let ?n = "jq_next q"
  let ?q0 = "q\<lparr>jq_next := ?n + 1\<rparr>"
  obtain o' q1 where d: "drain cfg w l ?q0 = (o', q1)" by fastforce
  with drain_run [of cfg w l ?q0] have run: "effects cfg w ?q0 q1" "lane_of (activity_of o') = Some l"
      "activity_ok (jq_rows q1) (activity_of o')"
    by (auto simp: lane_run_def)
  have slots: "slot k q1 = slot k q" for k using slot_drain [of k cfg w l ?q0] unfolding d by simp
  have q0: "effects cfg w q ?q0" by (rule effectsI) auto
  note e = effects_trans [OF q0 run(1)]
  have modest: "modest_outcome o'" if "ho_block w \<noteq> None"
    using next_job_modest [OF that] d by (metis drain_def fst_conv)
  let ?call = "case o' of Waits c _ \<Rightarrow> Some c | Goes _ \<Rightarrow> None"
  let ?q2 = "set_slot l (Some ?n) (parked ?n (o', q1))"
  from None slots modest run(2,3) have task: "new_task w q ?q2 (?n, ?call, activity_of o')"
    using effectsD(3) [OF run(1)] by (cases o') (auto simp: new_task_def)
  from e obtain ts es where
    ts: "jq_tasks q1 = jq_tasks q @ ts" "distinct (map fst ts)" "\<forall>t \<in> set ts. new_task w q q1 t" and
    es: "jq_log q1 = jq_log q @ es" "ho_block w \<noteq> None \<longrightarrow> \<not> list_ex model_entry es" "recovery_effect w q q1 es"
    unfolding effects_def by blast
  from run(1) obtain us where us: "jq_tasks q1 = jq_tasks q @ us" "\<forall>t \<in> set us. new_task w ?q0 q1 t"
    unfolding effects_def by auto
  with ts(1) have new: "?n \<notin> fst ` set ts" by (auto simp: new_task_def)
  have old: "\<forall>t \<in> set ts. new_task w q ?q2 t"
    using ts(3) slots None by (auto simp: new_task_def split: option.splits if_splits)
  have log: "jq_log ?q2 = jq_log q @ (es @ (case o' of Waits c _ \<Rightarrow> [Called c] | Goes _ \<Rightarrow> []))"
    by (simp add: es(1))
  have "ho_block w \<noteq> None \<longrightarrow> \<not> list_ex model_entry (es @ (case o' of Waits c _ \<Rightarrow> [Called c] | Goes _ \<Rightarrow> []))"
    using es(2) modest by (cases o') auto
  moreover have "recovery_effect w q ?q2 (es @ (case o' of Waits c _ \<Rightarrow> [Called c] | Goes _ \<Rightarrow> []))"
    using es(3) by (cases o') (simp_all add: recovery_effect_def)
  moreover have "jq_tasks ?q2 = jq_tasks q @ (ts @ [(?n, ?call, activity_of o')])"
    "distinct (map fst (ts @ [(?n, ?call, activity_of o')]))"
    "\<forall>t \<in> set (ts @ [(?n, ?call, activity_of o')]). new_task w q ?q2 t"
    using ts(1,2) new old task by auto
  moreover have "(own_act cfg w)\<^sup>*\<^sup>* (jq_rows q) (jq_rows ?q2)" "jq_closed ?q2 = jq_closed q" "jq_next q \<le> jq_next ?q2"
    "\<forall>k. slot k q \<noteq> None \<longrightarrow> slot k ?q2 = slot k q"
    using effectsD [OF e] slots None by auto
  ultimately have "effects cfg w q ?q2" using log unfolding effects_def by blast
  with None d show ?thesis by (simp add: request_lane_def)
qed (simp add: request_lane_def)

lemma request_drains_effects: "effects cfg w q (request_drains cfg w q)"
  by (auto simp: request_drains_def intro: effects_trans [OF request_lane_effects request_lane_effects])

lemma enqueue_effects: "effects cfg w q (snd (queue_enqueue cfg w kind input key q))"
proof -
  obtain res rows where e: "enqueue_job (lc_store cfg) (ho_id w) kind input key (ho_now w) (jq_rows q) = (res, rows)"
    by fastforce
  have "effects cfg w q (q\<lparr>jq_rows := rows\<rparr>)"
    by (rule rows_effects [where op = "Op_Enqueue (ho_id w) kind input key"]) (use e in auto)
  with effects_trans [OF this request_drains_effects] e show ?thesis
    by (auto simp: queue_enqueue_def split: option.splits sum.splits job_failure.splits)
qed

lemma enrich_result_run:
  assumes "tj_kind j \<in> set (lane_kinds l)" and "tj_kind j = Kind_Enrich" and "job_known (jq_rows q) j"
    and "assert_durable_store (lc_env cfg) v = Inr ()"
  shows "lane_run cfg w l q (enrich_result cfg w l j v q)"
proof -
  let ?s = "lc_store cfg" and ?c = "claim_of j"
  let ?pending = "resume_pending ?s ?c v (ho_now w) (jq_rows q)"
  let ?q1 = "written ?pending q"
  let ?filed = "update_claimed ?s ?c (done_patch v) (ho_now w) (jq_rows ?q1)"
  have 1: "effects cfg w q ?q1"
    by (rule written_effects [where op = "Op_Resume_Pending ?c v"]) auto
  have known: "job_known (jq_rows ?q1) j"
    by (rule act_known [OF own_acts_are_job_acts [OF effectsD(1) [OF 1]] assms(3)])
  have "effects cfg w ?q1 (written ?filed ?q1)"
    by (rule written_effects [OF own_done update_claimed_step]) (use assms known in \<open>auto simp: result_ok_def\<close>)
  note 2 = effects_trans [OF 1 this]
  have known': "job_known (jq_rows (written ?filed ?q1)) j"
    by (rule act_known [OF own_acts_are_job_acts [OF effectsD(1) [OF 2]] assms(3)])
  from 1 2 known known' assms(1,2) show ?thesis
    by (simp add: enrich_result_def Let_def lane_run_def)
qed

lemma model_result_run:
  assumes "tj_kind j \<in> set (lane_kinds l)" and "frame_ok P_Model (tj_kind j)" and "job_known (jq_rows q) j"
  shows "lane_run cfg w l q (model_result cfg w l j v q)"
  using assms unfolding model_result_def
  by (auto intro!: finished_run failed_run enrich_result_run simp: result_ok_def split: job_kind.splits sum.splits)

lemma media_captured_run:
  assumes "tj_kind j \<in> set (lane_kinds l)" and "tj_kind j = Kind_Media" and "job_known (jq_rows q) j"
  shows "lane_run cfg w l q (media_captured cfg w l j en a e h stored q)"
proof -
  let ?x = "queue_enqueue cfg w Kind_Enrich (enrichment_input (tj_input j) a e h (capture_identity j) stored)
    (Some (enrichment_key (capture_identity j))) q"
  have e: "effects cfg w q (snd ?x)" by (rule enqueue_effects)
  then have "job_known (jq_rows (snd ?x)) j"
    by (rule act_known [OF own_acts_are_job_acts [OF effectsD(1)] assms(3)])
  with e assms show ?thesis
    by (auto simp: media_captured_def Let_def lane_run_def split: sum.splits prod.splits)
qed

lemma routed_run:
  assumes "tj_kind j \<in> set (lane_kinds l)" and "tj_kind j = Kind_Media" and "job_known (jq_rows q) j"
  shows "lane_run cfg w l q (routed l j en a route q)"
  using assms by (cases route) (auto simp: routed_def rethrown_def intro!: stay_run wait_run)

lemma continue_job_run:
  assumes "activity_ok (jq_rows q) (Processing l j f)"
  shows "lane_run cfg w l q (continue_job cfg w l j f ans q)"
proof (cases f)
  case P_Engine
  with assms show ?thesis
    by (auto simp: stays_def intro!: failed_run stay_run wait_run split: answer.splits sum.splits)
next
  case P_Model
  with assms show ?thesis
    by (auto simp: stays_def intro!: failed_run stay_run model_result_run split: answer.splits)
next
  case P_Archive
  with assms show ?thesis
    by (auto simp: stays_def rethrown_def intro!: failed_run stay_run wait_run
        split: answer.splits option.splits media_plan.splits)
next
  case (P_Media_Engine a)
  with assms show ?thesis
    by (auto simp: stays_def rethrown_def intro!: stay_run routed_run split: answer.splits)
next
  case (P_Text en a)
  with assms show ?thesis
    by (auto simp: stays_def rethrown_def intro!: stay_run routed_run split: answer.splits)
next
  case (P_Captured en a e h)
  with assms show ?thesis
    by (auto simp: stays_def rethrown_def intro!: stay_run media_captured_run split: answer.splits)
qed (use assms in \<open>auto simp: stays_def rethrown_def result_ok_def intro!: failed_run finished_run stay_run wait_run split: answer.splits\<close>)

lemma continue_job_modest:
  "modest_frame f \<Longrightarrow> modest_outcome (fst (continue_job cfg w l j f ans q))"
  by (cases f) (auto simp: stays_def rethrown_def failed_def finished_def split: answer.splits)

section \<open>The recovery\<close>

definition recovery_run :: "lane_config \<Rightarrow> host \<Rightarrow> job_queue \<Rightarrow> outcome \<times> job_queue \<Rightarrow> bool" where
  "recovery_run cfg w q x \<longleftrightarrow> effects cfg w q (snd x) \<and> lane_of (activity_of (fst x)) = None \<and> modest_outcome (fst x)"

lemma recovery_runI:
  "effects cfg w q q' \<Longrightarrow> lane_of (activity_of o') = None \<Longrightarrow> modest_outcome o' \<Longrightarrow> recovery_run cfg w q (o', q')"
  by (simp add: recovery_run_def)

lemma recovery_run_trans: "effects cfg w q q1 \<Longrightarrow> recovery_run cfg w q1 x \<Longrightarrow> recovery_run cfg w q x"
  by (auto simp: recovery_run_def intro: effects_trans)

lemma revive_effects: "effects cfg w q (revive_job cfg w j q)"
proof -
  have "effects cfg w q (written (requeue_for_recovery (lc_store cfg) (tj_id j) (ho_now w) (jq_rows q)) q)"
    by (rule written_effects [where op = "Op_Requeue (tj_id j)"]) auto
  then show ?thesis by (simp add: revive_job_def)
qed

lemma recover_receipts_run: "recovery_run cfg w q (recover_receipts cfg w en refs q)"
proof (induction refs arbitrary: q)
  case Nil
  show ?case by (auto intro!: recovery_runI request_drains_effects)
next
  case (Cons ref refs)
  have "recovery_run cfg w q (recover_receipts cfg w en refs (revive_job cfg w j q))" for j
    by (rule recovery_run_trans [OF revive_effects Cons.IH])
  then show ?case by (auto intro!: recovery_runI split: list.splits)
qed

lemma retry_effects: "effects cfg w q (retry_blocked cfg w always q)"
proof -
  let ?q1 = "q\<lparr>jq_rows := snd (requeue_filing_recovery_blocked (lc_store cfg) (ho_now w) (jq_rows q))\<rparr>"
  have "effects cfg w q ?q1" by (rule rows_effects [where op = Op_Requeue_Blocked]) auto
  with effects_trans [OF this request_drains_effects] show ?thesis by (simp add: retry_blocked_def Let_def)
qed

lemma continue_recovery_run: "recovery_run cfg w q (continue_recovery cfg w f ans q)"
proof (cases f)
  case (R_Input en ref refs)
  have "recovery_run cfg w q (case queue_enqueue cfg w Kind_Enrich input (Some (recovery_key ref)) q of
             (Inl m, q') \<Rightarrow> (Goes Recovered, q')
           | (Inr j, q') \<Rightarrow> recover_receipts cfg w en refs (revive_job cfg w j q'))" for input
    using enqueue_effects [of cfg w q Kind_Enrich input "Some (recovery_key ref)"]
    by (auto split: prod.splits sum.splits
        intro: recovery_runI recovery_run_trans [OF effects_trans [OF _ revive_effects] recover_receipts_run])
  with R_Input show ?thesis
    by (auto intro!: recovery_runI recover_receipts_run split: answer.splits option.splits)
qed (auto intro!: recovery_runI recover_receipts_run retry_effects split: answer.splits)

section \<open>Order in the state\<close>

definition in_place :: "job_queue \<Rightarrow> lane_task \<Rightarrow> bool" where
  "in_place q t \<longleftrightarrow>
     (case t of (n, c, a) \<Rightarrow> n < jq_next q \<and> activity_ok (jq_rows q) a \<and>
        (case lane_of a of Some l \<Rightarrow> slot l q = Some n | None \<Rightarrow> jq_recovery q = Some n))"

definition orderly :: "job_queue \<Rightarrow> bool" where
  "orderly q \<longleftrightarrow> distinct (map fst (jq_tasks q)) \<and> (\<forall>t \<in> set (jq_tasks q). in_place q t)"

lemma new_task_in_place: "new_task w q q' t \<Longrightarrow> in_place q' t"
  by (auto simp: new_task_def in_place_def split: option.splits)

lemma in_place_later: "in_place q t \<Longrightarrow> effects cfg w q q' \<Longrightarrow> in_place q' t"
  using effectsD(1,3,5) [of cfg w q q'] effectsD(4) [of cfg w q q' "the (lane_of (snd (snd t)))"]
  by (auto simp: in_place_def split: option.splits intro: activity_ok_later own_acts_are_job_acts)

lemma effects_tasks:
  assumes "effects cfg w q q'" and "t \<in> set (jq_tasks q')"
  shows "t \<in> set (jq_tasks q) \<or> new_task w q q' t"
  using assms unfolding effects_def by auto

lemma effects_orderly:
  assumes "effects cfg w q q'" and "orderly q"
  shows "orderly q'"
proof -
  from assms(1) obtain ts where ts: "jq_tasks q' = jq_tasks q @ ts" "distinct (map fst ts)" "\<forall>t \<in> set ts. new_task w q q' t"
    unfolding effects_def by blast
  have "fst t < fst u" if "in_place q t" "new_task w q q' u" for t u
    using that by (auto simp: in_place_def new_task_def)
  with assms(2) ts(3) have "set (map fst (jq_tasks q)) \<inter> set (map fst ts) = {}"
    unfolding orderly_def by fastforce
  with assms ts show ?thesis
    by (auto simp: orderly_def intro: in_place_later new_task_in_place)
qed

lemma effects_fresh:
  assumes "effects cfg w q q'" and "n < jq_next q" and "n \<notin> fst ` set (jq_tasks q)"
  shows "n \<notin> fst ` set (jq_tasks q')"
  using assms(2,3) effects_tasks [OF assms(1)] by (force simp: new_task_def)

text \<open>A task that is put back after its run.\<close>

lemma parked_orderly:
  assumes "orderly q" and "n < jq_next q" and "n \<notin> fst ` set (jq_tasks q)"
    and "effects cfg w q (snd x)" and "activity_ok (jq_rows (snd x)) (activity_of (fst x))"
    and "case lane_of (activity_of (fst x)) of Some l \<Rightarrow> slot l q = Some n | None \<Rightarrow> jq_recovery q = Some n"
  shows "orderly (parked n x)"
proof -
  obtain o' q' where x: "x = (o', q')" by fastforce
  note e = assms(4) [unfolded x snd_conv]
  have "orderly q'" by (rule effects_orderly [OF e assms(1)])
  moreover have "n \<notin> fst ` set (jq_tasks q')" by (rule effects_fresh [OF e assms(2,3)])
  moreover have "n < jq_next q'" using effectsD(3) [OF e] assms(2) by simp
  moreover have "case lane_of (activity_of o') of Some l \<Rightarrow> slot l q' = Some n | None \<Rightarrow> jq_recovery q' = Some n"
    using assms(6) effectsD(4,5) [OF e] x by (auto split: option.splits)
  ultimately show ?thesis
    using assms(5) x by (auto simp: orderly_def in_place_def split: option.splits)
qed

section \<open>Moves\<close>

text \<open>Taking a task out for its run.\<close>

definition without_task :: "nat \<Rightarrow> job_queue \<Rightarrow> job_queue" where
  "without_task n q = q\<lparr>jq_tasks := filter (\<lambda>t. fst t \<noteq> n) (jq_tasks q)\<rparr>"

lemma without_task_simps [simp]:
  "jq_rows (without_task n q) = jq_rows q" "jq_next (without_task n q) = jq_next q"
  "jq_log (without_task n q) = jq_log q" "jq_recovery (without_task n q) = jq_recovery q"
  "jq_last_recovery (without_task n q) = jq_last_recovery q" "jq_closed (without_task n q) = jq_closed q"
  "slot l (without_task n q) = slot l q"
  "set (jq_tasks (without_task n q)) = {t \<in> set (jq_tasks q). fst t \<noteq> n}"
  by (simp_all add: without_task_def)

lemma in_place_same:
  assumes "jq_rows q' = jq_rows q" "jq_next q' = jq_next q" "jq_recovery q' = jq_recovery q" "\<And>l. slot l q' = slot l q"
  shows "in_place q' t = in_place q t"
  using assms by (simp add: in_place_def split: option.splits)

lemma without_orderly: "orderly q \<Longrightarrow> orderly (without_task n q)"
  unfolding orderly_def
  by (auto simp: without_task_def distinct_map_filter in_place_same [of "without_task n q" q, unfolded without_task_def])

lemma answer_task_cases:
  obtains (idle) "answer_task cfg w n ans q = q"
  | (run) c a ans' where "(n, c, a) \<in> set (jq_tasks q)" "answer_task cfg w n ans q = continue_task cfg w n a ans' (without_task n q)"
proof (cases "find (\<lambda>t. fst t = n) (jq_tasks q)")
  case None
  then show ?thesis by (intro idle) (simp add: answer_task_def take_task_def)
next
  case (Some t)
  then obtain c a where t: "t = (n, c, a)" "(n, c, a) \<in> set (jq_tasks q)"
    by (cases t) (auto dest: find_Some_iff_in)
  show ?thesis
  proof (cases c)
    case None
    with Some t show ?thesis
      by (intro run [of c a Got_Nothing]) (auto simp: answer_task_def take_task_def without_task_def)
  next
    case (Some d)
    with \<open>find (\<lambda>t. fst t = n) (jq_tasks q) = Some t\<close> t show ?thesis
      by (cases "fits d ans")
        (auto simp: answer_task_def take_task_def without_task_def intro: idle run [of c a ans])
  qed
qed

lemma in_place_freed: "in_place q t \<Longrightarrow> slot l q = Some n \<Longrightarrow> fst t \<noteq> n \<Longrightarrow> in_place (set_slot l v q) t"
  by (cases t; cases "lane_of (snd (snd t))") (auto simp: in_place_def)

lemma in_place_recovered:
  "in_place q t \<Longrightarrow> jq_recovery q = Some n \<Longrightarrow> fst t \<noteq> n \<Longrightarrow> in_place (q\<lparr>jq_recovery := v\<rparr>) t"
  by (cases t; cases "lane_of (snd (snd t))") (auto simp: in_place_def)

text \<open>What holds of every continuation: the effects of its run, and the task in its place again.\<close>

lemma continue_task_orderly:
  assumes "orderly q" and "(n, c, a) \<in> set (jq_tasks q)"
  shows "orderly (continue_task cfg w n a ans (without_task n q))"
proof -
  let ?q = "without_task n q"
  have q: "orderly ?q" by (rule without_orderly [OF assms(1)])
  have n: "n \<notin> fst ` set (jq_tasks ?q)" by auto
  from assms have place: "in_place q (n, c, a)" by (auto simp: orderly_def)
  then have next_n: "n < jq_next ?q" by (simp add: in_place_def)
  have park: "orderly (parked n x)" if "lane_run cfg w l ?q x" "slot l q = Some n" for l x
    by (rule parked_orderly [OF q next_n n, where cfg = cfg and w = w]) (use that in \<open>simp_all add: lane_run_def\<close>)
  show ?thesis
  proof (cases a)
    case (Processing l j f)
    with place have "lane_run cfg w l ?q (continue_job cfg w l j f ans ?q)"
      by (intro continue_job_run) (simp add: in_place_def)
    from park [OF this] Processing place show ?thesis by (simp add: in_place_def)
  next
    case (Between l)
    from park [OF next_job_run] Between place show ?thesis by (simp add: in_place_def)
  next
    case (Settled l)
    with place have slot: "slot l q = Some n" by (simp add: in_place_def)
    have "in_place (set_slot l None ?q) t" if "t \<in> set (jq_tasks ?q)" for t
      by (rule in_place_freed [where n = n]) (use that q slot in \<open>cases t, auto simp: orderly_def\<close>)
    with q slot Settled show ?thesis by (simp add: orderly_def)
  next
    case (Recovering f)
    have "recovery_run cfg w ?q (continue_recovery cfg w f ans ?q)" by (rule continue_recovery_run)
    then have "effects cfg w ?q (snd (continue_recovery cfg w f ans ?q))"
      and none: "lane_of (activity_of (fst (continue_recovery cfg w f ans ?q))) = None"
      by (simp_all add: recovery_run_def)
    moreover from none have "activity_ok rows (activity_of (fst (continue_recovery cfg w f ans ?q)))" for rows
      by (cases "activity_of (fst (continue_recovery cfg w f ans ?q))") auto
    ultimately have "orderly (parked n (continue_recovery cfg w f ans ?q))"
      by (intro parked_orderly [OF q next_n n, where cfg = cfg and w = w]) (use Recovering place in \<open>simp_all add: in_place_def\<close>)
    with Recovering show ?thesis by simp
  next
    case Recovered
    with place have rec: "jq_recovery q = Some n" by (simp add: in_place_def)
    have "in_place (?q\<lparr>jq_recovery := None\<rparr>) t" if "t \<in> set (jq_tasks ?q)" for t
      by (rule in_place_recovered [where n = n]) (use that q rec in \<open>cases t, auto simp: orderly_def\<close>)
    with q rec Recovered show ?thesis by (simp add: orderly_def)
  qed
qed

lemma same_orderly:
  assumes "orderly q" and "jq_rows q' = jq_rows q" "jq_next q' = jq_next q" "jq_recovery q' = jq_recovery q"
    "jq_tasks q' = jq_tasks q" "\<And>l. slot l q' = slot l q"
  shows "orderly q'"
  using assms in_place_same [of q' q] by (simp add: orderly_def)

lemma rows_orderly:
  assumes "orderly q" and "job_act\<^sup>*\<^sup>* (jq_rows q) rows"
  shows "orderly (q\<lparr>jq_rows := rows\<rparr>)"
proof -
  have "in_place (q\<lparr>jq_rows := rows\<rparr>) t" if "in_place q t" for t
  proof -
    obtain n c a where t: "t = (n, c, a)" by (cases t)
    with that activity_ok_later [OF _ assms(2), of a] show ?thesis by (cases "lane_of a") (simp_all add: in_place_def)
  qed
  with assms(1) show ?thesis by (simp add: orderly_def)
qed

lemma resume_effects: "effects cfg w q (resume_at_start cfg w delay q)"
proof -
  let ?q1 = "request_drains cfg w q"
  have "effects cfg w ?q1 (?q1\<lparr>jq_check := Some (ho_now w + delay)\<rparr>)" by (rule effectsI) auto
  with effects_trans [OF request_drains_effects this] show ?thesis
    by (simp add: resume_at_start_def Let_def request_drains_effects)
qed

lemma timer_effects: "effects cfg w q (fire_timer cfg w t q)"
proof -
  let ?q1 = "q\<lparr>jq_timer := None, jq_timers := filter (\<lambda>x. fst x \<noteq> t) (jq_timers q)\<rparr>"
  have "effects cfg w q ?q1" by (rule effectsI) auto
  from effects_trans [OF this request_drains_effects] show ?thesis by (simp add: fire_timer_def)
qed

lemma check_effects: "effects cfg w q (fire_check w q)"
proof -
  have "effects cfg w q (q\<lparr>jq_check := None\<rparr>)" by (rule effectsI) auto
  from effects_trans [OF this request_recovery_effects] show ?thesis
    by (auto simp: fire_check_def split: option.splits)
qed

lemma heartbeat_effects: "effects cfg w q (heartbeat cfg w n q)"
proof -
  have "effects cfg w q (written (renew_claim (lc_store cfg) c (ho_now w) (jq_rows q)) q)" for c
    by (rule written_effects [where op = "Op_Renew c"]) auto
  then show ?thesis by (auto simp: heartbeat_def split: option.splits activity.splits)
qed

text \<open>The moves other than answers, other instances and closing are runs with these effects.\<close>

lemma request_effects:
  assumes "case m of Mv_Answer _ _ \<Rightarrow> False | Mv_Other _ _ \<Rightarrow> False | Mv_Close \<Rightarrow> False | _ \<Rightarrow> True"
  shows "effects cfg w q (do_queue cfg (w, m) q)"
  using assms
  by (cases m) (auto intro: enqueue_effects request_drains_effects resume_effects timer_effects check_effects heartbeat_effects)

lemma close_same:
  "jq_rows (close_queue q) = jq_rows q" "jq_next (close_queue q) = jq_next q" "jq_recovery (close_queue q) = jq_recovery q"
  "jq_tasks (close_queue q) = jq_tasks q" "slot l (close_queue q) = slot l q" "jq_log (close_queue q) = jq_log q"
  "jq_last_recovery (close_queue q) = jq_last_recovery q"
  by (simp_all add: close_queue_def clear_lease_timer_def split: option.splits)

lemma other_acts: "job_act\<^sup>*\<^sup>* rows (job_step s now op rows)"
  by (rule r_into_rtranclp) (auto simp: job_act_def)

lemma move_orderly:
  assumes "orderly q"
  shows "orderly (do_queue cfg (w, m) q)"
proof (cases "case m of Mv_Answer _ _ \<Rightarrow> False | Mv_Other _ _ \<Rightarrow> False | Mv_Close \<Rightarrow> False | _ \<Rightarrow> True")
  case True
  show ?thesis by (rule effects_orderly [OF request_effects [OF True] assms])
next
  case False
  have "orderly (answer_task cfg w n ans q)" for n ans
    by (cases rule: answer_task_cases [of cfg w n ans q]) (simp_all add: assms continue_task_orderly)
  moreover have "orderly (close_queue q)"
    by (rule same_orderly [OF assms]) (simp_all add: close_same)
  ultimately show ?thesis using False assms
    by (cases m) (simp_all add: rows_orderly [OF _ other_acts])
qed

lemma run_orderly: "orderly q \<Longrightarrow> orderly (run_queue cfg ms q)"
proof (induction ms arbitrary: q)
  case (Cons m ms)
  then show ?case by (cases m) (simp add: run_queue_def move_orderly)
qed (simp add: run_queue_def)

lemma new_orderly: "orderly (new_job_queue rows)"
  by (simp add: orderly_def new_job_queue_def)

end
