(* ===== verification/Job_Lanes_Props.thy ===== *)
theory Job_Lanes_Props
  imports Job_Lanes_Effects
begin

text \<open>
  What the worker of the job queue promises: each lane works on one job at a time, it changes no row that
  another instance has claimed, an exhausted allowance stops every call of a model, a stored job is done
  only with a durable receipt, no job is left running, recoveries are single and spaced, and queued jobs are
  worked on.
\<close>

section \<open>One job at a time\<close>

definition jobs_in :: "lane \<Rightarrow> job_queue \<Rightarrow> task_job list" where
  "jobs_in l q = List.map_filter (\<lambda>(n, c, a). case a of Processing k j f \<Rightarrow> if k = l then Some j else None | _ \<Rightarrow> None) (jq_tasks q)"

lemma orderly_one_task:
  assumes "orderly q"
  shows "length (filter (\<lambda>(n, c, a). lane_of a = Some l) (jq_tasks q)) \<le> 1"
proof -
  have "distinct (map fst (filter (\<lambda>(n, c, a). lane_of a = Some l) (jq_tasks q)))"
    using assms by (simp add: orderly_def distinct_map_filter)
  moreover have "set (map fst (filter (\<lambda>(n, c, a). lane_of a = Some l) (jq_tasks q))) \<subseteq> {the (slot l q)}"
    using assms by (auto simp: orderly_def in_place_def)
  ultimately have "length (map fst (filter (\<lambda>(n, c, a). lane_of a = Some l) (jq_tasks q))) \<le> card {the (slot l q)}"
    by (metis card_mono distinct_card finite.emptyI finite.insertI)
  then show ?thesis by simp
qed

lemma orderly_one_recovery:
  assumes "orderly q"
  shows "length (filter (\<lambda>(n, c, a). lane_of a = None) (jq_tasks q)) \<le> 1"
proof -
  have "distinct (map fst (filter (\<lambda>(n, c, a). lane_of a = None) (jq_tasks q)))"
    using assms by (simp add: orderly_def distinct_map_filter)
  moreover have "set (map fst (filter (\<lambda>(n, c, a). lane_of a = None) (jq_tasks q))) \<subseteq> {the (jq_recovery q)}"
    using assms by (auto simp: orderly_def in_place_def)
  ultimately have "length (map fst (filter (\<lambda>(n, c, a). lane_of a = None) (jq_tasks q))) \<le> card {the (jq_recovery q)}"
    by (metis card_mono distinct_card finite.emptyI finite.insertI)
  then show ?thesis by simp
qed

lemma map_filter_fewer: "(\<And>x y. f x = Some y \<Longrightarrow> p x) \<Longrightarrow> length (List.map_filter f xs) \<le> length (filter p xs)"
  by (induction xs) (auto simp: map_filter_simps split: option.splits)

lemma jobs_in_few: "length (jobs_in l q) \<le> length (filter (\<lambda>(n, c, a). lane_of a = Some l) (jq_tasks q))"
  unfolding jobs_in_def by (rule map_filter_fewer) (auto split: activity.splits if_splits)

text \<open>
  Each lane works on one job at a time: under any interleaving of requests, answers, timers, recoveries and
  other instances, at most one chat job and at most one other job of the instance are in work, so the vault
  has one writer.
\<close>

theorem lanes_are_serial:
  "length (jobs_in l (run_queue cfg ms (new_job_queue rows))) \<le> 1 \<and>
     list_all (\<lambda>j. (tj_kind j = Kind_Chat) = (l = Chat_Lane)) (jobs_in l (run_queue cfg ms (new_job_queue rows)))"
proof
  let ?q = "run_queue cfg ms (new_job_queue rows)"
  have q: "orderly ?q" by (rule run_orderly [OF new_orderly])
  show "length (jobs_in l ?q) \<le> 1"
    using jobs_in_few orderly_one_task [OF q] by (rule order_trans)
  have "(tj_kind j = Kind_Chat) = (l = Chat_Lane)" if "(n, c, Processing l j f) \<in> set (jq_tasks ?q)" for n c j f
    using q that by (cases l) (fastforce simp: orderly_def in_place_def)+
  then show "list_all (\<lambda>j. (tj_kind j = Kind_Chat) = (l = Chat_Lane)) (jobs_in l ?q)"
    by (auto simp: list_all_iff jobs_in_def map_filter_def split: activity.splits if_splits)
qed

section \<open>What a continuation does\<close>

definition just_freed :: "job_queue \<Rightarrow> job_queue \<Rightarrow> bool" where
  "just_freed q q' \<longleftrightarrow> jq_rows q' = jq_rows q \<and> jq_log q' = jq_log q \<and> jq_tasks q' = jq_tasks q \<and>
     jq_last_recovery q' = jq_last_recovery q \<and> jq_closed q' = jq_closed q"

lemma continue_task_run:
  assumes "orderly q" and "(n, c, a) \<in> set (jq_tasks q)"
  obtains (ran) x where "continue_task cfg w n a ans (without_task n q) = parked n x"
      and "effects cfg w (without_task n q) (snd x)"
      and "ho_block w \<noteq> None \<and> modest a \<longrightarrow> modest_outcome (fst x)"
  | (freed) "just_freed (without_task n q) (continue_task cfg w n a ans (without_task n q))"
proof (cases a)
  case (Processing l j f)
  from assms Processing have "activity_ok (jq_rows (without_task n q)) (Processing l j f)"
    by (auto simp: orderly_def in_place_def simp del: activity_ok.simps)
  from continue_job_run [OF this, of cfg w ans] continue_job_modest [of f] show ?thesis
    by (intro ran) (auto simp: Processing lane_run_def)
next
  case (Between l)
  from next_job_run [of cfg w l "without_task n q"] next_job_modest [of w cfg l] show ?thesis
    by (intro ran) (auto simp: Between lane_run_def)
next
  case (Settled l)
  then show ?thesis by (intro freed) (cases l; simp add: just_freed_def)
next
  case (Recovering f)
  from continue_recovery_run [of cfg w "without_task n q" f ans] show ?thesis
    by (intro ran) (auto simp: Recovering recovery_run_def)
next
  case Recovered
  then show ?thesis by (intro freed) (simp add: just_freed_def)
qed

section \<open>What the moves keep\<close>

text \<open>An invariant of the rows that every operation of the worker keeps, and what another instance does now, is kept by a move.\<close>

lemma own_acts_keep:
  assumes "(own_act cfg w)\<^sup>*\<^sup>* rows rows'" and "I rows"
    and "\<And>rows op. I rows \<Longrightarrow> own_op (lc_env cfg) rows op \<Longrightarrow> I (job_step (lc_store cfg) (ho_now w) op rows)"
  shows "I rows'"
  using assms(1,2) by (induction rule: rtranclp_induct) (auto simp: own_act_def intro: assms(3))

lemma move_rows_keep:
  assumes "orderly q" and "I (jq_rows q)"
    and own: "\<And>rows op. I rows \<Longrightarrow> own_op (lc_env cfg) rows op \<Longrightarrow> \<forall>s op. m \<noteq> Mv_Other s op \<Longrightarrow>
      I (job_step (lc_store cfg) (ho_now w) op rows)"
    and other: "\<And>s op. m = Mv_Other s op \<Longrightarrow> I (job_step s (ho_now w) op (jq_rows q))"
  shows "I (jq_rows (do_queue cfg (w, m) q))"
proof (cases "\<exists>s op. m = Mv_Other s op")
  case False
  then have own': "I rows \<Longrightarrow> own_op (lc_env cfg) rows op \<Longrightarrow> I (job_step (lc_store cfg) (ho_now w) op rows)" for rows op
    by (intro own) simp_all
  show ?thesis
  proof (cases "case m of Mv_Answer _ _ \<Rightarrow> False | Mv_Other _ _ \<Rightarrow> False | Mv_Close \<Rightarrow> False | _ \<Rightarrow> True")
    case True
    show ?thesis by (rule own_acts_keep [where I = I, OF effectsD(1) [OF request_effects [OF True]] assms(2) own'])
  next
    case unasked: False
    have "I (jq_rows (answer_task cfg w n ans q))" for n ans
    proof (cases rule: answer_task_cases [of cfg w n ans q])
      case (run k a ans')
      from assms(1) run(1) show ?thesis
      proof (cases rule: continue_task_run [where cfg = cfg and w = w and ans = ans'])
        case (ran x)
        have "I (jq_rows (snd x))" by (rule own_acts_keep [where I = I, OF effectsD(1) [OF ran(2)] _ own']) (simp_all add: assms(2))
        with run(2) ran(1) show ?thesis by (cases x) simp
      next
        case freed
        with run(2) assms(2) show ?thesis by (simp add: just_freed_def)
      qed
    qed (simp add: assms(2))
    with False unasked assms(2) show ?thesis by (cases m) (auto simp: close_same)
  qed
qed (use assms(2) in \<open>auto intro: other\<close>)

section \<open>The claims of others\<close>

text \<open>
  A move of the queue before the time \<open>l\<close> that leaves the claim \<open>c\<close> of the instance \<open>s\<close> to it: any move of the worker, and the
  operations that another instance does without that claim.
\<close>

fun leaves_claim :: "job_store \<Rightarrow> job_claim \<Rightarrow> int \<Rightarrow> host \<times> queue_move \<Rightarrow> bool" where
  "leaves_claim s c l (w, Mv_Other s' op) \<longleftrightarrow> outside_claim s c l (s', ho_now w, op)"
| "leaves_claim s c l (w, m) \<longleftrightarrow> ho_now w < l"

lemma move_keeps_claimed:
  assumes "orderly q" and "r \<in> set (jq_rows q)" and "claim_holds s c t r" and "j_lease r = Some l"
    and "js_tenant s \<noteq> []" and "s \<noteq> lc_store cfg" and "leaves_claim s c l (w, m)"
  shows "r \<in> set (jq_rows (do_queue cfg (w, m) q))"
proof (rule move_rows_keep [where I = "\<lambda>rows. r \<in> set rows", OF assms(1,2)])
  have kept: "r \<in> set (job_step s' (ho_now w) op rows)" if "r \<in> set rows" "outside_claim s c l (s', ho_now w, op)" for s' op rows
    by (rule rewritten_stays [OF job_step_rewritten that(1) no_edge_outside_claim [OF assms(3-5) that(2)]])
  fix rows op
  assume own: "r \<in> set rows" "own_op (lc_env cfg) rows op" and m: "\<forall>s op. m \<noteq> Mv_Other s op"
  from own(2) have "blind_update op = None" by (cases op) auto
  moreover from assms(7) m have "ho_now w < l" by (cases m) simp_all
  ultimately show "r \<in> set (job_step (lc_store cfg) (ho_now w) op rows)" using assms(6) own(1) by (intro kept) simp_all
next
  fix s' op
  assume "m = Mv_Other s' op"
  with assms(7) show "r \<in> set (job_step s' (ho_now w) op (jq_rows q))"
    by (intro rewritten_stays [OF job_step_rewritten assms(2) no_edge_outside_claim [OF assms(3-5)]]) simp
qed

text \<open>
  C20. A worker respects the claims of the other instances: from any state that its queue reaches, while the lease of
  another instance on a job runs, no request, answer, timer, recovery or heartbeat of the worker changes the row, so the fence
  of its holder passes until the lease ends. In between other instances do anything without that claim, except for the
  unfenced \<open>update\<close> of the row.
\<close>

theorem workers_respect_claims:
  assumes "r \<in> set (jq_rows (run_queue cfg before (new_job_queue rows)))" and "claim_holds s c now r" and "j_lease r = Some l"
    and "js_tenant s \<noteq> []" and "s \<noteq> lc_store cfg" and "list_all (leaves_claim s c l) ms" and "now' < l"
  shows "r \<in> set (jq_rows (run_queue cfg (before @ ms) (new_job_queue rows))) \<and>
    assert_claim s c now' (jq_rows (run_queue cfg (before @ ms) (new_job_queue rows))) = Inr ()"
proof -
  have "r \<in> set (jq_rows (run_queue cfg ms q))" if "orderly q" and "r \<in> set (jq_rows q)" for q
    using that assms(6)
  proof (induction ms arbitrary: q)
    case (Cons m ms)
    obtain w k where m: "m = (w, k)" by (cases m)
    with Cons.prems have "r \<in> set (jq_rows (do_queue cfg (w, k) q))"
      by (intro move_keeps_claimed [OF _ _ assms(2-5)]) simp_all
    with Cons.IH [OF move_orderly [OF Cons.prems(1)]] Cons.prems(3) m show ?case by (simp add: run_queue_def)
  qed (simp add: run_queue_def)
  from this [OF run_orderly [OF new_orderly] assms(1)]
  have r: "r \<in> set (jq_rows (run_queue cfg (before @ ms) (new_job_queue rows)))" by (simp add: run_queue_def)
  from assms(2,3,7) have "claim_holds s c now' r" by (simp add: claim_holds_def lease_after_def)
  with r show ?thesis by (auto simp: assert_claim_def find_None_iff)
qed

section \<open>No model without allowance\<close>

definition frugal :: "job_queue \<Rightarrow> bool" where
  "frugal q \<longleftrightarrow> orderly q \<and> (\<forall>t \<in> set (jq_tasks q). modest (snd (snd t))) \<and> \<not> list_ex model_entry (jq_log q)"

lemma effects_frugal:
  assumes "effects cfg w q q'" and "ho_block w \<noteq> None" and "frugal q"
  shows "frugal q'"
proof -
  from assms(1) obtain es where "jq_log q' = jq_log q @ es" "ho_block w \<noteq> None \<longrightarrow> \<not> list_ex model_entry es"
    unfolding effects_def by blast
  moreover have "modest (snd (snd t))" if "t \<in> set (jq_tasks q')" for t
    using effects_tasks [OF assms(1) that] assms(2,3) by (auto simp: frugal_def new_task_def)
  ultimately show ?thesis using assms effects_orderly [OF assms(1)] by (auto simp: frugal_def)
qed

lemma without_frugal: "frugal q \<Longrightarrow> frugal (without_task n q)"
  by (auto simp: frugal_def without_orderly)

lemma move_frugal:
  assumes "frugal q" and "ho_block w \<noteq> None"
  shows "frugal (do_queue cfg (w, m) q)"
proof (cases "case m of Mv_Answer _ _ \<Rightarrow> False | Mv_Other _ _ \<Rightarrow> False | Mv_Close \<Rightarrow> False | _ \<Rightarrow> True")
  case True
  show ?thesis by (rule effects_frugal [OF request_effects [OF True] assms(2,1)])
next
  case False
  from assms have q: "orderly q" by (simp add: frugal_def)
  have "frugal (answer_task cfg w n ans q)" for n ans
  proof (cases rule: answer_task_cases [of cfg w n ans q])
    case idle
    with assms show ?thesis by simp
  next
    case (run c a ans')
    note ord = continue_task_orderly [OF q run(1), of cfg w ans']
    from q run(1) show ?thesis
    proof (cases rule: continue_task_run [where cfg = cfg and w = w and ans = ans'])
      case (ran x)
      from effects_frugal [OF ran(2) assms(2) without_frugal [OF assms(1)]] have "frugal (snd x)" .
      moreover from assms run(1) have "modest a" by (auto simp: frugal_def)
      with ran(3) assms(2) have "modest_outcome (fst x)" by simp
      ultimately show ?thesis using ord run(2) ran(1)
        by (cases x; cases "fst x") (auto simp: frugal_def)
    next
      case freed
      with without_frugal [OF assms(1), of n] ord run(2) show ?thesis
        by (simp add: frugal_def just_freed_def)
    qed
  qed
  with False assms show ?thesis
    using move_orderly [OF q, of cfg w m] by (cases m) (auto simp: frugal_def close_same)
qed

text \<open>
  While the allowance is used up no model is called: if \<open>aiAllowanceBlock\<close> answers with a block whenever it is
  asked, then no chat, tasking, storing, filing, transcription or extraction is started, whatever is enqueued.
\<close>

theorem allowance_stops_model_calls:
  assumes "list_all (\<lambda>(w, m). ho_block w \<noteq> None) ms"
  shows "\<not> list_ex model_entry (jq_log (run_queue cfg ms (new_job_queue rows)))"
proof -
  have "frugal (run_queue cfg ms q)" if "frugal q" for q
    using that assms
  proof (induction ms arbitrary: q)
    case (Cons m ms)
    obtain w k where m: "m = (w, k)" by (cases m)
    with Cons move_frugal [OF Cons.prems(1), of w cfg k] show ?case by (simp add: run_queue_def)
  qed (simp add: run_queue_def)
  moreover have "frugal (new_job_queue rows)" by (simp add: frugal_def new_orderly) (simp add: new_job_queue_def)
  ultimately show ?thesis by (simp add: frugal_def)
qed

section \<open>Spaced recoveries\<close>

definition gap :: "int \<Rightarrow> int \<Rightarrow> bool" where
  "gap t u \<longleftrightarrow> recovery_cooldown \<le> u - t"

definition spaced :: "job_queue \<Rightarrow> bool" where
  "spaced q \<longleftrightarrow> orderly q \<and> successively gap (starts (jq_log q)) \<and>
     (starts (jq_log q) \<noteq> [] \<longrightarrow> last (starts (jq_log q)) = jq_last_recovery q)"

lemma effects_spaced:
  assumes "effects cfg w q q'" and "spaced q"
  shows "spaced q'"
proof -
  from assms(1) obtain es where es: "jq_log q' = jq_log q @ es" "recovery_effect w q q' es"
    unfolding effects_def by blast
  with assms(2) effects_orderly [OF assms(1)] show ?thesis
    by (auto simp: spaced_def recovery_effect_def successively_append_iff gap_def)
qed

lemma move_spaced:
  assumes "spaced q"
  shows "spaced (do_queue cfg (w, m) q)"
proof (cases "case m of Mv_Answer _ _ \<Rightarrow> False | Mv_Other _ _ \<Rightarrow> False | Mv_Close \<Rightarrow> False | _ \<Rightarrow> True")
  case True
  show ?thesis by (rule effects_spaced [OF request_effects [OF True] assms])
next
  case False
  from assms have q: "orderly q" by (simp add: spaced_def)
  have without: "spaced (without_task n q)" for n using assms by (simp add: spaced_def without_orderly)
  have "spaced (answer_task cfg w n ans q)" for n ans
  proof (cases rule: answer_task_cases [of cfg w n ans q])
    case idle
    with assms show ?thesis by simp
  next
    case (run c a ans')
    note ord = continue_task_orderly [OF q run(1), of cfg w ans']
    from q run(1) show ?thesis
    proof (cases rule: continue_task_run [where cfg = cfg and w = w and ans = ans'])
      case (ran x)
      from effects_spaced [OF ran(2) without] have "spaced (snd x)" .
      with ord run(2) ran(1) show ?thesis
        by (cases x; cases "fst x") (auto simp: spaced_def)
    next
      case freed
      with without [of n] ord run(2) show ?thesis by (simp add: spaced_def just_freed_def)
    qed
  qed
  with False assms show ?thesis
    using move_orderly [OF q, of cfg w m] by (cases m) (auto simp: spaced_def close_same)
qed

text \<open>
  The self-healing of the vault is single-flight and throttled: at most one recovery is under way, and
  any two recoveries in a row start at least five minutes apart, however many jobs fail.
\<close>

theorem recoveries_are_spaced:
  "successively (\<lambda>t u. t + 300000 \<le> u) (starts (jq_log (run_queue cfg ms (new_job_queue rows)))) \<and>
     length (filter (\<lambda>(n, c, a). lane_of a = None) (jq_tasks (run_queue cfg ms (new_job_queue rows)))) \<le> 1"
proof -
  have "spaced (run_queue cfg ms q)" if "spaced q" for q
    using that
  proof (induction ms arbitrary: q)
    case (Cons m ms)
    obtain w k where m: "m = (w, k)" by (cases m)
    with Cons move_spaced [OF Cons.prems(1), of cfg w k] show ?case by (simp add: run_queue_def)
  qed (simp add: run_queue_def)
  moreover have "spaced (new_job_queue rows)" by (simp add: spaced_def new_orderly) (simp add: new_job_queue_def)
  ultimately have q: "spaced (run_queue cfg ms (new_job_queue rows))" by simp
  then have "successively gap (starts (jq_log (run_queue cfg ms (new_job_queue rows))))" by (simp add: spaced_def)
  then have "successively (\<lambda>t u. t + 300000 \<le> u) (starts (jq_log (run_queue cfg ms (new_job_queue rows))))"
    by (rule successively_mono) (simp add: gap_def recovery_cooldown_def)
  moreover from q have "length (filter (\<lambda>(n, c, a). lane_of a = None) (jq_tasks (run_queue cfg ms (new_job_queue rows)))) \<le> 1"
    by (intro orderly_one_recovery) (simp add: spaced_def)
  ultimately show ?thesis by simp
qed

section \<open>Done means durable\<close>

definition receipt_ok :: "receipt_env \<Rightarrow> job_row \<Rightarrow> bool" where
  "receipt_ok env r \<longleftrightarrow>
     (j_status r = Job_Done \<and> needs_receipt (j_kind r) \<longrightarrow>
        (case j_result r of None \<Rightarrow> False | Some v \<Rightarrow> result_ok env (j_kind r) v))"

definition receipts_kept :: "receipt_env \<Rightarrow> jobs \<Rightarrow> bool" where
  "receipts_kept env rows \<longleftrightarrow> distinct (map j_id rows) \<and> (\<forall>r \<in> set rows. receipt_ok env r)"

lemma edge_receipt:
  assumes "job_edge s now op r r'" and "blind_update op = None" and "\<And>c p. op \<noteq> Op_Update_Claimed c p" and "receipt_ok env r"
  shows "receipt_ok env r'"
  using assms by (cases rule: job_edge.cases)
    (auto simp: receipt_ok_def requeued_capture_def interrupted_job_def unclaimed_def claimed_job_def fresh_budget_def claim_holds_def
      split: option.splits)

lemma known_kind:
  assumes "distinct (map j_id rows)" and "job_known rows j" and "r \<in> set rows" and "j_id r = tj_id j"
  shows "j_kind r = tj_kind j"
proof -
  from assms(2) obtain r' where "r' \<in> set rows" "j_id r' = tj_id j" "j_kind r' = tj_kind j" by (auto simp: job_known_def)
  with assms show ?thesis by (metis distinct_map inj_onD)
qed

lemma step_ids: "distinct (map j_id rows) \<Longrightarrow> distinct (map j_id (job_step s now op rows))"
  by (rule job_ids.act_keeps [where s = rows]) (unfold job_act_def, blast)

lemma done_receipt:
  assumes "receipts_kept env rows" and "job_known rows j" and "result_ok env (tj_kind j) v"
    and "r \<in> set rows" and "claim_holds s (claim_of j) now r"
  shows "receipt_ok env (patched (done_patch v) True now r)"
proof -
  from assms(5) have "j_id r = tj_id j" by (simp add: claim_holds_def claim_of_def)
  with known_kind [OF _ assms(2,4)] assms(1,3) show ?thesis
    by (auto simp: receipts_kept_def receipt_ok_def patched_def done_patch_def unclaimed_def Let_def)
qed

lemma error_receipt: "receipt_ok env (patched (error_patch m) True now r)"
  by (simp add: receipt_ok_def patched_def error_patch_def unclaimed_def Let_def)

fun opens_store :: "job_op \<Rightarrow> bool" where
  "opens_store (Op_Open _ _) \<longleftrightarrow> True"
| "opens_store _ \<longleftrightarrow> False"

lemma worker_step_receipts:
  assumes "receipts_kept env rows" and "own_op env rows op \<or> opens_store op"
  shows "receipts_kept env (job_step s now op rows)"
proof -
  have "distinct (map j_id (job_step s now op rows))"
    using assms(1) by (simp add: step_ids receipts_kept_def del: job_step.simps)
  moreover have "\<forall>r \<in> set (job_step s now op rows). receipt_ok env r"
  proof (cases "\<exists>c p. op = Op_Update_Claimed c p")
    case True
    then obtain c p where op: "op = Op_Update_Claimed c p" by blast
    from assms(2) consider m where "p = error_patch m"
      | j v where "p = done_patch v" "c = claim_of j" "job_known rows j" "result_ok env (tj_kind j) v"
      by (auto simp: op)
    then have "receipt_ok env (patched p True now r)" if "r \<in> set rows" "claim_holds s c now r" for r
      using that by cases (simp_all add: error_receipt done_receipt [OF assms(1)])
    moreover have "receipt_ok env r" if "r \<in> set rows" for r
      using assms(1) that by (simp add: receipts_kept_def)
    ultimately have "\<forall>r \<in> set (update_where (claim_holds s c now) (patched p True now) rows). receipt_ok env r"
      by (auto simp: update_where_def)
    moreover have "\<not> empty_patch p" using assms(2) by (auto simp: op empty_patch_def error_patch_def done_patch_def)
    ultimately show ?thesis by (simp add: op update_claimed_def apply_patch_def)
  next
    case False
    moreover from False assms(2) have "blind_update op = None" by (cases op) auto
    ultimately have "receipt_ok env r'" if "job_edge s now op r r'" "receipt_ok env r" for r r'
      using edge_receipt that by blast
    moreover have "\<forall>r \<in> set rows. receipt_ok env r" using assms(1) by (simp add: receipts_kept_def)
    ultimately show ?thesis
      by (intro rewritten_all [OF job_step_rewritten]) (auto simp: fresh_job_def receipt_ok_def)
  qed
  ultimately show ?thesis by (simp add: receipts_kept_def)
qed

text \<open>The other instances are workers, too, or open the store.\<close>

fun others_work :: "lane_config \<Rightarrow> (host \<times> queue_move) list \<Rightarrow> job_queue \<Rightarrow> bool" where
  "others_work cfg [] q \<longleftrightarrow> True"
| "others_work cfg (m # ms) q \<longleftrightarrow>
     (case snd m of Mv_Other s op \<Rightarrow> own_op (lc_env cfg) (jq_rows q) op \<or> opens_store op | _ \<Rightarrow> True) \<and>
     others_work cfg ms (do_queue cfg m q)"

lemma move_receipts:
  assumes "orderly q" and "receipts_kept (lc_env cfg) (jq_rows q)"
    and "case m of Mv_Other s op \<Rightarrow> own_op (lc_env cfg) (jq_rows q) op \<or> opens_store op | _ \<Rightarrow> True"
  shows "receipts_kept (lc_env cfg) (jq_rows (do_queue cfg (w, m) q))"
  using assms by (intro move_rows_keep [where I = "receipts_kept (lc_env cfg)"]) (auto intro: worker_step_receipts)

text \<open>
  C23. Done means durable: a capture or a filing that the workers have marked done carries a receipt that passes
  the check of durable receipts, and work that claims a commit carries one, too.
\<close>

theorem done_means_durable:
  assumes "others_work cfg ms (new_job_queue [])"
  shows "list_all (receipt_ok (lc_env cfg)) (jq_rows (run_queue cfg ms (new_job_queue [])))"
proof -
  have "receipts_kept (lc_env cfg) (jq_rows (run_queue cfg ms q))"
    if "orderly q" "receipts_kept (lc_env cfg) (jq_rows q)" "others_work cfg ms q" for q
    using that
  proof (induction ms arbitrary: q)
    case (Cons m ms)
    obtain w k where m: "m = (w, k)" by (cases m)
    with Cons.prems have "receipts_kept (lc_env cfg) (jq_rows (do_queue cfg (w, k) q))"
      by (intro move_receipts) auto
    with Cons m move_orderly [OF Cons.prems(1), of cfg w k] show ?case by (simp add: run_queue_def)
  qed (simp add: run_queue_def)
  from this [OF new_orderly _ assms] show ?thesis
    by (simp add: receipts_kept_def new_job_queue_def list_all_iff)
qed

section \<open>No job is left running\<close>

text \<open>The claim of a job is given up: no row is held by it.\<close>

definition given_up :: "lane_config \<Rightarrow> host \<Rightarrow> task_job \<Rightarrow> job_queue \<Rightarrow> bool" where
  "given_up cfg w j q \<longleftrightarrow> (\<forall>r \<in> set (jq_rows q). \<not> claim_holds (lc_store cfg) (claim_of j) (ho_now w) r)"

lemma update_clears:
  assumes "\<And>r. h r \<Longrightarrow> p r \<Longrightarrow> \<not> h (f r)" and "\<And>r. r \<in> set rows \<Longrightarrow> h r \<Longrightarrow> p r"
  shows "\<forall>r \<in> set (update_where p f rows). \<not> h r \<or> (\<exists>q \<in> set rows. p q \<and> \<not> h q)"
proof
  fix r
  assume "r \<in> set (update_where p f rows)"
  then obtain q where q: "q \<in> set rows" "r = (if p q then f q else q)" by (auto simp: in_update_where)
  show "\<not> h r \<or> (\<exists>q \<in> set rows. p q \<and> \<not> h q)"
    using q assms by (cases "p q"; cases "h q") auto
qed

lemma released: "j_status r \<noteq> Job_Running \<Longrightarrow> \<not> claim_holds s c now r"
  by (simp add: claim_holds_def)

lemma patched_status: "jp_status p = Some st \<Longrightarrow> st \<noteq> Job_Running \<Longrightarrow> j_status (patched p True now r) = st"
  by (simp add: patched_def unclaimed_def Let_def)

lemma update_gives_up:
  assumes "jp_status p = Some st" and "st \<noteq> Job_Running"
  shows "given_up cfg w j (written (update_claimed (lc_store cfg) (claim_of j) p (ho_now w) rows) q)"
proof -
  let ?h = "claim_holds (lc_store cfg) (claim_of j) (ho_now w)"
  have "\<not> ?h (patched p True (ho_now w) r)" for r
    by (rule released) (simp add: patched_status [OF assms] assms(2))
  then have "\<forall>r \<in> set (update_where ?h (patched p True (ho_now w)) rows). \<not> ?h r"
    using update_clears [of ?h ?h "patched p True (ho_now w)" rows] by blast
  with assms(1) show ?thesis
    by (simp add: given_up_def written_def update_claimed_def apply_patch_def empty_patch_def)
qed

lemma refile_gives_up:
  assumes "fst (requeue_filing (lc_store cfg) (claim_of j) v m (ho_now w) rows)" and "distinct (map j_id rows)"
  shows "given_up cfg w j (written (requeue_filing (lc_store cfg) (claim_of j) v m (ho_now w) rows) q)"
proof -
  let ?h = "claim_holds (lc_store cfg) (claim_of j) (ho_now w)"
  let ?p = "\<lambda>r. ?h r \<and> j_kind r = Kind_Enrich \<and> j_attempts r < max_filing_attempts"
  from assms(1) have "filter ?p rows \<noteq> []" by (auto simp: requeue_filing_def update_one_def count_where_def)
  then obtain r where r: "r \<in> set rows" "?p r" by (auto simp: filter_empty_conv)
  have only: "?p q" if "q \<in> set rows" "?h q" for q
  proof -
    from that r have "j_id q = j_id r" by (simp add: claim_holds_def)
    with that(1) r(1) assms(2) have "q = r" by (metis distinct_map inj_onD)
    with r show ?thesis by simp
  qed
  define f where "f = (\<lambda>r. (unclaimed (ho_now w) r)\<lparr>j_status := Job_Queued,
          j_result := (case v of None \<Rightarrow> j_result r | Some v \<Rightarrow> Some v), j_error := m,
          j_attempts := j_attempts r + 1\<rparr>)"
  have "\<not> ?h (f r)" for r by (rule released) (simp add: f_def)
  then have "\<forall>r \<in> set (update_where ?p f rows). \<not> ?h r"
    using update_clears [of ?h ?p f rows] only by blast
  then show ?thesis by (simp add: given_up_def written_def requeue_filing_def f_def)
qed

lemma finish_gives_up: "given_up cfg w j (finish_job cfg w j v q)"
  unfolding finish_job_def by (rule update_gives_up [where st = Job_Done]) (simp_all add: done_patch_def)

lemma distinct_written:
  assumes "distinct (map j_id (jq_rows q))" and "snd x = job_step s now op (jq_rows q)"
  shows "distinct (map j_id (jq_rows (written x q)))"
  using assms by (simp add: written_def step_ids del: job_step.simps)

lemma fail_gives_up:
  assumes "distinct (map j_id (jq_rows q))"
  shows "given_up cfg w j (fail_job cfg w j th q)"
proof -
  let ?s = "lc_store cfg" and ?c = "claim_of j" and ?now = "ho_now w" and ?m = "th_message th"
  let ?answered = "update_claimed ?s ?c (done_patch (reply_json ?m)) ?now (jq_rows q)"
  define q1 where "q1 = (if tj_kind j = Kind_Chat \<and> th_allowance th then written ?answered q else q)"
  define q2 where "q2 = (if ?m = recovery_pending then request_recovery w q1 else q1)"
  define q3 where "q3 = (if tj_kind j = Kind_Enrich \<and> th_retryable th
    then written (resume_publication_failure ?s ?c ?m ?now (jq_rows q2)) q2 else q2)"
  have 1: "given_up cfg w j (written ?answered q)"
    by (rule update_gives_up [where st = Job_Done]) (simp_all add: done_patch_def)
  have "jq_rows q2 = jq_rows q1" by (simp add: q2_def request_recovery_def)
  moreover have "distinct (map j_id (jq_rows q1))"
    using assms distinct_written [OF assms update_claimed_step] by (simp add: q1_def)
  ultimately have "distinct (map j_id (jq_rows q2))" by simp
  then have 2: "given_up cfg w j (written (resume_publication_failure ?s ?c ?m ?now (jq_rows q2)) q2)"
    if "fst (resume_publication_failure ?s ?c ?m ?now (jq_rows q2))"
    using that by (simp add: resume_publication_failure_def refile_gives_up)
  have 3: "given_up cfg w j (written (update_claimed ?s ?c (error_patch ?m) ?now (jq_rows q3)) q3)"
    by (rule update_gives_up [where st = Job_Error]) (simp_all add: error_patch_def)
  have "fail_job cfg w j th q =
     (if tj_kind j = Kind_Chat \<and> th_allowance th \<and> fst ?answered then written ?answered q
      else if tj_kind j = Kind_Enrich \<and> th_retryable th \<and> fst (resume_publication_failure ?s ?c ?m ?now (jq_rows q2))
      then written (resume_publication_failure ?s ?c ?m ?now (jq_rows q2)) q2
      else written (update_claimed ?s ?c (error_patch ?m) ?now (jq_rows q3)) q3)"
    unfolding fail_job_def Let_def q1_def [symmetric] q2_def [symmetric] q3_def [symmetric] by simp
  with 1 2 3 show ?thesis by simp
qed

text \<open>A job whose run is over, or waits for the notification of its result only.\<close>

fun over :: "outcome \<Rightarrow> bool" where
  "over (Goes (Between l)) \<longleftrightarrow> True"
| "over (Waits (Notify_Capture v) a) \<longleftrightarrow> True"
| "over _ \<longleftrightarrow> False"

lemma enrich_gives_up:
  assumes "distinct (map j_id (jq_rows q))"
  shows "given_up cfg w j (snd (enrich_result cfg w l j v q))"
proof -
  let ?s = "lc_store cfg" and ?c = "claim_of j"
  let ?pending = "resume_pending ?s ?c v (ho_now w) (jq_rows q)"
  let ?q1 = "written ?pending q"
  have "given_up cfg w j ?q1" if "fst ?pending"
    using that assms by (auto simp: resume_pending_def refile_gives_up split: if_splits)
  moreover have "given_up cfg w j (written (update_claimed ?s ?c (done_patch v) (ho_now w) (jq_rows ?q1)) ?q1)"
    by (rule update_gives_up [where st = Job_Done]) (simp_all add: done_patch_def)
  ultimately show ?thesis by (simp add: enrich_result_def Let_def)
qed

lemma given_up_same: "jq_rows q' = jq_rows q \<Longrightarrow> given_up cfg w j q' = given_up cfg w j q"
  by (simp add: given_up_def)

lemmas ends_of_process = failed_def finished_def fail_gives_up finish_gives_up

lemma model_result_gives_up:
  "distinct (map j_id (jq_rows q)) \<Longrightarrow> given_up cfg w j (snd (model_result cfg w l j v q))"
  by (simp add: model_result_def ends_of_process enrich_gives_up split: job_kind.splits sum.splits)

lemma engine_call_goes_on: "engine_call j en = Inr c \<Longrightarrow> \<not> over (Waits c a)"
  by (auto simp: engine_call_def Let_def split: job_kind.splits if_splits)

lemma process_gives_up:
  "distinct (map j_id (jq_rows q)) \<Longrightarrow> over (fst (process cfg w l j q)) \<Longrightarrow> given_up cfg w j (snd (process cfg w l j q))"
  by (auto simp: process_def over_allowance_def ends_of_process split: option.splits if_splits)

text \<open>
  C21. No job is left running: whenever the run of a job is over, with a result, a refusal or any error of the host,
  its claim holds no row any more; the job is done, failed, queued again, or was lost to another claim before.
\<close>

theorem no_job_left_running:
  assumes "distinct (map j_id (jq_rows q))" and "f \<noteq> P_Notified"
    and "continue_job cfg w l j f ans q = (o', q') \<and> over o' \<or> process cfg w l j q = (o', q') \<and> over o'"
  shows "assert_claim (lc_store cfg) (claim_of j) (ho_now w) (jq_rows q') = Inl (Job_Failure ''task_job_claim_lost'')"
proof -
  have "given_up cfg w j (snd (continue_job cfg w l j f ans q))" if "over (fst (continue_job cfg w l j f ans q))"
    using that assms(1,2)
    by (cases f)
      (auto simp: stays_def rethrown_def routed_def media_captured_def Let_def ends_of_process model_result_gives_up
          dest: engine_call_goes_on
        split: answer.splits sum.splits option.splits media_plan.splits prod.splits if_splits)
  with assms(1,3) process_gives_up [OF assms(1), of cfg w l j] have "given_up cfg w j q'" by auto
  then show ?thesis by (auto simp: assert_claim_def find_None_iff given_up_def)
qed

end
