(* ===== verification/Job_Lanes_Service.thy ===== *)
theory Job_Lanes_Service
  imports Job_Lanes_Props
begin

text \<open>
  Queued jobs are worked on: while the worker is open, undisturbed by other instances and recoveries, and the end of
  a drain is noticed before anything else happens, a lane with a queued job is at work. The second half is
  needed: a job that is enqueued between the end of a drain and its \<open>finally\<close> waits for the next request.
\<close>

section \<open>Waiting jobs and busy lanes\<close>

definition lane_waiting :: "lane_config \<Rightarrow> lane \<Rightarrow> jobs \<Rightarrow> bool" where
  "lane_waiting cfg l rows \<longleftrightarrow> list_ex (\<lambda>r. queued_for (lc_store cfg) r \<and> j_kind r \<in> set (lane_kinds l)) rows"

fun is_settled :: "activity \<Rightarrow> bool" where
  "is_settled (Settled l) \<longleftrightarrow> True"
| "is_settled _ \<longleftrightarrow> False"

fun is_recovering :: "activity \<Rightarrow> bool" where
  "is_recovering (Recovering f) \<longleftrightarrow> True"
| "is_recovering _ \<longleftrightarrow> False"

definition lane_busy :: "lane \<Rightarrow> job_queue \<Rightarrow> bool" where
  "lane_busy l q \<longleftrightarrow> list_ex (\<lambda>(n, c, a). lane_of a = Some l \<and> \<not> is_settled a) (jq_tasks q)"

definition served :: "lane_config \<Rightarrow> lane \<Rightarrow> job_queue \<Rightarrow> bool" where
  "served cfg l q \<longleftrightarrow> (lane_waiting cfg l (jq_rows q) \<longrightarrow> lane_busy l q)"

lemma lane_kinds_apart: "k \<in> set (lane_kinds l) \<Longrightarrow> k \<in> set (lane_kinds l') \<Longrightarrow> l = l'"
  by (cases l; cases l') auto

text \<open>Writes that put no new job in front of a lane.\<close>

definition no_new :: "lane_config \<Rightarrow> lane \<Rightarrow> jobs \<Rightarrow> jobs \<Rightarrow> bool" where
  "no_new cfg l rows rows' \<longleftrightarrow> (lane_waiting cfg l rows' \<longrightarrow> lane_waiting cfg l rows)"

lemma no_new_refl [simp]: "no_new cfg l rows rows"
  by (simp add: no_new_def)

lemma no_new_trans: "no_new cfg l rows rows1 \<Longrightarrow> no_new cfg l rows1 rows2 \<Longrightarrow> no_new cfg l rows rows2"
  by (simp add: no_new_def)

lemma no_new_update:
  assumes "\<And>r. r \<in> set rows \<Longrightarrow> p r \<Longrightarrow> j_status (f r) \<noteq> Job_Queued \<or> j_kind (f r) \<notin> set (lane_kinds l)"
  shows "no_new cfg l rows (update_where p f rows)"
proof -
  have "\<exists>r \<in> set rows. queued_for (lc_store cfg) r \<and> j_kind r \<in> set (lane_kinds l)"
    if r: "r' \<in> set (update_where p f rows)" and w: "queued_for (lc_store cfg) r'" "j_kind r' \<in> set (lane_kinds l)" for r'
  proof -
    from r obtain r where "r \<in> set rows" "r' = (if p r then f r else r)" by (auto simp: in_update_where)
    with assms [of r] w show ?thesis by (cases "p r") (auto simp: queued_for_def)
  qed
  then show ?thesis by (auto simp: no_new_def lane_waiting_def list_ex_iff)
qed

lemma no_new_claimed_patch:
  assumes "jp_status p = Some st" and "st \<noteq> Job_Queued"
  shows "no_new cfg l rows (snd (update_claimed s c p now rows))"
  using assms
  by (auto simp: update_claimed_def apply_patch_def patched_def unclaimed_def Let_def intro!: no_new_update split: if_splits)

lemma no_new_finish: "no_new cfg l (jq_rows q) (jq_rows (finish_job cfg w j v q))"
  unfolding finish_job_def written_def by (simp add: no_new_claimed_patch [where st = Job_Done] done_patch_def)

lemma no_new_refile:
  assumes "job_known rows j" and "distinct (map j_id rows)" and "tj_kind j \<notin> set (lane_kinds l)"
  shows "no_new cfg l rows (snd (requeue_filing s (claim_of j) v m now rows))"
proof -
  have "j_kind r = tj_kind j" if "r \<in> set rows" "claim_holds s (claim_of j) now r" for r
  proof -
    from assms(1) obtain r' where "r' \<in> set rows" "j_id r' = tj_id j" "j_kind r' = tj_kind j" by (auto simp: job_known_def)
    moreover from that(2) have "j_id r = tj_id j" by (simp add: claim_holds_def claim_of_def)
    ultimately show ?thesis using that(1) assms(2) by (metis distinct_map inj_onD)
  qed
  with assms(3) show ?thesis
    by (auto simp: requeue_filing_def unclaimed_def intro!: no_new_update)
qed

lemma known_claimed:
  assumes "job_known rows j" "snd x = job_step s now op rows"
  shows "job_known (snd x) j"
  using assms by (simp add: step_known del: job_step.simps)

lemma claimed_ids: "distinct (map j_id rows) \<Longrightarrow> distinct (map j_id (snd (update_claimed s c p now rows)))"
  using step_ids [of rows s now "Op_Update_Claimed c p"] by simp

lemma rows_request_recovery [simp]: "jq_rows (request_recovery w q) = jq_rows q"
  by (simp add: request_recovery_def)

lemma no_new_fail:
  assumes "job_known (jq_rows q) j" and "distinct (map j_id (jq_rows q))" and "tj_kind j \<notin> set (lane_kinds l)"
  shows "no_new cfg l (jq_rows q) (jq_rows (fail_job cfg w j th q))"
proof -
  let ?s = "lc_store cfg" and ?c = "claim_of j" and ?now = "ho_now w" and ?m = "th_message th"
  let ?answered = "update_claimed ?s ?c (done_patch (reply_json ?m)) ?now (jq_rows q)"
  define q1 where "q1 = (if tj_kind j = Kind_Chat \<and> th_allowance th then written ?answered q else q)"
  define q2 where "q2 = (if ?m = recovery_pending then request_recovery w q1 else q1)"
  define q3 where "q3 = (if tj_kind j = Kind_Enrich \<and> th_retryable th
    then written (resume_publication_failure ?s ?c ?m ?now (jq_rows q2)) q2 else q2)"
  have a: "no_new cfg l (jq_rows q) (snd ?answered)"
    by (rule no_new_claimed_patch [where st = Job_Done]) (simp_all add: done_patch_def)
  then have 1: "no_new cfg l (jq_rows q) (jq_rows q2)" by (simp add: q1_def q2_def written_def)
  have "job_known (jq_rows q2) j" "distinct (map j_id (jq_rows q2))"
    using assms(1,2) known_claimed [OF assms(1) update_claimed_step] job_ids.act_keeps
    by (auto simp: q1_def q2_def written_def claimed_ids)
  from no_new_refile [OF this assms(3)]
  have 2: "no_new cfg l (jq_rows q2) (jq_rows q3)"
    by (simp add: q3_def written_def resume_publication_failure_def)
  have 3: "no_new cfg l (jq_rows q3) (snd (update_claimed ?s ?c (error_patch ?m) ?now (jq_rows q3)))"
    by (rule no_new_claimed_patch [where st = Job_Error]) (simp_all add: error_patch_def)
  have "fail_job cfg w j th q =
     (if tj_kind j = Kind_Chat \<and> th_allowance th \<and> fst ?answered then written ?answered q
      else if tj_kind j = Kind_Enrich \<and> th_retryable th \<and> fst (resume_publication_failure ?s ?c ?m ?now (jq_rows q2)) then q3
      else written (update_claimed ?s ?c (error_patch ?m) ?now (jq_rows q3)) q3)"
    unfolding fail_job_def Let_def q1_def [symmetric] q2_def [symmetric] q3_def [symmetric]
    by (auto simp: q3_def)
  with a no_new_trans [OF 1 2] no_new_trans [OF no_new_trans [OF 1 2] 3] show ?thesis
    by (simp add: written_def)
qed

section \<open>The loop of a lane\<close>

lemma finished_no_new: "no_new cfg k (jq_rows q) (jq_rows (snd (finished cfg w l j v q)))"
  by (simp add: finished_def no_new_finish)

lemma failed_no_new:
  assumes "job_known (jq_rows q) j" and "distinct (map j_id (jq_rows q))" and "tj_kind j \<in> set (lane_kinds l)" and "k \<noteq> l"
  shows "no_new cfg k (jq_rows q) (jq_rows (snd (failed cfg w l j th q)))"
  using assms lane_kinds_apart by (auto simp: failed_def intro!: no_new_fail)

lemma process_no_new:
  assumes "job_known (jq_rows q) j" and "distinct (map j_id (jq_rows q))" and "tj_kind j \<in> set (lane_kinds l)" and "k \<noteq> l"
  shows "no_new cfg k (jq_rows q) (jq_rows (snd (process cfg w l j q)))"
  using failed_no_new [OF assms] finished_no_new
  by (auto simp: process_def over_allowance_def split: option.splits)

lemma process_active: "\<not> is_settled (activity_of (fst (process cfg w l j q)))"
  by (auto simp: process_def over_allowance_def failed_def finished_def split: option.splits)

lemma claim_no_new: "no_new cfg k rows (snd (claim_next_queued (lc_store cfg) token now kinds rows))"
  by (auto simp: claim_next_queued_def claimed_job_def intro!: no_new_update split: option.splits)

lemma next_job_no_new:
  assumes "distinct (map j_id (jq_rows q))" and "k \<noteq> l"
  shows "no_new cfg k (jq_rows q) (jq_rows (snd (next_job cfg w l q)))"
proof -
  obtain v rows where c: "claim_next_queued (lc_store cfg) (ho_token w l) (ho_now w) (Some (lane_kinds l)) (jq_rows q) = (v, rows)"
    by fastforce
  with claim_no_new [of cfg k "jq_rows q" "ho_token w l" "ho_now w"] have 1: "no_new cfg k (jq_rows q) rows" by (metis snd_conv)
  show ?thesis
  proof (cases v)
    case None
    with c 1 show ?thesis by (simp add: next_job_def schedule_lease_recovery_def Let_def split: option.splits)
  next
    case (Some j)
    from step_ids [OF assms(1), of "lc_store cfg" "ho_now w" "Op_Claim (ho_token w l) (Some (lane_kinds l))"] c
    have "distinct (map j_id rows)" by simp
    with claim_known [OF c [unfolded Some]]
    have "no_new cfg k rows (jq_rows (snd (process cfg w l j (q\<lparr>jq_rows := rows\<rparr>))))"
      using process_no_new [of "q\<lparr>jq_rows := rows\<rparr>" j l k cfg w] assms(2) by simp
    with no_new_trans [OF 1] c Some show ?thesis by (simp add: next_job_def)
  qed
qed

text \<open>A lane whose loop ends has nothing queued.\<close>

lemma order_by_Nil: "order_by f xs = [] \<longleftrightarrow> xs = []"
  by (metis set_empty set_order_by)

lemma next_job_settles:
  assumes "is_settled (activity_of (fst (next_job cfg w l q)))"
  shows "\<not> lane_waiting cfg l (jq_rows (snd (next_job cfg w l q)))"
proof -
  obtain v rows where c: "claim_next_queued (lc_store cfg) (ho_token w l) (ho_now w) (Some (lane_kinds l)) (jq_rows q) = (v, rows)"
    by fastforce
  with assms process_active have v: "v = None" by (cases v) (auto simp: next_job_def)
  have "lane_kinds l \<noteq> []" by (cases l) auto
  with c v have rows: "rows = jq_rows q"
    and "filter (\<lambda>r. queued_for (lc_store cfg) r \<and> j_kind r \<in> set (lane_kinds l)) (jq_rows q) = []"
    by (auto simp: claim_next_queued_def first_row_None order_by_Nil split: option.splits)
  then have "\<not> lane_waiting cfg l (jq_rows q)"
    by (auto simp: lane_waiting_def list_ex_iff filter_empty_conv)
  with c v rows show ?thesis
    by (simp add: next_job_def schedule_lease_recovery_def Let_def split: option.splits)
qed

lemma recover_no_new_chat: "no_new cfg Chat_Lane rows (recover_expired_running s now rows)"
proof -
  have "no_new cfg Chat_Lane rows' (update_where p (interrupted_job now) rows')" for p rows'
    by (rule no_new_update) (simp add: interrupted_job_def)
  moreover have "no_new cfg Chat_Lane rows (update_where (\<lambda>r. of_tenant s r \<and> j_status r = Job_Running \<and> capture_kind (j_kind r) \<and>
            j_attempts r < max_capture_attempts \<and> lease_lapsed now r) (requeued_capture now) rows)"
    by (rule no_new_update) (auto simp: requeued_capture_def unclaimed_def capture_kind_def)
  ultimately show ?thesis unfolding recover_expired_running_def by (blast intro: no_new_trans)
qed

lemma rows_clear [simp]: "jq_rows (clear_lease_timer q) = jq_rows q"
  by (simp add: clear_lease_timer_def split: option.splits)

lemma drain_settles:
  "is_settled (activity_of (fst (drain cfg w l q))) \<Longrightarrow> \<not> lane_waiting cfg l (jq_rows (snd (drain cfg w l q)))"
  by (simp add: drain_def Let_def next_job_settles)

lemma durable_drain_no_new:
  assumes "distinct (map j_id (jq_rows q))"
  shows "no_new cfg Chat_Lane (jq_rows q) (jq_rows (snd (drain cfg w Durable_Lane q)))"
proof -
  let ?rows = "recover_expired_running (lc_store cfg) (ho_now w) (jq_rows q)"
  let ?q1 = "(clear_lease_timer q)\<lparr>jq_rows := ?rows\<rparr>"
  from step_ids [OF assms, of "lc_store cfg" "ho_now w" Op_Recover] have "distinct (map j_id (jq_rows ?q1))" by simp
  from next_job_no_new [OF this, of Chat_Lane Durable_Lane cfg w] recover_no_new_chat no_new_trans
  show ?thesis by (fastforce simp: drain_def Let_def)
qed

section \<open>Requests\<close>

lemma effects_busy: "effects cfg w q q' \<Longrightarrow> lane_busy l q \<Longrightarrow> lane_busy l q'"
  unfolding effects_def lane_busy_def by auto

lemma effects_ids: "effects cfg w q q' \<Longrightarrow> distinct (map j_id (jq_rows q)) \<Longrightarrow> distinct (map j_id (jq_rows q'))"
  by (rule job_ids.run_keeps [OF own_acts_are_job_acts [OF effectsD(1)]])

lemma request_lane_serves:
  assumes "slot l q = None"
  shows "served cfg l (request_lane cfg w l q)"
proof -
  let ?q0 = "q\<lparr>jq_next := jq_next q + 1\<rparr>"
  obtain o' q1 where d: "drain cfg w l ?q0 = (o', q1)" by fastforce
  with drain_run [of cfg w l ?q0] drain_settles [of cfg w l ?q0] assms show ?thesis
    by (auto simp: request_lane_def served_def lane_busy_def lane_run_def)
qed

lemma durable_request_no_new:
  assumes "distinct (map j_id (jq_rows q))"
  shows "no_new cfg Chat_Lane (jq_rows q) (jq_rows (request_lane cfg w Durable_Lane q))"
proof -
  let ?q0 = "q\<lparr>jq_next := jq_next q + 1\<rparr>"
  obtain o' q1 where d: "drain cfg w Durable_Lane ?q0 = (o', q1)" by fastforce
  with durable_drain_no_new [of ?q0 cfg w] assms show ?thesis by (auto simp: request_lane_def)
qed

lemma other_slot: "k \<noteq> l \<Longrightarrow> slot k (request_lane cfg w l q) = slot k q"
proof -
  assume "k \<noteq> l"
  obtain o' q1 where d: "drain cfg w l (q\<lparr>jq_next := jq_next q + 1\<rparr>) = (o', q1)" by fastforce
  then have "slot k q1 = slot k q" using slot_drain [of k cfg w l "q\<lparr>jq_next := jq_next q + 1\<rparr>"] by simp
  with d \<open>k \<noteq> l\<close> show ?thesis by (simp add: request_lane_def)
qed

text \<open>After a request every lane that was free is at work if it has a queued job.\<close>

lemma request_drains_serve:
  assumes "\<not> jq_closed q" and "slot l q = None" and "distinct (map j_id (jq_rows q))"
  shows "served cfg l (request_drains cfg w q)"
proof (cases l)
  case Chat_Lane
  let ?q1 = "request_lane cfg w Chat_Lane q"
  have "served cfg Chat_Lane ?q1" by (rule request_lane_serves) (use assms Chat_Lane in simp)
  moreover have "no_new cfg Chat_Lane (jq_rows ?q1) (jq_rows (request_lane cfg w Durable_Lane ?q1))"
    by (rule durable_request_no_new [OF effects_ids [OF request_lane_effects assms(3)]])
  moreover have "lane_busy Chat_Lane ?q1 \<Longrightarrow> lane_busy Chat_Lane (request_lane cfg w Durable_Lane ?q1)"
    by (rule effects_busy [OF request_lane_effects])
  ultimately show ?thesis using assms(1) Chat_Lane by (auto simp: request_drains_def served_def no_new_def)
next
  case Durable_Lane
  have "slot Durable_Lane (request_lane cfg w Chat_Lane q) = None"
    using assms(2) Durable_Lane other_slot [of Durable_Lane Chat_Lane cfg w q] by simp
  from request_lane_serves [OF this] assms(1) Durable_Lane show ?thesis by (simp add: request_drains_def)
qed

text \<open>
  A lane that is neither free nor at work has its drain over, its \<open>finally\<close> still to come.
\<close>

definition no_drain_over :: "job_queue \<Rightarrow> bool" where
  "no_drain_over q \<longleftrightarrow> \<not> list_ex (\<lambda>(n, c, a). is_settled a) (jq_tasks q)"

definition taken :: "job_queue \<Rightarrow> bool" where
  "taken q \<longleftrightarrow> (\<forall>l. slot l q \<noteq> None \<longrightarrow> list_ex (\<lambda>(n, c, a). lane_of a = Some l) (jq_tasks q))"

lemma free_or_busy: "taken q \<Longrightarrow> no_drain_over q \<Longrightarrow> slot l q = None \<or> lane_busy l q"
  by (auto simp: taken_def no_drain_over_def lane_busy_def list_ex_iff split_beta)

lemma served_later:
  assumes "served cfg k q" and "effects cfg w q q'" and "no_new cfg k (jq_rows q) (jq_rows q')"
  shows "served cfg k q'"
  using assms effects_busy [OF assms(2)] by (auto simp: served_def no_new_def)

text \<open>A request serves every lane that is free or at work.\<close>

lemma requested_served:
  assumes "\<not> jq_closed q" and "slot l q = None \<or> lane_busy l q" and "distinct (map j_id (jq_rows q))"
  shows "served cfg l (request_drains cfg w q)"
  using assms request_drains_serve effects_busy [OF request_drains_effects] by (auto simp: served_def)

lemma find_snoc: "find p (xs @ [x]) = (case find p xs of Some y \<Rightarrow> Some y | None \<Rightarrow> if p x then Some x else None)"
  by (induction xs) auto

lemma enqueue_refused: "enqueue_job s i kind input key now rows = (Inl e, rows') \<Longrightarrow> rows' = rows"
  by (auto simp: enqueue_job_def Let_def new_job_def job_by_key_def job_by_id_def of_tenant_def find_snoc split: option.splits if_splits)

lemma enqueue_served:
  assumes "served cfg l q" and "slot l q = None \<or> lane_busy l q" and "distinct (map j_id (jq_rows q))"
  shows "served cfg l (snd (queue_enqueue cfg w kind input key q))"
proof -
  obtain res rows where e: "enqueue_job (lc_store cfg) (ho_id w) kind input key (ho_now w) (jq_rows q) = (res, rows)"
    by fastforce
  have ids: "distinct (map j_id rows)"
    using step_ids [OF assms(3), of "lc_store cfg" "ho_now w" "Op_Enqueue (ho_id w) kind input key"] e by simp
  show ?thesis
  proof (cases res)
    case (Inl m)
    with e enqueue_refused [OF e [unfolded Inl]] assms(1) show ?thesis
      by (auto simp: queue_enqueue_def split: option.splits job_failure.splits)
  next
    case (Inr j)
    have "served cfg l (request_drains cfg w (q\<lparr>jq_rows := rows\<rparr>))" if "\<not> jq_closed q"
      by (rule requested_served) (use that assms(2) ids in \<open>auto simp: lane_busy_def\<close>)
    with e Inr assms(1) show ?thesis
      by (auto simp: queue_enqueue_def split: option.splits)
  qed
qed

section \<open>The rest of a job\<close>

definition fine :: "lane_config \<Rightarrow> lane \<Rightarrow> job_queue \<Rightarrow> bool" where
  "fine cfg k q \<longleftrightarrow> served cfg k q \<and> (slot k q = None \<or> lane_busy k q) \<and> distinct (map j_id (jq_rows q))"

lemma enrich_served:
  assumes "served cfg k q" and "activity_ok (jq_rows q) (Processing l j P_Model)" and "tj_kind j = Kind_Enrich"
    and "assert_durable_store (lc_env cfg) v = Inr ()" and "distinct (map j_id (jq_rows q))" and "k \<noteq> l"
  shows "served cfg k (snd (enrich_result cfg w l j v q))"
proof (rule served_later [OF assms(1)])
  let ?s = "lc_store cfg" and ?c = "claim_of j"
  let ?pending = "resume_pending ?s ?c v (ho_now w) (jq_rows q)"
  let ?q1 = "written ?pending q"
  from assms(2,3,4) show "effects cfg w q (snd (enrich_result cfg w l j v q))"
    using enrich_result_run [of j l q cfg v w] by (simp add: lane_run_def)
  from assms(2,6) have "tj_kind j \<notin> set (lane_kinds k)" using lane_kinds_apart by auto
  then have "no_new cfg k (jq_rows q) (jq_rows ?q1)"
    using assms(2,5) by (auto simp: written_def resume_pending_def intro: no_new_refile)
  moreover have "no_new cfg k (jq_rows ?q1) (snd (update_claimed ?s ?c (done_patch v) (ho_now w) (jq_rows ?q1)))"
    by (rule no_new_claimed_patch [where st = Job_Done]) (simp_all add: done_patch_def)
  ultimately show "no_new cfg k (jq_rows q) (jq_rows (snd (enrich_result cfg w l j v q)))"
    by (auto simp: enrich_result_def Let_def written_def intro: no_new_trans)
qed

lemma finished_served:
  assumes "served cfg k q" and "job_known (jq_rows q) j" and "result_ok (lc_env cfg) (tj_kind j) v"
  shows "served cfg k (snd (finished cfg w l j v q))"
  using finished_run [OF assms(2,3), of w l]
  by (intro served_later [where w = w, OF assms(1) _ finished_no_new]) (simp add: lane_run_def)

lemma failed_served:
  assumes "served cfg k q" and "job_known (jq_rows q) j" and "distinct (map j_id (jq_rows q))"
    and "tj_kind j \<in> set (lane_kinds l)" and "k \<noteq> l"
  shows "served cfg k (snd (failed cfg w l j th q))"
  using failed_run [OF assms(2), of cfg w l th] failed_no_new [OF assms(2-5)]
  by (intro served_later [OF assms(1)]) (auto simp: lane_run_def)

lemma model_result_served:
  assumes "served cfg k q" and "activity_ok (jq_rows q) (Processing l j P_Model)"
    and "distinct (map j_id (jq_rows q))" and "k \<noteq> l"
  shows "served cfg k (snd (model_result cfg w l j v q))"
  using assms(2) unfolding model_result_def
  by (auto intro!: finished_served [OF assms(1)] failed_served [OF assms(1) _ assms(3) _ assms(4)]
      enrich_served [OF assms(1,2) _ _ assms(3,4)] simp: result_ok_def split: job_kind.splits sum.splits)

lemma media_served:
  assumes "fine cfg k q"
  shows "served cfg k (snd (media_captured cfg w l j en a e h stored q))"
  using assms enqueue_served [of cfg k q w Kind_Enrich]
  by (auto simp: fine_def media_captured_def Let_def split: sum.splits prod.splits) (metis snd_conv)+

lemma continue_job_served:
  assumes "fine cfg k q" and "activity_ok (jq_rows q) (Processing l j f)" and "k \<noteq> l"
  shows "served cfg k (snd (continue_job cfg w l j f ans q))"
proof -
  from assms(1) have q: "served cfg k q" "distinct (map j_id (jq_rows q))" by (auto simp: fine_def)
  note ends = finished_served [OF q(1)] failed_served [OF q(1) _ q(2) _ assms(3)]
  show ?thesis
  proof (cases f)
    case P_Model
    with assms(2) model_result_served [OF q(1) _ q(2) assms(3)] show ?thesis
      by (auto simp: stays_def q intro!: ends split: answer.splits simp del: activity_ok.simps) (auto intro!: ends)
  next
    case (P_Captured en a e h)
    with media_served [OF assms(1)] q(1) show ?thesis
      by (auto simp: stays_def rethrown_def split: answer.splits)
  next
    case (P_Media_Engine a)
    with q(1) show ?thesis
      by (auto simp: stays_def rethrown_def routed_def split: answer.splits media_plan.splits)
  next
    case (P_Text en a)
    with q(1) show ?thesis
      by (auto simp: stays_def rethrown_def routed_def split: answer.splits media_plan.splits)
  qed (use assms(2) q(1) in \<open>auto simp: stays_def rethrown_def result_ok_def intro!: ends
      split: answer.splits sum.splits option.splits media_plan.splits\<close>)
qed

lemma continue_job_active: "\<not> is_settled (activity_of (fst (continue_job cfg w l j f ans q)))"
  by (cases f)
    (auto simp: stays_def rethrown_def routed_def failed_def finished_def model_result_def enrich_result_def media_captured_def
      Let_def split: answer.splits sum.splits option.splits media_plan.splits job_kind.splits prod.splits)

section \<open>Runs\<close>

definition serving :: "lane_config \<Rightarrow> job_queue \<Rightarrow> bool" where
  "serving cfg q \<longleftrightarrow> orderly q \<and> taken q \<and> distinct (map j_id (jq_rows q)) \<and> \<not> jq_closed q \<and> (\<forall>l. served cfg l q)"

text \<open>A move that leaves recoveries, other instances and closing aside, and lets the end of a drain be noticed first.\<close>

fun calm_move :: "job_queue \<Rightarrow> queue_move \<Rightarrow> bool" where
  "calm_move q (Mv_Answer n ans) \<longleftrightarrow>
     list_all (\<lambda>(m, c, a). m = n \<longrightarrow> \<not> is_recovering a \<and> (no_drain_over q \<or> is_settled a)) (jq_tasks q)"
| "calm_move q (Mv_Other _ _) \<longleftrightarrow> False"
| "calm_move q Mv_Close \<longleftrightarrow> False"
| "calm_move q _ \<longleftrightarrow> no_drain_over q"

fun calm_run :: "lane_config \<Rightarrow> (host \<times> queue_move) list \<Rightarrow> job_queue \<Rightarrow> bool" where
  "calm_run cfg [] q \<longleftrightarrow> True"
| "calm_run cfg (m # ms) q \<longleftrightarrow> calm_move q (snd m) \<and> calm_run cfg ms (do_queue cfg m q)"

text \<open>Slots that are taken have their task.\<close>

lemma taken_same: "taken q \<Longrightarrow> jq_tasks q' = jq_tasks q @ ts \<Longrightarrow> (\<And>l. slot l q' = slot l q) \<Longrightarrow> taken q'"
  by (auto simp: taken_def)

lemma effects_more: "effects cfg w q q' \<Longrightarrow> \<exists>ts. jq_tasks q' = jq_tasks q @ ts"
  unfolding effects_def by blast

definition has_task :: "lane \<Rightarrow> job_queue \<Rightarrow> bool" where
  "has_task l q \<longleftrightarrow> list_ex (\<lambda>(n, c, a). lane_of a = Some l) (jq_tasks q)"

lemma effects_has_task: "effects cfg w q q' \<Longrightarrow> has_task l q \<Longrightarrow> has_task l q'"
  using effects_more [of cfg w q q'] by (auto simp: has_task_def)

text \<open>Every part of the code keeps a lane that is free or has its task that way.\<close>

definition held :: "lane \<Rightarrow> job_queue \<Rightarrow> bool" where
  "held l q \<longleftrightarrow> slot l q = None \<or> has_task l q"

lemma held_request_lane: "held l q \<Longrightarrow> held l (request_lane cfg w k q)"
proof (cases "l = k \<and> slot k q = None")
  case True
  obtain o' q1 where d: "drain cfg w k (q\<lparr>jq_next := jq_next q + 1\<rparr>) = (o', q1)" by fastforce
  with drain_run [of cfg w k "q\<lparr>jq_next := jq_next q + 1\<rparr>"] True show ?thesis
    by (auto simp: request_lane_def held_def has_task_def lane_run_def)
next
  case False
  assume "held l q"
  with False other_slot [of l k cfg w q] effects_has_task [OF request_lane_effects, of l q cfg w k] show ?thesis
    by (auto simp: held_def request_lane_def)
qed

lemma held_drains: "held l q \<Longrightarrow> held l (request_drains cfg w q)"
  by (simp add: request_drains_def held_request_lane)

lemma held_simps [simp]: "held l (q\<lparr>jq_rows := rows\<rparr>) = held l q"
  by (simp add: held_def has_task_def)

lemma held_enqueue: "held l q \<Longrightarrow> held l (snd (queue_enqueue cfg w kind input key q))"
  by (auto simp: queue_enqueue_def held_drains split: option.splits prod.splits sum.splits job_failure.splits)

lemma held_effects: "held l q \<Longrightarrow> effects cfg w q q' \<Longrightarrow> slot l q' = slot l q \<Longrightarrow> held l q'"
  by (auto simp: held_def effects_has_task)

lemma taken_held: "taken q \<longleftrightarrow> (\<forall>l. held l q)"
  by (simp only: taken_def held_def has_task_def imp_conv_disj not_not)

lemma slot_continue: "slot k (snd (continue_job cfg w l j f ans q)) = slot k q \<or>
  (\<exists>input key. snd (continue_job cfg w l j f ans q) = snd (queue_enqueue cfg w Kind_Enrich input key q))"
proof (cases f)
  case (P_Captured en a e h)
  then show ?thesis
    by (cases ans) (auto simp: stays_def rethrown_def media_captured_def Let_def split: sum.splits prod.splits, (metis snd_conv)+)
qed (auto simp: stays_def rethrown_def routed_def failed_def finished_def model_result_def enrich_result_def Let_def
      split: answer.splits sum.splits option.splits media_plan.splits job_kind.splits)

lemma held_continue:
  assumes "held k q" and "activity_ok (jq_rows q) (Processing l j f)"
  shows "held k (snd (continue_job cfg w l j f ans q))"
  using slot_continue [of k cfg w l j f ans q]
proof
  assume "slot k (snd (continue_job cfg w l j f ans q)) = slot k q"
  with continue_job_run [OF assms(2), of cfg w ans] assms(1) show ?thesis
    by (auto simp: lane_run_def intro: held_effects)
qed (use assms(1) in \<open>auto simp: held_enqueue\<close>)

section \<open>Every calm move serves\<close>

lemma move_ids:
  assumes "orderly q" and "distinct (map j_id (jq_rows q))"
  shows "distinct (map j_id (jq_rows (do_queue cfg (w, m) q)))"
  using assms by (intro move_rows_keep [where I = "\<lambda>rows. distinct (map j_id rows)"]) (simp_all add: step_ids del: job_step.simps)

lemma same_task: "orderly q \<Longrightarrow> (n, c, a) \<in> set (jq_tasks q) \<Longrightarrow> (n, d, b) \<in> set (jq_tasks q) \<Longrightarrow> d = c \<and> b = a"
  by (auto simp: orderly_def dest: eq_key_imp_eq_value)

lemma without_list_ex:
  assumes "orderly q" and "(n, c, a) \<in> set (jq_tasks q)" and "\<not> P a"
  shows "list_ex (\<lambda>(m, d, b). P b) (jq_tasks (without_task n q)) = list_ex (\<lambda>(m, d, b). P b) (jq_tasks q)"
proof -
  have "fst t \<noteq> n" if "t \<in> set (jq_tasks q)" "P (snd (snd t))" for t
  proof -
    obtain m d b where t: "t = (m, d, b)" by (rule prod_cases3)
    with that same_task [OF assms(1,2), of d b] assms(3) show ?thesis by auto
  qed
  then show ?thesis unfolding list_ex_iff split_beta without_task_simps by blast
qed

lemma without_others:
  assumes "orderly q" and "(n, c, a) \<in> set (jq_tasks q)" and "lane_of a \<noteq> Some k"
  shows "lane_busy k (without_task n q) = lane_busy k q" and "held k (without_task n q) = held k q"
  using without_list_ex [OF assms(1,2), of "\<lambda>a. lane_of a = Some k \<and> \<not> is_settled a"]
    without_list_ex [OF assms(1,2), of "\<lambda>a. lane_of a = Some k"] assms(3)
  by (simp_all add: lane_busy_def held_def has_task_def)

lemma served_parked: "served cfg k (snd x) \<Longrightarrow> served cfg k (parked n x)"
  by (cases x) (auto simp: served_def lane_busy_def)

lemma held_parked: "held k (snd x) \<Longrightarrow> held k (parked n x)"
  by (cases x) (auto simp: held_def has_task_def)

lemma own_parked:
  assumes "lane_of (activity_of (fst x)) = Some l"
  shows "held l (parked n x)" and "\<not> is_settled (activity_of (fst x)) \<Longrightarrow> served cfg l (parked n x)"
  using assms by (cases x; auto simp: held_def has_task_def served_def lane_busy_def)+

lemma free_or_busy': "held l q \<Longrightarrow> no_drain_over q \<Longrightarrow> slot l q = None \<or> lane_busy l q"
  unfolding held_def has_task_def no_drain_over_def lane_busy_def list_ex_iff by (auto simp: split_beta)

definition well :: "lane_config \<Rightarrow> lane \<Rightarrow> job_queue \<Rightarrow> bool" where
  "well cfg k q \<longleftrightarrow> served cfg k q \<and> held k q"

lemma process_well:
  assumes "serving cfg q" and "(n, c, Processing l j f) \<in> set (jq_tasks q)" and "no_drain_over q"
  shows "well cfg k (continue_task cfg w n (Processing l j f) ans (without_task n q))"
proof -
  let ?q = "without_task n q" and ?x = "continue_job cfg w l j f ans (without_task n q)"
  from assms(1,2) have ok: "activity_ok (jq_rows ?q) (Processing l j f)"
    by (auto simp: serving_def orderly_def in_place_def simp del: activity_ok.simps)
  from continue_job_run [OF ok, of cfg w ans] have lane: "lane_of (activity_of (fst ?x)) = Some l" by (simp add: lane_run_def)
  show ?thesis
  proof (cases "k = l")
    case True
    with own_parked [OF lane] continue_job_active show ?thesis by (simp add: well_def)
  next
    case False
    then have "lane_of (Processing l j f) \<noteq> Some k" by simp
    note other = without_others [OF _ assms(2) this]
    from assms(1) have q: "served cfg k q" "held k q" "orderly q" "distinct (map j_id (jq_rows q))"
      by (auto simp: serving_def taken_held)
    with other free_or_busy' [OF q(2) assms(3)] have "fine cfg k ?q" by (simp add: fine_def served_def)
    from continue_job_served [OF this ok False] held_continue [OF _ ok] other q(2,3) show ?thesis
      by (simp add: well_def served_parked held_parked)
  qed
qed

lemma between_well:
  assumes "serving cfg q" and "(n, c, Between l) \<in> set (jq_tasks q)"
  shows "well cfg k (continue_task cfg w n (Between l) ans (without_task n q))"
proof -
  let ?q = "without_task n q" and ?x = "next_job cfg w l (without_task n q)"
  have lane: "lane_of (activity_of (fst ?x)) = Some l" and effects: "effects cfg w ?q (snd ?x)"
    using next_job_run [of cfg w l ?q] by (simp_all add: lane_run_def)
  show ?thesis
  proof (cases "k = l")
    case True
    have "served cfg l (parked n ?x)"
    proof (cases "is_settled (activity_of (fst ?x))")
      case settled: True
      from next_job_settles [OF this] show ?thesis by (cases ?x) (simp add: served_def)
    next
      case False
      with own_parked(2) [OF lane] show ?thesis by simp
    qed
    with own_parked(1) [OF lane] True show ?thesis by (simp add: well_def)
  next
    case False
    then have "lane_of (Between l) \<noteq> Some k" by simp
    note other = without_others [OF _ assms(2) this]
    from assms(1) have q: "served cfg k q" "held k q" "orderly q" "distinct (map j_id (jq_rows q))"
      by (auto simp: serving_def taken_held)
    from q other have "served cfg k ?q" by (simp add: served_def)
    from served_later [OF this effects next_job_no_new] q(4) False have "served cfg k (snd ?x)" by simp
    moreover from held_effects [OF _ effects] other q have "held k (snd ?x)" by simp
    ultimately show ?thesis by (simp add: well_def served_parked held_parked)
  qed
qed

lemma settled_well:
  assumes "serving cfg q" and "(n, c, Settled l) \<in> set (jq_tasks q)"
  shows "well cfg k (continue_task cfg w n (Settled l) ans (without_task n q))"
proof -
  from assms have q: "served cfg k q" "held k q" "orderly q" and slot: "slot l q = Some n"
    by (auto simp: serving_def taken_held orderly_def in_place_def)
  show ?thesis
  proof (cases "k = l")
    case True
    have "\<not> lane_busy l q"
    proof
      assume "lane_busy l q"
      then obtain m d b where t: "(m, d, b) \<in> set (jq_tasks q)" "lane_of b = Some l" "\<not> is_settled b"
        by (auto simp: lane_busy_def list_ex_iff)
      with q(3) slot have "m = n" by (force simp: orderly_def in_place_def)
      with same_task [OF q(3) assms(2), of d b] t show False by auto
    qed
    with q(1) True slot show ?thesis by (simp add: well_def served_def held_def)
  next
    case False
    then have "lane_of (Settled l) \<noteq> Some k" by simp
    from without_others [OF q(3) assms(2) this] q slot False show ?thesis
      by (simp add: well_def served_def lane_busy_def held_def has_task_def)
  qed
qed

lemma recovered_well:
  assumes "serving cfg q" and "(n, c, Recovered) \<in> set (jq_tasks q)"
  shows "well cfg k (continue_task cfg w n Recovered ans (without_task n q))"
proof -
  from assms have q: "served cfg k q" "held k q" "orderly q" by (auto simp: serving_def taken_held)
  have "lane_of Recovered \<noteq> Some k" by simp
  from without_others [OF q(3) assms(2) this] q show ?thesis
    by (simp add: well_def served_def lane_busy_def held_def has_task_def)
qed

lemma answer_well:
  assumes "serving cfg q" and "calm_move q (Mv_Answer n ans)"
  shows "well cfg k (answer_task cfg w n ans q)"
proof (cases rule: answer_task_cases [of cfg w n ans q])
  case idle
  with assms(1) show ?thesis by (simp add: serving_def well_def taken_held)
next
  case (run c a ans')
  from assms(2) run(1) have calm: "\<not> is_recovering a" "no_drain_over q \<or> is_settled a"
    by (auto simp: list_all_iff)
  show ?thesis
  proof (cases a)
    case (Processing l j f)
    with process_well [OF assms(1)] run calm show ?thesis by simp
  next
    case (Between l)
    with between_well [OF assms(1)] run show ?thesis by simp
  next
    case (Settled l)
    with settled_well [OF assms(1)] run show ?thesis by simp
  next
    case Recovered
    with recovered_well [OF assms(1)] run show ?thesis by simp
  qed (use calm in simp)
qed

lemma drains_well:
  assumes "held k q" and "served cfg k q \<or> slot k q = None \<or> lane_busy k q" and "no_drain_over q"
    and "distinct (map j_id (jq_rows q))" and "\<not> jq_closed q"
  shows "well cfg k (request_drains cfg w q)"
  using assms requested_served [OF assms(5) free_or_busy' [OF assms(1,3)] assms(4)]
  by (simp add: well_def held_drains)

lemma request_well:
  assumes "serving cfg q" and "no_drain_over q"
    and "case m of Mv_Answer _ _ \<Rightarrow> False | Mv_Other _ _ \<Rightarrow> False | Mv_Close \<Rightarrow> False | _ \<Rightarrow> True"
  shows "well cfg k (do_queue cfg (w, m) q)"
proof -
  from assms(1) have q: "served cfg k q" "held k q" "distinct (map j_id (jq_rows q))" "\<not> jq_closed q"
    by (auto simp: serving_def taken_held)
  note drained = drains_well [OF q(2) _ assms(2) q(3,4), of cfg]
  show ?thesis
  proof (cases m)
    case (Mv_Enqueue kind input key)
    with enqueue_served [OF q(1) free_or_busy' [OF q(2) assms(2)] q(3)] held_enqueue [OF q(2)] show ?thesis
      by (simp add: well_def)
  next
    case Mv_Resume
    with drained q(1) show ?thesis by simp
  next
    case (Mv_Resume_At_Start delay)
    with drained [of w] q(1) show ?thesis
      by (simp add: resume_at_start_def Let_def well_def served_def lane_busy_def held_def has_task_def)
  next
    case (Mv_Timer t)
    let ?q1 = "q\<lparr>jq_timer := None, jq_timers := filter (\<lambda>x. fst x \<noteq> t) (jq_timers q)\<rparr>"
    have "well cfg k (request_drains cfg w ?q1)"
      by (rule drains_well) (use q assms(2) in \<open>auto simp: served_def lane_busy_def held_def has_task_def no_drain_over_def\<close>)
    with Mv_Timer q show ?thesis by (simp add: fire_timer_def well_def)
  next
    case Mv_Check
    with q show ?thesis
      by (auto simp: fire_check_def request_recovery_def well_def served_def lane_busy_def held_def has_task_def split: option.splits)
  next
    case (Mv_Heartbeat n)
    have "no_new cfg k (jq_rows q) (snd (renew_claim s c (ho_now w) (jq_rows q)))" for s c
      by (auto simp: renew_claim_def claim_holds_def intro!: no_new_update)
    with q Mv_Heartbeat show ?thesis
      by (auto simp: heartbeat_def written_def well_def served_def lane_busy_def held_def has_task_def no_new_def
          split: option.splits activity.splits)
  qed (use assms(3) in simp_all)
qed

lemma move_closed:
  assumes "orderly q" and "m \<noteq> Mv_Close"
  shows "jq_closed (do_queue cfg (w, m) q) = jq_closed q"
proof (cases "case m of Mv_Answer _ _ \<Rightarrow> False | Mv_Other _ _ \<Rightarrow> False | Mv_Close \<Rightarrow> False | _ \<Rightarrow> True")
  case True
  show ?thesis by (rule effectsD(2) [OF request_effects [OF True]])
next
  case False
  have "jq_closed (answer_task cfg w n ans q) = jq_closed q" for n ans
  proof (cases rule: answer_task_cases [of cfg w n ans q])
    case (run c a ans')
    from assms(1) run(1) show ?thesis
    proof (cases rule: continue_task_run [where cfg = cfg and w = w and ans = ans'])
      case (ran x)
      from effectsD(2) [OF ran(2)] run(2) ran(1) show ?thesis by (cases x) simp
    next
      case freed
      with run(2) show ?thesis by (simp add: just_freed_def)
    qed
  qed simp
  with False assms(2) show ?thesis by (cases m) simp_all
qed

lemma calm_serving:
  assumes "serving cfg q" and "calm_move q m"
  shows "serving cfg (do_queue cfg (w, m) q)"
proof -
  from assms have q: "orderly q" "distinct (map j_id (jq_rows q))" "\<not> jq_closed q" "m \<noteq> Mv_Close"
    by (auto simp: serving_def)
  have "well cfg k (do_queue cfg (w, m) q)" for k
  proof (cases "case m of Mv_Answer _ _ \<Rightarrow> False | Mv_Other _ _ \<Rightarrow> False | Mv_Close \<Rightarrow> False | _ \<Rightarrow> True")
    case True
    with assms(2) have "no_drain_over q" by (cases m) simp_all
    from request_well [OF assms(1) this True] show ?thesis .
  next
    case False
    with assms answer_well [OF assms(1)] show ?thesis by (cases m) simp_all
  qed
  with move_orderly [OF q(1)] move_ids [OF q(1,2)] move_closed [OF q(1,4)] q(3) show ?thesis
    by (simp add: serving_def well_def taken_held)
qed

lemma calm_runs_serve: "serving cfg q \<Longrightarrow> calm_run cfg ms q \<Longrightarrow> serving cfg (run_queue cfg ms q)"
proof (induction ms arbitrary: q)
  case (Cons m ms)
  obtain w k where m: "m = (w, k)" by (cases m)
  with Cons calm_serving [OF Cons.prems(1), of k w] show ?case by (simp add: run_queue_def)
qed (simp add: run_queue_def)

text \<open>
  C22. Queued jobs are worked on: while the worker is open and undisturbed by recoveries and other instances, and the
  end of a drain is noticed before anything else happens, a lane that has a queued job is at work on a job.
\<close>

theorem queued_jobs_are_served:
  assumes "calm_run cfg ms (new_job_queue [])"
    and "r \<in> set (jq_rows (run_queue cfg ms (new_job_queue [])))" and "queued_for (lc_store cfg) r"
    and "j_kind r \<in> set (lane_kinds l)"
  shows "lane_busy l (run_queue cfg ms (new_job_queue []))"
proof -
  have "serving cfg (new_job_queue [])"
    using new_orderly [of "[]"]
    by (auto simp: serving_def taken_held held_def served_def lane_waiting_def new_job_queue_def)
      (metis slot.simps(1,2) lane.exhaust job_queue.select_convs(3,4))
  from calm_runs_serve [OF this assms(1)] have "served cfg l (run_queue cfg ms (new_job_queue []))"
    by (simp add: serving_def)
  with assms(2-4) show ?thesis by (auto simp: served_def lane_waiting_def list_ex_iff)
qed

end
