(* ===== verification/Job_Lanes_Examples.thy ===== *)
theory Job_Lanes_Examples
  imports Job_Lanes_Service
begin

text \<open>
  The properties of the worker at concrete inputs, and two runs that show where its promises end: an enqueue between
  the end of a drain and its \<open>finally\<close>, and a media job that is captured while the worker closes.
\<close>

definition demo_lanes :: lane_config where
  "demo_lanes = \<lparr>lc_store = \<lparr>js_tenant = ''t'', js_owner = ''o''\<rparr>, lc_hosted = None,
     lc_env = \<lparr>re_url = (\<lambda>_. None), re_date = (\<lambda>_. True)\<rparr>\<rparr>"

definition demo_host :: "int \<Rightarrow> string \<Rightarrow> host" where
  "demo_host t i = \<lparr>ho_now = t, ho_block = None, ho_token = (\<lambda>l. case l of Chat_Lane \<Rightarrow> ''c'' | Durable_Lane \<Rightarrow> ''d''), ho_id = i\<rparr>"

definition demo_blocked :: "int \<Rightarrow> string \<Rightarrow> host" where
  "demo_blocked t i = (demo_host t i)\<lparr>ho_block := Some (''used up'', ''kept'')\<rparr>"

definition demo_sha :: json where
  "demo_sha = JObj [(''commitSha'', JStr (replicate 40 CHR ''a''))]"

section \<open>Jobs in the queue\<close>

definition demo_calm :: "(host \<times> queue_move) list" where
  "demo_calm =
     [(demo_host 1 ''a'', Mv_Enqueue Kind_Store (JObj []) None),
      (demo_host 2 [], Mv_Answer 0 Got_Nothing),
      (demo_host 3 ''b'', Mv_Enqueue Kind_Store (JObj []) None)]"

lemma queued_jobs_are_served_witness:
  "lane_busy Durable_Lane (run_queue demo_lanes demo_calm (new_job_queue []))"
proof (rule queued_jobs_are_served)
  let ?q = "run_queue demo_lanes demo_calm (new_job_queue [])"
  let ?r = "jq_rows ?q ! 1"
  show "calm_run demo_lanes demo_calm (new_job_queue [])" by code_simp
  show "?r \<in> set (jq_rows ?q)"
  proof (rule nth_mem)
    show "1 < length (jq_rows ?q)" by code_simp
  qed
  show "queued_for (lc_store demo_lanes) ?r" by code_simp
  show "j_kind ?r \<in> set (lane_kinds Durable_Lane)" by code_simp
qed

lemma allowance_stops_model_calls_witness:
  "\<not> list_ex model_entry (jq_log (run_queue demo_lanes
       [(demo_blocked 1 ''a'', Mv_Enqueue Kind_Chat (JObj []) None), (demo_blocked 2 [], Mv_Answer 0 Got_Nothing)]
       (new_job_queue [])))"
  by (rule allowance_stops_model_calls) (simp add: demo_blocked_def)

text \<open>A store job that is captured.\<close>

definition demo_capture :: "(host \<times> queue_move) list" where
  "demo_capture =
     [(demo_host 1 ''a'', Mv_Enqueue Kind_Store (JObj []) None),
      (demo_host 2 [], Mv_Answer 1 (Got_Engine \<lparr>en_enrich = True, en_capture = True, en_sweep = True, en_inspect = True,
         en_head = True, en_rebuild = True\<rparr>)),
      (demo_host 3 [], Mv_Answer 1 (Got demo_sha))]"

lemma demo_capture_done:
  "map (\<lambda>r. (j_id r, j_status r)) (jq_rows (run_queue demo_lanes demo_capture (new_job_queue []))) = [(''a'', Job_Done)]"
  by code_simp

lemma done_means_durable_witness:
  "list_all (receipt_ok (lc_env demo_lanes)) (jq_rows (run_queue demo_lanes demo_capture (new_job_queue [])))"
  by (rule done_means_durable) (simp add: demo_capture_def)

definition demo_claimed :: task_job where
  "demo_claimed = \<lparr>tj_id = ''a'', tj_kind = Kind_Store, tj_key = None, tj_token = Some ''d'', tj_input = JObj [],
     tj_status = Job_Running, tj_result = None, tj_error = None, tj_attempts = 0, tj_created = 1, tj_updated = 1\<rparr>"

definition demo_working :: job_queue where
  "demo_working = run_queue demo_lanes (take 2 demo_capture) (new_job_queue [])"

lemma no_job_left_running_witness:
  "assert_claim (lc_store demo_lanes) (claim_of demo_claimed) 3
     (jq_rows (snd (continue_job demo_lanes (demo_host 3 []) Durable_Lane demo_claimed P_Model (Got demo_sha) demo_working))) =
   Inl (Job_Failure ''task_job_claim_lost'')"
proof -
  let ?x = "continue_job demo_lanes (demo_host 3 []) Durable_Lane demo_claimed P_Model (Got demo_sha) demo_working"
  have "distinct (map j_id (jq_rows demo_working))" by code_simp
  moreover have "over (fst ?x)" by code_simp
  ultimately have "assert_claim (lc_store demo_lanes) (claim_of demo_claimed) (ho_now (demo_host 3 [])) (jq_rows (snd ?x)) =
      Inl (Job_Failure ''task_job_claim_lost'')"
    by (intro no_job_left_running [where f = P_Model and o' = "fst ?x" and l = Durable_Lane and ans = "Got demo_sha" and q = demo_working])
      simp_all
  then show ?thesis by (simp add: demo_host_def)
qed

text \<open>
  A job that another instance works on stays its job while this one takes a job of its own, beats and looks for more work.
\<close>

definition demo_other :: job_store where
  "demo_other = \<lparr>js_tenant = ''t'', js_owner = ''o2''\<rparr>"

definition demo_elsewhere :: jobs where
  "demo_elsewhere = run_jobs
     [(demo_other, 1, Op_Enqueue ''x'' Kind_Store (JObj []) None), (demo_other, 2, Op_Claim ''n'' (Some [Kind_Store]))] []"

definition demo_beside :: "(host \<times> queue_move) list" where
  "demo_beside =
     [(demo_host 3 ''a'', Mv_Enqueue Kind_Store (JObj []) None), (demo_host 4 [], Mv_Heartbeat 0),
      (demo_host 5 [], Mv_Answer 1 (Threw (plain_error ''no engine'')))]"

lemma workers_respect_claims_witness:
  "assert_claim demo_other \<lparr>cl_id = ''x'', cl_token = Some ''n''\<rparr> 6 (jq_rows (run_queue demo_lanes demo_beside (new_job_queue demo_elsewhere))) =
     Inr ()"
proof -
  let ?r = "demo_elsewhere ! 0" and ?c = "\<lparr>cl_id = ''x'', cl_token = Some ''n''\<rparr>"
  have "?r \<in> set demo_elsewhere" by (rule nth_mem) code_simp
  then have "?r \<in> set (jq_rows (run_queue demo_lanes [] (new_job_queue demo_elsewhere)))"
    by (simp add: run_queue_def new_job_queue_def)
  moreover have "claim_holds demo_other ?c 2 ?r" by code_simp
  moreover have "j_lease ?r = Some (2 + job_lease_ms)" by code_simp
  ultimately show ?thesis
    using workers_respect_claims [of ?r demo_lanes "[]" demo_elsewhere demo_other ?c 2 "2 + job_lease_ms" demo_beside 6]
    by (simp add: demo_other_def demo_lanes_def demo_beside_def demo_host_def job_lease_ms_def)
qed

section \<open>Where the promises end\<close>

text \<open>
  Two jobs enqueued in one go: the first starts both lanes, and the chat lane finds nothing. The second, a chat, comes
  before the \<open>finally\<close> of that drain; it is not worked on, and when everything has settled nothing will start it.
\<close>

lemma an_enqueue_can_be_missed:
  "let q = run_queue demo_lanes
      [(demo_host 1 ''a'', Mv_Enqueue Kind_Task (JObj []) None),
       (demo_host 1 ''b'', Mv_Enqueue Kind_Chat (JObj []) None),
       (demo_host 1 [], Mv_Answer 0 Got_Nothing),
       (demo_host 2 [], Mv_Answer 1 (Threw (plain_error ''no engine''))),
       (demo_host 3 [], Mv_Answer 1 Got_Nothing),
       (demo_host 3 [], Mv_Answer 1 Got_Nothing)] (new_job_queue [])
   in map (\<lambda>r. (j_id r, j_status r)) (jq_rows q) = [(''a'', Job_Error), (''b'', Job_Queued)] \<and>
      jq_tasks q = [] \<and> jq_timers q = [] \<and> jq_chat q = None \<and> jq_durable q = None"
  by code_simp

end
