(* ===== verification/Ingest_Store.thy ===== *)
theory Ingest_Store
  imports Media_Ingest
begin

text \<open>
  The durable queue of files to ingest (packages/server/src/ingestStore.ts) and the decision of its watchdog
  (packages/server/src/ingestWatchdog.ts).

  \<^item> The rows of \<open>ingest_jobs\<close> are a list in insertion order; rows created at the same time come in that
    order, and in the reverse one where the index is walked backwards.
  \<^item> A column that holds JSON text is modelled by the value of the text, where it was written by the store.
  \<^item> The progress that is reported is a whole number.
\<close>

section \<open>Rows\<close>

datatype ingest_status =
  In_Queued
| In_Downloading
| In_Extracting
| In_Transcribing
| In_Filing
| In_Done
| In_Error
| In_Interrupted

definition in_flight_states :: "ingest_status list" where
  "in_flight_states = [In_Downloading, In_Extracting, In_Transcribing, In_Filing]"

definition active_states :: "ingest_status list" where
  "active_states = [In_Queued, In_Downloading, In_Extracting, In_Transcribing, In_Filing]"

record ingest_row =
  ir_id :: string
  ir_file :: string
  ir_name :: string
  ir_hints :: "string list"
  ir_status :: ingest_status
  ir_progress :: int
  ir_step :: "string option"
  ir_error :: "string option"
  ir_evidence :: "string option"
  ir_pages :: "string list"
  ir_revision :: "json option"
  ir_urls :: "string list"
  ir_commit :: "string option"
  ir_github :: "string list"
  ir_backlog :: "json option"
  ir_archived :: bool
  ir_body :: "string option"
  ir_provider :: "string option"
  ir_link :: "string option"
  ir_created :: int
  ir_updated :: int

type_synonym ingest_rows = "ingest_row list"

record ingest_job =
  ij_id :: string
  ij_file :: string
  ij_name :: string
  ij_hints :: "string list"
  ij_status :: ingest_status
  ij_progress :: int
  ij_step :: "string option"
  ij_error :: "string option"
  ij_evidence :: "string option"
  ij_link :: "string option"
  ij_transcribed_by :: "string option"
  ij_pages :: "string list"
  ij_revision :: "json option"
  ij_urls :: "string list"
  ij_commit :: "string option"
  ij_github :: "string list"
  ij_backlog :: "json option"
  ij_archived :: bool
  ij_cached :: bool
  ij_provider :: "string option"
  ij_created :: int
  ij_updated :: int

definition ingest_of_row :: "ingest_row \<Rightarrow> ingest_job" where
  "ingest_of_row r =
     \<lparr>ij_id = ir_id r, ij_file = ir_file r, ij_name = ir_name r, ij_hints = ir_hints r, ij_status = ir_status r,
      ij_progress = ir_progress r, ij_step = ir_step r, ij_error = ir_error r, ij_evidence = ir_evidence r,
      ij_link = ir_link r, ij_transcribed_by = ir_provider r, ij_pages = ir_pages r, ij_revision = ir_revision r,
      ij_urls = ir_urls r, ij_commit = ir_commit r, ij_github = ir_github r, ij_backlog = ir_backlog r,
      ij_archived = ir_archived r, ij_cached = (ir_body r \<noteq> None), ij_provider = ir_provider r,
      ij_created = ir_created r, ij_updated = ir_updated r\<rparr>"

section \<open>Opening\<close>

definition restart_step :: string where "restart_step = ''interrupted by a server restart''"

definition open_ingest :: "int \<Rightarrow> ingest_rows \<Rightarrow> ingest_rows" where
  "open_ingest now rows =
     update_where (\<lambda>r. ir_status r \<in> set in_flight_states)
       (\<lambda>r. r\<lparr>ir_status := In_Interrupted, ir_step := Some restart_step, ir_updated := now\<rparr>) rows"

section \<open>Queries\<close>

definition get_ingest :: "string \<Rightarrow> ingest_rows \<Rightarrow> ingest_job option" where
  "get_ingest i rows = map_option ingest_of_row (find (\<lambda>r. ir_id r = i) rows)"

definition next_queued_ingest :: "ingest_rows \<Rightarrow> ingest_job option" where
  "next_queued_ingest rows =
     map_option ingest_of_row (first_row (order_by ir_created (filter (\<lambda>r. ir_status r = In_Queued) rows)))"

definition active_for_file :: "string \<Rightarrow> ingest_rows \<Rightarrow> ingest_job option" where
  "active_for_file f rows =
     map_option ingest_of_row
       (first_row (order_desc ir_created (filter (\<lambda>r. ir_file r = f \<and> ir_status r \<in> set active_states) rows)))"

definition recent_ingests :: "nat \<Rightarrow> ingest_rows \<Rightarrow> ingest_job list" where
  "recent_ingests n rows = map ingest_of_row (take n (order_desc ir_created rows))"

definition stale_active :: "int \<Rightarrow> int \<Rightarrow> ingest_rows \<Rightarrow> ingest_job list" where
  "stale_active now threshold rows =
     map ingest_of_row
       (order_by ir_created (filter (\<lambda>r. ir_status r \<in> set active_states \<and> ir_created r < now - threshold) rows))"

record cached_payload =
  cp_body :: string
  cp_provider :: "string option"
  cp_link :: "string option"

text \<open>An empty body counts as none.\<close>

definition cached_payload_of :: "string \<Rightarrow> ingest_rows \<Rightarrow> cached_payload option" where
  "cached_payload_of i rows =
     (case find (\<lambda>r. ir_id r = i) rows of
        None \<Rightarrow> None
      | Some r \<Rightarrow>
          (case ir_body r of
             None \<Rightarrow> None
           | Some b \<Rightarrow>
               if b = [] then None else Some \<lparr>cp_body = b, cp_provider = ir_provider r, cp_link = ir_link r\<rparr>))"

section \<open>Writes\<close>

text \<open>Each field of a patch may be absent.\<close>

record ingest_patch =
  ip_status :: "ingest_status option"
  ip_progress :: "int option"
  ip_step :: "string option option"
  ip_error :: "string option option"
  ip_evidence :: "string option option"
  ip_pages :: "string list option"
  ip_revision :: "json option option"
  ip_urls :: "string list option"
  ip_commit :: "string option option"
  ip_github :: "string list option"
  ip_backlog :: "json option option"
  ip_archived :: "bool option"
  ip_body :: "string option option"
  ip_provider :: "string option option"
  ip_link :: "string option option"

definition no_patch :: ingest_patch where
  "no_patch =
     \<lparr>ip_status = None, ip_progress = None, ip_step = None, ip_error = None, ip_evidence = None, ip_pages = None,
      ip_revision = None, ip_urls = None, ip_commit = None, ip_github = None, ip_backlog = None, ip_archived = None,
      ip_body = None, ip_provider = None, ip_link = None\<rparr>"

definition patch_col :: "'a option \<Rightarrow> 'a \<Rightarrow> 'a" where
  "patch_col v old = (case v of None \<Rightarrow> old | Some x \<Rightarrow> x)"

text \<open>\<open>JSON.stringify\<close> of an object that may be absent: a falsy value is stored as \<open>NULL\<close>.\<close>

definition json_col :: "json option \<Rightarrow> json option" where
  "json_col v = (case v of None \<Rightarrow> None | Some x \<Rightarrow> if js_truthy x then Some x else None)"

definition clamped :: "int \<Rightarrow> int" where
  "clamped n = max 0 (min 100 n)"

definition patched_ingest :: "ingest_patch \<Rightarrow> int \<Rightarrow> ingest_row \<Rightarrow> ingest_row" where
  "patched_ingest p now r =
     r\<lparr>ir_status := patch_col (ip_status p) (ir_status r),
       ir_progress := patch_col (map_option clamped (ip_progress p)) (ir_progress r),
       ir_step := patch_col (ip_step p) (ir_step r),
       ir_error := patch_col (ip_error p) (ir_error r),
       ir_evidence := patch_col (ip_evidence p) (ir_evidence r),
       ir_pages := patch_col (ip_pages p) (ir_pages r),
       ir_revision := patch_col (map_option json_col (ip_revision p)) (ir_revision r),
       ir_urls := patch_col (ip_urls p) (ir_urls r),
       ir_commit := patch_col (ip_commit p) (ir_commit r),
       ir_github := patch_col (ip_github p) (ir_github r),
       ir_backlog := patch_col (map_option json_col (ip_backlog p)) (ir_backlog r),
       ir_archived := patch_col (ip_archived p) (ir_archived r),
       ir_body := patch_col (ip_body p) (ir_body r),
       ir_provider := patch_col (ip_provider p) (ir_provider r),
       ir_link := patch_col (ip_link p) (ir_link r),
       ir_updated := now\<rparr>"

definition update_ingest :: "string \<Rightarrow> ingest_patch \<Rightarrow> int \<Rightarrow> ingest_rows \<Rightarrow> ingest_rows" where
  "update_ingest i p now rows =
     (if p = no_patch then rows else update_where (\<lambda>r. ir_id r = i) (patched_ingest p now) rows)"

text \<open>\<open>enqueue\<close>: the id is drawn at random; the insert throws where it is taken.\<close>

definition new_ingest_row :: "string \<Rightarrow> string \<Rightarrow> string \<Rightarrow> string list \<Rightarrow> int \<Rightarrow> ingest_row" where
  "new_ingest_row i file name hints now =
     \<lparr>ir_id = i, ir_file = file, ir_name = name, ir_hints = hints, ir_status = In_Queued, ir_progress = 0,
      ir_step = None, ir_error = None, ir_evidence = None, ir_pages = [], ir_revision = None, ir_urls = [],
      ir_commit = None, ir_github = [], ir_backlog = None, ir_archived = False, ir_body = None, ir_provider = None,
      ir_link = None, ir_created = now, ir_updated = now\<rparr>"

definition insert_ingest ::
  "string \<Rightarrow> string \<Rightarrow> string \<Rightarrow> string list \<Rightarrow> int \<Rightarrow> ingest_rows \<Rightarrow> (ingest_job \<times> ingest_rows) option" where
  "insert_ingest i file name hints now rows =
     (if list_ex (\<lambda>r. ir_id r = i) rows then None
      else let r = new_ingest_row i file name hints now in Some (ingest_of_row r, rows @ [r]))"

definition requeue_patch :: "bool \<Rightarrow> ingest_patch" where
  "requeue_patch cached =
     no_patch\<lparr>ip_status := Some In_Queued, ip_progress := Some (if cached then 100 else 0), ip_step := Some None,
       ip_error := Some None\<rparr>"

definition requeue_ingest :: "string \<Rightarrow> int \<Rightarrow> ingest_rows \<Rightarrow> ingest_job option \<times> ingest_rows" where
  "requeue_ingest i now rows =
     (case get_ingest i rows of
        None \<Rightarrow> (None, rows)
      | Some j \<Rightarrow>
          let rows' = update_ingest i (requeue_patch (ij_cached j)) now rows in (get_ingest i rows', rows'))"

section \<open>The watchdog\<close>

record stuck_alert =
  sa_id :: string
  sa_name :: string
  sa_status :: ingest_status
  sa_age :: int

definition stuck_threshold :: int where "stuck_threshold = 10 * 60 * 1000"

definition alert_for :: "int \<Rightarrow> ingest_job \<Rightarrow> stuck_alert" where
  "alert_for now j = \<lparr>sa_id = ij_id j, sa_name = ij_name j, sa_status = ij_status j, sa_age = now - ij_created j\<rparr>"

text \<open>The loop over the stale jobs, with the set of ids it fills.\<close>

fun alert_new :: "int \<Rightarrow> ingest_job list \<Rightarrow> string list \<Rightarrow> stuck_alert list \<times> string list" where
  "alert_new now [] ids = ([], ids)"
| "alert_new now (j # js) ids =
     (if ij_id j \<in> set ids then alert_new now js ids
      else let (alerts, ids') = alert_new now js (ids @ [ij_id j]) in (alert_for now j # alerts, ids'))"

definition detect_stuck_jobs :: "ingest_job list \<Rightarrow> string list \<Rightarrow> int \<Rightarrow> stuck_alert list \<times> string list" where
  "detect_stuck_jobs stale alerted now = alert_new now stale (filter (\<lambda>i. i \<in> ij_id ` set stale) alerted)"

text \<open>One tick of the sweep: the alerts it sends and the ids it keeps for the next tick.\<close>

definition sweep_stuck :: "int \<Rightarrow> ingest_rows \<Rightarrow> string list \<Rightarrow> stuck_alert list \<times> string list" where
  "sweep_stuck now rows alerted = detect_stuck_jobs (stale_active now stuck_threshold rows) alerted now"

section \<open>One alert per episode\<close>

lemma alert_new_ids:
  "distinct (map ij_id js) \<Longrightarrow>
     map sa_id (fst (alert_new now js ids)) = filter (\<lambda>i. i \<notin> set ids) (map ij_id js)"
proof (induction now js ids rule: alert_new.induct)
  case (2 now j js ids)
  then have "filter (\<lambda>i. i \<notin> set (ids @ [ij_id j])) (map ij_id js) = filter (\<lambda>i. i \<notin> set ids) (map ij_id js)"
    by (intro filter_cong) (auto simp: image_iff)
  with 2 show ?case
    by (cases "ij_id j \<in> set ids") (simp_all add: alert_for_def split_beta)
qed simp

lemma alert_new_kept: "set (snd (alert_new now js ids)) = set ids \<union> ij_id ` set js"
  by (induction now js ids rule: alert_new.induct) (auto simp: split_beta Let_def)

definition stale_ids :: "int \<Rightarrow> ingest_rows \<Rightarrow> string list" where
  "stale_ids now rows = map ij_id (stale_active now stuck_threshold rows)"

text \<open>The alerts of a run of ticks, each with the rows it finds.\<close>

fun sweep_ticks :: "(int \<times> ingest_rows) list \<Rightarrow> string list \<Rightarrow> string list list" where
  "sweep_ticks [] alerted = []"
| "sweep_ticks ((now, rows) # ticks) alerted =
     (let (alerts, alerted') = sweep_stuck now rows alerted in map sa_id alerts # sweep_ticks ticks alerted')"

fun episodes :: "(int \<times> ingest_rows) list \<Rightarrow> string set \<Rightarrow> string list list" where
  "episodes [] before = []"
| "episodes ((now, rows) # ticks) before =
     filter (\<lambda>i. i \<notin> before) (stale_ids now rows) # episodes ticks (set (stale_ids now rows))"

lemma stale_ids_distinct: "distinct (map ir_id rows) \<Longrightarrow> distinct (stale_ids now rows)"
proof -
  assume "distinct (map ir_id rows)"
  then have "distinct (map ir_id (filter P rows))" for P by (rule distinct_map_filter)
  then have "distinct (map ir_id (order_by ir_created (filter P rows)))" for P
    by (simp add: order_by_def distinct_map)
  then show ?thesis by (simp add: stale_ids_def stale_active_def ingest_of_row_def comp_def)
qed

lemma sweep_stuck_ids:
  assumes "distinct (map ir_id rows)"
  shows "map sa_id (fst (sweep_stuck now rows ids)) = filter (\<lambda>i. i \<notin> set ids) (stale_ids now rows)"
    and "set (snd (sweep_stuck now rows ids)) = set (stale_ids now rows)"
proof -
  let ?js = "stale_active now stuck_threshold rows"
  have d: "distinct (map ij_id ?js)" using stale_ids_distinct [OF assms] by (simp add: stale_ids_def)
  have "filter (\<lambda>i. i \<notin> set (filter (\<lambda>i. i \<in> ij_id ` set ?js) ids)) (map ij_id ?js) =
      filter (\<lambda>i. i \<notin> set ids) (map ij_id ?js)"
    by (intro filter_cong) auto
  with alert_new_ids [OF d] d
  show "map sa_id (fst (sweep_stuck now rows ids)) = filter (\<lambda>i. i \<notin> set ids) (stale_ids now rows)"
    by (simp add: sweep_stuck_def detect_stuck_jobs_def stale_ids_def)
  show "set (snd (sweep_stuck now rows ids)) = set (stale_ids now rows)"
    by (auto simp: sweep_stuck_def detect_stuck_jobs_def stale_ids_def alert_new_kept)
qed

lemma sweep_ticks_episodes:
  assumes "list_all (\<lambda>(now, rows). distinct (map ir_id rows)) ticks"
  shows "sweep_ticks ticks ids = episodes ticks (set ids)"
  using assms
proof (induction ticks ids rule: sweep_ticks.induct)
  case (2 now rows ticks ids)
  obtain alerts ids' where s: "sweep_stuck now rows ids = (alerts, ids')" by (cases "sweep_stuck now rows ids")
  with 2 sweep_stuck_ids [of rows now ids] show ?case by simp
qed simp

text \<open>
  The watchdog alerts once per episode: over any run of ticks, a tick alerts exactly the jobs that are stuck at it
  and were not stuck at the tick before, the oldest first.
\<close>

theorem stuck_alerts_once_per_episode:
  assumes "list_all (\<lambda>(now, rows). distinct (map ir_id rows)) ticks"
  shows "sweep_ticks ticks [] = episodes ticks {}"
  using sweep_ticks_episodes [OF assms, of "[]"] by simp

end
