(* ===== verification/Ingest_Queue.thy ===== *)
theory Ingest_Queue
  imports Ingest_Store
begin

text \<open>
  The worker of the ingest queue (packages/server/src/ingestQueue.ts): it drains the rows of Ingest_Store one
  at a time, downloads and reads a file, files its text and archives the original, and can be cancelled.

  \<^item> A drain is a task: its id, the call it waits for (none where \<open>process\<close> has settled and only the loop
    has to go on) and the place in the code with the values it still needs. Between two awaits a task runs alone.
  \<^item> \<open>iq_running\<close> is the map of abort controllers; a controller is a number, and \<open>iq_aborted\<close> are those that
    were aborted.
  \<^item> \<open>ingest_host\<close> is what the surroundings give to one uninterrupted run: the time, the id of a new row,
    whether Drive is connected, and the archive folder of the settings. Drive, transcription, extraction and the
    engine answer as they like; a call that throws answers with the message.
  \<^item> The result of the engine is its JSON value; a field of another type than the declared one reads as absent.
  \<^item> A long dash in a message, outside the Latin-1 range, is written as two hyphens.
\<close>

section \<open>The host\<close>

record ingest_file =
  gf_id :: string
  gf_name :: string
  gf_mime :: string
  gf_link :: "string option"
  gf_parent :: "string option"

record ingest_host =
  ih_now :: int
  ih_id :: string
  ih_connected :: bool
  ih_folder :: "string option"

datatype ingest_call =
  Get_File string
| Download string
| Transcribe_Audio string string
| Extract_File string string string
| Export_Text string
| Open_Engine
| Store_Entry json
| Archive_Folder string
| Move_File string string

datatype ingest_answer =
  File_Is ingest_file
| Data_Is string
| Transcript_Is string "string option"
| Not_Transcribed string
| Extract_Is string "string option"
| Engine_Open
| Stored_As json
| Folder_Is string
| Moved
| Raised string

fun answers_call :: "ingest_call \<Rightarrow> ingest_answer \<Rightarrow> bool" where
  "answers_call c (Raised _) \<longleftrightarrow> True"
| "answers_call c (File_Is _) \<longleftrightarrow> (case c of Get_File _ \<Rightarrow> True | _ \<Rightarrow> False)"
| "answers_call c (Data_Is _) \<longleftrightarrow> (case c of Download _ \<Rightarrow> True | Export_Text _ \<Rightarrow> True | _ \<Rightarrow> False)"
| "answers_call c (Transcript_Is _ _) \<longleftrightarrow> (case c of Transcribe_Audio _ _ \<Rightarrow> True | _ \<Rightarrow> False)"
| "answers_call c (Not_Transcribed _) \<longleftrightarrow> (case c of Transcribe_Audio _ _ \<Rightarrow> True | _ \<Rightarrow> False)"
| "answers_call c (Extract_Is _ _) \<longleftrightarrow> (case c of Extract_File _ _ _ \<Rightarrow> True | _ \<Rightarrow> False)"
| "answers_call c Engine_Open \<longleftrightarrow> c = Open_Engine"
| "answers_call c (Stored_As _) \<longleftrightarrow> (case c of Store_Entry _ \<Rightarrow> True | _ \<Rightarrow> False)"
| "answers_call c (Folder_Is _) \<longleftrightarrow> (case c of Archive_Folder _ \<Rightarrow> True | _ \<Rightarrow> False)"
| "answers_call c Moved \<longleftrightarrow> (case c of Move_File _ _ \<Rightarrow> True | _ \<Rightarrow> False)"

section \<open>The state\<close>

text \<open>What \<open>process\<close> knows once the file is known.\<close>

record ingest_work =
  iw_job :: ingest_job
  iw_folder :: "string option"
  iw_control :: nat
  iw_file :: ingest_file
  iw_link :: string

datatype ingest_frame =
  I_File ingest_job "string option" nat
| I_Audio ingest_work
| I_Transcript ingest_work
| I_Artifact ingest_work
| I_Extract_Engine ingest_work string
| I_Extracted ingest_work
| I_Export ingest_work
| I_Text ingest_work
| I_Engine ingest_work string
| I_Storing ingest_work
| I_Folder ingest_work json
| I_Moving ingest_work json
| I_Settled

type_synonym ingest_task = "nat \<times> ingest_call option \<times> ingest_frame"

record ingest_queue =
  iq_rows :: ingest_rows
  iq_draining :: bool
  iq_running :: "string \<Rightarrow> nat option"
  iq_aborted :: "nat list"
  iq_tasks :: "ingest_task list"
  iq_next :: nat
  iq_log :: "(string \<times> ingest_call) list"

definition new_ingest_queue :: "ingest_rows \<Rightarrow> ingest_queue" where
  "new_ingest_queue rows =
     \<lparr>iq_rows = rows, iq_draining = False, iq_running = (\<lambda>_. None), iq_aborted = [], iq_tasks = [], iq_next = 0,
      iq_log = []\<rparr>"

text \<open>How an uninterrupted run of a drain ends: it waits, \<open>process\<close> has settled, or the loop is over.\<close>

datatype ingest_outcome = I_Waits string ingest_call ingest_frame | I_Goes | I_Ends

fun ingest_parked :: "nat \<Rightarrow> ingest_outcome \<times> ingest_queue \<Rightarrow> ingest_queue" where
  "ingest_parked n (I_Waits i c f, q) =
     q\<lparr>iq_tasks := iq_tasks q @ [(n, Some c, f)], iq_log := iq_log q @ [(i, c)]\<rparr>"
| "ingest_parked n (I_Goes, q) = q\<lparr>iq_tasks := iq_tasks q @ [(n, None, I_Settled)]\<rparr>"
| "ingest_parked n (I_Ends, q) = q"

definition patch_row :: "ingest_host \<Rightarrow> string \<Rightarrow> ingest_patch \<Rightarrow> ingest_queue \<Rightarrow> ingest_queue" where
  "patch_row w i p q = q\<lparr>iq_rows := update_ingest i p (ih_now w) (iq_rows q)\<rparr>"

definition status_patch :: "ingest_status \<Rightarrow> string option \<Rightarrow> int \<Rightarrow> ingest_patch" where
  "status_patch s step progress =
     no_patch\<lparr>ip_status := Some s, ip_step := Some step, ip_progress := Some progress\<rparr>"

section \<open>One file\<close>

text \<open>The end of \<open>process\<close>: a failure is written unless the job was cancelled, and the controller goes.\<close>

definition error_ingest :: "string \<Rightarrow> ingest_patch" where
  "error_ingest m = no_patch\<lparr>ip_status := Some In_Error, ip_step := Some None, ip_error := Some (Some m)\<rparr>"

definition release_controller :: "string \<Rightarrow> ingest_queue \<Rightarrow> ingest_queue" where
  "release_controller i q = q\<lparr>iq_running := (iq_running q)(i := None)\<rparr>"

definition ingest_failed ::
  "ingest_host \<Rightarrow> string \<Rightarrow> nat \<Rightarrow> string \<Rightarrow> ingest_queue \<Rightarrow> ingest_outcome \<times> ingest_queue" where
  "ingest_failed w i c m q =
     (I_Goes, release_controller i (if c \<in> set (iq_aborted q) then q else patch_row w i (error_ingest m) q))"

definition work_failed :: "ingest_host \<Rightarrow> ingest_work \<Rightarrow> string \<Rightarrow> ingest_queue \<Rightarrow> ingest_outcome \<times> ingest_queue" where
  "work_failed w k m q = ingest_failed w (ij_id (iw_job k)) (iw_control k) m q"

definition no_drive :: string where "no_drive = ''Google Drive is not connected''"

text \<open>\<open>process\<close> up to its first await.\<close>

definition ingest_process :: "ingest_host \<Rightarrow> ingest_job \<Rightarrow> ingest_queue \<Rightarrow> ingest_outcome \<times> ingest_queue" where
  "ingest_process w j q =
     (if \<not> ih_connected w
      then (I_Goes, patch_row w (ij_id j) (no_patch\<lparr>ip_status := Some In_Error, ip_error := Some (Some no_drive)\<rparr>) q)
      else (I_Waits (ij_id j) (Get_File (ij_file j)) (I_File j (ih_folder w) (iq_next q)),
            q\<lparr>iq_running := (iq_running q)(ij_id j := Some (iq_next q)), iq_next := iq_next q + 1\<rparr>))"

definition waits_for :: "ingest_work \<Rightarrow> ingest_call \<Rightarrow> ingest_frame \<Rightarrow> ingest_queue \<Rightarrow> ingest_outcome \<times> ingest_queue" where
  "waits_for k c f q = (I_Waits (ij_id (iw_job k)) c f, q)"

definition quoted :: "string \<Rightarrow> string" where
  "quoted s = [CHR 0x22] @ s @ [CHR 0x22]"

definition entry_header :: "string \<Rightarrow> string \<Rightarrow> string \<Rightarrow> string option \<Rightarrow> string" where
  "entry_header kind name link by = lines
     ([kind @ '' '' @ quoted name @ '' ingested from Google Drive.'', ''Original: '' @ link] @
      (case by of
         None \<Rightarrow> []
       | Some p \<Rightarrow> if p = [] then [] else [(if kind = ''Voice note'' then ''Transcribed'' else ''Extracted'') @ '' by '' @ p @ ''.'']))"

definition entry_content :: "string \<Rightarrow> string \<Rightarrow> string \<Rightarrow> string option \<Rightarrow> string \<Rightarrow> string" where
  "entry_content kind name link by body = entry_header kind name link by @ [CHR 0x0A, CHR 0x0A] @ body"

text \<open>The text is there: the job is marked as filing and the engine is asked for.\<close>

definition file_text ::
  "ingest_host \<Rightarrow> ingest_work \<Rightarrow> bool \<Rightarrow> string \<Rightarrow> string option \<Rightarrow> string \<Rightarrow> ingest_queue
    \<Rightarrow> ingest_outcome \<times> ingest_queue" where
  "file_text w k cached body by kind q =
     (let name = gf_name (iw_file k) in
      waits_for k Open_Engine (I_Engine k (entry_content kind name (iw_link k) by body))
        (patch_row w (ij_id (iw_job k))
          (status_patch In_Filing
            (Some ((if cached then ''Filing cached extraction for '' else ''Filing '') @ name)) 100) q))"

definition cache_text :: "string \<Rightarrow> string option \<Rightarrow> string \<Rightarrow> int option \<Rightarrow> ingest_patch" where
  "cache_text body provider link progress =
     no_patch\<lparr>ip_body := Some (Some body), ip_provider := Some provider, ip_link := Some (Some link),
       ip_progress := progress\<rparr>"

definition keep_text ::
  "ingest_host \<Rightarrow> ingest_work \<Rightarrow> string \<Rightarrow> string option \<Rightarrow> int option \<Rightarrow> string \<Rightarrow> ingest_queue
    \<Rightarrow> ingest_outcome \<times> ingest_queue" where
  "keep_text w k body provider progress kind q =
     file_text w k False body provider kind
       (patch_row w (ij_id (iw_job k)) (cache_text body provider (iw_link k) progress) q)"

definition google_doc :: "string \<Rightarrow> bool" where
  "google_doc m \<longleftrightarrow> m \<in> set [''application/vnd.google-apps.document'', ''application/vnd.google-apps.spreadsheet'',
     ''application/vnd.google-apps.presentation'']"

definition readable_text :: "string \<Rightarrow> bool" where
  "readable_text m \<longleftrightarrow> starts_with ''text/'' m \<or> m \<in> set [''application/json'', ''application/xml'', ''application/x-yaml'']"

definition unsupported :: "string \<Rightarrow> string" where
  "unsupported m = ''unsupported file type '' @ m @ '' -- audio, text, Google Docs, images, and PDFs are supported''"

definition drive_link :: "string \<Rightarrow> string" where
  "drive_link i = ''https://drive.google.com/file/d/'' @ i @ ''/view''"

definition or_else :: "'a option \<Rightarrow> 'a \<Rightarrow> 'a" where
  "or_else v d = (case v of None \<Rightarrow> d | Some x \<Rightarrow> x)"

definition cached_kind :: "string option \<Rightarrow> string" where
  "cached_kind by =
     (case by of
        None \<Rightarrow> ''Media artifact''
      | Some p \<Rightarrow> if text_includes ''whisper'' p \<or> text_includes ''transcrib'' p then ''Voice note'' else ''Media artifact'')"

text \<open>The file is known: a cached text is filed, and otherwise the type decides how the text is got.\<close>

definition file_found ::
  "ingest_host \<Rightarrow> ingest_job \<Rightarrow> string option \<Rightarrow> nat \<Rightarrow> ingest_file \<Rightarrow> ingest_queue \<Rightarrow> ingest_outcome \<times> ingest_queue" where
  "file_found w j folder c f q =
     (let cached = cached_payload_of (ij_id j) (iq_rows q);
          link = or_else (Option.bind cached cp_link) (or_else (gf_link f) (drive_link (gf_id f)));
          k = \<lparr>iw_job = j, iw_folder = folder, iw_control = c, iw_file = f, iw_link = link\<rparr>;
          q1 = patch_row w (ij_id j) (status_patch In_Downloading (Some (''Downloading '' @ gf_name f)) 0) q
      in case cached of
           Some p \<Rightarrow> file_text w k True (cp_body p) (cp_provider p) (cached_kind (cp_provider p)) q1
         | None \<Rightarrow>
             if audio_type (gf_mime f) then waits_for k (Download (gf_id f)) (I_Audio k) q1
             else if extractable_type (gf_mime f) then waits_for k (Download (gf_id f)) (I_Artifact k) q1
             else if google_doc (gf_mime f) then waits_for k (Export_Text (gf_id f)) (I_Export k) q1
             else if readable_text (gf_mime f) then waits_for k (Download (gf_id f)) (I_Text k) q1
             else work_failed w k (unsupported (gf_mime f)) q1)"

section \<open>Filing\<close>

definition entry_arguments :: "string list \<Rightarrow> string \<Rightarrow> json" where
  "entry_arguments hints content = JObj
     ([(''content'', JStr content), (''source'', JStr ''drive''), (''verbatim'', JBool True)] @
      (if hints = [] then [] else [(''hints'', JArr (map JStr hints))]))"

definition json_some :: "json \<Rightarrow> json option" where
  "json_some v = (if v = JNull \<or> v = JUndefined then None else Some v)"

definition candidate_count :: "json \<Rightarrow> nat" where
  "candidate_count v = (case js_member ''candidates'' (js_member ''backlog'' v) of JArr cs \<Rightarrow> length cs | _ \<Rightarrow> 0)"

definition filed_step :: "json \<Rightarrow> string option" where
  "filed_step v =
     (let filing = text_of (js_member ''filing'' v); pages = texts_of (js_member ''pagesTouched'' v); n = candidate_count v in
      if filing = Some ''uncertain'' then
        Some (''Saved -- filed to '' @ (case pages of [] \<Rightarrow> ''the selected page'' | p # _ \<Rightarrow> p) @
          '' with an open filing question logged in the page (review anytime).'')
      else if filing = Some ''inbox'' then Some ''Saved -- filed to Inbox; the filing question is logged in the note.''
      else if n \<noteq> 0 then
        Some (''Filed; proposed '' @ nat_str n @ '' backlog candidate'' @ (if n = 1 then [] else ''s''))
      else None)"

definition filed_patch :: "json \<Rightarrow> bool \<Rightarrow> ingest_patch" where
  "filed_patch v archived =
     no_patch\<lparr>ip_status := Some In_Done, ip_step := Some (filed_step v), ip_progress := Some 100,
       ip_evidence := map_option Some (text_of (js_member ''evidenceRef'' v)),
       ip_pages := Some (texts_of (js_member ''pagesTouched'' v)),
       ip_revision := Some (json_some (js_member ''revision'' v)),
       ip_urls := Some (texts_of (js_member ''urls'' v)),
       ip_commit := Some (text_of (js_member ''commitSha'' v)),
       ip_github := Some (texts_of (js_member ''githubUrls'' v)),
       ip_backlog := Some (json_some (js_member ''backlog'' v)),
       ip_archived := Some archived\<rparr>"

definition ingest_done :: "ingest_host \<Rightarrow> ingest_work \<Rightarrow> json \<Rightarrow> bool \<Rightarrow> ingest_queue \<Rightarrow> ingest_outcome \<times> ingest_queue" where
  "ingest_done w k v archived q =
     (I_Goes, release_controller (ij_id (iw_job k)) (patch_row w (ij_id (iw_job k)) (filed_patch v archived) q))"

text \<open>The engine has stored the entry: its receipt is checked, then the original is archived where there is a folder.\<close>

definition archive_root :: "ingest_work \<Rightarrow> string option" where
  "archive_root k =
     (case (case iw_folder k of None \<Rightarrow> gf_parent (iw_file k) | Some f \<Rightarrow> Some f) of
        None \<Rightarrow> None
      | Some r \<Rightarrow> if r = [] then None else Some r)"

definition entry_stored ::
  "receipt_env \<Rightarrow> ingest_host \<Rightarrow> ingest_work \<Rightarrow> json \<Rightarrow> ingest_queue \<Rightarrow> ingest_outcome \<times> ingest_queue" where
  "entry_stored env w k v q =
     (case assert_durable_store env v of
        Inl m \<Rightarrow> work_failed w k m q
      | Inr _ \<Rightarrow>
          (case archive_root k of
             None \<Rightarrow> ingest_done w k v False q
           | Some r \<Rightarrow> waits_for k (Archive_Folder r) (I_Folder k v) q))"

section \<open>The drain\<close>

definition ingest_next :: "ingest_host \<Rightarrow> ingest_queue \<Rightarrow> ingest_outcome \<times> ingest_queue" where
  "ingest_next w q =
     (case next_queued_ingest (iq_rows q) of
        None \<Rightarrow> (I_Ends, q\<lparr>iq_draining := False\<rparr>)
      | Some j \<Rightarrow> ingest_process w j q)"

definition ingest_drain :: "ingest_host \<Rightarrow> ingest_queue \<Rightarrow> ingest_queue" where
  "ingest_drain w q =
     (if iq_draining q then q
      else ingest_parked (iq_next q) (ingest_next w (q\<lparr>iq_draining := True, iq_next := iq_next q + 1\<rparr>)))"

text \<open>
  The continuation of a drain with the answer of its call. \<open>answer_ingest\<close> below gives no answer that does not
  fit the call; here such an answer is an error.
\<close>

definition error_text :: "ingest_answer \<Rightarrow> string" where
  "error_text ans = (case ans of Raised m \<Rightarrow> m | Not_Transcribed m \<Rightarrow> ''transcription failed: '' @ m | _ \<Rightarrow> ''unexpected answer'')"

fun ingest_resume ::
  "receipt_env \<Rightarrow> ingest_host \<Rightarrow> ingest_frame \<Rightarrow> ingest_answer \<Rightarrow> ingest_queue \<Rightarrow> ingest_outcome \<times> ingest_queue" where
  "ingest_resume env w (I_File j folder c) ans q =
     (case ans of File_Is f \<Rightarrow> file_found w j folder c f q | _ \<Rightarrow> ingest_failed w (ij_id j) c (error_text ans) q)"
| "ingest_resume env w (I_Audio k) ans q =
     (case ans of
        Data_Is d \<Rightarrow>
          waits_for k (Transcribe_Audio d (gf_name (iw_file k))) (I_Transcript k)
            (patch_row w (ij_id (iw_job k))
              (status_patch In_Transcribing (Some (''Transcribing '' @ gf_name (iw_file k))) 0) q)
      | _ \<Rightarrow> work_failed w k (error_text ans) q)"
| "ingest_resume env w (I_Transcript k) ans q =
     (case ans of
        Transcript_Is body by \<Rightarrow> keep_text w k body by (Some 100) ''Voice note'' q
      | _ \<Rightarrow> work_failed w k (error_text ans) q)"
| "ingest_resume env w (I_Artifact k) ans q =
     (case ans of
        Data_Is d \<Rightarrow>
          waits_for k Open_Engine (I_Extract_Engine k d)
            (patch_row w (ij_id (iw_job k))
              (status_patch In_Extracting (Some (''Extracting '' @ gf_name (iw_file k))) 25) q)
      | _ \<Rightarrow> work_failed w k (error_text ans) q)"
| "ingest_resume env w (I_Extract_Engine k d) ans q =
     (if ans = Engine_Open
      then waits_for k (Extract_File d (gf_name (iw_file k)) (gf_mime (iw_file k))) (I_Extracted k) q
      else work_failed w k (error_text ans) q)"
| "ingest_resume env w (I_Extracted k) ans q =
     (case ans of
        Extract_Is body by \<Rightarrow> keep_text w k body by (Some 100) ''Media artifact'' q
      | _ \<Rightarrow> work_failed w k (error_text ans) q)"
| "ingest_resume env w (I_Export k) ans q =
     (case ans of
        Data_Is body \<Rightarrow> keep_text w k body None None ''Document'' q
      | _ \<Rightarrow> work_failed w k (error_text ans) q)"
| "ingest_resume env w (I_Text k) ans q =
     (case ans of
        Data_Is body \<Rightarrow> keep_text w k body None None ''Document'' q
      | _ \<Rightarrow> work_failed w k (error_text ans) q)"
| "ingest_resume env w (I_Engine k content) ans q =
     (if ans = Engine_Open
      then waits_for k (Store_Entry (entry_arguments (ij_hints (iw_job k)) content)) (I_Storing k) q
      else work_failed w k (error_text ans) q)"
| "ingest_resume env w (I_Storing k) ans q =
     (case ans of Stored_As v \<Rightarrow> entry_stored env w k v q | _ \<Rightarrow> work_failed w k (error_text ans) q)"
| "ingest_resume env w (I_Folder k v) ans q =
     (case ans of
        Folder_Is r \<Rightarrow> waits_for k (Move_File (gf_id (iw_file k)) r) (I_Moving k v) q
      | _ \<Rightarrow> ingest_done w k v False q)"
| "ingest_resume env w (I_Moving k v) ans q = ingest_done w k v (ans = Moved) q"
| "ingest_resume env w I_Settled ans q = ingest_next w q"

section \<open>The queue as a whole\<close>

definition take_ingest :: "nat \<Rightarrow> ingest_queue \<Rightarrow> ingest_task option \<times> ingest_queue" where
  "take_ingest n q = (find (\<lambda>t. fst t = n) (iq_tasks q), q\<lparr>iq_tasks := filter (\<lambda>t. fst t \<noteq> n) (iq_tasks q)\<rparr>)"

definition answer_ingest :: "receipt_env \<Rightarrow> ingest_host \<Rightarrow> nat \<Rightarrow> ingest_answer \<Rightarrow> ingest_queue \<Rightarrow> ingest_queue" where
  "answer_ingest env w n ans q =
     (case take_ingest n q of
        (None, _) \<Rightarrow> q
      | (Some (_, None, f), q') \<Rightarrow> ingest_parked n (ingest_resume env w f ans q')
      | (Some (_, Some c, f), q') \<Rightarrow>
          if answers_call c ans then ingest_parked n (ingest_resume env w f ans q') else q)"

definition enqueue_file ::
  "ingest_host \<Rightarrow> string \<Rightarrow> string \<Rightarrow> string list \<Rightarrow> ingest_queue \<Rightarrow> ingest_job option \<times> ingest_queue" where
  "enqueue_file w file name hints q =
     (case active_for_file file (iq_rows q) of
        Some j \<Rightarrow> (Some j, ingest_drain w q)
      | None \<Rightarrow>
          (case insert_ingest (ih_id w) file name hints (ih_now w) (iq_rows q) of
             None \<Rightarrow> (None, q)
           | Some (j, rows) \<Rightarrow> (Some j, ingest_drain w (q\<lparr>iq_rows := rows\<rparr>))))"

definition retry_ingest :: "ingest_host \<Rightarrow> string \<Rightarrow> ingest_queue \<Rightarrow> ingest_job option \<times> ingest_queue" where
  "retry_ingest w i q =
     (let (j, rows) = requeue_ingest i (ih_now w) (iq_rows q); q1 = q\<lparr>iq_rows := rows\<rparr>
      in (j, if j = None then q1 else ingest_drain w q1))"

definition cancelled_patch :: ingest_patch where
  "cancelled_patch = status_patch In_Interrupted (Some ''cancelled'') 0"

definition cancel_ingest :: "ingest_host \<Rightarrow> string \<Rightarrow> ingest_queue \<Rightarrow> ingest_job option \<times> ingest_queue" where
  "cancel_ingest w i q =
     (case get_ingest i (iq_rows q) of
        None \<Rightarrow> (None, q)
      | Some _ \<Rightarrow>
          let q1 = patch_row w i cancelled_patch q;
              q2 = (case iq_running q1 i of None \<Rightarrow> q1 | Some c \<Rightarrow> q1\<lparr>iq_aborted := c # iq_aborted q1\<rparr>)
          in (get_ingest i (iq_rows q2), q2))"

text \<open>\<open>onProgress\<close>, while the transcription runs.\<close>

definition report_progress :: "ingest_host \<Rightarrow> nat \<Rightarrow> int \<Rightarrow> ingest_queue \<Rightarrow> ingest_queue" where
  "report_progress w n percent q =
     (case find (\<lambda>t. fst t = n) (iq_tasks q) of
        Some (_, _, I_Transcript k) \<Rightarrow> patch_row w (ij_id (iw_job k)) (no_patch\<lparr>ip_progress := Some percent\<rparr>) q
      | _ \<Rightarrow> q)"

text \<open>
  The process ends and starts again: the tasks are gone, the store is opened, and the application resumes the
  queue. The log is kept; it is not part of the program.
\<close>

definition restart_ingest :: "ingest_host \<Rightarrow> ingest_queue \<Rightarrow> ingest_queue" where
  "restart_ingest w q =
     ingest_drain w ((new_ingest_queue (open_ingest (ih_now w) (iq_rows q)))\<lparr>iq_log := iq_log q\<rparr>)"

datatype ingest_move =
  Im_Enqueue string string "string list"
| Im_Retry string
| Im_Cancel string
| Im_Resume
| Im_Restart
| Im_Progress nat int
| Im_Answer nat ingest_answer

fun do_ingest :: "receipt_env \<Rightarrow> ingest_host \<times> ingest_move \<Rightarrow> ingest_queue \<Rightarrow> ingest_queue" where
  "do_ingest env (w, Im_Enqueue file name hints) q = snd (enqueue_file w file name hints q)"
| "do_ingest env (w, Im_Retry i) q = snd (retry_ingest w i q)"
| "do_ingest env (w, Im_Cancel i) q = snd (cancel_ingest w i q)"
| "do_ingest env (w, Im_Resume) q = ingest_drain w q"
| "do_ingest env (w, Im_Restart) q = restart_ingest w q"
| "do_ingest env (w, Im_Progress n percent) q = report_progress w n percent q"
| "do_ingest env (w, Im_Answer n ans) q = answer_ingest env w n ans q"

definition run_ingest :: "receipt_env \<Rightarrow> (ingest_host \<times> ingest_move) list \<Rightarrow> ingest_queue \<Rightarrow> ingest_queue" where
  "run_ingest env ms q = fold (do_ingest env) ms q"

end
