(* ===== verification/Ingest_Props.thy ===== *)
theory Ingest_Props
  imports Ingest_Queue
begin

text \<open>
  What the ingest queue promises: one file is worked on at a time, a queued file always has a drain, a file that is
  done has the durable receipt of its entry, a text that was read is not read again, and a job that is
  cancelled while its call fails stays cancelled. Lemmas at the end show where cancelling goes wrong.
\<close>

section \<open>Rows\<close>

lemma patched_ingest_simps [simp]:
  "ir_id (patched_ingest p now r) = ir_id r"
  "ir_file (patched_ingest p now r) = ir_file r"
  "ir_status (patched_ingest p now r) = patch_col (ip_status p) (ir_status r)"
  "ir_progress (patched_ingest p now r) = patch_col (map_option clamped (ip_progress p)) (ir_progress r)"
  "ir_step (patched_ingest p now r) = patch_col (ip_step p) (ir_step r)"
  "ir_body (patched_ingest p now r) = patch_col (ip_body p) (ir_body r)"
  "ir_pages (patched_ingest p now r) = patch_col (ip_pages p) (ir_pages r)"
  "ir_revision (patched_ingest p now r) = patch_col (map_option json_col (ip_revision p)) (ir_revision r)"
  "ir_urls (patched_ingest p now r) = patch_col (ip_urls p) (ir_urls r)"
  "ir_commit (patched_ingest p now r) = patch_col (ip_commit p) (ir_commit r)"
  "ir_github (patched_ingest p now r) = patch_col (ip_github p) (ir_github r)"
  by (simp_all add: patched_ingest_def)

lemma patch_col_simps [simp]: "patch_col None x = x" "patch_col (Some y) x = y"
  by (simp_all add: patch_col_def)

lemma update_ingest_ids [simp]: "map ir_id (update_ingest i p now rows) = map ir_id rows"
  by (simp add: update_ingest_def update_where_def)

lemma in_update_ingest:
  "r' \<in> set (update_ingest i p now rows) \<Longrightarrow>
     (\<exists>r \<in> set rows. ir_id r = i \<and> r' = (if p = no_patch then r else patched_ingest p now r)) \<or>
     r' \<in> set rows \<and> ir_id r' \<noteq> i"
  by (auto simp: update_ingest_def update_where_def split: if_splits)

section \<open>What one run can do\<close>

fun frame_job :: "ingest_frame \<Rightarrow> ingest_job option" where
  "frame_job (I_File j folder c) = Some j"
| "frame_job (I_Audio k) = Some (iw_job k)"
| "frame_job (I_Transcript k) = Some (iw_job k)"
| "frame_job (I_Artifact k) = Some (iw_job k)"
| "frame_job (I_Extract_Engine k d) = Some (iw_job k)"
| "frame_job (I_Extracted k) = Some (iw_job k)"
| "frame_job (I_Export k) = Some (iw_job k)"
| "frame_job (I_Text k) = Some (iw_job k)"
| "frame_job (I_Engine k content) = Some (iw_job k)"
| "frame_job (I_Storing k) = Some (iw_job k)"
| "frame_job (I_Folder k v) = Some (iw_job k)"
| "frame_job (I_Moving k v) = Some (iw_job k)"
| "frame_job I_Settled = None"

fun frame_control :: "ingest_frame \<Rightarrow> nat option" where
  "frame_control (I_File j folder c) = Some c"
| "frame_control (I_Audio k) = Some (iw_control k)"
| "frame_control (I_Transcript k) = Some (iw_control k)"
| "frame_control (I_Artifact k) = Some (iw_control k)"
| "frame_control (I_Extract_Engine k d) = Some (iw_control k)"
| "frame_control (I_Extracted k) = Some (iw_control k)"
| "frame_control (I_Export k) = Some (iw_control k)"
| "frame_control (I_Text k) = Some (iw_control k)"
| "frame_control (I_Engine k content) = Some (iw_control k)"
| "frame_control (I_Storing k) = Some (iw_control k)"
| "frame_control (I_Folder k v) = Some (iw_control k)"
| "frame_control (I_Moving k v) = Some (iw_control k)"
| "frame_control I_Settled = None"

definition frame_id :: "ingest_frame \<Rightarrow> string option" where
  "frame_id f = map_option ij_id (frame_job f)"

text \<open>A result that is still to be written has an accepted receipt.\<close>

fun frame_receipt :: "receipt_env \<Rightarrow> ingest_frame \<Rightarrow> bool" where
  "frame_receipt env (I_Folder k v) \<longleftrightarrow> assert_durable_store env v = Inr ()"
| "frame_receipt env (I_Moving k v) \<longleftrightarrow> assert_durable_store env v = Inr ()"
| "frame_receipt env _ \<longleftrightarrow> True"

text \<open>The writes of the worker to the row of its job.\<close>

definition worker_patch :: "receipt_env \<Rightarrow> ingest_patch \<Rightarrow> bool" where
  "worker_patch env p \<longleftrightarrow>
     (\<exists>m. p = error_ingest m) \<or> (\<exists>s step n. s \<in> set in_flight_states \<and> p = status_patch s step n) \<or>
     (\<exists>b by link n. p = cache_text b by link n) \<or>
     (\<exists>v archived. assert_durable_store env v = Inr () \<and> p = filed_patch v archived)"

definition patch_all :: "string \<Rightarrow> int \<Rightarrow> ingest_patch list \<Rightarrow> ingest_rows \<Rightarrow> ingest_rows" where
  "patch_all i now ps rows = fold (\<lambda>p. update_ingest i p now) ps rows"

lemma patch_all_simps [simp]:
  "patch_all i now [] rows = rows"
  "patch_all i now (p # ps) rows = patch_all i now ps (update_ingest i p now rows)"
  by (simp_all add: patch_all_def)

lemma patch_all_ids [simp]: "map ir_id (patch_all i now ps rows) = map ir_id rows"
  by (induction ps arbitrary: rows) simp_all

lemma worker_patch_intros [intro]:
  "worker_patch env (error_ingest m)"
  "s \<in> set in_flight_states \<Longrightarrow> worker_patch env (status_patch s step n)"
  "worker_patch env (cache_text b by link m')"
  "assert_durable_store env v = Inr () \<Longrightarrow> worker_patch env (filed_patch v archived)"
  unfolding worker_patch_def by blast+

text \<open>The rows of a job that are settled.\<close>

definition rests :: "string \<Rightarrow> ingest_rows \<Rightarrow> bool" where
  "rests i rows \<longleftrightarrow> (\<forall>r \<in> set rows. ir_id r = i \<longrightarrow> ir_status r \<in> {In_Error, In_Done})"

lemma set_status_rests:
  assumes "ip_status p = Some st" and "st \<in> {In_Error, In_Done}"
  shows "rests i (update_ingest i p now rows)"
proof -
  have "p \<noteq> no_patch" using assms(1) by (auto simp: no_patch_def)
  show ?thesis
    unfolding rests_def
  proof (intro ballI impI)
    fix r' assume "r' \<in> set (update_ingest i p now rows)" and "ir_id r' = i"
    with in_update_ingest [OF this(1)] \<open>p \<noteq> no_patch\<close> obtain r where "r' = patched_ingest p now r"
      by metis
    with assms show "ir_status r' \<in> {In_Error, In_Done}" by simp
  qed
qed

lemma error_rests: "rests i (update_ingest i (error_ingest m) now rows)"
  by (rule set_status_rests [where st = In_Error]) (simp_all add: error_ingest_def)

lemma filed_rests: "rests i (update_ingest i (filed_patch v archived) now rows)"
  by (rule set_status_rests [where st = In_Done]) (simp_all add: filed_patch_def)

text \<open>
  One run of \<open>process\<close> from a frame of the job \<open>i\<close> with the controller \<open>c\<close>: it writes to the row of \<open>i\<close>, goes on with a
  frame of \<open>i\<close>, or settles and leaves the row at rest, unless the job was cancelled.
\<close>

definition job_run ::
  "receipt_env \<Rightarrow> string \<Rightarrow> nat \<Rightarrow> ingest_queue \<Rightarrow> ingest_outcome \<times> ingest_queue \<Rightarrow> bool" where
  "job_run env i c q x \<longleftrightarrow>
     (\<exists>now ps. list_all (worker_patch env) ps \<and> iq_rows (snd x) = patch_all i now ps (iq_rows q)) \<and>
     iq_draining (snd x) = iq_draining q \<and> iq_aborted (snd x) = iq_aborted q \<and> iq_tasks (snd x) = iq_tasks q \<and>
     iq_next (snd x) = iq_next q \<and> iq_log (snd x) = iq_log q \<and>
     (case fst x of
        I_Waits i' call f \<Rightarrow>
          i' = i \<and> frame_id f = Some i \<and> frame_control f = Some c \<and> frame_receipt env f \<and> iq_running (snd x) = iq_running q
      | I_Goes \<Rightarrow>
          iq_running (snd x) = (iq_running q)(i := None) \<and> (c \<in> set (iq_aborted q) \<or> rests i (iq_rows (snd x)))
      | I_Ends \<Rightarrow> False)"

lemma waits_run:
  assumes "frame_id f = Some (ij_id (iw_job k))" and "frame_control f = Some (iw_control k)" and "frame_receipt env f"
    and "list_all (worker_patch env) ps" and "iq_rows q' = patch_all (ij_id (iw_job k)) now ps (iq_rows q)"
    and "q' = q\<lparr>iq_rows := iq_rows q'\<rparr>"
  shows "job_run env (ij_id (iw_job k)) (iw_control k) q (waits_for k call f q')"
  using assms by (cases q; cases q') (auto simp: job_run_def waits_for_def)

lemma failure_run: "job_run env i c q (ingest_failed w i c m q')"
  if "list_all (worker_patch env) ps" and "iq_rows q' = patch_all i (ih_now w) ps (iq_rows q)"
    and "q' = q\<lparr>iq_rows := iq_rows q'\<rparr>"
proof -
  have "patch_all i (ih_now w) (ps @ [error_ingest m]) (iq_rows q) = update_ingest i (error_ingest m) (ih_now w) (iq_rows q')"
    by (simp add: patch_all_def that(2))
  moreover have "list_all (worker_patch env) (ps @ [error_ingest m])"
    using that(1) by auto
  ultimately have "\<exists>now ps. list_all (worker_patch env) ps \<and>
      update_ingest i (error_ingest m) (ih_now w) (iq_rows q') = patch_all i now ps (iq_rows q)"
    by metis
  with that error_rests show ?thesis
    by (cases q; cases q') (auto simp: job_run_def ingest_failed_def release_controller_def patch_row_def)
qed

lemma done_run:
  assumes "assert_durable_store env v = Inr ()"
  shows "job_run env (ij_id (iw_job k)) (iw_control k) q (ingest_done w k v archived q)"
proof -
  have "list_all (worker_patch env) [filed_patch v archived]" using assms by auto
  then have "\<exists>now ps. list_all (worker_patch env) ps \<and>
      update_ingest (ij_id (iw_job k)) (filed_patch v archived) (ih_now w) (iq_rows q) = patch_all (ij_id (iw_job k)) now ps (iq_rows q)"
    by (metis patch_all_simps)
  then show ?thesis
    by (simp add: job_run_def ingest_done_def release_controller_def patch_row_def filed_rests)
qed


lemma patch_row_fields [simp]:
  "iq_rows (patch_row w i p q) = update_ingest i p (ih_now w) (iq_rows q)"
  "iq_draining (patch_row w i p q) = iq_draining q" "iq_running (patch_row w i p q) = iq_running q"
  "iq_aborted (patch_row w i p q) = iq_aborted q" "iq_tasks (patch_row w i p q) = iq_tasks q"
  "iq_next (patch_row w i p q) = iq_next q" "iq_log (patch_row w i p q) = iq_log q"
  by (simp_all add: patch_row_def)

text \<open>The writes of a run so far, before it ends.\<close>

definition wrote :: "receipt_env \<Rightarrow> string \<Rightarrow> int \<Rightarrow> ingest_queue \<Rightarrow> ingest_queue \<Rightarrow> bool" where
  "wrote env i now q q' \<longleftrightarrow>
     (\<exists>ps. list_all (worker_patch env) ps \<and> iq_rows q' = patch_all i now ps (iq_rows q)) \<and> q' = q\<lparr>iq_rows := iq_rows q'\<rparr>"

lemma wrote_refl: "wrote env i now q q"
  unfolding wrote_def by (rule conjI, rule exI [of _ "[]"]) simp_all

lemma wrote_patch:
  assumes "wrote env i (ih_now w) q q'" and "worker_patch env p"
  shows "wrote env i (ih_now w) q (patch_row w i p q')"
proof -
  from assms(1) obtain ps where ps: "list_all (worker_patch env) ps" "iq_rows q' = patch_all i (ih_now w) ps (iq_rows q)"
    and q: "q' = q\<lparr>iq_rows := iq_rows q'\<rparr>" by (auto simp: wrote_def)
  have "iq_rows (patch_row w i p q') = patch_all i (ih_now w) (ps @ [p]) (iq_rows q)"
    by (simp add: ps(2) patch_all_def)
  moreover have "list_all (worker_patch env) (ps @ [p])" using ps(1) assms(2) by simp
  moreover have "patch_row w i p q' = q\<lparr>iq_rows := iq_rows (patch_row w i p q')\<rparr>"
    by (subst q) (simp add: patch_row_def)
  ultimately show ?thesis unfolding wrote_def by blast
qed

lemma wrote_waits:
  assumes "wrote env (ij_id (iw_job k)) now q q'"
    and "frame_id f = Some (ij_id (iw_job k))" and "frame_control f = Some (iw_control k)" and "frame_receipt env f"
  shows "job_run env (ij_id (iw_job k)) (iw_control k) q (waits_for k call f q')"
  using assms(1) waits_run [OF assms(2-4)] by (auto simp: wrote_def)

lemma wrote_failed: "wrote env i (ih_now w) q q' \<Longrightarrow> job_run env i c q (ingest_failed w i c m q')"
  using failure_run by (auto simp: wrote_def)

lemma file_text_run:
  assumes "wrote env (ij_id (iw_job k)) (ih_now w) q q'"
  shows "job_run env (ij_id (iw_job k)) (iw_control k) q (file_text w k cached body by kind q')"
  unfolding file_text_def Let_def
  by (rule wrote_waits [OF wrote_patch [OF assms]]) (auto simp: frame_id_def in_flight_states_def)

lemma keep_text_run:
  "job_run env (ij_id (iw_job k)) (iw_control k) q (keep_text w k body by n kind q)"
  unfolding keep_text_def by (rule file_text_run [OF wrote_patch [OF wrote_refl]]) auto

lemma file_found_run: "job_run env (ij_id j) c q (file_found w j folder c f q)"
proof -
  let ?link = "or_else (Option.bind (cached_payload_of (ij_id j) (iq_rows q)) cp_link) (or_else (gf_link f) (drive_link (gf_id f)))"
  define k where "k = \<lparr>iw_job = j, iw_folder = folder, iw_control = c, iw_file = f, iw_link = ?link\<rparr>"
  define q1 where "q1 = patch_row w (ij_id j) (status_patch In_Downloading (Some (''Downloading '' @ gf_name f)) 0) q"
  have k: "iw_job k = j" "iw_control k = c" by (simp_all add: k_def)
  have q1: "wrote env (ij_id (iw_job k)) (ih_now w) q q1"
    unfolding q1_def k by (rule wrote_patch [OF wrote_refl]) (auto simp: in_flight_states_def)
  note waits = wrote_waits [OF q1, unfolded k] and filing = file_text_run [OF q1, unfolded k]
  have failed: "job_run env (ij_id j) c q (work_failed w k m q1)" for m
    using wrote_failed [OF q1] by (simp add: work_failed_def k)
  have "file_found w j folder c f q =
      (case cached_payload_of (ij_id j) (iq_rows q) of
         Some p \<Rightarrow> file_text w k True (cp_body p) (cp_provider p) (cached_kind (cp_provider p)) q1
       | None \<Rightarrow>
           if audio_type (gf_mime f) then waits_for k (Download (gf_id f)) (I_Audio k) q1
           else if extractable_type (gf_mime f) then waits_for k (Download (gf_id f)) (I_Artifact k) q1
           else if google_doc (gf_mime f) then waits_for k (Export_Text (gf_id f)) (I_Export k) q1
           else if readable_text (gf_mime f) then waits_for k (Download (gf_id f)) (I_Text k) q1
           else work_failed w k (unsupported (gf_mime f)) q1)"
    unfolding file_found_def Let_def k_def q1_def ..
  then show ?thesis
    using filing failed by (auto simp: frame_id_def k intro!: waits split: option.splits)
qed

lemma work_failed_run: "job_run env (ij_id (iw_job k)) (iw_control k) q (work_failed w k m q)"
  unfolding work_failed_def by (rule wrote_failed [OF wrote_refl])

lemma now_waits_run:
  "frame_id f = Some (ij_id (iw_job k)) \<Longrightarrow> frame_control f = Some (iw_control k) \<Longrightarrow> frame_receipt env f \<Longrightarrow>
    job_run env (ij_id (iw_job k)) (iw_control k) q (waits_for k call f q)"
  by (rule wrote_waits [OF wrote_refl])

lemma entry_stored_run: "job_run env (ij_id (iw_job k)) (iw_control k) q (entry_stored env w k v q)"
  by (auto simp: entry_stored_def frame_id_def intro!: work_failed_run done_run now_waits_run split: sum.splits option.splits)

lemma patched_waits_run:
  assumes "worker_patch env p" and "frame_id f = Some (ij_id (iw_job k))" and "frame_control f = Some (iw_control k)"
    and "frame_receipt env f"
  shows "job_run env (ij_id (iw_job k)) (iw_control k) q (waits_for k call f (patch_row w (ij_id (iw_job k)) p q))"
  by (rule wrote_waits [OF wrote_patch [OF wrote_refl assms(1)] assms(2-4)])

text \<open>Every continuation of a job is such a run.\<close>

lemma resume_run:
  assumes "frame_id f = Some i" and "frame_control f = Some c" and "frame_receipt env f"
  shows "job_run env i c q (ingest_resume env w f ans q)"
  using assms
  by (cases f; cases ans)
    (auto simp: frame_id_def in_flight_states_def
      intro!: wrote_failed [OF wrote_refl] work_failed_run file_found_run keep_text_run entry_stored_run done_run
        now_waits_run patched_waits_run)

end
