(* ===== verification/Ingest_Safety.thy ===== *)
theory Ingest_Safety
  imports Ingest_Props
begin

text \<open>
  The invariants of the ingest queue and what follows from them: a single drain, no orphaned job, durable receipts,
  and no queued file without a drain.
\<close>

section \<open>The invariant\<close>

text \<open>A row that is done has the fields of a result whose receipt was accepted.\<close>

definition filed_with_receipt :: "receipt_env \<Rightarrow> ingest_row \<Rightarrow> bool" where
  "filed_with_receipt env r \<longleftrightarrow>
     (\<exists>v. assert_durable_store env v = Inr () \<and> ir_revision r = json_col (json_some (js_member ''revision'' v)) \<and>
        ir_urls r = texts_of (js_member ''urls'' v) \<and> ir_commit r = text_of (js_member ''commitSha'' v) \<and>
        ir_github r = texts_of (js_member ''githubUrls'' v) \<and> ir_pages r = texts_of (js_member ''pagesTouched'' v))"

definition done_filed :: "receipt_env \<Rightarrow> ingest_rows \<Rightarrow> bool" where
  "done_filed env rows \<longleftrightarrow> (\<forall>r \<in> set rows. ir_status r = In_Done \<longrightarrow> filed_with_receipt env r)"

text \<open>\<open>cs\<close> are the ids of the jobs that were cancelled.\<close>

definition has_worker :: "string \<Rightarrow> ingest_queue \<Rightarrow> bool" where
  "has_worker i q \<longleftrightarrow> (\<exists>t \<in> set (iq_tasks q). frame_id (snd (snd t)) = Some i)"

definition none_orphaned :: "string set \<Rightarrow> ingest_queue \<Rightarrow> bool" where
  "none_orphaned cs q \<longleftrightarrow>
     (\<forall>r \<in> set (iq_rows q). ir_status r \<in> set in_flight_states \<longrightarrow> has_worker (ir_id r) q \<or> ir_id r \<in> cs)"

definition at_work :: "receipt_env \<Rightarrow> string set \<Rightarrow> ingest_frame \<Rightarrow> ingest_queue \<Rightarrow> bool" where
  "at_work env cs f q \<longleftrightarrow>
     frame_receipt env f \<and>
     (\<exists>i c. frame_id f = Some i \<and> frame_control f = Some c \<and> c < iq_next q \<and> iq_running q = [i \<mapsto> c] \<and>
        (c \<in> set (iq_aborted q) \<longrightarrow> i \<in> cs))"

definition single_drain :: "receipt_env \<Rightarrow> string set \<Rightarrow> ingest_queue \<Rightarrow> bool" where
  "single_drain env cs q \<longleftrightarrow>
     (if iq_draining q then
        \<exists>n call f. iq_tasks q = [(n, call, f)] \<and> n < iq_next q \<and>
          (if call = None then f = I_Settled \<and> iq_running q = Map.empty else at_work env cs f q)
      else iq_tasks q = [] \<and> iq_running q = Map.empty)"

definition ingest_inv :: "receipt_env \<Rightarrow> string set \<Rightarrow> ingest_queue \<Rightarrow> bool" where
  "ingest_inv env cs q \<longleftrightarrow>
     single_drain env cs q \<and> none_orphaned cs q \<and> done_filed env (iq_rows q) \<and> (\<forall>c \<in> set (iq_aborted q). c < iq_next q)"

section \<open>Writes of the worker\<close>

lemma status_patch_simps [simp]:
  "ip_status (status_patch s step n) = Some s" "ip_body (status_patch s step n) = None"
  by (simp_all add: status_patch_def no_patch_def)

lemma error_ingest_simps [simp]:
  "ip_status (error_ingest m) = Some In_Error" "ip_body (error_ingest m) = None"
  by (simp_all add: error_ingest_def no_patch_def)

lemma filed_patch_simps [simp]:
  "ip_status (filed_patch v a) = Some In_Done" "ip_body (filed_patch v a) = None"
  "ip_revision (filed_patch v a) = Some (json_some (js_member ''revision'' v))"
  "ip_urls (filed_patch v a) = Some (texts_of (js_member ''urls'' v))"
  "ip_commit (filed_patch v a) = Some (text_of (js_member ''commitSha'' v))"
  "ip_github (filed_patch v a) = Some (texts_of (js_member ''githubUrls'' v))"
  "ip_pages (filed_patch v a) = Some (texts_of (js_member ''pagesTouched'' v))"
  by (simp_all add: filed_patch_def no_patch_def)

lemma cache_text_simps [simp]:
  "ip_status (cache_text b by l n) = None" "ip_body (cache_text b by l n) = Some (Some b)"
  "ip_revision (cache_text b by l n) = None" "ip_urls (cache_text b by l n) = None"
  "ip_commit (cache_text b by l n) = None" "ip_github (cache_text b by l n) = None"
  "ip_pages (cache_text b by l n) = None"
  by (simp_all add: cache_text_def no_patch_def)

lemma patched_filed:
  assumes "worker_patch env p" and "ir_status r = In_Done \<longrightarrow> filed_with_receipt env r"
    and "ir_status (patched_ingest p now r) = In_Done"
  shows "filed_with_receipt env (patched_ingest p now r)"
  using assms(1) unfolding worker_patch_def
proof (elim disjE exE conjE)
  fix m assume "p = error_ingest m"
  with assms(3) show ?thesis by simp
next
  fix s step n assume "s \<in> set in_flight_states" "p = status_patch s step n"
  with assms(3) show ?thesis by (auto simp: in_flight_states_def)
next
  fix b l n and by' assume "p = cache_text b by' l n"
  with assms(2,3) show ?thesis by (simp add: filed_with_receipt_def)
next
  fix v archived assume v: "assert_durable_store env v = Inr ()" and p: "p = filed_patch v archived"
  show ?thesis unfolding filed_with_receipt_def p by (rule exI [of _ v]) (simp add: v)
qed

lemma done_filed_update:
  assumes "worker_patch env p" and "done_filed env rows"
  shows "done_filed env (update_ingest i p now rows)"
  unfolding done_filed_def
proof (intro ballI impI)
  fix r' assume "r' \<in> set (update_ingest i p now rows)" and d: "ir_status r' = In_Done"
  from in_update_ingest [OF this(1)] show "filed_with_receipt env r'"
  proof (elim disjE bexE conjE)
    fix r assume "r \<in> set rows" and r': "r' = (if p = no_patch then r else patched_ingest p now r)"
    with assms(2) have r: "ir_status r = In_Done \<longrightarrow> filed_with_receipt env r" by (simp add: done_filed_def)
    show ?thesis using r' d r patched_filed [OF assms(1) r, of now] by (cases "p = no_patch") auto
  next
    assume "r' \<in> set rows"
    with assms(2) d show ?thesis by (simp add: done_filed_def)
  qed
qed

lemma done_filed_all:
  "list_all (worker_patch env) ps \<Longrightarrow> done_filed env rows \<Longrightarrow> done_filed env (patch_all i now ps rows)"
  by (induction ps arbitrary: rows) (auto intro: done_filed_update)

text \<open>A write to one row leaves the others, and a status that is not \<open>done\<close> needs no receipt.\<close>

lemma update_ingest_other: "r \<in> set (update_ingest i p now rows) \<Longrightarrow> ir_id r \<noteq> i \<Longrightarrow> r \<in> set rows"
  using in_update_ingest [of r i p now rows] by (auto split: if_splits)

lemma patch_all_other: "r \<in> set (patch_all i now ps rows) \<Longrightarrow> ir_id r \<noteq> i \<Longrightarrow> r \<in> set rows"
  by (induction ps arbitrary: rows) (auto dest: update_ingest_other)

lemma update_cases:
  assumes "r' \<in> set (update_ingest i p now rows)"
  obtains (patched) r where "r \<in> set rows" "ir_id r = i" "p \<noteq> no_patch" "r' = patched_ingest p now r"
  | (kept) "r' \<in> set rows" "ir_id r' \<noteq> i \<or> p = no_patch"
  using in_update_ingest [OF assms] by (cases "p = no_patch") auto

section \<open>A job goes on\<close>

lemma at_work_worker:
  assumes "ingest_inv env cs q" and "iq_tasks q = [(n, call, f)]" and "frame_id f = Some i" and "has_worker j q"
  shows "j = i"
  using assms by (auto simp: has_worker_def)

text \<open>A run of a job, started in a queue whose only task it is, keeps the invariant.\<close>

lemma parked_run_inv:
  assumes run: "job_run env i c (q\<lparr>iq_tasks := []\<rparr>) x" and q: "ingest_inv env cs q" and d: "iq_draining q"
    and t: "iq_tasks q = [(n, Some call, f)]" and f: "frame_id f = Some i" "frame_control f = Some c"
  shows "ingest_inv env cs (ingest_parked n x)"
proof -
  obtain out q' where x: "x = (out, q')" by (cases x)
  from q d t have n: "n < iq_next q" and w: "at_work env cs f q" by (auto simp: ingest_inv_def single_drain_def)
  from w f have c: "c < iq_next q" "iq_running q = [i \<mapsto> c]" "c \<in> set (iq_aborted q) \<Longrightarrow> i \<in> cs"
    by (auto simp: at_work_def)
  from run x obtain now ps where ps: "list_all (worker_patch env) ps" "iq_rows q' = patch_all i now ps (iq_rows q)"
    and q': "iq_draining q' = iq_draining q" "iq_aborted q' = iq_aborted q" "iq_tasks q' = []" "iq_next q' = iq_next q"
    by (auto simp: job_run_def)
  have filed: "done_filed env (iq_rows q')"
    using done_filed_all [OF ps(1)] q by (simp add: ps(2) ingest_inv_def)
  have other: "ir_id r \<in> cs" if "r \<in> set (iq_rows q')" "ir_status r \<in> set in_flight_states" "ir_id r \<noteq> i" for r
  proof -
    from that ps(2) have "r \<in> set (iq_rows q)" by (auto dest: patch_all_other)
    with q that t f show ?thesis by (auto simp: ingest_inv_def none_orphaned_def has_worker_def)
  qed
  have ab: "\<forall>c \<in> set (iq_aborted q). c < iq_next q" using q by (simp add: ingest_inv_def)
  from run x have o: "case out of
        I_Waits i' call f \<Rightarrow>
          i' = i \<and> frame_id f = Some i \<and> frame_control f = Some c \<and> frame_receipt env f \<and> iq_running q' = iq_running q
      | I_Goes \<Rightarrow> iq_running q' = (iq_running q)(i := None) \<and> (c \<in> set (iq_aborted q) \<or> rests i (iq_rows q'))
      | I_Ends \<Rightarrow> False"
    by (simp add: job_run_def split: ingest_outcome.splits)
  show ?thesis
  proof (cases out)
    case (I_Waits i' call' f')
    with o c n q' d filed other ab x show ?thesis
      by (auto simp: ingest_inv_def single_drain_def at_work_def none_orphaned_def has_worker_def)
  next
    case I_Goes
    with o have r: "iq_running q' = Map.empty" and "c \<in> set (iq_aborted q) \<or> rests i (iq_rows q')" using c(2) by auto
    then have "i \<in> cs \<or> rests i (iq_rows q')" using c(3) by blast
    with other have "ir_id r \<in> cs" if "r \<in> set (iq_rows q')" "ir_status r \<in> set in_flight_states" for r
      using that by (cases "ir_id r = i") (auto simp: rests_def in_flight_states_def)
    with I_Goes r n q' d filed ab x show ?thesis
      by (auto simp: ingest_inv_def single_drain_def none_orphaned_def)
  next
    case I_Ends
    with o show ?thesis by simp
  qed
qed


section \<open>The drain goes on\<close>

text \<open>What the head of the loop does.\<close>

lemma ingest_next_cases:
  obtains (over) "ingest_next w q = (I_Ends, q\<lparr>iq_draining := False\<rparr>)" "\<forall>r \<in> set (iq_rows q). ir_status r \<noteq> In_Queued"
  | (refused) j :: ingest_job where "ingest_next w q =
      (I_Goes, patch_row w (ij_id j) (no_patch\<lparr>ip_status := Some In_Error, ip_error := Some (Some no_drive)\<rparr>) q)"
  | (started) j folder where "ingest_next w q =
      (I_Waits (ij_id j) (Get_File (ij_file j)) (I_File j folder (iq_next q)),
       q\<lparr>iq_running := (iq_running q)(ij_id j := Some (iq_next q)), iq_next := iq_next q + 1\<rparr>)"
proof (cases "next_queued_ingest (iq_rows q)")
  case None
  then have "order_by ir_created (filter (\<lambda>r. ir_status r = In_Queued) (iq_rows q)) = []"
    by (simp add: next_queued_ingest_def)
  then have "set (filter (\<lambda>r. ir_status r = In_Queued) (iq_rows q)) = {}"
    by (metis set_empty set_order_by)
  then have "\<forall>r \<in> set (iq_rows q). ir_status r \<noteq> In_Queued" by auto
  with None over show ?thesis by (simp add: ingest_next_def)
next
  case (Some j)
  show ?thesis
  proof (cases "ih_connected w")
    case True
    with Some started show ?thesis by (simp add: ingest_next_def ingest_process_def)
  next
    case False
    with Some have "ingest_next w q =
      (I_Goes, patch_row w (ij_id j) (no_patch\<lparr>ip_status := Some In_Error, ip_error := Some (Some no_drive)\<rparr>) q)"
      by (simp add: ingest_next_def ingest_process_def)
    then show ?thesis by (rule refused)
  qed
qed

lemma done_filed_set:
  assumes "ip_status p = Some s" and "s \<noteq> In_Done" and "done_filed env rows"
  shows "done_filed env (update_ingest i p now rows)"
  unfolding done_filed_def
proof (intro ballI impI)
  fix r assume "r \<in> set (update_ingest i p now rows)" and d: "ir_status r = In_Done"
  then show "filed_with_receipt env r"
    by (cases rule: update_cases) (use assms d in \<open>auto simp: done_filed_def\<close>)
qed

lemma none_orphaned_set:
  assumes "ip_status p = Some s" and "s \<notin> set in_flight_states" and "none_orphaned cs q"
  shows "none_orphaned cs (patch_row w i p q)"
  unfolding none_orphaned_def
proof (intro ballI impI)
  fix r assume r: "r \<in> set (iq_rows (patch_row w i p q))" and d: "ir_status r \<in> set in_flight_states"
  from r have "r \<in> set (update_ingest i p (ih_now w) (iq_rows q))" by simp
  then have "r \<in> set (iq_rows q)"
    by (cases rule: update_cases) (use assms d in auto)
  with assms(3) d show "has_worker (ir_id r) (patch_row w i p q) \<or> ir_id r \<in> cs"
    by (simp add: none_orphaned_def has_worker_def)
qed

text \<open>A queue without tasks in which every job in flight was cancelled, as the head of the loop finds it.\<close>

definition idle :: "receipt_env \<Rightarrow> string set \<Rightarrow> ingest_queue \<Rightarrow> bool" where
  "idle env cs q \<longleftrightarrow>
     iq_tasks q = [] \<and> iq_running q = Map.empty \<and> none_orphaned cs q \<and> done_filed env (iq_rows q) \<and>
     (\<forall>c \<in> set (iq_aborted q). c < iq_next q)"

lemma next_inv:
  assumes q: "idle env cs q" and d: "iq_draining q" and n: "n < iq_next q"
  shows "ingest_inv env cs (ingest_parked n (ingest_next w q))"
proof (cases rule: ingest_next_cases [of w q])
  case over
  with q show ?thesis by (auto simp: ingest_inv_def single_drain_def idle_def none_orphaned_def has_worker_def)
next
  case (refused j)
  let ?p = "no_patch\<lparr>ip_status := Some In_Error, ip_error := Some (Some no_drive)\<rparr>"
  from q have "none_orphaned cs (patch_row w (ij_id j) ?p q)"
    by (intro none_orphaned_set [where s = In_Error]) (auto simp: idle_def in_flight_states_def)
  moreover from q have "done_filed env (update_ingest (ij_id j) ?p (ih_now w) (iq_rows q))"
    by (intro done_filed_set [where s = In_Error]) (auto simp: idle_def)
  ultimately show ?thesis
    using refused q d n
    by (auto simp: ingest_inv_def single_drain_def idle_def none_orphaned_def has_worker_def)
next
  case (started j folder)
  have "iq_next q \<notin> set (iq_aborted q)" using q by (auto simp: idle_def)
  with started q d n show ?thesis
    by (auto simp: ingest_inv_def single_drain_def idle_def none_orphaned_def has_worker_def at_work_def frame_id_def)
qed

lemma drain_inv:
  assumes "ingest_inv env cs q"
  shows "ingest_inv env cs (ingest_drain w q)"
proof (cases "iq_draining q")
  case False
  let ?q = "q\<lparr>iq_draining := True, iq_next := iq_next q + 1\<rparr>"
  from False assms have "idle env cs ?q"
    by (auto simp: ingest_inv_def single_drain_def idle_def none_orphaned_def has_worker_def)
  from next_inv [OF this, of "iq_next q" w] False show ?thesis by (simp add: ingest_drain_def)
qed (simp add: ingest_drain_def assms)

lemma find_task: "find (\<lambda>t. fst t = n) ts = Some t \<Longrightarrow> t \<in> set ts \<and> fst t = n"
  by (auto simp: find_Some_iff)

lemma answer_inv:
  assumes q: "ingest_inv env cs q"
  shows "ingest_inv env cs (answer_ingest env w n ans q)"
proof (cases "find (\<lambda>t. fst t = n) (iq_tasks q)")
  case None
  then show ?thesis by (simp add: answer_ingest_def take_ingest_def q)
next
  case (Some t)
  obtain call f where t: "t = (n, call, f)" using find_task [OF Some] by (cases t) auto
  have d: "iq_draining q" using find_task [OF Some] q by (auto simp: ingest_inv_def single_drain_def split: if_splits)
  with q find_task [OF Some] t have ts: "iq_tasks q = [(n, call, f)]" "n < iq_next q"
    by (auto simp: ingest_inv_def single_drain_def)
  then have rest: "q\<lparr>iq_tasks := filter (\<lambda>t. fst t \<noteq> n) (iq_tasks q)\<rparr> = q\<lparr>iq_tasks := []\<rparr>" by simp
  show ?thesis
  proof (cases call)
    case None
    with q ts d have f: "f = I_Settled" "iq_running q = Map.empty" by (auto simp: ingest_inv_def single_drain_def)
    with q ts d have "idle env cs (q\<lparr>iq_tasks := []\<rparr>)"
      by (auto simp: ingest_inv_def idle_def none_orphaned_def has_worker_def frame_id_def)
    from next_inv [OF this, of n w] d ts f None Some t show ?thesis
      by (simp add: answer_ingest_def take_ingest_def)
  next
    case (Some c)
    with q ts d have "at_work env cs f q" by (auto simp: ingest_inv_def single_drain_def)
    then obtain i k where f: "frame_id f = Some i" "frame_control f = Some k" "frame_receipt env f"
      by (auto simp: at_work_def)
    from parked_run_inv [OF resume_run [OF f] q d _ f(1,2), of n c w ans] ts Some
    have "ingest_inv env cs (ingest_parked n (ingest_resume env w f ans (q\<lparr>iq_tasks := []\<rparr>)))" by simp
    with \<open>find (\<lambda>t. fst t = n) (iq_tasks q) = Some t\<close> t Some rest q show ?thesis
      by (simp add: answer_ingest_def take_ingest_def)
  qed
qed


section \<open>Requests\<close>

lemma at_work_mono: "at_work env cs f q \<Longrightarrow> cs \<subseteq> ds \<Longrightarrow> at_work env ds f q"
  by (auto simp: at_work_def)

lemma single_drain_mono:
  assumes "single_drain env cs q" and "cs \<subseteq> ds"
  shows "single_drain env ds q"
proof (cases "iq_draining q")
  case True
  with assms(1) obtain n call f where t: "iq_tasks q = [(n, call, f)]" "n < iq_next q"
      and w: "if call = None then f = I_Settled \<and> iq_running q = Map.empty else at_work env cs f q"
    by (auto simp: single_drain_def)
  from w assms(2) have "if call = None then f = I_Settled \<and> iq_running q = Map.empty else at_work env ds f q"
    by (auto intro: at_work_mono)
  with True t show ?thesis by (simp add: single_drain_def)
qed (use assms in \<open>simp add: single_drain_def\<close>)

lemma ingest_inv_mono: "ingest_inv env cs q \<Longrightarrow> cs \<subseteq> ds \<Longrightarrow> ingest_inv env ds q"
  using single_drain_mono [of env cs q ds] by (auto simp: ingest_inv_def none_orphaned_def)

lemma single_drain_patch: "single_drain env cs (patch_row w i p q) = single_drain env cs q"
  by (simp add: single_drain_def at_work_def)

text \<open>A request that sets a row to a status at rest.\<close>

lemma patch_inv:
  assumes "ingest_inv env cs q" and "ip_status p = Some s" and "s \<notin> set in_flight_states" and "s \<noteq> In_Done"
  shows "ingest_inv env cs (patch_row w i p q)"
  using assms done_filed_set [OF assms(2,4)] none_orphaned_set [OF assms(2,3)]
  by (simp add: ingest_inv_def single_drain_patch)

lemma requeue_patch_status [simp]: "ip_status (requeue_patch c) = Some In_Queued"
  by (simp add: requeue_patch_def)

lemma cancelled_patch_status [simp]: "ip_status cancelled_patch = Some In_Interrupted"
  by (simp add: cancelled_patch_def)

lemma retry_inv: "ingest_inv env cs q \<Longrightarrow> ingest_inv env cs (snd (retry_ingest w i q))"
proof -
  assume q: "ingest_inv env cs q"
  have "ingest_inv env cs (q\<lparr>iq_rows := snd (requeue_ingest i (ih_now w) (iq_rows q))\<rparr>)"
  proof (cases "get_ingest i (iq_rows q)")
    case (Some j)
    have "ingest_inv env cs (patch_row w i (requeue_patch (ij_cached j)) q)"
      by (rule patch_inv [OF q, where s = In_Queued]) (simp_all add: in_flight_states_def)
    with Some show ?thesis by (simp add: requeue_ingest_def Let_def patch_row_def)
  qed (simp add: requeue_ingest_def q)
  then show ?thesis by (auto simp: retry_ingest_def split_beta Let_def intro: drain_inv)
qed

lemma insert_inv:
  assumes "ingest_inv env cs q" and "insert_ingest i file name hints now (iq_rows q) = Some (j, rows)"
  shows "ingest_inv env cs (q\<lparr>iq_rows := rows\<rparr>)"
proof -
  from assms(2) have rows: "rows = iq_rows q @ [new_ingest_row i file name hints now]"
    by (auto simp: insert_ingest_def Let_def split: if_splits)
  have new: "ir_status (new_ingest_row i file name hints now) = In_Queued" by (simp add: new_ingest_row_def)
  have "single_drain env cs (q\<lparr>iq_rows := rows\<rparr>) = single_drain env cs q"
    by (simp add: single_drain_def at_work_def)
  moreover have "done_filed env rows" using assms(1) new by (auto simp: rows ingest_inv_def done_filed_def)
  moreover have "none_orphaned cs (q\<lparr>iq_rows := rows\<rparr>)"
    using assms(1) new by (auto simp: rows ingest_inv_def none_orphaned_def has_worker_def in_flight_states_def)
  ultimately show ?thesis using assms(1) by (simp add: ingest_inv_def)
qed

lemma enqueue_inv: "ingest_inv env cs q \<Longrightarrow> ingest_inv env cs (snd (enqueue_file w file name hints q))"
  by (auto simp: enqueue_file_def intro: drain_inv insert_inv split: option.splits)

text \<open>Cancelling may abort the controller of the job at work, which is then among the cancelled ones.\<close>

lemma abort_inv:
  assumes "ingest_inv env cs q" and "iq_running q i = Some c"
  shows "ingest_inv env (insert i cs) (q\<lparr>iq_aborted := c # iq_aborted q\<rparr>)"
proof -
  from assms(1) have s: "single_drain env cs q" and a: "\<forall>c \<in> set (iq_aborted q). c < iq_next q"
    by (auto simp: ingest_inv_def)
  from s assms(2) obtain n call f where t: "iq_draining q" "iq_tasks q = [(n, call, f)]" "n < iq_next q"
      and w: "call \<noteq> None" "at_work env cs f q"
    by (auto simp: single_drain_def split: if_splits)
  from w(2) obtain j d where f: "frame_receipt env f" "frame_id f = Some j" "frame_control f = Some d" "d < iq_next q"
      "iq_running q = [j \<mapsto> d]" "d \<in> set (iq_aborted q) \<longrightarrow> j \<in> cs"
    by (auto simp: at_work_def)
  with assms(2) have "j = i" "d = c" by (auto split: if_splits)
  with f have "at_work env (insert i cs) f (q\<lparr>iq_aborted := c # iq_aborted q\<rparr>)"
    by (auto simp: at_work_def)
  with t w have "single_drain env (insert i cs) (q\<lparr>iq_aborted := c # iq_aborted q\<rparr>)"
    by (auto simp: single_drain_def)
  moreover have "c < iq_next q" using f \<open>d = c\<close> by simp
  ultimately show ?thesis
    using assms(1) a by (auto simp: ingest_inv_def none_orphaned_def has_worker_def)
qed

lemma cancel_inv: "ingest_inv env cs q \<Longrightarrow> ingest_inv env (insert i cs) (snd (cancel_ingest w i q))"
proof -
  assume q: "ingest_inv env cs q"
  have p: "ingest_inv env cs (patch_row w i cancelled_patch q)"
    by (rule patch_inv [OF q, where s = In_Interrupted]) (simp_all add: in_flight_states_def)
  show ?thesis
  proof (cases "get_ingest i (iq_rows q)")
    case (Some j)
    with abort_inv [OF p] ingest_inv_mono [OF p, of "insert i cs"] show ?thesis
      by (auto simp: cancel_ingest_def Let_def split: option.splits)
  qed (use q in \<open>auto simp: cancel_ingest_def intro: ingest_inv_mono\<close>)
qed

lemma open_ingest_status: "r \<in> set (open_ingest now rows) \<Longrightarrow> ir_status r \<notin> set in_flight_states"
  by (auto simp: open_ingest_def update_where_def in_flight_states_def)

lemma open_ingest_done: "done_filed env rows \<Longrightarrow> done_filed env (open_ingest now rows)"
  by (auto simp: done_filed_def open_ingest_def update_where_def in_flight_states_def)

lemma restart_inv:
  assumes "ingest_inv env cs q"
  shows "ingest_inv env cs (restart_ingest w q)"
proof -
  let ?q = "(new_ingest_queue (open_ingest (ih_now w) (iq_rows q)))\<lparr>iq_log := iq_log q\<rparr>"
  have "ingest_inv env cs ?q"
    using assms open_ingest_status open_ingest_done
    by (auto simp: ingest_inv_def new_ingest_queue_def single_drain_def none_orphaned_def)
  then show ?thesis unfolding restart_ingest_def by (rule drain_inv)
qed

lemma progress_inv:
  assumes "ingest_inv env cs q"
  shows "ingest_inv env cs (report_progress w n percent q)"
proof -
  let ?p = "no_patch\<lparr>ip_progress := Some percent\<rparr>"
  have p: "ingest_inv env cs (patch_row w i ?p q)" for i
  proof -
    have same: "ir_status (patched_ingest ?p now r) = ir_status r"
        "filed_with_receipt env (patched_ingest ?p now r) = filed_with_receipt env r" for now r
      by (simp_all add: filed_with_receipt_def no_patch_def)
    have "done_filed env (update_ingest i ?p (ih_now w) (iq_rows q))"
      unfolding done_filed_def
    proof (intro ballI impI)
      fix r assume "r \<in> set (update_ingest i ?p (ih_now w) (iq_rows q))" and "ir_status r = In_Done"
      then show "filed_with_receipt env r"
        by (cases rule: update_cases) (use assms same in \<open>auto simp: ingest_inv_def done_filed_def\<close>)
    qed
    moreover have "none_orphaned cs (patch_row w i ?p q)"
      unfolding none_orphaned_def
    proof (intro ballI impI)
      fix r assume r: "r \<in> set (iq_rows (patch_row w i ?p q))" and "ir_status r \<in> set in_flight_states"
      from r have "r \<in> set (update_ingest i ?p (ih_now w) (iq_rows q))" by simp
      then have "\<exists>r' \<in> set (iq_rows q). ir_id r' = ir_id r \<and> ir_status r' = ir_status r"
        by (cases rule: update_cases) (use same in auto)
      with assms \<open>ir_status r \<in> set in_flight_states\<close> show "has_worker (ir_id r) (patch_row w i ?p q) \<or> ir_id r \<in> cs"
        by (auto simp: ingest_inv_def none_orphaned_def has_worker_def) metis
    qed
    ultimately show ?thesis using assms by (simp add: ingest_inv_def single_drain_patch)
  qed
  show ?thesis
    by (auto simp: report_progress_def intro: p assms split: option.splits ingest_frame.splits)
qed

fun cancelled_by :: "ingest_host \<times> ingest_move \<Rightarrow> string set" where
  "cancelled_by (w, Im_Cancel i) = {i}"
| "cancelled_by _ = {}"

lemma move_inv: "ingest_inv env cs q \<Longrightarrow> ingest_inv env (cs \<union> cancelled_by m) (do_ingest env m q)"
  by (cases "(env, m, q)" rule: do_ingest.cases)
    (auto intro: enqueue_inv retry_inv cancel_inv drain_inv restart_inv progress_inv answer_inv)

definition cancels :: "(ingest_host \<times> ingest_move) list \<Rightarrow> string set" where
  "cancels ms = (\<Union>m \<in> set ms. cancelled_by m)"

lemma run_inv: "ingest_inv env cs q \<Longrightarrow> ingest_inv env (cs \<union> cancels ms) (run_ingest env ms q)"
proof (induction ms arbitrary: cs q)
  case (Cons m ms)
  from Cons.IH [OF move_inv [OF Cons.prems, of m]] show ?case
    by (simp add: run_ingest_def cancels_def Un_assoc)
qed (simp add: run_ingest_def cancels_def)

lemma new_inv: "ingest_inv env {} (new_ingest_queue [])"
  by (simp add: ingest_inv_def new_ingest_queue_def single_drain_def none_orphaned_def done_filed_def)

lemma reached_inv: "ingest_inv env (cancels ms) (run_ingest env ms (new_ingest_queue []))"
  using run_inv [OF new_inv] by simp

text \<open>
  C24. No job is orphaned: under any interleaving of requests, answers, progress reports and restarts, a row that is
  downloading, extracting, transcribing or filing is the job of the one running drain, unless the job was cancelled.
\<close>

theorem ingest_in_flight_has_worker:
  assumes "r \<in> set (iq_rows (run_ingest env ms (new_ingest_queue [])))" and "ir_status r \<in> set in_flight_states"
    and "ir_id r \<notin> cancels ms"
  shows "\<exists>n call f. iq_tasks (run_ingest env ms (new_ingest_queue [])) = [(n, call, f)] \<and> frame_id f = Some (ir_id r)"
proof -
  let ?q = "run_ingest env ms (new_ingest_queue [])"
  have q: "ingest_inv env (cancels ms) ?q" by (rule reached_inv)
  with assms have "has_worker (ir_id r) ?q" by (auto simp: ingest_inv_def none_orphaned_def)
  with q show ?thesis by (auto simp: ingest_inv_def single_drain_def has_worker_def split: if_splits)
qed

text \<open>
  C25. A file that is marked done was filed: its pages, revision, URLs and commits are those of a result of the engine
  whose receipt passed the check of durable receipts, whatever was cancelled, retried or restarted before.
\<close>

theorem ingested_means_durable:
  "\<forall>r \<in> set (iq_rows (run_ingest env ms (new_ingest_queue []))). ir_status r = In_Done \<longrightarrow> filed_with_receipt env r"
  using reached_inv [of env ms] by (simp add: ingest_inv_def done_filed_def)

end
