(* ===== verification/Ingest_Service.thy ===== *)
theory Ingest_Service
  imports Ingest_Safety
begin

text \<open>
  A queued file always has a drain; a text that was read is filed from the store and not read again; a job
  that is cancelled while its call fails stays cancelled. At the end, two runs in which cancelling goes wrong.
\<close>

section \<open>Queued files are served\<close>

definition ingest_served :: "ingest_queue \<Rightarrow> bool" where
  "ingest_served q \<longleftrightarrow> ((\<exists>r \<in> set (iq_rows q). ir_status r = In_Queued) \<longrightarrow> iq_draining q)"

lemma parked_served [simp]: "ingest_served (ingest_parked n x) = ingest_served (snd x)"
  by (cases "(n, x)" rule: ingest_parked.cases) (simp_all add: ingest_served_def)

lemma next_served: "iq_draining q \<Longrightarrow> ingest_served (snd (ingest_next w q))"
  by (cases rule: ingest_next_cases [of w q]) (auto simp: ingest_served_def)

lemma drain_served: "ingest_served (ingest_drain w q)"
  by (auto simp: ingest_drain_def intro: next_served) (simp add: ingest_served_def)

lemma resume_served:
  assumes "ingest_inv env cs q" and "(n, call, f) \<in> set (iq_tasks q)"
  shows "ingest_served (snd (ingest_resume env w f ans (q\<lparr>iq_tasks := ts\<rparr>)))"
proof -
  from assms have d: "iq_draining q" and f: "call = None \<Longrightarrow> f = I_Settled" "call \<noteq> None \<Longrightarrow> at_work env cs f q"
    by (auto simp: ingest_inv_def single_drain_def split: if_splits)
  show ?thesis
  proof (cases "call = None")
    case True
    with f(1) d show ?thesis by (simp add: next_served)
  next
    case False
    with f(2) obtain i c where "frame_id f = Some i" "frame_control f = Some c" "frame_receipt env f"
      by (auto simp: at_work_def)
    from resume_run [OF this, of "q\<lparr>iq_tasks := ts\<rparr>" w ans] d show ?thesis
      by (simp add: job_run_def ingest_served_def)
  qed
qed

lemma answer_served:
  assumes "ingest_inv env cs q" and "ingest_served q"
  shows "ingest_served (answer_ingest env w n ans q)"
proof (cases "find (\<lambda>t. fst t = n) (iq_tasks q)")
  case (Some t)
  obtain m call f where t: "t = (m, call, f)" by (cases t)
  from find_task [OF Some] t resume_served [OF assms(1), of m call f] assms(2) Some show ?thesis
    by (auto simp: answer_ingest_def take_ingest_def split: option.splits)
qed (use assms(2) in \<open>simp add: answer_ingest_def take_ingest_def\<close>)

lemma patch_served:
  assumes "ingest_served q" and "ip_status p \<noteq> Some In_Queued"
  shows "ingest_served (patch_row w i p q)"
  unfolding ingest_served_def
proof (intro impI, elim bexE)
  fix r assume "r \<in> set (iq_rows (patch_row w i p q))" and d: "ir_status r = In_Queued"
  then have "r \<in> set (update_ingest i p (ih_now w) (iq_rows q))" by simp
  then have "\<exists>r \<in> set (iq_rows q). ir_status r = In_Queued"
  proof (cases rule: update_cases)
    case (patched r')
    with d assms(2) show ?thesis by (cases "ip_status p") auto
  qed (use d in auto)
  with assms(1) show "iq_draining (patch_row w i p q)" by (simp add: ingest_served_def)
qed

lemma get_ingest_None: "get_ingest i rows = None \<longleftrightarrow> i \<notin> set (map ir_id rows)"
  by (auto simp: get_ingest_def find_None_iff)

lemma get_update_None: "get_ingest i (update_ingest j p now rows) = None \<longleftrightarrow> get_ingest i rows = None"
  by (simp only: get_ingest_None update_ingest_ids)

lemma retry_served: "ingest_served q \<Longrightarrow> ingest_served (snd (retry_ingest w i q))"
  by (cases "get_ingest i (iq_rows q)")
    (auto simp: retry_ingest_def Let_def requeue_ingest_def get_update_None drain_served)

lemma move_served:
  assumes "ingest_inv env cs q" and "ingest_served q"
  shows "ingest_served (do_ingest env m q)"
proof (cases "(env, m, q)" rule: do_ingest.cases)
  case (1 _ w f m hs)
  with assms(2) drain_served show ?thesis by (auto simp: enqueue_file_def split: option.splits)
next
  case (2 _ w i)
  with assms(2) retry_served show ?thesis by simp
next
  case (3 _ w i)
  have "ingest_served (patch_row w i cancelled_patch q)" by (rule patch_served [OF assms(2)]) simp
  with 3 assms(2) show ?thesis
    by (auto simp: cancel_ingest_def Let_def ingest_served_def split: option.splits)
next
  case (4 _ w)
  with drain_served show ?thesis by simp
next
  case (5 _ w)
  with drain_served show ?thesis by (simp add: restart_ingest_def)
next
  case (6 _ w n percent)
  have "ip_status (no_patch\<lparr>ip_progress := Some percent\<rparr>) \<noteq> Some In_Queued" by (simp add: no_patch_def)
  from patch_served [OF assms(2) this] assms(2) 6 show ?thesis
    by (auto simp: report_progress_def split: option.splits ingest_frame.splits)
next
  case (7 _ w n ans)
  with answer_served [OF assms] show ?thesis by simp
qed

lemma run_served: "ingest_inv env cs q \<Longrightarrow> ingest_served q \<Longrightarrow> ingest_served (run_ingest env ms q)"
proof (induction ms arbitrary: cs q)
  case (Cons m ms)
  from Cons.IH [OF move_inv [OF Cons.prems(1), of m] move_served [OF Cons.prems]] show ?case
    by (simp add: run_ingest_def)
qed (simp add: run_ingest_def)

text \<open>
  C26. No wakeup is lost: in every state that requests, answers and restarts lead to there is at most one drain,
  and if any file is queued there is exactly one.
\<close>

theorem queued_files_have_one_drain:
  "length (iq_tasks (run_ingest env ms (new_ingest_queue []))) \<le> 1 \<and>
     (iq_tasks (run_ingest env ms (new_ingest_queue [])) = [] \<longrightarrow>
        \<not> (\<exists>r \<in> set (iq_rows (run_ingest env ms (new_ingest_queue []))). ir_status r = In_Queued))"
proof -
  let ?q = "run_ingest env ms (new_ingest_queue [])"
  have "ingest_served (new_ingest_queue [])" by (simp add: ingest_served_def new_ingest_queue_def)
  then have "ingest_served ?q" by (rule run_served [OF new_inv])
  with reached_inv [of env ms] show ?thesis
    by (auto simp: ingest_inv_def single_drain_def ingest_served_def split: if_splits)
qed

section \<open>A text is read once\<close>

fun reading_call :: "ingest_call \<Rightarrow> bool" where
  "reading_call (Download i) \<longleftrightarrow> True"
| "reading_call (Transcribe_Audio d n) \<longleftrightarrow> True"
| "reading_call (Extract_File d n m) \<longleftrightarrow> True"
| "reading_call (Export_Text i) \<longleftrightarrow> True"
| "reading_call _ \<longleftrightarrow> False"

fun reading_frame :: "ingest_frame \<Rightarrow> bool" where
  "reading_frame (I_Audio k) \<longleftrightarrow> True"
| "reading_frame (I_Transcript k) \<longleftrightarrow> True"
| "reading_frame (I_Artifact k) \<longleftrightarrow> True"
| "reading_frame (I_Extract_Engine k d) \<longleftrightarrow> True"
| "reading_frame (I_Extracted k) \<longleftrightarrow> True"
| "reading_frame (I_Export k) \<longleftrightarrow> True"
| "reading_frame (I_Text k) \<longleftrightarrow> True"
| "reading_frame _ \<longleftrightarrow> False"

text \<open>The text of the file of job \<open>i\<close> is in the store, and no drain is about to read it.\<close>

definition text_kept :: "string \<Rightarrow> ingest_rows \<Rightarrow> bool" where
  "text_kept i rows \<longleftrightarrow> i \<in> set (map ir_id rows) \<and> (\<forall>r \<in> set rows. ir_id r = i \<longrightarrow> (\<exists>c cs. ir_body r = Some (c # cs)))"

definition no_reader :: "string \<Rightarrow> ingest_queue \<Rightarrow> bool" where
  "no_reader i q \<longleftrightarrow> (\<forall>t \<in> set (iq_tasks q). frame_id (snd (snd t)) = Some i \<longrightarrow> \<not> reading_frame (snd (snd t)))"

definition reads_in :: "string \<Rightarrow> (string \<times> ingest_call) list \<Rightarrow> nat" where
  "reads_in i log = length (filter (\<lambda>x. fst x = i \<and> reading_call (snd x)) log)"

definition text_safe :: "string \<Rightarrow> nat \<Rightarrow> ingest_queue \<Rightarrow> bool" where
  "text_safe i n q \<longleftrightarrow> text_kept i (iq_rows q) \<and> no_reader i q \<and> reads_in i (iq_log q) = n"

lemma text_kept_update:
  assumes "text_kept i rows" and "j \<noteq> i \<or> ip_body p = None"
  shows "text_kept i (update_ingest j p now rows)"
  unfolding text_kept_def
proof
  from assms(1) show "i \<in> set (map ir_id (update_ingest j p now rows))"
    by (simp only: text_kept_def update_ingest_ids)
  show "\<forall>r \<in> set (update_ingest j p now rows). ir_id r = i \<longrightarrow> (\<exists>c cs. ir_body r = Some (c # cs))"
  proof (intro ballI impI)
    fix r assume "r \<in> set (update_ingest j p now rows)" and i: "ir_id r = i"
    then show "\<exists>c cs. ir_body r = Some (c # cs)"
      by (cases rule: update_cases) (use assms i in \<open>auto simp: text_kept_def\<close>)
  qed
qed

lemma text_kept_cached: "text_kept i rows \<Longrightarrow> cached_payload_of i rows \<noteq> None"
  by (auto simp: text_kept_def cached_payload_of_def find_None_iff find_Some_iff split: option.splits list.splits)

lemma text_kept_all: "text_kept i rows \<Longrightarrow> j \<noteq> i \<Longrightarrow> text_kept i (patch_all j now ps rows)"
  by (induction ps arbitrary: rows) (auto intro: text_kept_update)

text \<open>A continuation that does not read goes on without reading when the text is in the store.\<close>

definition quiet :: "string \<Rightarrow> ingest_outcome \<times> ingest_queue \<Rightarrow> bool" where
  "quiet i x \<longleftrightarrow> text_kept i (iq_rows (snd x)) \<and>
     (case fst x of I_Waits j c f \<Rightarrow> \<not> reading_call c \<and> \<not> reading_frame f | _ \<Rightarrow> True)"

lemma quiet_failed: "text_kept i (iq_rows q) \<Longrightarrow> quiet i (ingest_failed w i c m q)"
  by (auto simp: quiet_def ingest_failed_def release_controller_def intro: text_kept_update)

lemma quiet_done: "text_kept i (iq_rows q) \<Longrightarrow> quiet i (ingest_done w k v a q)"
  by (auto simp: quiet_def ingest_done_def release_controller_def intro: text_kept_update)

lemma quiet_file_text: "text_kept i (iq_rows q) \<Longrightarrow> quiet i (file_text w k cached body by kind q)"
  by (auto simp: quiet_def file_text_def waits_for_def Let_def intro: text_kept_update)

lemma quiet_file_found: "text_kept (ij_id j) (iq_rows q) \<Longrightarrow> quiet (ij_id j) (file_found w j folder c f q)"
  using text_kept_cached [of "ij_id j" "iq_rows q"]
  by (auto simp: file_found_def Let_def intro!: quiet_file_text text_kept_update)

lemma quiet_resume:
  assumes "text_kept i (iq_rows q)" and "frame_id f = Some i" and "\<not> reading_frame f"
  shows "quiet i (ingest_resume env w f ans q)"
  using assms
  by (cases f)
    (auto simp: frame_id_def work_failed_def entry_stored_def waits_for_def
      intro!: quiet_failed quiet_done quiet_file_found split: ingest_answer.splits sum.splits option.splits,
     auto simp: quiet_def)


lemma parked_safe:
  assumes "text_kept i (iq_rows (snd x))" and "no_reader i (snd x)" and "reads_in i (iq_log (snd x)) = n"
    and "\<And>j c f. fst x = I_Waits j c f \<Longrightarrow> j \<noteq> i \<and> frame_id f = Some j \<or> \<not> reading_call c \<and> \<not> reading_frame f"
  shows "text_safe i n (ingest_parked m x)"
  using assms
  by (cases "(m, x)" rule: ingest_parked.cases) (auto simp: text_safe_def no_reader_def reads_in_def frame_id_def)

lemma next_safe: "text_safe i n q \<Longrightarrow> text_safe i n (ingest_parked m (ingest_next w q))"
  by (cases rule: ingest_next_cases [of w q])
    (auto simp: text_safe_def no_reader_def no_patch_def reads_in_def intro!: text_kept_update)

lemma drain_safe: "text_safe i n q \<Longrightarrow> text_safe i n (ingest_drain w q)"
proof -
  assume q: "text_safe i n q"
  then have "text_safe i n (q\<lparr>iq_draining := True, iq_next := iq_next q + 1\<rparr>)"
    by (auto simp: text_safe_def no_reader_def)
  from next_safe [OF this, of "iq_next q" w] q show ?thesis by (simp add: ingest_drain_def)
qed

lemma job_safe:
  assumes q: "text_safe i n q" and f: "frame_id f = Some j" "frame_control f = Some c" "frame_receipt env f"
    and r: "j = i \<Longrightarrow> \<not> reading_frame f"
  shows "text_safe i n (ingest_parked m (ingest_resume env w f ans q))"
proof -
  let ?x = "ingest_resume env w f ans q"
  have run: "job_run env j c q ?x" by (rule resume_run [OF f])
  then have same: "iq_tasks (snd ?x) = iq_tasks q" "iq_log (snd ?x) = iq_log q"
      and out: "\<And>i' call f'. fst ?x = I_Waits i' call f' \<Longrightarrow> i' = j \<and> frame_id f' = Some j"
    by (auto simp: job_run_def)
  obtain now ps where rows: "iq_rows (snd ?x) = patch_all j now ps (iq_rows q)"
    using run by (auto simp: job_run_def)
  have "quiet i ?x" if "j = i"
    using quiet_resume [of i q f env w ans] q f(1) r that by (simp add: text_safe_def)
  with rows q text_kept_all [of i "iq_rows q" j now ps] have "text_kept i (iq_rows (snd ?x))"
    by (cases "j = i") (auto simp: quiet_def text_safe_def)
  moreover have "j \<noteq> i \<and> frame_id f' = Some j \<or> \<not> reading_call call \<and> \<not> reading_frame f'"
    if "fst ?x = I_Waits i' call f'" for i' call f'
    using that out [OF that] \<open>j = i \<Longrightarrow> quiet i ?x\<close> by (auto simp: quiet_def)
  ultimately show ?thesis
    using q same out by (intro parked_safe) (auto simp: text_safe_def no_reader_def)
qed

lemma answer_safe:
  assumes q: "ingest_inv env cs q" and s: "text_safe i n q"
  shows "text_safe i n (answer_ingest env w m ans q)"
proof (cases "find (\<lambda>t. fst t = m) (iq_tasks q)")
  case (Some t)
  obtain k call f where t: "t = (k, call, f)" by (cases t)
  with find_task [OF Some] have mem: "(k, call, f) \<in> set (iq_tasks q)" by auto
  let ?q = "q\<lparr>iq_tasks := filter (\<lambda>t. fst t \<noteq> m) (iq_tasks q)\<rparr>"
  from s have s': "text_safe i n ?q" by (auto simp: text_safe_def no_reader_def)
  have "text_safe i n (ingest_parked m (ingest_resume env w f ans ?q))"
  proof (cases "call = None")
    case True
    with q mem have "f = I_Settled" by (auto simp: ingest_inv_def single_drain_def split: if_splits)
    with next_safe [OF s'] show ?thesis by simp
  next
    case False
    with q mem have "at_work env cs f q" by (auto simp: ingest_inv_def single_drain_def split: if_splits)
    then obtain j c where f: "frame_id f = Some j" "frame_control f = Some c" "frame_receipt env f"
      by (auto simp: at_work_def)
    have "\<not> reading_frame f" if "j = i" using s mem f(1) that by (auto simp: text_safe_def no_reader_def)
    from job_safe [OF s' f this] show ?thesis .
  qed
  with s t Some show ?thesis by (auto simp: answer_ingest_def take_ingest_def split: option.splits)
qed (use s in \<open>simp add: answer_ingest_def take_ingest_def\<close>)

lemma patch_safe: "text_safe i n q \<Longrightarrow> ip_body p = None \<Longrightarrow> text_safe i n (patch_row w j p q)"
  by (auto simp: text_safe_def no_reader_def intro: text_kept_update)

lemma rows_safe:
  "text_safe i n q \<Longrightarrow> text_kept i rows \<Longrightarrow> text_safe i n (q\<lparr>iq_rows := rows\<rparr>)"
  by (auto simp: text_safe_def no_reader_def)

lemma text_kept_insert:
  "insert_ingest j file name hints now rows = Some (k, rows') \<Longrightarrow> text_kept i rows \<Longrightarrow> text_kept i rows'"
  unfolding text_kept_def insert_ingest_def list_ex_iff Let_def
  by (force simp: new_ingest_row_def split: if_splits)

lemma retry_safe: "text_safe i n q \<Longrightarrow> text_safe i n (snd (retry_ingest w j q))"
proof -
  assume q: "text_safe i n q"
  have "text_safe i n (q\<lparr>iq_rows := snd (requeue_ingest j (ih_now w) (iq_rows q))\<rparr>)"
  proof (rule rows_safe [OF q])
    have "ip_body (requeue_patch c) = None" for c by (simp add: requeue_patch_def no_patch_def)
    with q show "text_kept i (snd (requeue_ingest j (ih_now w) (iq_rows q)))"
      by (auto simp: requeue_ingest_def text_safe_def Let_def intro: text_kept_update split: option.splits)
  qed
  then show ?thesis by (auto simp: retry_ingest_def split_beta Let_def intro: drain_safe)
qed

lemma open_ingest_ids [simp]: "map ir_id (open_ingest now rows) = map ir_id rows"
  by (simp add: open_ingest_def update_where_def)

lemma text_kept_open:
  assumes "text_kept i rows"
  shows "text_kept i (open_ingest now rows)"
  unfolding text_kept_def
proof
  from assms show "i \<in> set (map ir_id (open_ingest now rows))" by (simp only: text_kept_def open_ingest_ids)
  from assms show "\<forall>r \<in> set (open_ingest now rows). ir_id r = i \<longrightarrow> (\<exists>c cs. ir_body r = Some (c # cs))"
    by (auto simp: text_kept_def open_ingest_def update_where_def)
qed

lemma restart_safe:
  assumes "text_safe i n q"
  shows "text_safe i n (restart_ingest w q)"
proof -
  have "text_safe i n ((new_ingest_queue (open_ingest (ih_now w) (iq_rows q)))\<lparr>iq_log := iq_log q\<rparr>)"
    using assms by (auto simp: text_safe_def no_reader_def new_ingest_queue_def intro: text_kept_open)
  then show ?thesis unfolding restart_ingest_def by (rule drain_safe)
qed

lemma cancel_safe: "text_safe i n q \<Longrightarrow> text_safe i n (snd (cancel_ingest w j q))"
proof -
  assume q: "text_safe i n q"
  have "ip_body cancelled_patch = None" by (simp add: cancelled_patch_def)
  from patch_safe [OF q this, of w j] q show ?thesis
    by (auto simp: cancel_ingest_def Let_def text_safe_def no_reader_def split: option.splits)
qed

lemma enqueue_safe: "text_safe i n q \<Longrightarrow> text_safe i n (snd (enqueue_file w f m hs q))"
proof -
  assume q: "text_safe i n q"
  have "text_safe i n (q\<lparr>iq_rows := rows\<rparr>)"
    if "insert_ingest (ih_id w) f m hs (ih_now w) (iq_rows q) = Some (k, rows)" for k rows
    using text_kept_insert [OF that] q by (intro rows_safe [OF q]) (simp add: text_safe_def)
  with drain_safe q show ?thesis unfolding enqueue_file_def by (simp split: option.splits prod.splits)
qed

lemma move_safe:
  assumes "ingest_inv env cs q" and "text_safe i n q"
  shows "text_safe i n (do_ingest env m q)"
proof (cases "(env, m, q)" rule: do_ingest.cases)
  case (6 _ w k percent)
  have "ip_body (no_patch\<lparr>ip_progress := Some percent\<rparr>) = None" by (simp add: no_patch_def)
  from patch_safe [OF assms(2) this] assms(2) 6 show ?thesis
    by (auto simp: report_progress_def split: option.splits ingest_frame.splits)
qed (use assms in \<open>auto intro: enqueue_safe retry_safe cancel_safe drain_safe restart_safe answer_safe\<close>)

lemma run_safe: "ingest_inv env cs q \<Longrightarrow> text_safe i n q \<Longrightarrow> text_safe i n (run_ingest env ms q)"
proof (induction ms arbitrary: cs q)
  case (Cons m ms)
  from Cons.IH [OF move_inv [OF Cons.prems(1), of m] move_safe [OF Cons.prems]] show ?case
    by (simp add: run_ingest_def)
qed (simp add: run_ingest_def)

lemma run_append: "run_ingest env (ms @ ns) q = run_ingest env ns (run_ingest env ms q)"
  by (simp add: run_ingest_def)

text \<open>
  What was read is not read again: once the text of a file is in the store and its job is not being read, no later
  move, retry, failure of the filing, cancellation or restart leads to another download, transcription or
  extraction for the job.
\<close>

theorem texts_are_read_once:
  assumes "text_kept i (iq_rows (run_ingest env ms (new_ingest_queue [])))"
    and "no_reader i (run_ingest env ms (new_ingest_queue []))"
  shows "reads_in i (iq_log (run_ingest env (ms @ ns) (new_ingest_queue []))) =
    reads_in i (iq_log (run_ingest env ms (new_ingest_queue [])))"
  using run_safe [OF reached_inv [of env ms], of i "reads_in i (iq_log (run_ingest env ms (new_ingest_queue [])))" ns] assms
  by (simp add: run_append text_safe_def)


section \<open>Cancelling\<close>

fun filed_frame :: "ingest_frame \<Rightarrow> bool" where
  "filed_frame (I_Folder k v) \<longleftrightarrow> True"
| "filed_frame (I_Moving k v) \<longleftrightarrow> True"
| "filed_frame _ \<longleftrightarrow> False"

lemma resume_raised:
  "frame_id f = Some i \<Longrightarrow> frame_control f = Some c \<Longrightarrow> \<not> filed_frame f \<Longrightarrow>
    ingest_resume env w f (Raised m) q = ingest_failed w i c m q"
  by (cases f) (auto simp: frame_id_def work_failed_def error_text_def)

lemma cancelled_rows:
  "r \<in> set (iq_rows (patch_row w i cancelled_patch q)) \<Longrightarrow> ir_id r = i \<Longrightarrow>
    ir_status r = In_Interrupted \<and> ir_step r = Some ''cancelled''"
proof -
  assume "r \<in> set (iq_rows (patch_row w i cancelled_patch q))" and i: "ir_id r = i"
  then have "r \<in> set (update_ingest i cancelled_patch (ih_now w) (iq_rows q))" by simp
  moreover have "cancelled_patch \<noteq> no_patch"
    using cancelled_patch_status by (metis ingest_patch.select_convs(1) no_patch_def option.distinct(1))
  ultimately show ?thesis
    by (cases rule: update_cases) (use i in \<open>simp_all add: cancelled_patch_def status_patch_def\<close>)
qed

text \<open>
  A job that is cancelled while a call of it is pending, and whose call then fails, stays cancelled: the failure
  does not overwrite the row, and the drain goes on with the next file.
\<close>

theorem cancelled_job_stays_cancelled:
  assumes "q = run_ingest env ms (new_ingest_queue [])" and "iq_tasks q = [(n, Some c, f)]"
    and "frame_id f = Some i" and "\<not> filed_frame f" and "i \<in> set (map ir_id (iq_rows q))"
    and "q' = do_ingest env (w', Im_Answer n (Raised m)) (do_ingest env (w, Im_Cancel i) q)"
  shows "(\<forall>r \<in> set (iq_rows q'). ir_id r = i \<longrightarrow> ir_status r = In_Interrupted \<and> ir_step r = Some ''cancelled'') \<and>
    iq_tasks q' = [(n, None, I_Settled)]"
proof -
  have "ingest_inv env (cancels ms) q" unfolding assms(1) by (rule reached_inv)
  with assms(2,3) obtain k where k: "frame_control f = Some k" "iq_running q i = Some k"
    by (auto simp: ingest_inv_def single_drain_def at_work_def split: if_splits)
  from assms(5) obtain j where "get_ingest i (iq_rows q) = Some j"
    using get_ingest_None [of i "iq_rows q"] by (cases "get_ingest i (iq_rows q)") auto
  with k(2) have "do_ingest env (w, Im_Cancel i) q =
      (patch_row w i cancelled_patch q)\<lparr>iq_aborted := k # iq_aborted q\<rparr>" (is "_ = ?q")
    by (simp add: cancel_ingest_def Let_def)
  moreover have "do_ingest env (w', Im_Answer n (Raised m)) ?q =
      (release_controller i ?q)\<lparr>iq_tasks := [(n, None, I_Settled)]\<rparr>"
    using assms(2) resume_raised [OF assms(3) k(1) assms(4)]
    by (simp add: answer_ingest_def take_ingest_def ingest_failed_def release_controller_def)
  ultimately have "q' = (release_controller i ?q)\<lparr>iq_tasks := [(n, None, I_Settled)]\<rparr>"
    using assms(6) by simp
  with cancelled_rows [of _ w i q] show ?thesis by (simp add: release_controller_def)
qed

end
