(* ===== verification/Ingest_Examples.thy ===== *)
theory Ingest_Examples
  imports Ingest_Service
begin

text \<open>
  The properties of the ingest queue at concrete inputs, and two runs in which a cancelled job does not stay
  cancelled.
\<close>

definition demo_ingest_host :: "int \<Rightarrow> ingest_host" where
  "demo_ingest_host t = \<lparr>ih_now = t, ih_id = ''j'', ih_connected = True, ih_folder = None\<rparr>"

definition demo_audio :: ingest_file where
  "demo_audio = \<lparr>gf_id = ''f'', gf_name = ''a'', gf_mime = ''audio/ogg'', gf_link = None, gf_parent = None\<rparr>"

definition demo_note_file :: ingest_file where
  "demo_note_file = \<lparr>gf_id = ''f'', gf_name = ''a'', gf_mime = ''text/plain'', gf_link = None, gf_parent = None\<rparr>"

text \<open>A text file is enqueued and downloaded; then it is filed.\<close>

definition demo_reading :: "(ingest_host \<times> ingest_move) list" where
  "demo_reading =
     [(demo_ingest_host 1, Im_Enqueue ''f'' ''a'' []), (demo_ingest_host 2, Im_Answer 0 (File_Is demo_note_file))]"

definition demo_read :: "(ingest_host \<times> ingest_move) list" where
  "demo_read = demo_reading @ [(demo_ingest_host 3, Im_Answer 0 (Data_Is ''t''))]"

definition demo_filing :: "(ingest_host \<times> ingest_move) list" where
  "demo_filing =
     [(demo_ingest_host 4, Im_Answer 0 Engine_Open), (demo_ingest_host 5, Im_Answer 0 (Stored_As demo_receipt)),
      (demo_ingest_host 6, Im_Answer 0 Moved)]"

abbreviation demo_ingest :: "(ingest_host \<times> ingest_move) list \<Rightarrow> ingest_queue" where
  "demo_ingest ms \<equiv> run_ingest demo_receipt_env ms (new_ingest_queue [])"

lemma demo_filed:
  "map (\<lambda>r. (ir_id r, ir_status r)) (iq_rows (demo_ingest (demo_read @ demo_filing))) = [(''j'', In_Done)] \<and>
     iq_tasks (demo_ingest (demo_read @ demo_filing)) = []"
  by code_simp

lemma ingested_means_durable_witness:
  "\<exists>r \<in> set (iq_rows (demo_ingest (demo_read @ demo_filing))).
     ir_status r = In_Done \<and> filed_with_receipt demo_receipt_env r"
proof -
  from demo_filed obtain r where "iq_rows (demo_ingest (demo_read @ demo_filing)) = [r]" "ir_status r = In_Done"
    by (auto simp: map_eq_Cons_conv)
  with ingested_means_durable [of demo_receipt_env "demo_read @ demo_filing"] show ?thesis by simp
qed

lemma queued_files_have_one_drain_witness:
  "\<not> (\<exists>r \<in> set (iq_rows (demo_ingest (demo_read @ demo_filing))). ir_status r = In_Queued)"
  using queued_files_have_one_drain [of demo_receipt_env "demo_read @ demo_filing"] demo_filed by simp

lemma demo_reading_row:
  "map (\<lambda>r. (ir_id r, ir_status r)) (iq_rows (demo_ingest demo_reading)) = [(''j'', In_Downloading)]"
  by code_simp

lemma ingest_in_flight_has_worker_witness:
  "\<exists>n call f. iq_tasks (demo_ingest demo_reading) = [(n, call, f)] \<and> frame_id f = Some ''j''"
proof -
  obtain r where r: "iq_rows (demo_ingest demo_reading) = [r]" "ir_id r = ''j''" "ir_status r = In_Downloading"
    using demo_reading_row by auto
  moreover have "cancels demo_reading = {}" by (simp add: cancels_def demo_reading_def)
  ultimately show ?thesis
    using ingest_in_flight_has_worker [of r demo_receipt_env demo_reading] by (simp add: in_flight_states_def)
qed

lemma demo_read_kept:
  "map (\<lambda>r. (ir_id r, ir_body r)) (iq_rows (demo_ingest demo_read)) = [(''j'', Some ''t'')] \<and>
     list_all (\<lambda>t. \<not> reading_frame (snd (snd t))) (iq_tasks (demo_ingest demo_read)) \<and>
     reads_in ''j'' (iq_log (demo_ingest demo_read)) = 1"
  by code_simp

lemma texts_are_read_once_witness:
  "reads_in ''j'' (iq_log (demo_ingest (demo_read @
     [(demo_ingest_host 7, Im_Restart), (demo_ingest_host 8, Im_Retry ''j'')]))) = 1"
proof -
  have "text_kept ''j'' (iq_rows (demo_ingest demo_read))" and "no_reader ''j'' (demo_ingest demo_read)"
    using demo_read_kept by (auto simp: text_kept_def no_reader_def list_all_iff)
  from texts_are_read_once [OF this] demo_read_kept show ?thesis by simp
qed

lemma demo_reading_task:
  "map (\<lambda>(n, c, f). (n, c = None, frame_id f, filed_frame f)) (iq_tasks (demo_ingest demo_reading)) =
     [(0, False, Some ''j'', False)]"
  by code_simp

abbreviation demo_cancelled :: ingest_queue where
  "demo_cancelled \<equiv> demo_ingest (demo_reading @
     [(demo_ingest_host 3, Im_Cancel ''j''), (demo_ingest_host 4, Im_Answer 0 (Raised ''gone''))])"

lemma demo_cancelled_ids: "map ir_id (iq_rows demo_cancelled) = [''j'']"
  by code_simp

lemma cancelled_job_stays_cancelled_witness:
  "map (\<lambda>r. (ir_id r, ir_status r, ir_step r)) (iq_rows demo_cancelled) = [(''j'', In_Interrupted, Some ''cancelled'')]"
proof -
  obtain c f where t: "iq_tasks (demo_ingest demo_reading) = [(0, Some c, f)]" "frame_id f = Some ''j''" "\<not> filed_frame f"
    using demo_reading_task by auto
  have "''j'' \<in> set (map ir_id (iq_rows (demo_ingest demo_reading)))" using demo_reading_row by auto
  from cancelled_job_stays_cancelled [OF refl t this refl]
  have "\<forall>r \<in> set (iq_rows demo_cancelled). ir_id r = ''j'' \<longrightarrow> ir_status r = In_Interrupted \<and> ir_step r = Some ''cancelled''"
    by (simp add: run_ingest_def)
  with demo_cancelled_ids show ?thesis by (auto simp: map_eq_Cons_conv)
qed

definition demo_stale_rows :: ingest_rows where
  "demo_stale_rows = [new_ingest_row ''j'' ''f'' ''a'' [] 0]"

lemma stuck_alerts_once_per_episode_witness:
  "sweep_ticks [(700000, demo_stale_rows), (800000, demo_stale_rows), (900000, []), (950000, demo_stale_rows)] [] =
     [[''j''], [], [], [''j'']]"
proof -
  have "stale_ids t demo_stale_rows = [''j'']" if "600000 < t" for t
    using that by (simp add: stale_ids_def stale_active_def demo_stale_rows_def new_ingest_row_def active_states_def
      stuck_threshold_def order_by_def ingest_of_row_def)
  moreover have "stale_ids t [] = []" for t
    by (simp add: stale_ids_def stale_active_def order_by_def)
  ultimately show ?thesis
    by (subst stuck_alerts_once_per_episode) (simp_all add: demo_stale_rows_def)
qed

section \<open>Where cancelling goes wrong\<close>

text \<open>
  A voice note is cancelled while it is downloaded. The download ends, the row is marked as transcribing, the
  transcription is refused because of the cancellation, and nothing is written: the row stays as it is without a
  drain, and the file cannot be enqueued again.
\<close>

definition demo_hang :: "(ingest_host \<times> ingest_move) list" where
  "demo_hang =
     [(demo_ingest_host 1, Im_Enqueue ''f'' ''a'' []), (demo_ingest_host 2, Im_Answer 0 (File_Is demo_audio)),
      (demo_ingest_host 3, Im_Cancel ''j''), (demo_ingest_host 4, Im_Answer 0 (Data_Is ''d'')),
      (demo_ingest_host 5, Im_Answer 0 (Not_Transcribed ''aborted'')), (demo_ingest_host 6, Im_Answer 0 Moved)]"

lemma cancelled_job_can_hang:
  "let q = demo_ingest demo_hang; (j, q') = enqueue_file (demo_ingest_host 9) ''f'' ''a'' [] q in
     map (\<lambda>r. (ir_id r, ir_status r)) (iq_rows q) = [(''j'', In_Transcribing)] \<and> iq_tasks q = [] \<and>
     map_option ij_id j = Some ''j'' \<and> iq_tasks q' = [] \<and> length (iq_rows q') = 1"
  by code_simp

text \<open>A text that is cancelled while it is downloaded is filed all the same.\<close>

lemma cancelled_job_can_be_filed:
  "map (\<lambda>r. (ir_id r, ir_status r))
     (iq_rows (demo_ingest (demo_reading @ [(demo_ingest_host 3, Im_Cancel ''j''),
        (demo_ingest_host 3, Im_Answer 0 (Data_Is ''t''))] @ demo_filing))) = [(''j'', In_Done)]"
  by code_simp

end
