(* ===== verification/Journey_Store.thy ===== *)
theory Journey_Store
  imports Durable_Receipt
begin

text \<open>
  The durable record of delegated work (packages/server/src/journeyStore.ts): journeys, their steps with
  dependencies, leases and deadlines, their artifacts, and the log of events.

  \<^item> The four tables are lists of rows in insertion order, and rows with equal sort keys come in that order. A
    column that holds JSON text is modelled by its value, so a row is also the object that is returned.
  \<^item> The ids of new rows are arguments; an insert throws where the id is taken. The ids of events are random, read by
    nobody, and left out.
  \<^item> \<open>Inl\<close> is a thrown error. Only \<open>claimDueSteps\<close> is a transaction; the other operations write statement
    by statement, and the statements after the first cannot fail.
\<close>

section \<open>Rows\<close>

datatype journey_status = J_Active | J_Completed | J_Blocked | J_Cancelled

datatype step_status = S_Pending | S_Dispatched | S_Running | S_Completed | S_Blocked | S_Failed | S_Cancelled

record journey_row =
  jn_id :: string
  jn_conversation :: "string option"
  jn_surface :: string
  jn_request :: string
  jn_context :: json
  jn_status :: journey_status
  jn_created :: int
  jn_updated :: int
  jn_completed :: "int option"

record step_row =
  sp_id :: string
  sp_journey :: string
  sp_sequence :: int
  sp_owner :: string
  sp_title :: string
  sp_input :: json
  sp_status :: step_status
  sp_deps :: "string list"
  sp_key :: "string option"
  sp_refs :: json
  sp_after :: "int option"
  sp_wake :: "int option"
  sp_lease :: "int option"
  sp_attempts :: int
  sp_deadline :: "int option"
  sp_dispatched :: "int option"
  sp_completed :: "int option"
  sp_result :: "json option"
  sp_error :: "string option"
  sp_blocker :: "string option"
  sp_created :: int
  sp_updated :: int

record artifact_row =
  af_id :: string
  af_journey :: string
  af_step :: "string option"
  af_kind :: string
  af_key :: string
  af_data :: json
  af_created :: int
  af_updated :: int

datatype event_type =
  Ev_Journey_Created
| Ev_Journey_Completed
| Ev_Journey_Blocked
| Ev_Artifact_Added
| Ev_Step_Added
| Ev_Step_Ready
| Ev_Step_Dispatched
| Ev_Step_Running
| Ev_Step_Callback
| Ev_Step_Completed
| Ev_Step_Blocked
| Ev_Step_Failed

record event_row =
  ev_journey :: string
  ev_step :: "string option"
  ev_type :: event_type
  ev_payload :: json
  ev_created :: int

record journey_db =
  jd_journeys :: "journey_row list"
  jd_steps :: "step_row list"
  jd_artifacts :: "artifact_row list"
  jd_events :: "event_row list"

definition empty_journeys :: journey_db where
  "empty_journeys = \<lparr>jd_journeys = [], jd_steps = [], jd_artifacts = [], jd_events = []\<rparr>"

record step_input =
  si_owner :: string
  si_title :: string
  si_input :: json
  si_deps :: "string list"
  si_key :: "string option"
  si_refs :: json
  si_after :: "int option"
  si_wake :: "int option"
  si_deadline :: "int option"

record artifact_input =
  ai_step :: "string option"
  ai_kind :: string
  ai_key :: string
  ai_data :: json

section \<open>Queries\<close>

definition get_journey :: "string \<Rightarrow> journey_db \<Rightarrow> journey_row option" where
  "get_journey i db = find (\<lambda>j. jn_id j = i) (jd_journeys db)"

definition get_step :: "string \<Rightarrow> journey_db \<Rightarrow> step_row option" where
  "get_step i db = find (\<lambda>s. sp_id s = i) (jd_steps db)"

definition steps_for_journey :: "string \<Rightarrow> journey_db \<Rightarrow> step_row list" where
  "steps_for_journey i db = order_by sp_sequence (filter (\<lambda>s. sp_journey s = i) (jd_steps db))"

definition events_for_journey :: "string \<Rightarrow> journey_db \<Rightarrow> event_row list" where
  "events_for_journey i db = order_by ev_created (filter (\<lambda>e. ev_journey e = i) (jd_events db))"

definition artifacts_for_journey :: "string \<Rightarrow> journey_db \<Rightarrow> artifact_row list" where
  "artifacts_for_journey i db = order_by af_created (filter (\<lambda>a. af_journey a = i) (jd_artifacts db))"

definition recent_journeys :: "nat \<Rightarrow> journey_db \<Rightarrow> journey_row list" where
  "recent_journeys n db = take n (order_desc jn_updated (jd_journeys db))"

definition artifacts_by_kind :: "string \<Rightarrow> nat \<Rightarrow> journey_db \<Rightarrow> artifact_row list" where
  "artifacts_by_kind k n db = take n (order_desc af_updated (filter (\<lambda>a. af_kind a = k) (jd_artifacts db)))"

record journey_snapshot =
  js_journey :: journey_row
  js_steps :: "step_row list"
  js_artifacts :: "artifact_row list"
  js_events :: "event_row list"

definition journey_snapshot_of :: "string \<Rightarrow> journey_db \<Rightarrow> journey_snapshot option" where
  "journey_snapshot_of i db =
     map_option (\<lambda>j. \<lparr>js_journey = j, js_steps = steps_for_journey i db, js_artifacts = artifacts_for_journey i db,
       js_events = events_for_journey i db\<rparr>) (get_journey i db)"

definition step_by_key :: "string \<Rightarrow> string \<Rightarrow> journey_db \<Rightarrow> step_row option" where
  "step_by_key i k db = find (\<lambda>s. sp_journey s = i \<and> sp_key s = Some k) (jd_steps db)"

definition artifact_by_key :: "string \<Rightarrow> string \<Rightarrow> journey_db \<Rightarrow> artifact_row option" where
  "artifact_by_key i k db = find (\<lambda>a. af_journey a = i \<and> af_key a = k) (jd_artifacts db)"

text \<open>The count of completed steps among the ids is compared with the number of ids.\<close>

definition dependencies_satisfied :: "string \<Rightarrow> string list \<Rightarrow> journey_db \<Rightarrow> bool" where
  "dependencies_satisfied i deps db \<longleftrightarrow>
     deps = [] \<or>
     count_where (\<lambda>s. sp_journey s = i \<and> sp_id s \<in> set deps \<and> sp_status s = S_Completed) (jd_steps db) = length deps"

section \<open>Writes\<close>

definition append_event :: "string \<Rightarrow> string option \<Rightarrow> event_type \<Rightarrow> json \<Rightarrow> int \<Rightarrow> journey_db \<Rightarrow> journey_db" where
  "append_event i s ty payload now db =
     db\<lparr>jd_events := jd_events db @
       [\<lparr>ev_journey = i, ev_step = s, ev_type = ty, ev_payload = payload, ev_created = now\<rparr>]\<rparr>"

definition touch_journey :: "string \<Rightarrow> int \<Rightarrow> journey_db \<Rightarrow> journey_db" where
  "touch_journey i now db = db\<lparr>jd_journeys := update_where (\<lambda>j. jn_id j = i) (jn_updated_update (\<lambda>_. now)) (jd_journeys db)\<rparr>"

definition write_step :: "string \<Rightarrow> (step_row \<Rightarrow> step_row) \<Rightarrow> journey_db \<Rightarrow> journey_db" where
  "write_step i f db = db\<lparr>jd_steps := update_where (\<lambda>s. sp_id s = i) f (jd_steps db)\<rparr>"

definition coalesce :: "'a option \<Rightarrow> 'a option \<Rightarrow> 'a option" where
  "coalesce v w = (if v = None then w else v)"

definition unique_failed :: string where "unique_failed = ''UNIQUE constraint failed''"

definition journey_not_found :: "string \<Rightarrow> string" where
  "journey_not_found i = ''Journey not found: '' @ i"

definition create_journey ::
  "string \<Rightarrow> string option \<Rightarrow> string \<Rightarrow> string \<Rightarrow> json \<Rightarrow> int \<Rightarrow> journey_db \<Rightarrow> (string + journey_row) \<times> journey_db" where
  "create_journey i conversation surface request ctx now db =
     (if list_ex (\<lambda>j. jn_id j = i) (jd_journeys db) then (Inl unique_failed, db)
      else let j = \<lparr>jn_id = i, jn_conversation = conversation, jn_surface = surface, jn_request = request,
                    jn_context = ctx, jn_status = J_Active, jn_created = now, jn_updated = now, jn_completed = None\<rparr>
           in (Inr j, append_event i None Ev_Journey_Created (JObj [(''surface'', JStr surface)]) now
                 (db\<lparr>jd_journeys := jd_journeys db @ [j]\<rparr>)))"

definition next_sequence :: "string \<Rightarrow> journey_db \<Rightarrow> int" where
  "next_sequence i db =
     (case map sp_sequence (filter (\<lambda>s. sp_journey s = i) (jd_steps db)) of [] \<Rightarrow> 0 | n # ns \<Rightarrow> fold max ns n) + 1"

definition new_step :: "string \<Rightarrow> string \<Rightarrow> int \<Rightarrow> step_input \<Rightarrow> int \<Rightarrow> step_row" where
  "new_step i journey sequence inp now =
     \<lparr>sp_id = i, sp_journey = journey, sp_sequence = sequence, sp_owner = si_owner inp, sp_title = si_title inp,
      sp_input = si_input inp, sp_status = S_Pending, sp_deps = si_deps inp, sp_key = si_key inp,
      sp_refs = si_refs inp, sp_after = si_after inp, sp_wake = coalesce (si_wake inp) (si_after inp),
      sp_lease = None, sp_attempts = 0, sp_deadline = si_deadline inp, sp_dispatched = None, sp_completed = None,
      sp_result = None, sp_error = None, sp_blocker = None, sp_created = now, sp_updated = now\<rparr>"

text \<open>An empty key is not looked up, but the unique index sees it.\<close>

definition step_clash :: "string \<Rightarrow> string \<Rightarrow> string option \<Rightarrow> journey_db \<Rightarrow> bool" where
  "step_clash i journey key db \<longleftrightarrow>
     list_ex (\<lambda>s. sp_id s = i \<or> sp_journey s = journey \<and> key \<noteq> None \<and> sp_key s = key) (jd_steps db)"

definition add_step :: "string \<Rightarrow> string \<Rightarrow> step_input \<Rightarrow> int \<Rightarrow> journey_db \<Rightarrow> (string + step_row) \<times> journey_db" where
  "add_step i journey inp now db =
     (if get_journey journey db = None then (Inl (journey_not_found journey), db)
      else case (case si_key inp of None \<Rightarrow> None | Some k \<Rightarrow> if k = [] then None else step_by_key journey k db) of
        Some s \<Rightarrow> (Inr s, db)
      | None \<Rightarrow>
          if step_clash i journey (si_key inp) db then (Inl unique_failed, db)
          else let s = new_step i journey (next_sequence journey db) inp now
               in (Inr s, append_event journey (Some i) Ev_Step_Added
                     (JObj [(''owner'', JStr (si_owner inp)), (''title'', JStr (si_title inp))]) now
                     (touch_journey journey now (db\<lparr>jd_steps := jd_steps db @ [s]\<rparr>))))"

definition add_artifact ::
  "string \<Rightarrow> string \<Rightarrow> artifact_input \<Rightarrow> int \<Rightarrow> journey_db \<Rightarrow> (string + artifact_row) \<times> journey_db" where
  "add_artifact i journey inp now db =
     (if get_journey journey db = None then (Inl (journey_not_found journey), db)
      else case artifact_by_key journey (ai_key inp) db of
        Some a \<Rightarrow> (Inr a, db)
      | None \<Rightarrow>
          if list_ex (\<lambda>a. af_id a = i) (jd_artifacts db) then (Inl unique_failed, db)
          else let a = \<lparr>af_id = i, af_journey = journey, af_step = ai_step inp, af_kind = ai_kind inp,
                        af_key = ai_key inp, af_data = ai_data inp, af_created = now, af_updated = now\<rparr>
               in (Inr a, append_event journey (ai_step inp) Ev_Artifact_Added
                     (JObj [(''kind'', JStr (ai_kind inp)), (''artifactKey'', JStr (ai_key inp))]) now
                     (touch_journey journey now (db\<lparr>jd_artifacts := jd_artifacts db @ [a]\<rparr>))))"

definition update_artifact_data ::
  "string \<Rightarrow> string \<Rightarrow> json \<Rightarrow> int \<Rightarrow> journey_db \<Rightarrow> artifact_row option \<times> journey_db" where
  "update_artifact_data journey key data now db =
     (case artifact_by_key journey key db of
        None \<Rightarrow> (None, db)
      | Some a \<Rightarrow>
          let db' = touch_journey journey now
                (db\<lparr>jd_artifacts := update_where (\<lambda>b. af_id b = af_id a)
                   (\<lambda>b. b\<lparr>af_data := data, af_updated := now\<rparr>) (jd_artifacts db)\<rparr>)
          in (artifact_by_key journey key db', db'))"

section \<open>Steps\<close>

definition with_step ::
  "string \<Rightarrow> (step_row \<Rightarrow> journey_db \<Rightarrow> journey_db) \<Rightarrow> journey_db \<Rightarrow> (string + step_row) \<times> journey_db" where
  "with_step i act db =
     (case get_step i db of
        None \<Rightarrow> (Inl (''Journey step not found: '' @ i), db)
      | Some s \<Rightarrow>
          let db' = act s db
          in (case get_step i db' of None \<Rightarrow> Inl (''Journey step not found: '' @ i) | Some t \<Rightarrow> Inr t, db'))"

definition owner_payload :: "step_row \<Rightarrow> json" where
  "owner_payload s = JObj [(''owner'', JStr (sp_owner s))]"

definition dispatched_row :: "int option \<Rightarrow> int \<Rightarrow> step_row \<Rightarrow> step_row" where
  "dispatched_row deadline now s =
     s\<lparr>sp_status := S_Dispatched, sp_deadline := coalesce deadline (sp_deadline s),
       sp_wake := coalesce deadline (sp_wake s), sp_dispatched := Some now, sp_updated := now\<rparr>"

definition dispatch_step :: "string \<Rightarrow> int option \<Rightarrow> int \<Rightarrow> journey_db \<Rightarrow> (string + step_row) \<times> journey_db" where
  "dispatch_step i deadline now =
     with_step i (\<lambda>s db. append_event (sp_journey s) (Some i) Ev_Step_Dispatched (owner_payload s) now
       (touch_journey (sp_journey s) now (write_step i (dispatched_row deadline now) db)))"

definition running_row :: "int option \<Rightarrow> int \<Rightarrow> step_row \<Rightarrow> step_row" where
  "running_row deadline now s =
     s\<lparr>sp_status := S_Running, sp_deadline := coalesce deadline (sp_deadline s),
       sp_wake := coalesce deadline (sp_wake s), sp_dispatched := coalesce (sp_dispatched s) (Some now),
       sp_updated := now\<rparr>"

definition run_step :: "string \<Rightarrow> int option \<Rightarrow> int \<Rightarrow> journey_db \<Rightarrow> (string + step_row) \<times> journey_db" where
  "run_step i deadline now =
     with_step i (\<lambda>s db. append_event (sp_journey s) (Some i) Ev_Step_Running (owner_payload s) now
       (touch_journey (sp_journey s) now (write_step i (running_row deadline now) db)))"

text \<open>The dependents are read once, in their order; a step whose dependencies are satisfied is woken.\<close>

definition wake_ready :: "string \<Rightarrow> int \<Rightarrow> step_row \<Rightarrow> journey_db \<Rightarrow> journey_db" where
  "wake_ready journey now s db =
     (if dependencies_satisfied journey (sp_deps s) db \<and> sp_wake s = None
      then append_event journey (Some (sp_id s)) Ev_Step_Ready (JObj [(''dependencyIds'', JArr (map JStr (sp_deps s)))]) now
        (write_step (sp_id s) (\<lambda>r. r\<lparr>sp_wake := Some now, sp_updated := now\<rparr>) db)
      else db)"

definition ready_pending_dependents :: "string \<Rightarrow> int \<Rightarrow> journey_db \<Rightarrow> journey_db" where
  "ready_pending_dependents journey now db =
     (let pending = filter (\<lambda>s. sp_status s = S_Pending \<and> sp_deps s \<noteq> []) (steps_for_journey journey db);
          db' = fold (wake_ready journey now) pending db
      in if list_ex (\<lambda>s. dependencies_satisfied journey (sp_deps s) db) pending then touch_journey journey now db' else db')"

text \<open>The steps it returns, those that were woken as they are then. The list of \<open>blockOverdueSteps\<close> is left out.\<close>

definition ready_steps :: "string \<Rightarrow> int \<Rightarrow> journey_db \<Rightarrow> step_row list" where
  "ready_steps journey now db =
     (let db' = ready_pending_dependents journey now db
      in List.map_filter (\<lambda>s.
           if \<not> dependencies_satisfied journey (sp_deps s) db then None
           else if sp_wake s = None then get_step (sp_id s) db' else Some s)
         (filter (\<lambda>s. sp_status s = S_Pending \<and> sp_deps s \<noteq> []) (steps_for_journey journey db)))"

definition completed_row :: "json \<Rightarrow> int \<Rightarrow> step_row \<Rightarrow> step_row" where
  "completed_row v now s =
     s\<lparr>sp_status := S_Completed, sp_result := Some v, sp_error := None, sp_blocker := None, sp_completed := Some now,
       sp_lease := None, sp_updated := now\<rparr>"

definition complete_step :: "string \<Rightarrow> json \<Rightarrow> int \<Rightarrow> journey_db \<Rightarrow> (string + step_row) \<times> journey_db" where
  "complete_step i v now =
     with_step i (\<lambda>s db. ready_pending_dependents (sp_journey s) now
       (touch_journey (sp_journey s) now
         (append_event (sp_journey s) (Some i) Ev_Step_Completed v now (write_step i (completed_row v now) db))))"

definition complete_journey_if_ready :: "string \<Rightarrow> int \<Rightarrow> journey_db \<Rightarrow> bool \<times> journey_db" where
  "complete_journey_if_ready i now db =
     (case get_journey i db of
        None \<Rightarrow> (False, db)
      | Some j \<Rightarrow>
          if jn_status j \<noteq> J_Active then (False, db)
          else if count_where (\<lambda>s. sp_journey s = i \<and> sp_status s \<notin> {S_Completed, S_Cancelled}) (jd_steps db) \<noteq> 0
            then (False, db)
          else (True, append_event i None Ev_Journey_Completed (JObj []) now
            (db\<lparr>jd_journeys := update_where (\<lambda>j. jn_id j = i)
               (\<lambda>j. j\<lparr>jn_status := J_Completed, jn_completed := Some now, jn_updated := now\<rparr>) (jd_journeys db)\<rparr>)))"

text \<open>A journey is only blocked while it is active; the event is appended in any case.\<close>

definition block_journey :: "string \<Rightarrow> int \<Rightarrow> journey_db \<Rightarrow> journey_db" where
  "block_journey i now db =
     db\<lparr>jd_journeys := update_where (\<lambda>j. jn_id j = i \<and> jn_status j = J_Active)
       (\<lambda>j. j\<lparr>jn_status := J_Blocked, jn_updated := now\<rparr>) (jd_journeys db)\<rparr>"

definition blocked_event :: "string \<Rightarrow> string \<Rightarrow> string \<Rightarrow> int \<Rightarrow> journey_db \<Rightarrow> journey_db" where
  "blocked_event journey i reason now =
     append_event journey None Ev_Journey_Blocked (JObj [(''stepId'', JStr i), (''reason'', JStr reason)]) now"

definition failed_row :: "string \<Rightarrow> int \<Rightarrow> step_row \<Rightarrow> step_row" where
  "failed_row e now s = s\<lparr>sp_status := S_Failed, sp_error := Some e, sp_lease := None, sp_updated := now\<rparr>"

definition fail_step :: "string \<Rightarrow> string \<Rightarrow> int \<Rightarrow> journey_db \<Rightarrow> (string + step_row) \<times> journey_db" where
  "fail_step i e now =
     with_step i (\<lambda>s db. blocked_event (sp_journey s) i e now
       (append_event (sp_journey s) (Some i) Ev_Step_Failed (JObj [(''error'', JStr e)]) now
         (touch_journey (sp_journey s) now (block_journey (sp_journey s) now (write_step i (failed_row e now) db)))))"

definition blocked_row :: "string \<Rightarrow> int \<Rightarrow> step_row \<Rightarrow> step_row" where
  "blocked_row reason now s =
     s\<lparr>sp_status := S_Blocked, sp_error := Some reason, sp_blocker := Some reason, sp_lease := None, sp_updated := now\<rparr>"

definition block_step :: "string \<Rightarrow> string \<Rightarrow> int \<Rightarrow> journey_db \<Rightarrow> (string + step_row) \<times> journey_db" where
  "block_step i reason now =
     with_step i (\<lambda>s db. blocked_event (sp_journey s) i reason now
       (append_event (sp_journey s) (Some i) Ev_Step_Blocked (JObj [(''reason'', JStr reason)]) now
         (block_journey (sp_journey s) now (write_step i (blocked_row reason now) db))))"

definition record_step_callback :: "string \<Rightarrow> json \<Rightarrow> int \<Rightarrow> journey_db \<Rightarrow> (string + step_row) \<times> journey_db" where
  "record_step_callback i payload now =
     with_step i (\<lambda>s db. touch_journey (sp_journey s) now
       (append_event (sp_journey s) (Some i) Ev_Step_Callback payload now db))"

section \<open>Deadlines and claims\<close>

definition overdue_steps :: "int \<Rightarrow> nat \<Rightarrow> journey_db \<Rightarrow> step_row list" where
  "overdue_steps now n db =
     take n (order_by (\<lambda>s. case sp_deadline s of None \<Rightarrow> 0 | Some d \<Rightarrow> d)
       (filter (\<lambda>s. sp_status s \<in> {S_Dispatched, S_Running} \<and> (case sp_deadline s of None \<Rightarrow> False | Some d \<Rightarrow> d \<le> now))
         (jd_steps db)))"

text \<open>\<open>clock\<close> is the text of a time.\<close>

definition block_overdue_steps :: "(int \<Rightarrow> string) \<Rightarrow> int \<Rightarrow> nat \<Rightarrow> journey_db \<Rightarrow> journey_db" where
  "block_overdue_steps clock now n db =
     fold (\<lambda>s. snd \<circ> block_step (sp_id s) (''step timed out at '' @ clock now) now) (overdue_steps now n db) db"

definition passed :: "int \<Rightarrow> int option \<Rightarrow> bool" where
  "passed now v \<longleftrightarrow> (case v of None \<Rightarrow> True | Some t \<Rightarrow> t \<le> now)"

definition journey_active :: "string \<Rightarrow> journey_db \<Rightarrow> bool" where
  "journey_active i db \<longleftrightarrow> list_ex (\<lambda>j. jn_id j = i \<and> jn_status j = J_Active) (jd_journeys db)"

definition due_time :: "step_row \<Rightarrow> int" where
  "due_time s = (case sp_wake s of None \<Rightarrow> sp_created s | Some t \<Rightarrow> t)"

definition due_steps :: "int \<Rightarrow> journey_db \<Rightarrow> step_row list" where
  "due_steps now db =
     order_by due_time
       (filter (\<lambda>s. journey_active (sp_journey s) db \<and> sp_status s \<in> {S_Pending, S_Dispatched, S_Running} \<and>
          passed now (sp_wake s) \<and> passed now (sp_lease s)) (jd_steps db))"

definition claimable_steps :: "int \<Rightarrow> nat \<Rightarrow> journey_db \<Rightarrow> step_row list" where
  "claimable_steps now n db =
     take n (filter (\<lambda>s. dependencies_satisfied (sp_journey s) (sp_deps s) db) (take (max (n * 5) n) (due_steps now db)))"

definition lease_step :: "int \<Rightarrow> int \<Rightarrow> string \<Rightarrow> journey_db \<Rightarrow> journey_db" where
  "lease_step now ms i db =
     db\<lparr>jd_steps := update_where (\<lambda>s. sp_id s = i \<and> passed now (sp_lease s))
       (\<lambda>s. s\<lparr>sp_lease := Some (now + ms), sp_attempts := sp_attempts s + 1, sp_updated := now\<rparr>) (jd_steps db)\<rparr>"

definition claim_due_steps :: "int \<Rightarrow> int \<Rightarrow> nat \<Rightarrow> journey_db \<Rightarrow> step_row list \<times> journey_db" where
  "claim_due_steps now ms n db =
     (let ids = map sp_id (claimable_steps now n db); db' = fold (lease_step now ms) ids db
      in (List.map_filter (\<lambda>i. get_step i db') ids, db'))"

section \<open>All operations\<close>

datatype journey_op =
  Jo_Create string "string option" string string json
| Jo_Add_Step string string step_input
| Jo_Add_Artifact string string artifact_input
| Jo_Update_Artifact string string json
| Jo_Dispatch string "int option"
| Jo_Run string "int option"
| Jo_Complete string json
| Jo_Complete_Journey string
| Jo_Fail string string
| Jo_Callback string json
| Jo_Block string string
| Jo_Ready string
| Jo_Block_Overdue nat
| Jo_Claim int nat

fun journey_step :: "(int \<Rightarrow> string) \<Rightarrow> int \<times> journey_op \<Rightarrow> journey_db \<Rightarrow> journey_db" where
  "journey_step clock (now, Jo_Create i c s r x) db = snd (create_journey i c s r x now db)"
| "journey_step clock (now, Jo_Add_Step i j inp) db = snd (add_step i j inp now db)"
| "journey_step clock (now, Jo_Add_Artifact i j inp) db = snd (add_artifact i j inp now db)"
| "journey_step clock (now, Jo_Update_Artifact j k v) db = snd (update_artifact_data j k v now db)"
| "journey_step clock (now, Jo_Dispatch i d) db = snd (dispatch_step i d now db)"
| "journey_step clock (now, Jo_Run i d) db = snd (run_step i d now db)"
| "journey_step clock (now, Jo_Complete i v) db = snd (complete_step i v now db)"
| "journey_step clock (now, Jo_Complete_Journey i) db = snd (complete_journey_if_ready i now db)"
| "journey_step clock (now, Jo_Fail i e) db = snd (fail_step i e now db)"
| "journey_step clock (now, Jo_Callback i v) db = snd (record_step_callback i v now db)"
| "journey_step clock (now, Jo_Block i e) db = snd (block_step i e now db)"
| "journey_step clock (now, Jo_Ready j) db = ready_pending_dependents j now db"
| "journey_step clock (now, Jo_Block_Overdue n) db = block_overdue_steps clock now n db"
| "journey_step clock (now, Jo_Claim ms n) db = snd (claim_due_steps now ms n db)"

definition run_journeys :: "(int \<Rightarrow> string) \<Rightarrow> (int \<times> journey_op) list \<Rightarrow> journey_db \<Rightarrow> journey_db" where
  "run_journeys clock ops db = fold (journey_step clock) ops db"

end
