(* ===== verification/Journey_Log.thy ===== *)
theory Journey_Log
  imports Journey_Store
begin

text \<open>
  The journey store as a protocol: what one operation may do to the statuses of journeys and steps and to the event
  log. The log determines the statuses, a journey completes only when its steps are done, and it keeps the status
  it ends with.
\<close>

section \<open>The protocol\<close>

definition steps_view :: "journey_db \<Rightarrow> (string \<times> string \<times> step_status) list" where
  "steps_view db = map (\<lambda>s. (sp_id s, sp_journey s, sp_status s)) (jd_steps db)"

definition journeys_view :: "journey_db \<Rightarrow> (string \<times> journey_status) list" where
  "journeys_view db = map (\<lambda>j. (jn_id j, jn_status j)) (jd_journeys db)"

definition set_status :: "string \<Rightarrow> step_status \<Rightarrow> string \<times> string \<times> step_status \<Rightarrow> string \<times> string \<times> step_status" where
  "set_status i st x = (if fst x = i then (fst x, fst (snd x), st) else x)"

definition set_journey :: "string \<Rightarrow> journey_status \<Rightarrow> string \<times> journey_status \<Rightarrow> string \<times> journey_status" where
  "set_journey i st x = (if fst x = i \<and> snd x = J_Active then (i, st) else x)"

definition put_journey :: "string \<Rightarrow> journey_status \<Rightarrow> string \<times> journey_status \<Rightarrow> string \<times> journey_status" where
  "put_journey i st x = (if fst x = i then (i, st) else x)"

text \<open>The status that an event gives to its step.\<close>

fun step_after :: "event_type \<Rightarrow> step_status option" where
  "step_after Ev_Step_Added = Some S_Pending"
| "step_after Ev_Step_Dispatched = Some S_Dispatched"
| "step_after Ev_Step_Running = Some S_Running"
| "step_after Ev_Step_Completed = Some S_Completed"
| "step_after Ev_Step_Blocked = Some S_Blocked"
| "step_after Ev_Step_Failed = Some S_Failed"
| "step_after _ = None"

fun silent_event :: "event_type \<Rightarrow> bool" where
  "silent_event Ev_Artifact_Added \<longleftrightarrow> True"
| "silent_event Ev_Step_Ready \<longleftrightarrow> True"
| "silent_event Ev_Step_Callback \<longleftrightarrow> True"
| "silent_event _ \<longleftrightarrow> False"

type_synonym journey_view = "(string \<times> string \<times> step_status) list \<times> (string \<times> journey_status) list \<times> event_row list"

definition journey_view_of :: "journey_db \<Rightarrow> journey_view" where
  "journey_view_of db = (steps_view db, journeys_view db, jd_events db)"

inductive journey_move :: "journey_view \<Rightarrow> journey_view \<Rightarrow> bool" where
  silent: "journey_move v v"
| noted: "silent_event (ev_type e) \<Longrightarrow> journey_move (ss, js, es) (ss, js, es @ [e])"
| created: "ev_journey e \<notin> fst ` set js \<Longrightarrow> ev_type e = Ev_Journey_Created \<Longrightarrow>
    journey_move (ss, js, es) (ss, js @ [(ev_journey e, J_Active)], es @ [e])"
| added: "i \<notin> fst ` set ss \<Longrightarrow> ev_type e = Ev_Step_Added \<Longrightarrow> ev_step e = Some i \<Longrightarrow>
    journey_move (ss, js, es) (ss @ [(i, ev_journey e, S_Pending)], js, es @ [e])"
| moved: "i \<in> fst ` set ss \<Longrightarrow> step_after (ev_type e) = Some st \<Longrightarrow> ev_type e \<noteq> Ev_Step_Added \<Longrightarrow> ev_step e = Some i \<Longrightarrow>
    journey_move (ss, js, es) (map (set_status i st) ss, js, es @ [e])"
| blocked: "ev_type e = Ev_Journey_Blocked \<Longrightarrow>
    journey_move (ss, js, es) (ss, map (set_journey (ev_journey e) J_Blocked) js, es @ [e])"
| completed: "(ev_journey e, J_Active) \<in> set js \<Longrightarrow>
    (\<And>i st. (i, ev_journey e, st) \<in> set ss \<Longrightarrow> st \<in> {S_Completed, S_Cancelled}) \<Longrightarrow>
    ev_type e = Ev_Journey_Completed \<Longrightarrow>
    journey_move (ss, js, es) (ss, map (put_journey (ev_journey e) J_Completed) js, es @ [e])"

definition journey_act :: "journey_db \<Rightarrow> journey_db \<Rightarrow> bool" where
  "journey_act db db' \<longleftrightarrow> journey_move (journey_view_of db) (journey_view_of db')"

section \<open>Operations follow the protocol\<close>

named_theorems view_simps \<open>what a write does to the views\<close>

lemma event_views [view_simps]:
  "steps_view (append_event j s ty v now db) = steps_view db"
  "journeys_view (append_event j s ty v now db) = journeys_view db"
  "jd_events (append_event j s ty v now db) =
     jd_events db @ [\<lparr>ev_journey = j, ev_step = s, ev_type = ty, ev_payload = v, ev_created = now\<rparr>]"
  "jd_steps (append_event j s ty v now db) = jd_steps db"
  by (simp_all add: append_event_def steps_view_def journeys_view_def)

lemma touch_views [view_simps]:
  "steps_view (touch_journey j now db) = steps_view db"
  "journeys_view (touch_journey j now db) = journeys_view db"
  "jd_events (touch_journey j now db) = jd_events db"
  "jd_steps (touch_journey j now db) = jd_steps db"
  by (auto simp: touch_journey_def steps_view_def journeys_view_def update_where_def)

lemma block_views [view_simps]:
  "steps_view (block_journey j now db) = steps_view db"
  "journeys_view (block_journey j now db) = map (set_journey j J_Blocked) (journeys_view db)"
  "jd_events (block_journey j now db) = jd_events db"
  by (auto simp: block_journey_def steps_view_def journeys_view_def update_where_def set_journey_def)

lemma write_views [view_simps]:
  "journeys_view (write_step i f db) = journeys_view db" "jd_events (write_step i f db) = jd_events db"
  by (simp_all add: write_step_def journeys_view_def)

lemma write_status:
  assumes "\<And>s. sp_id (f s) = sp_id s" and "\<And>s. sp_journey (f s) = sp_journey s" and "\<And>s. sp_status (f s) = st"
  shows "steps_view (write_step i f db) = map (set_status i st) (steps_view db)"
  using assms by (auto simp: write_step_def steps_view_def update_where_def set_status_def)

lemma write_same:
  assumes "\<And>s. sp_id (f s) = sp_id s" and "\<And>s. sp_journey (f s) = sp_journey s" and "\<And>s. sp_status (f s) = sp_status s"
  shows "steps_view (write_step i f db) = steps_view db"
  using assms by (auto simp: write_step_def steps_view_def update_where_def)

lemma with_step_acts:
  assumes "\<And>s. get_step i db = Some s \<Longrightarrow> journey_act\<^sup>*\<^sup>* db (act s db)"
  shows "journey_act\<^sup>*\<^sup>* db (snd (with_step i act db))"
  using assms by (auto simp: with_step_def Let_def split: option.split)

lemma get_step_view: "get_step i db = Some s \<Longrightarrow> i \<in> fst ` set (steps_view db)"
  by (force simp: get_step_def steps_view_def find_Some_iff)

lemma move_acts:
  assumes "get_step i db = Some s"
    and "\<And>s. sp_id (f s) = sp_id s" "\<And>s. sp_journey (f s) = sp_journey s" "\<And>s. sp_status (f s) = st"
    and "step_after ty = Some st" "ty \<noteq> Ev_Step_Added"
  shows "journey_act db (append_event (sp_journey s) (Some i) ty v now (write_step i f db))"
proof -
  let ?e = "\<lparr>ev_journey = sp_journey s, ev_step = Some i, ev_type = ty, ev_payload = v, ev_created = now\<rparr>"
  have "journey_move (steps_view db, journeys_view db, jd_events db)
      (map (set_status i st) (steps_view db), journeys_view db, jd_events db @ [?e])"
    by (rule journey_move.moved [OF get_step_view [OF assms(1)]]) (simp_all add: assms(5,6))
  then show ?thesis by (simp add: journey_act_def journey_view_of_def view_simps write_status [OF assms(2,3,4)])
qed

lemma same_act:
  "journey_act db db1 \<Longrightarrow> steps_view db' = steps_view db1 \<Longrightarrow> journeys_view db' = journeys_view db1 \<Longrightarrow>
    jd_events db' = jd_events db1 \<Longrightarrow> journey_act db db'"
  by (simp add: journey_act_def journey_view_of_def)

lemma silent_act:
  "steps_view db' = steps_view db \<Longrightarrow> journeys_view db' = journeys_view db \<Longrightarrow> jd_events db' = jd_events db \<Longrightarrow>
    journey_act db db'"
  by (simp add: journey_act_def journey_view_of_def journey_move.silent)

lemma note_act:
  assumes "steps_view db' = steps_view db" and "journeys_view db' = journeys_view db"
    and "jd_events db' = jd_events db @ [e]" and "silent_event (ev_type e)"
  shows "journey_act db db'"
  unfolding journey_act_def journey_view_of_def assms(1-3) by (rule journey_move.noted [OF assms(4)])

text \<open>Touching a journey after other writes is silent.\<close>

lemma acts_touch: "journey_act\<^sup>*\<^sup>* db db' \<Longrightarrow> journey_act\<^sup>*\<^sup>* db (touch_journey j now db')"
  by (rule rtranclp.rtrancl_into_rtrancl, assumption, rule silent_act) (simp_all add: view_simps)

lemma dispatch_acts: "journey_act\<^sup>*\<^sup>* db (snd (dispatch_step i d now db))"
  unfolding dispatch_step_def
proof (rule with_step_acts)
  fix s assume s: "get_step i db = Some s"
  have "journey_act db (append_event (sp_journey s) (Some i) Ev_Step_Dispatched (owner_payload s) now
      (write_step i (dispatched_row d now) db))"
    by (rule move_acts [OF s, where st = S_Dispatched]) (simp_all add: dispatched_row_def)
  then show "journey_act\<^sup>*\<^sup>* db (append_event (sp_journey s) (Some i) Ev_Step_Dispatched (owner_payload s) now
      (touch_journey (sp_journey s) now (write_step i (dispatched_row d now) db)))"
    by (intro r_into_rtranclp) (erule same_act, simp_all add: view_simps)
qed

lemma run_acts: "journey_act\<^sup>*\<^sup>* db (snd (run_step i d now db))"
  unfolding run_step_def
proof (rule with_step_acts)
  fix s assume s: "get_step i db = Some s"
  have "journey_act db (append_event (sp_journey s) (Some i) Ev_Step_Running (owner_payload s) now
      (write_step i (running_row d now) db))"
    by (rule move_acts [OF s, where st = S_Running]) (simp_all add: running_row_def)
  then show "journey_act\<^sup>*\<^sup>* db (append_event (sp_journey s) (Some i) Ev_Step_Running (owner_payload s) now
      (touch_journey (sp_journey s) now (write_step i (running_row d now) db)))"
    by (intro r_into_rtranclp) (erule same_act, simp_all add: view_simps)
qed

lemma wake_acts: "journey_act\<^sup>*\<^sup>* db (wake_ready j now s db)"
proof -
  have "journey_act db (append_event j (Some (sp_id s)) Ev_Step_Ready v now
      (write_step (sp_id s) (\<lambda>r. r\<lparr>sp_wake := Some now, sp_updated := now\<rparr>) db))" for v
    by (rule note_act [where e = "\<lparr>ev_journey = j, ev_step = Some (sp_id s), ev_type = Ev_Step_Ready, ev_payload = v, ev_created = now\<rparr>"])
      (simp_all add: view_simps write_same)
  then show ?thesis by (auto simp: wake_ready_def)
qed

lemma fold_acts: "(\<And>x db. x \<in> set xs \<Longrightarrow> journey_act\<^sup>*\<^sup>* db (f x db)) \<Longrightarrow> journey_act\<^sup>*\<^sup>* db (fold f xs db)"
proof (induction xs arbitrary: db)
  case (Cons x xs)
  then have "journey_act\<^sup>*\<^sup>* db (f x db)" and "journey_act\<^sup>*\<^sup>* (f x db) (fold f xs (f x db))" by auto
  then show ?case by simp
qed simp

lemma ready_acts: "journey_act\<^sup>*\<^sup>* db (ready_pending_dependents j now db)"
  by (auto simp: ready_pending_dependents_def Let_def intro: fold_acts wake_acts acts_touch)

lemma complete_acts: "journey_act\<^sup>*\<^sup>* db (snd (complete_step i v now db))"
  unfolding complete_step_def
proof (rule with_step_acts)
  fix s assume s: "get_step i db = Some s"
  have "journey_act db (append_event (sp_journey s) (Some i) Ev_Step_Completed v now (write_step i (completed_row v now) db))"
    by (rule move_acts [OF s, where st = S_Completed]) (simp_all add: completed_row_def)
  then show "journey_act\<^sup>*\<^sup>* db (ready_pending_dependents (sp_journey s) now (touch_journey (sp_journey s) now
      (append_event (sp_journey s) (Some i) Ev_Step_Completed v now (write_step i (completed_row v now) db))))"
    by (meson acts_touch r_into_rtranclp ready_acts rtranclp_trans)
qed

text \<open>Failing and blocking: the step moves, then its journey.\<close>

lemma stop_acts:
  fixes f :: "step_row \<Rightarrow> step_row"
  assumes s: "get_step i db = Some s"
    and f: "\<And>s. sp_id (f s) = sp_id s" "\<And>s. sp_journey (f s) = sp_journey s" "\<And>s. sp_status (f s) = st"
    and ty: "step_after ty = Some st" "ty \<noteq> Ev_Step_Added"
    and db': "steps_view db' = map (set_status i st) (steps_view db)"
      "journeys_view db' = map (set_journey (sp_journey s) J_Blocked) (journeys_view db)"
      "jd_events db' = jd_events db @
        [\<lparr>ev_journey = sp_journey s, ev_step = Some i, ev_type = ty, ev_payload = v, ev_created = now\<rparr>,
         \<lparr>ev_journey = sp_journey s, ev_step = None, ev_type = Ev_Journey_Blocked, ev_payload = v', ev_created = now\<rparr>]"
  shows "journey_act\<^sup>*\<^sup>* db db'"
proof -
  let ?mid = "append_event (sp_journey s) (Some i) ty v now (write_step i f db)"
  have "journey_act db ?mid" by (rule move_acts [OF s f ty])
  moreover have "journey_act ?mid db'"
    using journey_move.blocked [where e = "\<lparr>ev_journey = sp_journey s, ev_step = None, ev_type = Ev_Journey_Blocked,
        ev_payload = v', ev_created = now\<rparr>" and ss = "map (set_status i st) (steps_view db)"
        and js = "journeys_view db" and es = "jd_events ?mid"]
    by (simp add: journey_act_def journey_view_of_def db' view_simps write_status [OF f])
  ultimately show ?thesis by auto
qed

lemma fail_acts: "journey_act\<^sup>*\<^sup>* db (snd (fail_step i e now db))"
  unfolding fail_step_def
  by (rule with_step_acts, rule stop_acts [where f = "failed_row e now" and st = S_Failed and ty = Ev_Step_Failed])
    (simp_all add: failed_row_def blocked_event_def view_simps write_status [where st = S_Failed])

lemma block_acts: "journey_act\<^sup>*\<^sup>* db (snd (block_step i e now db))"
  unfolding block_step_def
  by (rule with_step_acts, rule stop_acts [where f = "blocked_row e now" and st = S_Blocked and ty = Ev_Step_Blocked])
    (simp_all add: blocked_row_def blocked_event_def view_simps write_status [where st = S_Blocked])

lemma callback_acts: "journey_act\<^sup>*\<^sup>* db (snd (record_step_callback i v now db))"
  unfolding record_step_callback_def
proof (rule with_step_acts, rule acts_touch, rule r_into_rtranclp)
  fix s
  show "journey_act db (append_event (sp_journey s) (Some i) Ev_Step_Callback v now db)"
    by (rule note_act [where e = "\<lparr>ev_journey = sp_journey s, ev_step = Some i, ev_type = Ev_Step_Callback,
        ev_payload = v, ev_created = now\<rparr>"]) (simp_all add: view_simps)
qed


lemma create_acts: "journey_act\<^sup>*\<^sup>* db (snd (create_journey i c s r x now db))"
proof (cases "list_ex (\<lambda>j. jn_id j = i) (jd_journeys db)")
  case False
  let ?e = "\<lparr>ev_journey = i, ev_step = None, ev_type = Ev_Journey_Created,
    ev_payload = JObj [(''surface'', JStr s)], ev_created = now\<rparr>"
  from False have "i \<notin> fst ` set (journeys_view db)" by (auto simp: journeys_view_def list_ex_iff)
  then have "journey_move (journey_view_of db) (steps_view db, journeys_view db @ [(i, J_Active)], jd_events db @ [?e])"
    using journey_move.created [where e = ?e] by (simp add: journey_view_of_def)
  then have "journey_act db (snd (create_journey i c s r x now db))"
    using False
    by (simp add: journey_act_def journey_view_of_def create_journey_def Let_def append_event_def steps_view_def journeys_view_def)
  then show ?thesis by (rule r_into_rtranclp)
qed (simp add: create_journey_def)

lemma add_step_acts: "journey_act\<^sup>*\<^sup>* db (snd (add_step i j inp now db))"
proof -
  let ?s = "new_step i j (next_sequence j db) inp now"
  let ?e = "\<lparr>ev_journey = j, ev_step = Some i, ev_type = Ev_Step_Added,
    ev_payload = JObj [(''owner'', JStr (si_owner inp)), (''title'', JStr (si_title inp))], ev_created = now\<rparr>"
  let ?db = "append_event j (Some i) Ev_Step_Added (ev_payload ?e) now (touch_journey j now (db\<lparr>jd_steps := jd_steps db @ [?s]\<rparr>))"
  have "journey_act db ?db" if "\<not> step_clash i j (si_key inp) db"
  proof -
    from that have "i \<notin> fst ` set (steps_view db)" by (auto simp: steps_view_def step_clash_def list_ex_iff)
    then have "journey_move (journey_view_of db) (steps_view db @ [(i, j, S_Pending)], journeys_view db, jd_events db @ [?e])"
      using journey_move.added [where e = ?e and i = i] by (simp add: journey_view_of_def)
    moreover have "steps_view (db\<lparr>jd_steps := jd_steps db @ [?s]\<rparr>) = steps_view db @ [(i, j, S_Pending)]"
      by (simp add: steps_view_def new_step_def)
    ultimately show ?thesis
      by (simp add: journey_act_def journey_view_of_def view_simps) (simp add: journeys_view_def)
  qed
  then show ?thesis by (auto simp: add_step_def Let_def split: option.splits)
qed

lemma add_artifact_acts: "journey_act\<^sup>*\<^sup>* db (snd (add_artifact i j inp now db))"
proof -
  have "journey_act db (append_event j (ai_step inp) Ev_Artifact_Added v now (touch_journey j now (db\<lparr>jd_artifacts := as\<rparr>)))" for v as
    by (rule note_act [where e = "\<lparr>ev_journey = j, ev_step = ai_step inp, ev_type = Ev_Artifact_Added,
        ev_payload = v, ev_created = now\<rparr>"]) (simp_all add: view_simps, simp_all add: steps_view_def journeys_view_def)
  then show ?thesis by (auto simp: add_artifact_def Let_def split: option.splits)
qed

lemma update_artifact_acts: "journey_act\<^sup>*\<^sup>* db (snd (update_artifact_data j k v now db))"
proof -
  have "journey_act db (touch_journey j now (db\<lparr>jd_artifacts := as\<rparr>))" for as
    by (rule silent_act) (simp_all add: view_simps, simp_all add: steps_view_def journeys_view_def)
  then show ?thesis by (auto simp: update_artifact_data_def Let_def split: option.splits)
qed

lemma complete_journey_acts: "journey_act\<^sup>*\<^sup>* db (snd (complete_journey_if_ready j now db))"
proof (cases "fst (complete_journey_if_ready j now db)")
  case True
  let ?e = "\<lparr>ev_journey = j, ev_step = None, ev_type = Ev_Journey_Completed, ev_payload = JObj [], ev_created = now\<rparr>"
  from True obtain r where r: "get_journey j db = Some r" "jn_status r = J_Active"
    and fin: "count_where (\<lambda>s. sp_journey s = j \<and> sp_status s \<notin> {S_Completed, S_Cancelled}) (jd_steps db) = 0"
    by (auto simp: complete_journey_if_ready_def split: option.splits if_splits)
  from r have 1: "(j, J_Active) \<in> set (journeys_view db)"
    by (force simp: get_journey_def journeys_view_def find_Some_iff)
  from fin have 2: "st \<in> {S_Completed, S_Cancelled}" if "(i, j, st) \<in> set (steps_view db)" for i st
    using that by (auto simp: count_where_def steps_view_def filter_empty_conv)
  let ?js = "update_where (\<lambda>j'. jn_id j' = j)
    (\<lambda>j. j\<lparr>jn_status := J_Completed, jn_completed := Some now, jn_updated := now\<rparr>) (jd_journeys db)"
  have 3: "journeys_view (db\<lparr>jd_journeys := ?js\<rparr>) = map (put_journey j J_Completed) (journeys_view db)"
    by (simp add: journeys_view_def update_where_def put_journey_def)
  have "journey_move (journey_view_of db)
      (steps_view db, map (put_journey j J_Completed) (journeys_view db), jd_events db @ [?e])"
    using 1 2 journey_move.completed [where e = ?e and ss = "steps_view db" and js = "journeys_view db" and es = "jd_events db"]
    by (simp add: journey_view_of_def)
  moreover have "snd (complete_journey_if_ready j now db) =
      append_event j None Ev_Journey_Completed (JObj []) now (db\<lparr>jd_journeys := ?js\<rparr>)"
    using r fin by (simp add: complete_journey_if_ready_def)
  ultimately have "journey_act db (snd (complete_journey_if_ready j now db))"
    using 3 by (simp add: journey_act_def journey_view_of_def view_simps) (simp add: steps_view_def)
  then show ?thesis by (rule r_into_rtranclp)
qed (auto simp: complete_journey_if_ready_def split: option.splits if_splits)

lemma lease_views: "journey_act db (lease_step now ms i db)"
  by (rule silent_act) (auto simp: lease_step_def steps_view_def journeys_view_def update_where_def)

lemma claim_acts: "journey_act\<^sup>*\<^sup>* db (snd (claim_due_steps now ms n db))"
  by (auto simp: claim_due_steps_def Let_def intro: fold_acts lease_views)

lemma block_overdue_acts: "journey_act\<^sup>*\<^sup>* db (block_overdue_steps clock now n db)"
  unfolding block_overdue_steps_def by (rule fold_acts) (simp add: block_acts)

lemma journey_step_acts: "journey_act\<^sup>*\<^sup>* db (journey_step clock m db)"
  by (cases "(clock, m, db)" rule: journey_step.cases)
    (simp_all add: create_acts add_step_acts add_artifact_acts update_artifact_acts dispatch_acts run_acts complete_acts
      complete_journey_acts fail_acts callback_acts block_acts ready_acts block_overdue_acts claim_acts)

interpretation journey_ops: operations "journey_step clock" journey_act for clock
  by unfold_locales (rule journey_step_acts)

section \<open>The log determines the statuses\<close>

definition replay_step_event :: "event_row \<Rightarrow> (string \<Rightarrow> step_status option) \<Rightarrow> string \<Rightarrow> step_status option" where
  "replay_step_event e m =
     (case (ev_step e, step_after (ev_type e)) of (Some i, Some st) \<Rightarrow> m(i \<mapsto> st) | _ \<Rightarrow> m)"

definition replay_steps :: "event_row list \<Rightarrow> string \<Rightarrow> step_status option" where
  "replay_steps es = fold replay_step_event es Map.empty"

definition replay_journey_event :: "event_row \<Rightarrow> (string \<Rightarrow> journey_status option) \<Rightarrow> string \<Rightarrow> journey_status option" where
  "replay_journey_event e m =
     (if ev_type e = Ev_Journey_Created then m(ev_journey e \<mapsto> J_Active)
      else if ev_type e = Ev_Journey_Completed then m(ev_journey e \<mapsto> J_Completed)
      else if ev_type e = Ev_Journey_Blocked \<and> m (ev_journey e) = Some J_Active then m(ev_journey e \<mapsto> J_Blocked)
      else m)"

definition replay_journeys :: "event_row list \<Rightarrow> string \<Rightarrow> journey_status option" where
  "replay_journeys es = fold replay_journey_event es Map.empty"

lemma replay_snoc [simp]:
  "replay_steps (es @ [e]) = replay_step_event e (replay_steps es)"
  "replay_journeys (es @ [e]) = replay_journey_event e (replay_journeys es)"
  by (simp_all add: replay_steps_def replay_journeys_def)

text \<open>
  Every completion in the log was earned: the journey was active, and every step that had been added to it
  was completed or cancelled.
\<close>

definition earned :: "event_row list \<Rightarrow> bool" where
  "earned es \<longleftrightarrow>
     (\<forall>before e after. es = before @ e # after \<and> ev_type e = Ev_Journey_Completed \<longrightarrow>
        replay_journeys before (ev_journey e) = Some J_Active \<and>
        (\<forall>a \<in> set before. ev_type a = Ev_Step_Added \<and> ev_journey a = ev_journey e \<longrightarrow>
           (\<exists>i. ev_step a = Some i \<and> replay_steps before i \<in> {Some S_Completed, Some S_Cancelled})))"

lemma earned_snoc:
  assumes "earned es"
    and "ev_type e = Ev_Journey_Completed \<Longrightarrow> replay_journeys es (ev_journey e) = Some J_Active \<and>
        (\<forall>a \<in> set es. ev_type a = Ev_Step_Added \<and> ev_journey a = ev_journey e \<longrightarrow>
           (\<exists>i. ev_step a = Some i \<and> replay_steps es i \<in> {Some S_Completed, Some S_Cancelled}))"
  shows "earned (es @ [e])"
  unfolding earned_def
proof (intro allI impI, elim conjE)
  fix before x after assume split: "es @ [e] = before @ x # after" and x: "ev_type x = Ev_Journey_Completed"
  show "replay_journeys before (ev_journey x) = Some J_Active \<and>
      (\<forall>a \<in> set before. ev_type a = Ev_Step_Added \<and> ev_journey a = ev_journey x \<longrightarrow>
         (\<exists>i. ev_step a = Some i \<and> replay_steps before i \<in> {Some S_Completed, Some S_Cancelled}))"
  proof (cases after rule: rev_cases)
    case Nil
    with split have "before = es" "x = e" by simp_all
    with assms(2) x show ?thesis by simp
  next
    case (snoc after' y)
    with split have "es = before @ x # after'" by simp
    with assms(1) x show ?thesis unfolding earned_def by blast
  qed
qed

definition log_inv :: "journey_view \<Rightarrow> bool" where
  "log_inv v \<longleftrightarrow>
     (case v of (ss, js, es) \<Rightarrow>
        distinct (map fst ss) \<and> distinct (map fst js) \<and>
        replay_steps es = map_of (map (\<lambda>(i, j, st). (i, st)) ss) \<and> replay_journeys es = map_of js \<and>
        (\<forall>a \<in> set es. ev_type a = Ev_Step_Added \<longrightarrow> (\<exists>i st. ev_step a = Some i \<and> (i, ev_journey a, st) \<in> set ss)) \<and>
        earned es)"

lemma map_of_set_status:
  "map_of (map (\<lambda>(i, j, st). (i, st)) (map (set_status k st') ss)) =
     (\<lambda>x. if x = k \<and> k \<in> fst ` set ss then Some st' else map_of (map (\<lambda>(i, j, st). (i, st)) ss) x)"
  by (induction ss) (auto simp: set_status_def fun_eq_iff split: prod.splits)

lemma map_of_set_journey:
  "distinct (map fst js) \<Longrightarrow> map_of (map (set_journey k st) js) =
     (if map_of js k = Some J_Active then (map_of js)(k \<mapsto> st) else map_of js)"
  by (induction js) (auto simp: set_journey_def fun_eq_iff map_of_eq_None_iff split: if_splits)

lemma map_of_put_journey: "map_of (map (put_journey k st) js) = (if k \<in> fst ` set js then (map_of js)(k \<mapsto> st) else map_of js)"
proof
  fix x
  show "map_of (map (put_journey k st) js) x = (if k \<in> fst ` set js then (map_of js)(k \<mapsto> st) else map_of js) x"
    by (induction js) (auto simp: put_journey_def)
qed

lemma fst_keeps [simp]:
  "fst \<circ> set_status k st = fst" "fst \<circ> set_journey k st' = fst" "fst \<circ> put_journey k st' = fst"
  by (auto simp: set_status_def set_journey_def put_journey_def fun_eq_iff)

lemma moved_replay:
  "step_after (ev_type e) = Some st \<Longrightarrow> ev_step e = Some i \<Longrightarrow> replay_step_event e m = m(i \<mapsto> st)"
  "step_after (ev_type e) = None \<Longrightarrow> replay_step_event e m = m"
  by (auto simp: replay_step_event_def split: option.splits)

lemma quiet_journey_replay:
  "ev_type e \<notin> {Ev_Journey_Created, Ev_Journey_Completed, Ev_Journey_Blocked} \<Longrightarrow> replay_journey_event e m = m"
  by (simp add: replay_journey_event_def)

lemma silent_type: "silent_event t \<Longrightarrow> step_after t = None \<and>
    t \<notin> {Ev_Journey_Created, Ev_Journey_Completed, Ev_Journey_Blocked, Ev_Step_Added}"
  by (cases t) auto

lemma step_type: "step_after t = Some st \<Longrightarrow> t \<notin> {Ev_Journey_Created, Ev_Journey_Completed, Ev_Journey_Blocked}"
  by (cases t) auto

text \<open>A log that gains an event other than a completion or a new step.\<close>

lemma log_inv_snoc:
  assumes "log_inv (ss, js, es)"
    and "map (\<lambda>(i, j, st). (i, j)) ss' = map (\<lambda>(i, j, st). (i, j)) ss" and "map fst js' = map fst js \<or> distinct (map fst js')"
    and "replay_step_event e (replay_steps es) = map_of (map (\<lambda>(i, j, st). (i, st)) ss')"
    and "replay_journey_event e (replay_journeys es) = map_of js'"
    and "ev_type e \<noteq> Ev_Step_Added" and "earned (es @ [e])"
  shows "log_inv (ss', js', es @ [e])"
proof -
  have ids: "map fst ss' = map fst ss"
    using arg_cong [OF assms(2), of "map fst"] by (simp add: comp_def case_prod_unfold)
  have "\<exists>st. (i, j, st) \<in> set ss'" if "(i, j, st) \<in> set ss" for i j st
  proof -
    from that have "(i, j) \<in> set (map (\<lambda>(i, j, st). (i, j)) ss)" by force
    then show ?thesis unfolding assms(2) [symmetric] by auto
  qed
  with assms ids show ?thesis by (auto simp: log_inv_def)
qed

lemma map_of_snoc: "k \<notin> fst ` set xs \<Longrightarrow> map_of (xs @ [(k, v)]) = (map_of xs)(k \<mapsto> v)"
  by (induction xs) (auto simp: fun_eq_iff)

lemma set_status_pairs: "map (\<lambda>(i, j, st). (i, j)) (map (set_status k st') ss) = map (\<lambda>(i, j, st). (i, j)) ss"
  by (auto simp: set_status_def)

lemma move_log_inv: "journey_move v v' \<Longrightarrow> log_inv v \<Longrightarrow> log_inv v'"
proof (induction rule: journey_move.induct)
  case (silent v)
  then show ?case .
next
  case (noted e ss js es)
  have "earned (es @ [e])"
    by (rule earned_snoc) (use noted silent_type [OF noted(1)] in \<open>auto simp: log_inv_def\<close>)
  with noted silent_type [OF noted(1)] show ?case
    by (intro log_inv_snoc [where ss = ss and js = js]) (auto simp: log_inv_def moved_replay quiet_journey_replay)
next
  case (created e js ss es)
  have "earned (es @ [e])" by (rule earned_snoc) (use created in \<open>auto simp: log_inv_def\<close>)
  then show ?case using created
    by (intro log_inv_snoc [where ss = ss and js = js])
      (auto simp: log_inv_def moved_replay replay_journey_event_def map_of_snoc simp del: map_of_append)
next
  case (added i ss e js es)
  have "earned (es @ [e])" by (rule earned_snoc) (use added in \<open>auto simp: log_inv_def\<close>)
  moreover have "map_of (map (\<lambda>(i, j, st). (i, st)) (ss @ [(i, ev_journey e, S_Pending)])) =
      (map_of (map (\<lambda>(i, j, st). (i, st)) ss))(i \<mapsto> S_Pending)"
  proof -
    have "i \<notin> fst ` set (map (\<lambda>(i, j, st). (i, st)) ss)" using added(1) by (force simp: image_iff)
    from map_of_snoc [OF this] show ?thesis by simp
  qed
  moreover have "replay_step_event e m = m(i \<mapsto> S_Pending)" for m using added by (simp add: moved_replay)
  ultimately show ?case using added
    unfolding log_inv_def by (auto simp: quiet_journey_replay) blast
next
  case (moved i ss e st js es)
  have "earned (es @ [e])" by (rule earned_snoc) (use moved step_type [OF moved(2)] in \<open>auto simp: log_inv_def\<close>)
  moreover have "map_of (map (\<lambda>(i, j, st). (i, st)) (map (set_status i st) ss)) =
      (map_of (map (\<lambda>(i, j, st). (i, st)) ss))(i \<mapsto> st)"
    unfolding map_of_set_status using moved(1) by (simp add: fun_eq_iff)
  ultimately show ?case using moved step_type [OF moved(2)]
    by (intro log_inv_snoc [where ss = ss and js = js, OF _ set_status_pairs])
      (simp_all add: log_inv_def moved_replay quiet_journey_replay)
next
  case (blocked e ss js es)
  have "earned (es @ [e])" by (rule earned_snoc) (use blocked in \<open>auto simp: log_inv_def\<close>)
  with blocked show ?case
    by (intro log_inv_snoc [where ss = ss and js = js])
      (auto simp: log_inv_def moved_replay replay_journey_event_def map_of_set_journey)
next
  case (completed e js ss es)
  have "earned (es @ [e])"
  proof (rule earned_snoc)
    show "earned es" using completed(4) by (simp add: log_inv_def)
    assume "ev_type e = Ev_Journey_Completed"
    have "\<exists>i. ev_step a = Some i \<and> replay_steps es i \<in> {Some S_Completed, Some S_Cancelled}"
      if a: "a \<in> set es" "ev_type a = Ev_Step_Added" "ev_journey a = ev_journey e" for a
    proof -
      from completed(4) a obtain i st where i: "ev_step a = Some i" "(i, ev_journey e, st) \<in> set ss"
        by (auto simp: log_inv_def)
      then have "(i, st) \<in> set (map (\<lambda>(i, j, st). (i, st)) ss)" by force
      with completed(4) have "replay_steps es i = Some st"
        by (auto simp: log_inv_def comp_def case_prod_unfold intro!: map_of_is_SomeI)
      with i completed(2) show ?thesis by auto
    qed
    with completed(1,4) show "replay_journeys es (ev_journey e) = Some J_Active \<and>
        (\<forall>a \<in> set es. ev_type a = Ev_Step_Added \<and> ev_journey a = ev_journey e \<longrightarrow>
           (\<exists>i. ev_step a = Some i \<and> replay_steps es i \<in> {Some S_Completed, Some S_Cancelled}))"
      by (auto simp: log_inv_def)
  qed
  moreover have "ev_journey e \<in> fst ` set js" using completed(1) by force
  ultimately show ?case using completed
    by (intro log_inv_snoc [where ss = ss and js = js])
      (auto simp: log_inv_def moved_replay replay_journey_event_def map_of_put_journey)
qed

interpretation journey_log: protocol_invariant journey_act "\<lambda>db. log_inv (journey_view_of db)"
  by unfold_locales (auto simp: journey_act_def intro: move_log_inv)

end
