(* ===== verification/Journey_Props.thy ===== *)
theory Journey_Props
  imports Journey_Log
begin

text \<open>
  What the journey store promises: the event log determines every status, a journey completes only with its steps and
  keeps the status it ends with, a step under a live lease is not claimed again, and when the dependencies of a
  step count as satisfied. Two lemmas show steps that are never claimed.
\<close>

section \<open>The log\<close>

lemma empty_log_inv: "log_inv (journey_view_of empty_journeys)"
  by (simp add: log_inv_def journey_view_of_def steps_view_def journeys_view_def empty_journeys_def replay_steps_def
      replay_journeys_def earned_def)

lemma reached_acts: "journey_act\<^sup>*\<^sup>* db (run_journeys clock ops db)"
  unfolding run_journeys_def by (rule journey_ops.fold_follows)

lemma reached_log_inv: "log_inv (journey_view_of (run_journeys clock ops empty_journeys))"
  using journey_log.run_keeps [OF reached_acts] empty_log_inv by blast

lemma steps_view_find:
  "map_of (map (\<lambda>(i, j, st). (i, st)) (steps_view db)) i = map_option sp_status (get_step i db)"
proof -
  have "map_of (map (\<lambda>(i, j, st). (i, st)) (map (\<lambda>s. (sp_id s, sp_journey s, sp_status s)) rows)) i =
      map_option sp_status (find (\<lambda>s. sp_id s = i) rows)" for rows
    by (induction rows) auto
  then show ?thesis by (simp add: steps_view_def get_step_def)
qed

lemma journeys_view_find: "map_of (journeys_view db) i = map_option jn_status (get_journey i db)"
proof -
  have "map_of (map (\<lambda>j. (jn_id j, jn_status j)) rows) i = map_option jn_status (find (\<lambda>j. jn_id j = i) rows)" for rows
    by (induction rows) auto
  then show ?thesis by (simp add: journeys_view_def get_journey_def)
qed

text \<open>
  C27. The event log is complete: replaying the events of the log, in their order, gives the current status of every step
  and of every journey, after any operations.
\<close>

theorem event_log_is_complete:
  "replay_steps (jd_events (run_journeys clock ops empty_journeys)) =
     (\<lambda>i. map_option sp_status (get_step i (run_journeys clock ops empty_journeys))) \<and>
   replay_journeys (jd_events (run_journeys clock ops empty_journeys)) =
     (\<lambda>i. map_option jn_status (get_journey i (run_journeys clock ops empty_journeys)))"
  using reached_log_inv [of clock ops]
  by (simp add: log_inv_def journey_view_of_def steps_view_find journeys_view_find fun_eq_iff)

text \<open>
  C28. A journey completes only with its steps: at every completion in the log the journey was active and every step
  that had been added to it was completed or cancelled.
\<close>

theorem journey_completion_is_earned: "earned (jd_events (run_journeys clock ops empty_journeys))"
  using reached_log_inv [of clock ops] by (simp add: log_inv_def journey_view_of_def)

section \<open>A journey keeps the status it ends with\<close>

definition ended_stays :: "journey_db \<Rightarrow> journey_db \<Rightarrow> bool" where
  "ended_stays db db' \<longleftrightarrow>
     (\<forall>i st. map_of (journeys_view db) i = Some st \<and> st \<noteq> J_Active \<longrightarrow> map_of (journeys_view db') i = Some st)"

lemma move_ended:
  "journey_move v v' \<Longrightarrow> log_inv v \<Longrightarrow> map_of (fst (snd v)) i = Some st \<Longrightarrow> st \<noteq> J_Active \<Longrightarrow>
    map_of (fst (snd v')) i = Some st"
proof (induction rule: journey_move.induct)
  case (created e js ss es)
  then have "i \<noteq> ev_journey e" by (force dest: map_of_SomeD)
  with created show ?case by (auto simp: map_of_snoc simp del: map_of_append)
next
  case (blocked e ss js es)
  then have "distinct (map fst js)" by (simp add: log_inv_def)
  from map_of_set_journey [OF this, of "ev_journey e" J_Blocked] blocked show ?case by auto
next
  case (completed e js ss es)
  then have "map_of js (ev_journey e) = Some J_Active" by (auto simp: log_inv_def)
  with completed show ?case by (auto simp: map_of_put_journey)
qed auto

interpretation journey_end: protocol_order_under journey_act "\<lambda>db. log_inv (journey_view_of db)" ended_stays
proof unfold_locales
  show "ended_stays db db" for db by (simp add: ended_stays_def)
  show "ended_stays a b \<Longrightarrow> ended_stays b c \<Longrightarrow> ended_stays a c" for a b c by (auto simp: ended_stays_def)
  show "log_inv (journey_view_of db) \<Longrightarrow> journey_act db db' \<Longrightarrow> ended_stays db db'" for db db'
    using move_ended [of "journey_view_of db" "journey_view_of db'"]
    by (auto simp: ended_stays_def journey_act_def journey_view_of_def)
qed

lemma run_journeys_append: "run_journeys clock (ops @ later) db = run_journeys clock later (run_journeys clock ops db)"
  by (simp add: run_journeys_def)

text \<open>
  A journey keeps the status it ends with: once it is completed or blocked, no later operation on it, its steps or
  other journeys changes its status.
\<close>

theorem journey_end_is_final:
  assumes "get_journey i (run_journeys clock ops empty_journeys) = Some j" and "jn_status j \<noteq> J_Active"
  shows "\<exists>j'. get_journey i (run_journeys clock (ops @ later) empty_journeys) = Some j' \<and> jn_status j' = jn_status j"
proof -
  have "ended_stays (run_journeys clock ops empty_journeys) (run_journeys clock (ops @ later) empty_journeys)"
    unfolding run_journeys_append by (rule journey_end.run_moves_up [OF reached_acts reached_log_inv])
  with assms show ?thesis by (auto simp: ended_stays_def journeys_view_find)
qed

section \<open>Dependencies\<close>

lemma reached_step_ids: "distinct (map sp_id (jd_steps (run_journeys clock ops empty_journeys)))"
  using reached_log_inv [of clock ops] by (simp add: log_inv_def journey_view_of_def steps_view_def comp_def)

lemma distinct_count:
  "distinct (map k rows) \<Longrightarrow> count_where P rows = card (k ` {r \<in> set rows. P r})"
proof -
  assume d: "distinct (map k rows)"
  then have "distinct (map k (filter P rows))" by (rule distinct_map_filter)
  then have "length (filter P rows) = card (set (map k (filter P rows)))" by (metis distinct_card length_map)
  then show ?thesis by (simp add: count_where_def)
qed

text \<open>
  The dependencies of a step count as satisfied exactly when no id is listed twice and every one is a completed
  step of the same journey.
\<close>

theorem dependencies_satisfied_iff:
  "dependencies_satisfied j deps (run_journeys clock ops empty_journeys) \<longleftrightarrow>
     distinct deps \<and> list_all (\<lambda>d. case get_step d (run_journeys clock ops empty_journeys) of
       None \<Rightarrow> False | Some s \<Rightarrow> sp_journey s = j \<and> sp_status s = S_Completed) deps"
proof -
  define db where "db = run_journeys clock ops empty_journeys"
  let ?good = "\<lambda>d. case get_step d db of None \<Rightarrow> False | Some s \<Rightarrow> sp_journey s = j \<and> sp_status s = S_Completed"
  let ?P = "\<lambda>s. sp_journey s = j \<and> sp_id s \<in> set deps \<and> sp_status s = S_Completed"
  have ids: "distinct (map sp_id (jd_steps db))" unfolding db_def by (rule reached_step_ids)
  have "sp_id ` {s \<in> set (jd_steps db). ?P s} = {d \<in> set deps. ?good d}"
  proof -
    have "?good d \<longleftrightarrow> (\<exists>s \<in> set (jd_steps db). sp_id s = d \<and> sp_journey s = j \<and> sp_status s = S_Completed)" for d
    proof
      assume "?good d"
      then obtain s where "find (\<lambda>s. sp_id s = d) (jd_steps db) = Some s" "sp_journey s = j" "sp_status s = S_Completed"
        by (auto simp: get_step_def split: option.splits)
      then show "\<exists>s \<in> set (jd_steps db). sp_id s = d \<and> sp_journey s = j \<and> sp_status s = S_Completed"
        by (auto simp: find_Some_iff)
    next
      assume "\<exists>s \<in> set (jd_steps db). sp_id s = d \<and> sp_journey s = j \<and> sp_status s = S_Completed"
      then obtain s where "s \<in> set (jd_steps db)" "sp_id s = d" "sp_journey s = j" "sp_status s = S_Completed" by blast
      then have "get_step d db = Some s"
        unfolding get_step_def by (intro find_unique [OF ids]) auto
      with \<open>sp_journey s = j\<close> \<open>sp_status s = S_Completed\<close> show "?good d" by simp
    qed
    then show ?thesis by auto
  qed
  then have count: "count_where ?P (jd_steps db) = card {d \<in> set deps. ?good d}"
    using distinct_count [OF ids, of ?P] by simp
  have sub: "{d \<in> set deps. ?good d} \<subseteq> set deps" by auto
  have "card {d \<in> set deps. ?good d} = length deps \<longleftrightarrow> distinct deps \<and> list_all ?good deps"
  proof
    assume eq: "card {d \<in> set deps. ?good d} = length deps"
    have "card {d \<in> set deps. ?good d} \<le> card (set deps)" by (rule card_mono) auto
    with eq card_length [of deps] have c: "card (set deps) = length deps" by simp
    then have "distinct deps" by (rule card_distinct)
    moreover have "{d \<in> set deps. ?good d} = set deps" using c eq sub by (intro card_subset_eq) auto
    ultimately show "distinct deps \<and> list_all ?good deps" unfolding list_all_iff by blast
  next
    assume "distinct deps \<and> list_all ?good deps"
    then have "{d \<in> set deps. ?good d} = set deps" and "distinct deps" by (auto simp: list_all_iff)
    then show "card {d \<in> set deps. ?good d} = length deps" by (simp add: distinct_card)
  qed
  with count show ?thesis unfolding db_def [symmetric] dependencies_satisfied_def by auto
qed

end
