(* ===== verification/Journey_Claims.thy ===== *)
theory Journey_Claims
  imports Journey_Props
begin

text \<open>
  Claims of the journey store: until the lease of a claimed step ends, no other claim returns the step, whatever happens
  in between, unless the step is settled and then dispatched or run again.
\<close>

section \<open>What keeps a lease\<close>

text \<open>\<open>held_row b u r\<close>: the lease of the row runs until \<open>u\<close> or, if \<open>b\<close>, the row is settled.\<close>

definition held_row :: "bool \<Rightarrow> int \<Rightarrow> step_row \<Rightarrow> bool" where
  "held_row b u r \<longleftrightarrow>
     (\<exists>l. sp_lease r = Some l \<and> u \<le> l) \<or> (b \<and> sp_status r \<in> {S_Completed, S_Blocked, S_Failed})"

definition held_step :: "bool \<Rightarrow> int \<Rightarrow> string \<Rightarrow> journey_db \<Rightarrow> bool" where
  "held_step b u i db \<longleftrightarrow>
     (\<exists>r \<in> set (jd_steps db). sp_id r = i) \<and> (\<forall>r \<in> set (jd_steps db). sp_id r = i \<longrightarrow> held_row b u r)"

fun settles :: "string \<Rightarrow> journey_op \<Rightarrow> bool" where
  "settles i (Jo_Complete k v) = (k = i)"
| "settles i (Jo_Fail k e) = (k = i)"
| "settles i (Jo_Block k e) = (k = i)"
| "settles i (Jo_Block_Overdue n) = True"
| "settles i op = False"

fun opens :: "string \<Rightarrow> journey_op \<Rightarrow> bool" where
  "opens i (Jo_Dispatch k d) = (k = i)"
| "opens i (Jo_Run k d) = (k = i)"
| "opens i op = False"

fun never_reopened :: "string \<Rightarrow> bool \<Rightarrow> (int \<times> journey_op) list \<Rightarrow> bool" where
  "never_reopened i b [] = True"
| "never_reopened i b ((t, op) # ops) = (\<not> (b \<and> opens i op) \<and> never_reopened i (b \<or> settles i op) ops)"

fun forward_lease :: "int \<times> journey_op \<Rightarrow> bool" where
  "forward_lease (t, Jo_Claim ms n) = (0 \<le> ms)"
| "forward_lease (t, op) = True"

section \<open>Operations\<close>

lemma held_cong: "jd_steps db' = jd_steps db \<Longrightarrow> held_step b u i db' = held_step b u i db"
  by (simp add: held_step_def)

lemma quiet_steps [simp]:
  "jd_steps (append_event j s ty v now db) = jd_steps db" "jd_steps (touch_journey j now db) = jd_steps db"
  "jd_steps (block_journey j now db) = jd_steps db" "jd_steps (blocked_event j k e now db) = jd_steps db"
  by (simp_all add: append_event_def touch_journey_def block_journey_def blocked_event_def)

lemma quiet_held [simp]:
  "held_step b u i (append_event j s ty v now db) = held_step b u i db"
  "held_step b u i (touch_journey j now db) = held_step b u i db"
  "held_step b u i (block_journey j now db) = held_step b u i db"
  "held_step b u i (blocked_event j k e now db) = held_step b u i db"
  by (simp_all add: held_step_def)

lemma held_update:
  fixes f :: "step_row \<Rightarrow> step_row"
  assumes "held_step b u i db" and "jd_steps db' = update_where p f (jd_steps db)" and "\<And>r. sp_id (f r) = sp_id r"
    and "\<And>r. sp_id r = i \<Longrightarrow> p r \<Longrightarrow> held_row b u r \<Longrightarrow> held_row b u (f r)"
  shows "held_step b u i db'"
proof -
  have "\<exists>r \<in> set (jd_steps db'). sp_id r = i"
  proof -
    from assms(1) obtain r where "r \<in> set (jd_steps db)" "sp_id r = i" by (auto simp: held_step_def)
    then have "(if p r then f r else r) \<in> set (jd_steps db')" by (auto simp: assms(2) update_where_def)
    with \<open>sp_id r = i\<close> assms(3) show ?thesis by (metis (full_types))
  qed
  moreover have "held_row b u q" if "q \<in> set (jd_steps db')" and "sp_id q = i" for q
    using that assms by (auto simp: held_step_def update_where_def split: if_splits)
  ultimately show ?thesis by (simp add: held_step_def)
qed

lemma held_write:
  fixes f :: "step_row \<Rightarrow> step_row"
  assumes "held_step b u i db" and "\<And>r. sp_id (f r) = sp_id r"
    and "\<And>r. k = i \<Longrightarrow> sp_id r = i \<Longrightarrow> held_row b u r \<Longrightarrow> held_row b u (f r)"
  shows "held_step b u i (write_step k f db)"
  by (rule held_update [where p = "\<lambda>s. sp_id s = k" and f = f]) (auto simp: write_step_def assms)

lemma held_with_step:
  assumes "held_step b u i db" and "\<And>s. sp_id s = k \<Longrightarrow> held_step b u i (act s db)"
  shows "held_step b u i (snd (with_step k act db))"
  using assms by (auto simp: with_step_def get_step_def Let_def find_Some_iff split: option.splits)

lemma held_settled: "held_step b u i db \<Longrightarrow> held_step (b \<or> c) u i db"
  by (auto simp: held_step_def held_row_def)

lemma held_lease: "held_step b u i db \<Longrightarrow> 0 \<le> ms \<Longrightarrow> held_step b u i (lease_step now ms k db)"
  by (rule held_update [where p = "\<lambda>s. sp_id s = k \<and> passed now (sp_lease s)" and
        f = "\<lambda>s. s\<lparr>sp_lease := Some (now + ms), sp_attempts := sp_attempts s + 1, sp_updated := now\<rparr>"])
    (auto simp: lease_step_def held_row_def passed_def)

lemma held_wake: "held_step b u i db \<Longrightarrow> held_step b u i (wake_ready j now s db)"
  by (auto simp: wake_ready_def held_row_def intro!: held_write)

lemma held_fold: "held_step b u i db \<Longrightarrow> (\<And>x db. held_step b u i db \<Longrightarrow> held_step b u i (f x db)) \<Longrightarrow>
    held_step b u i (fold f xs db)"
  by (induction xs arbitrary: db) auto

lemma held_ready: "held_step b u i db \<Longrightarrow> held_step b u i (ready_pending_dependents j now db)"
  by (auto simp: ready_pending_dependents_def Let_def intro: held_fold held_wake)

lemma held_dispatch: "held_step b u i db \<Longrightarrow> \<not> (b \<and> k = i) \<Longrightarrow> held_step b u i (snd (dispatch_step k d now db))"
  unfolding dispatch_step_def by (rule held_with_step) (auto simp: dispatched_row_def held_row_def intro!: held_write)

lemma held_running: "held_step b u i db \<Longrightarrow> \<not> (b \<and> k = i) \<Longrightarrow> held_step b u i (snd (run_step k d now db))"
  unfolding run_step_def by (rule held_with_step) (auto simp: running_row_def held_row_def intro!: held_write)

lemma held_complete: "held_step b u i db \<Longrightarrow> k = i \<longrightarrow> b \<Longrightarrow> held_step b u i (snd (complete_step k v now db))"
  unfolding complete_step_def
  by (rule held_with_step) (auto simp: completed_row_def held_row_def intro!: held_write held_ready)

lemma held_fail: "held_step b u i db \<Longrightarrow> k = i \<longrightarrow> b \<Longrightarrow> held_step b u i (snd (fail_step k e now db))"
  unfolding fail_step_def by (rule held_with_step) (auto simp: failed_row_def held_row_def intro!: held_write)

lemma held_block: "held_step b u i db \<Longrightarrow> k = i \<longrightarrow> b \<Longrightarrow> held_step b u i (snd (block_step k e now db))"
  unfolding block_step_def by (rule held_with_step) (auto simp: blocked_row_def held_row_def intro!: held_write)

lemma held_overdue: "held_step b u i db \<Longrightarrow> b \<Longrightarrow> held_step b u i (block_overdue_steps clock now n db)"
  unfolding block_overdue_steps_def by (erule held_fold) (simp add: held_block)

lemma held_add: "held_step b u i db \<Longrightarrow> held_step b u i (snd (add_step k j inp now db))"
  by (force simp: add_step_def held_step_def step_clash_def Let_def new_step_def list_ex_iff split: option.splits)

lemma held_claim: "held_step b u i db \<Longrightarrow> 0 \<le> ms \<Longrightarrow> held_step b u i (snd (claim_due_steps now ms n db))"
  by (simp add: claim_due_steps_def Let_def held_fold held_lease)

lemma held_callback: "held_step b u i db \<Longrightarrow> held_step b u i (snd (record_step_callback k v now db))"
  unfolding record_step_callback_def by (rule held_with_step) auto

lemma quiet_operations:
  "jd_steps (snd (create_journey k c s r x now db)) = jd_steps db"
  "jd_steps (snd (add_artifact k j a now db)) = jd_steps db"
  "jd_steps (snd (update_artifact_data j y v now db)) = jd_steps db"
  "jd_steps (snd (complete_journey_if_ready k now db)) = jd_steps db"
  by (auto simp: create_journey_def add_artifact_def update_artifact_data_def complete_journey_if_ready_def Let_def
      split: option.splits)

lemmas quiet_operation_held = quiet_operations [THEN held_cong]

lemma journey_step_held:
  assumes "held_step b u i db" and "\<not> (b \<and> opens i op)" and "forward_lease (now, op)"
  shows "held_step (b \<or> settles i op) u i (journey_step clock (now, op) db)"
  using assms(2,3) held_settled [OF assms(1), of "settles i op"]
  by (cases op) (simp_all add: quiet_operation_held held_add held_dispatch held_running held_complete held_fail held_block
      held_callback held_ready held_overdue held_claim)

lemma run_journeys_held:
  "held_step b u i db \<Longrightarrow> never_reopened i b ops \<Longrightarrow> list_all forward_lease ops \<Longrightarrow>
    \<exists>b'. held_step b' u i (run_journeys clock ops db)"
proof (induction ops arbitrary: b db)
  case Nil
  then show ?case by (auto simp: run_journeys_def)
next
  case (Cons m ops)
  obtain t op where m: "m = (t, op)" by force
  with Cons journey_step_held [of b u i db op t clock]
  have "held_step (b \<or> settles i op) u i (journey_step clock m db)" by simp
  from Cons.IH [OF this] Cons.prems m show ?case by (simp add: run_journeys_def)
qed

section \<open>Claims\<close>

lemma claimable_due: "s \<in> set (claimable_steps now n db) \<Longrightarrow> s \<in> set (due_steps now db)"
  by (auto simp: claimable_steps_def dest!: in_set_takeD)

lemma get_step_id: "get_step i db = Some s \<Longrightarrow> sp_id s = i"
  by (auto simp: get_step_def find_Some_iff)

lemma claimed_due:
  assumes "s \<in> set (fst (claim_due_steps now ms n db))"
  obtains r where "r \<in> set (claimable_steps now n db)" "sp_id r = sp_id s"
proof -
  from assms obtain r db' where "r \<in> set (claimable_steps now n db)" "get_step (sp_id r) db' = Some s"
    by (auto simp: claim_due_steps_def Let_def List.map_filter_def)
  then show thesis using that get_step_id by metis
qed

lemma held_not_claimed: "held_step b u i db \<Longrightarrow> now < u \<Longrightarrow> i \<notin> set (map sp_id (fst (claim_due_steps now ms n db)))"
proof
  assume h: "held_step b u i db" "now < u" and "i \<in> set (map sp_id (fst (claim_due_steps now ms n db)))"
  then obtain r where "r \<in> set (due_steps now db)" "sp_id r = i" by (auto elim!: claimed_due dest: claimable_due)
  with h show False by (auto simp: due_steps_def held_step_def held_row_def passed_def)
qed

lemma lease_other:
  assumes "k \<noteq> i"
  shows "{r \<in> set (jd_steps (lease_step now ms k db)). sp_id r = i} = {r \<in> set (jd_steps db). sp_id r = i}"
  using assms by (auto simp: lease_step_def update_where_def image_iff)

lemma lease_passed:
  assumes "\<exists>r \<in> set (jd_steps db). sp_id r = i" and "\<forall>r \<in> set (jd_steps db). sp_id r = i \<longrightarrow> passed now (sp_lease r)"
  shows "held_step False (now + ms) i (lease_step now ms i db)"
proof -
  let ?f = "\<lambda>s. s\<lparr>sp_lease := Some (now + ms), sp_attempts := sp_attempts s + 1, sp_updated := now\<rparr>"
  let ?g = "\<lambda>s. if sp_id s = i \<and> passed now (sp_lease s) then ?f s else s"
  have rows: "jd_steps (lease_step now ms i db) = map ?g (jd_steps db)" by (simp add: lease_step_def update_where_def)
  have ids: "sp_id (?g r) = sp_id r" for r by simp
  have leased: "sp_lease (?g r) = Some (now + ms)" if "r \<in> set (jd_steps db)" "sp_id r = i" for r using that assms(2) by simp
  show ?thesis
    unfolding held_step_def rows held_row_def set_map ball_simps bex_simps ids using assms(1) leased by blast
qed

lemma leases_held:
  "distinct ids \<Longrightarrow> i \<in> set ids \<Longrightarrow> 0 \<le> ms \<Longrightarrow> \<exists>r \<in> set (jd_steps db). sp_id r = i \<Longrightarrow>
    \<forall>r \<in> set (jd_steps db). sp_id r = i \<longrightarrow> passed now (sp_lease r) \<Longrightarrow>
    held_step False (now + ms) i (fold (lease_step now ms) ids db)"
proof (induction ids arbitrary: db)
  case (Cons k ids)
  show ?case
  proof (cases "k = i")
    case True
    have "held_step False (now + ms) i (lease_step now ms k db)"
      using lease_passed [OF Cons.prems(4,5)] True by simp
    with Cons.prems show ?thesis by (simp add: held_fold held_lease)
  next
    case False
    from Cons.prems have rows: "\<exists>r. r \<in> {r \<in> set (jd_steps db). sp_id r = i}"
      "\<forall>r \<in> {r \<in> set (jd_steps db). sp_id r = i}. passed now (sp_lease r)" by auto
    have "held_step False (now + ms) i (fold (lease_step now ms) ids (lease_step now ms k db))"
    proof (rule Cons.IH)
      from Cons.prems False show "distinct ids" "i \<in> set ids" "0 \<le> ms" by auto
      from rows [folded lease_other [OF False, of now ms db]]
      show "\<exists>r \<in> set (jd_steps (lease_step now ms k db)). sp_id r = i"
        "\<forall>r \<in> set (jd_steps (lease_step now ms k db)). sp_id r = i \<longrightarrow> passed now (sp_lease r)" by blast+
    qed
    then show ?thesis by simp
  qed
qed simp

lemma claimable_distinct:
  "distinct (map sp_id (jd_steps db)) \<Longrightarrow> distinct (map sp_id (claimable_steps now n db))"
proof -
  assume d: "distinct (map sp_id (jd_steps db))"
  then have "distinct (claimable_steps now n db)"
    by (simp add: claimable_steps_def due_steps_def order_by_def distinct_map)
  moreover have "set (claimable_steps now n db) \<subseteq> set (jd_steps db)"
    using claimable_due by (auto simp: due_steps_def)
  ultimately show ?thesis using d by (auto simp: distinct_map intro: inj_on_subset)
qed

lemma claim_holds:
  assumes "distinct (map sp_id (jd_steps db))" and "s \<in> set (fst (claim_due_steps now ms n db))" and "0 \<le> ms"
  shows "held_step False (now + ms) (sp_id s) (snd (claim_due_steps now ms n db))"
proof -
  from assms(2) obtain r where r: "r \<in> set (claimable_steps now n db)" "sp_id r = sp_id s" by (rule claimed_due)
  from claimable_due [OF r(1)] have "r \<in> set (jd_steps db)" "passed now (sp_lease r)" by (auto simp: due_steps_def)
  moreover from this(1) r(2) have "q = r" if "q \<in> set (jd_steps db)" "sp_id q = sp_id s" for q
    using that assms(1) inj_onD [of sp_id "set (jd_steps db)" q r] by (simp add: distinct_map)
  ultimately have "\<exists>q \<in> set (jd_steps db). sp_id q = sp_id s"
    "\<forall>q \<in> set (jd_steps db). sp_id q = sp_id s \<longrightarrow> passed now (sp_lease q)" using r(2) by blast+
  moreover have "sp_id s \<in> set (map sp_id (claimable_steps now n db))" using r by (metis image_eqI set_map)
  ultimately have "held_step False (now + ms) (sp_id s) (fold (lease_step now ms) (map sp_id (claimable_steps now n db)) db)"
    using leases_held [OF claimable_distinct [OF assms(1)]] assms(3) by blast
  then show ?thesis by (simp add: claim_due_steps_def Let_def)
qed

text \<open>
  C29. Claims are exclusive: a step that a claim returned with a lease is returned by no other claim before the lease ends,
  whatever operations come in between and in whatever order their clocks run, as long as the step is not settled and then
  dispatched or run again.
\<close>

theorem claims_are_exclusive:
  assumes "s \<in> set (fst (claim_due_steps t ms n (run_journeys clock ops empty_journeys)))" and "0 \<le> ms"
    and "never_reopened (sp_id s) False between" and "list_all forward_lease between" and "t' < t + ms"
  shows "sp_id s \<notin> set (map sp_id (fst (claim_due_steps t' ms' n'
           (run_journeys clock between (snd (claim_due_steps t ms n (run_journeys clock ops empty_journeys)))))))"
  using run_journeys_held [OF claim_holds [OF reached_step_ids assms(1,2)] assms(3,4)] held_not_claimed [OF _ assms(5)]
  by blast

end
