(* ===== verification/Journey_Monitor.thy ===== *)
theory Journey_Monitor
  imports Journey_Claims
begin

text \<open>
  The monitor of journeys (packages/server/src/journeyMonitor.ts): on every tick a pass claims due steps, asks the
  reconciler about them one after the other, and writes its answers to the store. A pass is suspended while it waits for
  the reconciler or for the sweep; other passes and other users of the store go on meanwhile.

  \<^item> The answers of the reconciler are arbitrary; the fresh ids of the artifacts of an answer are part of it.
  \<^item> The limit is the one of every tick of the timer, 50. What the sweep itself does to the store is among the
    operations of others.
\<close>

section \<open>Answers\<close>

datatype reconcile_action =
  Ra_Unchanged
| Ra_Running "int option" "(string \<times> artifact_input) list"
| Ra_Completed "json option" "(string \<times> artifact_input) list"
| Ra_Blocked string "(string \<times> artifact_input) list"
| Ra_Failed string "(string \<times> artifact_input) list"

fun add_artifacts ::
  "step_row \<Rightarrow> (string \<times> artifact_input) list \<Rightarrow> int \<Rightarrow> journey_db \<Rightarrow> (string + unit) \<times> journey_db" where
  "add_artifacts s [] now db = (Inr (), db)"
| "add_artifacts s ((i, a) # as) now db =
     (case add_artifact i (sp_journey s) (a\<lparr>ai_step := coalesce (ai_step a) (Some (sp_id s))\<rparr>) now db of
        (Inl e, db') \<Rightarrow> (Inl e, db')
      | (Inr _, db') \<Rightarrow> add_artifacts s as now db')"

definition then_write :: "(string + unit) \<times> journey_db \<Rightarrow> (journey_db \<Rightarrow> (string + 'a) \<times> journey_db) \<Rightarrow> (string + 'a) \<times> journey_db" where
  "then_write r act = (case r of (Inl e, db) \<Rightarrow> (Inl e, db) | (Inr _, db) \<Rightarrow> act db)"

definition complete_and_close :: "step_row \<Rightarrow> json \<Rightarrow> int \<Rightarrow> journey_db \<Rightarrow> (string + unit) \<times> journey_db" where
  "complete_and_close s v now db =
     (case complete_step (sp_id s) v now db of
        (Inl e, db') \<Rightarrow> (Inl e, db')
      | (Inr _, db') \<Rightarrow> (Inr (), snd (complete_journey_if_ready (sp_journey s) now db')))"

definition void :: "(string + 'a) \<times> journey_db \<Rightarrow> (string + unit) \<times> journey_db" where
  "void r = (map_sum id (\<lambda>_. ()) (fst r), snd r)"

fun apply_action :: "step_row \<Rightarrow> reconcile_action \<Rightarrow> int \<Rightarrow> journey_db \<Rightarrow> (string + unit) \<times> journey_db" where
  "apply_action s Ra_Unchanged now db = (Inr (), db)"
| "apply_action s (Ra_Running d as) now db =
     then_write (add_artifacts s as now db) (\<lambda>db. void (run_step (sp_id s) d now db))"
| "apply_action s (Ra_Completed v as) now db =
     then_write (add_artifacts s as now db) (complete_and_close s (case v of None \<Rightarrow> JObj [] | Some w \<Rightarrow> w) now)"
| "apply_action s (Ra_Blocked e as) now db =
     then_write (add_artifacts s as now db) (\<lambda>db. void (block_step (sp_id s) e now db))"
| "apply_action s (Ra_Failed e as) now db =
     then_write (add_artifacts s as now db) (\<lambda>db. void (fail_step (sp_id s) e now db))"

section \<open>Passes\<close>

text \<open>A pass waits for the answer for a step, or for the sweep; the time is the one at its start.\<close>

datatype monitor_pass = Mp_Asking int step_row "step_row list" | Mp_Sweeping | Mp_Sweeping_First int

record monitor =
  mn_db :: journey_db
  mn_passes :: "(nat \<times> monitor_pass) list"
  mn_next :: nat

definition new_monitor :: "journey_db \<Rightarrow> monitor" where
  "new_monitor db = \<lparr>mn_db = db, mn_passes = [], mn_next = 0\<rparr>"

definition monitor_limit :: nat where "monitor_limit = 50"

text \<open>The steps of a journey that is gone are passed over; after the last step comes the sweep.\<close>

fun ask_next :: "int \<Rightarrow> step_row list \<Rightarrow> journey_db \<Rightarrow> monitor_pass" where
  "ask_next now [] db = Mp_Sweeping"
| "ask_next now (s # rest) db =
     (if journey_snapshot_of (sp_journey s) db = None then ask_next now rest db else Mp_Asking now s rest)"

definition start_pass :: "bool \<Rightarrow> int \<Rightarrow> int \<Rightarrow> monitor \<Rightarrow> monitor" where
  "start_pass reconciling ms now m =
     (let claim = claim_due_steps now ms monitor_limit (mn_db m);
          db = (if reconciling then snd claim else mn_db m);
          pass = (if reconciling then ask_next now (fst claim) db else Mp_Sweeping_First now)
      in m\<lparr>mn_db := db, mn_passes := mn_passes m @ [(mn_next m, pass)], mn_next := mn_next m + 1\<rparr>)"

definition end_pass :: "nat \<Rightarrow> monitor \<Rightarrow> monitor" where
  "end_pass k m = m\<lparr>mn_passes := filter (\<lambda>p. fst p \<noteq> k) (mn_passes m)\<rparr>"

definition set_pass :: "nat \<Rightarrow> monitor_pass \<Rightarrow> monitor \<Rightarrow> monitor" where
  "set_pass k p m = m\<lparr>mn_passes := map (\<lambda>q. if fst q = k then (k, p) else q) (mn_passes m)\<rparr>"

definition pass_answered :: "nat \<Rightarrow> int \<Rightarrow> step_row \<Rightarrow> step_row list \<Rightarrow> reconcile_action \<Rightarrow> monitor \<Rightarrow> monitor" where
  "pass_answered k now s rest a m =
     (case apply_action s a now (mn_db m) of
        (Inl e, db) \<Rightarrow> end_pass k (m\<lparr>mn_db := db\<rparr>)
      | (Inr _, db) \<Rightarrow> set_pass k (ask_next now rest db) (m\<lparr>mn_db := db\<rparr>))"

datatype monitor_move =
  Mm_Tick int
| Mm_Answer nat reconcile_action
| Mm_Raise nat
| Mm_Swept nat
| Mm_Store int journey_op

fun monitor_step :: "(int \<Rightarrow> string) \<Rightarrow> bool \<Rightarrow> int \<Rightarrow> monitor_move \<Rightarrow> monitor \<Rightarrow> monitor" where
  "monitor_step clock reconciling ms (Mm_Tick now) m = start_pass reconciling ms now m"
| "monitor_step clock reconciling ms (Mm_Answer k a) m =
     (case map_of (mn_passes m) k of
        Some (Mp_Asking now s rest) \<Rightarrow> pass_answered k now s rest a m
      | _ \<Rightarrow> m)"
| "monitor_step clock reconciling ms (Mm_Raise k) m =
     (case map_of (mn_passes m) k of
        Some (Mp_Asking now s rest) \<Rightarrow> end_pass k m
      | _ \<Rightarrow> m)"
| "monitor_step clock reconciling ms (Mm_Swept k) m =
     (case map_of (mn_passes m) k of
        Some Mp_Sweeping \<Rightarrow> end_pass k m
      | Some (Mp_Sweeping_First now) \<Rightarrow> end_pass k (m\<lparr>mn_db := block_overdue_steps clock now monitor_limit (mn_db m)\<rparr>)
      | _ \<Rightarrow> m)"
| "monitor_step clock reconciling ms (Mm_Store now op) m = m\<lparr>mn_db := journey_step clock (now, op) (mn_db m)\<rparr>"

definition run_monitor :: "(int \<Rightarrow> string) \<Rightarrow> bool \<Rightarrow> int \<Rightarrow> monitor_move list \<Rightarrow> monitor \<Rightarrow> monitor" where
  "run_monitor clock reconciling ms moves m = fold (monitor_step clock reconciling ms) moves m"

section \<open>The monitor uses the store\<close>

definition store_run :: "(int \<Rightarrow> string) \<Rightarrow> journey_db \<Rightarrow> journey_db \<Rightarrow> bool" where
  "store_run clock db db' \<longleftrightarrow> (\<exists>ops. db' = run_journeys clock ops db)"

lemma store_run_refl [simp, intro]: "store_run clock db db"
  unfolding store_run_def by (rule exI [where x = "[]"]) (simp add: run_journeys_def)

lemma store_run_trans: "store_run clock a b \<Longrightarrow> store_run clock b c \<Longrightarrow> store_run clock a c"
  unfolding store_run_def using run_journeys_append by metis

lemma store_run_op: "db' = journey_step clock (now, op) db \<Longrightarrow> store_run clock db db'"
  unfolding store_run_def by (rule exI [where x = "[(now, op)]"]) (simp add: run_journeys_def)

lemma add_artifacts_run: "store_run clock db (snd (add_artifacts s as now db))"
proof (induction as arbitrary: db)
  case (Cons ia as)
  obtain i a where ia: "ia = (i, a)" by force
  let ?a = "a\<lparr>ai_step := coalesce (ai_step a) (Some (sp_id s))\<rparr>"
  have "store_run clock db (snd (add_artifact i (sp_journey s) ?a now db))"
    by (rule store_run_op [where op = "Jo_Add_Artifact i (sp_journey s) ?a"]) simp
  with Cons.IH show ?case
    by (auto simp: ia split: prod.split sum.split intro: store_run_trans)
qed simp

lemma complete_close_run: "store_run clock db (snd (complete_and_close s v now db))"
proof -
  have "store_run clock db (snd (complete_step (sp_id s) v now db))"
    by (rule store_run_op [where op = "Jo_Complete (sp_id s) v"]) simp
  moreover have "store_run clock db' (snd (complete_journey_if_ready (sp_journey s) now db'))" for db'
    by (rule store_run_op [where op = "Jo_Complete_Journey (sp_journey s)"]) simp
  ultimately show ?thesis
    by (auto simp: complete_and_close_def split: prod.split sum.split intro: store_run_trans)
qed

lemma then_write_run:
  "store_run clock db (snd r) \<Longrightarrow> (\<And>db. store_run clock db (snd (act db))) \<Longrightarrow> store_run clock db (snd (then_write r act))"
  by (auto simp: then_write_def split: prod.split sum.split intro: store_run_trans)

lemma apply_action_run: "store_run clock db (snd (apply_action s a now db))"
proof -
  have "store_run clock db (snd (run_step (sp_id s) d now db))" for d db
    by (rule store_run_op [where op = "Jo_Run (sp_id s) d"]) simp
  moreover have "store_run clock db (snd (block_step (sp_id s) e now db))" for e db
    by (rule store_run_op [where op = "Jo_Block (sp_id s) e"]) simp
  moreover have "store_run clock db (snd (fail_step (sp_id s) e now db))" for e db
    by (rule store_run_op [where op = "Jo_Fail (sp_id s) e"]) simp
  ultimately show ?thesis
    by (cases a) (simp_all add: then_write_run add_artifacts_run complete_close_run void_def)
qed

lemma pass_db [simp]: "mn_db (end_pass k m) = mn_db m" "mn_db (set_pass k p m) = mn_db m"
  by (simp_all add: end_pass_def set_pass_def)

lemma start_pass_run: "store_run clock (mn_db m) (mn_db (start_pass reconciling ms now m))"
proof -
  have "store_run clock (mn_db m) (snd (claim_due_steps now ms monitor_limit (mn_db m)))"
    by (rule store_run_op [where op = "Jo_Claim ms monitor_limit"]) simp
  then show ?thesis by (simp add: start_pass_def Let_def)
qed

lemma pass_answered_run: "store_run clock (mn_db m) (mn_db (pass_answered k now s rest a m))"
  using apply_action_run [of clock "mn_db m" s a now] by (auto simp: pass_answered_def split: prod.split sum.split)

lemma overdue_run: "store_run clock db (block_overdue_steps clock now n db)"
  by (rule store_run_op [where op = "Jo_Block_Overdue n"]) simp

lemma monitor_step_run: "store_run clock (mn_db m) (mn_db (monitor_step clock reconciling ms x m))"
  by (cases x) (auto simp: start_pass_run pass_answered_run overdue_run store_run_op split: option.split monitor_pass.split)

text \<open>
  The monitor keeps to the store: whatever its overlapping passes and other users of the store do, and in whatever
  order, the database is one that a sequence of store operations gives. So the log of events stays complete and every
  completion of a journey stays earned.
\<close>

theorem monitor_follows_store:
  "\<exists>ops. mn_db (run_monitor clock reconciling ms moves (new_monitor empty_journeys)) = run_journeys clock ops empty_journeys"
proof -
  have "store_run clock (mn_db m) (mn_db (run_monitor clock reconciling ms moves m))" for m
    unfolding run_monitor_def
    by (induction moves arbitrary: m) (auto intro: store_run_trans monitor_step_run)
  from this [of "new_monitor empty_journeys"] show ?thesis by (simp add: store_run_def new_monitor_def)
qed

section \<open>The last completion\<close>

lemma add_artifact_views [view_simps]:
  "steps_view (snd (add_artifact i j a now db)) = steps_view db"
  "journeys_view (snd (add_artifact i j a now db)) = journeys_view db"
proof -
  have as: "steps_view (db\<lparr>jd_artifacts := as\<rparr>) = steps_view db" "journeys_view (db\<lparr>jd_artifacts := as\<rparr>) = journeys_view db"
    for as by (simp_all add: steps_view_def journeys_view_def)
  show "steps_view (snd (add_artifact i j a now db)) = steps_view db"
    "journeys_view (snd (add_artifact i j a now db)) = journeys_view db"
    by (auto simp: add_artifact_def Let_def view_simps as split: option.split)
qed

lemma add_artifacts_same:
  "steps_view (snd (add_artifacts s as now db)) = steps_view db \<and>
   journeys_view (snd (add_artifacts s as now db)) = journeys_view db"
proof (induction as arbitrary: db)
  case (Cons ia as)
  obtain i a where ia: "ia = (i, a)" by force
  let ?a = "a\<lparr>ai_step := coalesce (ai_step a) (Some (sp_id s))\<rparr>"
  obtain r db' where r: "add_artifact i (sp_journey s) ?a now db = (r, db')" by force
  with add_artifact_views [of i "sp_journey s" ?a now db]
  have "steps_view db' = steps_view db" "journeys_view db' = journeys_view db" by simp_all
  with Cons.IH [of db'] r show ?case by (simp add: ia split: sum.split)
qed simp

lemmas add_artifacts_views [view_simps] =
  add_artifacts_same [THEN conjunct1] add_artifacts_same [THEN conjunct2]

lemma wake_views [view_simps]:
  "steps_view (wake_ready j now s db) = steps_view db" "journeys_view (wake_ready j now s db) = journeys_view db"
  by (simp_all add: wake_ready_def view_simps write_same)

lemma fold_wake_views [view_simps]:
  "steps_view (fold (wake_ready j now) ss db) = steps_view db"
  "journeys_view (fold (wake_ready j now) ss db) = journeys_view db"
  by (induction ss arbitrary: db) (simp_all add: view_simps)

lemma ready_views [view_simps]:
  "steps_view (ready_pending_dependents j now db) = steps_view db"
  "journeys_view (ready_pending_dependents j now db) = journeys_view db"
  by (simp_all add: ready_pending_dependents_def Let_def view_simps)

lemma complete_step_views:
  assumes "get_step i db = Some s"
  shows "steps_view (snd (complete_step i v now db)) = map (set_status i S_Completed) (steps_view db)"
    and "journeys_view (snd (complete_step i v now db)) = journeys_view db"
  using assms
  by (simp_all add: complete_step_def with_step_def Let_def view_simps write_status completed_row_def)

lemma close_completes:
  assumes "map_of (journeys_view db) j = Some J_Active"
    and "\<And>i st. (i, j, st) \<in> set (steps_view db) \<Longrightarrow> st \<in> {S_Completed, S_Cancelled}"
  shows "map_of (journeys_view (snd (complete_journey_if_ready j now db))) j = Some J_Completed"
proof -
  from assms(1) obtain r where r: "get_journey j db = Some r" "jn_status r = J_Active"
    by (auto simp: journeys_view_find)
  have "count_where (\<lambda>s. sp_journey s = j \<and> sp_status s \<notin> {S_Completed, S_Cancelled}) (jd_steps db) = 0"
    using assms(2) by (force simp: count_where_def steps_view_def filter_empty_conv)
  moreover have "journeys_view (db\<lparr>jd_journeys := update_where (\<lambda>j'. jn_id j' = j)
      (\<lambda>j. j\<lparr>jn_status := J_Completed, jn_completed := Some now, jn_updated := now\<rparr>) (jd_journeys db)\<rparr>) =
      map (put_journey j J_Completed) (journeys_view db)"
    by (simp add: journeys_view_def update_where_def put_journey_def)
  moreover have "j \<in> fst ` set (journeys_view db)" using assms(1) by (force dest: map_of_SomeD)
  ultimately show ?thesis
    using r by (simp add: complete_journey_if_ready_def view_simps map_of_put_journey)
qed

text \<open>
  The last completion ends the journey: when the reconciler reports a step completed, every other step of its active
  journey is completed or cancelled and the answer is written without an error, the journey is completed at once.
\<close>

theorem last_completion_ends_journey:
  assumes "fst (apply_action s (Ra_Completed v as) now db) = Inr ()"
    and "get_journey (sp_journey s) db = Some j" and "jn_status j = J_Active"
    and "list_all (\<lambda>r. sp_journey r = sp_journey s \<and> sp_id r \<noteq> sp_id s \<longrightarrow> sp_status r \<in> {S_Completed, S_Cancelled}) (jd_steps db)"
  shows "map_option jn_status (get_journey (sp_journey s) (snd (apply_action s (Ra_Completed v as) now db))) = Some J_Completed"
proof -
  let ?j = "sp_journey s"
  obtain db1 where 1: "add_artifacts s as now db = (Inr (), db1)"
    using assms(1) by (auto simp: then_write_def split: prod.splits sum.splits)
  from add_artifacts_views [of s as now db] 1
  have views: "steps_view db1 = steps_view db" "journeys_view db1 = journeys_view db" by simp_all
  let ?w = "case v of None \<Rightarrow> JObj [] | Some w \<Rightarrow> w"
  from assms(1) 1 obtain t db2 where 2: "complete_step (sp_id s) ?w now db1 = (Inr t, db2)"
    by (auto simp: then_write_def complete_and_close_def split: prod.splits sum.splits)
  then obtain r where "get_step (sp_id s) db1 = Some r"
    by (auto simp: complete_step_def with_step_def split: option.splits)
  from complete_step_views [OF this, of ?w now] 2 views
  have view2: "steps_view db2 = map (set_status (sp_id s) S_Completed) (steps_view db)"
    "journeys_view db2 = journeys_view db" by simp_all
  have "map_of (journeys_view db2) ?j = Some J_Active" using assms(2,3) by (simp add: view2 journeys_view_find)
  moreover have "st \<in> {S_Completed, S_Cancelled}" if "(i, ?j, st) \<in> set (steps_view db2)" for i st
  proof -
    from that obtain r where "r \<in> set (jd_steps db)"
      and "(i, ?j, st) = set_status (sp_id s) S_Completed (sp_id r, sp_journey r, sp_status r)"
      unfolding view2 by (auto simp: steps_view_def)
    with assms(4) show ?thesis by (auto simp: set_status_def list_all_iff split: if_splits)
  qed
  ultimately have "map_of (journeys_view (snd (complete_journey_if_ready ?j now db2))) ?j = Some J_Completed"
    by (rule close_completes)
  with 1 2 show ?thesis by (simp add: then_write_def complete_and_close_def journeys_view_find)
qed

end
