(* ===== verification/Journey_Examples.thy ===== *)
theory Journey_Examples
  imports Journey_Monitor
begin

text \<open>
  The properties of the journey store and its monitor at concrete inputs, and two runs in which they do not do what they
  mean to: steps that wait for others keep a step from being claimed, and a late answer undoes a completion.
\<close>

definition demo_step_input :: "string list \<Rightarrow> step_input" where
  "demo_step_input deps =
     \<lparr>si_owner = ''o'', si_title = ''t'', si_input = JObj [], si_deps = deps, si_key = None, si_refs = JObj [],
      si_after = None, si_wake = None, si_deadline = None\<rparr>"

definition demo_artifact :: artifact_input where
  "demo_artifact = \<lparr>ai_step = None, ai_kind = ''k'', ai_key = ''a'', ai_data = JObj []\<rparr>"

abbreviation no_clock :: "int \<Rightarrow> string" where "no_clock \<equiv> \<lambda>t. ''''"

definition demo_one_step :: "(int \<times> journey_op) list" where
  "demo_one_step =
     [(1, Jo_Create ''j'' None ''chat'' ''r'' (JObj [])), (2, Jo_Add_Step ''s'' ''j'' (demo_step_input []))]"

abbreviation demo_journeys :: "(int \<times> journey_op) list \<Rightarrow> journey_db" where
  "demo_journeys ops \<equiv> run_journeys no_clock ops empty_journeys"

section \<open>Claims\<close>

lemma demo_claimed: "map sp_id (fst (claim_due_steps 3 100 5 (demo_journeys demo_one_step))) = [''s'']"
  by code_simp

lemma claims_are_exclusive_witness:
  "''s'' \<notin> set (map sp_id (fst (claim_due_steps 102 100 5
     (run_journeys no_clock [(4, Jo_Dispatch ''s'' None), (5, Jo_Claim 100 5)]
       (snd (claim_due_steps 3 100 5 (demo_journeys demo_one_step)))))))"
proof -
  from demo_claimed obtain s where "fst (claim_due_steps 3 100 5 (demo_journeys demo_one_step)) = [s]"
    and id: "sp_id s = ''s''" by (auto simp: map_eq_Cons_conv)
  then have s: "s \<in> set (fst (claim_due_steps 3 100 5 (demo_journeys demo_one_step)))" by simp
  have "never_reopened (sp_id s) False [(4, Jo_Dispatch ''s'' None), (5, Jo_Claim 100 5)]" by simp
  moreover have "list_all forward_lease [(4, Jo_Dispatch ''s'' None), (5, Jo_Claim 100 5)]" by simp
  ultimately show ?thesis using claims_are_exclusive [OF s, where between = "[(4, Jo_Dispatch ''s'' None), (5, Jo_Claim 100 5)]"
      and t' = 102 and ms' = 100 and n' = 5] id by simp
qed

text \<open>
  Five steps wait for a step that is dispatched with a deadline far away; a sixth step is ready. A claim of one step reads
  only the five oldest due steps, finds none of them ready, and returns nothing, at every later time until the deadline.
\<close>

definition demo_waiting :: "(int \<times> journey_op) list" where
  "demo_waiting =
     demo_one_step @ [(3, Jo_Dispatch ''s'' (Some 1000))] @
     map (\<lambda>i. (4, Jo_Add_Step i ''j'' (demo_step_input [''s'']))) [''1'', ''2'', ''3'', ''4'', ''5''] @
     [(5, Jo_Add_Step ''r'' ''j'' (demo_step_input []))]"

lemma waiting_steps_hide_a_ready_one:
  "list_all (\<lambda>t. fst (claim_due_steps t 100 1 (demo_journeys demo_waiting)) = []) [10, 100, 999]"
  "map sp_id (fst (claim_due_steps 10 100 2 (demo_journeys demo_waiting))) = [''r'']"
  by code_simp+

section \<open>The monitor\<close>

lemma demo_active: "map_option jn_status (get_journey ''j'' (demo_journeys demo_one_step)) = Some J_Active"
  by code_simp

definition demo_row :: step_row where
  "demo_row = new_step ''s'' ''j'' 1 (demo_step_input []) 2"

lemma demo_rows: "jd_steps (demo_journeys demo_one_step) = [demo_row]"
  by code_simp

lemma demo_applies: "fst (apply_action demo_row (Ra_Completed None [(''x'', demo_artifact)]) 5 (demo_journeys demo_one_step)) = Inr ()"
  by code_simp

lemma last_completion_ends_journey_witness:
  "map_option jn_status (get_journey ''j''
     (snd (apply_action demo_row (Ra_Completed None [(''x'', demo_artifact)]) 5 (demo_journeys demo_one_step)))) = Some J_Completed"
proof -
  have j: "sp_journey demo_row = ''j''" by (simp add: demo_row_def new_step_def)
  obtain r where "get_journey ''j'' (demo_journeys demo_one_step) = Some r" "jn_status r = J_Active"
    using demo_active by auto
  with last_completion_ends_journey [OF demo_applies, of r] show ?thesis by (simp add: j demo_rows)
qed

text \<open>
  The reconciler is slow: while a pass waits for its answer the lease ends, a second pass claims the step and completes
  it, and the journey is completed. The answer to the first pass, that the step is running, is then written.
\<close>

definition demo_slow_pass :: "monitor_move list" where
  "demo_slow_pass =
     [Mm_Tick 3, Mm_Tick 200, Mm_Answer 1 (Ra_Completed None []), Mm_Answer 0 (Ra_Running None [])]"

lemma a_late_answer_undoes_a_completion:
  "(let db = mn_db (run_monitor no_clock True 100 demo_slow_pass (new_monitor (demo_journeys demo_one_step)))
    in (map (\<lambda>j. (jn_id j, jn_status j)) (jd_journeys db), map (\<lambda>s. (sp_id s, sp_status s)) (jd_steps db))) =
   ([(''j'', J_Completed)], [(''s'', S_Running)])"
  by code_simp

end
