(* ===== verification/Vault_Lock.thy ===== *)
theory Vault_Lock
  imports Prelude
begin

text \<open>
  The write lock of a vault (packages/core/src/git/vaultWriteLock.ts): a call takes the SQLite lock of a file beside the
  vault, tries again until its deadline while another call holds it, and runs its function; inside of a function
  that holds the lock of the same vault a call runs its function at once.

  \<^item> The vaults are their canonical paths; that different vaults have different lock files is the strength of
    the hash. SQLite lets one connection of all processes hold the lock of a file, and a connection loses it when it
    rolls back, closes, or its process ends.
  \<^item> A call is suspended at every await; the moves of \<open>lock_move\<close> are the answers. The ownership that a call finds in its
    asynchronous context is that of an earlier call of the same process, named by its number.
  \<^item> The times are those of \<open>performance.now\<close>, which never runs back.
\<close>

section \<open>Calls\<close>

datatype lock_phase =
  L_Resolving
| L_Opening int
| L_Waiting int int
| L_Holding
| L_Inside

record lock_call =
  lk_id :: nat
  lk_process :: nat
  lk_path :: string
  lk_store :: "nat option"
  lk_wait :: int
  lk_phase :: lock_phase

text \<open>\<open>vl_tries\<close> lists the attempts of the calls with the time they are ready to wait.\<close>

record vault_locks =
  vl_owner :: "string \<Rightarrow> nat option"
  vl_calls :: "lock_call list"
  vl_next :: nat
  vl_tries :: "(nat \<times> int) list"

definition new_locks :: vault_locks where
  "new_locks = \<lparr>vl_owner = (\<lambda>p. None), vl_calls = [], vl_next = 0, vl_tries = []\<rparr>"

definition lock_call_of :: "nat \<Rightarrow> vault_locks \<Rightarrow> lock_call option" where
  "lock_call_of k s = find (\<lambda>c. lk_id c = k) (vl_calls s)"

definition set_phase :: "nat \<Rightarrow> lock_phase \<Rightarrow> vault_locks \<Rightarrow> vault_locks" where
  "set_phase k ph s = s\<lparr>vl_calls := update_where (\<lambda>c. lk_id c = k) (\<lambda>c. c\<lparr>lk_phase := ph\<rparr>) (vl_calls s)\<rparr>"

text \<open>However a call ends, its token is inactive and its connection closed.\<close>

definition end_calls :: "(lock_call \<Rightarrow> bool) \<Rightarrow> vault_locks \<Rightarrow> vault_locks" where
  "end_calls p s =
     s\<lparr>vl_calls := filter (\<lambda>c. \<not> p c) (vl_calls s),
       vl_owner := (\<lambda>path. case vl_owner s path of None \<Rightarrow> None
         | Some k \<Rightarrow> if list_ex (\<lambda>c. lk_id c = k \<and> p c) (vl_calls s) then None else Some k)\<rparr>"

definition end_call :: "nat \<Rightarrow> vault_locks \<Rightarrow> vault_locks" where
  "end_call k = end_calls (\<lambda>c. lk_id c = k)"

text \<open>The inherited token is active while the function of its call runs.\<close>

definition inherits :: "lock_call \<Rightarrow> vault_locks \<Rightarrow> bool" where
  "inherits c s \<longleftrightarrow>
     (case lk_store c of None \<Rightarrow> False
      | Some k \<Rightarrow> list_ex (\<lambda>h. lk_id h = k \<and> lk_phase h = L_Holding \<and> lk_path h = lk_path c) (vl_calls s))"

definition retry_delay :: "int \<Rightarrow> int \<Rightarrow> int" where
  "retry_delay deadline now = min 50 (max 1 (deadline - now))"

definition try_lock :: "lock_call \<Rightarrow> int \<Rightarrow> int \<Rightarrow> vault_locks \<Rightarrow> vault_locks" where
  "try_lock c deadline now s =
     (let s' = s\<lparr>vl_tries := vl_tries s @ [(lk_id c, lk_wait c)]\<rparr>
      in if vl_owner s (lk_path c) = None
           then set_phase (lk_id c) L_Holding (s'\<lparr>vl_owner := (vl_owner s)(lk_path c := Some (lk_id c))\<rparr>)
         else if deadline \<le> now then end_call (lk_id c) s'
         else set_phase (lk_id c) (L_Waiting deadline (now + retry_delay deadline now)) s')"

section \<open>Moves\<close>

datatype lock_move =
  Lm_Call nat string "nat option" int
| Lm_Resolved nat int
| Lm_Opened nat int
| Lm_Retry nat int
| Lm_Error nat
| Lm_Return nat
| Lm_Crash nat

text \<open>The context of a call names a call of its process, one that has ended maybe.\<close>

definition context_possible :: "nat \<Rightarrow> nat option \<Rightarrow> vault_locks \<Rightarrow> bool" where
  "context_possible p store s \<longleftrightarrow>
     (case store of None \<Rightarrow> True
      | Some k \<Rightarrow> k < vl_next s \<and> list_all (\<lambda>h. lk_id h = k \<longrightarrow> lk_process h = p) (vl_calls s))"

definition call_lock :: "nat \<Rightarrow> string \<Rightarrow> nat option \<Rightarrow> int \<Rightarrow> vault_locks \<Rightarrow> vault_locks" where
  "call_lock p path store wait s =
     (if context_possible p store s
      then s\<lparr>vl_calls := vl_calls s @ [\<lparr>lk_id = vl_next s, lk_process = p, lk_path = path, lk_store = store, lk_wait = wait,
                lk_phase = L_Resolving\<rparr>], vl_next := vl_next s + 1\<rparr>
      else s)"

text \<open>
  \<open>Lm_Error\<close> is an exception of the path resolution, of opening the lock file or of the lock statement.
  \<open>Lm_Return\<close> ends the function of a call with a result or an exception.
\<close>

fun lock_step :: "lock_move \<Rightarrow> vault_locks \<Rightarrow> vault_locks" where
  "lock_step (Lm_Call p path store wait) s = call_lock p path store wait s"
| "lock_step (Lm_Resolved k now) s =
     (case lock_call_of k s of None \<Rightarrow> s
      | Some c \<Rightarrow>
          if lk_phase c \<noteq> L_Resolving then s
          else if inherits c s then set_phase k L_Inside s
          else set_phase k (L_Opening (now + max 0 (lk_wait c))) s)"
| "lock_step (Lm_Opened k now) s =
     (case lock_call_of k s of None \<Rightarrow> s
      | Some c \<Rightarrow>
          (case lk_phase c of
             L_Opening deadline \<Rightarrow> if deadline - max 0 (lk_wait c) \<le> now then try_lock c deadline now s else s
           | _ \<Rightarrow> s))"
| "lock_step (Lm_Retry k now) s =
     (case lock_call_of k s of None \<Rightarrow> s
      | Some c \<Rightarrow>
          (case lk_phase c of
             L_Waiting deadline wake \<Rightarrow> if wake \<le> now then try_lock c deadline now s else s
           | _ \<Rightarrow> s))"
| "lock_step (Lm_Error k) s =
     (case lock_call_of k s of None \<Rightarrow> s
      | Some c \<Rightarrow> if lk_phase c \<in> {L_Holding, L_Inside} then s else end_call k s)"
| "lock_step (Lm_Return k) s =
     (case lock_call_of k s of None \<Rightarrow> s
      | Some c \<Rightarrow> if lk_phase c \<in> {L_Holding, L_Inside} then end_call k s else s)"
| "lock_step (Lm_Crash p) s = end_calls (\<lambda>c. lk_process c = p) s"

definition run_locks :: "lock_move list \<Rightarrow> vault_locks \<Rightarrow> vault_locks" where
  "run_locks moves s = fold lock_step moves s"

end
