(* ===== verification/Write_Queue.thy ===== *)
theory Write_Queue
  imports Vault_Lock
begin

text \<open>
  The write queue of an engine (packages/core/src/git/queue.ts) over the write lock: one task at a time, interactive tasks
  before background tasks, each under the lock of the vault when the queue has one. A system has any number of
  queues in any number of processes, and other callers of the lock.

  \<^item> A task runs in the asynchronous context of the one that started it: the caller of \<open>run\<close> when the queue was
    idle, and otherwise the context in which the task before it ran.
  \<^item> The promise of a task is settled before the queue goes on; between the two other moves may come.
\<close>

datatype queue_priority = Q_Interactive | Q_Background

datatype queue_event = Q_Pushed queue_priority nat | Q_Started queue_priority nat

record write_queue =
  wq_process :: nat
  wq_vault :: "string option"
  wq_running :: "(nat \<times> nat option) option"
  wq_context :: "nat option"
  wq_interactive :: "(nat \<times> int) list"
  wq_background :: "(nat \<times> int) list"
  wq_log :: "queue_event list"

record write_system =
  ws_locks :: vault_locks
  ws_queues :: "write_queue list"

definition new_write_queue :: "nat \<times> string option \<Rightarrow> write_queue" where
  "new_write_queue pv = \<lparr>wq_process = fst pv, wq_vault = snd pv, wq_running = None, wq_context = None,
     wq_interactive = [], wq_background = [], wq_log = []\<rparr>"

definition new_system :: "(nat \<times> string option) list \<Rightarrow> write_system" where
  "new_system qs = \<lparr>ws_locks = new_locks, ws_queues = map new_write_queue qs\<rparr>"

fun push_task :: "queue_priority \<Rightarrow> nat \<Rightarrow> int \<Rightarrow> write_queue \<Rightarrow> write_queue" where
  "push_task Q_Interactive t wait q =
     q\<lparr>wq_interactive := wq_interactive q @ [(t, wait)], wq_log := wq_log q @ [Q_Pushed Q_Interactive t]\<rparr>"
| "push_task Q_Background t wait q =
     q\<lparr>wq_background := wq_background q @ [(t, wait)], wq_log := wq_log q @ [Q_Pushed Q_Background t]\<rparr>"

text \<open>Running the task: a call of the lock, or of the function itself when the queue has no vault.\<close>

definition begin_task :: "queue_priority \<Rightarrow> nat \<Rightarrow> int \<Rightarrow> nat option \<Rightarrow> write_queue \<Rightarrow> vault_locks \<Rightarrow> write_queue \<times> vault_locks" where
  "begin_task prio t wait store q locks =
     (let q' = q\<lparr>wq_context := store, wq_log := wq_log q @ [Q_Started prio t]\<rparr>
      in case wq_vault q of
           None \<Rightarrow> (q'\<lparr>wq_running := Some (t, None)\<rparr>, locks)
         | Some path \<Rightarrow>
             (q'\<lparr>wq_running := Some (t, Some (vl_next locks))\<rparr>, call_lock (wq_process q) path store wait locks))"

definition dequeue :: "nat option \<Rightarrow> write_queue \<Rightarrow> vault_locks \<Rightarrow> write_queue \<times> vault_locks" where
  "dequeue store q locks =
     (if wq_running q \<noteq> None then (q, locks)
      else case wq_interactive q of
        (t, wait) # rest \<Rightarrow> begin_task Q_Interactive t wait store (q\<lparr>wq_interactive := rest\<rparr>) locks
      | [] \<Rightarrow>
          (case wq_background q of
             (t, wait) # rest \<Rightarrow> begin_task Q_Background t wait store (q\<lparr>wq_background := rest\<rparr>) locks
           | [] \<Rightarrow> (q, locks)))"

definition run_task :: "queue_priority \<Rightarrow> nat \<Rightarrow> int \<Rightarrow> nat option \<Rightarrow> write_queue \<Rightarrow> vault_locks \<Rightarrow> write_queue \<times> vault_locks" where
  "run_task prio t wait store q locks = dequeue store (push_task prio t wait q) locks"

text \<open>The task has ended when its call has.\<close>

definition task_over :: "write_queue \<Rightarrow> vault_locks \<Rightarrow> bool" where
  "task_over q locks \<longleftrightarrow>
     (case wq_running q of None \<Rightarrow> False
      | Some (t, None) \<Rightarrow> True
      | Some (t, Some k) \<Rightarrow> lock_call_of k locks = None)"

definition settle_task :: "write_queue \<Rightarrow> vault_locks \<Rightarrow> write_queue \<times> vault_locks" where
  "settle_task q locks =
     (if task_over q locks then dequeue (wq_context q) (q\<lparr>wq_running := None\<rparr>) locks else (q, locks))"

datatype write_move =
  Wm_Run nat queue_priority nat int "nat option"
| Wm_Settled nat
| Wm_Lock lock_move

definition on_queue ::
  "nat \<Rightarrow> (write_queue \<Rightarrow> vault_locks \<Rightarrow> write_queue \<times> vault_locks) \<Rightarrow> write_system \<Rightarrow> write_system" where
  "on_queue n act s =
     (if n < length (ws_queues s)
      then case act (ws_queues s ! n) (ws_locks s) of
        (q, locks) \<Rightarrow> \<lparr>ws_locks = locks, ws_queues = (ws_queues s)[n := q]\<rparr>
      else s)"

text \<open>A process that ends takes its queues with it; a new one starts with empty queues.\<close>

fun write_move_step :: "write_move \<Rightarrow> write_system \<Rightarrow> write_system" where
  "write_move_step (Wm_Run n prio t wait store) s =
     (if n < length (ws_queues s) \<and> context_possible (wq_process (ws_queues s ! n)) store (ws_locks s)
      then on_queue n (run_task prio t wait store) s else s)"
| "write_move_step (Wm_Settled n) s = on_queue n settle_task s"
| "write_move_step (Wm_Lock (Lm_Crash p)) s =
     \<lparr>ws_locks = lock_step (Lm_Crash p) (ws_locks s),
      ws_queues = map (\<lambda>q. if wq_process q = p then new_write_queue (p, wq_vault q) else q) (ws_queues s)\<rparr>"
| "write_move_step (Wm_Lock m) s = s\<lparr>ws_locks := lock_step m (ws_locks s)\<rparr>"

definition run_writes :: "write_move list \<Rightarrow> write_system \<Rightarrow> write_system" where
  "run_writes moves s = fold write_move_step moves s"

end
