(* ===== verification/Lock_Props.thy ===== *)
theory Lock_Props
  imports Write_Queue
begin

text \<open>
  What the write lock and the write queue promise: the lock of a vault belongs to the call that works under it and to no
  other, all work on a vault belongs to one holder, a call gives up after a bounded number of attempts, and a queue runs its
  tasks in order.
\<close>

section \<open>The lock invariant\<close>

definition holds_lock :: "nat \<Rightarrow> string \<Rightarrow> vault_locks \<Rightarrow> bool" where
  "holds_lock k p s \<longleftrightarrow> (\<exists>c \<in> set (vl_calls s). lk_id c = k \<and> lk_path c = p \<and> lk_phase c = L_Holding)"

definition lock_inv :: "vault_locks \<Rightarrow> bool" where
  "lock_inv s \<longleftrightarrow>
     distinct (map lk_id (vl_calls s)) \<and> (\<forall>c \<in> set (vl_calls s). lk_id c < vl_next s) \<and>
     (\<forall>p k. vl_owner s p = Some k \<longleftrightarrow> holds_lock k p s)"

lemma new_lock_inv: "lock_inv new_locks"
  by (simp add: lock_inv_def new_locks_def holds_lock_def)

lemma lock_call_of_Some: "lock_call_of k s = Some c \<Longrightarrow> c \<in> set (vl_calls s) \<and> lk_id c = k"
  by (auto simp: lock_call_of_def find_Some_iff)

lemma lock_inv_unique: "lock_inv s \<Longrightarrow> c \<in> set (vl_calls s) \<Longrightarrow> d \<in> set (vl_calls s) \<Longrightarrow> lk_id c = lk_id d \<Longrightarrow> c = d"
  by (auto simp: lock_inv_def distinct_map dest: inj_onD)

lemma set_phase_fields:
  "vl_owner (set_phase k ph s) = vl_owner s" "vl_next (set_phase k ph s) = vl_next s"
  "vl_tries (set_phase k ph s) = vl_tries s"
  "map lk_id (vl_calls (set_phase k ph s)) = map lk_id (vl_calls s)"
  by (simp_all add: set_phase_def update_where_def)

definition rephase :: "nat \<Rightarrow> lock_phase \<Rightarrow> lock_call \<Rightarrow> lock_call" where
  "rephase k ph c = (if lk_id c = k then c\<lparr>lk_phase := ph\<rparr> else c)"

lemma rephase_fields [simp]:
  "lk_id (rephase k ph c) = lk_id c" "lk_process (rephase k ph c) = lk_process c" "lk_path (rephase k ph c) = lk_path c"
  "lk_store (rephase k ph c) = lk_store c" "lk_wait (rephase k ph c) = lk_wait c"
  "lk_phase (rephase k ph c) = (if lk_id c = k then ph else lk_phase c)"
  by (simp_all add: rephase_def)

lemma phase_calls: "set (vl_calls (set_phase k ph s)) = rephase k ph ` set (vl_calls s)"
  by (auto simp: set_phase_def update_where_def rephase_def)

lemma phase_holds:
  assumes "lock_inv s" and "lock_call_of k s = Some c"
  shows "holds_lock i p (set_phase k ph s) \<longleftrightarrow> (if i = k then lk_path c = p \<and> ph = L_Holding else holds_lock i p s)"
proof -
  have c: "c \<in> set (vl_calls s)" "lk_id c = k" using lock_call_of_Some [OF assms(2)] by simp_all
  have only: "d = c" if "d \<in> set (vl_calls s)" "lk_id d = k" for d
    using lock_inv_unique [OF assms(1) that(1) c(1)] that(2) c(2) by simp
  have "set (vl_calls (set_phase k ph s)) = insert (c\<lparr>lk_phase := ph\<rparr>) {d \<in> set (vl_calls s). lk_id d \<noteq> k}"
    using c by (auto simp: phase_calls rephase_def image_iff dest: only)
  then show ?thesis using c(2) by (auto simp: holds_lock_def)
qed

lemma holds_cong: "vl_calls s' = vl_calls s \<Longrightarrow> holds_lock k p s' = holds_lock k p s"
  by (simp add: holds_lock_def)

text \<open>A call that neither had nor gets the lock moves on.\<close>

lemma set_phase_inv:
  assumes "lock_inv s" and "lock_call_of k s = Some c" and "lk_phase c \<noteq> L_Holding" and "ph \<noteq> L_Holding"
  shows "lock_inv (set_phase k ph s)"
proof -
  have c: "c \<in> set (vl_calls s)" "lk_id c = k" using lock_call_of_Some [OF assms(2)] by simp_all
  have "\<not> holds_lock k p s" for p
    using lock_inv_unique [OF assms(1) _ c(1)] c(2) assms(3) by (auto simp: holds_lock_def)
  then have "holds_lock i p (set_phase k ph s) = holds_lock i p s" for i p
    using assms(4) by (auto simp: phase_holds [OF assms(1,2)])
  moreover have "\<forall>c \<in> set (vl_calls (set_phase k ph s)). lk_id c < vl_next s"
    using assms(1) by (auto simp: lock_inv_def phase_calls)
  ultimately show ?thesis using assms(1) by (simp add: lock_inv_def set_phase_fields)
qed

lemma take_lock_inv:
  assumes "lock_inv s" and "lock_call_of k s = Some c" and "vl_owner s (lk_path c) = None"
    and "lk_phase c \<noteq> L_Holding"
  shows "lock_inv (set_phase k L_Holding (s\<lparr>vl_tries := ts, vl_owner := (vl_owner s)(lk_path c := Some k)\<rparr>))"
proof -
  let ?s = "s\<lparr>vl_tries := ts, vl_owner := (vl_owner s)(lk_path c := Some k)\<rparr>"
  have c: "c \<in> set (vl_calls s)" "lk_id c = k" using lock_call_of_Some [OF assms(2)] by simp_all
  have eq: "set_phase k L_Holding ?s = (set_phase k L_Holding s)\<lparr>vl_tries := ts, vl_owner := (vl_owner s)(lk_path c := Some k)\<rparr>"
    by (simp add: set_phase_def)
  have held: "holds_lock i p (set_phase k L_Holding ?s) \<longleftrightarrow> (if i = k then lk_path c = p else holds_lock i p s)" for i p
    unfolding eq using phase_holds [OF assms(1,2), of i p L_Holding] by (simp add: holds_lock_def)
  have "\<not> holds_lock k p s" for p
    using lock_inv_unique [OF assms(1) _ c(1)] c(2) assms(4) by (auto simp: holds_lock_def)
  moreover have "vl_owner s p = Some i \<longleftrightarrow> holds_lock i p s" for i p using assms(1) by (simp add: lock_inv_def)
  ultimately have "((vl_owner s)(lk_path c := Some k)) p = Some i \<longleftrightarrow> (if i = k then lk_path c = p else holds_lock i p s)" for i p
    using assms(3) by (metis fun_upd_apply option.inject option.distinct(1))
  moreover have "\<forall>c \<in> set (vl_calls (set_phase k L_Holding s)). lk_id c < vl_next s"
    using assms(1) by (auto simp: lock_inv_def phase_calls)
  moreover have "distinct (map lk_id (vl_calls (set_phase k L_Holding s)))"
    using assms(1) by (simp add: lock_inv_def set_phase_fields)
  ultimately show ?thesis
    unfolding lock_inv_def held by (simp add: eq set_phase_fields)
qed

lemma end_calls_inv:
  assumes "lock_inv s"
  shows "lock_inv (end_calls P s)"
proof -
  have "holds_lock k p (end_calls P s) \<longleftrightarrow> holds_lock k p s \<and> \<not> list_ex (\<lambda>c. lk_id c = k \<and> P c) (vl_calls s)" for k p
    using lock_inv_unique [OF assms] by (auto simp: holds_lock_def end_calls_def list_ex_iff)
  moreover have "vl_owner (end_calls P s) p = Some k \<longleftrightarrow>
      vl_owner s p = Some k \<and> \<not> list_ex (\<lambda>c. lk_id c = k \<and> P c) (vl_calls s)" for k p
    by (auto simp: end_calls_def split: option.split)
  ultimately show ?thesis
    using assms by (simp add: lock_inv_def) (simp add: end_calls_def distinct_map_filter)
qed

lemma call_lock_inv: "lock_inv s \<Longrightarrow> lock_inv (call_lock p path store wait s)"
  by (auto simp: lock_inv_def call_lock_def holds_lock_def)

lemma try_lock_inv:
  assumes "lock_inv s" and "lock_call_of k s = Some c" and "lk_phase c \<noteq> L_Holding"
  shows "lock_inv (try_lock c deadline now s)"
proof -
  have c: "lk_id c = k" using lock_call_of_Some [OF assms(2)] by simp
  have tried: "lock_inv (s\<lparr>vl_tries := ts\<rparr>)" "lock_call_of k (s\<lparr>vl_tries := ts\<rparr>) = Some c" for ts
    using assms(1,2) by (simp_all add: lock_inv_def holds_lock_def lock_call_of_def)
  show ?thesis
  proof (cases "vl_owner s (lk_path c)")
    case None
    with take_lock_inv [OF assms(1,2) None assms(3)] show ?thesis by (simp add: try_lock_def Let_def c)
  next
    case (Some h)
    with tried assms(3) show ?thesis
      by (simp add: try_lock_def Let_def c end_call_def end_calls_inv set_phase_inv)
  qed
qed

lemma lock_step_inv: "lock_inv s \<Longrightarrow> lock_inv (lock_step m s)"
  by (cases m) (auto simp: call_lock_inv end_calls_inv end_call_def intro: set_phase_inv try_lock_inv
      split: option.split lock_phase.split)

section \<open>Work inside of a function that holds the lock\<close>

text \<open>
  The context of a call names a call of its process; work inside of the function of another call goes on under a lock that
  is lent to it for as long as that function runs.
\<close>

definition contexts_ok :: "vault_locks \<Rightarrow> bool" where
  "contexts_ok s \<longleftrightarrow> (\<forall>c \<in> set (vl_calls s). context_possible (lk_process c) (lk_store c) s)"

definition lent :: "lock_call \<Rightarrow> vault_locks \<Rightarrow> bool" where
  "lent c s \<longleftrightarrow>
     (\<exists>k. lk_store c = Some k \<and> k < vl_next s \<and>
       (\<forall>h \<in> set (vl_calls s). lk_id h = k \<longrightarrow> lk_phase h = L_Holding \<and> lk_path h = lk_path c))"

definition lenders_ok :: "vault_locks \<Rightarrow> bool" where
  "lenders_ok s \<longleftrightarrow> (\<forall>c \<in> set (vl_calls s). lk_phase c = L_Inside \<longrightarrow> lent c s)"

lemma context_possible_iff:
  "context_possible p store s \<longleftrightarrow>
     (\<forall>k. store = Some k \<longrightarrow> k < vl_next s \<and> (\<forall>h \<in> set (vl_calls s). lk_id h = k \<longrightarrow> lk_process h = p))"
  by (cases store) (auto simp: context_possible_def list_all_iff)

lemma context_phase: "context_possible p store (set_phase k ph s) = context_possible p store s"
  by (simp add: context_possible_iff set_phase_fields phase_calls)

lemma phase_contexts: "contexts_ok s \<Longrightarrow> contexts_ok (set_phase k ph s)"
  by (simp add: contexts_ok_def context_phase phase_calls)

lemma contexts_other [simp]:
  "contexts_ok (s\<lparr>vl_tries := ts\<rparr>) = contexts_ok s" "contexts_ok (s\<lparr>vl_tries := ts, vl_owner := ow\<rparr>) = contexts_ok s"
  by (simp_all add: contexts_ok_def context_possible_iff)

lemma end_contexts: "contexts_ok s \<Longrightarrow> contexts_ok (end_calls P s)"
  by (auto simp: contexts_ok_def context_possible_iff end_calls_def)

lemma call_contexts:
  assumes "lock_inv s" and "contexts_ok s"
  shows "contexts_ok (call_lock p path store wait s)"
proof (cases "context_possible p store s")
  case True
  have "k < vl_next s" if "c \<in> set (vl_calls s)" "lk_store c = Some k" for c k
    using assms(2) that by (auto simp: contexts_ok_def context_possible_iff)
  moreover have "lk_id h < vl_next s" if "h \<in> set (vl_calls s)" for h using assms(1) that by (simp add: lock_inv_def)
  ultimately show ?thesis
    using True assms(2) by (auto simp: call_lock_def contexts_ok_def context_possible_iff less_Suc_eq)
qed (simp add: call_lock_def assms)

lemma try_contexts: "contexts_ok s \<Longrightarrow> contexts_ok (try_lock c deadline now s)"
  by (simp add: try_lock_def Let_def end_call_def phase_contexts end_contexts)

lemma lock_step_contexts: "lock_inv s \<Longrightarrow> contexts_ok s \<Longrightarrow> contexts_ok (lock_step m s)"
  by (cases m) (auto simp: call_contexts end_contexts end_call_def phase_contexts try_contexts
      split: option.split lock_phase.split)

lemma not_holding:
  assumes "lock_inv s" and "lock_call_of k s = Some c" and "lk_phase c \<noteq> L_Holding"
  shows "\<not> holds_lock k p s"
proof -
  have c: "c \<in> set (vl_calls s)" "lk_id c = k" using lock_call_of_Some [OF assms(2)] by simp_all
  show ?thesis using lock_inv_unique [OF assms(1) _ c(1)] c(2) assms(3) by (auto simp: holds_lock_def)
qed

lemma inherits_lent:
  assumes "lock_inv s" and "inherits c s"
  shows "lent c s"
proof -
  from assms(2) obtain h where h: "h \<in> set (vl_calls s)" "lk_store c = Some (lk_id h)" "lk_phase h = L_Holding"
    "lk_path h = lk_path c" by (auto simp: inherits_def list_ex_iff split: option.splits)
  have "g = h" if "g \<in> set (vl_calls s)" "lk_id g = lk_id h" for g by (rule lock_inv_unique [OF assms(1) that(1) h(1) that(2)])
  moreover have "lk_id h < vl_next s" using assms(1) h(1) by (simp add: lock_inv_def)
  ultimately show ?thesis using h by (auto simp: lent_def)
qed

text \<open>What is lent stays so while a call that does not hold a lock moves on, and while calls end.\<close>

lemma lent_phase:
  assumes "lock_inv s" and "lock_call_of k s = Some c" and "lk_phase c \<noteq> L_Holding" and "lent d s"
  shows "lent (rephase j ph d) (set_phase k ph' s)"
proof -
  have c: "c \<in> set (vl_calls s)" "lk_id c = k" using lock_call_of_Some [OF assms(2)] by simp_all
  from assms(4) obtain i where i: "lk_store d = Some i" "i < vl_next s"
    and held: "\<And>h. h \<in> set (vl_calls s) \<Longrightarrow> lk_id h = i \<Longrightarrow> lk_phase h = L_Holding \<and> lk_path h = lk_path d"
    by (auto simp: lent_def)
  have "i \<noteq> k" using held [OF c(1)] c(2) assms(3) by auto
  with i held show ?thesis by (auto simp: lent_def set_phase_fields phase_calls)
qed

lemma lenders_phase:
  assumes "lock_inv s" and "lock_call_of k s = Some c" and "lk_phase c \<noteq> L_Holding" and "lenders_ok s"
    and "ph = L_Inside \<Longrightarrow> lent c s"
  shows "lenders_ok (set_phase k ph s)"
proof -
  have c: "c \<in> set (vl_calls s)" "lk_id c = k" using lock_call_of_Some [OF assms(2)] by simp_all
  have "lent (rephase k ph d) (set_phase k ph s)"
    if "d \<in> set (vl_calls s)" and "lk_phase (rephase k ph d) = L_Inside" for d
  proof (rule lent_phase [OF assms(1,2,3)])
    show "lent d s"
    proof (cases "lk_id d = k")
      case True
      with lock_inv_unique [OF assms(1) that(1) c(1)] c(2) that(2) assms(5) show ?thesis by simp
    next
      case False
      with that assms(4) show ?thesis by (simp add: lenders_ok_def)
    qed
  qed
  then show ?thesis by (simp add: lenders_ok_def phase_calls)
qed

lemma lenders_end: "lenders_ok s \<Longrightarrow> lenders_ok (end_calls P s)"
  by (fastforce simp: lenders_ok_def lent_def end_calls_def)

lemma lenders_other [simp]: "lenders_ok (s\<lparr>vl_tries := ts\<rparr>) = lenders_ok s"
  by (simp add: lenders_ok_def lent_def)

lemma lock_inv_other [simp]: "lock_inv (s\<lparr>vl_tries := ts\<rparr>) = lock_inv s"
  by (simp add: lock_inv_def holds_lock_def)

lemma lenders_take:
  assumes "lock_inv s" and "lock_call_of k s = Some c" and "lk_phase c \<noteq> L_Holding" and "lenders_ok s"
  shows "lenders_ok (set_phase k L_Holding (s\<lparr>vl_tries := ts, vl_owner := ow\<rparr>))"
proof -
  have "lenders_ok (set_phase k L_Holding s)" using assms by (rule lenders_phase) simp
  then show ?thesis by (simp add: lenders_ok_def lent_def set_phase_def)
qed

lemma lenders_try:
  assumes "lock_inv s" and "lock_call_of k s = Some c" and "lk_phase c \<noteq> L_Holding" and "lenders_ok s"
  shows "lenders_ok (try_lock c deadline now s)"
proof -
  have id: "lk_id c = k" using lock_call_of_Some [OF assms(2)] by simp
  let ?t = "s\<lparr>vl_tries := vl_tries s @ [(k, lk_wait c)]\<rparr>"
  have t: "lock_inv ?t" "lock_call_of k ?t = Some c" "lenders_ok ?t"
    using assms by (simp_all add: lock_call_of_def)
  have "lenders_ok (set_phase k (L_Waiting d w) ?t)" for d w
    by (rule lenders_phase [OF t(1,2) assms(3) t(3)]) simp
  then show ?thesis
    using lenders_take [OF assms] lenders_end [OF t(3)] by (simp add: try_lock_def Let_def id end_call_def)
qed

lemma lenders_call:
  assumes "lock_inv s" and "lenders_ok s"
  shows "lenders_ok (call_lock p path store wait s)"
  using assms(2) by (fastforce simp: lenders_ok_def lent_def call_lock_def)

lemma lock_step_lenders:
  assumes "lock_inv s" and "lenders_ok s"
  shows "lenders_ok (lock_step m s)"
  using assms
  by (cases m) (auto simp: lenders_call lenders_end end_call_def intro!: lenders_phase lenders_try inherits_lent
      split: option.split lock_phase.split)

section \<open>Attempts\<close>

definition most_tries :: "int \<Rightarrow> nat" where
  "most_tries w = nat ((max 0 w + 49) div 50) + 1"

definition tries_of :: "lock_call \<Rightarrow> vault_locks \<Rightarrow> nat" where
  "tries_of c s = count_list (vl_tries s) (lk_id c, lk_wait c)"

text \<open>
  A call that waits has tried every 50 ms since it opened the lock file, so its next attempt is late by as many steps.
\<close>

definition call_tries_ok :: "lock_call \<Rightarrow> vault_locks \<Rightarrow> bool" where
  "call_tries_ok c s \<longleftrightarrow>
     (case lk_phase c of
        L_Resolving \<Rightarrow> tries_of c s = 0
      | L_Opening d \<Rightarrow> tries_of c s = 0
      | L_Waiting d wake \<Rightarrow>
          50 * (int (tries_of c s) - 1) < max 0 (lk_wait c) \<and> min d (d - max 0 (lk_wait c) + 50 * int (tries_of c s)) \<le> wake
      | _ \<Rightarrow> True)"

definition tries_ok :: "vault_locks \<Rightarrow> bool" where
  "tries_ok s \<longleftrightarrow>
     (\<forall>k w. count_list (vl_tries s) (k, w) \<le> most_tries w) \<and> (\<forall>x \<in> set (vl_tries s). fst x < vl_next s) \<and>
     (\<forall>c \<in> set (vl_calls s). call_tries_ok c s)"

lemma most_triesI:
  assumes "50 * (int n - 1) < max 0 w"
  shows "n \<le> most_tries w - 1"
proof -
  have "50 * (i - 1) < m \<Longrightarrow> i * 50 \<le> m + 49" for i m :: int by (simp add: algebra_simps)
  with assms have "int n * 50 \<le> max 0 w + 49" by blast
  then have "int n * 50 div 50 \<le> (max 0 w + 49) div 50" by (rule zdiv_mono1) simp
  then have "int n \<le> (max 0 w + 49) div 50" by simp
  then show ?thesis unfolding most_tries_def by linarith
qed

lemma call_tries_cong:
  assumes "tries_of c s' = tries_of c s"
  shows "call_tries_ok c s' = call_tries_ok c s"
  unfolding call_tries_ok_def assms ..

lemma tries_same:
  assumes "tries_ok s" and "vl_tries s' = vl_tries s" and "vl_next s \<le> vl_next s'"
    and "\<And>c. c \<in> set (vl_calls s') \<Longrightarrow> c \<in> set (vl_calls s) \<or> call_tries_ok c s"
  shows "tries_ok s'"
proof -
  have "call_tries_ok c s' = call_tries_ok c s" for c
    by (rule call_tries_cong) (simp add: tries_of_def assms(2))
  with assms show ?thesis by (fastforce simp: tries_ok_def)
qed

lemma phase_in: "c \<in> set (vl_calls (set_phase k ph s)) \<Longrightarrow> c \<in> set (vl_calls s) \<or>
    (\<exists>d \<in> set (vl_calls s). lk_id d = k \<and> c = d\<lparr>lk_phase := ph\<rparr>)"
  by (auto simp: phase_calls rephase_def)

lemma tries_phase:
  assumes "lock_inv s" and "tries_ok s" and "lock_call_of k s = Some c" and "call_tries_ok (c\<lparr>lk_phase := ph\<rparr>) s"
  shows "tries_ok (set_phase k ph s)"
proof (rule tries_same [OF assms(2)])
  have c: "c \<in> set (vl_calls s)" "lk_id c = k" using lock_call_of_Some [OF assms(3)] by simp_all
  fix d assume "d \<in> set (vl_calls (set_phase k ph s))"
  then consider "d \<in> set (vl_calls s)" | e where "e \<in> set (vl_calls s)" "lk_id e = k" "d = e\<lparr>lk_phase := ph\<rparr>"
    using phase_in by blast
  then show "d \<in> set (vl_calls s) \<or> call_tries_ok d s"
  proof cases
    case 2
    with lock_inv_unique [OF assms(1) 2(1) c(1)] c(2) assms(4) show ?thesis by simp
  qed simp
qed (simp_all add: set_phase_fields)

lemma tries_end: "tries_ok s \<Longrightarrow> tries_ok (end_calls P s)"
  by (rule tries_same) (auto simp: end_calls_def)

lemma tries_call:
  assumes "tries_ok s"
  shows "tries_ok (call_lock p path store wait s)"
proof -
  have "(vl_next s, wait) \<notin> set (vl_tries s)" using assms by (force simp: tries_ok_def)
  then have "count_list (vl_tries s) (vl_next s, wait) = 0" by (simp add: count_list_0_iff)
  then have "call_tries_ok \<lparr>lk_id = vl_next s, lk_process = p, lk_path = path, lk_store = store, lk_wait = wait,
      lk_phase = L_Resolving\<rparr> s" by (simp add: call_tries_ok_def tries_of_def)
  then show ?thesis
    by (cases "context_possible p store s") (auto simp: call_lock_def assms intro!: tries_same [OF assms])
qed

text \<open>An attempt at a time that is not too early.\<close>

lemma tries_try:
  assumes "lock_inv s" and "tries_ok s" and "lock_call_of k s = Some c"
    and early: "50 * (int (tries_of c s) - 1) < max 0 (lk_wait c)"
    and time: "min d (d - max 0 (lk_wait c) + 50 * int (tries_of c s)) \<le> now"
  shows "tries_ok (try_lock c d now s)"
proof -
  have c: "c \<in> set (vl_calls s)" "lk_id c = k" using lock_call_of_Some [OF assms(3)] by simp_all
  let ?t = "s\<lparr>vl_tries := vl_tries s @ [(k, lk_wait c)]\<rparr>"
  have count: "count_list (vl_tries ?t) (i, w) = count_list (vl_tries s) (i, w) + (if i = k \<and> w = lk_wait c then 1 else 0)" for i w
    by simp
  have other: "call_tries_ok e ?t" if "e \<in> set (vl_calls s)" "lk_id e \<noteq> k" for e
  proof -
    have "tries_of e ?t = tries_of e s" using that(2) by (simp add: tries_of_def)
    moreover have "call_tries_ok e s" using that(1) assms(2) by (simp add: tries_ok_def)
    ultimately show ?thesis using call_tries_cong by blast
  qed
  have most: "count_list (vl_tries ?t) (i, w) \<le> most_tries w" for i w
  proof (cases "i = k \<and> w = lk_wait c")
    case True
    with most_triesI [OF early] show ?thesis by (simp add: tries_of_def c(2) most_tries_def)
  next
    case False
    with assms(2) show ?thesis by (auto simp: tries_ok_def)
  qed
  have known: "\<forall>x \<in> set (vl_tries ?t). fst x < vl_next s"
    using assms(1,2) c by (auto simp: tries_ok_def lock_inv_def)
  have decided: "tries_ok s'"
    if "vl_tries s' = vl_tries ?t" "vl_next s' = vl_next s"
      "\<And>e. e \<in> set (vl_calls s') \<Longrightarrow> e \<in> set (vl_calls s) \<and> lk_id e \<noteq> k \<or> call_tries_ok e ?t" for s'
  proof -
    have "call_tries_ok e s' = call_tries_ok e ?t" for e
      by (rule call_tries_cong) (simp add: tries_of_def that(1))
    then have "call_tries_ok e s'" if "e \<in> set (vl_calls s')" for e
      using that \<open>\<And>e. e \<in> set (vl_calls s') \<Longrightarrow> _\<close> [OF that] other by blast
    then show ?thesis using most known that(1,2) by (simp add: tries_ok_def)
  qed
  have phased: "tries_ok s'"
    if "vl_tries s' = vl_tries ?t" "vl_next s' = vl_next s" "vl_calls s' = vl_calls (set_phase k ph s)"
      "call_tries_ok (c\<lparr>lk_phase := ph\<rparr>) ?t" for s' ph
  proof (rule decided [OF that(1,2)])
    fix e assume "e \<in> set (vl_calls s')"
    then have "e \<in> set (vl_calls s) \<and> lk_id e \<noteq> k \<or> e = c\<lparr>lk_phase := ph\<rparr>"
      using lock_inv_unique [OF assms(1) _ c(1)] c(2) by (auto simp: that(3) phase_calls rephase_def)
    with that(4) show "e \<in> set (vl_calls s) \<and> lk_id e \<noteq> k \<or> call_tries_ok e ?t" by blast
  qed
  have n: "tries_of c ?t = tries_of c s + 1" by (simp add: tries_of_def c(2))
  show ?thesis
  proof (cases "vl_owner s (lk_path c)")
    case None
    have "tries_ok (set_phase k L_Holding (?t\<lparr>vl_owner := (vl_owner s)(lk_path c := Some k)\<rparr>))"
      by (rule phased [where ph = L_Holding]) (simp_all add: set_phase_def call_tries_ok_def)
    with None show ?thesis by (simp add: try_lock_def Let_def c(2))
  next
    case (Some h)
    show ?thesis
    proof (cases "d \<le> now")
      case True
      have "tries_ok (end_call k ?t)" by (rule decided) (auto simp: end_call_def end_calls_def)
      with Some True show ?thesis by (simp add: try_lock_def Let_def c(2))
    next
      case False
      have "tries_of (c\<lparr>lk_phase := ph\<rparr>) ?t = tries_of c s + 1" for ph by (simp add: tries_of_def c(2))
      then have "call_tries_ok (c\<lparr>lk_phase := L_Waiting d (now + retry_delay d now)\<rparr>) ?t"
        using False time by (simp add: call_tries_ok_def retry_delay_def) linarith
      then have "tries_ok (set_phase k (L_Waiting d (now + retry_delay d now)) ?t)"
        by (intro phased) (simp_all add: set_phase_def)
      with Some False show ?thesis by (simp add: try_lock_def Let_def c(2))
    qed
  qed
qed

lemma tries_resolved:
  assumes "lock_inv s" and "tries_ok s" and "lock_call_of k s = Some c" and "lk_phase c = L_Resolving"
  shows "tries_ok (set_phase k L_Inside s)" and "tries_ok (set_phase k (L_Opening d) s)"
proof -
  have "call_tries_ok c s" using assms(2) lock_call_of_Some [OF assms(3)] by (simp add: tries_ok_def)
  then have "tries_of c s = 0" using assms(4) by (simp add: call_tries_ok_def)
  then show "tries_ok (set_phase k L_Inside s)" "tries_ok (set_phase k (L_Opening d) s)"
    by (simp_all add: tries_phase [OF assms(1,2,3)] call_tries_ok_def tries_of_def)
qed

lemma tries_opened:
  assumes "lock_inv s" and "tries_ok s" and "lock_call_of k s = Some c" and "lk_phase c = L_Opening d"
    and "d - max 0 (lk_wait c) \<le> now"
  shows "tries_ok (try_lock c d now s)"
proof -
  have "call_tries_ok c s" using assms(2) lock_call_of_Some [OF assms(3)] by (simp add: tries_ok_def)
  then have "tries_of c s = 0" using assms(4) by (simp add: call_tries_ok_def)
  with assms(5) show ?thesis by (intro tries_try [OF assms(1,2,3)]) simp_all
qed

lemma tries_retry:
  assumes "lock_inv s" and "tries_ok s" and "lock_call_of k s = Some c" and "lk_phase c = L_Waiting d wake"
    and "wake \<le> now"
  shows "tries_ok (try_lock c d now s)"
proof -
  have "call_tries_ok c s" using assms(2) lock_call_of_Some [OF assms(3)] by (simp add: tries_ok_def)
  with assms(4,5) show ?thesis by (intro tries_try [OF assms(1,2,3)]) (simp_all add: call_tries_ok_def)
qed

lemma lock_step_tries: "lock_inv s \<Longrightarrow> tries_ok s \<Longrightarrow> tries_ok (lock_step m s)"
  by (cases m) (auto simp: tries_call tries_end end_call_def intro: tries_resolved tries_opened tries_retry
      split: option.split lock_phase.split)

end
