(* ===== verification/Write_Props.thy ===== *)
theory Write_Props
  imports Lock_Props
begin

text \<open>
  The properties of the write lock and the write queue, for any number of queues in any number of processes and other
  callers of the lock.
\<close>

section \<open>The locks of a system\<close>

text \<open>A move of the system moves its locks by one lock move or not at all.\<close>

lemma dequeue_locks:
  "snd (dequeue store q locks) = locks \<or> (\<exists>path wait. snd (dequeue store q locks) = call_lock (wq_process q) path store wait locks)"
  by (auto simp: dequeue_def begin_task_def Let_def split: list.split option.split)

lemma write_step_locks:
  "ws_locks (write_move_step m s) = ws_locks s \<or> (\<exists>lm. ws_locks (write_move_step m s) = lock_step lm (ws_locks s))"
proof -
  have "\<exists>lm. call_lock p path store wait locks = lock_step lm locks" for p path store wait locks
    by (rule exI [where x = "Lm_Call p path store wait"]) simp
  then have deq: "snd (dequeue store q locks) = locks \<or> (\<exists>lm. snd (dequeue store q locks) = lock_step lm locks)"
    for store q locks using dequeue_locks [of store q locks] by metis
  show ?thesis
  proof (cases m)
    case (Wm_Run n prio t wait store)
    then show ?thesis using deq by (auto simp: on_queue_def run_task_def split: prod.split) (metis snd_conv)+
  next
    case (Wm_Settled n)
    then show ?thesis using deq by (auto simp: on_queue_def settle_task_def split: prod.split) (metis snd_conv)+
  next
    case (Wm_Lock lm)
    have "ws_locks (write_move_step (Wm_Lock lm) s) = lock_step lm (ws_locks s)" by (cases lm) simp_all
    with Wm_Lock show ?thesis by blast
  qed
qed

lemma new_system_locks [simp]: "ws_locks (new_system qs) = new_locks"
  by (simp add: new_system_def)

definition system_inv :: "write_system \<Rightarrow> bool" where
  "system_inv s \<longleftrightarrow> lock_inv (ws_locks s) \<and> contexts_ok (ws_locks s) \<and> lenders_ok (ws_locks s) \<and>
     tries_ok (ws_locks s)"

lemma new_system_inv: "system_inv (new_system qs)"
  by (simp add: system_inv_def new_lock_inv) (simp add: new_locks_def contexts_ok_def lenders_ok_def tries_ok_def most_tries_def)

lemma write_step_inv: "system_inv s \<Longrightarrow> system_inv (write_move_step m s)"
  using write_step_locks [of m s] by (auto simp: system_inv_def lock_step_inv lock_step_contexts lock_step_lenders lock_step_tries)

interpretation write_system: protocol_invariant "\<lambda>s t. \<exists>m. t = write_move_step m s" system_inv
  by unfold_locales (auto simp: write_step_inv)

interpretation write_moves: operations write_move_step "\<lambda>s t. \<exists>m. t = write_move_step m s"
  by unfold_locales blast

lemma reached_system_inv: "system_inv (run_writes moves (new_system qs))"
  unfolding run_writes_def using write_system.run_keeps [OF write_moves.fold_follows] new_system_inv by blast

lemma owner_holds:
  "vl_owner (ws_locks (run_writes moves (new_system qs))) p = Some k \<longleftrightarrow>
     holds_lock k p (ws_locks (run_writes moves (new_system qs)))"
  using reached_system_inv [of moves qs] by (simp add: system_inv_def lock_inv_def)

text \<open>
  C31. The lock of a vault belongs exactly to the call whose function runs under it: whatever ends a call, a result, an
  exception, a busy vault or the end of its process, no lock stays behind, and no function runs under a lock it does
  not have.
\<close>

theorem lock_belongs_to_its_holder:
  "vl_owner (ws_locks (run_writes moves (new_system qs))) p = Some k \<longleftrightarrow>
     holds_lock k p (ws_locks (run_writes moves (new_system qs)))"
  by (rule owner_holds)

text \<open>
  Waiting for a vault is bounded: a call that is ready to wait for \<open>w\<close> milliseconds tries the lock at most once
  every 50 milliseconds of them and once more, however long the vault stays in use.
\<close>

theorem lock_waits_are_bounded:
  "count_list (vl_tries (ws_locks (run_writes moves (new_system qs)))) (k, w) \<le> nat ((max 0 w + 49) div 50) + 1"
  using reached_system_inv [of moves qs] by (simp add: system_inv_def tries_ok_def most_tries_def)

section \<open>One writer\<close>

text \<open>
  A call is at work under the lock of another or its own. The function of a call outlives its lock when it works under the
  lock of another whose function has returned meanwhile.
\<close>

definition at_work_under :: "nat \<Rightarrow> lock_call \<Rightarrow> bool" where
  "at_work_under k c \<longleftrightarrow> lk_phase c = L_Holding \<and> lk_id c = k \<or> lk_phase c = L_Inside \<and> lk_store c = Some k"

definition outlives_lock :: "lock_call \<Rightarrow> vault_locks \<Rightarrow> bool" where
  "outlives_lock c s \<longleftrightarrow>
     lk_phase c = L_Inside \<and> (\<exists>k. lk_store c = Some k \<and> list_all (\<lambda>h. lk_id h \<noteq> k) (vl_calls s))"

lemma at_work_holds:
  assumes "lenders_ok s" and "c \<in> set (vl_calls s)" and "lk_phase c \<in> {L_Holding, L_Inside}" and "\<not> outlives_lock c s"
  shows "\<exists>k. holds_lock k (lk_path c) s \<and> at_work_under k c"
proof (cases "lk_phase c = L_Holding")
  case True
  with assms(2) show ?thesis by (auto simp: at_work_under_def holds_lock_def)
next
  case False
  with assms have inside: "lk_phase c = L_Inside" and "lent c s" by (auto simp: lenders_ok_def)
  with assms(4) show ?thesis by (fastforce simp: lent_def at_work_under_def holds_lock_def outlives_lock_def list_all_iff)
qed

text \<open>
  C30. A vault has one writer: all functions that run for one vault at a moment, of any queues and processes, belong to one
  call that holds its lock, those apart that inherited the lock of a call whose function has returned meanwhile.
\<close>

theorem one_writer_per_vault:
  assumes "c \<in> set (vl_calls (ws_locks (run_writes moves (new_system qs))))" and "lk_phase c \<in> {L_Holding, L_Inside}"
    and "d \<in> set (vl_calls (ws_locks (run_writes moves (new_system qs))))" and "lk_phase d \<in> {L_Holding, L_Inside}"
    and "lk_path c = lk_path d"
    and "\<not> outlives_lock c (ws_locks (run_writes moves (new_system qs)))"
    and "\<not> outlives_lock d (ws_locks (run_writes moves (new_system qs)))"
  shows "\<exists>k. holds_lock k (lk_path c) (ws_locks (run_writes moves (new_system qs))) \<and> at_work_under k c \<and> at_work_under k d"
proof -
  let ?s = "ws_locks (run_writes moves (new_system qs))"
  have "lenders_ok ?s" using reached_system_inv [of moves qs] by (simp add: system_inv_def)
  from at_work_holds [OF this assms(1,2,6)] at_work_holds [OF this assms(3,4,7)] obtain k h where
    k: "holds_lock k (lk_path c) ?s" "at_work_under k c" and h: "holds_lock h (lk_path c) ?s" "at_work_under h d"
    by (auto simp: assms(5))
  from k(1) h(1) have "vl_owner ?s (lk_path c) = Some k" "vl_owner ?s (lk_path c) = Some h"
    by (simp_all add: owner_holds)
  with k h show ?thesis by auto
qed

section \<open>The order of a queue\<close>

definition pushed_tasks :: "queue_priority \<Rightarrow> queue_event list \<Rightarrow> nat list" where
  "pushed_tasks l es = List.map_filter (\<lambda>e. case e of Q_Pushed p t \<Rightarrow> if p = l then Some t else None | _ \<Rightarrow> None) es"

definition started_tasks :: "queue_priority \<Rightarrow> queue_event list \<Rightarrow> nat list" where
  "started_tasks l es = List.map_filter (\<lambda>e. case e of Q_Started p t \<Rightarrow> if p = l then Some t else None | _ \<Rightarrow> None) es"

fun waiting_tasks :: "queue_priority \<Rightarrow> write_queue \<Rightarrow> nat list" where
  "waiting_tasks Q_Interactive q = map fst (wq_interactive q)"
| "waiting_tasks Q_Background q = map fst (wq_background q)"

text \<open>No background task starts while an interactive task waits.\<close>

definition interactive_first :: "queue_event list \<Rightarrow> bool" where
  "interactive_first es \<longleftrightarrow>
     (\<forall>before t after. es = before @ Q_Started Q_Background t # after \<longrightarrow>
        started_tasks Q_Interactive before = pushed_tasks Q_Interactive before)"

definition in_order :: "write_queue \<Rightarrow> bool" where
  "in_order q \<longleftrightarrow>
     (\<forall>l. started_tasks l (wq_log q) @ waiting_tasks l q = pushed_tasks l (wq_log q)) \<and> interactive_first (wq_log q)"

definition idle_is_empty :: "write_queue \<Rightarrow> bool" where
  "idle_is_empty q \<longleftrightarrow> (wq_running q = None \<longrightarrow> wq_interactive q = [] \<and> wq_background q = [])"

lemma task_lists [simp]:
  "pushed_tasks l [] = []" "started_tasks l [] = []"
  "pushed_tasks l (es @ [Q_Pushed p t]) = pushed_tasks l es @ (if p = l then [t] else [])"
  "pushed_tasks l (es @ [Q_Started p t]) = pushed_tasks l es"
  "started_tasks l (es @ [Q_Started p t]) = started_tasks l es @ (if p = l then [t] else [])"
  "started_tasks l (es @ [Q_Pushed p t]) = started_tasks l es"
  by (simp_all add: pushed_tasks_def started_tasks_def List.map_filter_def)

lemma interactive_first_snoc [simp]:
  "interactive_first (es @ [e]) \<longleftrightarrow>
     interactive_first es \<and>
     (\<forall>t. e = Q_Started Q_Background t \<longrightarrow> started_tasks Q_Interactive es = pushed_tasks Q_Interactive es)"
proof -
  have split: "es @ [e] = before @ x # after \<longleftrightarrow>
      after = [] \<and> before = es \<and> x = e \<or> (\<exists>rest. after = rest @ [e] \<and> es = before @ x # rest)" for before x after
    by (cases after rule: rev_cases) auto
  show ?thesis unfolding interactive_first_def split by blast
qed

lemma interactive_first_Nil [simp]: "interactive_first []"
  by (simp add: interactive_first_def)

lemma new_write_queue_order: "in_order (new_write_queue pv) \<and> idle_is_empty (new_write_queue pv)"
proof -
  have "waiting_tasks l (new_write_queue pv) = []" for l by (cases l) (simp_all add: new_write_queue_def)
  then show ?thesis by (simp add: in_order_def idle_is_empty_def) (simp add: new_write_queue_def)
qed

lemma all_priorities: "(\<forall>l. P l) \<longleftrightarrow> P Q_Interactive \<and> P Q_Background"
  by (metis queue_priority.exhaust)

lemma push_order: "in_order q \<Longrightarrow> in_order (push_task prio t wait q)"
  by (cases prio) (auto simp: in_order_def all_priorities)

lemma begin_fields:
  "wq_log (fst (begin_task prio t wait store q locks)) = wq_log q @ [Q_Started prio t]"
  "wq_interactive (fst (begin_task prio t wait store q locks)) = wq_interactive q"
  "wq_background (fst (begin_task prio t wait store q locks)) = wq_background q"
  "wq_running (fst (begin_task prio t wait store q locks)) \<noteq> None"
  by (simp_all add: begin_task_def Let_def split: option.split)

lemma dequeue_order: "in_order q \<Longrightarrow> in_order (fst (dequeue store q locks))"
  by (auto simp: dequeue_def in_order_def all_priorities begin_fields split: list.split)

lemma dequeue_idle: "idle_is_empty (fst (dequeue store q locks))"
  by (auto simp: dequeue_def idle_is_empty_def begin_fields split: list.split)

lemma settled_order: "in_order (q\<lparr>wq_running := None\<rparr>) = in_order q"
  by (simp add: in_order_def all_priorities)

definition queues_ok :: "write_system \<Rightarrow> bool" where
  "queues_ok s \<longleftrightarrow> (\<forall>q \<in> set (ws_queues s). in_order q \<and> idle_is_empty q)"

lemma on_queue_ok:
  assumes "queues_ok s" and "\<And>q locks. in_order q \<Longrightarrow> idle_is_empty q \<Longrightarrow> in_order (fst (act q locks)) \<and> idle_is_empty (fst (act q locks))"
  shows "queues_ok (on_queue n act s)"
proof (cases "n < length (ws_queues s)")
  case True
  with assms(1) have q: "in_order (ws_queues s ! n)" "idle_is_empty (ws_queues s ! n)" by (simp_all add: queues_ok_def)
  obtain q' locks where r: "act (ws_queues s ! n) (ws_locks s) = (q', locks)" by force
  with assms(2) [OF q, of "ws_locks s"] have "in_order q' \<and> idle_is_empty q'" by simp
  then show ?thesis
    using assms(1) True r set_update_subset_insert [of "ws_queues s" n q'] by (auto simp: on_queue_def queues_ok_def)
qed (simp add: on_queue_def assms(1))

lemma write_step_queues: "queues_ok s \<Longrightarrow> queues_ok (write_move_step m s)"
proof (cases m)
  case (Wm_Lock lm)
  assume "queues_ok s"
  with Wm_Lock show ?thesis using new_write_queue_order by (cases lm) (auto simp: queues_ok_def)
qed (auto simp: run_task_def settle_task_def push_order dequeue_order dequeue_idle settled_order intro!: on_queue_ok)

interpretation write_queues: protocol_invariant "\<lambda>s t. \<exists>m. t = write_move_step m s" queues_ok
  by unfold_locales (auto simp: write_step_queues)

text \<open>
  A queue keeps its order and never sleeps: the tasks of each priority start in the order in which they were
  given to the queue, a background task only starts when no interactive task waits, and while no task runs none waits.
\<close>

theorem write_queue_keeps_order:
  assumes "q \<in> set (ws_queues (run_writes moves (new_system qs)))"
  shows "pushed_tasks l (wq_log q) = started_tasks l (wq_log q) @ waiting_tasks l q \<and>
    interactive_first (wq_log q) \<and> idle_is_empty q"
proof -
  have "queues_ok (new_system qs)" using new_write_queue_order by (auto simp: queues_ok_def new_system_def)
  then have "queues_ok (run_writes moves (new_system qs))"
    unfolding run_writes_def using write_queues.run_keeps [OF write_moves.fold_follows] by blast
  with assms show ?thesis by (simp add: queues_ok_def in_order_def)
qed

end
