(* ===== verification/Write_Examples.thy ===== *)
theory Write_Examples
  imports Write_Props
begin

text \<open>
  The properties of the write lock and the write queue at concrete inputs, and two runs in which a function works on a
  vault without its lock: the inherited ownership is only looked at when a call begins.
\<close>

definition demo_queues :: "(nat \<times> string option) list" where
  "demo_queues = [(1, Some ''v''), (2, Some ''v'')]"

text \<open>
  Two queues of two processes run a task for the same vault; the first gets the lock and its function makes a nested call.
\<close>

definition demo_writes :: "write_move list" where
  "demo_writes =
     [Wm_Run 0 Q_Interactive 10 100 None, Wm_Run 0 Q_Background 11 100 None, Wm_Run 0 Q_Interactive 12 100 None,
      Wm_Run 1 Q_Interactive 20 100 None, Wm_Lock (Lm_Resolved 0 0), Wm_Lock (Lm_Resolved 1 0),
      Wm_Lock (Lm_Opened 0 1), Wm_Lock (Lm_Opened 1 1), Wm_Lock (Lm_Call 1 ''v'' (Some 0) 0), Wm_Lock (Lm_Resolved 2 5)]"

abbreviation demo_system :: "write_move list \<Rightarrow> write_system" where
  "demo_system ms \<equiv> run_writes ms (new_system demo_queues)"

definition call_phases :: "write_system \<Rightarrow> (nat \<times> string \<times> lock_phase \<times> nat option) list" where
  "call_phases s = map (\<lambda>c. (lk_id c, lk_path c, lk_phase c, lk_store c)) (vl_calls (ws_locks s))"

lemma demo_phases:
  "call_phases (demo_system demo_writes) =
     [(0, ''v'', L_Holding, None), (1, ''v'', L_Waiting 100 51, None), (2, ''v'', L_Inside, Some 0)]"
  by code_simp

lemma one_writer_per_vault_witness:
  "\<exists>c d k. lk_phase c = L_Holding \<and> lk_phase d = L_Inside \<and> holds_lock k ''v'' (ws_locks (demo_system demo_writes)) \<and>
     at_work_under k c \<and> at_work_under k d"
proof -
  from demo_phases obtain c e d where calls: "vl_calls (ws_locks (demo_system demo_writes)) = [c, e, d]"
    and c: "lk_path c = ''v''" "lk_phase c = L_Holding" "lk_id c = 0"
    and d: "lk_path d = ''v''" "lk_phase d = L_Inside" "lk_store d = Some 0"
    by (auto simp: call_phases_def map_eq_Cons_conv)
  then have "c \<in> set (vl_calls (ws_locks (demo_system demo_writes)))" "d \<in> set (vl_calls (ws_locks (demo_system demo_writes)))"
    and "\<not> outlives_lock c (ws_locks (demo_system demo_writes))" "\<not> outlives_lock d (ws_locks (demo_system demo_writes))"
    by (simp_all add: outlives_lock_def)
  from one_writer_per_vault [OF this(1) _ this(2) _ _ this(3,4)] c d show ?thesis by auto
qed

text \<open>The other process gets the vault when the holder has returned, and the queue goes on with its interactive task.\<close>

definition demo_later :: "write_move list" where
  "demo_later =
     demo_writes @ [Wm_Lock (Lm_Return 2), Wm_Lock (Lm_Return 0), Wm_Settled 0, Wm_Lock (Lm_Retry 1 51)]"

lemma demo_later_run:
  "call_phases (demo_system demo_later) = [(1, ''v'', L_Holding, None), (3, ''v'', L_Resolving, None)]"
  "map wq_running (ws_queues (demo_system demo_later)) = [Some (12, Some 3), Some (20, Some 1)]"
  by code_simp+

lemma write_queue_keeps_order_witness:
  "pushed_tasks Q_Interactive (wq_log (ws_queues (demo_system demo_later) ! 0)) =
     started_tasks Q_Interactive (wq_log (ws_queues (demo_system demo_later) ! 0)) @
     waiting_tasks Q_Interactive (ws_queues (demo_system demo_later) ! 0) \<and>
   interactive_first (wq_log (ws_queues (demo_system demo_later) ! 0)) \<and> idle_is_empty (ws_queues (demo_system demo_later) ! 0)"
proof (rule write_queue_keeps_order)
  have "length (ws_queues (demo_system demo_later)) = 2" using demo_later_run(2) by (metis length_map length_Cons list.size(3) numeral_2_eq_2)
  then show "ws_queues (demo_system demo_later) ! 0 \<in> set (ws_queues (demo_system demo_later))" by simp
qed

section \<open>Without the lock\<close>

text \<open>A function does not await a nested call and returns; the lock goes to the other process, and both work.\<close>

lemma a_nested_write_can_outlive_its_lock:
  "call_phases (demo_system (demo_writes @ [Wm_Lock (Lm_Return 0), Wm_Lock (Lm_Retry 1 51)])) =
     [(1, ''v'', L_Holding, None), (2, ''v'', L_Inside, Some 0)]"
  by code_simp

text \<open>
  A function that holds the lock gives an idle queue a task; a second task, from elsewhere, runs after it in the same context
  and so inside of the lock of that function, which does not await it.
\<close>

definition demo_context :: "write_move list" where
  "demo_context =
     [Wm_Lock (Lm_Call 1 ''v'' None 100), Wm_Lock (Lm_Resolved 0 0), Wm_Lock (Lm_Opened 0 1),
      Wm_Run 0 Q_Interactive 10 100 (Some 0), Wm_Run 0 Q_Interactive 11 100 None,
      Wm_Lock (Lm_Resolved 1 2), Wm_Lock (Lm_Return 1), Wm_Settled 0, Wm_Lock (Lm_Resolved 2 3), Wm_Lock (Lm_Return 0)]"

lemma a_task_can_run_in_the_lock_of_another:
  "call_phases (demo_system demo_context) = [(2, ''v'', L_Inside, Some 0)]"
  "map wq_running (ws_queues (demo_system demo_context)) = [Some (11, Some 2), None]"
  "vl_owner (ws_locks (demo_system demo_context)) ''v'' = None"
  by code_simp+

end
