(* ===== verification/Usage_Store.thy ===== *)
theory Usage_Store
  imports Prelude
begin

text \<open>
  The usage ledger of a chassis unit (packages/mcp-chassis/src/usage.ts): raw events, running totals with a watermark,
  days into which old events are rolled up, summaries, and the quota decision.

  \<^item> Several processes may have the same database open; every statement outside a transaction and every transaction is
    one step. A process migrates the totals when it opens the database and serves after that.
  \<^item> \<open>uy_history\<close> lists the rows that were ever in the database. Nothing reads it; the properties speak about it.
  \<^item> A number from outside is an integer, lies between two integers, or is not finite. \<open>Inl\<close> is a thrown error. The
    measurements that a prune run returns are left out.
\<close>

section \<open>Numbers and names\<close>

text \<open>\<open>Un_Between n\<close> is a number above \<open>n\<close> and below \<open>n + 1\<close>.\<close>

datatype usage_number = Un_Int int | Un_Between int | Un_Not_Finite

fun negative :: "usage_number \<Rightarrow> bool" where
  "negative (Un_Int n) \<longleftrightarrow> n < 0"
| "negative (Un_Between n) \<longleftrightarrow> n < 0"
| "negative Un_Not_Finite \<longleftrightarrow> False"

fun truncated :: "usage_number \<Rightarrow> int" where
  "truncated (Un_Int n) = n"
| "truncated (Un_Between n) = (if n < 0 then n + 1 else n)"
| "truncated Un_Not_Finite = 0"

definition day_ms :: int where "day_ms = 86400000"

definition kind_char :: "char \<Rightarrow> bool" where
  "kind_char c \<longleftrightarrow> (let n = of_char c :: nat in 48 \<le> n \<and> n \<le> 57 \<or> 65 \<le> n \<and> n \<le> 90 \<or> 97 \<le> n \<and> n \<le> 122)"

definition event_kind :: "string \<Rightarrow> bool" where
  "event_kind s \<longleftrightarrow>
     (case s of [] \<Rightarrow> False
      | c # cs \<Rightarrow> kind_char c \<and> length cs \<le> 127 \<and> list_all (\<lambda>d. kind_char d \<or> d \<in> set ''_.:-'') cs)"

definition normalize_tenant_id :: "string \<Rightarrow> string + string" where
  "normalize_tenant_id i =
     (let t = js_trim i in if t = [] then Inl ''tenant id is required for usage metering'' else Inr t)"

definition normalize_kind :: "string \<Rightarrow> string + string" where
  "normalize_kind k =
     (let t = js_trim k
      in if event_kind t then Inr t
         else Inl ''usage kind must be 1-128 chars of A-Z, a-z, 0-9, _, ., :, or - and cannot start with punctuation'')"

definition normalize_units :: "usage_number \<Rightarrow> string + int" where
  "normalize_units u =
     (case u of Un_Int n \<Rightarrow> if n \<le> 0 then Inl ''usage units must be a positive integer'' else Inr n
      | _ \<Rightarrow> Inl ''usage units must be a positive integer'')"

definition normalize_timestamp :: "usage_number \<Rightarrow> string + int" where
  "normalize_timestamp v =
     (if v = Un_Not_Finite \<or> negative v then Inl ''usage timestamp must be a non-negative finite number''
      else Inr (truncated v))"

definition normalize_quota :: "usage_number option \<Rightarrow> string + int option" where
  "normalize_quota q =
     (case q of None \<Rightarrow> Inr None
      | Some v \<Rightarrow>
          if v = Un_Not_Finite \<or> negative v then Inl ''tenant quota must be a non-negative finite number''
          else Inr (Some (truncated v)))"

text \<open>The retention in days; an invalid number leaves it off.\<close>

definition resolve_retention_days :: "usage_number option \<Rightarrow> int option" where
  "resolve_retention_days raw =
     (case raw of None \<Rightarrow> None
      | Some v \<Rightarrow> if v = Un_Int 0 \<or> v = Un_Not_Finite \<or> truncated v < 1 then None else Some (truncated v))"

section \<open>Tables\<close>

record usage_row =
  ur_id :: nat
  ur_tenant :: string
  ur_ts :: int
  ur_kind :: string
  ur_units :: int
  ur_metadata :: "json option"

record usage_total =
  ut_tenant :: string
  ut_kind :: string
  ut_events :: int
  ut_units :: int

record usage_day =
  ud_tenant :: string
  ud_day :: int
  ud_kind :: string
  ud_events :: int
  ud_units :: int

record usage_db =
  us_rows :: "usage_row list"
  us_totals :: "usage_total list"
  us_daily :: "usage_day list"
  us_watermark :: "nat option"
  us_next :: nat

text \<open>The two upserts.\<close>

definition add_total :: "string \<Rightarrow> string \<Rightarrow> int \<Rightarrow> int \<Rightarrow> usage_total list \<Rightarrow> usage_total list" where
  "add_total t k events units totals =
     (if list_ex (\<lambda>r. ut_tenant r = t \<and> ut_kind r = k) totals
      then update_where (\<lambda>r. ut_tenant r = t \<and> ut_kind r = k)
        (\<lambda>r. r\<lparr>ut_events := ut_events r + events, ut_units := ut_units r + units\<rparr>) totals
      else totals @ [\<lparr>ut_tenant = t, ut_kind = k, ut_events = events, ut_units = units\<rparr>])"

definition add_day :: "string \<Rightarrow> int \<Rightarrow> string \<Rightarrow> int \<Rightarrow> int \<Rightarrow> usage_day list \<Rightarrow> usage_day list" where
  "add_day t d k events units days =
     (if list_ex (\<lambda>r. ud_tenant r = t \<and> ud_day r = d \<and> ud_kind r = k) days
      then update_where (\<lambda>r. ud_tenant r = t \<and> ud_day r = d \<and> ud_kind r = k)
        (\<lambda>r. r\<lparr>ud_events := ud_events r + events, ud_units := ud_units r + units\<rparr>) days
      else days @ [\<lparr>ud_tenant = t, ud_day = d, ud_kind = k, ud_events = events, ud_units = units\<rparr>])"

definition row_day :: "usage_row \<Rightarrow> int" where
  "row_day r = ur_ts r div day_ms"

text \<open>Counting grouped rows into the totals and into the days.\<close>

definition events_where :: "(usage_row \<Rightarrow> bool) \<Rightarrow> usage_row list \<Rightarrow> int" where
  "events_where p rows = int (count_where p rows)"

definition count_into_totals :: "usage_row list \<Rightarrow> usage_total list \<Rightarrow> usage_total list" where
  "count_into_totals rows totals =
     fold (\<lambda>(t, k). add_total t k (events_where (\<lambda>r. ur_tenant r = t \<and> ur_kind r = k) rows)
         (sum_where (\<lambda>r. ur_tenant r = t \<and> ur_kind r = k) ur_units rows))
       (remdups (map (\<lambda>r. (ur_tenant r, ur_kind r)) rows)) totals"

definition count_into_days :: "usage_row list \<Rightarrow> usage_day list \<Rightarrow> usage_day list" where
  "count_into_days rows days =
     fold (\<lambda>(t, d, k). add_day t d k (events_where (\<lambda>r. ur_tenant r = t \<and> row_day r = d \<and> ur_kind r = k) rows)
         (sum_where (\<lambda>r. ur_tenant r = t \<and> row_day r = d \<and> ur_kind r = k) ur_units rows))
       (remdups (map (\<lambda>r. (ur_tenant r, row_day r, ur_kind r)) rows)) days"

section \<open>Migration of the totals\<close>

definition backfill_chunk_rows :: nat where "backfill_chunk_rows = 50000"

definition reset_totals :: "usage_db \<Rightarrow> usage_db" where
  "reset_totals db = db\<lparr>us_totals := [], us_watermark := Some 0\<rparr>"

text \<open>The highest id of the next rows above the watermark that the process knows.\<close>

definition next_bound :: "nat \<Rightarrow> usage_db \<Rightarrow> nat option" where
  "next_bound w db =
     (case rev (take backfill_chunk_rows (order_by id (filter (\<lambda>i. w < i) (map ur_id (us_rows db))))) of
        [] \<Rightarrow> None | i # _ \<Rightarrow> Some i)"

definition watermark_of :: "usage_db \<Rightarrow> nat" where
  "watermark_of db = (case us_watermark db of None \<Rightarrow> 0 | Some w \<Rightarrow> w)"

definition backfill_chunk :: "nat \<Rightarrow> nat \<Rightarrow> usage_db \<Rightarrow> usage_db" where
  "backfill_chunk w hi db =
     (let current = watermark_of db
      in if current < hi
         then db\<lparr>us_totals := count_into_totals (filter (\<lambda>r. max current w < ur_id r \<and> ur_id r \<le> hi) (us_rows db)) (us_totals db),
                us_watermark := Some hi\<rparr>
         else db)"

section \<open>Recording\<close>

record usage_event_input =
  ui_tenant :: string
  ui_kind :: "string option"
  ui_units :: "usage_number option"
  ui_at :: "usage_number option"
  ui_metadata :: "json option"

definition default_request_kind :: string where "default_request_kind = ''mcp.request''"

definition or_default :: "'a option \<Rightarrow> 'a \<Rightarrow> 'a" where
  "or_default v d = (case v of None \<Rightarrow> d | Some w \<Rightarrow> w)"

definition usage_row_of :: "usage_event_input \<Rightarrow> int \<Rightarrow> nat \<Rightarrow> string + usage_row" where
  "usage_row_of inp now i =
     ebind (normalize_tenant_id (ui_tenant inp)) (\<lambda>t.
     ebind (normalize_kind (or_default (ui_kind inp) default_request_kind)) (\<lambda>k.
     ebind (normalize_units (or_default (ui_units inp) (Un_Int 1))) (\<lambda>u.
     ebind (normalize_timestamp (or_default (ui_at inp) (Un_Int now))) (\<lambda>ts.
     Inr \<lparr>ur_id = i, ur_tenant = t, ur_ts = ts, ur_kind = k, ur_units = u, ur_metadata = ui_metadata inp\<rparr>))))"

definition record_row :: "usage_row \<Rightarrow> usage_db \<Rightarrow> usage_db" where
  "record_row r db =
     db\<lparr>us_rows := us_rows db @ [r], us_totals := add_total (ur_tenant r) (ur_kind r) 1 (ur_units r) (us_totals db),
        us_watermark := Some (ur_id r), us_next := us_next db + 1\<rparr>"

section \<open>Pruning\<close>

definition prune_cutoff :: "int \<Rightarrow> int \<Rightarrow> int" where
  "prune_cutoff now retention = (now - retention) div day_ms * day_ms"

definition prunable_rows :: "int \<Rightarrow> nat \<Rightarrow> usage_db \<Rightarrow> usage_row list" where
  "prunable_rows cutoff n db =
     take n (order_by ur_ts
       (order_by ur_id (filter (\<lambda>r. ur_ts r < cutoff \<and> ur_id r \<le> watermark_of db) (us_rows db))))"

definition prune_batch :: "int \<Rightarrow> nat \<Rightarrow> usage_db \<Rightarrow> nat \<times> usage_db" where
  "prune_batch cutoff n db =
     (let rows = prunable_rows cutoff n db; ids = map ur_id rows
      in if rows = [] then (0, db)
         else (length rows,
           db\<lparr>us_daily := count_into_days (filter (\<lambda>r. ur_id r \<in> set ids) (us_rows db)) (us_daily db),
              us_rows := filter (\<lambda>r. ur_id r \<notin> set ids) (us_rows db)\<rparr>))"

section \<open>Summaries\<close>

record kind_bucket =
  ub_kind :: string
  ub_events :: int
  ub_units :: int

record usage_summary =
  uz_tenant :: string
  uz_since :: int
  uz_events :: int
  uz_units :: int
  uz_buckets :: "kind_bucket list"

definition all_of :: "('a \<Rightarrow> int) \<Rightarrow> 'a list \<Rightarrow> int" where
  "all_of f xs = sum_list (map f xs)"

definition kind_asked :: "string option \<Rightarrow> string \<Rightarrow> bool" where
  "kind_asked k kind \<longleftrightarrow> (case k of None \<Rightarrow> True | Some q \<Rightarrow> kind = q)"

definition total_buckets :: "string \<Rightarrow> usage_db \<Rightarrow> kind_bucket list" where
  "total_buckets t db =
     map (\<lambda>r. \<lparr>ub_kind = ut_kind r, ub_events = ut_events r, ub_units = ut_units r\<rparr>)
       (order_by ut_kind (filter (\<lambda>r. ut_tenant r = t) (us_totals db)))"

definition raw_buckets :: "string \<Rightarrow> int \<Rightarrow> string option \<Rightarrow> usage_db \<Rightarrow> kind_bucket list" where
  "raw_buckets t since k db =
     (let rows = filter (\<lambda>r. ur_tenant r = t \<and> since \<le> ur_ts r \<and> kind_asked k (ur_kind r)) (us_rows db)
      in map (\<lambda>kind. \<lparr>ub_kind = kind, ub_events = events_where (\<lambda>r. ur_kind r = kind) rows,
             ub_units = sum_where (\<lambda>r. ur_kind r = kind) ur_units rows\<rparr>)
           (sort (remdups (map ur_kind rows))))"

definition daily_buckets :: "string \<Rightarrow> int \<Rightarrow> string option \<Rightarrow> usage_db \<Rightarrow> kind_bucket list" where
  "daily_buckets t since k db =
     (let days = filter (\<lambda>r. ud_tenant r = t \<and> since div day_ms \<le> ud_day r \<and> kind_asked k (ud_kind r)) (us_daily db)
      in map (\<lambda>kind. \<lparr>ub_kind = kind, ub_events = sum_where (\<lambda>r. ud_kind r = kind) ud_events days,
             ub_units = sum_where (\<lambda>r. ud_kind r = kind) ud_units days\<rparr>)
           (sort (remdups (map ud_kind days))))"

definition merge_bucket :: "kind_bucket \<Rightarrow> kind_bucket list \<Rightarrow> kind_bucket list" where
  "merge_bucket b merged =
     (if list_ex (\<lambda>m. ub_kind m = ub_kind b) merged
      then update_where (\<lambda>m. ub_kind m = ub_kind b)
        (\<lambda>m. m\<lparr>ub_events := ub_events m + ub_events b, ub_units := ub_units m + ub_units b\<rparr>) merged
      else merged @ [b])"

definition summary_since :: "string \<Rightarrow> int \<Rightarrow> string option \<Rightarrow> usage_db \<Rightarrow> usage_summary" where
  "summary_since t since k db =
     (let raw = raw_buckets t since k db; daily = daily_buckets t since k db;
          p = \<lambda>r. ur_tenant r = t \<and> since \<le> ur_ts r \<and> kind_asked k (ur_kind r)
      in \<lparr>uz_tenant = t, uz_since = since,
          uz_events = events_where p (us_rows db) + all_of ub_events daily,
          uz_units = sum_where p ur_units (us_rows db) + all_of ub_units daily,
          uz_buckets = sort_key ub_kind (fold merge_bucket (raw @ daily) [])\<rparr>)"

definition summary_all :: "string \<Rightarrow> usage_db \<Rightarrow> usage_summary" where
  "summary_all t db =
     (let buckets = total_buckets t db
      in \<lparr>uz_tenant = t, uz_since = 0, uz_events = all_of ub_events buckets, uz_units = all_of ub_units buckets,
          uz_buckets = buckets\<rparr>)"

text \<open>An empty kind is no kind.\<close>

definition usage_summary_of ::
  "string \<Rightarrow> usage_number option \<Rightarrow> string option \<Rightarrow> usage_db \<Rightarrow> string + usage_summary" where
  "usage_summary_of tenant since kind db =
     ebind (normalize_tenant_id tenant) (\<lambda>t.
     ebind (normalize_timestamp (or_default since (Un_Int 0))) (\<lambda>from.
     case kind of
       None \<Rightarrow> Inr (if from = 0 then summary_all t db else summary_since t from None db)
     | Some k \<Rightarrow>
         if k = [] then Inr (if from = 0 then summary_all t db else summary_since t from None db)
         else ebind (normalize_kind k) (\<lambda>q. Inr (summary_since t from (Some q) db))))"

definition parse_metadata :: "json option \<Rightarrow> json option" where
  "parse_metadata v = (case v of Some (JObj kvs) \<Rightarrow> Some (JObj kvs) | _ \<Rightarrow> None)"

definition timeline_limit :: "int option \<Rightarrow> int" where
  "timeline_limit l = min (max (or_default l 200) 1) 2000"

definition usage_timeline ::
  "string \<Rightarrow> usage_number option \<Rightarrow> string option \<Rightarrow> int option \<Rightarrow> usage_db \<Rightarrow> string + usage_row list" where
  "usage_timeline tenant since kind limit db =
     ebind (normalize_tenant_id tenant) (\<lambda>t.
     ebind (normalize_timestamp (or_default since (Un_Int 0))) (\<lambda>from.
     ebind (case kind of None \<Rightarrow> Inr None
            | Some k \<Rightarrow> if k = [] then Inr None else map_sum id Some (normalize_kind k)) (\<lambda>q.
     Inr (map (\<lambda>r. r\<lparr>ur_metadata := parse_metadata (ur_metadata r)\<rparr>)
       (take (nat (timeline_limit limit))
         (rev (order_by ur_ts (order_by ur_id
           (filter (\<lambda>r. ur_tenant r = t \<and> from \<le> ur_ts r \<and> kind_asked q (ur_kind r)) (us_rows db))))))))))"

section \<open>Quota\<close>

record quota_decision =
  qd_allowed :: bool
  qd_quota :: "int option"
  qd_used :: "int option"
  qd_requested :: int
  qd_remaining :: "int option"

definition total_units :: "string \<Rightarrow> usage_db \<Rightarrow> int" where
  "total_units t db = sum_where (\<lambda>r. ut_tenant r = t) ut_units (us_totals db)"

definition check_quota ::
  "string \<Rightarrow> usage_number option \<Rightarrow> usage_number \<Rightarrow> usage_db \<Rightarrow> string + quota_decision" where
  "check_quota tenant quota requested db =
     ebind (normalize_units requested) (\<lambda>n.
     ebind (normalize_quota quota) (\<lambda>limit.
     case limit of
       None \<Rightarrow> Inr \<lparr>qd_allowed = True, qd_quota = None, qd_used = None, qd_requested = n, qd_remaining = None\<rparr>
     | Some q \<Rightarrow>
         ebind (normalize_tenant_id tenant) (\<lambda>t.
           let used = total_units t db; remaining = max (q - used) 0
           in Inr \<lparr>qd_allowed = n \<le> remaining, qd_quota = Some q, qd_used = Some used, qd_requested = n,
                 qd_remaining = Some remaining\<rparr>)))"

section \<open>Processes\<close>

datatype usage_phase =
  Up_Reading
| Up_Resetting
| Up_Bounding nat
| Up_Filling nat nat
| Up_Ready "int option"

record usage_process =
  uq_id :: nat
  uq_retention :: "int option"
  uq_batch :: nat
  uq_phase :: usage_phase

record usage_system =
  uy_db :: usage_db
  uy_processes :: "usage_process list"
  uy_history :: "usage_row list"

definition set_usage_phase :: "nat \<Rightarrow> usage_phase \<Rightarrow> usage_system \<Rightarrow> usage_system" where
  "set_usage_phase p ph s =
     s\<lparr>uy_processes := update_where (\<lambda>q. uq_id q = p) (\<lambda>q. q\<lparr>uq_phase := ph\<rparr>) (uy_processes s)\<rparr>"

definition usage_process_of :: "nat \<Rightarrow> usage_system \<Rightarrow> usage_process option" where
  "usage_process_of p s = find (\<lambda>q. uq_id q = p) (uy_processes s)"

definition retention_ms :: "usage_number option \<Rightarrow> int option" where
  "retention_ms raw = map_option (\<lambda>d. d * day_ms) (resolve_retention_days raw)"

definition open_usage :: "nat \<Rightarrow> usage_number option \<Rightarrow> int \<Rightarrow> usage_system \<Rightarrow> usage_system" where
  "open_usage p retention batch s =
     (if usage_process_of p s \<noteq> None then s
      else s\<lparr>uy_processes := uy_processes s @
        [\<lparr>uq_id = p, uq_retention = retention_ms retention, uq_batch = nat (max 1 batch), uq_phase = Up_Reading\<rparr>]\<rparr>)"

text \<open>One step of the migration in the constructor.\<close>

definition boot_usage :: "nat \<Rightarrow> usage_system \<Rightarrow> usage_system" where
  "boot_usage p s =
     (case usage_process_of p s of None \<Rightarrow> s
      | Some q \<Rightarrow>
          (case uq_phase q of
             Up_Reading \<Rightarrow>
               (case us_watermark (uy_db s) of None \<Rightarrow> set_usage_phase p Up_Resetting s
                | Some w \<Rightarrow> set_usage_phase p (Up_Bounding w) s)
           | Up_Resetting \<Rightarrow> set_usage_phase p (Up_Bounding 0) (s\<lparr>uy_db := reset_totals (uy_db s)\<rparr>)
           | Up_Bounding w \<Rightarrow>
               (case next_bound w (uy_db s) of None \<Rightarrow> set_usage_phase p (Up_Ready None) s
                | Some hi \<Rightarrow> set_usage_phase p (Up_Filling w hi) s)
           | Up_Filling w hi \<Rightarrow> set_usage_phase p (Up_Bounding hi) (s\<lparr>uy_db := backfill_chunk w hi (uy_db s)\<rparr>)
           | Up_Ready c \<Rightarrow> s))"

definition usage_ready :: "nat \<Rightarrow> usage_system \<Rightarrow> bool" where
  "usage_ready p s \<longleftrightarrow>
     (case usage_process_of p s of None \<Rightarrow> False
      | Some q \<Rightarrow> (case uq_phase q of Up_Ready c \<Rightarrow> True | _ \<Rightarrow> False))"

definition record_usage_event :: "nat \<Rightarrow> usage_event_input \<Rightarrow> int \<Rightarrow> usage_system \<Rightarrow> usage_system" where
  "record_usage_event p inp now s =
     (if \<not> usage_ready p s then s
      else case usage_row_of inp now (us_next (uy_db s)) of
        Inl e \<Rightarrow> s
      | Inr r \<Rightarrow> s\<lparr>uy_db := record_row r (uy_db s), uy_history := uy_history s @ [r]\<rparr>)"

text \<open>A batch of a prune run; the run goes on after a turn of the event loop unless the batch was empty.\<close>

definition usage_batch :: "nat \<Rightarrow> int \<Rightarrow> nat \<Rightarrow> usage_system \<Rightarrow> usage_system" where
  "usage_batch p cutoff n s =
     (case prune_batch cutoff n (uy_db s) of
        (k, db) \<Rightarrow> set_usage_phase p (Up_Ready (if k = 0 then None else Some cutoff)) (s\<lparr>uy_db := db\<rparr>))"

definition start_prune :: "nat \<Rightarrow> int \<Rightarrow> usage_system \<Rightarrow> usage_system" where
  "start_prune p now s =
     (case usage_process_of p s of None \<Rightarrow> s
      | Some q \<Rightarrow>
          (case (uq_phase q, uq_retention q) of
             (Up_Ready None, Some retention) \<Rightarrow> usage_batch p (prune_cutoff now retention) (uq_batch q) s
           | _ \<Rightarrow> s))"

definition continue_prune :: "nat \<Rightarrow> usage_system \<Rightarrow> usage_system" where
  "continue_prune p s =
     (case usage_process_of p s of None \<Rightarrow> s
      | Some q \<Rightarrow> (case uq_phase q of Up_Ready (Some cutoff) \<Rightarrow> usage_batch p cutoff (uq_batch q) s | _ \<Rightarrow> s))"

definition close_usage :: "nat \<Rightarrow> usage_system \<Rightarrow> usage_system" where
  "close_usage p s = s\<lparr>uy_processes := filter (\<lambda>q. uq_id q \<noteq> p) (uy_processes s)\<rparr>"

datatype usage_move =
  Um_Open nat "usage_number option" int
| Um_Boot nat
| Um_Record nat usage_event_input int
| Um_Prune nat int
| Um_Batch nat
| Um_Close nat

fun usage_step :: "usage_move \<Rightarrow> usage_system \<Rightarrow> usage_system" where
  "usage_step (Um_Open p retention batch) s = open_usage p retention batch s"
| "usage_step (Um_Boot p) s = boot_usage p s"
| "usage_step (Um_Record p inp now) s = record_usage_event p inp now s"
| "usage_step (Um_Prune p now) s = start_prune p now s"
| "usage_step (Um_Batch p) s = continue_prune p s"
| "usage_step (Um_Close p) s = close_usage p s"

definition run_usage :: "usage_move list \<Rightarrow> usage_system \<Rightarrow> usage_system" where
  "run_usage moves s = fold usage_step moves s"

text \<open>
  A database as an earlier version left it, or a new one: it may have rows and totals but no watermark and no days.
\<close>

definition old_usage :: "usage_row list \<Rightarrow> usage_total list \<Rightarrow> nat \<Rightarrow> usage_system" where
  "old_usage rows totals n =
     \<lparr>uy_db = \<lparr>us_rows = rows, us_totals = totals, us_daily = [], us_watermark = None, us_next = n\<rparr>,
      uy_processes = [], uy_history = rows\<rparr>"

end
