(* ===== verification/Usage_Tally.thy ===== *)
theory Usage_Tally
  imports Usage_Store
begin

text \<open>
  Tables that count events by a key: the interface of the running totals and of the days, as the locale \<open>tally\<close>, and what
  counting grouped rows into such a table does to its sums.
\<close>

locale tally =
  fixes key :: "'r \<Rightarrow> 'k" and events :: "'r \<Rightarrow> int" and units :: "'r \<Rightarrow> int"
    and add :: "'k \<Rightarrow> int \<Rightarrow> int \<Rightarrow> 'r list \<Rightarrow> 'r list"
  assumes add_keys: "distinct (map key rows) \<Longrightarrow> distinct (map key (add k e u rows))"
    and add_key_set: "key ` set (add k e u rows) = insert k (key ` set rows)"
    and add_events: "distinct (map key rows) \<Longrightarrow>
      sum_where (\<lambda>r. P (key r)) events (add k e u rows) = sum_where (\<lambda>r. P (key r)) events rows + (if P k then e else 0)"
    and add_units: "distinct (map key rows) \<Longrightarrow>
      sum_where (\<lambda>r. P (key r)) units (add k e u rows) = sum_where (\<lambda>r. P (key r)) units rows + (if P k then u else 0)"
begin

lemma fold_add:
  assumes "distinct (map key rows)"
  shows "distinct (map key (fold (\<lambda>x. add (g x) (e x) (u x)) xs rows))"
    and "key ` set (fold (\<lambda>x. add (g x) (e x) (u x)) xs rows) = key ` set rows \<union> g ` set xs"
    and "sum_where (\<lambda>r. P (key r)) events (fold (\<lambda>x. add (g x) (e x) (u x)) xs rows) =
      sum_where (\<lambda>r. P (key r)) events rows + sum_where (\<lambda>x. P (g x)) e xs"
    and "sum_where (\<lambda>r. P (key r)) units (fold (\<lambda>x. add (g x) (e x) (u x)) xs rows) =
      sum_where (\<lambda>r. P (key r)) units rows + sum_where (\<lambda>x. P (g x)) u xs"
  using assms
proof (induction xs arbitrary: rows)
  case (Cons x xs)
  { case 1 then show ?case using Cons.IH(1) add_keys by simp }
  { case 2 then show ?case using Cons.IH(2) add_keys by (simp add: add_key_set) }
  { case 3 then show ?case using Cons.IH(3) add_keys by (simp add: add_events sum_where_Cons) }
  { case 4 then show ?case using Cons.IH(4) add_keys by (simp add: add_units sum_where_Cons) }
qed simp_all

text \<open>A row is the whole sum of its key.\<close>

lemma row_sum:
  fixes f :: "'r \<Rightarrow> int"
  assumes "distinct (map key rows)" and "r \<in> set rows"
  shows "sum_where (\<lambda>q. key q = key r) f rows = f r"
  using assms
proof (induction rows)
  case (Cons q rows)
  have none: "sum_where (\<lambda>p. key p = key r) f rows = 0" if "key r \<notin> key ` set rows"
    using that by (induction rows) (auto simp: sum_where_Cons)
  show ?case
  proof (cases "q = r")
    case True
    with Cons.prems none show ?thesis by (simp add: sum_where_Cons)
  next
    case False
    with Cons show ?thesis by (auto simp: sum_where_Cons)
  qed
qed simp

end

section \<open>Groups of rows\<close>

lemma events_where_sum: "events_where p rows = sum_where p (\<lambda>r. 1) rows"
  by (induction rows) (simp_all add: events_where_def count_where_def sum_where_Cons)

lemma sum_over_groups:
  fixes f :: "'r \<Rightarrow> int"
  shows "sum_where P (\<lambda>k. sum_where (\<lambda>r. g r = k) f rows) (remdups (map g rows)) = sum_where (\<lambda>r. P (g r)) f rows"
proof -
  have "(\<Sum>k\<in>K. if P k then sum_where (\<lambda>r. g r = k) f rs else 0) = sum_where (\<lambda>r. P (g r)) f rs"
    if "finite K" "g ` set rs \<subseteq> K" for K rs
    using that
  proof (induction rs)
    case (Cons r rs)
    have "(\<Sum>k\<in>K. if P k then sum_where (\<lambda>r. g r = k) f (r # rs) else 0) =
        (\<Sum>k\<in>K. (if k = g r then (if P k then f r else 0) else 0) + (if P k then sum_where (\<lambda>r. g r = k) f rs else 0))"
      by (rule sum.cong) (auto simp: sum_where_Cons)
    also have "\<dots> = (if P (g r) then f r else 0) + sum_where (\<lambda>r. P (g r)) f rs"
      using Cons by (simp add: sum.distrib)
    finally show ?case by (simp add: sum_where_Cons)
  qed (auto intro: sum.neutral)
  from this [of "g ` set rows" rows]
  have "(\<Sum>k\<in>g ` set rows. if P k then sum_where (\<lambda>r. g r = k) f rows else 0) = sum_where (\<lambda>r. P (g r)) f rows"
    by simp
  moreover have "sum_where P h (remdups (map g rows)) = (\<Sum>k\<in>g ` set rows. if P k then h k else 0)" for h
    by (simp only: sum_where_alt) (simp add: sum_list_distinct_conv_sum_set)
  ultimately show ?thesis by simp
qed

section \<open>Totals and days\<close>

definition total_key :: "usage_total \<Rightarrow> string \<times> string" where
  "total_key r = (ut_tenant r, ut_kind r)"

definition day_key :: "usage_day \<Rightarrow> string \<times> int \<times> string" where
  "day_key r = (ud_tenant r, ud_day r, ud_kind r)"

text \<open>Adding to the row with a key, or appending one.\<close>

lemma upsert_sums:
  assumes "distinct (map key rows)" and "\<And>r. key (inc r) = key r" and "\<And>r. f (inc r) = f r + n" and "key new = k" and "f new = n"
  shows "sum_where (\<lambda>r. P (key r)) f (if list_ex (\<lambda>r. key r = k) rows then update_where (\<lambda>r. key r = k) inc rows else rows @ [new]) =
    sum_where (\<lambda>r. P (key r)) f rows + (if P k then n else (0::int))"
proof (cases "list_ex (\<lambda>r. key r = k) rows")
  case True
  then obtain r where r: "r \<in> set rows" "k = key r" by (auto simp: list_ex_iff)
  from sum_where_update_one [OF assms(1) r(1), of "\<lambda>r. P (key r)" f inc] True
  show ?thesis by (simp add: r(2) assms(2,3))
next
  case False
  then show ?thesis by (simp only: if_False sum_where_append) (simp add: sum_where_Cons assms(4,5))
qed

lemma upsert_keys:
  assumes "\<And>r. key (inc r) = key r" and "key new = k"
  shows "distinct (map key rows) \<Longrightarrow>
      distinct (map key (if list_ex (\<lambda>r. key r = k) rows then update_where (\<lambda>r. key r = k) inc rows else rows @ [new]))"
    and "key ` set (if list_ex (\<lambda>r. key r = k) rows then update_where (\<lambda>r. key r = k) inc rows else rows @ [new]) =
      insert k (key ` set rows)"
proof -
  have same: "map key (update_where (\<lambda>r. key r = k) inc rows) = map key rows"
    by (rule map_update_where) (rule assms(1))
  then show "distinct (map key rows) \<Longrightarrow>
      distinct (map key (if list_ex (\<lambda>r. key r = k) rows then update_where (\<lambda>r. key r = k) inc rows else rows @ [new]))"
    by (auto simp: list_ex_iff assms(2))
  from same have "key ` set (update_where (\<lambda>r. key r = k) inc rows) = key ` set rows" by (metis set_map)
  then show "key ` set (if list_ex (\<lambda>r. key r = k) rows then update_where (\<lambda>r. key r = k) inc rows else rows @ [new]) =
      insert k (key ` set rows)"
    by (auto simp: list_ex_iff assms(2))
qed

lemma upsert_tally:
  assumes "\<And>e u r. key (inc e u r) = key r" and "\<And>e u r. events (inc e u r) = events r + e"
    and "\<And>e u r. units (inc e u r) = units r + u"
    and "\<And>k e u. key (new k e u) = k" and "\<And>k e u. events (new k e u) = e" and "\<And>k e u. units (new k e u) = u"
  shows "tally key events units
    (\<lambda>k e u rows. if list_ex (\<lambda>r. key r = k) rows then update_where (\<lambda>r. key r = k) (inc e u) rows else rows @ [new k e u])"
proof unfold_locales
  fix k e u rows and P :: "'b \<Rightarrow> bool"
  let ?add = "if list_ex (\<lambda>r. key r = k) rows then update_where (\<lambda>r. key r = k) (inc e u) rows else rows @ [new k e u]"
  show "key ` set ?add = insert k (key ` set rows)" by (rule upsert_keys(2)) (rule assms)+
  assume d: "distinct (map key rows)"
  show "distinct (map key ?add)" by (rule upsert_keys(1) [OF _ _ d]) (rule assms)+
  show "sum_where (\<lambda>r. P (key r)) events ?add = sum_where (\<lambda>r. P (key r)) events rows + (if P k then e else 0)"
    by (rule upsert_sums [OF d]) (rule assms)+
  show "sum_where (\<lambda>r. P (key r)) units ?add = sum_where (\<lambda>r. P (key r)) units rows + (if P k then u else 0)"
    by (rule upsert_sums [OF d]) (rule assms)+
qed

definition add_total_at :: "string \<times> string \<Rightarrow> int \<Rightarrow> int \<Rightarrow> usage_total list \<Rightarrow> usage_total list" where
  "add_total_at k = (case k of (t, kind) \<Rightarrow> add_total t kind)"

definition add_day_at :: "string \<times> int \<times> string \<Rightarrow> int \<Rightarrow> int \<Rightarrow> usage_day list \<Rightarrow> usage_day list" where
  "add_day_at k = (case k of (t, d, kind) \<Rightarrow> add_day t d kind)"

lemma add_total_at_alt:
  "add_total_at k e u rows =
     (if list_ex (\<lambda>r. total_key r = k) rows
      then update_where (\<lambda>r. total_key r = k) (\<lambda>r. r\<lparr>ut_events := ut_events r + e, ut_units := ut_units r + u\<rparr>) rows
      else rows @ [\<lparr>ut_tenant = fst k, ut_kind = snd k, ut_events = e, ut_units = u\<rparr>])"
  by (cases k) (simp add: add_total_at_def add_total_def total_key_def)

lemma add_day_at_alt:
  "add_day_at k e u rows =
     (if list_ex (\<lambda>r. day_key r = k) rows
      then update_where (\<lambda>r. day_key r = k) (\<lambda>r. r\<lparr>ud_events := ud_events r + e, ud_units := ud_units r + u\<rparr>) rows
      else rows @ [\<lparr>ud_tenant = fst k, ud_day = fst (snd k), ud_kind = snd (snd k), ud_events = e, ud_units = u\<rparr>])"
  by (cases k) (simp add: add_day_at_def add_day_def day_key_def)

interpretation totals: tally total_key ut_events ut_units add_total_at
  unfolding add_total_at_alt [abs_def] by (rule upsert_tally) (simp_all add: total_key_def)

interpretation days: tally day_key ud_events ud_units add_day_at
  unfolding add_day_at_alt [abs_def] by (rule upsert_tally) (simp_all add: day_key_def)

definition group_key :: "usage_row \<Rightarrow> string \<times> string" where
  "group_key r = (ur_tenant r, ur_kind r)"

definition group_day :: "usage_row \<Rightarrow> string \<times> int \<times> string" where
  "group_day r = (ur_tenant r, row_day r, ur_kind r)"

lemma count_into_totals_alt:
  "count_into_totals rows =
     fold (\<lambda>k. add_total_at k (sum_where (\<lambda>r. group_key r = k) (\<lambda>r. 1) rows) (sum_where (\<lambda>r. group_key r = k) ur_units rows))
       (remdups (map group_key rows))"
proof -
  have key: "(\<lambda>r. (ur_tenant r, ur_kind r)) = group_key" by (simp add: fun_eq_iff group_key_def)
  have "(\<lambda>(t, k). add_total t k (events_where (\<lambda>r. ur_tenant r = t \<and> ur_kind r = k) rows)
        (sum_where (\<lambda>r. ur_tenant r = t \<and> ur_kind r = k) ur_units rows)) =
      (\<lambda>k. add_total_at k (sum_where (\<lambda>r. group_key r = k) (\<lambda>r. 1) rows) (sum_where (\<lambda>r. group_key r = k) ur_units rows))"
    by (auto simp: fun_eq_iff add_total_at_def events_where_sum group_key_def)
  then show ?thesis unfolding count_into_totals_def key by simp
qed

lemma count_into_days_alt:
  "count_into_days rows =
     fold (\<lambda>k. add_day_at k (sum_where (\<lambda>r. group_day r = k) (\<lambda>r. 1) rows) (sum_where (\<lambda>r. group_day r = k) ur_units rows))
       (remdups (map group_day rows))"
proof -
  have key: "(\<lambda>r. (ur_tenant r, row_day r, ur_kind r)) = group_day" by (simp add: fun_eq_iff group_day_def)
  have "(\<lambda>(t, d, k). add_day t d k (events_where (\<lambda>r. ur_tenant r = t \<and> row_day r = d \<and> ur_kind r = k) rows)
        (sum_where (\<lambda>r. ur_tenant r = t \<and> row_day r = d \<and> ur_kind r = k) ur_units rows)) =
      (\<lambda>k. add_day_at k (sum_where (\<lambda>r. group_day r = k) (\<lambda>r. 1) rows) (sum_where (\<lambda>r. group_day r = k) ur_units rows))"
    by (auto simp: fun_eq_iff add_day_at_def events_where_sum group_day_def)
  then show ?thesis unfolding count_into_days_def key by simp
qed

lemma counted_totals:
  assumes "distinct (map total_key totals)"
  shows "distinct (map total_key (count_into_totals rows totals))"
    and "total_key ` set (count_into_totals rows totals) = total_key ` set totals \<union> group_key ` set rows"
    and "sum_where (\<lambda>r. P (total_key r)) ut_events (count_into_totals rows totals) =
      sum_where (\<lambda>r. P (total_key r)) ut_events totals + sum_where (\<lambda>r. P (group_key r)) (\<lambda>r. 1) rows"
    and "sum_where (\<lambda>r. P (total_key r)) ut_units (count_into_totals rows totals) =
      sum_where (\<lambda>r. P (total_key r)) ut_units totals + sum_where (\<lambda>r. P (group_key r)) ur_units rows"
  unfolding count_into_totals_alt using totals.fold_add(1,2) [OF assms, where g = "\<lambda>k. k"] apply simp_all
  using totals.fold_add(3,4) [OF assms, where P = P and g = "\<lambda>k. k"] by (simp_all only: sum_over_groups)

lemma counted_days:
  assumes "distinct (map day_key ds)"
  shows "distinct (map day_key (count_into_days rows ds))"
    and "day_key ` set (count_into_days rows ds) = day_key ` set ds \<union> group_day ` set rows"
    and "sum_where (\<lambda>r. P (day_key r)) ud_events (count_into_days rows ds) =
      sum_where (\<lambda>r. P (day_key r)) ud_events ds + sum_where (\<lambda>r. P (group_day r)) (\<lambda>r. 1) rows"
    and "sum_where (\<lambda>r. P (day_key r)) ud_units (count_into_days rows ds) =
      sum_where (\<lambda>r. P (day_key r)) ud_units ds + sum_where (\<lambda>r. P (group_day r)) ur_units rows"
  unfolding count_into_days_alt using days.fold_add(1,2) [OF assms, where g = "\<lambda>k. k"] apply simp_all
  using days.fold_add(3,4) [OF assms, where P = P and g = "\<lambda>k. k"] by (simp_all only: sum_over_groups)

end
