(* ===== verification/Usage_Props.thy ===== *)
theory Usage_Props
  imports Usage_Tally "HOL-Library.Multiset"
begin

text \<open>
  What the usage ledger promises, for any number of processes that open, migrate, record, prune and close in any order: the
  totals count every event once, pruning loses nothing, and the quota decision looks at all use. The invariant
  compares the tables with the history of rows.
\<close>

section \<open>The invariant\<close>

definition pruned_rows :: "usage_system \<Rightarrow> usage_row list" where
  "pruned_rows s = filter (\<lambda>r. r \<notin> set (us_rows (uy_db s))) (uy_history s)"

definition counted_rows :: "nat \<Rightarrow> usage_row list \<Rightarrow> usage_row list" where
  "counted_rows w h = filter (\<lambda>r. ur_id r \<le> w) h"

definition history_ok :: "usage_system \<Rightarrow> bool" where
  "history_ok s \<longleftrightarrow>
     distinct (map ur_id (uy_history s)) \<and> 0 < us_next (uy_db s) \<and>
     (\<forall>r \<in> set (uy_history s). 0 < ur_id r \<and> ur_id r < us_next (uy_db s) \<and> 0 \<le> ur_ts r \<and> 0 \<le> ur_units r) \<and>
     us_rows (uy_db s) = filter (\<lambda>r. r \<in> set (us_rows (uy_db s))) (uy_history s)"

definition totals_match :: "usage_row list \<Rightarrow> usage_total list \<Rightarrow> bool" where
  "totals_match rows totals \<longleftrightarrow>
     distinct (map total_key totals) \<and> total_key ` set totals = group_key ` set rows \<and>
     (\<forall>P. sum_where (\<lambda>r. P (total_key r)) ut_events totals = sum_where (\<lambda>r. P (group_key r)) (\<lambda>r. 1) rows) \<and>
     (\<forall>P. sum_where (\<lambda>r. P (total_key r)) ut_units totals = sum_where (\<lambda>r. P (group_key r)) ur_units rows)"

definition days_match :: "usage_row list \<Rightarrow> usage_day list \<Rightarrow> bool" where
  "days_match rows ds \<longleftrightarrow>
     distinct (map day_key ds) \<and> day_key ` set ds = group_day ` set rows \<and>
     (\<forall>P. sum_where (\<lambda>r. P (day_key r)) ud_events ds = sum_where (\<lambda>r. P (group_day r)) (\<lambda>r. 1) rows) \<and>
     (\<forall>P. sum_where (\<lambda>r. P (day_key r)) ud_units ds = sum_where (\<lambda>r. P (group_day r)) ur_units rows)"

text \<open>The raw rows and the daily table hold the history, whatever becomes of the totals.\<close>

definition stored_inv :: "usage_system \<Rightarrow> bool" where
  "stored_inv s \<longleftrightarrow> history_ok s \<and> days_match (pruned_rows s) (us_daily (uy_db s))"

text \<open>What the phase of a process knows of the watermark.\<close>

definition phase_ok :: "usage_row list \<Rightarrow> nat option \<Rightarrow> usage_phase \<Rightarrow> bool" where
  "phase_ok h wm ph \<longleftrightarrow>
     (case ph of
        Up_Reading \<Rightarrow> True
      | Up_Resetting \<Rightarrow> True
      | Up_Bounding w \<Rightarrow> (\<exists>c. wm = Some c \<and> w \<le> c)
      | Up_Filling w hi \<Rightarrow> (\<exists>c. wm = Some c \<and> w \<le> c) \<and> hi \<in> ur_id ` set h
      | Up_Ready k \<Rightarrow> (\<exists>c. wm = Some c \<and> (\<forall>r \<in> set h. ur_id r \<le> c)))"

definition usage_inv :: "usage_system \<Rightarrow> bool" where
  "usage_inv s \<longleftrightarrow>
     history_ok s \<and> days_match (pruned_rows s) (us_daily (uy_db s)) \<and>
     (\<forall>w. us_watermark (uy_db s) = Some w \<longrightarrow> w < us_next (uy_db s) \<and> totals_match (counted_rows w (uy_history s)) (us_totals (uy_db s))) \<and>
     (\<forall>r \<in> set (pruned_rows s). ur_id r \<le> watermark_of (uy_db s)) \<and>
     (\<forall>q \<in> set (uy_processes s). phase_ok (uy_history s) (us_watermark (uy_db s)) (uq_phase q))"

text \<open>
  A reset of the totals is in time when no other process has set the watermark since the resetting one read that there is
  none. What is stored does not depend on it, what the totals say does.
\<close>

definition reset_in_time :: "usage_move \<Rightarrow> usage_system \<Rightarrow> bool" where
  "reset_in_time m s \<longleftrightarrow>
     (case m of
        Um_Boot p \<Rightarrow> (case usage_process_of p s of None \<Rightarrow> True | Some q \<Rightarrow> uq_phase q = Up_Resetting \<longrightarrow> us_watermark (uy_db s) = None)
      | _ \<Rightarrow> True)"

fun resets_in_time :: "usage_move list \<Rightarrow> usage_system \<Rightarrow> bool" where
  "resets_in_time [] s \<longleftrightarrow> True"
| "resets_in_time (m # ms) s \<longleftrightarrow> reset_in_time m s \<and> resets_in_time ms (usage_step m s)"

text \<open>Rows that an earlier version may have left.\<close>

definition old_rows_ok :: "usage_row list \<Rightarrow> nat \<Rightarrow> bool" where
  "old_rows_ok rows n \<longleftrightarrow>
     distinct (map ur_id rows) \<and> 0 < n \<and> list_all (\<lambda>r. 0 < ur_id r \<and> ur_id r < n \<and> 0 \<le> ur_ts r \<and> 0 \<le> ur_units r) rows"

section \<open>Sums\<close>

lemma totals_match_events:
  assumes "totals_match rows totals"
  shows "sum_where (\<lambda>r. P (total_key r)) ut_events totals = sum_where (\<lambda>r. P (group_key r)) (\<lambda>r. 1) rows"
  using assms unfolding totals_match_def by - (elim conjE, erule spec)

lemma totals_match_units:
  assumes "totals_match rows totals"
  shows "sum_where (\<lambda>r. P (total_key r)) ut_units totals = sum_where (\<lambda>r. P (group_key r)) ur_units rows"
  using assms unfolding totals_match_def by - (elim conjE, erule spec)

lemma days_match_events:
  assumes "days_match rows ds"
  shows "sum_where (\<lambda>r. P (day_key r)) ud_events ds = sum_where (\<lambda>r. P (group_day r)) (\<lambda>r. 1) rows"
  using assms unfolding days_match_def by - (elim conjE, erule spec)

lemma days_match_units:
  assumes "days_match rows ds"
  shows "sum_where (\<lambda>r. P (day_key r)) ud_units ds = sum_where (\<lambda>r. P (group_day r)) ur_units rows"
  using assms unfolding days_match_def by - (elim conjE, erule spec)

lemma sum_where_split: "sum_where P f xs = sum_where P f (filter Q xs) + sum_where P f (filter (\<lambda>x. \<not> Q x) xs)"
  by (induction xs) (simp_all add: sum_where_Cons)

lemma pruned_split:
  assumes "history_ok s"
  shows "sum_where P f (uy_history s) = sum_where P f (us_rows (uy_db s)) + sum_where P f (pruned_rows s)"
proof -
  have "us_rows (uy_db s) = filter (\<lambda>r. r \<in> set (us_rows (uy_db s))) (uy_history s)"
    using assms by (simp add: history_ok_def)
  then show ?thesis
    using sum_where_split [of P f "uy_history s" "\<lambda>r. r \<in> set (us_rows (uy_db s))"] by (simp add: pruned_rows_def)
qed

lemma history_set:
  assumes "history_ok s"
  shows "set (us_rows (uy_db s)) \<subseteq> set (uy_history s)"
    and "set (uy_history s) = set (us_rows (uy_db s)) \<union> set (pruned_rows s)"
proof -
  have "us_rows (uy_db s) = filter (\<lambda>r. r \<in> set (us_rows (uy_db s))) (uy_history s)"
    using assms by (simp add: history_ok_def)
  then have "set (us_rows (uy_db s)) = {r \<in> set (uy_history s). r \<in> set (us_rows (uy_db s))}" by (metis set_filter)
  then show "set (us_rows (uy_db s)) \<subseteq> set (uy_history s)"
    "set (uy_history s) = set (us_rows (uy_db s)) \<union> set (pruned_rows s)" by (auto simp: pruned_rows_def)
qed

lemma history_id:
  "history_ok s \<Longrightarrow> q \<in> set (uy_history s) \<Longrightarrow> r \<in> set (uy_history s) \<Longrightarrow> ur_id q = ur_id r \<Longrightarrow> q = r"
  by (auto simp: history_ok_def distinct_map dest: inj_onD)

lemma matched_more:
  assumes "totals_match rows totals"
  shows "totals_match (rows @ extra) (count_into_totals extra totals)"
proof -
  from assms have d: "distinct (map total_key totals)" by (simp add: totals_match_def)
  have "sum_where (\<lambda>r. P (total_key r)) ut_events (count_into_totals extra totals) =
      sum_where (\<lambda>r. P (group_key r)) (\<lambda>r. 1) (rows @ extra)" for P
    using assms counted_totals(3) [OF d, where P = P] by (simp add: totals_match_def sum_where_append)
  moreover have "sum_where (\<lambda>r. P (total_key r)) ut_units (count_into_totals extra totals) =
      sum_where (\<lambda>r. P (group_key r)) ur_units (rows @ extra)" for P
    using assms counted_totals(4) [OF d, where P = P] by (simp add: totals_match_def sum_where_append)
  ultimately show ?thesis
    using assms counted_totals(1,2) [OF d] by (simp add: totals_match_def image_Un)
qed

lemma totals_match_perm:
  "totals_match rows totals \<Longrightarrow> mset rows = mset rows' \<Longrightarrow> totals_match rows' totals"
proof -
  assume t: "totals_match rows totals" and m: "mset rows = mset rows'"
  have "sum_where P f rows = sum_where P f rows'" for P f
  proof -
    have "mset (map f (filter P rows)) = mset (map f (filter P rows'))" by (simp add: m)
    then show ?thesis unfolding sum_where_def by (metis sum_mset_sum_list)
  qed
  moreover have "set rows = set rows'" using m by (metis set_mset_mset)
  ultimately show ?thesis using t by (simp add: totals_match_def)
qed

section \<open>Processes\<close>

lemma usage_phase_processes:
  "q \<in> set (uy_processes (set_usage_phase p ph s)) \<Longrightarrow> q \<in> set (uy_processes s) \<or> uq_phase q = ph"
  by (auto simp: set_usage_phase_def update_where_def split: if_splits)

lemma usage_phase_fields [simp]:
  "uy_db (set_usage_phase p ph s) = uy_db s" "uy_history (set_usage_phase p ph s) = uy_history s"
  by (simp_all add: set_usage_phase_def)

lemma other_processes [simp]:
  "history_ok (s\<lparr>uy_processes := ps\<rparr>) = history_ok s" "pruned_rows (s\<lparr>uy_processes := ps\<rparr>) = pruned_rows s"
  by (simp_all add: history_ok_def pruned_rows_def)

lemma usage_inv_processes:
  assumes "usage_inv s" and "\<And>q. q \<in> set ps \<Longrightarrow> q \<in> set (uy_processes s) \<or> phase_ok (uy_history s) (us_watermark (uy_db s)) (uq_phase q)"
  shows "usage_inv (s\<lparr>uy_processes := ps\<rparr>)"
  using assms by (auto simp: usage_inv_def)

lemma same_history:
  "history_ok s \<Longrightarrow> uy_history t = uy_history s \<Longrightarrow> us_next (uy_db t) = us_next (uy_db s) \<Longrightarrow>
    us_rows (uy_db t) = filter (\<lambda>r. r \<in> set (us_rows (uy_db t))) (uy_history t) \<Longrightarrow> history_ok t"
  unfolding history_ok_def by metis

lemma usage_phase_inv:
  assumes "usage_inv s" and "phase_ok (uy_history s) (us_watermark (uy_db s)) ph"
  shows "usage_inv (set_usage_phase p ph s)"
proof -
  have "history_ok (set_usage_phase p ph s) = history_ok s" "pruned_rows (set_usage_phase p ph s) = pruned_rows s"
    by (simp_all add: history_ok_def pruned_rows_def)
  moreover have "phase_ok (uy_history s) (us_watermark (uy_db s)) (uq_phase q)"
    if "q \<in> set (uy_processes (set_usage_phase p ph s))" for q
    using usage_phase_processes [OF that] assms by (auto simp: usage_inv_def)
  ultimately show ?thesis using assms(1) by (simp add: usage_inv_def)
qed

lemma usage_process_in: "usage_process_of p s = Some q \<Longrightarrow> q \<in> set (uy_processes s) \<and> uq_id q = p"
  by (auto simp: usage_process_of_def find_Some_iff)

lemma process_phase_ok:
  "usage_inv s \<Longrightarrow> usage_process_of p s = Some q \<Longrightarrow> phase_ok (uy_history s) (us_watermark (uy_db s)) (uq_phase q)"
  using usage_process_in by (auto simp: usage_inv_def)

section \<open>Steps\<close>

lemma boot_reset_inv:
  assumes "usage_inv s" and "us_watermark (uy_db s) = None"
  shows "usage_inv (set_usage_phase p (Up_Bounding 0) (s\<lparr>uy_db := reset_totals (uy_db s)\<rparr>))"
proof (rule usage_phase_inv)
  let ?s = "s\<lparr>uy_db := reset_totals (uy_db s)\<rparr>"
  have "counted_rows 0 (uy_history s) = []"
    using assms(1) by (auto simp: usage_inv_def history_ok_def counted_rows_def filter_empty_conv)
  then have "totals_match (counted_rows 0 (uy_history s)) []" by (simp add: totals_match_def)
  moreover have "pruned_rows s = []"
  proof -
    have "r \<notin> set (pruned_rows s)" for r
    proof
      assume r: "r \<in> set (pruned_rows s)"
      then have "r \<in> set (uy_history s)" by (simp add: pruned_rows_def)
      with assms(1) have "0 < ur_id r" by (simp add: usage_inv_def history_ok_def)
      moreover from r assms have "ur_id r \<le> 0" by (simp add: usage_inv_def watermark_of_def)
      ultimately show False by simp
    qed
    then show ?thesis by (metis equals0I set_empty)
  qed
  moreover have "phase_ok (uy_history s) (Some 0) (uq_phase q)" if "q \<in> set (uy_processes s)" for q
    using assms that by (force simp: usage_inv_def phase_ok_def split: usage_phase.splits)
  moreover have "pruned_rows ?s = pruned_rows s" "history_ok ?s = history_ok s"
    by (simp_all add: pruned_rows_def history_ok_def reset_totals_def)
  moreover have "0 < us_next (uy_db s)" using assms(1) by (simp add: usage_inv_def history_ok_def)
  ultimately show "usage_inv ?s"
    using assms(1) by (simp add: usage_inv_def) (simp add: reset_totals_def)
qed (simp add: phase_ok_def reset_totals_def)

lemma next_bound_None:
  assumes "next_bound w db = None" and "r \<in> set (us_rows db)"
  shows "ur_id r \<le> w"
proof -
  have "take backfill_chunk_rows (order_by id (filter (\<lambda>i. w < i) (map ur_id (us_rows db)))) = []"
    using assms(1) by (auto simp: next_bound_def split: list.splits)
  then have "order_by id (filter (\<lambda>i. w < i) (map ur_id (us_rows db))) = []" by (simp add: backfill_chunk_rows_def)
  then have "filter (\<lambda>i. w < i) (map ur_id (us_rows db)) = []" by (metis set_order_by set_empty)
  with assms(2) show ?thesis by (auto simp: filter_empty_conv)
qed

lemma next_bound_Some: "next_bound w db = Some hi \<Longrightarrow> hi \<in> ur_id ` set (us_rows db)"
proof -
  assume "next_bound w db = Some hi"
  then obtain rest where "rev (take backfill_chunk_rows (order_by id (filter (\<lambda>i. w < i) (map ur_id (us_rows db))))) = hi # rest"
    by (auto simp: next_bound_def split: list.splits)
  then have "hi \<in> set (rev (take backfill_chunk_rows (order_by id (filter (\<lambda>i. w < i) (map ur_id (us_rows db))))))" by simp
  then have "hi \<in> set (order_by id (filter (\<lambda>i. w < i) (map ur_id (us_rows db))))" by (auto dest: in_set_takeD)
  then show ?thesis by auto
qed

lemma counted_more:
  assumes "w \<le> hi"
  shows "mset (counted_rows w h @ filter (\<lambda>r. w < ur_id r \<and> ur_id r \<le> hi) h) = mset (counted_rows hi h)"
proof -
  have "{#r \<in># mset h. ur_id r \<le> hi#} = {#r \<in># mset h. ur_id r \<le> w#} + {#r \<in># mset h. w < ur_id r \<and> ur_id r \<le> hi#}"
    using assms by (induction h) auto
  then show ?thesis by (simp add: counted_rows_def)
qed

text \<open>The rows above the watermark are raw rows still.\<close>

lemma uncounted_raw:
  assumes "usage_inv s" and "watermark_of (uy_db s) \<le> w"
  shows "filter (\<lambda>r. w < ur_id r \<and> Q r) (us_rows (uy_db s)) = filter (\<lambda>r. w < ur_id r \<and> Q r) (uy_history s)"
proof -
  have h: "history_ok s" and p: "\<forall>r \<in> set (pruned_rows s). ur_id r \<le> watermark_of (uy_db s)"
    using assms(1) by (simp_all add: usage_inv_def)
  have "us_rows (uy_db s) = filter (\<lambda>r. r \<in> set (us_rows (uy_db s))) (uy_history s)" using h by (simp add: history_ok_def)
  then have "filter (\<lambda>r. w < ur_id r \<and> Q r) (us_rows (uy_db s)) =
      filter (\<lambda>r. w < ur_id r \<and> Q r) (filter (\<lambda>r. r \<in> set (us_rows (uy_db s))) (uy_history s))" by simp
  also have "\<dots> = filter (\<lambda>r. w < ur_id r \<and> Q r) (uy_history s)"
    unfolding filter_filter
  proof (rule filter_cong)
    fix r assume "r \<in> set (uy_history s)"
    then show "(r \<in> set (us_rows (uy_db s)) \<and> w < ur_id r \<and> Q r) = (w < ur_id r \<and> Q r)"
      using p assms(2) by (auto simp: pruned_rows_def)
  qed simp
  finally show ?thesis .
qed

lemma boot_fill_inv:
  assumes "usage_inv s" and "phase_ok (uy_history s) (us_watermark (uy_db s)) (Up_Filling w hi)"
  shows "usage_inv (set_usage_phase p (Up_Bounding hi) (s\<lparr>uy_db := backfill_chunk w hi (uy_db s)\<rparr>))"
proof -
  let ?db = "uy_db s" and ?s = "s\<lparr>uy_db := backfill_chunk w hi (uy_db s)\<rparr>"
  from assms(2) obtain c where c: "us_watermark ?db = Some c" "w \<le> c" by (auto simp: phase_ok_def)
  then have mark: "watermark_of ?db = c" by (simp add: watermark_of_def)
  show ?thesis
  proof (cases "c < hi")
    case False
    then have "?s = s" using mark by (simp add: backfill_chunk_def Let_def)
    moreover have "phase_ok (uy_history s) (us_watermark ?db) (Up_Bounding hi)"
      using c False by (simp add: phase_ok_def)
    ultimately show ?thesis using usage_phase_inv [OF assms(1)] by simp
  next
    case True
    have db: "backfill_chunk w hi ?db = ?db\<lparr>us_totals := count_into_totals
        (filter (\<lambda>r. c < ur_id r \<and> ur_id r \<le> hi) (uy_history s)) (us_totals ?db), us_watermark := Some hi\<rparr>"
      using True mark c(2) uncounted_raw [OF assms(1), of c "\<lambda>r. ur_id r \<le> hi"]
      by (simp add: backfill_chunk_def Let_def max_absorb1)
    have "totals_match (counted_rows c (uy_history s)) (us_totals ?db)" using assms(1) c by (simp add: usage_inv_def)
    from totals_match_perm [OF matched_more [OF this] counted_more] True
    have "totals_match (counted_rows hi (uy_history s)) (us_totals (backfill_chunk w hi ?db))" by (simp add: db)
    moreover have "phase_ok (uy_history s) (Some hi) (uq_phase q)" if "q \<in> set (uy_processes s)" for q
    proof -
      from assms(1) that c have "phase_ok (uy_history s) (Some c) (uq_phase q)" by (simp add: usage_inv_def)
      with True show ?thesis by (force simp: phase_ok_def split: usage_phase.splits)
    qed
    moreover have "ur_id r \<le> hi" if "r \<in> set (pruned_rows s)" for r
      using assms(1) that True mark by (force simp: usage_inv_def)
    moreover have "pruned_rows ?s = pruned_rows s" "history_ok ?s = history_ok s"
      by (simp_all add: pruned_rows_def history_ok_def db)
    moreover have "hi < us_next (uy_db s)"
      using assms by (auto simp: phase_ok_def usage_inv_def history_ok_def)
    ultimately have "usage_inv ?s"
      using assms(1) by (simp add: usage_inv_def watermark_of_def) (simp add: db)
    then show ?thesis by (rule usage_phase_inv) (simp add: phase_ok_def db)
  qed
qed

lemma boot_usage_inv:
  assumes "usage_inv s" and "reset_in_time (Um_Boot p) s"
  shows "usage_inv (boot_usage p s)"
proof (cases "usage_process_of p s")
  case (Some q)
  note ok = process_phase_ok [OF assms(1) Some]
  show ?thesis
  proof (cases "uq_phase q")
    case Up_Reading
    with Some show ?thesis
      by (cases "us_watermark (uy_db s)") (simp_all add: boot_usage_def usage_phase_inv [OF assms(1)] phase_ok_def)
  next
    case Up_Resetting
    with Some assms show ?thesis by (simp add: boot_usage_def reset_in_time_def boot_reset_inv)
  next
    case (Up_Bounding w)
    show ?thesis
    proof (cases "next_bound w (uy_db s)")
      case None
      from ok Up_Bounding obtain c where c: "us_watermark (uy_db s) = Some c" "w \<le> c" by (auto simp: phase_ok_def)
      have "ur_id r \<le> c" if "r \<in> set (uy_history s)" for r
      proof -
        from that consider "r \<in> set (us_rows (uy_db s))" | "r \<in> set (pruned_rows s)"
          using history_set(2) [of s] assms(1) by (auto simp: usage_inv_def)
        then show ?thesis
        proof cases
          case 1
          from next_bound_None [OF None 1] c(2) show ?thesis by simp
        next
          case 2
          with assms(1) c(1) show ?thesis by (auto simp: usage_inv_def watermark_of_def)
        qed
      qed
      with None Some Up_Bounding c show ?thesis
        by (simp add: boot_usage_def usage_phase_inv [OF assms(1)] phase_ok_def)
    next
      fix hi assume "next_bound w (uy_db s) = Some hi"
      moreover from this have "hi \<in> ur_id ` set (uy_history s)"
        using next_bound_Some history_set(1) [of s] assms(1) by (force simp: usage_inv_def)
      ultimately show ?thesis
        using Some Up_Bounding ok by (simp add: boot_usage_def usage_phase_inv [OF assms(1)] phase_ok_def)
    qed
  next
    case (Up_Filling w hi)
    with Some ok show ?thesis by (simp add: boot_usage_def boot_fill_inv [OF assms(1)])
  next
    case (Up_Ready k)
    with Some assms(1) show ?thesis by (simp add: boot_usage_def)
  qed
qed (simp add: boot_usage_def assms(1))

lemma ready_phase:
  assumes "usage_inv s" and "usage_ready p s"
  obtains c where "us_watermark (uy_db s) = Some c" "\<forall>r \<in> set (uy_history s). ur_id r \<le> c"
proof -
  from assms(2) obtain q k where q: "usage_process_of p s = Some q" "uq_phase q = Up_Ready k"
    by (auto simp: usage_ready_def split: option.splits usage_phase.splits)
  from process_phase_ok [OF assms(1) q(1)] q(2) that show thesis by (auto simp: phase_ok_def)
qed

lemma count_one_row:
  "count_into_totals [r] totals = add_total (ur_tenant r) (ur_kind r) 1 (ur_units r) totals"
  by (simp add: count_into_totals_def events_where_sum sum_where_Cons)

lemma record_stored:
  assumes "stored_inv s" and "ur_id r = us_next (uy_db s)" and "0 \<le> ur_ts r" and "0 \<le> ur_units r"
  shows "stored_inv (s\<lparr>uy_db := record_row r (uy_db s), uy_history := uy_history s @ [r]\<rparr>)"
    and "pruned_rows (s\<lparr>uy_db := record_row r (uy_db s), uy_history := uy_history s @ [r]\<rparr>) = pruned_rows s"
proof -
  let ?s = "s\<lparr>uy_db := record_row r (uy_db s), uy_history := uy_history s @ [r]\<rparr>"
  have h: "history_ok s" using assms(1) by (simp add: stored_inv_def)
  then have old: "\<forall>q \<in> set (uy_history s). ur_id q < ur_id r" using assms(2) by (simp add: history_ok_def)
  then have new: "r \<notin> set (uy_history s)" by blast
  have "filter (\<lambda>q. q = r \<or> q \<in> set (us_rows (uy_db s))) (uy_history s) =
      filter (\<lambda>q. q \<in> set (us_rows (uy_db s))) (uy_history s)"
    using new by (intro filter_cong) auto
  with h have "filter (\<lambda>q. q = r \<or> q \<in> set (us_rows (uy_db s))) (uy_history s) = us_rows (uy_db s)"
    by (simp add: history_ok_def)
  then have "history_ok ?s" using h old assms(2-4) by (auto simp: history_ok_def record_row_def)
  moreover show pruned: "pruned_rows ?s = pruned_rows s"
    unfolding pruned_rows_def record_row_def using new by (auto intro!: filter_cong)
  ultimately show "stored_inv ?s"
    using assms(1) unfolding stored_inv_def pruned by (simp add: record_row_def)
qed

lemma record_row_inv:
  assumes "usage_inv s" and "usage_ready p s" and "ur_id r = us_next (uy_db s)" and "0 \<le> ur_ts r" and "0 \<le> ur_units r"
  shows "usage_inv (s\<lparr>uy_db := record_row r (uy_db s), uy_history := uy_history s @ [r]\<rparr>)"
proof -
  from assms(1,2) obtain c where c: "us_watermark (uy_db s) = Some c" "\<forall>r \<in> set (uy_history s). ur_id r \<le> c"
    by (rule ready_phase)
  have stored: "stored_inv s" using assms(1) by (simp add: usage_inv_def stored_inv_def)
  then have old: "\<forall>q \<in> set (uy_history s). ur_id q < ur_id r" using assms(3) by (simp add: stored_inv_def history_ok_def)
  have less: "c < ur_id r" using assms(1,3) c(1) by (simp add: usage_inv_def)
  have "totals_match (counted_rows (ur_id r) (uy_history s @ [r])) (us_totals (record_row r (uy_db s)))"
  proof -
    have "counted_rows c (uy_history s) = uy_history s" "counted_rows (ur_id r) (uy_history s @ [r]) = uy_history s @ [r]"
      using c old by (simp_all add: counted_rows_def filter_id_conv less_imp_le)
    with assms(1) c matched_more [of "uy_history s" "us_totals (uy_db s)" "[r]"] show ?thesis
      by (simp add: usage_inv_def record_row_def count_one_row)
  qed
  moreover have "phase_ok (uy_history s @ [r]) (Some (ur_id r)) (uq_phase q)" if "q \<in> set (uy_processes s)" for q
  proof -
    from assms(1) that c have ok: "phase_ok (uy_history s) (Some c) (uq_phase q)" by (simp add: usage_inv_def)
    with less old show ?thesis by (auto simp: phase_ok_def split: usage_phase.splits)
  qed
  moreover have "ur_id q \<le> ur_id r" if "q \<in> set (pruned_rows s)" for q
    using that old by (auto simp: pruned_rows_def less_imp_le)
  ultimately show ?thesis
    using record_stored [OF stored assms(3-5)] assms(3)
    by (simp add: usage_inv_def stored_inv_def watermark_of_def) (simp add: record_row_def)
qed

text \<open>Pruning moves rows that are counted into their days.\<close>

lemma pruned_sums:
  assumes "history_ok s" and "history_ok t" and "uy_history t = uy_history s"
    and "us_rows (uy_db t) = filter (\<lambda>r. \<not> Q r) (us_rows (uy_db s))"
  shows "sum_where P f (pruned_rows t) = sum_where P f (pruned_rows s) + sum_where P f (filter Q (us_rows (uy_db s)))"
  using pruned_split [OF assms(1), of P f] pruned_split [OF assms(2), of P f]
    sum_where_split [of P f "us_rows (uy_db s)" Q] by (simp add: assms(3,4))

lemma matched_days_more:
  assumes "days_match rows ds"
    and "\<And>P f. sum_where P f rows' = sum_where P f rows + sum_where P f extra" and "set rows' = set rows \<union> set extra"
  shows "days_match rows' (count_into_days extra ds)"
proof -
  from assms(1) have d: "distinct (map day_key ds)" by (simp add: days_match_def)
  have "sum_where (\<lambda>r. P (day_key r)) ud_events (count_into_days extra ds) = sum_where (\<lambda>r. P (group_day r)) (\<lambda>r. 1) rows'" for P
    using assms counted_days(3) [OF d, where P = P] by (simp add: days_match_def)
  moreover have "sum_where (\<lambda>r. P (day_key r)) ud_units (count_into_days extra ds) = sum_where (\<lambda>r. P (group_day r)) ur_units rows'" for P
    using assms counted_days(4) [OF d, where P = P] by (simp add: days_match_def)
  ultimately show ?thesis
    using assms counted_days(1,2) [OF d] by (simp add: days_match_def image_Un)
qed

lemma prune_batch_cases:
  obtains "prune_batch cutoff n db = (0, db)"
  | ids where "prune_batch cutoff n db = (length (prunable_rows cutoff n db),
        db\<lparr>us_daily := count_into_days (filter (\<lambda>r. ur_id r \<in> ids) (us_rows db)) (us_daily db),
           us_rows := filter (\<lambda>r. ur_id r \<notin> ids) (us_rows db)\<rparr>)"
      "ids = ur_id ` set (prunable_rows cutoff n db)" "prunable_rows cutoff n db \<noteq> []"
proof (cases "prunable_rows cutoff n db = []")
  case True
  with that(1) show thesis by (simp add: prune_batch_def Let_def)
next
  case False
  with that(2) [of "ur_id ` set (prunable_rows cutoff n db)"] show thesis by (simp add: prune_batch_def Let_def)
qed

lemma prunable_row:
  "r \<in> set (prunable_rows cutoff n db) \<Longrightarrow> r \<in> set (us_rows db) \<and> ur_ts r < cutoff \<and> ur_id r \<le> watermark_of db"
  by (auto simp: prunable_rows_def dest!: in_set_takeD)

lemma prune_stored:
  assumes "stored_inv s"
  shows "stored_inv (s\<lparr>uy_db := snd (prune_batch cutoff n (uy_db s))\<rparr>)"
    and "r \<in> set (pruned_rows (s\<lparr>uy_db := snd (prune_batch cutoff n (uy_db s))\<rparr>)) \<Longrightarrow>
      r \<in> set (pruned_rows s) \<or> ur_id r \<le> watermark_of (uy_db s)"
proof -
  let ?db = "snd (prune_batch cutoff n (uy_db s))" and ?s = "s\<lparr>uy_db := snd (prune_batch cutoff n (uy_db s))\<rparr>"
  have "stored_inv ?s \<and> (\<forall>r \<in> set (pruned_rows ?s). r \<in> set (pruned_rows s) \<or> ur_id r \<le> watermark_of (uy_db s))"
  proof (cases rule: prune_batch_cases [of cutoff n "uy_db s"])
    case 1
    with assms show ?thesis by simp
  next
    case (2 ids)
    let ?extra = "filter (\<lambda>r. ur_id r \<in> ids) (us_rows (uy_db s))"
    have h: "history_ok s" using assms by (simp add: stored_inv_def)
    have rows: "us_rows ?db = filter (\<lambda>r. \<not> ur_id r \<in> ids) (us_rows (uy_db s))" by (simp add: 2(1))
    have "us_rows ?db = filter (\<lambda>r. ur_id r \<notin> ids) (filter (\<lambda>r. r \<in> set (us_rows (uy_db s))) (uy_history s))"
      using h by (simp add: rows history_ok_def)
    also have "\<dots> = filter (\<lambda>r. r \<in> set (us_rows ?db)) (uy_history s)"
      unfolding rows filter_filter by (rule filter_cong) auto
    finally have eq: "us_rows ?db = filter (\<lambda>r. r \<in> set (us_rows ?db)) (uy_history s)" .
    have db: "uy_db ?s = ?db" and hist: "uy_history ?s = uy_history s" by simp_all
    have h': "history_ok ?s"
    proof (rule same_history [OF h])
      show "us_rows (uy_db ?s) = filter (\<lambda>r. r \<in> set (us_rows (uy_db ?s))) (uy_history ?s)"
        unfolding db hist by (rule eq)
    qed (simp_all add: 2(1))
    have sums: "sum_where P f (pruned_rows ?s) = sum_where P f (pruned_rows s) + sum_where P f ?extra" for P f
      by (rule pruned_sums [OF h h']) (simp_all add: rows)
    have set: "set (pruned_rows ?s) = set (pruned_rows s) \<union> set ?extra"
      using history_set(1) [OF h] by (auto simp: pruned_rows_def rows)
    have "ur_id r \<le> watermark_of (uy_db s)" if "r \<in> set ?extra" for r
      using that prunable_row by (auto simp: 2(2))
    moreover have "days_match (pruned_rows ?s) (us_daily ?db)"
      using matched_days_more [OF _ sums set] assms by (simp add: stored_inv_def 2(1))
    ultimately show ?thesis using h' unfolding stored_inv_def set by auto
  qed
  then show "stored_inv ?s" "r \<in> set (pruned_rows ?s) \<Longrightarrow> r \<in> set (pruned_rows s) \<or> ur_id r \<le> watermark_of (uy_db s)"
    by blast+
qed

lemma prune_batch_same:
  "us_watermark (snd (prune_batch cutoff n db)) = us_watermark db" "us_totals (snd (prune_batch cutoff n db)) = us_totals db"
  "us_next (snd (prune_batch cutoff n db)) = us_next db"
  "watermark_of (snd (prune_batch cutoff n db)) = watermark_of db"
  by (simp_all add: prune_batch_def Let_def watermark_of_def)

lemma prune_batch_inv:
  assumes "usage_inv s"
  shows "usage_inv (s\<lparr>uy_db := snd (prune_batch cutoff n (uy_db s))\<rparr>)"
  using assms prune_stored [where s = s and cutoff = cutoff and n = n] by (auto simp: usage_inv_def stored_inv_def prune_batch_same)

lemma usage_batch_inv:
  assumes "usage_inv s" and "usage_process_of p s = Some q" and "uq_phase q = Up_Ready k"
  shows "usage_inv (usage_batch p cutoff n s)"
proof -
  obtain m db where r: "prune_batch cutoff n (uy_db s) = (m, db)" by force
  have "us_watermark db = us_watermark (uy_db s)" using prune_batch_same(1) [of cutoff n "uy_db s"] r by simp
  moreover have "phase_ok (uy_history s) (us_watermark (uy_db s)) (Up_Ready j)" for j
    using process_phase_ok [OF assms(1,2)] assms(3) by (simp add: phase_ok_def)
  moreover have "usage_inv (s\<lparr>uy_db := db\<rparr>)" using prune_batch_inv [OF assms(1), of cutoff n] r by simp
  ultimately show ?thesis by (simp add: usage_batch_def r usage_phase_inv)
qed

lemma truncated_nonneg: "\<not> negative v \<Longrightarrow> 0 \<le> truncated v"
  by (cases v) auto

lemma usage_row_of_ok:
  "usage_row_of inp now i = Inr r \<Longrightarrow> ur_id r = i \<and> 0 \<le> ur_ts r \<and> 0 \<le> ur_units r"
  by (auto simp: usage_row_of_def ebind_eq_Inr normalize_units_def normalize_timestamp_def
      truncated_nonneg split: usage_number.splits if_splits)

lemma usage_step_inv:
  assumes "usage_inv s" and "reset_in_time m s"
  shows "usage_inv (usage_step m s)"
proof (cases m)
  case (Um_Open p retention batch)
  with assms(1) show ?thesis
    by (auto simp: open_usage_def phase_ok_def intro!: usage_inv_processes)
next
  case (Um_Boot p)
  with assms show ?thesis by (simp add: boot_usage_inv)
next
  case (Um_Record p inp now)
  with assms(1) show ?thesis
    using usage_row_of_ok [of inp now "us_next (uy_db s)"] by (auto simp: record_usage_event_def intro: record_row_inv split: sum.split)
next
  case (Um_Prune p now)
  with assms(1) show ?thesis
    by (auto simp: start_prune_def intro: usage_batch_inv split: option.split usage_phase.split)
next
  case (Um_Batch p)
  with assms(1) show ?thesis
    by (auto simp: continue_prune_def intro: usage_batch_inv split: option.split usage_phase.split)
next
  case (Um_Close p)
  with assms(1) show ?thesis
    by (auto simp: close_usage_def intro: usage_inv_processes)
qed

text \<open>What is stored is kept by every step, a late reset included.\<close>

lemma stored_same:
  "uy_history t = uy_history s \<Longrightarrow> us_rows (uy_db t) = us_rows (uy_db s) \<Longrightarrow> us_daily (uy_db t) = us_daily (uy_db s) \<Longrightarrow>
    us_next (uy_db t) = us_next (uy_db s) \<Longrightarrow> stored_inv s \<Longrightarrow> stored_inv t"
  by (simp add: stored_inv_def history_ok_def pruned_rows_def)

lemma batch_stored:
  assumes "stored_inv s"
  shows "stored_inv (usage_batch p cutoff n s)"
proof -
  obtain m db where r: "prune_batch cutoff n (uy_db s) = (m, db)" by force
  have "stored_inv (s\<lparr>uy_db := db\<rparr>)" using prune_stored(1) [OF assms, of cutoff n] r by simp
  then show ?thesis
    by (rule stored_same [rotated 4]) (simp_all add: usage_batch_def r)
qed

lemma boot_stored: "stored_inv s \<Longrightarrow> stored_inv (boot_usage p s)"
  by (rule stored_same [where s = s])
    (auto simp: boot_usage_def reset_totals_def backfill_chunk_def Let_def split: option.split usage_phase.split)

lemma usage_step_stored: "stored_inv s \<Longrightarrow> stored_inv (usage_step m s)"
proof (cases m)
  case (Um_Record p inp now)
  assume "stored_inv s"
  with Um_Record show ?thesis
    using usage_row_of_ok [of inp now "us_next (uy_db s)"]
    by (auto simp: record_usage_event_def intro: record_stored split: sum.split)
qed (auto simp: open_usage_def close_usage_def start_prune_def continue_prune_def boot_stored batch_stored
    split: option.split usage_phase.split elim: stored_same [rotated 4])

lemma old_usage_stored:
  assumes "old_rows_ok rows n"
  shows "stored_inv (old_usage rows totals n)" and "pruned_rows (old_usage rows totals n) = []"
proof -
  show none: "pruned_rows (old_usage rows totals n) = []" by (simp add: pruned_rows_def old_usage_def filter_empty_conv)
  have "history_ok (old_usage rows totals n)"
    using assms by (auto simp: history_ok_def old_usage_def old_rows_ok_def list_all_iff filter_id_conv)
  then show "stored_inv (old_usage rows totals n)" unfolding stored_inv_def none by (simp add: days_match_def old_usage_def)
qed

lemma reached_stored:
  assumes "old_rows_ok rows n"
  shows "stored_inv (run_usage moves (old_usage rows totals n))"
proof -
  have "stored_inv (run_usage moves s)" if "stored_inv s" for s
    using that by (induction moves arbitrary: s) (simp_all add: run_usage_def usage_step_stored)
  then show ?thesis using old_usage_stored(1) [OF assms] by blast
qed

lemma old_usage_inv: "old_rows_ok rows n \<Longrightarrow> usage_inv (old_usage rows totals n)"
  using old_usage_stored [of rows n totals] by (simp add: usage_inv_def stored_inv_def) (simp add: old_usage_def)

lemma run_usage_inv: "usage_inv s \<Longrightarrow> resets_in_time moves s \<Longrightarrow> usage_inv (run_usage moves s)"
  by (induction moves arbitrary: s) (simp_all add: run_usage_def usage_step_inv)

lemma reached_usage_inv:
  "old_rows_ok rows n \<Longrightarrow> resets_in_time moves (old_usage rows totals n) \<Longrightarrow>
    usage_inv (run_usage moves (old_usage rows totals n))"
  by (intro run_usage_inv old_usage_inv)

section \<open>Totals and quota\<close>

lemma ready_totals:
  assumes "usage_inv s" and "usage_ready p s"
  shows "totals_match (uy_history s) (us_totals (uy_db s))"
proof -
  from assms obtain c where c: "us_watermark (uy_db s) = Some c" "\<forall>r \<in> set (uy_history s). ur_id r \<le> c"
    by (rule ready_phase)
  then have "counted_rows c (uy_history s) = uy_history s" by (simp add: counted_rows_def filter_id_conv)
  with assms(1) c show ?thesis by (simp add: usage_inv_def)
qed

text \<open>
  C32. The running totals are exact: as soon as a process serves, the total of every tenant and kind is the number and the
  units of all events ever recorded, those of an earlier version and pruned ones included, whatever processes
  open, migrate, crash, record and prune, and whatever the totals were before, as long as no process that has read
  that there is no watermark resets the totals after another process has set one.
\<close>

theorem usage_totals_exact:
  assumes "old_rows_ok rows n" and "resets_in_time moves (old_usage rows totals n)"
    and "usage_ready p (run_usage moves (old_usage rows totals n))"
  shows "sum_where (\<lambda>r. ut_tenant r = t \<and> ut_kind r = k) ut_events (us_totals (uy_db (run_usage moves (old_usage rows totals n)))) =
      events_where (\<lambda>r. ur_tenant r = t \<and> ur_kind r = k) (uy_history (run_usage moves (old_usage rows totals n))) \<and>
    sum_where (\<lambda>r. ut_tenant r = t \<and> ut_kind r = k) ut_units (us_totals (uy_db (run_usage moves (old_usage rows totals n)))) =
      sum_where (\<lambda>r. ur_tenant r = t \<and> ur_kind r = k) ur_units (uy_history (run_usage moves (old_usage rows totals n)))"
proof -
  let ?s = "run_usage moves (old_usage rows totals n)" and ?P = "\<lambda>x. fst x = t \<and> snd x = k"
  have "totals_match (uy_history ?s) (us_totals (uy_db ?s))"
    using ready_totals [OF reached_usage_inv] assms by blast
  from totals_match_events [OF this, of ?P] totals_match_units [OF this, of ?P]
  show ?thesis by (simp add: total_key_def group_key_def events_where_sum)
qed

lemma ready_total_units:
  assumes "usage_inv s" and "usage_ready p s"
  shows "total_units t (uy_db s) = sum_where (\<lambda>r. ur_tenant r = t) ur_units (uy_history s)"
  using totals_match_units [OF ready_totals [OF assms], of "\<lambda>x. fst x = t"]
  by (simp add: total_units_def total_key_def group_key_def)

text \<open>
  C33. The quota decision looks at all use: a request is allowed exactly when the units of all events ever recorded for
  the tenant and the requested units stay within the quota, as long as no process that has read that there is no watermark
  resets the totals after another process has set one.
\<close>

theorem quota_counts_all_usage:
  assumes "old_rows_ok rows n" and "resets_in_time moves (old_usage rows totals n)"
    and "usage_ready p (run_usage moves (old_usage rows totals n))"
    and "check_quota tenant (Some quota) requested (uy_db (run_usage moves (old_usage rows totals n))) = Inr d"
  shows "qd_allowed d \<longleftrightarrow>
    sum_where (\<lambda>r. ur_tenant r = js_trim tenant) ur_units (uy_history (run_usage moves (old_usage rows totals n))) +
      qd_requested d \<le> truncated quota"
proof -
  have "total_units t (uy_db (run_usage moves (old_usage rows totals n))) =
      sum_where (\<lambda>r. ur_tenant r = t) ur_units (uy_history (run_usage moves (old_usage rows totals n)))" for t
    using ready_total_units [OF reached_usage_inv] assms(1,2,3) by blast
  with assms(4) show ?thesis
    by (auto simp: check_quota_def ebind_eq_Inr normalize_units_def normalize_quota_def normalize_tenant_id_def Let_def
        split: usage_number.splits if_splits)
qed

end
