(* ===== verification/Usage_Summary.thy ===== *)
theory Usage_Summary
  imports Usage_Props
begin

text \<open>
  Pruning and summaries of the usage ledger: every event is either a raw row or counted in its day, a summary is exact up to
  the first day, and the summary of all time from the totals is the one from rows and days.
\<close>

section \<open>Pruning\<close>

text \<open>
  C34. Pruning loses nothing: the raw rows of a day together with its entry in the daily table are all events
  recorded for that day, for every tenant and kind, at every moment of any run of any processes, migrations, restarts and
  late resets of the totals included.
\<close>

theorem pruned_usage_is_kept:
  assumes "old_rows_ok rows n"
    and "db = uy_db (run_usage moves (old_usage rows totals n))" and "h = uy_history (run_usage moves (old_usage rows totals n))"
  shows "sum_where (\<lambda>r. ur_tenant r = t \<and> row_day r = d \<and> ur_kind r = k) ur_units (us_rows db) +
      sum_where (\<lambda>r. ud_tenant r = t \<and> ud_day r = d \<and> ud_kind r = k) ud_units (us_daily db) =
      sum_where (\<lambda>r. ur_tenant r = t \<and> row_day r = d \<and> ur_kind r = k) ur_units h \<and>
    events_where (\<lambda>r. ur_tenant r = t \<and> row_day r = d \<and> ur_kind r = k) (us_rows db) +
      sum_where (\<lambda>r. ud_tenant r = t \<and> ud_day r = d \<and> ud_kind r = k) ud_events (us_daily db) =
      events_where (\<lambda>r. ur_tenant r = t \<and> row_day r = d \<and> ur_kind r = k) h"
proof -
  let ?s = "run_usage moves (old_usage rows totals n)" and ?P = "\<lambda>x. fst x = t \<and> fst (snd x) = d \<and> snd (snd x) = k"
  from reached_stored [OF assms(1)]
  have h: "history_ok ?s" and m: "days_match (pruned_rows ?s) (us_daily (uy_db ?s))" by (simp_all add: stored_inv_def)
  from days_match_events [OF m, of ?P] days_match_units [OF m, of ?P]
    pruned_split [OF h, of "\<lambda>r. ur_tenant r = t \<and> row_day r = d \<and> ur_kind r = k" ur_units]
    pruned_split [OF h, of "\<lambda>r. ur_tenant r = t \<and> row_day r = d \<and> ur_kind r = k" "\<lambda>r. 1"]
  show ?thesis by (simp add: assms(2,3) day_key_def group_day_def events_where_sum)
qed

text \<open>Only events of days that ended before the retention are pruned.\<close>

lemma pruned_rows_are_old:
  assumes "r \<in> set (us_rows db)" and "r \<notin> set (us_rows (snd (prune_batch (prune_cutoff now retention) n db)))"
    and "distinct (map ur_id (us_rows db))"
  shows "(row_day r + 1) * day_ms \<le> now - retention"
proof -
  from assms(1,2) obtain q where "q \<in> set (prunable_rows (prune_cutoff now retention) n db)" "ur_id q = ur_id r"
    by (cases rule: prune_batch_cases [of "prune_cutoff now retention" n db]) auto
  moreover from this(1) have q: "q \<in> set (us_rows db)" "ur_ts q < prune_cutoff now retention" by (auto dest: prunable_row)
  ultimately have "q = r" using assms(1,3) by (auto simp: distinct_map dest: inj_onD)
  with q(2) have ts: "ur_ts r < (now - retention) div day_ms * day_ms" by (simp add: prune_cutoff_def)
  have "row_day r < (now - retention) div day_ms"
    using ts unfolding row_day_def by (simp add: day_ms_def)
  then have "(row_day r + 1) * day_ms \<le> (now - retention) div day_ms * day_ms" by (simp add: day_ms_def)
  also have "\<dots> \<le> now - retention" by (simp add: day_ms_def)
  finally show ?thesis .
qed

section \<open>Buckets\<close>

lemma sorted_groups:
  fixes f :: "'r \<Rightarrow> int" and g :: "'r \<Rightarrow> 'k::linorder"
  shows "sum_where P h (sort (remdups (map g rows))) = sum_where P (h :: 'k \<Rightarrow> int) (remdups (map g rows))"
proof -
  have "sum_list (map q (sort xs)) = sum_list (map q xs)" for q :: "'k \<Rightarrow> int" and xs
    using sum_order_by [of q "\<lambda>x. x" xs] by (simp add: order_by_def)
  then show ?thesis by (simp add: sum_where_alt)
qed

lemma all_groups:
  fixes f :: "'r \<Rightarrow> int" and g :: "'r \<Rightarrow> 'k::linorder"
  assumes "\<And>k. q (b k) = sum_where (\<lambda>r. g r = k) f rows"
  shows "all_of q (map b (sort (remdups (map g rows)))) = sum_list (map f rows)"
proof -
  have "sum_list (map h (sort xs)) = sum_list (map h xs)" for h :: "'k \<Rightarrow> int" and xs
    using sum_order_by [of h "\<lambda>x. x" xs] by (simp add: order_by_def)
  then show ?thesis using sum_groups [of g f rows] by (simp add: all_of_def comp_def assms)
qed

lemma daily_sums:
  "all_of ub_events (daily_buckets t since k db) =
     sum_where (\<lambda>r. ud_tenant r = t \<and> since div day_ms \<le> ud_day r \<and> kind_asked k (ud_kind r)) ud_events (us_daily db)"
  "all_of ub_units (daily_buckets t since k db) =
     sum_where (\<lambda>r. ud_tenant r = t \<and> since div day_ms \<le> ud_day r \<and> kind_asked k (ud_kind r)) ud_units (us_daily db)"
  unfolding daily_buckets_def Let_def by (subst all_groups, simp, simp add: sum_where_def)+

lemma sum_where_mono:
  "(\<And>r. r \<in> set rows \<Longrightarrow> 0 \<le> f r \<and> (P r \<longrightarrow> Q r)) \<Longrightarrow> sum_where P f rows \<le> (sum_where Q f rows :: int)"
  by (induction rows) (force simp: sum_where_Cons)+

lemma summary_units:
  assumes "stored_inv s"
  shows "uz_units (summary_since t since k (uy_db s)) =
    sum_where (\<lambda>r. ur_tenant r = t \<and> since \<le> ur_ts r \<and> kind_asked k (ur_kind r)) ur_units (us_rows (uy_db s)) +
    sum_where (\<lambda>r. ur_tenant r = t \<and> since div day_ms \<le> row_day r \<and> kind_asked k (ur_kind r)) ur_units (pruned_rows s)"
proof -
  have m: "days_match (pruned_rows s) (us_daily (uy_db s))" using assms by (simp add: stored_inv_def)
  from days_match_units [OF m, of "\<lambda>x. fst x = t \<and> since div day_ms \<le> fst (snd x) \<and> kind_asked k (snd (snd x))"]
  show ?thesis by (simp add: summary_since_def Let_def daily_sums day_key_def group_day_def)
qed

lemma day_of_later: "since \<le> ts \<Longrightarrow> since div day_ms \<le> ts div day_ms"
  by (simp add: day_ms_def zdiv_mono1)

lemma later_day: "since div day_ms \<le> ts div day_ms \<Longrightarrow> since div day_ms * day_ms \<le> ts"
proof -
  assume "since div day_ms \<le> ts div day_ms"
  then have "since div day_ms * day_ms \<le> ts div day_ms * day_ms" by (simp add: day_ms_def)
  also have "\<dots> \<le> ts" by (simp add: day_ms_def)
  finally show ?thesis .
qed

text \<open>
  C35. A summary is exact up to its first day: the units it reports since a time lie between those of all events recorded
  from that time on and those from the beginning of its day on, however much is pruned, in any run of any processes.
\<close>

theorem summary_is_bounded:
  assumes "old_rows_ok rows n"
    and "db = uy_db (run_usage moves (old_usage rows totals n))" and "h = uy_history (run_usage moves (old_usage rows totals n))"
  shows "sum_where (\<lambda>r. ur_tenant r = t \<and> since \<le> ur_ts r \<and> kind_asked k (ur_kind r)) ur_units h
      \<le> uz_units (summary_since t since k db) \<and>
    uz_units (summary_since t since k db)
      \<le> sum_where (\<lambda>r. ur_tenant r = t \<and> since div day_ms * day_ms \<le> ur_ts r \<and> kind_asked k (ur_kind r)) ur_units h"
proof -
  let ?s = "run_usage moves (old_usage rows totals n)"
  let ?from = "\<lambda>a r. ur_tenant r = t \<and> a \<le> ur_ts r \<and> kind_asked k (ur_kind r)"
  let ?day = "\<lambda>r. ur_tenant r = t \<and> since div day_ms \<le> row_day r \<and> kind_asked k (ur_kind r)"
  have inv: "stored_inv ?s" by (rule reached_stored [OF assms(1)])
  then have h: "history_ok ?s" by (simp add: stored_inv_def)
  then have nonneg: "0 \<le> ur_units r" if "r \<in> set (us_rows (uy_db ?s)) \<or> r \<in> set (pruned_rows ?s)" for r
    using that history_set(2) [OF h] by (auto simp: history_ok_def)
  have "sum_where (?from since) ur_units (pruned_rows ?s) \<le> sum_where ?day ur_units (pruned_rows ?s)"
    using nonneg day_of_later by (intro sum_where_mono) (simp add: row_day_def)
  moreover have "sum_where ?day ur_units (pruned_rows ?s) \<le> sum_where (?from (since div day_ms * day_ms)) ur_units (pruned_rows ?s)"
    using nonneg later_day by (intro sum_where_mono) (simp add: row_day_def)
  moreover have "sum_where (?from since) ur_units (us_rows (uy_db ?s)) \<le>
      sum_where (?from (since div day_ms * day_ms)) ur_units (us_rows (uy_db ?s))"
  proof (rule sum_where_mono)
    have "since div day_ms * day_ms \<le> since" by (simp add: day_ms_def)
    then show "0 \<le> ur_units r \<and> (?from since r \<longrightarrow> ?from (since div day_ms * day_ms) r)"
      if "r \<in> set (us_rows (uy_db ?s))" for r using that nonneg by auto
  qed
  ultimately show ?thesis
    unfolding assms(2,3) summary_units [OF inv] pruned_split [OF h] by linarith
qed

section \<open>The two paths\<close>

definition add_bucket :: "string \<Rightarrow> int \<Rightarrow> int \<Rightarrow> kind_bucket list \<Rightarrow> kind_bucket list" where
  "add_bucket k e u = merge_bucket \<lparr>ub_kind = k, ub_events = e, ub_units = u\<rparr>"

lemma add_bucket_alt:
  "add_bucket k e u rows =
     (if list_ex (\<lambda>r. ub_kind r = k) rows
      then update_where (\<lambda>r. ub_kind r = k) (\<lambda>r. r\<lparr>ub_events := ub_events r + e, ub_units := ub_units r + u\<rparr>) rows
      else rows @ [\<lparr>ub_kind = k, ub_events = e, ub_units = u\<rparr>])"
  by (simp add: add_bucket_def merge_bucket_def)

interpretation buckets: tally ub_kind ub_events ub_units add_bucket
  unfolding add_bucket_alt [abs_def] by (rule upsert_tally) simp_all

lemma merge_buckets: "fold merge_bucket bs ms = fold (\<lambda>b. add_bucket (ub_kind b) (ub_events b) (ub_units b)) bs ms"
proof -
  have "merge_bucket b = add_bucket (ub_kind b) (ub_events b) (ub_units b)" for b
    by (cases b) (simp add: add_bucket_def)
  then show ?thesis by (metis (no_types, lifting) fold_cong)
qed

text \<open>Buckets in the order of their kinds are determined by what they say of each kind.\<close>

lemma sorted_buckets_eq:
  assumes "sorted (map ub_kind xs)" and "distinct (map ub_kind xs)" and "sorted (map ub_kind ys)" and "distinct (map ub_kind ys)"
    and "set xs = set ys"
  shows "xs = ys"
proof -
  have kinds: "map ub_kind xs = map ub_kind ys"
    using assms by (intro sorted_distinct_set_unique) simp_all
  show ?thesis
  proof (rule nth_equalityI)
    show len: "length xs = length ys" using kinds by (metis length_map)
    fix i assume i: "i < length xs"
    have k: "ub_kind (xs ! i) = ub_kind (ys ! i)" using kinds len i by (metis nth_map)
    have "xs ! i \<in> set xs" "ys ! i \<in> set ys" using i len by simp_all
    then have "xs ! i \<in> set ys" "ys ! i \<in> set ys" using assms(5) by simp_all
    moreover have "inj_on ub_kind (set ys)" using assms(4) by (simp add: distinct_map)
    ultimately show "xs ! i = ys ! i" using inj_onD [of ub_kind "set ys", OF _ k] by blast
  qed
qed

definition history_bucket :: "string \<Rightarrow> usage_row list \<Rightarrow> string \<Rightarrow> kind_bucket" where
  "history_bucket t h k =
     \<lparr>ub_kind = k, ub_events = sum_where (\<lambda>r. ur_tenant r = t \<and> ur_kind r = k) (\<lambda>r. 1) h,
      ub_units = sum_where (\<lambda>r. ur_tenant r = t \<and> ur_kind r = k) ur_units h\<rparr>"

definition kinds_of :: "string \<Rightarrow> usage_row list \<Rightarrow> string set" where
  "kinds_of t h = ur_kind ` {r \<in> set h. ur_tenant r = t}"

lemma total_buckets_history:
  assumes "totals_match h (us_totals db)"
  shows "set (total_buckets t db) = history_bucket t h ` kinds_of t h"
    and "sorted (map ub_kind (total_buckets t db))" and "distinct (map ub_kind (total_buckets t db))"
proof -
  let ?rows = "filter (\<lambda>r. ut_tenant r = t) (us_totals db)"
  let ?b = "\<lambda>r. \<lparr>ub_kind = ut_kind r, ub_events = ut_events r, ub_units = ut_units r\<rparr>"
  have d: "distinct (map total_key (us_totals db))" using assms by (simp add: totals_match_def)
  have "?b r = history_bucket t h (ut_kind r)" if "r \<in> set ?rows" for r
  proof -
    have key: "total_key r = (t, ut_kind r)" and r: "r \<in> set (us_totals db)" using that by (simp_all add: total_key_def)
    from totals.row_sum [OF d r, of ut_events] totals.row_sum [OF d r, of ut_units]
      totals_match_events [OF assms, of "\<lambda>x. x = total_key r"] totals_match_units [OF assms, of "\<lambda>x. x = total_key r"]
    show ?thesis by (simp add: key group_key_def history_bucket_def)
  qed
  moreover have "ut_kind ` set ?rows = kinds_of t h"
  proof -
    have "total_key ` set (us_totals db) = group_key ` set h" using assms by (simp add: totals_match_def)
    moreover have "ut_kind ` set ?rows = {k. (t, k) \<in> total_key ` set (us_totals db)}" by (auto simp: total_key_def)
    moreover have "kinds_of t h = {k. (t, k) \<in> group_key ` set h}" by (auto simp: kinds_of_def group_key_def)
    ultimately show ?thesis by simp
  qed
  ultimately show "set (total_buckets t db) = history_bucket t h ` kinds_of t h"
    by (force simp: total_buckets_def)
  have kinds: "map ub_kind (total_buckets t db) = map ut_kind (order_by ut_kind ?rows)" by (simp add: total_buckets_def)
  show "sorted (map ub_kind (total_buckets t db))" unfolding kinds by (simp add: order_by_def)
  have "distinct ?rows" "inj_on ut_kind (set ?rows)"
    using d by (auto simp: distinct_map inj_on_def total_key_def)
  then show "distinct (map ub_kind (total_buckets t db))"
    unfolding kinds by (simp add: distinct_map order_by_def)
qed

lemma group_buckets:
  fixes f :: "'r \<Rightarrow> int" and g :: "'r \<Rightarrow> string"
  assumes "\<And>k. ub_kind (b k) = k" and "\<And>k. q (b k) = sum_where (\<lambda>r. g r = k) f rows"
  shows "sum_where (\<lambda>x. ub_kind x = k) q (map b (sort (remdups (map g rows)))) = sum_where (\<lambda>r. g r = k) f rows"
proof -
  have "sum_where (\<lambda>x. ub_kind x = k) q (map b ks) = sum_where (\<lambda>x. x = k) (\<lambda>k. sum_where (\<lambda>r. g r = k) f rows) ks" for ks
    by (induction ks) (simp_all add: sum_where_Cons assms)
  then show ?thesis by (simp add: sorted_groups) (rule sum_over_groups)
qed

lemma sum_where_filter_rows: "sum_where P f (filter Q rows) = sum_where (\<lambda>r. Q r \<and> P r) f rows"
  by (simp add: sum_where_def conj_commute)

lemma merged_kinds:
  "ub_kind ` set (raw_buckets t since k db) =
     ur_kind ` {r \<in> set (us_rows db). ur_tenant r = t \<and> since \<le> ur_ts r \<and> kind_asked k (ur_kind r)}"
  "ub_kind ` set (daily_buckets t since k db) =
     ud_kind ` {r \<in> set (us_daily db). ud_tenant r = t \<and> since div day_ms \<le> ud_day r \<and> kind_asked k (ud_kind r)}"
  by (simp_all add: raw_buckets_def daily_buckets_def Let_def image_image)

lemma merged_sums:
  "sum_where (\<lambda>b. ub_kind b = kind) ub_events (raw_buckets t since k db) =
     sum_where (\<lambda>r. (ur_tenant r = t \<and> since \<le> ur_ts r \<and> kind_asked k (ur_kind r)) \<and> ur_kind r = kind) (\<lambda>r. 1) (us_rows db)"
  "sum_where (\<lambda>b. ub_kind b = kind) ub_units (raw_buckets t since k db) =
     sum_where (\<lambda>r. (ur_tenant r = t \<and> since \<le> ur_ts r \<and> kind_asked k (ur_kind r)) \<and> ur_kind r = kind) ur_units (us_rows db)"
  "sum_where (\<lambda>b. ub_kind b = kind) ub_events (daily_buckets t since k db) =
     sum_where (\<lambda>r. (ud_tenant r = t \<and> since div day_ms \<le> ud_day r \<and> kind_asked k (ud_kind r)) \<and> ud_kind r = kind) ud_events (us_daily db)"
  "sum_where (\<lambda>b. ub_kind b = kind) ub_units (daily_buckets t since k db) =
     sum_where (\<lambda>r. (ud_tenant r = t \<and> since div day_ms \<le> ud_day r \<and> kind_asked k (ud_kind r)) \<and> ud_kind r = kind) ud_units (us_daily db)"
  unfolding raw_buckets_def daily_buckets_def Let_def
  by (subst group_buckets, simp, simp add: events_where_sum, rule sum_where_filter_rows)+

text \<open>With all time asked for, the merged buckets say of each kind what the history says.\<close>

lemma all_time_rows:
  assumes "usage_inv s"
  shows "sum_where (\<lambda>r. (ur_tenant r = t \<and> 0 \<le> ur_ts r \<and> kind_asked None (ur_kind r)) \<and> P (ur_kind r)) f (us_rows (uy_db s)) +
      sum_where (\<lambda>r. (ur_tenant r = t \<and> 0 div day_ms \<le> row_day r \<and> kind_asked None (ur_kind r)) \<and> P (ur_kind r)) f (pruned_rows s) =
      sum_where (\<lambda>r. ur_tenant r = t \<and> P (ur_kind r)) f (uy_history s)"
proof -
  have h: "history_ok s" using assms by (simp add: usage_inv_def)
  have ts: "0 \<le> ur_ts r" if "r \<in> set (us_rows (uy_db s)) \<or> r \<in> set (pruned_rows s)" for r
    using that history_set(2) [OF h] h by (auto simp: history_ok_def)
  have "sum_where (\<lambda>r. (ur_tenant r = t \<and> 0 \<le> ur_ts r \<and> kind_asked None (ur_kind r)) \<and> P (ur_kind r)) f (us_rows (uy_db s)) =
      sum_where (\<lambda>r. ur_tenant r = t \<and> P (ur_kind r)) f (us_rows (uy_db s))"
    unfolding sum_where_def using ts by (intro arg_cong [where f = "\<lambda>xs. sum_list (map f xs)"] filter_cong) (auto simp: kind_asked_def)
  moreover have "sum_where (\<lambda>r. (ur_tenant r = t \<and> 0 div day_ms \<le> row_day r \<and> kind_asked None (ur_kind r)) \<and> P (ur_kind r)) f (pruned_rows s) =
      sum_where (\<lambda>r. ur_tenant r = t \<and> P (ur_kind r)) f (pruned_rows s)"
    unfolding sum_where_def using ts
    by (intro arg_cong [where f = "\<lambda>xs. sum_list (map f xs)"] filter_cong) (auto simp: kind_asked_def row_day_def day_ms_def pos_imp_zdiv_nonneg_iff)
  ultimately show ?thesis using pruned_split [OF h] by simp
qed

lemma all_time_kinds:
  assumes "usage_inv s"
  shows "ub_kind ` set (raw_buckets t 0 None (uy_db s) @ daily_buckets t 0 None (uy_db s)) = kinds_of t (uy_history s)"
proof -
  have h: "history_ok s" and m: "days_match (pruned_rows s) (us_daily (uy_db s))" using assms by (simp_all add: usage_inv_def)
  have ts: "0 \<le> ur_ts r" if "r \<in> set (uy_history s)" for r using that h by (simp add: history_ok_def)
  have raw: "ub_kind ` set (raw_buckets t 0 None (uy_db s)) = kinds_of t (us_rows (uy_db s))"
    unfolding merged_kinds kinds_of_def using ts history_set(1) [OF h]
    by (intro arg_cong [where f = "\<lambda>xs. ur_kind ` xs"]) (auto simp: kind_asked_def)
  have "{x \<in> day_key ` set (us_daily (uy_db s)). fst x = t \<and> 0 \<le> fst (snd x)} = {x \<in> group_day ` set (pruned_rows s). fst x = t \<and> 0 \<le> fst (snd x)}"
    using m by (simp add: days_match_def)
  then have "snd ` snd ` {x \<in> day_key ` set (us_daily (uy_db s)). fst x = t \<and> 0 \<le> fst (snd x)} =
      snd ` snd ` {x \<in> group_day ` set (pruned_rows s). fst x = t \<and> 0 \<le> fst (snd x)}" by simp
  moreover have "ud_kind ` {r \<in> set (us_daily (uy_db s)). ud_tenant r = t \<and> 0 \<le> ud_day r} =
      snd ` snd ` {x \<in> day_key ` set (us_daily (uy_db s)). fst x = t \<and> 0 \<le> fst (snd x)}" by (force simp: day_key_def)
  moreover have "kinds_of t (pruned_rows s) = snd ` snd ` {x \<in> group_day ` set (pruned_rows s). fst x = t \<and> 0 \<le> fst (snd x)}"
  proof -
    have "0 \<le> row_day r" if "r \<in> set (pruned_rows s)" for r
      using ts [of r] that by (simp add: pruned_rows_def row_day_def day_ms_def)
    then show ?thesis by (force simp: kinds_of_def group_day_def)
  qed
  ultimately have "ub_kind ` set (daily_buckets t 0 None (uy_db s)) = kinds_of t (pruned_rows s)"
    by (simp add: merged_kinds kind_asked_def day_ms_def)
  then show ?thesis
    using raw history_set(2) [OF h] by (auto simp: image_Un kinds_of_def)
qed

lemma merged_all_time:
  fixes t :: string and s :: usage_system
  assumes "usage_inv s"
  defines "merged \<equiv> fold merge_bucket (raw_buckets t 0 None (uy_db s) @ daily_buckets t 0 None (uy_db s)) []"
  shows "distinct (map ub_kind merged)" and "set merged = history_bucket t (uy_history s) ` kinds_of t (uy_history s)"
proof -
  let ?bs = "raw_buckets t 0 None (uy_db s) @ daily_buckets t 0 None (uy_db s)"
  have m: "days_match (pruned_rows s) (us_daily (uy_db s))" using assms(1) by (simp add: usage_inv_def)
  have merged: "merged = fold (\<lambda>b. add_bucket (ub_kind b) (ub_events b) (ub_units b)) ?bs []"
    unfolding merged_def by (rule merge_buckets)
  note fold = buckets.fold_add [where rows = "[]" and g = ub_kind and e = ub_events and u = ub_units and xs = ?bs, folded merged]
  show d: "distinct (map ub_kind merged)" by (rule fold(1)) simp
  have kinds: "ub_kind ` set merged = kinds_of t (uy_history s)" using fold(2) all_time_kinds [OF assms(1)] by simp
  have "x = history_bucket t (uy_history s) (ub_kind x)" if "x \<in> set merged" for x
  proof -
    have "ub_events x = sum_where (\<lambda>b. ub_kind b = ub_kind x) ub_events ?bs"
      using buckets.row_sum [OF d that, of ub_events] fold(3) [where P = "\<lambda>k. k = ub_kind x"] by simp
    also have "\<dots> = sum_where (\<lambda>r. ur_tenant r = t \<and> ur_kind r = ub_kind x) (\<lambda>r. 1) (uy_history s)"
      using all_time_rows [OF assms(1), of t "\<lambda>k. k = ub_kind x" "\<lambda>r. 1"]
        days_match_events [OF m, of "\<lambda>y. (fst y = t \<and> 0 div day_ms \<le> fst (snd y) \<and> kind_asked None (snd (snd y))) \<and> snd (snd y) = ub_kind x"]
      by (simp add: sum_where_append merged_sums day_key_def group_day_def)
    finally have e: "ub_events x = sum_where (\<lambda>r. ur_tenant r = t \<and> ur_kind r = ub_kind x) (\<lambda>r. 1) (uy_history s)" .
    have "ub_units x = sum_where (\<lambda>b. ub_kind b = ub_kind x) ub_units ?bs"
      using buckets.row_sum [OF d that, of ub_units] fold(4) [where P = "\<lambda>k. k = ub_kind x"] by simp
    also have "\<dots> = sum_where (\<lambda>r. ur_tenant r = t \<and> ur_kind r = ub_kind x) ur_units (uy_history s)"
      using all_time_rows [OF assms(1), of t "\<lambda>k. k = ub_kind x" ur_units]
        days_match_units [OF m, of "\<lambda>y. (fst y = t \<and> 0 div day_ms \<le> fst (snd y) \<and> kind_asked None (snd (snd y))) \<and> snd (snd y) = ub_kind x"]
      by (simp add: sum_where_append merged_sums day_key_def group_day_def)
    finally show ?thesis using e by (simp add: history_bucket_def)
  qed
  then have "set merged = history_bucket t (uy_history s) ` ub_kind ` set merged" by force
  then show "set merged = history_bucket t (uy_history s) ` kinds_of t (uy_history s)" by (simp only: kinds)
qed

text \<open>
  C36. The two ways to a summary agree: the summary of all time that is read from the running totals is the one that counting
  the raw rows and the daily table gives, kind by kind, as soon as a process serves, as long as no process that has read
  that there is no watermark resets the totals after another process has set one.
\<close>

theorem summary_paths_agree:
  assumes "old_rows_ok rows n" and "resets_in_time moves (old_usage rows totals n)"
    and "usage_ready p (run_usage moves (old_usage rows totals n))"
    and "db = uy_db (run_usage moves (old_usage rows totals n))"
  shows "summary_all t db = summary_since t 0 None db"
proof -
  let ?s = "run_usage moves (old_usage rows totals n)" and ?h = "uy_history (run_usage moves (old_usage rows totals n))"
  have inv: "usage_inv ?s" by (rule reached_usage_inv [OF assms(1,2)])
  then have m: "days_match (pruned_rows ?s) (us_daily (uy_db ?s))" by (simp add: usage_inv_def)
  have tm: "totals_match ?h (us_totals (uy_db ?s))" by (rule ready_totals [OF inv assms(3)])
  let ?merged = "fold merge_bucket (raw_buckets t 0 None db @ daily_buckets t 0 None db) []"
  note total = total_buckets_history [OF tm, of t, folded assms(4)]
  note merged = merged_all_time [OF inv, of t, folded assms(4)]
  have buckets: "total_buckets t db = sort_key ub_kind ?merged"
  proof (rule sorted_buckets_eq [OF total(2,3)])
    have "distinct ?merged" "inj_on ub_kind (set ?merged)" using merged(1) by (simp_all add: distinct_map)
    then show "distinct (map ub_kind (sort_key ub_kind ?merged))" by (simp add: distinct_map)
  qed (simp_all add: total(1) merged(2) del: fold_append)
  have "all_of ub_events (total_buckets t db) = sum_where (\<lambda>r. ur_tenant r = t) (\<lambda>r. 1) ?h"
    using totals_match_events [OF tm, of "\<lambda>x. fst x = t"]
    by (simp add: all_of_def total_buckets_def comp_def sum_order_by total_key_def group_key_def assms(4) sum_where_def)
  moreover have "all_of ub_units (total_buckets t db) = sum_where (\<lambda>r. ur_tenant r = t) ur_units ?h"
    using totals_match_units [OF tm, of "\<lambda>x. fst x = t"]
    by (simp add: all_of_def total_buckets_def comp_def sum_order_by total_key_def group_key_def assms(4) sum_where_def)
  moreover have "sum_where (\<lambda>r. ur_tenant r = t \<and> 0 \<le> ur_ts r \<and> kind_asked None (ur_kind r)) (\<lambda>r. 1) (us_rows db) +
      all_of ub_events (daily_buckets t 0 None db) = sum_where (\<lambda>r. ur_tenant r = t) (\<lambda>r. 1) ?h"
    using all_time_rows [OF inv, of t "\<lambda>k. True" "\<lambda>r. 1"]
      days_match_events [OF m, of "\<lambda>y. fst y = t \<and> 0 div day_ms \<le> fst (snd y) \<and> kind_asked None (snd (snd y))"]
    by (simp add: daily_sums day_key_def group_day_def assms(4))
  moreover have "sum_where (\<lambda>r. ur_tenant r = t \<and> 0 \<le> ur_ts r \<and> kind_asked None (ur_kind r)) ur_units (us_rows db) +
      all_of ub_units (daily_buckets t 0 None db) = sum_where (\<lambda>r. ur_tenant r = t) ur_units ?h"
    using all_time_rows [OF inv, of t "\<lambda>k. True" ur_units]
      days_match_units [OF m, of "\<lambda>y. fst y = t \<and> 0 div day_ms \<le> fst (snd y) \<and> kind_asked None (snd (snd y))"]
    by (simp add: daily_sums day_key_def group_day_def assms(4))
  ultimately show ?thesis
    by (simp add: summary_all_def summary_since_def Let_def buckets events_where_sum)
qed

end
