(* ===== verification/Usage_Examples.thy ===== *)
theory Usage_Examples
  imports Usage_Summary
begin

text \<open>
  The properties of the usage ledger at a concrete run, and a run of two processes in which a late reset of the totals
  makes the quota forget what was used.
\<close>

definition demo_old_rows :: "usage_row list" where
  "demo_old_rows = [\<lparr>ur_id = 1, ur_tenant = ''t'', ur_ts = 5, ur_kind = ''k'', ur_units = 5, ur_metadata = None\<rparr>]"

abbreviation demo_old :: usage_system where
  "demo_old \<equiv> old_usage demo_old_rows [] 2"

definition demo_use :: usage_event_input where
  "demo_use = \<lparr>ui_tenant = ''t'', ui_kind = None, ui_units = Some (Un_Int 2), ui_at = None, ui_metadata = None\<rparr>"

text \<open>A process with a retention of one day migrates an old row, records an event and prunes two days later.\<close>

definition demo_use_moves :: "usage_move list" where
  "demo_use_moves =
     [Um_Open 1 (Some (Un_Int 1)) 1000, Um_Boot 1, Um_Boot 1, Um_Boot 1, Um_Boot 1, Um_Boot 1,
      Um_Record 1 demo_use 172800000, Um_Prune 1 172800000]"

lemmas usage_run_defs =
  run_usage_def old_usage_def open_usage_def usage_process_of_def boot_usage_def set_usage_phase_def update_where_def
  reset_totals_def next_bound_def backfill_chunk_rows_def order_by_def backfill_chunk_def watermark_of_def
  count_into_totals_def add_total_def events_where_def count_where_def sum_where_def retention_ms_def
  resolve_retention_days_def day_ms_def record_usage_event_def usage_ready_def record_row_def

lemma demo_event_row: "usage_row_of demo_use 172800000 2 =
    Inr \<lparr>ur_id = 2, ur_tenant = ''t'', ur_ts = 172800000, ur_kind = ''mcp.request'', ur_units = 2, ur_metadata = None\<rparr>"
  by code_simp

lemma demo_run:
  "run_usage demo_use_moves demo_old =
     \<lparr>uy_db = \<lparr>us_rows = [\<lparr>ur_id = 2, ur_tenant = ''t'', ur_ts = 172800000, ur_kind = ''mcp.request'', ur_units = 2, ur_metadata = None\<rparr>],
        us_totals =
          [\<lparr>ut_tenant = ''t'', ut_kind = ''k'', ut_events = 1, ut_units = 5\<rparr>,
           \<lparr>ut_tenant = ''t'', ut_kind = ''mcp.request'', ut_events = 1, ut_units = 2\<rparr>],
        us_daily = [\<lparr>ud_tenant = ''t'', ud_day = 0, ud_kind = ''k'', ud_events = 1, ud_units = 5\<rparr>],
        us_watermark = Some 2, us_next = 3\<rparr>,
      uy_processes = [\<lparr>uq_id = 1, uq_retention = Some 86400000, uq_batch = 1000, uq_phase = Up_Ready (Some 86400000)\<rparr>],
      uy_history =
        [\<lparr>ur_id = 1, ur_tenant = ''t'', ur_ts = 5, ur_kind = ''k'', ur_units = 5, ur_metadata = None\<rparr>,
         \<lparr>ur_id = 2, ur_tenant = ''t'', ur_ts = 172800000, ur_kind = ''mcp.request'', ur_units = 2, ur_metadata = None\<rparr>]\<rparr>"
  by (simp add: demo_use_moves_def demo_old_rows_def usage_run_defs demo_event_row start_prune_def usage_batch_def prune_batch_def
      prunable_rows_def prune_cutoff_def Let_def count_into_days_def add_day_def row_day_def)

lemma demo_old_ok: "old_rows_ok demo_old_rows 2"
  by (simp add: old_rows_ok_def demo_old_rows_def)

lemma demo_in_time: "resets_in_time demo_use_moves demo_old"
  by (simp add: demo_use_moves_def demo_old_rows_def usage_run_defs reset_in_time_def)

lemma demo_serves: "usage_ready 1 (run_usage demo_use_moves demo_old)"
  by (simp add: demo_run usage_ready_def usage_process_of_def)

lemma usage_totals_exact_witness:
  "sum_where (\<lambda>r. ut_tenant r = ''t'' \<and> ut_kind r = ''k'') ut_units (us_totals (uy_db (run_usage demo_use_moves demo_old))) = 5"
  using usage_totals_exact [OF demo_old_ok demo_in_time demo_serves, of "''t''" "''k''"]
  by (simp add: demo_run sum_where_def)

lemma demo_quota:
  "check_quota '' t '' (Some (Un_Int 8)) (Un_Int 2) (uy_db (run_usage demo_use_moves demo_old)) =
     Inr \<lparr>qd_allowed = False, qd_quota = Some 8, qd_used = Some 7, qd_requested = 2, qd_remaining = Some 1\<rparr>"
  unfolding demo_run by code_simp

lemma quota_counts_all_usage_witness:
  "7 + 2 > truncated (Un_Int 8) \<and>
   sum_where (\<lambda>r. ur_tenant r = js_trim '' t '') ur_units (uy_history (run_usage demo_use_moves demo_old)) + 2 > truncated (Un_Int 8)"
  using quota_counts_all_usage [OF demo_old_ok demo_in_time demo_serves demo_quota] by simp

lemma pruned_usage_is_kept_witness:
  "sum_where (\<lambda>r. ud_tenant r = ''t'' \<and> ud_day r = 0 \<and> ud_kind r = ''k'') ud_units
     (us_daily (uy_db (run_usage demo_use_moves demo_old))) = 5"
  using pruned_usage_is_kept [OF demo_old_ok refl refl, where moves = demo_use_moves and totals = "[]" and t = "''t''" and d = 0 and k = "''k''"]
  by (simp add: demo_run sum_where_def row_day_def day_ms_def)

lemma summary_is_bounded_witness:
  "uz_units (summary_since ''t'' 86400000 None (uy_db (run_usage demo_use_moves demo_old))) = 2"
  using summary_is_bounded [OF demo_old_ok refl refl, where moves = demo_use_moves and totals = "[]" and t = "''t''" and since = 86400000 and k = None]
  by (simp add: demo_run sum_where_def kind_asked_def day_ms_def)

lemma summary_paths_agree_witness:
  "uz_units (summary_since ''t'' 0 None (uy_db (run_usage demo_use_moves demo_old))) = 7"
  using summary_paths_agree [OF demo_old_ok demo_in_time demo_serves refl, of "''t''", symmetric]
  by (simp add: summary_all_def total_buckets_def all_of_def order_by_def demo_run)

section \<open>A late reset\<close>

text \<open>
  Two processes open the database of an earlier version and both read that there is no watermark. One migrates and serves;
  the reset of the other comes after that, and an event recorded next moves the watermark past the rows that are to be
  counted again. The second process skips them, and the old use is gone from the totals that the quota looks at.
\<close>

definition late_reset :: "usage_move list" where
  "late_reset =
     [Um_Open 1 None 1000, Um_Open 2 None 1000, Um_Boot 1, Um_Boot 2, Um_Boot 1, Um_Boot 1, Um_Boot 1, Um_Boot 1,
      Um_Boot 2, Um_Record 1 demo_use 172800000, Um_Boot 2, Um_Boot 2, Um_Boot 2]"

lemma late_reset_run:
  "us_totals (uy_db (run_usage late_reset demo_old)) =
     [\<lparr>ut_tenant = ''t'', ut_kind = ''mcp.request'', ut_events = 1, ut_units = 2\<rparr>]"
  "map ur_units (us_rows (uy_db (run_usage late_reset demo_old))) = [5, 2]"
  "usage_ready 1 (run_usage late_reset demo_old)" "usage_ready 2 (run_usage late_reset demo_old)"
  by (simp_all add: late_reset_def demo_old_rows_def usage_run_defs demo_event_row)

lemma late_reset_forgets_usage:
  "\<not> resets_in_time late_reset demo_old \<and> usage_ready 2 (run_usage late_reset demo_old) \<and>
   map ur_units (us_rows (uy_db (run_usage late_reset demo_old))) = [5, 2] \<and>
   total_units ''t'' (uy_db (run_usage late_reset demo_old)) = 2"
  by (simp add: late_reset_run total_units_def)
    (simp add: late_reset_def demo_old_rows_def usage_run_defs reset_in_time_def)

end
