(* ===== verification/Channel_State.thy ===== *)
theory Channel_State
  imports Prelude Complex_Main
begin

text \<open>
  The tables of the WhatsApp channel store (server/src/whatsappStore.ts) and its small helpers. Columns that only keep raw
  payloads for inspection are left out, and so is the warning sign in front of the notices. A duration that JavaScript
  measures is a rational number; \<open>None\<close> stands for null, undefined and numbers that are not finite.
\<close>

section \<open>Voice jobs\<close>

datatype voice_state =
  V_Awaiting_Confirmation | V_Queued | V_Transcribing | V_Transcribed | V_Forwarding | V_Reply_Ready | V_Completed
| V_Cancelled | V_Failed | V_Capture_Retry | V_Outcome_Unknown

record voice_job =
  vj_id :: string
  vj_reply_to :: "string option"
  vj_tenant :: string
  vj_conversation :: string
  vj_sender :: string
  vj_chat :: string
  vj_artifact :: string
  vj_path :: string
  vj_sha :: string
  vj_mime :: "string option"
  vj_file :: "string option"
  vj_caption :: string
  vj_duration :: "rat option"
  vj_state :: voice_state
  vj_transcription :: "json option"
  vj_reply :: "string option"
  vj_error :: "string option"
  vj_reason :: "string option"
  vj_provider :: "string option"
  vj_http :: "int option"
  vj_code :: "string option"
  vj_attempts :: nat
  vj_created :: int
  vj_updated :: int

section \<open>Messages\<close>

record channel_message =
  wm_id :: string
  wm_chat :: string
  wm_contact :: "string option"
  wm_inbound :: bool
  wm_timestamp :: "int option"
  wm_body :: string
  wm_has_media :: bool
  wm_media_type :: "string option"
  wm_status :: string
  wm_received :: int

record channel_contact =
  wc_id :: string
  wc_phone :: "string option"
  wc_name :: "string option"
  wc_first_seen :: int
  wc_last_seen :: int

record channel_chat =
  wh_id :: string
  wh_group :: bool
  wh_name :: "string option"
  wh_last_message :: "string option"
  wh_last_at :: "int option"
  wh_inbound :: nat
  wh_updated :: int

record message_media =
  mm_message :: string
  mm_type :: string
  mm_mime :: "string option"
  mm_file :: "string option"
  mm_storage :: string
  mm_created :: int

section \<open>Audits\<close>

datatype lifecycle = Lc_Forwarded | Lc_Replied | Lc_Failed | Lc_Interrupted | Lc_Coalesced

datatype coalescing_mark = Mark_Owner | Mark_Coalesced

datatype timing_key = T_Download | T_Queue_Wait | T_Runtime | T_Downstream | T_Send | T_Total

type_synonym channel_timing = "timing_key \<Rightarrow> int option"

text \<open>A partial timing: a key may be undefined.\<close>

type_synonym timing_input = "timing_key \<Rightarrow> rat option option"

record channel_audit =
  ca_id :: string
  ca_tenant :: string
  ca_sender :: string
  ca_transcript :: "string option"
  ca_provenance :: "string option"
  ca_transcription_failure :: "string option"
  ca_artifact :: "string option"
  ca_sha :: "string option"
  ca_destination :: string
  ca_correlation :: "string option"
  ca_receipt :: "json option"
  ca_reply :: "string option"
  ca_canonical :: "string option"
  ca_mark :: "coalescing_mark option"
  ca_stage :: "string option"
  ca_failure :: "string option"
  ca_lifecycle :: lifecycle
  ca_outbound_id :: "string option"
  ca_outbound_status :: "string option"
  ca_timing :: channel_timing
  ca_forwarded :: int
  ca_updated :: int

record outbound_audit =
  oa_message :: "string option"
  oa_chat :: string
  oa_contact :: "string option"
  oa_body :: string
  oa_status :: string
  oa_error :: "string option"
  oa_sent :: "string option"
  oa_created :: int

section \<open>Coalescing, recovery and outbound intents\<close>

datatype media_role = Owner | Duplicate

datatype media_outcome = M_Processing | M_Completed | M_Failed

record media_claim =
  mc_id :: string
  mc_tenant :: string
  mc_channel :: string
  mc_sha :: string
  mc_canonical :: string
  mc_role :: media_role
  mc_state :: media_outcome
  mc_created :: int
  mc_updated :: int

datatype recovery_kind = Forwarded_Reply | Interrupted_Failure

datatype recovery_state = R_Pending | R_Claimed | R_Replied | R_Notified | R_Send_Failed

record media_recovery =
  mr_id :: string
  mr_kind :: recovery_kind
  mr_state :: recovery_state
  mr_reply :: string
  mr_outbound :: "string option"
  mr_error :: "string option"
  mr_claimed :: "int option"
  mr_completed :: "int option"
  mr_created :: int
  mr_updated :: int

record outbound_intent =
  oi_id :: string
  oi_source :: string
  oi_tenant :: "string option"
  oi_provider_id :: string
  oi_sent_id :: "string option"
  oi_chat :: string
  oi_contact :: "string option"
  oi_body :: string
  oi_status :: string
  oi_receipt :: bool
  oi_sent :: bool
  oi_error :: "string option"
  oi_created :: int
  oi_updated :: int

record channel_db =
  wd_contacts :: "channel_contact list"
  wd_chats :: "channel_chat list"
  wd_messages :: "channel_message list"
  wd_media :: "message_media list"
  wd_outbound :: "outbound_audit list"
  wd_audits :: "channel_audit list"
  wd_claims :: "media_claim list"
  wd_recoveries :: "media_recovery list"
  wd_intents :: "outbound_intent list"
  wd_jobs :: "voice_job list"

definition empty_channel :: channel_db where
  "empty_channel =
     \<lparr>wd_contacts = [], wd_chats = [], wd_messages = [], wd_media = [], wd_outbound = [], wd_audits = [], wd_claims = [],
      wd_recoveries = [], wd_intents = [], wd_jobs = []\<rparr>"

section \<open>Statements\<close>

definition update_jobs :: "(voice_job \<Rightarrow> bool) \<Rightarrow> (voice_job \<Rightarrow> voice_job) \<Rightarrow> channel_db \<Rightarrow> channel_db" where
  "update_jobs p f db = db\<lparr>wd_jobs := update_where p f (wd_jobs db)\<rparr>"

definition update_messages ::
  "(channel_message \<Rightarrow> bool) \<Rightarrow> (channel_message \<Rightarrow> channel_message) \<Rightarrow> channel_db \<Rightarrow> channel_db" where
  "update_messages p f db = db\<lparr>wd_messages := update_where p f (wd_messages db)\<rparr>"

definition update_audits :: "(channel_audit \<Rightarrow> bool) \<Rightarrow> (channel_audit \<Rightarrow> channel_audit) \<Rightarrow> channel_db \<Rightarrow> channel_db" where
  "update_audits p f db = db\<lparr>wd_audits := update_where p f (wd_audits db)\<rparr>"

definition update_claims :: "(media_claim \<Rightarrow> bool) \<Rightarrow> (media_claim \<Rightarrow> media_claim) \<Rightarrow> channel_db \<Rightarrow> channel_db" where
  "update_claims p f db = db\<lparr>wd_claims := update_where p f (wd_claims db)\<rparr>"

definition update_recoveries ::
  "(media_recovery \<Rightarrow> bool) \<Rightarrow> (media_recovery \<Rightarrow> media_recovery) \<Rightarrow> channel_db \<Rightarrow> channel_db" where
  "update_recoveries p f db = db\<lparr>wd_recoveries := update_where p f (wd_recoveries db)\<rparr>"

definition update_intents ::
  "(outbound_intent \<Rightarrow> bool) \<Rightarrow> (outbound_intent \<Rightarrow> outbound_intent) \<Rightarrow> channel_db \<Rightarrow> channel_db" where
  "update_intents p f db = db\<lparr>wd_intents := update_where p f (wd_intents db)\<rparr>"

definition add_outbound :: "outbound_audit \<Rightarrow> channel_db \<Rightarrow> channel_db" where
  "add_outbound a db = db\<lparr>wd_outbound := wd_outbound db @ [a]\<rparr>"

text \<open>The outcome of the media of which a message is the owner or a duplicate.\<close>

definition settle_claims :: "string \<Rightarrow> media_outcome \<Rightarrow> int \<Rightarrow> channel_db \<Rightarrow> channel_db" where
  "settle_claims i outcome now =
     update_claims (\<lambda>c. mc_canonical c = i) (\<lambda>c. c\<lparr>mc_state := outcome, mc_updated := now\<rparr>)"

definition new_recovery :: "string \<Rightarrow> recovery_kind \<Rightarrow> string \<Rightarrow> int \<Rightarrow> media_recovery" where
  "new_recovery i k reply now =
     \<lparr>mr_id = i, mr_kind = k, mr_state = R_Pending, mr_reply = reply, mr_outbound = None, mr_error = None, mr_claimed = None,
      mr_completed = None, mr_created = now, mr_updated = now\<rparr>"

text \<open>An insertion that replaces an existing row if it passes the test, and keeps it otherwise.\<close>

definition add_recovery :: "(media_recovery \<Rightarrow> bool) \<Rightarrow> media_recovery \<Rightarrow> channel_db \<Rightarrow> channel_db" where
  "add_recovery replace r db =
     (if list_ex (\<lambda>q. mr_id q = mr_id r) (wd_recoveries db)
      then update_recoveries (\<lambda>q. mr_id q = mr_id r \<and> replace q) (\<lambda>q. r\<lparr>mr_created := mr_created q\<rparr>) db
      else db\<lparr>wd_recoveries := wd_recoveries db @ [r]\<rparr>)"

section \<open>Helpers\<close>

definition max_recovery_reply_chars :: nat where "max_recovery_reply_chars = 65536"

definition bounded_recovery_reply :: "string option \<Rightarrow> string option" where
  "bounded_recovery_reply v =
     (case v of None \<Rightarrow> None
      | Some s \<Rightarrow> let t = js_trim s in if t = [] then None else Some (take max_recovery_reply_chars t))"

definition duration_ms :: "rat option option \<Rightarrow> int option" where
  "duration_ms v = (case v of Some (Some d) \<Rightarrow> if 0 \<le> d then Some \<lfloor>d + 1 / 2\<rfloor> else None | _ \<Rightarrow> None)"

definition code_char :: "char \<Rightarrow> bool" where
  "code_char c \<longleftrightarrow> (let n = of_char c :: nat in 48 \<le> n \<and> n \<le> 57 \<or> 65 \<le> n \<and> n \<le> 90 \<or> 97 \<le> n \<and> n \<le> 122 \<or> c \<in> set ''_.-'')"

definition audit_code :: "string option \<Rightarrow> string option" where
  "audit_code v =
     (case v of None \<Rightarrow> None
      | Some s \<Rightarrow> let t = js_trim s in if t \<noteq> [] \<and> length t \<le> 64 \<and> list_all code_char t then Some t else None)"

text \<open>The time of a message in seconds; the value of a number that is not one is \<open>None\<close>.\<close>

definition epoch_ms :: "rat option \<Rightarrow> int option" where
  "epoch_ms v = (case v of None \<Rightarrow> None | Some s \<Rightarrow> if s \<le> 0 then None else Some \<lfloor>s * 1000 + 1 / 2\<rfloor>)"

text \<open>\<open>NULLIF(TRIM(v), '')\<close>; SQL trims spaces only.\<close>

definition sql_filled :: "string option \<Rightarrow> string option" where
  "sql_filled v =
     (case v of None \<Rightarrow> None
      | Some s \<Rightarrow> let t = rev (dropWhile (\<lambda>c. c = CHR '' '') (rev (dropWhile (\<lambda>c. c = CHR '' '') s)))
               in if t = [] then None else Some t)"

definition nonempty_text :: "string option \<Rightarrow> string option" where
  "nonempty_text v = (case v of Some s \<Rightarrow> if s = [] then None else Some s | None \<Rightarrow> None)"

definition trimmed_or_none :: "string option \<Rightarrow> string option" where
  "trimmed_or_none v = nonempty_text (map_option js_trim v)"

definition coalesce_text :: "'a option \<Rightarrow> 'a option \<Rightarrow> 'a option" where
  "coalesce_text v w = (case v of None \<Rightarrow> w | Some x \<Rightarrow> Some x)"

text \<open>The digits of an identifier before its domain and its device part (whatsappConfig.ts), for identifiers of one line.\<close>

definition without_device :: "string \<Rightarrow> string" where
  "without_device s =
     (let domain = takeWhile (\<lambda>c. c \<noteq> CHR ''@'') (rev s); user = drop (length domain + 1) (rev s)
      in if CHR ''@'' \<notin> set s \<or> CHR '':'' \<notin> set user then s
         else takeWhile (\<lambda>c. c \<noteq> CHR '':'') s @ CHR ''@'' # rev domain)"

definition normalize_whatsapp_identifier :: "string option \<Rightarrow> string" where
  "normalize_whatsapp_identifier v =
     (let t = without_device (js_trim (case v of None \<Rightarrow> [] | Some s \<Rightarrow> s));
          u = takeWhile (\<lambda>c. c \<noteq> CHR ''@'') t
      in filter (\<lambda>c. let n = of_char c :: nat in 48 \<le> n \<and> n \<le> 57 \<or> c = CHR ''*'')
           (case u of CHR ''+'' # r \<Rightarrow> r | _ \<Rightarrow> u))"

section \<open>Lookups\<close>

definition voice_job_of :: "string \<Rightarrow> channel_db \<Rightarrow> voice_job option" where
  "voice_job_of i db = find (\<lambda>j. vj_id j = i) (wd_jobs db)"

definition media_coalescing :: "string \<Rightarrow> channel_db \<Rightarrow> media_claim option" where
  "media_coalescing i db = find (\<lambda>c. mc_id c = i) (wd_claims db)"

definition media_recovery_of :: "string \<Rightarrow> channel_db \<Rightarrow> media_recovery option" where
  "media_recovery_of i db = find (\<lambda>r. mr_id r = i) (wd_recoveries db)"

definition audit_of :: "string \<Rightarrow> channel_db \<Rightarrow> channel_audit option" where
  "audit_of i db = find (\<lambda>a. ca_id a = i) (wd_audits db)"

definition channel_audit_of :: "string \<Rightarrow> channel_db \<Rightarrow> (channel_audit \<times> media_recovery option) option" where
  "channel_audit_of i db = map_option (\<lambda>a. (a, media_recovery_of i db)) (audit_of i db)"

definition message_of :: "string \<Rightarrow> channel_db \<Rightarrow> channel_message option" where
  "message_of i db = find (\<lambda>m. wm_id m = i) (wd_messages db)"

definition outbound_intent_by_id :: "string \<Rightarrow> channel_db \<Rightarrow> outbound_intent option" where
  "outbound_intent_by_id i db = find (\<lambda>o'. oi_id o' = i) (wd_intents db)"

end
