(* ===== verification/Channel_Voice.thy ===== *)
theory Channel_Voice
  imports Channel_State
begin

text \<open>
  The operations on voice jobs of the channel store (server/src/whatsappStore.ts). Each is one transaction. The operations
  that return whether or what they changed give it as the first component.
\<close>

section \<open>Jobs\<close>

record create_voice_job =
  cv_id :: string
  cv_reply_to :: "string option"
  cv_tenant :: string
  cv_conversation :: string
  cv_sender :: string
  cv_chat :: string
  cv_artifact :: string
  cv_path :: string
  cv_sha :: string
  cv_mime :: "string option"
  cv_file :: "string option"
  cv_caption :: string
  cv_duration :: "rat option"
  cv_confirmed :: bool

definition new_voice_job :: "create_voice_job \<Rightarrow> int \<Rightarrow> voice_job" where
  "new_voice_job v now =
     \<lparr>vj_id = cv_id v, vj_reply_to = trimmed_or_none (cv_reply_to v), vj_tenant = cv_tenant v,
      vj_conversation = cv_conversation v, vj_sender = cv_sender v, vj_chat = cv_chat v, vj_artifact = cv_artifact v,
      vj_path = cv_path v, vj_sha = cv_sha v, vj_mime = cv_mime v, vj_file = cv_file v, vj_caption = cv_caption v,
      vj_duration = cv_duration v, vj_state = (if cv_confirmed v then V_Queued else V_Awaiting_Confirmation),
      vj_transcription = None, vj_reply = None, vj_error = None, vj_reason = None, vj_provider = None, vj_http = None,
      vj_code = None, vj_attempts = 0, vj_created = now, vj_updated = now\<rparr>"

definition create_voice_job_row :: "create_voice_job \<Rightarrow> int \<Rightarrow> channel_db \<Rightarrow> string + channel_db" where
  "create_voice_job_row v now db =
     (if voice_job_of (cv_id v) db \<noteq> None then Inl ''UNIQUE constraint failed: whatsapp_voice_jobs.provider_message_id''
      else Inr (db\<lparr>wd_jobs := wd_jobs db @ [new_voice_job v now]\<rparr>))"

text \<open>The kind of media and the time, in milliseconds, of an inbound message.\<close>

definition inbound_media_identity :: "string \<Rightarrow> channel_db \<Rightarrow> (string option \<times> int option) option" where
  "inbound_media_identity i db =
     map_option (\<lambda>m. (wm_media_type m, wm_timestamp m)) (find (\<lambda>m. wm_id m = i \<and> wm_inbound m) (wd_messages db))"

definition latest_voice_failure ::
  "string \<Rightarrow> channel_db \<Rightarrow> (string \<times> string option \<times> int option \<times> string option \<times> string \<times> int) option" where
  "latest_voice_failure tenant db =
     (case rev (order_by vj_updated (order_by vj_id
         (filter (\<lambda>j. vj_tenant j = tenant \<and> vj_reason j \<noteq> None) (wd_jobs db)))) of
        [] \<Rightarrow> None
      | j # _ \<Rightarrow>
          Some (the (vj_reason j), vj_provider j, vj_http j, vj_code j, case vj_error j of None \<Rightarrow> [] | Some e \<Rightarrow> e, vj_updated j))"

fun receipt_field :: "string \<Rightarrow> json \<Rightarrow> json option" where
  "receipt_field k (JObj kvs) = map_of kvs k"
| "receipt_field k v = None"

definition trimmed_field :: "string \<Rightarrow> json \<Rightarrow> string" where
  "trimmed_field k v = (case receipt_field k v of Some (JStr s) \<Rightarrow> js_trim s | _ \<Rightarrow> [])"

definition latest_voice_transcript ::
  "string \<Rightarrow> string \<Rightarrow> channel_db \<Rightarrow> (string \<times> string \<times> string option \<times> int) option" where
  "latest_voice_transcript tenant conversation db =
     (case rev (order_by vj_created (order_by vj_id
         (filter (\<lambda>j. vj_tenant j = tenant \<and> vj_conversation j = conversation \<and> vj_transcription j \<noteq> None) (wd_jobs db)))) of
        [] \<Rightarrow> None
      | j # _ \<Rightarrow>
          (let v = the (vj_transcription j); t = trimmed_field ''text_transcript'' v
           in if t = [] then None
              else Some (vj_id j, t, nonempty_text (Some (trimmed_field ''transcription_source'' v)), vj_created j)))"

text \<open>The first claimable job, those of the tenant that was served last behind the others.\<close>

definition next_voice_job :: "string option \<Rightarrow> channel_db \<Rightarrow> voice_job option" where
  "next_voice_job served db =
     first_row (order_by (\<lambda>j. if served = Some (vj_tenant j) then 1 else 0 :: nat)
       (order_by vj_created (order_by vj_id (filter (\<lambda>j. vj_state j \<in> {V_Queued, V_Transcribed}) (wd_jobs db)))))"

definition claim_next_voice_job :: "string option \<Rightarrow> int \<Rightarrow> channel_db \<Rightarrow> voice_job option \<times> channel_db" where
  "claim_next_voice_job served now db =
     (case next_voice_job served db of None \<Rightarrow> (None, db)
      | Some j \<Rightarrow>
          (let i = vj_id j; transcribed = (map_option vj_state (voice_job_of i db) = Some V_Transcribed);
               mine = (\<lambda>q. vj_id q = i \<and> vj_state q = V_Queued);
               db' = if transcribed then db
                     else update_jobs mine
                       (\<lambda>q. q\<lparr>vj_state := V_Transcribing, vj_attempts := vj_attempts q + 1, vj_updated := now\<rparr>) db
           in (if transcribed \<or> 0 < count_where mine (wd_jobs db) then voice_job_of i db' else None, db')))"

text \<open>The latest job of a conversation in some states.\<close>

definition latest_scoped_job :: "string \<Rightarrow> string \<Rightarrow> voice_state set \<Rightarrow> channel_db \<Rightarrow> voice_job option" where
  "latest_scoped_job tenant conversation states db =
     first_row (rev (order_by vj_created (order_by vj_id
       (filter (\<lambda>j. vj_tenant j = tenant \<and> vj_conversation j = conversation \<and> vj_state j \<in> states) (wd_jobs db)))))"

definition transition_latest_job ::
  "string \<Rightarrow> string \<Rightarrow> voice_state set \<Rightarrow> voice_state \<Rightarrow> int \<Rightarrow> channel_db \<Rightarrow> voice_job option \<times> channel_db" where
  "transition_latest_job tenant conversation states to now db =
     (case latest_scoped_job tenant conversation states db of None \<Rightarrow> (None, db)
      | Some j \<Rightarrow>
          (let db' = update_jobs (\<lambda>q. vj_id q = vj_id j \<and> vj_state q \<in> states) (\<lambda>q. q\<lparr>vj_state := to, vj_updated := now\<rparr>) db
           in (voice_job_of (vj_id j) db', db')))"

definition confirm_latest_voice_job :: "string \<Rightarrow> string \<Rightarrow> int \<Rightarrow> channel_db \<Rightarrow> voice_job option \<times> channel_db" where
  "confirm_latest_voice_job tenant conversation =
     transition_latest_job tenant conversation {V_Awaiting_Confirmation} V_Queued"

definition cancellable_states :: "voice_state set" where
  "cancellable_states = {V_Awaiting_Confirmation, V_Queued, V_Transcribing, V_Transcribed, V_Capture_Retry}"

definition cancel_latest_voice_job :: "string \<Rightarrow> string \<Rightarrow> int \<Rightarrow> channel_db \<Rightarrow> voice_job option \<times> channel_db" where
  "cancel_latest_voice_job tenant conversation now db =
     (case latest_scoped_job tenant conversation cancellable_states db of None \<Rightarrow> (None, db)
      | Some j \<Rightarrow>
          (let i = vj_id j;
               db1 = update_jobs (\<lambda>q. vj_id q = i \<and> vj_state q \<in> cancellable_states)
                 (\<lambda>q. q\<lparr>vj_state := V_Cancelled, vj_updated := now\<rparr>) db;
               db2 = update_messages (\<lambda>m. wm_id m = i) (\<lambda>m. m\<lparr>wm_status := ''cancelled''\<rparr>) db1;
               db3 = settle_claims i M_Failed now db2
           in (voice_job_of i db3, db3)))"

text \<open>An update of the job with an id that is in a state; the number of changed rows is looked at.\<close>

definition is_job :: "string \<Rightarrow> voice_state \<Rightarrow> voice_job \<Rightarrow> bool" where
  "is_job i st j \<longleftrightarrow> vj_id j = i \<and> vj_state j = st"

definition no_failure :: "voice_job \<Rightarrow> voice_job" where
  "no_failure j = j\<lparr>vj_reason := None, vj_provider := None, vj_http := None, vj_code := None\<rparr>"

definition persist_voice_transcript :: "string \<Rightarrow> json \<Rightarrow> int \<Rightarrow> channel_db \<Rightarrow> bool \<times> channel_db" where
  "persist_voice_transcript i v now db =
     (0 < count_where (is_job i V_Transcribing) (wd_jobs db),
      update_jobs (is_job i V_Transcribing)
        (\<lambda>j. (no_failure j)\<lparr>vj_state := V_Transcribed, vj_transcription := Some v, vj_error := None, vj_updated := now\<rparr>) db)"

definition requeue_interrupted_voice_job :: "string \<Rightarrow> int \<Rightarrow> channel_db \<Rightarrow> bool \<times> channel_db" where
  "requeue_interrupted_voice_job i now db =
     (0 < count_where (is_job i V_Transcribing) (wd_jobs db),
      update_jobs (is_job i V_Transcribing) (\<lambda>j. j\<lparr>vj_state := V_Queued, vj_error := None, vj_updated := now\<rparr>) db)"

definition claim_voice_ring_handoff :: "string \<Rightarrow> int \<Rightarrow> channel_db \<Rightarrow> bool \<times> channel_db" where
  "claim_voice_ring_handoff i now db =
     (0 < count_where (is_job i V_Transcribed) (wd_jobs db),
      update_jobs (is_job i V_Transcribed) (\<lambda>j. j\<lparr>vj_state := V_Forwarding, vj_updated := now\<rparr>) db)"

definition complete_voice_ring_handoff :: "string \<Rightarrow> string \<Rightarrow> int \<Rightarrow> channel_db \<Rightarrow> string + channel_db" where
  "complete_voice_ring_handoff i reply now db =
     (case bounded_recovery_reply (Some reply) of None \<Rightarrow> Inl ''Ring reply is empty''
      | Some b \<Rightarrow>
          if count_where (is_job i V_Forwarding) (wd_jobs db) = 0 then Inl ''voice job is not at the Ring handoff boundary''
          else Inr (add_recovery (\<lambda>r. mr_kind r = Interrupted_Failure) (new_recovery i Forwarded_Reply b now)
            (update_jobs (is_job i V_Forwarding)
              (\<lambda>j. j\<lparr>vj_state := V_Reply_Ready, vj_reply := Some b, vj_error := None, vj_updated := now\<rparr>) db)))"

definition fixed_states :: "voice_state set" where
  "fixed_states = {V_Cancelled, V_Completed, V_Reply_Ready, V_Outcome_Unknown}"

definition fail_voice_job :: "string \<Rightarrow> string \<Rightarrow> int \<Rightarrow> channel_db \<Rightarrow> channel_db" where
  "fail_voice_job i e now =
     update_jobs (\<lambda>j. vj_id j = i \<and> vj_state j \<notin> fixed_states)
       (\<lambda>j. j\<lparr>vj_state := V_Failed, vj_error := Some (take 2000 e), vj_updated := now\<rparr>)"

record voice_failure =
  vf_reason :: "string option"
  vf_provider :: "string option"
  vf_http :: "int option"
  vf_code :: "string option"
  vf_message :: "string option"

definition field_if_filled :: "string \<Rightarrow> string option \<Rightarrow> (string \<times> json) list" where
  "field_if_filled k v = (case nonempty_text v of None \<Rightarrow> [] | Some s \<Rightarrow> [(k, JStr s)])"

definition failure_receipt :: "voice_failure \<Rightarrow> json" where
  "failure_receipt f =
     JObj [(''transcription_failed'',
       JObj ((''code'', JStr (case vf_reason f of None \<Rightarrow> ''unknown'' | Some r \<Rightarrow> r)) #
         field_if_filled ''message'' (vf_message f) @ field_if_filled ''provider'' (vf_provider f) @
         (case vf_http f of None \<Rightarrow> [] | Some n \<Rightarrow> [(''http_status'', JNum n)]) @
         field_if_filled ''provider_code'' (vf_code f)))]"

definition queue_voice_failure_reply ::
  "string \<Rightarrow> string \<Rightarrow> int \<Rightarrow> voice_failure option \<Rightarrow> channel_db \<Rightarrow> string + channel_db" where
  "queue_voice_failure_reply i reply now failure db =
     (case bounded_recovery_reply (Some reply) of None \<Rightarrow> Inl ''voice failure reply is empty''
      | Some b \<Rightarrow>
          (let mine = (\<lambda>j. vj_id j = i \<and> vj_state j \<notin> fixed_states)
           in if count_where mine (wd_jobs db) = 0 then Inr db
              else Inr (settle_claims i M_Failed now
                (add_recovery (\<lambda>r. False) (new_recovery i Interrupted_Failure b now)
                  (update_jobs mine
                    (\<lambda>j. j\<lparr>vj_state := V_Failed, vj_error := Some b, vj_transcription := map_option failure_receipt failure,
                         vj_reason := Option.bind failure vf_reason, vj_provider := Option.bind failure vf_provider,
                         vj_http := Option.bind failure vf_http, vj_code := Option.bind failure vf_code, vj_updated := now\<rparr>)
                    db)))))"

definition unknown_outcome_notice :: string where
  "unknown_outcome_notice =
     ''Your voice note was transcribed, but Zenod could not confirm the final result. I will not retry it automatically because that could perform the request twice.''"

definition mark_voice_ring_outcome_unknown :: "string \<Rightarrow> int \<Rightarrow> channel_db \<Rightarrow> channel_db" where
  "mark_voice_ring_outcome_unknown i now db =
     (if count_where (is_job i V_Forwarding) (wd_jobs db) = 0 then db
      else settle_claims i M_Failed now
        (add_recovery (\<lambda>r. False) (new_recovery i Interrupted_Failure unknown_outcome_notice now)
          (update_jobs (is_job i V_Forwarding)
            (\<lambda>j. j\<lparr>vj_state := V_Outcome_Unknown, vj_error := Some ''Ring handoff outcome unknown; not retried'',
                 vj_updated := now\<rparr>) db)))"

definition defer_idempotent_voice_capture ::
  "string \<Rightarrow> string \<Rightarrow> int \<Rightarrow> channel_db \<Rightarrow> string + (bool \<times> channel_db)" where
  "defer_idempotent_voice_capture i reply now db =
     (case bounded_recovery_reply (Some reply) of None \<Rightarrow> Inl ''capture retry notice is empty''
      | Some b \<Rightarrow>
          if count_where (is_job i V_Forwarding) (wd_jobs db) = 0 then Inr (False, db)
          else Inr (True, settle_claims i M_Failed now
            (add_recovery (\<lambda>r. True) (new_recovery i Interrupted_Failure b now)
              (update_jobs (is_job i V_Forwarding)
                (\<lambda>j. j\<lparr>vj_state := V_Capture_Retry, vj_error := Some b, vj_updated := now\<rparr>) db))))"

definition resume_idempotent_voice_captures :: "string \<Rightarrow> int \<Rightarrow> channel_db \<Rightarrow> nat \<times> channel_db" where
  "resume_idempotent_voice_captures tenant now db =
     (let mine = (\<lambda>j. vj_tenant j = tenant \<and> vj_state j = V_Capture_Retry);
          pending = map vj_id (filter mine (wd_jobs db));
          db' = update_jobs mine (\<lambda>j. j\<lparr>vj_state := V_Transcribed, vj_error := None, vj_updated := now\<rparr>) db
      in (count_where mine (wd_jobs db), fold (\<lambda>i. settle_claims i M_Processing now) pending db'))"

end
