(* ===== verification/Channel_Media.thy ===== *)
theory Channel_Media
  imports Channel_State
begin

text \<open>
  The operations of the channel store (server/src/whatsappStore.ts) on inbound messages, coalesced media, channel audits,
  recoveries and outbound intents. The hash of an intent is a parameter.
\<close>

section \<open>Inbound messages\<close>

record inbound_event =
  ie_id :: string
  ie_chat :: string
  ie_sender :: string
  ie_sender_name :: string
  ie_chat_name :: string
  ie_group :: bool
  ie_timestamp :: "rat option"
  ie_body :: string
  ie_has_media :: bool
  ie_media_type :: "string option"
  ie_mime :: "string option"
  ie_file :: "string option"

definition first_filled :: "string list \<Rightarrow> string" where
  "first_filled ss = (case filter (\<lambda>s. s \<noteq> []) ss of [] \<Rightarrow> (if ss = [] then [] else last ss) | s # _ \<Rightarrow> s)"

definition upsert_contact :: "inbound_event \<Rightarrow> int \<Rightarrow> channel_db \<Rightarrow> channel_db" where
  "upsert_contact e now db =
     (let phone = nonempty_text (Some (normalize_whatsapp_identifier (Some (ie_sender e))));
          name = first_filled [ie_sender_name e, case phone of None \<Rightarrow> [] | Some p \<Rightarrow> p, ie_sender e]
      in if list_ex (\<lambda>c. wc_id c = ie_sender e) (wd_contacts db)
         then db\<lparr>wd_contacts := update_where (\<lambda>c. wc_id c = ie_sender e)
           (\<lambda>c. c\<lparr>wc_phone := coalesce_text phone (wc_phone c),
                wc_name := coalesce_text (nonempty_text (Some name)) (wc_name c), wc_last_seen := now\<rparr>) (wd_contacts db)\<rparr>
         else db\<lparr>wd_contacts := wd_contacts db @
           [\<lparr>wc_id = ie_sender e, wc_phone = phone, wc_name = Some name, wc_first_seen = now, wc_last_seen = now\<rparr>]\<rparr>)"

definition upsert_chat :: "inbound_event \<Rightarrow> int \<Rightarrow> channel_db \<Rightarrow> channel_db" where
  "upsert_chat e now db =
     (let name = first_filled [ie_chat_name e, ie_sender_name e, ie_chat e]
      in if list_ex (\<lambda>c. wh_id c = ie_chat e) (wd_chats db)
         then db\<lparr>wd_chats := update_where (\<lambda>c. wh_id c = ie_chat e)
           (\<lambda>c. c\<lparr>wh_group := ie_group e, wh_name := coalesce_text (nonempty_text (Some name)) (wh_name c),
                wh_updated := now\<rparr>) (wd_chats db)\<rparr>
         else db\<lparr>wd_chats := wd_chats db @
           [\<lparr>wh_id = ie_chat e, wh_group = ie_group e, wh_name = Some name, wh_last_message = None, wh_last_at = None,
             wh_inbound = 0, wh_updated = now\<rparr>]\<rparr>)"

definition new_message :: "inbound_event \<Rightarrow> int \<Rightarrow> channel_message" where
  "new_message e now =
     \<lparr>wm_id = ie_id e, wm_chat = ie_chat e, wm_contact = Some (ie_sender e), wm_inbound = True,
      wm_timestamp = epoch_ms (ie_timestamp e), wm_body = ie_body e, wm_has_media = ie_has_media e,
      wm_media_type = ie_media_type e, wm_status = ''new'', wm_received = now\<rparr>"

text \<open>A row without a file name never clashes with another: \<open>NULL\<close> is unequal to itself in a unique index.\<close>

definition insert_media :: "inbound_event \<Rightarrow> int \<Rightarrow> channel_db \<Rightarrow> channel_db" where
  "insert_media e now db =
     (let kind = (case ie_media_type e of None \<Rightarrow> ''unknown'' | Some k \<Rightarrow> k)
      in if ie_file e \<noteq> None \<and> list_ex (\<lambda>m. mm_message m = ie_id e \<and> mm_type m = kind \<and> mm_file m = ie_file e) (wd_media db)
         then db
         else db\<lparr>wd_media := wd_media db @
           [\<lparr>mm_message = ie_id e, mm_type = kind, mm_mime = ie_mime e, mm_file = ie_file e, mm_storage = ''metadata_only'',
             mm_created = now\<rparr>]\<rparr>)"

definition record_inbound :: "inbound_event \<Rightarrow> int \<Rightarrow> channel_db \<Rightarrow> bool \<times> channel_db" where
  "record_inbound e now db =
     (let db1 = upsert_chat e now (upsert_contact e now db);
          inserted = (message_of (ie_id e) db1 = None);
          db2 = (if \<not> inserted then db1
                 else db1\<lparr>wd_messages := wd_messages db1 @ [new_message e now],
                   wd_chats := update_where (\<lambda>c. wh_id c = ie_chat e)
                     (\<lambda>c. c\<lparr>wh_last_message := Some (ie_id e), wh_last_at := epoch_ms (ie_timestamp e),
                          wh_inbound := wh_inbound c + 1, wh_updated := now\<rparr>) (wd_chats db1)\<rparr>)
      in (inserted, if inserted \<and> ie_has_media e then insert_media e now db2 else db2))"

definition lifecycle_of_status :: "string \<Rightarrow> lifecycle option" where
  "lifecycle_of_status s =
     (if s = ''replied'' then Some Lc_Replied else if s = ''failed'' then Some Lc_Failed
      else if s = ''interrupted'' then Some Lc_Interrupted else None)"

definition mark_message_status :: "string \<Rightarrow> string \<Rightarrow> int \<Rightarrow> channel_db \<Rightarrow> channel_db" where
  "mark_message_status i status now db =
     (let db1 = update_messages (\<lambda>m. wm_id m = i) (\<lambda>m. m\<lparr>wm_status := status\<rparr>) db
      in case lifecycle_of_status status of None \<Rightarrow> db1
         | Some l \<Rightarrow> update_audits (\<lambda>a. ca_id a = i) (\<lambda>a. a\<lparr>ca_lifecycle := l, ca_updated := now\<rparr>) db1)"

definition record_inbound_transcript :: "string \<Rightarrow> string \<Rightarrow> channel_db \<Rightarrow> channel_db" where
  "record_inbound_transcript i text' = update_messages (\<lambda>m. wm_id m = i \<and> wm_inbound m) (\<lambda>m. m\<lparr>wm_body := text'\<rparr>)"

definition mark_media_storage_status :: "string \<Rightarrow> string \<Rightarrow> channel_db \<Rightarrow> channel_db" where
  "mark_media_storage_status i status db =
     db\<lparr>wd_media := update_where (\<lambda>m. mm_message m = i) (\<lambda>m. m\<lparr>mm_storage := status\<rparr>) (wd_media db)\<rparr>"

section \<open>Coalesced media\<close>

record claim_input =
  ci_id :: string
  ci_tenant :: string
  ci_channel :: string
  ci_sha :: string
  ci_window :: int

definition live_owner :: "claim_input \<Rightarrow> int \<Rightarrow> channel_db \<Rightarrow> media_claim option" where
  "live_owner v now db =
     first_row (order_by mc_created (order_by mc_id (filter (\<lambda>c.
       mc_tenant c = ci_tenant v \<and> mc_channel c = ci_channel v \<and> mc_sha c = ci_sha v \<and> mc_role c = Owner \<and>
       now - max 1 (ci_window v) \<le> mc_created c \<and> mc_state c \<in> {M_Processing, M_Completed}) (wd_claims db))))"

definition new_claim :: "claim_input \<Rightarrow> int \<Rightarrow> channel_db \<Rightarrow> media_claim" where
  "new_claim v now db =
     (let owner = live_owner v now db
      in \<lparr>mc_id = ci_id v, mc_tenant = ci_tenant v, mc_channel = ci_channel v, mc_sha = ci_sha v,
          mc_canonical = (case owner of None \<Rightarrow> ci_id v | Some c \<Rightarrow> mc_id c),
          mc_role = (case owner of None \<Rightarrow> Owner | Some c \<Rightarrow> Duplicate),
          mc_state = (case owner of None \<Rightarrow> M_Processing | Some c \<Rightarrow> mc_state c), mc_created = now, mc_updated = now\<rparr>)"

definition claim_media_coalescing :: "claim_input \<Rightarrow> int \<Rightarrow> channel_db \<Rightarrow> string + (media_claim \<times> channel_db)" where
  "claim_media_coalescing v now db =
     (if media_coalescing (ci_id v) db \<noteq> None then Inl ''UNIQUE constraint failed: whatsapp_media_coalescing.provider_message_id''
      else let c = new_claim v now db in Inr (c, db\<lparr>wd_claims := wd_claims db @ [c]\<rparr>))"

definition complete_media_coalescing :: "string \<Rightarrow> bool \<Rightarrow> int \<Rightarrow> channel_db \<Rightarrow> channel_db" where
  "complete_media_coalescing i completed = settle_claims i (if completed then M_Completed else M_Failed)"

section \<open>Channel audits\<close>

definition no_timing :: timing_input where "no_timing = (\<lambda>k. None)"

definition recorded_timing :: "timing_input \<Rightarrow> channel_timing" where
  "recorded_timing t = (\<lambda>k. duration_ms (t k))"

text \<open>The audit of a duplicate copies what was recorded for the canonical message.\<close>

definition record_coalesced_channel_forwarding ::
  "string \<Rightarrow> string \<Rightarrow> string \<Rightarrow> string \<Rightarrow> timing_input \<Rightarrow> int \<Rightarrow> channel_db \<Rightarrow> string + channel_db" where
  "record_coalesced_channel_forwarding i owner sha sender timing now db =
     (case audit_of owner db of None \<Rightarrow> Inl ''canonical media outcome is not safely reusable''
      | Some c \<Rightarrow>
          if audit_of i db \<noteq> None then Inl ''UNIQUE constraint failed: whatsapp_channel_audit.provider_message_id''
          else Inr (db\<lparr>wd_audits := wd_audits db @
            [\<lparr>ca_id = i, ca_tenant = ca_tenant c, ca_sender = sender, ca_transcript = ca_transcript c,
              ca_provenance = ca_provenance c, ca_transcription_failure = ca_transcription_failure c,
              ca_artifact = ca_artifact c, ca_sha = Some sha, ca_destination = ca_destination c,
              ca_correlation = ca_correlation c, ca_receipt = ca_receipt c, ca_reply = ca_reply c,
              ca_canonical = Some owner, ca_mark = Some Mark_Coalesced, ca_stage = None, ca_failure = None,
              ca_lifecycle = Lc_Coalesced, ca_outbound_id = None, ca_outbound_status = None,
              ca_timing = recorded_timing timing, ca_forwarded = now, ca_updated = now\<rparr>]\<rparr>))"

record audit_input =
  ai_id :: string
  ai_tenant :: string
  ai_sender :: string
  ai_transcript :: "string option"
  ai_provenance :: "string option"
  ai_transcription_failure :: "string option"
  ai_artifact :: "string option"
  ai_sha :: "string option"
  ai_destination :: string
  ai_correlation :: "string option"
  ai_receipt :: "json option"
  ai_reply :: "string option"
  ai_canonical :: "string option"
  ai_owner :: bool
  ai_timing :: timing_input

text \<open>The columns that both kinds of audit write; the rest comes from the row \<open>a\<close>.\<close>

definition audit_columns :: "audit_input \<Rightarrow> int \<Rightarrow> channel_audit \<Rightarrow> channel_audit" where
  "audit_columns v now a =
     a\<lparr>ca_tenant := ai_tenant v, ca_sender := ai_sender v, ca_transcript := ai_transcript v,
       ca_provenance := ai_provenance v, ca_transcription_failure := audit_code (ai_transcription_failure v),
       ca_artifact := ai_artifact v, ca_sha := ai_sha v, ca_destination := ai_destination v,
       ca_correlation := ai_correlation v, ca_receipt := ai_receipt v, ca_canonical := ai_canonical v,
       ca_mark := (if ai_owner v then Some Mark_Owner else None), ca_timing := recorded_timing (ai_timing v),
       ca_updated := now\<rparr>"

definition blank_audit :: "string \<Rightarrow> int \<Rightarrow> channel_audit" where
  "blank_audit i now =
     \<lparr>ca_id = i, ca_tenant = [], ca_sender = [], ca_transcript = None, ca_provenance = None,
      ca_transcription_failure = None, ca_artifact = None, ca_sha = None, ca_destination = [], ca_correlation = None,
      ca_receipt = None, ca_reply = None, ca_canonical = None, ca_mark = None, ca_stage = None, ca_failure = None,
      ca_lifecycle = Lc_Forwarded, ca_outbound_id = None, ca_outbound_status = None, ca_timing = (\<lambda>k. None),
      ca_forwarded = now, ca_updated = now\<rparr>"

definition upsert_audit :: "string \<Rightarrow> int \<Rightarrow> (channel_audit \<Rightarrow> channel_audit) \<Rightarrow> channel_db \<Rightarrow> channel_db" where
  "upsert_audit i now f db =
     (if audit_of i db = None then db\<lparr>wd_audits := wd_audits db @ [f (blank_audit i now)]\<rparr>
      else update_audits (\<lambda>a. ca_id a = i) f db)"

definition record_channel_forwarding :: "audit_input \<Rightarrow> int \<Rightarrow> channel_db \<Rightarrow> channel_db" where
  "record_channel_forwarding v now =
     upsert_audit (ai_id v) now (\<lambda>a. (audit_columns v now a)
       \<lparr>ca_reply := bounded_recovery_reply (ai_reply v), ca_stage := None, ca_failure := None, ca_lifecycle := Lc_Forwarded\<rparr>)"

text \<open>The only stage of failures is downstream; an earlier reply stays.\<close>

definition record_channel_failure :: "audit_input \<Rightarrow> string \<Rightarrow> int \<Rightarrow> channel_db \<Rightarrow> channel_db" where
  "record_channel_failure v code now =
     upsert_audit (ai_id v) now (\<lambda>a. (audit_columns v now a)
       \<lparr>ca_stage := Some ''downstream'', ca_failure := Some code, ca_lifecycle := Lc_Failed\<rparr>)"

definition timing_keys :: "timing_key list" where
  "timing_keys = [T_Download, T_Queue_Wait, T_Runtime, T_Downstream, T_Send, T_Total]"

definition record_channel_timing :: "string \<Rightarrow> timing_input \<Rightarrow> int \<Rightarrow> channel_db \<Rightarrow> channel_db" where
  "record_channel_timing i t now db =
     (if list_all (\<lambda>k. t k = None) timing_keys then db
      else update_audits (\<lambda>a. ca_id a = i)
        (\<lambda>a. a\<lparr>ca_timing := (\<lambda>k. if t k = None then ca_timing a k else duration_ms (t k)), ca_updated := now\<rparr>) db)"

text \<open>
  The duplicates of a message whose outcome is recorded. Each gets an audit, unless it has one; an exception ends the loop
  with what was written.
\<close>

definition followers :: "string \<Rightarrow> channel_db \<Rightarrow> media_claim list" where
  "followers i db =
     order_by mc_created (order_by mc_id (filter (\<lambda>c. mc_canonical c = i \<and> mc_role c = Duplicate) (wd_claims db)))"

definition follower_sender :: "string \<Rightarrow> channel_db \<Rightarrow> string" where
  "follower_sender i db =
     normalize_whatsapp_identifier (Some (case Option.bind (message_of i db) wm_contact of None \<Rightarrow> [] | Some c \<Rightarrow> c))"

fun reconcile_followers :: "string \<Rightarrow> (media_claim \<times> string) list \<Rightarrow> int \<Rightarrow> channel_db \<Rightarrow> string option \<times> channel_db" where
  "reconcile_followers owner [] now db = (None, db)"
| "reconcile_followers owner ((c, sender) # cs) now db =
     (if audit_of (mc_id c) db \<noteq> None then reconcile_followers owner cs now db
      else case record_coalesced_channel_forwarding (mc_id c) owner (mc_sha c) sender no_timing now db of
        Inl e \<Rightarrow> (Some e, db)
      | Inr db' \<Rightarrow> reconcile_followers owner cs now (mark_message_status (mc_id c) ''coalesced'' now db'))"

definition reconcile_voice_coalesced_followers :: "string \<Rightarrow> int \<Rightarrow> channel_db \<Rightarrow> string option \<times> channel_db" where
  "reconcile_voice_coalesced_followers i now db =
     reconcile_followers i (map (\<lambda>c. (c, follower_sender (mc_id c) db)) (followers i db)) now db"

end
