(* ===== verification/Channel_Outbound.thy ===== *)
theory Channel_Outbound
  imports Channel_Media
begin

text \<open>
  Recoveries, outbound audits and outbound intents of the channel store (server/src/whatsappStore.ts), and what opening the
  store does after a restart.
\<close>

section \<open>Recoveries\<close>

record recovery_claim =
  rc_id :: string
  rc_kind :: recovery_kind
  rc_chat :: string
  rc_contact :: "string option"
  rc_reply :: string
  rc_claimed :: int

definition next_recovery :: "channel_db \<Rightarrow> media_recovery option" where
  "next_recovery db =
     first_row (order_by mr_created (filter (\<lambda>r. mr_state r = R_Pending \<and> message_of (mr_id r) db \<noteq> None) (wd_recoveries db)))"

definition claim_interrupted_media_recovery :: "int \<Rightarrow> channel_db \<Rightarrow> recovery_claim option \<times> channel_db" where
  "claim_interrupted_media_recovery now db =
     (case next_recovery db of None \<Rightarrow> (None, db)
      | Some r \<Rightarrow>
          (case message_of (mr_id r) db of None \<Rightarrow> (None, db)
           | Some m \<Rightarrow>
               (Some \<lparr>rc_id = mr_id r, rc_kind = mr_kind r, rc_chat = wm_chat m, rc_contact = wm_contact m,
                  rc_reply = mr_reply r, rc_claimed = now\<rparr>,
                update_recoveries (\<lambda>q. mr_id q = mr_id r \<and> mr_state q = R_Pending)
                  (\<lambda>q. q\<lparr>mr_state := R_Claimed, mr_claimed := Some now, mr_updated := now\<rparr>) db)))"

datatype recovery_outcome = Sent_As string "string option" | Send_Error string

definition pending_intent :: "string \<Rightarrow> outbound_intent \<Rightarrow> bool" where
  "pending_intent i o' \<longleftrightarrow> oi_id o' = i \<and> \<not> oi_sent o'"

definition sent_row :: "string \<Rightarrow> int \<Rightarrow> outbound_intent \<Rightarrow> outbound_intent" where
  "sent_row sent now o' = o'\<lparr>oi_sent_id := Some sent, oi_sent := True, oi_error := None, oi_updated := now\<rparr>"

text \<open>What a recovery that was sent leaves: a stored reply or a notice.\<close>

fun outcome_state :: "recovery_kind \<Rightarrow> recovery_outcome \<Rightarrow> recovery_state" where
  "outcome_state Forwarded_Reply (Sent_As i o') = R_Replied"
| "outcome_state Interrupted_Failure (Sent_As i o') = R_Notified"
| "outcome_state k (Send_Error e) = R_Send_Failed"

fun outcome_message_status :: "recovery_kind \<Rightarrow> recovery_outcome \<Rightarrow> string" where
  "outcome_message_status Forwarded_Reply (Sent_As i o') = ''replied''"
| "outcome_message_status Interrupted_Failure (Sent_As i o') = ''failed_notified''"
| "outcome_message_status k (Send_Error e) = ''failed''"

fun outcome_outbound_status :: "recovery_kind \<Rightarrow> recovery_outcome \<Rightarrow> string" where
  "outcome_outbound_status Forwarded_Reply (Sent_As i o') = ''recovery_sent''"
| "outcome_outbound_status Interrupted_Failure (Sent_As i o') = ''recovery_notice_sent''"
| "outcome_outbound_status k (Send_Error e) = ''recovery_failed''"

fun outcome_sent :: "recovery_outcome \<Rightarrow> string option" where
  "outcome_sent (Sent_As i o') = Some i"
| "outcome_sent (Send_Error e) = None"

fun outcome_error :: "recovery_outcome \<Rightarrow> string option" where
  "outcome_error (Sent_As i o') = None"
| "outcome_error (Send_Error e) = Some e"

definition reply_sent :: "recovery_claim \<Rightarrow> recovery_outcome \<Rightarrow> bool" where
  "reply_sent c out \<longleftrightarrow> rc_kind c = Forwarded_Reply \<and> outcome_sent out \<noteq> None"

definition send_intent :: "recovery_outcome \<Rightarrow> int \<Rightarrow> channel_db \<Rightarrow> channel_db" where
  "send_intent out now db =
     (case out of Sent_As sent i \<Rightarrow> update_intents (pending_intent (case i of None \<Rightarrow> [] | Some j \<Rightarrow> j)) (sent_row sent now) db
      | Send_Error e \<Rightarrow> db)"

definition complete_interrupted_media_recovery ::
  "recovery_claim \<Rightarrow> recovery_outcome \<Rightarrow> int \<Rightarrow> channel_db \<Rightarrow> channel_db" where
  "complete_interrupted_media_recovery c out now db =
     (let i = rc_id c; k = rc_kind c;
          db1 = add_outbound \<lparr>oa_message = Some i, oa_chat = rc_chat c, oa_contact = rc_contact c, oa_body = rc_reply c,
            oa_status = outcome_outbound_status k out, oa_error = outcome_error out, oa_sent = outcome_sent out,
            oa_created = now\<rparr> (send_intent out now db);
          db2 = update_recoveries (\<lambda>r. mr_id r = i \<and> mr_state r = R_Claimed)
            (\<lambda>r. r\<lparr>mr_state := outcome_state k out, mr_outbound := outcome_sent out, mr_error := outcome_error out,
                 mr_completed := Some now, mr_updated := now\<rparr>) db1;
          db3 = update_messages (\<lambda>m. wm_id m = i) (\<lambda>m. m\<lparr>wm_status := outcome_message_status k out\<rparr>) db2;
          db4 = update_audits (\<lambda>a. ca_id a = i)
            (\<lambda>a. a\<lparr>ca_lifecycle := if reply_sent c out then Lc_Replied else Lc_Failed, ca_outbound_id := outcome_sent out,
                 ca_outbound_status := Some (outcome_outbound_status k out), ca_updated := now\<rparr>) db3
      in if reply_sent c out
         then update_jobs (\<lambda>j. vj_id j = i \<and> vj_state j = V_Reply_Ready) (\<lambda>j. j\<lparr>vj_state := V_Completed, vj_updated := now\<rparr>)
           (settle_claims i M_Completed now db4)
         else db4)"

section \<open>Outbound audits and intents\<close>

definition record_outbound_audit :: "outbound_audit \<Rightarrow> int \<Rightarrow> channel_db \<Rightarrow> channel_db" where
  "record_outbound_audit a now db =
     (let db1 = add_outbound (a\<lparr>oa_created := now\<rparr>) db
      in case nonempty_text (oa_message a) of None \<Rightarrow> db1
         | Some i \<Rightarrow> update_audits (\<lambda>r. ca_id r = i)
             (\<lambda>r. r\<lparr>ca_outbound_id := coalesce_text (oa_sent a) (ca_outbound_id r), ca_outbound_status := Some (oa_status a),
                  ca_updated := now\<rparr>) db1)"

record intent_input =
  ii_source :: string
  ii_tenant :: "string option"
  ii_provider_id :: string
  ii_chat :: string
  ii_contact :: "string option"
  ii_body :: string
  ii_status :: string
  ii_receipt :: bool

definition text_or_empty :: "string option \<Rightarrow> string" where
  "text_or_empty v = (case v of None \<Rightarrow> [] | Some s \<Rightarrow> s)"

definition nul :: string where "nul = [char_of (0 :: nat)]"

definition intent_text :: "intent_input \<Rightarrow> string" where
  "intent_text v =
     text_or_empty (trimmed_or_none (ii_tenant v)) @ nul @ ii_source v @ nul @ ii_chat v @ nul @ text_or_empty (ii_contact v) @ nul @
     ii_status v @ nul @ (if ii_receipt v then ''receipt'' else ''ordinary'') @ nul @ ii_body v"

definition new_intent :: "(string \<Rightarrow> string) \<Rightarrow> intent_input \<Rightarrow> int \<Rightarrow> outbound_intent" where
  "new_intent sha v now =
     \<lparr>oi_id = ''waintent_'' @ sha (intent_text v), oi_source = ii_source v, oi_tenant = trimmed_or_none (ii_tenant v),
      oi_provider_id = ii_provider_id v, oi_sent_id = None, oi_chat = ii_chat v, oi_contact = ii_contact v,
      oi_body = ii_body v, oi_status = ii_status v, oi_receipt = ii_receipt v, oi_sent = False, oi_error = None,
      oi_created = now, oi_updated = now\<rparr>"

text \<open>The insertion is ignored when the id or the provider id is taken; then the row with the id is read.\<close>

definition prepare_outbound_intent ::
  "(string \<Rightarrow> string) \<Rightarrow> intent_input \<Rightarrow> int \<Rightarrow> channel_db \<Rightarrow> string + (outbound_intent \<times> channel_db)" where
  "prepare_outbound_intent sha v now db =
     (if ii_receipt v \<and> trimmed_or_none (ii_tenant v) = None
      then Inl ''A terminal receipt outbound intent requires an exact tenant''
      else
        let row = new_intent sha v now;
            db' = if list_ex (\<lambda>q. oi_id q = oi_id row \<or> oi_provider_id q = oi_provider_id row) (wd_intents db) then db
                  else db\<lparr>wd_intents := wd_intents db @ [row]\<rparr>
        in case outbound_intent_by_id (oi_id row) db' of None \<Rightarrow> Inl ''Failed to persist WhatsApp outbound intent''
           | Some q \<Rightarrow> Inr (q, db'))"

definition intent_audit :: "outbound_intent \<Rightarrow> string \<Rightarrow> string option \<Rightarrow> string option \<Rightarrow> int \<Rightarrow> outbound_audit" where
  "intent_audit q status err sent now =
     \<lparr>oa_message = Some (oi_source q), oa_chat = oi_chat q, oa_contact = oi_contact q, oa_body = oi_body q,
      oa_status = status, oa_error = err, oa_sent = sent, oa_created = now\<rparr>"

definition complete_outbound_intent ::
  "outbound_intent \<Rightarrow> string \<Rightarrow> int \<Rightarrow> channel_db \<Rightarrow> string + (outbound_intent \<times> channel_db)" where
  "complete_outbound_intent q sent now db =
     (let s = js_trim sent
      in if s = [] then Inl ''WhatsApp provider returned no delivery receipt''
         else
           let db' = if count_where (pending_intent (oi_id q)) (wd_intents db) = 0 then db
                     else update_audits (\<lambda>a. ca_id a = oi_source q)
                       (\<lambda>a. a\<lparr>ca_outbound_id := Some s, ca_outbound_status := Some (oi_status q), ca_updated := now\<rparr>)
                       (add_outbound (intent_audit q (oi_status q) None (Some s) now)
                         (update_intents (pending_intent (oi_id q)) (sent_row s now) db))
           in case outbound_intent_by_id (oi_id q) db' of None \<Rightarrow> Inl ''Failed to complete WhatsApp outbound intent''
              | Some r \<Rightarrow> Inr (r, db'))"

definition record_outbound_intent_failure :: "outbound_intent \<Rightarrow> string \<Rightarrow> int \<Rightarrow> channel_db \<Rightarrow> channel_db" where
  "record_outbound_intent_failure q e now db =
     (if count_where (pending_intent (oi_id q)) (wd_intents db) = 0 then db
      else add_outbound (intent_audit q ''failed'' (Some e) None now)
        (update_intents (pending_intent (oi_id q)) (\<lambda>r. r\<lparr>oi_error := Some e, oi_updated := now\<rparr>) db))"

definition recoverable_receipt_intent :: "string \<Rightarrow> string \<Rightarrow> channel_db \<Rightarrow> outbound_intent option" where
  "recoverable_receipt_intent tenant source db =
     first_row (order_desc oi_created (filter (\<lambda>q. oi_tenant q = Some tenant \<and> oi_source q = source \<and> oi_receipt q \<and>
       oi_status q \<noteq> ''failure_notice_sent'') (wd_intents db)))"

definition pending_receipt_intents :: "channel_db \<Rightarrow> outbound_intent list" where
  "pending_receipt_intents db =
     order_by oi_created (filter (\<lambda>q. \<not> oi_sent q \<and> oi_receipt q \<and> oi_status q \<noteq> ''failure_notice_sent'' \<and>
       media_recovery_of (oi_source q) db = None) (wd_intents db))"

definition record_ported_receipt_delivery :: "string \<Rightarrow> string \<Rightarrow> bool \<Rightarrow> int \<Rightarrow> channel_db \<Rightarrow> channel_db" where
  "record_ported_receipt_delivery i sent recovered now db =
     update_audits (\<lambda>a. ca_id a = i)
       (\<lambda>a. a\<lparr>ca_lifecycle := Lc_Replied, ca_outbound_id := Some sent,
            ca_outbound_status := Some (if recovered then ''recovery_sent'' else ''sent''), ca_updated := now\<rparr>)
       (update_messages (\<lambda>m. wm_id m = i) (\<lambda>m. m\<lparr>wm_status := ''replied''\<rparr>) db)"

section \<open>Opening the store\<close>

definition stored_reply :: "string \<Rightarrow> channel_db \<Rightarrow> string option" where
  "stored_reply i db = Option.bind (audit_of i db) ca_reply"

definition restart_jobs :: "int \<Rightarrow> channel_db \<Rightarrow> channel_db" where
  "restart_jobs now db =
     (let db1 = update_jobs (\<lambda>j. vj_state j = V_Transcribing)
            (\<lambda>j. j\<lparr>vj_state := V_Queued, vj_error := None, vj_updated := now\<rparr>) db;
          db2 = update_jobs (\<lambda>j. vj_state j = V_Forwarding \<and> sql_filled (stored_reply (vj_id j) db1) \<noteq> None)
            (\<lambda>j. j\<lparr>vj_state := V_Reply_Ready, vj_reply := stored_reply (vj_id j) db1, vj_error := None, vj_updated := now\<rparr>) db1
      in update_jobs (\<lambda>j. vj_state j = V_Forwarding)
           (\<lambda>j. j\<lparr>vj_state := V_Outcome_Unknown,
                vj_error := Some ''Ring handoff outcome unknown after restart; not retried'', vj_updated := now\<rparr>) db2)"

definition delivered :: "channel_audit \<Rightarrow> bool" where
  "delivered a \<longleftrightarrow>
     ca_outbound_id a \<noteq> None \<and>
     (case ca_outbound_status a of None \<Rightarrow> False | Some s \<Rightarrow> s \<in> {''sent'', ''delivered'', ''read'', ''recovery_sent''})"

definition waiting_states :: "voice_state set" where
  "waiting_states = {V_Awaiting_Confirmation, V_Queued, V_Transcribing, V_Transcribed}"

definition waits_for_worker :: "string \<Rightarrow> channel_db \<Rightarrow> bool" where
  "waits_for_worker i db \<longleftrightarrow> list_ex (\<lambda>j. vj_id j = i \<and> vj_state j \<in> waiting_states) (wd_jobs db)"

definition restart_claims :: "int \<Rightarrow> channel_db \<Rightarrow> channel_db" where
  "restart_claims now db =
     (let db1 = update_claims (\<lambda>c. mc_state c = M_Processing \<and> list_ex (\<lambda>a. ca_id a = mc_canonical c \<and> delivered a) (wd_audits db))
            (\<lambda>c. c\<lparr>mc_state := M_Completed, mc_updated := now\<rparr>) db
      in update_claims (\<lambda>c. mc_state c = M_Processing \<and> \<not> waits_for_worker (mc_canonical c) db1)
           (\<lambda>c. c\<lparr>mc_state := M_Failed, mc_updated := now\<rparr>) db1)"

text \<open>A claimed recovery has an intent with a provider id that can be sent again, or its outcome is unknown.\<close>

definition resumable_recovery :: "channel_db \<Rightarrow> media_recovery \<Rightarrow> bool" where
  "resumable_recovery db r \<longleftrightarrow>
     list_ex (\<lambda>q. oi_source q = mr_id r \<and> \<not> oi_sent q \<and> oi_status q \<in> {''recovery_sent'', ''recovery_notice_sent''} \<and>
       oi_tenant q = map_option ca_tenant (audit_of (mr_id r) db)) (wd_intents db)"

definition lost_recovery :: "channel_db \<Rightarrow> media_recovery \<Rightarrow> bool" where
  "lost_recovery db r \<longleftrightarrow> mr_state r = R_Claimed \<and> \<not> resumable_recovery db r"

definition unknown_send_error :: string where
  "unknown_send_error = ''recovery send outcome unknown after restart''"

definition lost_audit :: "int \<Rightarrow> channel_db \<Rightarrow> media_recovery \<Rightarrow> outbound_audit list" where
  "lost_audit now db r =
     (case message_of (mr_id r) db of None \<Rightarrow> []
      | Some m \<Rightarrow>
          [\<lparr>oa_message = Some (mr_id r), oa_chat = wm_chat m, oa_contact = wm_contact m, oa_body = mr_reply r,
            oa_status = ''recovery_unknown'', oa_error = Some unknown_send_error, oa_sent = None, oa_created = now\<rparr>])"

definition restart_recoveries :: "int \<Rightarrow> channel_db \<Rightarrow> channel_db" where
  "restart_recoveries now db =
     (let lost = filter (lost_recovery db) (wd_recoveries db); is_lost = (\<lambda>i. list_ex (\<lambda>r. mr_id r = i) lost);
          db1 = db\<lparr>wd_outbound := wd_outbound db @ concat (map (lost_audit now db) lost)\<rparr>;
          db2 = update_messages (\<lambda>m. is_lost (wm_id m)) (\<lambda>m. m\<lparr>wm_status := ''failed''\<rparr>) db1;
          db3 = update_audits (\<lambda>a. is_lost (ca_id a))
            (\<lambda>a. a\<lparr>ca_lifecycle := Lc_Failed, ca_outbound_status := Some ''recovery_unknown'', ca_updated := now\<rparr>) db2;
          db4 = update_recoveries (lost_recovery db3)
            (\<lambda>r. r\<lparr>mr_state := R_Send_Failed, mr_error := coalesce_text (mr_error r) (Some unknown_send_error),
                 mr_completed := Some now, mr_updated := now\<rparr>) db3
      in update_recoveries (\<lambda>r. mr_state r = R_Claimed \<and> resumable_recovery db4 r)
           (\<lambda>r. r\<lparr>mr_state := R_Pending, mr_claimed := None, mr_updated := now\<rparr>) db4)"

definition interrupted_notice :: string where
  "interrupted_notice =
     ''I received your media, but a service restart interrupted processing before I could record a safe delivery receipt. I will not retry it automatically to avoid duplicate delivery. Please check the conversation before resending.''"

definition restart_recovery_of :: "int \<Rightarrow> channel_db \<Rightarrow> channel_message \<Rightarrow> media_recovery" where
  "restart_recovery_of now db m =
     (case sql_filled (stored_reply (wm_id m) db) of
        None \<Rightarrow> new_recovery (wm_id m) Interrupted_Failure interrupted_notice now
      | Some t \<Rightarrow> new_recovery (wm_id m) Forwarded_Reply t now)"

definition restart_messages :: "int \<Rightarrow> channel_db \<Rightarrow> channel_db" where
  "restart_messages now db =
     (let db1 = update_messages (\<lambda>m. wm_status m = ''processing'' \<and> list_ex (\<lambda>a. ca_id a = wm_id m \<and> delivered a) (wd_audits db))
            (\<lambda>m. m\<lparr>wm_status := ''replied''\<rparr>) db;
          db2 = update_audits (\<lambda>a. ca_lifecycle a = Lc_Forwarded \<and> delivered a)
            (\<lambda>a. a\<lparr>ca_lifecycle := Lc_Replied, ca_updated := now\<rparr>) db1;
          db3 = fold (\<lambda>m. add_recovery (\<lambda>r. False) (restart_recovery_of now db2 m))
            (filter (\<lambda>m. wm_status m = ''processing'' \<and> wm_has_media m \<and> \<not> waits_for_worker (wm_id m) db2) (wd_messages db2)) db2;
          db4 = update_messages (\<lambda>m. wm_status m = ''processing'' \<and> \<not> waits_for_worker (wm_id m) db3)
            (\<lambda>m. m\<lparr>wm_status := ''interrupted''\<rparr>) db3
      in update_audits (\<lambda>a. ca_lifecycle a = Lc_Forwarded \<and>
             list_ex (\<lambda>m. wm_id m = ca_id a \<and> wm_status m = ''interrupted'') (wd_messages db4))
           (\<lambda>a. a\<lparr>ca_lifecycle := Lc_Interrupted, ca_updated := now\<rparr>) db4)"

definition open_channel_store :: "int \<Rightarrow> channel_db \<Rightarrow> channel_db" where
  "open_channel_store now db = restart_messages now (restart_recoveries now (restart_claims now (restart_jobs now db)))"

end
