(* ===== verification/Channel_Ops.thy ===== *)
theory Channel_Ops
  imports Channel_Voice Channel_Outbound
begin

text \<open>
  The operations of the channel store as values, so that a run of any callers, with restarts in between, is a list of them.
  An operation that throws leaves the tables alone; the loop over followers keeps what it has written.
\<close>

datatype channel_op =
  Co_Open int
| Co_Create create_voice_job int
| Co_Claim_Job "string option" int
| Co_Confirm string string int
| Co_Cancel string string int
| Co_Persist string json int
| Co_Requeue string int
| Co_Handoff string int
| Co_Complete string string int
| Co_Fail string string int
| Co_Failure_Reply string string int "voice_failure option"
| Co_Unknown string int
| Co_Defer string string int
| Co_Resume string int
| Co_Reconcile string int
| Co_Inbound inbound_event int
| Co_Status string string int
| Co_Claim_Media claim_input int
| Co_Complete_Media string bool int
| Co_Coalesced string string string string timing_input int
| Co_Forwarding audit_input int
| Co_Failure audit_input string int
| Co_Timing string timing_input int
| Co_Claim_Recovery int
| Co_Complete_Recovery recovery_claim recovery_outcome int
| Co_Transcript string string
| Co_Storage string string
| Co_Outbound outbound_audit int
| Co_Prepare "string \<Rightarrow> string" intent_input int
| Co_Sent outbound_intent string int
| Co_Not_Sent outbound_intent string int
| Co_Delivered string string bool int

definition or_same :: "channel_db \<Rightarrow> string + channel_db \<Rightarrow> channel_db" where
  "or_same db r = (case r of Inl e \<Rightarrow> db | Inr db' \<Rightarrow> db')"

definition or_same_snd :: "channel_db \<Rightarrow> string + ('a \<times> channel_db) \<Rightarrow> channel_db" where
  "or_same_snd db r = (case r of Inl e \<Rightarrow> db | Inr p \<Rightarrow> snd p)"

fun channel_step :: "channel_op \<Rightarrow> channel_db \<Rightarrow> channel_db" where
  "channel_step (Co_Open now) db = open_channel_store now db"
| "channel_step (Co_Create v now) db = or_same db (create_voice_job_row v now db)"
| "channel_step (Co_Claim_Job served now) db = snd (claim_next_voice_job served now db)"
| "channel_step (Co_Confirm tenant conversation now) db = snd (confirm_latest_voice_job tenant conversation now db)"
| "channel_step (Co_Cancel tenant conversation now) db = snd (cancel_latest_voice_job tenant conversation now db)"
| "channel_step (Co_Persist i v now) db = snd (persist_voice_transcript i v now db)"
| "channel_step (Co_Requeue i now) db = snd (requeue_interrupted_voice_job i now db)"
| "channel_step (Co_Handoff i now) db = snd (claim_voice_ring_handoff i now db)"
| "channel_step (Co_Complete i reply now) db = or_same db (complete_voice_ring_handoff i reply now db)"
| "channel_step (Co_Fail i e now) db = fail_voice_job i e now db"
| "channel_step (Co_Failure_Reply i reply now f) db = or_same db (queue_voice_failure_reply i reply now f db)"
| "channel_step (Co_Unknown i now) db = mark_voice_ring_outcome_unknown i now db"
| "channel_step (Co_Defer i reply now) db = or_same_snd db (defer_idempotent_voice_capture i reply now db)"
| "channel_step (Co_Resume tenant now) db = snd (resume_idempotent_voice_captures tenant now db)"
| "channel_step (Co_Reconcile i now) db = snd (reconcile_voice_coalesced_followers i now db)"
| "channel_step (Co_Inbound e now) db = snd (record_inbound e now db)"
| "channel_step (Co_Status i status now) db = mark_message_status i status now db"
| "channel_step (Co_Claim_Media v now) db = or_same_snd db (claim_media_coalescing v now db)"
| "channel_step (Co_Complete_Media i completed now) db = complete_media_coalescing i completed now db"
| "channel_step (Co_Coalesced i owner sha sender timing now) db =
     or_same db (record_coalesced_channel_forwarding i owner sha sender timing now db)"
| "channel_step (Co_Forwarding v now) db = record_channel_forwarding v now db"
| "channel_step (Co_Failure v code now) db = record_channel_failure v code now db"
| "channel_step (Co_Timing i t now) db = record_channel_timing i t now db"
| "channel_step (Co_Claim_Recovery now) db = snd (claim_interrupted_media_recovery now db)"
| "channel_step (Co_Complete_Recovery c out now) db = complete_interrupted_media_recovery c out now db"
| "channel_step (Co_Transcript i s) db = record_inbound_transcript i s db"
| "channel_step (Co_Storage i status) db = mark_media_storage_status i status db"
| "channel_step (Co_Outbound a now) db = record_outbound_audit a now db"
| "channel_step (Co_Prepare sha v now) db = or_same_snd db (prepare_outbound_intent sha v now db)"
| "channel_step (Co_Sent q sent now) db = or_same_snd db (complete_outbound_intent q sent now db)"
| "channel_step (Co_Not_Sent q e now) db = record_outbound_intent_failure q e now db"
| "channel_step (Co_Delivered i sent recovered now) db = record_ported_receipt_delivery i sent recovered now db"

definition run_channel :: "channel_op list \<Rightarrow> channel_db \<Rightarrow> channel_db" where
  "run_channel ops db = fold channel_step ops db"

section \<open>What statements leave alone\<close>

text \<open>The tables after an update of another one.\<close>

lemma update_jobs_fields [simp]:
  "wd_jobs (update_jobs p f db) = update_where p f (wd_jobs db)" "wd_messages (update_jobs p f db) = wd_messages db"
  "wd_audits (update_jobs p f db) = wd_audits db" "wd_claims (update_jobs p f db) = wd_claims db"
  "wd_recoveries (update_jobs p f db) = wd_recoveries db" "wd_intents (update_jobs p f db) = wd_intents db"
  "wd_outbound (update_jobs p f db) = wd_outbound db"
  by (simp_all add: update_jobs_def)

lemma update_messages_fields [simp]:
  "wd_jobs (update_messages p f db) = wd_jobs db" "wd_messages (update_messages p f db) = update_where p f (wd_messages db)"
  "wd_audits (update_messages p f db) = wd_audits db" "wd_claims (update_messages p f db) = wd_claims db"
  "wd_recoveries (update_messages p f db) = wd_recoveries db" "wd_intents (update_messages p f db) = wd_intents db"
  "wd_outbound (update_messages p f db) = wd_outbound db"
  by (simp_all add: update_messages_def)

lemma update_audits_fields [simp]:
  "wd_jobs (update_audits p f db) = wd_jobs db" "wd_messages (update_audits p f db) = wd_messages db"
  "wd_audits (update_audits p f db) = update_where p f (wd_audits db)" "wd_claims (update_audits p f db) = wd_claims db"
  "wd_recoveries (update_audits p f db) = wd_recoveries db" "wd_intents (update_audits p f db) = wd_intents db"
  "wd_outbound (update_audits p f db) = wd_outbound db"
  by (simp_all add: update_audits_def)

lemma update_claims_fields [simp]:
  "wd_jobs (update_claims p f db) = wd_jobs db" "wd_messages (update_claims p f db) = wd_messages db"
  "wd_audits (update_claims p f db) = wd_audits db" "wd_claims (update_claims p f db) = update_where p f (wd_claims db)"
  "wd_recoveries (update_claims p f db) = wd_recoveries db" "wd_intents (update_claims p f db) = wd_intents db"
  "wd_outbound (update_claims p f db) = wd_outbound db"
  by (simp_all add: update_claims_def)

lemma update_recoveries_fields [simp]:
  "wd_jobs (update_recoveries p f db) = wd_jobs db" "wd_messages (update_recoveries p f db) = wd_messages db"
  "wd_audits (update_recoveries p f db) = wd_audits db" "wd_claims (update_recoveries p f db) = wd_claims db"
  "wd_recoveries (update_recoveries p f db) = update_where p f (wd_recoveries db)"
  "wd_intents (update_recoveries p f db) = wd_intents db" "wd_outbound (update_recoveries p f db) = wd_outbound db"
  by (simp_all add: update_recoveries_def)

lemma update_intents_fields [simp]:
  "wd_jobs (update_intents p f db) = wd_jobs db" "wd_messages (update_intents p f db) = wd_messages db"
  "wd_audits (update_intents p f db) = wd_audits db" "wd_claims (update_intents p f db) = wd_claims db"
  "wd_recoveries (update_intents p f db) = wd_recoveries db" "wd_intents (update_intents p f db) = update_where p f (wd_intents db)"
  "wd_outbound (update_intents p f db) = wd_outbound db"
  by (simp_all add: update_intents_def)

lemma add_outbound_fields [simp]:
  "wd_jobs (add_outbound a db) = wd_jobs db" "wd_messages (add_outbound a db) = wd_messages db"
  "wd_audits (add_outbound a db) = wd_audits db" "wd_claims (add_outbound a db) = wd_claims db"
  "wd_recoveries (add_outbound a db) = wd_recoveries db" "wd_intents (add_outbound a db) = wd_intents db"
  by (simp_all add: add_outbound_def)

lemma settle_claims_fields [simp]:
  "wd_jobs (settle_claims i m now db) = wd_jobs db" "wd_messages (settle_claims i m now db) = wd_messages db"
  "wd_audits (settle_claims i m now db) = wd_audits db" "wd_recoveries (settle_claims i m now db) = wd_recoveries db"
  "wd_intents (settle_claims i m now db) = wd_intents db"
  by (simp_all add: settle_claims_def)

lemma fold_settle_fields [simp]:
  "wd_jobs (fold (\<lambda>i. settle_claims i m now) is db) = wd_jobs db"
  "wd_recoveries (fold (\<lambda>i. settle_claims i m now) is db) = wd_recoveries db"
  by (induction "is" arbitrary: db) simp_all

lemma add_recovery_fields [simp]:
  "wd_jobs (add_recovery p r db) = wd_jobs db" "wd_messages (add_recovery p r db) = wd_messages db"
  "wd_audits (add_recovery p r db) = wd_audits db" "wd_claims (add_recovery p r db) = wd_claims db"
  "wd_intents (add_recovery p r db) = wd_intents db"
  by (simp_all add: add_recovery_def)

lemma fold_add_recovery_fields [simp]:
  "wd_jobs (fold (\<lambda>m. add_recovery p (g m)) ms db) = wd_jobs db"
  "wd_messages (fold (\<lambda>m. add_recovery p (g m)) ms db) = wd_messages db"
  "wd_audits (fold (\<lambda>m. add_recovery p (g m)) ms db) = wd_audits db"
  "wd_claims (fold (\<lambda>m. add_recovery p (g m)) ms db) = wd_claims db"
  by (induction ms arbitrary: db) simp_all

lemma upsert_audit_fields [simp]:
  "wd_jobs (upsert_audit i now f db) = wd_jobs db" "wd_recoveries (upsert_audit i now f db) = wd_recoveries db"
  by (simp_all add: upsert_audit_def)

lemma mark_message_status_fields [simp]:
  "wd_jobs (mark_message_status i status now db) = wd_jobs db"
  "wd_recoveries (mark_message_status i status now db) = wd_recoveries db"
  by (simp_all add: mark_message_status_def Let_def split: option.splits)

lemma record_coalesced_fields:
  "record_coalesced_channel_forwarding i owner sha sender t now db = Inr db' \<Longrightarrow> wd_jobs db' = wd_jobs db \<and> wd_recoveries db' = wd_recoveries db"
  by (auto simp: record_coalesced_channel_forwarding_def split: option.splits if_splits)

lemma reconcile_fields [simp]:
  "wd_jobs (snd (reconcile_followers owner cs now db)) = wd_jobs db"
  "wd_recoveries (snd (reconcile_followers owner cs now db)) = wd_recoveries db"
  by (induction owner cs now db rule: reconcile_followers.induct) (auto dest: record_coalesced_fields split: sum.splits)

lemma record_inbound_fields [simp]:
  "wd_jobs (snd (record_inbound e now db)) = wd_jobs db" "wd_recoveries (snd (record_inbound e now db)) = wd_recoveries db"
  by (simp_all add: record_inbound_def upsert_chat_def upsert_contact_def insert_media_def Let_def)

text \<open>Operations that touch neither the jobs nor the recoveries.\<close>

fun other_op :: "channel_op \<Rightarrow> bool" where
  "other_op (Co_Reconcile i now) \<longleftrightarrow> True"
| "other_op (Co_Inbound e now) \<longleftrightarrow> True"
| "other_op (Co_Status i status now) \<longleftrightarrow> True"
| "other_op (Co_Claim_Media v now) \<longleftrightarrow> True"
| "other_op (Co_Complete_Media i completed now) \<longleftrightarrow> True"
| "other_op (Co_Coalesced i owner sha sender timing now) \<longleftrightarrow> True"
| "other_op (Co_Forwarding v now) \<longleftrightarrow> True"
| "other_op (Co_Failure v code now) \<longleftrightarrow> True"
| "other_op (Co_Timing i t now) \<longleftrightarrow> True"
| "other_op (Co_Transcript i s) \<longleftrightarrow> True"
| "other_op (Co_Storage i status) \<longleftrightarrow> True"
| "other_op (Co_Outbound a now) \<longleftrightarrow> True"
| "other_op (Co_Prepare sha v now) \<longleftrightarrow> True"
| "other_op (Co_Sent q sent now) \<longleftrightarrow> True"
| "other_op (Co_Not_Sent q e now) \<longleftrightarrow> True"
| "other_op (Co_Delivered i sent recovered now) \<longleftrightarrow> True"
| "other_op op \<longleftrightarrow> False"

lemma record_channel_fields [simp]:
  "wd_jobs (record_channel_forwarding v now db) = wd_jobs db" "wd_recoveries (record_channel_forwarding v now db) = wd_recoveries db"
  "wd_jobs (record_channel_failure v code now db) = wd_jobs db" "wd_recoveries (record_channel_failure v code now db) = wd_recoveries db"
  "wd_jobs (record_channel_timing i t now db) = wd_jobs db" "wd_recoveries (record_channel_timing i t now db) = wd_recoveries db"
  by (simp_all add: record_channel_forwarding_def record_channel_failure_def record_channel_timing_def)

lemma record_outbound_fields [simp]:
  "wd_jobs (record_outbound_audit a now db) = wd_jobs db" "wd_recoveries (record_outbound_audit a now db) = wd_recoveries db"
  by (simp_all add: record_outbound_audit_def Let_def split: option.splits)

lemma intent_fields [simp]:
  "wd_jobs (or_same_snd db (prepare_outbound_intent sha v now db)) = wd_jobs db"
  "wd_recoveries (or_same_snd db (prepare_outbound_intent sha v now db)) = wd_recoveries db"
  "wd_jobs (or_same_snd db (complete_outbound_intent q sent now db)) = wd_jobs db"
  "wd_recoveries (or_same_snd db (complete_outbound_intent q sent now db)) = wd_recoveries db"
  by (simp_all add: or_same_snd_def prepare_outbound_intent_def complete_outbound_intent_def Let_def split: option.splits)

lemma intent_failure_fields [simp]:
  "wd_jobs (record_outbound_intent_failure q e now db) = wd_jobs db"
  "wd_recoveries (record_outbound_intent_failure q e now db) = wd_recoveries db"
  by (simp_all add: record_outbound_intent_failure_def)

lemma claim_media_fields [simp]:
  "wd_jobs (or_same_snd db (claim_media_coalescing v now db)) = wd_jobs db"
  "wd_recoveries (or_same_snd db (claim_media_coalescing v now db)) = wd_recoveries db"
  by (simp_all add: or_same_snd_def claim_media_coalescing_def Let_def)

lemma coalesced_fields [simp]:
  "wd_jobs (or_same db (record_coalesced_channel_forwarding i owner sha sender t now db)) = wd_jobs db"
  "wd_recoveries (or_same db (record_coalesced_channel_forwarding i owner sha sender t now db)) = wd_recoveries db"
  by (auto simp: or_same_def dest: record_coalesced_fields split: sum.splits)

lemma other_op_fields:
  "other_op op \<Longrightarrow> wd_jobs (channel_step op db) = wd_jobs db \<and> wd_recoveries (channel_step op db) = wd_recoveries db"
  by (cases op) (simp_all add: reconcile_voice_coalesced_followers_def complete_media_coalescing_def
      record_inbound_transcript_def mark_media_storage_status_def record_ported_receipt_delivery_def)

end
