(* ===== verification/Channel_Worker.thy ===== *)
theory Channel_Worker
  imports Channel_Ops
begin

text \<open>
  The voice worker (server/src/phylaxPortedRuntime.ts) and the recovery loop of the gateway (server/src/whatsappGateway.ts)
  over the channel store, up to each await.

  \<^item> The worker reads an artifact, transcribes it, hands the transcript to Ring and answers; files, transcription, Ring, usage
    accounting and the provider of messages answer as they like. Every pass of a loop is a step of its own, so that whatever
    another caller does may come between two passes.
  \<^item> The store is only changed by its operations. \<open>vs_ops\<close> lists them, \<open>vs_rings\<close> the notes for which Ring was called,
    \<open>vs_repeatable\<close> those for which Ring answered that the call may be repeated, \<open>vs_texts\<close> those that were sent to transcription,
    and \<open>vs_sends\<close> the messages handed to the provider; nothing reads these.
  \<^item> The texts of notices that name the reason of a failed transcription are a parameter, and the duration is left out of the
    stored transcription; nothing reads it back.
\<close>

section \<open>State\<close>

datatype usage_begun = No_Usage | Usage_Paused | Usage_Begun | Usage_Throws

text \<open>What stands outside of the code in one step: the accounting, the clock, and whether the gateway is connected.\<close>

record worker_env =
  we_begin :: usage_begun
  we_settle_throws :: bool
  we_now :: int
  we_connected :: bool

datatype drain_at = Dr_Next | Dr_Sending recovery_claim outbound_intent

text \<open>Where the worker is; a job in work comes with whether its usage was begun and is not settled.\<close>

datatype worker_at =
  Wk_Idle
| Wk_Top
| Wk_Return
| Wk_Read voice_job bool
| Wk_Transcribe voice_job bool
| Wk_Forward voice_job json
| Wk_Drain voice_job "nat option"
| Wk_Drain_Failed "nat option"

record voice_system =
  vs_db :: channel_db
  vs_ops :: "channel_op list"
  vs_closed :: bool
  vs_wake :: bool
  vs_last :: "string option"
  vs_at :: worker_at
  vs_drains :: "(nat \<times> drain_at) list"
  vs_next_drain :: nat
  vs_rings :: "string list"
  vs_repeatable :: "string list"
  vs_texts :: "string list"
  vs_sends :: "(string \<times> string) list"

definition new_voice_system :: voice_system where
  "new_voice_system =
     \<lparr>vs_db = empty_channel, vs_ops = [], vs_closed = False, vs_wake = False, vs_last = None, vs_at = Wk_Idle,
      vs_drains = [], vs_next_drain = 0, vs_rings = [], vs_repeatable = [], vs_texts = [], vs_sends = []\<rparr>"

definition perform :: "channel_op \<Rightarrow> voice_system \<Rightarrow> voice_system" where
  "perform op s = s\<lparr>vs_db := channel_step op (vs_db s), vs_ops := vs_ops s @ [op]\<rparr>"

definition go :: "worker_at \<Rightarrow> voice_system \<Rightarrow> voice_system" where
  "go w s = s\<lparr>vs_at := w\<rparr>"

section \<open>Waking up\<close>

definition kick_voice_worker :: "voice_system \<Rightarrow> voice_system" where
  "kick_voice_worker s =
     (if vs_closed s then s
      else if vs_at s \<noteq> Wk_Idle then s\<lparr>vs_wake := True\<rparr>
      else s\<lparr>vs_wake := False, vs_at := Wk_Top\<rparr>)"

text \<open>After a run, and after one that ended in an exception, the worker goes on if it was woken meanwhile.\<close>

definition run_ended :: "voice_system \<Rightarrow> voice_system" where
  "run_ended s =
     (if vs_wake s \<and> \<not> vs_closed s then s\<lparr>vs_wake := False, vs_at := Wk_Top\<rparr> else s\<lparr>vs_at := Wk_Idle\<rparr>)"

section \<open>The recovery loop\<close>

definition start_drain :: "voice_system \<Rightarrow> voice_system" where
  "start_drain s =
     s\<lparr>vs_drains := vs_drains s @ [(vs_next_drain s, Dr_Next)], vs_next_drain := vs_next_drain s + 1\<rparr>"

definition set_drain :: "nat \<Rightarrow> drain_at option \<Rightarrow> voice_system \<Rightarrow> voice_system" where
  "set_drain d w s =
     s\<lparr>vs_drains := (case w of None \<Rightarrow> filter (\<lambda>x. fst x \<noteq> d) (vs_drains s)
       | Some v \<Rightarrow> map (\<lambda>x. if fst x = d then (d, v) else x) (vs_drains s))\<rparr>"

definition recovery_intent :: "recovery_claim \<Rightarrow> string \<Rightarrow> bool \<Rightarrow> channel_db \<Rightarrow> intent_input" where
  "recovery_intent c provider eligible db =
     (let tenant = (case audit_of (rc_id c) db of None \<Rightarrow> None | Some a \<Rightarrow> nonempty_text (Some (ca_tenant a)));
          to = (case nonempty_text (rc_contact c) of None \<Rightarrow> rc_chat c | Some k \<Rightarrow> k)
      in \<lparr>ii_source = rc_id c, ii_tenant = tenant, ii_provider_id = provider, ii_chat = to, ii_contact = rc_contact c,
          ii_body = rc_reply c,
          ii_status = (if rc_kind c = Forwarded_Reply then ''recovery_sent'' else ''recovery_notice_sent''),
          ii_receipt = tenant \<noteq> None \<and> eligible\<rparr>)"

text \<open>One pass of the loop: the next recovery is claimed and its intent prepared; an intent that was sent is not sent again.\<close>

definition drain_pass ::
  "(string \<Rightarrow> string) \<Rightarrow> nat \<Rightarrow> string \<Rightarrow> bool \<Rightarrow> int \<Rightarrow> voice_system \<Rightarrow> voice_system" where
  "drain_pass sha d provider eligible now s =
     (case fst (claim_interrupted_media_recovery now (vs_db s)) of
        None \<Rightarrow> set_drain d None s
      | Some c \<Rightarrow>
          (let s1 = perform (Co_Claim_Recovery now) s;
               v = recovery_intent c provider eligible (vs_db s1)
           in case prepare_outbound_intent sha v now (vs_db s1) of
                Inl e \<Rightarrow> perform (Co_Complete_Recovery c (Send_Error e) now) s1
              | Inr p \<Rightarrow>
                  (let q = fst p; s2 = perform (Co_Prepare sha v now) s1
                   in if oi_sent q
                      then perform (Co_Complete_Recovery c
                        (Sent_As (case oi_sent_id q of None \<Rightarrow> oi_provider_id q | Some i \<Rightarrow> i) (Some (oi_id q))) now) s2
                      else set_drain d (Some (Dr_Sending c q))
                        (s2\<lparr>vs_sends := vs_sends s2 @ [(oi_id q, oi_provider_id q)]\<rparr>))))"

definition drain_step :: "(string \<Rightarrow> string) \<Rightarrow> nat \<Rightarrow> string \<Rightarrow> bool \<Rightarrow> int \<Rightarrow> voice_system \<Rightarrow> voice_system" where
  "drain_step sha d provider eligible now s =
     (case map_of (vs_drains s) d of Some Dr_Next \<Rightarrow> drain_pass sha d provider eligible now s | _ \<Rightarrow> s)"

datatype provider_answer = Provider_Sent string | Provider_Error string

definition drain_answer :: "nat \<Rightarrow> provider_answer \<Rightarrow> int \<Rightarrow> voice_system \<Rightarrow> voice_system" where
  "drain_answer d a now s =
     (case map_of (vs_drains s) d of
        Some (Dr_Sending c q) \<Rightarrow>
          set_drain d (Some Dr_Next) (perform (Co_Complete_Recovery c
            (case a of Provider_Sent i \<Rightarrow> Sent_As i (Some (oi_id q)) | Provider_Error e \<Rightarrow> Send_Error e) now) s)
      | _ \<Rightarrow> s)"

text \<open>The worker waits for a drain of its own; without a connection there is none to wait for.\<close>

definition await_drain :: "(nat option \<Rightarrow> worker_at) \<Rightarrow> worker_env \<Rightarrow> voice_system \<Rightarrow> voice_system" where
  "await_drain w env s = (if we_connected env then go (w (Some (vs_next_drain s))) (start_drain s) else go (w None) s)"

definition drain_over :: "nat option \<Rightarrow> voice_system \<Rightarrow> bool" where
  "drain_over d s \<longleftrightarrow> (case d of None \<Rightarrow> True | Some n \<Rightarrow> map_of (vs_drains s) n = None)"

section \<open>The worker\<close>

definition max_voice_transcription_seconds :: rat where "max_voice_transcription_seconds = 7200"

definition receipt_code :: "json \<Rightarrow> string option" where
  "receipt_code v =
     (case receipt_field ''transcription_failed'' v of
        Some f \<Rightarrow> (case receipt_field ''code'' f of Some (JStr c) \<Rightarrow> Some c | _ \<Rightarrow> None)
      | None \<Rightarrow> None)"

definition receipt_failed :: "json \<Rightarrow> bool" where
  "receipt_failed v \<longleftrightarrow> (case receipt_field ''transcription_failed'' v of Some (JObj kvs) \<Rightarrow> True | _ \<Rightarrow> False)"

definition receipt_text :: "json \<Rightarrow> string" where
  "receipt_text v = trimmed_field ''text_transcript'' v"

definition too_long :: "json \<Rightarrow> bool" where
  "too_long v \<longleftrightarrow> receipt_code v = Some ''duration_limit''"

definition duration_receipt :: json where
  "duration_receipt =
     JObj [(''transcription_failed'',
       JObj [(''code'', JStr ''duration_limit''), (''message'', JStr ''audio exceeds Zenod's 2-hour transcription limit'')])]"

definition string_field :: "string \<Rightarrow> json \<Rightarrow> string option" where
  "string_field k v = (case receipt_field k v of Some (JStr s) \<Rightarrow> Some s | _ \<Rightarrow> None)"

definition empty_text_failure :: json where
  "empty_text_failure =
     JObj [(''code'', JStr ''unavailable''), (''reason'', JStr ''unknown''), (''message'', JStr ''transcription returned empty text'')]"

definition failure_of_receipt :: "json \<Rightarrow> json" where
  "failure_of_receipt v =
     (if receipt_failed v then the (receipt_field ''transcription_failed'' v) else empty_text_failure)"

definition failure_detail :: "json \<Rightarrow> voice_failure" where
  "failure_detail f =
     \<lparr>vf_reason = (case string_field ''reason'' f of None \<Rightarrow> string_field ''code'' f | Some r \<Rightarrow> Some r),
      vf_provider = string_field ''provider'' f,
      vf_http = (case receipt_field ''http_status'' f of Some (JNum n) \<Rightarrow> Some n | _ \<Rightarrow> None),
      vf_code = string_field ''provider_code'' f, vf_message = string_field ''message'' f\<rparr>"

definition could_not_process :: string where
  "could_not_process = ''Zenod could not process that voice note. Please try again.''"

definition empty_persisted :: string where
  "empty_persisted = ''I could not process the persisted voice transcript because it was empty.''"

definition retry_notice :: string where
  "retry_notice =
     ''Your voice note was transcribed, but Zenod has not returned a save receipt. The transcript is safely retained; retry after the connection is repaired cannot create a second memory.''"

text \<open>The handler of an exception; \<open>repeatable\<close> says that Ring allows the call to be repeated.\<close>

definition job_failed :: "worker_env \<Rightarrow> voice_job \<Rightarrow> bool \<Rightarrow> voice_system \<Rightarrow> voice_system" where
  "job_failed env j repeatable s =
     (let i = vj_id j; now = we_now env; st = map_option vj_state (voice_job_of i (vs_db s))
      in if st = Some V_Cancelled then go Wk_Top s
         else if vs_closed s \<and> st = Some V_Transcribing then go Wk_Top (perform (Co_Requeue i now) s)
         else if st = Some V_Transcribed then go Wk_Return s
         else await_drain Wk_Drain_Failed env
           (if st = Some V_Forwarding
            then if repeatable then perform (Co_Defer i retry_notice now) s else perform (Co_Unknown i now) s
            else perform (Co_Failure_Reply i could_not_process now None) s))"

definition settle_throws :: "worker_env \<Rightarrow> bool \<Rightarrow> bool" where
  "settle_throws env begun \<longleftrightarrow> begun \<and> we_settle_throws env"

text \<open>From the transcript to the call of Ring.\<close>

definition hand_over :: "worker_env \<Rightarrow> voice_job \<Rightarrow> json \<Rightarrow> voice_system \<Rightarrow> voice_system" where
  "hand_over env j v s =
     (let i = vj_id j; now = we_now env
      in if receipt_text v = [] \<and> \<not> too_long v
         then await_drain (Wk_Drain j) env (perform (Co_Failure_Reply i empty_persisted now None) s)
         else if \<not> fst (claim_voice_ring_handoff i now (vs_db s)) then go Wk_Top (perform (Co_Handoff i now) s)
         else
           let s1 = perform (Co_Handoff i now) s
           in go (Wk_Forward j v) (s1\<lparr>vs_rings := vs_rings s1 @ [i]\<rparr>))"

text \<open>From the answer of the transcription to the stored transcript; \<open>begun\<close> says that usage is to be settled.\<close>

definition transcribed :: "(json \<Rightarrow> string) \<Rightarrow> worker_env \<Rightarrow> voice_job \<Rightarrow> bool \<Rightarrow> json \<Rightarrow> voice_system \<Rightarrow> voice_system" where
  "transcribed notice env j begun v s =
     (let i = vj_id j; now = we_now env
      in if map_option vj_state (voice_job_of i (vs_db s)) = Some V_Cancelled
         then if settle_throws env begun then job_failed env j False s else go Wk_Top s
         else if \<not> too_long v \<and> (receipt_failed v \<or> receipt_text v = [])
         then if settle_throws env begun then job_failed env j False s
              else let f = failure_of_receipt v; op = Co_Failure_Reply i (notice f) now (Some (failure_detail f))
                   in if bounded_recovery_reply (Some (notice f)) = None then job_failed env j False s
                      else await_drain (Wk_Drain j) env (perform op s)
         else
           let stored = fst (persist_voice_transcript i v now (vs_db s)); s1 = perform (Co_Persist i v now) s
           in if settle_throws env begun then job_failed env j False s1
              else if \<not> stored then go Wk_Top s1
              else hand_over env j v s1)"

text \<open>A pass of the worker up to its first await.\<close>

definition worker_pass :: "(json \<Rightarrow> string) \<Rightarrow> worker_env \<Rightarrow> voice_system \<Rightarrow> voice_system" where
  "worker_pass notice env s =
     (if vs_closed s then go Wk_Return s
      else case fst (claim_next_voice_job (vs_last s) (we_now env) (vs_db s)) of
        None \<Rightarrow> go Wk_Return (perform (Co_Claim_Job (vs_last s) (we_now env)) s)
      | Some j \<Rightarrow>
          (let s1 = (perform (Co_Claim_Job (vs_last s) (we_now env)) s)\<lparr>vs_last := Some (vj_tenant j)\<rparr>
           in if vj_state j = V_Transcribed
              then let v = (case vj_transcription j of None \<Rightarrow> JObj [] | Some t \<Rightarrow> t)
                   in if too_long v then hand_over env j v s1
                      else case we_begin env of
                             Usage_Throws \<Rightarrow> job_failed env j False s1
                           | Usage_Paused \<Rightarrow> go Wk_Return s1
                           | b \<Rightarrow> if we_settle_throws env then job_failed env j False s1 else hand_over env j v s1
              else case vj_duration j of
                     Some d \<Rightarrow>
                       if max_voice_transcription_seconds < d then transcribed notice env j False duration_receipt s1
                       else (case we_begin env of
                               Usage_Throws \<Rightarrow> job_failed env j False s1
                             | Usage_Paused \<Rightarrow> go Wk_Return (perform (Co_Requeue (vj_id j) (we_now env)) s1)
                             | b \<Rightarrow> go (Wk_Read j (b = Usage_Begun)) s1)
                   | None \<Rightarrow>
                       (case we_begin env of
                          Usage_Throws \<Rightarrow> job_failed env j False s1
                        | Usage_Paused \<Rightarrow> go Wk_Return (perform (Co_Requeue (vj_id j) (we_now env)) s1)
                        | b \<Rightarrow> go (Wk_Read j (b = Usage_Begun)) s1)))"

text \<open>What Ring answers, with the audit the worker records of it.\<close>

datatype ring_answer = Ring_Replied audit_input string | Ring_Failed bool

definition ring_replied :: "worker_env \<Rightarrow> voice_job \<Rightarrow> audit_input \<Rightarrow> string \<Rightarrow> voice_system \<Rightarrow> voice_system" where
  "ring_replied env j a reply s =
     (let i = vj_id j; now = we_now env;
          s1 = perform (Co_Forwarding (a\<lparr>ai_id := i, ai_sha := Some (vj_sha j), ai_reply := Some reply,
            ai_transcription_failure := None, ai_canonical := Some i, ai_owner := True\<rparr>) now) s;
          thrown = fst (reconcile_voice_coalesced_followers i now (vs_db s1)) \<noteq> None;
          s2 = perform (Co_Reconcile i now) s1
      in if thrown then job_failed env j False s2
         else case complete_voice_ring_handoff i reply now (vs_db s2) of
                Inl e \<Rightarrow> job_failed env j False s2
              | Inr db \<Rightarrow> await_drain (Wk_Drain j) env (perform (Co_Complete i reply now) s2))"

datatype worker_answer =
  An_Error
| An_Read
| An_Text json
| An_Ring ring_answer
| An_Drained bool

text \<open>
  The answer to an await. After its drain the worker calls back who waits for the reply, and an exception there is handled like
  any other of the job.
\<close>

fun worker_resume :: "(json \<Rightarrow> string) \<Rightarrow> worker_env \<Rightarrow> worker_answer \<Rightarrow> worker_at \<Rightarrow> voice_system \<Rightarrow> voice_system" where
  "worker_resume notice env An_Error (Wk_Read j begun) s = job_failed env j False s"
| "worker_resume notice env An_Read (Wk_Read j begun) s =
     go (Wk_Transcribe j begun) (s\<lparr>vs_texts := vs_texts s @ [vj_id j]\<rparr>)"
| "worker_resume notice env An_Error (Wk_Transcribe j begun) s = job_failed env j False s"
| "worker_resume notice env (An_Text v) (Wk_Transcribe j begun) s = transcribed notice env j begun v s"
| "worker_resume notice env (An_Ring (Ring_Replied a reply)) (Wk_Forward j v) s = ring_replied env j a reply s"
| "worker_resume notice env (An_Ring (Ring_Failed repeatable)) (Wk_Forward j v) s =
     job_failed env j repeatable (if repeatable then s\<lparr>vs_repeatable := vs_repeatable s @ [vj_id j]\<rparr> else s)"
| "worker_resume notice env (An_Drained ok) (Wk_Drain j d) s =
     (if \<not> drain_over d s then s else if ok then go Wk_Top s else job_failed env j False s)"
| "worker_resume notice env (An_Drained ok) (Wk_Drain_Failed d) s = (if drain_over d s then go Wk_Top s else s)"
| "worker_resume notice env a w s = s"

section \<open>Moves\<close>

text \<open>The operations that the handlers of messages and tools call.\<close>

fun outside_op :: "channel_op \<Rightarrow> bool" where
  "outside_op (Co_Open now) \<longleftrightarrow> False"
| "outside_op (Co_Claim_Job served now) \<longleftrightarrow> False"
| "outside_op (Co_Persist i v now) \<longleftrightarrow> False"
| "outside_op (Co_Requeue i now) \<longleftrightarrow> False"
| "outside_op (Co_Handoff i now) \<longleftrightarrow> False"
| "outside_op (Co_Complete i reply now) \<longleftrightarrow> False"
| "outside_op (Co_Failure_Reply i reply now f) \<longleftrightarrow> False"
| "outside_op (Co_Unknown i now) \<longleftrightarrow> False"
| "outside_op (Co_Defer i reply now) \<longleftrightarrow> False"
| "outside_op (Co_Claim_Recovery now) \<longleftrightarrow> False"
| "outside_op (Co_Complete_Recovery c out now) \<longleftrightarrow> False"
| "outside_op op \<longleftrightarrow> True"

datatype voice_move =
  Vm_Kick
| Vm_Pass worker_env
| Vm_Answer worker_env worker_answer
| Vm_Returned
| Vm_Drain
| Vm_Drain_Pass nat string bool int
| Vm_Drain_Answer nat provider_answer int
| Vm_Op channel_op
| Vm_Close
| Vm_Restart int

fun voice_step :: "(string \<Rightarrow> string) \<Rightarrow> (json \<Rightarrow> string) \<Rightarrow> voice_move \<Rightarrow> voice_system \<Rightarrow> voice_system" where
  "voice_step sha notice Vm_Kick s = kick_voice_worker s"
| "voice_step sha notice (Vm_Pass env) s = (if vs_at s = Wk_Top then worker_pass notice env s else s)"
| "voice_step sha notice (Vm_Answer env a) s = worker_resume notice env a (vs_at s) s"
| "voice_step sha notice Vm_Returned s = (if vs_at s = Wk_Return then run_ended s else s)"
| "voice_step sha notice Vm_Drain s = start_drain s"
| "voice_step sha notice (Vm_Drain_Pass d provider eligible now) s = drain_step sha d provider eligible now s"
| "voice_step sha notice (Vm_Drain_Answer d a now) s = drain_answer d a now s"
| "voice_step sha notice (Vm_Op op) s = (if outside_op op then perform op s else s)"
| "voice_step sha notice Vm_Close s = s\<lparr>vs_closed := True\<rparr>"
| "voice_step sha notice (Vm_Restart now) s =
     (perform (Co_Open now) s)\<lparr>vs_closed := False, vs_wake := False, vs_last := None, vs_at := Wk_Idle, vs_drains := []\<rparr>"

definition run_voice :: "(string \<Rightarrow> string) \<Rightarrow> (json \<Rightarrow> string) \<Rightarrow> voice_move list \<Rightarrow> voice_system \<Rightarrow> voice_system" where
  "run_voice sha notice moves s = fold (voice_step sha notice) moves s"

end
