(* ===== verification/Worker_Invariant.thy ===== *)
theory Worker_Invariant
  imports Channel_Worker
begin

text \<open>
  The contract between the voice worker and whatever is to hold of its runs: an invariant that the operations on the store, the
  calls of Ring and the sends keep, and that does not look at where the worker and the recovery loops are, is kept by every move.
\<close>

fun ring_op :: "channel_op \<Rightarrow> bool" where
  "ring_op (Co_Handoff i now) \<longleftrightarrow> True"
| "ring_op (Co_Defer i r now) \<longleftrightarrow> True"
| "ring_op op \<longleftrightarrow> False"

lemma outside_not_ring: "outside_op op \<Longrightarrow> \<not> ring_op op"
  by (cases op) simp_all

text \<open>\<open>owed i\<close> is the invariant together with an answer of Ring for the note that allows a deferral.\<close>

locale worker_invariant =
  fixes inv :: "voice_system \<Rightarrow> bool" and owed :: "string \<Rightarrow> voice_system \<Rightarrow> bool"
  assumes keeps_at: "inv (s\<lparr>vs_at := w\<rparr>) = inv s" and keeps_wake: "inv (s\<lparr>vs_wake := b\<rparr>) = inv s"
    and keeps_last: "inv (s\<lparr>vs_last := l\<rparr>) = inv s" and keeps_closed: "inv (s\<lparr>vs_closed := b\<rparr>) = inv s"
    and keeps_drains: "inv (s\<lparr>vs_drains := ds\<rparr>) = inv s" and keeps_next: "inv (s\<lparr>vs_next_drain := n\<rparr>) = inv s"
    and keeps_texts: "inv (s\<lparr>vs_texts := ts\<rparr>) = inv s"
    and plain: "inv s \<Longrightarrow> \<not> ring_op op \<Longrightarrow> inv (perform op s)"
    and refused: "inv s \<Longrightarrow> \<not> fst (claim_voice_ring_handoff i now (vs_db s)) \<Longrightarrow> inv (perform (Co_Handoff i now) s)"
    and called: "inv s \<Longrightarrow> fst (claim_voice_ring_handoff i now (vs_db s)) \<Longrightarrow>
      inv ((perform (Co_Handoff i now) s)\<lparr>vs_rings := vs_rings (perform (Co_Handoff i now) s) @ [i]\<rparr>)"
    and allowed: "inv s \<Longrightarrow> owed i (s\<lparr>vs_repeatable := vs_repeatable s @ [i]\<rparr>)"
    and owed_inv: "owed i s \<Longrightarrow> inv s"
    and put_off: "owed i s \<Longrightarrow> inv (perform (Co_Defer i r now) s)"
    and sent: "inv s \<Longrightarrow> prepare_outbound_intent sha v now (vs_db s) = Inr (q, db') \<Longrightarrow>
      inv ((perform (Co_Prepare sha v now) s)\<lparr>vs_sends := vs_sends (perform (Co_Prepare sha v now) s) @ [(oi_id q, oi_provider_id q)]\<rparr>)"
begin

lemmas keeps [simp] = keeps_at keeps_wake keeps_last keeps_closed keeps_drains keeps_next keeps_texts

lemma places [simp]:
  "inv (go w s) = inv s" "inv (start_drain s) = inv s" "inv (set_drain d w' s) = inv s" "inv (await_drain f env s) = inv s"
  "inv (run_ended s) = inv s" "inv (kick_voice_worker s) = inv s"
  by (simp_all add: go_def start_drain_def set_drain_def await_drain_def run_ended_def kick_voice_worker_def)

lemma job_failed_keeps: "inv s \<Longrightarrow> inv (job_failed env j False s)"
  by (auto simp: job_failed_def Let_def intro!: plain)

lemma failed_repeatable: "owed (vj_id j) s \<Longrightarrow> inv (job_failed env j True s)"
  by (auto simp: job_failed_def Let_def intro!: plain put_off dest: owed_inv)

lemma handed_over: "inv s \<Longrightarrow> inv (hand_over env j v s)"
  by (auto simp: hand_over_def Let_def intro!: plain refused called)

lemma text_stored: "inv s \<Longrightarrow> inv (transcribed notice env j begun v s)"
  by (auto simp: transcribed_def Let_def intro!: plain job_failed_keeps handed_over)

lemma passed_once: "inv s \<Longrightarrow> inv (worker_pass notice env s)"
  by (auto simp: worker_pass_def Let_def intro!: plain job_failed_keeps handed_over text_stored split: option.splits usage_begun.splits)

lemma answered: "inv s \<Longrightarrow> inv (ring_replied env j a reply s)"
  by (auto simp: ring_replied_def Let_def intro!: plain job_failed_keeps split: sum.splits)

lemma resumed: "inv s \<Longrightarrow> inv (worker_resume notice env a w s)"
  by (induction notice env a w s rule: worker_resume.induct)
    (auto simp: job_failed_keeps text_stored answered intro!: failed_repeatable allowed)

lemma drain_passed:
  assumes "inv s"
  shows "inv (drain_pass sha d provider eligible now s)"
proof (cases "fst (claim_interrupted_media_recovery now (vs_db s))")
  case None
  then show ?thesis using assms by (simp add: drain_pass_def)
next
  case (Some c)
  define s1 where "s1 = perform (Co_Claim_Recovery now) s"
  define v where "v = recovery_intent c provider eligible (vs_db s1)"
  have s1: "inv s1" using assms by (simp add: s1_def plain)
  show ?thesis
  proof (cases "prepare_outbound_intent sha v now (vs_db s1)")
    case (Inl e)
    with Some s1 show ?thesis by (simp add: drain_pass_def Let_def s1_def [symmetric] v_def [symmetric] plain)
  next
    case (Inr p)
    obtain q db' where p: "p = (q, db')" by (cases p)
    from Some Inr p sent [OF s1 Inr [unfolded p]] s1 show ?thesis
      by (simp add: drain_pass_def Let_def s1_def [symmetric] v_def [symmetric] plain)
  qed
qed

lemma step_keeps: "inv s \<Longrightarrow> inv (voice_step sha notice m s)"
  by (cases m) (auto simp: passed_once resumed drain_step_def drain_passed drain_answer_def plain outside_not_ring
      split: option.splits drain_at.splits)

lemma run_keeps_worker: "inv s \<Longrightarrow> inv (run_voice sha notice moves s)"
  unfolding run_voice_def by (induction moves arbitrary: s) (simp_all add: step_keeps)

end

end
