(* ===== verification/Channel_Props.thy ===== *)
theory Channel_Props
  imports Channel_Ops
begin

text \<open>
  What the channel store promises of voice jobs for any callers and restarts: jobs follow a state machine whose outcomes are
  final, and a voice note is handed to Ring once, and once more for each time its handoff was put off as repeatable.
\<close>

section \<open>The state machine of voice jobs\<close>

fun voice_edge :: "voice_state \<Rightarrow> voice_state \<Rightarrow> bool" where
  "voice_edge V_Awaiting_Confirmation st \<longleftrightarrow> st \<in> {V_Queued, V_Cancelled, V_Failed}"
| "voice_edge V_Queued st \<longleftrightarrow> st \<in> {V_Transcribing, V_Cancelled, V_Failed}"
| "voice_edge V_Transcribing st \<longleftrightarrow> st \<in> {V_Transcribed, V_Queued, V_Cancelled, V_Failed}"
| "voice_edge V_Transcribed st \<longleftrightarrow> st \<in> {V_Forwarding, V_Cancelled, V_Failed}"
| "voice_edge V_Forwarding st \<longleftrightarrow> st \<in> {V_Reply_Ready, V_Outcome_Unknown, V_Capture_Retry, V_Failed}"
| "voice_edge V_Capture_Retry st \<longleftrightarrow> st \<in> {V_Transcribed, V_Cancelled, V_Failed}"
| "voice_edge V_Reply_Ready st \<longleftrightarrow> st = V_Completed"
| "voice_edge V_Failed st \<longleftrightarrow> st = V_Failed"
| "voice_edge V_Completed st \<longleftrightarrow> False"
| "voice_edge V_Cancelled st \<longleftrightarrow> False"
| "voice_edge V_Outcome_Unknown st \<longleftrightarrow> False"

lemma voice_edge_fails: "st \<notin> fixed_states \<Longrightarrow> voice_edge st V_Failed"
  by (cases st) (simp_all add: fixed_states_def)

lemma voice_edge_cancels: "st \<in> cancellable_states \<Longrightarrow> voice_edge st V_Cancelled"
  by (auto simp: cancellable_states_def)

text \<open>How one operation may change a job that is there.\<close>

definition job_moved :: "channel_op \<Rightarrow> voice_job \<Rightarrow> voice_job \<Rightarrow> bool" where
  "job_moved op j j' \<longleftrightarrow>
     vj_id j' = vj_id j \<and> (vj_state j' = vj_state j \<or> voice_edge (vj_state j) (vj_state j')) \<and>
     (vj_state j' = V_Forwarding \<longrightarrow> vj_state j = V_Forwarding \<or> (\<exists>now. op = Co_Handoff (vj_id j) now)) \<and>
     (vj_state j' = V_Capture_Retry \<longrightarrow> vj_state j = V_Capture_Retry \<or> (\<exists>r now. op = Co_Defer (vj_id j) r now))"

definition jobs_moved :: "channel_op \<Rightarrow> voice_job list \<Rightarrow> voice_job list \<Rightarrow> bool" where
  "jobs_moved op js js' \<longleftrightarrow> (\<exists>g. js' = map g js \<and> (\<forall>j. job_moved op j (g j)))"

lemma job_unmoved [simp]: "job_moved op j j"
  by (simp add: job_moved_def)

lemma jobs_unmoved [simp]: "jobs_moved op js js"
  unfolding jobs_moved_def by (rule exI [of _ id]) simp

lemma update_moves: "(\<And>j. p j \<Longrightarrow> job_moved op j (f j)) \<Longrightarrow> jobs_moved op js (update_where p f js)"
  unfolding jobs_moved_def update_where_def by (rule exI [of _ "\<lambda>j. if p j then f j else j"]) simp

lemma restart_jobs_moves: "jobs_moved (Co_Open now) (wd_jobs db) (wd_jobs (restart_jobs now db))"
proof -
  let ?f = "\<lambda>j :: voice_job. if vj_state j = V_Transcribing then j\<lparr>vj_state := V_Queued, vj_error := None, vj_updated := now\<rparr> else j"
  let ?g = "\<lambda>j. if vj_state j = V_Forwarding \<and> sql_filled (stored_reply (vj_id j) db) \<noteq> None
    then j\<lparr>vj_state := V_Reply_Ready, vj_reply := stored_reply (vj_id j) db, vj_error := None, vj_updated := now\<rparr> else j"
  let ?h = "\<lambda>j :: voice_job. if vj_state j = V_Forwarding
    then j\<lparr>vj_state := V_Outcome_Unknown, vj_error := Some ''Ring handoff outcome unknown after restart; not retried'', vj_updated := now\<rparr>
    else j"
  have reply: "stored_reply i (update_jobs p f db) = stored_reply i db" for i p f
    by (simp add: stored_reply_def audit_of_def)
  have "wd_jobs (restart_jobs now db) = map (?h \<circ> ?g \<circ> ?f) (wd_jobs db)"
    unfolding restart_jobs_def Let_def reply by (simp add: update_where_def)
  moreover have "job_moved (Co_Open now) j ((?h \<circ> ?g \<circ> ?f) j)" for j
    by (cases "vj_state j") (simp_all add: job_moved_def)
  ultimately show ?thesis unfolding jobs_moved_def by blast
qed

lemma open_store_jobs [simp]: "wd_jobs (open_channel_store now db) = wd_jobs (restart_jobs now db)"
  by (simp add: open_channel_store_def restart_messages_def restart_recoveries_def restart_claims_def Let_def)

lemma claim_job_moves: "jobs_moved (Co_Claim_Job served now) (wd_jobs db) (wd_jobs (snd (claim_next_voice_job served now db)))"
  by (auto simp: claim_next_voice_job_def Let_def split: option.splits intro!: update_moves) (simp_all add: job_moved_def)

lemma scoped_job_moves:
  "jobs_moved (Co_Confirm t c now) (wd_jobs db) (wd_jobs (snd (confirm_latest_voice_job t c now db)))"
  "jobs_moved (Co_Cancel t c now) (wd_jobs db) (wd_jobs (snd (cancel_latest_voice_job t c now db)))"
  by (auto simp: confirm_latest_voice_job_def transition_latest_job_def cancel_latest_voice_job_def Let_def
      split: option.splits intro!: update_moves) (simp_all add: job_moved_def voice_edge_cancels)

lemma complete_recovery_jobs:
  "wd_jobs (complete_interrupted_media_recovery c out now db) =
     (if reply_sent c out then update_where (\<lambda>j. vj_id j = rc_id c \<and> vj_state j = V_Reply_Ready)
        (\<lambda>j. j\<lparr>vj_state := V_Completed, vj_updated := now\<rparr>) (wd_jobs db) else wd_jobs db)"
  by (simp add: complete_interrupted_media_recovery_def send_intent_def Let_def split: recovery_outcome.splits)

lemma claim_recovery_jobs [simp]: "wd_jobs (snd (claim_interrupted_media_recovery now db)) = wd_jobs db"
  by (simp add: claim_interrupted_media_recovery_def split: option.splits)

lemma create_job_cases:
  "wd_jobs (channel_step (Co_Create v now) db) =
     (if voice_job_of (cv_id v) db = None then wd_jobs db @ [new_voice_job v now] else wd_jobs db)"
  by (simp add: or_same_def create_voice_job_row_def)

lemma step_moves:
  assumes "\<And>v now. op \<noteq> Co_Create v now"
  shows "jobs_moved op (wd_jobs db) (wd_jobs (channel_step op db))"
proof (cases "other_op op")
  case True
  then show ?thesis using other_op_fields [OF True, of db] by simp
next
  case False
  then show ?thesis
  proof (cases op)
    case (Co_Failure_Reply i reply now f)
    then show ?thesis
      by (auto simp: or_same_def queue_voice_failure_reply_def Let_def job_moved_def voice_edge_fails
          split: option.splits intro!: update_moves)
  qed (use assms in \<open>auto simp: restart_jobs_moves claim_job_moves scoped_job_moves complete_recovery_jobs or_same_def
      or_same_snd_def persist_voice_transcript_def requeue_interrupted_voice_job_def claim_voice_ring_handoff_def
      complete_voice_ring_handoff_def fail_voice_job_def mark_voice_ring_outcome_unknown_def
      defer_idempotent_voice_capture_def resume_idempotent_voice_captures_def Let_def is_job_def job_moved_def
      voice_edge_fails no_failure_def split: option.splits intro!: update_moves\<close>)
qed

section \<open>The job with an id\<close>

definition jobs_distinct :: "channel_db \<Rightarrow> bool" where
  "jobs_distinct db \<longleftrightarrow> distinct (map vj_id (wd_jobs db))"

definition job_state :: "string \<Rightarrow> channel_db \<Rightarrow> voice_state option" where
  "job_state i db = map_option vj_state (voice_job_of i db)"

lemma moved_job_of:
  assumes "jobs_moved op (wd_jobs db) (wd_jobs db')"
  shows "case voice_job_of i db of None \<Rightarrow> voice_job_of i db' = None
    | Some j \<Rightarrow> \<exists>j'. voice_job_of i db' = Some j' \<and> job_moved op j j'"
proof -
  from assms obtain g where g: "wd_jobs db' = map g (wd_jobs db)" "\<And>j. job_moved op j (g j)" by (auto simp: jobs_moved_def)
  then have "vj_id (g j) = vj_id j" for j by (simp add: job_moved_def)
  then have "find (\<lambda>j. vj_id j = i) (map g js) = map_option g (find (\<lambda>j. vj_id j = i) js)" for js
    by (induction js) simp_all
  then have "voice_job_of i db' = map_option g (voice_job_of i db)"
    by (simp add: voice_job_of_def g(1))
  then show ?thesis using g(2) by (simp split: option.splits)
qed

lemma step_distinct:
  assumes "jobs_distinct db"
  shows "jobs_distinct (channel_step op db)"
proof (cases "\<exists>v now. op = Co_Create v now")
  case True
  then obtain v now where op: "op = Co_Create v now" by blast
  show ?thesis unfolding jobs_distinct_def op create_job_cases
    using assms by (auto simp: jobs_distinct_def voice_job_of_def find_None_iff new_voice_job_def)
next
  case False
  then obtain g where g: "wd_jobs (channel_step op db) = map g (wd_jobs db)" "\<And>j. job_moved op j (g j)"
    using step_moves [of op db] by (auto simp: jobs_moved_def)
  then have "map vj_id (wd_jobs (channel_step op db)) = map vj_id (wd_jobs db)" by (simp add: job_moved_def comp_def)
  then show ?thesis using assms by (simp add: jobs_distinct_def)
qed

lemma step_job_of:
  "case voice_job_of i db of
     None \<Rightarrow> (case voice_job_of i (channel_step op db) of None \<Rightarrow> True | Some j' \<Rightarrow> vj_state j' \<in> {V_Queued, V_Awaiting_Confirmation})
   | Some j \<Rightarrow> \<exists>j'. voice_job_of i (channel_step op db) = Some j' \<and> job_moved op j j'"
proof (cases "\<exists>v now. op = Co_Create v now")
  case True
  then obtain v now where op: "op = Co_Create v now" by blast
  show ?thesis
    by (auto simp: op create_job_cases voice_job_of_def find_append new_voice_job_def simp del: channel_step.simps
        split: option.splits)
next
  case False
  then have "jobs_moved op (wd_jobs db) (wd_jobs (channel_step op db))" by (intro step_moves) auto
  from moved_job_of [OF this, where i = i] show ?thesis by (auto split: option.splits)
qed

section \<open>Final outcomes\<close>

text \<open>What is left to happen to a job whose outcome is fixed.\<close>

definition outcomes_left :: "voice_state \<Rightarrow> voice_state set" where
  "outcomes_left st = (if st = V_Reply_Ready then {V_Reply_Ready, V_Completed} else {st})"

lemma fixed_moves:
  assumes "job_moved op j j'" and "vj_state j \<in> fixed_states"
  shows "vj_state j' \<in> outcomes_left (vj_state j)"
  using assms by (auto simp: job_moved_def fixed_states_def outcomes_left_def)

lemma left_fixed: "st \<in> fixed_states \<Longrightarrow> st' \<in> outcomes_left st \<Longrightarrow> st' \<in> fixed_states \<and> outcomes_left st' \<subseteq> outcomes_left st"
  by (auto simp: fixed_states_def outcomes_left_def split: if_splits)

lemma run_fixed:
  "voice_job_of i db = Some j \<Longrightarrow> vj_state j \<in> fixed_states \<Longrightarrow>
    \<exists>j'. voice_job_of i (run_channel ops db) = Some j' \<and> vj_state j' \<in> outcomes_left (vj_state j)"
proof (induction ops arbitrary: db j)
  case Nil
  then show ?case by (simp add: run_channel_def outcomes_left_def)
next
  case (Cons op ops)
  from step_job_of [where i = i and db = db and op = op] Cons.prems(1) obtain j1
    where j1: "voice_job_of i (channel_step op db) = Some j1" "job_moved op j j1" by auto
  from fixed_moves [OF j1(2) Cons.prems(2)] have s: "vj_state j1 \<in> outcomes_left (vj_state j)" .
  from Cons.IH [OF j1(1)] left_fixed [OF Cons.prems(2) s]
  show ?case by (auto simp: run_channel_def)
qed

text \<open>
  The outcome of a voice job is final: whatever callers and restarts do later, a cancelled or completed job and one whose
  handoff to Ring has an unknown outcome stay so, and a job with a reply can only be completed.
\<close>

theorem voice_outcome_is_final:
  assumes "voice_job_of i db = Some j" and "vj_state j \<in> fixed_states"
  shows "\<exists>j'. voice_job_of i (run_channel ops db) = Some j' \<and>
    (vj_state j' = vj_state j \<or> vj_state j = V_Reply_Ready \<and> vj_state j' = V_Completed)"
  using run_fixed [OF assms, of ops] by (auto simp: outcomes_left_def split: if_splits)

section \<open>Handoffs\<close>

text \<open>An operation that hands the voice note to Ring, and one that puts the handoff off to be repeated.\<close>

fun handed :: "string \<Rightarrow> channel_op \<Rightarrow> channel_db \<Rightarrow> bool" where
  "handed i (Co_Handoff j now) db \<longleftrightarrow> i = j \<and> fst (claim_voice_ring_handoff j now db)"
| "handed i op db \<longleftrightarrow> False"

fun deferred :: "string \<Rightarrow> channel_op \<Rightarrow> channel_db \<Rightarrow> bool" where
  "deferred i (Co_Defer j r now) db \<longleftrightarrow>
     i = j \<and> (case defer_idempotent_voice_capture j r now db of Inl e \<Rightarrow> False | Inr p \<Rightarrow> fst p)"
| "deferred i op db \<longleftrightarrow> False"

fun times_of :: "(channel_op \<Rightarrow> channel_db \<Rightarrow> bool) \<Rightarrow> channel_op list \<Rightarrow> channel_db \<Rightarrow> nat" where
  "times_of p [] db = 0"
| "times_of p (op # ops) db = (if p op db then 1 else 0) + times_of p ops (channel_step op db)"

lemma is_job_there:
  assumes "jobs_distinct db"
  shows "0 < count_where (is_job i st) (wd_jobs db) \<longleftrightarrow> job_state i db = Some st"
proof
  assume "0 < count_where (is_job i st) (wd_jobs db)"
  then obtain j where j: "j \<in> set (wd_jobs db)" "vj_id j = i" "vj_state j = st"
    by (auto simp: count_where_def is_job_def filter_empty_conv)
  then have "find (\<lambda>j. vj_id j = i) (wd_jobs db) = Some j"
    using assms by (intro find_unique [where k = vj_id]) (auto simp: jobs_distinct_def)
  with j show "job_state i db = Some st" by (simp add: job_state_def voice_job_of_def)
next
  assume "job_state i db = Some st"
  then obtain j where "find (\<lambda>j. vj_id j = i) (wd_jobs db) = Some j" "vj_state j = st"
    by (auto simp: job_state_def voice_job_of_def)
  then have "j \<in> set (wd_jobs db)" "is_job i st j" by (auto dest: find_Some_iff_in simp: is_job_def)
  then show "0 < count_where (is_job i st) (wd_jobs db)" by (auto simp: count_where_def filter_empty_conv)
qed

lemma updated_state:
  assumes "wd_jobs db' = update_where (is_job i st) f (wd_jobs db)" and "\<And>j. vj_id (f j) = vj_id j"
    and "job_state i db = Some st" and "\<And>j. vj_state (f j) = st'"
  shows "job_state i db' = Some st'"
proof -
  from assms(3) obtain j where j: "voice_job_of i db = Some j" "vj_state j = st" by (auto simp: job_state_def)
  then have "is_job i st j" by (auto simp: voice_job_of_def is_job_def dest: find_Some_iff_in)
  moreover have "voice_job_of i db' = map_option (\<lambda>j. if is_job i st j then f j else j) (voice_job_of i db)"
    unfolding voice_job_of_def assms(1) by (rule find_update_where) (simp_all add: assms(2))
  ultimately show ?thesis using j(1) assms(4) by (simp add: job_state_def)
qed

lemma handoff_state:
  "job_state i db = Some V_Transcribed \<Longrightarrow> job_state i (channel_step (Co_Handoff i now) db) = Some V_Forwarding"
  by (rule updated_state [where f = "\<lambda>j. j\<lparr>vj_state := V_Forwarding, vj_updated := now\<rparr>"])
    (simp_all add: claim_voice_ring_handoff_def)

lemma defer_state:
  assumes "jobs_distinct db" and "job_state i db = Some V_Forwarding" and "bounded_recovery_reply (Some r) = Some b"
  shows "job_state i (channel_step (Co_Defer i r now) db) = Some V_Capture_Retry"
  using assms(2)
proof (rule updated_state [where f = "\<lambda>j. j\<lparr>vj_state := V_Capture_Retry, vj_error := Some b, vj_updated := now\<rparr>", rotated 2])
  show "wd_jobs (channel_step (Co_Defer i r now) db) = update_where (is_job i V_Forwarding)
      (\<lambda>j. j\<lparr>vj_state := V_Capture_Retry, vj_error := Some b, vj_updated := now\<rparr>) (wd_jobs db)"
  proof -
    have "count_where (is_job i V_Forwarding) (wd_jobs db) \<noteq> 0"
      using is_job_there [OF assms(1), of i V_Forwarding] assms(2) by simp
    with assms(3) show ?thesis by (simp add: or_same_snd_def defer_idempotent_voice_capture_def)
  qed
qed simp_all

text \<open>Handoffs and deferrals are the ways into two states.\<close>

lemma handed_iff:
  assumes "jobs_distinct db"
  shows "handed i op db \<longleftrightarrow> job_state i db = Some V_Transcribed \<and> job_state i (channel_step op db) = Some V_Forwarding"
proof
  assume "handed i op db"
  then obtain now where op: "op = Co_Handoff i now" and "fst (claim_voice_ring_handoff i now db)" by (cases op) auto
  then have "job_state i db = Some V_Transcribed"
    using is_job_there [OF assms] by (simp add: claim_voice_ring_handoff_def)
  with handoff_state show "job_state i db = Some V_Transcribed \<and> job_state i (channel_step op db) = Some V_Forwarding"
    unfolding op by blast
next
  assume a: "job_state i db = Some V_Transcribed \<and> job_state i (channel_step op db) = Some V_Forwarding"
  then obtain j where j: "voice_job_of i db = Some j" "vj_state j = V_Transcribed" by (auto simp: job_state_def)
  with step_job_of [where i = i and db = db and op = op] a have "\<exists>now. op = Co_Handoff (vj_id j) now"
    by (auto simp: job_state_def job_moved_def)
  moreover have "vj_id j = i" using j by (auto simp: voice_job_of_def dest: find_Some_iff_in)
  ultimately show "handed i op db" using a is_job_there [OF assms] by (auto simp: claim_voice_ring_handoff_def)
qed

lemma deferred_iff:
  assumes "jobs_distinct db"
  shows "deferred i op db \<longleftrightarrow> job_state i db = Some V_Forwarding \<and> job_state i (channel_step op db) = Some V_Capture_Retry"
proof
  assume "deferred i op db"
  then obtain r now where op: "op = Co_Defer i r now"
    and d: "case defer_idempotent_voice_capture i r now db of Inl e \<Rightarrow> False | Inr p \<Rightarrow> fst p" by (cases op) auto
  then obtain b where b: "bounded_recovery_reply (Some r) = Some b" "0 < count_where (is_job i V_Forwarding) (wd_jobs db)"
    by (auto simp: defer_idempotent_voice_capture_def split: option.splits if_splits)
  then have "job_state i db = Some V_Forwarding" using is_job_there [OF assms] by simp
  with defer_state [OF assms _ b(1)] show "job_state i db = Some V_Forwarding \<and> job_state i (channel_step op db) = Some V_Capture_Retry"
    unfolding op by blast
next
  assume a: "job_state i db = Some V_Forwarding \<and> job_state i (channel_step op db) = Some V_Capture_Retry"
  then obtain j where j: "voice_job_of i db = Some j" "vj_state j = V_Forwarding" by (auto simp: job_state_def)
  with step_job_of [where i = i and db = db and op = op] a have "\<exists>r now. op = Co_Defer (vj_id j) r now"
    by (auto simp: job_state_def job_moved_def)
  moreover have "vj_id j = i" using j by (auto simp: voice_job_of_def dest: find_Some_iff_in)
  ultimately obtain r now where op: "op = Co_Defer i r now" by blast
  have "bounded_recovery_reply (Some r) \<noteq> None"
  proof
    assume "bounded_recovery_reply (Some r) = None"
    then have "channel_step op db = db" by (simp add: op or_same_snd_def defer_idempotent_voice_capture_def)
    with a show False by auto
  qed
  moreover have "0 < count_where (is_job i V_Forwarding) (wd_jobs db)" using a is_job_there [OF assms] by simp
  ultimately show "deferred i op db" by (auto simp: op defer_idempotent_voice_capture_def)
qed

text \<open>How many more handoffs than deferrals a job may have seen, and how many in its state.\<close>

definition open_handoffs :: "voice_state option \<Rightarrow> nat set" where
  "open_handoffs st =
     (case st of None \<Rightarrow> {0}
      | Some s \<Rightarrow>
          if s \<in> {V_Awaiting_Confirmation, V_Queued, V_Transcribing, V_Transcribed, V_Capture_Retry, V_Cancelled} then {0}
          else if s = V_Failed then {0, 1} else {1})"

lemma step_open_handoffs:
  assumes "jobs_distinct db" and "h \<in> open_handoffs (job_state i db)"
  shows "h + (if handed i op db then 1 else 0) - (if deferred i op db then 1 else 0)
      \<in> open_handoffs (job_state i (channel_step op db)) \<and> (deferred i op db \<longrightarrow> h = 1)"
proof (cases "voice_job_of i db")
  case None
  with step_job_of [where i = i and db = db and op = op] assms show ?thesis
    by (auto simp: handed_iff deferred_iff job_state_def open_handoffs_def split: option.splits)
next
  case (Some j)
  with step_job_of [where i = i and db = db and op = op] obtain j'
    where j': "voice_job_of i (channel_step op db) = Some j'" "job_moved op j j'" by auto
  then have "vj_state j' = vj_state j \<or> voice_edge (vj_state j) (vj_state j')" by (simp add: job_moved_def)
  with assms Some j'(1) show ?thesis
    by (cases "vj_state j") (auto simp: handed_iff deferred_iff job_state_def open_handoffs_def)
qed

lemma run_open_handoffs:
  "jobs_distinct db \<Longrightarrow> h \<in> open_handoffs (job_state i db) \<Longrightarrow>
    \<exists>h' \<in> open_handoffs (job_state i (run_channel ops db)). h + times_of (handed i) ops db = h' + times_of (deferred i) ops db"
proof (induction ops arbitrary: db h)
  case Nil
  then show ?case by (auto simp: run_channel_def)
next
  case (Cons op ops)
  let ?h = "h + (if handed i op db then 1 else 0) - (if deferred i op db then 1 else 0)"
  from step_open_handoffs [OF Cons.prems, of op]
  have h: "?h \<in> open_handoffs (job_state i (channel_step op db))" "deferred i op db \<longrightarrow> h = 1" by simp_all
  from Cons.IH [OF step_distinct [OF Cons.prems(1)] h(1)] obtain h'
    where h': "h' \<in> open_handoffs (job_state i (run_channel ops (channel_step op db)))"
      "?h + times_of (handed i) ops (channel_step op db) = h' + times_of (deferred i) ops (channel_step op db)" by blast
  from h'(2) h(2) have "h + times_of (handed i) (op # ops) db = h' + times_of (deferred i) (op # ops) db"
    by (auto split: if_splits)
  with h'(1) show ?case by (auto simp: run_channel_def)
qed

text \<open>A voice note is handed to Ring at most once more often than its handoff was put off to be repeated.\<close>

lemma handoffs_bounded: "times_of (handed i) ops empty_channel \<le> times_of (deferred i) ops empty_channel + 1"
proof -
  have "jobs_distinct empty_channel" "0 \<in> open_handoffs (job_state i empty_channel)"
    by (simp_all add: jobs_distinct_def empty_channel_def job_state_def voice_job_of_def open_handoffs_def)
  from run_open_handoffs [OF this, of ops] show ?thesis
    by (auto simp: open_handoffs_def split: option.splits if_splits)
qed

end
