(* ===== verification/Worker_Props.thy ===== *)
theory Worker_Props
  imports Worker_Invariant Channel_Props
begin

text \<open>
  What the voice worker promises, for any answers, callers, closings and restarts: Ring is called for a note at most once, and
  once more for each time it answered that the call may be repeated.
\<close>

section \<open>The store follows the operations\<close>

lemma times_of_append:
  "times_of p (ops @ [op]) db = times_of p ops db + (if p op (run_channel ops db) then 1 else 0)"
  by (induction ops arbitrary: db) (simp_all add: run_channel_def)

definition handoffs_of :: "string \<Rightarrow> voice_system \<Rightarrow> nat" where
  "handoffs_of i s = times_of (handed i) (vs_ops s) empty_channel"

definition deferrals_of :: "string \<Rightarrow> voice_system \<Rightarrow> nat" where
  "deferrals_of i s = times_of (deferred i) (vs_ops s) empty_channel"

text \<open>
  The calls of Ring are the handoffs, and a deferral has an answer that allows it; \<open>owed\<close> is a note with such an answer that has
  not been used yet.
\<close>

definition tracks :: "string option \<Rightarrow> voice_system \<Rightarrow> bool" where
  "tracks owed s \<longleftrightarrow>
     vs_db s = run_channel (vs_ops s) empty_channel \<and>
     (\<forall>i. handoffs_of i s = count_list (vs_rings s) i \<and>
        deferrals_of i s + (if owed = Some i then 1 else 0) \<le> count_list (vs_repeatable s) i)"

lemma tracks_perform:
  assumes "tracks owed s" and "\<And>i. \<not> handed i op (vs_db s)" and "\<And>i. \<not> deferred i op (vs_db s)"
  shows "tracks owed (perform op s)"
  using assms by (auto simp: tracks_def perform_def handoffs_of_def deferrals_of_def times_of_append run_channel_def)

lemma tracks_fields [simp]:
  "tracks owed (s\<lparr>vs_at := w\<rparr>) = tracks owed s" "tracks owed (s\<lparr>vs_wake := b\<rparr>) = tracks owed s"
  "tracks owed (s\<lparr>vs_last := l\<rparr>) = tracks owed s" "tracks owed (s\<lparr>vs_closed := b\<rparr>) = tracks owed s"
  "tracks owed (s\<lparr>vs_drains := ds\<rparr>) = tracks owed s" "tracks owed (s\<lparr>vs_next_drain := n\<rparr>) = tracks owed s"
  "tracks owed (s\<lparr>vs_texts := ts\<rparr>) = tracks owed s" "tracks owed (s\<lparr>vs_sends := xs\<rparr>) = tracks owed s"
  by (simp_all add: tracks_def handoffs_of_def deferrals_of_def)

lemma tracks_owed: "tracks (Some i) s \<Longrightarrow> tracks None s"
  unfolding tracks_def by (metis add_leD1 add.right_neutral option.distinct(1))

lemma tracks_deferral:
  assumes "tracks (Some i) s"
  shows "tracks None (perform (Co_Defer i r now) s)"
proof -
  let ?s = "perform (Co_Defer i r now) s"
  have db: "vs_db s = run_channel (vs_ops s) empty_channel" using assms by (simp add: tracks_def)
  have "deferrals_of k ?s + 0 \<le> count_list (vs_repeatable s) k" for k
  proof -
    have "deferrals_of k ?s \<le> deferrals_of k s + (if Some i = Some k then 1 else 0)"
      by (simp add: perform_def deferrals_of_def times_of_append)
    also have "\<dots> \<le> count_list (vs_repeatable s) k" using assms by (simp add: tracks_def)
    finally show ?thesis by simp
  qed
  moreover have "handoffs_of k ?s = count_list (vs_rings s) k" for k
    using assms by (simp add: tracks_def perform_def handoffs_of_def times_of_append)
  moreover have "vs_db ?s = run_channel (vs_ops ?s) empty_channel" "vs_rings ?s = vs_rings s" "vs_repeatable ?s = vs_repeatable s"
    using db by (simp_all add: perform_def run_channel_def)
  ultimately show ?thesis by (simp add: tracks_def)
qed

lemma tracks_handoff:
  assumes "tracks None s" and "fst (claim_voice_ring_handoff i now (vs_db s))"
  shows "tracks None ((perform (Co_Handoff i now) s)\<lparr>vs_rings := vs_rings s @ [i]\<rparr>)"
  using assms by (auto simp: tracks_def perform_def handoffs_of_def deferrals_of_def times_of_append run_channel_def)

lemma tracks_plain: "tracks owed s \<Longrightarrow> \<not> ring_op op \<Longrightarrow> tracks owed (perform op s)"
  by (cases op) (auto intro!: tracks_perform)

interpretation ring_calls: worker_invariant "tracks None" "\<lambda>i. tracks (Some i)"
proof unfold_locales
  fix s i now assume "tracks None s" "\<not> fst (claim_voice_ring_handoff i now (vs_db s))"
  then show "tracks None (perform (Co_Handoff i now) s)" by (intro tracks_perform) auto
next
  fix s :: voice_system and i now
  assume "tracks None s" "fst (claim_voice_ring_handoff i now (vs_db s))"
  from tracks_handoff [OF this]
  show "tracks None ((perform (Co_Handoff i now) s)\<lparr>vs_rings := vs_rings (perform (Co_Handoff i now) s) @ [i]\<rparr>)"
    by (simp add: perform_def)
next
  fix s i assume "tracks None s"
  then show "tracks (Some i) (s\<lparr>vs_repeatable := vs_repeatable s @ [i]\<rparr>)"
    by (auto simp: tracks_def handoffs_of_def deferrals_of_def le_SucI)
qed (simp_all add: tracks_owed tracks_deferral tracks_plain)

text \<open>
  C37. Ring is called for a voice note at most once, and at most once more for each time it answered that the call may be repeated,
  under any interleaving of the worker with messages, cancellations, recoveries, exceptions, closing and restarts.
\<close>

theorem ring_is_called_once:
  "count_list (vs_rings (run_voice sha notice moves new_voice_system)) i
     \<le> count_list (vs_repeatable (run_voice sha notice moves new_voice_system)) i + 1"
proof -
  let ?s = "run_voice sha notice moves new_voice_system"
  have "tracks None ?s"
    by (rule ring_calls.run_keeps_worker) (simp add: tracks_def new_voice_system_def handoffs_of_def deferrals_of_def run_channel_def)
  then have "handoffs_of i ?s = count_list (vs_rings ?s) i" "deferrals_of i ?s \<le> count_list (vs_repeatable ?s) i"
    by (simp_all add: tracks_def)
  moreover have "handoffs_of i ?s \<le> deferrals_of i ?s + 1"
    using handoffs_bounded [of i "vs_ops ?s"] by (simp add: handoffs_of_def deferrals_of_def)
  ultimately show ?thesis by simp
qed

end
