(* ===== verification/Worker_Sends.thy ===== *)
theory Worker_Sends
  imports Worker_Invariant
begin

text \<open>
  Messages that the recovery loop sends again, after an error or a restart, carry the id of the first time: the id is stored with
  the intent before the provider is called, and no operation changes it.
\<close>

definition provider_of :: "string \<Rightarrow> channel_db \<Rightarrow> string option" where
  "provider_of i db = map_option oi_provider_id (outbound_intent_by_id i db)"

definition intents_kept :: "channel_db \<Rightarrow> channel_db \<Rightarrow> bool" where
  "intents_kept db db' \<longleftrightarrow> (\<forall>i p. provider_of i db = Some p \<longrightarrow> provider_of i db' = Some p)"

lemma same_intents: "wd_intents db' = wd_intents db \<Longrightarrow> intents_kept db db'"
  by (simp add: intents_kept_def provider_of_def outbound_intent_by_id_def)

lemma intents_kept_trans: "intents_kept a b \<Longrightarrow> intents_kept b c \<Longrightarrow> intents_kept a c"
  by (simp add: intents_kept_def)

lemma updated_intents:
  assumes "wd_intents db' = update_where p f (wd_intents db)" and "\<And>q. oi_id (f q) = oi_id q" "\<And>q. oi_provider_id (f q) = oi_provider_id q"
  shows "intents_kept db db'"
proof -
  have "outbound_intent_by_id i db' = map_option (\<lambda>q. if p q then f q else q) (outbound_intent_by_id i db)" for i
    unfolding outbound_intent_by_id_def assms(1) by (rule find_update_where) (simp_all add: assms(2))
  then have "provider_of i db' = provider_of i db" for i
    by (simp add: provider_of_def option.map_comp comp_def assms(3) if_distrib [of oi_provider_id] cong: option.map_cong if_cong)
  then show ?thesis by (simp add: intents_kept_def)
qed

lemma appended_intents: "wd_intents db' = wd_intents db @ [q] \<Longrightarrow> intents_kept db db'"
  by (auto simp: intents_kept_def provider_of_def outbound_intent_by_id_def find_append)

lemma fold_settle_intents [simp]: "wd_intents (fold (\<lambda>i. settle_claims i m now) is db) = wd_intents db"
  by (induction "is" arbitrary: db) simp_all

lemma fold_recovery_intents [simp]: "wd_intents (fold (\<lambda>m. add_recovery p (g m)) ms db) = wd_intents db"
  by (induction ms arbitrary: db) simp_all

lemma audit_intents [simp]:
  "wd_intents (upsert_audit i now f db) = wd_intents db" "wd_intents (mark_message_status i status now db) = wd_intents db"
  by (simp_all add: upsert_audit_def mark_message_status_def Let_def split: option.splits)

lemma coalesced_intents:
  "record_coalesced_channel_forwarding i owner sha sender t now db = Inr db' \<Longrightarrow> wd_intents db' = wd_intents db"
  by (auto simp: record_coalesced_channel_forwarding_def split: option.splits if_splits)

lemma reconcile_intents [simp]: "wd_intents (snd (reconcile_followers owner cs now db)) = wd_intents db"
  by (induction owner cs now db rule: reconcile_followers.induct) (auto dest: coalesced_intents split: sum.splits)

lemma inbound_intents [simp]: "wd_intents (snd (record_inbound e now db)) = wd_intents db"
  by (simp add: record_inbound_def upsert_chat_def upsert_contact_def insert_media_def Let_def)

lemma open_intents [simp]: "wd_intents (open_channel_store now db) = wd_intents db"
proof -
  have "wd_intents (restart_messages now db) = wd_intents db" "wd_intents (restart_recoveries now db) = wd_intents db"
    "wd_intents (restart_claims now db) = wd_intents db" "wd_intents (restart_jobs now db) = wd_intents db" for db
    unfolding restart_messages_def restart_recoveries_def restart_claims_def restart_jobs_def Let_def
      update_messages_fields update_audits_fields update_recoveries_fields update_claims_fields update_jobs_fields
      fold_recovery_intents by simp_all
  then show ?thesis by (simp add: open_channel_store_def)
qed

lemma job_op_intents [simp]:
  "wd_intents (snd (claim_next_voice_job served now db)) = wd_intents db"
  "wd_intents (snd (confirm_latest_voice_job t c now db)) = wd_intents db"
  "wd_intents (snd (cancel_latest_voice_job t c now db)) = wd_intents db"
proof -
  show "wd_intents (snd (claim_next_voice_job served now db)) = wd_intents db"
    by (cases "next_voice_job served db") (auto simp: claim_next_voice_job_def Let_def)
  show "wd_intents (snd (confirm_latest_voice_job t c now db)) = wd_intents db"
    by (cases "latest_scoped_job t c {V_Awaiting_Confirmation} db")
      (simp_all add: confirm_latest_voice_job_def transition_latest_job_def Let_def)
  show "wd_intents (snd (cancel_latest_voice_job t c now db)) = wd_intents db"
    by (cases "latest_scoped_job t c cancellable_states db") (simp_all add: cancel_latest_voice_job_def Let_def)
qed

lemma job_result_intents [simp]:
  "wd_intents (or_same db (create_voice_job_row v now db)) = wd_intents db"
  "wd_intents (or_same db (complete_voice_ring_handoff i reply now db)) = wd_intents db"
  "wd_intents (or_same db (queue_voice_failure_reply i reply now g db)) = wd_intents db"
  "wd_intents (or_same_snd db (defer_idempotent_voice_capture i reply now db)) = wd_intents db"
  by (simp_all add: or_same_def or_same_snd_def create_voice_job_row_def complete_voice_ring_handoff_def
      queue_voice_failure_reply_def defer_idempotent_voice_capture_def Let_def split: option.splits)

lemma other_job_intents [simp]:
  "wd_intents (mark_voice_ring_outcome_unknown i now db) = wd_intents db"
  "wd_intents (snd (resume_idempotent_voice_captures t now db)) = wd_intents db"
  "wd_intents (fail_voice_job i e now db) = wd_intents db"
  by (simp_all add: mark_voice_ring_outcome_unknown_def resume_idempotent_voice_captures_def fail_voice_job_def Let_def)

lemma media_op_intents [simp]:
  "wd_intents (or_same_snd db (claim_media_coalescing v now db)) = wd_intents db"
  "wd_intents (or_same db (record_coalesced_channel_forwarding i owner sha sender t now db)) = wd_intents db"
  "wd_intents (record_channel_timing i t now db) = wd_intents db"
  "wd_intents (snd (claim_interrupted_media_recovery now db)) = wd_intents db"
  "wd_intents (record_outbound_audit a now db) = wd_intents db"
  by (auto simp: or_same_def or_same_snd_def claim_media_coalescing_def record_channel_timing_def
      claim_interrupted_media_recovery_def record_outbound_audit_def Let_def dest: coalesced_intents split: option.splits sum.splits)

lemma prepared_intents: "intents_kept db (or_same_snd db (prepare_outbound_intent sha v now db))"
proof -
  have "wd_intents (or_same_snd db (prepare_outbound_intent sha v now db)) \<in> {wd_intents db, wd_intents db @ [new_intent sha v now]}"
    by (auto simp: or_same_snd_def prepare_outbound_intent_def Let_def split: option.splits)
  then show ?thesis using same_intents appended_intents by blast
qed

lemma completed_intents:
  "intents_kept db (complete_interrupted_media_recovery c out now db)"
  "intents_kept db (or_same_snd db (complete_outbound_intent q sent now db))"
  "intents_kept db (record_outbound_intent_failure q e now db)"
proof -
  have "wd_intents (complete_interrupted_media_recovery c out now db) = wd_intents (send_intent out now db)"
    by (simp add: complete_interrupted_media_recovery_def Let_def)
  moreover have "intents_kept db (send_intent out now db)"
  proof (cases out)
    case (Sent_As sent i)
    show ?thesis unfolding Sent_As send_intent_def recovery_outcome.case
      by (rule updated_intents [where f = "sent_row sent now"]) (simp_all add: sent_row_def)
  qed (simp add: send_intent_def same_intents)
  ultimately show "intents_kept db (complete_interrupted_media_recovery c out now db)"
    using same_intents intents_kept_trans by blast
  have "wd_intents (or_same_snd db (complete_outbound_intent q sent now db)) \<in>
      {wd_intents db, update_where (pending_intent (oi_id q)) (sent_row (js_trim sent) now) (wd_intents db)}"
    by (auto simp: or_same_snd_def complete_outbound_intent_def Let_def split: option.splits)
  then show "intents_kept db (or_same_snd db (complete_outbound_intent q sent now db))"
    by (auto intro: same_intents updated_intents simp: sent_row_def)
  show "intents_kept db (record_outbound_intent_failure q e now db)"
  proof (cases "count_where (pending_intent (oi_id q)) (wd_intents db) = 0")
    case False
    then have "wd_intents (record_outbound_intent_failure q e now db) =
        update_where (pending_intent (oi_id q)) (\<lambda>r. r\<lparr>oi_error := Some e, oi_updated := now\<rparr>) (wd_intents db)"
      by (simp add: record_outbound_intent_failure_def)
    then show ?thesis by (rule updated_intents) simp_all
  qed (simp add: record_outbound_intent_failure_def same_intents)
qed

lemma step_intents: "intents_kept db (channel_step op db)"
proof (cases "(\<exists>sha v now. op = Co_Prepare sha v now) \<or> (\<exists>c out now. op = Co_Complete_Recovery c out now) \<or>
    (\<exists>q sent now. op = Co_Sent q sent now) \<or> (\<exists>q e now. op = Co_Not_Sent q e now)")
  case True
  then show ?thesis by (elim disjE exE) (simp_all add: prepared_intents completed_intents)
next
  case False
  then have "wd_intents (channel_step op db) = wd_intents db"
    by (cases op) (simp_all add: persist_voice_transcript_def requeue_interrupted_voice_job_def claim_voice_ring_handoff_def
        reconcile_voice_coalesced_followers_def complete_media_coalescing_def record_channel_forwarding_def
        record_channel_failure_def record_inbound_transcript_def mark_media_storage_status_def record_ported_receipt_delivery_def)
  then show ?thesis by (rule same_intents)
qed

section \<open>Sends\<close>

definition sends_ok :: "voice_system \<Rightarrow> bool" where
  "sends_ok s \<longleftrightarrow> (\<forall>x \<in> set (vs_sends s). provider_of (fst x) (vs_db s) = Some (snd x))"

lemma sends_perform: "sends_ok s \<Longrightarrow> sends_ok (perform op s)"
  using step_intents [of "vs_db s" op] by (simp add: sends_ok_def perform_def intents_kept_def)

text \<open>A message is sent after its intent was prepared, which put its id and provider id into the table.\<close>

lemma prepared_provider:
  assumes "prepare_outbound_intent sha v now db = Inr (q, db')"
  shows "provider_of (oi_id q) (channel_step (Co_Prepare sha v now) db) = Some (oi_provider_id q)"
proof -
  from assms have q: "outbound_intent_by_id (oi_id (new_intent sha v now)) db' = Some q"
    and step: "channel_step (Co_Prepare sha v now) db = db'"
    by (auto simp: prepare_outbound_intent_def Let_def or_same_snd_def split: if_splits option.splits)
  from q have "oi_id q = oi_id (new_intent sha v now)" by (auto simp: outbound_intent_by_id_def dest: find_Some_iff_in)
  with q step show ?thesis by (simp add: provider_of_def)
qed

interpretation provider_ids: worker_invariant sends_ok "\<lambda>i. sends_ok"
proof unfold_locales
  fix s sha v now q db'
  assume s: "sends_ok s" and p: "prepare_outbound_intent sha v now (vs_db s) = Inr (q, db')"
  show "sends_ok ((perform (Co_Prepare sha v now) s)
      \<lparr>vs_sends := vs_sends (perform (Co_Prepare sha v now) s) @ [(oi_id q, oi_provider_id q)]\<rparr>)"
    using sends_perform [OF s, of "Co_Prepare sha v now"] prepared_provider [OF p]
    by (simp add: sends_ok_def) (simp add: perform_def)
next
  fix s :: voice_system and i now assume "sends_ok s"
  from sends_perform [OF this]
  show "sends_ok ((perform (Co_Handoff i now) s)\<lparr>vs_rings := vs_rings (perform (Co_Handoff i now) s) @ [i]\<rparr>)"
    by (simp add: sends_ok_def)
qed (simp_all add: sends_perform, simp_all add: sends_ok_def)

text \<open>
  C40. A recovery message that is handed to the provider again, after an error or a restart in between, carries the provider id of the
  first time, whatever id was drawn for it now, so that the provider can tell it is the same message; that id is stored with its
  intent. The same message is one with the same source, recipient, contact, text, status, tenant and eligibility for a receipt.
\<close>

theorem resent_message_keeps_its_id:
  assumes "(oi_id (new_intent sha v now), p) \<in> set (vs_sends (run_voice sha notice moves new_voice_system))"
    and "(oi_id (new_intent sha (v\<lparr>ii_provider_id := x\<rparr>) later), q) \<in> set (vs_sends (run_voice sha notice moves new_voice_system))"
  shows "p = q \<and> provider_of (oi_id (new_intent sha v now)) (vs_db (run_voice sha notice moves new_voice_system)) = Some p"
proof -
  have "sends_ok (run_voice sha notice moves new_voice_system)"
    by (rule provider_ids.run_keeps_worker) (simp add: sends_ok_def new_voice_system_def)
  note ok = this [unfolded sends_ok_def, THEN bspec]
  have "oi_id (new_intent sha (v\<lparr>ii_provider_id := x\<rparr>) later) = oi_id (new_intent sha v now)"
    by (simp add: new_intent_def intent_text_def)
  with ok [OF assms(1)] ok [OF assms(2)] show ?thesis by simp
qed

end
