(* ===== verification/Channel_Restart.thy ===== *)
theory Channel_Restart
  imports Channel_Ops
begin

text \<open>
  What opening the channel store after a restart achieves: nothing is left at a boundary whose outcome nobody will learn, and
  a second restart finds nothing to do.
\<close>

section \<open>Settled tables\<close>

definition delivered_to :: "string \<Rightarrow> channel_db \<Rightarrow> bool" where
  "delivered_to i db \<longleftrightarrow> list_ex (\<lambda>a. ca_id a = i \<and> delivered a) (wd_audits db)"

definition jobs_settled :: "channel_db \<Rightarrow> bool" where
  "jobs_settled db \<longleftrightarrow> (\<forall>j \<in> set (wd_jobs db). vj_state j \<notin> {V_Transcribing, V_Forwarding})"

definition claims_settled :: "channel_db \<Rightarrow> bool" where
  "claims_settled db \<longleftrightarrow>
     (\<forall>c \<in> set (wd_claims db). mc_state c = M_Processing \<longrightarrow>
        waits_for_worker (mc_canonical c) db \<and> \<not> delivered_to (mc_canonical c) db)"

definition recoveries_settled :: "channel_db \<Rightarrow> bool" where
  "recoveries_settled db \<longleftrightarrow> (\<forall>r \<in> set (wd_recoveries db). mr_state r \<noteq> R_Claimed)"

definition messages_settled :: "channel_db \<Rightarrow> bool" where
  "messages_settled db \<longleftrightarrow>
     (\<forall>m \<in> set (wd_messages db). wm_status m = ''processing'' \<longrightarrow> waits_for_worker (wm_id m) db \<and> \<not> delivered_to (wm_id m) db)"

definition audits_settled :: "channel_db \<Rightarrow> bool" where
  "audits_settled db \<longleftrightarrow>
     (\<forall>a \<in> set (wd_audits db). ca_lifecycle a = Lc_Forwarded \<longrightarrow>
        \<not> delivered a \<and> \<not> list_ex (\<lambda>m. wm_id m = ca_id a \<and> wm_status m = ''interrupted'') (wd_messages db))"

definition settled_after_restart :: "channel_db \<Rightarrow> bool" where
  "settled_after_restart db \<longleftrightarrow>
     jobs_settled db \<and> claims_settled db \<and> recoveries_settled db \<and> messages_settled db \<and> audits_settled db"

section \<open>A restart of settled tables\<close>

lemma update_no_row: "(\<And>r. r \<in> set rows \<Longrightarrow> \<not> p r) \<Longrightarrow> update_where p f rows = rows"
  unfolding update_where_def by (induction rows) auto

lemma update_jobs_none: "(\<And>j. j \<in> set (wd_jobs db) \<Longrightarrow> \<not> p j) \<Longrightarrow> update_jobs p f db = db"
  by (simp add: update_jobs_def update_no_row)

lemma update_claims_none: "(\<And>j. j \<in> set (wd_claims db) \<Longrightarrow> \<not> p j) \<Longrightarrow> update_claims p f db = db"
  by (simp add: update_claims_def update_no_row)

lemma update_messages_none: "(\<And>j. j \<in> set (wd_messages db) \<Longrightarrow> \<not> p j) \<Longrightarrow> update_messages p f db = db"
  by (simp add: update_messages_def update_no_row)

lemma update_audits_none: "(\<And>j. j \<in> set (wd_audits db) \<Longrightarrow> \<not> p j) \<Longrightarrow> update_audits p f db = db"
  by (simp add: update_audits_def update_no_row)

lemma update_recoveries_none: "(\<And>j. j \<in> set (wd_recoveries db) \<Longrightarrow> \<not> p j) \<Longrightarrow> update_recoveries p f db = db"
  by (simp add: update_recoveries_def update_no_row)

lemma restart_jobs_settled: "jobs_settled db \<Longrightarrow> restart_jobs now db = db"
  by (simp add: restart_jobs_def Let_def jobs_settled_def update_jobs_none)

lemma restart_claims_settled: "claims_settled db \<Longrightarrow> restart_claims now db = db"
proof -
  assume s: "claims_settled db"
  have "update_claims (\<lambda>c. mc_state c = M_Processing \<and> list_ex (\<lambda>a. ca_id a = mc_canonical c \<and> delivered a) (wd_audits db))
      (\<lambda>c. c\<lparr>mc_state := M_Completed, mc_updated := now\<rparr>) db = db"
    using s by (intro update_claims_none) (auto simp: claims_settled_def delivered_to_def)
  moreover have "update_claims (\<lambda>c. mc_state c = M_Processing \<and> \<not> waits_for_worker (mc_canonical c) db)
      (\<lambda>c. c\<lparr>mc_state := M_Failed, mc_updated := now\<rparr>) db = db"
    using s by (intro update_claims_none) (auto simp: claims_settled_def)
  ultimately show ?thesis unfolding restart_claims_def Let_def by (simp only:)
qed

lemma restart_recoveries_settled:
  assumes "recoveries_settled db"
  shows "restart_recoveries now db = db"
proof -
  have none: "\<not> (mr_state r = R_Claimed)" if "r \<in> set (wd_recoveries db)" for r
    using assms that by (simp add: recoveries_settled_def)
  then have "filter (lost_recovery db) (wd_recoveries db) = []"
    by (simp add: filter_empty_conv lost_recovery_def)
  then show ?thesis
    using none by (simp add: restart_recoveries_def Let_def lost_recovery_def update_recoveries_none update_audits_none update_messages_none)
qed

lemma restart_messages_settled:
  assumes "messages_settled db" and "audits_settled db"
  shows "restart_messages now db = db"
proof -
  have m: "waits_for_worker (wm_id m) db" "\<not> delivered_to (wm_id m) db" if "m \<in> set (wd_messages db)" "wm_status m = ''processing''" for m
    using assms(1) that by (simp_all add: messages_settled_def)
  then have "update_messages (\<lambda>m. wm_status m = ''processing'' \<and> list_ex (\<lambda>a. ca_id a = wm_id m \<and> delivered a) (wd_audits db))
      (\<lambda>m. m\<lparr>wm_status := ''replied''\<rparr>) db = db"
    by (intro update_messages_none) (auto simp: delivered_to_def)
  moreover have "update_audits (\<lambda>a. ca_lifecycle a = Lc_Forwarded \<and> delivered a) (\<lambda>a. a\<lparr>ca_lifecycle := Lc_Replied, ca_updated := now\<rparr>) db = db"
    using assms(2) by (intro update_audits_none) (auto simp: audits_settled_def)
  moreover have "filter (\<lambda>m. wm_status m = ''processing'' \<and> wm_has_media m \<and> \<not> waits_for_worker (wm_id m) db) (wd_messages db) = []"
    using m(1) by (auto simp: filter_empty_conv)
  moreover have "update_messages (\<lambda>m. wm_status m = ''processing'' \<and> \<not> waits_for_worker (wm_id m) db) (\<lambda>m. m\<lparr>wm_status := ''interrupted''\<rparr>) db = db"
    using m(1) by (intro update_messages_none) auto
  moreover have "update_audits (\<lambda>a. ca_lifecycle a = Lc_Forwarded \<and>
      list_ex (\<lambda>m. wm_id m = ca_id a \<and> wm_status m = ''interrupted'') (wd_messages db))
      (\<lambda>a. a\<lparr>ca_lifecycle := Lc_Interrupted, ca_updated := now\<rparr>) db = db"
    using assms(2) by (intro update_audits_none) (auto simp: audits_settled_def)
  ultimately show ?thesis unfolding restart_messages_def Let_def by (simp only: fold_simps)
qed

lemma open_settled: "settled_after_restart db \<Longrightarrow> open_channel_store now db = db"
  by (simp add: settled_after_restart_def open_channel_store_def restart_jobs_settled restart_claims_settled
      restart_recoveries_settled restart_messages_settled)

section \<open>What a restart settles\<close>

lemma update_where_all:
  assumes "\<And>r. r \<in> set rows \<Longrightarrow> p r \<Longrightarrow> P (f r)" and "\<And>r. r \<in> set rows \<Longrightarrow> \<not> p r \<Longrightarrow> P r"
  shows "\<forall>r \<in> set (update_where p f rows). P r"
  using assms by (auto simp: update_where_def)

lemma restart_settles_jobs: "jobs_settled (restart_jobs now db)"
proof -
  let ?js = "update_where (\<lambda>j. vj_state j = V_Transcribing) (\<lambda>j. j\<lparr>vj_state := V_Queued, vj_error := None, vj_updated := now\<rparr>) (wd_jobs db)"
  have one: "\<forall>j \<in> set ?js. vj_state j \<noteq> V_Transcribing" by (rule update_where_all) simp_all
  have two: "\<forall>j \<in> set (update_where p (\<lambda>j. j\<lparr>vj_state := V_Reply_Ready, vj_reply := g j, vj_error := None, vj_updated := now\<rparr>) ?js).
      vj_state j \<noteq> V_Transcribing" for p g
    by (rule update_where_all) (use one in simp_all)
  show ?thesis
    unfolding jobs_settled_def restart_jobs_def Let_def update_jobs_fields by (rule update_where_all) (use two in auto)
qed

lemma restart_settles_claims: "claims_settled (restart_claims now db)"
proof -
  have one: "\<forall>c \<in> set (update_where (\<lambda>c. mc_state c = M_Processing \<and> list_ex (\<lambda>a. ca_id a = mc_canonical c \<and> delivered a) (wd_audits db))
      (\<lambda>c. c\<lparr>mc_state := M_Completed, mc_updated := now\<rparr>) (wd_claims db)).
      mc_state c = M_Processing \<longrightarrow> \<not> delivered_to (mc_canonical c) db"
    by (rule update_where_all) (auto simp: delivered_to_def)
  show ?thesis
    unfolding claims_settled_def restart_claims_def Let_def update_claims_fields
    by (rule update_where_all) (use one in \<open>auto simp: delivered_to_def waits_for_worker_def\<close>)
qed

lemma restart_settles_recoveries: "recoveries_settled (restart_recoveries now db)"
proof -
  have one: "\<forall>r \<in> set (update_where (lost_recovery d)
      (\<lambda>r. r\<lparr>mr_state := R_Send_Failed, mr_error := coalesce_text (mr_error r) e, mr_completed := Some now, mr_updated := now\<rparr>) rows).
      mr_state r = R_Claimed \<longrightarrow> resumable_recovery d r" for d e rows
    by (rule update_where_all) (auto simp: lost_recovery_def)
  have same: "resumable_recovery (update_recoveries p f d) r = resumable_recovery d r" for p f d r
    by (simp add: resumable_recovery_def audit_of_def)
  show ?thesis
    unfolding recoveries_settled_def restart_recoveries_def Let_def update_recoveries_fields
    by (rule update_where_all) (auto simp: same dest!: one [THEN bspec])
qed

text \<open>The last part of a restart leaves jobs and claims alone, and the deliveries.\<close>

lemma delivered_after_update:
  assumes "\<And>a. ca_id (f a) = ca_id a" and "\<And>a. delivered (f a) = delivered a"
  shows "delivered_to i (update_audits p f db) = delivered_to i db"
proof -
  have "list_ex (\<lambda>a. ca_id a = i \<and> delivered a) (update_where p f rows) = list_ex (\<lambda>a. ca_id a = i \<and> delivered a) rows" for rows
    by (induction rows) (simp_all add: update_where_def assms)
  then show ?thesis by (simp add: delivered_to_def)
qed

lemma delivered_after_messages [simp]:
  "delivered_to i (update_messages p f db) = delivered_to i db" "waits_for_worker i (update_messages p f db) = waits_for_worker i db"
  "waits_for_worker i (update_audits p' f' db) = waits_for_worker i db"
  by (simp_all add: delivered_to_def waits_for_worker_def)

lemma delivered_after_recoveries [simp]:
  "delivered_to i (fold (\<lambda>m. add_recovery p (g m)) ms db) = delivered_to i db"
  "waits_for_worker i (fold (\<lambda>m. add_recovery p (g m)) ms db) = waits_for_worker i db"
  by (simp_all add: delivered_to_def waits_for_worker_def)

text \<open>The statements of the last part, one after the other.\<close>

definition mark_replied :: "int \<Rightarrow> channel_db \<Rightarrow> channel_db" where
  "mark_replied now db =
     update_audits (\<lambda>a. ca_lifecycle a = Lc_Forwarded \<and> delivered a) (\<lambda>a. a\<lparr>ca_lifecycle := Lc_Replied, ca_updated := now\<rparr>)
       (update_messages (\<lambda>m. wm_status m = ''processing'' \<and> list_ex (\<lambda>a. ca_id a = wm_id m \<and> delivered a) (wd_audits db))
         (\<lambda>m. m\<lparr>wm_status := ''replied''\<rparr>) db)"

definition cut_off :: "channel_db \<Rightarrow> channel_message list" where
  "cut_off db = filter (\<lambda>m. wm_status m = ''processing'' \<and> wm_has_media m \<and> \<not> waits_for_worker (wm_id m) db) (wd_messages db)"

definition queue_notices :: "int \<Rightarrow> channel_db \<Rightarrow> channel_db" where
  "queue_notices now db = fold (\<lambda>m. add_recovery (\<lambda>r. False) (restart_recovery_of now db m)) (cut_off db) db"

definition mark_interrupted :: "int \<Rightarrow> channel_db \<Rightarrow> channel_db" where
  "mark_interrupted now db =
     (let db1 = update_messages (\<lambda>m. wm_status m = ''processing'' \<and> \<not> waits_for_worker (wm_id m) db) (\<lambda>m. m\<lparr>wm_status := ''interrupted''\<rparr>) db
      in update_audits (\<lambda>a. ca_lifecycle a = Lc_Forwarded \<and> list_ex (\<lambda>m. wm_id m = ca_id a \<and> wm_status m = ''interrupted'') (wd_messages db1))
        (\<lambda>a. a\<lparr>ca_lifecycle := Lc_Interrupted, ca_updated := now\<rparr>) db1)"

lemma restart_messages_alt: "restart_messages now db = mark_interrupted now (queue_notices now (mark_replied now db))"
  by (simp add: restart_messages_def mark_interrupted_def queue_notices_def mark_replied_def cut_off_def Let_def)

lemma mark_replied_facts:
  "\<forall>m \<in> set (wd_messages (mark_replied now db)). wm_status m = ''processing'' \<longrightarrow> \<not> delivered_to (wm_id m) (mark_replied now db)"
  "\<forall>a \<in> set (wd_audits (mark_replied now db)). ca_lifecycle a = Lc_Forwarded \<longrightarrow> \<not> delivered a"
proof -
  have d: "delivered_to i (mark_replied now db) = delivered_to i db" for i
    unfolding mark_replied_def by (subst delivered_after_update) (simp_all add: delivered_def)
  show "\<forall>m \<in> set (wd_messages (mark_replied now db)). wm_status m = ''processing'' \<longrightarrow> \<not> delivered_to (wm_id m) (mark_replied now db)"
    unfolding d unfolding mark_replied_def update_audits_fields update_messages_fields
    by (rule update_where_all) (auto simp: delivered_to_def)
  show "\<forall>a \<in> set (wd_audits (mark_replied now db)). ca_lifecycle a = Lc_Forwarded \<longrightarrow> \<not> delivered a"
    unfolding mark_replied_def update_audits_fields update_messages_fields
    by (rule update_where_all) (auto simp: delivered_def)
qed

lemma queue_notices_fields [simp]:
  "wd_jobs (queue_notices now db) = wd_jobs db" "wd_messages (queue_notices now db) = wd_messages db"
  "wd_audits (queue_notices now db) = wd_audits db" "wd_claims (queue_notices now db) = wd_claims db"
  by (simp_all add: queue_notices_def)

lemma mark_interrupted_settles:
  assumes m: "\<forall>m \<in> set (wd_messages db). wm_status m = ''processing'' \<longrightarrow> \<not> delivered_to (wm_id m) db"
    and a: "\<forall>a \<in> set (wd_audits db). ca_lifecycle a = Lc_Forwarded \<longrightarrow> \<not> delivered a"
  shows "messages_settled (mark_interrupted now db)" and "audits_settled (mark_interrupted now db)"
proof -
  have d: "delivered_to i (mark_interrupted now db) = delivered_to i db" for i
    unfolding mark_interrupted_def Let_def by (subst delivered_after_update) (simp_all add: delivered_def)
  have w: "waits_for_worker i (mark_interrupted now db) = waits_for_worker i db" for i
    by (simp add: mark_interrupted_def Let_def)
  show "messages_settled (mark_interrupted now db)"
    unfolding messages_settled_def d w unfolding mark_interrupted_def Let_def update_audits_fields update_messages_fields
    by (rule update_where_all) (use m in auto)
  have msgs: "wd_messages (mark_interrupted now db) =
      update_where (\<lambda>m. wm_status m = ''processing'' \<and> \<not> waits_for_worker (wm_id m) db) (\<lambda>m. m\<lparr>wm_status := ''interrupted''\<rparr>) (wd_messages db)"
    by (simp add: mark_interrupted_def Let_def)
  show "audits_settled (mark_interrupted now db)"
    unfolding audits_settled_def msgs unfolding mark_interrupted_def Let_def update_audits_fields update_messages_fields
    by (rule update_where_all) (use a in auto)
qed

lemma restart_settles_messages:
  "messages_settled (restart_messages now db)" "audits_settled (restart_messages now db)"
  using mark_interrupted_settles [of "queue_notices now (mark_replied now db)"] mark_replied_facts [of now db]
  by (simp_all add: restart_messages_alt delivered_to_def)

section \<open>Restarts\<close>

lemma waits_after_restart:
  "wd_jobs (restart_claims now db) = wd_jobs db" "wd_jobs (restart_recoveries now db) = wd_jobs db"
  "wd_jobs (restart_messages now db) = wd_jobs db" "wd_claims (restart_recoveries now db) = wd_claims db"
  "wd_claims (restart_messages now db) = wd_claims db"
  by (simp_all add: restart_claims_def restart_recoveries_def restart_messages_def Let_def)

lemma less_delivered:
  assumes "delivered_to i (restart_recoveries now db)"
  shows "delivered_to i db"
proof -
  have "list_ex (\<lambda>a. ca_id a = i \<and> delivered a) rows"
    if "list_ex (\<lambda>a. ca_id a = i \<and> delivered a) (update_where p
      (\<lambda>a. a\<lparr>ca_lifecycle := Lc_Failed, ca_outbound_status := Some ''recovery_unknown'', ca_updated := now\<rparr>) rows)" for p rows
    using that by (induction rows) (auto simp: update_where_def delivered_def split: if_splits)
  with assms show ?thesis by (simp add: delivered_to_def restart_recoveries_def Let_def)
qed

lemma delivered_messages: "delivered_to i (restart_messages now db) = delivered_to i db"
proof -
  have "delivered_to i (mark_interrupted now db) = delivered_to i db" for db
    unfolding mark_interrupted_def Let_def by (subst delivered_after_update) (simp_all add: delivered_def)
  moreover have "delivered_to i (mark_replied now db) = delivered_to i db" for db
    unfolding mark_replied_def by (subst delivered_after_update) (simp_all add: delivered_def)
  moreover have "delivered_to i (queue_notices now db) = delivered_to i db" for db by (simp add: delivered_to_def)
  ultimately show ?thesis by (simp add: restart_messages_alt)
qed

lemma unclaimed_after_notices:
  assumes "recoveries_settled db"
  shows "recoveries_settled (restart_messages now db)"
proof -
  have add: "recoveries_settled (add_recovery p r d)" if "recoveries_settled d" "mr_state r \<noteq> R_Claimed" for p r d
    using that by (auto simp: recoveries_settled_def add_recovery_def in_update_where split: if_splits)
  have new: "mr_state (restart_recovery_of now d m) \<noteq> R_Claimed" for d m
    by (simp add: restart_recovery_of_def new_recovery_def split: option.splits)
  have run: "recoveries_settled (fold (\<lambda>m. add_recovery p (restart_recovery_of now d m)) ms d')" if "recoveries_settled d'" for p d ms d'
    using that by (induction ms arbitrary: d') (simp_all add: add new)
  have "recoveries_settled (mark_replied now db)" using assms by (simp add: recoveries_settled_def mark_replied_def)
  then have "recoveries_settled (queue_notices now (mark_replied now db))" unfolding queue_notices_def by (rule run)
  then show ?thesis
    by (simp add: restart_messages_alt mark_interrupted_def Let_def recoveries_settled_def)
qed

lemma restart_settles: "settled_after_restart (open_channel_store now db)"
proof -
  let ?j = "restart_jobs now db"
  let ?c = "restart_claims now ?j"
  let ?r = "restart_recoveries now ?c"
  have "jobs_settled (restart_messages now ?r)"
    using restart_settles_jobs [of now db] by (simp add: jobs_settled_def waits_after_restart)
  moreover have "claims_settled (restart_messages now ?r)"
    using restart_settles_claims [of now ?j] less_delivered [of _ now ?c]
    by (auto simp: claims_settled_def waits_after_restart delivered_messages waits_for_worker_def)
  moreover have "recoveries_settled (restart_messages now ?r)" by (rule unclaimed_after_notices [OF restart_settles_recoveries])
  ultimately show ?thesis by (simp add: settled_after_restart_def open_channel_store_def restart_settles_messages)
qed

text \<open>
  C38. A restart right after a restart finds nothing to do, whatever was in the tables: no note or recovery is left half done, so
  a process that keeps crashing at its start neither sends anything twice nor changes an outcome again.
\<close>

theorem restart_is_idempotent: "open_channel_store later (open_channel_store now db) = open_channel_store now db"
  by (rule open_settled [OF restart_settles])

section \<open>Interrupted media\<close>

text \<open>
  What is recorded for a message: the recovery it had keeps its text, and what a claim of it was about to send is pending again;
  a message without a recovery gets a pending one with the reply that is stored for it, or with the notice.
\<close>

definition answer_recorded :: "string \<Rightarrow> channel_db \<Rightarrow> channel_db \<Rightarrow> bool" where
  "answer_recorded i db db' \<longleftrightarrow>
     (\<exists>r'. media_recovery_of i db' = Some r' \<and>
       (case media_recovery_of i db of
          Some r \<Rightarrow> mr_kind r' = mr_kind r \<and> mr_reply r' = mr_reply r \<and>
            mr_state r' = (if mr_state r = R_Claimed then R_Pending else mr_state r)
        | None \<Rightarrow> mr_state r' = R_Pending \<and> mr_reply r' \<noteq> [] \<and>
            (case sql_filled (stored_reply i db) of
               Some t \<Rightarrow> mr_kind r' = Forwarded_Reply \<and> mr_reply r' = t
             | None \<Rightarrow> mr_kind r' = Interrupted_Failure \<and> mr_reply r' = interrupted_notice)))"

text \<open>
  A recovery whose send may have gone out and cannot be repeated, as no intent with a provider id was left: it has failed with an
  error, and an outbound audit says so.
\<close>

definition loss_recorded :: "string \<Rightarrow> channel_db \<Rightarrow> channel_db \<Rightarrow> bool" where
  "loss_recorded i db db' \<longleftrightarrow>
     (\<exists>r \<in> set (wd_recoveries db). mr_id r = i \<and> mr_state r = R_Claimed \<and> \<not> resumable_recovery db r \<and>
       (\<exists>r' \<in> set (wd_recoveries db'). mr_id r' = i \<and> mr_reply r' = mr_reply r \<and> mr_state r' = R_Send_Failed \<and> mr_error r' \<noteq> None) \<and>
       (\<exists>a \<in> set (wd_outbound db'). oa_message a = Some i \<and> oa_body a = mr_reply r \<and> oa_status a = ''recovery_unknown''))"

lemma message_of_update:
  assumes "\<And>m. wm_id (f m) = wm_id m"
  shows "message_of i (update_messages p f db) = map_option (\<lambda>m. if p m then f m else m) (message_of i db)"
  unfolding message_of_def update_messages_fields by (rule find_update_where) (simp_all add: assms)

lemma message_of_others [simp]:
  "message_of i (update_audits p f db) = message_of i db" "message_of i (update_recoveries p' f' db) = message_of i db"
  "message_of i (restart_claims now db) = message_of i db" "message_of i (restart_jobs now db) = message_of i db"
  "message_of i (queue_notices now db) = message_of i db" "message_of i (db\<lparr>wd_outbound := os\<rparr>) = message_of i db"
  by (simp_all add: message_of_def restart_claims_def restart_jobs_def Let_def)

lemma recovery_of_update:
  assumes "\<And>r. mr_id (f r) = mr_id r"
  shows "media_recovery_of i (update_recoveries p f db) = map_option (\<lambda>r. if p r then f r else r) (media_recovery_of i db)"
  unfolding media_recovery_of_def update_recoveries_fields by (rule find_update_where) (simp_all add: assms)

lemma recovery_of_others [simp]:
  "media_recovery_of i (update_audits p f db) = media_recovery_of i db"
  "media_recovery_of i (update_messages p' f' db) = media_recovery_of i db"
  "media_recovery_of i (restart_claims now db) = media_recovery_of i db" "media_recovery_of i (restart_jobs now db) = media_recovery_of i db"
  "media_recovery_of i (mark_replied now db) = media_recovery_of i db" "media_recovery_of i (mark_interrupted now db) = media_recovery_of i db"
  "media_recovery_of i (db\<lparr>wd_outbound := os\<rparr>) = media_recovery_of i db"
  by (simp_all add: media_recovery_of_def restart_claims_def restart_jobs_def mark_replied_def mark_interrupted_def Let_def)

lemma recovery_of_add:
  "media_recovery_of i (add_recovery (\<lambda>r. False) r db) =
     (case media_recovery_of i db of Some q \<Rightarrow> Some q | None \<Rightarrow> if mr_id r = i then Some r else None)"
proof (cases "list_ex (\<lambda>q. mr_id q = mr_id r) (wd_recoveries db)")
  case True
  have "i \<noteq> mr_id r" if "media_recovery_of i db = None"
    using True that by (auto simp: media_recovery_of_def find_None_iff list_ex_iff)
  moreover have "update_recoveries (\<lambda>q. False) f db = db" for f by (rule update_recoveries_none) simp
  ultimately show ?thesis using True by (auto simp: add_recovery_def split: option.split)
qed (auto simp: add_recovery_def media_recovery_of_def find_append split: option.split)

lemma recovery_of_notices:
  assumes "\<And>m. mr_id (g m) = wm_id m"
  shows "media_recovery_of i (fold (\<lambda>m. add_recovery (\<lambda>r. False) (g m)) ms db) =
    (case media_recovery_of i db of Some q \<Rightarrow> Some q | None \<Rightarrow> map_option g (find (\<lambda>m. wm_id m = i) ms))"
proof (induction ms arbitrary: db)
  case Nil
  show ?case by (simp split: option.split)
next
  case (Cons m ms)
  then show ?case by (simp add: recovery_of_add assms split: option.split)
qed

lemma restart_recovery_id: "mr_id (restart_recovery_of now d m) = wm_id m"
  by (simp add: restart_recovery_of_def new_recovery_def split: option.splits)

lemma reply_before: "stored_reply i (restart_claims now (restart_jobs now db)) = stored_reply i db"
  by (simp add: stored_reply_def audit_of_def restart_claims_def restart_jobs_def Let_def)

lemma stored_reply_kept: "stored_reply i (mark_replied now (restart_recoveries now db)) = stored_reply i db"
proof -
  have "Option.bind (find (\<lambda>a. ca_id a = i) (update_where p f rows)) ca_reply = Option.bind (find (\<lambda>a. ca_id a = i) rows) ca_reply"
    if "\<And>a. ca_id (f a) = ca_id a" "\<And>a. ca_reply (f a) = ca_reply a" for p rows and f :: "channel_audit \<Rightarrow> channel_audit"
    by (induction rows) (simp_all add: update_where_def that)
  then have one: "stored_reply i (update_audits p f d) = stored_reply i d"
    if "\<And>a. ca_id (f a) = ca_id a" "\<And>a. ca_reply (f a) = ca_reply a" for p f d
    using that by (simp add: stored_reply_def audit_of_def)
  have others: "stored_reply i (update_messages p' f' d) = stored_reply i d" "stored_reply i (update_recoveries q g d) = stored_reply i d"
    "stored_reply i (d\<lparr>wd_outbound := os\<rparr>) = stored_reply i d" for p' f' q g os d
    by (simp_all add: stored_reply_def audit_of_def)
  show ?thesis by (simp add: mark_replied_def restart_recoveries_def Let_def one others)
qed

lemma restart_recoveries_message:
  "message_of i (restart_recoveries now db) =
     map_option (\<lambda>m. if list_ex (\<lambda>r. mr_id r = wm_id m) (filter (lost_recovery db) (wd_recoveries db)) then m\<lparr>wm_status := ''failed''\<rparr> else m)
       (message_of i db)"
  by (simp add: restart_recoveries_def Let_def message_of_update)

text \<open>The claims of recoveries at a restart.\<close>

lemma resumable_after_update:
  assumes "\<And>a. ca_id (f a) = ca_id a" and "\<And>a. ca_tenant (f a) = ca_tenant a"
  shows "resumable_recovery (update_audits p f db) r = resumable_recovery db r"
proof -
  have "map_option ca_tenant (find (\<lambda>a. ca_id a = i) (update_where p f rows)) = map_option ca_tenant (find (\<lambda>a. ca_id a = i) rows)" for i rows
    by (induction rows) (simp_all add: update_where_def assms)
  then show ?thesis by (simp add: resumable_recovery_def audit_of_def)
qed

lemma resumable_others [simp]:
  "resumable_recovery (update_messages p f db) r = resumable_recovery db r"
  "resumable_recovery (update_recoveries p' f' db) r = resumable_recovery db r"
  "resumable_recovery (db\<lparr>wd_outbound := os\<rparr>) r = resumable_recovery db r"
  "resumable_recovery (restart_claims now db) r = resumable_recovery db r" "resumable_recovery (restart_jobs now db) r = resumable_recovery db r"
  by (simp_all add: resumable_recovery_def audit_of_def restart_claims_def restart_jobs_def Let_def)

lemma restart_recoveries_alt:
  "wd_recoveries (restart_recoveries now db) =
     update_where (\<lambda>r. mr_state r = R_Claimed \<and> resumable_recovery db r) (\<lambda>r. r\<lparr>mr_state := R_Pending, mr_claimed := None, mr_updated := now\<rparr>)
       (update_where (lost_recovery db)
         (\<lambda>r. r\<lparr>mr_state := R_Send_Failed, mr_error := coalesce_text (mr_error r) (Some unknown_send_error),
              mr_completed := Some now, mr_updated := now\<rparr>) (wd_recoveries db))"
  by (simp add: restart_recoveries_def Let_def lost_recovery_def [abs_def] resumable_after_update)

lemma restart_recoveries_recovery:
  assumes "\<not> list_ex (\<lambda>r. mr_id r = i) (filter (lost_recovery db) (wd_recoveries db))"
  shows "media_recovery_of i (restart_recoveries now db) =
    map_option (\<lambda>r. if mr_state r = R_Claimed then r\<lparr>mr_state := R_Pending, mr_claimed := None, mr_updated := now\<rparr> else r)
      (media_recovery_of i db)"
proof (cases "media_recovery_of i db")
  case None
  then show ?thesis
    unfolding media_recovery_of_def restart_recoveries_alt by (simp add: find_update_where)
next
  case (Some r)
  then have "r \<in> set (wd_recoveries db)" "mr_id r = i" by (auto simp: media_recovery_of_def dest: find_Some_iff_in)
  with assms have "\<not> lost_recovery db r" by (auto simp: list_ex_iff)
  with Some show ?thesis
    unfolding media_recovery_of_def restart_recoveries_alt
    by (subst find_update_where, simp, simp, subst find_update_where, simp, simp) (auto simp: lost_recovery_def)
qed

lemma notices_keep_recoveries: "r \<in> set (wd_recoveries db) \<Longrightarrow> r \<in> set (wd_recoveries (queue_notices now db))"
proof -
  have add: "r \<in> set (wd_recoveries (add_recovery (\<lambda>r. False) q d))" if "r \<in> set (wd_recoveries d)" for q d
    using that by (simp add: add_recovery_def in_update_where)
  have "r \<in> set (wd_recoveries (fold (\<lambda>m. add_recovery (\<lambda>r. False) (g m)) ms d))" if "r \<in> set (wd_recoveries d)" for g ms d
    using that by (induction ms arbitrary: d) (simp_all add: add)
  then show "r \<in> set (wd_recoveries db) \<Longrightarrow> ?thesis" by (simp add: queue_notices_def)
qed

lemma last_part_keeps:
  "r \<in> set (wd_recoveries db) \<Longrightarrow> r \<in> set (wd_recoveries (restart_messages now db))"
  "wd_outbound (restart_messages now db) = wd_outbound db"
proof -
  assume "r \<in> set (wd_recoveries db)"
  then have "r \<in> set (wd_recoveries (mark_replied now db))" by (simp add: mark_replied_def)
  then show "r \<in> set (wd_recoveries (restart_messages now db))"
    using notices_keep_recoveries by (simp add: restart_messages_alt mark_interrupted_def Let_def)
next
  have notices: "wd_outbound (fold (\<lambda>m. add_recovery p (g m)) ms d) = wd_outbound d" for p g ms d
    by (induction ms arbitrary: d) (simp_all add: add_recovery_def)
  show "wd_outbound (restart_messages now db) = wd_outbound db"
    by (simp add: restart_messages_alt mark_interrupted_def mark_replied_def queue_notices_def Let_def notices)
qed

lemma lost_recoveries_recorded:
  assumes "list_ex (\<lambda>r. mr_id r = i) (filter (lost_recovery db) (wd_recoveries db))" and "message_of i db = Some m"
  shows "loss_recorded i db (restart_messages now (restart_recoveries now db))"
proof -
  from assms(1) obtain r where r: "r \<in> set (wd_recoveries db)" "mr_id r = i" "lost_recovery db r" by (auto simp: list_ex_iff)
  let ?r = "r\<lparr>mr_state := R_Send_Failed, mr_error := coalesce_text (mr_error r) (Some unknown_send_error),
      mr_completed := Some now, mr_updated := now\<rparr>"
  have "?r \<in> set (wd_recoveries (restart_recoveries now db))"
    unfolding restart_recoveries_alt using r(1,3) by (force simp: in_update_where)
  moreover have "mr_error ?r \<noteq> None" by (simp add: coalesce_text_def split: option.split)
  moreover have "\<exists>a \<in> set (lost_audit now db r). oa_message a = Some i \<and> oa_body a = mr_reply r \<and> oa_status a = ''recovery_unknown''"
    using assms(2) r(2) by (simp add: lost_audit_def)
  moreover have "set (lost_audit now db r) \<subseteq> set (wd_outbound (restart_recoveries now db))"
    using r(1,3) by (auto simp: restart_recoveries_def Let_def)
  ultimately show ?thesis
    using r last_part_keeps(1) [of _ "restart_recoveries now db" now] last_part_keeps(2) [of now "restart_recoveries now db"]
    unfolding loss_recorded_def lost_recovery_def
    by (intro bexI [of _ r] conjI bexI [of _ ?r]) auto
qed

lemma cut_off_recorded:
  assumes "m \<in> set (cut_off (mark_replied now db))" and "wm_id m = i"
  shows "media_recovery_of i (restart_messages now db) =
    (case media_recovery_of i db of Some q \<Rightarrow> Some q
     | None \<Rightarrow> Some (restart_recovery_of now (mark_replied now db) m))"
proof -
  have "find (\<lambda>m. wm_id m = i) (cut_off (mark_replied now db)) \<noteq> None" using assms by (auto simp: find_None_iff)
  then obtain q where q: "find (\<lambda>m. wm_id m = i) (cut_off (mark_replied now db)) = Some q" by blast
  then have "wm_id q = wm_id m" using assms(2) by (auto dest: find_Some_iff_in)
  then have "restart_recovery_of now d q = restart_recovery_of now d m" for d
    by (simp add: restart_recovery_of_def split: option.split)
  with q show ?thesis
    by (simp add: restart_messages_alt queue_notices_def recovery_of_notices restart_recovery_id split: option.split)
qed

lemma interrupted_notice_filled: "interrupted_notice \<noteq> []"
  by (simp add: interrupted_notice_def)

lemma sql_filled_Some: "sql_filled v = Some t \<Longrightarrow> t \<noteq> []"
  unfolding sql_filled_def Let_def by (cases v, simp, simp only: option.case split: if_split_asm) (simp, simp only: option.inject not_False_eq_True)

lemma cut_message_recorded:
  assumes "\<not> list_ex (\<lambda>r. mr_id r = i) (filter (lost_recovery db) (wd_recoveries db))"
    and "m \<in> set (cut_off (mark_replied now (restart_recoveries now db)))" and "wm_id m = i"
  shows "answer_recorded i db (restart_messages now (restart_recoveries now db))"
proof (cases "media_recovery_of i db")
  case None
  then have new: "media_recovery_of i (restart_messages now (restart_recoveries now db)) =
      Some (restart_recovery_of now (mark_replied now (restart_recoveries now db)) m)"
    using cut_off_recorded [OF assms(2,3)] restart_recoveries_recovery [OF assms(1), of now] by simp
  show ?thesis
  proof (cases "sql_filled (stored_reply i db)")
    case none: None
    have "restart_recovery_of now (mark_replied now (restart_recoveries now db)) m = new_recovery i Interrupted_Failure interrupted_notice now"
      by (simp add: restart_recovery_of_def assms(3) stored_reply_kept none)
    with new None none show ?thesis by (simp add: answer_recorded_def new_recovery_def interrupted_notice_filled)
  next
    case (Some t)
    have "restart_recovery_of now (mark_replied now (restart_recoveries now db)) m = new_recovery i Forwarded_Reply t now"
      by (simp add: restart_recovery_of_def assms(3) stored_reply_kept Some)
    with new None Some sql_filled_Some [OF Some] show ?thesis by (simp add: answer_recorded_def new_recovery_def)
  qed
next
  case (Some r)
  with cut_off_recorded [OF assms(2,3)] restart_recoveries_recovery [OF assms(1), of now]
  show ?thesis by (simp add: answer_recorded_def)
qed

text \<open>A message that was in work: where it is after the last part of a restart.\<close>

lemma restart_messages_cases:
  assumes "message_of i db = Some m" and "wm_status m = ''processing''" and "wm_has_media m"
  obtains m' where "message_of i (restart_messages now db) = Some m'"
    and "wm_status m' = ''processing'' \<and> waits_for_worker i (restart_messages now db) \<or>
      wm_status m' = ''replied'' \<and> delivered_to i (restart_messages now db) \<or>
      wm_status m' = ''interrupted'' \<and> (\<exists>q \<in> set (cut_off (mark_replied now db)). wm_id q = i)"
proof -
  have id: "wm_id m = i" and m: "m \<in> set (wd_messages db)" using assms(1) by (auto simp: message_of_def dest: find_Some_iff_in)
  let ?db1 = "mark_replied now db"
  have one: "message_of i ?db1 = Some (if delivered_to i db then m\<lparr>wm_status := ''replied''\<rparr> else m)"
    by (simp add: mark_replied_def message_of_update assms id delivered_to_def)
  have w: "waits_for_worker i (restart_messages now db) = waits_for_worker i db" "waits_for_worker i ?db1 = waits_for_worker i db"
    by (simp_all add: waits_for_worker_def waits_after_restart mark_replied_def)
  have last: "message_of i (restart_messages now db) = map_option
      (\<lambda>m. if wm_status m = ''processing'' \<and> \<not> waits_for_worker (wm_id m) (queue_notices now ?db1) then m\<lparr>wm_status := ''interrupted''\<rparr> else m)
      (message_of i ?db1)"
    by (simp add: restart_messages_alt mark_interrupted_def Let_def message_of_update)
  have w1: "waits_for_worker i (queue_notices now ?db1) = waits_for_worker i db"
    by (simp add: waits_for_worker_def mark_replied_def)
  consider "delivered_to i db" | "\<not> delivered_to i db" "waits_for_worker i db" | "\<not> delivered_to i db" "\<not> waits_for_worker i db" by blast
  then show thesis
  proof cases
    case 1
    show thesis by (rule that [of "m\<lparr>wm_status := ''replied''\<rparr>"]) (use 1 last one delivered_messages in simp_all)
  next
    case 2
    show thesis by (rule that [of m]) (use 2 last one id w w1 assms(2) in simp_all)
  next
    case 3
    have "m \<in> set (wd_messages ?db1)" using 3 one by (auto simp: message_of_def dest: find_Some_iff_in)
    then have "m \<in> set (cut_off ?db1)" using assms(2,3) 3 w(2) id by (simp add: cut_off_def)
    with id show thesis by (intro that [of "m\<lparr>wm_status := ''interrupted''\<rparr>"]) (use 3 last one id w1 assms(2) in auto)
  qed
qed

text \<open>The first parts of a restart leave what is recorded alone.\<close>

lemma recorded_before:
  "answer_recorded i (restart_claims now (restart_jobs now db)) = answer_recorded i db"
  "loss_recorded i (restart_claims now (restart_jobs now db)) = loss_recorded i db"
proof -
  show "answer_recorded i (restart_claims now (restart_jobs now db)) = answer_recorded i db"
    unfolding fun_eq_iff answer_recorded_def recovery_of_others reply_before by simp
  have "wd_recoveries (restart_claims now (restart_jobs now db)) = wd_recoveries db"
    by (simp add: restart_claims_def restart_jobs_def Let_def)
  then show "loss_recorded i (restart_claims now (restart_jobs now db)) = loss_recorded i db"
    by (simp add: fun_eq_iff loss_recorded_def)
qed

text \<open>
  C39. No interrupted media is forgotten: a message with media that was in work when the process died waits in a voice job after
  the restart, or its reply was delivered; or it counts as interrupted, and the recovery it had is kept, a claimed one ready to be
  sent again, or a pending recovery holds the reply that was stored for it or else the notice; or its recovery was being sent
  without a provider id, and that has failed with an error and an outbound audit.
\<close>

theorem interrupted_media_is_answered:
  assumes "message_of i db = Some m" and "wm_status m = ''processing''" and "wm_has_media m"
  shows "\<exists>m'. message_of i (open_channel_store now db) = Some m' \<and>
    (wm_status m' = ''processing'' \<and> waits_for_worker i (open_channel_store now db) \<or>
     wm_status m' = ''replied'' \<and> delivered_to i (open_channel_store now db) \<or>
     wm_status m' = ''interrupted'' \<and> answer_recorded i db (open_channel_store now db) \<or>
     wm_status m' = ''failed'' \<and> loss_recorded i db (open_channel_store now db))"
proof -
  let ?c = "restart_claims now (restart_jobs now db)"
  let ?r = "restart_recoveries now ?c"
  have id: "wm_id m = i" using assms(1) by (auto simp: message_of_def dest: find_Some_iff_in)
  show ?thesis
  proof (cases "list_ex (\<lambda>r. mr_id r = i) (filter (lost_recovery ?c) (wd_recoveries ?c))")
    case True
    with assms(1) have "loss_recorded i db (open_channel_store now db)"
      using lost_recoveries_recorded [OF True, of m now] by (simp add: open_channel_store_def recorded_before)
    moreover have "message_of i ?r = Some (m\<lparr>wm_status := ''failed''\<rparr>)"
      using True assms(1) id by (simp add: restart_recoveries_message)
    then have "message_of i (open_channel_store now db) = Some (m\<lparr>wm_status := ''failed''\<rparr>)"
      by (simp add: open_channel_store_def restart_messages_alt mark_interrupted_def Let_def mark_replied_def message_of_update)
    ultimately show ?thesis by simp
  next
    case False
    then have "message_of i ?r = Some m" using assms(1) id by (simp add: restart_recoveries_message)
    moreover have "answer_recorded i db (open_channel_store now db)" if "q \<in> set (cut_off (mark_replied now ?r))" "wm_id q = i" for q
      using cut_message_recorded [OF False that] unfolding open_channel_store_def recorded_before .
    ultimately show ?thesis
      using restart_messages_cases [of i ?r m now] assms(2,3) unfolding open_channel_store_def by metis
  qed
qed

end
