(* ===== verification/Worker_Examples.thy ===== *)
theory Worker_Examples
  imports Worker_Props Worker_Sends Channel_Restart
begin

text \<open>
  The properties of the channel store and the voice worker at concrete runs, a run in which a reply gets a second provider id, and
  three runs in which a note whose handoff was put off is not treated well later: it runs beside a second copy of it, its
  final notice is not sent, or its reply is lost.
\<close>

definition demo_voice :: "string \<Rightarrow> create_voice_job" where
  "demo_voice i =
     \<lparr>cv_id = i, cv_reply_to = None, cv_tenant = ''t'', cv_conversation = ''c'', cv_sender = ''s'', cv_chat = ''c'',
      cv_artifact = ''a'', cv_path = ''p'', cv_sha = ''h'', cv_mime = None, cv_file = None, cv_caption = [], cv_duration = None,
      cv_confirmed = True\<rparr>"

definition demo_message :: "string \<Rightarrow> inbound_event" where
  "demo_message i =
     \<lparr>ie_id = i, ie_chat = ''c'', ie_sender = ''1@s'', ie_sender_name = ''n'', ie_chat_name = [], ie_group = False,
      ie_timestamp = None, ie_body = [], ie_has_media = True, ie_media_type = Some ''ptt'', ie_mime = None, ie_file = None\<rparr>"

definition demo_claim :: "string \<Rightarrow> claim_input" where
  "demo_claim i = \<lparr>ci_id = i, ci_tenant = ''t'', ci_channel = ''whatsapp'', ci_sha = ''h'', ci_window = 1000\<rparr>"

definition voice_env :: worker_env where
  "voice_env = \<lparr>we_begin = No_Usage, we_settle_throws = False, we_now = 10, we_connected = True\<rparr>"

definition demo_text :: json where "demo_text = JObj [(''text_transcript'', JStr ''hello'')]"

definition demo_audit :: audit_input where
  "demo_audit =
     \<lparr>ai_id = [], ai_tenant = ''t'', ai_sender = ''s'', ai_transcript = None, ai_provenance = None,
      ai_transcription_failure = None, ai_artifact = None, ai_sha = None, ai_destination = ''r'', ai_correlation = None,
      ai_receipt = None, ai_reply = None, ai_canonical = None, ai_owner = True, ai_timing = no_timing\<rparr>"

abbreviation demo_worker :: "voice_move list \<Rightarrow> voice_system" where
  "demo_worker moves \<equiv> run_voice (\<lambda>s. s) (\<lambda>v. ''no'') moves new_voice_system"

text \<open>A note is transcribed and handed to Ring, which answers; the process dies while the reply is sent, and sends it again.\<close>

definition note_run :: "voice_move list" where
  "note_run =
     [Vm_Op (Co_Inbound (demo_message ''m'') 1), Vm_Op (Co_Status ''m'' ''processing'' 2), Vm_Op (Co_Claim_Media (demo_claim ''m'') 2),
      Vm_Op (Co_Create (demo_voice ''m'') 3), Vm_Kick, Vm_Pass voice_env, Vm_Answer voice_env An_Read,
      Vm_Answer voice_env (An_Text demo_text)]"

definition demo_answered :: "voice_move list" where
  "demo_answered = note_run @ [Vm_Answer voice_env (An_Ring (Ring_Replied demo_audit ''done'')), Vm_Drain_Pass 0 ''P1'' False 11]"

definition demo_again :: "voice_move list" where
  "demo_again = demo_answered @ [Vm_Restart 20, Vm_Drain, Vm_Drain_Pass 1 ''P2'' False 21]"

lemma bounded_reply_code [code]:
  "bounded_recovery_reply v =
     (case v of None \<Rightarrow> None
      | Some s \<Rightarrow> let t = js_trim s
          in if t = [] then None else Some (if int (length t) \<le> 65536 then t else take max_recovery_reply_chars t))"
  by (simp add: bounded_recovery_reply_def max_recovery_reply_chars_def Let_def split: option.splits)

lemma demo_again_sends: "map snd (vs_sends (demo_worker demo_again)) = [''P1'', ''P1'']"
  by code_simp

definition demo_intent :: intent_input where
  "demo_intent = \<lparr>ii_source = ''m'', ii_tenant = Some ''t'', ii_provider_id = ''P1'', ii_chat = ''1@s'', ii_contact = Some ''1@s'',
     ii_body = ''done'', ii_status = ''recovery_sent'', ii_receipt = False\<rparr>"

lemma demo_again_ids:
  "map (\<lambda>x. fst x = oi_id (new_intent (\<lambda>s. s) demo_intent 11)) (vs_sends (demo_worker demo_again)) = [True, True]"
  by code_simp

lemma resent_message_keeps_its_id_witness:
  "\<exists>p q. vs_sends (demo_worker demo_again) = [p, q] \<and> snd q = snd p \<and>
     provider_of (oi_id (new_intent (\<lambda>s. s) demo_intent 11)) (vs_db (demo_worker demo_again)) = Some (snd q)"
proof -
  let ?i = "oi_id (new_intent (\<lambda>s. s) demo_intent 11)"
  have "oi_id (new_intent (\<lambda>s. s) (demo_intent\<lparr>ii_provider_id := ''P2''\<rparr>) 21) = ?i" by (simp add: new_intent_def intent_text_def)
  moreover from demo_again_ids obtain p q where xs: "vs_sends (demo_worker demo_again) = [(?i, p), (?i, q)]"
    by (auto simp: map_eq_Cons_conv)
  ultimately have "(?i, p) \<in> set (vs_sends (demo_worker demo_again))"
    "(oi_id (new_intent (\<lambda>s. s) (demo_intent\<lparr>ii_provider_id := ''P2''\<rparr>) 21), q) \<in> set (vs_sends (demo_worker demo_again))"
    by simp_all
  from resent_message_keeps_its_id [OF this] xs show ?thesis by simp
qed

text \<open>
  The eligibility for a receipt is part of the identity of a message. A reply that was not eligible when it was sent and is when
  the restarted process sends it again goes out with another provider id.
\<close>

lemma a_reply_can_get_another_id:
  "map snd (vs_sends (demo_worker (demo_answered @ [Vm_Restart 20, Vm_Drain, Vm_Drain_Pass 1 ''P2'' True 21]))) = [''P1'', ''P2'']"
  "map (\<lambda>q. (oi_source q, oi_body q, oi_receipt q))
     (wd_intents (vs_db (demo_worker (demo_answered @ [Vm_Restart 20, Vm_Drain, Vm_Drain_Pass 1 ''P2'' True 21])))) =
   [(''m'', ''done'', False), (''m'', ''done'', True)]"
  by code_simp+

text \<open>A note of which Ring may be called again is called again after the tenant has repaired its connection.\<close>

definition demo_retry :: "voice_move list" where
  "demo_retry =
     note_run @ [Vm_Answer voice_env (An_Ring (Ring_Failed True)), Vm_Op (Co_Resume ''t'' 15), Vm_Kick,
       Vm_Answer voice_env (An_Drained True), Vm_Drain_Pass 0 ''P1'' False 16, Vm_Drain_Answer 0 (Provider_Sent ''X1'') 17,
       Vm_Drain_Pass 0 ''P2'' False 18, Vm_Answer voice_env (An_Drained True), Vm_Pass voice_env]"

text \<open>A restart while Ring works: the outcome is unknown and the sender is told; nothing brings the note back.\<close>

definition cut_note :: channel_db where
  "cut_note = vs_db (demo_worker note_run)"

lemma cut_note_message: "map_option (\<lambda>m. (wm_status m, wm_has_media m)) (message_of ''m'' cut_note) = Some (''processing'', True)"
  unfolding cut_note_def by code_simp

lemma cut_note_alone: "media_recovery_of ''m'' cut_note = None" "sql_filled (stored_reply ''m'' cut_note) = None"
  unfolding cut_note_def by code_simp+

lemma interrupted_media_is_answered_witness:
  "\<exists>r. media_recovery_of ''m'' (open_channel_store 20 cut_note) = Some r \<and> mr_state r = R_Pending \<and>
     mr_kind r = Interrupted_Failure \<and> mr_reply r = interrupted_notice"
proof -
  from cut_note_message obtain m where m: "message_of ''m'' cut_note = Some m" "wm_status m = ''processing''" "wm_has_media m" by auto
  have "(case message_of ''m'' (open_channel_store 20 cut_note) of None \<Rightarrow> False | Some m \<Rightarrow> wm_status m = ''interrupted'')"
    unfolding cut_note_def by code_simp
  with interrupted_media_is_answered [OF m, of 20] show ?thesis
    by (auto simp: answer_recorded_def cut_note_alone split: option.splits)
qed

lemma unknown_note: "map_option vj_state (voice_job_of ''m'' (open_channel_store 20 cut_note)) = Some V_Outcome_Unknown"
  unfolding cut_note_def by code_simp

lemma voice_outcome_is_final_witness:
  "map_option vj_state (voice_job_of ''m'' (run_channel [Co_Resume ''t'' 30, Co_Handoff ''m'' 31] (open_channel_store 20 cut_note))) =
     Some V_Outcome_Unknown"
proof -
  from unknown_note obtain j where j: "voice_job_of ''m'' (open_channel_store 20 cut_note) = Some j" "vj_state j = V_Outcome_Unknown" by auto
  from voice_outcome_is_final [OF j(1), of "[Co_Resume ''t'' 30, Co_Handoff ''m'' 31]"] j(2)
  show ?thesis by (auto simp: fixed_states_def)
qed

section \<open>A note whose handoff was put off\<close>

text \<open>
  While the note waits for the repair, its media counts as failed; a second copy becomes an owner of its own, and after the repair
  both are handed to Ring.
\<close>

lemma a_deferred_note_can_run_twice:
  "map (\<lambda>c. (mc_id c, mc_role c, mc_state c))
     (wd_claims (vs_db (demo_worker (note_run @ [Vm_Answer voice_env (An_Ring (Ring_Failed True)),
        Vm_Op (Co_Claim_Media (demo_claim ''n'') 100), Vm_Op (Co_Resume ''t'' 200)])))) =
   [(''m'', Owner, M_Processing), (''n'', Owner, M_Processing)]"
  by code_simp

text \<open>
  The notice of the deferral was sent. When the repeated handoff ends with an unknown outcome, the final notice is not queued: the row
  of the first notice is in its place.
\<close>

lemma a_final_notice_can_be_missing:
  "(case voice_job_of ''m'' (vs_db (demo_worker (demo_retry @ [Vm_Answer voice_env (An_Ring (Ring_Failed False))]))) of
      Some j \<Rightarrow> vj_state j = V_Outcome_Unknown | None \<Rightarrow> False) \<and>
   map (\<lambda>r. (mr_state r, mr_outbound r))
     (wd_recoveries (vs_db (demo_worker (demo_retry @ [Vm_Answer voice_env (An_Ring (Ring_Failed False))])))) =
   [(R_Notified, Some ''X1'')]"
  by code_simp

text \<open>
  The notice of the deferral is still being sent by the gateway when the repeated handoff has its reply. The end of that sending is
  taken for the end of the reply's: after a restart the recovery of the reply counts as sent, and its intent stays unsent.
\<close>

definition crossed_sends :: "voice_move list" where
  "crossed_sends =
     note_run @ [Vm_Answer voice_env (An_Ring (Ring_Failed True)), Vm_Drain, Vm_Drain_Pass 1 ''P1'' False 16, Vm_Drain_Pass 0 ''P2'' False 17,
       Vm_Op (Co_Resume ''t'' 18), Vm_Answer voice_env (An_Drained True), Vm_Pass voice_env,
       Vm_Answer voice_env (An_Ring (Ring_Replied demo_audit ''done'')), Vm_Drain_Pass 2 ''P3'' False 19,
       Vm_Drain_Answer 1 (Provider_Sent ''X1'') 20, Vm_Restart 21]"

lemma a_reply_can_be_lost:
  "(let s = demo_worker crossed_sends
    in (map (\<lambda>r. (mr_kind r, mr_state r)) (wd_recoveries (vs_db s)), map vj_state (wd_jobs (vs_db s)),
      map (\<lambda>q. (oi_provider_id q, oi_sent q)) (wd_intents (vs_db s)))) =
   ([(Forwarded_Reply, R_Notified)], [V_Reply_Ready], [(''P1'', True), (''P3'', False)])"
  by code_simp

end
