(* ===== verification/Spec2Isabelle.thy ===== *)
theory Spec2Isabelle
  imports Ledger_Examples OAuth_Examples Tenant_Examples Exec_Examples Task_Jobs_Examples Notify_Examples Job_Lanes_Examples Ingest_Examples
    Journey_Examples Write_Examples Usage_Examples Worker_Examples
begin

text \<open>
  Zenod keeps the memory of an organisation in a vault and serves it to agents over MCP, to people over
  messaging channels, and to a fleet of worker units. This development models the parts of it that decide who may
  do what, how often, and what is charged for it: stateful components over SQLite tables and
  asynchronous queues over those.

  \<^bold>\<open>The program and how its parts interact.\<close> A unit is reached through the MCP chassis (packages/mcp-chassis):
  a request carries a token, which the tenant store or the OAuth server turns into a tenant and a
  profile. Agentic work of a tenant is enqueued in the job store and done by the two lanes of the job worker,
  which call the engine of the vault; a result counts as stored only with a durable receipt. A filing that was
  interrupted is recovered by the worker. Files that people drop go through the ingest queue, which downloads,
  transcribes or reads them and files the text. Every write to a vault
  runs in the write queue of its engine under the lock of the vault. Delegated work is recorded as journeys of steps, which a monitor
  claims and reconciles with the units that do them. Each unit counts its use by tenant and kind in a usage ledger, which
  a tenant's quota is checked against. Messages from WhatsApp are kept in the channel store; its voice notes are
  transcribed by a worker and handed to Ring, the assistant behind the channel. Paid channel work is admitted, leased and settled in the
  Phylax allowance ledger. Development work runs through the execution queue with its durable
  tickets, and every proactive message goes through the notification bus and its journal.

  \<^bold>\<open>The theories.\<close>

  \<^item> Prelude: JavaScript values, errors as sums, SQLite tables as lists of rows, and the locales
    \<open>protocol_invariant\<close>, \<open>protocol_order_under\<close> and \<open>operations\<close>: an invariant of one action of a protocol
    holds in every reached state, a preorder that one action respects relates any two states of a run,
    and operations that are runs of the protocol inherit both. Every store is an interpretation.
  \<^item> Phylax allowance ledger (server/src/phylaxAllowanceLedger.ts). Ledger_State has the tables, the triggers that
    keep totals, and the reads; Ledger_Entries the grants, adjustments, usage, suspension, expiry
    and projections; Ledger_Work the admission, evaluation, leases and settlement of paid work. Ledger_Protocol
    states a small nondeterministic protocol of what may happen to entries, totals and work rows, with
    its invariant and history order; Ledger_Refinement shows that each public operation, through every branch, is
    a run of it. Ledger_Props and Ledger_Leases have the properties: exact totals, solvency, well-formed entries,
    final settlement, exclusive leases. Ledger_Examples applies them to a small ledger.
  \<^item> OAuth server (mcp-chassis/src/oauth.ts, oauthSqliteStore.ts). OAuth_Store states the interface of a store as the
    locale \<open>oauth_store\<close> against an abstract view, and interprets it for the in-memory and the SQLite store;
    OAuth_Server has the handlers, generic in the store, and proves that both stores answer alike, that a
    code works once, and that tokens and codes need the consent of their tenant.
  \<^item> Tenant store (mcp-chassis/src/sqliteTenantStore.ts, and the authentication in index.ts). Tenant_Store has the three
    tables and every operation; Tenant_Props shows that they refine a map from token hashes to a tenant
    and a profile, which each operation changes in one of four ways.
  \<^item> Execution queue (server/src/executionQueue.ts, executionStore.ts, executionLane.ts). Exec_Queue translates each
    handler between its awaits: a waiting handler is a stack of frames, \<open>resume\<close> runs the top frame with the answer it
    waits for. Exec_System interleaves requests and answers; Exec_Props, Exec_Flow and Exec_Settle have the
    concurrency cap, the approval gate, the use of free slots and the measure by which tasks settle;
    Exec_Store the rows, the boot update, and the agreement of rows and tickets.
  \<^item> Job store (server/src/taskJobStore.ts): Task_Jobs has enqueueing, claims with leases, fenced updates, retries and the
    recovery sweeps, and Task_Jobs_Props what they keep when several instances and tenants share the table.
  \<^item> Job worker (server/src/taskJobQueue.ts, vaultRecovery.ts). Durable_Receipt is the check of receipts
    (durableReceipt.ts); Media_Ingest the decisions and texts of media jobs; Job_Lanes the two lanes, the processing of
    a job with every await, lease timers, closing, and the recovery of an interrupted filing.
    Job_Lanes_Effects sums up what one uninterrupted run can do (\<open>effects\<close>) and the invariant \<open>orderly\<close> of the
    tasks; Job_Lanes_Props has the claims of other instances, which no move of the worker touches, the
    receipts of done jobs and the end of every run, Job_Lanes_Service that queued jobs are served, and Job_Lanes_Examples the
    instances together with a schedule on which an enqueued job is missed.
  \<^item> Ingest (server/src/ingestStore.ts, ingestQueue.ts, ingestWatchdog.ts). Ingest_Store has the rows, the requeue and
    the watchdog; Ingest_Queue the drain as one task that processes a file with every await. Ingest_Props shows that one
    uninterrupted run of the drain is a \<open>job_run\<close>, Ingest_Safety the invariant \<open>ingest_inv\<close> (a row in work belongs to the one
    drain, done rows have a checked receipt), Ingest_Service that no wakeup is lost, that texts are read once and
    that a cancelled job stays cancelled when its call fails; Ingest_Examples the instances and two runs in
    which a cancelled job does not.
  \<^item> Journeys (server/src/journeyStore.ts, journeyMonitor.ts). Journey_Store has the four tables and every operation;
    Journey_Log the protocol of events and statuses that all operations follow, with the invariant that replaying
    the log gives the statuses; Journey_Props the completeness of the log and that completions are earned; Journey_Claims
    that a lease is exclusive; Journey_Monitor the overlapping passes of the monitor, which keep to the store;
    Journey_Examples the instances, a claim that starves a ready step, and a late answer that undoes a completion.
  \<^item> Writes to a vault (core/src/git/vaultWriteLock.ts, queue.ts). Vault_Lock has the calls of the lock with every await
    and retry, in any number of processes; Write_Queue the queues of engines over it. Lock_Props shows that the lock
    belongs to the call that works under it, that nested work goes on under the lock of a call whose function still runs
    or has returned (\<open>lenders_ok\<close>), and the bound on attempts; Write_Props lifts them to systems of queues and shows their
    order; Write_Examples has the instances and two runs in which a function goes on after the function has returned whose
    lock it inherited (\<open>outlives_lock\<close>), the only case that the property of the single writer leaves out.
  \<^item> Usage (mcp-chassis/src/usage.ts). Usage_Store has the tables and every operation, and the processes that share a
    database, with each transaction of the migration and of a prune run as a step. Usage_Tally states what an upsert of
    counted rows does as the locale \<open>tally\<close> and interprets it for the totals and the days. Usage_Props has the invariant
    against the history of rows, the exact totals and the quota; Usage_Summary that pruning loses nothing and what
    summaries count; Usage_Examples the instances and a run in which a late reset forgets old use. What is stored, raw rows and
    days, is the history in every run (\<open>stored_inv\<close>); the properties of the totals assume that no process that has
    read that there is no watermark resets them after another has set one (\<open>resets_in_time\<close>), which that run shows to be needed.
  \<^item> Channels (server/src/whatsappStore.ts, the voice worker in phylaxPortedRuntime.ts and the recovery loop in
    whatsappGateway.ts). Channel_State has the tables, Channel_Voice the voice jobs, Channel_Media messages, coalesced media and
    audits, Channel_Outbound recoveries, intents and the opening of the store, Channel_Ops all operations as values; Channel_Worker
    the worker and the loop with every await. Channel_Props shows the state machine of voice jobs and counts handoffs;
    Channel_Restart that a restart settles everything, needs no second one, and what it records for media that was in work,
    down to the text of the answer (\<open>answer_recorded\<close>, \<open>loss_recorded\<close>). Worker_Invariant
    states what a property of runs has to show of single operations as the locale \<open>worker_invariant\<close>; Worker_Props interprets
    it for the calls of Ring, Worker_Sends for the ids of messages. Worker_Examples has the instances, a run in which a
    reply that becomes eligible for a receipt goes out under a second id, and three runs in which a note whose
    handoff was put off is not treated well. The warning sign in front of the notice of an interrupted message is not
    part of its text here, and an exception of \<open>inboundMediaIdentity\<close> before the call of Ring is not modelled.
  \<^item> Notifications (server/src/notificationStore.ts, notificationBus.ts): Notify_Bus has the journal queries and the two
    halves of \<open>notify\<close> around the sending; Notify_Props shows coalescing and ordering for awaited messages, and two
    ways around them.

  \<^bold>\<open>Conventions.\<close> A table is the list of its rows in insertion order; \<open>ORDER BY\<close> is the stable \<open>order_by\<close>. A
  statement inside a transaction that throws leaves the table as it was. An exception is the left value of a
  sum. Times are \<open>int\<close> milliseconds and are arguments; random tokens, hashes, URL parsing and the answers of
  other services are arguments too, so a property holds for all of them unless it names what it needs (for instance
  that tokens are fresh). Counters of the program are JavaScript numbers that it checks to be safe integers,
  and are \<open>int\<close> here with that check; sums of them, which the ledger leaves to SQLite, are unbounded here. Asynchronous code runs alone between two awaits; at an await every other
  move may come, and a property of a run quantifies over all of them.

  \<^bold>\<open>Loops and bounds.\<close> Loops over rows are structural. The skip scan of the tenant inventory is bounded by the
  number of tenants it still can find. The execution queue needs no fuel: each \<open>resume\<close> returns,
  and a weight of the tickets and frames falls with every answer. A drain of a job lane is one step per
  job, and the polling of a recovery is a task that can be answered again and again until its deadline, so neither
  needs a bound. Recoveries start at least five minutes apart; a capture is tried at most three times.

  \<^bold>\<open>Not modelled.\<close> The engine of the vault (packages/core) judges free text with language models; its calls are
  answers here. Git, Drive and file access, HTTP routing, HTML pages, provider adapters and messaging gateways
  are input and output around the modelled decisions. Logging and subscriber callbacks
  have no effect on the modelled state. Migrations of old schemas are modelled
  for the ledger and the usage totals only. The in-memory tenant store repeats the modelled one, billing events are webhooks of a
  provider, and the scripted journeys and their reconciler read the answers of other units into the modelled journey
  store. The gateways speak the protocols of messaging services; the queries of the channel store for transcripts,
  follow-ups and digests search in texts.
\<close>

end
